(* ===== verification/GoTime.thy ===== *)
theory GoTime
  imports Main
begin

text \<open>
  \<open>time.Time\<close> as the nanoseconds since Go's zero time, so the zero value of the type is 0 and
  \<open>IsZero\<close> compares with it; \<open>time.Duration\<close> as its nanoseconds. \<open>Sub\<close> saturates at the ends of the
  64-bit range, as Go's does. Clock readings are arguments of the operations that take them.
\<close>

type_synonym time = int
type_synonym duration = int

definition IsZero :: "time \<Rightarrow> bool" where
  "IsZero t \<longleftrightarrow> t = 0"

definition Before :: "time \<Rightarrow> time \<Rightarrow> bool" where
  "Before t u \<longleftrightarrow> t < u"

definition After :: "time \<Rightarrow> time \<Rightarrow> bool" where
  "After t u \<longleftrightarrow> u < t"

definition Add :: "time \<Rightarrow> duration \<Rightarrow> time" where
  "Add t d = t + d"

definition Sub :: "time \<Rightarrow> time \<Rightarrow> duration" where
  "Sub t u = max (- (2 ^ 63)) (min (2 ^ 63 - 1) (t - u))"

definition Millisecond :: duration where "Millisecond = 1000000"
definition Second :: duration where "Second = 1000000000"
definition Minute :: duration where "Minute = 60000000000"
definition Hour :: duration where "Hour = 3600000000000"

lemmas time_defs = IsZero_def Before_def After_def Add_def

lemma Sub_le_iff: "- (2 ^ 63) \<le> d \<Longrightarrow> d < 2 ^ 63 - 1 \<Longrightarrow> Sub t u \<le> d \<longleftrightarrow> t - u \<le> d"
  by (auto simp: Sub_def)

end
