(* ===== verification/Prelude.thy ===== *)
theory Prelude
  imports Main "HOL-Library.AList"
begin

text \<open>
  Shared vocabulary of the development: error values, the result type of fallible operations and
  its sequencing operator, Go maps as association lists, and the generic lemmas that the component
  theories use through the collections declared here.

  A Go map is an association list with distinct keys. The order of the list stands for the
  iteration order of a \<open>range\<close> loop, which Go leaves unspecified: a statement about an arbitrary
  list is a statement about every iteration order.
\<close>

named_theorems result_simps \<open>elimination of the result sequencing operator\<close>
named_theorems gomap_simps \<open>lookup laws of Go maps\<close>
named_theorems inv_intros \<open>invariant preservation, one fact per operation\<close>

section \<open>Errors as values\<close>

text \<open>
  \<open>EText\<close> is \<open>errors.New\<close>; \<open>EFmt\<close> is \<open>fmt.Errorf\<close> with its format and its arguments; \<open>EWrap\<close> is a
  \<open>%w\<close> wrapper; \<open>ECode\<close> is a coded error (\<open>intent.ConfirmError\<close>, \<open>quicktrade.Error\<close>) and
  \<open>EProvider\<close> a coded error with a public message and its cause.
\<close>

datatype goerror =
    EText string
  | EFmt string "string list"
  | EWrap string goerror
  | ECode string string
  | EProvider string string goerror

type_synonym 'a result = "goerror + 'a"

definition rbind :: "'e + 'a \<Rightarrow> ('a \<Rightarrow> 'e + 'b) \<Rightarrow> 'e + 'b" where
  "rbind m f = (case m of Inl e \<Rightarrow> Inl e | Inr x \<Rightarrow> f x)"

definition check :: "bool \<Rightarrow> 'e \<Rightarrow> 'e + 'b \<Rightarrow> 'e + 'b" where
  "check c e k = (if c then k else Inl e)"

lemma rbind_Inl [simp]: "rbind (Inl e) f = Inl e"
  and rbind_Inr [simp]: "rbind (Inr x) f = f x"
  by (simp_all add: rbind_def)

lemma rbind_eq_Inr [result_simps]: "rbind m f = Inr y \<longleftrightarrow> (\<exists>x. m = Inr x \<and> f x = Inr y)"
  by (cases m) auto

lemma rbind_eq_Inl [result_simps]:
  "rbind m f = Inl e \<longleftrightarrow> m = Inl e \<or> (\<exists>x. m = Inr x \<and> f x = Inl e)"
  by (cases m) auto

lemma check_eq_Inr [result_simps]: "check c e k = Inr y \<longleftrightarrow> c \<and> k = Inr y"
  by (simp add: check_def)

lemma check_simps [simp]: "check True e k = k" "check False e k = Inl e"
  by (simp_all add: check_def)

lemma rbind_mono: "rbind m f = Inr y \<Longrightarrow> (\<And>x. f x = Inr y \<Longrightarrow> g x = Inr y) \<Longrightarrow> rbind m g = Inr y"
  by (cases m) auto

section \<open>Go maps\<close>

type_synonym ('k, 'v) gomap = "('k \<times> 'v) list"

abbreviation gget :: "('k, 'v) gomap \<Rightarrow> 'k \<Rightarrow> 'v option" where
  "gget m k \<equiv> map_of m k"

abbreviation gput :: "'k \<Rightarrow> 'v \<Rightarrow> ('k, 'v) gomap \<Rightarrow> ('k, 'v) gomap" where
  "gput \<equiv> AList.update"

abbreviation gdel :: "'k \<Rightarrow> ('k, 'v) gomap \<Rightarrow> ('k, 'v) gomap" where
  "gdel \<equiv> AList.delete"

definition gwf :: "('k, 'v) gomap \<Rightarrow> bool" where
  "gwf m \<longleftrightarrow> distinct (map fst m)"

lemma gget_gput [gomap_simps]: "gget (gput k v m) j = (if j = k then Some v else gget m j)"
  by (simp add: update_conv')

lemma gget_gdel [gomap_simps]: "gget (gdel k m) j = (if j = k then None else gget m j)"
  by (simp add: delete_conv')

lemma gwf_Nil [simp, intro]: "gwf []"
  by (simp add: gwf_def)

lemma gwf_gput [simp, intro]: "gwf m \<Longrightarrow> gwf (gput k v m)"
  by (simp add: gwf_def distinct_update)

lemma gwf_gdel [simp, intro]: "gwf m \<Longrightarrow> gwf (gdel k m)"
  by (simp add: gwf_def distinct_delete)

lemma gget_in_set: "gwf m \<Longrightarrow> gget m k = Some v \<longleftrightarrow> (k, v) \<in> set m"
  by (simp add: gwf_def)

lemma gget_SomeD: "gget m k = Some v \<Longrightarrow> (k, v) \<in> set m"
  by (rule map_of_SomeD)

lemma set_gput: "gwf m \<Longrightarrow> (j, w) \<in> set (gput k v m) \<longleftrightarrow> (j = k \<and> w = v) \<or> (j \<noteq> k \<and> (j, w) \<in> set m)"
  using gget_in_set [of "gput k v m" j w] gget_in_set [of m j w] by (auto simp: gomap_simps split: if_splits)

lemma set_gdel: "gwf m \<Longrightarrow> (j, w) \<in> set (gdel k m) \<longleftrightarrow> j \<noteq> k \<and> (j, w) \<in> set m"
  using gget_in_set [of "gdel k m" j w] gget_in_set [of m j w] by (auto simp: gomap_simps split: if_splits)

lemma gwf_length: "gwf m \<Longrightarrow> length m = card (fst ` set m)"
  using distinct_card [of "map fst m"] by (simp add: gwf_def)

lemma gwf_length_dom: "gwf m \<Longrightarrow> length m = card (dom (map_of m))"
  by (simp add: gwf_length dom_map_of_conv_image_fst)

lemma gput_fresh: "gget m k = None \<Longrightarrow> gput k v m = m @ [(k, v)]"
  by (induction m) (auto split: if_splits)

text \<open>Counting the entries of a map that satisfy a predicate, as the counting loops do.\<close>

definition gcount :: "('v \<Rightarrow> bool) \<Rightarrow> ('k, 'v) gomap \<Rightarrow> nat" where
  "gcount P m = length (filter (\<lambda>(_, v). P v) m)"

lemma gcount_fresh: "gget m k = None \<Longrightarrow> gcount P (gput k v m) = gcount P m + (if P v then 1 else 0)"
  by (simp add: gcount_def gput_fresh)

lemma gcount_replace:
  assumes "gget m k = Some u" "gwf m" "P v \<longrightarrow> P u"
  shows "gcount P (gput k v m) \<le> gcount P m"
  using assms
proof (induction m)
  case Nil
  then show ?case by simp
next
  case (Cons kv m)
  obtain j w where kv: "kv = (j, w)" by (cases kv)
  show ?case
  proof (cases "j = k")
    case True
    with Cons.prems kv show ?thesis by (simp add: gcount_def)
  next
    case False
    with Cons kv show ?thesis by (simp add: gcount_def gwf_def)
  qed
qed

section \<open>Lists\<close>

lemma takeWhile_all: "(\<And>x. x \<in> set xs \<Longrightarrow> P x) \<Longrightarrow> takeWhile P (xs @ ys) = xs @ takeWhile P ys"
  by (induction xs) auto

lemma dropWhile_all: "(\<And>x. x \<in> set xs \<Longrightarrow> P x) \<Longrightarrow> dropWhile P (xs @ ys) = dropWhile P ys"
  by (induction xs) auto

section \<open>64-bit integers\<close>

text \<open>The value of an \<open>int\<close> or \<open>int64\<close> after an addition that may wrap around.\<close>

definition wrap64 :: "int \<Rightarrow> int" where
  "wrap64 i = (i + 2 ^ 63) mod 2 ^ 64 - 2 ^ 63"

lemma wrap64_id [simp]: "- (2 ^ 63) \<le> i \<Longrightarrow> i < 2 ^ 63 \<Longrightarrow> wrap64 i = i"
  by (simp add: wrap64_def)

lemma wrap64_range: "- (2 ^ 63) \<le> wrap64 i" "wrap64 i < 2 ^ 63"
  by (simp_all add: wrap64_def)

lemma wrap64_plus7: "- (2 ^ 63) \<le> i \<Longrightarrow> i < 2 ^ 63 \<Longrightarrow> 1 \<le> wrap64 (i + 7) \<Longrightarrow> wrap64 (i + 7) = i + 7"
proof (cases "i + 7 < 2 ^ 63")
  case False
  assume i: "i < 2 ^ 63" "1 \<le> wrap64 (i + 7)"
  have "(i + 7 + 2 ^ 63) mod 2 ^ 64 = (i + 7 - 2 ^ 63) mod 2 ^ 64"
    using minus_mod_self2 [of "i + 7 + 2 ^ 63" "2 ^ 64 :: int"] by simp
  also have "\<dots> = i + 7 - 2 ^ 63" by (rule mod_pos_pos_trivial) (use i False in simp_all)
  finally show ?thesis using i by (simp add: wrap64_def)
qed (simp add: wrap64_def)

lemma wrap64_over: "2 ^ 63 \<le> i \<Longrightarrow> i < 2 ^ 64 \<Longrightarrow> wrap64 i = i - 2 ^ 64"
proof -
  assume i: "2 ^ 63 \<le> i" "i < 2 ^ 64"
  have "(i + 2 ^ 63) mod 2 ^ 64 = (i + 2 ^ 63 - 2 ^ 64) mod 2 ^ 64" by (rule minus_mod_self2 [symmetric])
  also have "\<dots> = i + 2 ^ 63 - 2 ^ 64" by (rule mod_pos_pos_trivial) (use i in simp_all)
  finally show ?thesis by (simp add: wrap64_def)
qed

section \<open>Status machines\<close>

text \<open>
  The contract of a transition table: nothing leads back to the start status and nothing leads out of
  a final one. A history is the list of statuses an object went through. The clients' lemmas: a
  history grows by legal transitions only, its start status never recurs, and a final status is the
  last one.
\<close>

locale status_machine =
  fixes valid :: "'s \<Rightarrow> 's \<Rightarrow> bool" and start :: "'s" and final :: "'s \<Rightarrow> bool"
  assumes final_stuck: "final s \<Longrightarrow> \<not> valid s t"
    and start_source: "\<not> valid s start"
begin

definition history :: "'s list \<Rightarrow> bool" where
  "history xs \<longleftrightarrow> xs \<noteq> [] \<and> hd xs = start \<and> successively valid xs"

lemma history_start: "history [start]"
  by (simp add: history_def)

lemma history_snoc: "history xs \<Longrightarrow> valid (last xs) s \<Longrightarrow> history (xs @ [s])"
  by (auto simp: history_def successively_append_iff)

lemma history_final: "history (xs @ s # ys) \<Longrightarrow> final s \<Longrightarrow> ys = []"
  using final_stuck by (cases ys) (auto simp: history_def successively_append_iff)

lemma successively_no_start: "successively valid (s # xs) \<Longrightarrow> start \<notin> set xs"
  by (induction xs arbitrary: s) (auto simp: start_source)

lemma history_start_once: "history (s # xs) \<Longrightarrow> s = start \<and> start \<notin> set xs"
  by (auto simp: history_def dest: successively_no_start)

end

end
