(* ===== verification/GoStrings.thy ===== *)
theory GoStrings
  imports Prelude "HOL-Library.Sublist"
begin

text \<open>
  What the program uses of Go's \<open>strings\<close>, \<open>bytes\<close>, \<open>strconv\<close> and \<open>net/url\<close>. A Go string is a byte
  sequence, and so is a \<^typ>\<open>string\<close> here. \<open>TrimSpace\<close> removes the UTF-8 encodings of all the
  Unicode white space characters; \<open>ToUpper\<close> and \<open>ToLower\<close> map the ASCII letters and leave the bytes
  above 127 alone, so they agree with Go on ASCII text, which all the constants compared are.
\<close>

section \<open>White space\<close>

definition byte :: "char \<Rightarrow> nat" where
  "byte c = of_char c"

lemma byte_inj: "byte c = byte d \<longleftrightarrow> c = d"
  by (simp add: byte_def)

lemma byte_less [simp]: "byte c < 256"
  by (simp add: byte_def)

definition space1 :: "char \<Rightarrow> bool" where
  "space1 c \<longleftrightarrow> (9 \<le> byte c \<and> byte c \<le> 13) \<or> byte c = 32"

definition space2 :: "char \<Rightarrow> char \<Rightarrow> bool" where
  "space2 a b \<longleftrightarrow> byte a = 194 \<and> (byte b = 133 \<or> byte b = 160)"

definition space3 :: "char \<Rightarrow> char \<Rightarrow> char \<Rightarrow> bool" where
  "space3 a b c \<longleftrightarrow>
     (byte a = 225 \<and> byte b = 154 \<and> byte c = 128) \<or>
     (byte a = 226 \<and> byte b = 128 \<and>
        ((128 \<le> byte c \<and> byte c \<le> 138) \<or> byte c = 168 \<or> byte c = 169 \<or> byte c = 175)) \<or>
     (byte a = 226 \<and> byte b = 129 \<and> byte c = 159) \<or>
     (byte a = 227 \<and> byte b = 128 \<and> byte c = 128)"

fun trimLeftSpace :: "string \<Rightarrow> string" where
  "trimLeftSpace [] = []"
| "trimLeftSpace (a # s) =
     (if space1 a then trimLeftSpace s
      else case s of
          [] \<Rightarrow> [a]
        | b # s' \<Rightarrow>
            (if space2 a b then trimLeftSpace s'
             else case s' of
                 [] \<Rightarrow> [a, b]
               | c # s'' \<Rightarrow> (if space3 a b c then trimLeftSpace s'' else a # b # c # s'')))"

text \<open>The same from the other end: the argument is the reversed string.\<close>

fun trimRightSpaceRev :: "string \<Rightarrow> string" where
  "trimRightSpaceRev [] = []"
| "trimRightSpaceRev (a # s) =
     (if space1 a then trimRightSpaceRev s
      else case s of
          [] \<Rightarrow> [a]
        | b # s' \<Rightarrow>
            (if space2 b a then trimRightSpaceRev s'
             else case s' of
                 [] \<Rightarrow> [a, b]
               | c # s'' \<Rightarrow> (if space3 c b a then trimRightSpaceRev s'' else a # b # c # s'')))"

definition TrimSpace :: "string \<Rightarrow> string" where
  "TrimSpace s = rev (trimRightSpaceRev (rev (trimLeftSpace s)))"

definition visible :: "char \<Rightarrow> bool" where
  "visible c \<longleftrightarrow> 32 < byte c \<and> byte c < 128"

lemma trimLeftSpace_visible: "visible a \<Longrightarrow> trimLeftSpace (a # s) = a # s"
  by (auto simp: visible_def space1_def space2_def space3_def split: list.splits)

lemma trimRightSpaceRev_visible: "visible a \<Longrightarrow> trimRightSpaceRev (a # s) = a # s"
  by (auto simp: visible_def space1_def space2_def space3_def split: list.splits)

lemma TrimSpace_Nil [simp]: "TrimSpace [] = []"
  by (simp add: TrimSpace_def)

lemma TrimSpace_visible_ends:
  assumes "s \<noteq> []" "visible (hd s)" "visible (last s)"
  shows "TrimSpace s = s"
proof -
  have l: "trimLeftSpace s = s"
    using assms(1,2) trimLeftSpace_visible [of "hd s" "tl s"] by simp
  obtain b t where bt: "rev s = b # t" using assms(1) by (cases "rev s") auto
  then have "b = last s" by (metis hd_rev list.sel(1))
  then have "trimRightSpaceRev (rev s) = rev s"
    using assms(3) trimRightSpaceRev_visible [of b t] by (simp only: bt)
  then show ?thesis by (simp add: TrimSpace_def l)
qed

corollary TrimSpace_visible: "\<forall>c\<in>set s. visible c \<Longrightarrow> TrimSpace s = s"
  by (cases s) (simp, rule TrimSpace_visible_ends, auto)

section \<open>Case mapping\<close>

definition upperChar :: "char \<Rightarrow> char" where
  "upperChar c = (if 97 \<le> byte c \<and> byte c \<le> 122 then char_of (byte c - 32) else c)"

definition lowerChar :: "char \<Rightarrow> char" where
  "lowerChar c = (if 65 \<le> byte c \<and> byte c \<le> 90 then char_of (byte c + 32) else c)"

definition ToUpper :: "string \<Rightarrow> string" where
  "ToUpper s = map upperChar s"

definition ToLower :: "string \<Rightarrow> string" where
  "ToLower s = map lowerChar s"

section \<open>Searching and splitting\<close>

fun indexByte :: "char \<Rightarrow> string \<Rightarrow> nat option" where
  "indexByte c [] = None"
| "indexByte c (x # s) = (if x = c then Some 0 else map_option Suc (indexByte c s))"

fun splitByte :: "char \<Rightarrow> string \<Rightarrow> string list" where
  "splitByte c [] = [[]]"
| "splitByte c (x # s) =
     (if x = c then [] # splitByte c s
      else case splitByte c s of [] \<Rightarrow> [[x]] | p # ps \<Rightarrow> (x # p) # ps)"

text \<open>\<open>bytes.LastIndex\<close>: the start of the last occurrence.\<close>

fun lastIndex :: "string \<Rightarrow> string \<Rightarrow> nat option" where
  "lastIndex m [] = (if m = [] then Some 0 else None)"
| "lastIndex m (x # s) =
     (case lastIndex m s of
        Some i \<Rightarrow> Some (Suc i)
      | None \<Rightarrow> (if prefix m (x # s) then Some 0 else None))"

definition trimRightByte :: "char \<Rightarrow> string \<Rightarrow> string" where
  "trimRightByte c s = rev (dropWhile (\<lambda>x. x = c) (rev s))"

fun joinWith :: "string \<Rightarrow> string list \<Rightarrow> string" where
  "joinWith sep [] = []"
| "joinWith sep [p] = p"
| "joinWith sep (p # q # ps) = p @ sep @ joinWith sep (q # ps)"

lemma indexByte_append: "c \<notin> set xs \<Longrightarrow> indexByte c (xs @ c # ys) = Some (length xs)"
  by (induction xs) auto

lemma indexByte_None: "indexByte c s = None \<longleftrightarrow> c \<notin> set s"
  by (induction s) auto

lemma indexByte_SomeD: "indexByte c s = Some i \<Longrightarrow> i < length s \<and> s ! i = c \<and> c \<notin> set (take i s)"
  by (induction s arbitrary: i) (auto split: if_splits)

lemma indexByte_prefix: "indexByte c s = Some i \<Longrightarrow> indexByte c (s @ t) = Some i"
  by (induction s arbitrary: i) (auto split: if_splits)

lemma splitByte_ne [simp]: "splitByte c s \<noteq> []"
  by (induction s) (auto split: list.splits)

lemma splitByte_plain: "c \<notin> set s \<Longrightarrow> splitByte c s = [s]"
  by (induction s) auto

lemma splitByte_append: "c \<notin> set p \<Longrightarrow> splitByte c (p @ c # s) = p # splitByte c s"
  by (induction p) auto

lemma splitByte_concat:
  "(\<And>p. p \<in> set ps \<Longrightarrow> c \<notin> set p) \<Longrightarrow> c \<notin> set q \<Longrightarrow>
   splitByte c (concat (map (\<lambda>p. p @ [c]) ps) @ q) = ps @ [q]"
  by (induction ps) (auto simp: splitByte_plain splitByte_append)

lemma lastIndex_append_plain:
  "m = c # m' \<Longrightarrow> c \<notin> set s \<Longrightarrow> lastIndex m s = None"
  by (induction s) auto

lemma lastIndex_append:
  "lastIndex m s = Some i \<Longrightarrow> lastIndex m (p @ s) = Some (length p + i)"
  by (induction p) auto

section \<open>Numbers as text\<close>

definition digitChar :: "int \<Rightarrow> char" where
  "digitChar d = char_of (48 + d)"

definition isDigit :: "char \<Rightarrow> bool" where
  "isDigit c \<longleftrightarrow> 48 \<le> byte c \<and> byte c \<le> 57"

definition digitVal :: "char \<Rightarrow> int" where
  "digitVal c = int (byte c) - 48"

text \<open>The decimal text of a non-negative integer.\<close>

function natText :: "int \<Rightarrow> string" where
  "natText n = (if n < 10 then [digitChar n] else natText (n div 10) @ [digitChar (n mod 10)])"
  by pat_completeness auto
termination
  by (relation "measure nat") auto

declare natText.simps [simp del]

definition FormatInt :: "int \<Rightarrow> string" where
  "FormatInt i = (if i < 0 then CHR ''-'' # natText (- i) else natText i)"

definition digitsVal :: "string \<Rightarrow> int" where
  "digitsVal ds = foldl (\<lambda>acc c. acc * 10 + digitVal c) 0 ds"

definition parseDigits :: "string \<Rightarrow> int option" where
  "parseDigits ds = (if ds \<noteq> [] \<and> list_all isDigit ds then Some (digitsVal ds) else None)"

text \<open>\<open>strconv.Atoi\<close> on a 64-bit platform, which is also \<open>strconv.ParseInt(s, 10, 64)\<close>.\<close>

definition Atoi :: "string \<Rightarrow> int option" where
  "Atoi s =
     (case s of
        [] \<Rightarrow> None
      | c # r \<Rightarrow>
          (let neg = (c = CHR ''-''); ds = (if c = CHR ''-'' \<or> c = CHR ''+'' then r else s) in
           case parseDigits ds of
             None \<Rightarrow> None
           | Some n \<Rightarrow>
               (if neg then (if n \<le> 2 ^ 63 then Some (- n) else None)
                else (if n < 2 ^ 63 then Some n else None))))"

lemma byte_digitChar [simp]: "0 \<le> d \<Longrightarrow> d < 10 \<Longrightarrow> int (byte (digitChar d)) = 48 + d"
proof -
  assume d: "0 \<le> d" "d < 10"
  have "int (of_char (char_of (48 + d) :: char)) = (of_char (char_of (48 + d) :: char) :: int)"
    by (rule of_nat_of_char)
  also have "\<dots> = (48 + d) mod 256" by (rule of_char_of)
  finally show ?thesis using d by (simp add: byte_def digitChar_def)
qed

lemma isDigit_digitChar [simp]: "0 \<le> d \<Longrightarrow> d < 10 \<Longrightarrow> isDigit (digitChar d)"
  using byte_digitChar [of d] unfolding isDigit_def by linarith

lemma digitVal_digitChar [simp]: "0 \<le> d \<Longrightarrow> d < 10 \<Longrightarrow> digitVal (digitChar d) = d"
  by (simp add: digitVal_def)

lemma digitVal_bounds: "isDigit c \<Longrightarrow> 0 \<le> digitVal c \<and> digitVal c < 10"
  by (auto simp: isDigit_def digitVal_def)

lemma isDigit_visible: "isDigit c \<Longrightarrow> visible c"
  by (simp add: isDigit_def visible_def)

lemma natText_ne [simp]: "natText n \<noteq> []"
  by (subst natText.simps) simp

lemma natText_digits: "0 \<le> n \<Longrightarrow> c \<in> set (natText n) \<Longrightarrow> isDigit c"
proof (induction n rule: natText.induct)
  case (1 n)
  then show ?case by (cases "n < 10") (auto simp: natText.simps [of n])
qed

lemma natText_list_all [simp]: "0 \<le> n \<Longrightarrow> list_all isDigit (natText n)"
  by (auto simp: list_all_iff natText_digits)

lemma digitsVal_Nil [simp]: "digitsVal [] = 0"
  by (simp add: digitsVal_def)

lemma digitsVal_foldl: "foldl (\<lambda>acc c. acc * 10 + digitVal c) a ds = a * 10 ^ length ds + digitsVal ds"
proof (induction ds rule: rev_induct)
  case Nil
  then show ?case by simp
next
  case (snoc d ds)
  have "foldl (\<lambda>acc c. acc * 10 + digitVal c) a (ds @ [d]) = (a * 10 ^ length ds + digitsVal ds) * 10 + digitVal d"
    using snoc by simp
  also have "\<dots> = a * 10 ^ length (ds @ [d]) + digitsVal (ds @ [d])"
    by (simp add: digitsVal_def algebra_simps)
  finally show ?case .
qed

lemma digitsVal_append: "digitsVal (xs @ ys) = digitsVal xs * 10 ^ length ys + digitsVal ys"
proof -
  have "digitsVal (xs @ ys) = foldl (\<lambda>acc c. acc * 10 + digitVal c) (digitsVal xs) ys"
    by (simp add: digitsVal_def)
  then show ?thesis by (simp only: digitsVal_foldl)
qed

lemma digitsVal_snoc: "digitsVal (xs @ [c]) = digitsVal xs * 10 + digitVal c"
  by (simp add: digitsVal_append) (simp add: digitsVal_def)

lemma digitsVal_nonneg: "list_all isDigit ds \<Longrightarrow> 0 \<le> digitsVal ds"
  by (induction ds rule: rev_induct) (auto simp: digitsVal_snoc dest: digitVal_bounds)

lemma digitsVal_natText [simp]: "0 \<le> n \<Longrightarrow> digitsVal (natText n) = n"
proof (induction n rule: natText.induct)
  case (1 n)
  show ?case
  proof (cases "n < 10")
    case True
    then show ?thesis using 1 by (simp add: natText.simps [of n] digitsVal_def)
  next
    case False
    then have "digitsVal (natText n) = digitsVal (natText (n div 10)) * 10 + n mod 10"
      by (simp add: natText.simps [of n] digitsVal_snoc)
    with False 1 show ?thesis by simp
  qed
qed

lemma parseDigits_natText [simp]: "0 \<le> n \<Longrightarrow> parseDigits (natText n) = Some n"
  by (simp add: parseDigits_def)

lemma parseDigits_nonneg: "parseDigits ds = Some n \<Longrightarrow> 0 \<le> n"
  by (auto simp: parseDigits_def digitsVal_nonneg split: if_splits)

lemma isDigit_not_sign: "isDigit c \<Longrightarrow> c \<noteq> CHR ''-'' \<and> c \<noteq> CHR ''+''"
  by (auto simp: isDigit_def byte_def)

lemma Atoi_digits:
  assumes "parseDigits ds = Some n" "n < 2 ^ 63"
  shows "Atoi ds = Some n"
proof (cases ds)
  case Nil
  then show ?thesis using assms by (simp add: parseDigits_def)
next
  case (Cons c r)
  then have "isDigit c" using assms(1) by (auto simp: parseDigits_def split: if_splits)
  then show ?thesis using Cons assms isDigit_not_sign [of c] by (simp add: Atoi_def)
qed

lemma Atoi_natText: "0 \<le> n \<Longrightarrow> n < 2 ^ 63 \<Longrightarrow> Atoi (natText n) = Some n"
  by (rule Atoi_digits) simp

lemma Atoi_FormatInt: "0 \<le> i \<Longrightarrow> i < 2 ^ 63 \<Longrightarrow> Atoi (FormatInt i) = Some i"
  by (simp add: FormatInt_def Atoi_natText)

lemma Atoi_range: "Atoi s = Some i \<Longrightarrow> - (2 ^ 63) \<le> i \<and> i < 2 ^ 63"
  by (auto simp: Atoi_def Let_def split: list.splits if_splits option.splits dest: parseDigits_nonneg)

lemma natText_length: "0 \<le> n \<Longrightarrow> n < 10 ^ k \<Longrightarrow> 0 < k \<Longrightarrow> length (natText n) \<le> k"
proof (induction k arbitrary: n)
  case 0
  then show ?case by simp
next
  case (Suc k)
  show ?case
  proof (cases "n < 10")
    case True
    then show ?thesis by (simp add: natText.simps [of n])
  next
    case False
    then have "0 < k" using Suc.prems by (cases k) auto
    moreover have "n div 10 < 10 ^ k" using Suc.prems by simp
    ultimately show ?thesis using Suc.IH [of "n div 10"] False by (simp add: natText.simps [of n])
  qed
qed

text \<open>Zero padding to a width, as \<open>%03d\<close> and \<open>FloatString\<close> do.\<close>

definition padZero :: "nat \<Rightarrow> string \<Rightarrow> string" where
  "padZero w s = replicate (w - length s) (CHR ''0'') @ s"

lemma isDigit_zero [simp]: "isDigit (CHR ''0'')"
  by (simp add: isDigit_def byte_def)

lemma digitsVal_zeros [simp]: "digitsVal (replicate k (CHR ''0'')) = 0"
  by (induction k) (simp_all add: digitsVal_def digitVal_def byte_def)

lemma digitsVal_padZero [simp]: "digitsVal (padZero w s) = digitsVal s"
  by (simp add: padZero_def digitsVal_append)

lemma length_padZero: "length s \<le> w \<Longrightarrow> length (padZero w s) = w"
  by (simp add: padZero_def)

lemma padZero_digits: "list_all isDigit s \<Longrightarrow> list_all isDigit (padZero w s)"
  by (auto simp: padZero_def list_all_iff)

section \<open>Evaluation\<close>

text \<open>The byte tests compute on integers, whose numerals are binary.\<close>

lemma of_char_byte: "(of_char c :: int) = int (byte c)"
  unfolding byte_def by (rule of_nat_of_char [symmetric])

lemma byte_le_code: "byte c \<le> numeral n \<longleftrightarrow> (of_char c :: int) \<le> numeral n" "numeral n \<le> byte c \<longleftrightarrow> numeral n \<le> (of_char c :: int)"
  and byte_eq_code: "byte c = numeral n \<longleftrightarrow> (of_char c :: int) = numeral n"
proof -
  have b: "(of_char c :: int) = int (byte c)" by (rule of_char_byte)
  show "byte c \<le> numeral n \<longleftrightarrow> (of_char c :: int) \<le> numeral n" "numeral n \<le> byte c \<longleftrightarrow> numeral n \<le> (of_char c :: int)"
    "byte c = numeral n \<longleftrightarrow> (of_char c :: int) = numeral n"
    by (simp_all add: b)
qed

lemma digitVal_code [code]: "digitVal c = of_char c - 48"
  by (simp add: digitVal_def of_char_byte)

declare isDigit_def [unfolded byte_le_code, code]
declare space1_def [unfolded byte_le_code byte_eq_code, code]
declare space2_def [unfolded byte_eq_code, code]
declare space3_def [unfolded byte_le_code byte_eq_code, code]

section \<open>URL query escaping\<close>

definition unreserved :: "char \<Rightarrow> bool" where
  "unreserved c \<longleftrightarrow> isDigit c \<or> (65 \<le> byte c \<and> byte c \<le> 90) \<or> (97 \<le> byte c \<and> byte c \<le> 122) \<or>
     c = CHR ''-'' \<or> c = CHR ''_'' \<or> c = CHR ''.'' \<or> c = CHR ''~''"

definition hexUpper :: "nat \<Rightarrow> char" where
  "hexUpper d = (if d < 10 then char_of (48 + d) else char_of (55 + d))"

definition escapeChar :: "char \<Rightarrow> string" where
  "escapeChar c =
     (if unreserved c then [c]
      else if c = CHR '' '' then ''+''
      else [CHR ''%'', hexUpper (byte c div 16), hexUpper (byte c mod 16)])"

definition QueryEscape :: "string \<Rightarrow> string" where
  "QueryEscape s = concat (map escapeChar s)"

end
