(* ===== verification/Domain.thy ===== *)
theory Domain
  imports GoTime GoStrings
begin

text \<open>
  \<open>internal/domain\<close>: venue-qualified identities with their canonical text keys
  (\<open>identity.go\<close>) and the normalised order, execution and position data (\<open>order.go\<close>). The string
  types \<open>Venue\<close>, \<open>Environment\<close>, \<open>Side\<close> and \<open>OrderType\<close> stay strings, since the code converts
  arbitrary text to them; \<open>OrderStatus\<close> is an enumeration whose zero value, the empty text, is
  \<open>OrderStatusEmpty\<close>.
\<close>

section \<open>Identities\<close>

type_synonym venue = string

definition VenueBybit :: venue where "VenueBybit = ''bybit''"
definition VenueDeribit :: venue where "VenueDeribit = ''deribit''"
definition EnvironmentTestnet :: string where "EnvironmentTestnet = ''testnet''"

record AccountKey =
  ak_Venue :: venue
  ak_Environment :: string
  ak_Alias :: string

record MarketKey =
  mk_Account :: AccountKey
  mk_Category :: string
  mk_Instrument :: string

record OrderKey =
  ok_Account :: AccountKey
  ok_Namespace :: string
  ok_NativeID :: string

record ExecutionKey =
  ek_Account :: AccountKey
  ek_Namespace :: string
  ek_NativeID :: string

record PositionKey =
  pk_Account :: AccountKey
  pk_Market :: MarketKey

definition AccountKey_Validate :: "AccountKey \<Rightarrow> goerror option" where
  "AccountKey_Validate k =
     (if ak_Venue k \<noteq> VenueBybit \<and> ak_Venue k \<noteq> VenueDeribit then Some (EText ''unsupported venue'')
      else if ak_Environment k \<noteq> EnvironmentTestnet then Some (EText ''environment must be testnet'')
      else if TrimSpace (ak_Alias k) = [] then Some (EText ''account alias is required'')
      else None)"

definition joinKey :: "string list \<Rightarrow> string" where
  "joinKey parts = joinWith ''|'' (map (\<lambda>part. QueryEscape (TrimSpace part)) parts)"

definition AccountKey_Canonical :: "AccountKey \<Rightarrow> string" where
  "AccountKey_Canonical k = joinKey [ak_Venue k, ak_Environment k, ak_Alias k]"

definition MarketKey_Canonical :: "MarketKey \<Rightarrow> string" where
  "MarketKey_Canonical k = joinKey [AccountKey_Canonical (mk_Account k), mk_Category k, mk_Instrument k]"

definition OrderKey_Canonical :: "OrderKey \<Rightarrow> string" where
  "OrderKey_Canonical k = joinKey [AccountKey_Canonical (ok_Account k), ok_Namespace k, ok_NativeID k]"

definition ExecutionKey_Canonical :: "ExecutionKey \<Rightarrow> string" where
  "ExecutionKey_Canonical k = joinKey [AccountKey_Canonical (ek_Account k), ek_Namespace k, ek_NativeID k]"

definition PositionKey_Canonical :: "PositionKey \<Rightarrow> string" where
  "PositionKey_Canonical k =
     joinKey [AccountKey_Canonical (pk_Account k), mk_Category (pk_Market k), mk_Instrument (pk_Market k)]"

section \<open>Capabilities\<close>

datatype Capability =
    CapabilityMetadata
  | CapabilityAccountRead
  | CapabilityOrderRead
  | CapabilityOrderWrite
  | CapabilityPublicStream
  | CapabilityPrivateStream
  | CapabilityFIXOrderWrite

type_synonym CapabilitySet = "(Capability, bool) gomap"

definition Supports :: "CapabilitySet \<Rightarrow> Capability \<Rightarrow> bool" where
  "Supports s c = (case gget s c of None \<Rightarrow> False | Some b \<Rightarrow> b)"

definition BybitCapabilities :: CapabilitySet where
  "BybitCapabilities =
     [(CapabilityMetadata, True), (CapabilityAccountRead, True), (CapabilityOrderRead, True),
      (CapabilityOrderWrite, True), (CapabilityPublicStream, True), (CapabilityPrivateStream, True),
      (CapabilityFIXOrderWrite, True)]"

definition DeribitR1Capabilities :: CapabilitySet where
  "DeribitR1Capabilities =
     [(CapabilityMetadata, True), (CapabilityAccountRead, True), (CapabilityOrderRead, True),
      (CapabilityOrderWrite, True), (CapabilityPublicStream, True), (CapabilityPrivateStream, True),
      (CapabilityFIXOrderWrite, False)]"

section \<open>Orders\<close>

definition SideBuy :: string where "SideBuy = ''Buy''"
definition SideSell :: string where "SideSell = ''Sell''"
definition OrderTypeLimit :: string where "OrderTypeLimit = ''Limit''"
definition OrderTypeMarket :: string where "OrderTypeMarket = ''Market''"

lemma sides_distinct [simp]: "SideBuy \<noteq> SideSell" "SideSell \<noteq> SideBuy"
  by (simp_all add: SideBuy_def SideSell_def)

datatype OrderStatus =
    OrderStatusUnknown
  | OrderStatusPendingSubmit
  | OrderStatusNew
  | OrderStatusPartiallyFilled
  | OrderStatusFilled
  | OrderStatusPendingCancel
  | OrderStatusCancelled
  | OrderStatusRejected
  | OrderStatusRejectedCancel
  | OrderStatusEmpty

definition orderStatusText :: "OrderStatus \<Rightarrow> string" where
  "orderStatusText s =
     (case s of
        OrderStatusUnknown \<Rightarrow> ''Unknown''
      | OrderStatusPendingSubmit \<Rightarrow> ''PendingSubmit''
      | OrderStatusNew \<Rightarrow> ''New''
      | OrderStatusPartiallyFilled \<Rightarrow> ''PartiallyFilled''
      | OrderStatusFilled \<Rightarrow> ''Filled''
      | OrderStatusPendingCancel \<Rightarrow> ''PendingCancel''
      | OrderStatusCancelled \<Rightarrow> ''Cancelled''
      | OrderStatusRejected \<Rightarrow> ''Rejected''
      | OrderStatusRejectedCancel \<Rightarrow> ''RejectedCancel''
      | OrderStatusEmpty \<Rightarrow> [])"

definition NormalizeBybitOrderStatus :: "string \<Rightarrow> OrderStatus" where
  "NormalizeBybitOrderStatus raw =
     (if raw = ''New'' \<or> raw = ''Untriggered'' \<or> raw = ''Triggered'' \<or> raw = ''Active'' then OrderStatusNew
      else if raw = ''PartiallyFilled'' then OrderStatusPartiallyFilled
      else if raw = ''Filled'' then OrderStatusFilled
      else if raw = ''Cancelled'' \<or> raw = ''PartiallyFilledCanceled'' \<or> raw = ''Deactivated'' then OrderStatusCancelled
      else if raw = ''Rejected'' then OrderStatusRejected
      else OrderStatusUnknown)"

record Order =
  o_Exchange :: string
  o_Environment :: string
  o_AccountAlias :: string
  o_Category :: string
  o_Symbol :: string
  o_OrderID :: string
  o_OrderLinkID :: string
  o_Side :: string
  o_Type :: string
  o_Price :: string
  o_Qty :: string
  o_CumFilledQty :: string
  o_AvgFillPrice :: string
  o_Status :: OrderStatus
  o_RawStatus :: string
  o_IntentID :: string
  o_CreatedAt :: time
  o_UpdatedAt :: time

record Execution =
  x_Exchange :: string
  x_Environment :: string
  x_AccountAlias :: string
  x_Category :: string
  x_Symbol :: string
  x_ExecutionID :: string
  x_OrderID :: string
  x_OrderLinkID :: string
  x_Side :: string
  x_Price :: string
  x_Qty :: string
  x_Fee :: string
  x_FeeCurrency :: string
  x_ExchangeTime :: time
  x_ReceivedAt :: time

record Position =
  p_Exchange :: string
  p_Environment :: string
  p_AccountAlias :: string
  p_Category :: string
  p_Symbol :: string
  p_Side :: string
  p_Size :: string
  p_EntryPrice :: string
  p_MarkPrice :: string
  p_UnrealizedPnL :: string
  p_ExchangeTime :: time
  p_ReceivedAt :: time

text \<open>The zero value \<open>domain.Order{}\<close>.\<close>

definition zeroOrder :: Order where
  "zeroOrder = \<lparr>o_Exchange = [], o_Environment = [], o_AccountAlias = [], o_Category = [], o_Symbol = [],
     o_OrderID = [], o_OrderLinkID = [], o_Side = [], o_Type = [], o_Price = [], o_Qty = [],
     o_CumFilledQty = [], o_AvgFillPrice = [], o_Status = OrderStatusEmpty, o_RawStatus = [],
     o_IntentID = [], o_CreatedAt = 0, o_UpdatedAt = 0\<rparr>"

definition zeroExecution :: Execution where
  "zeroExecution = \<lparr>x_Exchange = [], x_Environment = [], x_AccountAlias = [], x_Category = [], x_Symbol = [],
     x_ExecutionID = [], x_OrderID = [], x_OrderLinkID = [], x_Side = [], x_Price = [], x_Qty = [],
     x_Fee = [], x_FeeCurrency = [], x_ExchangeTime = 0, x_ReceivedAt = 0\<rparr>"

section \<open>Canonical keys identify\<close>

lemma byte_hexUpper: "d < 16 \<Longrightarrow> byte (hexUpper d) = (if d < 10 then 48 + d else 55 + d)"
  by (simp add: hexUpper_def byte_def)

lemma hexUpper_inj: "a < 16 \<Longrightarrow> b < 16 \<Longrightarrow> hexUpper a = hexUpper b \<longleftrightarrow> a = b"
  by (auto simp: byte_hexUpper simp flip: byte_inj split: if_splits)

lemma escapeChar_visible: "x \<in> set (escapeChar c) \<Longrightarrow> visible x \<and> x \<noteq> CHR ''|''"
proof -
  assume x: "x \<in> set (escapeChar c)"
  have p: "byte (CHR ''|'') = 124" "byte (CHR ''+'') = 43" "byte (CHR ''%'') = 37" "byte (CHR ''-'') = 45"
     "byte (CHR ''_'') = 95" "byte (CHR ''.'') = 46" "byte (CHR ''~'') = 126"
    by (simp_all add: byte_def)
  have "byte c div 16 < 16" using byte_less [of c] by linarith
  then have h: "byte (hexUpper (byte c div 16)) \<le> 70 \<and> 48 \<le> byte (hexUpper (byte c div 16))"
    "byte (hexUpper (byte c mod 16)) \<le> 70 \<and> 48 \<le> byte (hexUpper (byte c mod 16))"
    using mod_less_divisor [of 16 "byte c"] by (auto simp: byte_hexUpper)
  show ?thesis
  proof (cases "unreserved c")
    case True
    then have "x = c" using x by (simp add: escapeChar_def)
    then show ?thesis using True p by (auto simp: unreserved_def visible_def isDigit_def)
  next
    case False
    then show ?thesis using x p h by (auto simp: escapeChar_def visible_def split: if_splits)
  qed
qed

lemma QueryEscape_visible: "x \<in> set (QueryEscape s) \<Longrightarrow> visible x \<and> x \<noteq> CHR ''|''"
  using escapeChar_visible by (auto simp: QueryEscape_def)

lemma escapeChar_prefix_free: "escapeChar c @ s = escapeChar d @ t \<Longrightarrow> c = d \<and> s = t"
proof -
  assume e: "escapeChar c @ s = escapeChar d @ t"
  have "byte c div 16 < 16" "byte d div 16 < 16" using byte_less [of c] byte_less [of d] by linarith+
  then have "hexUpper (byte c div 16) = hexUpper (byte d div 16) \<longleftrightarrow> byte c div 16 = byte d div 16"
    "hexUpper (byte c mod 16) = hexUpper (byte d mod 16) \<longleftrightarrow> byte c mod 16 = byte d mod 16"
    by (simp_all add: hexUpper_inj)
  moreover have "byte c div 16 = byte d div 16 \<Longrightarrow> byte c mod 16 = byte d mod 16 \<Longrightarrow> c = d"
    by (metis byte_inj div_mult_mod_eq)
  moreover have "\<not> unreserved (CHR ''+'')" "\<not> unreserved (CHR ''%'')"
    by (simp_all add: unreserved_def isDigit_def byte_def)
  ultimately show ?thesis using e by (auto simp: escapeChar_def split: if_splits)
qed

lemma escapeChar_ne [simp]: "escapeChar c \<noteq> []"
  by (simp add: escapeChar_def)

lemma QueryEscape_inj: "QueryEscape s = QueryEscape t \<longleftrightarrow> s = t"
proof
  assume "QueryEscape s = QueryEscape t"
  then show "s = t"
  proof (induction s arbitrary: t)
    case Nil
    then show ?case by (cases t) (auto simp: QueryEscape_def)
  next
    case (Cons c s)
    then obtain d t' where t: "t = d # t'" by (cases t) (auto simp: QueryEscape_def)
    then have "escapeChar c @ QueryEscape s = escapeChar d @ QueryEscape t'"
      using Cons.prems by (simp add: QueryEscape_def)
    then show ?case using escapeChar_prefix_free Cons.IH t by metis
  qed
qed simp

lemma splitByte_joinWith:
  "ps \<noteq> [] \<Longrightarrow> (\<And>p. p \<in> set ps \<Longrightarrow> c \<notin> set p) \<Longrightarrow> splitByte c (joinWith [c] ps) = ps"
proof (induction "[c]" ps rule: joinWith.induct)
  case 1
  then show ?case by simp
next
  case (2 p)
  then show ?case by (simp add: splitByte_plain)
next
  case (3 p q ps)
  then show ?case by (simp add: splitByte_append)
qed

lemma joinKey_inj:
  assumes "ps \<noteq> []" "qs \<noteq> []"
  shows "joinKey ps = joinKey qs \<longleftrightarrow> map TrimSpace ps = map TrimSpace qs"
proof
  assume "joinKey ps = joinKey qs"
  then have "splitByte (CHR ''|'') (joinKey ps) = splitByte (CHR ''|'') (joinKey qs)" by simp
  then have "map (\<lambda>p. QueryEscape (TrimSpace p)) ps = map (\<lambda>p. QueryEscape (TrimSpace p)) qs"
    unfolding joinKey_def using assms QueryEscape_visible by (subst (asm) (1 2) splitByte_joinWith) auto
  then have "map QueryEscape (map TrimSpace ps) = map QueryEscape (map TrimSpace qs)" by (simp add: comp_def)
  then show "map TrimSpace ps = map TrimSpace qs"
    by (rule map_injective) (simp add: inj_def QueryEscape_inj)
next
  assume "map TrimSpace ps = map TrimSpace qs"
  then have "map QueryEscape (map TrimSpace ps) = map QueryEscape (map TrimSpace qs)" by (rule arg_cong)
  then show "joinKey ps = joinKey qs" by (simp add: joinKey_def comp_def)
qed

lemma joinWith_bar_visible:
  "(\<And>p x. p \<in> set ps \<Longrightarrow> x \<in> set p \<Longrightarrow> visible x) \<Longrightarrow> x \<in> set (joinWith ''|'' ps) \<Longrightarrow> visible x"
proof (induction "''|''" ps rule: joinWith.induct)
  case (3 p q ps)
  have "visible (CHR ''|'')" by (simp add: visible_def byte_def)
  with 3 show ?case by auto
qed auto

lemma TrimSpace_joinKey [simp]: "TrimSpace (joinKey ps) = joinKey ps"
  unfolding joinKey_def
  by (intro TrimSpace_visible ballI, erule joinWith_bar_visible [rotated]) (auto dest: QueryEscape_visible)

text \<open>The parts of a key that its canonical text keeps: everything up to surrounding white space.\<close>

definition trimmedAccount :: "AccountKey \<Rightarrow> AccountKey" where
  "trimmedAccount k = \<lparr>ak_Venue = TrimSpace (ak_Venue k), ak_Environment = TrimSpace (ak_Environment k),
     ak_Alias = TrimSpace (ak_Alias k)\<rparr>"

lemma AccountKey_Canonical_eq_iff:
  "AccountKey_Canonical j = AccountKey_Canonical k \<longleftrightarrow> trimmedAccount j = trimmedAccount k"
  by (simp add: AccountKey_Canonical_def joinKey_inj trimmedAccount_def)

lemma scoped_key_eq_iff:
  "joinKey [AccountKey_Canonical a, n, i] = joinKey [AccountKey_Canonical b, m, j] \<longleftrightarrow>
   trimmedAccount a = trimmedAccount b \<and> TrimSpace n = TrimSpace m \<and> TrimSpace i = TrimSpace j"
proof -
  have "TrimSpace (AccountKey_Canonical k) = AccountKey_Canonical k" for k
    by (simp add: AccountKey_Canonical_def)
  then show ?thesis by (simp add: joinKey_inj AccountKey_Canonical_eq_iff)
qed

text \<open>
  Two order keys have the same canonical text exactly when their account (venue, environment,
  alias), their namespace and their native identifier agree up to surrounding white space: no
  delimiter or escape inside a component makes the keys of different orders collide.
\<close>

theorem OrderKey_Canonical_identifies:
  "OrderKey_Canonical j = OrderKey_Canonical k \<longleftrightarrow>
   trimmedAccount (ok_Account j) = trimmedAccount (ok_Account k) \<and>
   TrimSpace (ok_Namespace j) = TrimSpace (ok_Namespace k) \<and>
   TrimSpace (ok_NativeID j) = TrimSpace (ok_NativeID k)"
  by (simp add: OrderKey_Canonical_def scoped_key_eq_iff)

end
