(* ===== verification/IntentData.thy ===== *)
theory IntentData
  imports Domain
begin

text \<open>
  The data of \<open>internal/intent\<close>: plans and the snapshot of \<open>store.go\<close>, quotes, quick trades,
  confirmations and updates of \<open>quicktrade.go\<close>. A \<open>*time.Time\<close> is an optional time. A Go map that is
  nil and an empty map read alike and are both the empty list; the code allocates nil maps before it
  writes to them.
\<close>

section \<open>Plans\<close>

datatype PlanStatus =
    StatusPlanned
  | StatusExecuting
  | StatusSubmitted
  | StatusRejected
  | StatusOutcomeUnknown
  | StatusExpired
  | StatusNeedsReview
  | StatusEmpty

definition planStatusText :: "PlanStatus \<Rightarrow> string" where
  "planStatusText s =
     (case s of
        StatusPlanned \<Rightarrow> ''Planned''
      | StatusExecuting \<Rightarrow> ''Executing''
      | StatusSubmitted \<Rightarrow> ''Submitted''
      | StatusRejected \<Rightarrow> ''Rejected''
      | StatusOutcomeUnknown \<Rightarrow> ''OutcomeUnknown''
      | StatusExpired \<Rightarrow> ''Expired''
      | StatusNeedsReview \<Rightarrow> ''NeedsReview''
      | StatusEmpty \<Rightarrow> [])"

record Plan =
  pl_ID :: string
  pl_Venue :: string
  pl_Environment :: string
  pl_AccountAlias :: string
  pl_Instrument :: string
  pl_SettlementCurrency :: string
  pl_Side :: string
  pl_OrderType :: string
  pl_Transport :: string
  pl_Amount :: string
  pl_AmountUnit :: string
  pl_Price :: string
  pl_TimeInForce :: string
  pl_PostOnly :: bool
  pl_ReduceOnly :: bool
  pl_MarkPrice :: string
  pl_ValidTick :: string
  pl_EstimatedNotionalUSD :: string
  pl_MetadataAt :: time
  pl_PriceAt :: time
  pl_CODProtected :: bool
  pl_OpenOrderCount :: int
  pl_AggregateOpenUSD :: string
  pl_CreatedAt :: time
  pl_ExpiresAt :: time
  pl_Status :: PlanStatus
  pl_Attempt :: int
  pl_NativeOrderID :: string
  pl_LastError :: string

record TradeCursor =
  tc_Timestamp :: int
  tc_TradeID :: string

definition zeroCursor :: TradeCursor where
  "zeroCursor = \<lparr>tc_Timestamp = 0, tc_TradeID = []\<rparr>"

section \<open>Quick trades\<close>

datatype TradeStatus =
    TradeCreated
  | TradePendingSubmit
  | TradeSubmitted
  | TradeAccepted
  | TradePartiallyFilled
  | TradeFilled
  | TradePendingCancel
  | TradeCancelled
  | TradeRejected
  | TradeUnknown
  | TradeStatusEmpty

definition tradeStatusText :: "TradeStatus \<Rightarrow> string" where
  "tradeStatusText s =
     (case s of
        TradeCreated \<Rightarrow> ''Created''
      | TradePendingSubmit \<Rightarrow> ''PendingSubmit''
      | TradeSubmitted \<Rightarrow> ''Submitted''
      | TradeAccepted \<Rightarrow> ''Accepted''
      | TradePartiallyFilled \<Rightarrow> ''PartiallyFilled''
      | TradeFilled \<Rightarrow> ''Filled''
      | TradePendingCancel \<Rightarrow> ''PendingCancel''
      | TradeCancelled \<Rightarrow> ''Cancelled''
      | TradeRejected \<Rightarrow> ''Rejected''
      | TradeUnknown \<Rightarrow> ''Unknown''
      | TradeStatusEmpty \<Rightarrow> [])"

definition TradeStatus_Active :: "TradeStatus \<Rightarrow> bool" where
  "TradeStatus_Active s \<longleftrightarrow> s = TradeCreated \<or> s = TradePendingSubmit \<or> s = TradeSubmitted \<or> s = TradeAccepted \<or>
     s = TradePartiallyFilled \<or> s = TradePendingCancel \<or> s = TradeUnknown"

definition TradeStatus_Terminal :: "TradeStatus \<Rightarrow> bool" where
  "TradeStatus_Terminal s \<longleftrightarrow> s = TradeFilled \<or> s = TradeCancelled \<or> s = TradeRejected"

record TradeFee =
  tf_Asset :: string
  tf_Amount :: string
  tf_Kind :: string

record QuoteFee =
  qf_Asset :: string
  qf_EstimatedAmount :: string
  qf_Source :: string
  qf_CalculationBasis :: string

record AssetReserve =
  ar_Asset :: string
  ar_Amount :: string

record TradeLifecycleEvent =
  le_Status :: TradeStatus
  le_At :: time
  le_Detail :: string
  le_RequestID :: string

record QuickTradeQuote =
  q_ID :: string
  q_Identity :: string
  q_Venue :: string
  q_Environment :: string
  q_AccountAlias :: string
  q_RouteID :: string
  q_FromAsset :: string
  q_ToAsset :: string
  q_SpendBudget :: string
  q_Instrument :: string
  q_Side :: string
  q_BaseQty :: string
  q_LimitPrice :: string
  q_TimeInForce :: string
  q_ReferenceBid :: string
  q_ReferenceAsk :: string
  q_BookObservedAt :: time
  q_MetadataRevision :: string
  q_PriceProtectionBPS :: int
  q_GrossReceiveEstimate :: string
  q_NetReceiveEstimate :: string
  q_EstimatedFees :: "QuoteFee list"
  q_FeeRate :: string
  q_FeeChargeAsset :: string
  q_SourceDebitUpperBound :: string
  q_ThirdAssetReserves :: "AssetReserve list"
  q_AccountRevision :: int
  q_CreatedAt :: time
  q_ExpiresAt :: time
  q_Warnings :: "string list"
  q_Executable :: bool
  q_BlockedReason :: string

record QuickTrade =
  t_ID :: string
  t_Identity :: string
  t_SessionID :: string
  t_ClientRequestID :: string
  t_Quote :: QuickTradeQuote
  t_ClientOrderID :: string
  t_VenueOrderID :: string
  t_Status :: TradeStatus
  t_RawVenueStatus :: string
  t_ResultStatus :: string
  t_SendAttempted :: bool
  t_FilledBaseQty :: string
  t_AveragePrice :: string
  t_GrossSourceSpent :: string
  t_GrossDestinationReceived :: string
  t_Fees :: "TradeFee list"
  t_NetDestinationReceived :: string
  t_ActualSourceDebit :: string
  t_FillDetailsStatus :: string
  t_FeeDetailsStatus :: string
  t_BalanceSyncStatus :: string
  t_CreatedAt :: time
  t_UpdatedAt :: time
  t_SubmittedAt :: "time option"
  t_TerminalAt :: "time option"
  t_LastCheckedAt :: "time option"
  t_LastPublicError :: string
  t_Lifecycle :: "TradeLifecycleEvent list"

record QuickTradeConfirmation =
  c_IntentID :: string
  c_Identity :: string
  c_SessionID :: string
  c_ClientRequestID :: string
  c_ClientOrderID :: string
  c_Quote :: QuickTradeQuote

record DemoLimits =
  MaxTradesPerSession :: int
  MaxTradesPerHour :: int
  MaxConcurrentTrades :: int

record QuickTradeUpdate =
  u_Status :: TradeStatus
  u_RawVenueStatus :: string
  u_ResultStatus :: string
  u_VenueOrderID :: string
  u_FilledBaseQty :: string
  u_AveragePrice :: string
  u_GrossSourceSpent :: string
  u_GrossDestinationReceived :: string
  u_Fees :: "TradeFee list option"
  u_NetDestinationReceived :: string
  u_ActualSourceDebit :: string
  u_FillDetailsStatus :: string
  u_FeeDetailsStatus :: string
  u_BalanceSyncStatus :: string
  u_PublicError :: string
  u_ClearPublicError :: bool
  u_LifecycleDetail :: string
  u_RequestID :: string
  u_Checked :: bool

definition zeroUpdate :: QuickTradeUpdate where
  "zeroUpdate = \<lparr>u_Status = TradeStatusEmpty, u_RawVenueStatus = [], u_ResultStatus = [], u_VenueOrderID = [],
     u_FilledBaseQty = [], u_AveragePrice = [], u_GrossSourceSpent = [], u_GrossDestinationReceived = [],
     u_Fees = None, u_NetDestinationReceived = [], u_ActualSourceDebit = [], u_FillDetailsStatus = [],
     u_FeeDetailsStatus = [], u_BalanceSyncStatus = [], u_PublicError = [], u_ClearPublicError = False,
     u_LifecycleDetail = [], u_RequestID = [], u_Checked = False\<rparr>"

section \<open>The snapshot\<close>

definition IntentSnapshotVersion :: int where
  "IntentSnapshotVersion = 1"

record IntentSnapshot =
  s_Version :: int
  s_UpdatedAt :: time
  s_Plans :: "(string, Plan) gomap"
  s_Cursors :: "(string, TradeCursor) gomap"
  s_QuickTrades :: "(string, QuickTrade) gomap"
  s_QuickRequests :: "(string, string) gomap"
  s_ConsumedQuotes :: "(string, string) gomap"

definition emptyIntentSnapshot :: IntentSnapshot where
  "emptyIntentSnapshot = \<lparr>s_Version = IntentSnapshotVersion, s_UpdatedAt = 0, s_Plans = [], s_Cursors = [],
     s_QuickTrades = [], s_QuickRequests = [], s_ConsumedQuotes = []\<rparr>"

end
