(* ===== verification/GoBig.thy ===== *)
theory GoBig
  imports Complex_Main GoStrings
begin

text \<open>
  What the program uses of \<open>math/big\<close>: the text syntax read by \<open>(*Rat).SetString\<close> (an optional sign,
  a mantissa with an optional base prefix, radix point and digit separators, an optional exponent,
  or a fraction) and the fixed-point text of \<open>(*Rat).FloatString\<close>. A \<open>*big.Rat\<close> is a \<^typ>\<open>rat\<close>.
  The end of the theory proves that the fixed-point text the program writes reads back exactly.
\<close>

section \<open>Reading\<close>

text \<open>The value of a digit character; 63 for a character that is no digit in any base.\<close>

definition scanDigit :: "char \<Rightarrow> int" where
  "scanDigit c =
     (if isDigit c then digitVal c
      else if 97 \<le> byte c \<and> byte c \<le> 122 then int (byte c) - 87
      else if 65 \<le> byte c \<and> byte c \<le> 90 then int (byte c) - 55
      else 63)"

text \<open>
  The digit loop of \<open>nat.scan\<close>: base, whether a radix point may still come, the class of the
  previous character, a misplaced separator, the digits counted, where the point was, the value.
\<close>

fun scanLoop ::
  "int \<Rightarrow> bool \<Rightarrow> char \<Rightarrow> bool \<Rightarrow> nat \<Rightarrow> nat option \<Rightarrow> int \<Rightarrow> string
   \<Rightarrow> int \<times> char \<times> bool \<times> nat \<times> nat option \<times> string" where
  "scanLoop b fracOk prev inval cnt dp acc [] = (acc, prev, inval, cnt, dp, [])"
| "scanLoop b fracOk prev inval cnt dp acc (ch # s) =
     (if ch = CHR ''.'' \<and> fracOk then
        scanLoop b False (CHR ''.'') (inval \<or> prev = CHR ''_'') cnt (Some cnt) acc s
      else if ch = CHR ''_'' then
        scanLoop b fracOk (CHR ''_'') (inval \<or> prev \<noteq> CHR ''0'') cnt dp acc s
      else if b \<le> scanDigit ch then (acc, prev, inval, cnt, dp, ch # s)
      else scanLoop b fracOk (CHR ''0'') inval (Suc cnt) dp (acc * b + scanDigit ch) s)"

text \<open>\<open>nat.scan\<close> with base 0: the value, the base, the fraction count and the unread rest.\<close>

definition scanFinish ::
  "int \<Rightarrow> bool \<Rightarrow> int \<times> char \<times> bool \<times> nat \<times> nat option \<times> string
   \<Rightarrow> (int \<times> int \<times> int \<times> string) option" where
  "scanFinish b octal r =
     (case r of (acc, prev, inval, cnt, dp, rest) \<Rightarrow>
        if inval \<or> prev = CHR ''_'' then None
        else if cnt = 0 then (if octal then Some (0, 10, 1, rest) else None)
        else Some (acc, b, (case dp of None \<Rightarrow> int cnt | Some d \<Rightarrow> int d - int cnt), rest))"

definition scanNat :: "bool \<Rightarrow> string \<Rightarrow> (int \<times> int \<times> int \<times> string) option" where
  "scanNat fracOk s =
     (case s of
        [] \<Rightarrow> scanFinish 10 False (scanLoop 10 fracOk (CHR ''.'') False 0 None 0 [])
      | z # t \<Rightarrow>
          (if z \<noteq> CHR ''0'' then
             scanFinish 10 False (scanLoop 10 fracOk (CHR ''.'') False 0 None 0 s)
           else case t of
               [] \<Rightarrow> scanFinish 10 False (scanLoop 10 fracOk (CHR ''0'') False 1 None 0 [])
             | ch # t' \<Rightarrow>
                 (if ch = CHR ''b'' \<or> ch = CHR ''B'' then
                    scanFinish 2 False (scanLoop 2 fracOk (CHR ''0'') False 0 None 0 t')
                  else if ch = CHR ''o'' \<or> ch = CHR ''O'' then
                    scanFinish 8 False (scanLoop 8 fracOk (CHR ''0'') False 0 None 0 t')
                  else if ch = CHR ''x'' \<or> ch = CHR ''X'' then
                    scanFinish 16 False (scanLoop 16 fracOk (CHR ''0'') False 0 None 0 t')
                  else if fracOk then
                    scanFinish 10 False (scanLoop 10 fracOk (CHR ''0'') False 1 None 0 t)
                  else
                    scanFinish 8 True (scanLoop 8 fracOk (CHR ''0'') False 0 None 0 t))))"

definition scanSign :: "string \<Rightarrow> (bool \<times> string) option" where
  "scanSign s =
     (case s of
        [] \<Rightarrow> None
      | c # t \<Rightarrow> Some (if c = CHR ''-'' then (True, t) else if c = CHR ''+'' then (False, t) else (False, s)))"

text \<open>The exponent digits: the digits, the class of the last character, misplaced separators, the rest.\<close>

fun scanExpLoop :: "char \<Rightarrow> bool \<Rightarrow> string \<Rightarrow> string \<times> char \<times> bool \<times> string" where
  "scanExpLoop prev inval [] = ([], prev, inval, [])"
| "scanExpLoop prev inval (ch # s) =
     (if isDigit ch then
        (case scanExpLoop (CHR ''0'') inval s of (ds, r) \<Rightarrow> (ch # ds, r))
      else if ch = CHR ''_'' then scanExpLoop (CHR ''_'') (inval \<or> prev \<noteq> CHR ''0'') s
      else ([], prev, inval, ch # s))"

definition scanExponent :: "string \<Rightarrow> (int \<times> int \<times> string) option" where
  "scanExponent s =
     (case s of
        [] \<Rightarrow> Some (0, 10, [])
      | ch # t \<Rightarrow>
          (if ch = CHR ''e'' \<or> ch = CHR ''E'' \<or> ch = CHR ''p'' \<or> ch = CHR ''P'' then
             (let base = (if ch = CHR ''e'' \<or> ch = CHR ''E'' then 10 else 2);
                  neg = (t \<noteq> [] \<and> hd t = CHR ''-'');
                  body = (if t \<noteq> [] \<and> (hd t = CHR ''-'' \<or> hd t = CHR ''+'') then tl t else t) in
              case scanExpLoop (CHR ''.'') False body of
                (ds, prev, inval, rest) \<Rightarrow>
                  (if ds = [] \<or> inval \<or> prev = CHR ''_'' then None
                   else case Atoi ((if neg then ''-'' else []) @ ds) of
                       None \<Rightarrow> None
                     | Some e \<Rightarrow> Some (e, base, rest)))
           else Some (0, 10, s)))"

definition powz :: "rat \<Rightarrow> int \<Rightarrow> rat" where
  "powz x e = (if 0 \<le> e then x ^ nat e else 1 / x ^ nat (- e))"

definition floatValue :: "bool \<Rightarrow> int \<Rightarrow> int \<Rightarrow> int \<Rightarrow> int \<Rightarrow> int \<Rightarrow> rat option" where
  "floatValue neg mant base fcount ex ebase =
     (if mant = 0 then Some 0
      else
        (let d = (if fcount < 0 then fcount else 0);
             exp5 = (if base = 10 then d else 0) + (if ebase = 10 then ex else 0);
             exp2 = (if base = 8 then 3 * d else if base = 16 then 4 * d else d) + ex;
             v = of_int mant * powz 5 exp5 * powz 2 exp2 in
         if \<bar>exp5\<bar> > 1000000 \<or> exp2 < - 10000000 \<or> exp2 > 10000000 then None
         else Some (if neg then - v else v)))"

definition SetStringFloat :: "string \<Rightarrow> rat option" where
  "SetStringFloat s =
     (case scanSign s of
        None \<Rightarrow> None
      | Some (neg, s1) \<Rightarrow>
          (case scanNat True s1 of
             None \<Rightarrow> None
           | Some (mant, base, fcount, s2) \<Rightarrow>
               (case scanExponent s2 of
                  None \<Rightarrow> None
                | Some (ex, ebase, s3) \<Rightarrow>
                    (if s3 \<noteq> [] then None else floatValue neg mant base fcount ex ebase))))"

definition SetStringFraction :: "string \<Rightarrow> string \<Rightarrow> rat option" where
  "SetStringFraction num den =
     (case scanSign num of
        None \<Rightarrow> None
      | Some (neg, s1) \<Rightarrow>
          (case scanNat False s1 of
             Some (a, _, _, []) \<Rightarrow>
               (case scanNat False den of
                  Some (b, _, _, []) \<Rightarrow>
                    (if b = 0 then None
                     else Some ((if neg then - of_int a else of_int a) / of_int b))
                | _ \<Rightarrow> None)
           | _ \<Rightarrow> None))"

definition SetString :: "string \<Rightarrow> rat option" where
  "SetString s =
     (if s = [] then None
      else case indexByte (CHR ''/'') s of
          Some i \<Rightarrow> SetStringFraction (take i s) (drop (Suc i) s)
        | None \<Rightarrow> SetStringFloat s)"

section \<open>Writing\<close>

text \<open>
  \<open>FloatString(prec)\<close>: the value rounded to \<open>prec\<close> decimals, halves away from zero; the sign is
  written whenever the number is negative, also when it rounds to zero.
\<close>

definition scaled :: "nat \<Rightarrow> rat \<Rightarrow> int" where
  "scaled prec x = \<lfloor>\<bar>x\<bar> * 10 ^ prec + 1 / 2\<rfloor>"

definition FloatString :: "nat \<Rightarrow> rat \<Rightarrow> string" where
  "FloatString prec x =
     (let n = scaled prec x; q = n div 10 ^ prec; r = n mod 10 ^ prec in
      (if x < 0 then ''-'' else []) @ natText q @
      (if prec = 0 then [] else CHR ''.'' # padZero prec (natText r)))"

text \<open>
  \<open>decimalString\<close> of \<open>internal/quicktrade/quote.go\<close>, which the packages \<open>tradereconcile\<close>,
  \<open>spotadapter\<close> and \<open>accountstate\<close> repeat under the name \<open>decimal\<close>.
\<close>

definition decimalString :: "rat \<Rightarrow> string" where
  "decimalString value =
     (let text = trimRightByte (CHR ''.'') (trimRightByte (CHR ''0'') (FloatString 18 value)) in
      if text = [] \<or> text = ''-0'' then ''0'' else text)"

section \<open>What is written reads back\<close>

lemma scanDigit_digit: "isDigit c \<Longrightarrow> scanDigit c = digitVal c"
  by (simp add: scanDigit_def)

lemma isDigit_not_punct: "isDigit c \<Longrightarrow> c \<noteq> CHR ''.'' \<and> c \<noteq> CHR ''_'' \<and> c \<noteq> CHR ''/'' \<and> c \<noteq> CHR ''b'' \<and>
    c \<noteq> CHR ''B'' \<and> c \<noteq> CHR ''o'' \<and> c \<noteq> CHR ''O'' \<and> c \<noteq> CHR ''x'' \<and> c \<noteq> CHR ''X''"
  by (auto simp: isDigit_def byte_def)

text \<open>The digit loop consumes a run of decimal digits and continues behind it.\<close>

lemma scanLoop_digits:
  assumes "list_all isDigit ds" "ds \<noteq> []"
  shows "scanLoop 10 fo prev inval cnt dp acc (ds @ rest) =
         scanLoop 10 fo (CHR ''0'') inval (cnt + length ds) dp (acc * 10 ^ length ds + digitsVal ds) rest"
  using assms
proof (induction ds arbitrary: prev cnt acc)
  case Nil
  then show ?case by simp
next
  case (Cons d ds)
  then have d: "isDigit d" and ds: "list_all isDigit ds" by auto
  have step: "scanLoop 10 fo prev inval cnt dp acc ((d # ds) @ rest) =
      scanLoop 10 fo (CHR ''0'') inval (Suc cnt) dp (acc * 10 + digitVal d) (ds @ rest)"
    using digitVal_bounds [OF d] isDigit_not_punct [OF d] by (simp add: scanDigit_digit [OF d])
  have val: "digitsVal (d # ds) = digitVal d * 10 ^ length ds + digitsVal ds"
    using digitsVal_append [of "[d]" ds] by (simp add: digitsVal_def)
  show ?case
  proof (cases "ds = []")
    case True
    show ?thesis unfolding step by (simp add: True digitsVal_def)
  next
    case False
    show ?thesis unfolding step Cons.IH [OF ds False] val by (simp add: algebra_simps)
  qed
qed

text \<open>A plain decimal text: integer digits, and fraction digits behind a point unless there are none.\<close>

definition plainDecimal :: "string \<Rightarrow> string \<Rightarrow> string" where
  "plainDecimal ip fp = ip @ (if fp = [] then [] else CHR ''.'' # fp)"

definition decimalValue :: "string \<Rightarrow> string \<Rightarrow> rat" where
  "decimalValue ip fp = of_int (digitsVal (ip @ fp)) / 10 ^ length fp"

lemma scanNat_plain:
  assumes ip: "list_all isDigit ip" "ip \<noteq> []" and fp: "list_all isDigit fp"
  shows "scanNat True (plainDecimal ip fp) =
    Some (digitsVal (ip @ fp), 10, (if fp = [] then int (length ip) else - int (length fp)), [])"
proof -
  have loop: "scanFinish 10 False (scanLoop 10 True prev False cnt None acc (plainDecimal ip' fp)) =
      Some (acc * 10 ^ (length ip' + length fp) + digitsVal (ip' @ fp), 10,
        (if fp = [] then int (cnt + length ip') else - int (length fp)), [])"
    if "list_all isDigit ip'" "ip' \<noteq> [] \<or> (prev = CHR ''0'' \<and> 0 < cnt)" for ip' prev cnt acc
  proof -
    have point: "scanLoop 10 True prev' False cnt' None acc' (CHR ''.'' # fp) =
        (acc' * 10 ^ length fp + digitsVal fp, CHR ''0'', False, cnt' + length fp, Some cnt', [])"
      if "prev' = CHR ''0''" "fp \<noteq> []" for prev' cnt' acc'
      using that scanLoop_digits [OF fp that(2), where rest = "[]"] by simp
    show ?thesis
    proof (cases "ip' = []")
      case True
      with that point [of prev] show ?thesis
        by (auto simp: plainDecimal_def scanFinish_def)
    next
      case False
      have "scanLoop 10 True prev False cnt None acc (plainDecimal ip' fp) =
          scanLoop 10 True (CHR ''0'') False (cnt + length ip') None (acc * 10 ^ length ip' + digitsVal ip')
            (if fp = [] then [] else CHR ''.'' # fp)"
        by (simp add: plainDecimal_def scanLoop_digits [OF that(1) False])
      then show ?thesis using False point [OF refl]
        by (auto simp: scanFinish_def digitsVal_append power_add algebra_simps)
    qed
  qed
  obtain c r where cr: "ip = c # r" using ip(2) by (cases ip) auto
  have cd: "isDigit c" "list_all isDigit r" using ip cr by auto
  have pd: "plainDecimal ip fp = c # plainDecimal r fp" by (simp add: cr plainDecimal_def)
  show ?thesis
  proof (cases "c = CHR ''0''")
    case False
    have "scanNat True (plainDecimal ip fp) =
        scanFinish 10 False (scanLoop 10 True (CHR ''.'') False 0 None 0 (plainDecimal ip fp))"
      using False by (simp add: scanNat_def pd)
    then show ?thesis using loop [OF ip(1)] ip(2) by simp
  next
    case True
    have dv: "digitsVal (ip @ fp) = digitsVal (r @ fp)"
      using digitsVal_append [of "[c]" "r @ fp"] True by (simp add: cr digitsVal_def digitVal_def byte_def)
    have head: "plainDecimal r fp = [] \<or> (\<exists>h t. plainDecimal r fp = h # t \<and> (isDigit h \<or> h = CHR ''.''))"
      using cd(2) by (cases r) (auto simp: plainDecimal_def)
    have "scanNat True (plainDecimal ip fp) =
        scanFinish 10 False (scanLoop 10 True (CHR ''0'') False 1 None 0 (plainDecimal r fp))"
      using head isDigit_not_punct by (auto simp: scanNat_def pd True)
    then show ?thesis using loop [OF cd(2), of "CHR ''0''" 1 0] dv by (simp add: cr)
  qed
qed

lemma scanExponent_Nil [simp]: "scanExponent [] = Some (0, 10, [])"
  by (simp add: scanExponent_def)

lemma floatValue_plain:
  assumes "d \<le> 1000000" and that: "0 \<le> k"
  shows "floatValue neg m 10 (if d = 0 then k else - int d) 0 10 =
    Some ((if neg then - 1 else 1) * (of_int m / 10 ^ d))"
proof -
  have p: "powz 5 (- int d) * powz 2 (- int d) = 1 / 10 ^ d"
    by (cases "d = 0") (simp_all add: powz_def flip: power_mult_distrib)
  have e: "(if (if d = 0 then k else - int d) < 0 then (if d = 0 then k else - int d) else 0) = - int d"
    using that by simp
  have "of_int m * powz 5 (- int d) * powz 2 (- int d) = of_int m / 10 ^ d"
    using p by (simp add: mult.assoc)
  then show ?thesis
    using assms by (simp only: floatValue_def Let_def e) auto
qed

lemma SetString_plain:
  assumes ip: "list_all isDigit ip" "ip \<noteq> []" and fp: "list_all isDigit fp" "length fp \<le> 1000000"
  shows "SetString ((if neg then ''-'' else []) @ plainDecimal ip fp) =
    Some ((if neg then - 1 else 1) * decimalValue ip fp)"
proof -
  let ?s = "(if neg then ''-'' else []) @ plainDecimal ip fp"
  have "CHR ''/'' \<notin> set ip" "CHR ''/'' \<notin> set fp"
    using ip fp isDigit_not_punct by (auto simp: list_all_iff)
  then have noslash: "indexByte (CHR ''/'') ?s = None"
    by (auto simp: indexByte_None plainDecimal_def)
  obtain c r where cr: "ip = c # r" using ip(2) by (cases ip) auto
  then have "c \<noteq> CHR ''-''" "c \<noteq> CHR ''+''" using ip isDigit_not_sign by auto
  then have sign: "scanSign ?s = Some (neg, plainDecimal ip fp)"
    by (simp add: scanSign_def plainDecimal_def cr)
  have ne: "?s \<noteq> []" using cr by (simp add: plainDecimal_def)
  have "SetString ?s = SetStringFloat ?s"
    using ne noslash unfolding SetString_def by (simp only: if_False option.case)
  also have "\<dots> = floatValue neg (digitsVal (ip @ fp)) 10
      (if fp = [] then int (length ip) else - int (length fp)) 0 10"
    by (simp only: SetStringFloat_def sign scanNat_plain [OF ip fp(1)] option.case prod.case scanExponent_Nil) simp
  also have "\<dots> = Some ((if neg then - 1 else 1) * decimalValue ip fp)"
    using floatValue_plain [OF fp(2), of "int (length ip)" neg "digitsVal (ip @ fp)"]
    by (simp add: decimalValue_def)
  finally show ?thesis .
qed

lemma trimRightByte_append_ne:
  "\<exists>x\<in>set t. x \<noteq> c \<Longrightarrow> trimRightByte c (s @ t) = s @ trimRightByte c t"
proof -
  assume "\<exists>x\<in>set t. x \<noteq> c"
  then obtain x where "x \<in> set (rev t)" "x \<noteq> c" by auto
  then have "dropWhile (\<lambda>x. x = c) (rev t @ rev s) = dropWhile (\<lambda>x. x = c) (rev t) @ rev s"
    by (rule dropWhile_append1)
  then show ?thesis by (simp add: trimRightByte_def)
qed

lemma trimRightByte_split: "\<exists>k. t = trimRightByte c t @ replicate k c"
proof -
  have "rev t = takeWhile (\<lambda>x. x = c) (rev t) @ dropWhile (\<lambda>x. x = c) (rev t)" by simp
  then have "t = rev (dropWhile (\<lambda>x. x = c) (rev t)) @ rev (takeWhile (\<lambda>x. x = c) (rev t))"
    by (metis rev_append rev_rev_ident)
  moreover have "rev (takeWhile (\<lambda>x. x = c) (rev t)) = replicate (length (takeWhile (\<lambda>x. x = c) (rev t))) c"
    by (intro replicate_eqI) (auto dest: set_takeWhileD)
  ultimately show ?thesis unfolding trimRightByte_def by metis
qed

lemma trimRightByte_last: "s \<noteq> [] \<Longrightarrow> last s \<noteq> c \<Longrightarrow> trimRightByte c s = s"
  by (cases s rule: rev_cases) (auto simp: trimRightByte_def)

lemma trimRightByte_no_last: "trimRightByte c s \<noteq> [] \<Longrightarrow> last (trimRightByte c s) \<noteq> c"
  unfolding trimRightByte_def using hd_dropWhile [of "\<lambda>x. x = c" "rev s"] by (simp add: last_rev)

text \<open>Trimming the zeros and then the point off a fixed-point text leaves a plain decimal text.\<close>

lemma trim_fixed_point:
  assumes "list_all isDigit ip" "ip \<noteq> []" "list_all isDigit fp"
  shows "trimRightByte (CHR ''.'') (trimRightByte (CHR ''0'') (ip @ CHR ''.'' # fp)) =
         plainDecimal ip (trimRightByte (CHR ''0'') fp)"
proof -
  let ?f = "trimRightByte (CHR ''0'') fp"
  have inner: "trimRightByte (CHR ''0'') (ip @ CHR ''.'' # fp) = ip @ CHR ''.'' # ?f"
  proof -
    obtain k where k: "fp = ?f @ replicate k (CHR ''0'')" using trimRightByte_split by blast
    have "trimRightByte (CHR ''0'') (ip @ CHR ''.'' # fp) = ip @ trimRightByte (CHR ''0'') (CHR ''.'' # fp)"
      by (rule trimRightByte_append_ne) simp
    also have "trimRightByte (CHR ''0'') (CHR ''.'' # fp) = CHR ''.'' # ?f"
    proof (cases "\<exists>x\<in>set fp. x \<noteq> CHR ''0''")
      case True
      then show ?thesis using trimRightByte_append_ne [of fp "CHR ''0''" "[CHR ''.'']"] by simp
    next
      case False
      then have "rev fp = replicate (length fp) (CHR ''0'')" by (intro replicate_eqI) auto
      then show ?thesis by (simp add: trimRightByte_def dropWhile_append3)
    qed
    finally show ?thesis by simp
  qed
  show ?thesis
  proof (cases "?f = []")
    case True
    have "last ip \<noteq> CHR ''.''" using assms isDigit_not_punct [of "last ip"] by (auto simp: list_all_iff)
    then show ?thesis using True assms(2) trimRightByte_last [of ip "CHR ''.''"]
      by (simp add: inner plainDecimal_def) (simp add: trimRightByte_def)
  next
    case False
    have "\<forall>x\<in>set ?f. isDigit x" using assms(3) trimRightByte_split [of fp "CHR ''0''"]
      by (metis Un_iff list_all_iff set_append)
    then have "last ?f \<noteq> CHR ''.''" using False isDigit_not_punct last_in_set by blast
    then show ?thesis using False by (simp add: inner plainDecimal_def trimRightByte_last)
  qed
qed

lemma FloatString_18:
  "FloatString 18 x = (if x < 0 then ''-'' else []) @ natText (scaled 18 x div 10 ^ 18) @
     CHR ''.'' # padZero 18 (natText (scaled 18 x mod 10 ^ 18))"
  by (simp add: FloatString_def Let_def)

text \<open>The text is the sign and a plain decimal whose value is the number rounded to 18 places.\<close>

lemma decimalString_plain:
  obtains ip fp where
    "list_all isDigit ip" "ip \<noteq> []" "list_all isDigit fp" "length fp \<le> 18"
    "decimalValue ip fp = of_int (scaled 18 x) / 10 ^ 18"
    "decimalString x = (if x < 0 \<and> plainDecimal ip fp \<noteq> ''0'' then ''-'' else []) @ plainDecimal ip fp"
proof -
  let ?n = "scaled 18 x"
  let ?ip = "natText (?n div 10 ^ 18)" and ?rp = "padZero 18 (natText (?n mod 10 ^ 18))"
  let ?fp = "trimRightByte (CHR ''0'') ?rp"
  have n: "0 \<le> ?n" unfolding scaled_def by (simp add: le_floor_iff)
  have ip: "list_all isDigit ?ip" using n by simp
  have rp: "list_all isDigit ?rp" by (simp add: padZero_digits)
  have lrp: "length ?rp = 18" by (rule length_padZero, rule natText_length) simp_all
  obtain k where k: "?rp = ?fp @ replicate k (CHR ''0'')" using trimRightByte_split by blast
  have fp: "list_all isDigit ?fp" using rp k by (metis list_all_append)
  have lfp: "length ?fp + k = 18" using k lrp by (metis length_append length_replicate)
  have "digitsVal (?ip @ ?rp) = ?n"
    using n lrp by (simp add: digitsVal_append div_mult_mod_eq)
  moreover have "digitsVal (?ip @ ?rp) = digitsVal (?ip @ ?fp) * 10 ^ k"
  proof -
    have "?ip @ ?rp = (?ip @ ?fp) @ replicate k (CHR ''0'')" using k by simp
    then show ?thesis using digitsVal_append [of "?ip @ ?fp" "replicate k (CHR ''0'')"]
      by (simp only: digitsVal_zeros length_replicate add_0_right)
  qed
  ultimately have "?n = digitsVal (?ip @ ?fp) * 10 ^ k" by (simp only:)
  then have "(of_int ?n :: rat) = of_int (digitsVal (?ip @ ?fp) * 10 ^ k)" by (simp only:)
  then have "of_int ?n = (of_int (digitsVal (?ip @ ?fp)) :: rat) * 10 ^ k"
    by (simp only: of_int_mult of_int_power of_int_numeral)
  moreover have "(10 :: rat) ^ 18 = 10 ^ length ?fp * 10 ^ k" by (simp only: lfp flip: power_add)
  ultimately have val: "decimalValue ?ip ?fp = of_int ?n / 10 ^ 18"
    unfolding decimalValue_def
    by (simp only:) (rule nonzero_mult_divide_mult_cancel_right [symmetric], simp)
  let ?sg = "if x < 0 then ''-'' else []"
  have "trimRightByte (CHR ''0'') (FloatString 18 x) = ?sg @ trimRightByte (CHR ''0'') (?ip @ CHR ''.'' # ?rp)"
    unfolding FloatString_18 by (rule trimRightByte_append_ne) simp
  moreover have "trimRightByte (CHR ''.'') (?sg @ trimRightByte (CHR ''0'') (?ip @ CHR ''.'' # ?rp)) =
      ?sg @ trimRightByte (CHR ''.'') (trimRightByte (CHR ''0'') (?ip @ CHR ''.'' # ?rp))"
  proof (rule trimRightByte_append_ne)
    obtain j where j: "?ip @ CHR ''.'' # ?rp = trimRightByte (CHR ''0'') (?ip @ CHR ''.'' # ?rp) @ replicate j (CHR ''0'')"
      using trimRightByte_split by blast
    have "hd ?ip \<in> set (?ip @ CHR ''.'' # ?rp)" by simp
    show "\<exists>y\<in>set (trimRightByte (CHR ''0'') (?ip @ CHR ''.'' # ?rp)). y \<noteq> CHR ''.''"
      using ip isDigit_not_punct [of "hd ?ip"]
      by (subst trimRightByte_append_ne) (auto simp: list_all_iff intro!: bexI [of _ "hd ?ip"])
  qed
  ultimately have trimmed: "trimRightByte (CHR ''.'') (trimRightByte (CHR ''0'') (FloatString 18 x)) =
      ?sg @ plainDecimal ?ip ?fp"
    by (simp only: trim_fixed_point [OF ip natText_ne rp])
  have "plainDecimal ?ip ?fp \<noteq> []" by (simp add: plainDecimal_def)
  then have "decimalString x = (if x < 0 \<and> plainDecimal ?ip ?fp \<noteq> ''0'' then ''-'' else []) @ plainDecimal ?ip ?fp"
    using isDigit_not_sign ip unfolding decimalString_def trimmed Let_def
    by (cases ?ip) (auto simp: plainDecimal_def split: if_splits)
  with ip fp lfp val show ?thesis by (intro that [of ?ip ?fp]) simp_all
qed

text \<open>Numbers with at most 18 decimals.\<close>

definition fits18 :: "rat \<Rightarrow> bool" where
  "fits18 x \<longleftrightarrow> x * 10 ^ 18 \<in> \<int>"

lemma scaled_fits18: "fits18 x \<Longrightarrow> of_int (scaled 18 x) = \<bar>x\<bar> * 10 ^ 18"
proof -
  assume "fits18 x"
  then obtain i where i: "x * 10 ^ 18 = of_int i" by (auto simp: fits18_def Ints_def)
  then have a: "\<bar>x\<bar> * 10 ^ 18 = of_int \<bar>i\<bar>" by (metis abs_mult abs_numeral abs_power_minus of_int_abs power_abs)
  then have "scaled 18 x = \<bar>i\<bar>" unfolding scaled_def by (intro floor_unique) linarith+
  with a show ?thesis by simp
qed

lemma SetString_decimalString_rounded:
  "SetString (decimalString x) = Some (sgn x * (of_int (scaled 18 x) / 10 ^ 18)) \<or> x = 0 \<and> SetString (decimalString x) = Some 0"
proof -
  obtain ip fp where h: "list_all isDigit ip" "ip \<noteq> []" "list_all isDigit fp" "length fp \<le> 18"
    "decimalValue ip fp = of_int (scaled 18 x) / 10 ^ 18"
    "decimalString x = (if x < 0 \<and> plainDecimal ip fp \<noteq> ''0'' then ''-'' else []) @ plainDecimal ip fp"
    by (rule decimalString_plain)
  let ?neg = "x < 0 \<and> plainDecimal ip fp \<noteq> ''0''"
  have s: "SetString (decimalString x) = Some ((if ?neg then - 1 else 1) * decimalValue ip fp)"
    unfolding h(6) using SetString_plain [of ip fp ?neg] h(1-4) by simp
  have z: "decimalValue ip fp = 0" if "plainDecimal ip fp = ''0''"
  proof -
    have "ip = ''0'' \<and> fp = []" using that h(2) by (cases ip) (auto simp: plainDecimal_def split: if_splits)
    then show ?thesis by (simp add: decimalValue_def digitsVal_def digitVal_def byte_def)
  qed
  show ?thesis
  proof (cases "x = 0")
    case True
    then have "scaled 18 x = 0" unfolding scaled_def by (intro floor_unique) auto
    with s h(5) True show ?thesis by simp
  next
    case False
    then have "(if ?neg then - 1 else 1) * decimalValue ip fp = sgn x * decimalValue ip fp"
      using z by (cases "x < 0") (auto simp: sgn_if)
    with s h(5) show ?thesis by (simp only: simp_thms)
  qed
qed

theorem SetString_decimalString: "fits18 x \<Longrightarrow> SetString (decimalString x) = Some x"
proof -
  assume f: "fits18 x"
  have "sgn x * (of_int (scaled 18 x) / 10 ^ 18) = x"
    using scaled_fits18 [OF f] by (simp add: sgn_if)
  then show ?thesis using SetString_decimalString_rounded [of x] by auto
qed

end
