(* ===== verification/Quote.thy ===== *)
theory Quote
  imports IntentData GoBig
begin

text \<open>
  \<open>internal/quicktrade/quote.go\<close>: pricing a quick trade. A venue provider is not part of this package:
  it is a record of the three functions of the \<open>Provider\<close> interface, an argument of the operations.
  The clock reading and the generated identifier of one call are arguments too. Rational arithmetic is
  exact, as \<open>math/big\<close>'s is; \<open>decimalString\<close> rounds to 18 places when a value is written out.
\<close>

section \<open>Routes and market data\<close>

record Route =
  rt_ID :: string
  rt_Venue :: venue
  rt_Instrument :: string
  rt_BaseAsset :: string
  rt_QuoteAsset :: string
  rt_FromAsset :: string
  rt_ToAsset :: string
  rt_Side :: string

definition route :: "string \<Rightarrow> venue \<Rightarrow> string \<Rightarrow> string \<Rightarrow> string \<Rightarrow> string \<Rightarrow> string \<Rightarrow> string \<Rightarrow> string \<times> Route" where
  "route i v ins b q fr t sd =
     (i, \<lparr>rt_ID = i, rt_Venue = v, rt_Instrument = ins, rt_BaseAsset = b, rt_QuoteAsset = q,
          rt_FromAsset = fr, rt_ToAsset = t, rt_Side = sd\<rparr>)"

definition supportedRoutes :: "(string, Route) gomap" where
  "supportedRoutes =
     [route ''bybit-usdt-btc'' VenueBybit ''BTCUSDT'' ''BTC'' ''USDT'' ''USDT'' ''BTC'' SideBuy,
      route ''bybit-btc-usdt'' VenueBybit ''BTCUSDT'' ''BTC'' ''USDT'' ''BTC'' ''USDT'' SideSell,
      route ''bybit-usdt-eth'' VenueBybit ''ETHUSDT'' ''ETH'' ''USDT'' ''USDT'' ''ETH'' SideBuy,
      route ''bybit-eth-usdt'' VenueBybit ''ETHUSDT'' ''ETH'' ''USDT'' ''ETH'' ''USDT'' SideSell,
      route ''deribit-usdc-btc'' VenueDeribit ''BTC_USDC'' ''BTC'' ''USDC'' ''USDC'' ''BTC'' SideBuy,
      route ''deribit-btc-usdc'' VenueDeribit ''BTC_USDC'' ''BTC'' ''USDC'' ''BTC'' ''USDC'' SideSell]"

record InstrumentRules =
  ir_Instrument :: string
  ir_BaseAsset :: string
  ir_QuoteAsset :: string
  ir_TickSize :: string
  ir_QuantityStep :: string
  ir_MinimumQuantity :: string
  ir_MinimumNotional :: string
  ir_MaximumQuantity :: string
  ir_MetadataRevision :: string

record BookLevel =
  bl_Price :: string
  bl_Quantity :: string

record MarketSnapshot =
  ms_Rules :: InstrumentRules
  ms_Bids :: "BookLevel list"
  ms_Asks :: "BookLevel list"
  ms_ObservedAt :: time

record Capacity =
  cy_Available :: string
  cy_AccountRevision :: int
  cy_ObservedAt :: time

record FeePolicy =
  fp_Rate :: string
  fp_ChargeAsset :: string
  fp_ThirdAsset :: string
  fp_ThirdAssetAmount :: string
  fp_Source :: string

record Provider =
  pv_Market :: "Route \<Rightarrow> MarketSnapshot result"
  pv_Available :: "Route \<Rightarrow> string \<Rightarrow> Capacity result"
  pv_Fee :: "Route \<Rightarrow> FeePolicy result"

record Caps =
  cp_ByAsset :: "(string, string) gomap"
  cp_ByVenueSource :: "(string, string) gomap"

record QuoteService =
  qs_Providers :: "(venue, Provider) gomap"
  qs_TTL :: duration
  qs_BookMaxAge :: duration
  qs_SlippageBPS :: int
  qs_Caps :: Caps

record CreateRequest =
  cr_Identity :: string
  cr_Venue :: venue
  cr_RouteID :: string
  cr_SpendBudget :: string
  cr_AccountAlias :: string

section \<open>Arithmetic\<close>

definition positiveDecimal :: "string \<Rightarrow> string \<Rightarrow> rat result" where
  "positiveDecimal name raw =
     (case SetString (TrimSpace raw) of
        Some v \<Rightarrow> (if v \<le> 0 then Inl (EText (name @ '' must be a positive decimal'')) else Inr v)
      | None \<Rightarrow> Inl (EText (name @ '' must be a positive decimal'')))"

definition nonNegativeDecimal :: "string \<Rightarrow> string \<Rightarrow> rat result" where
  "nonNegativeDecimal name raw =
     (case SetString (TrimSpace raw) of
        Some v \<Rightarrow> (if v < 0 then Inl (EText (name @ '' must be a non-negative decimal'')) else Inr v)
      | None \<Rightarrow> Inl (EText (name @ '' must be a non-negative decimal'')))"

text \<open>\<open>Int.Quo\<close> of the numerator by the denominator truncates towards zero.\<close>

definition ratTrunc :: "rat \<Rightarrow> int" where
  "ratTrunc x = (if x < 0 then \<lceil>x\<rceil> else \<lfloor>x\<rfloor>)"

definition floorToStep :: "rat \<Rightarrow> rat \<Rightarrow> rat" where
  "floorToStep v step = of_int (ratTrunc (v / step)) * step"

definition ceilToStep :: "rat \<Rightarrow> rat \<Rightarrow> rat" where
  "ceilToStep v step =
     (let units = v / step; whole = ratTrunc units in
      of_int (if of_int whole \<noteq> units then whole + 1 else whole) * step)"

definition minRat :: "rat \<Rightarrow> rat \<Rightarrow> rat" where
  "minRat l r = (if l \<le> r then l else r)"

definition protectedLimit :: "string \<Rightarrow> rat \<Rightarrow> rat \<Rightarrow> rat \<Rightarrow> int \<Rightarrow> rat" where
  "protectedLimit side bid ask tick bps =
     (if side = SideBuy then floorToStep (ask * (of_int (10000 + bps) / 10000)) tick
      else ceilToStep (bid * (of_int (10000 - bps) / 10000)) tick)"

definition maximumBaseQuantity :: "string \<Rightarrow> rat \<Rightarrow> rat \<Rightarrow> rat \<Rightarrow> string \<Rightarrow> rat \<Rightarrow> rat" where
  "maximumBaseQuantity side spend limit step chargeAsset feeRate =
     (let d = (if side = SideSell then 1 else limit);
          d' = (if chargeAsset = ''from'' then d * (1 + feeRate) else d) in
      floorToStep (spend / d') step)"

definition sourceDebitUpperBound :: "string \<Rightarrow> rat \<Rightarrow> rat \<Rightarrow> string \<Rightarrow> rat \<Rightarrow> rat" where
  "sourceDebitUpperBound side quantity limit chargeAsset feeRate =
     (let d = (if side = SideBuy then quantity * limit else quantity) in
      if chargeAsset = ''from'' then d * (1 + feeRate) else d)"

section \<open>Parsing what the venue says\<close>

record parsedRules =
  pr_tick :: rat
  pr_step :: rat
  pr_minimumQuantity :: rat
  pr_minimumNotional :: "rat option"
  pr_maximumQuantity :: "rat option"

type_synonym parsedLevel = "rat \<times> rat"

record parsedBook =
  pb_bestBid :: rat
  pb_bestAsk :: rat
  pb_bids :: "parsedLevel list"
  pb_asks :: "parsedLevel list"

definition recode :: "string \<Rightarrow> 'a result \<Rightarrow> 'a result" where
  "recode code r = (case r of Inl (EText m) \<Rightarrow> Inl (ECode code m) | Inl e \<Rightarrow> Inl (EWrap code e) | Inr x \<Rightarrow> Inr x)"

definition optionalDecimal :: "string \<Rightarrow> string \<Rightarrow> rat option result" where
  "optionalDecimal name raw = (if raw \<noteq> [] then rbind (positiveDecimal name raw) (\<lambda>v. Inr (Some v)) else Inr None)"

definition parseRules :: "Route \<Rightarrow> InstrumentRules \<Rightarrow> parsedRules result" where
  "parseRules r rules =
     (if ir_Instrument rules \<noteq> rt_Instrument r \<or> ToUpper (ir_BaseAsset rules) \<noteq> rt_BaseAsset r \<or>
         ToUpper (ir_QuoteAsset rules) \<noteq> rt_QuoteAsset r
      then Inl (ECode ''METADATA_MISMATCH'' ''venue instrument metadata does not match the configured route'')
      else
        rbind (recode ''INVALID_INSTRUMENT_RULES'' (positiveDecimal ''tick size'' (ir_TickSize rules))) (\<lambda>tick.
        rbind (recode ''INVALID_INSTRUMENT_RULES'' (positiveDecimal ''quantity step'' (ir_QuantityStep rules))) (\<lambda>step.
        rbind (recode ''INVALID_INSTRUMENT_RULES'' (positiveDecimal ''minimum quantity'' (ir_MinimumQuantity rules))) (\<lambda>minq.
        rbind (recode ''INVALID_INSTRUMENT_RULES'' (optionalDecimal ''minimum notional'' (ir_MinimumNotional rules))) (\<lambda>minn.
        rbind (recode ''INVALID_INSTRUMENT_RULES'' (optionalDecimal ''maximum quantity'' (ir_MaximumQuantity rules))) (\<lambda>maxq.
          Inr \<lparr>pr_tick = tick, pr_step = step, pr_minimumQuantity = minq, pr_minimumNotional = minn,
               pr_maximumQuantity = maxq\<rparr>))))))"

fun parseLevels :: "string \<Rightarrow> BookLevel list \<Rightarrow> parsedLevel list result" where
  "parseLevels side [] = Inr []"
| "parseLevels side (l # ls) =
     rbind (recode ''INVALID_BOOK'' (positiveDecimal (side @ '' price'') (bl_Price l))) (\<lambda>price.
     rbind (recode ''INVALID_BOOK'' (positiveDecimal (side @ '' quantity'') (bl_Quantity l))) (\<lambda>quantity.
     rbind (parseLevels side ls) (\<lambda>rest. Inr ((price, quantity) # rest))))"

fun adjacent :: "('a \<Rightarrow> 'a \<Rightarrow> bool) \<Rightarrow> 'a list \<Rightarrow> bool" where
  "adjacent P (x # y # zs) = (P x y \<and> adjacent P (y # zs))"
| "adjacent P _ = True"

definition parseBook :: "MarketSnapshot \<Rightarrow> time \<Rightarrow> duration \<Rightarrow> parsedBook result" where
  "parseBook market now maxAge =
     (if IsZero (ms_ObservedAt market) \<or> Sub now (ms_ObservedAt market) > maxAge \<or> After (ms_ObservedAt market) (Add now Second)
      then Inl (ECode ''STALE_MARKET_DATA'' ''market data is stale'')
      else
        rbind (parseLevels ''bid'' (ms_Bids market)) (\<lambda>bids.
        rbind (parseLevels ''ask'' (ms_Asks market)) (\<lambda>asks.
          if bids = [] \<or> asks = [] \<or> fst (hd bids) \<ge> fst (hd asks)
          then Inl (ECode ''INVALID_BOOK'' ''market book is empty or crossed'')
          else if \<not> adjacent (\<lambda>a b. \<not> fst a < fst b) bids
          then Inl (ECode ''INVALID_BOOK'' ''bid levels are not in executable order'')
          else if \<not> adjacent (\<lambda>a b. \<not> fst a > fst b) asks
          then Inl (ECode ''INVALID_BOOK'' ''ask levels are not in executable order'')
          else Inr \<lparr>pb_bestBid = fst (hd bids), pb_bestAsk = fst (hd asks), pb_bids = bids, pb_asks = asks\<rparr>)))"

section \<open>Depth, fees and caps\<close>

text \<open>The fill loop: the unfilled rest, the quantity filled and the proceeds so far.\<close>

fun fillLevels :: "string \<Rightarrow> rat \<Rightarrow> rat \<Rightarrow> rat \<Rightarrow> rat \<Rightarrow> parsedLevel list \<Rightarrow> rat \<times> rat" where
  "fillLevels side limit remaining filled received [] = (filled, received)"
| "fillLevels side limit remaining filled received ((price, quantity) # ls) =
     (if (side = SideBuy \<and> price > limit) \<or> (side = SideSell \<and> price < limit) then (filled, received)
      else
        (let take = minRat remaining quantity;
             filled' = filled + take;
             received' = (if side = SideSell then received + take * price else received);
             remaining' = remaining - take in
         if remaining' = 0 then (filled', received') else fillLevels side limit remaining' filled' received' ls))"

definition executableEstimate :: "string \<Rightarrow> rat \<Rightarrow> rat \<Rightarrow> parsedBook \<Rightarrow> rat \<times> rat" where
  "executableEstimate side requested limit book =
     (let levels = (if side = SideSell then pb_bids book else pb_asks book);
          (filled, received) = fillLevels side limit requested 0 0 levels in
      (filled, if side = SideBuy then filled else received))"

definition parseFeePolicy :: "FeePolicy \<Rightarrow> rat result" where
  "parseFeePolicy policy =
     (if fp_Source policy = [] \<or> (fp_ChargeAsset policy \<noteq> ''from'' \<and> fp_ChargeAsset policy \<noteq> ''to'' \<and> fp_ChargeAsset policy \<noteq> ''third'')
      then Inl (EText ''fee policy lacks source or charge asset'')
      else if fp_ChargeAsset policy = ''third'' then Inr 0
      else rbind (nonNegativeDecimal ''fee rate'' (fp_Rate policy)) (\<lambda>rate.
        if rate > 1 / 10 then Inl (EText ''fee rate exceeds supported safety bound'') else Inr rate))"

definition capOf :: "(string, string) gomap \<Rightarrow> string \<Rightarrow> string" where
  "capOf m k = (case gget m k of None \<Rightarrow> [] | Some v \<Rightarrow> v)"

fun checkCaps :: "rat \<Rightarrow> string list \<Rightarrow> goerror option" where
  "checkCaps spend [] = None"
| "checkCaps spend (raw # raws) =
     (case positiveDecimal ''quick trade cap'' raw of
        Inl _ \<Rightarrow> Some (EText ''quick trade cap configuration is invalid'')
      | Inr cap \<Rightarrow>
          (if spend > cap then Some (ECode ''DEMO_AMOUNT_LIMIT'' ''the amount exceeds the configured demo limit'')
           else checkCaps spend raws))"

definition validateCap :: "Caps \<Rightarrow> Route \<Rightarrow> rat \<Rightarrow> goerror option" where
  "validateCap caps r spend =
     checkCaps spend [capOf (cp_ByAsset caps) (rt_FromAsset r),
                      capOf (cp_ByVenueSource caps) (rt_Venue r @ '':'' @ rt_FromAsset r)]"

definition feeEstimate ::
  "Provider \<Rightarrow> Route \<Rightarrow> FeePolicy \<Rightarrow> rat \<Rightarrow> rat \<Rightarrow> rat \<Rightarrow> rat \<Rightarrow> (QuoteFee list \<times> AssetReserve list \<times> rat) result" where
  "feeEstimate provider r policy rate filled grossDestination limitPrice =
     (let fee = (\<lambda>asset amount basis. [\<lparr>qf_Asset = asset, qf_EstimatedAmount = decimalString amount,
            qf_Source = fp_Source policy, qf_CalculationBasis = basis\<rparr>]) in
      if fp_ChargeAsset policy = ''from'' then
        (let feeBase = (if rt_Side r = SideBuy then filled * limitPrice else filled) in
         Inr (fee (rt_FromAsset r) (feeBase * rate) ''source debit upper bound'', [], grossDestination))
      else if fp_ChargeAsset policy = ''to'' then
        Inr (fee (rt_ToAsset r) (grossDestination * rate) ''destination received'', [], grossDestination - grossDestination * rate)
      else if fp_ChargeAsset policy = ''third'' then
        (case positiveDecimal ''third asset fee reserve'' (fp_ThirdAssetAmount policy) of
           Inl _ \<Rightarrow> Inl (ECode ''FEE_MODEL_UNAVAILABLE'' ''third-asset fee reserve is unavailable'')
         | Inr third \<Rightarrow>
             (if TrimSpace (fp_ThirdAsset policy) = []
              then Inl (ECode ''FEE_MODEL_UNAVAILABLE'' ''third-asset fee reserve is unavailable'')
              else case pv_Available provider r (fp_ThirdAsset policy) of
                  Inl e \<Rightarrow> Inl (EProvider ''CAPACITY_UNAVAILABLE'' ''Fee-asset capacity could not be verified.'' e)
                | Inr capacity \<Rightarrow>
                    (case nonNegativeDecimal ''third asset available'' (cy_Available capacity) of
                       Inl _ \<Rightarrow> Inl (ECode ''INSUFFICIENT_FEE_ASSET'' ''the required fee asset is unavailable'')
                     | Inr available \<Rightarrow>
                         (if available < third
                          then Inl (ECode ''INSUFFICIENT_FEE_ASSET'' ''the required fee asset is unavailable'')
                          else Inr (fee (ToUpper (fp_ThirdAsset policy)) third ''third-asset reserve'',
                             [\<lparr>ar_Asset = ToUpper (fp_ThirdAsset policy), ar_Amount = decimalString third\<rparr>],
                             grossDestination)))))
      else Inl (ECode ''FEE_MODEL_UNAVAILABLE'' ''fee charge asset is unknown''))"

section \<open>Creating a quote\<close>

text \<open>The protected limit and the largest legal quantity, with every rejection of \<open>Create\<close> between them.\<close>

definition sizeOrder ::
  "Route \<Rightarrow> parsedRules \<Rightarrow> parsedBook \<Rightarrow> string \<Rightarrow> rat \<Rightarrow> int \<Rightarrow> rat \<Rightarrow> (rat \<times> rat) result" where
  "sizeOrder r rules book chargeAsset feeRate bps spend =
     (let limitPrice = protectedLimit (rt_Side r) (pb_bestBid book) (pb_bestAsk book) (pr_tick rules) bps;
          baseQuantity = maximumBaseQuantity (rt_Side r) spend limitPrice (pr_step rules) chargeAsset feeRate in
      if (rt_Side r = SideBuy \<and> limitPrice < pb_bestAsk book) \<or> (rt_Side r = SideSell \<and> limitPrice > pb_bestBid book)
      then Inl (ECode ''PRICE_PROTECTION_UNAVAILABLE'' ''no marketable legal tick exists inside the price protection limit'')
      else if baseQuantity \<le> 0 then Inl (ECode ''AMOUNT_TOO_SMALL'' ''the amount is below the legal quantity step'')
      else if baseQuantity < pr_minimumQuantity rules
        then Inl (ECode ''AMOUNT_TOO_SMALL'' ''the amount is below the venue minimum quantity'')
      else if (case pr_maximumQuantity rules of None \<Rightarrow> False | Some m \<Rightarrow> baseQuantity > m)
        then Inl (ECode ''AMOUNT_TOO_LARGE'' ''the amount exceeds the venue maximum quantity'')
      else if (case pr_minimumNotional rules of None \<Rightarrow> False | Some m \<Rightarrow> baseQuantity * limitPrice < m)
        then Inl (ECode ''AMOUNT_TOO_SMALL'' ''the amount is below the venue minimum notional'')
      else Inr (limitPrice, baseQuantity))"

definition blockedQuote ::
  "QuoteService \<Rightarrow> CreateRequest \<Rightarrow> Route \<Rightarrow> MarketSnapshot \<Rightarrow> time \<Rightarrow> string result \<Rightarrow> string \<Rightarrow> string \<Rightarrow> QuickTradeQuote" where
  "blockedQuote s request r market now newID reason warning =
     \<lparr>q_ID = (case newID of Inl _ \<Rightarrow> [] | Inr i \<Rightarrow> i), q_Identity = cr_Identity request, q_Venue = rt_Venue r,
      q_Environment = ''testnet'', q_AccountAlias = cr_AccountAlias request, q_RouteID = rt_ID r,
      q_FromAsset = rt_FromAsset r, q_ToAsset = rt_ToAsset r, q_SpendBudget = cr_SpendBudget request,
      q_Instrument = rt_Instrument r, q_Side = rt_Side r, q_BaseQty = [], q_LimitPrice = [], q_TimeInForce = ''IOC'',
      q_ReferenceBid = [], q_ReferenceAsk = [], q_BookObservedAt = ms_ObservedAt market,
      q_MetadataRevision = ir_MetadataRevision (ms_Rules market), q_PriceProtectionBPS = qs_SlippageBPS s,
      q_GrossReceiveEstimate = [], q_NetReceiveEstimate = [], q_EstimatedFees = [], q_FeeRate = [], q_FeeChargeAsset = [],
      q_SourceDebitUpperBound = [], q_ThirdAssetReserves = [], q_AccountRevision = 0, q_CreatedAt = now,
      q_ExpiresAt = Add now (qs_TTL s), q_Warnings = [warning], q_Executable = False, q_BlockedReason = reason\<rparr>"

text \<open>The second half of \<open>Create\<close>: capacity, depth, fees and the quote itself.\<close>

definition buildQuote ::
  "QuoteService \<Rightarrow> Provider \<Rightarrow> CreateRequest \<Rightarrow> Route \<Rightarrow> MarketSnapshot \<Rightarrow> parsedBook \<Rightarrow> FeePolicy \<Rightarrow> rat \<Rightarrow> rat \<Rightarrow> rat \<Rightarrow> rat
   \<Rightarrow> time \<Rightarrow> string result \<Rightarrow> QuickTradeQuote result" where
  "buildQuote s provider request r market book fee feeRate spend limitPrice baseQuantity now newID =
     (let sourceDebit = sourceDebitUpperBound (rt_Side r) baseQuantity limitPrice (fp_ChargeAsset fee) feeRate in
      case pv_Available provider r (rt_FromAsset r) of
        Inl e \<Rightarrow> Inl (EProvider ''CAPACITY_UNAVAILABLE'' ''Available-to-trade capacity could not be verified.'' e)
      | Inr sourceCapacity \<Rightarrow>
          (case nonNegativeDecimal ''available to trade'' (cy_Available sourceCapacity) of
             Inl _ \<Rightarrow> Inl (ECode ''CAPACITY_UNAVAILABLE'' ''available-to-trade capacity is invalid'')
           | Inr available \<Rightarrow>
               (if sourceDebit > available
                then Inl (ECode ''INSUFFICIENT_SPOT_BALANCE'' ''the source amount exceeds available Spot funds'')
                else
                  (let (depthQuantity, grossDestination) = executableEstimate (rt_Side r) baseQuantity limitPrice book;
                       warnings = ''Limit IOC may fill partially or receive no fill.'' #
                         (if depthQuantity < baseQuantity
                          then [''Visible protected-price depth is smaller than the submitted quantity.''] else []) in
                   rbind (feeEstimate provider r fee feeRate depthQuantity grossDestination limitPrice)
                     (\<lambda>(estimatedFees, thirdReserves, netDestination).
                   rbind newID (\<lambda>i. Inr
                     \<lparr>q_ID = i, q_Identity = cr_Identity request, q_Venue = rt_Venue r, q_Environment = ''testnet'',
                      q_AccountAlias = cr_AccountAlias request, q_RouteID = rt_ID r, q_FromAsset = rt_FromAsset r,
                      q_ToAsset = rt_ToAsset r, q_SpendBudget = decimalString spend, q_Instrument = rt_Instrument r,
                      q_Side = rt_Side r, q_BaseQty = decimalString baseQuantity, q_LimitPrice = decimalString limitPrice,
                      q_TimeInForce = ''IOC'', q_ReferenceBid = decimalString (pb_bestBid book),
                      q_ReferenceAsk = decimalString (pb_bestAsk book), q_BookObservedAt = ms_ObservedAt market,
                      q_MetadataRevision = ir_MetadataRevision (ms_Rules market), q_PriceProtectionBPS = qs_SlippageBPS s,
                      q_GrossReceiveEstimate = decimalString grossDestination,
                      q_NetReceiveEstimate = decimalString netDestination, q_EstimatedFees = estimatedFees,
                      q_FeeRate = decimalString feeRate, q_FeeChargeAsset = fp_ChargeAsset fee,
                      q_SourceDebitUpperBound = decimalString sourceDebit, q_ThirdAssetReserves = thirdReserves,
                      q_AccountRevision = cy_AccountRevision sourceCapacity, q_CreatedAt = now,
                      q_ExpiresAt = Add now (qs_TTL s), q_Warnings = warnings, q_Executable = True,
                      q_BlockedReason = []\<rparr>))))))"

text \<open>\<open>Create\<close> from the fee policy on, and from the caps on.\<close>

definition quoteFromBook ::
  "QuoteService \<Rightarrow> Provider \<Rightarrow> CreateRequest \<Rightarrow> Route \<Rightarrow> MarketSnapshot \<Rightarrow> parsedRules \<Rightarrow> parsedBook \<Rightarrow> rat \<Rightarrow> time \<Rightarrow> string result
   \<Rightarrow> QuickTradeQuote result" where
  "quoteFromBook s provider request r market rules book spend now newID =
     (case pv_Fee provider r of
        Inl _ \<Rightarrow> Inr (blockedQuote s request r market now newID ''FEE_MODEL_UNAVAILABLE'' ''Fee information could not be verified.'')
      | Inr fee \<Rightarrow>
          (case parseFeePolicy fee of
             Inl _ \<Rightarrow> Inr (blockedQuote s request r market now newID ''FEE_MODEL_UNAVAILABLE'' ''Fee information could not be verified.'')
           | Inr feeRate \<Rightarrow>
               rbind (sizeOrder r rules book (fp_ChargeAsset fee) feeRate (qs_SlippageBPS s) spend) (\<lambda>(limitPrice, baseQuantity).
                 buildQuote s provider request r market book fee feeRate spend limitPrice baseQuantity now newID)))"

definition priceQuote ::
  "QuoteService \<Rightarrow> Provider \<Rightarrow> CreateRequest \<Rightarrow> Route \<Rightarrow> rat \<Rightarrow> time \<Rightarrow> string result \<Rightarrow> QuickTradeQuote result" where
  "priceQuote s provider request r spend now newID =
     (case validateCap (qs_Caps s) r spend of
        Some e \<Rightarrow> Inl e
      | None \<Rightarrow>
          (case pv_Market provider r of
             Inl e \<Rightarrow> Inl (EProvider ''MARKET_UNAVAILABLE'' ''Executable Spot market data is unavailable.'' e)
           | Inr market \<Rightarrow>
               rbind (parseRules r (ms_Rules market)) (\<lambda>rules.
               rbind (parseBook market now (qs_BookMaxAge s)) (\<lambda>book.
                 quoteFromBook s provider request r market rules book spend now newID))))"

definition Create :: "QuoteService \<Rightarrow> time \<Rightarrow> string result \<Rightarrow> CreateRequest \<Rightarrow> QuickTradeQuote result" where
  "Create s now newID request =
     (if TrimSpace (cr_Identity request) = [] \<or> TrimSpace (cr_AccountAlias request) = []
      then Inl (ECode ''INVALID_REQUEST'' ''identity and account alias are required'')
      else case gget supportedRoutes (cr_RouteID request) of
          None \<Rightarrow> Inl (ECode ''UNSUPPORTED_ROUTE'' ''the requested trade route is not supported'')
        | Some r \<Rightarrow>
            (if rt_Venue r \<noteq> cr_Venue request
             then Inl (ECode ''UNSUPPORTED_ROUTE'' ''the requested trade route is not supported'')
             else case gget (qs_Providers s) (cr_Venue request) of
                 None \<Rightarrow> Inl (ECode ''VENUE_UNAVAILABLE'' ''the selected venue is unavailable'')
               | Some provider \<Rightarrow>
                   (if qs_TTL s \<le> 0 \<or> qs_BookMaxAge s \<le> 0 \<or> qs_SlippageBPS s \<le> 0 \<or> qs_SlippageBPS s > 50
                    then Inl (EText ''quick trade service configuration is invalid'')
                    else
                      rbind (recode ''INVALID_AMOUNT'' (positiveDecimal ''spend budget'' (cr_SpendBudget request)))
                        (\<lambda>spend. priceQuote s provider request r spend now newID))))"

section \<open>Revalidating a quote\<close>

text \<open>The part of \<open>ValidateForConfirm\<close> behind the market data: the venue's rules and the quote's numbers.\<close>

definition validateNumbers :: "Route \<Rightarrow> parsedRules \<Rightarrow> parsedBook \<Rightarrow> QuickTradeQuote \<Rightarrow> goerror option" where
  "validateNumbers r rules book quote =
     (case positiveDecimal ''quote limit price'' (q_LimitPrice quote) of
        Inl _ \<Rightarrow> Some (ECode ''INVALID_QUOTE'' ''the quote limit price is not a legal tick'')
      | Inr limit \<Rightarrow>
      (if floorToStep limit (pr_tick rules) \<noteq> limit then Some (ECode ''INVALID_QUOTE'' ''the quote limit price is not a legal tick'')
       else case positiveDecimal ''quote base quantity'' (q_BaseQty quote) of
           Inl _ \<Rightarrow> Some (ECode ''INVALID_QUOTE'' ''the quote quantity is no longer legal'')
         | Inr quantity \<Rightarrow>
      (if floorToStep quantity (pr_step rules) \<noteq> quantity \<or> quantity < pr_minimumQuantity rules
       then Some (ECode ''INVALID_QUOTE'' ''the quote quantity is no longer legal'')
       else if (case pr_maximumQuantity rules of None \<Rightarrow> False | Some m \<Rightarrow> quantity > m)
       then Some (ECode ''INVALID_QUOTE'' ''the quote quantity exceeds current instrument rules'')
       else if (case pr_minimumNotional rules of None \<Rightarrow> False | Some m \<Rightarrow> quantity * limit < m)
       then Some (ECode ''INVALID_QUOTE'' ''the quote no longer meets minimum notional'')
       else if (rt_Side r = SideBuy \<and> pb_bestAsk book > limit) \<or> (rt_Side r = SideSell \<and> pb_bestBid book < limit)
       then Some (ECode ''QUOTE_CHANGED'' ''the protected limit is no longer marketable; review a new quote'')
       else None)))"

definition validateFunds :: "Provider \<Rightarrow> Route \<Rightarrow> QuickTradeQuote \<Rightarrow> goerror option" where
  "validateFunds provider r quote =
     (case positiveDecimal ''source debit upper bound'' (q_SourceDebitUpperBound quote) of
        Inl _ \<Rightarrow> Some (ECode ''INVALID_QUOTE'' ''the quote source debit is invalid'')
      | Inr debit \<Rightarrow>
          (case pv_Available provider r (rt_FromAsset r) of
             Inl e \<Rightarrow> Some (EProvider ''CAPACITY_UNAVAILABLE'' ''Available-to-trade capacity could not be verified.'' e)
           | Inr capacity \<Rightarrow>
               (case nonNegativeDecimal ''available to trade'' (cy_Available capacity) of
                  Inl _ \<Rightarrow> Some (ECode ''INSUFFICIENT_SPOT_BALANCE'' ''available Spot funds changed; review a new quote'')
                | Inr available \<Rightarrow>
                    (if debit > available
                     then Some (ECode ''INSUFFICIENT_SPOT_BALANCE'' ''available Spot funds changed; review a new quote'')
                     else None))))"

definition validateFee :: "Provider \<Rightarrow> Route \<Rightarrow> QuickTradeQuote \<Rightarrow> goerror option" where
  "validateFee provider r quote =
     (case pv_Fee provider r of
        Inl _ \<Rightarrow> Some (ECode ''FEE_MODEL_UNAVAILABLE'' ''fee information could not be revalidated'')
      | Inr fee \<Rightarrow>
      (if (case (parseFeePolicy fee, nonNegativeDecimal ''quoted fee rate'' (q_FeeRate quote)) of
             (Inr current, Inr quoted) \<Rightarrow> current \<noteq> quoted
           | _ \<Rightarrow> True) \<or>
          q_FeeChargeAsset quote \<noteq> fp_ChargeAsset fee \<or>
          (case q_EstimatedFees quote of [f] \<Rightarrow> qf_Source f \<noteq> fp_Source fee | _ \<Rightarrow> True)
       then Some (ECode ''QUOTE_CHANGED'' ''fee information changed; review a new quote'')
       else if fp_ChargeAsset fee = ''third'' then
         (if (case q_ThirdAssetReserves quote of
                [a] \<Rightarrow> ar_Asset a \<noteq> ToUpper (fp_ThirdAsset fee) \<or> ar_Amount a \<noteq> fp_ThirdAssetAmount fee
              | _ \<Rightarrow> True)
          then Some (ECode ''QUOTE_CHANGED'' ''fee reserve changed; review a new quote'')
          else case pv_Available provider r (fp_ThirdAsset fee) of
              Inl e \<Rightarrow> Some (EProvider ''CAPACITY_UNAVAILABLE'' ''Fee-asset capacity could not be verified.'' e)
            | Inr capacity \<Rightarrow>
                (if (case (nonNegativeDecimal ''fee asset capacity'' (cy_Available capacity),
                           positiveDecimal ''fee asset reserve'' (fp_ThirdAssetAmount fee)) of
                       (Inr available, Inr required) \<Rightarrow> available < required
                     | _ \<Rightarrow> True)
                 then Some (ECode ''INSUFFICIENT_FEE_ASSET'' ''the required fee asset is unavailable'')
                 else None))
       else None))"

definition orElse :: "goerror option \<Rightarrow> goerror option \<Rightarrow> goerror option" where
  "orElse a b = (case a of Some e \<Rightarrow> Some e | None \<Rightarrow> b)"

definition ValidateForConfirm :: "QuoteService \<Rightarrow> time \<Rightarrow> QuickTradeQuote \<Rightarrow> goerror option" where
  "ValidateForConfirm s now quote =
     (if \<not> q_Executable quote then Some (ECode ''QUOTE_NOT_EXECUTABLE'' ''the quote is not executable'')
      else if \<not> Before now (q_ExpiresAt quote) then Some (ECode ''QUOTE_EXPIRED'' ''the quote expired'')
      else case gget supportedRoutes (q_RouteID quote) of
          None \<Rightarrow> Some (ECode ''QUOTE_SCOPE_MISMATCH'' ''the quote route is invalid'')
        | Some r \<Rightarrow>
      (if rt_Venue r \<noteq> q_Venue quote \<or> rt_Instrument r \<noteq> q_Instrument quote \<or> rt_FromAsset r \<noteq> q_FromAsset quote \<or>
          rt_ToAsset r \<noteq> q_ToAsset quote \<or> rt_Side r \<noteq> q_Side quote
       then Some (ECode ''QUOTE_SCOPE_MISMATCH'' ''the quote route is invalid'')
       else case gget (qs_Providers s) (rt_Venue r) of
           None \<Rightarrow> Some (ECode ''VENUE_UNAVAILABLE'' ''the selected venue is unavailable'')
         | Some provider \<Rightarrow>
      (case positiveDecimal ''spend budget'' (q_SpendBudget quote) of
         Inl _ \<Rightarrow> Some (ECode ''INVALID_QUOTE'' ''the quote amount is invalid'')
       | Inr spend \<Rightarrow>
      orElse (validateCap (qs_Caps s) r spend)
        (case pv_Market provider r of
           Inl e \<Rightarrow> Some (EProvider ''MARKET_UNAVAILABLE'' ''Executable Spot market data is unavailable.'' e)
         | Inr market \<Rightarrow>
             (case parseRules r (ms_Rules market) of
                Inl e \<Rightarrow> Some e
              | Inr rules \<Rightarrow>
                  (if ir_MetadataRevision (ms_Rules market) = [] \<or> ir_MetadataRevision (ms_Rules market) \<noteq> q_MetadataRevision quote
                   then Some (ECode ''QUOTE_CHANGED'' ''instrument rules changed; review a new quote'')
                   else case parseBook market now (qs_BookMaxAge s) of
                       Inl e \<Rightarrow> Some e
                     | Inr book \<Rightarrow>
                         orElse (validateNumbers r rules book quote)
                           (orElse (validateFunds provider r quote) (validateFee provider r quote))))))))"

end
