(* ===== verification/FileStore.thy ===== *)
theory FileStore
  imports GoTime Prelude
begin

text \<open>
  The file a store keeps its snapshot in, the ways the operating system can fail a step, and the
  contract that the two snapshot stores (\<open>internal/intent/store.go\<close> and
  \<open>internal/orderstate/store.go\<close>) have in common.

  A file is missing, undecodable, or holds a snapshot: its content is modelled up to JSON decoding.
  The snapshot is replaced by writing a temporary file and renaming it, so the visible file changes
  only when every step up to the rename has succeeded. The advisory lock makes one \<open>update\<close> one
  atomic step of the system.
\<close>

datatype 's disk = FileMissing | FileCorrupt | FileHolds 's

datatype ioStep =
    IoMkdir | IoOpenLock | IoFlock | IoRead | IoMarshal | IoCreateTemp | IoChmod | IoWrite | IoSync | IoClose
  | IoRename

record Env =
  ev_Ctx :: "goerror option"
  ev_Io :: "ioStep \<Rightarrow> goerror option"
  ev_Now :: time

text \<open>The error of the first failing step of a sequence of steps.\<close>

fun firstFault :: "Env \<Rightarrow> ioStep list \<Rightarrow> goerror option" where
  "firstFault env [] = None"
| "firstFault env (s # ss) = (case ev_Io env s of Some e \<Rightarrow> Some e | None \<Rightarrow> firstFault env ss)"

definition quietEnv :: "time \<Rightarrow> Env" where
  "quietEnv now = \<lparr>ev_Ctx = None, ev_Io = (\<lambda>_. None), ev_Now = now\<rparr>"

lemma firstFault_quiet [simp]: "firstFault (quietEnv now) ss = None"
  by (induction ss) (simp_all add: quietEnv_def)

lemma quietEnv_simps [simp]: "ev_Ctx (quietEnv now) = None" "ev_Io (quietEnv now) s = None" "ev_Now (quietEnv now) = now"
  by (simp_all add: quietEnv_def)

section \<open>The contract of a transactional snapshot store\<close>

text \<open>
  \<open>peek\<close> is what the next transaction would load; \<open>touch\<close> is what saving does to a snapshot besides
  storing it. A transaction that reports an error leaves the file as it was; one that succeeds has
  applied the mutation to exactly what was stored. The clients' lemma: whatever invariant every
  mutation keeps is kept by every sequence of transactions, with I/O failures anywhere.
\<close>

locale transactional_store =
  fixes update :: "Env \<Rightarrow> ('s \<Rightarrow> goerror + 's \<times> 'r) \<Rightarrow> 's disk \<Rightarrow> (goerror option \<times> 'r option) \<times> 's disk"
    and peek :: "'s disk \<Rightarrow> 's option"
    and touch :: "time \<Rightarrow> 's \<Rightarrow> 's"
  assumes update_error: "update env mutate f = ((Some e, r), f') \<Longrightarrow> f' = f"
    and update_ok: "update env mutate f = ((None, r), f') \<Longrightarrow>
      \<exists>s s' x. peek f = Some s \<and> mutate s = Inr (s', x) \<and> r = Some x \<and>
        (\<forall>t. peek f' = Some t \<longrightarrow> t = touch (ev_Now env) s')"
begin

definition holds :: "('s \<Rightarrow> bool) \<Rightarrow> 's disk \<Rightarrow> bool" where
  "holds I f \<longleftrightarrow> (\<forall>s. peek f = Some s \<longrightarrow> I s)"

lemma update_keeps:
  assumes "holds I f" "update env mutate f = (r, f')"
    and mut: "\<And>s s' x. I s \<Longrightarrow> mutate s = Inr (s', x) \<Longrightarrow> I s'"
    and touch: "\<And>now s. I s \<Longrightarrow> I (touch now s)"
  shows "holds I f'"
proof (cases "fst r")
  case None
  then have "update env mutate f = ((None, snd r), f')" using assms(2) by (cases r) auto
  from update_ok [OF this] show ?thesis
    using assms(1) mut touch by (force simp: holds_def)
next
  case (Some e)
  then have "update env mutate f = ((Some e, snd r), f')" using assms(2) by (cases r) auto
  then show ?thesis using update_error assms(1) by blast
qed

fun runs :: "(Env \<times> ('s \<Rightarrow> goerror + 's \<times> 'r)) list \<Rightarrow> 's disk \<Rightarrow> 's disk" where
  "runs [] f = f"
| "runs ((env, mutate) # ts) f = runs ts (snd (update env mutate f))"

lemma runs_keep:
  assumes "holds I f"
    and "\<And>env mutate s s' x. (env, mutate) \<in> set ts \<Longrightarrow> I s \<Longrightarrow> mutate s = Inr (s', x) \<Longrightarrow> I s'"
    and "\<And>now s. I s \<Longrightarrow> I (touch now s)"
  shows "holds I (runs ts f)"
  using assms(1,2)
proof (induction ts arbitrary: f)
  case Nil
  then show ?case by simp
next
  case (Cons t ts)
  obtain env mutate where t: "t = (env, mutate)" by (cases t)
  obtain r f' where u: "update env mutate f = (r, f')" by (cases "update env mutate f")
  have head: "(env, mutate) \<in> set (t # ts)" by (simp add: t)
  have "holds I f'"
    by (rule update_keeps [OF Cons.prems(1) u Cons.prems(2) [OF head] assms(3)])
  moreover have "\<And>e m s s' x. (e, m) \<in> set ts \<Longrightarrow> I s \<Longrightarrow> m s = Inr (s', x) \<Longrightarrow> I s'"
    using Cons.prems(2) by (metis list.set_intros(2))
  ultimately show ?case using Cons.IH [of f'] t u by simp
qed

end

end
