(* ===== verification/IntentStore.thy ===== *)
theory IntentStore
  imports IntentData FileStore "HOL-Library.List_Lexorder" "HOL-Library.Char_ord"
begin

text \<open>
  \<open>internal/intent/store.go\<close> and \<open>internal/intent/quicktrade.go\<close>: the durable intent store. Every
  writing operation is a mutation of the snapshot, run by \<open>Store_update\<close>; the variables a Go closure
  assigns (\<open>result\<close>, \<open>created\<close>, \<open>claimed\<close>, \<open>expired\<close>) are the second component a mutation returns, and
  absent when it did not reach its end.
\<close>

section \<open>Loading and updating the file (store.go)\<close>

definition Store_Load :: "Env \<Rightarrow> IntentSnapshot disk \<Rightarrow> IntentSnapshot result" where
  "Store_Load env f =
     (case ev_Ctx env of
        Some e \<Rightarrow> Inl e
      | None \<Rightarrow>
          (case f of
             FileMissing \<Rightarrow> Inr emptyIntentSnapshot
           | FileCorrupt \<Rightarrow>
               (case ev_Io env IoRead of
                  Some e \<Rightarrow> Inl e
                | None \<Rightarrow> Inl (EText ''decode intent snapshot''))
           | FileHolds s \<Rightarrow>
               (case ev_Io env IoRead of
                  Some e \<Rightarrow> Inl e
                | None \<Rightarrow>
                    (if s_Version s \<noteq> IntentSnapshotVersion
                     then Inl (EFmt ''unsupported intent snapshot version %d'' [FormatInt (s_Version s)])
                     else Inr s))))"

definition Store_update ::
  "string \<Rightarrow> Env \<Rightarrow> (IntentSnapshot \<Rightarrow> goerror + IntentSnapshot \<times> 'r) \<Rightarrow> IntentSnapshot disk
   \<Rightarrow> (goerror option \<times> 'r option) \<times> IntentSnapshot disk" where
  "Store_update path env mutate f =
     (if path = [] then ((Some (EText ''intent state path is required''), None), f)
      else case firstFault env [IoMkdir, IoOpenLock, IoFlock] of
          Some e \<Rightarrow> ((Some e, None), f)
        | None \<Rightarrow>
            (case Store_Load env f of
               Inl e \<Rightarrow> ((Some e, None), f)
             | Inr s \<Rightarrow>
                 (case mutate s of
                    Inl e \<Rightarrow> ((Some e, None), f)
                  | Inr (s', r) \<Rightarrow>
                      (case firstFault env [IoMarshal, IoCreateTemp, IoChmod, IoWrite, IoSync, IoClose, IoRename] of
                         Some e \<Rightarrow> ((Some e, Some r), f)
                       | None \<Rightarrow> ((None, Some r), FileHolds (s'\<lparr>s_UpdatedAt := ev_Now env\<rparr>))))))"

definition Store_Get :: "Env \<Rightarrow> string \<Rightarrow> IntentSnapshot disk \<Rightarrow> Plan result" where
  "Store_Get env i f =
     rbind (Store_Load env f) (\<lambda>s.
       case gget (s_Plans s) i of None \<Rightarrow> Inl (EText ''plan not found'') | Some p \<Rightarrow> Inr p)"

definition Store_List :: "Env \<Rightarrow> IntentSnapshot disk \<Rightarrow> Plan list result" where
  "Store_List env f = rbind (Store_Load env f) (\<lambda>s. Inr (map snd (s_Plans s)))"

definition Store_Cursor :: "Env \<Rightarrow> string \<Rightarrow> IntentSnapshot disk \<Rightarrow> TradeCursor result" where
  "Store_Cursor env key f =
     rbind (Store_Load env f) (\<lambda>s. Inr (case gget (s_Cursors s) key of None \<Rightarrow> zeroCursor | Some c \<Rightarrow> c))"

definition setCursorMutate :: "string \<Rightarrow> TradeCursor \<Rightarrow> IntentSnapshot \<Rightarrow> goerror + IntentSnapshot \<times> unit" where
  "setCursorMutate key cursor s =
     (let current = (case gget (s_Cursors s) key of None \<Rightarrow> zeroCursor | Some c \<Rightarrow> c) in
      if tc_Timestamp cursor < tc_Timestamp current \<or>
         (tc_Timestamp cursor = tc_Timestamp current \<and> tc_TradeID cursor < tc_TradeID current)
      then Inl (EText ''cursor cannot move backwards'')
      else Inr (s\<lparr>s_Cursors := gput key cursor (s_Cursors s)\<rparr>, ()))"

definition Store_SetCursor where
  "Store_SetCursor path env key cursor f = Store_update path env (setCursorMutate key cursor) f"

definition savePlanMutate :: "Plan \<Rightarrow> IntentSnapshot \<Rightarrow> goerror + IntentSnapshot \<times> unit" where
  "savePlanMutate plan s =
     (case gget (s_Plans s) (pl_ID plan) of
        Some _ \<Rightarrow> Inl (EText ''intent ID already exists'')
      | None \<Rightarrow> Inr (s\<lparr>s_Plans := gput (pl_ID plan) plan (s_Plans s)\<rparr>, ()))"

definition Store_SavePlan where
  "Store_SavePlan path env plan f = Store_update path env (savePlanMutate plan) f"

text \<open>The closure of \<open>Claim\<close>: the captured variables are the claimed plan, absent when it expired.\<close>

definition claimMutate :: "string \<Rightarrow> time \<Rightarrow> IntentSnapshot \<Rightarrow> goerror + IntentSnapshot \<times> Plan option" where
  "claimMutate i now s =
     (case gget (s_Plans s) i of
        None \<Rightarrow> Inl (EText ''plan not found'')
      | Some plan \<Rightarrow>
          (if pl_Status plan \<noteq> StatusPlanned then Inl (EFmt ''plan is not executable: %s'' [planStatusText (pl_Status plan)])
           else if \<not> Before now (pl_ExpiresAt plan) then
             Inr (s\<lparr>s_Plans := gput i (plan\<lparr>pl_Status := StatusExpired\<rparr>) (s_Plans s)\<rparr>, None)
           else
             (let plan' = plan\<lparr>pl_Status := StatusExecuting, pl_Attempt := pl_Attempt plan + 1\<rparr> in
              Inr (s\<lparr>s_Plans := gput i plan' (s_Plans s)\<rparr>, Some plan'))))"

definition Store_Claim ::
  "string \<Rightarrow> Env \<Rightarrow> string \<Rightarrow> time \<Rightarrow> IntentSnapshot disk \<Rightarrow> Plan result \<times> IntentSnapshot disk" where
  "Store_Claim path env i now f =
     (case Store_update path env (claimMutate i now) f of
        ((Some e, _), f') \<Rightarrow> (Inl e, f')
      | ((None, Some (Some plan)), f') \<Rightarrow> (Inr plan, f')
      | ((None, _), f') \<Rightarrow> (Inl (EText ''plan expired''), f'))"

definition finishMutate ::
  "string \<Rightarrow> PlanStatus \<Rightarrow> string \<Rightarrow> string \<Rightarrow> IntentSnapshot \<Rightarrow> goerror + IntentSnapshot \<times> unit" where
  "finishMutate i status orderID lastError s =
     (case gget (s_Plans s) i of
        None \<Rightarrow> Inl (EText ''plan not found'')
      | Some plan \<Rightarrow>
          Inr (s\<lparr>s_Plans := gput i (plan\<lparr>pl_Status := status, pl_NativeOrderID := orderID, pl_LastError := lastError\<rparr>)
                 (s_Plans s)\<rparr>, ()))"

definition Store_Finish where
  "Store_Finish path env i status orderID lastError f =
     Store_update path env (finishMutate i status orderID lastError) f"

section \<open>Status transitions (quicktrade.go)\<close>

definition validTradeTransition :: "TradeStatus \<Rightarrow> TradeStatus \<Rightarrow> bool" where
  "validTradeTransition from to =
     (((from = TradePendingCancel \<or> from = TradeCancelled) \<and> to = TradeFilled) \<or>
      (case from of
         TradeCreated \<Rightarrow> to \<in> {TradePendingSubmit, TradeRejected}
       | TradePendingSubmit \<Rightarrow>
           to \<in> {TradeSubmitted, TradeAccepted, TradePartiallyFilled, TradeFilled, TradeRejected, TradeUnknown}
       | TradeSubmitted \<Rightarrow> to \<in> {TradeAccepted, TradePartiallyFilled, TradeFilled, TradeRejected, TradeUnknown}
       | TradeAccepted \<Rightarrow>
           to \<in> {TradePartiallyFilled, TradeFilled, TradePendingCancel, TradeCancelled, TradeRejected, TradeUnknown}
       | TradePartiallyFilled \<Rightarrow> to \<in> {TradeFilled, TradePendingCancel, TradeCancelled, TradeUnknown}
       | TradePendingCancel \<Rightarrow> to \<in> {TradeCancelled, TradeUnknown}
       | TradeUnknown \<Rightarrow>
           to \<in> {TradeSubmitted, TradeAccepted, TradePartiallyFilled, TradeFilled, TradeCancelled, TradeRejected}
       | _ \<Rightarrow> False))"

definition applyTradeStatus :: "QuickTrade \<Rightarrow> TradeStatus \<Rightarrow> string \<Rightarrow> string \<Rightarrow> time \<Rightarrow> QuickTrade result" where
  "applyTradeStatus trade next detail requestID now =
     (if t_Status trade = next then Inr trade
      else if \<not> validTradeTransition (t_Status trade) next
        then Inl (EFmt ''invalid quick trade transition %s -> %s'' [tradeStatusText (t_Status trade), tradeStatusText next])
      else
        (let t1 = trade\<lparr>t_Status := next, t_UpdatedAt := now\<rparr>;
             t2 = (if (next = TradeSubmitted \<or> next = TradeAccepted \<or> next = TradePartiallyFilled \<or> next = TradeFilled)
                      \<and> t_SubmittedAt t1 = None
                   then t1\<lparr>t_SubmittedAt := Some now\<rparr> else t1);
             t3 = (if TradeStatus_Terminal next then t2\<lparr>t_TerminalAt := Some now\<rparr> else t2) in
         Inr (t3\<lparr>t_Lifecycle := t_Lifecycle t3 @
                [\<lparr>le_Status = next, le_At = now, le_Detail = detail, le_RequestID = requestID\<rparr>]\<rparr>)))"

section \<open>Confirmation (quicktrade.go)\<close>

definition quickRequestKey :: "string \<Rightarrow> string \<Rightarrow> string" where
  "quickRequestKey identity requestID = TrimSpace identity @ [CHR 0x00] @ TrimSpace requestID"

definition copyIfSet :: "string \<Rightarrow> string \<Rightarrow> string" where
  "copyIfSet target value = (if value \<noteq> [] then value else target)"

text \<open>The required fields are checked in the order listed; the code's order is that of a map iteration.\<close>

definition validateConfirmation :: "QuickTradeConfirmation \<Rightarrow> DemoLimits \<Rightarrow> goerror option" where
  "validateConfirmation v limits =
     (case find (\<lambda>(name, field). TrimSpace field = [])
        [(''intent ID'', c_IntentID v), (''identity'', c_Identity v), (''session ID'', c_SessionID v),
         (''client request ID'', c_ClientRequestID v), (''client order ID'', c_ClientOrderID v),
         (''quote ID'', q_ID (c_Quote v)), (''quote identity'', q_Identity (c_Quote v))] of
        Some (name, _) \<Rightarrow> Some (ECode ''INVALID_CONFIRMATION'' (name @ '' is required''))
      | None \<Rightarrow>
          (if c_Identity v \<noteq> q_Identity (c_Quote v) then
             Some (ECode ''QUOTE_OWNERSHIP_MISMATCH'' ''quote does not belong to the authenticated identity'')
           else if \<not> q_Executable (c_Quote v) then Some (ECode ''QUOTE_NOT_EXECUTABLE'' ''quote is not executable'')
           else if MaxTradesPerSession limits \<le> 0 \<or> MaxTradesPerHour limits \<le> 0 \<or> MaxConcurrentTrades limits \<le> 0 then
             Some (ECode ''INVALID_DEMO_LIMITS'' ''demo trade limits must be positive'')
           else None))"

definition newQuickTrade :: "QuickTradeConfirmation \<Rightarrow> time \<Rightarrow> QuickTrade" where
  "newQuickTrade v now =
     \<lparr>t_ID = c_IntentID v, t_Identity = c_Identity v, t_SessionID = c_SessionID v,
      t_ClientRequestID = c_ClientRequestID v, t_Quote = c_Quote v, t_ClientOrderID = c_ClientOrderID v,
      t_VenueOrderID = [], t_Status = TradeCreated, t_RawVenueStatus = [], t_ResultStatus = [],
      t_SendAttempted = False, t_FilledBaseQty = [], t_AveragePrice = [], t_GrossSourceSpent = [],
      t_GrossDestinationReceived = [], t_Fees = [], t_NetDestinationReceived = [], t_ActualSourceDebit = [],
      t_FillDetailsStatus = ''pending'', t_FeeDetailsStatus = ''pending'', t_BalanceSyncStatus = ''pending'',
      t_CreatedAt = now, t_UpdatedAt = now, t_SubmittedAt = None, t_TerminalAt = None, t_LastCheckedAt = None,
      t_LastPublicError = [],
      t_Lifecycle = [\<lparr>le_Status = TradeCreated, le_At = now, le_Detail = [], le_RequestID = []\<rparr>]\<rparr>"

text \<open>A lookup in a \<open>map[string]string\<close>: the empty text when the key is absent.\<close>

definition textOf :: "(string, string) gomap \<Rightarrow> string \<Rightarrow> string" where
  "textOf m k = (case gget m k of None \<Rightarrow> [] | Some v \<Rightarrow> v)"

definition sessionCount :: "string \<Rightarrow> IntentSnapshot \<Rightarrow> nat" where
  "sessionCount sid s = gcount (\<lambda>t. t_SessionID t = sid) (s_QuickTrades s)"

definition hourCount :: "time \<Rightarrow> IntentSnapshot \<Rightarrow> nat" where
  "hourCount now s = gcount (\<lambda>t. \<not> Before (t_CreatedAt t) (Add now (- Hour))) (s_QuickTrades s)"

definition activeCount :: "IntentSnapshot \<Rightarrow> nat" where
  "activeCount s = gcount (\<lambda>t. TradeStatus_Active (t_Status t)) (s_QuickTrades s)"

definition confirmMutate ::
  "QuickTradeConfirmation \<Rightarrow> DemoLimits \<Rightarrow> time \<Rightarrow> IntentSnapshot \<Rightarrow> goerror + IntentSnapshot \<times> QuickTrade \<times> bool" where
  "confirmMutate v limits now s =
     (let requestKey = quickRequestKey (c_Identity v) (c_ClientRequestID v);
          byRequest = textOf (s_QuickRequests s) requestKey;
          byQuote = textOf (s_ConsumedQuotes s) (q_ID (c_Quote v)) in
      if byRequest \<noteq> [] then
        (case gget (s_QuickTrades s) byRequest of
           None \<Rightarrow> Inl (EText ''quick trade request index is inconsistent'')
         | Some existing \<Rightarrow>
             (if q_ID (t_Quote existing) \<noteq> q_ID (c_Quote v)
              then Inl (ECode ''IDEMPOTENCY_CONFLICT'' ''client request ID was already used for another quote'')
              else Inr (s, existing, False)))
      else if byQuote \<noteq> [] then
        (case gget (s_QuickTrades s) byQuote of
           None \<Rightarrow> Inl (EText ''consumed quote index is inconsistent'')
         | Some existing \<Rightarrow>
             Inr (s\<lparr>s_QuickRequests := gput requestKey byQuote (s_QuickRequests s)\<rparr>, existing, False))
      else if \<not> Before now (q_ExpiresAt (c_Quote v)) then Inl (ECode ''QUOTE_EXPIRED'' ''quote expired'')
      else if gget (s_QuickTrades s) (c_IntentID v) \<noteq> None
        then Inl (ECode ''INTENT_ID_CONFLICT'' ''trade intent ID already exists'')
      else if int (sessionCount (c_SessionID v) s) \<ge> MaxTradesPerSession limits
        then Inl (ECode ''SESSION_TRADE_LIMIT'' ''session trade limit reached'')
      else if int (hourCount now s) \<ge> MaxTradesPerHour limits
        then Inl (ECode ''HOURLY_TRADE_LIMIT'' ''rolling hourly trade limit reached'')
      else if int (activeCount s) \<ge> MaxConcurrentTrades limits
        then Inl (ECode ''ACCOUNT_BUSY'' ''another demo trade is unresolved'')
      else
        (let result = newQuickTrade v now in
         Inr (s\<lparr>s_QuickTrades := gput (t_ID result) result (s_QuickTrades s),
               s_QuickRequests := gput requestKey (t_ID result) (s_QuickRequests s),
               s_ConsumedQuotes := gput (q_ID (t_Quote result)) (t_ID result) (s_ConsumedQuotes s)\<rparr>,
              result, True)))"

definition ConfirmQuickTrade ::
  "string \<Rightarrow> Env \<Rightarrow> QuickTradeConfirmation \<Rightarrow> DemoLimits \<Rightarrow> time \<Rightarrow> IntentSnapshot disk
   \<Rightarrow> (goerror option \<times> (QuickTrade \<times> bool) option) \<times> IntentSnapshot disk" where
  "ConfirmQuickTrade path env v limits now f =
     (case validateConfirmation v limits of
        Some e \<Rightarrow> ((Some e, None), f)
      | None \<Rightarrow> Store_update path env (confirmMutate v limits now) f)"

section \<open>Updates of one trade (quicktrade.go)\<close>

definition updateTradeMutate ::
  "string \<Rightarrow> (QuickTrade \<Rightarrow> QuickTrade result) \<Rightarrow> IntentSnapshot \<Rightarrow> goerror + IntentSnapshot \<times> QuickTrade" where
  "updateTradeMutate intentID mutate s =
     (case gget (s_QuickTrades s) intentID of
        None \<Rightarrow> Inl (EText ''quick trade intent not found'')
      | Some trade \<Rightarrow>
          rbind (mutate trade) (\<lambda>trade'. Inr (s\<lparr>s_QuickTrades := gput intentID trade' (s_QuickTrades s)\<rparr>, trade')))"

definition updateQuickTrade where
  "updateQuickTrade path env intentID mutate f = Store_update path env (updateTradeMutate intentID mutate) f"

definition dispatchTrade :: "time \<Rightarrow> QuickTrade \<Rightarrow> QuickTrade result" where
  "dispatchTrade now trade =
     (if t_SendAttempted trade then Inr trade
      else if t_Status trade \<noteq> TradeCreated then Inl (EFmt ''cannot dispatch trade in status %s'' [tradeStatusText (t_Status trade)])
      else applyTradeStatus (trade\<lparr>t_SendAttempted := True\<rparr>) TradePendingSubmit [] [] now)"

definition MarkQuickTradeDispatching where
  "MarkQuickTradeDispatching path env intentID now f = updateQuickTrade path env intentID (dispatchTrade now) f"

definition applyUpdate :: "QuickTradeUpdate \<Rightarrow> time \<Rightarrow> QuickTrade \<Rightarrow> QuickTrade result" where
  "applyUpdate u now trade =
     rbind
       (if u_Status u \<noteq> TradeStatusEmpty then
          applyTradeStatus trade (u_Status u)
            (if u_LifecycleDetail u = [] then u_PublicError u else u_LifecycleDetail u) (u_RequestID u) now
        else Inr trade)
       (\<lambda>t. Inr (t\<lparr>
          t_RawVenueStatus := copyIfSet (t_RawVenueStatus t) (u_RawVenueStatus u),
          t_ResultStatus := copyIfSet (t_ResultStatus t) (u_ResultStatus u),
          t_VenueOrderID := copyIfSet (t_VenueOrderID t) (u_VenueOrderID u),
          t_FilledBaseQty := copyIfSet (t_FilledBaseQty t) (u_FilledBaseQty u),
          t_AveragePrice := copyIfSet (t_AveragePrice t) (u_AveragePrice u),
          t_GrossSourceSpent := copyIfSet (t_GrossSourceSpent t) (u_GrossSourceSpent u),
          t_GrossDestinationReceived := copyIfSet (t_GrossDestinationReceived t) (u_GrossDestinationReceived u),
          t_NetDestinationReceived := copyIfSet (t_NetDestinationReceived t) (u_NetDestinationReceived u),
          t_ActualSourceDebit := copyIfSet (t_ActualSourceDebit t) (u_ActualSourceDebit u),
          t_FillDetailsStatus := copyIfSet (t_FillDetailsStatus t) (u_FillDetailsStatus u),
          t_FeeDetailsStatus := copyIfSet (t_FeeDetailsStatus t) (u_FeeDetailsStatus u),
          t_BalanceSyncStatus := copyIfSet (t_BalanceSyncStatus t) (u_BalanceSyncStatus u),
          t_Fees := (case u_Fees u of None \<Rightarrow> t_Fees t | Some fees \<Rightarrow> fees),
          t_LastPublicError :=
            (if u_ClearPublicError u then [] else if u_PublicError u \<noteq> [] then u_PublicError u else t_LastPublicError t),
          t_LastCheckedAt := (if u_Checked u then Some now else t_LastCheckedAt t),
          t_UpdatedAt := now\<rparr>))"

definition UpdateQuickTrade where
  "UpdateQuickTrade path env intentID u now f = updateQuickTrade path env intentID (applyUpdate u now) f"

section \<open>Queries (quicktrade.go)\<close>

definition GetQuickTrade :: "Env \<Rightarrow> string \<Rightarrow> IntentSnapshot disk \<Rightarrow> QuickTrade result" where
  "GetQuickTrade env intentID f =
     rbind (Store_Load env f) (\<lambda>s.
       case gget (s_QuickTrades s) intentID of
         None \<Rightarrow> Inl (EText ''quick trade intent not found'')
       | Some trade \<Rightarrow> Inr trade)"

definition GetQuickTradeByRequest :: "Env \<Rightarrow> string \<Rightarrow> string \<Rightarrow> IntentSnapshot disk \<Rightarrow> QuickTrade option result" where
  "GetQuickTradeByRequest env identity clientRequestID f =
     rbind (Store_Load env f) (\<lambda>s.
       let intentID = textOf (s_QuickRequests s) (quickRequestKey identity clientRequestID) in
       if intentID = [] then Inr None
       else case gget (s_QuickTrades s) intentID of
           None \<Rightarrow> Inl (EText ''quick trade request index is inconsistent'')
         | Some trade \<Rightarrow> Inr (Some trade))"

definition GetQuickTradeByQuote :: "Env \<Rightarrow> string \<Rightarrow> IntentSnapshot disk \<Rightarrow> QuickTrade option result" where
  "GetQuickTradeByQuote env quoteID f =
     rbind (Store_Load env f) (\<lambda>s.
       let intentID = textOf (s_ConsumedQuotes s) quoteID in
       if intentID = [] then Inr None
       else case gget (s_QuickTrades s) intentID of
           None \<Rightarrow> Inl (EText ''consumed quote index is inconsistent'')
         | Some trade \<Rightarrow> Inr (Some trade))"

text \<open>The order of \<open>ListQuickTrades\<close>: newest first, equal times by descending ID.\<close>

definition newerTrade :: "QuickTrade \<Rightarrow> QuickTrade \<Rightarrow> bool" where
  "newerTrade a b =
     (if t_CreatedAt a = t_CreatedAt b then t_ID b < t_ID a else After (t_CreatedAt a) (t_CreatedAt b))"

fun insertTrade :: "QuickTrade \<Rightarrow> QuickTrade list \<Rightarrow> QuickTrade list" where
  "insertTrade t [] = [t]"
| "insertTrade t (x # xs) = (if newerTrade x t then x # insertTrade t xs else t # x # xs)"

definition ListQuickTrades :: "Env \<Rightarrow> IntentSnapshot disk \<Rightarrow> QuickTrade list result" where
  "ListQuickTrades env f =
     rbind (Store_Load env f) (\<lambda>s. Inr (foldr insertTrade (map snd (s_QuickTrades s)) []))"

end
