(* ===== verification/QuickTradeApp.thy ===== *)
theory QuickTradeApp
  imports Quote IntentStore
begin

text \<open>
  \<open>internal/quicktrade/application.go\<close>: the cache of open quotes and the confirmation of a quote, from
  the idempotency lookups over revalidation and the durable intent to the single submission to the
  venue. A submitter is code outside this package: it is a function from the trade to the outcome the
  venue's adapter reports. Each store call of one confirmation has its own environment and each clock
  reading is a field of the call's environment, so failures can happen anywhere in between. The confirmation is given as the handler and, for
  confirmations that run concurrently, step by step.
\<close>

section \<open>The quote cache\<close>

record QuoteCache =
  qc_max :: int
  qc_quotes :: "(string, QuickTradeQuote) gomap"
  qc_order :: "string list"

definition NewQuoteCache :: "int \<Rightarrow> QuoteCache" where
  "NewQuoteCache maxEntries = \<lparr>qc_max = (if maxEntries \<le> 0 then 1000 else maxEntries), qc_quotes = [], qc_order = []\<rparr>"

fun pruneLoop ::
  "time \<Rightarrow> (string, QuickTradeQuote) gomap \<Rightarrow> string list \<Rightarrow> (string, QuickTradeQuote) gomap \<times> string list" where
  "pruneLoop now quotes [] = (quotes, [])"
| "pruneLoop now quotes (i # order) =
     (case gget quotes i of
        None \<Rightarrow> pruneLoop now quotes order
      | Some quote \<Rightarrow>
          (if \<not> Before now (q_ExpiresAt quote) then pruneLoop now (gdel i quotes) order
           else (case pruneLoop now quotes order of (qs, kept) \<Rightarrow> (qs, i # kept))))"

definition QuoteCache_prune :: "time \<Rightarrow> QuoteCache \<Rightarrow> QuoteCache" where
  "QuoteCache_prune now c =
     (case pruneLoop now (qc_quotes c) (qc_order c) of (quotes, kept) \<Rightarrow> c\<lparr>qc_quotes := quotes, qc_order := kept\<rparr>)"

fun evictLoop ::
  "int \<Rightarrow> (string, QuickTradeQuote) gomap \<Rightarrow> string list \<Rightarrow> (string, QuickTradeQuote) gomap \<times> string list" where
  "evictLoop m quotes [] = (quotes, [])"
| "evictLoop m quotes (i # order) =
     (if int (length quotes) > m then evictLoop m (gdel i quotes) order else (quotes, i # order))"

definition QuoteCache_Put :: "QuickTradeQuote \<Rightarrow> time \<Rightarrow> QuoteCache \<Rightarrow> QuoteCache" where
  "QuoteCache_Put quote now c =
     (let p = QuoteCache_prune now c;
          order = (if gget (qc_quotes p) (q_ID quote) = None then qc_order p @ [q_ID quote] else qc_order p);
          (quotes', order') = evictLoop (qc_max p) (gput (q_ID quote) quote (qc_quotes p)) order in
      p\<lparr>qc_quotes := quotes', qc_order := order'\<rparr>)"

definition QuoteCache_Get :: "string \<Rightarrow> string \<Rightarrow> time \<Rightarrow> QuoteCache \<Rightarrow> QuickTradeQuote option \<times> QuoteCache" where
  "QuoteCache_Get i identity now c =
     (let p = QuoteCache_prune now c in
      (case gget (qc_quotes p) i of
         None \<Rightarrow> (None, p)
       | Some quote \<Rightarrow> (if q_Identity quote \<noteq> identity then (None, p) else (Some quote, p))))"

section \<open>The application\<close>

record Submission =
  sm_VenueOrderID :: string
  sm_RawVenueStatus :: string
  sm_Accepted :: bool

text \<open>What \<open>Submit\<close> returns: a submission, a \<open>RejectedError\<close> somewhere in the error chain, or another error.\<close>

datatype SubmitOutcome =
    Submitted Submission
  | SubmitRejected string
  | SubmitFailed goerror

record SubmissionObservation =
  so_Venue :: venue
  so_IntentID :: string
  so_ClientOrderID :: string
  so_VenueOrderID :: string
  so_Failed :: bool

record Application =
  ap_Quotes :: QuoteService
  ap_Path :: string
  ap_Submitters :: "(venue, QuickTrade \<Rightarrow> SubmitOutcome) gomap"
  ap_Limits :: DemoLimits

record ConfirmRequest =
  cq_Identity :: string
  cq_SessionID :: string
  cq_QuoteID :: string
  cq_ClientRequestID :: string

record ConfirmResult =
  cs_Trade :: "QuickTrade option"
  cs_Created :: bool

text \<open>The environment of one confirmation: one per store call, the clock readings and the new identifier.\<close>

record ConfirmEnv =
  ce_ByRequest :: Env
  ce_ByQuote :: Env
  ce_Store :: Env
  ce_Mark :: Env
  ce_Update :: Env
  ce_Now :: time
  ce_NowValidate :: time
  ce_NowMark :: time
  ce_NowUpdate :: time
  ce_IntentID :: "string result"

definition clientOrderID :: "string \<Rightarrow> string" where
  "clientOrderID intentID =
     (let v = ''vw-'' @ (if take 6 intentID = ''trade_'' then drop 6 intentID else intentID) in
      if length v > 36 then take 36 v else v)"

definition outcomeUpdate :: "SubmitOutcome \<Rightarrow> QuickTradeUpdate" where
  "outcomeUpdate out =
     (case out of
        SubmitRejected message \<Rightarrow>
          zeroUpdate\<lparr>u_Status := TradeRejected, u_ResultStatus := ''REJECTED'',
            u_PublicError := (if message = [] then ''The venue rejected the order.'' else message)\<rparr>
      | SubmitFailed _ \<Rightarrow>
          zeroUpdate\<lparr>u_Status := TradeUnknown, u_ResultStatus := ''OUTCOME_UNKNOWN'',
            u_PublicError := ''The exchange result could not be confirmed.''\<rparr>
      | Submitted sub \<Rightarrow>
          zeroUpdate\<lparr>u_Status := (if sm_Accepted sub then TradeAccepted else TradeSubmitted),
            u_VenueOrderID := sm_VenueOrderID sub, u_RawVenueStatus := sm_RawVenueStatus sub\<rparr>)"

definition observe :: "venue \<Rightarrow> QuickTrade \<Rightarrow> SubmitOutcome \<Rightarrow> SubmissionObservation" where
  "observe venue trade out =
     \<lparr>so_Venue = venue, so_IntentID = t_ID trade, so_ClientOrderID = t_ClientOrderID trade,
      so_VenueOrderID = (case out of Submitted sub \<Rightarrow> sm_VenueOrderID sub | _ \<Rightarrow> []),
      so_Failed = (case out of Submitted _ \<Rightarrow> False | _ \<Rightarrow> True)\<rparr>"

text \<open>What a call does besides returning: the store's file, the cache, the trades handed to the venue.\<close>

record AppState =
  as_File :: "IntentSnapshot disk"
  as_Cache :: QuoteCache
  as_Sent :: "QuickTrade list"
  as_Observed :: "SubmissionObservation list"

text \<open>From the marking of the trade on: mark it as dispatched, submit it once, record the outcome.\<close>

definition dispatchConfirmed ::
  "Application \<Rightarrow> ConfirmEnv \<Rightarrow> venue \<Rightarrow> (QuickTrade \<Rightarrow> SubmitOutcome) \<Rightarrow> QuickTrade \<Rightarrow> AppState
   \<Rightarrow> (ConfirmResult \<times> goerror option) \<times> AppState" where
  "dispatchConfirmed a ce venue submitter trade st =
     (case MarkQuickTradeDispatching (ap_Path a) (ce_Mark ce) (t_ID trade) (ce_NowMark ce) (as_File st) of
        ((Some e, r), f') \<Rightarrow> ((\<lparr>cs_Trade = r, cs_Created = True\<rparr>, Some e), st\<lparr>as_File := f'\<rparr>)
      | ((None, None), f') \<Rightarrow> ((\<lparr>cs_Trade = None, cs_Created = True\<rparr>, None), st\<lparr>as_File := f'\<rparr>)
      | ((None, Some trade'), f') \<Rightarrow>
          (let out = submitter trade';
               st' = st\<lparr>as_File := f', as_Sent := as_Sent st @ [trade'], as_Observed := as_Observed st @ [observe venue trade' out]\<rparr> in
           case UpdateQuickTrade (ap_Path a) (ce_Update ce) (t_ID trade') (outcomeUpdate out) (ce_NowUpdate ce) f' of
             ((e, r), f'') \<Rightarrow> ((\<lparr>cs_Trade = r, cs_Created = True\<rparr>, e), st'\<lparr>as_File := f''\<rparr>)))"

definition noResult :: ConfirmResult where
  "noResult = \<lparr>cs_Trade = None, cs_Created = False\<rparr>"

definition confirmationOf :: "ConfirmRequest \<Rightarrow> string \<Rightarrow> QuickTradeQuote \<Rightarrow> QuickTradeConfirmation" where
  "confirmationOf request intentID quote =
     \<lparr>c_IntentID = intentID, c_Identity = cq_Identity request, c_SessionID = cq_SessionID request,
      c_ClientRequestID = cq_ClientRequestID request, c_ClientOrderID = clientOrderID intentID, c_Quote = quote\<rparr>"

text \<open>From the cached quote on.\<close>

definition confirmQuote ::
  "Application \<Rightarrow> ConfirmEnv \<Rightarrow> ConfirmRequest \<Rightarrow> QuickTradeQuote \<Rightarrow> AppState \<Rightarrow> (ConfirmResult \<times> goerror option) \<times> AppState" where
  "confirmQuote a ce request quote st =
     (case gget (ap_Submitters a) (q_Venue quote) of
        None \<Rightarrow> ((noResult, Some (ECode ''VENUE_WRITE_UNAVAILABLE'' ''trading is unavailable for the selected venue'')), st)
      | Some submitter \<Rightarrow>
      (case ValidateForConfirm (ap_Quotes a) (ce_NowValidate ce) quote of
         Some e \<Rightarrow> ((noResult, Some e), st)
       | None \<Rightarrow>
      (case ce_IntentID ce of
         Inl e \<Rightarrow> ((noResult, Some e), st)
       | Inr intentID \<Rightarrow>
      (case ConfirmQuickTrade (ap_Path a) (ce_Store ce) (confirmationOf request intentID quote) (ap_Limits a) (ce_Now ce) (as_File st) of
         ((Some e, r), f') \<Rightarrow>
           ((\<lparr>cs_Trade = map_option fst r, cs_Created = (case r of None \<Rightarrow> False | Some (_, c) \<Rightarrow> c)\<rparr>, Some e), st\<lparr>as_File := f'\<rparr>)
       | ((None, None), f') \<Rightarrow> ((noResult, None), st\<lparr>as_File := f'\<rparr>)
       | ((None, Some (trade, created)), f') \<Rightarrow>
           (if \<not> created then ((\<lparr>cs_Trade = Some trade, cs_Created = False\<rparr>, None), st\<lparr>as_File := f'\<rparr>)
            else dispatchConfirmed a ce (q_Venue quote) submitter trade (st\<lparr>as_File := f'\<rparr>))))))"

definition Confirm ::
  "Application \<Rightarrow> ConfirmEnv \<Rightarrow> ConfirmRequest \<Rightarrow> AppState \<Rightarrow> (ConfirmResult \<times> goerror option) \<times> AppState" where
  "Confirm a ce request st =
     (if TrimSpace (cq_Identity request) = [] \<or> TrimSpace (cq_SessionID request) = [] \<or>
         TrimSpace (cq_QuoteID request) = [] \<or> TrimSpace (cq_ClientRequestID request) = []
      then ((noResult, Some (ECode ''INVALID_CONFIRMATION'' ''quoteId and clientRequestId are required'')), st)
      else if length (cq_ClientRequestID request) > 128
      then ((noResult, Some (ECode ''INVALID_CONFIRMATION'' ''clientRequestId is too long'')), st)
      else case GetQuickTradeByRequest (ce_ByRequest ce) (cq_Identity request) (cq_ClientRequestID request) (as_File st) of
          Inl e \<Rightarrow> ((noResult, Some e), st)
        | Inr (Some existing) \<Rightarrow>
            (if q_ID (t_Quote existing) \<noteq> cq_QuoteID request
             then ((noResult, Some (ECode ''IDEMPOTENCY_CONFLICT'' ''client request ID was already used for another quote'')), st)
             else ((\<lparr>cs_Trade = Some existing, cs_Created = False\<rparr>, None), st))
        | Inr None \<Rightarrow>
            (case GetQuickTradeByQuote (ce_ByQuote ce) (cq_QuoteID request) (as_File st) of
               Inl e \<Rightarrow> ((noResult, Some e), st)
             | Inr (Some existing) \<Rightarrow> ((\<lparr>cs_Trade = Some existing, cs_Created = False\<rparr>, None), st)
             | Inr None \<Rightarrow>
                 (case QuoteCache_Get (cq_QuoteID request) (cq_Identity request) (ce_Now ce) (as_Cache st) of
                    (None, c') \<Rightarrow>
                      ((noResult, Some (ECode ''QUOTE_EXPIRED'' ''the quote is missing or expired; review a new quote'')), st\<lparr>as_Cache := c'\<rparr>)
                  | (Some quote, c') \<Rightarrow> confirmQuote a ce request quote (st\<lparr>as_Cache := c'\<rparr>))))"

section \<open>A confirmation step by step\<close>

text \<open>
  Confirmations run concurrently. Between any two calls of one confirmation that read or write shared state (the store's file, the cache, the venue) others
  may run, so the same handler is given here as a program with a counter: \<open>confirmStep\<close> performs one such call and the local code up to the next one. The
  local variables are the arguments of the counter. \<open>Confirm\<close> is what the steps do when nothing comes between.
\<close>

datatype ConfirmPc =
    CfByRequest
  | CfByQuote
  | CfCached
  | CfValidate QuickTradeQuote
  | CfTransaction QuickTradeQuote "QuickTrade \<Rightarrow> SubmitOutcome" string
  | CfMark venue "QuickTrade \<Rightarrow> SubmitOutcome" QuickTrade
  | CfSubmit venue "QuickTrade \<Rightarrow> SubmitOutcome" QuickTrade
  | CfUpdate QuickTrade SubmitOutcome
  | CfDone ConfirmResult "goerror option"

definition confirmStep :: "Application \<Rightarrow> ConfirmEnv \<Rightarrow> ConfirmRequest \<Rightarrow> ConfirmPc \<Rightarrow> AppState \<Rightarrow> ConfirmPc \<times> AppState" where
  "confirmStep a ce request pc st =
     (case pc of
        CfByRequest \<Rightarrow>
          (if TrimSpace (cq_Identity request) = [] \<or> TrimSpace (cq_SessionID request) = [] \<or>
              TrimSpace (cq_QuoteID request) = [] \<or> TrimSpace (cq_ClientRequestID request) = []
           then (CfDone noResult (Some (ECode ''INVALID_CONFIRMATION'' ''quoteId and clientRequestId are required'')), st)
           else if length (cq_ClientRequestID request) > 128
           then (CfDone noResult (Some (ECode ''INVALID_CONFIRMATION'' ''clientRequestId is too long'')), st)
           else case GetQuickTradeByRequest (ce_ByRequest ce) (cq_Identity request) (cq_ClientRequestID request) (as_File st) of
               Inl e \<Rightarrow> (CfDone noResult (Some e), st)
             | Inr (Some existing) \<Rightarrow>
                 (if q_ID (t_Quote existing) \<noteq> cq_QuoteID request
                  then (CfDone noResult (Some (ECode ''IDEMPOTENCY_CONFLICT'' ''client request ID was already used for another quote'')), st)
                  else (CfDone \<lparr>cs_Trade = Some existing, cs_Created = False\<rparr> None, st))
             | Inr None \<Rightarrow> (CfByQuote, st))
      | CfByQuote \<Rightarrow>
          (case GetQuickTradeByQuote (ce_ByQuote ce) (cq_QuoteID request) (as_File st) of
             Inl e \<Rightarrow> (CfDone noResult (Some e), st)
           | Inr (Some existing) \<Rightarrow> (CfDone \<lparr>cs_Trade = Some existing, cs_Created = False\<rparr> None, st)
           | Inr None \<Rightarrow> (CfCached, st))
      | CfCached \<Rightarrow>
          (case QuoteCache_Get (cq_QuoteID request) (cq_Identity request) (ce_Now ce) (as_Cache st) of
             (None, c') \<Rightarrow> (CfDone noResult (Some (ECode ''QUOTE_EXPIRED'' ''the quote is missing or expired; review a new quote'')), st\<lparr>as_Cache := c'\<rparr>)
           | (Some quote, c') \<Rightarrow> (CfValidate quote, st\<lparr>as_Cache := c'\<rparr>))
      | CfValidate quote \<Rightarrow>
          (case gget (ap_Submitters a) (q_Venue quote) of
             None \<Rightarrow> (CfDone noResult (Some (ECode ''VENUE_WRITE_UNAVAILABLE'' ''trading is unavailable for the selected venue'')), st)
           | Some submitter \<Rightarrow>
               (case ValidateForConfirm (ap_Quotes a) (ce_NowValidate ce) quote of
                  Some e \<Rightarrow> (CfDone noResult (Some e), st)
                | None \<Rightarrow>
                    (case ce_IntentID ce of
                       Inl e \<Rightarrow> (CfDone noResult (Some e), st)
                     | Inr intentID \<Rightarrow> (CfTransaction quote submitter intentID, st))))
      | CfTransaction quote submitter intentID \<Rightarrow>
          (case ConfirmQuickTrade (ap_Path a) (ce_Store ce) (confirmationOf request intentID quote) (ap_Limits a) (ce_Now ce) (as_File st) of
             ((Some e, r), f') \<Rightarrow>
               (CfDone \<lparr>cs_Trade = map_option fst r, cs_Created = (case r of None \<Rightarrow> False | Some (_, c) \<Rightarrow> c)\<rparr> (Some e), st\<lparr>as_File := f'\<rparr>)
           | ((None, None), f') \<Rightarrow> (CfDone noResult None, st\<lparr>as_File := f'\<rparr>)
           | ((None, Some (trade, created)), f') \<Rightarrow>
               (if \<not> created then (CfDone \<lparr>cs_Trade = Some trade, cs_Created = False\<rparr> None, st\<lparr>as_File := f'\<rparr>)
                else (CfMark (q_Venue quote) submitter trade, st\<lparr>as_File := f'\<rparr>)))
      | CfMark venue submitter trade \<Rightarrow>
          (case MarkQuickTradeDispatching (ap_Path a) (ce_Mark ce) (t_ID trade) (ce_NowMark ce) (as_File st) of
             ((Some e, r), f') \<Rightarrow> (CfDone \<lparr>cs_Trade = r, cs_Created = True\<rparr> (Some e), st\<lparr>as_File := f'\<rparr>)
           | ((None, None), f') \<Rightarrow> (CfDone \<lparr>cs_Trade = None, cs_Created = True\<rparr> None, st\<lparr>as_File := f'\<rparr>)
           | ((None, Some trade'), f') \<Rightarrow> (CfSubmit venue submitter trade', st\<lparr>as_File := f'\<rparr>))
      | CfSubmit venue submitter trade \<Rightarrow>
          (let out = submitter trade in
           (CfUpdate trade out, st\<lparr>as_Sent := as_Sent st @ [trade], as_Observed := as_Observed st @ [observe venue trade out]\<rparr>))
      | CfUpdate trade out \<Rightarrow>
          (case UpdateQuickTrade (ap_Path a) (ce_Update ce) (t_ID trade) (outcomeUpdate out) (ce_NowUpdate ce) (as_File st) of
             ((e, r), f') \<Rightarrow> (CfDone \<lparr>cs_Trade = r, cs_Created = True\<rparr> e, st\<lparr>as_File := f'\<rparr>))
      | CfDone _ _ \<Rightarrow> (pc, st))"

fun confirmSteps :: "nat \<Rightarrow> Application \<Rightarrow> ConfirmEnv \<Rightarrow> ConfirmRequest \<Rightarrow> ConfirmPc \<Rightarrow> AppState \<Rightarrow> ConfirmPc \<times> AppState" where
  "confirmSteps 0 a ce request pc st = (pc, st)"
| "confirmSteps (Suc n) a ce request pc st = (case confirmStep a ce request pc st of (pc', st') \<Rightarrow> confirmSteps n a ce request pc' st')"

lemma confirmSteps_done [simp]: "confirmSteps n a ce request (CfDone r e) st = (CfDone r e, st)"
  by (induction n) (simp_all add: confirmStep_def)

lemma dispatchConfirmed_steps:
  "confirmSteps (Suc (Suc (Suc n))) a ce request (CfMark venue submitter trade) st =
     (case dispatchConfirmed a ce venue submitter trade st of ((r, e), st') \<Rightarrow> (CfDone r e, st'))"
proof -
  obtain e r f where m: "MarkQuickTradeDispatching (ap_Path a) (ce_Mark ce) (t_ID trade) (ce_NowMark ce) (as_File st) = ((e, r), f)"
    by (metis surj_pair)
  show ?thesis
  proof (cases "e = None \<and> r \<noteq> None")
    case True
    then obtain t where t: "e = None" "r = Some t" by blast
    obtain e' r' f' where u: "UpdateQuickTrade (ap_Path a) (ce_Update ce) (t_ID t) (outcomeUpdate (submitter t)) (ce_NowUpdate ce) f = ((e', r'), f')"
      by (metis surj_pair)
    show ?thesis by (simp add: dispatchConfirmed_def confirmStep_def Let_def m t u)
  qed (cases e; cases r; simp add: dispatchConfirmed_def confirmStep_def m)
qed

lemma confirmQuote_steps:
  "confirmSteps (Suc (Suc (Suc (Suc (Suc n))))) a ce request (CfValidate quote) st =
     (case confirmQuote a ce request quote st of ((r, e), st') \<Rightarrow> (CfDone r e, st'))"
proof (cases "gget (ap_Submitters a) (q_Venue quote) = None \<or> ValidateForConfirm (ap_Quotes a) (ce_NowValidate ce) quote \<noteq> None \<or> isl (ce_IntentID ce)")
  case True
  then show ?thesis by (auto simp: confirmQuote_def confirmStep_def isl_def split: option.split)
next
  case False
  then obtain submitter intentID where s: "gget (ap_Submitters a) (q_Venue quote) = Some submitter"
    "ValidateForConfirm (ap_Quotes a) (ce_NowValidate ce) quote = None" "ce_IntentID ce = Inr intentID"
    by (cases "ce_IntentID ce") auto
  obtain e r f where m: "ConfirmQuickTrade (ap_Path a) (ce_Store ce) (confirmationOf request intentID quote) (ap_Limits a) (ce_Now ce) (as_File st)
      = ((e, r), f)"
    by (metis surj_pair)
  have one: "confirmStep a ce request (CfValidate quote) st = (CfTransaction quote submitter intentID, st)" by (simp add: confirmStep_def s)
  show ?thesis
  proof (cases "\<exists>trade. e = None \<and> r = Some (trade, True)")
    case True
    then obtain trade where t: "e = None" "r = Some (trade, True)" by blast
    then have "confirmStep a ce request (CfTransaction quote submitter intentID) st = (CfMark (q_Venue quote) submitter trade, st\<lparr>as_File := f\<rparr>)"
      by (simp add: confirmStep_def m)
    then show ?thesis
      using dispatchConfirmed_steps [of n a ce request "q_Venue quote" submitter trade "st\<lparr>as_File := f\<rparr>"] one
      by (simp add: confirmQuote_def s m t)
  next
    case False
    then show ?thesis
      by (cases e; cases r) (auto simp: one confirmQuote_def s m confirmStep_def [of a ce request "CfTransaction quote submitter intentID"])
  qed
qed

text \<open>Uninterrupted, the steps are the handler.\<close>

lemma Confirm_steps:
  "confirmSteps (Suc (Suc (Suc (Suc (Suc (Suc (Suc (Suc n)))))))) a ce request CfByRequest st =
     (case Confirm a ce request st of ((r, e), st') \<Rightarrow> (CfDone r e, st'))"
proof (cases "fst (confirmStep a ce request CfByRequest st) = CfByQuote \<and> fst (confirmStep a ce request CfByQuote st) = CfCached")
  case False
  then show ?thesis by (auto simp: Confirm_def confirmStep_def split: sum.split option.split if_splits)
next
  case True
  note r = True [THEN conjunct1] and q = True [THEN conjunct2]
  have one: "confirmStep a ce request CfByRequest st = (CfByQuote, st)"
    using r by (auto simp: confirmStep_def split: sum.splits option.splits if_splits)
  have two: "confirmStep a ce request CfByQuote st = (CfCached, st)"
    using q by (auto simp: confirmStep_def split: sum.splits option.splits)
  have g1: "Confirm a ce request st =
      (case QuoteCache_Get (cq_QuoteID request) (cq_Identity request) (ce_Now ce) (as_Cache st) of
         (None, c') \<Rightarrow> ((noResult, Some (ECode ''QUOTE_EXPIRED'' ''the quote is missing or expired; review a new quote'')), st\<lparr>as_Cache := c'\<rparr>)
       | (Some quote, c') \<Rightarrow> confirmQuote a ce request quote (st\<lparr>as_Cache := c'\<rparr>))"
    using r q by (auto simp: Confirm_def confirmStep_def split: sum.splits option.splits if_splits)
  obtain x c where c: "QuoteCache_Get (cq_QuoteID request) (cq_Identity request) (ce_Now ce) (as_Cache st) = (x, c)" by (metis surj_pair)
  have three: "confirmStep a ce request CfCached st = (case x of
       None \<Rightarrow> (CfDone noResult (Some (ECode ''QUOTE_EXPIRED'' ''the quote is missing or expired; review a new quote'')), st\<lparr>as_Cache := c\<rparr>)
     | Some quote \<Rightarrow> (CfValidate quote, st\<lparr>as_Cache := c\<rparr>))"
    by (simp add: confirmStep_def c split: option.split)
  show ?thesis
    using confirmQuote_steps [of n a ce request _ "st\<lparr>as_Cache := c\<rparr>"]
    by (cases x) (simp_all only: confirmSteps.simps one two three g1 c prod.case option.case confirmSteps_done)
qed

definition CreateQuote ::
  "Application \<Rightarrow> time \<Rightarrow> time \<Rightarrow> string result \<Rightarrow> CreateRequest \<Rightarrow> AppState \<Rightarrow> QuickTradeQuote result \<times> AppState" where
  "CreateQuote a now putNow newID request st =
     (case Create (ap_Quotes a) now newID request of
        Inl e \<Rightarrow> (Inl e, st)
      | Inr quote \<Rightarrow> (Inr quote, st\<lparr>as_Cache := QuoteCache_Put quote putNow (as_Cache st)\<rparr>))"

end
