(* ===== verification/IntentInv.thy ===== *)
theory IntentInv
  imports IntentStore
begin

text \<open>
  What the intent store guarantees: its file changes only by completed transactions, its two indexes
  stay consistent with its trades, every trade's lifecycle follows the transition table, the demo
  limits hold in every reachable file, and confirming again never creates a second trade.
\<close>

section \<open>The store is transactional\<close>

definition intentPeek :: "IntentSnapshot disk \<Rightarrow> IntentSnapshot option" where
  "intentPeek f =
     (case f of
        FileMissing \<Rightarrow> Some emptyIntentSnapshot
      | FileCorrupt \<Rightarrow> None
      | FileHolds s \<Rightarrow> (if s_Version s = IntentSnapshotVersion then Some s else None))"

definition intentTouch :: "time \<Rightarrow> IntentSnapshot \<Rightarrow> IntentSnapshot" where
  "intentTouch now s = s\<lparr>s_UpdatedAt := now\<rparr>"

lemma Store_Load_Inr: "Store_Load env f = Inr s \<Longrightarrow> intentPeek f = Some s"
  by (auto simp: Store_Load_def intentPeek_def split: option.splits disk.splits if_splits)

lemma Store_Load_quiet: "Store_Load (quietEnv now) f = Inr s \<longleftrightarrow> intentPeek f = Some s"
  by (auto simp: Store_Load_def intentPeek_def split: disk.splits)

lemma Store_update_cases:
  "Store_update path env mutate f = ((e, r), f') \<Longrightarrow>
   (e \<noteq> None \<and> f' = f) \<or>
   (\<exists>s s' x. e = None \<and> r = Some x \<and> Store_Load env f = Inr s \<and> mutate s = Inr (s', x) \<and>
      f' = FileHolds (intentTouch (ev_Now env) s'))"
  by (auto simp: Store_update_def intentTouch_def split: if_splits option.splits sum.splits)

lemma Store_update_quiet:
  assumes "path \<noteq> []" "intentPeek f = Some s" "mutate s = Inr (s', x)"
  shows "Store_update path (quietEnv now) mutate f = ((None, Some x), FileHolds (intentTouch now s'))"
  using assms Store_Load_quiet [of now f s] by (simp add: Store_update_def intentTouch_def)

interpretation intent: transactional_store "Store_update path" intentPeek intentTouch for path
proof unfold_locales
  fix env :: Env and mutate :: "IntentSnapshot \<Rightarrow> goerror + IntentSnapshot \<times> 'r"
    and f f' :: "IntentSnapshot disk" and e :: goerror and r :: "'r option"
  show "f' = f" if "Store_update path env mutate f = ((Some e, r), f')"
    using Store_update_cases [OF that] by auto
  show "\<exists>s s' x. intentPeek f = Some s \<and> mutate s = Inr (s', x) \<and> r = Some x \<and>
      (\<forall>t. intentPeek f' = Some t \<longrightarrow> t = intentTouch (ev_Now env) s')"
    if "Store_update path env mutate f = ((None, r), f')"
    using Store_update_cases [OF that]
    by (auto dest!: Store_Load_Inr simp: intentPeek_def split: if_splits)
qed

section \<open>The transition table\<close>

definition tradeFinal :: "TradeStatus \<Rightarrow> bool" where
  "tradeFinal s \<longleftrightarrow> s = TradeFilled \<or> s = TradeRejected"

interpretation trade: status_machine validTradeTransition TradeCreated tradeFinal
  by unfold_locales (auto simp: validTradeTransition_def tradeFinal_def split: TradeStatus.splits)

definition tradeWf :: "QuickTrade \<Rightarrow> bool" where
  "tradeWf t \<longleftrightarrow>
     trade.history (map le_Status (t_Lifecycle t)) \<and>
     le_Status (last (t_Lifecycle t)) = t_Status t \<and>
     (t_SendAttempted t \<longrightarrow> t_Status t \<noteq> TradeCreated) \<and>
     (TradeStatus_Terminal (t_Status t) \<longrightarrow> t_TerminalAt t \<noteq> None)"

text \<open>The identity of a trade: what no update may change.\<close>

definition sameTrade :: "QuickTrade \<Rightarrow> QuickTrade \<Rightarrow> bool" where
  "sameTrade t t' \<longleftrightarrow>
     t_ID t' = t_ID t \<and> t_Identity t' = t_Identity t \<and> t_SessionID t' = t_SessionID t \<and>
     t_ClientRequestID t' = t_ClientRequestID t \<and> t_Quote t' = t_Quote t \<and>
     t_ClientOrderID t' = t_ClientOrderID t \<and> t_CreatedAt t' = t_CreatedAt t"

text \<open>How a trade may change: same identity, the lifecycle only extended, a send attempt never forgotten.\<close>

definition tradeGrows :: "QuickTrade \<Rightarrow> QuickTrade \<Rightarrow> bool" where
  "tradeGrows t t' \<longleftrightarrow>
     sameTrade t t' \<and> prefix (t_Lifecycle t) (t_Lifecycle t') \<and>
     (t_Status t' = t_Status t \<or> validTradeTransition (t_Status t) (t_Status t')) \<and>
     (t_SendAttempted t \<longrightarrow> t_SendAttempted t')"

lemma applyTradeStatus_cases:
  "applyTradeStatus t next d rq now = Inr t' \<Longrightarrow>
   (t_Status t = next \<and> t' = t) \<or>
   (validTradeTransition (t_Status t) next \<and> t_Status t' = next \<and> sameTrade t t' \<and>
    t_SendAttempted t' = t_SendAttempted t \<and>
    t_Lifecycle t' = t_Lifecycle t @ [\<lparr>le_Status = next, le_At = now, le_Detail = d, le_RequestID = rq\<rparr>] \<and>
    (TradeStatus_Terminal next \<longrightarrow> t_TerminalAt t' = Some now))"
  by (auto simp: applyTradeStatus_def Let_def sameTrade_def split: if_splits)

lemma applyTradeStatus_wf:
  assumes "applyTradeStatus t next d rq now = Inr t'" "tradeWf t"
  shows "tradeWf t'"
proof (cases "t' = t")
  case True
  then show ?thesis using assms by simp
next
  case False
  with applyTradeStatus_cases [OF assms(1)]
  have h: "validTradeTransition (t_Status t) next" "t_Status t' = next"
    "t_Lifecycle t' = t_Lifecycle t @ [\<lparr>le_Status = next, le_At = now, le_Detail = d, le_RequestID = rq\<rparr>]"
    "TradeStatus_Terminal next \<longrightarrow> t_TerminalAt t' = Some now" by auto
  have "t_Lifecycle t \<noteq> []" using assms(2) by (auto simp: tradeWf_def trade.history_def)
  then have "last (map le_Status (t_Lifecycle t)) = t_Status t"
    using assms(2) by (simp add: tradeWf_def last_map)
  then have "trade.history (map le_Status (t_Lifecycle t'))"
    using trade.history_snoc [of "map le_Status (t_Lifecycle t)" "next"] assms(2) h by (simp add: tradeWf_def)
  moreover have "next \<noteq> TradeCreated" using h(1) trade.start_source by blast
  ultimately show ?thesis using h by (auto simp: tradeWf_def)
qed

lemma applyTradeStatus_grows: "applyTradeStatus t next d rq now = Inr t' \<Longrightarrow> tradeGrows t t'"
  using applyTradeStatus_cases [of t "next" d rq now t'] by (auto simp: tradeGrows_def sameTrade_def)

lemma dispatchTrade_ok [inv_intros]:
  assumes "dispatchTrade now t = Inr t'" "tradeWf t"
  shows "tradeWf t' \<and> tradeGrows t t' \<and> t_SendAttempted t'"
proof (cases "t_SendAttempted t")
  case True
  then show ?thesis using assms by (auto simp: dispatchTrade_def tradeGrows_def sameTrade_def)
next
  case False
  let ?t = "t\<lparr>t_SendAttempted := True\<rparr>"
  have created: "t_Status t = TradeCreated" and
    a: "applyTradeStatus ?t TradePendingSubmit [] [] now = Inr t'"
    using assms(1) False by (auto simp: dispatchTrade_def split: if_splits)
  have "applyTradeStatus t TradePendingSubmit [] [] now = Inr (t'\<lparr>t_SendAttempted := False\<rparr>)"
    using a created False
    by (auto simp: applyTradeStatus_def Let_def validTradeTransition_def TradeStatus_Terminal_def split: if_splits)
  from applyTradeStatus_wf [OF this assms(2)] applyTradeStatus_grows [OF this] applyTradeStatus_cases [OF a] created
  show ?thesis by (auto simp: tradeWf_def tradeGrows_def sameTrade_def False)
qed

lemma applyUpdate_ok [inv_intros]:
  assumes "applyUpdate u now t = Inr t'" "tradeWf t"
  shows "tradeWf t' \<and> tradeGrows t t'"
proof -
  obtain t1 where
    st: "(if u_Status u \<noteq> TradeStatusEmpty then
          applyTradeStatus t (u_Status u)
            (if u_LifecycleDetail u = [] then u_PublicError u else u_LifecycleDetail u) (u_RequestID u) now
        else Inr t) = Inr t1"
    and frame: "t_Lifecycle t' = t_Lifecycle t1" "t_Status t' = t_Status t1" "sameTrade t1 t'"
      "t_SendAttempted t' = t_SendAttempted t1" "t_TerminalAt t' = t_TerminalAt t1"
    using assms(1) unfolding applyUpdate_def rbind_eq_Inr by (auto simp: sameTrade_def)
  have "tradeWf t1 \<and> tradeGrows t t1"
    using st assms(2) applyTradeStatus_wf applyTradeStatus_grows
    by (auto split: if_splits simp: tradeGrows_def sameTrade_def)
  with frame show ?thesis by (auto simp: tradeWf_def tradeGrows_def sameTrade_def)
qed

section \<open>The invariant of the snapshot\<close>

definition requestKeyOf :: "QuickTrade \<Rightarrow> string" where
  "requestKeyOf t = quickRequestKey (t_Identity t) (t_ClientRequestID t)"

definition tradesInv :: "IntentSnapshot \<Rightarrow> bool" where
  "tradesInv s \<longleftrightarrow>
     (\<forall>k t. gget (s_QuickTrades s) k = Some t \<longrightarrow>
        t_ID t = k \<and> k \<noteq> [] \<and> tradeWf t \<and>
        gget (s_ConsumedQuotes s) (q_ID (t_Quote t)) = Some k \<and>
        gget (s_QuickRequests s) (requestKeyOf t) = Some k)"

definition indexInv :: "IntentSnapshot \<Rightarrow> bool" where
  "indexInv s \<longleftrightarrow>
     (\<forall>r k. gget (s_QuickRequests s) r = Some k \<longrightarrow> gget (s_QuickTrades s) k \<noteq> None) \<and>
     (\<forall>q k. gget (s_ConsumedQuotes s) q = Some k \<longrightarrow>
        (\<exists>t. gget (s_QuickTrades s) k = Some t \<and> q_ID (t_Quote t) = q))"

definition intentInv :: "IntentSnapshot \<Rightarrow> bool" where
  "intentInv s \<longleftrightarrow> gwf (s_QuickTrades s) \<and> gwf (s_Plans s) \<and> tradesInv s \<and> indexInv s"

lemma intentInv_empty [inv_intros]: "intentInv emptyIntentSnapshot"
  by (simp add: intentInv_def tradesInv_def indexInv_def emptyIntentSnapshot_def)

lemma intentInv_touch [inv_intros]: "intentInv s \<Longrightarrow> intentInv (intentTouch now s)"
  by (simp add: intentInv_def tradesInv_def indexInv_def intentTouch_def)

lemma textOf_eq: "textOf m k \<noteq> [] \<Longrightarrow> gget m k = Some (textOf m k)"
  by (auto simp: textOf_def split: option.splits)

text \<open>Which of its branches a successful confirmation took.\<close>

lemma confirmMutate_cases:
  assumes "confirmMutate v limits now s = Inr (s', t, created)"
  obtains
    (replay) "\<not> created" "s' = s" "gget (s_QuickTrades s) (textOf (s_QuickRequests s) (quickRequestKey (c_Identity v) (c_ClientRequestID v))) = Some t"
      "q_ID (t_Quote t) = q_ID (c_Quote v)"
  | (consumed) k where "\<not> created" "gget (s_ConsumedQuotes s) (q_ID (c_Quote v)) = Some k" "gget (s_QuickTrades s) k = Some t"
      "textOf (s_QuickRequests s) (quickRequestKey (c_Identity v) (c_ClientRequestID v)) = []"
      "s' = s\<lparr>s_QuickRequests := gput (quickRequestKey (c_Identity v) (c_ClientRequestID v)) k (s_QuickRequests s)\<rparr>"
  | (new) "created" "t = newQuickTrade v now"
      "textOf (s_QuickRequests s) (quickRequestKey (c_Identity v) (c_ClientRequestID v)) = []"
      "textOf (s_ConsumedQuotes s) (q_ID (c_Quote v)) = []"
      "gget (s_QuickTrades s) (c_IntentID v) = None"
      "Before now (q_ExpiresAt (c_Quote v))"
      "int (sessionCount (c_SessionID v) s) < MaxTradesPerSession limits"
      "int (hourCount now s) < MaxTradesPerHour limits"
      "int (activeCount s) < MaxConcurrentTrades limits"
      "s' = s\<lparr>s_QuickTrades := gput (c_IntentID v) t (s_QuickTrades s),
               s_QuickRequests := gput (quickRequestKey (c_Identity v) (c_ClientRequestID v)) (c_IntentID v) (s_QuickRequests s),
               s_ConsumedQuotes := gput (q_ID (c_Quote v)) (c_IntentID v) (s_ConsumedQuotes s)\<rparr>"
  using assms textOf_eq [of "s_ConsumedQuotes s" "q_ID (c_Quote v)"]
  unfolding confirmMutate_def Let_def
  by (auto simp: newQuickTrade_def split: if_splits option.splits)

lemma tradeWf_new: "tradeWf (newQuickTrade v now)"
  by (simp add: tradeWf_def newQuickTrade_def TradeStatus_Terminal_def trade.history_start)

text \<open>The index invariant excludes empty identifiers, so an absent key is the only empty lookup.\<close>

lemma intentInvI:
  assumes "gwf (s_QuickTrades s)" "gwf (s_Plans s)"
    "\<And>k t. gget (s_QuickTrades s) k = Some t \<Longrightarrow>
       t_ID t = k \<and> k \<noteq> [] \<and> tradeWf t \<and> gget (s_ConsumedQuotes s) (q_ID (t_Quote t)) = Some k \<and>
       gget (s_QuickRequests s) (requestKeyOf t) = Some k"
    "\<And>r k. gget (s_QuickRequests s) r = Some k \<Longrightarrow> gget (s_QuickTrades s) k \<noteq> None"
    "\<And>q k. gget (s_ConsumedQuotes s) q = Some k \<Longrightarrow> \<exists>t. gget (s_QuickTrades s) k = Some t \<and> q_ID (t_Quote t) = q"
  shows "intentInv s"
  using assms unfolding intentInv_def tradesInv_def indexInv_def by blast

lemma intentInv_trade:
  assumes "intentInv s" "gget (s_QuickTrades s) k = Some t"
  shows "t_ID t = k" "k \<noteq> []" "tradeWf t"
    "gget (s_ConsumedQuotes s) (q_ID (t_Quote t)) = Some k" "gget (s_QuickRequests s) (requestKeyOf t) = Some k"
  using assms by (auto simp: intentInv_def tradesInv_def)

lemma intentInv_request:
  assumes "intentInv s" "gget (s_QuickRequests s) r = Some k"
  obtains t where "gget (s_QuickTrades s) k = Some t" "k \<noteq> []"
proof -
  obtain t where "gget (s_QuickTrades s) k = Some t"
    using assms unfolding intentInv_def indexInv_def by blast
  then show ?thesis using that intentInv_trade(2) [OF assms(1)] by blast
qed

lemma intentInv_quote:
  assumes "intentInv s" "gget (s_ConsumedQuotes s) q = Some k"
  obtains t where "gget (s_QuickTrades s) k = Some t" "k \<noteq> []" "q_ID (t_Quote t) = q"
proof -
  obtain t where "gget (s_QuickTrades s) k = Some t" "q_ID (t_Quote t) = q"
    using assms unfolding intentInv_def indexInv_def by blast
  then show ?thesis using that intentInv_trade(2) [OF assms(1)] by blast
qed

lemma intentInv_index:
  assumes "intentInv s"
  shows "textOf (s_QuickRequests s) r = [] \<longleftrightarrow> gget (s_QuickRequests s) r = None"
    and "textOf (s_ConsumedQuotes s) q = [] \<longleftrightarrow> gget (s_ConsumedQuotes s) q = None"
  using intentInv_request [OF assms, of r] intentInv_quote [OF assms, of q]
  unfolding textOf_def by (auto split: option.splits)

lemma confirmMutate_inv [inv_intros]:
  assumes m: "confirmMutate v limits now s = Inr (s', t, created)" and inv: "intentInv s" and id: "c_IntentID v \<noteq> []"
  shows "intentInv s'"
  using m
proof (cases rule: confirmMutate_cases)
  case replay
  then show ?thesis using inv by simp
next
  case (consumed k)
  let ?r = "quickRequestKey (c_Identity v) (c_ClientRequestID v)"
  have none: "gget (s_QuickRequests s) ?r = None"
    using consumed(4) intentInv_index(1) [OF inv] by simp
  have other: "requestKeyOf u \<noteq> ?r" if "gget (s_QuickTrades s) j = Some u" for j u
    using intentInv_trade(5) [OF inv that] none by auto
  have "tradesInv s'"
    using inv other consumed(5) by (simp add: intentInv_def tradesInv_def gomap_simps)
  moreover have "indexInv s'"
    using inv consumed(3,5) by (simp add: intentInv_def indexInv_def gomap_simps)
  ultimately show ?thesis using inv consumed(5) by (simp add: intentInv_def)
next
  case new
  have r: "gget (s_QuickRequests s) (quickRequestKey (c_Identity v) (c_ClientRequestID v)) = None"
    and q: "gget (s_ConsumedQuotes s) (q_ID (c_Quote v)) = None"
    using new(3,4) intentInv_index [OF inv] by simp_all
  have t: "t_ID t = c_IntentID v" "t_Quote t = c_Quote v"
    "requestKeyOf t = quickRequestKey (c_Identity v) (c_ClientRequestID v)" "tradeWf t"
    using new(2) tradeWf_new by (simp_all add: newQuickTrade_def requestKeyOf_def)
  have "tradesInv s'"
    unfolding tradesInv_def
  proof (intro allI impI)
    fix k u assume u: "gget (s_QuickTrades s') k = Some u"
    show "t_ID u = k \<and> k \<noteq> [] \<and> tradeWf u \<and> gget (s_ConsumedQuotes s') (q_ID (t_Quote u)) = Some k \<and>
        gget (s_QuickRequests s') (requestKeyOf u) = Some k"
    proof (cases "k = c_IntentID v")
      case True
      then show ?thesis using u new(10) t id by (auto simp: gomap_simps)
    next
      case False
      then have old: "gget (s_QuickTrades s) k = Some u" using u new(10) by (simp add: gomap_simps)
      note o = intentInv_trade [OF inv old]
      have "q_ID (t_Quote u) \<noteq> q_ID (c_Quote v)" "requestKeyOf u \<noteq> quickRequestKey (c_Identity v) (c_ClientRequestID v)"
        using o(4,5) r q by auto
      then show ?thesis using o new(10) by (simp add: gomap_simps)
    qed
  qed
  moreover have "indexInv s'"
    unfolding indexInv_def
  proof (intro conjI allI impI)
    fix r' k assume "gget (s_QuickRequests s') r' = Some k"
    then show "gget (s_QuickTrades s') k \<noteq> None"
      using intentInv_request [OF inv, of r' k] new(10) by (auto simp: gomap_simps split: if_splits)
  next
    fix q' k assume "gget (s_ConsumedQuotes s') q' = Some k"
    then show "\<exists>u. gget (s_QuickTrades s') k = Some u \<and> q_ID (t_Quote u) = q'"
      using intentInv_quote [OF inv, of q' k] new(5,10) t(2) by (fastforce simp: gomap_simps split: if_splits)
  qed
  ultimately show ?thesis using inv new(10) by (simp add: intentInv_def)
qed

lemma updateTradeMutate_cases:
  assumes "updateTradeMutate i mutate s = Inr (s', t')"
  obtains t where "gget (s_QuickTrades s) i = Some t" "mutate t = Inr t'"
    "s' = s\<lparr>s_QuickTrades := gput i t' (s_QuickTrades s)\<rparr>"
  using assms unfolding updateTradeMutate_def by (auto simp: result_simps split: option.splits)

lemma updateTradeMutate_inv [inv_intros]:
  assumes m: "updateTradeMutate i mutate s = Inr (s', t')" and inv: "intentInv s"
    and ok: "\<And>t t'. mutate t = Inr t' \<Longrightarrow> tradeWf t \<Longrightarrow> tradeWf t' \<and> tradeGrows t t'"
  shows "intentInv s'"
proof -
  obtain t where t: "gget (s_QuickTrades s) i = Some t" "mutate t = Inr t'"
    "s' = s\<lparr>s_QuickTrades := gput i t' (s_QuickTrades s)\<rparr>" using m by (rule updateTradeMutate_cases)
  note w = intentInv_trade [OF inv t(1)]
  have g: "tradeWf t'" "sameTrade t t'" using ok [OF t(2) w(3)] by (auto simp: tradeGrows_def)
  have same: "t_ID t' = i" "t_Quote t' = t_Quote t" "requestKeyOf t' = requestKeyOf t"
    using g(2) w(1) by (auto simp: sameTrade_def requestKeyOf_def)
  have trades: "gget (s_QuickTrades s') k = (if k = i then Some t' else gget (s_QuickTrades s) k)" for k
    by (simp add: t(3) gomap_simps)
  have frame: "s_QuickRequests s' = s_QuickRequests s" "s_ConsumedQuotes s' = s_ConsumedQuotes s"
    "gwf (s_QuickTrades s')" "gwf (s_Plans s')"
    using inv by (simp_all add: t(3) intentInv_def)
  show ?thesis
  proof (rule intentInvI [OF frame(3,4)])
    fix k u assume u: "gget (s_QuickTrades s') k = Some u"
    show "t_ID u = k \<and> k \<noteq> [] \<and> tradeWf u \<and> gget (s_ConsumedQuotes s') (q_ID (t_Quote u)) = Some k \<and>
        gget (s_QuickRequests s') (requestKeyOf u) = Some k"
    proof (cases "k = i")
      case True
      then have "u = t'" using u trades by simp
      then show ?thesis using True w(2,4,5) g(1) same by (simp add: frame)
    next
      case False
      then have "gget (s_QuickTrades s) k = Some u" using u trades by simp
      from intentInv_trade [OF inv this] show ?thesis by (simp add: frame)
    qed
  next
    fix r k assume "gget (s_QuickRequests s') r = Some k"
    then have "gget (s_QuickTrades s) k \<noteq> None" using intentInv_request [OF inv, of r k] by (auto simp: frame)
    then show "gget (s_QuickTrades s') k \<noteq> None" by (simp add: trades)
  next
    fix q k assume "gget (s_ConsumedQuotes s') q = Some k"
    then obtain u where "gget (s_QuickTrades s) k = Some u" "q_ID (t_Quote u) = q"
      using intentInv_quote [OF inv, of q k] by (auto simp: frame)
    then show "\<exists>u. gget (s_QuickTrades s') k = Some u \<and> q_ID (t_Quote u) = q"
      using t(1) same(2) by (cases "k = i") (simp_all add: trades)
  qed
qed

lemma intentInv_frame:
  assumes "intentInv s" "s_QuickTrades s' = s_QuickTrades s" "s_QuickRequests s' = s_QuickRequests s"
    "s_ConsumedQuotes s' = s_ConsumedQuotes s" "gwf (s_Plans s')"
  shows "intentInv s'"
  using assms unfolding intentInv_def tradesInv_def indexInv_def by simp

lemma plan_mutations_frame:
  "setCursorMutate key c s = Inr (s', x) \<Longrightarrow> gwf (s_Plans s) \<Longrightarrow> s_QuickTrades s' = s_QuickTrades s \<and>
     s_QuickRequests s' = s_QuickRequests s \<and> s_ConsumedQuotes s' = s_ConsumedQuotes s \<and> gwf (s_Plans s')"
  "savePlanMutate p s = Inr (s', y) \<Longrightarrow> gwf (s_Plans s) \<Longrightarrow> s_QuickTrades s' = s_QuickTrades s \<and>
     s_QuickRequests s' = s_QuickRequests s \<and> s_ConsumedQuotes s' = s_ConsumedQuotes s \<and> gwf (s_Plans s')"
  "claimMutate i now s = Inr (s', z) \<Longrightarrow> gwf (s_Plans s) \<Longrightarrow> s_QuickTrades s' = s_QuickTrades s \<and>
     s_QuickRequests s' = s_QuickRequests s \<and> s_ConsumedQuotes s' = s_ConsumedQuotes s \<and> gwf (s_Plans s')"
  "finishMutate i st oid le s = Inr (s', w) \<Longrightarrow> gwf (s_Plans s) \<Longrightarrow> s_QuickTrades s' = s_QuickTrades s \<and>
     s_QuickRequests s' = s_QuickRequests s \<and> s_ConsumedQuotes s' = s_ConsumedQuotes s \<and> gwf (s_Plans s')"
  by (auto simp: setCursorMutate_def savePlanMutate_def claimMutate_def finishMutate_def Let_def
      split: if_splits option.splits)

lemma plan_mutations_inv [inv_intros]:
  "setCursorMutate key c s = Inr (s', x) \<Longrightarrow> intentInv s \<Longrightarrow> intentInv s'"
  "savePlanMutate p s = Inr (s', y) \<Longrightarrow> intentInv s \<Longrightarrow> intentInv s'"
  "claimMutate i now s = Inr (s', z) \<Longrightarrow> intentInv s \<Longrightarrow> intentInv s'"
  "finishMutate i st oid le s = Inr (s', w) \<Longrightarrow> intentInv s \<Longrightarrow> intentInv s'"
  using plan_mutations_frame(1) [of key c s s' x] plan_mutations_frame(2) [of p s s' y]
    plan_mutations_frame(3) [of i now s s' z] plan_mutations_frame(4) [of i st oid le s s' w]
    intentInv_frame [of s s'] intentInv_def [of s] by blast+

section \<open>Reachable files\<close>

text \<open>
  One step of the store is one call of a writing operation, with any I/O failures, under fixed demo
  limits. \<open>Finish\<close> is called by the planner, never with the status a plan starts in.
\<close>

inductive intent_step :: "string \<Rightarrow> DemoLimits \<Rightarrow> IntentSnapshot disk \<Rightarrow> IntentSnapshot disk \<Rightarrow> bool"
  for path limits where
  confirm: "ConfirmQuickTrade path env v limits now f = (r, f') \<Longrightarrow> intent_step path limits f f'"
| dispatch: "MarkQuickTradeDispatching path env i now f = (r, f') \<Longrightarrow> intent_step path limits f f'"
| update: "UpdateQuickTrade path env i u now f = (r, f') \<Longrightarrow> intent_step path limits f f'"
| cursor: "Store_SetCursor path env key c f = (r, f') \<Longrightarrow> intent_step path limits f f'"
| save: "Store_SavePlan path env p f = (r, f') \<Longrightarrow> intent_step path limits f f'"
| claim: "Store_Claim path env i now f = (r, f') \<Longrightarrow> intent_step path limits f f'"
| finish: "Store_Finish path env i st oid le f = (r, f') \<Longrightarrow> st \<noteq> StatusPlanned \<Longrightarrow> intent_step path limits f f'"

inductive intent_reach :: "string \<Rightarrow> DemoLimits \<Rightarrow> IntentSnapshot disk \<Rightarrow> bool" for path limits where
  start: "intent_reach path limits FileMissing"
| step: "intent_reach path limits f \<Longrightarrow> intent_step path limits f f' \<Longrightarrow> intent_reach path limits f'"

text \<open>
  Every step either leaves the file alone or replaces it by the touched result of one mutation.
\<close>

inductive mutation :: "DemoLimits \<Rightarrow> IntentSnapshot \<Rightarrow> IntentSnapshot \<Rightarrow> bool" for limits where
  m_confirm: "confirmMutate v limits now s = Inr (s', t, b) \<Longrightarrow> validateConfirmation v limits = None \<Longrightarrow> mutation limits s s'"
| m_dispatch: "updateTradeMutate i (dispatchTrade now) s = Inr (s', t) \<Longrightarrow> mutation limits s s'"
| m_update: "updateTradeMutate i (applyUpdate u now) s = Inr (s', t) \<Longrightarrow> mutation limits s s'"
| m_cursor: "setCursorMutate key c s = Inr (s', x) \<Longrightarrow> mutation limits s s'"
| m_save: "savePlanMutate p s = Inr (s', x) \<Longrightarrow> mutation limits s s'"
| m_claim: "claimMutate i now s = Inr (s', y) \<Longrightarrow> mutation limits s s'"
| m_finish: "finishMutate i st oid le s = Inr (s', x) \<Longrightarrow> st \<noteq> StatusPlanned \<Longrightarrow> mutation limits s s'"

lemma Store_update_step:
  assumes "Store_update path env mutate f = (r, f')"
  shows "f' = f \<or> (\<exists>s s' x. intentPeek f = Some s \<and> mutate s = Inr (s', x) \<and> f' = FileHolds (intentTouch (ev_Now env) s'))"
  using Store_update_cases [of path env mutate f "fst r" "snd r" f'] assms Store_Load_Inr [of env f] by fastforce

lemma intent_step_mutation:
  assumes "intent_step path limits f f'"
  shows "f' = f \<or> (\<exists>s s' now. intentPeek f = Some s \<and> mutation limits s s' \<and> f' = FileHolds (intentTouch now s'))"
  using assms
proof cases
  case (confirm env v now r)
  then show ?thesis
    by (auto simp: ConfirmQuickTrade_def split: option.splits dest!: Store_update_step intro: mutation.m_confirm)
next
  case (claim env i now r)
  obtain q g where u: "Store_update path env (claimMutate i now) f = (q, g)" by fastforce
  then have "f' = g" using claim by (auto simp: Store_Claim_def split: prod.splits option.splits)
  then show ?thesis using Store_update_step [OF u] by (auto intro: mutation.m_claim)
next
  case (dispatch env i now r)
  then show ?thesis
    unfolding MarkQuickTradeDispatching_def updateQuickTrade_def by (auto dest!: Store_update_step intro: mutation.m_dispatch)
next
  case (update env i u now r)
  then show ?thesis
    unfolding UpdateQuickTrade_def updateQuickTrade_def by (auto dest!: Store_update_step intro: mutation.m_update)
next
  case (cursor env key c r)
  then show ?thesis unfolding Store_SetCursor_def by (auto dest!: Store_update_step intro: mutation.m_cursor)
next
  case (save env p r)
  then show ?thesis unfolding Store_SavePlan_def by (auto dest!: Store_update_step intro: mutation.m_save)
next
  case (finish env i st oid le r)
  then show ?thesis unfolding Store_Finish_def by (auto dest!: Store_update_step intro: mutation.m_finish)
qed

lemma validateConfirmation_ids:
  "validateConfirmation v limits = None \<Longrightarrow>
   c_IntentID v \<noteq> [] \<and> q_ID (c_Quote v) \<noteq> [] \<and> c_Identity v = q_Identity (c_Quote v) \<and> q_Executable (c_Quote v) \<and>
   0 < MaxTradesPerSession limits \<and> 0 < MaxTradesPerHour limits \<and> 0 < MaxConcurrentTrades limits"
  by (auto simp: validateConfirmation_def split: option.splits if_splits)

lemma mutation_inv: "mutation limits s s' \<Longrightarrow> intentInv s \<Longrightarrow> intentInv s'"
proof (induction rule: mutation.induct)
  case (m_confirm v now s s' t b)
  then show ?case using confirmMutate_inv validateConfirmation_ids by blast
next
  case (m_dispatch i now s s' t)
  then show ?case using updateTradeMutate_inv dispatchTrade_ok by blast
next
  case (m_update i u now s s' t)
  then show ?case using updateTradeMutate_inv applyUpdate_ok by blast
qed (rule plan_mutations_inv; assumption)+

lemma intentPeek_touch: "intentPeek (FileHolds (intentTouch now s)) = Some t \<Longrightarrow> t = intentTouch now s"
  by (auto simp: intentPeek_def split: if_splits)

lemma intent_reach_inv: "intent_reach path limits f \<Longrightarrow> intentPeek f = Some s \<Longrightarrow> intentInv s"
proof (induction arbitrary: s rule: intent_reach.induct)
  case start
  then show ?case by (auto simp: intentPeek_def intentInv_empty)
next
  case (step f f')
  from intent_step_mutation [OF step.hyps(2)] show ?case
  proof (elim disjE exE conjE)
    assume "f' = f"
    then show ?case using step by simp
  next
    fix u u' now assume h: "intentPeek f = Some u" "mutation limits u u'" "f' = FileHolds (intentTouch now u')"
    then have "intentInv u'" using step.IH mutation_inv by blast
    then show ?case using step.prems h intentPeek_touch intentInv_touch by blast
  qed
qed

end
