(* ===== verification/IntentProps.thy ===== *)
theory IntentProps
  imports IntentInv
begin

text \<open>
  What holds of the intent store over whole executions: the relation between a file and every later
  one, and the properties its clients rely on (idempotent confirmation, the demo limits, plans claimed
  once, cursors that never move back, failures that change nothing).
\<close>

section \<open>How a file evolves\<close>

definition cursorLe :: "TradeCursor \<Rightarrow> TradeCursor \<Rightarrow> bool" where
  "cursorLe a b \<longleftrightarrow> tc_Timestamp a < tc_Timestamp b \<or> (tc_Timestamp a = tc_Timestamp b \<and> tc_TradeID a \<le> tc_TradeID b)"

definition cursorAt :: "IntentSnapshot \<Rightarrow> string \<Rightarrow> TradeCursor" where
  "cursorAt s key = (case gget (s_Cursors s) key of None \<Rightarrow> zeroCursor | Some c \<Rightarrow> c)"

definition tradeLater :: "QuickTrade \<Rightarrow> QuickTrade \<Rightarrow> bool" where
  "tradeLater t t' \<longleftrightarrow>
     sameTrade t t' \<and> prefix (t_Lifecycle t) (t_Lifecycle t') \<and>
     (t_SendAttempted t \<longrightarrow> t_SendAttempted t') \<and>
     (\<not> TradeStatus_Active (t_Status t) \<longrightarrow> \<not> TradeStatus_Active (t_Status t')) \<and>
     (tradeFinal (t_Status t) \<longrightarrow> t_Status t' = t_Status t)"

definition tradesLater :: "IntentSnapshot \<Rightarrow> IntentSnapshot \<Rightarrow> bool" where
  "tradesLater s s' \<longleftrightarrow> (\<forall>k t. gget (s_QuickTrades s) k = Some t \<longrightarrow> (\<exists>t'. gget (s_QuickTrades s') k = Some t' \<and> tradeLater t t'))"

definition indexLater :: "IntentSnapshot \<Rightarrow> IntentSnapshot \<Rightarrow> bool" where
  "indexLater s s' \<longleftrightarrow>
     (\<forall>r k. gget (s_QuickRequests s) r = Some k \<longrightarrow> gget (s_QuickRequests s') r = Some k) \<and>
     (\<forall>q k. gget (s_ConsumedQuotes s) q = Some k \<longrightarrow> gget (s_ConsumedQuotes s') q = Some k)"

definition plansLater :: "IntentSnapshot \<Rightarrow> IntentSnapshot \<Rightarrow> bool" where
  "plansLater s s' \<longleftrightarrow>
     (\<forall>i p. gget (s_Plans s) i = Some p \<longrightarrow>
        (\<exists>p'. gget (s_Plans s') i = Some p' \<and> (pl_Status p \<noteq> StatusPlanned \<longrightarrow> pl_Status p' \<noteq> StatusPlanned)))"

definition cursorsLater :: "IntentSnapshot \<Rightarrow> IntentSnapshot \<Rightarrow> bool" where
  "cursorsLater s s' \<longleftrightarrow> (\<forall>key. cursorLe (cursorAt s key) (cursorAt s' key))"

definition snapLater :: "IntentSnapshot \<Rightarrow> IntentSnapshot \<Rightarrow> bool" where
  "snapLater s s' \<longleftrightarrow> s_Version s' = s_Version s \<and> tradesLater s s' \<and> indexLater s s' \<and> plansLater s s' \<and> cursorsLater s s'"

lemmas later_defs = snapLater_def tradesLater_def indexLater_def plansLater_def cursorsLater_def

lemma cursorLe_refl [simp]: "cursorLe c c"
  by (simp add: cursorLe_def)

lemma cursorLe_trans: "cursorLe a b \<Longrightarrow> cursorLe b c \<Longrightarrow> cursorLe a c"
  by (auto simp: cursorLe_def)

lemma tradeLater_refl [simp]: "tradeLater t t"
  by (simp add: tradeLater_def sameTrade_def)

lemma tradeLater_trans: "tradeLater a b \<Longrightarrow> tradeLater b c \<Longrightarrow> tradeLater a c"
  by (auto simp: tradeLater_def sameTrade_def)

lemma tradeGrows_later: "tradeGrows t t' \<Longrightarrow> tradeLater t t'"
  by (auto simp: tradeGrows_def tradeLater_def validTradeTransition_def TradeStatus_Active_def tradeFinal_def
      split: TradeStatus.splits)

lemma snapLater_refl [simp]: "snapLater s s"
  by (simp add: later_defs)

lemma snapLater_trans:
  assumes "snapLater a b" "snapLater b c"
  shows "snapLater a c"
proof -
  have "tradesLater a c"
    using assms unfolding snapLater_def tradesLater_def by (meson tradeLater_trans)
  moreover have "indexLater a c" using assms unfolding snapLater_def indexLater_def by blast
  moreover have "plansLater a c" using assms unfolding snapLater_def plansLater_def by meson
  moreover have "cursorsLater a c" using assms unfolding snapLater_def cursorsLater_def by (meson cursorLe_trans)
  ultimately show ?thesis using assms by (simp add: snapLater_def)
qed

lemma snapLater_touch [simp]: "snapLater s (intentTouch now s)"
  by (simp add: later_defs intentTouch_def cursorAt_def)

lemma confirmMutate_later:
  assumes "confirmMutate v limits now s = Inr (s', t, b)" "intentInv s"
  shows "snapLater s s'"
  using assms(1)
proof (cases rule: confirmMutate_cases)
  case replay
  then show ?thesis by simp
next
  case (consumed k)
  then show ?thesis using intentInv_index(1) [OF assms(2)] by (auto simp: later_defs gomap_simps cursorAt_def)
next
  case new
  then show ?thesis using intentInv_index [OF assms(2)] by (auto simp: later_defs gomap_simps cursorAt_def)
qed

lemma updateTradeMutate_later:
  assumes "updateTradeMutate i mutate s = Inr (s', t')" "intentInv s"
    and "\<And>t t'. mutate t = Inr t' \<Longrightarrow> tradeWf t \<Longrightarrow> tradeGrows t t'"
  shows "snapLater s s'"
proof -
  obtain t where t: "gget (s_QuickTrades s) i = Some t" "mutate t = Inr t'"
    "s' = s\<lparr>s_QuickTrades := gput i t' (s_QuickTrades s)\<rparr>" using assms(1) by (rule updateTradeMutate_cases)
  have "tradeLater t t'" using assms(3) [OF t(2)] intentInv_trade(3) [OF assms(2) t(1)] tradeGrows_later by blast
  then show ?thesis using t(1,3) by (auto simp: later_defs gomap_simps cursorAt_def)
qed

lemma plan_mutations_later:
  "setCursorMutate key c s = Inr (s', x) \<Longrightarrow> snapLater s s'"
  "savePlanMutate p s = Inr (s', y) \<Longrightarrow> snapLater s s'"
  "claimMutate i now s = Inr (s', z) \<Longrightarrow> snapLater s s'"
  "finishMutate i st oid le s = Inr (s', w) \<Longrightarrow> st \<noteq> StatusPlanned \<Longrightarrow> snapLater s s'"
  by (auto simp: setCursorMutate_def savePlanMutate_def claimMutate_def finishMutate_def Let_def later_defs gomap_simps
      cursorAt_def cursorLe_def split: if_splits option.splits)

lemma mutation_later: "mutation limits s s' \<Longrightarrow> intentInv s \<Longrightarrow> snapLater s s'"
proof (induction rule: mutation.induct)
  case (m_confirm v now s s' t b)
  then show ?case using confirmMutate_later by blast
next
  case (m_dispatch i now s s' t)
  then show ?case using updateTradeMutate_later dispatchTrade_ok by blast
next
  case (m_update i u now s s' t)
  then show ?case using updateTradeMutate_later applyUpdate_ok by blast
next
  case (m_cursor key c s s' x)
  then show ?case using plan_mutations_later(1) by blast
next
  case (m_save p s s' x)
  then show ?case using plan_mutations_later(2) by blast
next
  case (m_claim i now s s' y)
  then show ?case using plan_mutations_later(3) by blast
next
  case (m_finish i st oid le s s' x)
  then show ?case using plan_mutations_later(4) by blast
qed

lemma intentPeek_version: "intentPeek f = Some s \<Longrightarrow> s_Version s = IntentSnapshotVersion"
  by (auto simp: intentPeek_def emptyIntentSnapshot_def split: disk.splits if_splits)

lemma intentPeek_holds:
  "s_Version s = IntentSnapshotVersion \<Longrightarrow> intentPeek (FileHolds (intentTouch now s)) = Some (intentTouch now s)"
  by (simp add: intentPeek_def intentTouch_def)

text \<open>A readable file stays readable, and evolves as \<open>snapLater\<close> says.\<close>

lemma intent_step_later:
  assumes "intent_step path limits f f'" "intentPeek f = Some s" "intentInv s"
  obtains s' where "intentPeek f' = Some s'" "snapLater s s'" "intentInv s'"
  using intent_step_mutation [OF assms(1)]
proof (elim disjE exE conjE)
  assume "f' = f"
  then show ?thesis using that assms by simp
next
  fix u u' now assume h: "intentPeek f = Some u" "mutation limits u u'" "f' = FileHolds (intentTouch now u')"
  have l: "snapLater s u'" "intentInv u'" using h assms mutation_later mutation_inv by auto
  then have "intentPeek f' = Some (intentTouch now u')"
    using h(3) intentPeek_version [OF assms(2)] by (auto intro!: intentPeek_holds simp: snapLater_def)
  then show ?thesis using that l snapLater_trans [OF l(1) snapLater_touch] intentInv_touch by blast
qed

lemma intent_steps_later:
  assumes "(intent_step path limits)\<^sup>*\<^sup>* f f'" "intentPeek f = Some s" "intentInv s"
  shows "\<exists>s'. intentPeek f' = Some s' \<and> snapLater s s' \<and> intentInv s'"
  using assms
proof (induction rule: rtranclp_induct)
  case base
  then show ?case by auto
next
  case (step g h)
  then obtain u where u: "intentPeek g = Some u" "snapLater s u" "intentInv u" by blast
  obtain w where "intentPeek h = Some w" "snapLater u w" "intentInv w" using intent_step_later [OF step.hyps(2) u(1,3)] .
  then show ?case using snapLater_trans [OF u(2)] by blast
qed

lemma intent_reach_peek: "intent_reach path limits f \<Longrightarrow> \<exists>s. intentPeek f = Some s"
proof (induction rule: intent_reach.induct)
  case start
  then show ?case by (simp add: intentPeek_def)
next
  case (step f f')
  then show ?case using intent_step_later intent_reach_inv by metis
qed

section \<open>The demo limits\<close>

definition limitsInv :: "DemoLimits \<Rightarrow> IntentSnapshot \<Rightarrow> bool" where
  "limitsInv limits s \<longleftrightarrow>
     int (activeCount s) \<le> max 0 (MaxConcurrentTrades limits) \<and>
     (\<forall>sid. int (sessionCount sid s) \<le> max 0 (MaxTradesPerSession limits))"

lemma updateTradeMutate_counts:
  assumes "updateTradeMutate i mutate s = Inr (s', t')" "intentInv s"
    and "\<And>t t'. mutate t = Inr t' \<Longrightarrow> tradeWf t \<Longrightarrow> tradeGrows t t'"
  shows "activeCount s' \<le> activeCount s" "sessionCount sid s' \<le> sessionCount sid s"
proof -
  obtain t where t: "gget (s_QuickTrades s) i = Some t" "mutate t = Inr t'"
    "s' = s\<lparr>s_QuickTrades := gput i t' (s_QuickTrades s)\<rparr>" using assms(1) by (rule updateTradeMutate_cases)
  have l: "tradeLater t t'" using assms(3) [OF t(2)] intentInv_trade(3) [OF assms(2) t(1)] tradeGrows_later by blast
  have w: "gwf (s_QuickTrades s)" using assms(2) by (simp add: intentInv_def)
  show "activeCount s' \<le> activeCount s"
    using gcount_replace [OF t(1) w, of "\<lambda>t. TradeStatus_Active (t_Status t)" t'] l
    by (auto simp: activeCount_def t(3) tradeLater_def)
  show "sessionCount sid s' \<le> sessionCount sid s"
    using gcount_replace [OF t(1) w, of "\<lambda>t. t_SessionID t = sid" t'] l
    by (auto simp: sessionCount_def t(3) tradeLater_def sameTrade_def)
qed

lemma limitsInv_le:
  assumes "limitsInv limits s" "activeCount s' \<le> activeCount s" "\<And>sid. sessionCount sid s' \<le> sessionCount sid s"
  shows "limitsInv limits s'"
proof -
  have "int (activeCount s') \<le> int (activeCount s)" "\<And>sid. int (sessionCount sid s') \<le> int (sessionCount sid s)"
    using assms(2,3) by simp_all
  then show ?thesis using assms(1) unfolding limitsInv_def by (meson order.trans)
qed

lemma confirmMutate_limits:
  assumes "confirmMutate v limits now s = Inr (s', t, b)" "limitsInv limits s"
  shows "limitsInv limits s'"
  using assms(1)
proof (cases rule: confirmMutate_cases)
  case replay
  then show ?thesis using assms by simp
next
  case (consumed k)
  then show ?thesis using assms by (simp add: limitsInv_def activeCount_def sessionCount_def)
next
  case new
  have "activeCount s' \<le> activeCount s + 1"
    using gcount_fresh [OF new(5)] new(10) by (simp add: activeCount_def)
  moreover have "sessionCount sid s' = sessionCount sid s + (if c_SessionID v = sid then 1 else 0)" for sid
    using gcount_fresh [OF new(5)] new(2,10) by (simp add: sessionCount_def newQuickTrade_def)
  ultimately show ?thesis using assms(2) new(7,9) by (auto simp: limitsInv_def)
qed

lemma mutation_limits: "mutation limits s s' \<Longrightarrow> intentInv s \<Longrightarrow> limitsInv limits s \<Longrightarrow> limitsInv limits s'"
proof (induction rule: mutation.induct)
  case (m_confirm v now s s' t b)
  then show ?case using confirmMutate_limits by blast
next
  case (m_dispatch i now s s' t)
  show ?case
    using m_dispatch.prems(2) by (rule limitsInv_le)
      (rule updateTradeMutate_counts [OF m_dispatch.hyps m_dispatch.prems(1)], blast dest: dispatchTrade_ok)+
next
  case (m_update i u now s s' t)
  show ?case
    using m_update.prems(2) by (rule limitsInv_le)
      (rule updateTradeMutate_counts [OF m_update.hyps m_update.prems(1)], blast dest: applyUpdate_ok)+
next
  case (m_cursor key c s s' x)
  then show ?case using plan_mutations_frame(1) by (auto simp: limitsInv_def activeCount_def sessionCount_def intentInv_def)
next
  case (m_save p s s' x)
  then show ?case using plan_mutations_frame(2) by (auto simp: limitsInv_def activeCount_def sessionCount_def intentInv_def)
next
  case (m_claim i now s s' y)
  then show ?case using plan_mutations_frame(3) by (auto simp: limitsInv_def activeCount_def sessionCount_def intentInv_def)
next
  case (m_finish i st oid le s s' x)
  then show ?case using plan_mutations_frame(4) by (auto simp: limitsInv_def activeCount_def sessionCount_def intentInv_def)
qed

lemma intent_reach_limits: "intent_reach path limits f \<Longrightarrow> intentPeek f = Some s \<Longrightarrow> limitsInv limits s"
proof (induction arbitrary: s rule: intent_reach.induct)
  case start
  then show ?case
    by (auto simp: intentPeek_def limitsInv_def emptyIntentSnapshot_def activeCount_def sessionCount_def gcount_def)
next
  case (step f f')
  from intent_step_mutation [OF step.hyps(2)] show ?case
  proof (elim disjE exE conjE)
    assume "f' = f"
    then show ?case using step by simp
  next
    fix u u' now assume h: "intentPeek f = Some u" "mutation limits u u'" "f' = FileHolds (intentTouch now u')"
    then have "limitsInv limits u'" using step.IH mutation_limits intent_reach_inv [OF step.hyps(1)] by blast
    moreover have "s = intentTouch now u'" using step.prems h(3) intentPeek_touch by blast
    ultimately show ?case by (simp add: limitsInv_def activeCount_def sessionCount_def intentTouch_def)
  qed
qed

section \<open>Confirming again\<close>

text \<open>What one confirmation leaves behind: the trade, and both index entries leading to it.\<close>

definition confirmed :: "QuickTradeConfirmation \<Rightarrow> string \<Rightarrow> IntentSnapshot \<Rightarrow> bool" where
  "confirmed v k s \<longleftrightarrow>
     gget (s_QuickTrades s) k \<noteq> None \<and>
     gget (s_QuickRequests s) (quickRequestKey (c_Identity v) (c_ClientRequestID v)) = Some k \<and>
     gget (s_ConsumedQuotes s) (q_ID (c_Quote v)) = Some k"

lemma confirmMutate_confirmed:
  assumes m: "confirmMutate v limits now s = Inr (s', t, b)" and inv: "intentInv s"
  shows "confirmed v (t_ID t) s'"
  using m
proof (cases rule: confirmMutate_cases)
  case replay
  let ?k = "textOf (s_QuickRequests s) (quickRequestKey (c_Identity v) (c_ClientRequestID v))"
  note w = intentInv_trade [OF inv replay(3)]
  have "gget (s_QuickRequests s) (quickRequestKey (c_Identity v) (c_ClientRequestID v)) = Some ?k"
    using textOf_eq w(2) by blast
  then show ?thesis using replay w by (simp add: confirmed_def)
next
  case (consumed k)
  note w = intentInv_trade [OF inv consumed(3)]
  show ?thesis using consumed w(1) by (simp add: confirmed_def gomap_simps)
next
  case new
  then show ?thesis by (simp add: confirmed_def gomap_simps newQuickTrade_def)
qed

lemma confirmed_later: "confirmed v k s \<Longrightarrow> snapLater s s' \<Longrightarrow> confirmed v k s'"
proof -
  assume c: "confirmed v k s" and l: "snapLater s s'"
  obtain t where "gget (s_QuickTrades s) k = Some t" using c by (auto simp: confirmed_def)
  then obtain t' where "gget (s_QuickTrades s') k = Some t'" using l unfolding snapLater_def tradesLater_def by meson
  then show ?thesis using c l unfolding confirmed_def snapLater_def indexLater_def by simp
qed

lemma confirmMutate_again:
  assumes c: "confirmed v k s" and inv: "intentInv s"
    and again: "quickRequestKey (c_Identity w) (c_ClientRequestID w) = quickRequestKey (c_Identity v) (c_ClientRequestID v)
      \<or> q_ID (c_Quote w) = q_ID (c_Quote v)"
    and m: "confirmMutate w limits now s = Inr (s', t, b)"
  shows "\<not> b \<and> t_ID t = k"
proof -
  have r: "gget (s_QuickRequests s) (quickRequestKey (c_Identity v) (c_ClientRequestID v)) = Some k"
    and q: "gget (s_ConsumedQuotes s) (q_ID (c_Quote v)) = Some k" using c by (auto simp: confirmed_def)
  show ?thesis using m
  proof (cases rule: confirmMutate_cases)
    case replay
    note tr = intentInv_trade [OF inv replay(3)]
    have "textOf (s_QuickRequests s) (quickRequestKey (c_Identity w) (c_ClientRequestID w)) = k"
      using again tr(4) replay(4) r q by (elim disjE) (simp_all add: textOf_def)
    then show ?thesis using replay(1) tr(1) by simp
  next
    case (consumed j)
    have "j = k" using again r q consumed(2,4) intentInv_index(1) [OF inv] by (elim disjE) simp_all
    then show ?thesis using consumed(1,3) intentInv_trade(1) [OF inv] by simp
  next
    case new
    then show ?thesis using again r q intentInv_index [OF inv] by (elim disjE) simp_all
  qed
qed

section \<open>Example data\<close>

definition sampleQuote :: QuickTradeQuote where
  "sampleQuote = \<lparr>q_ID = ''q1'', q_Identity = ''alice'', q_Venue = ''bybit'', q_Environment = ''testnet'', q_AccountAlias = ''main'',
     q_RouteID = ''r1'', q_FromAsset = ''USDT'', q_ToAsset = ''BTC'', q_SpendBudget = ''25'', q_Instrument = ''BTCUSDT'',
     q_Side = ''buy'', q_BaseQty = ''0.001'', q_LimitPrice = ''20000'', q_TimeInForce = ''IOC'', q_ReferenceBid = ''19990'',
     q_ReferenceAsk = ''19991'', q_BookObservedAt = 0, q_MetadataRevision = ''m1'', q_PriceProtectionBPS = 50,
     q_GrossReceiveEstimate = ''0.001'', q_NetReceiveEstimate = ''0.001'', q_EstimatedFees = [], q_FeeRate = ''0.001'',
     q_FeeChargeAsset = ''BTC'', q_SourceDebitUpperBound = ''20'', q_ThirdAssetReserves = [], q_AccountRevision = 1,
     q_CreatedAt = 0, q_ExpiresAt = 100, q_Warnings = [], q_Executable = True, q_BlockedReason = []\<rparr>"

definition sampleConfirmation :: QuickTradeConfirmation where
  "sampleConfirmation = \<lparr>c_IntentID = ''i1'', c_Identity = ''alice'', c_SessionID = ''s1'', c_ClientRequestID = ''c1'',
     c_ClientOrderID = ''o1'', c_Quote = sampleQuote\<rparr>"

definition sampleLimits :: DemoLimits where
  "sampleLimits = \<lparr>MaxTradesPerSession = 3, MaxTradesPerHour = 5, MaxConcurrentTrades = 1\<rparr>"

definition samplePlan :: Plan where
  "samplePlan = \<lparr>pl_ID = ''p1'', pl_Venue = [], pl_Environment = [], pl_AccountAlias = [], pl_Instrument = [],
     pl_SettlementCurrency = [], pl_Side = [], pl_OrderType = [], pl_Transport = [], pl_Amount = [],
     pl_AmountUnit = [], pl_Price = [], pl_TimeInForce = [], pl_PostOnly = False, pl_ReduceOnly = False,
     pl_MarkPrice = [], pl_ValidTick = [], pl_EstimatedNotionalUSD = [], pl_MetadataAt = 0, pl_PriceAt = 0,
     pl_CODProtected = False, pl_OpenOrderCount = 0, pl_AggregateOpenUSD = [], pl_CreatedAt = 0,
     pl_ExpiresAt = 100, pl_Status = StatusPlanned, pl_Attempt = 0, pl_NativeOrderID = [], pl_LastError = []\<rparr>"

definition sampleFile :: "IntentSnapshot disk" where
  "sampleFile = snd (ConfirmQuickTrade ''p'' (quietEnv 5) sampleConfirmation sampleLimits 10 FileMissing)"

definition sampleSnapshot :: IntentSnapshot where
  "sampleSnapshot = intentTouch 5 (emptyIntentSnapshot
     \<lparr>s_QuickTrades := [(''i1'', newQuickTrade sampleConfirmation 10)],
      s_QuickRequests := [(quickRequestKey ''alice'' ''c1'', ''i1'')], s_ConsumedQuotes := [(''q1'', ''i1'')]\<rparr>)"

lemma sampleFile_eq: "sampleFile = FileHolds sampleSnapshot"
  by code_simp

lemma sampleFile_peek: "intentPeek sampleFile = Some sampleSnapshot"
  by code_simp

lemma sampleFile_reach: "intent_reach ''p'' sampleLimits sampleFile"
  unfolding sampleFile_def by (rule intent_reach.step [OF intent_reach.start intent_step.confirm [OF surjective_pairing]])

section \<open>Properties\<close>

text \<open>A successful claim reads a planned plan and leaves it in another status in the file.\<close>

lemma Store_Claim_cases:
  assumes "Store_Claim path e i n g = (Inr r, g')"
  shows "\<exists>s q s'. intentPeek g = Some s \<and> gget (s_Plans s) i = Some q \<and> pl_Status q = StatusPlanned \<and>
    g' = FileHolds (intentTouch (ev_Now e) s') \<and> gget (s_Plans s') i = Some r \<and>
    pl_Status r \<noteq> StatusPlanned \<and> pl_ID r = pl_ID q"
proof -
  obtain s s' where u: "intentPeek g = Some s" "claimMutate i n s = Inr (s', Some r)" "g' = FileHolds (intentTouch (ev_Now e) s')"
    using assms Store_update_cases [of path e "claimMutate i n" g] Store_Load_Inr
    by (fastforce simp: Store_Claim_def split: prod.splits option.splits)
  then show ?thesis by (auto simp: claimMutate_def Let_def gomap_simps split: option.splits if_splits)
qed

text \<open>
  However the store is used and whichever I/O steps fail, both indexes of a reachable file are
  consistent: looking up a request never reports an inconsistent index, and the trade it finds is
  found by its own identifier and by the quote it consumed.
\<close>

theorem intent_index_consistent:
  assumes "intent_reach path limits f"
  shows "\<exists>r. GetQuickTradeByRequest (quietEnv now) identity requestID f = Inr r \<and>
    (\<forall>t. r = Some t \<longrightarrow>
       GetQuickTradeByQuote (quietEnv now) (q_ID (t_Quote t)) f = Inr (Some t) \<and>
       GetQuickTrade (quietEnv now) (t_ID t) f = Inr t)"
proof -
  obtain s where s: "intentPeek f = Some s" using intent_reach_peek [OF assms] by blast
  have inv: "intentInv s" by (rule intent_reach_inv [OF assms s])
  have load: "Store_Load (quietEnv now) f = Inr s" using s by (simp add: Store_Load_quiet)
  show ?thesis
  proof (cases "gget (s_QuickRequests s) (quickRequestKey identity requestID)")
    case None
    then show ?thesis by (simp add: GetQuickTradeByRequest_def load textOf_def)
  next
    case (Some k)
    then obtain t where t: "gget (s_QuickTrades s) k = Some t" "k \<noteq> []" using intentInv_request [OF inv] by blast
    then show ?thesis using Some intentInv_trade(1,4) [OF inv t(1)]
      by (simp add: GetQuickTradeByRequest_def GetQuickTradeByQuote_def GetQuickTrade_def load textOf_def)
  qed
qed

theorem intent_index_consistent_witness:
  "GetQuickTradeByRequest (quietEnv 7) ''alice'' ''c1'' sampleFile = Inr (Some (newQuickTrade sampleConfirmation 10)) \<and>
   GetQuickTradeByQuote (quietEnv 7) ''q1'' sampleFile = Inr (Some (newQuickTrade sampleConfirmation 10))"
proof -
  have r: "GetQuickTradeByRequest (quietEnv 7) ''alice'' ''c1'' sampleFile = Inr (Some (newQuickTrade sampleConfirmation 10))"
    by code_simp
  then have "GetQuickTradeByQuote (quietEnv 7) (q_ID (t_Quote (newQuickTrade sampleConfirmation 10))) sampleFile =
      Inr (Some (newQuickTrade sampleConfirmation 10))"
    using intent_index_consistent [OF sampleFile_reach, of 7 "''alice''" "''c1''"] by auto
  then show ?thesis using r by (simp add: newQuickTrade_def sampleConfirmation_def sampleQuote_def)
qed

text \<open>
  C7. Confirming is idempotent for good: once a confirmation has returned a trade, every later
  confirmation that reuses its request identifier or its quote, after any further activity and any
  failures, either fails or returns that same trade without creating another.
\<close>

theorem ConfirmQuickTrade_idempotent:
  assumes "intent_reach path limits f"
    and "ConfirmQuickTrade path env v limits now f = ((None, Some (t, created)), f1)"
    and "(intent_step path limits)\<^sup>*\<^sup>* f1 f2"
    and "ConfirmQuickTrade path env' w limits now' f2 = ((None, Some (t', created')), f3)"
    and "quickRequestKey (c_Identity w) (c_ClientRequestID w) = quickRequestKey (c_Identity v) (c_ClientRequestID v)
      \<or> q_ID (c_Quote w) = q_ID (c_Quote v)"
  shows "\<not> created' \<and> t_ID t' = t_ID t"
proof -
  obtain s s1 where s: "intentPeek f = Some s" "confirmMutate v limits now s = Inr (s1, t, created)"
    "f1 = FileHolds (intentTouch (ev_Now env) s1)"
    using assms(2) Store_update_cases [of path env "confirmMutate v limits now" f None "Some (t, created)" f1] Store_Load_Inr
    by (fastforce simp: ConfirmQuickTrade_def split: option.splits)
  have inv: "intentInv s" by (rule intent_reach_inv [OF assms(1) s(1)])
  have "intent_step path limits f f1" using assms(2) by (rule intent_step.confirm)
  then obtain u where u: "intentPeek f1 = Some u" "intentInv u" using intent_step_later s(1) inv by metis
  have "confirmed v (t_ID t) s1" by (rule confirmMutate_confirmed [OF s(2) inv])
  then have c1: "confirmed v (t_ID t) u"
    using u(1) s(3) intentPeek_touch [of "ev_Now env" s1 u] confirmed_later snapLater_touch by metis
  obtain w2 where w2: "intentPeek f2 = Some w2" "snapLater u w2" "intentInv w2"
    using intent_steps_later [OF assms(3) u] by blast
  have c2: "confirmed v (t_ID t) w2" by (rule confirmed_later [OF c1 w2(2)])
  obtain s2 s3 where s2: "intentPeek f2 = Some s2" "confirmMutate w limits now' s2 = Inr (s3, t', created')"
    using assms(4) Store_update_cases [of path env' "confirmMutate w limits now'" f2 None "Some (t', created')" f3] Store_Load_Inr
    by (fastforce simp: ConfirmQuickTrade_def split: option.splits)
  have "s2 = w2" using s2(1) w2(1) by simp
  then show ?thesis using confirmMutate_again [OF c2 w2(3) assms(5)] s2(2) by blast
qed

theorem ConfirmQuickTrade_idempotent_witness:
  "\<exists>t created f3. ConfirmQuickTrade ''p'' (quietEnv 6) sampleConfirmation sampleLimits 11 sampleFile = ((None, Some (t, created)), f3) \<and>
     \<not> created \<and> t_ID t = ''i1''"
proof -
  let ?t = "newQuickTrade sampleConfirmation 10"
  let ?f = "FileHolds (sampleSnapshot\<lparr>s_UpdatedAt := 6\<rparr>)"
  have first: "ConfirmQuickTrade ''p'' (quietEnv 5) sampleConfirmation sampleLimits 10 FileMissing = ((None, Some (?t, True)), sampleFile)"
    by code_simp
  have second: "ConfirmQuickTrade ''p'' (quietEnv 6) sampleConfirmation sampleLimits 11 sampleFile = ((None, Some (?t, False)), ?f)"
    by code_simp
  have "\<not> False \<and> t_ID ?t = t_ID ?t"
    by (rule ConfirmQuickTrade_idempotent [OF intent_reach.start first rtranclp.rtrancl_refl second disjI1 [OF refl]])
  then show ?thesis using second by (auto simp: newQuickTrade_def sampleConfirmation_def)
qed

text \<open>
  C16. The demo limits hold in every reachable file, not only at the moment of a check: never more
  unresolved trades than the concurrency limit, never more trades of one session than its limit.
\<close>

theorem intent_limits_hold:
  assumes "intent_reach path limits f" "intentPeek f = Some s"
  shows "int (activeCount s) \<le> max 0 (MaxConcurrentTrades limits) \<and>
    int (sessionCount sid s) \<le> max 0 (MaxTradesPerSession limits)"
  using intent_reach_limits [OF assms] by (auto simp: limitsInv_def)

theorem intent_limits_hold_witness:
  "int (activeCount sampleSnapshot) \<le> max 0 (MaxConcurrentTrades sampleLimits) \<and> activeCount sampleSnapshot = 1 \<and>
   int (sessionCount ''s1'' sampleSnapshot) \<le> max 0 (MaxTradesPerSession sampleLimits)"
proof -
  have "activeCount sampleSnapshot = 1" by code_simp
  then show ?thesis using intent_limits_hold [OF sampleFile_reach sampleFile_peek, of "''s1''"] by blast
qed

text \<open>
  C17. A trade's record only grows: in every later file the trade is still there under its identifier,
  with the same owner, quote and client order identifier, its lifecycle extended by legal transitions
  only, a send attempt never forgotten, a resolved trade never active again and a filled or rejected
  one final.
\<close>

theorem trade_lifecycle_grows:
  assumes "intent_reach path limits f" "GetQuickTrade env k f = Inr t" "(intent_step path limits)\<^sup>*\<^sup>* f f'"
  shows "\<exists>t'. GetQuickTrade (quietEnv now) k f' = Inr t' \<and> tradeLater t t' \<and>
    successively validTradeTransition (map le_Status (t_Lifecycle t')) \<and>
    hd (map le_Status (t_Lifecycle t')) = TradeCreated \<and> le_Status (last (t_Lifecycle t')) = t_Status t'"
proof -
  obtain s where s: "intentPeek f = Some s" "gget (s_QuickTrades s) k = Some t"
    using assms(2) Store_Load_Inr [of env f] by (auto simp: GetQuickTrade_def rbind_eq_Inr split: option.splits)
  obtain s' where s': "intentPeek f' = Some s'" "snapLater s s'" "intentInv s'"
    using intent_steps_later [OF assms(3) s(1) intent_reach_inv [OF assms(1) s(1)]] by blast
  obtain t' where t': "gget (s_QuickTrades s') k = Some t'" "tradeLater t t'"
    using s'(2) s(2) unfolding snapLater_def tradesLater_def by blast
  have "tradeWf t'" by (rule intentInv_trade(3) [OF s'(3) t'(1)])
  moreover have "Store_Load (quietEnv now) f' = Inr s'" using s'(1) by (simp add: Store_Load_quiet)
  ultimately show ?thesis using t' by (auto simp: GetQuickTrade_def tradeWf_def trade.history_def)
qed

theorem trade_lifecycle_grows_witness:
  "\<exists>t'. GetQuickTrade (quietEnv 7) ''i1'' (snd (MarkQuickTradeDispatching ''p'' (quietEnv 6) ''i1'' 12 sampleFile)) = Inr t' \<and>
     tradeLater (newQuickTrade sampleConfirmation 10) t'"
proof -
  have g: "GetQuickTrade (quietEnv 6) ''i1'' sampleFile = Inr (newQuickTrade sampleConfirmation 10)" by code_simp
  have s: "intent_step ''p'' sampleLimits sampleFile (snd (MarkQuickTradeDispatching ''p'' (quietEnv 6) ''i1'' 12 sampleFile))"
    by (rule intent_step.dispatch [OF surjective_pairing])
  show ?thesis using trade_lifecycle_grows [OF sampleFile_reach g r_into_rtranclp [where r = "intent_step ''p'' sampleLimits", OF s], of 7] by blast
qed

text \<open>
  A plan is executed at most once: after \<open>Claim\<close> has handed a plan out, no later \<open>Claim\<close> of it
  succeeds, whatever happens in between.
\<close>

theorem plan_claimed_once:
  assumes "intent_reach path limits f" "Store_Claim path env i now f = (Inr p, f1)"
    and "(intent_step path limits)\<^sup>*\<^sup>* f1 f2"
  shows "fst (Store_Claim path env' i now' f2) \<noteq> Inr p'"
proof -
  obtain s s' q' where s: "intentPeek f = Some s" "f1 = FileHolds (intentTouch (ev_Now env) s')"
    "gget (s_Plans s') i = Some q'" "pl_Status q' \<noteq> StatusPlanned" using Store_Claim_cases [OF assms(2)] by blast
  obtain u where u: "intentPeek f1 = Some u" "intentInv u"
    using intent_step_later [OF intent_step.claim [OF assms(2)] s(1) intent_reach_inv [OF assms(1) s(1)]] by blast
  have "u = intentTouch (ev_Now env) s'" using intentPeek_touch u(1) s(2) by blast
  then have p: "gget (s_Plans u) i = Some q'" using s(3) by (simp add: intentTouch_def)
  obtain w where w: "intentPeek f2 = Some w" "snapLater u w" using intent_steps_later [OF assms(3) u] by blast
  obtain q2 where "gget (s_Plans w) i = Some q2" "pl_Status q2 \<noteq> StatusPlanned"
    using w(2) p s(4) unfolding snapLater_def plansLater_def by blast
  then show ?thesis using Store_Claim_cases [of path env' i now' f2 p'] w(1) by (cases "Store_Claim path env' i now' f2") auto
qed

theorem plan_claimed_once_witness:
  "\<exists>p f1. Store_Claim ''p'' (quietEnv 6) ''p1'' 20 (snd (Store_SavePlan ''p'' (quietEnv 5) samplePlan FileMissing)) = (Inr p, f1) \<and>
     fst (Store_Claim ''p'' (quietEnv 7) ''p1'' 21 f1) \<noteq> Inr p"
proof -
  let ?f = "snd (Store_SavePlan ''p'' (quietEnv 5) samplePlan FileMissing)"
  let ?p = "samplePlan\<lparr>pl_Status := StatusExecuting, pl_Attempt := 1\<rparr>"
  have r: "intent_reach ''p'' sampleLimits ?f"
    by (rule intent_reach.step [OF intent_reach.start intent_step.save [OF surjective_pairing]])
  have c: "Store_Claim ''p'' (quietEnv 6) ''p1'' 20 ?f = (Inr ?p, snd (Store_Claim ''p'' (quietEnv 6) ''p1'' 20 ?f))"
    by code_simp
  show ?thesis using plan_claimed_once [OF r c rtranclp.rtrancl_refl] c by blast
qed

text \<open>The stored trade cursor of a key never moves back, over any sequence of operations.\<close>

theorem cursor_monotone:
  assumes "intent_reach path limits f" "Store_Cursor env key f = Inr c"
    and "(intent_step path limits)\<^sup>*\<^sup>* f f'" "Store_Cursor env' key f' = Inr c'"
  shows "cursorLe c c'"
proof -
  have cur: "\<exists>s. intentPeek g = Some s \<and> cursorAt s key = d" if "Store_Cursor e key g = Inr d" for e g d
    using that Store_Load_Inr [of e g] by (auto simp: Store_Cursor_def rbind_eq_Inr cursorAt_def)
  obtain s where s: "intentPeek f = Some s" "cursorAt s key = c" using cur [OF assms(2)] by blast
  obtain s' where "intentPeek f' = Some s'" "snapLater s s'"
    using intent_steps_later [OF assms(3) s(1) intent_reach_inv [OF assms(1) s(1)]] by blast
  then show ?thesis using cur [OF assms(4)] s by (auto simp: snapLater_def cursorsLater_def)
qed

theorem cursor_monotone_witness:
  "\<exists>c'. Store_Cursor (quietEnv 7) ''k'' (snd (Store_SetCursor ''p'' (quietEnv 6) ''k'' \<lparr>tc_Timestamp = 9, tc_TradeID = ''a''\<rparr> FileMissing))
      = Inr c' \<and> cursorLe zeroCursor c'"
proof -
  let ?f = "snd (Store_SetCursor ''p'' (quietEnv 6) ''k'' \<lparr>tc_Timestamp = 9, tc_TradeID = ''a''\<rparr> FileMissing)"
  have z: "Store_Cursor (quietEnv 5) ''k'' FileMissing = Inr zeroCursor" by code_simp
  have c: "Store_Cursor (quietEnv 7) ''k'' ?f = Inr \<lparr>tc_Timestamp = 9, tc_TradeID = ''a''\<rparr>" by code_simp
  have s: "intent_step ''p'' sampleLimits FileMissing ?f" by (rule intent_step.cursor [OF surjective_pairing])
  show ?thesis using cursor_monotone [OF intent_reach.start z r_into_rtranclp [where r = "intent_step ''p'' sampleLimits", OF s] c] c by blast
qed

text \<open>
  The store is transactional. An update succeeds exactly when its path is set, the context is
  live, no step of the file protocol fails, the file is readable and the mutation accepts what it
  holds; then the file holds the mutated snapshot. Otherwise it reports an error and leaves the file
  as it was.
\<close>

theorem Store_update_atomic:
  assumes "Store_update path env mutate f = ((e, r), f')"
  shows "(e = None \<longleftrightarrow> path \<noteq> [] \<and> ev_Ctx env = None \<and> (\<forall>st. ev_Io env st = None \<or> (st = IoRead \<and> f = FileMissing)) \<and>
      (\<exists>s s' x. intentPeek f = Some s \<and> mutate s = Inr (s', x) \<and> r = Some x \<and> f' = FileHolds (intentTouch (ev_Now env) s'))) \<and>
    (e \<noteq> None \<longrightarrow> f' = f)"
proof -
  have io: "(\<forall>st. ev_Io env st = None \<or> (st = IoRead \<and> f = FileMissing)) \<longleftrightarrow>
      firstFault env [IoMkdir, IoOpenLock, IoFlock] = None \<and>
      firstFault env [IoMarshal, IoCreateTemp, IoChmod, IoWrite, IoSync, IoClose, IoRename] = None \<and>
      (ev_Io env IoRead = None \<or> f = FileMissing)" (is "?l = ?r")
  proof
    assume ?l
    then show ?r by (metis (lifting) firstFault.simps ioStep.distinct option.simps(4))
  next
    assume r: ?r
    show ?l
    proof
      fix st show "ev_Io env st = None \<or> (st = IoRead \<and> f = FileMissing)"
        using r by (cases st) (auto split: option.splits)
    qed
  qed
  show ?thesis unfolding io
    using assms unfolding Store_update_def Store_Load_def intentPeek_def
    by (auto simp: intentTouch_def simp del: firstFault.simps split: if_splits option.splits sum.splits disk.splits) metis+
qed

theorem Store_update_atomic_witness:
  "\<exists>e r. Store_update ''p'' ((quietEnv 5)\<lparr>ev_Io := (\<lambda>st. if st = IoRename then Some (EText ''rename'') else None)\<rparr>)
      (savePlanMutate samplePlan) FileMissing = ((e, r), FileMissing) \<and> e \<noteq> None"
proof -
  let ?env = "(quietEnv 5)\<lparr>ev_Io := (\<lambda>st. if st = IoRename then Some (EText ''rename'') else None)\<rparr>"
  obtain e r f' where u: "Store_update ''p'' ?env (savePlanMutate samplePlan) FileMissing = ((e, r), f')" by (metis surj_pair)
  have "\<not> (\<forall>st. ev_Io ?env st = None \<or> (st = IoRead \<and> FileMissing = (FileMissing :: IntentSnapshot disk)))"
    by (rule notI, drule spec [of _ IoRename]) simp
  then have "e \<noteq> None \<and> f' = FileMissing" using Store_update_atomic [OF u] by argo
  then show ?thesis using u by blast
qed

end
