(* ===== verification/ConfirmRuns.thy ===== *)
theory ConfirmRuns
  imports QuickTradeApp IntentProps
begin

text \<open>
  Concurrent confirmations. A run interleaves, at every call that touches shared state, any number of confirmations with each other, with new quotes, with
  any other operation on the intent store and with restarts of the process. The invariant is about ownership: a trade that a confirmation has created and not
  yet submitted belongs to that confirmation alone, and together with the trades already submitted these have pairwise different identifiers.
\<close>

section \<open>Runs\<close>

record ConfirmThread =
  ct_Env :: ConfirmEnv
  ct_Request :: ConfirmRequest
  ct_Pc :: ConfirmPc

text \<open>
  The store's path and the limits are fixed; everything else of the application (the venues' answers to a revalidation, the fees, the submitters) may be
  different at every step. A restart empties the cache and abandons the confirmations under way.
\<close>

inductive app_run :: "string \<Rightarrow> DemoLimits \<Rightarrow> AppState \<Rightarrow> ConfirmThread list \<Rightarrow> bool" for path limits where
  start: "app_run path limits \<lparr>as_File = FileMissing, as_Cache = NewQuoteCache n, as_Sent = [], as_Observed = []\<rparr> []"
| quote: "app_run path limits st ths \<Longrightarrow> CreateQuote a now putNow newID request st = (r, st') \<Longrightarrow> app_run path limits st' ths"
| begin_confirm: "app_run path limits st ths \<Longrightarrow>
    app_run path limits st (ths @ [\<lparr>ct_Env = ce, ct_Request = request, ct_Pc = CfByRequest\<rparr>])"
| step: "app_run path limits st (xs @ th # ys) \<Longrightarrow> ap_Path a = path \<Longrightarrow> ap_Limits a = limits \<Longrightarrow>
    confirmStep a (ct_Env th) (ct_Request th) (ct_Pc th) st = (pc, st') \<Longrightarrow> app_run path limits st' (xs @ th\<lparr>ct_Pc := pc\<rparr> # ys)"
| store: "app_run path limits st ths \<Longrightarrow> intent_step path limits (as_File st) f' \<Longrightarrow> app_run path limits (st\<lparr>as_File := f'\<rparr>) ths"
| restart: "app_run path limits st ths \<Longrightarrow> app_run path limits (st\<lparr>as_Cache := NewQuoteCache n\<rparr>) []"

text \<open>Scheduling: one step of the \<open>i\<close>-th confirmation, if there is one.\<close>

definition stepThread :: "Application \<Rightarrow> nat \<Rightarrow> AppState \<times> ConfirmThread list \<Rightarrow> AppState \<times> ConfirmThread list" where
  "stepThread a i c = (case c of (st, ths) \<Rightarrow>
     (if i < length ths then
        (case confirmStep a (ct_Env (ths ! i)) (ct_Request (ths ! i)) (ct_Pc (ths ! i)) st of
           (pc, st') \<Rightarrow> (st', ths[i := (ths ! i)\<lparr>ct_Pc := pc\<rparr>]))
      else (st, ths)))"

lemma app_run_schedule:
  "app_run (ap_Path a) (ap_Limits a) st ths \<Longrightarrow>
   app_run (ap_Path a) (ap_Limits a) (fst (fold (stepThread a) is (st, ths))) (snd (fold (stepThread a) is (st, ths)))"
proof (induction "is" arbitrary: st ths)
  case (Cons i "is")
  obtain pc st1 where s: "confirmStep a (ct_Env (ths ! i)) (ct_Request (ths ! i)) (ct_Pc (ths ! i)) st = (pc, st1)" by (metis surj_pair)
  show ?case
  proof (cases "i < length ths")
    case True
    then have "ths = take i ths @ (ths ! i) # drop (Suc i) ths" by (rule id_take_nth_drop)
    with Cons.prems have "app_run (ap_Path a) (ap_Limits a) st (take i ths @ (ths ! i) # drop (Suc i) ths)" by simp
    from app_run.step [OF this refl refl s]
    have "app_run (ap_Path a) (ap_Limits a) st1 (ths[i := (ths ! i)\<lparr>ct_Pc := pc\<rparr>])" using True by (simp add: upd_conv_take_nth_drop)
    then show ?thesis using Cons.IH True s by (simp add: stepThread_def)
  qed (use Cons in \<open>simp add: stepThread_def\<close>)
qed simp

section \<open>Trades on record\<close>

lemma intent_reach_steps: "(intent_step path limits)\<^sup>*\<^sup>* f f' \<Longrightarrow> intent_reach path limits f \<Longrightarrow> intent_reach path limits f'"
  by (induction rule: rtranclp_induct) (auto intro: intent_reach.step)

text \<open>The file holds the trade, or a later state of it.\<close>

definition held :: "IntentSnapshot disk \<Rightarrow> QuickTrade \<Rightarrow> bool" where
  "held f t \<longleftrightarrow> (\<exists>s t'. intentPeek f = Some s \<and> gget (s_QuickTrades s) (t_ID t) = Some t' \<and> tradeLater t t')"

lemma held_step:
  assumes "intent_step path limits f f'" "intent_reach path limits f" "held f t"
  shows "held f' t"
proof -
  obtain s t' where h: "intentPeek f = Some s" "gget (s_QuickTrades s) (t_ID t) = Some t'" "tradeLater t t'"
    using assms(3) by (auto simp: held_def)
  obtain s' where s': "intentPeek f' = Some s'" "snapLater s s'"
    using intent_step_later [OF assms(1) h(1) intent_reach_inv [OF assms(2) h(1)]] by blast
  obtain t'' where "gget (s_QuickTrades s') (t_ID t) = Some t''" "tradeLater t' t''"
    using s'(2) h(2) unfolding snapLater_def tradesLater_def by blast
  then show ?thesis using s'(1) h(3) tradeLater_trans unfolding held_def by blast
qed

text \<open>Trades on record with the same quote or the same request are the same trade.\<close>

lemma held_indexed:
  assumes "held f t" "intentPeek f = Some s" "intentInv s"
  shows "gget (s_QuickTrades s) (t_ID t) \<noteq> None" "gget (s_ConsumedQuotes s) (q_ID (t_Quote t)) = Some (t_ID t)"
    "gget (s_QuickRequests s) (requestKeyOf t) = Some (t_ID t)"
proof -
  obtain t' where h: "gget (s_QuickTrades s) (t_ID t) = Some t'" "sameTrade t t'"
    using assms(1,2) by (auto simp: held_def tradeLater_def)
  have "t_Quote t' = t_Quote t" "requestKeyOf t' = requestKeyOf t" using h(2) by (auto simp: sameTrade_def requestKeyOf_def)
  then show "gget (s_QuickTrades s) (t_ID t) \<noteq> None" "gget (s_ConsumedQuotes s) (q_ID (t_Quote t)) = Some (t_ID t)"
    "gget (s_QuickRequests s) (requestKeyOf t) = Some (t_ID t)"
    using intentInv_trade(4,5) [OF assms(3) h(1)] h(1) by auto
qed

text \<open>The transaction creates only trades that no one has.\<close>

lemma transaction_creates:
  assumes "ConfirmQuickTrade path env v limits now f = ((None, Some (t, True)), f')" "intentPeek f = Some s" "intentInv s"
  shows "gget (s_QuickTrades s) (t_ID t) = None" "held f' t"
proof -
  obtain s1 where s1: "confirmMutate v limits now s = Inr (s1, t, True)" "f' = FileHolds (intentTouch (ev_Now env) s1)"
    using assms(1) Store_update_cases [of path env "confirmMutate v limits now" f None "Some (t, True)" f']
      Store_Load_Inr [of env f] assms(2) by (fastforce simp: ConfirmQuickTrade_def split: option.splits)
  have t: "t_ID t = c_IntentID v" "gget (s_QuickTrades s) (c_IntentID v) = None" "gget (s_QuickTrades s1) (c_IntentID v) = Some t"
    using s1(1) by (cases rule: confirmMutate_cases; simp add: newQuickTrade_def gomap_simps)+
  show "gget (s_QuickTrades s) (t_ID t) = None" using t by simp
  have "intent_step path limits f f'" using assms(1) by (rule intent_step.confirm)
  then obtain s1' where p: "intentPeek f' = Some s1'" using intent_step_later [OF _ assms(2,3)] by blast
  then have "s1' = intentTouch (ev_Now env) s1" using s1(2) intentPeek_touch by blast
  then show "held f' t" unfolding held_def using p t by (auto simp: intentTouch_def)
qed

text \<open>Marking a trade leaves it the same trade, dispatched.\<close>

lemma marking_keeps:
  assumes "MarkQuickTradeDispatching path env i now f = ((None, Some t), f')" "intentPeek f = Some s" "intentInv s"
  shows "t_ID t = i" "t_SendAttempted t" "held f' t"
proof -
  obtain s1 where s1: "updateTradeMutate i (dispatchTrade now) s = Inr (s1, t)" "f' = FileHolds (intentTouch (ev_Now env) s1)"
    using assms(1) Store_update_cases [of path env "updateTradeMutate i (dispatchTrade now)" f None "Some t" f']
      Store_Load_Inr [of env f] assms(2) unfolding MarkQuickTradeDispatching_def updateQuickTrade_def by fastforce
  obtain t0 where t0: "gget (s_QuickTrades s) i = Some t0" "dispatchTrade now t0 = Inr t"
    "s1 = s\<lparr>s_QuickTrades := gput i t (s_QuickTrades s)\<rparr>" using s1(1) by (rule updateTradeMutate_cases)
  note w = intentInv_trade [OF assms(3) t0(1)]
  have ok: "tradeGrows t0 t" "t_SendAttempted t" using dispatchTrade_ok [OF t0(2) w(3)] by blast+
  then show "t_ID t = i" "t_SendAttempted t" using w(1) by (auto simp: tradeGrows_def sameTrade_def)
  have "intent_step path limits f f'" for limits using assms(1) by (rule intent_step.dispatch)
  then obtain s1' where p: "intentPeek f' = Some s1'" using intent_step_later [OF _ assms(2,3)] by blast
  then have "s1' = intentTouch (ev_Now env) s1" using s1(2) intentPeek_touch by blast
  then show "held f' t" unfolding held_def using p t0(3) \<open>t_ID t = i\<close> by (auto simp: intentTouch_def gomap_simps)
qed

section \<open>Ownership\<close>

text \<open>The trade a confirmation has created and not yet submitted.\<close>

fun ownedTrades :: "ConfirmPc \<Rightarrow> QuickTrade list" where
  "ownedTrades (CfMark venue submitter trade) = [trade]"
| "ownedTrades (CfSubmit venue submitter trade) = [trade]"
| "ownedTrades _ = []"

definition ownedBy :: "ConfirmThread list \<Rightarrow> QuickTrade list" where
  "ownedBy ths = concat (map (\<lambda>th. ownedTrades (ct_Pc th)) ths)"

lemma ownedBy_simps [simp]:
  "ownedBy [] = []" "ownedBy (th # ths) = ownedTrades (ct_Pc th) @ ownedBy ths" "ownedBy (xs @ ys) = ownedBy xs @ ownedBy ys"
  by (simp_all add: ownedBy_def)

definition runInv :: "string \<Rightarrow> DemoLimits \<Rightarrow> AppState \<Rightarrow> ConfirmThread list \<Rightarrow> bool" where
  "runInv path limits st ths \<longleftrightarrow> intent_reach path limits (as_File st) \<and> distinct (map t_ID (as_Sent st @ ownedBy ths)) \<and>
     (\<forall>t \<in> set (as_Sent st @ ownedBy ths). held (as_File st) t) \<and> (\<forall>t \<in> set (as_Sent st). t_SendAttempted t) \<and>
     (\<forall>th \<in> set ths. \<forall>venue submitter t. ct_Pc th = CfSubmit venue submitter t \<longrightarrow> t_SendAttempted t)"

text \<open>What one step of a confirmation does to the file, the trades submitted and the trade it owns.\<close>

lemma confirmStep_cases:
  assumes "confirmStep a ce request pc st = (pc', st')"
  obtains (quiet) "as_File st' = as_File st" "as_Sent st' = as_Sent st" "ownedTrades pc = []" "ownedTrades pc' = []"
  | (refused) "intent_step (ap_Path a) (ap_Limits a) (as_File st) (as_File st')" "as_Sent st' = as_Sent st" "ownedTrades pc' = []"
  | (created) v trade venue submitter where "pc' = CfMark venue submitter trade" "ownedTrades pc = []" "as_Sent st' = as_Sent st"
      "ConfirmQuickTrade (ap_Path a) (ce_Store ce) v (ap_Limits a) (ce_Now ce) (as_File st) = ((None, Some (trade, True)), as_File st')"
  | (marked) trade trade' venue submitter where "ownedTrades pc = [trade]" "pc' = CfSubmit venue submitter trade'" "as_Sent st' = as_Sent st"
      "MarkQuickTradeDispatching (ap_Path a) (ce_Mark ce) (t_ID trade) (ce_NowMark ce) (as_File st) = ((None, Some trade'), as_File st')"
  | (submitted) venue submitter trade where "pc = CfSubmit venue submitter trade" "ownedTrades pc' = []" "as_File st' = as_File st"
      "as_Sent st' = as_Sent st @ [trade]"
  | (idle) "pc' = pc" "st' = st"
proof (cases pc)
  case CfByRequest
  then show ?thesis using assms by (intro quiet) (auto simp: confirmStep_def split: if_splits sum.splits option.splits)
next
  case CfByQuote
  then show ?thesis using assms by (intro quiet) (auto simp: confirmStep_def split: sum.splits option.splits)
next
  case CfCached
  then show ?thesis using assms by (intro quiet) (auto simp: confirmStep_def split: prod.splits option.splits)
next
  case (CfValidate q)
  then show ?thesis using assms by (intro quiet) (auto simp: confirmStep_def split: sum.splits option.splits)
next
  case (CfTransaction q submitter i)
  obtain e r f where c: "ConfirmQuickTrade (ap_Path a) (ce_Store ce) (confirmationOf request i q) (ap_Limits a) (ce_Now ce) (as_File st) = ((e, r), f)"
    by (metis surj_pair)
  show ?thesis
  proof (cases "\<exists>trade. e = None \<and> r = Some (trade, True)")
    case True
    then obtain trade where t: "e = None" "r = Some (trade, True)" by blast
    then have "pc' = CfMark (q_Venue q) submitter trade" "st' = st\<lparr>as_File := f\<rparr>"
      using assms c CfTransaction by (auto simp: confirmStep_def)
    then show ?thesis using created c t CfTransaction by simp
  next
    case False
    then have "as_File st' = f" "as_Sent st' = as_Sent st" "ownedTrades pc' = []"
      using assms c CfTransaction by (cases e; cases r; auto simp: confirmStep_def)+
    then show ?thesis using refused intent_step.confirm [OF c] by simp
  qed
next
  case (CfMark venue submitter trade)
  obtain e r f where c: "MarkQuickTradeDispatching (ap_Path a) (ce_Mark ce) (t_ID trade) (ce_NowMark ce) (as_File st) = ((e, r), f)"
    by (metis surj_pair)
  show ?thesis
  proof (cases "\<exists>trade'. e = None \<and> r = Some trade'")
    case True
    then obtain trade' where t: "e = None" "r = Some trade'" by blast
    then have "pc' = CfSubmit venue submitter trade'" "st' = st\<lparr>as_File := f\<rparr>" using assms c CfMark by (auto simp: confirmStep_def)
    then show ?thesis using marked [of trade] c t CfMark by simp
  next
    case False
    then have "as_File st' = f" "as_Sent st' = as_Sent st" "ownedTrades pc' = []"
      using assms c CfMark by (cases e; cases r; auto simp: confirmStep_def)+
    then show ?thesis using refused intent_step.dispatch [OF c] by simp
  qed
next
  case (CfSubmit venue submitter trade)
  then show ?thesis using assms by (intro submitted) (auto simp: confirmStep_def Let_def)
next
  case (CfUpdate trade out)
  obtain e r f where c: "UpdateQuickTrade (ap_Path a) (ce_Update ce) (t_ID trade) (outcomeUpdate out) (ce_NowUpdate ce) (as_File st) = ((e, r), f)"
    by (metis surj_pair)
  then have "as_File st' = f" "as_Sent st' = as_Sent st" "ownedTrades pc' = []" using assms CfUpdate by (auto simp: confirmStep_def)
  then show ?thesis using refused intent_step.update [OF c] by simp
next
  case (CfDone r e)
  then show ?thesis using assms idle by (simp add: confirmStep_def)
qed

text \<open>Other store operations concern the invariant only through the file.\<close>

lemma runInv_file:
  assumes "runInv path limits st ths" "intent_step path limits (as_File st) (as_File st')" "as_Sent st' = as_Sent st"
  shows "runInv path limits st' ths"
  using assms held_step [OF assms(2)] intent_reach.step [OF _ assms(2)] unfolding runInv_def by auto

lemma runInv_shrinks:
  assumes "runInv path limits st (xs @ th # ys)" "ownedTrades pc = []"
  shows "runInv path limits st (xs @ th\<lparr>ct_Pc := pc\<rparr> # ys)"
  using assms unfolding runInv_def by (auto simp: distinct_append)

lemma runInv_step:
  assumes inv: "runInv path limits st (xs @ th # ys)" and ap: "ap_Path a = path" "ap_Limits a = limits"
    and st: "confirmStep a (ct_Env th) (ct_Request th) (ct_Pc th) st = (pc, st')"
  shows "runInv path limits st' (xs @ th\<lparr>ct_Pc := pc\<rparr> # ys)"
proof -
  have reach: "intent_reach path limits (as_File st)" using inv by (simp add: runInv_def)
  obtain s where s: "intentPeek (as_File st) = Some s" using intent_reach_peek [OF reach] by blast
  have iv: "intentInv s" by (rule intent_reach_inv [OF reach s])
  have held: "held (as_File st) t" if "t \<in> set (as_Sent st @ ownedBy (xs @ th # ys))" for t using inv that unfolding runInv_def by blast
  from st show ?thesis
  proof (cases rule: confirmStep_cases)
    case quiet
    then have "runInv path limits st' (xs @ th # ys)" using inv by (simp add: runInv_def)
    then show ?thesis using quiet(4) by (rule runInv_shrinks)
  next
    case refused
    then have "runInv path limits st' (xs @ th # ys)" using runInv_file [OF inv] ap by simp
    then show ?thesis using refused(3) by (rule runInv_shrinks)
  next
    case (created v trade venue submitter)
    note c = transaction_creates [OF created(4) [unfolded ap] s iv]
    have step: "intent_step path limits (as_File st) (as_File st')" using created(4) ap by (auto intro: intent_step.confirm)
    have "t_ID t \<noteq> t_ID trade" if "t \<in> set (as_Sent st @ ownedBy (xs @ th # ys))" for t
      using held_indexed(1) [OF held [OF that] s iv] c(1) by auto
    moreover have "runInv path limits st' (xs @ th # ys)" by (rule runInv_file [OF inv step created(3)])
    ultimately show ?thesis using c(2) created(1-3) unfolding runInv_def by fastforce
  next
    case (marked trade trade' venue submitter)
    note m = marking_keeps [OF marked(4) [unfolded ap] s iv]
    have step: "intent_step path limits (as_File st) (as_File st')" using marked(4) ap by (auto intro: intent_step.dispatch)
    have "runInv path limits st' (xs @ th # ys)" by (rule runInv_file [OF inv step marked(3)])
    then show ?thesis using m marked(1-3) unfolding runInv_def by auto
  next
    case (submitted venue submitter trade)
    then show ?thesis using inv unfolding runInv_def by auto
  next
    case idle
    then show ?thesis using inv by (cases th) simp
  qed
qed

lemma app_run_inv: "app_run path limits st ths \<Longrightarrow> runInv path limits st ths"
proof (induction rule: app_run.induct)
  case (start n)
  then show ?case by (simp add: runInv_def intent_reach.start)
next
  case (quote st ths a now putNow newID request r st')
  then have "as_File st' = as_File st \<and> as_Sent st' = as_Sent st" by (auto simp: CreateQuote_def split: sum.splits)
  then show ?case using quote.IH by (simp add: runInv_def)
next
  case (begin_confirm st ths ce request)
  then show ?case by (auto simp: runInv_def)
next
  case (step st xs th ys a pc st')
  then show ?case by (intro runInv_step)
next
  case (store st ths f')
  then show ?case using runInv_file [of path limits st ths "st\<lparr>as_File := f'\<rparr>"] by simp
next
  case (restart st ths n)
  then show ?case by (auto simp: runInv_def)
qed

end
