(* ===== verification/QuoteProps.thy ===== *)
theory QuoteProps
  imports Quote
begin

text \<open>
  What a quote guarantees: its limit price stays inside the protection band, its quantity is legal for
  the venue, it never debits more than the user's budget, the caps or the funds available, and a fresh
  quote passes the revalidation that confirming it performs.
\<close>

section \<open>Steps\<close>

lemma ratTrunc_nonneg: "0 \<le> x \<Longrightarrow> ratTrunc x = \<lfloor>x\<rfloor>"
  by (simp add: ratTrunc_def)

lemma floorToStep_le: "0 \<le> v \<Longrightarrow> 0 < step \<Longrightarrow> floorToStep v step \<le> v"
proof -
  assume a: "0 \<le> v" "0 < step"
  have "of_int \<lfloor>v / step\<rfloor> \<le> v / step" by (rule of_int_floor_le)
  then have "of_int \<lfloor>v / step\<rfloor> * step \<le> v / step * step" using a(2) by (intro mult_right_mono) auto
  then show ?thesis using a by (simp add: floorToStep_def ratTrunc_nonneg)
qed

lemma floorToStep_gt: "0 \<le> v \<Longrightarrow> 0 < step \<Longrightarrow> v < floorToStep v step + step"
proof -
  assume a: "0 \<le> v" "0 < step"
  have "v / step < of_int \<lfloor>v / step\<rfloor> + 1" by linarith
  then have "v / step * step < (of_int \<lfloor>v / step\<rfloor> + 1) * step" using a(2) by (rule mult_strict_right_mono)
  then show ?thesis using a by (simp add: floorToStep_def ratTrunc_nonneg algebra_simps)
qed

lemma ceilToStep_ge: "0 \<le> v \<Longrightarrow> 0 < step \<Longrightarrow> v \<le> ceilToStep v step"
proof -
  assume a: "0 \<le> v" "0 < step"
  let ?n = "if of_int \<lfloor>v / step\<rfloor> \<noteq> v / step then \<lfloor>v / step\<rfloor> + 1 else \<lfloor>v / step\<rfloor>"
  have "v / step \<le> of_int ?n" by (auto intro: less_imp_le) linarith
  then have "v / step * step \<le> of_int ?n * step" using a(2) by (intro mult_right_mono) auto
  moreover have "ceilToStep v step = of_int ?n * step" using a by (simp only: ceilToStep_def Let_def) (simp add: ratTrunc_nonneg)
  ultimately show ?thesis using a by simp
qed

lemma floorToStep_multiple: "0 < step \<Longrightarrow> floorToStep (of_int n * step) step = of_int n * step"
  by (simp add: floorToStep_def ratTrunc_def)

lemma floorToStep_idem: "0 < step \<Longrightarrow> floorToStep (floorToStep v step) step = floorToStep v step"
  unfolding floorToStep_def [of v] by (rule floorToStep_multiple)

lemma floorToStep_ceilToStep: "0 < step \<Longrightarrow> floorToStep (ceilToStep v step) step = ceilToStep v step"
  unfolding ceilToStep_def Let_def by (rule floorToStep_multiple)

lemma floorToStep_nonneg: "0 \<le> v \<Longrightarrow> 0 < step \<Longrightarrow> 0 \<le> floorToStep v step"
  by (simp add: floorToStep_def ratTrunc_nonneg)

section \<open>Parsing\<close>

lemma positiveDecimal_Inr: "positiveDecimal name raw = Inr v \<longleftrightarrow> SetString (TrimSpace raw) = Some v \<and> 0 < v"
  by (auto simp: positiveDecimal_def split: option.splits)

lemma nonNegativeDecimal_Inr: "nonNegativeDecimal name raw = Inr v \<longleftrightarrow> SetString (TrimSpace raw) = Some v \<and> 0 \<le> v"
  by (auto simp: nonNegativeDecimal_def split: option.splits)

lemma recode_Inr [simp]: "recode c r = Inr x \<longleftrightarrow> r = Inr x"
  by (cases r) (auto simp: recode_def split: goerror.splits)

lemmas decimal_iff = positiveDecimal_Inr nonNegativeDecimal_Inr

definition rulesOk :: "parsedRules \<Rightarrow> bool" where
  "rulesOk r \<longleftrightarrow> 0 < pr_tick r \<and> 0 < pr_step r \<and> 0 < pr_minimumQuantity r"

lemma parseRules_ok: "parseRules r rules = Inr p \<Longrightarrow> rulesOk p"
  by (auto simp: parseRules_def result_simps decimal_iff rulesOk_def split: if_splits)

lemma parseLevels_pos: "parseLevels side ls = Inr ps \<Longrightarrow> \<forall>(p, q) \<in> set ps. 0 < p \<and> 0 < q"
  by (induction ls arbitrary: ps) (auto simp: result_simps decimal_iff)

definition bookOk :: "parsedBook \<Rightarrow> bool" where
  "bookOk b \<longleftrightarrow> pb_bids b \<noteq> [] \<and> pb_asks b \<noteq> [] \<and> pb_bestBid b = fst (hd (pb_bids b)) \<and> pb_bestAsk b = fst (hd (pb_asks b)) \<and>
     pb_bestBid b < pb_bestAsk b \<and> (\<forall>(p, q) \<in> set (pb_bids b) \<union> set (pb_asks b). 0 < p \<and> 0 < q) \<and>
     adjacent (\<lambda>a c. fst c \<le> fst a) (pb_bids b) \<and> adjacent (\<lambda>a c. fst a \<le> fst c) (pb_asks b)"

lemma parseBook_ok:
  assumes "parseBook m now age = Inr b"
  shows "bookOk b" "0 < pb_bestBid b" "0 < pb_bestAsk b"
proof -
  obtain bids asks where h: "parseLevels ''bid'' (ms_Bids m) = Inr bids" "parseLevels ''ask'' (ms_Asks m) = Inr asks"
    "bids \<noteq> []" "asks \<noteq> []" "fst (hd bids) < fst (hd asks)"
    "adjacent (\<lambda>a c. fst c \<le> fst a) bids" "adjacent (\<lambda>a c. fst a \<le> fst c) asks"
    "b = \<lparr>pb_bestBid = fst (hd bids), pb_bestAsk = fst (hd asks), pb_bids = bids, pb_asks = asks\<rparr>"
    using assms by (auto simp: parseBook_def result_simps not_less split: if_splits)
  have pos: "\<forall>(p, q) \<in> set bids. 0 < p \<and> 0 < q" "\<forall>(p, q) \<in> set asks. 0 < p \<and> 0 < q"
    using parseLevels_pos [OF h(1)] parseLevels_pos [OF h(2)] by auto
  show "bookOk b" using h pos by (auto simp: bookOk_def)
  show "0 < pb_bestBid b" "0 < pb_bestAsk b"
    using h(3,4,8) pos hd_in_set [of bids] hd_in_set [of asks] by (auto simp: case_prod_beta)
qed

lemma parseFeePolicy_bounds: "parseFeePolicy f = Inr rate \<Longrightarrow> 0 \<le> rate \<and> rate \<le> 1 / 10"
  by (auto simp: parseFeePolicy_def result_simps decimal_iff split: if_splits)

lemma validateCap_None:
  assumes "validateCap caps r spend = None"
  obtains a v where "SetString (TrimSpace (capOf (cp_ByAsset caps) (rt_FromAsset r))) = Some a"
    "SetString (TrimSpace (capOf (cp_ByVenueSource caps) (rt_Venue r @ '':'' @ rt_FromAsset r))) = Some v" "spend \<le> a" "spend \<le> v"
  using assms by (auto simp: validateCap_def decimal_iff split: sum.splits if_splits)

section \<open>Sizing\<close>

definition withinProtection :: "string \<Rightarrow> rat \<Rightarrow> rat \<Rightarrow> int \<Rightarrow> rat \<Rightarrow> bool" where
  "withinProtection side bid ask bps limit \<longleftrightarrow>
     (if side = SideBuy then ask \<le> limit \<and> limit \<le> ask * (of_int (10000 + bps) / 10000)
      else bid * (of_int (10000 - bps) / 10000) \<le> limit \<and> limit \<le> bid)"

text \<open>Quantity and limit are legal for the venue.\<close>

definition legalOrder :: "parsedRules \<Rightarrow> rat \<Rightarrow> rat \<Rightarrow> bool" where
  "legalOrder rules limit quantity \<longleftrightarrow>
     0 < limit \<and> 0 < quantity \<and> floorToStep limit (pr_tick rules) = limit \<and> floorToStep quantity (pr_step rules) = quantity \<and>
     pr_minimumQuantity rules \<le> quantity \<and>
     (case pr_maximumQuantity rules of None \<Rightarrow> True | Some m \<Rightarrow> quantity \<le> m) \<and>
     (case pr_minimumNotional rules of None \<Rightarrow> True | Some m \<Rightarrow> m \<le> quantity * limit)"

lemma sizeOrder_ok:
  assumes "sizeOrder r rules book charge rate bps spend = Inr (limit, quantity)"
    and side: "rt_Side r = SideBuy \<or> rt_Side r = SideSell"
    and ok: "rulesOk rules" "0 < pb_bestBid book" "0 < pb_bestAsk book" "0 < spend" "0 \<le> rate" "0 < bps" "bps \<le> 50"
  shows "withinProtection (rt_Side r) (pb_bestBid book) (pb_bestAsk book) bps limit" "legalOrder rules limit quantity"
    "sourceDebitUpperBound (rt_Side r) quantity limit charge rate \<le> spend"
    "spend < sourceDebitUpperBound (rt_Side r) (quantity + pr_step rules) limit charge rate"
proof -
  have limit: "limit = protectedLimit (rt_Side r) (pb_bestBid book) (pb_bestAsk book) (pr_tick rules) bps"
    and q: "quantity = maximumBaseQuantity (rt_Side r) spend limit (pr_step rules) charge rate"
    and m: "\<not> (rt_Side r = SideBuy \<and> limit < pb_bestAsk book)" "\<not> (rt_Side r = SideSell \<and> limit > pb_bestBid book)" "0 < quantity"
    and lq: "pr_minimumQuantity rules \<le> quantity" "case pr_maximumQuantity rules of None \<Rightarrow> True | Some m \<Rightarrow> quantity \<le> m"
      "case pr_minimumNotional rules of None \<Rightarrow> True | Some m \<Rightarrow> m \<le> quantity * limit"
    using assms(1) by (auto simp: sizeOrder_def Let_def split: if_splits option.splits)
  have t: "0 < pr_tick rules" "0 < pr_step rules" using ok(1) by (auto simp: rulesOk_def)
  have up: "0 \<le> pb_bestAsk book * (of_int (10000 + bps) / 10000)" using ok by (intro mult_nonneg_nonneg) auto
  have lo: "0 < pb_bestBid book * (of_int (10000 - bps) / 10000)" using ok by (intro mult_pos_pos) auto
  show w: "withinProtection (rt_Side r) (pb_bestBid book) (pb_bestAsk book) bps limit"
  proof (cases "rt_Side r = SideBuy")
    case True
    then show ?thesis using m(1) floorToStep_le [OF up t(1)] by (simp add: withinProtection_def limit protectedLimit_def)
  next
    case False
    then have "rt_Side r = SideSell" using side by simp
    then show ?thesis using m(2) ceilToStep_ge [OF less_imp_le [OF lo] t(1)]
      by (simp add: withinProtection_def limit protectedLimit_def)
  qed
  have lpos: "0 < limit" using w ok(2,3) lo by (auto simp: withinProtection_def split: if_splits)
  have tick: "floorToStep limit (pr_tick rules) = limit"
    unfolding limit protectedLimit_def by (simp add: floorToStep_idem floorToStep_ceilToStep t(1))
  have step: "floorToStep quantity (pr_step rules) = quantity"
    unfolding q maximumBaseQuantity_def Let_def by (rule floorToStep_idem [OF t(2)])
  show "legalOrder rules limit quantity" using lpos m(3) tick step lq by (simp add: legalOrder_def)
  define d where "d = (if charge = ''from'' then (if rt_Side r = SideSell then 1 else limit) * (1 + rate) else if rt_Side r = SideSell then 1 else limit)"
  have d: "0 < d" using lpos ok(5) by (simp add: d_def mult_pos_pos add_pos_nonneg)
  have qd: "quantity = floorToStep (spend / d) (pr_step rules)" by (simp add: q maximumBaseQuantity_def Let_def d_def)
  have debit: "sourceDebitUpperBound (rt_Side r) x limit charge rate = x * d" for x
    using side by (auto simp: sourceDebitUpperBound_def d_def Let_def)
  have sd: "0 \<le> spend / d" using ok(4) d by simp
  have "quantity * d \<le> spend / d * d" using floorToStep_le [OF sd t(2)] d unfolding qd by (intro mult_right_mono) auto
  then show "sourceDebitUpperBound (rt_Side r) quantity limit charge rate \<le> spend" using d by (simp add: debit)
  have "spend / d * d < (quantity + pr_step rules) * d"
    using floorToStep_gt [OF sd t(2)] d unfolding qd by (intro mult_strict_right_mono)
  then show "spend < sourceDebitUpperBound (rt_Side r) (quantity + pr_step rules) limit charge rate" using d by (simp add: debit)
qed

lemma supportedRoutes_side: "gget supportedRoutes i = Some r \<Longrightarrow> rt_Side r = SideBuy \<or> rt_Side r = SideSell"
  by (auto simp: supportedRoutes_def route_def split: if_splits)

section \<open>What an executable quote was made from\<close>

lemma buildQuote_ok:
  assumes "buildQuote s provider req r market book fee rate spend limit quantity now newID = Inr q"
  obtains capacity available fees reserves net where
    "pv_Available provider r (rt_FromAsset r) = Inr capacity"
    "nonNegativeDecimal ''available to trade'' (cy_Available capacity) = Inr available"
    "sourceDebitUpperBound (rt_Side r) quantity limit (fp_ChargeAsset fee) rate \<le> available"
    "feeEstimate provider r fee rate (fst (executableEstimate (rt_Side r) quantity limit book))
       (snd (executableEstimate (rt_Side r) quantity limit book)) limit = Inr (fees, reserves, net)"
    "newID = Inr (q_ID q)" "q_Executable q" "q_Identity q = cr_Identity req" "q_RouteID q = rt_ID r" "q_Venue q = rt_Venue r"
    "q_Instrument q = rt_Instrument r" "q_FromAsset q = rt_FromAsset r" "q_ToAsset q = rt_ToAsset r" "q_Side q = rt_Side r"
    "q_SpendBudget q = decimalString spend" "q_BaseQty q = decimalString quantity" "q_LimitPrice q = decimalString limit"
    "q_SourceDebitUpperBound q = decimalString (sourceDebitUpperBound (rt_Side r) quantity limit (fp_ChargeAsset fee) rate)"
    "q_FeeRate q = decimalString rate" "q_FeeChargeAsset q = fp_ChargeAsset fee" "q_EstimatedFees q = fees"
    "q_ThirdAssetReserves q = reserves" "q_MetadataRevision q = ir_MetadataRevision (ms_Rules market)"
    "q_GrossReceiveEstimate q = decimalString (snd (executableEstimate (rt_Side r) quantity limit book))"
    "q_ExpiresAt q = Add now (qs_TTL s)" "q_CreatedAt q = now" "q_TimeInForce q = ''IOC''"
  using assms unfolding buildQuote_def Let_def case_prod_beta
  by (auto simp: result_simps split: sum.splits if_splits)

text \<open>The inputs an executable quote was computed from, with every check they passed.\<close>

definition quoteInputs ::
  "QuoteService \<Rightarrow> time \<Rightarrow> CreateRequest \<Rightarrow> Route \<Rightarrow> Provider \<Rightarrow> MarketSnapshot \<Rightarrow> parsedRules \<Rightarrow> parsedBook \<Rightarrow> FeePolicy \<Rightarrow> rat \<Rightarrow> rat \<Rightarrow> bool" where
  "quoteInputs s now req r provider market rules book fee rate spend \<longleftrightarrow>
     gget supportedRoutes (cr_RouteID req) = Some r \<and> rt_Venue r = cr_Venue req \<and> gget (qs_Providers s) (rt_Venue r) = Some provider \<and>
     0 < qs_TTL s \<and> 0 < qs_BookMaxAge s \<and> 0 < qs_SlippageBPS s \<and> qs_SlippageBPS s \<le> 50 \<and>
     SetString (TrimSpace (cr_SpendBudget req)) = Some spend \<and> 0 < spend \<and> validateCap (qs_Caps s) r spend = None \<and>
     pv_Market provider r = Inr market \<and> parseRules r (ms_Rules market) = Inr rules \<and>
     parseBook market now (qs_BookMaxAge s) = Inr book \<and> pv_Fee provider r = Inr fee \<and> parseFeePolicy fee = Inr rate"

lemma Create_executable:
  assumes "Create s now newID req = Inr q" "q_Executable q"
  obtains r provider market rules book fee rate spend limit quantity where
    "quoteInputs s now req r provider market rules book fee rate spend"
    "sizeOrder r rules book (fp_ChargeAsset fee) rate (qs_SlippageBPS s) spend = Inr (limit, quantity)"
    "buildQuote s provider req r market book fee rate spend limit quantity now newID = Inr q"
proof -
  obtain r provider spend where c: "gget supportedRoutes (cr_RouteID req) = Some r" "rt_Venue r = cr_Venue req"
    "gget (qs_Providers s) (cr_Venue req) = Some provider" "0 < qs_TTL s" "0 < qs_BookMaxAge s" "0 < qs_SlippageBPS s"
    "qs_SlippageBPS s \<le> 50" "SetString (TrimSpace (cr_SpendBudget req)) = Some spend" "0 < spend"
    "priceQuote s provider req r spend now newID = Inr q"
    using assms(1) by (auto simp: Create_def result_simps decimal_iff split: option.splits if_splits)
  obtain market rules book where m: "validateCap (qs_Caps s) r spend = None" "pv_Market provider r = Inr market"
    "parseRules r (ms_Rules market) = Inr rules" "parseBook market now (qs_BookMaxAge s) = Inr book"
    "quoteFromBook s provider req r market rules book spend now newID = Inr q"
    using c(10) by (auto simp: priceQuote_def result_simps split: option.splits sum.splits)
  obtain fee rate limit quantity where f: "pv_Fee provider r = Inr fee" "parseFeePolicy fee = Inr rate"
    "sizeOrder r rules book (fp_ChargeAsset fee) rate (qs_SlippageBPS s) spend = Inr (limit, quantity)"
    "buildQuote s provider req r market book fee rate spend limit quantity now newID = Inr q"
    using m(5) assms(2) by (auto simp: quoteFromBook_def result_simps blockedQuote_def split: sum.splits)
  show thesis by (rule that [OF _ f(3,4)]) (use c m f in \<open>simp add: quoteInputs_def\<close>)
qed

lemma quoteInputs_sized:
  assumes "quoteInputs s now req r provider market rules book fee rate spend"
    and "sizeOrder r rules book (fp_ChargeAsset fee) rate (qs_SlippageBPS s) spend = Inr (limit, quantity)"
  shows "withinProtection (rt_Side r) (pb_bestBid book) (pb_bestAsk book) (qs_SlippageBPS s) limit" "legalOrder rules limit quantity"
    "sourceDebitUpperBound (rt_Side r) quantity limit (fp_ChargeAsset fee) rate \<le> spend"
    "spend < sourceDebitUpperBound (rt_Side r) (quantity + pr_step rules) limit (fp_ChargeAsset fee) rate"
proof -
  have i: "gget supportedRoutes (cr_RouteID req) = Some r" "parseRules r (ms_Rules market) = Inr rules"
    "parseBook market now (qs_BookMaxAge s) = Inr book" "parseFeePolicy fee = Inr rate" "0 < spend"
    "0 < qs_SlippageBPS s" "qs_SlippageBPS s \<le> 50" using assms(1) by (auto simp: quoteInputs_def)
  note ok = sizeOrder_ok [OF assms(2) supportedRoutes_side [OF i(1)] parseRules_ok [OF i(2)] parseBook_ok(2,3) [OF i(3)] i(5)
      conjunct1 [OF parseFeePolicy_bounds [OF i(4)]] i(6,7)]
  show "withinProtection (rt_Side r) (pb_bestBid book) (pb_bestAsk book) (qs_SlippageBPS s) limit" "legalOrder rules limit quantity"
    "sourceDebitUpperBound (rt_Side r) quantity limit (fp_ChargeAsset fee) rate \<le> spend"
    "spend < sourceDebitUpperBound (rt_Side r) (quantity + pr_step rules) limit (fp_ChargeAsset fee) rate"
    by (fact ok)+
qed

section \<open>Depth\<close>

text \<open>The depth a limit reaches: the quantity of the leading levels it accepts.\<close>

definition reaches :: "string \<Rightarrow> rat \<Rightarrow> parsedLevel \<Rightarrow> bool" where
  "reaches side limit l \<longleftrightarrow> \<not> ((side = SideBuy \<and> fst l > limit) \<or> (side = SideSell \<and> fst l < limit))"

definition depthWithin :: "string \<Rightarrow> rat \<Rightarrow> parsedLevel list \<Rightarrow> rat" where
  "depthWithin side limit ls = sum_list (map snd (takeWhile (reaches side limit) ls))"

lemma depthWithin_nonneg: "\<forall>(p, q) \<in> set ls. 0 < p \<and> 0 < q \<Longrightarrow> 0 \<le> depthWithin side limit ls"
  unfolding depthWithin_def by (intro sum_list_nonneg) (auto dest!: set_takeWhileD)

lemma fillLevels_steps:
  "\<not> reaches side limit (p, q) \<Longrightarrow> fillLevels side limit rem filled received ((p, q) # ls) = (filled, received)"
  "reaches side limit (p, q) \<Longrightarrow> rem \<le> q \<Longrightarrow> fillLevels side limit rem filled received ((p, q) # ls) =
     (filled + rem, if side = SideSell then received + rem * p else received)"
  "reaches side limit (p, q) \<Longrightarrow> q < rem \<Longrightarrow> fillLevels side limit rem filled received ((p, q) # ls) =
     fillLevels side limit (rem - q) (filled + q) (if side = SideSell then received + q * p else received) ls"
  by (auto simp: reaches_def minRat_def Let_def)

lemma depthWithin_Cons:
  "\<not> reaches side limit (p, q) \<Longrightarrow> depthWithin side limit ((p, q) # ls) = 0"
  "reaches side limit (p, q) \<Longrightarrow> depthWithin side limit ((p, q) # ls) = q + depthWithin side limit ls"
  by (simp_all add: depthWithin_def)

text \<open>
  The loop fills the smaller of what is asked and the depth within the limit; what a sale receives
  lies between that quantity at the limit price and at the best price.
\<close>

definition fillSpec :: "string \<Rightarrow> rat \<Rightarrow> rat \<Rightarrow> rat \<Rightarrow> rat \<Rightarrow> rat \<Rightarrow> parsedLevel list \<Rightarrow> rat \<times> rat \<Rightarrow> bool" where
  "fillSpec side limit best rem filled received ls res \<longleftrightarrow>
     fst res = filled + min rem (depthWithin side limit ls) \<and>
     (side = SideSell \<longrightarrow>
        received + limit * min rem (depthWithin side limit ls) \<le> snd res \<and>
        snd res \<le> received + best * min rem (depthWithin side limit ls))"

lemma fillLevels_spec:
  assumes "0 < rem" "\<forall>(p, q) \<in> set ls. 0 < p \<and> 0 < q" "\<forall>(p, q) \<in> set ls. side = SideSell \<longrightarrow> p \<le> best"
  shows "fillSpec side limit best rem filled received ls (fillLevels side limit rem filled received ls)"
  using assms
proof (induction ls arbitrary: rem filled received)
  case Nil
  then show ?case by (simp add: fillSpec_def depthWithin_def)
next
  case (Cons l ls)
  obtain p q where l: "l = (p, q)" by (cases l)
  have pos: "0 < q" and tl: "\<forall>(p, q) \<in> set ls. 0 < p \<and> 0 < q" "\<forall>(p, q) \<in> set ls. side = SideSell \<longrightarrow> p \<le> best"
    and pb: "side = SideSell \<Longrightarrow> p \<le> best" using Cons.prems(2,3) l by auto
  note nn = depthWithin_nonneg [OF tl(1), of side limit]
  have lp: "limit \<le> p" if "reaches side limit (p, q)" "side = SideSell" using that by (auto simp: reaches_def)
  consider (stop) "\<not> reaches side limit (p, q)" | (last) "reaches side limit (p, q)" "rem \<le> q"
    | (more) "reaches side limit (p, q)" "q < rem" by linarith
  then show ?case
  proof cases
    case stop
    show ?thesis unfolding l fillSpec_def fillLevels_steps(1) [OF stop] depthWithin_Cons(1) [OF stop] using Cons.prems(1) by simp
  next
    case last
    have m: "min rem (q + depthWithin side limit ls) = rem" using last(2) nn by simp
    have "side = SideSell \<Longrightarrow> limit * rem \<le> rem * p" "side = SideSell \<Longrightarrow> rem * p \<le> best * rem"
      using lp [OF last(1)] pb Cons.prems(1) by (simp_all add: mult.commute)
    then show ?thesis unfolding l fillSpec_def fillLevels_steps(2) [OF last] depthWithin_Cons(2) [OF last(1)] m by simp
  next
    case more
    have m: "min rem (q + depthWithin side limit ls) = q + min (rem - q) (depthWithin side limit ls)" by (simp add: min_def)
    have "side = SideSell \<Longrightarrow> limit * q \<le> q * p" "side = SideSell \<Longrightarrow> q * p \<le> best * q"
      using lp [OF more(1)] pb pos by (simp_all add: mult.commute)
    moreover have "fillSpec side limit best (rem - q) (filled + q) (if side = SideSell then received + q * p else received) ls
        (fillLevels side limit (rem - q) (filled + q) (if side = SideSell then received + q * p else received) ls)"
      by (rule Cons.IH) (use more(2) tl in auto)
    ultimately show ?thesis
      unfolding l fillSpec_def fillLevels_steps(3) [OF more] depthWithin_Cons(2) [OF more(1)] m by (auto simp: distrib_left)
  qed
qed

section \<open>Writing numbers and reading them back\<close>

lemma decimalString_visible: "c \<in> set (decimalString x) \<Longrightarrow> visible c"
proof -
  assume c: "c \<in> set (decimalString x)"
  obtain ip fp where h: "list_all isDigit ip" "list_all isDigit fp"
    "decimalString x = (if x < 0 \<and> plainDecimal ip fp \<noteq> ''0'' then ''-'' else []) @ plainDecimal ip fp"
    by (rule decimalString_plain)
  have "visible (CHR ''-'')" "visible (CHR ''.'')" by (simp_all add: visible_def byte_def)
  then show ?thesis using c h isDigit_visible by (auto simp: plainDecimal_def list_all_iff split: if_splits)
qed

lemma decimalString_reads: "fits18 x \<Longrightarrow> SetString (TrimSpace (decimalString x)) = Some x"
  using TrimSpace_visible [of "decimalString x"] decimalString_visible SetString_decimalString by simp

lemma fits18_multiple: "fits18 step \<Longrightarrow> floorToStep v step = v \<Longrightarrow> fits18 v"
proof -
  assume f: "fits18 step" and v: "floorToStep v step = v"
  have "v * 10 ^ 18 = of_int (ratTrunc (v / step)) * (step * 10 ^ 18)"
    using v by (metis floorToStep_def mult.assoc)
  then show ?thesis using f unfolding fits18_def by (metis Ints_mult Ints_of_int)
qed

section \<open>Revalidation\<close>

lemma orElse_None [simp]: "orElse a b = None \<longleftrightarrow> a = None \<and> b = None"
  by (auto simp: orElse_def split: option.splits)

lemma validateNumbers_None:
  "validateNumbers r rules book q = None \<longleftrightarrow>
   (\<exists>limit quantity. SetString (TrimSpace (q_LimitPrice q)) = Some limit \<and> SetString (TrimSpace (q_BaseQty q)) = Some quantity \<and>
      legalOrder rules limit quantity \<and> (rt_Side r = SideBuy \<longrightarrow> pb_bestAsk book \<le> limit) \<and> (rt_Side r = SideSell \<longrightarrow> limit \<le> pb_bestBid book))"
proof -
  have pos: "(\<exists>x. positiveDecimal n raw = Inr x \<and> P x) \<longleftrightarrow> (\<exists>x. SetString (TrimSpace raw) = Some x \<and> 0 < x \<and> P x)" for n raw P
    by (simp add: decimal_iff)
  have "validateNumbers r rules book q = None \<longleftrightarrow>
    (\<exists>limit. positiveDecimal ''quote limit price'' (q_LimitPrice q) = Inr limit \<and> (\<exists>quantity.
      positiveDecimal ''quote base quantity'' (q_BaseQty q) = Inr quantity \<and>
      floorToStep limit (pr_tick rules) = limit \<and> floorToStep quantity (pr_step rules) = quantity \<and> pr_minimumQuantity rules \<le> quantity \<and>
      (case pr_maximumQuantity rules of None \<Rightarrow> True | Some m \<Rightarrow> quantity \<le> m) \<and>
      (case pr_minimumNotional rules of None \<Rightarrow> True | Some m \<Rightarrow> m \<le> quantity * limit) \<and>
      (rt_Side r = SideBuy \<longrightarrow> pb_bestAsk book \<le> limit) \<and> (rt_Side r = SideSell \<longrightarrow> limit \<le> pb_bestBid book)))"
    unfolding validateNumbers_def by (auto split: sum.splits if_splits option.splits simp: not_less)
  then show ?thesis unfolding pos legalOrder_def by blast
qed

lemma validateFunds_None:
  "validateFunds provider r q = None \<longleftrightarrow>
   (\<exists>debit capacity available. SetString (TrimSpace (q_SourceDebitUpperBound q)) = Some debit \<and> 0 < debit \<and>
      pv_Available provider r (rt_FromAsset r) = Inr capacity \<and>
      nonNegativeDecimal ''available to trade'' (cy_Available capacity) = Inr available \<and> debit \<le> available)"
proof -
  have "validateFunds provider r q = None \<longleftrightarrow>
   (\<exists>debit capacity available. positiveDecimal ''source debit upper bound'' (q_SourceDebitUpperBound q) = Inr debit \<and>
      pv_Available provider r (rt_FromAsset r) = Inr capacity \<and>
      nonNegativeDecimal ''available to trade'' (cy_Available capacity) = Inr available \<and> debit \<le> available)"
    unfolding validateFunds_def by (auto split: sum.splits if_splits)
  then show ?thesis by (simp only: positiveDecimal_Inr) blast
qed

text \<open>Everything \<open>ValidateForConfirm\<close> has established when it accepts a quote.\<close>

definition quoteStillGood :: "QuoteService \<Rightarrow> time \<Rightarrow> QuickTradeQuote \<Rightarrow> Route \<Rightarrow> Provider \<Rightarrow> MarketSnapshot \<Rightarrow> parsedRules \<Rightarrow> parsedBook \<Rightarrow> rat \<Rightarrow> bool" where
  "quoteStillGood s now q r provider market rules book spend \<longleftrightarrow>
     q_Executable q \<and> now < q_ExpiresAt q \<and> gget supportedRoutes (q_RouteID q) = Some r \<and>
     rt_Venue r = q_Venue q \<and> rt_Instrument r = q_Instrument q \<and> rt_FromAsset r = q_FromAsset q \<and> rt_ToAsset r = q_ToAsset q \<and>
     rt_Side r = q_Side q \<and> gget (qs_Providers s) (rt_Venue r) = Some provider \<and>
     SetString (TrimSpace (q_SpendBudget q)) = Some spend \<and> 0 < spend \<and> validateCap (qs_Caps s) r spend = None \<and>
     pv_Market provider r = Inr market \<and> parseRules r (ms_Rules market) = Inr rules \<and>
     ir_MetadataRevision (ms_Rules market) \<noteq> [] \<and> ir_MetadataRevision (ms_Rules market) = q_MetadataRevision q \<and>
     parseBook market now (qs_BookMaxAge s) = Inr book \<and>
     validateNumbers r rules book q = None \<and> validateFunds provider r q = None \<and> validateFee provider r q = None"

lemma ValidateForConfirm_None:
  "ValidateForConfirm s now q = None \<longleftrightarrow> (\<exists>r provider market rules book spend. quoteStillGood s now q r provider market rules book spend)"
proof
  assume "ValidateForConfirm s now q = None"
  then show "\<exists>r provider market rules book spend. quoteStillGood s now q r provider market rules book spend"
    unfolding ValidateForConfirm_def quoteStillGood_def
    by (auto simp: decimal_iff Before_def split: if_splits option.splits sum.splits)
next
  assume "\<exists>r provider market rules book spend. quoteStillGood s now q r provider market rules book spend"
  then obtain r provider market rules book spend where g: "quoteStillGood s now q r provider market rules book spend" by blast
  then have "positiveDecimal ''spend budget'' (q_SpendBudget q) = Inr spend" by (simp add: quoteStillGood_def decimal_iff)
  then show "ValidateForConfirm s now q = None" using g
    unfolding quoteStillGood_def ValidateForConfirm_def Before_def by (elim conjE) simp
qed

lemma feeEstimate_fees:
  assumes "feeEstimate provider r fee rate filled gross limit = Inr (fees, reserves, net)"
  shows "\<exists>f. fees = [f] \<and> qf_Source f = fp_Source fee"
    and "fp_ChargeAsset fee = ''third'' \<Longrightarrow> \<exists>third capacity available. SetString (TrimSpace (fp_ThirdAssetAmount fee)) = Some third \<and> 0 < third \<and>
      reserves = [\<lparr>ar_Asset = ToUpper (fp_ThirdAsset fee), ar_Amount = decimalString third\<rparr>] \<and>
      pv_Available provider r (fp_ThirdAsset fee) = Inr capacity \<and>
      SetString (TrimSpace (cy_Available capacity)) = Some available \<and> third \<le> available"
  using assms by (auto simp: feeEstimate_def Let_def decimal_iff split: if_splits sum.splits)

lemma supportedRoutes_ID: "gget supportedRoutes i = Some r \<Longrightarrow> gget supportedRoutes (rt_ID r) = Some r"
proof -
  assume g: "gget supportedRoutes i = Some r"
  have "\<forall>(k, x) \<in> set supportedRoutes. rt_ID x = k" by (simp add: supportedRoutes_def route_def)
  then have "rt_ID r = i" using gget_SomeD [OF g] by auto
  then show ?thesis using g by simp
qed

lemma adjacent_desc:
  fixes ls :: "parsedLevel list"
  shows "adjacent (\<lambda>a c. fst c \<le> fst a) ls \<Longrightarrow> x \<in> set ls \<Longrightarrow> fst x \<le> fst (hd ls)"
proof (induction ls)
  case (Cons a ls)
  then show ?case by (cases ls) (auto intro: order.trans)
qed simp

lemma validateFee_fresh:
  assumes "pv_Fee provider r = Inr fee" "parseFeePolicy fee = Inr rate" "fits18 rate"
    and "feeEstimate provider r fee rate filled gross limit = Inr (fees, reserves, net)"
    and "q_FeeRate q = decimalString rate" "q_FeeChargeAsset q = fp_ChargeAsset fee" "q_EstimatedFees q = fees" "q_ThirdAssetReserves q = reserves"
    and third: "fp_ChargeAsset fee = ''third'' \<Longrightarrow> \<exists>v. fits18 v \<and> fp_ThirdAssetAmount fee = decimalString v"
  shows "validateFee provider r q = None"
proof -
  obtain f where f: "fees = [f]" "qf_Source f = fp_Source fee" using feeEstimate_fees(1) [OF assms(4)] by blast
  have rate: "nonNegativeDecimal ''quoted fee rate'' (q_FeeRate q) = Inr rate"
    using decimalString_reads [OF assms(3)] parseFeePolicy_bounds [OF assms(2)] assms(5) by (simp add: decimal_iff)
  show ?thesis
  proof (cases "fp_ChargeAsset fee = ''third''")
    case False
    then show ?thesis using assms rate f by (simp add: validateFee_def)
  next
    case True
    obtain t capacity available where t: "SetString (TrimSpace (fp_ThirdAssetAmount fee)) = Some t" "0 < t"
      "reserves = [\<lparr>ar_Asset = ToUpper (fp_ThirdAsset fee), ar_Amount = decimalString t\<rparr>]"
      "pv_Available provider r (fp_ThirdAsset fee) = Inr capacity"
      "SetString (TrimSpace (cy_Available capacity)) = Some available" "t \<le> available"
      using feeEstimate_fees(2) [OF assms(4) True] by blast
    obtain v where v: "fits18 v" "fp_ThirdAssetAmount fee = decimalString v" using third [OF True] by blast
    have "t = v" using t(1) decimalString_reads [OF v(1)] v(2) by simp
    moreover have "nonNegativeDecimal ''fee asset capacity'' (cy_Available capacity) = Inr available"
      "positiveDecimal ''fee asset reserve'' (fp_ThirdAssetAmount fee) = Inr t" using t by (simp_all add: decimal_iff)
    ultimately show ?thesis using assms rate f t v by (simp add: validateFee_def)
  qed
qed

section \<open>Example data\<close>

definition sampleMarket :: MarketSnapshot where
  "sampleMarket = \<lparr>ms_Rules = \<lparr>ir_Instrument = ''BTCUSDT'', ir_BaseAsset = ''BTC'', ir_QuoteAsset = ''USDT'', ir_TickSize = ''1'',
       ir_QuantityStep = ''1'', ir_MinimumQuantity = ''1'', ir_MinimumNotional = [], ir_MaximumQuantity = [], ir_MetadataRevision = ''m''\<rparr>,
     ms_Bids = [\<lparr>bl_Price = ''4'', bl_Quantity = ''7''\<rparr>], ms_Asks = [\<lparr>bl_Price = ''5'', bl_Quantity = ''1''\<rparr>], ms_ObservedAt = 9\<rparr>"

definition sampleFee :: "string \<Rightarrow> string \<Rightarrow> FeePolicy" where
  "sampleFee charge amount = \<lparr>fp_Rate = ''0'', fp_ChargeAsset = charge, fp_ThirdAsset = ''X'', fp_ThirdAssetAmount = amount, fp_Source = ''v''\<rparr>"

definition sampleProvider :: "FeePolicy \<Rightarrow> Provider" where
  "sampleProvider fee = \<lparr>pv_Market = (\<lambda>_. Inr sampleMarket),
     pv_Available = (\<lambda>_ _. Inr \<lparr>cy_Available = ''99'', cy_AccountRevision = 1, cy_ObservedAt = 9\<rparr>), pv_Fee = (\<lambda>_. Inr fee)\<rparr>"

definition sampleQuotes :: "FeePolicy \<Rightarrow> QuoteService" where
  "sampleQuotes fee = \<lparr>qs_Providers = [(VenueBybit, sampleProvider fee)], qs_TTL = 30, qs_BookMaxAge = 20, qs_SlippageBPS = 50,
     qs_Caps = \<lparr>cp_ByAsset = [(''USDT'', ''50'')], cp_ByVenueSource = [(''bybit:USDT'', ''50'')]\<rparr>\<rparr>"

definition sampleCreate :: CreateRequest where
  "sampleCreate = \<lparr>cr_Identity = ''a'', cr_Venue = VenueBybit, cr_RouteID = ''bybit-usdt-btc'', cr_SpendBudget = ''11'', cr_AccountAlias = ''m''\<rparr>"

definition sampleRoute :: Route where
  "sampleRoute = snd (route ''bybit-usdt-btc'' VenueBybit ''BTCUSDT'' ''BTC'' ''USDT'' ''USDT'' ''BTC'' SideBuy)"

definition sampleRules :: parsedRules where
  "sampleRules = \<lparr>pr_tick = 1, pr_step = 1, pr_minimumQuantity = 1, pr_minimumNotional = None, pr_maximumQuantity = None\<rparr>"

definition sampleBook :: parsedBook where
  "sampleBook = \<lparr>pb_bestBid = 4, pb_bestAsk = 5, pb_bids = [(4, 7)], pb_asks = [(5, 1)]\<rparr>"

lemma sample_parses:
  "gget supportedRoutes ''bybit-usdt-btc'' = Some sampleRoute" "SetString (TrimSpace ''11'') = Some 11"
  "validateCap (qs_Caps (sampleQuotes f)) sampleRoute 11 = None" "parseRules sampleRoute (ms_Rules sampleMarket) = Inr sampleRules"
  "parseBook sampleMarket 10 20 = Inr sampleBook" "parseBook sampleMarket 12 20 = Inr sampleBook"
  "parseFeePolicy (sampleFee ''to'' []) = Inr 0" "parseFeePolicy (sampleFee ''third'' ''1.0'') = Inr 0"
  by code_simp+

lemma sampleInputs:
  assumes "parseFeePolicy f = Inr 0"
  shows "quoteInputs (sampleQuotes f) 10 sampleCreate sampleRoute (sampleProvider f) sampleMarket sampleRules sampleBook f 0 11"
  using assms sample_parses
  by (simp add: quoteInputs_def sampleCreate_def sampleQuotes_def sampleProvider_def) (simp add: sampleRoute_def route_def)

lemma sampleQuote_made:
  obtains q where "Create (sampleQuotes (sampleFee ''to'' [])) 10 (Inr ''q'') sampleCreate = Inr q" "q_Executable q"
proof -
  have "case Create (sampleQuotes (sampleFee ''to'' [])) 10 (Inr ''q'') sampleCreate of Inl _ \<Rightarrow> False | Inr q \<Rightarrow> q_Executable q"
    by code_simp
  then show thesis using that by (auto split: sum.splits)
qed

lemma thirdQuote_made:
  obtains q where "Create (sampleQuotes (sampleFee ''third'' ''1.0'')) 10 (Inr ''q'') sampleCreate = Inr q" "q_Executable q"
proof -
  have "case Create (sampleQuotes (sampleFee ''third'' ''1.0'')) 10 (Inr ''q'') sampleCreate of Inl _ \<Rightarrow> False | Inr q \<Rightarrow> q_Executable q"
    by code_simp
  then show thesis using that by (auto split: sum.splits)
qed

lemma fits18_of_int: "fits18 (of_int n)"
proof -
  have "of_int n * 10 ^ 18 = (of_int (n * 10 ^ 18) :: rat)" by (simp only: of_int_mult of_int_power of_int_numeral)
  then show ?thesis unfolding fits18_def by (metis Ints_of_int)
qed

lemmas fits18_small = fits18_of_int [of 0, simplified] fits18_of_int [of 1, simplified]
  fits18_of_int [of 10, simplified] fits18_of_int [of 11, simplified]

section \<open>Properties\<close>

text \<open>
  C3. An executable quote is safe for the user and legal for the venue. Its limit price is marketable
  and at most the configured basis points away from the best price; price and quantity are multiples
  of the venue's tick and step within its minimum and maximum; and filling it completely at the limit,
  fees included, debits at most the user's budget, at most each configured cap and at most the funds
  available, while one more step of quantity would exceed the budget.
\<close>

theorem Create_quote_safe:
  assumes "Create s now newID req = Inr q" "q_Executable q"
  shows "\<exists>r provider market rules book fee rate spend limit quantity capacity available.
    quoteInputs s now req r provider market rules book fee rate spend \<and>
    q_LimitPrice q = decimalString limit \<and> q_BaseQty q = decimalString quantity \<and>
    q_SourceDebitUpperBound q = decimalString (sourceDebitUpperBound (rt_Side r) quantity limit (fp_ChargeAsset fee) rate) \<and>
    withinProtection (rt_Side r) (pb_bestBid book) (pb_bestAsk book) (qs_SlippageBPS s) limit \<and>
    legalOrder rules limit quantity \<and>
    sourceDebitUpperBound (rt_Side r) quantity limit (fp_ChargeAsset fee) rate \<le> spend \<and>
    spend < sourceDebitUpperBound (rt_Side r) (quantity + pr_step rules) limit (fp_ChargeAsset fee) rate \<and>
    pv_Available provider r (rt_FromAsset r) = Inr capacity \<and>
    SetString (TrimSpace (cy_Available capacity)) = Some available \<and>
    sourceDebitUpperBound (rt_Side r) quantity limit (fp_ChargeAsset fee) rate \<le> available \<and>
    q_ExpiresAt q = now + qs_TTL s"
proof -
  obtain r provider market rules book fee rate spend limit quantity where
    i: "quoteInputs s now req r provider market rules book fee rate spend"
    and z: "sizeOrder r rules book (fp_ChargeAsset fee) rate (qs_SlippageBPS s) spend = Inr (limit, quantity)"
    and b: "buildQuote s provider req r market book fee rate spend limit quantity now newID = Inr q"
    using assms by (rule Create_executable)
  note sized = quoteInputs_sized [OF i z]
  from b show ?thesis
  proof (cases rule: buildQuote_ok)
    case (1 capacity available fees reserves net)
    have "SetString (TrimSpace (cy_Available capacity)) = Some available" using 1(2) by (simp add: decimal_iff)
    then show ?thesis using i sized 1(1,3,15-17,24) unfolding Add_def by blast
  qed
qed

theorem Create_quote_safe_witness:
  "\<exists>q limit. Create (sampleQuotes (sampleFee ''to'' [])) 10 (Inr ''q'') sampleCreate = Inr q \<and>
     q_LimitPrice q = decimalString limit \<and> withinProtection SideBuy 4 5 50 limit \<and> q_ExpiresAt q = 40"
proof -
  obtain q where q: "Create (sampleQuotes (sampleFee ''to'' [])) 10 (Inr ''q'') sampleCreate = Inr q" "q_Executable q"
    by (rule sampleQuote_made)
  obtain r provider market rules book fee rate spend limit where
    h: "quoteInputs (sampleQuotes (sampleFee ''to'' [])) 10 sampleCreate r provider market rules book fee rate spend"
    "q_LimitPrice q = decimalString limit" "withinProtection (rt_Side r) (pb_bestBid book) (pb_bestAsk book) 50 limit" "q_ExpiresAt q = 10 + 30"
    using Create_quote_safe [OF q] by (auto simp: sampleQuotes_def)
  have "rt_Side r = SideBuy" "book = sampleBook"
    using h(1) sampleInputs [OF sample_parses(7)] by (auto simp: quoteInputs_def sampleRoute_def route_def)
  then show ?thesis using q h by (auto simp: sampleBook_def)
qed

text \<open>
  The depth estimate is exact: of the quantity asked for, the part counted as executable is the
  smaller of it and the visible depth within the limit; a buyer receives that quantity, and a seller's
  estimated proceeds lie between it valued at the limit and at the best bid.
\<close>

theorem executableEstimate_exact:
  assumes "parseBook market now maxAge = Inr book" "0 < requested" "side = SideBuy \<or> side = SideSell"
  shows "fst (executableEstimate side requested limit book) =
      min requested (depthWithin side limit (if side = SideSell then pb_bids book else pb_asks book)) \<and>
    (side = SideBuy \<longrightarrow> snd (executableEstimate side requested limit book) = fst (executableEstimate side requested limit book)) \<and>
    (side = SideSell \<longrightarrow>
      limit * fst (executableEstimate side requested limit book) \<le> snd (executableEstimate side requested limit book) \<and>
      snd (executableEstimate side requested limit book) \<le> pb_bestBid book * fst (executableEstimate side requested limit book))"
proof -
  have ok: "bookOk book" by (rule parseBook_ok [OF assms(1)])
  let ?ls = "if side = SideSell then pb_bids book else pb_asks book"
  have pos: "\<forall>(p, q) \<in> set ?ls. 0 < p \<and> 0 < q" using ok by (auto simp: bookOk_def)
  have best: "\<forall>(p, q) \<in> set ?ls. side = SideSell \<longrightarrow> p \<le> pb_bestBid book"
    using ok adjacent_desc [of "pb_bids book"] by (fastforce simp: bookOk_def)
  have "fillSpec side limit (pb_bestBid book) requested 0 0 ?ls (fillLevels side limit requested 0 0 ?ls)"
    by (rule fillLevels_spec [OF assms(2) pos best])
  then show ?thesis using assms(3) by (auto simp: fillSpec_def executableEstimate_def Let_def case_prod_beta)
qed

theorem executableEstimate_exact_witness:
  "fst (executableEstimate SideBuy 2 5 sampleBook) = min 2 (depthWithin SideBuy 5 [(5, 1)]) \<and> depthWithin SideBuy 5 [(5, 1)] = 1"
proof -
  have "depthWithin SideBuy 5 [(5, 1)] = 1" by code_simp
  then show ?thesis using executableEstimate_exact [OF sample_parses(5), of 2 SideBuy 5] by (simp add: sampleBook_def)
qed

text \<open>
  What \<open>Create\<close> offers, \<open>ValidateForConfirm\<close> accepts: as long as the venue answers as it did, the
  quote has not expired and the book is still fresh, revalidating an executable quote succeeds, when
  the venue's tick, step and fee numbers have at most 18 decimals and a third-asset fee is written in
  canonical form.
\<close>

theorem Create_then_ValidateForConfirm:
  assumes "Create s now newID req = Inr q" "q_Executable q"
    and i: "quoteInputs s now req r provider market rules book fee rate spend"
    and z: "sizeOrder r rules book (fp_ChargeAsset fee) rate (qs_SlippageBPS s) spend = Inr (limit, quantity)"
    and later: "now' < now + qs_TTL s" "parseBook market now' (qs_BookMaxAge s) = Inr book" "ir_MetadataRevision (ms_Rules market) \<noteq> []"
    and fit: "fits18 (pr_tick rules)" "fits18 (pr_step rules)" "fits18 spend" "fits18 rate"
      "fits18 (sourceDebitUpperBound (rt_Side r) quantity limit (fp_ChargeAsset fee) rate)"
    and third: "fp_ChargeAsset fee = ''third'' \<longrightarrow> (\<exists>v. fits18 v \<and> fp_ThirdAssetAmount fee = decimalString v)"
  shows "ValidateForConfirm s now' q = None"
proof -
  obtain r0 provider0 market0 rules0 book0 fee0 rate0 spend0 limit0 quantity0 where
    i0: "quoteInputs s now req r0 provider0 market0 rules0 book0 fee0 rate0 spend0"
    and z0: "sizeOrder r0 rules0 book0 (fp_ChargeAsset fee0) rate0 (qs_SlippageBPS s) spend0 = Inr (limit0, quantity0)"
    and b0: "buildQuote s provider0 req r0 market0 book0 fee0 rate0 spend0 limit0 quantity0 now newID = Inr q"
    using assms(1,2) by (rule Create_executable)
  have same: "r0 = r" "provider0 = provider" "market0 = market" "rules0 = rules" "book0 = book" "fee0 = fee" "rate0 = rate" "spend0 = spend"
    using i i0 by (auto simp: quoteInputs_def)
  have lq: "limit0 = limit" "quantity0 = quantity" using z z0 same by auto
  note sized = quoteInputs_sized [OF i z]
  from b0 [unfolded same lq] show ?thesis
  proof (cases rule: buildQuote_ok)
    case (1 capacity available fees reserves net)
    have l: "legalOrder rules limit quantity" by (rule sized(2))
    have rd: "SetString (TrimSpace (q_LimitPrice q)) = Some limit" "SetString (TrimSpace (q_BaseQty q)) = Some quantity"
      using l decimalString_reads fits18_multiple [OF fit(1)] fits18_multiple [OF fit(2)] 1(15,16) by (auto simp: legalOrder_def)
    have "rt_Side r = SideBuy \<longrightarrow> pb_bestAsk book \<le> limit" "rt_Side r = SideSell \<longrightarrow> limit \<le> pb_bestBid book"
      using sized(1) by (auto simp: withinProtection_def)
    then have numbers: "validateNumbers r rules book q = None" using rd l by (auto simp: validateNumbers_None)
    have rate: "0 \<le> rate" using i parseFeePolicy_bounds by (auto simp: quoteInputs_def)
    have "0 < sourceDebitUpperBound (rt_Side r) quantity limit (fp_ChargeAsset fee) rate"
      using l rate by (auto simp: legalOrder_def sourceDebitUpperBound_def Let_def intro!: mult_pos_pos add_pos_nonneg)
    then have funds: "validateFunds provider r q = None"
      using decimalString_reads [OF fit(5)] 1(1-3,17) by (auto simp: validateFunds_None)
    have "validateFee provider r q = None"
      by (rule validateFee_fresh [OF _ _ fit(4) 1(4) 1(18-21)]) (use i third in \<open>auto simp: quoteInputs_def\<close>)
    moreover have "gget supportedRoutes (q_RouteID q) = Some r"
      using i supportedRoutes_ID 1(8) by (auto simp: quoteInputs_def)
    ultimately have "quoteStillGood s now' q r provider market rules book spend"
      using i numbers funds later decimalString_reads [OF fit(3)] 1(6,9-14,22,24)
      unfolding quoteStillGood_def quoteInputs_def Add_def by auto
    then show ?thesis using ValidateForConfirm_None by blast
  qed
qed

theorem Create_then_ValidateForConfirm_witness:
  "\<exists>q. Create (sampleQuotes (sampleFee ''to'' [])) 10 (Inr ''q'') sampleCreate = Inr q \<and>
     ValidateForConfirm (sampleQuotes (sampleFee ''to'' [])) 12 q = None"
proof -
  obtain q where q: "Create (sampleQuotes (sampleFee ''to'' [])) 10 (Inr ''q'') sampleCreate = Inr q" "q_Executable q"
    by (rule sampleQuote_made)
  have z: "sizeOrder sampleRoute sampleRules sampleBook (fp_ChargeAsset (sampleFee ''to'' [])) 0 (qs_SlippageBPS (sampleQuotes (sampleFee ''to'' []))) 11
      = Inr (5, 2)" by code_simp
  have d: "sourceDebitUpperBound (rt_Side sampleRoute) 2 5 (fp_ChargeAsset (sampleFee ''to'' [])) 0 = 10" by code_simp
  have "ValidateForConfirm (sampleQuotes (sampleFee ''to'' [])) 12 q = None"
    by (rule Create_then_ValidateForConfirm [OF q sampleInputs [OF sample_parses(7)] z])
      (use sample_parses(6) fits18_small d in \<open>auto simp: sampleQuotes_def sampleMarket_def sampleRules_def sampleFee_def\<close>)
  then show ?thesis using q by blast
qed

text \<open>
  A quote whose fee is charged in a third asset can never be confirmed when the venue writes the
  reserve amount in a form other than the canonical one (such as \<open>1.0\<close>): the stored reserve is the
  canonical text, revalidation compares it with the venue's own text and always reports a change.
\<close>

theorem third_asset_text_never_confirms:
  assumes "Create s now newID req = Inr q" "q_Executable q"
    and "quoteInputs s now req r provider market rules book fee rate spend" "fp_ChargeAsset fee = ''third''"
    and "SetString (TrimSpace (fp_ThirdAssetAmount fee)) = Some v" "fp_ThirdAssetAmount fee \<noteq> decimalString v"
  shows "ValidateForConfirm s now' q \<noteq> None"
proof
  assume ok: "ValidateForConfirm s now' q = None"
  obtain r0 provider0 market0 rules0 book0 fee0 rate0 spend0 limit quantity where
    i0: "quoteInputs s now req r0 provider0 market0 rules0 book0 fee0 rate0 spend0"
    and b0: "buildQuote s provider0 req r0 market0 book0 fee0 rate0 spend0 limit quantity now newID = Inr q"
    using assms(1,2) by (rule Create_executable)
  have same: "r0 = r" "provider0 = provider" "fee0 = fee" "rate0 = rate" "book0 = book" using assms(3) i0 by (auto simp: quoteInputs_def)
  from b0 [unfolded same] show False
  proof (cases rule: buildQuote_ok)
    case (1 capacity available fees reserves net)
    have t: "q_ThirdAssetReserves q = [\<lparr>ar_Asset = ToUpper (fp_ThirdAsset fee), ar_Amount = decimalString v\<rparr>]"
      using feeEstimate_fees(2) [OF 1(4) assms(4)] assms(5) 1(21) by auto
    obtain r1 p1 m1 ru1 bo1 sp1 where "quoteStillGood s now' q r1 p1 m1 ru1 bo1 sp1"
      using ok by (auto simp: ValidateForConfirm_None)
    moreover have "gget supportedRoutes (q_RouteID q) = Some r" "gget (qs_Providers s) (rt_Venue r) = Some provider" "pv_Fee provider r = Inr fee"
      using assms(3) supportedRoutes_ID 1(8) by (auto simp: quoteInputs_def)
    ultimately have "validateFee provider r q = None" by (auto simp: quoteStillGood_def)
    then show False using assms(4,6) \<open>pv_Fee provider r = Inr fee\<close> t
      by (auto simp: validateFee_def split: if_splits)
  qed
qed

theorem third_asset_text_never_confirms_witness:
  "\<exists>q. Create (sampleQuotes (sampleFee ''third'' ''1.0'')) 10 (Inr ''q'') sampleCreate = Inr q \<and> q_Executable q \<and>
     ValidateForConfirm (sampleQuotes (sampleFee ''third'' ''1.0'')) 10 q \<noteq> None"
proof -
  obtain q where q: "Create (sampleQuotes (sampleFee ''third'' ''1.0'')) 10 (Inr ''q'') sampleCreate = Inr q" "q_Executable q"
    by (rule thirdQuote_made)
  have v: "SetString (TrimSpace (fp_ThirdAssetAmount (sampleFee ''third'' ''1.0''))) = Some 1" by code_simp
  have n: "fp_ThirdAssetAmount (sampleFee ''third'' ''1.0'') \<noteq> decimalString 1" by code_simp
  have c: "fp_ChargeAsset (sampleFee ''third'' ''1.0'') = ''third''" by (simp add: sampleFee_def)
  show ?thesis
    using third_asset_text_never_confirms [OF q sampleInputs [OF sample_parses(8)] c v n, of 10] q by blast
qed

text \<open>
  Revalidation before confirming is complete: when it accepts, the quote has not expired, its price
  and quantity as written are legal under the venue's current rules, the limit is marketable against
  the current book, the spend is within the caps and the debit within the funds available now.
\<close>

theorem ValidateForConfirm_sound:
  assumes "ValidateForConfirm s now q = None"
  shows "q_Executable q \<and> now < q_ExpiresAt q \<and>
    (\<exists>r provider market rules book limit quantity debit capacity available spend.
      gget supportedRoutes (q_RouteID q) = Some r \<and> rt_Side r = q_Side q \<and> gget (qs_Providers s) (rt_Venue r) = Some provider \<and>
      pv_Market provider r = Inr market \<and> parseRules r (ms_Rules market) = Inr rules \<and> parseBook market now (qs_BookMaxAge s) = Inr book \<and>
      SetString (TrimSpace (q_LimitPrice q)) = Some limit \<and> SetString (TrimSpace (q_BaseQty q)) = Some quantity \<and>
      legalOrder rules limit quantity \<and>
      (rt_Side r = SideBuy \<longrightarrow> pb_bestAsk book \<le> limit) \<and> (rt_Side r = SideSell \<longrightarrow> limit \<le> pb_bestBid book) \<and>
      SetString (TrimSpace (q_SourceDebitUpperBound q)) = Some debit \<and>
      pv_Available provider r (rt_FromAsset r) = Inr capacity \<and> SetString (TrimSpace (cy_Available capacity)) = Some available \<and>
      debit \<le> available \<and> SetString (TrimSpace (q_SpendBudget q)) = Some spend \<and> validateCap (qs_Caps s) r spend = None)"
proof -
  obtain r provider market rules book spend where g: "quoteStillGood s now q r provider market rules book spend"
    using assms by (auto simp: ValidateForConfirm_None)
  have n: "validateNumbers r rules book q = None" and f: "validateFunds provider r q = None" using g by (auto simp: quoteStillGood_def)
  obtain limit quantity where n': "SetString (TrimSpace (q_LimitPrice q)) = Some limit" "SetString (TrimSpace (q_BaseQty q)) = Some quantity"
    "legalOrder rules limit quantity" "rt_Side r = SideBuy \<longrightarrow> pb_bestAsk book \<le> limit" "rt_Side r = SideSell \<longrightarrow> limit \<le> pb_bestBid book"
    using n unfolding validateNumbers_None by blast
  obtain debit capacity available where f': "SetString (TrimSpace (q_SourceDebitUpperBound q)) = Some debit"
    "pv_Available provider r (rt_FromAsset r) = Inr capacity" "SetString (TrimSpace (cy_Available capacity)) = Some available" "debit \<le> available"
    using f unfolding validateFunds_None by (auto simp: decimal_iff)
  show ?thesis using g n' f' unfolding quoteStillGood_def by blast
qed

theorem ValidateForConfirm_sound_witness:
  "\<exists>q limit. Create (sampleQuotes (sampleFee ''to'' [])) 10 (Inr ''q'') sampleCreate = Inr q \<and>
     ValidateForConfirm (sampleQuotes (sampleFee ''to'' [])) 10 q = None \<and> SetString (TrimSpace (q_LimitPrice q)) = Some limit"
proof -
  obtain q where q: "Create (sampleQuotes (sampleFee ''to'' [])) 10 (Inr ''q'') sampleCreate = Inr q" "q_Executable q"
    by (rule sampleQuote_made)
  have "case Create (sampleQuotes (sampleFee ''to'' [])) 10 (Inr ''q'') sampleCreate of Inl _ \<Rightarrow> False
    | Inr q \<Rightarrow> ValidateForConfirm (sampleQuotes (sampleFee ''to'' [])) 10 q = None" by code_simp
  then have v: "ValidateForConfirm (sampleQuotes (sampleFee ''to'' [])) 10 q = None" using q(1) by simp
  then show ?thesis using ValidateForConfirm_sound [OF v] q(1) by blast
qed

end
