(* ===== verification/AppProps.thy ===== *)
theory AppProps
  imports ConfirmRuns QuoteProps
begin

text \<open>
  What the quick trade application guarantees: the quote cache is a bounded first-in first-out store
  that never hands out an expired quote or another user's, and over any run of concurrent confirmations no quote and no request is
  ever submitted to a venue twice, each submission being preceded by its durable record.
\<close>

section \<open>The quote cache\<close>

definition cacheInv :: "QuoteCache \<Rightarrow> bool" where
  "cacheInv c \<longleftrightarrow> 0 < qc_max c \<and> gwf (qc_quotes c) \<and> distinct (qc_order c) \<and>
     set (qc_order c) = fst ` set (qc_quotes c) \<and> int (length (qc_quotes c)) \<le> qc_max c"

definition liveAt :: "time \<Rightarrow> (string, QuickTradeQuote) gomap \<Rightarrow> string \<Rightarrow> bool" where
  "liveAt now quotes i \<longleftrightarrow> (case gget quotes i of None \<Rightarrow> False | Some q \<Rightarrow> Before now (q_ExpiresAt q))"

lemma gget_dom: "gget m k \<noteq> None \<longleftrightarrow> k \<in> fst ` set m"
  by (simp add: map_of_eq_None_iff)

lemma liveAt_gdel: "i \<noteq> j \<Longrightarrow> liveAt now (gdel j m) i = liveAt now m i"
  by (simp add: liveAt_def gomap_simps)

lemma pruneLoop_spec:
  assumes "distinct order" "gwf quotes" "pruneLoop now quotes order = (quotes', kept)"
  shows "gwf quotes' \<and> kept = filter (liveAt now quotes) order \<and>
    (\<forall>j. gget quotes' j = (if j \<in> set order \<and> \<not> liveAt now quotes j then None else gget quotes j))"
  using assms
proof (induction order arbitrary: quotes quotes' kept)
  case Nil
  then show ?case by simp
next
  case (Cons i order)
  have d: "i \<notin> set order" "distinct order" using Cons.prems(1) by auto
  show ?case
  proof (cases "gget quotes i")
    case None
    then have "\<not> liveAt now quotes i" by (simp add: liveAt_def)
    moreover have "pruneLoop now quotes order = (quotes', kept)" using Cons.prems(3) None by simp
    note ih = Cons.IH [OF d(2) Cons.prems(2) this]
    have "gget quotes' j = (if j \<in> set (i # order) \<and> \<not> liveAt now quotes j then None else gget quotes j)" for j
      using ih None by (cases "j = i") simp_all
    ultimately show ?thesis using ih by simp
  next
    case (Some q)
    show ?thesis
    proof (cases "Before now (q_ExpiresAt q)")
      case True
      then obtain kept' where k: "pruneLoop now quotes order = (quotes', kept')" "kept = i # kept'"
        using Cons.prems(3) Some by (auto split: prod.splits)
      have l: "liveAt now quotes i" using Some True by (simp add: liveAt_def)
      note ih = Cons.IH [OF d(2) Cons.prems(2) k(1)]
      have "gget quotes' j = (if j \<in> set (i # order) \<and> \<not> liveAt now quotes j then None else gget quotes j)" for j
        using ih l by (cases "j = i") simp_all
      then show ?thesis using ih k(2) l by simp
    next
      case False
      then have p: "pruneLoop now (gdel i quotes) order = (quotes', kept)" using Cons.prems(3) Some by simp
      have l: "\<not> liveAt now quotes i" using Some False by (simp add: liveAt_def)
      have same: "liveAt now (gdel i quotes) j = liveAt now quotes j" if "j \<in> set order" for j
        using that d(1) by (intro liveAt_gdel) auto
      have "gwf (gdel i quotes)" using Cons.prems(2) by simp
      note ih = Cons.IH [OF d(2) this p]
      have "filter (liveAt now (gdel i quotes)) order = filter (liveAt now quotes) order" by (rule filter_cong) (use same in auto)
      then have "kept = filter (liveAt now quotes) order" using ih by simp
      moreover have "gget quotes' j = (if j \<in> set (i # order) \<and> \<not> liveAt now quotes j then None else gget quotes j)" for j
      proof (cases "j = i")
        case True
        then show ?thesis using ih l d(1) by (simp add: gomap_simps)
      next
        case False
        then show ?thesis using ih liveAt_gdel [of j i now quotes] by (simp add: gomap_simps)
      qed
      ultimately show ?thesis using ih l by simp
    qed
  qed
qed

lemma prune_inv:
  assumes "cacheInv c"
  shows "cacheInv (QuoteCache_prune now c)" "qc_max (QuoteCache_prune now c) = qc_max c"
    "qc_order (QuoteCache_prune now c) = filter (liveAt now (qc_quotes c)) (qc_order c)"
    "gget (qc_quotes (QuoteCache_prune now c)) j = (if liveAt now (qc_quotes c) j then gget (qc_quotes c) j else None)"
proof -
  obtain q' k' where p: "pruneLoop now (qc_quotes c) (qc_order c) = (q', k')" by (cases "pruneLoop now (qc_quotes c) (qc_order c)")
  have inv: "distinct (qc_order c)" "gwf (qc_quotes c)" "set (qc_order c) = fst ` set (qc_quotes c)"
    "0 < qc_max c" "int (length (qc_quotes c)) \<le> qc_max c" using assms by (auto simp: cacheInv_def)
  note sp = pruneLoop_spec [OF inv(1,2) p]
  have g: "gget q' j = (if liveAt now (qc_quotes c) j then gget (qc_quotes c) j else None)" for j
  proof (cases "j \<in> set (qc_order c)")
    case True
    then show ?thesis using sp by simp
  next
    case False
    then have "gget (qc_quotes c) j = None" using inv(3) gget_dom by metis
    then show ?thesis using sp by simp
  qed
  have keys: "fst ` set q' = set k'"
  proof -
    have "x \<in> fst ` set q' \<longleftrightarrow> x \<in> set k'" for x
      using sp g [of x] inv(3) gget_dom [of q' x] gget_dom [of "qc_quotes c" x] by (auto simp: liveAt_def split: if_splits option.splits)
    then show ?thesis by blast
  qed
  have "length q' = card (set k')" using gwf_length sp keys by metis
  also have "\<dots> \<le> card (set (qc_order c))" using sp by (intro card_mono) auto
  also have "\<dots> = length (qc_quotes c)" using inv(2,3) gwf_length by metis
  finally have len: "int (length q') \<le> qc_max c" using inv(5) by simp
  show "cacheInv (QuoteCache_prune now c)" "qc_max (QuoteCache_prune now c) = qc_max c"
    "qc_order (QuoteCache_prune now c) = filter (liveAt now (qc_quotes c)) (qc_order c)"
    "gget (qc_quotes (QuoteCache_prune now c)) j = (if liveAt now (qc_quotes c) j then gget (qc_quotes c) j else None)"
    using sp keys len g inv by (simp_all add: QuoteCache_prune_def p cacheInv_def)
qed

text \<open>Eviction drops a prefix of the order, no longer than needed.\<close>

lemma evictLoop_spec:
  assumes "distinct order" "gwf quotes" "set order = fst ` set quotes" "0 < m" "evictLoop m quotes order = (quotes', order')"
  shows "gwf quotes' \<and> order' = drop (nat (int (length order) - m)) order \<and> set order' = fst ` set quotes' \<and>
    (\<forall>j. gget quotes' j = (if j \<in> set order' then gget quotes j else None))"
  using assms
proof (induction order arbitrary: quotes)
  case Nil
  then show ?case by (auto simp: map_of_eq_None_iff)
next
  case (Cons i order)
  have len: "length quotes = Suc (length order)"
    using gwf_length [OF Cons.prems(2)] Cons.prems(1,3) distinct_card [of "i # order"] by simp
  show ?case
  proof (cases "int (length quotes) > m")
    case False
    then have r: "quotes' = quotes" "order' = i # order" "nat (int (length (i # order)) - m) = 0" using Cons.prems(5) len by auto
    have "\<forall>j. gget quotes j = (if j \<in> set (i # order) then gget quotes j else None)"
      unfolding Cons.prems(3) using gget_dom [of quotes] by metis
    then show ?thesis unfolding r using Cons.prems(2,3) by (simp add: map_of_eq_None_iff)
  next
    case True
    have w: "gwf (gdel i quotes)" using Cons.prems(2) by simp
    have keys: "set order = fst ` set (gdel i quotes)"
    proof -
      have "fst ` set (gdel i quotes) = fst ` set quotes - {i}"
        using arg_cong [OF delete_keys [of i quotes], of set] by simp
      then show ?thesis using Cons.prems(1,3) by auto
    qed
    have "evictLoop m (gdel i quotes) order = (quotes', order')" using True Cons.prems(5) by simp
    note ih = Cons.IH [OF _ w keys Cons.prems(4) this]
    have n: "nat (int (length (i # order)) - m) = Suc (nat (int (length order) - m))" using True len by simp
    show ?thesis using ih Cons.prems(1) n by (auto simp: gomap_simps dest: in_set_dropD)
  qed
qed

lemma put_inv:
  assumes "cacheInv c"
  shows "cacheInv (QuoteCache_Put q now c)"
    and "gget (qc_quotes (QuoteCache_Put q now c)) (q_ID q) = Some q"
proof -
  let ?p = "QuoteCache_prune now c"
  have p: "cacheInv ?p" by (rule prune_inv [OF assms])
  define order where "order = (if gget (qc_quotes ?p) (q_ID q) = None then qc_order ?p @ [q_ID q] else qc_order ?p)"
  let ?qs = "gput (q_ID q) q (qc_quotes ?p)"
  have w: "gwf ?qs" and d: "distinct order" and k: "set order = fst ` set ?qs" and m: "0 < qc_max ?p"
    and len: "int (length order) \<le> qc_max ?p + 1"
  proof -
    have pi: "gwf (qc_quotes ?p)" "distinct (qc_order ?p)" "set (qc_order ?p) = fst ` set (qc_quotes ?p)" "0 < qc_max ?p"
      "int (length (qc_quotes ?p)) \<le> qc_max ?p" using p by (auto simp: cacheInv_def)
    show "gwf ?qs" using pi(1) by simp
    show "0 < qc_max ?p" by (fact pi(4))
    have i: "gget (qc_quotes ?p) (q_ID q) = None \<longleftrightarrow> q_ID q \<notin> set (qc_order ?p)" using pi(3) gget_dom by metis
    show "distinct order" using pi(2) i by (auto simp: order_def)
    show "set order = fst ` set ?qs" using i pi(3) by (auto simp: order_def dom_update)
    have "length (qc_order ?p) = length (qc_quotes ?p)" using distinct_card [OF pi(2)] gwf_length [OF pi(1)] pi(3) by simp
    then show "int (length order) \<le> qc_max ?p + 1" using pi(5) by (simp add: order_def)
  qed
  obtain q' o' where e: "evictLoop (qc_max ?p) ?qs order = (q', o')" by (cases "evictLoop (qc_max ?p) ?qs order")
  note sp = evictLoop_spec [OF d w k m e]
  have put: "QuoteCache_Put q now c = ?p\<lparr>qc_quotes := q', qc_order := o'\<rparr>"
    unfolding QuoteCache_Put_def Let_def order_def [symmetric] e by simp
  have s: "gwf q'" "o' = drop (nat (int (length order) - qc_max ?p)) order" "set o' = fst ` set q'"
    and g: "gget q' (q_ID q) = (if q_ID q \<in> set o' then gget ?qs (q_ID q) else None)" using sp by auto
  have do: "distinct o'" using s(2) d distinct_drop by simp
  have "length q' = length o'" using gwf_length [OF s(1)] distinct_card [OF do] s(3) by simp
  then have "int (length q') \<le> qc_max ?p" using s(2) m by simp
  then show "cacheInv (QuoteCache_Put q now c)"
    unfolding put cacheInv_def using s(1,3) do m by simp
  have "q_ID q \<in> set o'"
  proof (cases "gget (qc_quotes ?p) (q_ID q) = None")
    case True
    then have "order = qc_order ?p @ [q_ID q]" by (simp add: order_def)
    then show ?thesis using s(2) m by simp
  next
    case False
    then have "order = qc_order ?p" by (simp add: order_def)
    moreover have "q_ID q \<in> set order"
      using False p gget_dom [of "qc_quotes ?p" "q_ID q"] \<open>order = qc_order ?p\<close> by (simp add: cacheInv_def)
    moreover have "int (length order) \<le> qc_max ?p"
      using \<open>order = qc_order ?p\<close> p distinct_card [of "qc_order ?p"] gwf_length [of "qc_quotes ?p"] by (auto simp: cacheInv_def)
    ultimately show ?thesis using s(2) by simp
  qed
  then show "gget (qc_quotes (QuoteCache_Put q now c)) (q_ID q) = Some q" using g by (simp add: put gomap_simps)
qed

section \<open>One confirmation\<close>

text \<open>A trade was handed to the venue: everything that happened to the store before and after it.\<close>

definition sends ::
  "Application \<Rightarrow> ConfirmEnv \<Rightarrow> ConfirmRequest \<Rightarrow> QuickTradeQuote \<Rightarrow> string \<Rightarrow> QuickTrade \<Rightarrow> IntentSnapshot disk
   \<Rightarrow> IntentSnapshot disk \<Rightarrow> IntentSnapshot disk \<Rightarrow> IntentSnapshot disk \<Rightarrow> ConfirmResult \<times> goerror option \<Rightarrow> bool" where
  "sends a ce req quote intentID t f f1 f2 f3 res \<longleftrightarrow>
     (\<exists>t0 r submitter. gget (ap_Submitters a) (q_Venue quote) = Some submitter \<and>
        ConfirmQuickTrade (ap_Path a) (ce_Store ce) (confirmationOf req intentID quote) (ap_Limits a) (ce_Now ce) f = ((None, Some (t0, True)), f1) \<and>
        MarkQuickTradeDispatching (ap_Path a) (ce_Mark ce) (t_ID t0) (ce_NowMark ce) f1 = ((None, Some t), f2) \<and>
        UpdateQuickTrade (ap_Path a) (ce_Update ce) (t_ID t) (outcomeUpdate (submitter t)) (ce_NowUpdate ce) f2 = (r, f3) \<and>
        res = (\<lparr>cs_Trade = snd r, cs_Created = True\<rparr>, fst r))"

lemma dispatchConfirmed_cases:
  assumes "dispatchConfirmed a ce venue submitter t0 st = (res, st')"
  obtains (none) r f' where "MarkQuickTradeDispatching (ap_Path a) (ce_Mark ce) (t_ID t0) (ce_NowMark ce) (as_File st) = (r, f')"
      "as_File st' = f'" "as_Sent st' = as_Sent st" "as_Cache st' = as_Cache st"
  | (sent) t f' r f'' where
      "MarkQuickTradeDispatching (ap_Path a) (ce_Mark ce) (t_ID t0) (ce_NowMark ce) (as_File st) = ((None, Some t), f')"
      "UpdateQuickTrade (ap_Path a) (ce_Update ce) (t_ID t) (outcomeUpdate (submitter t)) (ce_NowUpdate ce) f' = (r, f'')"
      "as_File st' = f''" "as_Sent st' = as_Sent st @ [t]" "as_Cache st' = as_Cache st" "res = (\<lparr>cs_Trade = snd r, cs_Created = True\<rparr>, fst r)"
  using assms unfolding dispatchConfirmed_def Let_def
  by (auto split: prod.splits option.splits)

text \<open>Every confirmation either sends nothing, or sends exactly one trade.\<close>

lemma Confirm_cases:
  assumes "Confirm a ce req st = (res, st')"
  obtains (none) "(intent_step (ap_Path a) (ap_Limits a))\<^sup>*\<^sup>* (as_File st) (as_File st')" "as_Sent st' = as_Sent st"
  | (sent) quote intentID t f1 f2 where "sends a ce req quote intentID t (as_File st) f1 f2 (as_File st') res" "as_Sent st' = as_Sent st @ [t]"
      "fst (QuoteCache_Get (cq_QuoteID req) (cq_Identity req) (ce_Now ce) (as_Cache st)) = Some quote"
      "ValidateForConfirm (ap_Quotes a) (ce_NowValidate ce) quote = None" "cs_Created (fst res)"
proof (cases "as_File st' = as_File st \<and> as_Sent st' = as_Sent st")
  case True
  then show ?thesis using none by simp
next
  case False
  then obtain quote c where q: "QuoteCache_Get (cq_QuoteID req) (cq_Identity req) (ce_Now ce) (as_Cache st) = (Some quote, c)"
    and c: "confirmQuote a ce req quote (st\<lparr>as_Cache := c\<rparr>) = (res, st')"
    using assms unfolding Confirm_def by (auto split: if_splits sum.splits option.splits prod.splits)
  let ?v = "\<lambda>i. confirmationOf req i quote"
  obtain submitter intentID where s: "gget (ap_Submitters a) (q_Venue quote) = Some submitter" "ce_IntentID ce = Inr intentID"
    and v: "ValidateForConfirm (ap_Quotes a) (ce_NowValidate ce) quote = None"
    using c False unfolding confirmQuote_def by (auto split: option.splits sum.splits)
  obtain e r f1 where u: "ConfirmQuickTrade (ap_Path a) (ce_Store ce) (?v intentID) (ap_Limits a) (ce_Now ce) (as_File st) = ((e, r), f1)"
    by (metis surj_pair)
  have step1: "intent_step (ap_Path a) (ap_Limits a) (as_File st) f1" using u by (rule intent_step.confirm)
  show ?thesis
  proof (cases "\<exists>t0. e = None \<and> r = Some (t0, True)")
    case False
    then have "as_File st' = f1 \<and> as_Sent st' = as_Sent st"
      using c u s v unfolding confirmQuote_def by (auto split: option.splits)
    then show ?thesis using none step1 by (simp add: r_into_rtranclp)
  next
    case True
    then obtain t0 where er: "e = None" "r = Some (t0, True)" by blast
    have d: "dispatchConfirmed a ce (q_Venue quote) submitter t0 (st\<lparr>as_Cache := c, as_File := f1\<rparr>) = (res, st')"
      using c u s v er unfolding confirmQuote_def by simp
    from d show ?thesis
    proof (cases rule: dispatchConfirmed_cases)
      case (none r' f')
      then have "intent_step (ap_Path a) (ap_Limits a) f1 (as_File st')" by (auto intro: intent_step.dispatch)
      then show ?thesis using that(1) step1 none(3) by (auto intro: converse_rtranclp_into_rtranclp)
    next
      case (sent t f' r' f'')
      have "sends a ce req quote intentID t (as_File st) f1 f' (as_File st') res"
        using u er sent(1,2,3,6) s(1) unfolding sends_def by auto
      then show ?thesis using that(2) sent(4,6) q v by simp
    qed
  qed
qed

text \<open>What the store holds around a submission.\<close>

lemma sends_facts:
  assumes "sends a ce req quote intentID t f f1 f2 f3 res" "intentPeek f = Some s" "intentInv s"
  shows "gget (s_QuickTrades s) intentID = None" "gget (s_ConsumedQuotes s) (q_ID quote) = None"
    "gget (s_QuickRequests s) (quickRequestKey (cq_Identity req) (cq_ClientRequestID req)) = None"
    "t_ID t = intentID" "t_Quote t = quote" "requestKeyOf t = quickRequestKey (cq_Identity req) (cq_ClientRequestID req)"
    "t_SendAttempted t" "t_Status t = TradePendingSubmit"
    "GetQuickTrade (quietEnv n) intentID f2 = Inr t"
    "(intent_step (ap_Path a) (ap_Limits a))\<^sup>*\<^sup>* f f2" "intent_step (ap_Path a) (ap_Limits a) f2 f3"
proof -
  let ?v = "confirmationOf req intentID quote"
  obtain t0 r submitter where
    c: "ConfirmQuickTrade (ap_Path a) (ce_Store ce) ?v (ap_Limits a) (ce_Now ce) f = ((None, Some (t0, True)), f1)"
    and m: "MarkQuickTradeDispatching (ap_Path a) (ce_Mark ce) (t_ID t0) (ce_NowMark ce) f1 = ((None, Some t), f2)"
    and u: "UpdateQuickTrade (ap_Path a) (ce_Update ce) (t_ID t) (outcomeUpdate (submitter t)) (ce_NowUpdate ce) f2 = (r, f3)"
    using assms(1) unfolding sends_def by blast
  obtain s1 where s1: "confirmMutate ?v (ap_Limits a) (ce_Now ce) s = Inr (s1, t0, True)"
    "f1 = FileHolds (intentTouch (ev_Now (ce_Store ce)) s1)"
    using c Store_update_cases [of "ap_Path a" "ce_Store ce" "confirmMutate ?v (ap_Limits a) (ce_Now ce)" f None "Some (t0, True)" f1]
      Store_Load_Inr [of "ce_Store ce" f] assms(2) by (fastforce simp: ConfirmQuickTrade_def split: option.splits)
  have id: "intentID \<noteq> []" using c validateConfirmation_ids [of ?v "ap_Limits a"]
    by (auto simp: ConfirmQuickTrade_def confirmationOf_def split: option.splits)
  have "t0 = newQuickTrade ?v (ce_Now ce) \<and> gget (s_QuickTrades s) intentID = None \<and>
    gget (s_ConsumedQuotes s) (q_ID quote) = None \<and>
    gget (s_QuickRequests s) (quickRequestKey (cq_Identity req) (cq_ClientRequestID req)) = None \<and>
    gget (s_QuickTrades s1) intentID = Some t0"
    using s1(1)
  proof (cases rule: confirmMutate_cases)
    case new
    then show ?thesis using intentInv_index [OF assms(3)] by (simp add: confirmationOf_def gomap_simps)
  qed auto
  then have new: "t0 = newQuickTrade ?v (ce_Now ce)" "gget (s_QuickTrades s) intentID = None"
    "gget (s_ConsumedQuotes s) (q_ID quote) = None"
    "gget (s_QuickRequests s) (quickRequestKey (cq_Identity req) (cq_ClientRequestID req)) = None"
    "gget (s_QuickTrades s1) intentID = Some t0" by auto
  then show "gget (s_QuickTrades s) intentID = None" "gget (s_ConsumedQuotes s) (q_ID quote) = None"
    "gget (s_QuickRequests s) (quickRequestKey (cq_Identity req) (cq_ClientRequestID req)) = None" by auto
  have step1: "intent_step (ap_Path a) (ap_Limits a) f f1" using c by (rule intent_step.confirm)
  obtain s1' where p1: "intentPeek f1 = Some s1'" "intentInv s1'" using intent_step_later [OF step1 assms(2,3)] by blast
  have s1': "s1' = intentTouch (ev_Now (ce_Store ce)) s1" using p1(1) s1(2) intentPeek_touch by blast
  have tid: "t_ID t0 = intentID" by (simp add: new(1) newQuickTrade_def confirmationOf_def)
  obtain s2 where s2: "updateTradeMutate intentID (dispatchTrade (ce_NowMark ce)) s1' = Inr (s2, t)"
    "f2 = FileHolds (intentTouch (ev_Now (ce_Mark ce)) s2)"
    using m Store_update_cases [of "ap_Path a" "ce_Mark ce" "updateTradeMutate intentID (dispatchTrade (ce_NowMark ce))" f1 None "Some t" f2]
      Store_Load_Inr [of "ce_Mark ce" f1] p1(1) unfolding MarkQuickTradeDispatching_def updateQuickTrade_def tid by fastforce
  have d: "dispatchTrade (ce_NowMark ce) t0 = Inr t" and g2: "gget (s_QuickTrades s2) intentID = Some t"
    using s2(1) new(5) s1' by (auto simp: updateTradeMutate_def rbind_eq_Inr gomap_simps intentTouch_def split: option.splits)
  have ok: "tradeWf t0" "tradeGrows t0 t" "t_SendAttempted t"
    using tradeWf_new dispatchTrade_ok [OF d] new(1) by auto
  show "t_SendAttempted t" by (fact ok(3))
  show "t_ID t = intentID" "t_Quote t = quote" "requestKeyOf t = quickRequestKey (cq_Identity req) (cq_ClientRequestID req)"
    using ok(2) new(1) by (auto simp: tradeGrows_def sameTrade_def newQuickTrade_def confirmationOf_def requestKeyOf_def)
  show "t_Status t = TradePendingSubmit"
    using d new(1) by (auto simp: dispatchTrade_def newQuickTrade_def applyTradeStatus_def Let_def TradeStatus_Terminal_def split: if_splits)
  have step2: "intent_step (ap_Path a) (ap_Limits a) f1 f2" using m by (rule intent_step.dispatch)
  obtain s2' where p2: "intentPeek f2 = Some s2'" using intent_step_later [OF step2 p1] by blast
  have "s2' = intentTouch (ev_Now (ce_Mark ce)) s2" using p2 s2(2) intentPeek_touch by blast
  then show "GetQuickTrade (quietEnv n) intentID f2 = Inr t"
    using p2 g2 by (simp add: GetQuickTrade_def Store_Load_quiet [THEN iffD2, OF p2] intentTouch_def)
  show "(intent_step (ap_Path a) (ap_Limits a))\<^sup>*\<^sup>* f f2" using step1 step2 by (meson converse_rtranclp_into_rtranclp r_into_rtranclp)
  show "intent_step (ap_Path a) (ap_Limits a) f2 f3" using u by (rule intent_step.update)
qed

section \<open>The outcome\<close>

lemma applyUpdate_pending:
  assumes "t_Status t = TradePendingSubmit" "validTradeTransition TradePendingSubmit (u_Status u) \<and> \<not> u_ClearPublicError u"
  shows "\<exists>t'. applyUpdate u now t = Inr t' \<and> t_Status t' = u_Status u \<and>
    (u_VenueOrderID u \<noteq> [] \<longrightarrow> t_VenueOrderID t' = u_VenueOrderID u) \<and>
    (u_PublicError u \<noteq> [] \<longrightarrow> t_LastPublicError t' = u_PublicError u)"
proof -
  have st: "u_Status u \<noteq> TradeStatusEmpty" "u_Status u \<noteq> TradePendingSubmit"
    using assms(2) by (auto simp: validTradeTransition_def)
  then obtain t1 where "applyTradeStatus t (u_Status u)
      (if u_LifecycleDetail u = [] then u_PublicError u else u_LifecycleDetail u) (u_RequestID u) now = Inr t1"
    using assms by (simp add: applyTradeStatus_def Let_def)
  moreover have "t_Status t1 = u_Status u" using applyTradeStatus_cases [OF calculation] assms(1) st by auto
  ultimately show ?thesis using st assms(2) by (simp add: applyUpdate_def copyIfSet_def)
qed

lemma outcomeUpdate_pending:
  "validTradeTransition TradePendingSubmit (u_Status (outcomeUpdate out)) \<and> \<not> u_ClearPublicError (outcomeUpdate out)"
  by (cases out) (simp_all add: outcomeUpdate_def zeroUpdate_def validTradeTransition_def)

section \<open>Example data\<close>

definition sampleApp :: Application where
  "sampleApp = \<lparr>ap_Quotes = sampleQuotes (sampleFee ''to'' []), ap_Path = ''p'',
     ap_Submitters = [(VenueBybit, \<lambda>t. Submitted \<lparr>sm_VenueOrderID = ''v7'', sm_RawVenueStatus = ''New'', sm_Accepted = True\<rparr>)],
     ap_Limits = sampleLimits\<rparr>"

definition sampleConfirmEnv :: ConfirmEnv where
  "sampleConfirmEnv = \<lparr>ce_ByRequest = quietEnv 1, ce_ByQuote = quietEnv 1, ce_Store = quietEnv 1, ce_Mark = quietEnv 1, ce_Update = quietEnv 1,
     ce_Now = 11, ce_NowValidate = 11, ce_NowMark = 11, ce_NowUpdate = 11, ce_IntentID = Inr ''trade_1''\<rparr>"

definition sampleRequest :: ConfirmRequest where
  "sampleRequest = \<lparr>cq_Identity = ''a'', cq_SessionID = ''s'', cq_QuoteID = ''q'', cq_ClientRequestID = ''c''\<rparr>"

definition sampleStart :: AppState where
  "sampleStart = \<lparr>as_File = FileMissing, as_Cache = NewQuoteCache 5, as_Sent = [], as_Observed = []\<rparr>"

definition sampleQuoted :: AppState where
  "sampleQuoted = snd (CreateQuote sampleApp 10 10 (Inr ''q'') sampleCreate sampleStart)"

definition sampleConfirmed :: AppState where
  "sampleConfirmed = snd (Confirm sampleApp sampleConfirmEnv sampleRequest sampleQuoted)"

lemma sampleConfirmed_sent: "length (as_Sent sampleConfirmed) = 1" "map t_ID (as_Sent sampleConfirmed) = [''trade_1'']"
  by code_simp+

lemma sampleQuoted_simps: "as_Sent sampleQuoted = []" "as_File sampleQuoted = FileMissing"
  by code_simp+

section \<open>Properties\<close>

text \<open>
  Two confirmations of the sample quote by the same user, from two windows with different request identifiers. Both look up their request and the quote,
  find neither and pass the revalidation before either reaches the store's transaction.
\<close>

definition sampleThreads :: "ConfirmThread list" where
  "sampleThreads =
     [\<lparr>ct_Env = sampleConfirmEnv, ct_Request = sampleRequest, ct_Pc = CfByRequest\<rparr>,
      \<lparr>ct_Env = sampleConfirmEnv\<lparr>ce_IntentID := Inr ''trade_2''\<rparr>, ct_Request = sampleRequest\<lparr>cq_ClientRequestID := ''d''\<rparr>, ct_Pc = CfByRequest\<rparr>]"

definition sampleRace :: "AppState \<times> ConfirmThread list" where
  "sampleRace = fold (stepThread sampleApp) [0, 1, 0, 1, 0, 1, 0, 1, 1, 0, 1, 1, 1] (sampleQuoted, sampleThreads)"

lemma sampleRace_run: "app_run (ap_Path sampleApp) (ap_Limits sampleApp) (fst sampleRace) (snd sampleRace)"
proof -
  have "app_run (ap_Path sampleApp) (ap_Limits sampleApp) sampleQuoted []"
    unfolding sampleQuoted_def sampleStart_def by (rule app_run.quote [OF app_run.start surjective_pairing])
  from app_run.begin_confirm [OF app_run.begin_confirm [OF this]]
  have "app_run (ap_Path sampleApp) (ap_Limits sampleApp) sampleQuoted sampleThreads" by (simp add: sampleThreads_def)
  then show ?thesis unfolding sampleRace_def by (rule app_run_schedule)
qed

text \<open>Both are answered; the one that reached the transaction second is given the other's trade, which is the only one sent.\<close>

lemma sampleRace_outcome:
  "case sampleRace of (st, ths) \<Rightarrow> map t_ID (as_Sent st) = [''trade_2''] \<and>
     list_all2 (\<lambda>th created. case ct_Pc th of CfDone r None \<Rightarrow> map_option t_ID (cs_Trade r) = Some ''trade_2'' \<and> cs_Created r = created | _ \<Rightarrow> False)
       ths [False, True]"
  by code_simp

text \<open>
  C1. No double submission. Take any run: any number of confirmations under way at once, each advancing one call at a time (the lookup by request, the lookup
  by quote, the cache, the revalidation, the store's transaction, the marking, the submission, the recording of the outcome) and interleaved in any order with
  each other, with new quotes, with any other operation on the store, and with restarts of the process; the venues' answers and the submitters may differ
  at every step and any store call may fail. Then the trades handed to venues have pairwise different identifiers, quotes and client requests, and each of
  them is on record in the store as dispatched, under the identity it was submitted with.
\<close>

theorem no_double_submission:
  assumes "app_run path limits st ths"
  shows "distinct (map t_ID (as_Sent st)) \<and> distinct (map (\<lambda>t. q_ID (t_Quote t)) (as_Sent st)) \<and>
    distinct (map (\<lambda>t. quickRequestKey (t_Identity t) (t_ClientRequestID t)) (as_Sent st)) \<and>
    (\<forall>t \<in> set (as_Sent st). \<exists>t'. GetQuickTrade (quietEnv now) (t_ID t) (as_File st) = Inr t' \<and> t_SendAttempted t' \<and> sameTrade t t')"
proof -
  have inv: "runInv path limits st ths" by (rule app_run_inv [OF assms])
  then have reach: "intent_reach path limits (as_File st)" and ids: "distinct (map t_ID (as_Sent st))"
    and held: "\<And>t. t \<in> set (as_Sent st) \<Longrightarrow> held (as_File st) t \<and> t_SendAttempted t" by (auto simp: runInv_def)
  obtain s where s: "intentPeek (as_File st) = Some s" using intent_reach_peek [OF reach] by blast
  note ix = held_indexed [OF _ s intent_reach_inv [OF reach s]]
  have inj: "inj_on (\<lambda>t. q_ID (t_Quote t)) (set (as_Sent st))" "inj_on requestKeyOf (set (as_Sent st))"
    using ids held ix(2,3) unfolding inj_on_def distinct_map by (metis option.inject)+
  have "\<exists>t'. GetQuickTrade (quietEnv now) (t_ID t) (as_File st) = Inr t' \<and> t_SendAttempted t' \<and> sameTrade t t'"
    if "t \<in> set (as_Sent st)" for t
  proof -
    obtain t' where h: "gget (s_QuickTrades s) (t_ID t) = Some t'" "tradeLater t t'" "t_SendAttempted t"
      using held [OF \<open>t \<in> set (as_Sent st)\<close>] s by (auto simp: held_def)
    have "Store_Load (quietEnv now) (as_File st) = Inr s" using s by (simp add: Store_Load_quiet)
    then show ?thesis using h by (auto simp: GetQuickTrade_def tradeLater_def)
  qed
  moreover have "requestKeyOf = (\<lambda>t. quickRequestKey (t_Identity t) (t_ClientRequestID t))" by (simp add: fun_eq_iff requestKeyOf_def)
  ultimately show ?thesis using inj ids by (simp add: distinct_map)
qed

theorem no_double_submission_witness:
  "map t_ID (as_Sent (fst sampleRace)) = [''trade_2''] \<and>
   (\<exists>t'. GetQuickTrade (quietEnv 9) ''trade_2'' (as_File (fst sampleRace)) = Inr t' \<and> t_SendAttempted t')"
proof -
  have ids: "map t_ID (as_Sent (fst sampleRace)) = [''trade_2'']" using sampleRace_outcome by (simp only: case_prod_beta)
  then obtain t where t: "t \<in> set (as_Sent (fst sampleRace))" "t_ID t = ''trade_2''" by (cases "as_Sent (fst sampleRace)") auto
  show ?thesis using no_double_submission [OF sampleRace_run, of 9] t ids by metis
qed

text \<open>
  C2. The record comes first. When one confirmation hands a trade to the venue, it hands over exactly
  one, for the cached quote of this user, which it has just revalidated; at that moment the store's
  file already holds that very trade as dispatched and pending, and only then the outcome is written.
\<close>

theorem Confirm_writes_ahead:
  assumes "Confirm a ce request st = (res, st')" "as_Sent st' \<noteq> as_Sent st" "intent_reach (ap_Path a) (ap_Limits a) (as_File st)"
  shows "\<exists>quote t f2. as_Sent st' = as_Sent st @ [t] \<and>
    fst (QuoteCache_Get (cq_QuoteID request) (cq_Identity request) (ce_Now ce) (as_Cache st)) = Some quote \<and>
    ValidateForConfirm (ap_Quotes a) (ce_NowValidate ce) quote = None \<and> t_Quote t = quote \<and>
    GetQuickTrade (quietEnv now) (t_ID t) f2 = Inr t \<and> t_SendAttempted t \<and> t_Status t = TradePendingSubmit \<and>
    intent_reach (ap_Path a) (ap_Limits a) f2 \<and> intent_step (ap_Path a) (ap_Limits a) f2 (as_File st')"
  using assms(1)
proof (cases rule: Confirm_cases)
  case none
  then show ?thesis using assms(2) by simp
next
  case (sent quote i t f1 f2)
  obtain s where s: "intentPeek (as_File st) = Some s" using intent_reach_peek [OF assms(3)] by blast
  note fx = sends_facts [OF sent(1) s intent_reach_inv [OF assms(3) s]]
  show ?thesis using sent(2,3,4) fx(4,5,7,8,11) fx(9) [of now] intent_reach_steps [OF fx(10) assms(3)] by blast
qed

theorem Confirm_writes_ahead_witness:
  "\<exists>t f2. as_Sent sampleConfirmed = [t] \<and> GetQuickTrade (quietEnv 9) (t_ID t) f2 = Inr t \<and> t_Status t = TradePendingSubmit"
proof -
  have c: "Confirm sampleApp sampleConfirmEnv sampleRequest sampleQuoted =
      (fst (Confirm sampleApp sampleConfirmEnv sampleRequest sampleQuoted), sampleConfirmed)" by (simp add: sampleConfirmed_def)
  have n: "as_Sent sampleConfirmed \<noteq> as_Sent sampleQuoted" using sampleConfirmed_sent(1) sampleQuoted_simps(1) by auto
  have r: "intent_reach (ap_Path sampleApp) (ap_Limits sampleApp) (as_File sampleQuoted)"
    unfolding sampleQuoted_simps by (rule intent_reach.start)
  show ?thesis using Confirm_writes_ahead [OF c n r, of 9] sampleQuoted_simps(1) by auto
qed

text \<open>
  The outcome is recorded. When the final write succeeds, the result and the file hold the trade
  with the status the venue's answer means: accepted or submitted with the venue's order identifier,
  rejected with its message, and unknown, never rejected, when the submission failed in any other way.
\<close>

theorem Confirm_records_outcome:
  assumes "Confirm a ce request st = (res, st')" "as_Sent st' = as_Sent st @ [t]" "intent_reach (ap_Path a) (ap_Limits a) (as_File st)"
    and "ce_Update ce = quietEnv n" "ap_Path a \<noteq> []"
  shows "\<exists>submitter t'. gget (ap_Submitters a) (q_Venue (t_Quote t)) = Some submitter \<and>
    res = (\<lparr>cs_Trade = Some t', cs_Created = True\<rparr>, None) \<and> GetQuickTrade (quietEnv now) (t_ID t) (as_File st') = Inr t' \<and>
    (case submitter t of
       Submitted sub \<Rightarrow> t_Status t' = (if sm_Accepted sub then TradeAccepted else TradeSubmitted) \<and>
         (sm_VenueOrderID sub \<noteq> [] \<longrightarrow> t_VenueOrderID t' = sm_VenueOrderID sub)
     | SubmitRejected m \<Rightarrow> t_Status t' = TradeRejected \<and> t_LastPublicError t' \<noteq> [] \<and> (m \<noteq> [] \<longrightarrow> t_LastPublicError t' = m)
     | SubmitFailed e \<Rightarrow> t_Status t' = TradeUnknown)"
  using assms(1)
proof (cases rule: Confirm_cases)
  case none
  then show ?thesis using assms(2) by simp
next
  case (sent quote i t0 f1 f2)
  have t: "t0 = t" using sent(2) assms(2) by simp
  obtain s where s: "intentPeek (as_File st) = Some s" using intent_reach_peek [OF assms(3)] by blast
  note fx = sends_facts [OF sent(1) [unfolded t] s intent_reach_inv [OF assms(3) s]]
  obtain r submitter where sub: "gget (ap_Submitters a) (q_Venue quote) = Some submitter"
    and u: "UpdateQuickTrade (ap_Path a) (ce_Update ce) (t_ID t) (outcomeUpdate (submitter t)) (ce_NowUpdate ce) f2 = (r, as_File st')"
    and res: "res = (\<lparr>cs_Trade = snd r, cs_Created = True\<rparr>, fst r)"
    using sent(1) unfolding t sends_def by blast
  obtain s2 where s2: "intentPeek f2 = Some s2" "gget (s_QuickTrades s2) (t_ID t) = Some t"
    using fx(9) [of 0] fx(4) Store_Load_Inr [of "quietEnv 0" f2] by (auto simp: GetQuickTrade_def rbind_eq_Inr split: option.splits)
  obtain t' where t': "applyUpdate (outcomeUpdate (submitter t)) (ce_NowUpdate ce) t = Inr t'"
    "t_Status t' = u_Status (outcomeUpdate (submitter t))"
    "u_VenueOrderID (outcomeUpdate (submitter t)) \<noteq> [] \<longrightarrow> t_VenueOrderID t' = u_VenueOrderID (outcomeUpdate (submitter t))"
    "u_PublicError (outcomeUpdate (submitter t)) \<noteq> [] \<longrightarrow> t_LastPublicError t' = u_PublicError (outcomeUpdate (submitter t))"
    using applyUpdate_pending [OF fx(8) outcomeUpdate_pending] by blast
  have m: "updateTradeMutate (t_ID t) (applyUpdate (outcomeUpdate (submitter t)) (ce_NowUpdate ce)) s2 =
      Inr (s2\<lparr>s_QuickTrades := gput (t_ID t) t' (s_QuickTrades s2)\<rparr>, t')"
    by (simp add: updateTradeMutate_def s2(2) t'(1))
  let ?s = "s2\<lparr>s_QuickTrades := gput (t_ID t) t' (s_QuickTrades s2)\<rparr>"
  have up: "r = (None, Some t')" "as_File st' = FileHolds (intentTouch n ?s)"
    using u Store_update_quiet [where mutate = "updateTradeMutate (t_ID t) (applyUpdate (outcomeUpdate (submitter t)) (ce_NowUpdate ce))", OF assms(5) s2(1) m, of n] by (simp_all add: assms(4) UpdateQuickTrade_def updateQuickTrade_def)
  have "intentPeek (as_File st') = Some (intentTouch n ?s)"
    unfolding up(2) by (rule intentPeek_holds) (simp add: intentPeek_version [OF s2(1)])
  then have "GetQuickTrade (quietEnv now) (t_ID t) (as_File st') = Inr t'"
    by (simp add: GetQuickTrade_def Store_Load_quiet [THEN iffD2] intentTouch_def gomap_simps)
  then show ?thesis using sub res up(1) t'(2-4) fx(5)
    by (cases "submitter t") (auto simp: outcomeUpdate_def zeroUpdate_def)
qed

theorem Confirm_records_outcome_witness:
  "\<exists>t'. cs_Trade (fst (fst (Confirm sampleApp sampleConfirmEnv sampleRequest sampleQuoted))) = Some t' \<and> t_Status t' = TradeAccepted"
proof -
  have c: "Confirm sampleApp sampleConfirmEnv sampleRequest sampleQuoted =
      (fst (Confirm sampleApp sampleConfirmEnv sampleRequest sampleQuoted), sampleConfirmed)" by (simp add: sampleConfirmed_def)
  obtain t where t: "as_Sent sampleConfirmed = as_Sent sampleQuoted @ [t]"
    using sampleConfirmed_sent(1) sampleQuoted_simps(1) by (cases "as_Sent sampleConfirmed") auto
  have r: "intent_reach (ap_Path sampleApp) (ap_Limits sampleApp) (as_File sampleQuoted)"
    unfolding sampleQuoted_simps by (rule intent_reach.start)
  have e: "ce_Update sampleConfirmEnv = quietEnv 1" "ap_Path sampleApp \<noteq> []" by (simp_all add: sampleConfirmEnv_def sampleApp_def)
  show ?thesis using Confirm_records_outcome [OF c t r e, of 9] by (auto simp: sampleApp_def split: if_splits)
qed

text \<open>
  The quote cache is a bounded first-in first-out store. Putting a quote keeps it well formed and
  within its maximum, and the quote just put is returned for its owner until it expires; what it
  returns is always a stored quote of the user asking that has not expired.
\<close>

theorem quote_cache_correct:
  assumes "cacheInv c"
  shows "cacheInv (QuoteCache_Put q now c) \<and> cacheInv (snd (QuoteCache_Get i who now c)) \<and>
    (Before now' (q_ExpiresAt q) \<longrightarrow> fst (QuoteCache_Get (q_ID q) (q_Identity q) now' (QuoteCache_Put q now c)) = Some q) \<and>
    (fst (QuoteCache_Get i who now c) = Some x \<longrightarrow> q_Identity x = who \<and> Before now (q_ExpiresAt x) \<and> gget (qc_quotes c) i = Some x)"
proof -
  have get: "fst (QuoteCache_Get i who n d) =
      (case gget (qc_quotes d) i of None \<Rightarrow> None | Some x \<Rightarrow> if Before n (q_ExpiresAt x) \<and> q_Identity x = who then Some x else None)"
    "cacheInv (snd (QuoteCache_Get i who n d))" if "cacheInv d" for i who n d
    using prune_inv [OF that] by (auto simp: QuoteCache_Get_def Let_def liveAt_def split: option.splits)
  show ?thesis using put_inv [OF assms] get [OF assms] get(1) [OF put_inv(1) [OF assms]]
    by (auto split: option.splits if_splits)
qed

theorem quote_cache_correct_witness:
  "fst (QuoteCache_Get ''q1'' ''alice'' 6 (QuoteCache_Put sampleQuote 5 (NewQuoteCache 1))) = Some sampleQuote"
proof -
  have c: "cacheInv (NewQuoteCache 1)" by (simp add: cacheInv_def NewQuoteCache_def)
  have b: "Before 6 (q_ExpiresAt sampleQuote)" "q_ID sampleQuote = ''q1''" "q_Identity sampleQuote = ''alice''"
    by (simp_all add: sampleQuote_def Before_def)
  show ?thesis using quote_cache_correct [OF c, where q = sampleQuote and now = 5 and now' = 6] b by simp
qed

end
