(* ===== verification/OrderState.thy ===== *)
theory OrderState
  imports Domain GoBig FileStore
begin

text \<open>
  \<open>internal/orderstate\<close>: the order snapshot, its file store (\<open>store.go\<close>), the order state machine and
  the service operations (\<open>service.go\<close>), and the explicit migration of version 1 files
  (\<open>migration.go\<close>). A Go map is iterated in the order of its association list, one of the orders the
  language allows. Clock readings inside one operation are one argument.
\<close>

section \<open>The snapshot (store.go)\<close>

definition SnapshotVersion :: int where
  "SnapshotVersion = 2"

record Snapshot =
  os_Version :: int
  os_UpdatedAt :: time
  os_Orders :: "(string, Order) gomap"
  os_Executions :: "(string, Execution) gomap"

definition NewSnapshot :: Snapshot where
  "NewSnapshot = \<lparr>os_Version = SnapshotVersion, os_UpdatedAt = 0, os_Orders = [], os_Executions = []\<rparr>"

definition FileStore_Load :: "Env \<Rightarrow> Snapshot disk \<Rightarrow> Snapshot result" where
  "FileStore_Load env f =
     (case ev_Ctx env of
        Some e \<Rightarrow> Inl e
      | None \<Rightarrow>
          (case f of
             FileMissing \<Rightarrow> Inr NewSnapshot
           | FileCorrupt \<Rightarrow>
               (case ev_Io env IoRead of
                  Some e \<Rightarrow> Inl e
                | None \<Rightarrow> Inl (EText ''decode state snapshot''))
           | FileHolds s \<Rightarrow>
               (case ev_Io env IoRead of
                  Some e \<Rightarrow> Inl e
                | None \<Rightarrow>
                    (if os_Version s \<noteq> SnapshotVersion
                     then Inl (EFmt ''unsupported state snapshot version %d'' [FormatInt (os_Version s)])
                     else Inr s))))"

definition FileStore_Save :: "Env \<Rightarrow> Snapshot \<Rightarrow> Snapshot disk \<Rightarrow> goerror option \<times> Snapshot disk" where
  "FileStore_Save env s f =
     (case ev_Ctx env of
        Some e \<Rightarrow> (Some e, f)
      | None \<Rightarrow>
          (case firstFault env [IoMarshal, IoMkdir, IoCreateTemp, IoChmod, IoWrite, IoSync, IoClose, IoRename] of
             Some e \<Rightarrow> (Some e, f)
           | None \<Rightarrow> (None, FileHolds (s\<lparr>os_Version := SnapshotVersion, os_UpdatedAt := ev_Now env\<rparr>))))"

text \<open>The second component is what the mutation's closure assigned, as in the intent store.\<close>

definition FileStore_Update ::
  "Env \<Rightarrow> (Snapshot \<Rightarrow> goerror + Snapshot \<times> 'r) \<Rightarrow> Snapshot disk \<Rightarrow> (goerror option \<times> 'r option) \<times> Snapshot disk" where
  "FileStore_Update env mutate f =
     (case firstFault env [IoMkdir, IoOpenLock, IoFlock] of
        Some e \<Rightarrow> ((Some e, None), f)
      | None \<Rightarrow>
          (case FileStore_Load env f of
             Inl e \<Rightarrow> ((Some e, None), f)
           | Inr s \<Rightarrow>
               (case mutate s of
                  Inl e \<Rightarrow> ((Some e, None), f)
                | Inr (s', r) \<Rightarrow> (case FileStore_Save env s' f of (e, f') \<Rightarrow> ((e, Some r), f')))))"

section \<open>The order state machine (service.go)\<close>

definition allowedTransition :: "OrderStatus \<Rightarrow> OrderStatus list" where
  "allowedTransition from =
     (case from of
        OrderStatusUnknown \<Rightarrow>
          [OrderStatusPendingSubmit, OrderStatusNew, OrderStatusPartiallyFilled, OrderStatusFilled,
           OrderStatusCancelled, OrderStatusRejected]
      | OrderStatusPendingSubmit \<Rightarrow>
          [OrderStatusNew, OrderStatusPartiallyFilled, OrderStatusFilled, OrderStatusCancelled, OrderStatusRejected]
      | OrderStatusNew \<Rightarrow>
          [OrderStatusPartiallyFilled, OrderStatusFilled, OrderStatusPendingCancel, OrderStatusCancelled]
      | OrderStatusPartiallyFilled \<Rightarrow> [OrderStatusFilled, OrderStatusPendingCancel, OrderStatusCancelled]
      | OrderStatusPendingCancel \<Rightarrow> [OrderStatusCancelled, OrderStatusFilled, OrderStatusRejectedCancel]
      | OrderStatusCancelled \<Rightarrow> [OrderStatusFilled]
      | _ \<Rightarrow> [])"

definition ValidateTransition :: "OrderStatus \<Rightarrow> OrderStatus \<Rightarrow> goerror option" where
  "ValidateTransition from to =
     (if from = to then None
      else if to \<in> set (allowedTransition from) then None
      else Some (EFmt ''invalid order state transition %s -> %s'' [orderStatusText from, orderStatusText to]))"

section \<open>Decimal quantities (service.go)\<close>

definition decimalPlaces :: "string \<Rightarrow> nat" where
  "decimalPlaces value =
     (case indexByte (CHR ''.'') value of None \<Rightarrow> 0 | Some i \<Rightarrow> length value - i - 1)"

definition addDecimal :: "string \<Rightarrow> string \<Rightarrow> string result" where
  "addDecimal left right =
     (let left' = (if left = [] then ''0'' else left) in
      case SetString left' of
        None \<Rightarrow> Inl (EFmt ''invalid decimal %q'' [left'])
      | Some l \<Rightarrow>
          (case SetString right of
             None \<Rightarrow> Inl (EFmt ''invalid decimal %q'' [right])
           | Some r \<Rightarrow> Inr (FloatString (max (decimalPlaces left') (decimalPlaces right)) (l + r))))"

definition compareDecimal :: "string \<Rightarrow> string \<Rightarrow> int" where
  "compareDecimal left right =
     (case (SetString left, SetString right) of
        (Some l, Some r) \<Rightarrow> (if l < r then - 1 else if l = r then 0 else 1)
      | _ \<Rightarrow> - 1)"

section \<open>Finding and keying orders (service.go)\<close>

definition normalizedAccount :: "string \<Rightarrow> string \<Rightarrow> string \<Rightarrow> AccountKey" where
  "normalizedAccount exchange environment alias =
     \<lparr>ak_Venue = (if exchange = [] then VenueBybit else exchange),
      ak_Environment = (if environment = [] then EnvironmentTestnet else environment),
      ak_Alias = (if alias = [] then ''bybit-test'' else alias)\<rparr>"

definition orderAccount :: "Order \<Rightarrow> AccountKey" where
  "orderAccount ord = normalizedAccount (o_Exchange ord) (o_Environment ord) (o_AccountAlias ord)"

definition executionAccount :: "Execution \<Rightarrow> AccountKey" where
  "executionAccount x = normalizedAccount (x_Exchange x) (x_Environment x) (x_AccountAlias x)"

definition sameAccount :: "AccountKey \<Rightarrow> AccountKey \<Rightarrow> bool" where
  "sameAccount l r \<longleftrightarrow> ak_Venue l = ak_Venue r \<and> ak_Environment l = ak_Environment r \<and> ak_Alias l = ak_Alias r"

definition matchesOrder :: "string \<Rightarrow> string \<Rightarrow> AccountKey \<Rightarrow> Order \<Rightarrow> bool" where
  "matchesOrder orderID orderLinkID account ord \<longleftrightarrow>
     sameAccount (orderAccount ord) account \<and>
     ((orderLinkID \<noteq> [] \<and> o_OrderLinkID ord = orderLinkID) \<or> (orderID \<noteq> [] \<and> o_OrderID ord = orderID))"

definition findOrder :: "Snapshot \<Rightarrow> string \<Rightarrow> string \<Rightarrow> AccountKey \<Rightarrow> (string \<times> Order) option" where
  "findOrder s orderID orderLinkID account = find (\<lambda>(_, ord). matchesOrder orderID orderLinkID account ord) (os_Orders s)"

definition legacyAccount :: "AccountKey \<Rightarrow> bool" where
  "legacyAccount a \<longleftrightarrow> ak_Venue a = VenueBybit \<and> ak_Environment a = EnvironmentTestnet \<and> ak_Alias a = ''bybit-test''"

definition orderStorageKey :: "Order \<Rightarrow> string" where
  "orderStorageKey ord =
     (let identifier = (if o_OrderLinkID ord = [] then o_OrderID ord else o_OrderLinkID ord);
          namespace = (if o_OrderLinkID ord = [] then ''native'' else ''client'') in
      if identifier = [] then []
      else if legacyAccount (orderAccount ord) then identifier
      else OrderKey_Canonical \<lparr>ok_Account = orderAccount ord, ok_Namespace = namespace, ok_NativeID = identifier\<rparr>)"

definition executionStorageKey :: "Execution \<Rightarrow> string" where
  "executionStorageKey x =
     (if legacyAccount (executionAccount x) then x_ExecutionID x
      else ExecutionKey_Canonical \<lparr>ek_Account = executionAccount x, ek_Namespace = ''trade'', ek_NativeID = x_ExecutionID x\<rparr>)"

definition setIf :: "string \<Rightarrow> string \<Rightarrow> string" where
  "setIf new old = (if new \<noteq> [] then new else old)"

definition mergeOrder :: "Order \<Rightarrow> Order \<Rightarrow> Order" where
  "mergeOrder c u =
     \<lparr>o_Exchange = setIf (o_Exchange u) (o_Exchange c), o_Environment = setIf (o_Environment u) (o_Environment c),
      o_AccountAlias = setIf (o_AccountAlias u) (o_AccountAlias c), o_Category = setIf (o_Category u) (o_Category c),
      o_Symbol = setIf (o_Symbol u) (o_Symbol c), o_OrderID = setIf (o_OrderID u) (o_OrderID c),
      o_OrderLinkID = setIf (o_OrderLinkID u) (o_OrderLinkID c), o_Side = setIf (o_Side u) (o_Side c),
      o_Type = setIf (o_Type u) (o_Type c), o_Price = setIf (o_Price u) (o_Price c), o_Qty = setIf (o_Qty u) (o_Qty c),
      o_CumFilledQty = setIf (o_CumFilledQty u) (o_CumFilledQty c), o_AvgFillPrice = setIf (o_AvgFillPrice u) (o_AvgFillPrice c),
      o_Status = (if o_Status u \<noteq> OrderStatusEmpty then o_Status u else o_Status c),
      o_RawStatus = setIf (o_RawStatus u) (o_RawStatus c), o_IntentID = setIf (o_IntentID u) (o_IntentID c),
      o_CreatedAt = (if \<not> IsZero (o_CreatedAt u) \<and> IsZero (o_CreatedAt c) then o_CreatedAt u else o_CreatedAt c),
      o_UpdatedAt = (if \<not> IsZero (o_UpdatedAt u) then o_UpdatedAt u else o_UpdatedAt c)\<rparr>"

section \<open>Service operations (service.go)\<close>

text \<open>The merged order with its two time stamps filled in.\<close>

definition stampedMerge :: "time \<Rightarrow> Order \<Rightarrow> Order \<Rightarrow> Order" where
  "stampedMerge now current update =
     (let m = mergeOrder current update;
          m1 = (if IsZero (o_CreatedAt m) then m\<lparr>o_CreatedAt := now\<rparr> else m) in
      if IsZero (o_UpdatedAt m1) then m1\<lparr>o_UpdatedAt := now\<rparr> else m1)"

definition applyOrderToSnapshot :: "time \<Rightarrow> Order \<Rightarrow> Snapshot \<Rightarrow> Snapshot result" where
  "applyOrderToSnapshot now update s =
     rbind
       (case findOrder s (o_OrderID update) (o_OrderLinkID update) (orderAccount update) of
          Some hit \<Rightarrow> Inr hit
        | None \<Rightarrow>
            (if orderStorageKey update = [] then Inl (EText ''order update has neither orderId nor orderLinkId'')
             else Inr (orderStorageKey update, zeroOrder\<lparr>o_Status := OrderStatusUnknown, o_CreatedAt := o_CreatedAt update\<rparr>)))
       (\<lambda>(key, current).
          case ValidateTransition (o_Status current) (o_Status update) of
            Some e \<Rightarrow> Inl e
          | None \<Rightarrow>
              (let merged = stampedMerge now current update;
                   desiredKey = orderStorageKey merged in
               if key \<noteq> desiredKey \<and> desiredKey \<noteq> []
               then Inr (s\<lparr>os_Orders := gput desiredKey merged (gdel key (os_Orders s))\<rparr>)
               else Inr (s\<lparr>os_Orders := gput key merged (os_Orders s)\<rparr>)))"

definition upsertToSnapshot :: "time \<Rightarrow> Order \<Rightarrow> Snapshot \<Rightarrow> Snapshot result" where
  "upsertToSnapshot now update s =
     (case findOrder s (o_OrderID update) (o_OrderLinkID update) (orderAccount update) of
        Some (_, current) \<Rightarrow>
          (if o_Status current \<noteq> OrderStatusUnknown \<and> o_Status current \<noteq> OrderStatusPendingSubmit then
             applyOrderToSnapshot now
               ((mergeOrder current update)\<lparr>o_Status := o_Status current, o_RawStatus := o_RawStatus current,
                  o_CumFilledQty := o_CumFilledQty current, o_AvgFillPrice := o_AvgFillPrice current,
                  o_UpdatedAt := o_UpdatedAt current\<rparr>) s
           else applyOrderToSnapshot now update s)
      | None \<Rightarrow> applyOrderToSnapshot now update s)"

text \<open>The part of \<open>ApplyExecution\<close> behind the duplicate check, on the order found.\<close>

definition fillStatus :: "string \<Rightarrow> Order \<Rightarrow> OrderStatus" where
  "fillStatus cumulative ord =
     (if compareDecimal cumulative (o_Qty ord) \<ge> 0 \<and> o_Qty ord \<noteq> [] then OrderStatusFilled
      else if o_Status ord = OrderStatusPendingCancel then OrderStatusPendingCancel
      else OrderStatusPartiallyFilled)"

definition fillOrder :: "time \<Rightarrow> Execution \<Rightarrow> string \<Rightarrow> Order \<Rightarrow> Order result" where
  "fillOrder now x cumulative ord =
     (let filled = ord\<lparr>o_CumFilledQty := cumulative, o_AvgFillPrice := x_Price x,
            o_UpdatedAt := (if IsZero (x_ReceivedAt x) then now else x_ReceivedAt x)\<rparr>;
          status = fillStatus cumulative filled in
      if status \<noteq> o_Status filled then
        (case ValidateTransition (o_Status filled) status of
           Some e \<Rightarrow> Inl e
         | None \<Rightarrow> Inr (filled\<lparr>o_Status := status\<rparr>))
      else Inr filled)"

definition applyExecutionToSnapshot :: "time \<Rightarrow> Execution \<Rightarrow> Snapshot \<Rightarrow> Snapshot result" where
  "applyExecutionToSnapshot now x s =
     (if gget (os_Executions s) (executionStorageKey x) \<noteq> None then Inr s
      else case findOrder s (x_OrderID x) (x_OrderLinkID x) (executionAccount x) of
          None \<Rightarrow> Inl (EFmt ''execution %q references unknown order'' [x_ExecutionID x])
        | Some (key, ord) \<Rightarrow>
            (case addDecimal (o_CumFilledQty ord) (x_Qty x) of
               Inl e \<Rightarrow> Inl (EWrap ''execution quantity'' e)
             | Inr cumulative \<Rightarrow>
                 rbind (fillOrder now x cumulative ord)
                   (\<lambda>filled. Inr (s\<lparr>os_Executions := gput (executionStorageKey x) x (os_Executions s),
                                    os_Orders := gput key filled (os_Orders s)\<rparr>))))"

definition recordExecutionToSnapshot :: "Execution \<Rightarrow> Snapshot \<Rightarrow> Snapshot result" where
  "recordExecutionToSnapshot x s =
     (if gget (os_Executions s) (executionStorageKey x) \<noteq> None then Inr s
      else case findOrder s (x_OrderID x) (x_OrderLinkID x) (executionAccount x) of
          None \<Rightarrow> Inl (EFmt ''execution %q references unknown order'' [x_ExecutionID x])
        | Some _ \<Rightarrow> Inr (s\<lparr>os_Executions := gput (executionStorageKey x) x (os_Executions s)\<rparr>))"

text \<open>The service: its cached snapshot and the file of its store.\<close>

record Service =
  sv_Snapshot :: Snapshot
  sv_File :: "Snapshot disk"

definition NewService :: "Env \<Rightarrow> Snapshot disk \<Rightarrow> Service result" where
  "NewService env f = rbind (FileStore_Load env f) (\<lambda>s. Inr \<lparr>sv_Snapshot = s, sv_File = f\<rparr>)"

text \<open>
  \<open>mutate\<close> over a transactional store: update the file, then reload it into the cache. The reload can
  fail after the file has changed; it has an environment of its own.
\<close>

definition Service_mutate ::
  "Env \<Rightarrow> Env \<Rightarrow> (Snapshot \<Rightarrow> Snapshot result) \<Rightarrow> Service \<Rightarrow> goerror option \<times> Service" where
  "Service_mutate env reload operation sv =
     (case FileStore_Update env (\<lambda>s. rbind (operation s) (\<lambda>s'. Inr (s', ()))) (sv_File sv) of
        ((Some e, _), f') \<Rightarrow> (Some e, sv\<lparr>sv_File := f'\<rparr>)
      | ((None, _), f') \<Rightarrow>
          (case FileStore_Load reload f' of
             Inl e \<Rightarrow> (Some e, sv\<lparr>sv_File := f'\<rparr>)
           | Inr s \<Rightarrow> (None, \<lparr>sv_Snapshot = s, sv_File = f'\<rparr>)))"

definition ApplyOrder where
  "ApplyOrder env reload now update sv = Service_mutate env reload (applyOrderToSnapshot now update) sv"

definition UpsertREST where
  "UpsertREST env reload now update sv = Service_mutate env reload (upsertToSnapshot now update) sv"

definition ApplyExecution :: "Env \<Rightarrow> Env \<Rightarrow> time \<Rightarrow> Execution \<Rightarrow> Service \<Rightarrow> goerror option \<times> Service" where
  "ApplyExecution env reload now x sv =
     (if x_ExecutionID x = [] then (Some (EText ''execution update has no executionId''), sv)
      else Service_mutate env reload (applyExecutionToSnapshot now x) sv)"

definition RecordExecution :: "Env \<Rightarrow> Env \<Rightarrow> Execution \<Rightarrow> Service \<Rightarrow> goerror option \<times> Service" where
  "RecordExecution env reload x sv =
     (if x_ExecutionID x = [] then (Some (EText ''execution update has no executionId''), sv)
      else Service_mutate env reload (recordExecutionToSnapshot x) sv)"

end
