(* ===== verification/OrderInv.thy ===== *)
theory OrderInv
  imports OrderState
begin

text \<open>
  What the order service guarantees: its file store is transactional, orders are stored under the key
  their own identity determines, statuses move only along the transition table, late REST data never
  regresses an order, and an execution is counted exactly once.
\<close>

section \<open>The store is transactional\<close>

definition orderPeek :: "Snapshot disk \<Rightarrow> Snapshot option" where
  "orderPeek f =
     (case f of
        FileMissing \<Rightarrow> Some NewSnapshot
      | FileCorrupt \<Rightarrow> None
      | FileHolds s \<Rightarrow> (if os_Version s = SnapshotVersion then Some s else None))"

definition orderTouch :: "time \<Rightarrow> Snapshot \<Rightarrow> Snapshot" where
  "orderTouch now s = s\<lparr>os_Version := SnapshotVersion, os_UpdatedAt := now\<rparr>"

lemma FileStore_Load_Inr: "FileStore_Load env f = Inr s \<Longrightarrow> orderPeek f = Some s"
  by (auto simp: FileStore_Load_def orderPeek_def split: option.splits disk.splits if_splits)

lemma FileStore_Load_quiet: "FileStore_Load (quietEnv now) f = Inr s \<longleftrightarrow> orderPeek f = Some s"
  by (auto simp: FileStore_Load_def orderPeek_def split: disk.splits)

lemma orderPeek_touch [simp]: "orderPeek (FileHolds (orderTouch now s)) = Some (orderTouch now s)"
  by (simp add: orderPeek_def orderTouch_def)

lemma FileStore_Update_cases:
  "FileStore_Update env mutate f = ((e, r), f') \<Longrightarrow>
   (e \<noteq> None \<and> f' = f) \<or>
   (\<exists>s s' x. e = None \<and> r = Some x \<and> orderPeek f = Some s \<and> mutate s = Inr (s', x) \<and>
      f' = FileHolds (orderTouch (ev_Now env) s'))"
  by (auto simp: FileStore_Update_def FileStore_Save_def orderTouch_def simp del: firstFault.simps
      dest: FileStore_Load_Inr split: if_splits option.splits sum.splits prod.splits) metis+

interpretation orders: transactional_store FileStore_Update orderPeek orderTouch
proof unfold_locales
  fix env :: Env and mutate :: "Snapshot \<Rightarrow> goerror + Snapshot \<times> 'r"
    and f f' :: "Snapshot disk" and e :: goerror and r :: "'r option"
  show "f' = f" if "FileStore_Update env mutate f = ((Some e, r), f')"
    using FileStore_Update_cases [OF that] by auto
  show "\<exists>s s' x. orderPeek f = Some s \<and> mutate s = Inr (s', x) \<and> r = Some x \<and>
      (\<forall>t. orderPeek f' = Some t \<longrightarrow> t = orderTouch (ev_Now env) s')"
    if "FileStore_Update env mutate f = ((None, r), f')"
    using FileStore_Update_cases [OF that] by auto
qed

section \<open>The transition table\<close>

definition legalStep :: "OrderStatus \<Rightarrow> OrderStatus \<Rightarrow> bool" where
  "legalStep from to \<longleftrightarrow> from \<noteq> to \<and> ValidateTransition from to = None"

definition orderFinal :: "OrderStatus \<Rightarrow> bool" where
  "orderFinal s \<longleftrightarrow> s = OrderStatusFilled \<or> s = OrderStatusRejected \<or> s = OrderStatusRejectedCancel"

interpretation order: status_machine legalStep OrderStatusUnknown orderFinal
  by unfold_locales
    (auto simp: legalStep_def ValidateTransition_def allowedTransition_def orderFinal_def split: OrderStatus.splits if_splits)

lemma ValidateTransition_None: "ValidateTransition a b = None \<longleftrightarrow> a = b \<or> legalStep a b"
  by (auto simp: legalStep_def ValidateTransition_def)

section \<open>Keys and identities\<close>

lemma sameAccount_eq: "sameAccount a b \<longleftrightarrow> a = b"
  by (cases a; cases b) (auto simp: sameAccount_def)

lemma findOrder_Some:
  "findOrder s i l a = Some (k, ord) \<Longrightarrow> (k, ord) \<in> set (os_Orders s) \<and> matchesOrder i l a ord"
  unfolding findOrder_def by (auto simp: find_Some_iff in_set_conv_nth)

lemma findOrder_None: "findOrder s i l a = None \<longleftrightarrow> (\<forall>(k, ord) \<in> set (os_Orders s). \<not> matchesOrder i l a ord)"
  unfolding findOrder_def by (auto simp: find_None_iff)

lemma findOrder_unique:
  assumes "(k, ord) \<in> set (os_Orders s)" "matchesOrder i l a ord"
    and "\<And>j w. (j, w) \<in> set (os_Orders s) \<Longrightarrow> matchesOrder i l a w \<Longrightarrow> (j, w) = (k, ord)"
  shows "findOrder s i l a = Some (k, ord)"
proof (cases "findOrder s i l a")
  case None
  then show ?thesis using assms(1,2) by (auto simp: findOrder_None)
next
  case (Some h)
  then have "(fst h, snd h) = (k, ord)" using findOrder_Some [of s i l a "fst h" "snd h"]
    by (intro assms(3)) auto
  then show ?thesis using Some by simp
qed

lemma mergeOrder_account:
  "orderAccount c = orderAccount u \<Longrightarrow> orderAccount (mergeOrder c u) = orderAccount u"
  by (auto simp: orderAccount_def normalizedAccount_def mergeOrder_def setIf_def)

lemma mergeOrder_fresh_account:
  "orderAccount (mergeOrder (zeroOrder\<lparr>o_Status := st, o_CreatedAt := t\<rparr>) u) = orderAccount u"
  by (auto simp: orderAccount_def normalizedAccount_def mergeOrder_def setIf_def zeroOrder_def)

lemma orderStorageKey_Nil: "orderStorageKey ord = [] \<longleftrightarrow> o_OrderLinkID ord = [] \<and> o_OrderID ord = []"
proof -
  have "joinKey [x, y, z] \<noteq> []" for x y z by (simp add: joinKey_def)
  then show ?thesis by (auto simp: orderStorageKey_def OrderKey_Canonical_def Let_def)
qed

lemma orderStorageKey_cong:
  "o_OrderID a = o_OrderID b \<Longrightarrow> o_OrderLinkID a = o_OrderLinkID b \<Longrightarrow> orderAccount a = orderAccount b
   \<Longrightarrow> orderStorageKey a = orderStorageKey b"
  by (simp add: orderStorageKey_def Let_def)

text \<open>Every order is stored under the key its own identity determines.\<close>

definition keysInv :: "Snapshot \<Rightarrow> bool" where
  "keysInv s \<longleftrightarrow> gwf (os_Orders s) \<and> gwf (os_Executions s) \<and>
     (\<forall>(k, ord) \<in> set (os_Orders s). k = orderStorageKey ord \<and> k \<noteq> [])"

lemma keysInv_order: "keysInv s \<Longrightarrow> (k, ord) \<in> set (os_Orders s) \<Longrightarrow> k = orderStorageKey ord \<and> k \<noteq> []"
  by (auto simp: keysInv_def)

lemma stampedMerge_ids [simp]:
  "o_OrderID (stampedMerge now c u) = setIf (o_OrderID u) (o_OrderID c)"
  "o_OrderLinkID (stampedMerge now c u) = setIf (o_OrderLinkID u) (o_OrderLinkID c)"
  "o_Status (stampedMerge now c u) = o_Status (mergeOrder c u)"
  "o_CumFilledQty (stampedMerge now c u) = setIf (o_CumFilledQty u) (o_CumFilledQty c)"
  "o_AvgFillPrice (stampedMerge now c u) = setIf (o_AvgFillPrice u) (o_AvgFillPrice c)"
  "o_RawStatus (stampedMerge now c u) = setIf (o_RawStatus u) (o_RawStatus c)"
  "orderAccount (stampedMerge now c u) = orderAccount (mergeOrder c u)"
  by (simp_all add: stampedMerge_def Let_def mergeOrder_def orderAccount_def)

text \<open>What an accepted order update did: the order it started from and the order it stored.\<close>

lemma applyOrder_cases:
  assumes "applyOrderToSnapshot now u s = Inr s'"
  obtains key cur m where
    "(findOrder s (o_OrderID u) (o_OrderLinkID u) (orderAccount u) = Some (key, cur)) \<or>
     (findOrder s (o_OrderID u) (o_OrderLinkID u) (orderAccount u) = None \<and> key = orderStorageKey u \<and> key \<noteq> [] \<and>
      cur = zeroOrder\<lparr>o_Status := OrderStatusUnknown, o_CreatedAt := o_CreatedAt u\<rparr>)"
    "ValidateTransition (o_Status cur) (o_Status u) = None"
    "m = stampedMerge now cur u" "orderStorageKey m \<noteq> []"
    "s' = s\<lparr>os_Orders := (if key \<noteq> orderStorageKey m then gput (orderStorageKey m) m (gdel key (os_Orders s))
       else gput key m (os_Orders s))\<rparr>"
proof -
  obtain key cur where h: "(findOrder s (o_OrderID u) (o_OrderLinkID u) (orderAccount u) = Some (key, cur)) \<or>
     (findOrder s (o_OrderID u) (o_OrderLinkID u) (orderAccount u) = None \<and> key = orderStorageKey u \<and> key \<noteq> [] \<and>
      cur = zeroOrder\<lparr>o_Status := OrderStatusUnknown, o_CreatedAt := o_CreatedAt u\<rparr>)"
    and v: "ValidateTransition (o_Status cur) (o_Status u) = None"
    and r: "(let merged = stampedMerge now cur u; desiredKey = orderStorageKey merged in
               if key \<noteq> desiredKey \<and> desiredKey \<noteq> []
               then Inr (s\<lparr>os_Orders := gput desiredKey merged (gdel key (os_Orders s))\<rparr>)
               else Inr (s\<lparr>os_Orders := gput key merged (os_Orders s)\<rparr>)) = (Inr s' :: Snapshot result)"
    using assms unfolding applyOrderToSnapshot_def rbind_eq_Inr
    by (fastforce split: option.splits if_splits prod.splits simp del: Let_def)
  have "orderStorageKey (stampedMerge now cur u) \<noteq> []"
    using h findOrder_Some [of s "o_OrderID u" "o_OrderLinkID u" "orderAccount u" key cur]
    by (auto simp: orderStorageKey_Nil matchesOrder_def setIf_def)
  then show thesis using that [OF h v refl] r by (auto simp: Let_def split: if_splits)
qed

lemma applyOrder_keys [inv_intros]:
  assumes a: "applyOrderToSnapshot now u s = Inr s'" and inv: "keysInv s"
  shows "keysInv s'"
  using a
proof (cases rule: applyOrder_cases)
  case (1 key cur m)
  have w: "gwf (os_Orders s)" "gwf (os_Executions s)" using inv by (auto simp: keysInv_def)
  then have w': "gwf (gdel key (os_Orders s))" by simp
  show ?thesis using 1(4,5) inv w w'
    by (auto simp: keysInv_def set_gput [OF w(1)] set_gput [OF w'] set_gdel [OF w(1)] split: if_splits)
qed

lemma upsert_keys [inv_intros]: "upsertToSnapshot now u s = Inr s' \<Longrightarrow> keysInv s \<Longrightarrow> keysInv s'"
  by (auto simp: upsertToSnapshot_def split: option.splits if_splits prod.splits intro: applyOrder_keys)

section \<open>Fill accounting\<close>

text \<open>A plain decimal text: an optional minus sign, integer digits, optional fraction digits.\<close>

definition isPlain :: "string \<Rightarrow> bool" where
  "isPlain s \<longleftrightarrow> (\<exists>neg ip fp. s = (if neg then ''-'' else []) @ plainDecimal ip fp \<and>
     list_all isDigit ip \<and> ip \<noteq> [] \<and> list_all isDigit fp \<and> length fp \<le> 1000000)"

definition ratOf :: "string \<Rightarrow> rat" where
  "ratOf s = (case SetString (if s = [] then ''0'' else s) of None \<Rightarrow> 0 | Some v \<Rightarrow> v)"

lemma decimalPlaces_plain:
  assumes "list_all isDigit ip" "ip \<noteq> []" "list_all isDigit fp"
  shows "decimalPlaces ((if neg then ''-'' else []) @ plainDecimal ip fp) = length fp"
proof -
  have no: "CHR ''.'' \<notin> set ((if neg then ''-'' else []) @ ip)"
    using assms(1) isDigit_not_punct by (auto simp: list_all_iff)
  show ?thesis
  proof (cases "fp = []")
    case True
    then show ?thesis using no by (simp add: decimalPlaces_def plainDecimal_def indexByte_None [THEN iffD2])
  next
    case False
    have "indexByte (CHR ''.'') (((if neg then ''-'' else []) @ ip) @ CHR ''.'' # fp) = Some (length ((if neg then ''-'' else []) @ ip))"
      by (rule indexByte_append [OF no])
    then show ?thesis using False by (simp add: decimalPlaces_def plainDecimal_def)
  qed
qed

lemma isPlain_value:
  assumes "isPlain s"
  shows "SetString s = Some (ratOf s)" "ratOf s * 10 ^ decimalPlaces s \<in> \<int>" "decimalPlaces s \<le> 1000000" "s \<noteq> []"
proof -
  obtain neg ip fp where s: "s = (if neg then ''-'' else []) @ plainDecimal ip fp" "list_all isDigit ip" "ip \<noteq> []"
    "list_all isDigit fp" "length fp \<le> 1000000" using assms by (auto simp: isPlain_def)
  show ne: "s \<noteq> []" using s(1,3) by (simp add: plainDecimal_def)
  have v: "SetString s = Some ((if neg then - 1 else 1) * decimalValue ip fp)"
    unfolding s(1) by (rule SetString_plain [OF s(2-5)])
  then show "SetString s = Some (ratOf s)" using ne by (simp add: ratOf_def)
  have p: "decimalPlaces s = length fp" unfolding s(1) by (rule decimalPlaces_plain [OF s(2-4)])
  then show "decimalPlaces s \<le> 1000000" using s(5) by simp
  have "ratOf s * 10 ^ decimalPlaces s = (if neg then - 1 else 1) * of_int (digitsVal (ip @ fp))"
    using v ne p by (simp add: ratOf_def decimalValue_def)
  then show "ratOf s * 10 ^ decimalPlaces s \<in> \<int>" by (simp add: Ints_minus)
qed

lemma scaled_exact: "x * 10 ^ p \<in> \<int> \<Longrightarrow> of_int (scaled p x) = \<bar>x\<bar> * 10 ^ p"
proof -
  assume "x * 10 ^ p \<in> \<int>"
  then obtain i where i: "x * 10 ^ p = of_int i" by (auto simp: Ints_def)
  have "\<bar>x\<bar> * 10 ^ p = \<bar>x * 10 ^ p\<bar>" by (simp add: abs_mult)
  then have a: "\<bar>x\<bar> * 10 ^ p = of_int \<bar>i\<bar>" by (simp add: i)
  then have "scaled p x = \<bar>i\<bar>" unfolding scaled_def by (intro floor_unique) linarith+
  with a show ?thesis by simp
qed

lemma FloatString_plain:
  assumes "x * 10 ^ p \<in> \<int>" "p \<le> 1000000"
  shows "isPlain (FloatString p x) \<and> SetString (FloatString p x) = Some x"
proof -
  let ?n = "scaled p x" let ?ip = "natText (?n div 10 ^ p)" let ?fp = "if p = 0 then [] else padZero p (natText (?n mod 10 ^ p))"
  have n: "0 \<le> ?n" unfolding scaled_def by (simp add: le_floor_iff)
  have ip: "list_all isDigit ?ip" "?ip \<noteq> []" using n by (simp_all add: pos_imp_zdiv_nonneg_iff)
  have len: "length ?fp = p"
    by (cases "p = 0") (auto intro!: length_padZero natText_length)
  have fp: "list_all isDigit ?fp" by (simp add: padZero_digits)
  have fs: "FloatString p x = (if x < 0 then ''-'' else []) @ plainDecimal ?ip ?fp"
    using len by (auto simp: FloatString_def Let_def plainDecimal_def)
  have "digitsVal (?ip @ ?fp) = ?n"
    using n len by (cases "p = 0") (simp_all add: digitsVal_append div_mult_mod_eq pos_imp_zdiv_nonneg_iff)
  then have "decimalValue ?ip ?fp = \<bar>x\<bar>"
    using scaled_exact [OF assms(1)] len by (simp add: decimalValue_def)
  moreover have "SetString (FloatString p x) = Some ((if x < 0 then - 1 else 1) * decimalValue ?ip ?fp)"
    unfolding fs using SetString_plain [OF ip fp, of "x < 0"] len assms(2) by simp
  ultimately have "SetString (FloatString p x) = Some x" by simp
  moreover have "isPlain (FloatString p x)"
    unfolding fs isPlain_def
    by (rule exI [of _ "x < 0"], rule exI [of _ ?ip], rule exI [of _ ?fp]) (use ip fp len assms(2) in simp)
  ultimately show ?thesis by simp
qed

lemma addDecimal_exact:
  assumes "l = [] \<or> isPlain l" "isPlain r"
  obtains t where "addDecimal l r = Inr t" "isPlain t" "ratOf t = ratOf l + ratOf r"
proof -
  let ?l = "if l = [] then ''0'' else l"
  have "isPlain ''0''" unfolding isPlain_def
    by (rule exI [of _ False], rule exI [of _ "''0''"], rule exI [of _ "[]"]) (simp add: plainDecimal_def)
  then have l: "isPlain ?l" using assms(1) by auto
  note vl = isPlain_value [OF l] and vr = isPlain_value [OF assms(2)]
  let ?p = "max (decimalPlaces ?l) (decimalPlaces r)"
  have rl: "ratOf ?l = ratOf l" by (simp add: ratOf_def)
  have scale: "v * 10 ^ ?p \<in> \<int>" if "v * 10 ^ d \<in> \<int>" "d \<le> ?p" for v :: rat and d
  proof -
    have "v * 10 ^ ?p = (v * 10 ^ d) * 10 ^ (?p - d)" using that(2) by (simp add: mult.assoc flip: power_add)
    then show ?thesis using that(1) by (metis Ints_mult Ints_numeral Ints_power)
  qed
  have "(ratOf ?l + ratOf r) * 10 ^ ?p = ratOf ?l * 10 ^ ?p + ratOf r * 10 ^ ?p" by (simp add: algebra_simps)
  then have int: "(ratOf ?l + ratOf r) * 10 ^ ?p \<in> \<int>"
    using scale [OF vl(2)] scale [OF vr(2)] by (metis Ints_add max.cobounded1 max.cobounded2)
  let ?t = "FloatString ?p (ratOf ?l + ratOf r)"
  have t: "isPlain ?t" "SetString ?t = Some (ratOf ?l + ratOf r)"
    using FloatString_plain [OF int] vl(3) vr(3) by auto
  have "addDecimal l r = Inr ?t" using vl(1) vr(1) by (simp add: addDecimal_def Let_def)
  moreover have "ratOf ?t = ratOf l + ratOf r" using t(2) isPlain_value(4) [OF t(1)] rl by (simp add: ratOf_def)
  ultimately show ?thesis using that t(1) by blast
qed

text \<open>An order that can still take fills: live, or filled up to its quantity.\<close>

definition acceptsFills :: "Order \<Rightarrow> bool" where
  "acceptsFills ord \<longleftrightarrow>
     o_Status ord \<in> {OrderStatusUnknown, OrderStatusPendingSubmit, OrderStatusNew, OrderStatusPartiallyFilled, OrderStatusPendingCancel} \<or>
     (o_Status ord = OrderStatusFilled \<and> o_Qty ord \<noteq> [] \<and> 0 \<le> compareDecimal (o_CumFilledQty ord) (o_Qty ord))"

definition sameIdentity :: "Order \<Rightarrow> Order \<Rightarrow> bool" where
  "sameIdentity a b \<longleftrightarrow> o_OrderID b = o_OrderID a \<and> o_OrderLinkID b = o_OrderLinkID a \<and> o_Exchange b = o_Exchange a \<and>
     o_Environment b = o_Environment a \<and> o_AccountAlias b = o_AccountAlias a \<and> o_Qty b = o_Qty a"

lemma sameIdentity_matches: "sameIdentity a b \<Longrightarrow> matchesOrder i l c b = matchesOrder i l c a"
  by (simp add: matchesOrder_def sameIdentity_def orderAccount_def)

lemma compareDecimal_grows:
  assumes "0 \<le> compareDecimal c q" "isPlain d" "ratOf c \<le> ratOf d" "c \<noteq> []"
  shows "0 \<le> compareDecimal d q"
proof -
  obtain v y where v: "SetString c = Some v" "SetString q = Some y" "y \<le> v"
    using assms(1) by (auto simp: compareDecimal_def split: option.splits if_splits)
  have "ratOf c = v" using v(1) assms(4) by (simp add: ratOf_def)
  then show ?thesis using assms(3) v isPlain_value(1) [OF assms(2)] by (simp add: compareDecimal_def)
qed

text \<open>A fresh execution of an order that can take fills is accepted and added exactly.\<close>

lemma applyExecution_fresh:
  assumes fresh: "gget (os_Executions s) (executionStorageKey x) = None"
    and found: "findOrder s (x_OrderID x) (x_OrderLinkID x) (executionAccount x) = Some (k, ord)"
    and cum: "o_CumFilledQty ord = [] \<or> isPlain (o_CumFilledQty ord)" and q: "isPlain (x_Qty x)" "0 \<le> ratOf (x_Qty x)"
    and acc: "acceptsFills ord"
  obtains ord' where
    "applyExecutionToSnapshot now x s =
       Inr (s\<lparr>os_Executions := gput (executionStorageKey x) x (os_Executions s), os_Orders := gput k ord' (os_Orders s)\<rparr>)"
    "sameIdentity ord ord'" "isPlain (o_CumFilledQty ord')" "acceptsFills ord'"
    "ratOf (o_CumFilledQty ord') = ratOf (o_CumFilledQty ord) + ratOf (x_Qty x)"
proof -
  obtain t where t: "addDecimal (o_CumFilledQty ord) (x_Qty x) = Inr t" "isPlain t"
    "ratOf t = ratOf (o_CumFilledQty ord) + ratOf (x_Qty x)" by (rule addDecimal_exact [OF cum q(1)])
  define o1 where "o1 = ord\<lparr>o_CumFilledQty := t, o_AvgFillPrice := x_Price x,
    o_UpdatedAt := (if IsZero (x_ReceivedAt x) then now else x_ReceivedAt x)\<rparr>"
  define ord' where "ord' = o1\<lparr>o_Status := fillStatus t o1\<rparr>"
  have o1: "o_Status o1 = o_Status ord" "o_Qty o1 = o_Qty ord" by (simp_all add: o1_def)
  have filled: "fillStatus t o1 = OrderStatusFilled" if "o_Status ord = OrderStatusFilled"
  proof -
    have h: "o_Qty ord \<noteq> []" "0 \<le> compareDecimal (o_CumFilledQty ord) (o_Qty ord)"
      using acc that by (auto simp: acceptsFills_def)
    have "o_CumFilledQty ord \<noteq> []" using h(2) by (auto simp: compareDecimal_def SetString_def)
    then show ?thesis using compareDecimal_grows [OF h(2) t(2)] t(3) q(2) h(1) by (simp add: fillStatus_def o1)
  qed
  have v: "ValidateTransition (o_Status o1) (fillStatus t o1) = None"
    using acc filled by (auto simp: acceptsFills_def fillStatus_def o1 ValidateTransition_def allowedTransition_def)
  have "fillOrder now x t ord = Inr ord'"
    unfolding fillOrder_def Let_def o1_def [symmetric] using v by (auto simp: ord'_def)
  then have "applyExecutionToSnapshot now x s =
       Inr (s\<lparr>os_Executions := gput (executionStorageKey x) x (os_Executions s), os_Orders := gput k ord' (os_Orders s)\<rparr>)"
    by (simp add: applyExecutionToSnapshot_def fresh found t(1))
  moreover have "acceptsFills ord'"
    by (auto simp: acceptsFills_def ord'_def fillStatus_def o1_def)
  ultimately show ?thesis using that [of ord'] t by (simp add: ord'_def o1_def sameIdentity_def)
qed

text \<open>The executions of a feed, applied in turn; one the service refuses leaves the snapshot as it was.\<close>

fun runExecutions :: "time \<Rightarrow> Execution list \<Rightarrow> Snapshot \<Rightarrow> Snapshot" where
  "runExecutions now [] s = s"
| "runExecutions now (x # xs) s =
     runExecutions now xs (case applyExecutionToSnapshot now x s of Inl _ \<Rightarrow> s | Inr s' \<Rightarrow> s')"

definition targets :: "string \<Rightarrow> Snapshot \<Rightarrow> Execution \<Rightarrow> bool" where
  "targets k s x \<longleftrightarrow> isPlain (x_Qty x) \<and> 0 \<le> ratOf (x_Qty x) \<and>
     (\<forall>(j, w) \<in> set (os_Orders s). matchesOrder (x_OrderID x) (x_OrderLinkID x) (executionAccount x) w \<longleftrightarrow> j = k)"

lemma runExecutions_sum:
  assumes "gget (os_Orders s) k = Some ord" "gwf (os_Orders s)" "gwf (os_Executions s)" "\<forall>x \<in> set xs. targets k s x"
    and "o_CumFilledQty ord = [] \<or> isPlain (o_CumFilledQty ord)" "acceptsFills ord"
  shows "\<exists>ord' added.
    gget (os_Orders (runExecutions now xs s)) k = Some ord' \<and>
    os_Executions (runExecutions now xs s) = os_Executions s @ added \<and> gwf (os_Executions s @ added) \<and>
    (\<forall>x \<in> set xs. gget (os_Executions s @ added) (executionStorageKey x) \<noteq> None) \<and>
    (\<forall>(j, x) \<in> set added. x \<in> set xs \<and> j = executionStorageKey x) \<and>
    ratOf (o_CumFilledQty ord') = ratOf (o_CumFilledQty ord) + (\<Sum>(j, x) \<leftarrow> added. ratOf (x_Qty x))"
  using assms
proof (induction xs arbitrary: s ord)
  case Nil
  then show ?case by (intro exI [of _ ord] exI [of _ "[]"]) simp
next
  case (Cons x xs)
  show ?case
  proof (cases "gget (os_Executions s) (executionStorageKey x)")
    case (Some y)
    then have "applyExecutionToSnapshot now x s = Inr s" by (simp add: applyExecutionToSnapshot_def)
    moreover have "\<exists>ord' added.
      gget (os_Orders (runExecutions now xs s)) k = Some ord' \<and>
      os_Executions (runExecutions now xs s) = os_Executions s @ added \<and> gwf (os_Executions s @ added) \<and>
      (\<forall>x \<in> set xs. gget (os_Executions s @ added) (executionStorageKey x) \<noteq> None) \<and>
      (\<forall>(j, x) \<in> set added. x \<in> set xs \<and> j = executionStorageKey x) \<and>
      ratOf (o_CumFilledQty ord') = ratOf (o_CumFilledQty ord) + (\<Sum>(j, x) \<leftarrow> added. ratOf (x_Qty x))"
      by (rule Cons.IH) (use Cons.prems in auto)
    ultimately show ?thesis using Some by (fastforce simp: map_add_Some_iff)
  next
    case None
    have tx: "targets k s x" using Cons.prems(4) by simp
    have mem: "(k, ord) \<in> set (os_Orders s)" using Cons.prems(1) by (rule gget_SomeD)
    have found: "findOrder s (x_OrderID x) (x_OrderLinkID x) (executionAccount x) = Some (k, ord)"
    proof (rule findOrder_unique [OF mem])
      show "matchesOrder (x_OrderID x) (x_OrderLinkID x) (executionAccount x) ord" using tx mem by (auto simp: targets_def)
      fix j w assume w: "(j, w) \<in> set (os_Orders s)" "matchesOrder (x_OrderID x) (x_OrderLinkID x) (executionAccount x) w"
      then have "j = k" using tx by (auto simp: targets_def)
      then show "(j, w) = (k, ord)" using w(1) Cons.prems(1) gget_in_set [OF Cons.prems(2), of k w] by simp
    qed
    obtain o1 where o1: "applyExecutionToSnapshot now x s =
         Inr (s\<lparr>os_Executions := gput (executionStorageKey x) x (os_Executions s), os_Orders := gput k o1 (os_Orders s)\<rparr>)"
      "sameIdentity ord o1" "isPlain (o_CumFilledQty o1)" "acceptsFills o1"
      "ratOf (o_CumFilledQty o1) = ratOf (o_CumFilledQty ord) + ratOf (x_Qty x)"
      using applyExecution_fresh [OF None found Cons.prems(5) _ _ Cons.prems(6)] tx by (auto simp: targets_def)
    let ?s = "s\<lparr>os_Executions := gput (executionStorageKey x) x (os_Executions s), os_Orders := gput k o1 (os_Orders s)\<rparr>"
    have ex: "os_Executions ?s = os_Executions s @ [(executionStorageKey x, x)]" using gput_fresh [OF None] by simp
    have tgt: "targets k ?s y" if "targets k s y" for y
      using that mem sameIdentity_matches [OF o1(2)] set_gput [OF Cons.prems(2)] by (auto simp: targets_def)
    have "\<exists>ord' added.
      gget (os_Orders (runExecutions now xs ?s)) k = Some ord' \<and>
      os_Executions (runExecutions now xs ?s) = os_Executions ?s @ added \<and> gwf (os_Executions ?s @ added) \<and>
      (\<forall>x \<in> set xs. gget (os_Executions ?s @ added) (executionStorageKey x) \<noteq> None) \<and>
      (\<forall>(j, x) \<in> set added. x \<in> set xs \<and> j = executionStorageKey x) \<and>
      ratOf (o_CumFilledQty ord') = ratOf (o_CumFilledQty o1) + (\<Sum>(j, x) \<leftarrow> added. ratOf (x_Qty x))"
      by (rule Cons.IH) (use Cons.prems tgt o1 in \<open>auto simp: gomap_simps\<close>)
    then obtain ord' added where r: "gget (os_Orders (runExecutions now xs ?s)) k = Some ord'"
      "os_Executions (runExecutions now xs ?s) = os_Executions ?s @ added" "gwf (os_Executions ?s @ added)"
      "\<forall>x \<in> set xs. gget (os_Executions ?s @ added) (executionStorageKey x) \<noteq> None"
      "\<forall>(j, x) \<in> set added. x \<in> set xs \<and> j = executionStorageKey x"
      "ratOf (o_CumFilledQty ord') = ratOf (o_CumFilledQty o1) + (\<Sum>(j, x) \<leftarrow> added. ratOf (x_Qty x))" by blast
    show ?thesis
      by (rule exI [of _ ord'], rule exI [of _ "(executionStorageKey x, x) # added"])
        (use r o1(1,5) ex in \<open>auto simp: map_add_Some_iff split: option.splits\<close>)
  qed
qed

section \<open>Reachable files\<close>

lemma Service_mutate_cases:
  assumes "Service_mutate env reload operation sv = (e, sv')"
  obtains
    (refused) e' where "e = Some e'" "sv' = sv"
  | (applied) s s' where "orderPeek (sv_File sv) = Some s" "operation s = Inr s'"
      "sv_File sv' = FileHolds (orderTouch (ev_Now env) s')"
      "(e = None \<and> sv_Snapshot sv' = orderTouch (ev_Now env) s') \<or> (e \<noteq> None \<and> sv_Snapshot sv' = sv_Snapshot sv)"
proof -
  let ?op = "\<lambda>s. rbind (operation s) (\<lambda>s'. Inr (s', ()))"
  obtain d r f' where u: "FileStore_Update env ?op (sv_File sv) = ((d, r), f')" by (metis surj_pair)
  show thesis
    using FileStore_Update_cases [OF u]
  proof (elim disjE exE conjE)
    assume "d \<noteq> None" "f' = sv_File sv"
    then show thesis using refused assms u by (auto simp: Service_mutate_def)
  next
    fix s s'' x assume h: "d = None" "orderPeek (sv_File sv) = Some s" "?op s = Inr (s'', x)"
      "f' = FileHolds (orderTouch (ev_Now env) s'')"
    have op: "operation s = Inr s''" using h(3) by (auto simp: rbind_eq_Inr)
    have l: "FileStore_Load reload f' = Inr t \<Longrightarrow> t = orderTouch (ev_Now env) s''" for t
      using FileStore_Load_Inr [of reload f' t] h(4) by simp
    show thesis
      by (rule applied [OF h(2) op]) (use assms u h(1,4) l in \<open>auto simp: Service_mutate_def split: sum.splits\<close>)
  qed
qed

lemma Service_mutate_quiet:
  assumes "orderPeek (sv_File sv) = Some s" "operation s = Inr s'"
  shows "Service_mutate (quietEnv a) (quietEnv b) operation sv =
    (None, \<lparr>sv_Snapshot = orderTouch a s', sv_File = FileHolds (orderTouch a s')\<rparr>)"
proof -
  have l: "FileStore_Load (quietEnv a) (sv_File sv) = Inr s" using assms(1) by (simp add: FileStore_Load_quiet)
  have l2: "FileStore_Load (quietEnv b) (FileHolds (orderTouch a s')) = Inr (orderTouch a s')" by (simp add: FileStore_Load_quiet)
  have "FileStore_Update (quietEnv a) (\<lambda>s. rbind (operation s) (\<lambda>s'. Inr (s', ()))) (sv_File sv) = ((None, Some ()), FileHolds (orderTouch a s'))"
    by (simp add: FileStore_Update_def FileStore_Save_def l assms(2) orderTouch_def result_simps del: firstFault.simps)
  then show ?thesis by (simp add: Service_mutate_def l2)
qed

inductive order_step :: "Service \<Rightarrow> Service \<Rightarrow> bool" where
  apply_order: "ApplyOrder env reload now u sv = (e, sv') \<Longrightarrow> order_step sv sv'"
| upsert: "UpsertREST env reload now u sv = (e, sv') \<Longrightarrow> order_step sv sv'"
| apply_execution: "ApplyExecution env reload now x sv = (e, sv') \<Longrightarrow> order_step sv sv'"
| record_execution: "RecordExecution env reload x sv = (e, sv') \<Longrightarrow> order_step sv sv'"

inductive order_reach :: "Service \<Rightarrow> bool" where
  start: "NewService env FileMissing = Inr sv \<Longrightarrow> order_reach sv"
| step: "order_reach sv \<Longrightarrow> order_step sv sv' \<Longrightarrow> order_reach sv'"

lemma applyExecution_shape:
  assumes "applyExecutionToSnapshot now x s = Inr s'"
  obtains (known) "s' = s"
  | (filled) k ord ord' where "findOrder s (x_OrderID x) (x_OrderLinkID x) (executionAccount x) = Some (k, ord)"
      "gget (os_Executions s) (executionStorageKey x) = None"
      "sameIdentity ord ord'" "ValidateTransition (o_Status ord) (o_Status ord') = None"
      "s' = s\<lparr>os_Executions := gput (executionStorageKey x) x (os_Executions s), os_Orders := gput k ord' (os_Orders s)\<rparr>"
proof (cases "s' = s")
  case True
  then show ?thesis by (rule known)
next
  case False
  then obtain k ord c ord' where h: "gget (os_Executions s) (executionStorageKey x) = None"
    "findOrder s (x_OrderID x) (x_OrderLinkID x) (executionAccount x) = Some (k, ord)"
    "fillOrder now x c ord = Inr ord'"
    "s' = s\<lparr>os_Executions := gput (executionStorageKey x) x (os_Executions s), os_Orders := gput k ord' (os_Orders s)\<rparr>"
    using assms by (auto simp: applyExecutionToSnapshot_def rbind_eq_Inr split: option.splits if_splits sum.splits)
  have "sameIdentity ord ord'" "ValidateTransition (o_Status ord) (o_Status ord') = None"
    using h(3) by (auto simp: fillOrder_def Let_def sameIdentity_def ValidateTransition_def split: if_splits option.splits)
  then show ?thesis using filled h by blast
qed

lemma sameIdentity_key: "sameIdentity a b \<Longrightarrow> orderStorageKey b = orderStorageKey a"
  by (intro orderStorageKey_cong) (auto simp: sameIdentity_def orderAccount_def)

lemma execution_keys [inv_intros]:
  "applyExecutionToSnapshot now x s = Inr s' \<Longrightarrow> keysInv s \<Longrightarrow> keysInv s'"
  "recordExecutionToSnapshot x s = Inr s' \<Longrightarrow> keysInv s \<Longrightarrow> keysInv s'"
proof -
  assume inv: "keysInv s"
  then have w: "gwf (os_Orders s)" "gwf (os_Executions s)" by (auto simp: keysInv_def)
  show "keysInv s'" if "recordExecutionToSnapshot x s = Inr s'"
    using that inv w by (auto simp: recordExecutionToSnapshot_def keysInv_def split: if_splits option.splits)
  show "keysInv s'" if "applyExecutionToSnapshot now x s = Inr s'"
    using that
  proof (cases rule: applyExecution_shape)
    case known
    then show ?thesis using inv by simp
  next
    case (filled k ord ord')
    have "k = orderStorageKey ord'" "k \<noteq> []"
      using keysInv_order [OF inv] findOrder_Some [OF filled(1)] sameIdentity_key [OF filled(3)] by auto
    then show ?thesis using inv w filled(5) by (auto simp: keysInv_def set_gput [OF w(1)])
  qed
qed

lemma keysInv_touch [inv_intros]: "keysInv s \<Longrightarrow> keysInv (orderTouch now s)"
  by (simp add: keysInv_def orderTouch_def)

lemma Service_mutate_keeps:
  assumes "Service_mutate env reload operation sv = (e, sv')" "orders.holds I (sv_File sv)"
    and "\<And>s s'. I s \<Longrightarrow> operation s = Inr s' \<Longrightarrow> I s'" "\<And>now s. I s \<Longrightarrow> I (orderTouch now s)"
  shows "orders.holds I (sv_File sv')"
  using assms(1)
proof (cases rule: Service_mutate_cases)
  case (refused e')
  then show ?thesis using assms(2) by simp
next
  case (applied s s')
  then show ?thesis using assms(2,3,4) by (simp add: orders.holds_def)
qed

lemma order_reach_keys: "order_reach sv \<Longrightarrow> orders.holds keysInv (sv_File sv)"
proof (induction rule: order_reach.induct)
  case (start env sv)
  then have "sv_File sv = FileMissing" by (auto simp: NewService_def rbind_eq_Inr)
  moreover have "keysInv NewSnapshot" by (simp add: NewSnapshot_def keysInv_def)
  ultimately show ?case unfolding orders.holds_def by (simp add: orderPeek_def)
next
  case (step sv sv')
  note keep = Service_mutate_keeps [OF _ step.IH, where operation = operation for operation]
  from step.hyps(2) show ?case
  proof cases
    case (apply_order env reload now u e)
    then show ?thesis unfolding ApplyOrder_def by (rule keep) (auto intro: inv_intros)
  next
    case (upsert env reload now u e)
    then show ?thesis unfolding UpsertREST_def by (rule keep) (auto intro: inv_intros)
  next
    case (apply_execution env reload now x e)
    then show ?thesis using step.IH unfolding ApplyExecution_def
      by (auto split: if_splits elim!: keep intro: inv_intros)
  next
    case (record_execution env reload x e)
    then show ?thesis using step.IH unfolding RecordExecution_def
      by (auto split: if_splits elim!: keep intro: inv_intros)
  qed
qed

section \<open>Example data\<close>

definition sampleOrder :: Order where
  "sampleOrder = zeroOrder\<lparr>o_Category := ''spot'', o_Symbol := ''BTCUSDT'', o_OrderLinkID := ''L1'', o_Side := SideBuy,
     o_Qty := ''1.5'', o_Status := OrderStatusNew, o_CreatedAt := 7, o_UpdatedAt := 7\<rparr>"

definition sampleExecution :: "string \<Rightarrow> string \<Rightarrow> Execution" where
  "sampleExecution i qty = \<lparr>x_Exchange = [], x_Environment = [], x_AccountAlias = [], x_Category = ''spot'', x_Symbol = ''BTCUSDT'',
     x_ExecutionID = i, x_OrderID = [], x_OrderLinkID = ''L1'', x_Side = SideBuy, x_Price = ''10'', x_Qty = qty, x_Fee = [],
     x_FeeCurrency = [], x_ExchangeTime = 8, x_ReceivedAt = 8\<rparr>"

definition emptyService :: Service where
  "emptyService = \<lparr>sv_Snapshot = NewSnapshot, sv_File = FileMissing\<rparr>"

definition sampleService :: Service where
  "sampleService = snd (ApplyOrder (quietEnv 1) (quietEnv 2) 3 sampleOrder emptyService)"

definition sampleOrders :: Snapshot where
  "sampleOrders = NewSnapshot\<lparr>os_UpdatedAt := 1, os_Orders := [(''L1'', sampleOrder)]\<rparr>"

lemma sampleService_file: "sv_File sampleService = FileHolds sampleOrders"
  by code_simp

lemma sampleService_peek: "orderPeek (sv_File sampleService) = Some sampleOrders"
  by code_simp

lemma sampleService_reach: "order_reach sampleService"
proof -
  have "NewService (quietEnv 0) FileMissing = Inr emptyService" by code_simp
  then show ?thesis unfolding sampleService_def
    by (rule order_reach.step [OF order_reach.start order_step.apply_order [OF surjective_pairing]])
qed

lemma isPlainI: "list_all isDigit ip \<Longrightarrow> ip \<noteq> [] \<Longrightarrow> list_all isDigit fp \<Longrightarrow> length fp \<le> 1000000 \<Longrightarrow> isPlain (plainDecimal ip fp)"
  unfolding isPlain_def by (rule exI [of _ False], rule exI [of _ ip], rule exI [of _ fp]) simp

section \<open>Properties\<close>

text \<open>
  However the service is used and whatever fails, each order of the file is stored under the key
  of its own identity, and no two orders of one account share a client order identifier: finding an
  order by that identifier has at most one answer, whatever order the map is iterated in.
\<close>

theorem order_keys_identify:
  assumes "order_reach sv" "orderPeek (sv_File sv) = Some s"
    and "(k, ord) \<in> set (os_Orders s)" "(j, w) \<in> set (os_Orders s)"
    and "matchesOrder [] link account ord" "matchesOrder [] link account w"
  shows "k = orderStorageKey ord \<and> (j, w) = (k, ord)"
proof -
  have inv: "keysInv s" using order_reach_keys [OF assms(1)] assms(2) by (simp add: orders.holds_def)
  have "orderAccount ord = orderAccount w" "o_OrderLinkID ord = o_OrderLinkID w" "o_OrderLinkID w \<noteq> []"
    using assms(5,6) by (auto simp: matchesOrder_def sameAccount_eq)
  then have "orderStorageKey ord = orderStorageKey w" by (simp add: orderStorageKey_def Let_def)
  then have "j = k" "k = orderStorageKey ord"
    using keysInv_order [OF inv assms(3)] keysInv_order [OF inv assms(4)] by auto
  moreover have "gwf (os_Orders s)" using inv by (simp add: keysInv_def)
  ultimately show ?thesis using assms(3,4) gget_in_set by (metis option.inject)
qed

theorem order_keys_identify_witness:
  "''L1'' = orderStorageKey sampleOrder \<and> (''L1'', sampleOrder) = (''L1'', sampleOrder)"
proof -
  have m: "(''L1'', sampleOrder) \<in> set (os_Orders sampleOrders)" by (simp add: sampleOrders_def)
  have h: "matchesOrder [] ''L1'' (orderAccount sampleOrder) sampleOrder" by code_simp
  show ?thesis by (rule order_keys_identify [OF sampleService_reach sampleService_peek m m h h])
qed

text \<open>
  A late REST answer never regresses an order: when the stream has already moved an order beyond
  submission, upserting any REST data for it succeeds and leaves its status, raw status, filled
  quantity and average price exactly as they were, while identifiers it did not know yet are added.
\<close>

theorem UpsertREST_keeps_progress:
  assumes "orderPeek (sv_File sv) = Some s" "gwf (os_Orders s)"
    and "findOrder s (o_OrderID u) (o_OrderLinkID u) (orderAccount u) = Some (k, cur)"
    and "o_Status cur \<noteq> OrderStatusUnknown" "o_Status cur \<noteq> OrderStatusPendingSubmit"
    and "\<forall>(j, w) \<in> set (os_Orders s).
      matchesOrder (setIf (o_OrderID u) (o_OrderID cur)) (setIf (o_OrderLinkID u) (o_OrderLinkID cur)) (orderAccount u) w \<longrightarrow> j = k"
  shows "\<exists>sv' m. UpsertREST (quietEnv a) (quietEnv b) now u sv = (None, sv') \<and>
    gget (os_Orders (sv_Snapshot sv')) (orderStorageKey m) = Some m \<and>
    o_Status m = o_Status cur \<and> o_RawStatus m = o_RawStatus cur \<and> o_CumFilledQty m = o_CumFilledQty cur \<and>
    o_AvgFillPrice m = o_AvgFillPrice cur \<and>
    o_OrderID m = setIf (o_OrderID u) (o_OrderID cur) \<and> o_OrderLinkID m = setIf (o_OrderLinkID u) (o_OrderLinkID cur)"
proof -
  define v where "v = (mergeOrder cur u)\<lparr>o_Status := o_Status cur, o_RawStatus := o_RawStatus cur,
    o_CumFilledQty := o_CumFilledQty cur, o_AvgFillPrice := o_AvgFillPrice cur, o_UpdatedAt := o_UpdatedAt cur\<rparr>"
  have mem: "(k, cur) \<in> set (os_Orders s)" and mt: "matchesOrder (o_OrderID u) (o_OrderLinkID u) (orderAccount u) cur"
    using findOrder_Some [OF assms(3)] by auto
  have acc: "orderAccount cur = orderAccount u" using mt by (simp add: matchesOrder_def sameAccount_eq)
  have ids: "o_OrderID v = setIf (o_OrderID u) (o_OrderID cur)" "o_OrderLinkID v = setIf (o_OrderLinkID u) (o_OrderLinkID cur)"
    by (simp_all add: v_def mergeOrder_def)
  have va: "orderAccount v = orderAccount u"
    using mergeOrder_account [OF acc] by (simp add: v_def orderAccount_def)
  have found: "findOrder s (o_OrderID v) (o_OrderLinkID v) (orderAccount v) = Some (k, cur)"
  proof (rule findOrder_unique [OF mem])
    show "matchesOrder (o_OrderID v) (o_OrderLinkID v) (orderAccount v) cur"
      using mt unfolding ids va by (auto simp: matchesOrder_def setIf_def)
    fix j w assume w: "(j, w) \<in> set (os_Orders s)" "matchesOrder (o_OrderID v) (o_OrderLinkID v) (orderAccount v) w"
    then have "j = k" using assms(6) unfolding ids va by auto
    then show "(j, w) = (k, cur)" using w(1) mem assms(2) gget_in_set by (metis option.inject)
  qed
  let ?m = "stampedMerge now cur v"
  have st: "ValidateTransition (o_Status cur) (o_Status v) = None" by (simp add: v_def ValidateTransition_def)
  have ne: "orderStorageKey ?m \<noteq> []" using mt ids by (auto simp: orderStorageKey_Nil matchesOrder_def setIf_def)
  let ?s = "s\<lparr>os_Orders := (if k \<noteq> orderStorageKey ?m then gput (orderStorageKey ?m) ?m (gdel k (os_Orders s)) else gput k ?m (os_Orders s))\<rparr>"
  have "applyOrderToSnapshot now v s = Inr ?s"
    using ne by (simp add: applyOrderToSnapshot_def found st Let_def result_simps)
  then have up: "upsertToSnapshot now u s = Inr ?s"
    using assms(4,5) by (simp add: upsertToSnapshot_def assms(3) v_def)
  have "gget (os_Orders (orderTouch a ?s)) (orderStorageKey ?m) = Some ?m"
    by (simp add: orderTouch_def gomap_simps)
  moreover have "o_Status ?m = o_Status cur" "o_RawStatus ?m = o_RawStatus cur" "o_CumFilledQty ?m = o_CumFilledQty cur"
    "o_AvgFillPrice ?m = o_AvgFillPrice cur" "o_OrderID ?m = o_OrderID v" "o_OrderLinkID ?m = o_OrderLinkID v"
    by (simp_all add: v_def mergeOrder_def setIf_def)
  ultimately show ?thesis
    unfolding UpsertREST_def Service_mutate_quiet [where operation = "upsertToSnapshot now u", OF assms(1) up] using ids by (metis Service.select_convs(1))
qed

theorem UpsertREST_keeps_progress_witness:
  "\<exists>sv' m. UpsertREST (quietEnv 4) (quietEnv 5) 6
       (zeroOrder\<lparr>o_OrderID := ''N9'', o_OrderLinkID := ''L1'', o_Status := OrderStatusRejected\<rparr>) sampleService = (None, sv') \<and>
     gget (os_Orders (sv_Snapshot sv')) (orderStorageKey m) = Some m \<and> o_Status m = OrderStatusNew \<and> o_OrderID m = ''N9''"
proof -
  let ?u = "zeroOrder\<lparr>o_OrderID := ''N9'', o_OrderLinkID := ''L1'', o_Status := OrderStatusRejected\<rparr>"
  have w: "gwf (os_Orders sampleOrders)" by code_simp
  have f: "findOrder sampleOrders (o_OrderID ?u) (o_OrderLinkID ?u) (orderAccount ?u) = Some (''L1'', sampleOrder)" by code_simp
  have s: "o_Status sampleOrder = OrderStatusNew" by (simp add: sampleOrder_def)
  have u: "\<forall>(j, w) \<in> set (os_Orders sampleOrders).
      matchesOrder (setIf (o_OrderID ?u) (o_OrderID sampleOrder)) (setIf (o_OrderLinkID ?u) (o_OrderLinkID sampleOrder)) (orderAccount ?u) w
        \<longrightarrow> j = ''L1''" by (simp add: sampleOrders_def)
  show ?thesis
    using UpsertREST_keeps_progress [OF sampleService_peek w f _ _ u, of 4 5 6] s by (auto simp: setIf_def)
qed

text \<open>
  C18. Fills are counted exactly once. Running any feed of executions of one order through the service,
  with duplicates and redeliveries in any order, records every execution and moves the filled
  quantity by exactly the sum of the quantities of the executions recorded, each of them once.
\<close>

theorem executions_counted_once:
  assumes "gget (os_Orders s) k = Some ord" "gwf (os_Orders s)" "gwf (os_Executions s)" "\<forall>x \<in> set xs. targets k s x"
    and "o_CumFilledQty ord = [] \<or> isPlain (o_CumFilledQty ord)" "acceptsFills ord"
  shows "\<exists>ord' added.
    gget (os_Orders (runExecutions now xs s)) k = Some ord' \<and>
    os_Executions (runExecutions now xs s) = os_Executions s @ added \<and> gwf (os_Executions s @ added) \<and>
    (\<forall>x \<in> set xs. gget (os_Executions s @ added) (executionStorageKey x) \<noteq> None) \<and>
    (\<forall>(j, x) \<in> set added. x \<in> set xs \<and> j = executionStorageKey x) \<and>
    ratOf (o_CumFilledQty ord') = ratOf (o_CumFilledQty ord) + (\<Sum>(j, x) \<leftarrow> added. ratOf (x_Qty x))"
  using assms by (rule runExecutions_sum)

theorem executions_counted_once_witness:
  "\<exists>ord'. gget (os_Orders (runExecutions 9 [sampleExecution ''e1'' ''0.5'', sampleExecution ''e1'' ''0.5''] sampleOrders)) ''L1'' = Some ord' \<and>
     o_CumFilledQty ord' = ''0.5'' \<and> ratOf (o_CumFilledQty ord') = 1 / 2"
proof -
  let ?x = "sampleExecution ''e1'' ''0.5''"
  have p: "isPlain ''0.5''" using isPlainI [of "''0''" "''5''"] by (simp add: plainDecimal_def isDigit_def byte_def)
  have v: "ratOf ''0.5'' = 1 / 2" by code_simp
  have m: "matchesOrder [] ''L1'' (executionAccount ?x) sampleOrder" by code_simp
  have t: "\<forall>x \<in> set [?x, ?x]. targets ''L1'' sampleOrders x"
    using p v m by (simp add: targets_def sampleExecution_def sampleOrders_def)
  have g: "gget (os_Orders sampleOrders) ''L1'' = Some sampleOrder" by (simp add: sampleOrders_def)
  have a: "o_CumFilledQty sampleOrder = [] \<or> isPlain (o_CumFilledQty sampleOrder)" "acceptsFills sampleOrder"
    by (simp_all add: sampleOrder_def zeroOrder_def acceptsFills_def)
  have w: "gwf (os_Orders sampleOrders)" "gwf (os_Executions sampleOrders)" by code_simp+
  obtain ord' where o: "gget (os_Orders (runExecutions 9 [?x, ?x] sampleOrders)) ''L1'' = Some ord'"
    using executions_counted_once [OF g w t a, of 9] by blast
  have "case gget (os_Orders (runExecutions 9 [?x, ?x] sampleOrders)) ''L1'' of None \<Rightarrow> False | Some y \<Rightarrow> o_CumFilledQty y = ''0.5''"
    by code_simp
  then show ?thesis using o v by auto
qed

text \<open>
  Every service operation keeps the file and the cache in step: it either reports an error and
  changes neither, or has applied its mutation to what the file held, and then the cached snapshot is
  the file's, unless the reload after the write failed, which is reported as an error although the
  file has changed.
\<close>

theorem service_mutate_coherent:
  assumes "Service_mutate env reload operation sv = (e, sv')"
  shows "(e \<noteq> None \<and> sv' = sv) \<or>
    (\<exists>s s'. orderPeek (sv_File sv) = Some s \<and> operation s = Inr s' \<and>
       sv_File sv' = FileHolds (orderTouch (ev_Now env) s') \<and>
       (if e = None then sv_Snapshot sv' = orderTouch (ev_Now env) s' else sv_Snapshot sv' = sv_Snapshot sv))"
  using assms by (cases rule: Service_mutate_cases) auto

theorem service_mutate_coherent_witness:
  "\<exists>e sv'. ApplyOrder (quietEnv 1) (quietEnv 2) 3 sampleOrder emptyService = (e, sv') \<and> sv_File sv' \<noteq> FileMissing \<and>
     (\<exists>s'. sv_File sv' = FileHolds (orderTouch 1 s'))"
proof -
  obtain e sv' where a: "ApplyOrder (quietEnv 1) (quietEnv 2) 3 sampleOrder emptyService = (e, sv')" by (metis surj_pair)
  then have f: "sv_File sv' = FileHolds sampleOrders" using sampleService_file by (simp add: sampleService_def)
  then show ?thesis
    using service_mutate_coherent [OF a [unfolded ApplyOrder_def]] a by (auto simp: emptyService_def)
qed

end
