(* ===== verification/OrderMigration.thy ===== *)
theory OrderMigration
  imports OrderInv
begin

text \<open>
  \<open>internal/orderstate/migration.go\<close>: the explicit migration of a version 1 order file and the
  restoration of its backup. A version 1 file has the shape of a snapshot with version 1. The raw
  bytes that are backed up and restored are the file's content, so a backup is a second file; the
  backup's own I/O steps have an environment of their own, in which \<open>IoCreateTemp\<close> is the creation of
  the backup file. A write that fails after the creation leaves an undecodable backup.
\<close>

section \<open>Model\<close>

record MigrationOptions =
  mo_BybitAccountAlias :: string
  mo_DryRun :: bool
  mo_BackupPath :: string

record MigrationReport =
  mr_FromVersion :: int
  mr_ToVersion :: int
  mr_Orders :: nat
  mr_Executions :: nat
  mr_BackupPath :: string
  mr_DryRun :: bool
  mr_Changed :: bool

definition relabelOrder :: "AccountKey \<Rightarrow> Order \<Rightarrow> Order" where
  "relabelOrder a ord = ord\<lparr>o_Exchange := ak_Venue a, o_Environment := ak_Environment a, o_AccountAlias := ak_Alias a\<rparr>"

definition relabelExecution :: "AccountKey \<Rightarrow> Execution \<Rightarrow> Execution" where
  "relabelExecution a x = x\<lparr>x_Exchange := ak_Venue a, x_Environment := ak_Environment a, x_AccountAlias := ak_Alias a\<rparr>"

text \<open>The loop over the old orders: the migrated orders and the category of each native order identifier.\<close>

fun migrateOrders ::
  "AccountKey \<Rightarrow> (string \<times> Order) list \<Rightarrow> (string, Order) gomap \<Rightarrow> (string, string) gomap
   \<Rightarrow> ((string, Order) gomap \<times> (string, string) gomap) result" where
  "migrateOrders a [] orders categories = Inr (orders, categories)"
| "migrateOrders a ((legacyKey, ord) # rest) orders categories =
     (if TrimSpace (o_Category ord) = [] then Inl (EFmt ''order %q has ambiguous category'' [legacyKey])
      else
        (let ord' = relabelOrder a ord;
             key = (if ak_Alias a \<noteq> ''bybit-test'' then orderStorageKey ord' else legacyKey) in
         if key = [] then Inl (EFmt ''order %q has no stable identifier'' [legacyKey])
         else if gget orders key \<noteq> None then Inl (EFmt ''order key collision after migration: %q'' [key])
         else migrateOrders a rest (gput key ord' orders)
           (if o_OrderID ord' \<noteq> [] then gput (o_OrderID ord') (o_Category ord') categories else categories)))"

fun migrateExecutions ::
  "AccountKey \<Rightarrow> (string, string) gomap \<Rightarrow> (string \<times> Execution) list \<Rightarrow> (string, Execution) gomap
   \<Rightarrow> (string, Execution) gomap result" where
  "migrateExecutions a categories [] executions = Inr executions"
| "migrateExecutions a categories ((legacyKey, x) # rest) executions =
     (let category =
        (if TrimSpace (x_Category x) = []
         then (case gget categories (x_OrderID x) of None \<Rightarrow> [] | Some c \<Rightarrow> c) else x_Category x) in
      if TrimSpace category = [] then Inl (EFmt ''execution %q has ambiguous category'' [legacyKey])
      else
        (let x' = relabelExecution a (x\<lparr>x_Category := category\<rparr>);
             key = (if ak_Alias a \<noteq> ''bybit-test'' then executionStorageKey x' else legacyKey) in
         if key = [] then Inl (EFmt ''execution %q has no stable identifier'' [legacyKey])
         else if gget executions key \<noteq> None then Inl (EFmt ''execution key collision after migration: %q'' [key])
         else migrateExecutions a categories rest (gput key x' executions)))"

definition migrateSnapshot :: "AccountKey \<Rightarrow> Snapshot \<Rightarrow> Snapshot result" where
  "migrateSnapshot a old =
     rbind (migrateOrders a (os_Orders old) [] []) (\<lambda>(orders, categories).
       rbind (migrateExecutions a categories (os_Executions old) []) (\<lambda>executions.
         Inr \<lparr>os_Version = SnapshotVersion, os_UpdatedAt = os_UpdatedAt old, os_Orders = orders, os_Executions = executions\<rparr>))"

text \<open>Writing the backup: it must not exist, and a failed write leaves a partial file behind.\<close>

definition writeBackup :: "Env \<Rightarrow> Snapshot disk \<Rightarrow> Snapshot disk \<Rightarrow> goerror option \<times> Snapshot disk" where
  "writeBackup benv raw bak =
     (case firstFault benv [IoMkdir] of
        Some e \<Rightarrow> (Some (EWrap ''create backup directory'' e), bak)
      | None \<Rightarrow>
          (if bak \<noteq> FileMissing then (Some (EText ''create migration backup''), bak)
           else case firstFault benv [IoCreateTemp] of
               Some e \<Rightarrow> (Some (EWrap ''create migration backup'' e), bak)
             | None \<Rightarrow>
                 (case firstFault benv [IoWrite, IoSync, IoClose] of
                    Some e \<Rightarrow> (Some (EWrap ''write migration backup'' e), FileCorrupt)
                  | None \<Rightarrow> (None, raw))))"

definition MigrateV1ToV2 ::
  "Env \<Rightarrow> Env \<Rightarrow> MigrationOptions \<Rightarrow> string \<Rightarrow> Snapshot disk \<Rightarrow> Snapshot disk
   \<Rightarrow> (MigrationReport \<times> goerror option) \<times> Snapshot disk \<times> Snapshot disk" where
  "MigrateV1ToV2 env benv options path f bak =
     (let report = \<lparr>mr_FromVersion = 1, mr_ToVersion = SnapshotVersion, mr_Orders = 0, mr_Executions = 0,
            mr_BackupPath = [], mr_DryRun = mo_DryRun options, mr_Changed = False\<rparr>;
          account = \<lparr>ak_Venue = VenueBybit, ak_Environment = EnvironmentTestnet, ak_Alias = mo_BybitAccountAlias options\<rparr> in
      case ev_Ctx env of Some e \<Rightarrow> ((report, Some e), f, bak)
      | None \<Rightarrow>
      (if TrimSpace (mo_BybitAccountAlias options) = [] then ((report, Some (EText ''explicit Bybit account alias is required'')), f, bak)
       else case ev_Io env IoRead of Some e \<Rightarrow> ((report, Some (EWrap ''read state for migration'' e)), f, bak)
       | None \<Rightarrow>
       (case f of
          FileMissing \<Rightarrow> ((report, Some (EText ''read state for migration'')), f, bak)
        | FileCorrupt \<Rightarrow> ((report, Some (EText ''decode state header'')), f, bak)
        | FileHolds old \<Rightarrow>
            (if os_Version old = SnapshotVersion then ((report\<lparr>mr_FromVersion := SnapshotVersion, mr_Changed := False\<rparr>, None), f, bak)
             else if os_Version old \<noteq> 1 then
               ((report, Some (EFmt ''unsupported source snapshot version %d'' [FormatInt (os_Version old)])), f, bak)
             else case AccountKey_Validate account of
                 Some e \<Rightarrow> ((report, Some (EWrap ''migration account mapping'' e)), f, bak)
               | None \<Rightarrow>
                   (case migrateSnapshot account old of
                      Inl e \<Rightarrow> ((report, Some e), f, bak)
                    | Inr migrated \<Rightarrow>
                        (let report1 = report\<lparr>mr_Orders := length (os_Orders migrated),
                               mr_Executions := length (os_Executions migrated), mr_Changed := True\<rparr> in
                         if mo_DryRun options then ((report1, None), f, bak)
                         else
                           (let backup = (if mo_BackupPath options = [] then path @ ''.v1.bak'' else mo_BackupPath options);
                                report2 = report1\<lparr>mr_BackupPath := backup\<rparr> in
                            case writeBackup benv f bak of
                              (Some e, bak') \<Rightarrow> ((report2, Some e), f, bak')
                            | (None, bak') \<Rightarrow>
                                (case FileStore_Save env migrated f of
                                   (Some e, f') \<Rightarrow> ((report2, Some (EWrap ''save v2 state'' e)), f', bak')
                                 | (None, f') \<Rightarrow> ((report2, None), f', bak')))))))))"

definition RestoreV1Backup :: "Env \<Rightarrow> Snapshot disk \<Rightarrow> Snapshot disk \<Rightarrow> goerror option \<times> Snapshot disk" where
  "RestoreV1Backup env bak f =
     (case ev_Ctx env of
        Some e \<Rightarrow> (Some e, f)
      | None \<Rightarrow>
          (case ev_Io env IoRead of
             Some e \<Rightarrow> (Some (EWrap ''read migration backup'' e), f)
           | None \<Rightarrow>
               (case bak of
                  FileMissing \<Rightarrow> (Some (EText ''read migration backup''), f)
                | FileCorrupt \<Rightarrow> (Some (EText ''backup is not a valid v1 snapshot''), f)
                | FileHolds old \<Rightarrow>
                    (if os_Version old \<noteq> 1 then (Some (EText ''backup is not a valid v1 snapshot''), f)
                     else case firstFault env [IoMkdir, IoCreateTemp, IoChmod, IoWrite, IoSync, IoClose, IoRename] of
                         Some e \<Rightarrow> (Some e, f)
                       | None \<Rightarrow> (None, bak)))))"

section \<open>What migration keeps\<close>

lemma relabel_account: "\<lbrakk>ak_Venue a \<noteq> []; ak_Environment a \<noteq> []; ak_Alias a \<noteq> []\<rbrakk> \<Longrightarrow> orderAccount (relabelOrder a ord) = a"
  by (simp add: orderAccount_def relabelOrder_def normalizedAccount_def)

text \<open>The migrated orders are the old ones, relabelled, in their order, behind what was there.\<close>

lemma migrateOrders_map:
  "migrateOrders a olds orders cats = Inr (orders', cats') \<Longrightarrow> gwf orders \<Longrightarrow>
   \<exists>new. orders' = orders @ new \<and> gwf orders' \<and> map snd new = map (relabelOrder a \<circ> snd) olds \<and>
     (ak_Alias a \<noteq> ''bybit-test'' \<longrightarrow> (\<forall>(k, w) \<in> set new. k = orderStorageKey w \<and> k \<noteq> []))"
proof (induction a olds orders cats arbitrary: orders' cats' rule: migrateOrders.induct)
  case (1 a orders categories)
  then show ?case by simp
next
  case (2 a legacyKey ord rest orders categories)
  let ?o = "relabelOrder a ord"
  let ?key = "if ak_Alias a \<noteq> ''bybit-test'' then orderStorageKey ?o else legacyKey"
  let ?cats = "if o_OrderID ?o \<noteq> [] then gput (o_OrderID ?o) (o_Category ?o) categories else categories"
  have c: "TrimSpace (o_Category ord) \<noteq> []" "?key \<noteq> []" "gget orders ?key = None"
    and r: "migrateOrders a rest (gput ?key ?o orders) ?cats = Inr (orders', cats')"
    using "2.prems"(1) by (auto simp: Let_def simp del: not_None_eq split: if_split_asm)
  have fresh: "gput ?key ?o orders = orders @ [(?key, ?o)]" by (rule gput_fresh [OF c(3)])
  have "gwf (gput ?key ?o orders)" using "2.prems"(2) by simp
  then obtain new where n: "orders' = gput ?key ?o orders @ new" "gwf orders'" "map snd new = map (relabelOrder a \<circ> snd) rest"
    "ak_Alias a \<noteq> ''bybit-test'' \<longrightarrow> (\<forall>(k, w) \<in> set new. k = orderStorageKey w \<and> k \<noteq> [])"
    using "2.IH" [OF c(1) refl refl] c(2,3) r by force
  show ?case
    by (rule exI [of _ "(?key, ?o) # new"]) (use n c(2) fresh in auto)
qed

text \<open>What an execution keeps through migration: everything but its account and a filled-in category.\<close>

definition sameFill :: "Execution \<Rightarrow> Execution \<Rightarrow> bool" where
  "sameFill x y \<longleftrightarrow> y = x\<lparr>x_Exchange := x_Exchange y, x_Environment := x_Environment y, x_AccountAlias := x_AccountAlias y,
     x_Category := x_Category y\<rparr> \<and> (TrimSpace (x_Category x) \<noteq> [] \<longrightarrow> x_Category y = x_Category x)"

lemma migrateExecutions_map:
  "migrateExecutions a cats olds xs = Inr xs' \<Longrightarrow> gwf xs \<Longrightarrow>
   \<exists>new. xs' = xs @ new \<and> gwf xs' \<and> list_all2 (\<lambda>old n. sameFill (snd old) (snd n)) olds new"
proof (induction a cats olds xs arbitrary: xs' rule: migrateExecutions.induct)
  case (1 a categories executions)
  then show ?case by simp
next
  case (2 a categories legacyKey x rest executions)
  define cat where "cat = (if TrimSpace (x_Category x) = []
    then (case gget categories (x_OrderID x) of None \<Rightarrow> [] | Some c \<Rightarrow> c) else x_Category x)"
  let ?x = "relabelExecution a (x\<lparr>x_Category := cat\<rparr>)"
  let ?key = "if ak_Alias a \<noteq> ''bybit-test'' then executionStorageKey ?x else legacyKey"
  have c: "TrimSpace cat \<noteq> []" "?key \<noteq> []" "gget executions ?key = None"
    and r: "migrateExecutions a categories rest (gput ?key ?x executions) = Inr xs'"
    using "2.prems"(1) by (auto simp: Let_def simp flip: cat_def simp del: not_None_eq split: if_split_asm)
  have fresh: "gput ?key ?x executions = executions @ [(?key, ?x)]" by (rule gput_fresh [OF c(3)])
  have "gwf (gput ?key ?x executions)" using "2.prems"(2) by simp
  then obtain new where n: "xs' = gput ?key ?x executions @ new" "gwf xs'"
    "list_all2 (\<lambda>old n. sameFill (snd old) (snd n)) rest new"
    using "2.IH" [OF cat_def c(1) refl refl] c(2,3) r by force
  have "sameFill x ?x" by (simp add: sameFill_def relabelExecution_def cat_def)
  then show ?case
    by (intro exI [of _ "(?key, ?x) # new"]) (use n fresh in auto)
qed

lemma migrateSnapshot_ok:
  assumes "migrateSnapshot a old = Inr new"
  shows "os_Version new = SnapshotVersion \<and> map snd (os_Orders new) = map (relabelOrder a \<circ> snd) (os_Orders old) \<and>
    list_all2 (\<lambda>x y. sameFill (snd x) (snd y)) (os_Executions old) (os_Executions new) \<and>
    (ak_Alias a \<noteq> ''bybit-test'' \<longrightarrow> keysInv new)"
proof -
  obtain orders cats xs where h: "migrateOrders a (os_Orders old) [] [] = Inr (orders, cats)"
    "migrateExecutions a cats (os_Executions old) [] = Inr xs"
    "new = \<lparr>os_Version = SnapshotVersion, os_UpdatedAt = os_UpdatedAt old, os_Orders = orders, os_Executions = xs\<rparr>"
    using assms by (auto simp: migrateSnapshot_def rbind_eq_Inr)
  then show ?thesis using migrateOrders_map [OF h(1)] migrateExecutions_map [OF h(2)] by (auto simp: keysInv_def)
qed

lemma writeBackup_cases:
  "writeBackup benv raw bak = (e, bak') \<Longrightarrow> (e = None \<and> bak = FileMissing \<and> bak' = raw) \<or> (e \<noteq> None \<and> (bak' = bak \<or> bak = FileMissing))"
  by (auto simp: writeBackup_def simp del: firstFault.simps split: option.splits if_splits)

lemma FileStore_Save_cases:
  "FileStore_Save env s f = (e, f') \<Longrightarrow> (e = None \<and> f' = FileHolds (orderTouch (ev_Now env) s)) \<or> (e \<noteq> None \<and> f' = f)"
  by (auto simp: FileStore_Save_def orderTouch_def simp del: firstFault.simps split: option.splits)

lemma MigrateV1ToV2_cases:
  assumes "MigrateV1ToV2 env benv options path f bak = ((rep, e), f', bak')"
  obtains (unchanged) "f' = f" "e \<noteq> None \<or> mo_DryRun options \<or> (\<exists>s. f = FileHolds s \<and> os_Version s = SnapshotVersion)"
      "e = None \<longrightarrow> bak' = bak" "bak' = bak \<or> bak = FileMissing"
  | (migrated) old new where "e = None" "\<not> mo_DryRun options" "f = FileHolds old" "os_Version old = 1" "bak = FileMissing" "bak' = f"
      "TrimSpace (mo_BybitAccountAlias options) \<noteq> []"
      "migrateSnapshot \<lparr>ak_Venue = VenueBybit, ak_Environment = EnvironmentTestnet, ak_Alias = mo_BybitAccountAlias options\<rparr> old = Inr new"
      "f' = FileHolds (orderTouch (ev_Now env) new)" "mr_Orders rep = length (os_Orders new)" "mr_Changed rep"
  using assms unfolding MigrateV1ToV2_def Let_def
  by (auto simp del: firstFault.simps split: option.splits if_splits disk.splits sum.splits prod.splits
      dest!: writeBackup_cases FileStore_Save_cases) metis

section \<open>Example data\<close>

definition legacySnapshot :: Snapshot where
  "legacySnapshot = NewSnapshot\<lparr>os_Version := 1, os_Orders := [(''L1'', sampleOrder)],
     os_Executions := [(''e1'', sampleExecution ''e1'' ''0.5'')]\<rparr>"

definition sampleOptions :: MigrationOptions where
  "sampleOptions = \<lparr>mo_BybitAccountAlias = ''bybit-test'', mo_DryRun = False, mo_BackupPath = []\<rparr>"

section \<open>Properties\<close>

text \<open>
  C19. Migration loses nothing and can be undone. When it succeeds on a version 1 file, the backup
  holds the exact old file, the new file has every order with only its account relabelled and every
  execution with only its account and a missing category filled in, in the same number; under an
  account of its own every order is stored under its canonical key; and restoring the backup gives
  back the file as it was.
\<close>

theorem migration_roundtrip:
  assumes "MigrateV1ToV2 env benv options path (FileHolds old) bak = ((rep, None), f', bak')"
    and "os_Version old = 1" "\<not> mo_DryRun options"
  shows "bak' = FileHolds old \<and>
    RestoreV1Backup (quietEnv now) bak' f' = (None, FileHolds old) \<and>
    (\<exists>new. orderPeek f' = Some new \<and> mr_Orders rep = length (os_Orders old) \<and>
       map snd (os_Orders new) = map (relabelOrder
         \<lparr>ak_Venue = VenueBybit, ak_Environment = EnvironmentTestnet, ak_Alias = mo_BybitAccountAlias options\<rparr> \<circ> snd) (os_Orders old) \<and>
       list_all2 (\<lambda>x y. sameFill (snd x) (snd y)) (os_Executions old) (os_Executions new) \<and>
       (mo_BybitAccountAlias options \<noteq> ''bybit-test'' \<longrightarrow> keysInv new))"
  using assms(1)
proof (cases rule: MigrateV1ToV2_cases)
  case unchanged
  then show ?thesis using assms(2,3) by (simp add: SnapshotVersion_def)
next
  case (migrated old' new)
  have old: "old' = old" using migrated(3) by simp
  note m = migrateSnapshot_ok [OF migrated(8) [unfolded old]]
  have len: "length (os_Orders new) = length (os_Orders old)" using m by (metis length_map)
  have "RestoreV1Backup (quietEnv now) (FileHolds old) f' = (None, FileHolds old)"
    using assms(2) by (simp add: RestoreV1Backup_def del: firstFault.simps)
  moreover have "orderPeek f' = Some (orderTouch (ev_Now env) new)" by (simp add: migrated(9))
  ultimately show ?thesis using migrated(6,10) m len keysInv_touch [of new]
    by (auto simp: orderTouch_def intro!: exI [of _ "orderTouch (ev_Now env) new"])
qed

theorem migration_roundtrip_witness:
  "\<exists>rep f'. MigrateV1ToV2 (quietEnv 3) (quietEnv 3) sampleOptions ''p'' (FileHolds legacySnapshot) FileMissing =
      ((rep, None), f', FileHolds legacySnapshot) \<and> mr_BackupPath rep = ''p.v1.bak'' \<and> f' \<noteq> FileHolds legacySnapshot \<and>
    RestoreV1Backup (quietEnv 4) (FileHolds legacySnapshot) f' = (None, FileHolds legacySnapshot)"
proof -
  let ?r = "MigrateV1ToV2 (quietEnv 3) (quietEnv 3) sampleOptions ''p'' (FileHolds legacySnapshot) FileMissing"
  obtain rep e f' b where r: "?r = ((rep, e), f', b)" by (metis surj_pair)
  have c: "snd (fst ?r) = None" "mr_BackupPath (fst (fst ?r)) = ''p.v1.bak''" "fst (snd ?r) \<noteq> FileHolds legacySnapshot" by code_simp+
  have e: "e = None" "mr_BackupPath rep = ''p.v1.bak''" "f' \<noteq> FileHolds legacySnapshot" using c unfolding r by simp_all
  have v: "os_Version legacySnapshot = 1" "\<not> mo_DryRun sampleOptions" by (simp_all add: legacySnapshot_def sampleOptions_def)
  note m = migration_roundtrip [OF r [unfolded e(1)] v, of 4]
  have b: "b = FileHolds legacySnapshot" using m by (rule conjunct1)
  have "RestoreV1Backup (quietEnv 4) (FileHolds legacySnapshot) f' = (None, FileHolds legacySnapshot)"
    using m unfolding b by (elim conjE)
  then show ?thesis using r e b by (intro exI [of _ rep] exI [of _ f']) simp
qed

text \<open>
  C20. Migration fails closed: an error at any step, a dry run, or a file that is already of version 2
  leaves the state file untouched, and an existing backup is never overwritten.
\<close>

theorem migration_fails_closed:
  assumes "MigrateV1ToV2 env benv options path f bak = ((rep, e), f', bak')"
  shows "(e \<noteq> None \<or> mo_DryRun options \<longrightarrow> f' = f) \<and> (bak \<noteq> FileMissing \<longrightarrow> bak' = bak)"
  using assms by (cases rule: MigrateV1ToV2_cases) auto

theorem migration_fails_closed_witness:
  "\<exists>rep e. MigrateV1ToV2 (quietEnv 3) (quietEnv 3) sampleOptions ''p'' (FileHolds legacySnapshot) FileCorrupt =
      ((rep, e), FileHolds legacySnapshot, FileCorrupt) \<and> e \<noteq> None"
proof -
  let ?r = "MigrateV1ToV2 (quietEnv 3) (quietEnv 3) sampleOptions ''p'' (FileHolds legacySnapshot) FileCorrupt"
  obtain rep e f' b where r: "?r = ((rep, e), f', b)" by (metis surj_pair)
  have "snd (fst ?r) \<noteq> None" by code_simp
  then have e: "e \<noteq> None" unfolding r by simp
  then show ?thesis using migration_fails_closed [OF r] r by (intro exI [of _ rep] exI [of _ e]) simp
qed

end
