(* ===== verification/FixCodec.thy ===== *)
theory FixCodec
  imports GoStrings "HOL-Library.Word"
begin

text \<open>
  \<open>internal/fix/codec.go\<close>: encoding and parsing FIX messages. A byte slice is a \<^typ>\<open>string\<close>; an \<open>int\<close>
  is a mathematical integer wherever its value was checked by \<open>strconv.Atoi\<close> or is a length, and the
  checksum accumulates in 64 bits as the code does. \<open>Parse\<close> returns the message filled so far beside
  its error, like the code. The lemmas are the round trip through \<open>ParseStrict\<close>, what an accepted
  message promises, and that the checksum catches the change of any one byte.
\<close>

section \<open>Data\<close>

definition SOH :: char where
  "SOH = CHR 0x01"

definition ErrBodyLength :: goerror where
  "ErrBodyLength = EText ''invalid FIX BodyLength''"

definition ErrCheckSum :: goerror where
  "ErrCheckSum = EText ''invalid FIX CheckSum''"

record Field =
  fd_Tag :: int
  fd_Value :: string

record Message =
  ms_BeginString :: string
  ms_BodyLength :: int
  ms_CheckSum :: int
  ms_Fields :: "Field list"
  ms_Raw :: string

abbreviation mkField :: "int \<Rightarrow> string \<Rightarrow> Field" where
  "mkField tag v \<equiv> \<lparr>fd_Tag = tag, fd_Value = v\<rparr>"

definition Message_Get :: "Message \<Rightarrow> int \<Rightarrow> string option" where
  "Message_Get m tag = map_option fd_Value (find (\<lambda>f. fd_Tag f = tag) (ms_Fields m))"

definition Message_Values :: "Message \<Rightarrow> int \<Rightarrow> string list" where
  "Message_Values m tag = map fd_Value (filter (\<lambda>f. fd_Tag f = tag) (ms_Fields m))"

section \<open>Encoding\<close>

definition CheckSum :: "string \<Rightarrow> int" where
  "CheckSum data = uint (foldl (\<lambda>s c. s + of_nat (byte c)) (0 :: 64 word) data) mod 256"

definition fieldText :: "Field \<Rightarrow> string" where
  "fieldText f = FormatInt (fd_Tag f) @ ''='' @ fd_Value f @ [SOH]"

definition bodyTag :: "int \<Rightarrow> bool" where
  "bodyTag tag \<longleftrightarrow> \<not> (tag \<le> 0 \<or> tag = 8 \<or> tag = 9 \<or> tag = 10)"

fun encodeBody :: "Field list \<Rightarrow> string result" where
  "encodeBody [] = Inr []"
| "encodeBody (f # fs) =
     (if \<not> bodyTag (fd_Tag f) then Inl (EFmt ''invalid body tag %d'' [FormatInt (fd_Tag f)])
      else if SOH \<in> set (fd_Value f) then Inl (EFmt ''tag %d contains SOH'' [FormatInt (fd_Tag f)])
      else rbind (encodeBody fs) (\<lambda>rest. Inr (fieldText f @ rest)))"

definition frameText :: "string \<Rightarrow> string \<Rightarrow> string" where
  "frameText beginString body =
     ''8='' @ beginString @ [SOH] @ ''9='' @ FormatInt (int (length body)) @ [SOH] @ body"

definition checkSumText :: "int \<Rightarrow> string" where
  "checkSumText c = ''10='' @ padZero 3 (FormatInt c) @ [SOH]"

definition Encode :: "string \<Rightarrow> Field list \<Rightarrow> string result" where
  "Encode beginString fieldList =
     (let version = (if beginString = [] then ''FIX.4.4'' else beginString) in
      case fieldList of
        [] \<Rightarrow> Inl (EText ''first FIX body field must be MsgType(35)'')
      | f # _ \<Rightarrow>
          (if fd_Tag f \<noteq> 35 then Inl (EText ''first FIX body field must be MsgType(35)'')
           else rbind (encodeBody fieldList) (\<lambda>body.
             let message = frameText version body in
             Inr (message @ checkSumText (CheckSum message)))))"

section \<open>Parsing\<close>

record ParseOptions =
  po_ValidateBodyLength :: bool
  po_ValidateCheckSum :: bool

definition parseField :: "string \<Rightarrow> Field result" where
  "parseField part =
     (case indexByte (CHR ''='') part of
        None \<Rightarrow> Inl (EFmt ''malformed FIX field %q'' [part])
      | Some separator \<Rightarrow>
          (if separator = 0 then Inl (EFmt ''malformed FIX field %q'' [part])
           else case Atoi (take separator part) of
               None \<Rightarrow> Inl (EFmt ''invalid FIX tag %q'' [take separator part])
             | Some tag \<Rightarrow>
                 (if tag \<le> 0 then Inl (EFmt ''invalid FIX tag %q'' [take separator part])
                  else Inr (mkField tag (drop (Suc separator) part)))))"

fun parseFields :: "string list \<Rightarrow> Field list result" where
  "parseFields [] = Inr []"
| "parseFields (p # ps) = rbind (parseField p) (\<lambda>f. rbind (parseFields ps) (\<lambda>fs. Inr (f # fs)))"

definition frameOffsets :: "string \<Rightarrow> (nat \<times> nat) result" where
  "frameOffsets raw =
     (case indexByte SOH raw of
        None \<Rightarrow> Inl (EText ''missing BeginString delimiter'')
      | Some firstEnd \<Rightarrow>
          (case indexByte SOH (drop (firstEnd + 1) raw) of
             None \<Rightarrow> Inl (EText ''missing BodyLength delimiter'')
           | Some secondRelative \<Rightarrow>
               (case lastIndex (SOH # ''10='') raw of
                  None \<Rightarrow> Inl (EText ''missing CheckSum field'')
                | Some markerAt \<Rightarrow> Inr (firstEnd + 1 + secondRelative + 1, markerAt + 1))))"

text \<open>The order of the standard header and trailer fields.\<close>

definition layoutError :: "Field list \<Rightarrow> goerror option" where
  "layoutError parsed =
     (if fd_Tag (parsed ! 0) \<noteq> 8 then Some (EText ''BeginString(8) must be first'')
      else if fd_Tag (parsed ! 1) \<noteq> 9 then Some (EText ''BodyLength(9) must be second'')
      else if fd_Tag (parsed ! 2) \<noteq> 35 then Some (EText ''MsgType(35) must be first body field'')
      else if fd_Tag (last parsed) \<noteq> 10 then Some (EText ''CheckSum(10) must be last'')
      else None)"

definition readBodyLength :: "string \<Rightarrow> int result" where
  "readBodyLength text =
     (case Atoi text of
        None \<Rightarrow> Inl (EWrap ''%q'' ErrBodyLength)
      | Some n \<Rightarrow> (if n < 0 then Inl (EWrap ''%q'' ErrBodyLength) else Inr n))"

definition readCheckSum :: "string \<Rightarrow> int result" where
  "readCheckSum text =
     (case Atoi text of
        None \<Rightarrow> Inl (EWrap ''%q'' ErrCheckSum)
      | Some n \<Rightarrow> (if length text \<noteq> 3 \<or> n < 0 \<or> n > 255 then Inl (EWrap ''%q'' ErrCheckSum) else Inr n))"

definition validateFrame :: "ParseOptions \<Rightarrow> string \<Rightarrow> int \<Rightarrow> int \<Rightarrow> goerror option" where
  "validateFrame options raw bodyLength checksum =
     (case frameOffsets raw of
        Inl e \<Rightarrow> Some e
      | Inr (bodyStart, checksumStart) \<Rightarrow>
          (if po_ValidateBodyLength options \<and> int checksumStart - int bodyStart \<noteq> bodyLength
           then Some (EWrap ''declared=%d actual=%d'' ErrBodyLength)
           else if po_ValidateCheckSum options \<and> CheckSum (take checksumStart raw) \<noteq> checksum
           then Some (EWrap ''declared=%03d actual=%03d'' ErrCheckSum)
           else None))"

definition parseParsed :: "ParseOptions \<Rightarrow> string \<Rightarrow> Message \<Rightarrow> Field list \<Rightarrow> Message \<times> goerror option" where
  "parseParsed options raw message parsed =
     (case layoutError parsed of
        Some e \<Rightarrow> (message, Some e)
      | None \<Rightarrow>
          (let m1 = message\<lparr>ms_BeginString := fd_Value (parsed ! 0)\<rparr> in
           case readBodyLength (fd_Value (parsed ! 1)) of
             Inl e \<Rightarrow> (m1, Some e)
           | Inr bodyLength \<Rightarrow>
               (let m2 = m1\<lparr>ms_BodyLength := bodyLength\<rparr> in
                case readCheckSum (fd_Value (last parsed)) of
                  Inl e \<Rightarrow> (m2, Some e)
                | Inr checksum \<Rightarrow>
                    (m2\<lparr>ms_CheckSum := checksum, ms_Fields := butlast (drop 2 parsed)\<rparr>,
                     validateFrame options raw bodyLength checksum))))"

definition Parse :: "string \<Rightarrow> ParseOptions \<Rightarrow> Message \<times> goerror option" where
  "Parse raw options =
     (let message = \<lparr>ms_BeginString = [], ms_BodyLength = 0, ms_CheckSum = 0, ms_Fields = [], ms_Raw = raw\<rparr> in
      if raw = [] \<or> last raw \<noteq> SOH then (message, Some (EText ''FIX message must end with SOH''))
      else
        (let parts = splitByte SOH (butlast raw) in
         if length parts < 4 then (message, Some (EText ''FIX message has too few fields''))
         else case parseFields parts of
             Inl e \<Rightarrow> (message, Some e)
           | Inr parsed \<Rightarrow> parseParsed options raw message parsed))"

definition ParseStrict :: "string \<Rightarrow> Message \<times> goerror option" where
  "ParseStrict raw = Parse raw \<lparr>po_ValidateBodyLength = True, po_ValidateCheckSum = True\<rparr>"

definition ParseLenient :: "string \<Rightarrow> Message \<times> goerror option" where
  "ParseLenient raw = Parse raw \<lparr>po_ValidateBodyLength = False, po_ValidateCheckSum = False\<rparr>"

section \<open>The checksum\<close>

definition byteSum :: "string \<Rightarrow> int" where
  "byteSum s = (\<Sum>c\<leftarrow>s. int (byte c))"

lemma CheckSum_word: "uint (foldl (\<lambda>s c. s + of_nat (byte c)) (w :: 64 word) data) = (uint w + byteSum data) mod 2 ^ 64"
proof (induction data arbitrary: w)
  case Nil
  then show ?case using uint_lt2p [of w] by (simp add: byteSum_def)
next
  case (Cons c data)
  have "uint (w + of_nat (byte c)) = (uint w + int (byte c)) mod 2 ^ 64"
    by (simp add: uint_word_ariths unsigned_of_nat take_bit_eq_mod mod_simps zmod_int)
  then show ?case by (simp add: Cons.IH byteSum_def mod_simps add.assoc)
qed

lemma CheckSum_byteSum: "CheckSum data = byteSum data mod 256"
  using CheckSum_word [of 0 data] by (simp add: CheckSum_def mod_mod_cancel)

lemma CheckSum_range: "0 \<le> CheckSum data" "CheckSum data < 256"
  by (simp_all add: CheckSum_byteSum)

lemma byteSum_append [simp]: "byteSum (xs @ ys) = byteSum xs + byteSum ys"
  by (simp add: byteSum_def)

lemma CheckSum_code [code]: "CheckSum data = foldl (\<lambda>s c. s + of_char c) 0 data mod 256"
proof -
  have "foldl (\<lambda>s c. s + of_char c) a data = a + byteSum data" for a
    by (induction data arbitrary: a) (auto simp: byteSum_def of_char_byte)
  then show ?thesis by (simp add: CheckSum_byteSum)
qed

text \<open>Changing any one byte changes the checksum.\<close>

lemma CheckSum_one_byte:
  assumes "c \<noteq> d"
  shows "CheckSum (xs @ c # ys) \<noteq> CheckSum (xs @ d # ys)"
proof
  assume "CheckSum (xs @ c # ys) = CheckSum (xs @ d # ys)"
  then have "256 dvd int (byte c) - int (byte d)"
    by (simp add: CheckSum_byteSum byteSum_def mod_eq_dvd_iff)
  then obtain k where "int (byte c) - int (byte d) = 256 * k" by (auto elim: dvdE)
  moreover from this have "k < 1" "- 1 < k" using byte_less [of c] byte_less [of d] by linarith+
  ultimately have "int (byte c) = int (byte d)" by simp
  then show False using assms byte_inj [of c d] by simp
qed

section \<open>The wire fields of a message\<close>

definition partText :: "Field \<Rightarrow> string" where
  "partText f = FormatInt (fd_Tag f) @ CHR ''='' # fd_Value f"

definition wireText :: "Field list \<Rightarrow> string" where
  "wireText fs = concat (map (\<lambda>f. partText f @ [SOH]) fs)"

lemma wireText_simps [simp]:
  "wireText [] = []" "wireText (f # fs) = partText f @ SOH # wireText fs" "wireText (fs @ gs) = wireText fs @ wireText gs"
  by (simp_all add: wireText_def)

lemma wireText_ends: "fs \<noteq> [] \<Longrightarrow> \<exists>t. wireText fs = t @ [SOH]"
  by (induction fs rule: rev_induct) auto

lemma encodeBody_ok:
  "encodeBody fs = Inr b \<Longrightarrow> b = wireText fs \<and> (\<forall>f\<in>set fs. bodyTag (fd_Tag f) \<and> SOH \<notin> set (fd_Value f))"
  by (induction fs arbitrary: b) (auto simp: result_simps fieldText_def partText_def split: if_splits)

lemma FormatInt_digits: "0 \<le> n \<Longrightarrow> c \<in> set (FormatInt n) \<Longrightarrow> isDigit c"
  by (simp add: FormatInt_def natText_digits)

lemma FormatInt_ne [simp]: "FormatInt n \<noteq> []"
  by (simp add: FormatInt_def)

lemma FormatInt_small [simp]: "FormatInt 8 = ''8''" "FormatInt 9 = ''9''" "FormatInt 10 = ''10''"
  by (simp_all add: FormatInt_def natText.simps digitChar_def char_of_def)

lemma isDigit_plain: "isDigit c \<Longrightarrow> c \<noteq> CHR ''='' \<and> c \<noteq> SOH"
  by (auto simp: isDigit_def byte_def SOH_def)

lemma FormatInt_plain: "0 \<le> n \<Longrightarrow> CHR ''='' \<notin> set (FormatInt n) \<and> SOH \<notin> set (FormatInt n)"
  using FormatInt_digits isDigit_plain by blast

lemma SOH_neq [simp]: "SOH \<noteq> CHR ''=''" "CHR ''='' \<noteq> SOH"
  by (simp_all add: SOH_def)

lemma partText_plain: "0 \<le> fd_Tag f \<Longrightarrow> SOH \<notin> set (fd_Value f) \<Longrightarrow> SOH \<notin> set (partText f)"
  by (simp add: partText_def FormatInt_plain)

lemma partText_index: "0 \<le> fd_Tag f \<Longrightarrow> indexByte (CHR ''='') (partText f @ z) = Some (length (FormatInt (fd_Tag f)))"
  by (simp add: partText_def indexByte_append FormatInt_plain)

lemma parseField_partText:
  assumes "0 < fd_Tag f"
  shows "parseField (partText f @ z) =
     (if fd_Tag f < 2 ^ 63 then Inr (f\<lparr>fd_Value := fd_Value f @ z\<rparr>)
      else Inl (EFmt ''invalid FIX tag %q'' [FormatInt (fd_Tag f)]))"
proof -
  have i: "indexByte (CHR ''='') (partText f @ z) = Some (length (FormatInt (fd_Tag f)))"
    using assms by (simp add: partText_index)
  have t: "take (length (FormatInt (fd_Tag f))) (partText f @ z) = FormatInt (fd_Tag f)"
    and d: "drop (Suc (length (FormatInt (fd_Tag f)))) (partText f @ z) = fd_Value f @ z"
    by (simp_all add: partText_def)
  show ?thesis
  proof (cases "fd_Tag f < 2 ^ 63")
    case True
    moreover have "mkField (fd_Tag f) (fd_Value f @ z) = f\<lparr>fd_Value := fd_Value f @ z\<rparr>" by (cases f) simp
    ultimately show ?thesis using assms by (simp add: parseField_def i t d Atoi_FormatInt del: take_append drop_append)
  next
    case False
    have "\<not> isDigit (CHR ''-'')" "\<not> isDigit (CHR ''+'')" by (simp_all add: isDigit_def byte_def)
    moreover obtain c r where cr: "FormatInt (fd_Tag f) = c # r" by (cases "FormatInt (fd_Tag f)") auto
    moreover have "isDigit c" using FormatInt_digits [of "fd_Tag f" c] assms cr by simp
    moreover have "parseDigits (FormatInt (fd_Tag f)) = Some (fd_Tag f)" using assms by (simp add: FormatInt_def)
    ultimately have "Atoi (FormatInt (fd_Tag f)) = None" using False by (auto simp: Atoi_def Let_def)
    then show ?thesis using False by (simp add: parseField_def i t d del: take_append drop_append)
  qed
qed

lemma parseFields_wire:
  "(\<And>f. f \<in> set fs \<Longrightarrow> 0 < fd_Tag f \<and> fd_Tag f < 2 ^ 63) \<Longrightarrow> parseFields (map partText fs) = Inr fs"
proof (induction fs)
  case (Cons f fs)
  then show ?case using parseField_partText [of f "[]"] by simp
qed simp

lemma parseFields_last:
  "parseFields ps = Inr fs \<Longrightarrow> ps \<noteq> [] \<Longrightarrow> fs \<noteq> [] \<and> parseField (last ps) = Inr (last fs)"
  by (induction ps arbitrary: fs) (force simp: result_simps)+

lemma parseFields_length: "parseFields ps = Inr fs \<Longrightarrow> length fs = length ps"
  by (induction ps arbitrary: fs) (auto simp: result_simps)

lemma splitByte_glue: "splitByte c (g @ c # q) = splitByte c g @ splitByte c q"
  by (induction g) (auto split: list.splits)

lemma splitByte_last: "c \<notin> set q \<Longrightarrow> last (splitByte c (g @ c # q)) = q"
  by (simp add: splitByte_glue splitByte_plain)

lemma splitByte_wire:
  assumes "\<And>f. f \<in> set fs \<Longrightarrow> 0 \<le> fd_Tag f \<and> SOH \<notin> set (fd_Value f)" "SOH \<notin> set q"
  shows "splitByte SOH (wireText fs @ q) = map partText fs @ [q]"
proof -
  have "SOH \<notin> set p" if "p \<in> set (map partText fs)" for p
    using that assms(1) by (auto simp: partText_plain)
  from splitByte_concat [of "map partText fs" SOH q, OF this assms(2)] show ?thesis
    by (simp add: wireText_def comp_def)
qed

lemma split_wireText:
  assumes "fs \<noteq> []" "\<And>f. f \<in> set fs \<Longrightarrow> 0 \<le> fd_Tag f \<and> SOH \<notin> set (fd_Value f)"
  shows "splitByte SOH (butlast (wireText fs)) = map partText fs"
proof -
  obtain gs f where fs: "fs = gs @ [f]" using assms(1) by (cases fs rule: rev_cases) auto
  then have "butlast (wireText fs) = wireText gs @ partText f" by (simp add: butlast_append)
  moreover have "SOH \<notin> set (partText f)" using assms(2) [of f] fs by (simp add: partText_plain)
  ultimately show ?thesis using splitByte_wire [of gs "partText f"] assms(2) fs by simp
qed

section \<open>The trailer\<close>

lemma lastIndex_tail: "SOH \<notin> set t \<Longrightarrow> lastIndex (SOH # ''10='') (t @ [SOH]) = None"
  by (induction t) auto

lemma lastIndex_trailer:
  assumes "SOH \<notin> set t"
  shows "lastIndex (SOH # ''10='') (p @ SOH # ''10='' @ t @ [SOH]) = Some (length p)"
proof -
  have "lastIndex (SOH # ''10='') (''10='' @ t @ [SOH]) = None"
    using lastIndex_tail [of "''10='' @ t"] assms by (simp add: SOH_def)
  then have "lastIndex (SOH # ''10='') (SOH # ''10='' @ t @ [SOH]) = Some 0" by simp
  then show ?thesis using lastIndex_append [of "SOH # ''10=''" "SOH # ''10='' @ t @ [SOH]" 0 p] by simp
qed

definition digits3 :: "int \<Rightarrow> string" where
  "digits3 c = padZero 3 (FormatInt c)"

lemma digits3:
  assumes "0 \<le> c" "c < 256"
  shows "length (digits3 c) = 3" "readCheckSum (digits3 c) = Inr c" "SOH \<notin> set (digits3 c)"
proof -
  have n: "length (natText c) \<le> 3" using natText_length [of c 3] assms by simp
  then show l: "length (digits3 c) = 3" using assms by (simp add: digits3_def FormatInt_def length_padZero)
  have d: "list_all isDigit (digits3 c)" using assms by (simp add: digits3_def FormatInt_def padZero_digits)
  then have "parseDigits (digits3 c) = Some c"
    using assms l by (auto simp: parseDigits_def digits3_def FormatInt_def)
  then have "Atoi (digits3 c) = Some c" using assms by (intro Atoi_digits) simp_all
  then show "readCheckSum (digits3 c) = Inr c" using assms l by (simp add: readCheckSum_def)
  show "SOH \<notin> set (digits3 c)" using d isDigit_plain by (auto simp: list_all_iff)
qed

lemma checkSumText_eq: "checkSumText c = ''10='' @ digits3 c @ [SOH]"
  by (simp add: checkSumText_def digits3_def)

text \<open>The shape of an encoded message.\<close>

lemma Encode_shape:
  assumes "Encode bs fs = Inr raw"
  shows "\<exists>v. v = (if bs = [] then ''FIX.4.4'' else bs) \<and>
     raw = frameText v (wireText fs) @ checkSumText (CheckSum (frameText v (wireText fs))) \<and>
     fs \<noteq> [] \<and> fd_Tag (hd fs) = 35 \<and> (\<forall>f\<in>set fs. bodyTag (fd_Tag f) \<and> SOH \<notin> set (fd_Value f))"
  using assms by (auto simp: Encode_def Let_def result_simps dest: encodeBody_ok split: list.splits if_splits simp del: encodeBody.simps)

lemma frameText_wire:
  "frameText v (wireText fs) = wireText (mkField 8 v # mkField 9 (FormatInt (int (length (wireText fs)))) # fs)"
  by (simp add: frameText_def partText_def)

lemma frameText_ends: "fs \<noteq> [] \<Longrightarrow> \<exists>t. frameText v (wireText fs) = t @ [SOH]"
  using wireText_ends [of fs] by (auto simp: frameText_def)

lemma frameText_last: "\<exists>g. frameText v (wireText (gs @ [f])) = g @ SOH # partText f @ [SOH]"
proof -
  obtain a b where "frameText v (wireText (gs @ [f])) = wireText (a # b # gs @ [f])" using frameText_wire by blast
  moreover obtain t where "wireText (a # b # gs) = t @ [SOH]" using wireText_ends by blast
  moreover have "wireText (a # b # gs @ [f]) = wireText (a # b # gs) @ partText f @ [SOH]" by simp
  ultimately show ?thesis by (metis append.assoc append_Cons append_Nil)
qed

lemma frameOffsets_eqI:
  "indexByte SOH raw = Some a \<Longrightarrow> indexByte SOH (drop (a + 1) raw) = Some b \<Longrightarrow>
   lastIndex (SOH # ''10='') raw = Some k \<Longrightarrow> frameOffsets raw = Inr (a + 1 + b + 1, k + 1)"
  by (simp add: frameOffsets_def)

lemma frameOffsets_frame:
  assumes "SOH \<notin> set v" "fs \<noteq> []" "SOH \<notin> set t"
  defines "F \<equiv> frameText v (wireText fs)"
  shows "frameOffsets (F @ ''10='' @ t @ [SOH]) = Inr (length F - length (wireText fs), length F)"
proof -
  let ?n = "FormatInt (int (length (wireText fs)))"
  obtain p where p: "F = p @ [SOH]" using frameText_ends [OF assms(2)] F_def by blast
  let ?raw = "F @ ''10='' @ t @ [SOH]"
  have F: "?raw = (''8='' @ v) @ SOH # (''9='' @ ?n) @ SOH # wireText fs @ ''10='' @ t @ [SOH]"
    by (simp add: F_def frameText_def)
  have "indexByte SOH ?raw = Some (length (''8='' @ v))"
    unfolding F by (rule indexByte_append) (use assms(1) in \<open>simp add: SOH_def\<close>)
  moreover have "drop (length (''8='' @ v) + 1) ?raw = (''9='' @ ?n) @ SOH # wireText fs @ ''10='' @ t @ [SOH]"
    unfolding F by simp
  moreover have "indexByte SOH ((''9='' @ ?n) @ SOH # wireText fs @ ''10='' @ t @ [SOH]) = Some (length (''9='' @ ?n))"
    by (rule indexByte_append) (use FormatInt_plain [of "int (length (wireText fs))"] in \<open>simp add: SOH_def\<close>)
  moreover have "lastIndex (SOH # ''10='') ?raw = Some (length p)"
    using lastIndex_trailer [OF assms(3), of p] by (simp add: p)
  moreover have "length F = length (''8='' @ v) + 1 + length (''9='' @ ?n) + 1 + length (wireText fs)"
    by (simp add: F_def frameText_def)
  ultimately show ?thesis using frameOffsets_eqI [of ?raw "length (''8='' @ v)" "length (''9='' @ ?n)" "length p"] p
    by (metis (no_types, lifting) add_diff_cancel_right' length_append_singleton Suc_eq_plus1)
qed

section \<open>What ParseStrict accepts\<close>

lemma ParseStrict_acceptsD:
  assumes "ParseStrict raw = (m, None)"
  obtains parsed n c bodyStart checksumStart where
    "raw \<noteq> []" "last raw = SOH" "parseFields (splitByte SOH (butlast raw)) = Inr parsed" "4 \<le> length parsed"
    "layoutError parsed = None" "readBodyLength (fd_Value (parsed ! 1)) = Inr n"
    "readCheckSum (fd_Value (last parsed)) = Inr c" "frameOffsets raw = Inr (bodyStart, checksumStart)"
    "int checksumStart - int bodyStart = n" "CheckSum (take checksumStart raw) = c"
    "m = \<lparr>ms_BeginString = fd_Value (parsed ! 0), ms_BodyLength = n, ms_CheckSum = c,
          ms_Fields = butlast (drop 2 parsed), ms_Raw = raw\<rparr>"
proof -
  have raw: "raw \<noteq> []" "last raw = SOH" "\<not> length (splitByte SOH (butlast raw)) < 4"
    using assms by (auto simp: ParseStrict_def Parse_def Let_def split: if_splits)
  then obtain parsed where parsed: "parseFields (splitByte SOH (butlast raw)) = Inr parsed"
    using assms by (auto simp: ParseStrict_def Parse_def Let_def split: sum.splits)
  have "length parsed = length (splitByte SOH (butlast raw))" using parsed by (rule parseFields_length)
  then have len: "4 \<le> length parsed" using raw(3) by simp
  let ?z = "\<lparr>ms_BeginString = [], ms_BodyLength = 0, ms_CheckSum = 0, ms_Fields = [], ms_Raw = raw\<rparr>"
  have pp: "parseParsed \<lparr>po_ValidateBodyLength = True, po_ValidateCheckSum = True\<rparr> raw ?z parsed = (m, None)"
    using assms raw parsed by (simp add: ParseStrict_def Parse_def)
  then have lay: "layoutError parsed = None" by (simp add: parseParsed_def split: option.splits)
  then obtain n where n: "readBodyLength (fd_Value (parsed ! 1)) = Inr n"
    using pp by (simp add: parseParsed_def Let_def split: sum.splits)
  then obtain c where c: "readCheckSum (fd_Value (last parsed)) = Inr c"
    using pp lay by (simp add: parseParsed_def Let_def split: sum.splits)
  have m: "m = \<lparr>ms_BeginString = fd_Value (parsed ! 0), ms_BodyLength = n, ms_CheckSum = c,
          ms_Fields = butlast (drop 2 parsed), ms_Raw = raw\<rparr>"
    and v: "validateFrame \<lparr>po_ValidateBodyLength = True, po_ValidateCheckSum = True\<rparr> raw n c = None"
    using pp lay n c by (simp_all add: parseParsed_def)
  then obtain b k where "frameOffsets raw = Inr (b, k)" "int k - int b = n" "CheckSum (take k raw) = c"
    by (auto simp: validateFrame_def split: sum.splits prod.splits if_splits)
  then show thesis using that raw parsed len lay n c m by blast
qed

lemma lastIndex_SomeD: "lastIndex m s = Some i \<Longrightarrow> i \<le> length s \<and> prefix m (drop i s)"
  by (induction s arbitrary: i) (auto split: option.splits if_splits)

lemma lastIndex_marker: "lastIndex (c # m) s = Some i \<Longrightarrow> i + 1 \<le> length s \<and> (\<exists>t. drop (i + 1) s = m @ t)"
proof -
  assume a: "lastIndex (c # m) s = Some i"
  obtain t where t: "drop i s = c # m @ t" using lastIndex_SomeD [OF a] by (auto simp: prefix_def)
  then have "i < length s" by (metis drop_all list.distinct(1) not_less)
  moreover have "drop (i + 1) s = m @ t" using t by (metis add.commute drop_drop drop0 drop_Suc_Cons One_nat_def)
  ultimately show ?thesis by auto
qed

lemma readCheckSum_of_trailer: "parseField (''10='' @ t) = Inr (mkField 10 t)"
  using parseField_partText [of "mkField 10 t" "[]"] by (simp add: partText_def)

text \<open>A byte changed before the delimiter of the trailer: the checksum differs.\<close>

lemma corrupt_before:
  assumes "i < length p" "d \<noteq> p ! i" "length t = 3" "readCheckSum t = Inr (CheckSum (p @ [SOH]))" "SOH \<notin> set t"
    "ParseStrict (p[i := d] @ SOH # ''10='' @ t @ [SOH]) = (m, None)"
  shows False
proof -
  let ?raw = "p[i := d] @ SOH # ''10='' @ t @ [SOH]"
  obtain parsed n c b k where a: "parseFields (splitByte SOH (butlast ?raw)) = Inr parsed"
    "readCheckSum (fd_Value (last parsed)) = Inr c" "frameOffsets ?raw = Inr (b, k)" "CheckSum (take k ?raw) = c"
    using ParseStrict_acceptsD [OF assms(6)] by metis
  have "butlast ?raw = p[i := d] @ SOH # ''10='' @ t" by (simp add: butlast_append)
  then have "last (splitByte SOH (butlast ?raw)) = ''10='' @ t"
    using splitByte_last [of SOH "''10='' @ t" "p[i := d]"] assms(5) by (simp add: SOH_def)
  then have "last parsed = mkField 10 t" using parseFields_last [OF a(1)] readCheckSum_of_trailer [of t] by simp
  moreover have "k = length (p[i := d]) + 1"
    using a(3) lastIndex_trailer [OF assms(5), of "p[i := d]"] by (auto simp: frameOffsets_def split: option.splits)
  ultimately have "CheckSum (p[i := d] @ [SOH]) = CheckSum (p @ [SOH])" using a(2,4) assms(4) by simp
  moreover have "p[i := d] @ [SOH] = take i p @ d # drop (Suc i) p @ [SOH]" using assms(1) by (simp add: upd_conv_take_nth_drop)
  moreover have "p @ [SOH] = take i p @ p ! i # drop (Suc i) p @ [SOH]"
    using assms(1) by (metis append.assoc append_Cons id_take_nth_drop)
  ultimately show False using CheckSum_one_byte [OF assms(2), of "take i p" "drop (Suc i) p @ [SOH]"] by metis
qed

text \<open>The delimiter of the trailer itself changed: the last field is the last body field.\<close>

lemma corrupt_delimiter:
  assumes "0 < fd_Tag f" "fd_Tag f \<noteq> 10" "SOH \<notin> set (fd_Value f)" "SOH \<notin> set t" "d \<noteq> SOH"
    "ParseStrict ((g @ SOH # partText f) @ d # ''10='' @ t @ [SOH]) = (m, None)"
  shows False
proof -
  let ?raw = "(g @ SOH # partText f) @ d # ''10='' @ t @ [SOH]"
  obtain parsed where a: "parseFields (splitByte SOH (butlast ?raw)) = Inr parsed" "layoutError parsed = None"
    using ParseStrict_acceptsD [OF assms(6)] by metis
  have "butlast ?raw = g @ SOH # partText f @ d # ''10='' @ t" by (simp add: butlast_append)
  moreover have "SOH \<notin> set (partText f @ d # ''10='' @ t)"
    using assms partText_plain [of f] by (simp add: SOH_def)
  ultimately have "last (splitByte SOH (butlast ?raw)) = partText f @ d # ''10='' @ t"
    using splitByte_last by metis
  then have "fd_Tag (last parsed) = fd_Tag f"
    using parseFields_last [OF a(1)] parseField_partText [OF assms(1), of "d # ''10='' @ t"] by (auto split: if_splits)
  then show False using a(2) assms(2) by (simp add: layoutError_def split: if_splits)
qed

lemma Encode_parses:
  assumes "Encode beginString fs = Inr raw" "SOH \<notin> set beginString"
    "\<And>f. f \<in> set fs \<Longrightarrow> fd_Tag f < 2 ^ 63" "length raw < 2 ^ 63"
  shows "ParseStrict raw =
     (\<lparr>ms_BeginString = (if beginString = [] then ''FIX.4.4'' else beginString),
       ms_BodyLength = int (length (concat (map fieldText fs))),
       ms_CheckSum = CheckSum (take (length raw - 7) raw), ms_Fields = fs, ms_Raw = raw\<rparr>, None)"
proof -
  obtain v where v: "v = (if beginString = [] then ''FIX.4.4'' else beginString)"
    and raw: "raw = frameText v (wireText fs) @ checkSumText (CheckSum (frameText v (wireText fs)))"
    and fs: "fs \<noteq> []" "fd_Tag (hd fs) = 35" "\<forall>f\<in>set fs. bodyTag (fd_Tag f) \<and> SOH \<notin> set (fd_Value f)"
    using Encode_shape [OF assms(1)] by blast
  define F c n where "F = frameText v (wireText fs)" and "c = CheckSum F" and "n = int (length (wireText fs))"
  have c: "0 \<le> c" "c < 256" by (simp_all add: c_def CheckSum_range)
  note d = digits3 [OF c]
  have raw': "raw = F @ ''10='' @ digits3 c @ [SOH]" by (simp add: raw F_def c_def checkSumText_eq)
  define W where "W = mkField 8 v # mkField 9 (FormatInt n) # fs @ [mkField 10 (digits3 c)]"
  have sv: "SOH \<notin> set v" using assms(2) v by (simp add: SOH_def)
  have n: "0 \<le> n" "n < 2 ^ 63" using assms(4) by (simp_all add: raw' F_def n_def frameText_def)
  have W: "0 < fd_Tag f \<and> fd_Tag f < 2 ^ 63 \<and> SOH \<notin> set (fd_Value f)" if "f \<in> set W" for f
    using that fs(3) sv d(3) assms(3) FormatInt_plain [OF n(1)] by (auto simp: W_def bodyTag_def)
  have "raw = wireText W" by (simp add: raw' W_def F_def frameText_wire n_def) (simp add: partText_def)
  then have split: "splitByte SOH (butlast raw) = map partText W"
    using W split_wireText [of W] by (simp add: W_def less_imp_le)
  have parsed: "parseFields (map partText W) = Inr W" using W by (intro parseFields_wire) blast
  obtain f gs where fg: "fs = f # gs" using fs(1) by (cases fs) auto
  have lay: "layoutError W = None" using fs(2) by (simp add: layoutError_def W_def fg)
  have bl: "readBodyLength (FormatInt n) = Inr n" using n by (simp add: readBodyLength_def Atoi_FormatInt)
  have "frameOffsets raw = Inr (length F - length (wireText fs), length F)"
    unfolding raw' F_def by (rule frameOffsets_frame [OF sv fs(1) d(3)])
  moreover have "length (wireText fs) \<le> length F" by (simp add: F_def frameText_def)
  ultimately have val: "validateFrame \<lparr>po_ValidateBodyLength = True, po_ValidateCheckSum = True\<rparr> raw n c = None"
    by (simp add: validateFrame_def n_def c_def raw')
  have "length (map partText W) \<ge> 4" by (simp add: W_def fg)
  moreover have "raw \<noteq> []" "last raw = SOH" by (simp_all add: raw')
  moreover have "butlast (drop 2 W) = fs" by (simp add: W_def butlast_append)
  moreover have "take (length raw - 7) raw = F" using d(1) by (simp add: raw')
  moreover have "wireText fs = concat (map fieldText fs)" by (simp add: wireText_def fieldText_def [abs_def] partText_def)
  ultimately show ?thesis
    using d(2) lay bl val parsed split v fs(1)
    by (simp add: ParseStrict_def Parse_def Let_def parseParsed_def W_def c_def n_def)
qed

section \<open>Properties\<close>

text \<open>
  C37. Encoding followed by strict parsing returns the fields. Whatever the body fields are, duplicate
  tags and values with \<open>=\<close> included, a message that \<open>Encode\<close> produces is accepted by \<open>ParseStrict\<close>
  with exactly those fields in order, the begin string (the default one for an empty argument), the
  body length and the checksum of the text before the trailer. The begin string must be free of the
  delimiter, which \<open>Encode\<close> does not check, and tags and lengths must fit an \<open>int\<close>.
\<close>

theorem Encode_ParseStrict_roundtrip:
  assumes "Encode beginString fs = Inr raw" "SOH \<notin> set beginString"
    "\<And>f. f \<in> set fs \<Longrightarrow> fd_Tag f < 2 ^ 63" "length raw < 2 ^ 63"
  shows "ParseStrict raw =
     (\<lparr>ms_BeginString = (if beginString = [] then ''FIX.4.4'' else beginString),
       ms_BodyLength = int (length (concat (map fieldText fs))),
       ms_CheckSum = CheckSum (take (length raw - 7) raw), ms_Fields = fs, ms_Raw = raw\<rparr>, None)"
  by (rule Encode_parses [OF assms])

theorem Encode_ParseStrict_roundtrip_witness:
  "\<exists>raw. Encode [] [mkField 35 ''D'', mkField 58 ''a=b'', mkField 58 []] = Inr raw \<and>
     ms_Fields (fst (ParseStrict raw)) = [mkField 35 ''D'', mkField 58 ''a=b'', mkField 58 []] \<and> snd (ParseStrict raw) = None"
proof -
  obtain raw where raw: "Encode [] [mkField 35 ''D'', mkField 58 ''a=b'', mkField 58 []] = Inr raw" "length raw < 2 ^ 63"
    by (simp add: Encode_def bodyTag_def SOH_def fieldText_def FormatInt_def natText.simps digitChar_def char_of_def
        frameText_def checkSumText_eq digits3 CheckSum_range)
  have "fd_Tag f < 2 ^ 63" if "f \<in> set [mkField 35 ''D'', mkField 58 ''a=b'', mkField 58 []]" for f
    using that by auto
  from Encode_ParseStrict_roundtrip [OF raw(1) _ this raw(2)] raw(1) show ?thesis by simp
qed

text \<open>
  What strict parsing promises. An accepted message is a header, a body and a trailer that starts
  with the checksum field: the declared body length is the number of bytes between them, the declared
  checksum is the sum of all the bytes before the trailer modulo 256, and the first body field is the
  message type.
\<close>

theorem ParseStrict_sound:
  assumes "ParseStrict raw = (m, None)"
  shows "\<exists>header body trailer. raw = header @ body @ ''10='' @ trailer \<and> ms_BodyLength m = int (length body) \<and>
     ms_CheckSum m = (\<Sum>c\<leftarrow>header @ body. int (byte c)) mod 256 \<and>
     (\<exists>t. Message_Get m 35 = Some t) \<and> ms_Raw m = raw \<and> last raw = SOH"
proof -
  obtain parsed n c b k where p: "last raw = SOH" "4 \<le> length parsed" "layoutError parsed = None"
    "readBodyLength (fd_Value (parsed ! 1)) = Inr n" "frameOffsets raw = Inr (b, k)" "int k - int b = n"
    "CheckSum (take k raw) = c"
    "m = \<lparr>ms_BeginString = fd_Value (parsed ! 0), ms_BodyLength = n, ms_CheckSum = c,
          ms_Fields = butlast (drop 2 parsed), ms_Raw = raw\<rparr>"
    using ParseStrict_acceptsD [OF assms] by metis
  obtain j where j: "lastIndex (SOH # ''10='') raw = Some j" "k = j + 1"
    using p(5) by (auto simp: frameOffsets_def split: option.splits)
  obtain t where t: "drop k raw = ''10='' @ t" "k \<le> length raw"
    using lastIndex_marker [OF j(1)] j(2) by auto
  have n: "0 \<le> n" using p(4) by (auto simp: readBodyLength_def split: option.splits if_splits)
  then have bk: "b \<le> k" using p(6) by simp
  have "raw = take b raw @ drop b (take k raw) @ ''10='' @ t"
    using t bk by (metis append.assoc append_take_drop_id min.absorb1 take_take)
  moreover have "ms_BodyLength m = int (length (drop b (take k raw)))" using p(6,8) t(2) bk by simp
  moreover have "take b raw @ drop b (take k raw) = take k raw"
    using bk by (metis append_take_drop_id min.absorb1 take_take)
  moreover have "ms_CheckSum m = byteSum (take k raw) mod 256" using p(7,8) by (simp add: CheckSum_byteSum)
  moreover have "\<exists>t. Message_Get m 35 = Some t"
  proof -
    obtain x y z u us where "parsed = x # y # z # u # us" using p(2) by (auto simp: numeral_eq_Suc Suc_le_length_iff)
    then show ?thesis using p(3,8) by (auto simp: Message_Get_def layoutError_def split: if_splits)
  qed
  ultimately show ?thesis using p(1,8) unfolding byteSum_def by (metis Message.select_convs(5))
qed

text \<open>
  C38. One corrupted byte is never accepted. Changing any one byte before the trailer of an encoded
  message, a delimiter included, makes \<open>ParseStrict\<close> fail: either the checksum no longer matches, or
  the trailer has been swallowed by the last body field.
\<close>

theorem corrupted_byte_rejected:
  assumes "Encode beginString fs = Inr raw" "i + 7 < length raw" "d \<noteq> raw ! i"
  shows "snd (ParseStrict (raw[i := d])) \<noteq> None"
proof
  assume "snd (ParseStrict (raw[i := d])) = None"
  then obtain m where acc: "ParseStrict (raw[i := d]) = (m, None)" by (cases "ParseStrict (raw[i := d])") auto
  obtain v where raw: "raw = frameText v (wireText fs) @ checkSumText (CheckSum (frameText v (wireText fs)))"
    and fs: "fs \<noteq> []" "\<forall>f\<in>set fs. bodyTag (fd_Tag f) \<and> SOH \<notin> set (fd_Value f)"
    using Encode_shape [OF assms(1)] by blast
  define F c where "F = frameText v (wireText fs)" and "c = CheckSum F"
  have c: "0 \<le> c" "c < 256" by (simp_all add: c_def CheckSum_range)
  note ds = digits3 [OF c]
  have raw': "raw = F @ ''10='' @ digits3 c @ [SOH]" by (simp add: raw F_def c_def checkSumText_eq)
  then have i: "i < length F" using assms(2) ds(1) by simp
  then have upd: "raw[i := d] = F[i := d] @ ''10='' @ digits3 c @ [SOH]" by (simp add: raw' list_update_append1)
  obtain p where p: "F = p @ [SOH]" using frameText_ends [OF fs(1)] F_def by blast
  show False
  proof (cases "i < length p")
    case True
    then have upd': "raw[i := d] = p[i := d] @ SOH # ''10='' @ digits3 c @ [SOH]"
      by (simp add: upd p list_update_append1)
    have "d \<noteq> p ! i" using assms(3) True by (simp add: raw' p nth_append)
    then show False using corrupt_before [OF True _ ds(1) _ ds(3) acc [unfolded upd']] ds(2) by (simp add: c_def p)
  next
    case False
    then have "i = length p" using i p by simp
    then have upd': "raw[i := d] = p @ d # ''10='' @ digits3 c @ [SOH]" by (simp add: raw' p)
    obtain gs f where gf: "fs = gs @ [f]" using fs(1) by (cases fs rule: rev_cases) auto
    then obtain g where "p = g @ SOH # partText f" using p frameText_last [of v gs f] by (auto simp: F_def)
    moreover have "d \<noteq> SOH" using assms(3) False i by (simp add: raw' p nth_append)
    ultimately show False using corrupt_delimiter [of f "digits3 c" d g m] acc gf fs(2) ds(3) by (auto simp: upd' bodyTag_def)
  qed
qed

text \<open>A whole heartbeat message, for the witnesses.\<close>

definition heartbeatFrame :: string where
  "heartbeatFrame = ''8=FIX.4.4'' @ [SOH] @ ''9=5'' @ [SOH] @ ''35=0'' @ [SOH] @ ''10=163'' @ [SOH]"

lemma Encode_heartbeat: "Encode [] [mkField 35 ''0''] = Inr heartbeatFrame"
  by code_simp

theorem corrupted_byte_rejected_witness:
  "Encode [] [mkField 35 ''0''] = Inr heartbeatFrame \<and> snd (ParseStrict (heartbeatFrame[18 := CHR ''X''])) \<noteq> None"
  using corrupted_byte_rejected [OF Encode_heartbeat, of 18 "CHR ''X''"]
  by (simp add: Encode_heartbeat heartbeatFrame_def SOH_def)

theorem ParseStrict_sound_witness:
  "ParseStrict heartbeatFrame = (fst (ParseStrict heartbeatFrame), None) \<and>
   (\<exists>header body trailer. heartbeatFrame = header @ body @ ''10='' @ trailer \<and>
      ms_BodyLength (fst (ParseStrict heartbeatFrame)) = int (length body))"
proof -
  have acc: "ParseStrict heartbeatFrame = (fst (ParseStrict heartbeatFrame), None)" by code_simp
  from ParseStrict_sound [OF acc] acc show ?thesis by blast
qed

end
