(* ===== verification/FixFramer.thy ===== *)
theory FixFramer
  imports FixCodec
begin

text \<open>
  \<open>internal/fix/framer.go\<close>: cutting a byte stream into FIX frames. An \<open>int\<close> is 64 bits wide and its
  additions wrap around, which the code relies on nowhere but suffers from; a slice expression out of
  bounds is a panic, an outcome of its own. The interface of a framing routine is the locale
  \<open>framing\<close>: its client lemmas say that the chunks in which a stream arrives do not matter.
\<close>

section \<open>The framer\<close>

datatype FrameStep = NeedMore | Frame string nat | FrameError goerror | FramePanic

text \<open>The end of \<open>nextFrame\<close>, from the declared body length on.\<close>

definition frameAt :: "string \<Rightarrow> int \<Rightarrow> nat \<Rightarrow> int \<Rightarrow> FrameStep" where
  "frameAt buffer maxSize bodyStart bodyLength =
     (let checksumStart = wrap64 (int bodyStart + bodyLength);
          frameEnd = wrap64 (checksumStart + 7) in
      if frameEnd > maxSize then FrameError (EFmt ''FIX frame exceeds %d bytes'' [FormatInt maxSize])
      else if int (length buffer) < frameEnd then NeedMore
      else if checksumStart < 0 \<or> int (length buffer) < checksumStart then FramePanic
      else if \<not> prefix ''10='' (drop (nat checksumStart) buffer) then FrameError ErrBodyLength
      else if frameEnd < 1 then FramePanic
      else if buffer ! nat (frameEnd - 1) \<noteq> SOH then FrameError ErrBodyLength
      else Frame (take (nat frameEnd) buffer) (nat frameEnd))"

text \<open>
  \<open>nextFrame\<close> up to the declared body length: an early return, or the start of the body and the length.
\<close>

definition frameHeader :: "string \<Rightarrow> FrameStep + nat \<times> int" where
  "frameHeader buffer =
     (if length buffer < 2 then Inl NeedMore
      else if \<not> prefix ''8='' buffer then Inl (FrameError (EText ''FIX frame does not begin with tag 8''))
      else case indexByte SOH buffer of
          None \<Rightarrow> Inl NeedMore
        | Some firstEnd \<Rightarrow>
            (case indexByte SOH (drop (firstEnd + 1) buffer) of
               None \<Rightarrow> Inl NeedMore
             | Some secondEndRelative \<Rightarrow>
                 (let secondEnd = firstEnd + 1 + secondEndRelative;
                      bodyLengthField = take secondEndRelative (drop (firstEnd + 1) buffer) in
                  if \<not> prefix ''9='' bodyLengthField then Inl (FrameError (EText ''FIX BodyLength(9) is not second''))
                  else case Atoi (drop 2 bodyLengthField) of
                      None \<Rightarrow> Inl (FrameError ErrBodyLength)
                    | Some bodyLength \<Rightarrow>
                        (if bodyLength < 0 then Inl (FrameError ErrBodyLength)
                         else Inr (secondEnd + 1, bodyLength)))))"

definition nextFrame :: "string \<Rightarrow> int \<Rightarrow> FrameStep" where
  "nextFrame buffer maxSize =
     (case frameHeader buffer of
        Inl early \<Rightarrow> early
      | Inr (bodyStart, bodyLength) \<Rightarrow> frameAt buffer maxSize bodyStart bodyLength)"

lemma frameHeader_early: "frameHeader buffer = Inl s \<Longrightarrow> s = NeedMore \<or> (\<exists>e. s = FrameError e)"
  by (auto simp: frameHeader_def Let_def split: if_splits option.splits)

lemma nextFrame_consumes:
  assumes "nextFrame buffer maxSize = Frame f n"
  shows "0 < n \<and> n \<le> length buffer \<and> f = take n buffer \<and> int n \<le> maxSize"
proof -
  obtain b l where "frameAt buffer maxSize b l = Frame f n"
    using assms frameHeader_early [of buffer] by (auto simp: nextFrame_def split: sum.splits)
  then show ?thesis by (auto simp: frameAt_def Let_def split: if_splits)
qed

text \<open>How a call of \<open>Feed\<close> ends.\<close>

datatype FeedOutcome = FeedOK | FeedError goerror | FeedPanic

function feedLoop :: "int \<Rightarrow> string \<Rightarrow> string \<times> string list \<times> FeedOutcome" where
  "feedLoop maxSize buffer =
     (case nextFrame buffer maxSize of
        FrameError e \<Rightarrow> (buffer, [], FeedError e)
      | FramePanic \<Rightarrow> (buffer, [], FeedPanic)
      | NeedMore \<Rightarrow>
          (buffer, [], if int (length buffer) > maxSize then FeedError (EFmt ''FIX frame exceeds %d bytes'' [FormatInt maxSize])
                       else FeedOK)
      | Frame frame consumed \<Rightarrow>
          (case feedLoop maxSize (drop consumed buffer) of (rest, frames, out) \<Rightarrow> (rest, frame # frames, out)))"
  by pat_completeness auto
termination
  by (relation "measure (\<lambda>(_, buffer). length buffer)") (auto dest: nextFrame_consumes)

declare feedLoop.simps [simp del]

record Framer =
  fr_buffer :: string
  fr_MaxSize :: int

definition Feed :: "string \<Rightarrow> Framer \<Rightarrow> Framer \<times> string list \<times> FeedOutcome" where
  "Feed data f =
     (let maxSize = (if fr_MaxSize f \<le> 0 then 2 ^ 20 else fr_MaxSize f) in
      case feedLoop maxSize (fr_buffer f @ data) of
        (rest, frames, out) \<Rightarrow> (f\<lparr>fr_buffer := rest, fr_MaxSize := maxSize\<rparr>, frames, out))"

definition Buffered :: "Framer \<Rightarrow> int" where
  "Buffered f = int (length (fr_buffer f))"

section \<open>The framing interface\<close>

text \<open>
  What a client needs of a frame cutter: the loop is its iteration, and a frame found in a buffer is
  found in every longer buffer. Then a stream may be fed in any chunks.
\<close>

locale framing =
  fixes cut :: "string \<Rightarrow> FrameStep" and iter :: "string \<Rightarrow> string \<times> string list \<times> FeedOutcome" and limit :: int
  assumes iter_unfold: "iter buffer =
     (case cut buffer of
        FrameError e \<Rightarrow> (buffer, [], FeedError e)
      | FramePanic \<Rightarrow> (buffer, [], FeedPanic)
      | NeedMore \<Rightarrow> (buffer, [], if int (length buffer) > limit then FeedError (EFmt ''FIX frame exceeds %d bytes'' [FormatInt limit])
                       else FeedOK)
      | Frame frame consumed \<Rightarrow>
          (case iter (drop consumed buffer) of (rest, frames, out) \<Rightarrow> (rest, frame # frames, out)))"
    and cut_stable: "cut buffer = Frame f n \<Longrightarrow> cut (buffer @ ext) = Frame f n"
    and cut_within: "cut buffer = Frame f n \<Longrightarrow> 0 < n \<and> n \<le> length buffer"
begin

lemma iter_more:
  "iter buffer = (rest, frames, FeedOK) \<Longrightarrow>
   iter (buffer @ ext) = (case iter (rest @ ext) of (rest', frames', out) \<Rightarrow> (rest', frames @ frames', out))"
proof (induction "length buffer" arbitrary: buffer frames rule: less_induct)
  case less
  show ?case
  proof (cases "cut buffer")
    case (Frame f n)
    obtain fs where fs: "iter (drop n buffer) = (rest, fs, FeedOK)" "frames = f # fs"
      using less.prems Frame iter_unfold [of buffer] by (auto split: prod.splits)
    have n: "0 < n" "n \<le> length buffer" using cut_within [OF Frame] by auto
    have "iter (drop n buffer @ ext) = (case iter (rest @ ext) of (rest', frames', out) \<Rightarrow> (rest', fs @ frames', out))"
      by (rule less.hyps) (use n fs in auto)
    moreover have "iter (buffer @ ext) = (case iter (drop n buffer @ ext) of (rest, frames, out) \<Rightarrow> (rest, f # frames, out))"
      using iter_unfold [of "buffer @ ext"] cut_stable [OF Frame, of ext] n by simp
    ultimately show ?thesis using fs(2) by (simp split: prod.splits)
  qed (use less.prems iter_unfold [of buffer] in \<open>auto split: if_splits prod.splits\<close>)
qed

lemma iter_frames:
  assumes "\<And>f rest. f \<in> set fs \<Longrightarrow> cut (f @ rest) = Frame f (length f)"
  shows "iter (concat fs @ rest) = (case iter rest of (r, frames, out) \<Rightarrow> (r, fs @ frames, out))"
  using assms
proof (induction fs)
  case (Cons f fs)
  have c: "cut (f @ concat fs @ rest) = Frame f (length f)" using Cons.prems by simp
  then have "iter (f @ concat fs @ rest) = (case iter (concat fs @ rest) of (r, frames, out) \<Rightarrow> (r, f # frames, out))"
    using iter_unfold [of "f @ concat fs @ rest"] by simp
  moreover have "iter (concat fs @ rest) = (case iter rest of (r, frames, out) \<Rightarrow> (r, fs @ frames, out))"
    by (rule Cons.IH) (use Cons.prems in auto)
  ultimately show ?case by (simp split: prod.splits)
qed (simp split: prod.splits)

end

section \<open>The framer provides the interface\<close>

lemma frameAt_stable: "frameAt buffer maxSize b l = Frame f n \<Longrightarrow> frameAt (buffer @ ext) maxSize b l = Frame f n"
proof -
  assume a: "frameAt buffer maxSize b l = Frame f n"
  define k where "k = wrap64 (int b + l)"
  define e where "e = wrap64 (k + 7)"
  note defs = frameAt_def Let_def k_def [symmetric] e_def [symmetric]
  have "prefix ''10='' (drop (nat k) buffer)" "0 \<le> k" "k \<le> int (length buffer)" using a by (auto simp: defs split: if_splits)
  moreover from this have "prefix ''10='' (drop (nat k) (buffer @ ext))" by (simp add: nat_le_iff)
  moreover have "1 \<le> e" "e \<le> int (length buffer)" using a by (auto simp: defs split: if_splits)
  moreover from this have "(buffer @ ext) ! nat (e - 1) = buffer ! nat (e - 1)" "take (nat e) (buffer @ ext) = take (nat e) buffer"
    by (simp_all add: nth_append nat_less_iff)
  ultimately show ?thesis using a by (auto simp: defs simp del: take_append drop_append split: if_splits)
qed

lemma frameHeader_stable:
  assumes "frameHeader buffer = x" "x \<noteq> Inl NeedMore"
  shows "frameHeader (buffer @ ext) = x"
proof (cases "prefix ''8='' buffer")
  case False
  have "2 \<le> length buffer" using assms by (cases "length buffer < 2") (auto simp: frameHeader_def)
  then obtain a b r where "buffer = a # b # r" by (auto simp: numeral_eq_Suc Suc_le_length_iff)
  then have "\<not> prefix ''8='' (buffer @ ext)" using False by (auto simp: prefix_def)
  then show ?thesis using False \<open>2 \<le> length buffer\<close> assms(1) by (simp add: frameHeader_def)
next
  case p: True
  then have l: "2 \<le> length buffer" using prefix_length_le by fastforce
  obtain a where a: "indexByte SOH buffer = Some a"
    using assms l p by (cases "indexByte SOH buffer") (auto simp: frameHeader_def)
  obtain r where r: "indexByte SOH (drop (a + 1) buffer) = Some r"
    using assms l p a by (cases "indexByte SOH (drop (a + 1) buffer)") (auto simp: frameHeader_def)
  have al: "a < length buffer" and rl: "r < length (drop (a + 1) buffer)"
    using indexByte_SomeD [OF a] indexByte_SomeD [OF r] by auto
  have d: "drop (a + 1) (buffer @ ext) = drop (a + 1) buffer @ ext" using al by simp
  have "take r (drop (a + 1) (buffer @ ext)) = take r (drop (a + 1) buffer)" using rl by (simp add: d)
  moreover have "indexByte SOH (drop (a + 1) (buffer @ ext)) = Some r" using r indexByte_prefix d by simp
  moreover have "prefix ''8='' (buffer @ ext)" using p by (rule prefix_prefix)
  ultimately show ?thesis
    using assms(1) p a r l indexByte_prefix [OF a, of ext]
    by (simp add: frameHeader_def Let_def del: drop_append take_append)
qed

lemma nextFrame_stable:
  assumes "nextFrame buffer maxSize = Frame f n"
  shows "nextFrame (buffer @ ext) maxSize = Frame f n"
proof -
  obtain b l where h: "frameHeader buffer = Inr (b, l)" "frameAt buffer maxSize b l = Frame f n"
    using assms frameHeader_early [of buffer] by (auto simp: nextFrame_def split: sum.splits)
  then have "frameHeader (buffer @ ext) = Inr (b, l)" by (intro frameHeader_stable) auto
  with h show ?thesis by (simp add: nextFrame_def frameAt_stable)
qed

text \<open>A buffer that will become a frame is not refused before.\<close>

lemma frameAt_prefix:
  assumes "frameAt (buffer @ ext) maxSize b l = Frame f n"
  shows "frameAt buffer maxSize b l = NeedMore \<or> frameAt buffer maxSize b l = Frame f n"
proof -
  define k where "k = wrap64 (int b + l)"
  define e where "e = wrap64 (k + 7)"
  have a: "e \<le> maxSize" "0 \<le> k" "prefix ''10='' (drop (nat k) (buffer @ ext))" "1 \<le> e"
    "(buffer @ ext) ! nat (e - 1) = SOH" "f = take (nat e) (buffer @ ext)" "n = nat e"
    using assms by (auto simp: frameAt_def Let_def k_def e_def split: if_splits)
  have k: "e = k + 7" using a(2,4) wrap64_range(2) [of "int b + l"] by (auto simp: e_def k_def intro!: wrap64_plus7)
  show ?thesis
  proof (cases "int (length buffer) < e")
    case True
    then show ?thesis using a(1) by (simp add: frameAt_def Let_def k_def [symmetric] e_def [symmetric])
  next
    case False
    then have n: "nat k + 7 \<le> length buffer" using k a(2) by simp
    have "take 3 (drop (nat k) (buffer @ ext)) = take 3 (drop (nat k) buffer)" using n by simp
    then have "prefix ''10='' (drop (nat k) buffer)"
      using a(3) by (metis (no_types, lifting) append_eq_conv_conj length_Cons list.size(3) numeral_3_eq_3 prefix_def take_is_prefix)
    moreover have "nat (e - 1) < length buffer" using a(2) n k by simp
    then have "buffer ! nat (e - 1) = SOH" using a(5) by (simp add: nth_append)
    moreover have "f = take (nat e) buffer" using a(2,6) n k by simp
    ultimately show ?thesis using False a k by (simp add: frameAt_def Let_def k_def [symmetric] e_def [symmetric])
  qed
qed

lemma nextFrame_prefix:
  assumes "nextFrame (buffer @ ext) maxSize = Frame f n"
  shows "nextFrame buffer maxSize = NeedMore \<or> nextFrame buffer maxSize = Frame f n"
proof (cases "frameHeader buffer = Inl NeedMore")
  case False
  then have "frameHeader (buffer @ ext) = frameHeader buffer" using frameHeader_stable by blast
  then show ?thesis using assms frameAt_prefix [of buffer ext maxSize] by (simp add: nextFrame_def split: sum.splits prod.splits)
qed (simp add: nextFrame_def)

interpretation framer: framing "\<lambda>buffer. nextFrame buffer maxSize" "feedLoop maxSize" maxSize for maxSize
proof unfold_locales
  show "feedLoop maxSize buffer = (case nextFrame buffer maxSize of
      FrameError e \<Rightarrow> (buffer, [], FeedError e)
    | FramePanic \<Rightarrow> (buffer, [], FeedPanic)
    | NeedMore \<Rightarrow> (buffer, [], if int (length buffer) > maxSize then FeedError (EFmt ''FIX frame exceeds %d bytes'' [FormatInt maxSize]) else FeedOK)
    | Frame frame consumed \<Rightarrow>
        (case feedLoop maxSize (drop consumed buffer) of (rest, frames, out) \<Rightarrow> (rest, frame # frames, out)))" for buffer
    by (rule feedLoop.simps)
qed (use nextFrame_stable nextFrame_consumes in blast)+

section \<open>Overflow\<close>

lemma frameHeader_bounds:
  assumes "frameHeader buffer = Inr (b, l)"
  shows "b \<le> length buffer" "0 \<le> l" "l < 2 ^ 63"
proof -
  obtain a r where r: "indexByte SOH buffer = Some a" "indexByte SOH (drop (a + 1) buffer) = Some r" "b = a + 1 + r + 1"
    using assms by (auto simp: frameHeader_def Let_def split: if_splits option.splits)
  show "b \<le> length buffer" using indexByte_SomeD [OF r(1)] indexByte_SomeD [OF r(2)] r(3) by auto
  obtain t where "Atoi t = Some l" "\<not> l < 0"
    using assms by (auto simp: frameHeader_def Let_def split: if_splits option.splits)
  then show "0 \<le> l" "l < 2 ^ 63" using Atoi_range [of t l] by auto
qed

lemma frameAt_panics:
  assumes "b \<le> length buffer" "0 \<le> l" "l < 2 ^ 63" "length buffer < 2 ^ 62" "0 < maxSize"
  shows "frameAt buffer maxSize b l = FramePanic \<longleftrightarrow> 2 ^ 63 \<le> int b + l + 7"
proof -
  let ?s = "int b + l"
  consider (fits) "?s + 7 < 2 ^ 63" | (edge) "?s < 2 ^ 63" "2 ^ 63 \<le> ?s + 7" | (over) "2 ^ 63 \<le> ?s"
    by linarith
  then show ?thesis
  proof cases
    case fits
    then show ?thesis using assms by (simp add: frameAt_def Let_def)
  next
    case edge
    then have "wrap64 ?s = ?s" "wrap64 (?s + 7) = ?s + 7 - 2 ^ 64" using assms by (simp_all add: wrap64_over)
    then show ?thesis using edge assms by (simp add: frameAt_def Let_def)
  next
    case over
    then have "wrap64 ?s = ?s - 2 ^ 64" using assms by (simp add: wrap64_over)
    moreover have "wrap64 (?s - 2 ^ 64 + 7) = ?s - 2 ^ 64 + 7" using over assms by (intro wrap64_id) simp_all
    ultimately show ?thesis using over assms by (simp add: frameAt_def Let_def)
  qed
qed

section \<open>Encoded messages\<close>

lemma nextFrame_header:
  assumes "SOH \<notin> set v" "SOH \<notin> set t" "Atoi t = Some l" "0 \<le> l"
    "buffer = (''8='' @ v) @ SOH # (''9='' @ t) @ SOH # rest"
  shows "nextFrame buffer maxSize = frameAt buffer maxSize (length v + length t + 6) l"
proof -
  have "indexByte SOH buffer = Some (length (''8='' @ v))"
    unfolding assms(5) by (rule indexByte_append) (use assms(1) in \<open>simp add: SOH_def\<close>)
  moreover have "drop (length (''8='' @ v) + 1) buffer = (''9='' @ t) @ SOH # rest" by (simp add: assms(5))
  moreover have "indexByte SOH ((''9='' @ t) @ SOH # rest) = Some (length (''9='' @ t))"
    by (rule indexByte_append) (use assms(2) in \<open>simp add: SOH_def\<close>)
  moreover have "take (length (''9='' @ t)) (drop (length (''8='' @ v) + 1) buffer) = ''9='' @ t" by (simp add: assms(5))
  moreover have "2 \<le> length buffer" "prefix ''8='' buffer" by (simp_all add: assms(5))
  ultimately have "frameHeader buffer = Inr (length (''8='' @ v) + 1 + length (''9='' @ t) + 1, l)"
    using assms(3,4) by (simp add: frameHeader_def Let_def)
  then show ?thesis by (simp add: nextFrame_def numeral_eq_Suc)
qed

text \<open>An encoded message at the head of a buffer is cut off as one frame.\<close>

lemma nextFrame_encoded:
  assumes "Encode bs fs = Inr raw" "SOH \<notin> set bs" "int (length raw) \<le> maxSize" "maxSize < 2 ^ 63"
  shows "nextFrame (raw @ rest) maxSize = Frame raw (length raw)"
proof -
  obtain v where v: "v = (if bs = [] then ''FIX.4.4'' else bs)"
    and raw: "raw = frameText v (wireText fs) @ checkSumText (CheckSum (frameText v (wireText fs)))"
    using Encode_shape [OF assms(1)] by blast
  define F c n where "F = frameText v (wireText fs)" and "c = CheckSum F" and "n = int (length (wireText fs))"
  have c: "0 \<le> c" "c < 256" by (simp_all add: c_def CheckSum_range)
  have raw': "raw = F @ ''10='' @ digits3 c @ [SOH]" by (simp add: raw F_def c_def checkSumText_eq)
  have len: "length raw = length F + 7" using digits3(1) [OF c] by (simp add: raw')
  have F: "F = (''8='' @ v) @ SOH # (''9='' @ FormatInt n) @ SOH # wireText fs" by (simp add: F_def frameText_def n_def)
  have start: "int (length v + length (FormatInt n) + 6) + n = int (length F)" by (simp add: F n_def)
  have n: "0 \<le> n" "n < 2 ^ 63" using assms(3,4) start len by (simp_all add: n_def)
  have "nextFrame (raw @ rest) maxSize = frameAt (raw @ rest) maxSize (length v + length (FormatInt n) + 6) n"
  proof (rule nextFrame_header)
    show "SOH \<notin> set v" using assms(2) v by (simp add: SOH_def)
    show "SOH \<notin> set (FormatInt n)" using FormatInt_plain n by simp
    show "Atoi (FormatInt n) = Some n" using n by (simp add: Atoi_FormatInt)
    show "raw @ rest = (''8='' @ v) @ SOH # (''9='' @ FormatInt n) @ SOH # (wireText fs @ ''10='' @ digits3 c @ [SOH] @ rest)"
      by (simp add: raw' F)
  qed (rule n)
  moreover have "frameAt (raw @ rest) maxSize (length v + length (FormatInt n) + 6) n = Frame raw (length raw)"
  proof -
    have "wrap64 (int (length v + length (FormatInt n) + 6) + n) = int (length F)"
      using start assms(3,4) len by (subst start) simp
    moreover have "wrap64 (int (length F) + 7) = int (length raw)" using assms(3,4) len by simp
    moreover have "(raw @ rest) ! (length raw - 1) = SOH" by (simp add: raw' nth_append)
    moreover have "prefix ''10='' (drop (length F) (raw @ rest))" by (simp add: raw')
    moreover have "nat (int (length raw) - 1) = length raw - 1" by simp
    ultimately show ?thesis using assms(3) len by (simp add: frameAt_def Let_def)
  qed
  ultimately show ?thesis by simp
qed

section \<open>Feeding a stream in chunks\<close>

text \<open>Feeding chunk after chunk, as the read loop does, until an error or a panic.\<close>

fun feedAll :: "string list \<Rightarrow> Framer \<Rightarrow> Framer \<times> string list \<times> FeedOutcome" where
  "feedAll [] f = (f, [], FeedOK)"
| "feedAll (chunk # chunks) f =
     (case Feed chunk f of
        (f', frames, FeedOK) \<Rightarrow>
          (case feedAll chunks f' of (f'', frames', out) \<Rightarrow> (f'', frames @ frames', out))
      | bad \<Rightarrow> bad)"

definition frameLimit :: "Framer \<Rightarrow> int" where
  "frameLimit f = (if fr_MaxSize f \<le> 0 then 2 ^ 20 else fr_MaxSize f)"

text \<open>A prefix of a stream of encoded messages is never refused.\<close>

lemma feedLoop_prefix:
  assumes "\<And>raw rest. raw \<in> set raws \<Longrightarrow> nextFrame (raw @ rest) maxSize = Frame raw (length raw)"
    "buffer @ ext = concat raws" "0 \<le> maxSize"
  shows "\<exists>rest frames. feedLoop maxSize buffer = (rest, frames, FeedOK)"
  using assms
proof (induction raws arbitrary: buffer)
  case Nil
  then show ?case by (simp add: feedLoop.simps nextFrame_def frameHeader_def)
next
  case (Cons raw raws)
  have c: "nextFrame (buffer @ ext) maxSize = Frame raw (length raw)" using Cons.prems by simp
  show ?case
  proof (cases "nextFrame buffer maxSize = NeedMore")
    case True
    have "length buffer < length raw"
    proof (rule ccontr)
      assume "\<not> length buffer < length raw"
      then obtain b where "buffer = raw @ b"
        using Cons.prems(2) by (metis append_eq_append_conv_if concat.simps(2) append_take_drop_id not_less)
      then show False using True Cons.prems(1) [of raw b] by simp
    qed
    then have "int (length buffer) \<le> maxSize" using nextFrame_consumes [OF c] by simp
    then show ?thesis using True by (simp add: feedLoop.simps)
  next
    case False
    then have f: "nextFrame buffer maxSize = Frame raw (length raw)" using nextFrame_prefix [OF c] by simp
    then obtain b where b: "buffer = raw @ b" using nextFrame_consumes [OF f] by (metis append_take_drop_id)
    then have "b @ ext = concat raws" using Cons.prems(2) by simp
    then obtain rest frames where "feedLoop maxSize b = (rest, frames, FeedOK)" using Cons by fastforce
    then show ?thesis using f b by (simp add: feedLoop.simps [of _ "raw @ b"])
  qed
qed

lemma feedLoop_settled: "feedLoop m buffer = (rest, frames, FeedOK) \<Longrightarrow> feedLoop m rest = (rest, [], FeedOK)"
  using framer.iter_more [of m buffer rest frames "[]"] by (auto split: prod.splits)

lemma frameLimit_pos: "0 < frameLimit f"
  by (simp add: frameLimit_def)

lemma Feed_feedLoop:
  "feedLoop (frameLimit f) (fr_buffer f @ data) = (rest, frames, out) \<Longrightarrow>
   Feed data f = (f\<lparr>fr_buffer := rest, fr_MaxSize := frameLimit f\<rparr>, frames, out)"
  by (simp add: Feed_def frameLimit_def Let_def)

text \<open>As long as no prefix of the stream is refused, the chunks make no difference.\<close>

lemma feedAll_feedLoop:
  assumes "feedLoop (frameLimit f) (fr_buffer f) = (fr_buffer f, [], FeedOK)"
    "\<And>p q. concat chunks = p @ q \<Longrightarrow> \<exists>rest frames. feedLoop (frameLimit f) (fr_buffer f @ p) = (rest, frames, FeedOK)"
  shows "\<exists>f' frames. feedAll chunks f = (f', frames, FeedOK) \<and>
     feedLoop (frameLimit f) (fr_buffer f @ concat chunks) = (fr_buffer f', frames, FeedOK)"
  using assms
proof (induction chunks arbitrary: f)
  case Nil
  then show ?case by simp
next
  case (Cons c chunks)
  let ?L = "frameLimit f"
  obtain r fs where r: "feedLoop ?L (fr_buffer f @ c) = (r, fs, FeedOK)" using Cons.prems(2) [of c "concat chunks"] by auto
  define f1 where "f1 = f\<lparr>fr_buffer := r, fr_MaxSize := ?L\<rparr>"
  have f1: "frameLimit f1 = ?L" "fr_buffer f1 = r" using frameLimit_pos [of f] by (simp_all add: f1_def frameLimit_def)
  have ext: "feedLoop ?L (fr_buffer f @ c @ p) = (case feedLoop ?L (r @ p) of (r', fs', out) \<Rightarrow> (r', fs @ fs', out))" for p
    using framer.iter_more [OF r, of p] by simp
  have "\<exists>rest frames. feedLoop ?L (r @ p) = (rest, frames, FeedOK)" if "concat chunks = p @ q" for p q
    using Cons.prems(2) [of "c @ p" q] that ext [of p] by (auto split: prod.splits)
  then obtain f' frames where f': "feedAll chunks f1 = (f', frames, FeedOK)"
    "feedLoop ?L (r @ concat chunks) = (fr_buffer f', frames, FeedOK)"
    using Cons.IH [of f1] feedLoop_settled [OF r] by (auto simp: f1)
  then show ?case using ext [of "concat chunks"] Feed_feedLoop [OF r] by (auto simp: f1_def)
qed

lemma framer_stream:
  assumes "concat chunks = concat raws" "fr_buffer f = []" "frameLimit f < 2 ^ 63"
    "\<And>raw. raw \<in> set raws \<Longrightarrow>
       \<exists>beginString fs. Encode beginString fs = Inr raw \<and> SOH \<notin> set beginString \<and> int (length raw) \<le> frameLimit f"
  shows "\<exists>f'. feedAll chunks f = (f', raws, FeedOK) \<and> Buffered f' = 0"
proof -
  have cut: "nextFrame (raw @ rest) (frameLimit f) = Frame raw (length raw)" if "raw \<in> set raws" for raw rest
    using assms(3,4) that nextFrame_encoded by blast
  have empty: "feedLoop (frameLimit f) [] = ([], [], FeedOK)"
    using frameLimit_pos [of f] by (simp add: feedLoop.simps nextFrame_def frameHeader_def)
  have ok: "\<exists>rest frames. feedLoop (frameLimit f) p = (rest, frames, FeedOK)" if "concat chunks = p @ q" for p q
    using feedLoop_prefix [OF cut, of raws p q] that frameLimit_pos [of f] by (simp add: assms(1))
  have "feedLoop (frameLimit f) (concat raws @ []) = ([], raws, FeedOK)"
    using framer.iter_frames [OF cut, of raws "[]"] empty by simp
  moreover obtain f' frames where "feedAll chunks f = (f', frames, FeedOK)"
    "feedLoop (frameLimit f) (fr_buffer f @ concat chunks) = (fr_buffer f', frames, FeedOK)"
    using feedAll_feedLoop [of f chunks] empty ok by (auto simp: assms(2))
  ultimately show ?thesis by (simp add: assms(1,2) Buffered_def)
qed

section \<open>Properties\<close>

text \<open>
  C39. A stream of messages is delivered whole, in order and in any chunks. Whatever messages are
  encoded (no larger than the framer's limit, begin strings free of the delimiter) and however the
  concatenation of their bytes is cut into reads, empty ones included, feeding the reads to a fresh
  framer returns exactly those messages in order, never an error or a panic, and leaves the buffer empty.
\<close>

theorem framer_delivers_stream:
  assumes "concat chunks = concat raws" "fr_buffer f = []" "frameLimit f < 2 ^ 63"
    "\<And>raw. raw \<in> set raws \<Longrightarrow>
       \<exists>beginString fs. Encode beginString fs = Inr raw \<and> SOH \<notin> set beginString \<and> int (length raw) \<le> frameLimit f"
  shows "\<exists>f'. feedAll chunks f = (f', raws, FeedOK) \<and> Buffered f' = 0"
  by (rule framer_stream [OF assms])

theorem framer_delivers_stream_witness:
  "\<exists>f'. feedAll [take 11 heartbeatFrame, [], drop 11 heartbeatFrame @ take 3 heartbeatFrame, drop 3 heartbeatFrame]
          \<lparr>fr_buffer = [], fr_MaxSize = 0\<rparr> = (f', [heartbeatFrame, heartbeatFrame], FeedOK) \<and> Buffered f' = 0"
proof (rule framer_delivers_stream)
  show "\<exists>beginString fs. Encode beginString fs = Inr raw \<and> SOH \<notin> set beginString \<and>
      int (length raw) \<le> frameLimit \<lparr>fr_buffer = [], fr_MaxSize = 0\<rparr>" if "raw \<in> set [heartbeatFrame, heartbeatFrame]" for raw
    using that by (intro exI [of _ "[]"] exI [of _ "[mkField 35 ''0'']"])
      (auto simp: Encode_heartbeat frameLimit_def heartbeatFrame_def)
qed (simp_all add: frameLimit_def heartbeatFrame_def)

text \<open>
  The framer panics exactly on a declared length that overflows. While the buffer is shorter than
  \<open>2^62\<close> bytes, \<open>nextFrame\<close> runs into an out-of-range slice expression if and only if a well-formed header
  declares a body length whose frame end exceeds the largest \<open>int\<close>; the size limit does not stop such a frame.
\<close>

theorem nextFrame_panics_iff:
  assumes "length buffer < 2 ^ 62" "0 < maxSize"
  shows "nextFrame buffer maxSize = FramePanic \<longleftrightarrow>
     (\<exists>bodyStart bodyLength. frameHeader buffer = Inr (bodyStart, bodyLength) \<and> 2 ^ 63 \<le> int bodyStart + bodyLength + 7)"
proof -
  have "frameAt buffer maxSize b l = FramePanic \<longleftrightarrow> 2 ^ 63 \<le> int b + l + 7" if "frameHeader buffer = Inr (b, l)" for b l
    using frameAt_panics [OF _ _ _ assms] frameHeader_bounds [OF that] by simp
  then show ?thesis using frameHeader_early [of buffer] by (auto simp: nextFrame_def split: sum.splits)
qed

theorem nextFrame_panics_iff_witness:
  "nextFrame (''8=FIX.4.4'' @ [SOH] @ ''9=9223372036854775807'' @ [SOH]) (2 ^ 20) = FramePanic"
proof -
  let ?b = "''8=FIX.4.4'' @ [SOH] @ ''9=9223372036854775807'' @ [SOH]"
  have "frameHeader ?b = Inr (32, 9223372036854775807)" by code_simp
  then show ?thesis using nextFrame_panics_iff [of ?b "2 ^ 20"] by simp
qed

end
