(* ===== verification/GoCalendar.thy ===== *)
theory GoCalendar
  imports GoTime GoStrings
begin

text \<open>
  What the program uses of the calendar side of \<open>time\<close>: Unix time, and formatting and parsing with the
  layout \<open>20060102-15:04:05.000\<close> in UTC. Time 0 is midnight of 1 January of the year 1.
\<close>

section \<open>Unix time\<close>

definition unixEpoch :: time where
  "unixEpoch = 62135596800 * Second"

definition Unix :: "int \<Rightarrow> time" where
  "Unix nanoseconds = unixEpoch + nanoseconds"

definition UnixNano :: "time \<Rightarrow> int" where
  "UnixNano t = wrap64 (t - unixEpoch)"

definition UnixMilli :: "time \<Rightarrow> int" where
  "UnixMilli t = (t - unixEpoch) div Millisecond"

definition FromUnixMilli :: "int \<Rightarrow> time" where
  "FromUnixMilli ms = unixEpoch + ms * Millisecond"

section \<open>Dates\<close>

definition leapYear :: "int \<Rightarrow> bool" where
  "leapYear y \<longleftrightarrow> 4 dvd y \<and> (\<not> 100 dvd y \<or> 400 dvd y)"

definition daysBeforeYear :: "int \<Rightarrow> int" where
  "daysBeforeYear y = 365 * (y - 1) + (y - 1) div 4 - (y - 1) div 100 + (y - 1) div 400"

definition daysIn :: "int \<Rightarrow> int \<Rightarrow> int" where
  "daysIn month year =
     (if month = 2 then (if leapYear year then 29 else 28)
      else if month \<in> {4, 6, 9, 11} then 30 else 31)"

definition daysBeforeMonth :: "int \<Rightarrow> int \<Rightarrow> int" where
  "daysBeforeMonth month year = (\<Sum>m\<leftarrow>[1..month - 1]. daysIn m year)"

text \<open>The year of a day, counted in cycles of 400, 100, 4 and 1 years.\<close>

definition yearOf :: "int \<Rightarrow> int" where
  "yearOf day =
     (let n400 = day div 146097; d400 = day mod 146097;
          n100 = min 3 (d400 div 36524); d100 = d400 - n100 * 36524;
          n4 = d100 div 1461; d4 = d100 mod 1461;
          n1 = min 3 (d4 div 365) in
      400 * n400 + 100 * n100 + 4 * n4 + n1 + 1)"

definition monthOf :: "int \<Rightarrow> int" where
  "monthOf day =
     (let year = yearOf day; yday = day - daysBeforeYear year in
      int (length (takeWhile (\<lambda>m. daysBeforeMonth m year \<le> yday) [1..12])))"

definition dayOf :: "int \<Rightarrow> int" where
  "dayOf day = day - daysBeforeYear (yearOf day) - daysBeforeMonth (monthOf day) (yearOf day) + 1"

section \<open>The FIX time layout\<close>

definition dayNanos :: int where
  "dayNanos = 24 * Hour"

definition FormatFIX :: "time \<Rightarrow> string" where
  "FormatFIX t =
     (let day = t div dayNanos; ns = t mod dayNanos in
      padZero 4 (FormatInt (yearOf day)) @ padZero 2 (FormatInt (monthOf day)) @ padZero 2 (FormatInt (dayOf day)) @
      ''-'' @ padZero 2 (FormatInt (ns div Hour)) @ '':'' @ padZero 2 (FormatInt (ns div Minute mod 60)) @ '':'' @
      padZero 2 (FormatInt (ns div Second mod 60)) @ ''.'' @ padZero 3 (FormatInt (ns div Millisecond mod 1000)))"

text \<open>Exactly \<open>n\<close> digits, and a literal character.\<close>

definition fixedDigits :: "nat \<Rightarrow> string \<Rightarrow> (int \<times> string) option" where
  "fixedDigits n s =
     (if n \<le> length s \<and> list_all isDigit (take n s) then Some (digitsVal (take n s), drop n s) else None)"

definition literalByte :: "char list \<Rightarrow> string \<Rightarrow> string option" where
  "literalByte cs s = (case s of [] \<Rightarrow> None | c # r \<Rightarrow> if c \<in> set cs then Some r else None)"

text \<open>The hour is read with one or two digits.\<close>

definition hourDigits :: "string \<Rightarrow> (int \<times> string) option" where
  "hourDigits s = (case fixedDigits 2 s of Some r \<Rightarrow> Some r | None \<Rightarrow> fixedDigits 1 s)"

definition parseDate :: "string \<Rightarrow> (int \<times> string) option" where
  "parseDate s =
     Option.bind (fixedDigits 4 s) (\<lambda>(year, s).
     Option.bind (fixedDigits 2 s) (\<lambda>(month, s).
     Option.bind (fixedDigits 2 s) (\<lambda>(day, s).
       if 1 \<le> month \<and> month \<le> 12 \<and> 1 \<le> day \<and> day \<le> daysIn month year
       then Some (daysBeforeYear year + daysBeforeMonth month year + day - 1, s) else None)))"

definition parseClock :: "string \<Rightarrow> (int \<times> string) option" where
  "parseClock s =
     Option.bind (hourDigits s) (\<lambda>(hour, s). Option.bind (literalByte '':'' s) (\<lambda>s.
     Option.bind (fixedDigits 2 s) (\<lambda>(minute, s). Option.bind (literalByte '':'' s) (\<lambda>s.
     Option.bind (fixedDigits 2 s) (\<lambda>(second, s). Option.bind (literalByte ''.,'' s) (\<lambda>s.
     Option.bind (fixedDigits 3 s) (\<lambda>(milli, s).
       if hour < 24 \<and> minute < 60 \<and> second < 60
       then Some (hour * Hour + minute * Minute + second * Second + milli * Millisecond, s) else None)))))))"

definition ParseFIX :: "string \<Rightarrow> time option" where
  "ParseFIX s =
     Option.bind (parseDate s) (\<lambda>(day, s). Option.bind (literalByte ''-'' s) (\<lambda>s.
     Option.bind (parseClock s) (\<lambda>(ns, s). if s = [] then Some (day * dayNanos + ns) else None)))"

lemma FormatInt_chars: "c \<in> set (FormatInt n) \<Longrightarrow> isDigit c \<or> c = CHR ''-''"
  by (cases "n < 0") (auto simp: FormatInt_def dest: natText_digits [rotated])

lemma FormatFIX_chars: "c \<in> set (FormatFIX t) \<Longrightarrow> isDigit c \<or> c \<in> set ''-:.''"
  by (auto simp: FormatFIX_def Let_def padZero_def dest: FormatInt_chars)

end
