(* ===== verification/FixSession.thy ===== *)
theory FixSession
  imports FixFramer GoCalendar
begin

text \<open>
  \<open>internal/fix/session.go\<close>: one FIX connection after another. The session's mutable fields and the
  locals of \<open>runOnce\<close> are one record; its \<open>select\<close> loop is a step function on events, so every
  interleaving of inbound messages, ticks, read failures, cancellation and application sends is a
  sequence of events. The transport's \<open>Write\<close>, the clock, the signer and the callbacks are supplied by
  the environment of each step. \<open>ss_wire\<close> is every byte the transport accepted, \<open>ss_sent\<close> the messages
  written without an error and \<open>ss_delivered\<close> the messages \<open>OnMessage\<close> was called with.
\<close>

section \<open>Configuration and state\<close>

record SessionConfig =
  sc_SenderCompID :: string
  sc_TargetCompID :: string
  sc_APIKey :: string
  sc_Signer :: "(string \<Rightarrow> string result) option"
  sc_Heartbeat :: duration
  sc_InitialBackoff :: duration
  sc_MaxBackoff :: duration
  sc_HasOnMessage :: bool
  sc_HasOnReconnect :: bool

record Session =
  ss_active :: bool
  ss_outboundSeq :: int
  ss_inboundSeq :: int
  ss_inbound :: nat
  ss_outbound :: nat
  ss_reconnects :: nat
  ss_sequenceErrors :: nat
  ss_heartbeats :: nat
  ss_testRequests :: nat
  ss_lastOutboundNS :: int
  ss_lastInbound :: time
  ss_loggedOn :: bool
  ss_testRequestOutstanding :: bool
  ss_wire :: string
  ss_sent :: "string list"
  ss_delivered :: "Message list"

definition NewSession :: "bool \<Rightarrow> SessionConfig \<Rightarrow> (SessionConfig \<times> Session) result" where
  "NewSession hasDial config =
     (if \<not> hasDial then Inl (EText ''FIX dialer is required'')
      else Inr
        (config\<lparr>sc_TargetCompID := (if sc_TargetCompID config = [] then ''BYBIT_FIX_SERVER'' else sc_TargetCompID config),
           sc_Heartbeat := (if sc_Heartbeat config \<le> 0 then 10 * Second else sc_Heartbeat config),
           sc_InitialBackoff := (if sc_InitialBackoff config \<le> 0 then 250 * Millisecond else sc_InitialBackoff config),
           sc_MaxBackoff := (if sc_MaxBackoff config \<le> 0 then 15 * Second else sc_MaxBackoff config)\<rparr>,
         \<lparr>ss_active = False, ss_outboundSeq = 0, ss_inboundSeq = 0, ss_inbound = 0, ss_outbound = 0, ss_reconnects = 0,
          ss_sequenceErrors = 0, ss_heartbeats = 0, ss_testRequests = 0, ss_lastOutboundNS = 0, ss_lastInbound = 0,
          ss_loggedOn = False, ss_testRequestOutstanding = False, ss_wire = [], ss_sent = [], ss_delivered = []\<rparr>))"

definition AccessDeniedError :: "string \<Rightarrow> goerror" where
  "AccessDeniedError text = ECode ''FIX access denied: '' text"

definition SequenceError :: "int \<Rightarrow> int \<Rightarrow> goerror" where
  "SequenceError expected received =
     EFmt ''unexpected FIX MsgSeqNum: expected=%d received=%d; Bybit sessions do not support gap-fill recovery''
       [FormatInt expected, FormatInt received]"

definition ErrEOF :: goerror where
  "ErrEOF = EText ''EOF''"

section \<open>Writing\<close>

text \<open>
  What the transport does with one message: the answer of its \<open>k\<close>-th \<open>Write\<close>, a count and an error. By
  the contract of \<open>io.Writer\<close> the count is at most the length of the data.
\<close>

type_synonym Writer = "nat \<Rightarrow> nat \<times> goerror option"

definition ErrShortWrite :: goerror where
  "ErrShortWrite = EText ''short write''"

function writeAll :: "Writer \<Rightarrow> nat \<Rightarrow> string \<Rightarrow> string \<times> goerror option" where
  "writeAll writer k data =
     (if data = [] then ([], None)
      else case writer k of
          (count, Some e) \<Rightarrow> (take count data, Some e)
        | (count, None) \<Rightarrow>
            (if count = 0 then ([], Some ErrShortWrite)
             else case writeAll writer (Suc k) (drop count data) of (out, e) \<Rightarrow> (take count data @ out, e)))"
  by pat_completeness auto
termination
  by (relation "measure (\<lambda>(_, _, data). length data)") auto

declare writeAll.simps [simp del]

record SendEnv =
  sd_Stamp :: time
  sd_Done :: time
  sd_Writer :: Writer

definition sendFields :: "SessionConfig \<Rightarrow> int \<Rightarrow> time \<Rightarrow> string \<Rightarrow> Field list \<Rightarrow> Field list" where
  "sendFields config seq stamp msgType body =
     [mkField 35 msgType, mkField 49 (sc_SenderCompID config), mkField 56 (sc_TargetCompID config),
      mkField 34 (FormatInt seq), mkField 52 (FormatFIX stamp)] @ body"

definition send :: "SessionConfig \<Rightarrow> SendEnv \<Rightarrow> string \<Rightarrow> Field list \<Rightarrow> Session \<Rightarrow> goerror option \<times> Session" where
  "send config env msgType body s =
     (case Encode ''FIX.4.4'' (sendFields config (ss_outboundSeq s) (sd_Stamp env) msgType body) of
        Inl e \<Rightarrow> (Some e, s)
      | Inr encoded \<Rightarrow>
          (case writeAll (sd_Writer env) 0 encoded of
             (out, Some e) \<Rightarrow> (Some e, s\<lparr>ss_wire := ss_wire s @ out\<rparr>)
           | (out, None) \<Rightarrow>
               (None, s\<lparr>ss_wire := ss_wire s @ out, ss_sent := ss_sent s @ [encoded],
                        ss_outboundSeq := ss_outboundSeq s + 1, ss_outbound := ss_outbound s + 1,
                        ss_lastOutboundNS := UnixNano (sd_Done env)\<rparr>)))"

definition SendApplication :: "SessionConfig \<Rightarrow> SendEnv \<Rightarrow> string \<Rightarrow> Field list \<Rightarrow> Session \<Rightarrow> goerror option \<times> Session" where
  "SendApplication config env msgType body s =
     (if \<not> ss_active s then (Some (EText ''FIX session is not connected''), s)
      else send config env msgType body s)"

text \<open>\<open>int64(Heartbeat / time.Second)\<close>; the heartbeat interval is positive, so both divisions truncate alike.\<close>

definition heartbeatSeconds :: "SessionConfig \<Rightarrow> int" where
  "heartbeatSeconds config = max 1 (sc_Heartbeat config div Second)"

definition sendLogon :: "SessionConfig \<Rightarrow> time \<Rightarrow> SendEnv \<Rightarrow> Session \<Rightarrow> goerror option \<times> Session" where
  "sendLogon config now env s =
     (case sc_Signer config of
        None \<Rightarrow> (Some (EText ''FIX API key and RSA signer are required''), s)
      | Some sign \<Rightarrow>
          (if sc_APIKey config = [] then (Some (EText ''FIX API key and RSA signer are required''), s)
           else
             (let expires = UnixMilli now + 5000 in
              case sign (''GET/realtime'' @ FormatInt expires) of
                Inl e \<Rightarrow> (Some e, s)
              | Inr signature \<Rightarrow>
                  send config env ''A''
                    [mkField 98 ''0'', mkField 108 (FormatInt (heartbeatSeconds config)), mkField 553 (sc_APIKey config),
                     mkField 95 (FormatInt (int (length signature))), mkField 96 signature, mkField 141 ''Y'',
                     mkField 30023 (FormatInt expires)] s)))"

section \<open>Reading\<close>

definition messageSequence :: "Message \<Rightarrow> int result" where
  "messageSequence m =
     (case Message_Get m 34 of
        None \<Rightarrow> Inl (EText ''FIX message missing MsgSeqNum(34)'')
      | Some v \<Rightarrow>
          (case Atoi v of
             None \<Rightarrow> Inl (EFmt ''invalid MsgSeqNum(34) %q'' [v])
           | Some n \<Rightarrow> (if n < 1 then Inl (EFmt ''invalid MsgSeqNum(34) %q'' [v]) else Inr n)))"

fun parseFrames :: "string list \<Rightarrow> Message list \<times> goerror option" where
  "parseFrames [] = ([], None)"
| "parseFrames (frame # frames) =
     (case ParseStrict frame of
        (m, Some e) \<Rightarrow> ([], Some e)
      | (m, None) \<Rightarrow> (case parseFrames frames of (ms, e) \<Rightarrow> (m # ms, e)))"

text \<open>
  The reading goroutine on a sequence of reads, each a chunk and an error: the messages it passes on
  and the failure it reports. It is still open when the reads given are used up; cancelling the
  context only stops it earlier.
\<close>

datatype ReadEnd = ReadOpen | ReadFailed goerror | ReadPanic

text \<open>One read that returned bytes: feed them and parse the frames.\<close>

definition readChunk :: "Framer \<Rightarrow> string \<Rightarrow> Framer \<times> Message list \<times> ReadEnd" where
  "readChunk framer chunk =
     (if chunk = [] then (framer, [], ReadOpen)
      else case Feed chunk framer of
          (framer', frames, FeedError e) \<Rightarrow> (framer', [], ReadFailed e)
        | (framer', frames, FeedPanic) \<Rightarrow> (framer', [], ReadPanic)
        | (framer', frames, FeedOK) \<Rightarrow>
            (case parseFrames frames of
               (ms, None) \<Rightarrow> (framer', ms, ReadOpen)
             | (ms, Some e) \<Rightarrow> (framer', ms, ReadFailed e)))"

fun readMessages :: "Framer \<Rightarrow> (string \<times> goerror option) list \<Rightarrow> Message list \<times> ReadEnd" where
  "readMessages framer [] = ([], ReadOpen)"
| "readMessages framer ((chunk, err) # reads) =
     (case readChunk framer chunk of
        (framer', ms, ReadOpen) \<Rightarrow>
          (case err of
             Some e \<Rightarrow> (ms, ReadFailed e)
           | None \<Rightarrow> (case readMessages framer' reads of (ms', out) \<Rightarrow> (ms @ ms', out)))
      | (framer', ms, out) \<Rightarrow> (ms, out))"

section \<open>The connection loop\<close>

datatype SessionEvent =
    EvCancelled
  | EvReadError goerror
  | EvMessage Message
  | EvTick
  | EvApplication string "Field list"

text \<open>
  The environment of one step: the clock reading, the two sends a step may make, the callback's answer
  and whether the context has been cancelled when an error is about to be returned.
\<close>

record StepEnv =
  se_Now :: time
  se_Send :: SendEnv
  se_Send2 :: SendEnv
  se_Callback :: "goerror option"
  se_CtxErr :: bool

datatype Outcome = Continue | Return "goerror option"

definition failWith :: "StepEnv \<Rightarrow> goerror \<Rightarrow> Outcome" where
  "failWith env e = (if se_CtxErr env then Return None else Return (Some e))"

definition thenContinue :: "StepEnv \<Rightarrow> goerror option \<times> Session \<Rightarrow> Session \<times> Outcome" where
  "thenContinue env r = (case r of (Some e, s) \<Rightarrow> (s, failWith env e) | (None, s) \<Rightarrow> (s, Continue))"

fun isEOF :: "goerror \<Rightarrow> bool" where
  "isEOF (EWrap _ e) = isEOF e"
| "isEOF e = (e = ErrEOF)"

fun containsText :: "string \<Rightarrow> string \<Rightarrow> bool" where
  "containsText m [] = (m = [])"
| "containsText m (x # s) = (prefix m (x # s) \<or> containsText m s)"

text \<open>
  The callback \<open>onLogon\<close>: none for \<open>RunOnce\<close>, and for \<open>Run\<close> the reconnect hook of an attempt.
\<close>

definition onLogon :: "SessionConfig \<Rightarrow> nat option \<Rightarrow> StepEnv \<Rightarrow> Session \<Rightarrow> goerror option \<times> Session" where
  "onLogon config attempt env s =
     (case attempt of
        None \<Rightarrow> (None, s)
      | Some n \<Rightarrow>
          (if n = 0 then (None, s)
           else (if sc_HasOnReconnect config then se_Callback env else None, s\<lparr>ss_reconnects := ss_reconnects s + 1\<rparr>)))"

definition handleLogon :: "SessionConfig \<Rightarrow> nat option \<Rightarrow> StepEnv \<Rightarrow> Session \<Rightarrow> Session \<times> Outcome" where
  "handleLogon config attempt env s =
     (if ss_loggedOn s then (s, Continue)
      else case onLogon config attempt env s of
          (Some e, s') \<Rightarrow> (s', failWith env e)
        | (None, s') \<Rightarrow> (s'\<lparr>ss_loggedOn := True\<rparr>, Continue))"

definition handleLogout :: "SessionConfig \<Rightarrow> StepEnv \<Rightarrow> Message \<Rightarrow> Session \<Rightarrow> Session \<times> Outcome" where
  "handleLogout config env m s =
     (let text = (case Message_Get m 58 of None \<Rightarrow> [] | Some t \<Rightarrow> t) in
      if containsText ''access denied'' (ToLower text) then (s, Return (Some (AccessDeniedError text)))
      else (snd (send config (se_Send env) ''5'' [] s), Return None))"

definition handleTestRequest :: "SessionConfig \<Rightarrow> StepEnv \<Rightarrow> Message \<Rightarrow> Session \<Rightarrow> Session \<times> Outcome" where
  "handleTestRequest config env m s =
     thenContinue env
       (send config (se_Send env) ''0'' [mkField 112 (case Message_Get m 112 of None \<Rightarrow> [] | Some t \<Rightarrow> t)]
          (s\<lparr>ss_testRequests := ss_testRequests s + 1\<rparr>))"

definition handleApplication :: "SessionConfig \<Rightarrow> StepEnv \<Rightarrow> Message \<Rightarrow> Session \<Rightarrow> Session \<times> Outcome" where
  "handleApplication config env m s =
     (if \<not> sc_HasOnMessage config then (s, Continue)
      else thenContinue env (se_Callback env, s\<lparr>ss_delivered := ss_delivered s @ [m]\<rparr>))"

definition dispatchMessage :: "SessionConfig \<Rightarrow> nat option \<Rightarrow> StepEnv \<Rightarrow> Message \<Rightarrow> Session \<Rightarrow> Session \<times> Outcome" where
  "dispatchMessage config attempt env m s =
     (let msgType = (case Message_Get m 35 of None \<Rightarrow> [] | Some t \<Rightarrow> t) in
      if \<not> ss_loggedOn s \<and> msgType \<noteq> ''A'' \<and> msgType \<noteq> ''5''
      then (s, Return (Some (EFmt ''expected Logon ACK, received MsgType %q'' [msgType])))
      else if msgType = ''A'' then handleLogon config attempt env s
      else if msgType = ''0'' then (s\<lparr>ss_testRequestOutstanding := False\<rparr>, Continue)
      else if msgType = ''1'' then handleTestRequest config env m s
      else if msgType = ''5'' then handleLogout config env m s
      else handleApplication config env m s)"

definition receive :: "SessionConfig \<Rightarrow> nat option \<Rightarrow> StepEnv \<Rightarrow> Message \<Rightarrow> Session \<Rightarrow> Session \<times> Outcome" where
  "receive config attempt env m s =
     (let s1 = s\<lparr>ss_lastInbound := se_Now env, ss_inbound := ss_inbound s + 1\<rparr> in
      case messageSequence m of
        Inl e \<Rightarrow> (s1, failWith env e)
      | Inr seq \<Rightarrow>
          (if seq \<noteq> ss_inboundSeq s1
           then (s1\<lparr>ss_sequenceErrors := ss_sequenceErrors s1 + 1\<rparr>, Return (Some (SequenceError (ss_inboundSeq s1) seq)))
           else dispatchMessage config attempt env m (s1\<lparr>ss_inboundSeq := ss_inboundSeq s1 + 1\<rparr>)))"

text \<open>The three checks of a tick, in order.\<close>

definition tickHeartbeat :: "SessionConfig \<Rightarrow> StepEnv \<Rightarrow> Session \<Rightarrow> goerror option \<times> Session" where
  "tickHeartbeat config env s =
     (if ss_loggedOn s \<and> Sub (se_Now env) (Unix (ss_lastOutboundNS s)) \<ge> sc_Heartbeat config then
        (case send config (se_Send env) ''0'' [] s of
           (Some e, s') \<Rightarrow> (Some e, s')
         | (None, s') \<Rightarrow> (None, s'\<lparr>ss_heartbeats := ss_heartbeats s' + 1\<rparr>))
      else (None, s))"

definition tickTestRequest :: "SessionConfig \<Rightarrow> StepEnv \<Rightarrow> Session \<Rightarrow> goerror option \<times> Session" where
  "tickTestRequest config env s =
     (if ss_loggedOn s \<and> Sub (se_Now env) (ss_lastInbound s) \<ge> wrap64 (2 * sc_Heartbeat config) \<and> \<not> ss_testRequestOutstanding s then
        (case send config (se_Send2 env) ''1'' [mkField 112 (''test-'' @ FormatInt (UnixMilli (se_Now env)))] s of
           (Some e, s') \<Rightarrow> (Some e, s')
         | (None, s') \<Rightarrow> (None, s'\<lparr>ss_testRequestOutstanding := True, ss_testRequests := ss_testRequests s' + 1\<rparr>))
      else (None, s))"

definition tickStale :: "SessionConfig \<Rightarrow> StepEnv \<Rightarrow> Session \<Rightarrow> Session \<times> Outcome" where
  "tickStale config env s =
     (if ss_loggedOn s \<and> Sub (se_Now env) (ss_lastInbound s) \<ge> wrap64 (3 * sc_Heartbeat config)
      then (s, failWith env (EText ''FIX session stale after unanswered TestRequest''))
      else (s, Continue))"

definition tick :: "SessionConfig \<Rightarrow> StepEnv \<Rightarrow> Session \<Rightarrow> Session \<times> Outcome" where
  "tick config env s =
     (case tickHeartbeat config env s of
        (Some e, s1) \<Rightarrow> (s1, failWith env e)
      | (None, s1) \<Rightarrow>
          (case tickTestRequest config env s1 of
             (Some e, s2) \<Rightarrow> (s2, failWith env e)
           | (None, s2) \<Rightarrow> tickStale config env s2))"

text \<open>One iteration of the loop, or an application send of another goroutine between two iterations.\<close>

definition sessionStep :: "SessionConfig \<Rightarrow> nat option \<Rightarrow> StepEnv \<Rightarrow> SessionEvent \<Rightarrow> Session \<Rightarrow> Session \<times> Outcome" where
  "sessionStep config attempt env ev s =
     (case ev of
        EvCancelled \<Rightarrow> (snd (send config (se_Send env) ''5'' [] s), Return None)
      | EvReadError e \<Rightarrow> (s, if se_CtxErr env then Return None else if isEOF e then Return (Some ErrEOF) else Return (Some e))
      | EvMessage m \<Rightarrow> receive config attempt env m s
      | EvTick \<Rightarrow> tick config env s
      | EvApplication msgType body \<Rightarrow> (snd (SendApplication config (se_Send env) msgType body s), Continue))"

fun sessionLoop :: "SessionConfig \<Rightarrow> nat option \<Rightarrow> (StepEnv \<times> SessionEvent) list \<Rightarrow> Session \<Rightarrow> Session \<times> Outcome" where
  "sessionLoop config attempt [] s = (s, Continue)"
| "sessionLoop config attempt ((env, ev) # events) s =
     (case sessionStep config attempt env ev s of
        (s', Continue) \<Rightarrow> sessionLoop config attempt events s'
      | (s', Return r) \<Rightarrow> (s', Return r))"

text \<open>
  What one connection attempt meets: the dialer's answer, the clock of the logon, the send of the logon
  message, the clock at the start of the loop and the events. A new transport has a new wire.
\<close>

record Attempt =
  at_Dial :: "goerror option"
  at_LogonNow :: time
  at_Logon :: SendEnv
  at_Start :: time
  at_Events :: "(StepEnv \<times> SessionEvent) list"

definition openConnection :: "Session \<Rightarrow> Session" where
  "openConnection s =
     s\<lparr>ss_outboundSeq := 1, ss_inboundSeq := 1, ss_loggedOn := False, ss_testRequestOutstanding := False,
       ss_wire := [], ss_sent := [], ss_delivered := []\<rparr>"

definition runOnce :: "SessionConfig \<Rightarrow> nat option \<Rightarrow> Attempt \<Rightarrow> Session \<Rightarrow> Session \<times> Outcome" where
  "runOnce config attempt a s =
     (case at_Dial a of
        Some e \<Rightarrow> (s, Return (Some e))
      | None \<Rightarrow>
          (case sendLogon config (at_LogonNow a) (at_Logon a) (openConnection s) of
             (Some e, s1) \<Rightarrow> (s1, Return (Some e))
           | (None, s1) \<Rightarrow>
               (case sessionLoop config attempt (at_Events a) (s1\<lparr>ss_active := True, ss_lastInbound := at_Start a\<rparr>) of
                  (s2, Continue) \<Rightarrow> (s2, Continue)
                | (s2, Return r) \<Rightarrow> (s2\<lparr>ss_active := False\<rparr>, Return r))))"

definition RunOnce :: "SessionConfig \<Rightarrow> Attempt \<Rightarrow> Session \<Rightarrow> Session \<times> Outcome" where
  "RunOnce config a s = runOnce config None a s"

section \<open>Reconnecting\<close>

text \<open>\<open>random\<close> is the answer of \<open>rand.Int64N(base / 2)\<close>, which panics on a bound that is not positive.\<close>

definition sessionJitter :: "(int \<Rightarrow> int) \<Rightarrow> duration \<Rightarrow> duration option" where
  "sessionJitter random base =
     (if base \<le> 1 then Some base
      else if base div 2 \<le> 0 then None
      else Some (base div 2 + random (base div 2)))"

definition nextBackoff :: "SessionConfig \<Rightarrow> duration \<Rightarrow> duration" where
  "nextBackoff config backoff =
     (if wrap64 (backoff * 2) > sc_MaxBackoff config then sc_MaxBackoff config else wrap64 (backoff * 2))"

fun asDenied :: "goerror \<Rightarrow> bool" where
  "asDenied (EWrap _ e) = asDenied e"
| "asDenied (ECode c _) = (c = ''FIX access denied: '')"
| "asDenied _ = False"

text \<open>
  One round of \<open>Run\<close>: the attempt, whether the context is cancelled when it returns, and whether it is
  cancelled while waiting. The waits taken are collected, before jitter.
\<close>

record Round =
  rd_Attempt :: Attempt
  rd_CtxErr :: bool
  rd_WaitCancelled :: bool

fun runRounds :: "SessionConfig \<Rightarrow> nat \<Rightarrow> duration \<Rightarrow> Round list \<Rightarrow> Session \<Rightarrow> duration list \<Rightarrow> Session \<times> duration list \<times> Outcome" where
  "runRounds config attempt backoff [] s waits = (s, waits, Continue)"
| "runRounds config attempt backoff (r # rs) s waits =
     (case runOnce config (Some attempt) (rd_Attempt r) s of
        (s', Continue) \<Rightarrow> (s', waits, Continue)
      | (s', Return result) \<Rightarrow>
          (if rd_CtxErr r then (s', waits, Return None)
           else case result of
               None \<Rightarrow> (s', waits, Return None)
             | Some e \<Rightarrow>
                 (if asDenied e then (s', waits, Return (Some e))
                  else if rd_WaitCancelled r then (s', waits @ [backoff], Return None)
                  else runRounds config (Suc attempt) (nextBackoff config backoff) rs s' (waits @ [backoff]))))"

definition Run :: "SessionConfig \<Rightarrow> Round list \<Rightarrow> Session \<Rightarrow> Session \<times> duration list \<times> Outcome" where
  "Run config rounds s = runRounds config 0 (sc_InitialBackoff config) rounds s []"

record SessionStats =
  st_Inbound :: nat
  st_Outbound :: nat
  st_Reconnects :: nat
  st_SequenceErrors :: nat
  st_Heartbeats :: nat
  st_TestRequests :: nat

definition Stats :: "Session \<Rightarrow> SessionStats" where
  "Stats s = \<lparr>st_Inbound = ss_inbound s, st_Outbound = ss_outbound s, st_Reconnects = ss_reconnects s,
     st_SequenceErrors = ss_sequenceErrors s, st_Heartbeats = ss_heartbeats s, st_TestRequests = ss_testRequests s\<rparr>"

end
