(* ===== verification/FixOrders.thy ===== *)
theory FixOrders
  imports FixSession OrderState
begin

text \<open>
  \<open>internal/fix/orders.go\<close>: the order router between the FIX session and the order state service. The
  world of an operation is the router's two queues of unanswered requests, the session and the service.
  \<open>rt_Wired\<close> says whether the router has been given its session and its state; \<open>Place\<close> checks it, the
  other operations are modelled for a wired router. Clock readings, the faults of the state store and
  the transport are the environment of each operation.
\<close>

section \<open>Data\<close>

record NewOrderRequest =
  nr_Symbol :: string
  nr_Side :: string
  nr_OrderType :: string
  nr_Qty :: string
  nr_Price :: string
  nr_ClOrdID :: string
  nr_TimeInForce :: string

record CancelRequest =
  cr_Symbol :: string
  cr_OrderID :: string
  cr_ClOrdID :: string
  cr_ReqID :: string

record AmendRequest =
  am_Symbol :: string
  am_OrderID :: string
  am_ClOrdID :: string
  am_Qty :: string
  am_Price :: string
  am_ReqID :: string

record pendingRequest =
  pr_OrderID :: string
  pr_ClOrdID :: string
  pr_ReqID :: string

record OrderRouter =
  rt_Wired :: bool
  rt_RecvWindow :: int
  rt_pendingCancel :: "pendingRequest list"
  rt_pendingAmend :: "pendingRequest list"

record RouterWorld =
  rw_Router :: OrderRouter
  rw_Config :: SessionConfig
  rw_Session :: Session
  rw_State :: Service

record RouterEnv =
  re_Now :: time
  re_Env :: Env
  re_Reload :: Env
  re_Later :: time
  re_Env2 :: Env
  re_Reload2 :: Env
  re_Send :: SendEnv

section \<open>Translations\<close>

definition validateNewOrder :: "NewOrderRequest \<Rightarrow> goerror option" where
  "validateNewOrder r =
     (if nr_Symbol r = [] \<or> nr_Qty r = [] \<or> nr_ClOrdID r = []
      then Some (EText ''FIX new order requires symbol, qty, and ClOrdID'')
      else if length (nr_ClOrdID r) > 36 then Some (EText ''FIX ClOrdID exceeds 36 characters'')
      else if nr_Side r \<noteq> ''Buy'' \<and> nr_Side r \<noteq> ''Sell'' then Some (EText ''FIX side must be Buy or Sell'')
      else if nr_OrderType r \<noteq> ''Market'' \<and> nr_OrderType r \<noteq> ''Limit''
      then Some (EText ''FIX order type must be Market or Limit'')
      else if nr_OrderType r = ''Limit'' \<and> nr_Price r = [] then Some (EText ''FIX limit order requires price'')
      else None)"

definition fixSide :: "string \<Rightarrow> string" where
  "fixSide v = (if v = ''Buy'' then ''1'' else ''2'')"

definition sideFromFIX :: "string \<Rightarrow> string" where
  "sideFromFIX v = (if v = ''1'' then ''Buy'' else if v = ''2'' then ''Sell'' else [])"

definition fixOrderType :: "string \<Rightarrow> string" where
  "fixOrderType v = (if v = ''Market'' then ''1'' else ''2'')"

definition typeFromFIX :: "string \<Rightarrow> string" where
  "typeFromFIX v = (if v = ''1'' then ''Market'' else if v = ''2'' then ''Limit'' else [])"

definition fixTimeInForce :: "string \<Rightarrow> string" where
  "fixTimeInForce v =
     (let u = ToUpper v in
      if u = ''GTC'' then ''1'' else if u = ''IOC'' then ''3'' else if u = ''FOK'' then ''4''
      else if u = ''POSTONLY'' then ''P'' else v)"

definition statusFromFIX :: "string \<Rightarrow> OrderStatus" where
  "statusFromFIX v =
     (if v = ''A'' then OrderStatusPendingSubmit
      else if v = ''0'' then OrderStatusNew
      else if v = ''1'' then OrderStatusPartiallyFilled
      else if v = ''2'' then OrderStatusFilled
      else if v = ''4'' \<or> v = ''F'' \<or> v = ''D'' then OrderStatusCancelled
      else if v = ''6'' then OrderStatusPendingCancel
      else if v = ''8'' then OrderStatusRejected
      else OrderStatusUnknown)"

definition valueOr :: "Message \<Rightarrow> int \<Rightarrow> string \<Rightarrow> string" where
  "valueOr m tag fallback = (case Message_Get m tag of Some v \<Rightarrow> v | None \<Rightarrow> fallback)"

definition parseFIXTime :: "string \<Rightarrow> time" where
  "parseFIXTime v = (case ParseFIX v of Some t \<Rightarrow> t | None \<Rightarrow> 0)"

definition findRouterOrder :: "Snapshot \<Rightarrow> string \<Rightarrow> string \<Rightarrow> (string \<times> Order) option" where
  "findRouterOrder s orderID linkID =
     (case (if linkID \<noteq> [] then gget (os_Orders s) linkID else None) of
        Some ord \<Rightarrow> Some (linkID, ord)
      | None \<Rightarrow> find (\<lambda>(_, ord). orderID \<noteq> [] \<and> o_OrderID ord = orderID) (os_Orders s))"

text \<open>\<open>current\<close> points at the last execution collected, once there is one.\<close>

definition updateLast :: "('a \<Rightarrow> 'a) \<Rightarrow> 'a list \<Rightarrow> 'a list" where
  "updateLast g xs = (if xs = [] then [] else butlast xs @ [g (last xs)])"

definition reportStep :: "time \<Rightarrow> Order \<Rightarrow> Execution list \<Rightarrow> Field \<Rightarrow> Execution list" where
  "reportStep now ord result f =
     (if fd_Tag f = 30051 then
        result @ [zeroExecution\<lparr>x_Exchange := ''bybit'', x_Category := o_Category ord, x_Symbol := o_Symbol ord,
          x_ExecutionID := fd_Value f, x_OrderID := o_OrderID ord, x_OrderLinkID := o_OrderLinkID ord,
          x_Side := o_Side ord, x_ReceivedAt := now\<rparr>]
      else if fd_Tag f = 30052 then updateLast (\<lambda>x. x\<lparr>x_Qty := fd_Value f\<rparr>) result
      else if fd_Tag f = 30053 then updateLast (\<lambda>x. x\<lparr>x_Price := fd_Value f\<rparr>) result
      else if fd_Tag f = 30054 then updateLast (\<lambda>x. x\<lparr>x_ExchangeTime := parseFIXTime (fd_Value f)\<rparr>) result
      else result)"

definition executionsFromReport :: "time \<Rightarrow> Message \<Rightarrow> Order \<Rightarrow> Execution list" where
  "executionsFromReport now m ord = foldl (reportStep now ord) [] (ms_Fields m)"

text \<open>\<open>strconv.FormatInt(v, 36)\<close>.\<close>

definition digit36 :: "int \<Rightarrow> char" where
  "digit36 d = (if d < 10 then char_of (48 + d) else char_of (87 + d))"

function natText36 :: "int \<Rightarrow> string" where
  "natText36 n = (if n < 36 then [digit36 n] else natText36 (n div 36) @ [digit36 (n mod 36)])"
  by pat_completeness auto
termination
  by (relation "measure nat") auto

declare natText36.simps [simp del]

definition FormatInt36 :: "int \<Rightarrow> string" where
  "FormatInt36 i = (if i < 0 then CHR ''-'' # natText36 (- i) else natText36 i)"

definition reqID :: "time \<Rightarrow> string \<Rightarrow> string" where
  "reqID now v = (if v \<noteq> [] then v else ''req-'' @ FormatInt36 (UnixNano now))"

definition recvWindow :: "OrderRouter \<Rightarrow> int" where
  "recvWindow r = (if rt_RecvWindow r > 0 then rt_RecvWindow r else 5000)"

definition requestHeader :: "time \<Rightarrow> OrderRouter \<Rightarrow> string \<Rightarrow> Field list" where
  "requestHeader now r req =
     [mkField 30002 (FormatInt (UnixMilli now)), mkField 30001 (FormatInt (recvWindow r))] @
     (if req \<noteq> [] then [mkField 30006 req] else [])"

definition fieldIf :: "int \<Rightarrow> string \<Rightarrow> Field list" where
  "fieldIf tag v = (if v \<noteq> [] then [mkField tag v] else [])"

section \<open>Requests\<close>

definition routerApply :: "Env \<Rightarrow> Env \<Rightarrow> time \<Rightarrow> Order \<Rightarrow> RouterWorld \<Rightarrow> goerror option \<times> RouterWorld" where
  "routerApply env reload now ord w =
     (case ApplyOrder env reload now ord (rw_State w) of (e, sv) \<Rightarrow> (e, w\<lparr>rw_State := sv\<rparr>))"

definition routerSend :: "SendEnv \<Rightarrow> string \<Rightarrow> Field list \<Rightarrow> RouterWorld \<Rightarrow> goerror option \<times> RouterWorld" where
  "routerSend env msgType body w =
     (case SendApplication (rw_Config w) env msgType body (rw_Session w) of (e, s) \<Rightarrow> (e, w\<lparr>rw_Session := s\<rparr>))"

definition newOrderFields :: "time \<Rightarrow> OrderRouter \<Rightarrow> NewOrderRequest \<Rightarrow> Field list" where
  "newOrderFields now r request =
     requestHeader now r [] @
     [mkField 30010 ''spot'', mkField 55 (nr_Symbol request), mkField 54 (fixSide (nr_Side request)),
      mkField 40 (fixOrderType (nr_OrderType request)), mkField 38 (nr_Qty request)] @
     fieldIf 44 (nr_Price request) @ [mkField 11 (nr_ClOrdID request)] @
     (if nr_TimeInForce request \<noteq> [] then [mkField 59 (fixTimeInForce (nr_TimeInForce request))] else [])"

definition placedOrder :: "time \<Rightarrow> NewOrderRequest \<Rightarrow> Order" where
  "placedOrder now request =
     zeroOrder\<lparr>o_Exchange := ''bybit'', o_Category := ''spot'', o_Symbol := nr_Symbol request,
       o_OrderLinkID := nr_ClOrdID request, o_Side := nr_Side request, o_Type := nr_OrderType request,
       o_Qty := nr_Qty request, o_Price := nr_Price request, o_Status := OrderStatusPendingSubmit,
       o_RawStatus := ''FIX_PENDING_SUBMIT'', o_CreatedAt := now, o_UpdatedAt := now\<rparr>"

definition Place :: "RouterEnv \<Rightarrow> NewOrderRequest \<Rightarrow> RouterWorld \<Rightarrow> goerror option \<times> RouterWorld" where
  "Place env request w =
     (if \<not> rt_Wired (rw_Router w) then (Some (EText ''FIX order router requires session and state''), w)
      else case validateNewOrder request of
          Some e \<Rightarrow> (Some e, w)
        | None \<Rightarrow>
            (let ord = placedOrder (re_Now env) request in
             case routerApply (re_Env env) (re_Reload env) (re_Now env) ord w of
               (Some e, w1) \<Rightarrow> (Some e, w1)
             | (None, w1) \<Rightarrow>
                 (case routerSend (re_Send env) ''D'' (newOrderFields (re_Now env) (rw_Router w) request) w1 of
                    (None, w2) \<Rightarrow> (None, w2)
                  | (Some e, w2) \<Rightarrow>
                      (case routerApply (re_Env2 env) (re_Reload2 env) (re_Later env)
                          (ord\<lparr>o_RawStatus := ''FIX_SUBMISSION_UNCERTAIN'', o_UpdatedAt := re_Later env\<rparr>) w2 of
                         (_, w3) \<Rightarrow> (Some (EWrap ''FIX order outcome uncertain'' e), w3)))))"

definition markPendingCancel :: "RouterEnv \<Rightarrow> string \<Rightarrow> string \<Rightarrow> RouterWorld \<Rightarrow> goerror option \<times> RouterWorld" where
  "markPendingCancel env orderID linkID w =
     (case findRouterOrder (sv_Snapshot (rw_State w)) orderID linkID of
        None \<Rightarrow> (Some (EText ''cannot cancel unknown local order''), w)
      | Some (_, ord) \<Rightarrow>
          routerApply (re_Env env) (re_Reload env) (re_Now env)
            (ord\<lparr>o_Status := OrderStatusPendingCancel, o_RawStatus := ''FIX_PENDING_CANCEL'', o_UpdatedAt := re_Now env\<rparr>) w)"

definition Cancel :: "RouterEnv \<Rightarrow> CancelRequest \<Rightarrow> RouterWorld \<Rightarrow> goerror option \<times> RouterWorld" where
  "Cancel env request w =
     (if cr_Symbol request = [] \<or> (cr_OrderID request = [] \<and> cr_ClOrdID request = [])
      then (Some (EText ''FIX cancel requires symbol and OrderID or ClOrdID''), w)
      else
        (let req = reqID (re_Now env) (cr_ReqID request) in
         case markPendingCancel env (cr_OrderID request) (cr_ClOrdID request) w of
           (Some e, w1) \<Rightarrow> (Some e, w1)
         | (None, w1) \<Rightarrow>
             (let body = requestHeader (re_Now env) (rw_Router w) req @ [mkField 30010 ''spot'', mkField 55 (cr_Symbol request)] @
                    fieldIf 37 (cr_OrderID request) @ fieldIf 11 (cr_ClOrdID request);
                  r = rw_Router w1 in
              routerSend (re_Send env) ''F'' body
                (w1\<lparr>rw_Router := r\<lparr>rt_pendingCancel := rt_pendingCancel r @
                   [\<lparr>pr_OrderID = cr_OrderID request, pr_ClOrdID = cr_ClOrdID request, pr_ReqID = req\<rparr>]\<rparr>\<rparr>))))"

definition Amend :: "RouterEnv \<Rightarrow> AmendRequest \<Rightarrow> RouterWorld \<Rightarrow> goerror option \<times> RouterWorld" where
  "Amend env request w =
     (if am_Symbol request = [] \<or> (am_OrderID request = [] \<and> am_ClOrdID request = []) \<or>
         (am_Qty request = [] \<and> am_Price request = [])
      then (Some (EText ''FIX amend requires symbol, an order identifier, and qty or price''), w)
      else
        (let req = reqID (re_Now env) (am_ReqID request);
             r = rw_Router w;
             body = requestHeader (re_Now env) r req @ [mkField 30010 ''spot'', mkField 55 (am_Symbol request)] @
               fieldIf 37 (am_OrderID request) @ fieldIf 11 (am_ClOrdID request) @
               fieldIf 38 (am_Qty request) @ fieldIf 44 (am_Price request) in
         routerSend (re_Send env) ''XAR'' body
           (w\<lparr>rw_Router := r\<lparr>rt_pendingAmend := rt_pendingAmend r @
              [\<lparr>pr_OrderID = am_OrderID request, pr_ClOrdID = am_ClOrdID request, pr_ReqID = req\<rparr>]\<rparr>\<rparr>)))"

section \<open>Answers\<close>

definition popPending :: "bool \<Rightarrow> OrderRouter \<Rightarrow> pendingRequest \<times> OrderRouter" where
  "popPending cancel r =
     (let zero = \<lparr>pr_OrderID = [], pr_ClOrdID = [], pr_ReqID = []\<rparr> in
      if cancel then
        (case rt_pendingCancel r of [] \<Rightarrow> (zero, r) | v # rest \<Rightarrow> (v, r\<lparr>rt_pendingCancel := rest\<rparr>))
      else
        (case rt_pendingAmend r of [] \<Rightarrow> (zero, r) | v # rest \<Rightarrow> (v, r\<lparr>rt_pendingAmend := rest\<rparr>)))"

definition reportedOrder :: "Message \<Rightarrow> Order" where
  "reportedOrder m =
     zeroOrder\<lparr>o_Exchange := ''bybit'', o_Category := valueOr m 30010 ''spot'', o_Symbol := valueOr m 55 [],
       o_OrderID := valueOr m 37 [], o_OrderLinkID := valueOr m 11 [], o_Side := sideFromFIX (valueOr m 54 []),
       o_Type := typeFromFIX (valueOr m 40 []), o_Qty := valueOr m 38 [], o_Price := valueOr m 44 [],
       o_CumFilledQty := valueOr m 14 [], o_AvgFillPrice := valueOr m 6 [], o_Status := statusFromFIX (valueOr m 39 []),
       o_RawStatus := valueOr m 39 [], o_UpdatedAt := parseFIXTime (valueOr m 60 [])\<rparr>"

text \<open>A pending status never takes back the progress already recorded.\<close>

definition effectiveReport :: "Snapshot \<Rightarrow> Message \<Rightarrow> Order" where
  "effectiveReport snapshot m =
     (let ord = reportedOrder m in
      if o_Status ord = OrderStatusPendingSubmit then
        (case findRouterOrder snapshot (o_OrderID ord) (o_OrderLinkID ord) of
           Some (_, current) \<Rightarrow>
             (if o_Status current \<noteq> OrderStatusPendingSubmit then ord\<lparr>o_Status := o_Status current\<rparr> else ord)
         | None \<Rightarrow> ord)
      else ord)"

fun recordExecutions :: "Env \<Rightarrow> Env \<Rightarrow> Execution list \<Rightarrow> Service \<Rightarrow> goerror option \<times> Service" where
  "recordExecutions env reload [] sv = (None, sv)"
| "recordExecutions env reload (x # xs) sv =
     (case RecordExecution env reload x sv of
        (Some e, sv') \<Rightarrow> (Some e, sv')
      | (None, sv') \<Rightarrow> recordExecutions env reload xs sv')"

definition handleExecutionReport :: "RouterEnv \<Rightarrow> Message \<Rightarrow> RouterWorld \<Rightarrow> goerror option \<times> RouterWorld" where
  "handleExecutionReport env m w =
     (let ord = effectiveReport (sv_Snapshot (rw_State w)) m in
      case routerApply (re_Env env) (re_Reload env) (re_Now env) ord w of
        (Some e, w1) \<Rightarrow> (Some e, w1)
      | (None, w1) \<Rightarrow>
          (case recordExecutions (re_Env2 env) (re_Reload2 env) (executionsFromReport (re_Later env) m ord) (rw_State w1) of
             (e, sv) \<Rightarrow> (e, w1\<lparr>rw_State := sv\<rparr>)))"

definition handleCancelAck :: "RouterEnv \<Rightarrow> Message \<Rightarrow> RouterWorld \<Rightarrow> goerror option \<times> RouterWorld" where
  "handleCancelAck env m w =
     (case popPending True (rw_Router w) of
        (pending, r) \<Rightarrow>
          (let w1 = w\<lparr>rw_Router := r\<rparr>;
               orderID = (case Message_Get m 37 of Some v \<Rightarrow> v | None \<Rightarrow> pr_OrderID pending);
               linkID = (case Message_Get m 11 of Some v \<Rightarrow> v | None \<Rightarrow> pr_ClOrdID pending) in
           if Message_Get m 150 = Some ''6'' then (None, w1)
           else case findRouterOrder (sv_Snapshot (rw_State w1)) orderID linkID of
               None \<Rightarrow> (Some (EText ''uncorrelated FIX cancel rejection''), w1)
             | Some (_, current) \<Rightarrow>
                 routerApply (re_Env env) (re_Reload env) (re_Now env)
                   (current\<lparr>o_Status := OrderStatusRejectedCancel, o_RawStatus := ''XCA_REJECTED:'' @ valueOr m 58 [],
                            o_UpdatedAt := re_Now env\<rparr>) w1))"

definition handleAmendAck :: "RouterEnv \<Rightarrow> Message \<Rightarrow> RouterWorld \<Rightarrow> goerror option \<times> RouterWorld" where
  "handleAmendAck env m w =
     (case popPending False (rw_Router w) of
        (pending, r) \<Rightarrow>
          (let w1 = w\<lparr>rw_Router := r\<rparr> in
           if Message_Get m 150 \<noteq> None then (None, w1)
           else case findRouterOrder (sv_Snapshot (rw_State w1)) (pr_OrderID pending) (pr_ClOrdID pending) of
               None \<Rightarrow> (Some (EFmt ''uncorrelated FIX amend rejection: %s'' [valueOr m 58 []]), w1)
             | Some (_, current) \<Rightarrow>
                 routerApply (re_Env env) (re_Reload env) (re_Now env)
                   (current\<lparr>o_RawStatus := ''XAA_REJECTED:'' @ valueOr m 58 [], o_UpdatedAt := re_Now env\<rparr>) w1))"

definition HandleMessage :: "RouterEnv \<Rightarrow> Message \<Rightarrow> RouterWorld \<Rightarrow> goerror option \<times> RouterWorld" where
  "HandleMessage env m w =
     (let t = (case Message_Get m 35 of Some v \<Rightarrow> v | None \<Rightarrow> []) in
      if t = ''8'' then handleExecutionReport env m w
      else if t = ''XCA'' then handleCancelAck env m w
      else if t = ''XAA'' then handleAmendAck env m w
      else if t = ''j'' \<or> t = ''3'' then (Some (EFmt ''FIX reject: %s'' [valueOr m 58 []]), w)
      else (Some (EFmt ''unsupported FIX application MsgType %q'' [t]), w))"

end
