(* ===== verification/FixSessionProps.thy ===== *)
theory FixSessionProps
  imports FixSession
begin

text \<open>
  The FIX session's promises: outbound messages are numbered without gaps and arrive at the peer as
  they were sent, inbound messages reach the application in sequence and once, a silent peer is
  noticed, and reconnecting backs off within its bounds.
\<close>

section \<open>Writing\<close>

lemma writeAll_ok: "writeAll w k data = (out, None) \<Longrightarrow> out = data"
proof (induction w k data arbitrary: out rule: writeAll.induct)
  case (1 w k data)
  obtain count e where w: "w k = (count, e)" by (cases "w k")
  show ?case
  proof (cases "data = []")
    case True
    then show ?thesis using "1.prems" by (simp add: writeAll.simps)
  next
    case False
    then have e: "e = None" "count \<noteq> 0" using "1.prems" w by (auto simp: writeAll.simps [of w k data] split: option.splits if_splits)
    obtain out' where o: "writeAll w (Suc k) (drop count data) = (out', None)" "out = take count data @ out'"
      using "1.prems" False w e by (auto simp: writeAll.simps [of w k data] split: prod.splits)
    then have "out' = drop count data" using "1.IH" [OF False w [symmetric] e(1)] e(2) by blast
    then show ?thesis using o by simp
  qed
qed

lemma writeAll_willing: "0 < n \<Longrightarrow> snd (writeAll (\<lambda>_. (n, None)) k data) = None"
proof (induction "\<lambda>_ :: nat. (n, None :: goerror option)" k data rule: writeAll.induct)
  case (1 k data)
  then show ?case by (subst writeAll.simps) (auto split: prod.splits)
qed

lemma writeAll_prefix: "writeAll w k data = (out, e) \<Longrightarrow> prefix out data"
proof (induction w k data arbitrary: out e rule: writeAll.induct)
  case (1 w k data)
  obtain count err where w: "w k = (count, err)" by (cases "w k")
  show ?case
  proof (cases "data = [] \<or> err \<noteq> None \<or> count = 0")
    case True
    then show ?thesis using "1.prems" w by (auto simp: writeAll.simps [of w k data] take_is_prefix split: if_splits option.splits)
  next
    case False
    then obtain out' where o: "writeAll w (Suc k) (drop count data) = (out', e)" "out = take count data @ out'"
      using "1.prems" w by (auto simp: writeAll.simps [of w k data] split: prod.splits)
    then have "prefix out' (drop count data)" using "1.IH" [of count err] False w by auto
    then show ?thesis using o(2) by (metis append_take_drop_id same_prefix_prefix)
  qed
qed

definition tagsFit :: "Field list \<Rightarrow> bool" where
  "tagsFit body \<longleftrightarrow> (\<forall>f\<in>set body. fd_Tag f < 2 ^ 63)"

text \<open>The application messages of a connection have tags that fit an \<open>int\<close>. Of the transport nothing is assumed.\<close>

definition eventOK :: "StepEnv \<times> SessionEvent \<Rightarrow> bool" where
  "eventOK x = (case snd x of EvApplication _ body \<Rightarrow> tagsFit body | _ \<Rightarrow> True)"

definition attemptOK :: "Attempt \<Rightarrow> bool" where
  "attemptOK a \<longleftrightarrow> list_all eventOK (at_Events a)"

text \<open>
  The outbound side of a connection. What the wire holds is a sequence of pieces: a whole message, whose write returned no error, or the bytes that a
  write took before it returned one. A whole message is numbered one above the whole messages before it, and so is the message a failed write left a
  part of.
\<close>

definition pieceOK :: "SessionConfig \<Rightarrow> int \<Rightarrow> bool \<times> string \<Rightarrow> bool" where
  "pieceOK config seq p \<longleftrightarrow> (\<exists>stamp msgType body raw. tagsFit body \<and> Encode ''FIX.4.4'' (sendFields config seq stamp msgType body) = Inr raw \<and>
     (if fst p then snd p = raw else snd p \<noteq> [] \<and> prefix (snd p) raw))"

fun piecesOK :: "SessionConfig \<Rightarrow> int \<Rightarrow> (bool \<times> string) list \<Rightarrow> bool" where
  "piecesOK config seq [] = True"
| "piecesOK config seq (p # ps) = (pieceOK config seq p \<and> piecesOK config (if fst p then seq + 1 else seq) ps)"

lemma piecesOK_snoc [simp]:
  "piecesOK config seq (ps @ [p]) \<longleftrightarrow> piecesOK config seq ps \<and> pieceOK config (seq + int (length (filter fst ps))) p"
  by (induction ps arbitrary: seq) (auto simp: add_ac)

lemma piecesOK_whole: "piecesOK config seq ps \<Longrightarrow> list_all fst ps \<Longrightarrow> i < length ps \<Longrightarrow> pieceOK config (seq + int i) (ps ! i)"
proof (induction ps arbitrary: seq i)
  case (Cons p ps)
  then show ?case using Cons.IH [of "seq + 1"] by (cases i) (auto simp: add.assoc)
qed simp

lemma piecesOK_takeWhile: "piecesOK config seq ps \<Longrightarrow> piecesOK config seq (takeWhile fst ps)"
  by (induction ps arbitrary: seq) auto

lemma pieces_length: "length (concat (map snd (filter fst ps))) \<le> length (concat (map snd ps))"
  by (induction ps) auto

text \<open>When the wire holds no more bytes than the messages sent have, no failed write left any.\<close>

lemma pieces_all_whole:
  "piecesOK config seq ps \<Longrightarrow> length (concat (map snd ps)) = length (concat (map snd (filter fst ps))) \<Longrightarrow> list_all fst ps"
proof (induction ps arbitrary: seq)
  case (Cons p ps)
  have "fst p"
  proof (rule ccontr)
    assume "\<not> fst p"
    then have "snd p \<noteq> []" using Cons.prems(1) by (auto simp: pieceOK_def)
    then show False using Cons.prems(2) pieces_length [of ps] \<open>\<not> fst p\<close> by (cases "snd p") auto
  qed
  then show ?case using Cons.IH [of "seq + 1"] Cons.prems by simp
qed simp

definition wireOf :: "SessionConfig \<Rightarrow> Session \<Rightarrow> (bool \<times> string) list \<Rightarrow> bool" where
  "wireOf config s ps \<longleftrightarrow> ss_wire s = concat (map snd ps) \<and> ss_sent s = map snd (filter fst ps) \<and> piecesOK config 1 ps"

definition numbered :: "SessionConfig \<Rightarrow> Session \<Rightarrow> bool" where
  "numbered config s \<longleftrightarrow> ss_outboundSeq s = 1 + int (length (ss_sent s)) \<and> (\<exists>ps. wireOf config s ps)"

lemma numbered_send [inv_intros]:
  assumes "numbered config s" "tagsFit body"
  shows "numbered config (snd (send config env msgType body s))"
proof (cases "Encode ''FIX.4.4'' (sendFields config (ss_outboundSeq s) (sd_Stamp env) msgType body)")
  case (Inl e)
  then show ?thesis using assms(1) by (simp add: send_def)
next
  case (Inr raw)
  obtain out e where w: "writeAll (sd_Writer env) 0 raw = (out, e)" by (cases "writeAll (sd_Writer env) 0 raw")
  obtain ps where ps: "wireOf config s ps" and seq: "ss_outboundSeq s = 1 + int (length (filter fst ps))"
    using assms(1) by (auto simp: numbered_def wireOf_def)
  have piece: "pieceOK config (ss_outboundSeq s) (b, out)" if "if b then out = raw else out \<noteq> []" for b
    using that writeAll_prefix [OF w] Inr assms(2) by (auto simp: pieceOK_def split: if_splits)
  show ?thesis
  proof (cases e)
    case None
    then have "out = raw" using w writeAll_ok by blast
    then have "wireOf config (snd (send config env msgType body s)) (ps @ [(True, out)])"
      using ps piece [of True] Inr w None seq by (simp add: send_def wireOf_def)
    then show ?thesis using assms(1) Inr w None by (auto simp: send_def numbered_def)
  next
    case (Some e')
    then have "wireOf config (snd (send config env msgType body s)) (if out = [] then ps else ps @ [(False, out)])"
      using ps piece [of False] Inr w seq by (simp add: send_def wireOf_def)
    then show ?thesis using assms(1) Inr w Some unfolding numbered_def by (auto simp: send_def)
  qed
qed

lemma numbered_update [simp]:
  "numbered config (s\<lparr>ss_active := x0\<rparr>) = numbered config s"
  "numbered config (s\<lparr>ss_inboundSeq := x1\<rparr>) = numbered config s"
  "numbered config (s\<lparr>ss_inbound := x2\<rparr>) = numbered config s"
  "numbered config (s\<lparr>ss_reconnects := x3\<rparr>) = numbered config s"
  "numbered config (s\<lparr>ss_sequenceErrors := x4\<rparr>) = numbered config s"
  "numbered config (s\<lparr>ss_heartbeats := x5\<rparr>) = numbered config s"
  "numbered config (s\<lparr>ss_testRequests := x6\<rparr>) = numbered config s"
  "numbered config (s\<lparr>ss_lastInbound := x7\<rparr>) = numbered config s"
  "numbered config (s\<lparr>ss_loggedOn := x8\<rparr>) = numbered config s"
  "numbered config (s\<lparr>ss_testRequestOutstanding := x9\<rparr>) = numbered config s"
  "numbered config (s\<lparr>ss_delivered := x10\<rparr>) = numbered config s"
  by (simp_all add: numbered_def wireOf_def)

lemma tagsFit_simps [simp]: "tagsFit []" "tagsFit (f # fs) \<longleftrightarrow> fd_Tag f < 2 ^ 63 \<and> tagsFit fs"
  by (auto simp: tagsFit_def)

lemma numbered_thenContinue: "numbered config (snd r) \<Longrightarrow> numbered config (fst (thenContinue env r))"
  by (auto simp: thenContinue_def split: prod.splits option.splits)

lemma numbered_tickHeartbeat:
  "numbered config s \<Longrightarrow> numbered config (snd (tickHeartbeat config env s))"
  using numbered_send [of config s "[]" "se_Send env" "''0''"]
  by (auto simp: tickHeartbeat_def split: prod.splits option.splits)

lemma numbered_tickTestRequest:
  "numbered config s \<Longrightarrow> numbered config (snd (tickTestRequest config env s))"
  using numbered_send [of config s "[mkField 112 (''test-'' @ FormatInt (UnixMilli (se_Now env)))]" "se_Send2 env" "''1''"]
  by (auto simp: tickTestRequest_def split: prod.splits option.splits)

lemma numbered_tick:
  assumes "numbered config s"
  shows "numbered config (fst (tick config env s))"
proof -
  obtain e1 s1 where t1: "tickHeartbeat config env s = (e1, s1)" by (metis surj_pair)
  then have n1: "numbered config s1" using numbered_tickHeartbeat [OF assms, of env] by simp
  obtain e2 s2 where t2: "tickTestRequest config env s1 = (e2, s2)" by (metis surj_pair)
  then have n2: "numbered config s2" using numbered_tickTestRequest [OF n1, of env] by simp
  show ?thesis using n1 n2 t1 t2 by (auto simp: tick_def tickStale_def split: option.splits)
qed

lemma numbered_dispatch:
  assumes "numbered config s"
  shows "numbered config (fst (dispatchMessage config attempt env m s))"
proof -
  have "numbered config (fst (handleLogon config attempt env s))"
    using assms(1) by (auto simp: handleLogon_def onLogon_def split: prod.splits option.splits if_splits)
  moreover have "numbered config (fst (handleTestRequest config env m s))"
    unfolding handleTestRequest_def by (intro numbered_thenContinue numbered_send) (use assms in simp_all)
  moreover have "numbered config (fst (handleLogout config env m s))"
    using numbered_send [OF assms, of "[]"] assms(1) by (simp add: handleLogout_def Let_def)
  moreover have "numbered config (fst (handleApplication config env m s))"
    using assms(1) by (auto simp: handleApplication_def intro!: numbered_thenContinue)
  ultimately show ?thesis using assms(1) by (simp add: dispatchMessage_def Let_def)
qed

lemma numbered_receive:
  assumes "numbered config s"
  shows "numbered config (fst (receive config attempt env m s))"
proof -
  have "numbered config (fst (dispatchMessage config attempt env m
      (s\<lparr>ss_lastInbound := se_Now env, ss_inbound := ss_inbound s + 1, ss_inboundSeq := ss_inboundSeq s + 1\<rparr>)))"
    by (rule numbered_dispatch) (use assms in simp_all)
  then show ?thesis using assms(1) by (auto simp: receive_def Let_def split: sum.splits)
qed

lemma numbered_step:
  assumes "numbered config s" "eventOK (env, ev)"
  shows "numbered config (fst (sessionStep config attempt env ev s))"
  using assms numbered_send [OF assms(1)] numbered_receive [OF assms(1)] numbered_tick [OF assms(1)]
  by (auto simp: sessionStep_def eventOK_def SendApplication_def split: SessionEvent.splits)

lemma numbered_loop: "numbered config s \<Longrightarrow> list_all eventOK events \<Longrightarrow> numbered config (fst (sessionLoop config attempt events s))"
proof (induction events arbitrary: s)
  case (Cons x events)
  obtain env ev where x: "x = (env, ev)" by (cases x)
  obtain s' out where st: "sessionStep config attempt env ev s = (s', out)" by (metis surj_pair)
  have "numbered config s'" using numbered_step [of config s env ev attempt] Cons.prems st x by simp
  then show ?case using Cons st x by (cases out) auto
qed simp

lemma numbered_runOnce:
  assumes "at_Dial a = None" "attemptOK a"
  shows "numbered config (fst (runOnce config attempt a s))"
proof -
  have o: "numbered config (openConnection s)" by (auto simp: openConnection_def numbered_def wireOf_def intro: exI [of _ "[]"])
  obtain e s1 where l: "sendLogon config (at_LogonNow a) (at_Logon a) (openConnection s) = (e, s1)" by (metis surj_pair)
  have n1: "numbered config s1"
    using l o numbered_send [OF o] assms(2)
    by (auto simp: sendLogon_def Let_def attemptOK_def split: option.splits if_splits sum.splits dest!: arg_cong [where f = snd])
  have "numbered config (fst (sessionLoop config attempt (at_Events a) (s1\<lparr>ss_active := True, ss_lastInbound := at_Start a\<rparr>)))"
    using assms(2) by (intro numbered_loop) (auto simp: attemptOK_def n1)
  then show ?thesis using n1 l assms(1)
    by (auto simp: runOnce_def split: option.splits prod.splits Outcome.splits)
qed

section \<open>Reading what was written\<close>

lemma Message_Get_send:
  "ms_Fields m = sendFields config seq stamp msgType body \<Longrightarrow> Message_Get m 34 = Some (FormatInt seq)"
  by (simp add: Message_Get_def sendFields_def)

lemma messageSequence_send:
  "ms_Fields m = sendFields config seq stamp msgType body \<Longrightarrow> 1 \<le> seq \<Longrightarrow> seq < 2 ^ 63 \<Longrightarrow> messageSequence m = Inr seq"
  by (simp add: messageSequence_def Message_Get_send Atoi_FormatInt)

lemma sendFields_tags: "tagsFit body \<Longrightarrow> f \<in> set (sendFields config seq stamp msgType body) \<Longrightarrow> fd_Tag f < 2 ^ 63"
  by (auto simp: sendFields_def tagsFit_def)

lemma ParseStrict_sent:
  assumes "Encode ''FIX.4.4'' (sendFields config seq stamp msgType body) = Inr raw" "tagsFit body" "length raw \<le> 2 ^ 20"
    "1 \<le> seq" "seq < 2 ^ 63"
  shows "\<exists>m. ParseStrict raw = (m, None) \<and> ms_Raw m = raw \<and> messageSequence m = Inr seq"
proof -
  have "SOH \<notin> set ''FIX.4.4''" by (simp add: SOH_def)
  moreover have "length raw < 2 ^ 63" using assms(3) by simp
  ultimately obtain m where m: "ParseStrict raw = (m, None)" "ms_Fields m = sendFields config seq stamp msgType body" "ms_Raw m = raw"
    using Encode_parses [OF assms(1) _ sendFields_tags [OF assms(2)]] by simp
  then show ?thesis using messageSequence_send [OF m(2) assms(4,5)] by blast
qed

lemma parseFrames_append: "parseFrames xs = (ms, None) \<Longrightarrow> parseFrames (xs @ ys) = (ms @ fst (parseFrames ys), snd (parseFrames ys))"
proof (induction xs arbitrary: ms)
  case (Cons x xs)
  then show ?case by (auto split: prod.splits option.splits)
qed (simp split: prod.splits)

lemma parseFrames_prefix: "parseFrames (xs @ ys) = (ms, None) \<Longrightarrow> \<exists>ms1. parseFrames xs = (ms1, None)"
proof (induction xs arbitrary: ms)
  case (Cons x xs)
  then show ?case by (fastforce split: prod.splits option.splits)
qed simp

lemma parseFrames_all:
  "(\<And>i. i < length raws \<Longrightarrow> \<exists>m. ParseStrict (raws ! i) = (m, None) \<and> P i m) \<Longrightarrow>
   \<exists>ms. parseFrames raws = (ms, None) \<and> length ms = length raws \<and> (\<forall>i<length raws. P i (ms ! i))"
proof (induction raws arbitrary: P)
  case (Cons r raws)
  obtain m where m: "ParseStrict r = (m, None)" "P 0 m" using Cons.prems [of 0] by auto
  have "\<exists>m. ParseStrict (raws ! i) = (m, None) \<and> P (Suc i) m" if "i < length raws" for i
    using Cons.prems [of "Suc i"] that by simp
  from Cons.IH [OF this] obtain ms where "parseFrames raws = (ms, None)" "length ms = length raws"
    "\<forall>i<length raws. P (Suc i) (ms ! i)" by blast
  then show ?case using m by (auto simp: less_Suc_eq_0_disj nth_Cons')
qed simp

text \<open>Reading non-empty chunks without a read error is feeding them and parsing the frames.\<close>

lemma readMessages_feedAll:
  assumes "feedAll chunks f = (f', frames, FeedOK)" "parseFrames frames = (ms, None)" "[] \<notin> set chunks"
  shows "readMessages f (map (\<lambda>c. (c, None)) chunks) = (ms, ReadOpen)"
  using assms
proof (induction chunks arbitrary: f frames ms)
  case (Cons c chunks)
  obtain f1 fs1 o1 where F: "Feed c f = (f1, fs1, o1)" by (metis surj_pair)
  then have o1: "o1 = FeedOK" using Cons.prems(1) by (cases o1) auto
  obtain fs2 where r: "feedAll chunks f1 = (f', fs2, FeedOK)" "frames = fs1 @ fs2"
    using Cons.prems(1) F o1 by (auto split: prod.splits)
  obtain ms1 where p1: "parseFrames fs1 = (ms1, None)" using parseFrames_prefix Cons.prems(2) r(2) by blast
  then obtain ms2 where p2: "parseFrames fs2 = (ms2, None)" "ms = ms1 @ ms2"
    using parseFrames_append [OF p1, of fs2] Cons.prems(2) r(2) by (cases "parseFrames fs2") auto
  have "readMessages f1 (map (\<lambda>c. (c, None)) chunks) = (ms2, ReadOpen)"
    using Cons.IH [OF r(1) p2(1)] Cons.prems(3) by simp
  moreover have "c \<noteq> []" using Cons.prems(3) by auto
  ultimately show ?case using F o1 p1 p2 by (simp add: readChunk_def)
qed simp

lemma readMessages_skip: "readMessages f (map (\<lambda>c. (c, None)) chunks) = readMessages f (map (\<lambda>c. (c, None)) (filter (\<lambda>c. c \<noteq> []) chunks))"
  by (induction chunks arbitrary: f) (auto simp: readChunk_def split: prod.splits ReadEnd.splits)

lemma concat_filter_ne: "concat (filter (\<lambda>c. c \<noteq> []) cs) = concat cs"
  by (induction cs) auto

section \<open>Properties of the outbound side\<close>

text \<open>The peer's reading loop on pieces that are all whole, cut in any way.\<close>

lemma pieces_read:
  assumes "piecesOK config 1 ps" "list_all fst ps" "length ps < 2 ^ 63" "\<And>raw. raw \<in> set (map snd ps) \<Longrightarrow> length raw \<le> 2 ^ 20"
    "concat chunks = concat (map snd ps)"
  shows "\<exists>ms. readMessages \<lparr>fr_buffer = [], fr_MaxSize = 0\<rparr> (map (\<lambda>c. (c, None)) chunks) = (ms, ReadOpen) \<and>
    map ms_Raw ms = map snd ps \<and> map messageSequence ms = map Inr [1..int (length ps)]"
proof -
  let ?f = "\<lparr>fr_buffer = [], fr_MaxSize = 0\<rparr>" and ?raws = "map snd ps"
  have n: "\<exists>stamp msgType body. tagsFit body \<and> Encode ''FIX.4.4'' (sendFields config (int i + 1) stamp msgType body) = Inr (?raws ! i)"
    if "i < length ?raws" for i
    using piecesOK_whole [OF assms(1,2), of i] that assms(2) by (auto simp: pieceOK_def list_all_length add.commute)
  have sent: "\<exists>m. ParseStrict (?raws ! i) = (m, None) \<and> ms_Raw m = ?raws ! i \<and> messageSequence m = Inr (int i + 1)"
    if i: "i < length ?raws" for i
  proof -
    obtain stamp msgType body where "tagsFit body" "Encode ''FIX.4.4'' (sendFields config (int i + 1) stamp msgType body) = Inr (?raws ! i)"
      using n [OF i] by blast
    moreover have "length (?raws ! i) \<le> 2 ^ 20" using assms(4) nth_mem [OF i] by blast
    moreover have "1 \<le> int i + 1" "int i + 1 < 2 ^ 63" using assms(3) i by simp_all
    ultimately show ?thesis using ParseStrict_sent by blast
  qed
  have enc: "\<exists>beginString fs. Encode beginString fs = Inr raw \<and> SOH \<notin> set beginString \<and> int (length raw) \<le> frameLimit ?f"
    if raw: "raw \<in> set ?raws" for raw
  proof -
    obtain stamp msgType body i where "Encode ''FIX.4.4'' (sendFields config (int i + 1) stamp msgType body) = Inr raw"
      using n raw unfolding in_set_conv_nth by metis
    moreover have "SOH \<notin> set ''FIX.4.4''" by (simp add: SOH_def)
    moreover have "int (length raw) \<le> frameLimit ?f" using assms(4) [OF raw] by (simp add: frameLimit_def)
    ultimately show ?thesis by blast
  qed
  let ?cs = "filter (\<lambda>c. c \<noteq> []) chunks"
  have "concat ?cs = concat ?raws" using assms(5) by (simp add: concat_filter_ne)
  then obtain f' where f': "feedAll ?cs ?f = (f', ?raws, FeedOK)"
    using framer_stream [of ?cs ?raws ?f] enc by (auto simp: frameLimit_def)
  from parseFrames_all [of ?raws, OF sent] obtain ms where ms: "parseFrames ?raws = (ms, None)" "length ms = length ?raws"
    "\<forall>i<length ?raws. ms_Raw (ms ! i) = ?raws ! i \<and> messageSequence (ms ! i) = Inr (int i + 1)"
    by blast
  have "readMessages ?f (map (\<lambda>c. (c, None)) chunks) = (ms, ReadOpen)"
    using readMessages_feedAll [OF f' ms(1)] readMessages_skip [of ?f chunks] by simp
  moreover have "map ms_Raw ms = ?raws" using ms(2,3) by (intro nth_equalityI) simp_all
  moreover have "map messageSequence ms = map Inr [1..int (length ps)]"
    using ms(2,3) by (intro nth_equalityI) (simp_all add: add.commute)
  ultimately show ?thesis by blast
qed

text \<open>
  C30. What one side sends, the other side reads, numbered without a gap, until a write fails in the middle of a message. Take any connection of a
  session with any events in any order (application sends of other goroutines between loop iterations, ticks) and any transport, which may accept any part
  of a message and then fail. The bytes on the wire are the messages sent, numbered 1, 2, 3 and so on, each whole, with at most parts of refused messages
  between them. The bytes before the first such part, cut into reads in any way, make the peer's reading loop return just the messages they hold, in
  order, with their numbers and no error; they are all the messages sent when no failed write left bytes behind. Messages are assumed to be within the
  reader's limit of one mebibyte.
\<close>

theorem peer_reads_numbered_messages:
  assumes "at_Dial a = None" "attemptOK a" "runOnce config attempt a s = (s', out)"
    "\<And>raw. raw \<in> set (ss_sent s') \<Longrightarrow> length raw \<le> 2 ^ 20" "length (ss_sent s') < 2 ^ 63"
  shows "\<exists>pieces. wireOf config s' pieces \<and>
    (\<forall>chunks. concat chunks = concat (map snd (takeWhile fst pieces)) \<longrightarrow>
      (\<exists>ms. readMessages \<lparr>fr_buffer = [], fr_MaxSize = 0\<rparr> (map (\<lambda>c. (c, None)) chunks) = (ms, ReadOpen) \<and>
         map ms_Raw ms = map snd (takeWhile fst pieces) \<and> map messageSequence ms = map Inr [1..int (length (takeWhile fst pieces))])) \<and>
    (length (ss_wire s') = length (concat (ss_sent s')) \<longrightarrow> takeWhile fst pieces = pieces \<and> map snd pieces = ss_sent s')"
proof -
  have "numbered config s'" using numbered_runOnce [OF assms(1,2)] assms(3) by (metis fst_conv)
  then obtain ps where ps: "wireOf config s' ps" by (auto simp: numbered_def)
  let ?qs = "takeWhile fst ps"
  have all: "list_all fst ?qs" by (auto simp: list_all_iff dest: set_takeWhileD)
  have ok: "piecesOK config 1 ?qs" using ps by (simp add: wireOf_def piecesOK_takeWhile)
  have sent: "set (map snd ?qs) \<subseteq> set (ss_sent s')" using ps by (auto simp: wireOf_def dest: set_takeWhileD intro!: image_eqI)
  have few: "length ?qs < 2 ^ 63"
  proof -
    have "?qs = filter fst ?qs" using all by (simp add: filter_id_conv list_all_iff)
    then have "length ?qs \<le> length (filter fst ps)" by (metis filter_append le_add1 length_append takeWhile_dropWhile_id)
    then show ?thesis using ps assms(5) by (simp add: wireOf_def)
  qed
  have reads: "\<exists>ms. readMessages \<lparr>fr_buffer = [], fr_MaxSize = 0\<rparr> (map (\<lambda>c. (c, None)) chunks) = (ms, ReadOpen) \<and>
      map ms_Raw ms = map snd ?qs \<and> map messageSequence ms = map Inr [1..int (length ?qs)]"
    if "concat chunks = concat (map snd ?qs)" for chunks
  proof (rule pieces_read [OF ok all few _ that])
    show "length raw \<le> 2 ^ 20" if "raw \<in> set (map snd ?qs)" for raw using that sent assms(4) by blast
  qed
  have whole: "?qs = ps \<and> map snd ps = ss_sent s'" if "length (ss_wire s') = length (concat (ss_sent s'))"
  proof -
    have "list_all fst ps" using pieces_all_whole [of config 1 ps] that ps by (simp add: wireOf_def)
    then show ?thesis using ps by (simp add: wireOf_def list_all_iff filter_id_conv [THEN iffD2])
  qed
  show ?thesis using ps reads whole by blast
qed

section \<open>The inbound side\<close>

definition msgTypeOf :: "Message \<Rightarrow> string" where
  "msgTypeOf m = (case Message_Get m 35 of None \<Rightarrow> [] | Some t \<Rightarrow> t)"

definition applicationMessage :: "Message \<Rightarrow> bool" where
  "applicationMessage m \<longleftrightarrow> msgTypeOf m \<notin> {''A'', ''0'', ''1'', ''5''}"

fun inboundMessages :: "(StepEnv \<times> SessionEvent) list \<Rightarrow> Message list" where
  "inboundMessages [] = []"
| "inboundMessages ((_, EvMessage m) # events) = m # inboundMessages events"
| "inboundMessages (_ # events) = inboundMessages events"

text \<open>What no send changes, and what a step that does not receive leaves alone.\<close>

lemma send_inbound:
  "ss_inboundSeq (snd (send config env t body s)) = ss_inboundSeq s"
  "ss_delivered (snd (send config env t body s)) = ss_delivered s"
  "ss_loggedOn (snd (send config env t body s)) = ss_loggedOn s"
  by (simp_all add: send_def split: sum.splits prod.splits option.splits)

lemma send_inboundD:
  "send config env t body s = (e, s') \<Longrightarrow>
   ss_inboundSeq s' = ss_inboundSeq s \<and> ss_delivered s' = ss_delivered s \<and> ss_loggedOn s' = ss_loggedOn s"
  using send_inbound [of config env t body s] by simp

lemma tick_inbound:
  assumes "tick config env s = (s', Continue)"
  shows "ss_inboundSeq s' = ss_inboundSeq s \<and> ss_delivered s' = ss_delivered s \<and> ss_loggedOn s' = ss_loggedOn s"
proof -
  have h: "ss_inboundSeq x = ss_inboundSeq s \<and> ss_delivered x = ss_delivered s \<and> ss_loggedOn x = ss_loggedOn s"
    if "tickHeartbeat config env s = (e, x)" for e x
    using that by (auto simp: tickHeartbeat_def split: if_splits prod.splits option.splits dest!: send_inboundD)
  have t: "ss_inboundSeq x = ss_inboundSeq y \<and> ss_delivered x = ss_delivered y \<and> ss_loggedOn x = ss_loggedOn y"
    if "tickTestRequest config env y = (e, x)" for e x y
    using that by (auto simp: tickTestRequest_def split: if_splits prod.splits option.splits dest!: send_inboundD)
  obtain s1 where s1: "tickHeartbeat config env s = (None, s1)"
    using assms by (auto simp: tick_def failWith_def split: prod.splits option.splits if_splits)
  then obtain s2 where s2: "tickTestRequest config env s1 = (None, s2)" "tickStale config env s2 = (s', Continue)"
    using assms by (auto simp: tick_def failWith_def split: prod.splits option.splits if_splits)
  have "s' = s2" using s2(2) by (auto simp: tickStale_def failWith_def split: if_splits)
  then show ?thesis using h [OF s1] t [OF s2(1)] by simp
qed

text \<open>A message that the loop survives.\<close>

lemma dispatch_inbound:
  assumes "dispatchMessage config attempt env m s = (s', Continue)"
  shows "ss_inboundSeq s' = ss_inboundSeq s"
    "ss_delivered s' = ss_delivered s @ (if sc_HasOnMessage config \<and> applicationMessage m then [m] else [])"
    "ss_loggedOn s' \<and> (ss_loggedOn s \<or> msgTypeOf m = ''A'')"
proof -
  have tc: "x = snd r" if "thenContinue env r = (x, Continue)" for r x
    using that by (auto simp: thenContinue_def failWith_def split: prod.splits option.splits if_splits)
  consider (A) "msgTypeOf m = ''A''" | (H) "msgTypeOf m = ''0''" | (T) "msgTypeOf m = ''1''" | (L) "msgTypeOf m = ''5''"
    | (App) "applicationMessage m"
    by (auto simp: applicationMessage_def)
  then have "ss_inboundSeq s' = ss_inboundSeq s \<and>
      ss_delivered s' = ss_delivered s @ (if sc_HasOnMessage config \<and> applicationMessage m then [m] else []) \<and>
      ss_loggedOn s' \<and> (ss_loggedOn s \<or> msgTypeOf m = ''A'')"
  proof cases
    case A
    then have "handleLogon config attempt env s = (s', Continue)" "\<not> applicationMessage m"
      using assms by (simp_all add: dispatchMessage_def msgTypeOf_def applicationMessage_def)
    then show ?thesis using A
      by (auto simp: handleLogon_def onLogon_def failWith_def split: if_splits prod.splits option.splits)
  next
    case H
    then show ?thesis using assms
      by (auto simp: dispatchMessage_def Let_def msgTypeOf_def [symmetric] applicationMessage_def split: if_splits)
  next
    case T
    then have "handleTestRequest config env m s = (s', Continue)" "ss_loggedOn s" "\<not> applicationMessage m"
      using assms by (auto simp: dispatchMessage_def Let_def msgTypeOf_def [symmetric] applicationMessage_def split: if_splits)
    then show ?thesis using tc by (fastforce simp: handleTestRequest_def send_inbound)
  next
    case L
    then show ?thesis using assms
      by (auto simp: dispatchMessage_def msgTypeOf_def [symmetric] handleLogout_def Let_def split: if_splits)
  next
    case App
    then have "handleApplication config env m s = (s', Continue)" "ss_loggedOn s"
      using assms by (auto simp: dispatchMessage_def Let_def msgTypeOf_def [symmetric] applicationMessage_def split: if_splits)
    then show ?thesis using App tc by (fastforce simp: handleApplication_def split: if_splits)
  qed
  then show "ss_inboundSeq s' = ss_inboundSeq s"
    "ss_delivered s' = ss_delivered s @ (if sc_HasOnMessage config \<and> applicationMessage m then [m] else [])"
    "ss_loggedOn s' \<and> (ss_loggedOn s \<or> msgTypeOf m = ''A'')" by blast+
qed

text \<open>The effect of one step that continues, on the sequence number, the deliveries and the logon.\<close>

definition stepInbound :: "SessionConfig \<Rightarrow> SessionEvent \<Rightarrow> Session \<Rightarrow> Session \<Rightarrow> bool" where
  "stepInbound config ev s s' =
     (case ev of
        EvMessage m \<Rightarrow> messageSequence m = Inr (ss_inboundSeq s) \<and> ss_inboundSeq s' = ss_inboundSeq s + 1 \<and>
          ss_delivered s' = ss_delivered s @ (if sc_HasOnMessage config \<and> applicationMessage m then [m] else []) \<and>
          ss_loggedOn s' \<and> (ss_loggedOn s \<or> msgTypeOf m = ''A'')
      | _ \<Rightarrow> ss_inboundSeq s' = ss_inboundSeq s \<and> ss_delivered s' = ss_delivered s \<and> ss_loggedOn s' = ss_loggedOn s)"

lemma sessionStep_inbound:
  assumes "sessionStep config attempt env ev s = (s', Continue)"
  shows "stepInbound config ev s s'"
proof (cases ev)
  case (EvMessage m)
  let ?s1 = "s\<lparr>ss_lastInbound := se_Now env, ss_inbound := ss_inbound s + 1\<rparr>"
  have "messageSequence m = Inr (ss_inboundSeq s)"
    "dispatchMessage config attempt env m (?s1\<lparr>ss_inboundSeq := ss_inboundSeq s + 1\<rparr>) = (s', Continue)"
    using assms EvMessage by (auto simp: sessionStep_def receive_def Let_def failWith_def split: sum.splits if_splits)
  then show ?thesis using dispatch_inbound EvMessage by (fastforce simp: stepInbound_def)
next
  case (EvApplication t body)
  then show ?thesis using assms by (auto simp: sessionStep_def stepInbound_def SendApplication_def send_inbound split: if_splits)
qed (use assms tick_inbound in \<open>auto simp: sessionStep_def stepInbound_def split: if_splits\<close>)

lemma sessionLoop_inbound:
  assumes "sessionLoop config attempt events s = (s', Continue)"
  shows "map messageSequence (inboundMessages events) = map Inr [ss_inboundSeq s..ss_inboundSeq s' - 1] \<and>
     ss_inboundSeq s' = ss_inboundSeq s + int (length (inboundMessages events)) \<and>
     ss_delivered s' = ss_delivered s @ (if sc_HasOnMessage config then filter applicationMessage (inboundMessages events) else []) \<and>
     (inboundMessages events \<noteq> [] \<and> \<not> ss_loggedOn s \<longrightarrow> msgTypeOf (hd (inboundMessages events)) = ''A'')"
  using assms
proof (induction events arbitrary: s)
  case (Cons x events)
  obtain env ev where x: "x = (env, ev)" by (cases x)
  obtain s1 where s1: "sessionStep config attempt env ev s = (s1, Continue)" "sessionLoop config attempt events s1 = (s', Continue)"
    using Cons.prems x by (auto split: prod.splits Outcome.splits)
  note st = sessionStep_inbound [OF s1(1)] and IH = Cons.IH [OF s1(2)]
  show ?case
  proof (cases ev)
    case (EvMessage m)
    have "[ss_inboundSeq s..ss_inboundSeq s' - 1] = ss_inboundSeq s # [ss_inboundSeq s + 1..ss_inboundSeq s' - 1]"
      using st IH EvMessage by (simp add: stepInbound_def upto_rec1)
    then show ?thesis using st IH EvMessage x by (auto simp: stepInbound_def)
  qed (use st IH x in \<open>auto simp: stepInbound_def\<close>)
qed simp

section \<open>Properties of the inbound side\<close>

text \<open>
  C31. The application sees the peer's messages in sequence, once and without a gap. While the loop of a
  connection runs, the inbound messages carry exactly the sequence numbers 1, 2, 3 and so on, the first
  of them is the logon acknowledgement, and \<open>OnMessage\<close> has been called with exactly the application
  messages among them, in order. A gap or a repetition therefore always ends the connection before the
  message reaches the application.
\<close>

theorem inbound_in_sequence:
  assumes "at_Dial a = None" "runOnce config attempt a s = (s', Continue)"
  shows "map messageSequence (inboundMessages (at_Events a)) = map Inr [1..ss_inboundSeq s' - 1] \<and>
     ss_delivered s' = (if sc_HasOnMessage config then filter applicationMessage (inboundMessages (at_Events a)) else []) \<and>
     (inboundMessages (at_Events a) \<noteq> [] \<longrightarrow> msgTypeOf (hd (inboundMessages (at_Events a))) = ''A'')"
proof -
  obtain s1 where l: "sendLogon config (at_LogonNow a) (at_Logon a) (openConnection s) = (None, s1)"
    and r: "sessionLoop config attempt (at_Events a) (s1\<lparr>ss_active := True, ss_lastInbound := at_Start a\<rparr>) = (s', Continue)"
    using assms by (auto simp: runOnce_def split: prod.splits option.splits Outcome.splits)
  have "ss_inboundSeq s1 = 1 \<and> ss_delivered s1 = [] \<and> \<not> ss_loggedOn s1"
    using l by (auto simp: sendLogon_def Let_def openConnection_def split: option.splits if_splits sum.splits dest!: send_inboundD)
  then show ?thesis using sessionLoop_inbound [OF r] by simp
qed

text \<open>
  A silent peer is noticed. On a tick of a logged-on session at least two heartbeat intervals after
  the last inbound message, either the step fails or a test request is outstanding; at least three
  intervals after it, the step always ends the connection: with an error, or quietly when the context has
  been cancelled. The interval is short enough for its triple to fit the 64 bits of a duration.
\<close>

theorem silent_peer_noticed:
  assumes "ss_loggedOn s" "tick config env s = (s', out)" "0 < sc_Heartbeat config" "3 * sc_Heartbeat config < 2 ^ 63"
  shows "(2 * sc_Heartbeat config \<le> se_Now env - ss_lastInbound s \<longrightarrow> out \<noteq> Continue \<or> ss_testRequestOutstanding s') \<and>
     (3 * sc_Heartbeat config \<le> se_Now env - ss_lastInbound s \<longrightarrow>
        (\<exists>r. out = Return r \<and> (r = None \<longleftrightarrow> se_CtxErr env)))"
proof -
  obtain e1 s1 where t1: "tickHeartbeat config env s = (e1, s1)" by (metis surj_pair)
  obtain e2 s2 where t2: "tickTestRequest config env s1 = (e2, s2)" by (metis surj_pair)
  have s1: "ss_loggedOn s1" "ss_lastInbound s1 = ss_lastInbound s"
    using t1 assms(1) by (auto simp: tickHeartbeat_def send_def split: if_splits prod.splits option.splits sum.splits)
  have s2: "ss_loggedOn s2" "ss_lastInbound s2 = ss_lastInbound s"
    using t2 s1 by (auto simp: tickTestRequest_def send_def split: if_splits prod.splits option.splits sum.splits)
  have sub: "h \<le> Sub t u \<longleftrightarrow> h \<le> t - u" if "0 < h" "h < 2 ^ 63" for h t u using that by (auto simp: Sub_def)
  have w: "wrap64 (2 * sc_Heartbeat config) = 2 * sc_Heartbeat config" "wrap64 (3 * sc_Heartbeat config) = 3 * sc_Heartbeat config"
    using assms(3,4) by simp_all
  have out: "ss_testRequestOutstanding s2" if "2 * sc_Heartbeat config \<le> se_Now env - ss_lastInbound s" "e2 = None"
    using t2 that s1 assms(3,4) sub [of "2 * sc_Heartbeat config"]
    by (auto simp: tickTestRequest_def w split: if_splits prod.splits option.splits)
  have fail: "\<exists>r. failWith env e = Return r \<and> (r = None \<longleftrightarrow> se_CtxErr env)" for e by (simp add: failWith_def)
  have stale: "tickStale config env s2 = (s2, if 3 * sc_Heartbeat config \<le> se_Now env - ss_lastInbound s
      then failWith env (EText ''FIX session stale after unanswered TestRequest'') else Continue)"
    using s2 assms(3,4) sub [of "3 * sc_Heartbeat config"] by (simp add: tickStale_def w)
  have "tick config env s = (case e1 of Some e \<Rightarrow> (s1, failWith env e)
      | None \<Rightarrow> (case e2 of Some e \<Rightarrow> (s2, failWith env e) | None \<Rightarrow> tickStale config env s2))"
    using t1 t2 by (simp add: tick_def split: option.splits)
  then show ?thesis using assms(2) out fail stale
    by (cases e1; cases e2) (force simp: failWith_def split: if_splits)+
qed

section \<open>Reconnecting\<close>

lemma nextBackoff_bounds:
  "0 < b \<Longrightarrow> b < 2 ^ 62 \<Longrightarrow> 0 < sc_MaxBackoff config \<Longrightarrow>
   0 < nextBackoff config b \<and> nextBackoff config b \<le> sc_MaxBackoff config \<and> nextBackoff config b \<le> 2 * b"
  by (simp add: nextBackoff_def)

lemma runRounds_waits:
  assumes "runRounds config n b rounds s waits = (s', waits', out)" "0 < b" "b < 2 ^ 62" "0 < sc_MaxBackoff config" "sc_MaxBackoff config < 2 ^ 62"
    "\<And>w. w \<in> set waits \<Longrightarrow> 0 < w \<and> w \<le> max c (sc_MaxBackoff config)" "b \<le> max c (sc_MaxBackoff config)"
  shows "\<forall>w\<in>set waits'. 0 < w \<and> w \<le> max c (sc_MaxBackoff config)"
  using assms
proof (induction rounds arbitrary: n b s waits)
  case (Cons r rounds)
  have nb: "0 < nextBackoff config b" "nextBackoff config b \<le> sc_MaxBackoff config" using nextBackoff_bounds Cons.prems by blast+
  have ws: "\<And>w. w \<in> set (waits @ [b]) \<Longrightarrow> 0 < w \<and> w \<le> max c (sc_MaxBackoff config)" using Cons.prems by auto
  have IH: "\<forall>w\<in>set waits'. 0 < w \<and> w \<le> max c (sc_MaxBackoff config)"
    if "runRounds config (Suc n) (nextBackoff config b) rounds s1 (waits @ [b]) = (s', waits', out)" for s1
    by (rule Cons.IH [OF that]) (use nb ws Cons.prems in auto)
  obtain s1 o1 where o1: "runOnce config (Some n) (rd_Attempt r) s = (s1, o1)" by (metis surj_pair)
  show ?case
  proof (cases o1)
    case Continue
    then show ?thesis using Cons.prems(1,6) o1 by auto
  next
    case (Return result)
    then show ?thesis using Cons.prems(1,6) o1 IH ws by (auto split: if_splits option.splits)
  qed
qed auto

text \<open>
  Reconnecting waits within its bounds. For the configuration that \<open>NewSession\<close> returns, with
  intervals below \<open>2^62\<close> nanoseconds, every wait of \<open>Run\<close>, whatever the rounds bring, is positive and at
  most the larger of the initial and the maximal backoff; the jittered wait is at least half of it (rounded
  down) and never longer, and drawing it never panics.
\<close>

theorem Run_waits_bounded:
  assumes "NewSession True config = Inr (config', s)" "sc_InitialBackoff config' < 2 ^ 62" "sc_MaxBackoff config' < 2 ^ 62"
    "Run config' rounds s = (s', waits, out)" "w \<in> set waits" "\<And>n. 0 < n \<Longrightarrow> 0 \<le> random n \<and> random n < n"
  shows "0 < w \<and> w \<le> max (sc_InitialBackoff config') (sc_MaxBackoff config') \<and>
     (\<exists>j. sessionJitter random w = Some j \<and> w div 2 \<le> j \<and> j \<le> w)"
proof -
  have pos: "0 < sc_InitialBackoff config'" "0 < sc_MaxBackoff config'"
    using assms(1) by (auto simp: NewSession_def Millisecond_def Second_def)
  have w: "0 < w \<and> w \<le> max (sc_InitialBackoff config') (sc_MaxBackoff config')"
    using runRounds_waits [OF assms(4) [unfolded Run_def] pos(1) assms(2) pos(2) assms(3), of "sc_InitialBackoff config'"] assms(5)
    by simp
  moreover have "\<exists>j. sessionJitter random w = Some j \<and> w div 2 \<le> j \<and> j \<le> w"
  proof (cases "w \<le> 1")
    case False
    then have h: "0 < w div 2" by linarith
    then have "0 \<le> random (w div 2)" "random (w div 2) < w div 2" using assms(6) by blast+
    then show ?thesis using False h by (simp add: sessionJitter_def)
  qed (use w in \<open>simp add: sessionJitter_def\<close>)
  ultimately show ?thesis by blast
qed

section \<open>Witnesses\<close>

definition wConfig :: SessionConfig where
  "wConfig = \<lparr>sc_SenderCompID = ''CLIENT'', sc_TargetCompID = ''SERVER'', sc_APIKey = ''key'',
     sc_Signer = Some (\<lambda>_. Inr ''signature''), sc_Heartbeat = 10 * Second, sc_InitialBackoff = 0, sc_MaxBackoff = 0,
     sc_HasOnMessage = True, sc_HasOnReconnect = False\<rparr>"

definition wSession :: Session where
  "wSession = \<lparr>ss_active = False, ss_outboundSeq = 0, ss_inboundSeq = 0, ss_inbound = 0, ss_outbound = 0, ss_reconnects = 0,
     ss_sequenceErrors = 0, ss_heartbeats = 0, ss_testRequests = 0, ss_lastOutboundNS = 0, ss_lastInbound = 0,
     ss_loggedOn = False, ss_testRequestOutstanding = False, ss_wire = [], ss_sent = [], ss_delivered = []\<rparr>"

definition wSend :: SendEnv where
  "wSend = \<lparr>sd_Stamp = unixEpoch, sd_Done = unixEpoch, sd_Writer = (\<lambda>_. (100, None))\<rparr>"

definition wEnv :: "time \<Rightarrow> StepEnv" where
  "wEnv now = \<lparr>se_Now = now, se_Send = wSend, se_Send2 = wSend, se_Callback = None, se_CtxErr = False\<rparr>"

definition wMessage :: "string \<Rightarrow> string \<Rightarrow> Message" where
  "wMessage t seq = \<lparr>ms_BeginString = [], ms_BodyLength = 0, ms_CheckSum = 0, ms_Fields = [mkField 35 t, mkField 34 seq], ms_Raw = []\<rparr>"

definition wAttempt :: Attempt where
  "wAttempt = \<lparr>at_Dial = None, at_LogonNow = unixEpoch, at_Logon = wSend, at_Start = unixEpoch,
     at_Events = [(wEnv unixEpoch, EvMessage (wMessage ''A'' ''1'')), (wEnv unixEpoch, EvApplication ''D'' [mkField 11 ''order''])]\<rparr>"

lemma wAttempt_ok: "attemptOK wAttempt" "at_Dial wAttempt = None"
  by (simp_all add: attemptOK_def wAttempt_def eventOK_def)

lemma wRun_sent:
  "case runOnce wConfig None wAttempt wSession of (s, out) \<Rightarrow>
     list_all (\<lambda>raw. int (length raw) \<le> 200) (ss_sent s) \<and> int (length (ss_sent s)) = 2 \<and> ss_wire s = concat (ss_sent s) \<and> out = Continue"
  by code_simp

theorem peer_reads_numbered_messages_witness:
  "\<exists>ms. readMessages \<lparr>fr_buffer = [], fr_MaxSize = 0\<rparr> [(ss_wire (fst (runOnce wConfig None wAttempt wSession)), None)] = (ms, ReadOpen) \<and>
     map messageSequence ms = [Inr 1, Inr 2]"
proof -
  obtain s out where r: "runOnce wConfig None wAttempt wSession = (s, out)" by (metis surj_pair)
  have sizes: "length raw \<le> 2 ^ 20" if "raw \<in> set (ss_sent s)" for raw using wRun_sent r that by (auto simp: list_all_iff)
  have two: "int (length (ss_sent s)) = 2" "ss_wire s = concat (ss_sent s)" using wRun_sent r by simp_all
  obtain ps where ps: "takeWhile fst ps = ps" "map snd ps = ss_sent s"
    "\<And>chunks. concat chunks = concat (map snd (takeWhile fst ps)) \<Longrightarrow>
       \<exists>ms. readMessages \<lparr>fr_buffer = [], fr_MaxSize = 0\<rparr> (map (\<lambda>c. (c, None)) chunks) = (ms, ReadOpen) \<and>
         map ms_Raw ms = map snd (takeWhile fst ps) \<and> map messageSequence ms = map Inr [1..int (length (takeWhile fst ps))]"
    using peer_reads_numbered_messages [OF wAttempt_ok(2,1) r sizes] two by auto
  have "length ps = length (ss_sent s)" using ps(2) by (metis length_map)
  then show ?thesis using ps(3) [of "[ss_wire s]"] ps(1,2) two r by (auto simp: upto_rec1)
qed

text \<open>
  The transport takes twenty bytes of an order and fails. The session stays as it was, so the next order follows the fragment under the same number, and
  the peer's reader fails on the stream instead of reading it.
\<close>

definition partialAttempt :: Attempt where
  "partialAttempt = wAttempt\<lparr>at_Events :=
     [(wEnv unixEpoch, EvMessage (wMessage ''A'' ''1'')),
      ((wEnv unixEpoch)\<lparr>se_Send := wSend\<lparr>sd_Writer := (\<lambda>_. (20, Some ErrShortWrite))\<rparr>\<rparr>, EvApplication ''D'' [mkField 11 ''first'']),
      (wEnv unixEpoch, EvApplication ''D'' [mkField 11 ''second''])]\<rparr>"

lemma partial_write_breaks_stream:
  "case runOnce wConfig None partialAttempt wSession of (s, out) \<Rightarrow>
     out = Continue \<and> ss_active s \<and> int (length (ss_sent s)) = 2 \<and> int (length (ss_wire s)) = int (length (concat (ss_sent s))) + 20 \<and>
     (case readMessages \<lparr>fr_buffer = [], fr_MaxSize = 0\<rparr> [(ss_wire s, None)] of (ms, ReadFailed _) \<Rightarrow> ms = [] | _ \<Rightarrow> False)"
  by code_simp

lemma wRun_continues: "snd (runOnce wConfig None wAttempt wSession) = Continue"
  using wRun_sent by (auto split: prod.splits)

theorem inbound_in_sequence_witness:
  "\<exists>s'. runOnce wConfig None wAttempt wSession = (s', Continue) \<and>
     map messageSequence (inboundMessages (at_Events wAttempt)) = map Inr [1..ss_inboundSeq s' - 1]"
proof -
  obtain s' where r: "runOnce wConfig None wAttempt wSession = (s', Continue)" using wRun_continues by (metis surjective_pairing)
  from inbound_in_sequence [OF wAttempt_ok(2) r] r show ?thesis by blast
qed

theorem silent_peer_noticed_witness:
  "\<exists>s' r. tick wConfig (wEnv (unixEpoch + 31 * Second)) (wSession\<lparr>ss_loggedOn := True, ss_lastInbound := unixEpoch\<rparr>) = (s', Return (Some r))"
proof -
  let ?s = "wSession\<lparr>ss_loggedOn := True, ss_lastInbound := unixEpoch\<rparr>"
  obtain s' out where t: "tick wConfig (wEnv (unixEpoch + 31 * Second)) ?s = (s', out)" by (metis surj_pair)
  have "ss_loggedOn ?s" "0 < sc_Heartbeat wConfig" "3 * sc_Heartbeat wConfig < 2 ^ 63"
    "3 * sc_Heartbeat wConfig \<le> se_Now (wEnv (unixEpoch + 31 * Second)) - ss_lastInbound ?s"
    by (simp_all add: wConfig_def wEnv_def Second_def)
  then show ?thesis using silent_peer_noticed [OF _ t] t by (auto simp: wEnv_def)
qed

definition wRounds :: "Round list" where
  "wRounds = [\<lparr>rd_Attempt = wAttempt\<lparr>at_Dial := Some ErrEOF\<rparr>, rd_CtxErr = False, rd_WaitCancelled = False\<rparr>,
     \<lparr>rd_Attempt = wAttempt\<lparr>at_Dial := Some ErrEOF\<rparr>, rd_CtxErr = False, rd_WaitCancelled = True\<rparr>]"

theorem Run_waits_bounded_witness:
  "\<exists>config' s s' out. NewSession True wConfig = Inr (config', s) \<and>
     Run config' wRounds s = (s', [250 * Millisecond, 500 * Millisecond], out) \<and>
     sessionJitter (\<lambda>_. 0) (500 * Millisecond) = Some (250 * Millisecond) \<and> 500 * Millisecond \<le> sc_MaxBackoff config'"
proof -
  define config' where "config' = wConfig\<lparr>sc_InitialBackoff := 250 * Millisecond, sc_MaxBackoff := 15 * Second\<rparr>"
  have n: "NewSession True wConfig = Inr (config', wSession)"
    by (simp add: NewSession_def config'_def wConfig_def wSession_def Second_def)
  obtain s' out where r: "Run config' wRounds wSession = (s', [250 * Millisecond, 500 * Millisecond], out)"
    by (simp add: Run_def wRounds_def runOnce_def ErrEOF_def nextBackoff_def config'_def Second_def Millisecond_def)
  have "sessionJitter (\<lambda>_. 0) (500 * Millisecond) = Some (250 * Millisecond)"
    by (simp add: sessionJitter_def Millisecond_def)
  moreover have "500 * Millisecond \<le> max (sc_InitialBackoff config') (sc_MaxBackoff config')"
    using Run_waits_bounded [OF n _ _ r, of "500 * Millisecond" "\<lambda>_. 0"] by (simp add: config'_def Second_def Millisecond_def)
  ultimately show ?thesis using n r by (auto simp: config'_def Second_def Millisecond_def)
qed

end
