(* ===== verification/FixOrderProps.thy ===== *)
theory FixOrderProps
  imports FixOrders FixSessionProps OrderInv
begin

text \<open>
  The FIX order router's promises: no order is written to the wire before it is recorded in the state
  file, what is on the wire is the request, and the queue of unanswered cancellations, which keeps a
  request whose message was never sent.
\<close>

section \<open>What an accepted update stores\<close>

definition storedOrder :: "Service \<Rightarrow> (Order \<Rightarrow> bool) \<Rightarrow> bool" where
  "storedOrder sv P \<longleftrightarrow> (\<exists>s k ord. sv_File sv = FileHolds s \<and> gget (os_Orders s) k = Some ord \<and> P ord)"

lemma applyOrder_stores:
  assumes "applyOrderToSnapshot now u s = Inr s'" "o_Status u \<noteq> OrderStatusEmpty"
  shows "\<exists>k cur ord. gget (os_Orders s') k = Some ord \<and> ord = stampedMerge now cur u \<and> o_Status ord = o_Status u"
proof -
  obtain key cur m where m: "m = stampedMerge now cur u"
    "s' = s\<lparr>os_Orders := (if key \<noteq> orderStorageKey m then gput (orderStorageKey m) m (gdel key (os_Orders s))
       else gput key m (os_Orders s))\<rparr>"
    using applyOrder_cases [OF assms(1)] by metis
  then have "gget (os_Orders s') (orderStorageKey m) = Some m" by (simp add: gomap_simps)
  moreover have "o_Status m = o_Status u" using m(1) assms(2) by (simp add: mergeOrder_def)
  ultimately show ?thesis using m(1) by blast
qed

lemma ApplyOrder_refused_or_stored:
  assumes "ApplyOrder env reload now u sv = (e, sv')" "o_Status u \<noteq> OrderStatusEmpty"
  shows "(e \<noteq> None \<and> sv_File sv' = sv_File sv) \<or>
     storedOrder sv' (\<lambda>ord. (\<exists>cur. ord = stampedMerge now cur u) \<and> o_Status ord = o_Status u)"
proof (rule Service_mutate_cases [OF assms(1) [unfolded ApplyOrder_def]], goal_cases)
  case (2 s s')
  obtain k cur ord where k: "gget (os_Orders s') k = Some ord" "ord = stampedMerge now cur u" "o_Status ord = o_Status u"
    using applyOrder_stores [OF 2(2) assms(2)] by blast
  have "gget (os_Orders (orderTouch (ev_Now env) s')) k = Some ord" using k(1) by (simp add: orderTouch_def)
  then show ?case using 2(3) k(2,3) unfolding storedOrder_def by blast
qed simp

lemma ApplyOrder_stored:
  assumes "ApplyOrder env reload now u sv = (None, sv')" "o_Status u \<noteq> OrderStatusEmpty"
  shows "storedOrder sv' (\<lambda>ord. (\<exists>cur. ord = stampedMerge now cur u) \<and> o_Status ord = o_Status u)"
  using ApplyOrder_refused_or_stored [OF assms] by simp

lemma storedOrder_file: "sv_File a = sv_File b \<Longrightarrow> storedOrder a P = storedOrder b P"
  by (simp add: storedOrder_def)

lemma storedOrder_mono: "storedOrder sv P \<Longrightarrow> (\<And>ord. P ord \<Longrightarrow> Q ord) \<Longrightarrow> storedOrder sv Q"
  by (auto simp: storedOrder_def)

text \<open>The stored order is the one the request described.\<close>

definition recordsRequest :: "NewOrderRequest \<Rightarrow> Order \<Rightarrow> bool" where
  "recordsRequest request ord \<longleftrightarrow> o_OrderLinkID ord = nr_ClOrdID request \<and> o_Symbol ord = nr_Symbol request \<and>
     o_Side ord = nr_Side request \<and> o_Type ord = nr_OrderType request \<and> o_Qty ord = nr_Qty request \<and>
     o_Status ord = OrderStatusPendingSubmit"

lemma placedOrder_recorded:
  assumes "validateNewOrder request = None"
  shows "recordsRequest request (stampedMerge now cur (placedOrder now' request))"
    "recordsRequest request (stampedMerge now cur ((placedOrder now' request)\<lparr>o_RawStatus := raw, o_UpdatedAt := t\<rparr>))"
  using assms
  by (auto simp: recordsRequest_def stampedMerge_def Let_def mergeOrder_def setIf_def placedOrder_def validateNewOrder_def
      split: if_splits)

lemma placedOrder_status [simp]: "o_Status (placedOrder now r) = OrderStatusPendingSubmit"
  by (simp add: placedOrder_def)

section \<open>Placing an order\<close>

text \<open>The ways a call of \<open>Place\<close> can go.\<close>

lemma Place_cases:
  assumes "Place env request w = (e, w')"
  obtains
    (refused) "e \<noteq> None" "rw_Session w' = rw_Session w"
  | (sent) w1 where "e = None" "validateNewOrder request = None" "rw_Config w1 = rw_Config w" "rw_Session w1 = rw_Session w"
      "ApplyOrder (re_Env env) (re_Reload env) (re_Now env) (placedOrder (re_Now env) request) (rw_State w) = (None, rw_State w1)"
      "routerSend (re_Send env) ''D'' (newOrderFields (re_Now env) (rw_Router w) request) w1 = (None, w')"
  | (uncertain) w1 e1 w2 e2 where "e = Some (EWrap ''FIX order outcome uncertain'' e1)" "validateNewOrder request = None"
      "rw_Config w1 = rw_Config w" "rw_Session w1 = rw_Session w"
      "ApplyOrder (re_Env env) (re_Reload env) (re_Now env) (placedOrder (re_Now env) request) (rw_State w) = (None, rw_State w1)"
      "routerSend (re_Send env) ''D'' (newOrderFields (re_Now env) (rw_Router w) request) w1 = (Some e1, w2)"
      "ApplyOrder (re_Env2 env) (re_Reload2 env) (re_Later env)
         ((placedOrder (re_Now env) request)\<lparr>o_RawStatus := ''FIX_SUBMISSION_UNCERTAIN'', o_UpdatedAt := re_Later env\<rparr>) (rw_State w2)
         = (e2, rw_State w')"
      "rw_Session w' = rw_Session w2"
proof (cases "rt_Wired (rw_Router w) \<and> validateNewOrder request = None")
  case False
  have "\<exists>x. Place env request w = (Some x, w)"
    using False by (cases "rt_Wired (rw_Router w)"; cases "validateNewOrder request") (simp_all add: Place_def)
  then show thesis using refused assms by auto
next
  case True
  obtain e0 sv1 where a: "ApplyOrder (re_Env env) (re_Reload env) (re_Now env) (placedOrder (re_Now env) request) (rw_State w) = (e0, sv1)"
    by (metis surj_pair)
  define w1 where "w1 = w\<lparr>rw_State := sv1\<rparr>"
  obtain e1 w2 where s: "routerSend (re_Send env) ''D'' (newOrderFields (re_Now env) (rw_Router w) request) w1 = (e1, w2)"
    by (metis surj_pair)
  obtain e2 sv3 where b: "ApplyOrder (re_Env2 env) (re_Reload2 env) (re_Later env)
         ((placedOrder (re_Now env) request)\<lparr>o_RawStatus := ''FIX_SUBMISSION_UNCERTAIN'', o_UpdatedAt := re_Later env\<rparr>) (rw_State w2) = (e2, sv3)"
    by (metis surj_pair)
  have p: "Place env request w = (case e0 of Some e \<Rightarrow> (Some e, w1) | None \<Rightarrow>
      (case e1 of None \<Rightarrow> (None, w2) | Some e \<Rightarrow> (Some (EWrap ''FIX order outcome uncertain'' e), w2\<lparr>rw_State := sv3\<rparr>)))"
    using True a s b by (auto simp: Place_def routerApply_def w1_def Let_def split: option.splits)
  show thesis
  proof (cases e0)
    case (Some x)
    then show thesis using refused assms p by (auto simp: w1_def)
  next
    case e0: None
    have w1: "rw_Config w1 = rw_Config w" "rw_Session w1 = rw_Session w" "rw_State w1 = sv1" by (simp_all add: w1_def)
    show thesis
    proof (cases e1)
      case None
      then show thesis using sent [of w1] assms p e0 a s True w1 by simp
    next
      case (Some x)
      then show thesis using uncertain [of x w1 w2 e2] assms p e0 a s b True w1 by auto
    qed
  qed
qed

lemma routerSend_state: "routerSend env t body w = (e, w') \<Longrightarrow> rw_State w' = rw_State w"
  by (auto simp: routerSend_def split: prod.splits)

lemma routerSend_sent:
  assumes "routerSend env t body w = (None, w')"
  shows "\<exists>raw seq stamp. Encode ''FIX.4.4'' (sendFields (rw_Config w) seq stamp t body) = Inr raw \<and>
     ss_sent (rw_Session w') = ss_sent (rw_Session w) @ [raw]"
proof -
  obtain raw where raw: "Encode ''FIX.4.4'' (sendFields (rw_Config w) (ss_outboundSeq (rw_Session w)) (sd_Stamp env) t body) = Inr raw"
    using assms by (auto simp: routerSend_def SendApplication_def send_def split: prod.splits if_splits sum.splits)
  then have "ss_sent (rw_Session w') = ss_sent (rw_Session w) @ [raw]"
    using assms by (auto simp: routerSend_def SendApplication_def send_def split: prod.splits if_splits option.splits)
  with raw show ?thesis by blast
qed

section \<open>Properties\<close>

text \<open>
  C23. An order is recorded before it can reach the exchange. Whatever fails, if \<open>Place\<close> has put any byte on
  the wire then the state file holds an order with the request's client identifier, symbol, side, type and
  quantity in the status PendingSubmit; so an order whose submission is uncertain can be reconciled.
\<close>

theorem Place_writes_ahead:
  assumes "Place env request w = (e, w')" "ss_wire (rw_Session w') \<noteq> ss_wire (rw_Session w)"
  shows "\<exists>s k ord. sv_File (rw_State w') = FileHolds s \<and> gget (os_Orders s) k = Some ord \<and> recordsRequest request ord"
proof -
  have first: "storedOrder sv (recordsRequest request)"
    if "validateNewOrder request = None"
      "ApplyOrder (re_Env env) (re_Reload env) (re_Now env) (placedOrder (re_Now env) request) (rw_State w) = (None, sv)" for sv
    by (rule storedOrder_mono [OF ApplyOrder_stored [OF that(2)]])
      (auto simp: placedOrder_recorded [OF that(1)])
  have "storedOrder (rw_State w') (recordsRequest request)"
    using assms(1)
  proof (cases rule: Place_cases)
    case refused
    then show ?thesis using assms(2) by simp
  next
    case (sent w1)
    then show ?thesis using first [OF sent(2,5)] routerSend_state [OF sent(6)] by simp
  next
    case (uncertain w1 e1 w2 e2)
    have "storedOrder (rw_State w2) (recordsRequest request)"
      using first [OF uncertain(2,5)] routerSend_state [OF uncertain(6)] by simp
    moreover have "storedOrder (rw_State w') (recordsRequest request)" if "storedOrder (rw_State w') (\<lambda>ord. (\<exists>cur. ord = stampedMerge (re_Later env) cur
        ((placedOrder (re_Now env) request)\<lparr>o_RawStatus := ''FIX_SUBMISSION_UNCERTAIN'', o_UpdatedAt := re_Later env\<rparr>)) \<and>
        o_Status ord = o_Status ((placedOrder (re_Now env) request)\<lparr>o_RawStatus := ''FIX_SUBMISSION_UNCERTAIN'', o_UpdatedAt := re_Later env\<rparr>))"
      by (rule storedOrder_mono [OF that]) (auto simp: placedOrder_recorded [OF uncertain(2)])
    ultimately show ?thesis using ApplyOrder_refused_or_stored [OF uncertain(7)] storedOrder_file [of "rw_State w'" "rw_State w2"]
      by (simp add: placedOrder_def) blast
  qed
  then show ?thesis by (auto simp: storedOrder_def)
qed

section \<open>What goes on the wire\<close>

lemma findField_append: "find P (xs @ ys) = (case find P xs of None \<Rightarrow> find P ys | Some x \<Rightarrow> Some x)"
  by (induction xs) auto

lemma newOrder_get:
  assumes "ms_Fields m = sendFields config seq stamp ''D'' (newOrderFields now r request)"
  shows "Message_Get m 35 = Some ''D''" "Message_Get m 55 = Some (nr_Symbol request)"
    "Message_Get m 54 = Some (fixSide (nr_Side request))" "Message_Get m 40 = Some (fixOrderType (nr_OrderType request))"
    "Message_Get m 38 = Some (nr_Qty request)" "Message_Get m 11 = Some (nr_ClOrdID request)"
    "Message_Get m 44 = (if nr_Price request = [] then None else Some (nr_Price request))"
  by (auto simp: Message_Get_def assms sendFields_def newOrderFields_def requestHeader_def fieldIf_def)

lemma newOrder_tags: "tagsFit (newOrderFields now r request)"
  by (auto simp: newOrderFields_def requestHeader_def fieldIf_def tagsFit_def)

lemma side_type_roundtrip:
  assumes "validateNewOrder request = None"
  shows "sideFromFIX (fixSide (nr_Side request)) = nr_Side request"
    "typeFromFIX (fixOrderType (nr_OrderType request)) = nr_OrderType request"
  using assms by (auto simp: validateNewOrder_def sideFromFIX_def fixSide_def typeFromFIX_def fixOrderType_def split: if_splits)

text \<open>
  The message on the wire is the order that was asked for. A successful \<open>Place\<close> sends exactly one more
  message; strict parsing accepts it as a new order single, and reading it back the way the router reads
  execution reports gives the symbol, side, type, quantity, price and client identifier of the request.
\<close>

theorem Place_sends_request:
  assumes "Place env request w = (None, w')" "\<And>raw. raw \<in> set (ss_sent (rw_Session w')) \<Longrightarrow> length raw < 2 ^ 63"
  shows "\<exists>raw m. ss_sent (rw_Session w') = ss_sent (rw_Session w) @ [raw] \<and> ParseStrict raw = (m, None) \<and>
     Message_Get m 35 = Some ''D'' \<and>
     (let ord = reportedOrder m in o_Symbol ord = nr_Symbol request \<and> o_Side ord = nr_Side request \<and>
        o_Type ord = nr_OrderType request \<and> o_Qty ord = nr_Qty request \<and> o_Price ord = nr_Price request \<and>
        o_OrderLinkID ord = nr_ClOrdID request)"
  using assms(1)
proof (cases rule: Place_cases)
  case (sent w1)
  let ?body = "newOrderFields (re_Now env) (rw_Router w) request"
  obtain raw seq stamp where raw: "Encode ''FIX.4.4'' (sendFields (rw_Config w1) seq stamp ''D'' ?body) = Inr raw"
    "ss_sent (rw_Session w') = ss_sent (rw_Session w) @ [raw]"
    using routerSend_sent [OF sent(6)] sent(4) by auto
  have "SOH \<notin> set ''FIX.4.4''" "length raw < 2 ^ 63" using assms(2) raw(2) by (simp_all add: SOH_def)
  then obtain m where m: "ParseStrict raw = (m, None)" "ms_Fields m = sendFields (rw_Config w1) seq stamp ''D'' ?body"
    using Encode_parses [OF raw(1) _ sendFields_tags [OF newOrder_tags]] by simp
  note g = newOrder_get [OF m(2)]
  show ?thesis using raw(2) m(1) g side_type_roundtrip [OF sent(2)]
    by (intro exI [of _ raw] exI [of _ m]) (simp add: reportedOrder_def valueOr_def)
qed simp_all

section \<open>Unanswered cancellations\<close>

text \<open>
  A cancellation that was never sent stays in the queue of unanswered ones. If the local order is marked
  and the session then refuses the message, \<open>Cancel\<close> reports the error, nothing is written to the wire, and
  the request is queued all the same. The next rejection that carries no identifiers, which answers some
  later cancellation, is then attributed to this request when it heads the queue: it is this order that is
  looked up and marked as refused.
\<close>

theorem failed_cancel_misattributes:
  assumes "cr_Symbol request \<noteq> []" "cr_ClOrdID request \<noteq> []" "\<not> ss_active (rw_Session w)"
    "markPendingCancel env (cr_OrderID request) (cr_ClOrdID request) w = (None, w1)" "rt_pendingCancel (rw_Router w) = []"
    "rt_pendingCancel (rw_Router w2) = rt_pendingCancel (rw_Router (snd (Cancel env request w))) @ later"
    "Message_Get m 37 = None" "Message_Get m 11 = None" "Message_Get m 150 = None"
    "findRouterOrder (sv_Snapshot (rw_State w2)) (cr_OrderID request) (cr_ClOrdID request) = Some (key, ord)"
  shows "fst (Cancel env request w) = Some (EText ''FIX session is not connected'') \<and>
     ss_wire (rw_Session (snd (Cancel env request w))) = ss_wire (rw_Session w) \<and>
     handleCancelAck env' m w2 =
       routerApply (re_Env env') (re_Reload env') (re_Now env')
         (ord\<lparr>o_Status := OrderStatusRejectedCancel, o_RawStatus := ''XCA_REJECTED:'' @ valueOr m 58 [], o_UpdatedAt := re_Now env'\<rparr>)
         (w2\<lparr>rw_Router := (rw_Router w2)\<lparr>rt_pendingCancel := later\<rparr>\<rparr>)"
proof -
  have w1: "rw_Session w1 = rw_Session w" "rw_Router w1 = rw_Router w"
    using assms(4) by (auto simp: markPendingCancel_def routerApply_def split: option.splits prod.splits)
  then have "fst (Cancel env request w) = Some (EText ''FIX session is not connected'')"
    "rw_Session (snd (Cancel env request w)) = rw_Session w"
    "rt_pendingCancel (rw_Router (snd (Cancel env request w))) =
       [\<lparr>pr_OrderID = cr_OrderID request, pr_ClOrdID = cr_ClOrdID request, pr_ReqID = reqID (re_Now env) (cr_ReqID request)\<rparr>]"
    using assms(1-5) by (simp_all add: Cancel_def Let_def routerSend_def SendApplication_def)
  then show ?thesis using assms(6-10) by (simp add: handleCancelAck_def popPending_def Let_def)
qed

section \<open>Witnesses\<close>

definition wRequest :: NewOrderRequest where
  "wRequest = \<lparr>nr_Symbol = ''BTCUSDT'', nr_Side = ''Buy'', nr_OrderType = ''Limit'', nr_Qty = ''1'', nr_Price = ''100'',
     nr_ClOrdID = ''link-1'', nr_TimeInForce = ''ioc''\<rparr>"

definition wRouterEnv :: RouterEnv where
  "wRouterEnv = \<lparr>re_Now = unixEpoch, re_Env = quietEnv 1, re_Reload = quietEnv 2, re_Later = unixEpoch, re_Env2 = quietEnv 3,
     re_Reload2 = quietEnv 4, re_Send = wSend\<rparr>"

definition wWorld :: RouterWorld where
  "wWorld = \<lparr>rw_Router = \<lparr>rt_Wired = True, rt_RecvWindow = 0, rt_pendingCancel = [], rt_pendingAmend = []\<rparr>,
     rw_Config = wConfig, rw_Session = wSession\<lparr>ss_active := True, ss_outboundSeq := 2\<rparr>, rw_State = emptyService\<rparr>"

lemma wPlace_sends:
  "case Place wRouterEnv wRequest wWorld of (e, w') \<Rightarrow>
     e = None \<and> list_all (\<lambda>raw. int (length raw) \<le> 300) (ss_sent (rw_Session w')) \<and> ss_wire (rw_Session w') \<noteq> []"
  by code_simp

theorem Place_writes_ahead_witness:
  "\<exists>s k ord. sv_File (rw_State (snd (Place wRouterEnv wRequest wWorld))) = FileHolds s \<and> gget (os_Orders s) k = Some ord \<and>
     recordsRequest wRequest ord"
  using Place_writes_ahead [OF surjective_pairing, of wRouterEnv wRequest wWorld] wPlace_sends
  by (auto simp: wWorld_def wSession_def split: prod.splits)

theorem Place_sends_request_witness:
  "\<exists>raw m. ss_sent (rw_Session (snd (Place wRouterEnv wRequest wWorld))) = [raw] \<and> ParseStrict raw = (m, None) \<and>
     o_OrderLinkID (reportedOrder m) = ''link-1'' \<and> o_Side (reportedOrder m) = ''Buy''"
proof -
  have p: "Place wRouterEnv wRequest wWorld = (None, snd (Place wRouterEnv wRequest wWorld))"
    using wPlace_sends by (auto split: prod.splits)
  have l: "length raw < 2 ^ 63" if "raw \<in> set (ss_sent (rw_Session (snd (Place wRouterEnv wRequest wWorld))))" for raw
    using wPlace_sends that by (auto simp: list_all_iff split: prod.splits)
  from Place_sends_request [OF p l] show ?thesis by (auto simp: Let_def wWorld_def wSession_def wRequest_def)
qed

definition wCancel :: CancelRequest where
  "wCancel = \<lparr>cr_Symbol = ''BTCUSDT'', cr_OrderID = [], cr_ClOrdID = ''L1'', cr_ReqID = ''r1''\<rparr>"

definition wOffline :: RouterWorld where
  "wOffline = wWorld\<lparr>rw_Session := wSession, rw_State := \<lparr>sv_Snapshot = sampleOrders, sv_File = FileHolds sampleOrders\<rparr>\<rparr>"

theorem failed_cancel_misattributes_witness:
  "fst (Cancel wRouterEnv wCancel wOffline) = Some (EText ''FIX session is not connected'') \<and>
   (\<exists>ord. handleCancelAck wRouterEnv (wMessage ''XCA'' ''3'') (snd (Cancel wRouterEnv wCancel wOffline)) =
      routerApply (quietEnv 1) (quietEnv 2) unixEpoch
        (ord\<lparr>o_Status := OrderStatusRejectedCancel, o_RawStatus := ''XCA_REJECTED:'', o_UpdatedAt := unixEpoch\<rparr>)
        ((snd (Cancel wRouterEnv wCancel wOffline))\<lparr>rw_Router := (rw_Router (snd (Cancel wRouterEnv wCancel wOffline)))\<lparr>rt_pendingCancel := []\<rparr>\<rparr>) \<and>
      o_OrderLinkID ord = ''L1'')"
proof -
  let ?w2 = "snd (Cancel wRouterEnv wCancel wOffline)"
  have h: "fst (markPendingCancel wRouterEnv (cr_OrderID wCancel) (cr_ClOrdID wCancel) wOffline) = None"
    "map_option (\<lambda>(k, ord). o_OrderLinkID ord) (findRouterOrder (sv_Snapshot (rw_State ?w2)) (cr_OrderID wCancel) (cr_ClOrdID wCancel)) = Some ''L1''"
    by code_simp+
  then obtain w1 key ord where w1: "markPendingCancel wRouterEnv (cr_OrderID wCancel) (cr_ClOrdID wCancel) wOffline = (None, w1)"
    and f: "findRouterOrder (sv_Snapshot (rw_State ?w2)) (cr_OrderID wCancel) (cr_ClOrdID wCancel) = Some (key, ord)" "o_OrderLinkID ord = ''L1''"
    by (cases "markPendingCancel wRouterEnv (cr_OrderID wCancel) (cr_ClOrdID wCancel) wOffline") auto
  have c: "cr_Symbol wCancel \<noteq> []" "cr_ClOrdID wCancel \<noteq> []" "\<not> ss_active (rw_Session wOffline)"
    "rt_pendingCancel (rw_Router wOffline) = []"
    by (simp_all add: wCancel_def wOffline_def wWorld_def wSession_def)
  have m: "Message_Get (wMessage ''XCA'' ''3'') 37 = None" "Message_Get (wMessage ''XCA'' ''3'') 11 = None"
    "Message_Get (wMessage ''XCA'' ''3'') 150 = None" "valueOr (wMessage ''XCA'' ''3'') 58 [] = []"
    by code_simp+
  have e: "re_Env wRouterEnv = quietEnv 1" "re_Reload wRouterEnv = quietEnv 2" "re_Now wRouterEnv = unixEpoch"
    by (simp_all add: wRouterEnv_def)
  have q: "rt_pendingCancel (rw_Router ?w2) = rt_pendingCancel (rw_Router ?w2) @ []" by simp
  from failed_cancel_misattributes [OF c(1-3) w1 c(4) q m(1-3) f(1), of wRouterEnv] f(2) show ?thesis
    unfolding m(4) e append_Nil2 by blast
qed

end
