(* ===== verification/DeribitData.thy ===== *)
theory DeribitData
  imports GoBig Domain
begin

text \<open>
  The data of \<open>internal/deribit\<close> that the planner and the reconciliation use, with the tick size rule of
  \<open>read.go\<close> and the paging of \<open>orders.go\<close>. A \<open>json.Number\<close> is its text. The JSON-RPC calls below the paging
  loops are parameters.
\<close>

section \<open>Data (orders.go, read.go)\<close>

record TickSizeStep =
  ts_AbovePrice :: string
  ts_TickSize :: string

record Instrument =
  in_InstrumentName :: string
  in_Kind :: string
  in_BaseCurrency :: string
  in_CounterCurrency :: string
  in_SettlementCurrency :: string
  in_QuoteCurrency :: string
  in_TickSize :: string
  in_TickSizeSteps :: "TickSizeStep list"
  in_AmountStep :: string
  in_MinTradeAmount :: string
  in_MakerCommission :: string
  in_TakerCommission :: string
  in_ContractSize :: string
  in_IsActive :: bool
  in_InstrumentID :: int
  in_ExpirationTimestamp :: int

record DeribitOrder =
  do_OrderID :: string
  do_Label :: string
  do_InstrumentName :: string
  do_Direction :: string
  do_OrderType :: string
  do_OrderState :: string
  do_Amount :: string
  do_FilledAmount :: string
  do_Price :: string
  do_AveragePrice :: string
  do_Commission :: string
  do_CreationTimestamp :: int
  do_LastUpdateTimestamp :: int
  do_ReduceOnly :: bool

record DeribitTrade =
  dt_TradeID :: string
  dt_TradeSeq :: int
  dt_OrderID :: string
  dt_InstrumentName :: string
  dt_Direction :: string
  dt_Amount :: string
  dt_Price :: string
  dt_Fee :: string
  dt_FeeCurrency :: string
  dt_Timestamp :: int

record OrderResult =
  ack_Order :: DeribitOrder
  ack_Trades :: "DeribitTrade list"

record Ticker =
  tk_InstrumentName :: string
  tk_MarkPrice :: string
  tk_BestBidPrice :: string
  tk_BestAskPrice :: string

record PlaceParams =
  pp_InstrumentName :: string
  pp_Amount :: string
  pp_Type :: string
  pp_Label :: string
  pp_Price :: string
  pp_TimeInForce :: string
  pp_PostOnly :: bool
  pp_ReduceOnly :: bool

definition zeroDeribitOrder :: DeribitOrder where
  "zeroDeribitOrder = \<lparr>do_OrderID = [], do_Label = [], do_InstrumentName = [], do_Direction = [], do_OrderType = [],
     do_OrderState = [], do_Amount = [], do_FilledAmount = [], do_Price = [], do_AveragePrice = [], do_Commission = [],
     do_CreationTimestamp = 0, do_LastUpdateTimestamp = 0, do_ReduceOnly = False\<rparr>"

text \<open>\<open>OutcomeUnknownError\<close> with its method and its cause, and finding it along a chain of wrapped errors.\<close>

definition OutcomeUnknownError :: "string \<Rightarrow> goerror \<Rightarrow> goerror" where
  "OutcomeUnknownError m cause = EProvider ''OutcomeUnknownError'' m cause"

fun asOutcomeUnknown :: "goerror \<Rightarrow> bool" where
  "asOutcomeUnknown (EProvider code m cause) = (code = ''OutcomeUnknownError'' \<or> asOutcomeUnknown cause)"
| "asOutcomeUnknown (EWrap t cause) = asOutcomeUnknown cause"
| "asOutcomeUnknown _ = False"

section \<open>The tick size at a price (read.go)\<close>

text \<open>One step of the loop: \<open>selected\<close> and the threshold it was selected for.\<close>

definition tickStep :: "rat \<Rightarrow> TickSizeStep \<Rightarrow> string \<times> rat option \<Rightarrow> (string \<times> rat option) result" where
  "tickStep price step acc =
     (case (SetString (ts_AbovePrice step), SetString (ts_TickSize step)) of
        (Some threshold, Some tick) \<Rightarrow>
          (if threshold < 0 \<or> tick \<le> 0 then Inl (EText ''instrument tick_size_steps contains an invalid decimal'')
           else if price \<le> threshold then Inr acc
           else (case snd acc of
                   None \<Rightarrow> Inr (ts_TickSize step, Some threshold)
                 | Some t \<Rightarrow> (if threshold > t then Inr (ts_TickSize step, Some threshold) else Inr acc)))
      | _ \<Rightarrow> Inl (EText ''instrument tick_size_steps contains an invalid decimal''))"

fun tickSteps :: "rat \<Rightarrow> TickSizeStep list \<Rightarrow> string \<times> rat option \<Rightarrow> (string \<times> rat option) result" where
  "tickSteps price [] acc = Inr acc"
| "tickSteps price (s # ss) acc = rbind (tickStep price s acc) (tickSteps price ss)"

definition EffectiveTickSize :: "Instrument \<Rightarrow> string \<Rightarrow> string result" where
  "EffectiveTickSize i price =
     (case SetString price of
        None \<Rightarrow> Inl (EText ''price must be a positive decimal'')
      | Some p \<Rightarrow>
          (if p \<le> 0 then Inl (EText ''price must be a positive decimal'')
           else case SetString (in_TickSize i) of
               None \<Rightarrow> Inl (EText ''instrument tick_size must be a positive decimal'')
             | Some t \<Rightarrow>
                 (if t \<le> 0 then Inl (EText ''instrument tick_size must be a positive decimal'')
                  else rbind (tickSteps p (in_TickSizeSteps i) (in_TickSize i, None)) (\<lambda>acc. Inr (fst acc)))))"

definition normalizeSpotAmountStep :: "Instrument \<Rightarrow> Instrument" where
  "normalizeSpotAmountStep i =
     (if ToLower (in_Kind i) = ''spot'' \<and> TrimSpace (in_AmountStep i) = []
      then i\<lparr>in_AmountStep := in_ContractSize i\<rparr> else i)"

section \<open>Paging (orders.go)\<close>

record TradePage =
  tp_Trades :: "DeribitTrade list"
  tp_HasMore :: bool

text \<open>The remaining pages of \<open>TradesByOrder\<close>; \<open>fuel\<close> counts down from the loop's bound of 20 pages.\<close>

fun tradePages :: "(int \<Rightarrow> TradePage result) \<Rightarrow> nat \<Rightarrow> int \<Rightarrow> DeribitTrade list \<Rightarrow> DeribitTrade list result" where
  "tradePages load 0 startSeq acc = Inl (EText ''Deribit trade pagination exceeded safety limit'')"
| "tradePages load (Suc fuel) startSeq acc =
     rbind (load startSeq) (\<lambda>page.
       let acc' = acc @ tp_Trades page in
       if \<not> tp_HasMore page then Inr acc'
       else if tp_Trades page = [] \<or> dt_TradeSeq (last (tp_Trades page)) < startSeq
       then Inl (EText ''Deribit trade pagination did not advance'')
       else
         (let nxt = wrap64 (dt_TradeSeq (last (tp_Trades page)) + 1) in
          if nxt \<le> startSeq then Inl (EText ''Deribit trade pagination did not advance'')
          else tradePages load fuel nxt acc'))"

definition TradesByOrder :: "(string \<Rightarrow> int \<Rightarrow> TradePage result) \<Rightarrow> string \<Rightarrow> DeribitTrade list result" where
  "TradesByOrder page orderID = tradePages (page orderID) 20 0 []"

fun historyPages :: "(int \<Rightarrow> DeribitOrder list result) \<Rightarrow> nat \<Rightarrow> int \<Rightarrow> DeribitOrder list \<Rightarrow> DeribitOrder list result" where
  "historyPages load 0 offset acc = Inl (EText ''Deribit order history pagination exceeded safety limit'')"
| "historyPages load (Suc fuel) offset acc =
     rbind (load offset) (\<lambda>page.
       if length page < 100 then Inr (acc @ page) else historyPages load fuel (offset + 100) (acc @ page))"

definition OrderHistory :: "(string \<Rightarrow> int \<Rightarrow> DeribitOrder list result) \<Rightarrow> string \<Rightarrow> DeribitOrder list result" where
  "OrderHistory page instrument = historyPages (page instrument) 20 0 []"

text \<open>The orders with a label, each identifier once, open ones first.\<close>

fun labelled :: "string \<Rightarrow> string list \<Rightarrow> DeribitOrder list \<Rightarrow> DeribitOrder list" where
  "labelled label seen [] = []"
| "labelled label seen (ord # ords) =
     (if do_Label ord = label \<and> do_OrderID ord \<notin> set seen
      then ord # labelled label (do_OrderID ord # seen) ords
      else labelled label seen ords)"

definition OrdersByLabel ::
  "(string \<Rightarrow> DeribitOrder list result) \<Rightarrow> (string \<Rightarrow> int \<Rightarrow> DeribitOrder list result) \<Rightarrow> string \<Rightarrow> string \<Rightarrow> DeribitOrder list result" where
  "OrdersByLabel openOrders page instrument label =
     rbind (openOrders instrument) (\<lambda>open.
     rbind (OrderHistory page instrument) (\<lambda>history. Inr (labelled label [] (open @ history))))"

section \<open>Lemmas\<close>

lemma tickStep_ok:
  assumes "tickStep p s (sel, th) = Inr (sel1, th1)"
  obtains t where "SetString (ts_AbovePrice s) = Some t"
    "((sel1, th1) = (sel, th) \<and> (p \<le> t \<or> (\<exists>u. th = Some u \<and> t \<le> u))) \<or>
     (sel1 = ts_TickSize s \<and> th1 = Some t \<and> t < p \<and> (\<forall>u. th = Some u \<longrightarrow> u < t))"
  using assms that by (auto simp: tickStep_def split: option.splits if_splits)

text \<open>The loop ends with the step of the highest threshold below the price, or with what it began with.\<close>

lemma tickSteps_best:
  assumes "tickSteps p ss (sel, th) = Inr (sel', th')"
  shows "((sel', th') = (sel, th) \<or>
       (\<exists>s\<in>set ss. \<exists>t. sel' = ts_TickSize s \<and> SetString (ts_AbovePrice s) = Some t \<and> th' = Some t \<and> t < p)) \<and>
     (\<forall>t. th = Some t \<longrightarrow> (\<exists>t'. th' = Some t' \<and> t \<le> t')) \<and>
     (\<forall>s\<in>set ss. \<exists>t. SetString (ts_AbovePrice s) = Some t \<and> (t < p \<longrightarrow> (\<exists>t'. th' = Some t' \<and> t \<le> t')))"
  using assms
proof (induction ss arbitrary: sel th)
  case (Cons s ss)
  obtain sel1 th1 where s: "tickStep p s (sel, th) = Inr (sel1, th1)" "tickSteps p ss (sel1, th1) = Inr (sel', th')"
    using Cons.prems by (auto simp: result_simps)
  note IH = Cons.IH [OF s(2)]
  from s(1) obtain t where t: "SetString (ts_AbovePrice s) = Some t"
    "((sel1, th1) = (sel, th) \<and> (p \<le> t \<or> (\<exists>u. th = Some u \<and> t \<le> u))) \<or>
     (sel1 = ts_TickSize s \<and> th1 = Some t \<and> t < p \<and> (\<forall>u. th = Some u \<longrightarrow> u < t))"
    by (rule tickStep_ok)
  from t(2) show ?case
  proof
    assume h: "(sel1, th1) = (sel, th) \<and> (p \<le> t \<or> (\<exists>u. th = Some u \<and> t \<le> u))"
    have "t < p \<longrightarrow> (\<exists>t'. th' = Some t' \<and> t \<le> t')" using h IH by fastforce
    then show ?case using IH h t(1) by auto
  next
    assume h: "sel1 = ts_TickSize s \<and> th1 = Some t \<and> t < p \<and> (\<forall>u. th = Some u \<longrightarrow> u < t)"
    then obtain t' where t': "th' = Some t'" "t \<le> t'" using IH by blast
    then have "\<forall>u. th = Some u \<longrightarrow> u \<le> t'" using h by auto
    then show ?case using IH h t(1) t' by auto
  qed
qed simp

lemma EffectiveTickSize_cases:
  assumes "EffectiveTickSize i price = Inr tick"
  obtains p where "SetString price = Some p" "0 < p"
    "(tick = in_TickSize i \<and> (\<forall>s\<in>set (in_TickSizeSteps i). \<exists>t. SetString (ts_AbovePrice s) = Some t \<and> p \<le> t)) \<or>
     (\<exists>s\<in>set (in_TickSizeSteps i). \<exists>t. tick = ts_TickSize s \<and> SetString (ts_AbovePrice s) = Some t \<and> t < p \<and>
        (\<forall>s'\<in>set (in_TickSizeSteps i). \<forall>t'. SetString (ts_AbovePrice s') = Some t' \<and> t' < p \<longrightarrow> t' \<le> t))"
proof -
  obtain p where p: "SetString price = Some p" "0 < p"
    using assms by (auto simp: EffectiveTickSize_def split: option.splits if_splits)
  then obtain th where th: "tickSteps p (in_TickSizeSteps i) (in_TickSize i, None) = Inr (tick, th)"
    using assms by (auto simp: EffectiveTickSize_def result_simps split: option.splits if_splits)
  note best = tickSteps_best [OF th]
  show thesis
  proof (cases th)
    case None
    then have "\<forall>s\<in>set (in_TickSizeSteps i). \<exists>t. SetString (ts_AbovePrice s) = Some t \<and> p \<le> t" using best by (auto simp: not_less)
    moreover have "tick = in_TickSize i" using best None by auto
    ultimately show thesis using that p by blast
  next
    case (Some t)
    then obtain s where s: "s \<in> set (in_TickSizeSteps i)" "tick = ts_TickSize s" "SetString (ts_AbovePrice s) = Some t" "t < p"
      using best by auto
    have "t' \<le> t" if "s' \<in> set (in_TickSizeSteps i)" "SetString (ts_AbovePrice s') = Some t'" "t' < p" for s' t'
      using best that Some by fastforce
    then show thesis using that [OF p] s by blast
  qed
qed

lemma labelled_props:
  "set (labelled label seen ords) \<subseteq> {ord \<in> set ords. do_Label ord = label \<and> do_OrderID ord \<notin> set seen}"
  "distinct (map do_OrderID (labelled label seen ords))"
  "\<And>ord. ord \<in> set ords \<Longrightarrow> do_Label ord = label \<Longrightarrow> do_OrderID ord \<notin> set seen \<Longrightarrow> do_OrderID ord \<in> do_OrderID ` set (labelled label seen ords)"
proof (induction ords arbitrary: seen)
  case (Cons x xs)
  { case 1
    have "set (labelled label (do_OrderID x # seen) xs) \<subseteq> {ord \<in> set xs. do_Label ord = label \<and> do_OrderID ord \<notin> set (do_OrderID x # seen)}"
      "set (labelled label seen xs) \<subseteq> {ord \<in> set xs. do_Label ord = label \<and> do_OrderID ord \<notin> set seen}"
      by (rule Cons.IH(1))+
    then show ?case by auto }
  { case 2
    have "do_OrderID x \<notin> do_OrderID ` set (labelled label (do_OrderID x # seen) xs)"
      using Cons.IH(1) [of "do_OrderID x # seen"] by auto
    then show ?case using Cons.IH(2) by auto }
  { case (3 ord)
    then show ?case using Cons.IH(3) [of ord seen] Cons.IH(3) [of ord "do_OrderID x # seen"] by (auto split: if_splits) }
qed simp_all

end
