(* ===== verification/Planner.thy ===== *)
theory Planner
  imports DeribitData IntentStore
begin

text \<open>
  \<open>internal/intent/planner.go\<close>: planning and executing Deribit futures orders under risk limits. The
  market client is a record of functions, the answers the exchange would give; the FIX executor is
  optional. The state is the intent file and the log of orders handed to the venue; clock readings, the
  identifier of a new plan and the faults of the store are arguments.
\<close>

section \<open>Data\<close>

record Market =
  mk_InstrumentOf :: "string \<Rightarrow> Instrument result"
  mk_Ticker :: "string \<Rightarrow> Ticker result"
  mk_OpenFutureOrders :: "string \<Rightarrow> DeribitOrder list result"
  mk_Place :: "string \<Rightarrow> PlaceParams \<Rightarrow> OrderResult \<times> goerror option"
  mk_PlaceWS :: "string \<Rightarrow> string \<Rightarrow> PlaceParams \<Rightarrow> OrderResult \<times> goerror option"
  mk_OrderState :: "string \<Rightarrow> DeribitOrder \<times> goerror option"

record Limits =
  lm_MaxOrderUSD :: string
  lm_MaxAggregateOpenUSD :: string
  lm_MaxPriceDeviationPct :: string
  lm_MaxOpenOrders :: int
  lm_TTL :: duration

record Request =
  rq_Instrument :: string
  rq_Side :: string
  rq_OrderType :: string
  rq_Amount :: string
  rq_Price :: string
  rq_TimeInForce :: string
  rq_PostOnly :: bool
  rq_ReduceOnly :: bool
  rq_Transport :: string

record Planner =
  pn_Market :: "Market option"
  pn_Path :: string
  pn_Limits :: Limits
  pn_AccountAlias :: string
  pn_RiskCurrencies :: "string list"
  pn_WSURL :: string
  pn_FIXPlace :: "(Plan \<Rightarrow> OrderResult \<times> goerror option) option"

record ExecutionResult =
  er_Plan :: "Plan option"
  er_Acknowledgement :: "OrderResult option"
  er_ReadState :: "DeribitOrder option"
  er_Verified :: bool

text \<open>The zero result, and a plan with every field zero.\<close>

definition noExecution :: ExecutionResult where
  "noExecution = \<lparr>er_Plan = None, er_Acknowledgement = None, er_ReadState = None, er_Verified = False\<rparr>"

definition zeroPlan :: Plan where
  "zeroPlan = \<lparr>pl_ID = [], pl_Venue = [], pl_Environment = [], pl_AccountAlias = [], pl_Instrument = [],
     pl_SettlementCurrency = [], pl_Side = [], pl_OrderType = [], pl_Transport = [], pl_Amount = [], pl_AmountUnit = [],
     pl_Price = [], pl_TimeInForce = [], pl_PostOnly = False, pl_ReduceOnly = False, pl_MarkPrice = [], pl_ValidTick = [],
     pl_EstimatedNotionalUSD = [], pl_MetadataAt = 0, pl_PriceAt = 0, pl_CODProtected = False, pl_OpenOrderCount = 0,
     pl_AggregateOpenUSD = [], pl_CreatedAt = 0, pl_ExpiresAt = 0, pl_Status = StatusEmpty, pl_Attempt = 0,
     pl_NativeOrderID = [], pl_LastError = []\<rparr>"

section \<open>Validation\<close>

definition positiveRat :: "string \<Rightarrow> string \<Rightarrow> rat result" where
  "positiveRat name v =
     (case SetString v of
        None \<Rightarrow> Inl (EFmt ''%s must be a positive decimal'' [name])
      | Some r \<Rightarrow> (if r \<le> 0 then Inl (EFmt ''%s must be a positive decimal'' [name]) else Inr r))"

definition positiveOrZeroRat :: "string \<Rightarrow> string \<Rightarrow> rat result" where
  "positiveOrZeroRat name v =
     (case SetString (if v = [] then ''0'' else v) of
        None \<Rightarrow> Inl (EFmt ''%s must be a non-negative decimal'' [name])
      | Some r \<Rightarrow> (if r < 0 then Inl (EFmt ''%s must be a non-negative decimal'' [name]) else Inr r))"

definition isInteger :: "rat \<Rightarrow> bool" where
  "isInteger r \<longleftrightarrow> snd (quotient_of r) = 1"

definition checkInstrument :: "Request \<Rightarrow> Instrument \<Rightarrow> goerror option" where
  "checkInstrument request i =
     (if \<not> in_IsActive i \<or> in_Kind i \<noteq> ''future'' \<or> in_InstrumentName i \<noteq> rq_Instrument request
      then Some (EText ''only an exact active Deribit future instrument is supported'')
      else if in_InstrumentName i \<noteq> ''BTC-PERPETUAL'' \<and> in_InstrumentName i \<noteq> ''ETH-PERPETUAL''
      then Some (EText ''only BTC-PERPETUAL and ETH-PERPETUAL are supported for trading'')
      else if in_SettlementCurrency i \<noteq> ''BTC'' \<and> in_SettlementCurrency i \<noteq> ''ETH''
      then Some (EText ''only native BTC/ETH collateral futures are supported'')
      else None)"

definition checkAmount :: "Limits \<Rightarrow> Instrument \<Rightarrow> string \<Rightarrow> rat result" where
  "checkAmount limits i text =
     rbind (positiveRat ''amount'' text) (\<lambda>amount.
     rbind (positiveRat ''minimum amount'' (in_MinTradeAmount i)) (\<lambda>minimum.
       if amount < minimum \<or> \<not> isInteger (amount / minimum)
       then Inl (EFmt ''amount must be a multiple of metadata minimum %s'' [in_MinTradeAmount i])
       else rbind (positiveRat ''max order USD'' (lm_MaxOrderUSD limits)) (\<lambda>maxOrder.
         if amount > maxOrder then Inl (EText ''order exceeds per-order USD risk limit'') else Inr amount)))"

text \<open>Side, order type and transport, in lower case with their defaults.\<close>

definition checkWords :: "Request \<Rightarrow> (string \<times> string \<times> string) result" where
  "checkWords request =
     (let side = ToLower (rq_Side request);
          orderType = (if ToLower (rq_OrderType request) = [] then ''limit'' else ToLower (rq_OrderType request));
          transport = (if ToLower (rq_Transport request) = [] then ''http'' else ToLower (rq_Transport request)) in
      if side \<noteq> ''buy'' \<and> side \<noteq> ''sell'' then Inl (EText ''side must be buy or sell'')
      else if orderType \<noteq> ''limit'' \<and> orderType \<noteq> ''market'' then Inl (EText ''type must be limit or market'')
      else if transport \<noteq> ''http'' \<and> transport \<noteq> ''ws'' \<and> transport \<noteq> ''fix''
      then Inl (EText ''transport must be http, ws, or fix'')
      else Inr (side, orderType, transport))"

text \<open>The price of a limit order: on the tick grid and near the mark price. The result is the valid tick.\<close>

definition checkLimitPrice :: "Limits \<Rightarrow> Instrument \<Rightarrow> rat \<Rightarrow> string \<Rightarrow> string result" where
  "checkLimitPrice limits i mark text =
     rbind (positiveRat ''price'' text) (\<lambda>price.
     rbind (EffectiveTickSize i text) (\<lambda>validTick.
     rbind (positiveRat ''tick size'' validTick) (\<lambda>tick.
       if \<not> isInteger (price / tick) then Inl (EFmt ''price must be a multiple of tick size %s'' [validTick])
       else rbind (positiveRat ''max price deviation'' (lm_MaxPriceDeviationPct limits)) (\<lambda>maxDeviation.
         if \<bar>price - mark\<bar> / mark * 100 > maxDeviation
         then Inl (EText ''limit price exceeds configured mark-price deviation'')
         else Inr validTick))))"

fun sumAmounts :: "DeribitOrder list \<Rightarrow> rat \<Rightarrow> rat result" where
  "sumAmounts [] acc = Inr acc"
| "sumAmounts (ord # ords) acc =
     rbind (positiveOrZeroRat ''open order amount'' (do_Amount ord)) (\<lambda>v. sumAmounts ords (acc + v))"

fun openRisk :: "Market \<Rightarrow> string list \<Rightarrow> int \<Rightarrow> rat \<Rightarrow> (int \<times> rat) result" where
  "openRisk m [] n acc = Inr (n, acc)"
| "openRisk m (currency # cs) n acc =
     (case mk_OpenFutureOrders m currency of
        Inl e \<Rightarrow> Inl (EWrap (''read open '' @ currency @ '' orders'') e)
      | Inr orders \<Rightarrow> rbind (sumAmounts orders acc) (openRisk m cs (n + int (length orders))))"

definition riskCurrencies :: "Planner \<Rightarrow> string list" where
  "riskCurrencies p = (if pn_RiskCurrencies p = [] then [''BTC'', ''ETH''] else pn_RiskCurrencies p)"

definition checkRisk :: "Planner \<Rightarrow> Market \<Rightarrow> rat \<Rightarrow> (int \<times> rat) result" where
  "checkRisk p m amount =
     rbind (openRisk m (riskCurrencies p) 0 0) (\<lambda>(openCount, open).
       if openCount \<ge> lm_MaxOpenOrders (pn_Limits p) then Inl (EText ''maximum open-order count reached'')
       else rbind (positiveRat ''max aggregate open USD'' (lm_MaxAggregateOpenUSD (pn_Limits p))) (\<lambda>maxAggregate.
         if open + amount > maxAggregate then Inl (EText ''aggregate open USD risk limit exceeded'')
         else Inr (openCount, open + amount)))"

definition validatedPlan ::
  "Planner \<Rightarrow> Request \<Rightarrow> Instrument \<Rightarrow> Ticker \<Rightarrow> string \<times> string \<times> string \<Rightarrow> string \<Rightarrow> int \<times> rat \<Rightarrow> time \<Rightarrow> time \<Rightarrow> Plan" where
  "validatedPlan p request i ticker ws validTick risk metadataAt priceAt =
     (case ws of (side, orderType, transport) \<Rightarrow>
       zeroPlan\<lparr>pl_Venue := ''deribit'', pl_Environment := ''testnet'', pl_AccountAlias := pn_AccountAlias p,
         pl_Instrument := rq_Instrument request, pl_SettlementCurrency := in_SettlementCurrency i, pl_Side := side,
         pl_OrderType := orderType, pl_Transport := transport, pl_Amount := rq_Amount request, pl_AmountUnit := ''USD_notional'',
         pl_Price := (if orderType = ''limit'' then rq_Price request else []), pl_TimeInForce := rq_TimeInForce request,
         pl_PostOnly := rq_PostOnly request, pl_ReduceOnly := rq_ReduceOnly request, pl_MarkPrice := tk_MarkPrice ticker,
         pl_ValidTick := validTick, pl_EstimatedNotionalUSD := rq_Amount request, pl_MetadataAt := metadataAt,
         pl_PriceAt := priceAt, pl_CODProtected := False, pl_OpenOrderCount := fst risk,
         pl_AggregateOpenUSD := FloatString 8 (snd risk)\<rparr>)"

definition validate :: "Planner \<Rightarrow> time \<Rightarrow> time \<Rightarrow> Request \<Rightarrow> Plan result" where
  "validate p metadataAt priceAt request =
     (case pn_Market p of
        None \<Rightarrow> Inl (EText ''market client is required'')
      | Some m \<Rightarrow>
          (if lm_MaxOpenOrders (pn_Limits p) \<le> 0 \<or> lm_TTL (pn_Limits p) \<le> 0
           then Inl (EText ''risk limits and TTL must be positive'')
           else
             rbind (mk_InstrumentOf m (rq_Instrument request)) (\<lambda>i.
             case checkInstrument request i of
               Some e \<Rightarrow> Inl e
             | None \<Rightarrow>
                 rbind (checkAmount (pn_Limits p) i (rq_Amount request)) (\<lambda>amount.
                 rbind (checkWords request) (\<lambda>ws.
                 rbind (mk_Ticker m (rq_Instrument request)) (\<lambda>ticker.
                 rbind (positiveRat ''mark price'' (tk_MarkPrice ticker)) (\<lambda>mark.
                 rbind (if fst (snd ws) = ''limit'' then checkLimitPrice (pn_Limits p) i mark (rq_Price request)
                        else Inr (in_TickSize i)) (\<lambda>validTick.
                 rbind (checkRisk p m amount) (\<lambda>risk.
                   Inr (validatedPlan p request i ticker ws validTick risk metadataAt priceAt))))))))))"

definition ValidateRequest :: "Planner \<Rightarrow> time \<Rightarrow> time \<Rightarrow> Request \<Rightarrow> Plan result" where
  "ValidateRequest p metadataAt priceAt request = validate p metadataAt priceAt request"

section \<open>Creating a plan\<close>

record PlannerEnv =
  pv_MetadataAt :: time
  pv_PriceAt :: time
  pv_NewID :: "string result"
  pv_Now :: time
  pv_Get :: Env
  pv_Claim :: Env
  pv_ClaimAt :: time
  pv_Finish :: Env

definition createdPlan :: "Planner \<Rightarrow> time \<Rightarrow> string \<Rightarrow> Plan \<Rightarrow> Plan" where
  "createdPlan p now i plan =
     plan\<lparr>pl_ID := i, pl_CreatedAt := now, pl_ExpiresAt := Add now (lm_TTL (pn_Limits p)), pl_Status := StatusPlanned\<rparr>"

definition Planner_Create :: "Planner \<Rightarrow> PlannerEnv \<Rightarrow> Request \<Rightarrow> IntentSnapshot disk \<Rightarrow> Plan result \<times> IntentSnapshot disk" where
  "Planner_Create p env request f =
     (case rbind (validate p (pv_MetadataAt env) (pv_PriceAt env) request) (\<lambda>plan.
           rbind (pv_NewID env) (\<lambda>i. Inr (createdPlan p (pv_Now env) i plan))) of
        Inl e \<Rightarrow> (Inl e, f)
      | Inr plan \<Rightarrow>
          (case Store_SavePlan (pn_Path p) (pv_Get env) plan f of
             ((Some e, _), f') \<Rightarrow> (Inl e, f')
           | ((None, _), f') \<Rightarrow> (Inr plan, f')))"

section \<open>Executing a plan\<close>

text \<open>The state: the intent file and every order handed to the venue, with its side.\<close>

record PlannerState =
  ps_File :: "IntentSnapshot disk"
  ps_Sent :: "(string \<times> PlaceParams) list"

definition planRequest :: "Plan \<Rightarrow> Request" where
  "planRequest stored =
     \<lparr>rq_Instrument = pl_Instrument stored, rq_Side = pl_Side stored, rq_OrderType = pl_OrderType stored,
      rq_Amount = pl_Amount stored, rq_Price = pl_Price stored, rq_TimeInForce = pl_TimeInForce stored,
      rq_PostOnly = pl_PostOnly stored, rq_ReduceOnly = pl_ReduceOnly stored, rq_Transport = pl_Transport stored\<rparr>"

definition planParams :: "Plan \<Rightarrow> PlaceParams" where
  "planParams claimed =
     \<lparr>pp_InstrumentName = pl_Instrument claimed, pp_Amount = pl_Amount claimed, pp_Type = pl_OrderType claimed,
      pp_Label = pl_ID claimed, pp_Price = pl_Price claimed, pp_TimeInForce = pl_TimeInForce claimed,
      pp_PostOnly = pl_PostOnly claimed, pp_ReduceOnly = pl_ReduceOnly claimed\<rparr>"

text \<open>The submission over the plan's transport.\<close>

definition submitPlan :: "Planner \<Rightarrow> Market \<Rightarrow> Plan \<Rightarrow> OrderResult \<times> goerror option" where
  "submitPlan p m claimed =
     (if pl_Transport claimed = ''ws'' then mk_PlaceWS m (pn_WSURL p) (pl_Side claimed) (planParams claimed)
      else if pl_Transport claimed = ''fix'' then (case pn_FIXPlace p of
               Some place \<Rightarrow> place claimed
             | None \<Rightarrow> (\<lparr>ack_Order = zeroDeribitOrder, ack_Trades = []\<rparr>, Some (EText ''no FIX executor'')))
      else mk_Place m (pl_Side claimed) (planParams claimed))"

text \<open>
  What the answers amount to: the status, native identifier and note stored by \<open>Finish\<close>, the order read
  back, and the error returned.
\<close>

definition classify :: "Market \<Rightarrow> string \<Rightarrow> OrderResult \<times> goerror option
    \<Rightarrow> (PlanStatus \<times> string \<times> string) \<times> DeribitOrder option \<times> goerror option" where
  "classify m i answer =
     (case answer of
        (ack, Some e) \<Rightarrow>
          (if asOutcomeUnknown e then ((StatusOutcomeUnknown, [], ''submission outcome unknown''), None, Some e)
           else ((StatusRejected, [], ''exchange rejected order''), None, Some e))
      | (ack, None) \<Rightarrow>
          (let orderID = do_OrderID (ack_Order ack) in
           if orderID = []
           then ((StatusOutcomeUnknown, [], ''acknowledgement missing order ID''), None,
                 Some (EText ''order acknowledgement missing native order ID''))
           else case mk_OrderState m orderID of
               (state, Some e) \<Rightarrow>
                 ((StatusNeedsReview, orderID, ''independent order-state verification failed''), Some state,
                  Some (EWrap ''independent order-state verification'' e))
             | (state, None) \<Rightarrow>
                 (if do_OrderID state \<noteq> orderID \<or> do_Label state \<noteq> i
                  then ((StatusNeedsReview, orderID, ''independent order-state verification failed''), Some state,
                        Some (EText ''independent order-state verification mismatch''))
                  else ((StatusSubmitted, orderID, []), Some state, None))))"

definition executeClaimed :: "Planner \<Rightarrow> Market \<Rightarrow> PlannerEnv \<Rightarrow> string \<Rightarrow> Plan \<Rightarrow> PlannerState \<Rightarrow> (ExecutionResult \<times> goerror option) \<times> PlannerState" where
  "executeClaimed p m env i claimed st =
     (let answer = submitPlan p m claimed in
      case classify m i answer of
        ((status, orderID, note), readState, err) \<Rightarrow>
          (case Store_Finish (pn_Path p) (pv_Finish env) i status orderID note (ps_File st) of
             (_, f') \<Rightarrow>
               ((\<lparr>er_Plan = Some (if err = None then claimed\<lparr>pl_Status := status, pl_NativeOrderID := orderID\<rparr>
                                  else claimed\<lparr>pl_Status := status\<rparr>),
                  er_Acknowledgement = Some (fst answer), er_ReadState = readState, er_Verified = (err = None)\<rparr>, err),
                \<lparr>ps_File = f', ps_Sent = ps_Sent st @ [(pl_Side claimed, planParams claimed)]\<rparr>)))"

text \<open>The checks between reading the plan and claiming it.\<close>

definition preflight :: "Planner \<Rightarrow> PlannerEnv \<Rightarrow> Plan \<Rightarrow> goerror option" where
  "preflight p env stored =
     (case validate p (pv_MetadataAt env) (pv_PriceAt env) (planRequest stored) of
        Inl e \<Rightarrow> Some (EWrap ''plan revalidation failed'' e)
      | Inr validated \<Rightarrow>
          (if pl_SettlementCurrency validated \<noteq> pl_SettlementCurrency stored
           then Some (EText ''instrument settlement metadata changed'')
           else if pl_Transport stored = ''fix'' \<and> pn_FIXPlace p = None
           then Some (EText ''Deribit FIX order executor is not configured'')
           else None))"

definition Execute :: "Planner \<Rightarrow> PlannerEnv \<Rightarrow> string \<Rightarrow> bool \<Rightarrow> PlannerState \<Rightarrow> (ExecutionResult \<times> goerror option) \<times> PlannerState" where
  "Execute p env i confirm st =
     (if \<not> confirm then ((noExecution, Some (EText ''execution requires --confirm'')), st)
      else case Store_Get (pv_Get env) i (ps_File st) of
          Inl e \<Rightarrow> ((noExecution, Some e), st)
        | Inr stored \<Rightarrow>
            (if pl_Status stored \<noteq> StatusPlanned
             then ((noExecution, Some (EFmt ''plan is not executable: %s'' [planStatusText (pl_Status stored)])), st)
             else if \<not> Before (pv_Now env) (pl_ExpiresAt stored)
             then ((noExecution, Some (EText ''plan expired'')),
                   st\<lparr>ps_File := snd (Store_Claim (pn_Path p) (pv_Claim env) i (pv_ClaimAt env) (ps_File st))\<rparr>)
             else case preflight p env stored of
                 Some e \<Rightarrow> ((noExecution, Some e), st)
               | None \<Rightarrow>
                   (case Store_Claim (pn_Path p) (pv_Claim env) i (pv_ClaimAt env) (ps_File st) of
                      (Inl e, f') \<Rightarrow> ((noExecution, Some e), st\<lparr>ps_File := f'\<rparr>)
                    | (Inr claimed, f') \<Rightarrow>
                        (case pn_Market p of
                           None \<Rightarrow> ((noExecution, Some (EText ''market client is required'')), st\<lparr>ps_File := f'\<rparr>)
                         | Some m \<Rightarrow> executeClaimed p m env i claimed (st\<lparr>ps_File := f'\<rparr>)))))"

section \<open>An execution step by step\<close>

text \<open>
  Executions run concurrently, also in different processes over one file. \<open>executeStep\<close> performs one call of the handler that touches the store or the
  venue, with the local code up to the next one, so other executions and other store operations can come between any two of them: between the
  check of the status and the claim, between the claim and the submission, and so on. \<open>Execute\<close> is what the steps do when nothing comes between.
\<close>

datatype ExecutePc =
    ExGet
  | ExExpire
  | ExValidate Plan
  | ExClaim
  | ExSubmit Plan
  | ExRead Plan "OrderResult \<times> goerror option"
  | ExFinish Plan OrderResult PlanStatus string string "DeribitOrder option" "goerror option"
  | ExDone ExecutionResult "goerror option"

definition executeStep :: "Planner \<Rightarrow> PlannerEnv \<Rightarrow> string \<Rightarrow> bool \<Rightarrow> ExecutePc \<Rightarrow> PlannerState \<Rightarrow> ExecutePc \<times> PlannerState" where
  "executeStep p env i confirm pc st =
     (case pc of
        ExGet \<Rightarrow>
          (if \<not> confirm then (ExDone noExecution (Some (EText ''execution requires --confirm'')), st)
           else case Store_Get (pv_Get env) i (ps_File st) of
               Inl e \<Rightarrow> (ExDone noExecution (Some e), st)
             | Inr stored \<Rightarrow>
                 (if pl_Status stored \<noteq> StatusPlanned
                  then (ExDone noExecution (Some (EFmt ''plan is not executable: %s'' [planStatusText (pl_Status stored)])), st)
                  else if \<not> Before (pv_Now env) (pl_ExpiresAt stored) then (ExExpire, st)
                  else (ExValidate stored, st)))
      | ExExpire \<Rightarrow>
          (ExDone noExecution (Some (EText ''plan expired'')),
           st\<lparr>ps_File := snd (Store_Claim (pn_Path p) (pv_Claim env) i (pv_ClaimAt env) (ps_File st))\<rparr>)
      | ExValidate stored \<Rightarrow>
          (case preflight p env stored of
             Some e \<Rightarrow> (ExDone noExecution (Some e), st)
           | None \<Rightarrow> (ExClaim, st))
      | ExClaim \<Rightarrow>
          (case Store_Claim (pn_Path p) (pv_Claim env) i (pv_ClaimAt env) (ps_File st) of
             (Inl e, f') \<Rightarrow> (ExDone noExecution (Some e), st\<lparr>ps_File := f'\<rparr>)
           | (Inr claimed, f') \<Rightarrow> (ExSubmit claimed, st\<lparr>ps_File := f'\<rparr>))
      | ExSubmit claimed \<Rightarrow>
          (case pn_Market p of
             None \<Rightarrow> (ExDone noExecution (Some (EText ''market client is required'')), st)
           | Some m \<Rightarrow> (ExRead claimed (submitPlan p m claimed), st\<lparr>ps_Sent := ps_Sent st @ [(pl_Side claimed, planParams claimed)]\<rparr>))
      | ExRead claimed answer \<Rightarrow>
          (case pn_Market p of
             None \<Rightarrow> (ExDone noExecution (Some (EText ''market client is required'')), st)
           | Some m \<Rightarrow>
               (case classify m i answer of
                  ((status, orderID, note), readState, err) \<Rightarrow> (ExFinish claimed (fst answer) status orderID note readState err, st)))
      | ExFinish claimed ack status orderID note readState err \<Rightarrow>
          (case Store_Finish (pn_Path p) (pv_Finish env) i status orderID note (ps_File st) of
             (_, f') \<Rightarrow>
               (ExDone \<lparr>er_Plan = Some (if err = None then claimed\<lparr>pl_Status := status, pl_NativeOrderID := orderID\<rparr>
                                       else claimed\<lparr>pl_Status := status\<rparr>),
                   er_Acknowledgement = Some ack, er_ReadState = readState, er_Verified = (err = None)\<rparr> err,
                st\<lparr>ps_File := f'\<rparr>))
      | ExDone _ _ \<Rightarrow> (pc, st))"

fun executeSteps :: "nat \<Rightarrow> Planner \<Rightarrow> PlannerEnv \<Rightarrow> string \<Rightarrow> bool \<Rightarrow> ExecutePc \<Rightarrow> PlannerState \<Rightarrow> ExecutePc \<times> PlannerState" where
  "executeSteps 0 p env i confirm pc st = (pc, st)"
| "executeSteps (Suc n) p env i confirm pc st =
     (case executeStep p env i confirm pc st of (pc', st') \<Rightarrow> executeSteps n p env i confirm pc' st')"

lemma executeSteps_done [simp]: "executeSteps n p env i confirm (ExDone r e) st = (ExDone r e, st)"
  by (induction n) (simp_all add: executeStep_def)

lemma executeClaimed_steps:
  assumes "pn_Market p = Some m"
  shows "executeSteps (Suc (Suc (Suc n))) p env i confirm (ExSubmit claimed) st =
    (case executeClaimed p m env i claimed st of ((r, e), st') \<Rightarrow> (ExDone r e, st'))"
proof -
  obtain status orderID msg readState err where c: "classify m i (submitPlan p m claimed) = ((status, orderID, msg), readState, err)"
    by (metis surj_pair)
  obtain x f where f: "Store_Finish (pn_Path p) (pv_Finish env) i status orderID msg (ps_File st) = (x, f)" by (metis surj_pair)
  show ?thesis by (simp add: executeStep_def executeClaimed_def Let_def assms c f)
qed

text \<open>Uninterrupted, the steps are the handler.\<close>

lemma Execute_steps:
  "executeSteps (Suc (Suc (Suc (Suc (Suc (Suc n)))))) p env i confirm ExGet st =
     (case Execute p env i confirm st of ((r, e), st') \<Rightarrow> (ExDone r e, st'))"
proof (cases "\<exists>stored. executeStep p env i confirm ExGet st = (ExValidate stored, st) \<and> preflight p env stored = None")
  case False
  then show ?thesis by (auto simp: executeStep_def Execute_def split: sum.splits option.splits if_splits)
next
  case True
  then obtain stored where g: "executeStep p env i confirm ExGet st = (ExValidate stored, st)" and pf: "preflight p env stored = None" by blast
  have s: "Store_Get (pv_Get env) i (ps_File st) = Inr stored" "pl_Status stored = StatusPlanned" "Before (pv_Now env) (pl_ExpiresAt stored)"
    and yes: "confirm = True"
    using g by (auto simp: executeStep_def split: if_splits sum.splits)
  have v: "executeStep p env i True (ExValidate stored) st = (ExClaim, st)" by (simp add: executeStep_def pf)
  obtain c f where c: "Store_Claim (pn_Path p) (pv_Claim env) i (pv_ClaimAt env) (ps_File st) = (c, f)" by (metis surj_pair)
  show ?thesis
  proof (cases "\<exists>claimed m. c = Inr claimed \<and> pn_Market p = Some m")
    case True
    then obtain claimed m where cl: "c = Inr claimed" "pn_Market p = Some m" by blast
    then have "executeStep p env i True ExClaim st = (ExSubmit claimed, st\<lparr>ps_File := f\<rparr>)" by (simp add: executeStep_def c)
    then show ?thesis unfolding yes
      using executeClaimed_steps [OF cl(2), of n env i True claimed "st\<lparr>ps_File := f\<rparr>"] g [unfolded yes] v
      by (simp only: executeSteps.simps prod.case) (simp add: Execute_def s pf c cl)
  next
    case False
    then show ?thesis unfolding yes
      by (cases c) (auto simp: g [unfolded yes] v executeStep_def [of p env i True ExClaim] executeStep_def [of p env i True "ExSubmit _"]
          Execute_def s pf c split: option.split)
  qed
qed

end
