(* ===== verification/PlannerProps.thy ===== *)
theory PlannerProps
  imports Planner IntentProps
begin

text \<open>
  The planner's promises: a plan is made only inside the risk limits, and over any history of concurrent executions and
  failures a plan is handed to the venue at most once, after it was claimed in the file.
\<close>

section \<open>Validation\<close>

lemma positiveRat_Inr: "positiveRat name v = Inr r \<longleftrightarrow> SetString v = Some r \<and> 0 < r"
  by (auto simp: positiveRat_def split: option.splits if_splits)

lemma positiveOrZeroRat_Inr: "positiveOrZeroRat name v = Inr r \<longleftrightarrow> SetString (if v = [] then ''0'' else v) = Some r \<and> 0 \<le> r"
  by (auto simp: positiveOrZeroRat_def split: option.splits if_splits)

lemma isInteger_Ints: "isInteger r \<longleftrightarrow> r \<in> \<int>"
proof
  assume "isInteger r"
  then have "quotient_of r = (fst (quotient_of r), 1)" by (metis isInteger_def prod.collapse)
  then show "r \<in> \<int>" by (metis Ints_of_int div_by_1 of_int_1 quotient_of_div)
qed (auto simp: isInteger_def elim: Ints_cases)

text \<open>The amount an open order counts with, and the exposure of the orders of a currency list.\<close>

definition openAmount :: "DeribitOrder \<Rightarrow> rat" where
  "openAmount ord = (case SetString (if do_Amount ord = [] then ''0'' else do_Amount ord) of Some r \<Rightarrow> r | None \<Rightarrow> 0)"

definition openOrders :: "Market \<Rightarrow> string list \<Rightarrow> DeribitOrder list" where
  "openOrders m cs = concat (map (\<lambda>c. case mk_OpenFutureOrders m c of Inr os \<Rightarrow> os | Inl _ \<Rightarrow> []) cs)"

lemma sumAmounts_exact:
  "sumAmounts ords acc = Inr r \<Longrightarrow> r = acc + (\<Sum>ord\<leftarrow>ords. openAmount ord) \<and> (\<forall>ord\<in>set ords. 0 \<le> openAmount ord)"
proof (induction ords arbitrary: acc)
  case (Cons a ords)
  then obtain v where v: "openAmount a = v" "0 \<le> v" "sumAmounts ords (acc + v) = Inr r"
    by (auto simp: result_simps positiveOrZeroRat_Inr openAmount_def)
  then show ?case using Cons.IH [OF v(3)] by simp
qed simp

lemma openRisk_exact:
  "openRisk m cs n acc = Inr (n', r) \<Longrightarrow>
   n' = n + int (length (openOrders m cs)) \<and> r = acc + (\<Sum>ord\<leftarrow>openOrders m cs. openAmount ord)"
proof (induction cs arbitrary: n acc)
  case (Cons c cs)
  obtain orders acc1 where o: "mk_OpenFutureOrders m c = Inr orders" "sumAmounts orders acc = Inr acc1"
    "openRisk m cs (n + int (length orders)) acc1 = Inr (n', r)"
    using Cons.prems by (auto simp: result_simps split: sum.splits)
  then show ?case using Cons.IH [OF o(3)] sumAmounts_exact [OF o(2)] by (simp add: openOrders_def)
qed (simp add: openOrders_def)

text \<open>The risk rules a validated request satisfies, over the answers of the market client.\<close>

definition withinLimits :: "Planner \<Rightarrow> Market \<Rightarrow> Instrument \<Rightarrow> rat \<Rightarrow> bool" where
  "withinLimits p m i amount \<longleftrightarrow>
     (\<exists>least maxOrder maxOpen. SetString (in_MinTradeAmount i) = Some least \<and> 0 < least \<and> least \<le> amount \<and>
        amount / least \<in> \<int> \<and> SetString (lm_MaxOrderUSD (pn_Limits p)) = Some maxOrder \<and> amount \<le> maxOrder \<and>
        SetString (lm_MaxAggregateOpenUSD (pn_Limits p)) = Some maxOpen \<and>
        (\<Sum>ord\<leftarrow>openOrders m (riskCurrencies p). openAmount ord) + amount \<le> maxOpen \<and>
        int (length (openOrders m (riskCurrencies p))) < lm_MaxOpenOrders (pn_Limits p))"

definition priceNear :: "Planner \<Rightarrow> Instrument \<Rightarrow> rat \<Rightarrow> Plan \<Rightarrow> bool" where
  "priceNear p i mark plan \<longleftrightarrow>
     (\<exists>price tick dev. SetString (pl_Price plan) = Some price \<and> 0 < price \<and> EffectiveTickSize i (pl_Price plan) = Inr (pl_ValidTick plan) \<and>
        SetString (pl_ValidTick plan) = Some tick \<and> 0 < tick \<and> price / tick \<in> \<int> \<and>
        SetString (lm_MaxPriceDeviationPct (pn_Limits p)) = Some dev \<and> \<bar>price - mark\<bar> * 100 \<le> dev * mark)"

lemma checkAmount_Inr:
  assumes "checkAmount limits i text = Inr amount"
  shows "SetString text = Some amount \<and> 0 < amount \<and>
    (\<exists>least maxOrder. SetString (in_MinTradeAmount i) = Some least \<and> 0 < least \<and> least \<le> amount \<and> amount / least \<in> \<int> \<and>
       SetString (lm_MaxOrderUSD limits) = Some maxOrder \<and> amount \<le> maxOrder)"
  using assms by (auto simp: checkAmount_def result_simps positiveRat_Inr isInteger_Ints not_less split: if_splits)

lemma checkRisk_Inr:
  assumes "checkRisk p m amount = Inr (n, sm)"
  shows "\<exists>maxOpen. SetString (lm_MaxAggregateOpenUSD (pn_Limits p)) = Some maxOpen \<and> sm \<le> maxOpen \<and>
     sm = (\<Sum>ord\<leftarrow>openOrders m (riskCurrencies p). openAmount ord) + amount \<and>
     n = int (length (openOrders m (riskCurrencies p))) \<and> n < lm_MaxOpenOrders (pn_Limits p)"
proof -
  obtain r where r: "openRisk m (riskCurrencies p) 0 0 = Inr (n, r)" "n < lm_MaxOpenOrders (pn_Limits p)" "sm = r + amount"
    "\<exists>maxOpen. SetString (lm_MaxAggregateOpenUSD (pn_Limits p)) = Some maxOpen \<and> r + amount \<le> maxOpen"
    using assms by (auto simp: checkRisk_def result_simps positiveRat_Inr not_less not_le split: if_splits)
  then show ?thesis using openRisk_exact [OF r(1)] by auto
qed

lemma checkLimitPrice_Inr:
  assumes "checkLimitPrice limits i mark text = Inr tickText" "0 < mark"
  shows "EffectiveTickSize i text = Inr tickText \<and>
    (\<exists>price tick dev. SetString text = Some price \<and> 0 < price \<and> SetString tickText = Some tick \<and> 0 < tick \<and> price / tick \<in> \<int> \<and>
       SetString (lm_MaxPriceDeviationPct limits) = Some dev \<and> \<bar>price - mark\<bar> * 100 \<le> dev * mark)"
  using assms
  by (auto simp: checkLimitPrice_def result_simps positiveRat_Inr isInteger_Ints not_less field_simps split: if_splits)

text \<open>What a successful validation has read and checked.\<close>

lemma validate_cases:
  assumes "validate p metadataAt priceAt request = Inr plan"
  obtains m i ticker mark amount ws tick risk where
    "pn_Market p = Some m" "mk_InstrumentOf m (rq_Instrument request) = Inr i" "checkInstrument request i = None"
    "checkAmount (pn_Limits p) i (rq_Amount request) = Inr amount" "checkWords request = Inr ws"
    "mk_Ticker m (rq_Instrument request) = Inr ticker" "SetString (tk_MarkPrice ticker) = Some mark" "0 < mark"
    "(if fst (snd ws) = ''limit'' then checkLimitPrice (pn_Limits p) i mark (rq_Price request) else Inr (in_TickSize i)) = Inr tick"
    "checkRisk p m amount = Inr risk" "plan = validatedPlan p request i ticker ws tick risk metadataAt priceAt"
proof -
  obtain m where m: "pn_Market p = Some m" using assms by (auto simp: validate_def split: option.splits)
  have lim: "\<not> (lm_MaxOpenOrders (pn_Limits p) \<le> 0 \<or> lm_TTL (pn_Limits p) \<le> 0)"
    using assms m by (auto simp: validate_def)
  obtain i where i: "mk_InstrumentOf m (rq_Instrument request) = Inr i" "checkInstrument request i = None"
    using assms m lim by (auto simp: validate_def result_simps split: option.splits)
  from assms m lim i obtain amount ws ticker mark tick risk where
    "checkAmount (pn_Limits p) i (rq_Amount request) = Inr amount" "checkWords request = Inr ws"
    "mk_Ticker m (rq_Instrument request) = Inr ticker" "positiveRat ''mark price'' (tk_MarkPrice ticker) = Inr mark"
    "(if fst (snd ws) = ''limit'' then checkLimitPrice (pn_Limits p) i mark (rq_Price request) else Inr (in_TickSize i)) = Inr tick"
    "checkRisk p m amount = Inr risk" "plan = validatedPlan p request i ticker ws tick risk metadataAt priceAt"
    unfolding validate_def by (simp add: result_simps del: split_paired_Ex) metis
  then show thesis using that m i by (simp add: positiveRat_Inr)
qed

section \<open>Histories of the planner\<close>

text \<open>
  A history interleaves any number of executions, each one step at a time, with each other, with calls of \<open>Create\<close> and with the other operations of the
  store. The planners share one intent file; their venue clients, and with them the venue's answers, may differ at every step.
\<close>

record ExecuteThread =
  et_Env :: PlannerEnv
  et_ID :: string
  et_Confirm :: bool
  et_Pc :: ExecutePc

definition freshPlanner :: PlannerState where
  "freshPlanner = \<lparr>ps_File = FileMissing, ps_Sent = []\<rparr>"

inductive planner_run :: "string \<Rightarrow> DemoLimits \<Rightarrow> PlannerState \<Rightarrow> ExecuteThread list \<Rightarrow> bool" for path limits where
  start: "planner_run path limits freshPlanner []"
| create: "planner_run path limits st ths \<Longrightarrow> Planner_Create p env request (ps_File st) = (r, f') \<Longrightarrow> pn_Path p = path \<Longrightarrow>
     planner_run path limits (st\<lparr>ps_File := f'\<rparr>) ths"
| begin_execute: "planner_run path limits st ths \<Longrightarrow>
     planner_run path limits st (ths @ [\<lparr>et_Env = env, et_ID = i, et_Confirm = confirm, et_Pc = ExGet\<rparr>])"
| step: "planner_run path limits st (xs @ th # ys) \<Longrightarrow> pn_Path p = path \<Longrightarrow>
     executeStep p (et_Env th) (et_ID th) (et_Confirm th) (et_Pc th) st = (pc, st') \<Longrightarrow>
     planner_run path limits st' (xs @ th\<lparr>et_Pc := pc\<rparr> # ys)"
| store: "planner_run path limits st ths \<Longrightarrow> intent_step path limits (ps_File st) f' \<Longrightarrow> planner_run path limits (st\<lparr>ps_File := f'\<rparr>) ths"

text \<open>Scheduling: one step of the \<open>k\<close>-th execution, if there is one.\<close>

definition stepExecution :: "Planner \<Rightarrow> nat \<Rightarrow> PlannerState \<times> ExecuteThread list \<Rightarrow> PlannerState \<times> ExecuteThread list" where
  "stepExecution p k c = (case c of (st, ths) \<Rightarrow>
     (if k < length ths then
        (case executeStep p (et_Env (ths ! k)) (et_ID (ths ! k)) (et_Confirm (ths ! k)) (et_Pc (ths ! k)) st of
           (pc, st') \<Rightarrow> (st', ths[k := (ths ! k)\<lparr>et_Pc := pc\<rparr>]))
      else (st, ths)))"

lemma planner_run_schedule:
  "planner_run (pn_Path p) limits st ths \<Longrightarrow>
   planner_run (pn_Path p) limits (fst (fold (stepExecution p) ks (st, ths))) (snd (fold (stepExecution p) ks (st, ths)))"
proof (induction ks arbitrary: st ths)
  case (Cons k ks)
  obtain pc st1 where s: "executeStep p (et_Env (ths ! k)) (et_ID (ths ! k)) (et_Confirm (ths ! k)) (et_Pc (ths ! k)) st = (pc, st1)"
    by (metis surj_pair)
  show ?case
  proof (cases "k < length ths")
    case True
    then have "ths = take k ths @ (ths ! k) # drop (Suc k) ths" by (rule id_take_nth_drop)
    with Cons.prems have "planner_run (pn_Path p) limits st (take k ths @ (ths ! k) # drop (Suc k) ths)" by simp
    from planner_run.step [OF this refl s]
    have "planner_run (pn_Path p) limits st1 (ths[k := (ths ! k)\<lparr>et_Pc := pc\<rparr>])" using True by (simp add: upd_conv_take_nth_drop)
    then show ?thesis using Cons.IH True s by (simp add: stepExecution_def)
  qed (use Cons in \<open>simp add: stepExecution_def\<close>)
qed simp

text \<open>Plans are stored under their own identifiers.\<close>

definition plansKeyed :: "IntentSnapshot \<Rightarrow> bool" where
  "plansKeyed s \<longleftrightarrow> (\<forall>i q. gget (s_Plans s) i = Some q \<longrightarrow> pl_ID q = i)"

lemma plansKeyed_touch [simp]: "plansKeyed (intentTouch now s) = plansKeyed s"
  by (simp add: plansKeyed_def intentTouch_def)

lemma mutation_keyed: "mutation limits s s' \<Longrightarrow> plansKeyed s \<Longrightarrow> plansKeyed s'"
proof (induction rule: mutation.induct)
  case (m_confirm v now s s' t b)
  from m_confirm(1) have "s_Plans s' = s_Plans s" by (cases rule: confirmMutate_cases) auto
  then show ?case using m_confirm.prems by (simp add: plansKeyed_def)
next
  case (m_dispatch i now s s' t)
  then show ?case by (auto simp: plansKeyed_def elim: updateTradeMutate_cases)
next
  case (m_update i u now s s' t)
  then show ?case by (auto simp: plansKeyed_def elim: updateTradeMutate_cases)
next
  case (m_cursor key c s s' x)
  then show ?case by (auto simp: setCursorMutate_def plansKeyed_def split: if_splits option.splits)
next
  case (m_save p s s' x)
  then show ?case by (auto simp: savePlanMutate_def plansKeyed_def gomap_simps split: if_splits option.splits)
next
  case (m_claim i now s s' y)
  then show ?case by (auto simp: claimMutate_def Let_def plansKeyed_def gomap_simps split: if_splits option.splits)
next
  case (m_finish i st oid le s s' x)
  then show ?case by (auto simp: finishMutate_def plansKeyed_def gomap_simps split: if_splits option.splits)
qed

text \<open>The state of the file, and which plans have been handed to the venue.\<close>

definition settled :: "IntentSnapshot \<Rightarrow> string \<Rightarrow> bool" where
  "settled s i \<longleftrightarrow> (\<exists>q. gget (s_Plans s) i = Some q \<and> pl_Status q \<noteq> StatusPlanned)"

definition fileOk :: "IntentSnapshot disk \<Rightarrow> string set \<Rightarrow> bool" where
  "fileOk f ids \<longleftrightarrow> (\<exists>s. intentPeek f = Some s \<and> intentInv s \<and> plansKeyed s \<and> (\<forall>i\<in>ids. settled s i))"

definition sentLabels :: "PlannerState \<Rightarrow> string list" where
  "sentLabels st = map (pp_Label \<circ> snd) (ps_Sent st)"

text \<open>The plan an execution has claimed and not yet handed to the venue.\<close>

fun claimedLabels :: "ExecutePc \<Rightarrow> string list" where
  "claimedLabels (ExSubmit claimed) = [pl_ID claimed]"
| "claimedLabels _ = []"

fun finishesOk :: "ExecutePc \<Rightarrow> bool" where
  "finishesOk (ExFinish claimed ack status orderID msg readState err) = (status \<noteq> StatusPlanned)"
| "finishesOk _ = True"

definition pendingLabels :: "ExecuteThread list \<Rightarrow> string list" where
  "pendingLabels ths = concat (map (\<lambda>th. claimedLabels (et_Pc th)) ths)"

lemma pendingLabels_simps [simp]:
  "pendingLabels [] = []" "pendingLabels (th # ths) = claimedLabels (et_Pc th) @ pendingLabels ths"
  "pendingLabels (xs @ ys) = pendingLabels xs @ pendingLabels ys"
  by (simp_all add: pendingLabels_def)

text \<open>Every plan belongs to at most one submission, made or about to be made, and has left the planned status in the file.\<close>

definition plannerInv :: "PlannerState \<Rightarrow> ExecuteThread list \<Rightarrow> bool" where
  "plannerInv st ths \<longleftrightarrow> distinct (sentLabels st @ pendingLabels ths) \<and>
     fileOk (ps_File st) (set (sentLabels st @ pendingLabels ths)) \<and> (\<forall>th\<in>set ths. finishesOk (et_Pc th))"

lemma sentLabels_file [simp]: "sentLabels (st\<lparr>ps_File := f\<rparr>) = sentLabels st"
  by (simp add: sentLabels_def)

lemma fileOk_step:
  assumes "intent_step path limits f f'" "fileOk f ids"
  shows "fileOk f' ids"
proof -
  obtain s where s: "intentPeek f = Some s" "intentInv s" "plansKeyed s" "\<forall>i\<in>ids. settled s i"
    using assms(2) by (auto simp: fileOk_def)
  obtain s' where s': "intentPeek f' = Some s'" "snapLater s s'" "intentInv s'"
    using intent_step_later [OF assms(1) s(1,2)] .
  have "plansKeyed s'"
    using intent_step_mutation [OF assms(1)]
  proof (elim disjE exE conjE)
    assume "f' = f" then show ?thesis using s s' by simp
  next
    fix u u' now assume h: "intentPeek f = Some u" "mutation limits u u'" "f' = FileHolds (intentTouch now u')"
    then have "plansKeyed u'" using s mutation_keyed by auto
    then show ?thesis using intentPeek_touch h(3) s'(1) plansKeyed_touch by blast
  qed
  moreover have "settled s' i" if "i \<in> ids" for i
    using s(4) s'(2) that unfolding settled_def snapLater_def plansLater_def by blast
  ultimately show ?thesis using s' by (auto simp: fileOk_def)
qed

text \<open>A claim that succeeds marks a plan that was not settled before, and returns it under its key.\<close>

lemma fileOk_claim:
  assumes "Store_Claim path env i now f = (Inr q, f')" "fileOk f ids"
  shows "i \<notin> ids \<and> pl_ID q = i \<and> fileOk f' (insert i ids)"
proof -
  obtain s q0 s1 where c: "intentPeek f = Some s" "gget (s_Plans s) i = Some q0" "pl_Status q0 = StatusPlanned"
    "f' = FileHolds (intentTouch (ev_Now env) s1)" "gget (s_Plans s1) i = Some q" "pl_Status q \<noteq> StatusPlanned" "pl_ID q = pl_ID q0"
    using Store_Claim_cases [OF assms(1)] by blast
  have k: "plansKeyed s" "\<forall>j\<in>ids. settled s j" using assms(2) c(1) by (auto simp: fileOk_def)
  have "fileOk f' ids" using fileOk_step [OF intent_step.claim [OF assms(1)] assms(2)] .
  then obtain s' where s': "intentPeek f' = Some s'" "intentInv s'" "plansKeyed s'" "\<forall>j\<in>ids. settled s' j"
    by (auto simp: fileOk_def)
  have "s' = intentTouch (ev_Now env) s1" using intentPeek_touch c(4) s'(1) by blast
  then have "settled s' i" using c(5,6) by (simp add: settled_def intentTouch_def)
  then have "fileOk f' (insert i ids)" using s' by (auto simp: fileOk_def)
  moreover have "i \<notin> ids" using k(2) c(2,3) by (auto simp: settled_def)
  moreover have "pl_ID q = i" using k(1) c(2,7) by (simp add: plansKeyed_def)
  ultimately show ?thesis by blast
qed

lemma classify_status: "classify m i answer = ((status, oid, note), rs, err) \<Longrightarrow> status \<noteq> StatusPlanned"
  by (auto simp: classify_def Let_def split: prod.splits option.splits if_splits)

lemma fileOk_fewer: "fileOk f ids \<Longrightarrow> ids' \<subseteq> ids \<Longrightarrow> fileOk f ids'"
  by (auto simp: fileOk_def)

lemma plannerInv_file: "plannerInv st ths \<Longrightarrow> intent_step path limits (ps_File st) f' \<Longrightarrow> plannerInv (st\<lparr>ps_File := f'\<rparr>) ths"
  using fileOk_step by (auto simp: plannerInv_def)

text \<open>What one step of an execution does to the file, the orders sent and the plan it holds.\<close>

lemma executeStep_cases:
  assumes "executeStep p env i confirm pc st = (pc', st')" "finishesOk pc"
  obtains (quiet) "claimedLabels pc' = []" "finishesOk pc'" "st' = st"
  | (stored) f' where "\<And>limits. intent_step (pn_Path p) limits (ps_File st) f'" "claimedLabels pc' = []" "finishesOk pc'" "st' = st\<lparr>ps_File := f'\<rparr>"
  | (claimed) q f' where "claimedLabels pc = []" "pc' = ExSubmit q" "st' = st\<lparr>ps_File := f'\<rparr>"
      "Store_Claim (pn_Path p) (pv_Claim env) i (pv_ClaimAt env) (ps_File st) = (Inr q, f')"
  | (sent) q where "pc = ExSubmit q" "claimedLabels pc' = []" "finishesOk pc'" "ps_File st' = ps_File st" "sentLabels st' = sentLabels st @ [pl_ID q]"
  | (idle) "pc' = pc" "st' = st"
proof (cases pc)
  case ExGet
  then show ?thesis using assms(1) by (intro quiet) (auto simp: executeStep_def split: if_splits sum.splits)
next
  case ExExpire
  obtain c f where c: "Store_Claim (pn_Path p) (pv_Claim env) i (pv_ClaimAt env) (ps_File st) = (c, f)" by (metis surj_pair)
  then show ?thesis using stored [OF intent_step.claim [OF c]] assms(1) ExExpire by (auto simp: executeStep_def)
next
  case (ExValidate q)
  then show ?thesis using assms(1) by (intro quiet) (auto simp: executeStep_def split: option.splits)
next
  case ExClaim
  obtain c f where c: "Store_Claim (pn_Path p) (pv_Claim env) i (pv_ClaimAt env) (ps_File st) = (c, f)" by (metis surj_pair)
  show ?thesis
  proof (cases c)
    case (Inl e)
    then show ?thesis using stored [OF intent_step.claim [OF c]] assms(1) c ExClaim by (auto simp: executeStep_def)
  next
    case (Inr q)
    then show ?thesis using that(3) [of q f] assms(1) c ExClaim by (simp add: executeStep_def)
  qed
next
  case (ExSubmit q)
  show ?thesis
  proof (cases "pn_Market p")
    case None
    then show ?thesis using quiet assms(1) ExSubmit by (auto simp: executeStep_def)
  next
    case (Some m)
    then show ?thesis using sent [of q] assms(1) ExSubmit by (auto simp: executeStep_def sentLabels_def planParams_def)
  qed
next
  case (ExRead q answer)
  show ?thesis
  proof (cases "pn_Market p")
    case None
    then show ?thesis using quiet assms(1) ExRead by (auto simp: executeStep_def)
  next
    case (Some m)
    obtain status oid msg rs err where c: "classify m i answer = ((status, oid, msg), rs, err)" by (metis surj_pair)
    show ?thesis using quiet assms(1) ExRead Some c classify_status [OF c] by (auto simp: executeStep_def)
  qed
next
  case (ExFinish q ack status oid msg rs err)
  obtain x f where f: "Store_Finish (pn_Path p) (pv_Finish env) i status oid msg (ps_File st) = (x, f)" by (metis surj_pair)
  have "status \<noteq> StatusPlanned" using assms(2) ExFinish by simp
  then show ?thesis using stored [OF intent_step.finish [OF f]] assms(1) f ExFinish by (auto simp: executeStep_def)
next
  case (ExDone r e)
  then show ?thesis using idle assms(1) by (simp add: executeStep_def)
qed

lemma plannerInv_shrinks: "plannerInv st (xs @ th # ys) \<Longrightarrow> claimedLabels pc = [] \<Longrightarrow> finishesOk pc \<Longrightarrow> plannerInv st (xs @ th\<lparr>et_Pc := pc\<rparr> # ys)"
  by (auto simp: plannerInv_def intro: fileOk_fewer)

lemma plannerInv_step:
  assumes inv: "plannerInv st (xs @ th # ys)"
    and st: "executeStep p (et_Env th) (et_ID th) (et_Confirm th) (et_Pc th) st = (pc, st')"
  shows "plannerInv st' (xs @ th\<lparr>et_Pc := pc\<rparr> # ys)"
proof -
  have ok: "finishesOk (et_Pc th)" using inv by (simp add: plannerInv_def)
  from st ok show ?thesis
  proof (cases rule: executeStep_cases)
    case quiet
    then show ?thesis using plannerInv_shrinks [OF inv] by simp
  next
    case (stored f')
    show ?thesis unfolding stored(4) by (rule plannerInv_shrinks [OF plannerInv_file [OF inv stored(1)] stored(2,3)])
  next
    case (claimed q f')
    have "fileOk (ps_File st) (set (sentLabels st @ pendingLabels (xs @ th # ys)))" using inv by (simp add: plannerInv_def)
    note c = fileOk_claim [OF claimed(4) this]
    then have "fileOk f' (insert (pl_ID q) (set (sentLabels st @ pendingLabels (xs @ th # ys))))" by simp
    then have "fileOk f' (set (sentLabels st @ pendingLabels (xs @ th\<lparr>et_Pc := pc\<rparr> # ys)))"
      by (rule fileOk_fewer) (auto simp: claimed(2))
    then show ?thesis using c inv claimed(1-3) by (auto simp: plannerInv_def)
  next
    case (sent q)
    have "fileOk (ps_File st') (set (sentLabels st @ pendingLabels (xs @ th # ys)))" using inv sent(4) by (simp add: plannerInv_def)
    then have "fileOk (ps_File st') (set (sentLabels st' @ pendingLabels (xs @ th\<lparr>et_Pc := pc\<rparr> # ys)))"
      by (rule fileOk_fewer) (auto simp: sent(1,2,5))
    then show ?thesis using inv sent(1-3,5) by (auto simp: plannerInv_def)
  next
    case idle
    then show ?thesis using inv by (cases th) simp
  qed
qed

lemma Planner_Create_step:
  assumes "Planner_Create p env request f = (r, f')"
  shows "f' = f \<or> intent_step (pn_Path p) limits f f'"
  using assms by (auto simp: Planner_Create_def split: sum.splits prod.splits option.splits intro: intent_step.save)

lemma planner_run_inv: "planner_run path limits st ths \<Longrightarrow> plannerInv st ths"
proof (induction rule: planner_run.induct)
  case start
  have "intentPeek FileMissing = Some emptyIntentSnapshot" by (simp add: intentPeek_def)
  moreover have "plansKeyed emptyIntentSnapshot" by (simp add: plansKeyed_def emptyIntentSnapshot_def)
  ultimately show ?case by (simp add: plannerInv_def freshPlanner_def sentLabels_def fileOk_def intentInv_empty)
next
  case (create st ths p env request r f')
  then show ?case using Planner_Create_step [OF create.hyps(2)] plannerInv_file by fastforce
next
  case (begin_execute st ths env i confirm)
  then show ?case by (simp add: plannerInv_def)
next
  case (step st xs th ys p pc st')
  then show ?case using plannerInv_step by blast
next
  case (store st ths f')
  then show ?case using plannerInv_file by blast
qed

section \<open>A concrete venue\<close>

definition samplePerpetual :: Instrument where
  "samplePerpetual = \<lparr>in_InstrumentName = ''BTC-PERPETUAL'', in_Kind = ''future'', in_BaseCurrency = ''BTC'', in_CounterCurrency = ''USD'',
     in_SettlementCurrency = ''BTC'', in_QuoteCurrency = ''USD'', in_TickSize = ''0.5'', in_TickSizeSteps = [],
     in_AmountStep = [], in_MinTradeAmount = ''10'', in_MakerCommission = [], in_TakerCommission = [], in_ContractSize = ''10'',
     in_IsActive = True, in_InstrumentID = 1, in_ExpirationTimestamp = 0\<rparr>"

definition sampleVenueOrder :: DeribitOrder where
  "sampleVenueOrder = zeroDeribitOrder\<lparr>do_OrderID := ''o7'', do_Label := ''p1'', do_Amount := ''20''\<rparr>"

definition sampleMarket :: Market where
  "sampleMarket = \<lparr>mk_InstrumentOf = (\<lambda>_. Inr samplePerpetual),
     mk_Ticker = (\<lambda>_. Inr \<lparr>tk_InstrumentName = ''BTC-PERPETUAL'', tk_MarkPrice = ''100'', tk_BestBidPrice = [], tk_BestAskPrice = []\<rparr>),
     mk_OpenFutureOrders = (\<lambda>c. Inr (if c = ''BTC'' then [sampleVenueOrder] else [])),
     mk_Place = (\<lambda>_ _. (\<lparr>ack_Order = sampleVenueOrder, ack_Trades = []\<rparr>, None)),
     mk_PlaceWS = (\<lambda>_ _ _. (\<lparr>ack_Order = sampleVenueOrder, ack_Trades = []\<rparr>, None)),
     mk_OrderState = (\<lambda>_. (sampleVenueOrder, None))\<rparr>"

definition samplePlanner :: Planner where
  "samplePlanner = \<lparr>pn_Market = Some sampleMarket, pn_Path = ''p'',
     pn_Limits = \<lparr>lm_MaxOrderUSD = ''50'', lm_MaxAggregateOpenUSD = ''60'', lm_MaxPriceDeviationPct = ''5'', lm_MaxOpenOrders = 3, lm_TTL = 60\<rparr>,
     pn_AccountAlias = ''main'', pn_RiskCurrencies = [], pn_WSURL = [], pn_FIXPlace = None\<rparr>"

definition sampleRequest :: Request where
  "sampleRequest = \<lparr>rq_Instrument = ''BTC-PERPETUAL'', rq_Side = ''Buy'', rq_OrderType = [], rq_Amount = ''20'', rq_Price = ''99.5'',
     rq_TimeInForce = [], rq_PostOnly = False, rq_ReduceOnly = False, rq_Transport = []\<rparr>"

definition samplePlannerEnv :: PlannerEnv where
  "samplePlannerEnv = \<lparr>pv_MetadataAt = 1, pv_PriceAt = 2, pv_NewID = Inr ''p1'', pv_Now = 3, pv_Get = quietEnv 4, pv_Claim = quietEnv 5,
     pv_ClaimAt = 6, pv_Finish = quietEnv 7\<rparr>"

definition samplePlanned :: PlannerState where
  "samplePlanned = freshPlanner\<lparr>ps_File := snd (Planner_Create samplePlanner samplePlannerEnv sampleRequest FileMissing)\<rparr>"

text \<open>
  Two executions of the sample plan. Both read it as planned and pass the revalidation before either claims it.
\<close>

definition sampleExecutions :: "ExecuteThread list" where
  "sampleExecutions = replicate 2 \<lparr>et_Env = samplePlannerEnv, et_ID = ''p1'', et_Confirm = True, et_Pc = ExGet\<rparr>"

definition sampleContest :: "PlannerState \<times> ExecuteThread list" where
  "sampleContest = fold (stepExecution samplePlanner) [0, 1, 0, 1, 1, 0, 1, 1, 1] (samplePlanned, sampleExecutions)"

lemma sampleContest_run: "planner_run ''p'' sampleLimits (fst sampleContest) (snd sampleContest)"
proof -
  have p: "pn_Path samplePlanner = ''p''" by (simp add: samplePlanner_def)
  have "planner_run ''p'' sampleLimits samplePlanned []"
    using planner_run.create [OF planner_run.start, of samplePlanner samplePlannerEnv sampleRequest, OF surjective_pairing p]
    by (simp add: samplePlanned_def freshPlanner_def)
  from planner_run.begin_execute [OF planner_run.begin_execute [OF this]]
  have "planner_run ''p'' sampleLimits samplePlanned sampleExecutions" by (simp add: sampleExecutions_def numeral_2_eq_2)
  then show ?thesis unfolding sampleContest_def p [symmetric] by (rule planner_run_schedule)
qed

section \<open>Properties\<close>

text \<open>
  C9. A request that validates is inside every risk limit, measured on what the venue answered: the amount
  is a positive multiple of the venue's minimum and at most the per-order limit, the exposure of all open
  orders with this one stays under the aggregate limit, there is room for one more open order, and a limit
  price lies on the tick grid of its price band and within the allowed deviation from the mark price.
\<close>

theorem validate_within_limits:
  assumes "validate p metadataAt priceAt request = Inr plan"
  shows "\<exists>m i ticker amount mark. pn_Market p = Some m \<and> mk_InstrumentOf m (rq_Instrument request) = Inr i \<and>
    mk_Ticker m (rq_Instrument request) = Inr ticker \<and> SetString (tk_MarkPrice ticker) = Some mark \<and>
    SetString (pl_Amount plan) = Some amount \<and> 0 < amount \<and> withinLimits p m i amount \<and>
    in_IsActive i \<and> pl_Instrument plan \<in> {''BTC-PERPETUAL'', ''ETH-PERPETUAL''} \<and> in_InstrumentName i = pl_Instrument plan \<and>
    pl_Side plan \<in> {''buy'', ''sell''} \<and>
    (pl_OrderType plan = ''limit'' \<and> priceNear p i mark plan \<or> pl_OrderType plan = ''market'' \<and> pl_Price plan = [])"
proof -
  obtain m i ticker mark amount ws tick risk where v:
    "pn_Market p = Some m" "mk_InstrumentOf m (rq_Instrument request) = Inr i" "checkInstrument request i = None"
    "checkAmount (pn_Limits p) i (rq_Amount request) = Inr amount" "checkWords request = Inr ws"
    "mk_Ticker m (rq_Instrument request) = Inr ticker" "SetString (tk_MarkPrice ticker) = Some mark" "0 < mark"
    "(if fst (snd ws) = ''limit'' then checkLimitPrice (pn_Limits p) i mark (rq_Price request) else Inr (in_TickSize i)) = Inr tick"
    "checkRisk p m amount = Inr risk" "plan = validatedPlan p request i ticker ws tick risk metadataAt priceAt"
    using validate_cases [OF assms] .
  obtain side ot tr where ws: "ws = (side, ot, tr)" by (metis surj_pair)
  obtain n sm where risk: "risk = (n, sm)" by (metis surj_pair)
  have plan: "pl_Amount plan = rq_Amount request" "pl_Instrument plan = rq_Instrument request" "pl_Side plan = side"
    "pl_OrderType plan = ot" "pl_ValidTick plan = tick" "pl_Price plan = (if ot = ''limit'' then rq_Price request else [])"
    using v(11) ws by (simp_all add: validatedPlan_def)
  have "side \<in> {''buy'', ''sell''}" "ot = ''limit'' \<or> ot = ''market''"
    using v(5) ws by (auto simp: checkWords_def Let_def split: if_splits)
  moreover have "withinLimits p m i amount" "SetString (rq_Amount request) = Some amount" "0 < amount"
    using checkAmount_Inr [OF v(4)] checkRisk_Inr [of p m amount n sm] v(10) risk unfolding withinLimits_def by (blast, blast, blast)
  moreover have "in_IsActive i" "rq_Instrument request \<in> {''BTC-PERPETUAL'', ''ETH-PERPETUAL''}" "in_InstrumentName i = rq_Instrument request"
    using v(3) by (auto simp: checkInstrument_def split: if_splits)
  moreover have "priceNear p i mark plan" if "ot = ''limit''"
    using checkLimitPrice_Inr [of "pn_Limits p" i mark "rq_Price request" tick] v(8,9) that ws plan unfolding priceNear_def by auto
  ultimately show ?thesis using v(1,2,6,7) plan by (intro exI [of _ m] exI [of _ i] exI [of _ ticker] exI [of _ amount] exI [of _ mark]) auto
qed

theorem validate_within_limits_witness:
  "\<exists>m i amount. pn_Market samplePlanner = Some m \<and> mk_InstrumentOf m ''BTC-PERPETUAL'' = Inr i \<and> withinLimits samplePlanner m i amount"
proof -
  have "case validate samplePlanner 1 2 sampleRequest of Inr _ \<Rightarrow> True | Inl _ \<Rightarrow> False" by code_simp
  then obtain plan where "validate samplePlanner 1 2 sampleRequest = Inr plan" by (auto split: sum.splits)
  from validate_within_limits [OF this] show ?thesis by (auto simp: sampleRequest_def)
qed

text \<open>
  C8. A plan is sent once. Take any history: any number of executions of any plans under way at once, by any planners over one intent file, each advancing one
  call at a time (reading the plan, revalidating it, claiming it, submitting it, reading the order back, recording the outcome) and interleaved in any
  order with each other, with the creation of plans and with any other operation of the store, with any failures and any answers of the venue. No two
  orders handed to the venue carry the label of the same plan, and every plan handed over has left the planned status in the file for good, so
  that the claim refuses it from then on, also after an outcome nobody knows.
\<close>

theorem plan_sent_once:
  assumes "planner_run path limits st ths"
  shows "distinct (map (pp_Label \<circ> snd) (ps_Sent st)) \<and>
    (\<forall>(side, params)\<in>set (ps_Sent st). \<exists>q. Store_Get (quietEnv now) (pp_Label params) (ps_File st) = Inr q \<and> pl_Status q \<noteq> StatusPlanned)"
proof -
  have inv: "distinct (sentLabels st)" "fileOk (ps_File st) (set (sentLabels st))"
    using planner_run_inv [OF assms] by (auto simp: plannerInv_def intro: fileOk_fewer)
  obtain s where s: "intentPeek (ps_File st) = Some s" "\<forall>i\<in>set (sentLabels st). settled s i" using inv(2) by (auto simp: fileOk_def)
  have "\<exists>q. Store_Get (quietEnv now) i (ps_File st) = Inr q \<and> pl_Status q \<noteq> StatusPlanned" if "i \<in> set (sentLabels st)" for i
    using s that Store_Load_quiet [of now "ps_File st" s] by (auto simp: Store_Get_def settled_def)
  then show ?thesis using inv(1) by (auto simp: sentLabels_def split: prod.splits) force+
qed

text \<open>Of the two executions the one that claims the plan first submits it; the other one is refused by the claim.\<close>

lemma sampleContest_outcome:
  "case sampleContest of (st, ths) \<Rightarrow> map (\<lambda>(side, params). (side, pp_Label params)) (ps_Sent st) = [(''buy'', ''p1'')] \<and>
     map (\<lambda>th. case et_Pc th of ExDone r e \<Rightarrow> Some (er_Verified r, e = None) | _ \<Rightarrow> None) ths = [Some (False, False), Some (True, True)]"
  by code_simp

theorem plan_sent_once_witness:
  "\<exists>params q. ps_Sent (fst sampleContest) = [(''buy'', params)] \<and>
     Store_Get (quietEnv 9) ''p1'' (ps_File (fst sampleContest)) = Inr q \<and> pl_Status q \<noteq> StatusPlanned"
proof -
  have "map (\<lambda>(side, params). (side, pp_Label params)) (ps_Sent (fst sampleContest)) = [(''buy'', ''p1'')]"
    using sampleContest_outcome by (simp only: case_prod_beta)
  then obtain params where p: "ps_Sent (fst sampleContest) = [(''buy'', params)]" "pp_Label params = ''p1''"
    by (auto simp: map_eq_Cons_conv)
  then show ?thesis using plan_sent_once [OF sampleContest_run, of 9] by auto
qed

end
