(* ===== verification/BybitData.thy ===== *)
theory BybitData
  imports GoCalendar Domain
begin

text \<open>
  The Bybit REST data of \<open>internal/rest/types.go\<close> that the reconciliations read, and its conversion into the
  domain's orders and executions (\<open>internal/reconcile\<close>).
\<close>

section \<open>Data (types.go)\<close>

record BybitOrder =
  bo_OrderID :: string
  bo_OrderLinkID :: string
  bo_Symbol :: string
  bo_Side :: string
  bo_OrderType :: string
  bo_Price :: string
  bo_Qty :: string
  bo_CumExecQty :: string
  bo_AvgPrice :: string
  bo_OrderStatus :: string
  bo_CreatedTime :: string
  bo_UpdatedTime :: string

record BybitExecution =
  be_ExecID :: string
  be_OrderID :: string
  be_OrderLinkID :: string
  be_Symbol :: string
  be_Side :: string
  be_ExecPrice :: string
  be_ExecQty :: string
  be_ExecFee :: string
  be_FeeRate :: string
  be_FeeCurrency :: string
  be_ExecTime :: string

section \<open>Conversion (reconcile.go)\<close>

definition parseMillis :: "string \<Rightarrow> time" where
  "parseMillis v = (case Atoi v of None \<Rightarrow> 0 | Some ms \<Rightarrow> (if ms = 0 then 0 else FromUnixMilli ms))"

definition restOrder :: "string \<Rightarrow> BybitOrder \<Rightarrow> Order" where
  "restOrder category ord =
     zeroOrder\<lparr>o_Exchange := ''bybit'', o_Category := category, o_Symbol := bo_Symbol ord, o_OrderID := bo_OrderID ord,
       o_OrderLinkID := bo_OrderLinkID ord, o_Side := bo_Side ord, o_Type := bo_OrderType ord, o_Price := bo_Price ord,
       o_Qty := bo_Qty ord, o_CumFilledQty := bo_CumExecQty ord, o_AvgFillPrice := bo_AvgPrice ord,
       o_Status := NormalizeBybitOrderStatus (bo_OrderStatus ord), o_RawStatus := bo_OrderStatus ord,
       o_CreatedAt := parseMillis (bo_CreatedTime ord), o_UpdatedAt := parseMillis (bo_UpdatedTime ord)\<rparr>"

definition restExecution :: "string \<Rightarrow> time \<Rightarrow> BybitExecution \<Rightarrow> Execution" where
  "restExecution category now x =
     zeroExecution\<lparr>x_Exchange := ''bybit'', x_Category := category, x_Symbol := be_Symbol x, x_ExecutionID := be_ExecID x,
       x_OrderID := be_OrderID x, x_OrderLinkID := be_OrderLinkID x, x_Side := be_Side x, x_Price := be_ExecPrice x,
       x_Qty := be_ExecQty x, x_ExchangeTime := parseMillis (be_ExecTime x), x_ReceivedAt := now\<rparr>"

end
