(* ===== verification/Paging.thy ===== *)
theory Paging
  imports Prelude
begin

text \<open>
  Paged listings of a venue: a page is its list and the cursor of the next page, empty on the last one. The
  specification of every paging loop of the program is the chain of pages from the empty cursor. Here is
  also the unbounded loop of the Bybit REST reader, which stops only on a repeated cursor.
\<close>

type_synonym 'a page = "'a list \<times> string"

text \<open>The pages of a listing, followed from a cursor to the page without a successor.\<close>

inductive pageChain :: "(string \<Rightarrow> 'a page result) \<Rightarrow> string \<Rightarrow> string list \<Rightarrow> 'a list \<Rightarrow> bool" for load where
  last: "load c = Inr (xs, []) \<Longrightarrow> pageChain load c [c] xs"
| more: "load c = Inr (xs, n) \<Longrightarrow> n \<noteq> [] \<Longrightarrow> pageChain load n cs ys \<Longrightarrow> pageChain load c (c # cs) (xs @ ys)"

inductive_simps pageChain_iff: "pageChain load c cs ys"

lemma pageChain_hd: "pageChain load c cs ys \<Longrightarrow> cs \<noteq> [] \<and> hd cs = c \<and> [] \<notin> set (tl cs)"
proof (induction rule: pageChain.induct)
  case (more c xs n cs ys)
  then show ?case by (cases cs) auto
qed simp

section \<open>The unbounded loop\<close>

text \<open>
  The loop of \<open>RESTReader.orders\<close> and \<open>RESTReader.Executions\<close> for one symbol: no bound on the number of pages.
  Running forever is the value \<open>None\<close>.
\<close>

partial_function (option) restPages ::
    "goerror \<Rightarrow> (string \<Rightarrow> 'a page result) \<Rightarrow> string \<Rightarrow> string list \<Rightarrow> 'a list \<Rightarrow> 'a list result option" where
  "restPages repeated load cursor seen acc =
     (case load cursor of
        Inl e \<Rightarrow> Some (Inl e)
      | Inr (xs, n) \<Rightarrow>
          (if n = [] then Some (Inr (acc @ xs))
           else if n \<in> set seen then Some (Inl repeated)
           else restPages repeated load n (n # seen) (acc @ xs)))"

declare restPages.simps [code]

text \<open>The loop ends when the venue has finitely many cursors.\<close>

lemma restPages_ends:
  assumes "finite C" "\<And>c xs n. load c = Inr (xs, n) \<Longrightarrow> n \<noteq> [] \<Longrightarrow> n \<in> C"
  shows "\<exists>r. restPages repeated load c seen acc = Some r"
proof (induction "card (C - set seen)" arbitrary: c seen acc rule: less_induct)
  case less
  show ?case
  proof (cases "load c")
    case (Inl e)
    then show ?thesis by (simp add: restPages.simps)
  next
    case (Inr page)
    obtain xs n where page: "page = (xs, n)" by (metis surj_pair)
    show ?thesis
    proof (cases "n = [] \<or> n \<in> set seen")
      case True
      then show ?thesis using Inr page by (subst restPages.simps) auto
    next
      case False
      then have "n \<in> C - set seen" using assms(2) Inr page by auto
      then have "card (C - set (n # seen)) < card (C - set seen)" using assms(1) by (intro psubset_card_mono) auto
      from less [OF this, of n] show ?thesis using Inr page False by (subst restPages.simps) simp
    qed
  qed
qed

lemma restPages_chain:
  assumes "c = [] \<and> seen = [] \<or> c \<in> set seen" "pageChain load c cs ys" "distinct cs" "set (tl cs) \<inter> set seen = {}"
  shows "restPages repeated load c seen acc = Some (Inr (acc @ ys))"
  using assms(2,1,3,4)
proof (induction arbitrary: seen acc rule: pageChain.induct)
  case (last c xs)
  then show ?case by (simp add: restPages.simps)
next
  case (more c xs n cs ys)
  have hd: "cs \<noteq> []" "hd cs = n" using pageChain_hd [OF more.hyps(3)] by auto
  then have "n \<in> set cs" by (metis hd_in_set)
  then have n: "n \<notin> set seen" using more.prems by auto
  have "set (tl cs) \<inter> set (n # seen) = {}" "distinct cs" using more.prems hd by (cases cs; auto)+
  then have "restPages repeated load n (n # seen) (acc @ xs) = Some (Inr ((acc @ xs) @ ys))" by (intro more.IH) auto
  then show ?case using more.hyps n by (subst restPages.simps) simp
qed

definition pagedTo :: "(string \<Rightarrow> 'a page result) \<Rightarrow> string \<Rightarrow> string list \<Rightarrow> 'a list \<Rightarrow> 'a list result \<Rightarrow> bool" where
  "pagedTo load c seen acc y \<longleftrightarrow>
     (\<forall>r. y = Inr r \<longrightarrow> c = [] \<and> seen = [] \<or> c \<in> set seen \<longrightarrow>
       (\<exists>cs ys. pageChain load c cs ys \<and> r = acc @ ys \<and> distinct cs \<and> set (tl cs) \<inter> set seen = {}))"

lemma restPages_sound: "restPages repeated load c seen acc = Some y \<Longrightarrow> pagedTo load c seen acc y"
proof (rule restPages.raw_induct [where P = "\<lambda>repeated load c seen acc y. pagedTo load c seen acc y"])
  fix f repeated load c seen acc y
  assume IH: "\<And>repeated load c seen acc y. f repeated load c seen acc = Some y \<Longrightarrow> pagedTo load c seen acc y"
    and body: "(case load c of Inl e \<Rightarrow> Some (Inl e) | Inr (xs, n) \<Rightarrow>
      if n = [] then Some (Inr (acc @ xs)) else if n \<in> set seen then Some (Inl repeated)
      else f repeated load n (n # seen) (acc @ xs)) = Some y"
  show "pagedTo load c seen acc y" unfolding pagedTo_def
  proof (intro allI impI)
    fix r assume r: "y = Inr r" "c = [] \<and> seen = [] \<or> c \<in> set seen"
    obtain xs n where l: "load c = Inr (xs, n)" using body r(1) by (auto split: sum.splits)
    show "\<exists>cs ys. pageChain load c cs ys \<and> r = acc @ ys \<and> distinct cs \<and> set (tl cs) \<inter> set seen = {}"
    proof (cases "n = []")
      case True
      then have "r = acc @ xs" "pageChain load c [c] xs" using l body r(1) by (auto intro: pageChain.last)
      then show ?thesis by (intro exI [of _ "[c]"] exI [of _ xs]) simp
    next
      case False
      then have n: "n \<notin> set seen" "f repeated load n (n # seen) (acc @ xs) = Some y" using l body r(1) by (auto split: if_splits)
      obtain cs ys where cs: "pageChain load n cs ys" "r = (acc @ xs) @ ys" "distinct cs" "set (tl cs) \<inter> set (n # seen) = {}"
        using IH [OF n(2)] r(1) unfolding pagedTo_def by auto
      have h: "cs \<noteq> []" "hd cs = n" "[] \<notin> set (tl cs)" using pageChain_hd [OF cs(1)] by auto
      have "c \<notin> set cs" "set cs \<inter> set seen = {}" using h cs(4) n(1) False r(2) by (cases cs; auto)+
      then show ?thesis using pageChain.more [OF l False cs(1)] cs(2,3) by (intro exI [of _ "c # cs"] exI [of _ "xs @ ys"]) simp
    qed
  qed
qed

end
