(* ===== verification/TradeReconcile.thy ===== *)
theory TradeReconcile
  imports BybitData DeribitData IntentStore Paging "HOL-Library.Product_Lexorder"
begin

text \<open>
  \<open>internal/tradereconcile\<close>: settling quick trades against the venues. A trade is rechecked by reading the
  venue's orders and executions, summing the fills exactly and writing one update to the intent file;
  \<open>Recover\<close> rechecks every active trade after a restart. The venue readers, the account service and the
  event callback are records of functions and flags; the calls made on them are logged as events.
\<close>

section \<open>Data\<close>

text \<open>
  The Bybit client: the two plain queries, and the paged ones where the client implements them. The
  arguments are the instrument, the venue's order identifier, the client's, and the cursor.
\<close>

record BybitReader =
  br_Orders :: "string \<Rightarrow> string \<Rightarrow> string \<Rightarrow> BybitOrder list result"
  br_Executions :: "string \<Rightarrow> string \<Rightarrow> string \<Rightarrow> BybitExecution list result"
  br_OrdersPage :: "(string \<Rightarrow> string \<Rightarrow> string \<Rightarrow> string \<Rightarrow> BybitOrder page result) option"
  br_OrderHistoryPage :: "(string \<Rightarrow> string \<Rightarrow> string \<Rightarrow> string \<Rightarrow> BybitOrder page result) option"
  br_ExecutionsPage :: "(string \<Rightarrow> string \<Rightarrow> string \<Rightarrow> string \<Rightarrow> BybitExecution page result) option"
  br_Ctx :: "nat \<Rightarrow> goerror option"

record DeribitReader =
  dr_OrderState :: "string \<Rightarrow> DeribitOrder result"
  dr_OrdersByLabel :: "string \<Rightarrow> string \<Rightarrow> DeribitOrder list result"
  dr_TradesByOrder :: "string \<Rightarrow> DeribitTrade list result"

record AccountRefresher =
  ac_Refresh :: "venue \<Rightarrow> goerror option"
  ac_Observes :: bool

record ReconService =
  sv_Path :: string
  sv_Bybit :: "BybitReader option"
  sv_Deribit :: "DeribitReader option"
  sv_Accounts :: "AccountRefresher option"
  sv_OnEvent :: bool

record resolution =
  re_status :: TradeStatus
  re_rawStatus :: string
  re_resultStatus :: string
  re_venueOrderID :: string
  re_filledBaseQty :: string
  re_averagePrice :: string
  re_grossSource :: string
  re_grossDestination :: string
  re_fees :: "TradeFee list"
  re_netDestination :: string
  re_actualSource :: string
  re_fillStatus :: string
  re_feeStatus :: string
  re_definitive :: bool

definition zeroResolution :: resolution where
  "zeroResolution = \<lparr>re_status = TradeStatusEmpty, re_rawStatus = [], re_resultStatus = [], re_venueOrderID = [],
     re_filledBaseQty = [], re_averagePrice = [], re_grossSource = [], re_grossDestination = [], re_fees = [],
     re_netDestination = [], re_actualSource = [], re_fillStatus = [], re_feeStatus = [], re_definitive = False\<rparr>"

record fill =
  fl_qty :: "rat option"
  fl_price :: "rat option"
  fl_fee :: "rat option"
  fl_feeAsset :: string

section \<open>Decimals (service.go)\<close>

text \<open>The pairs \<open>(value, ok)\<close> as options: every caller reads the value only when \<open>ok\<close> holds.\<close>

definition nonNegative :: "string \<Rightarrow> rat option" where
  "nonNegative raw =
     (case SetString (TrimSpace raw) of
        None \<Rightarrow> None
      | Some v \<Rightarrow> (if v \<ge> 0 then Some v else None))"

definition positive :: "string \<Rightarrow> rat option" where
  "positive raw =
     (case nonNegative raw of
        None \<Rightarrow> None
      | Some v \<Rightarrow> (if v > 0 then Some v else None))"

definition signedDecimal :: "string \<Rightarrow> rat option" where
  "signedDecimal raw = SetString (TrimSpace raw)"

definition baseAndQuote :: "QuickTrade \<Rightarrow> string \<times> string" where
  "baseAndQuote trade =
     (if q_Side (t_Quote trade) = SideBuy
      then (q_ToAsset (t_Quote trade), q_FromAsset (t_Quote trade))
      else (q_FromAsset (t_Quote trade), q_ToAsset (t_Quote trade)))"

section \<open>Summing the fills (service.go)\<close>

type_synonym feeMap = "(string \<times> string, rat) gomap"

definition addFee :: "fill \<Rightarrow> feeMap \<Rightarrow> feeMap result" where
  "addFee item fees =
     (case fl_fee item of
        None \<Rightarrow> Inr fees
      | Some fee \<Rightarrow>
          (if fee = 0 then Inr fees
           else
             (let asset = ToUpper (TrimSpace (fl_feeAsset item));
                  key = (asset, if fee < 0 then ''rebate'' else ''fee'') in
              if asset = [] then Inl (EText ''venue execution fee asset is missing'')
              else Inr (gput key ((case gget fees key of None \<Rightarrow> 0 | Some v \<Rightarrow> v) + \<bar>fee\<bar>) fees))))"

text \<open>The loop over the fills: base quantity, quote amount and fees by asset and kind.\<close>

fun addFills :: "fill list \<Rightarrow> rat \<times> rat \<times> feeMap \<Rightarrow> (rat \<times> rat \<times> feeMap) result" where
  "addFills [] acc = Inr acc"
| "addFills (item # items) acc =
     (case (fl_qty item, fl_price item, acc) of
        (Some qty, Some price, filled, quoteTotal, fees) \<Rightarrow>
          (if qty \<le> 0 \<or> price \<le> 0 then Inl (EText ''venue execution contains invalid quantity or price'')
           else rbind (addFee item fees) (\<lambda>fees'. addFills items (filled + qty, quoteTotal + qty * price, fees')))
      | _ \<Rightarrow> Inl (EText ''venue execution contains invalid quantity or price''))"

definition feeList :: "feeMap \<Rightarrow> TradeFee list" where
  "feeList fees =
     map (\<lambda>key. \<lparr>tf_Asset = fst key, tf_Amount = decimalString (case gget fees key of None \<Rightarrow> 0 | Some v \<Rightarrow> v),
                 tf_Kind = snd key\<rparr>) (sort (map fst fees))"

definition summary :: "string \<Rightarrow> rat \<Rightarrow> rat \<times> rat \<times> feeMap \<Rightarrow> resolution" where
  "summary side requestedQty agg =
     (case agg of (filled, quoteTotal, fees) \<Rightarrow>
       (let result = zeroResolution\<lparr>re_filledBaseQty := decimalString filled, re_fillStatus := ''COMPLETE'', re_feeStatus := ''COMPLETE''\<rparr> in
       if filled = 0 then result
       else
         (let source = decimalString (if side = SideBuy then quoteTotal else filled);
              destination = decimalString (if side = SideBuy then filled else quoteTotal) in
          result\<lparr>re_averagePrice := decimalString (quoteTotal / filled), re_grossSource := source, re_grossDestination := destination,
            re_netDestination := destination, re_actualSource := source, re_fees := feeList fees,
            re_status := (if filled \<ge> requestedQty then TradeFilled else TradeStatusEmpty)\<rparr>)))"

definition summarizeFills :: "string \<Rightarrow> string \<Rightarrow> fill list \<Rightarrow> resolution result" where
  "summarizeFills side requested fills =
     (case positive requested of
        None \<Rightarrow> Inl (EText ''trade requested quantity is invalid'')
      | Some requestedQty \<Rightarrow> rbind (addFills fills (0, 0, [])) (\<lambda>agg. Inr (summary side requestedQty agg)))"

text \<open>One fee of the loop of \<open>applyAssets\<close>, on the net destination and the actual source.\<close>

definition applyFee :: "string \<Rightarrow> string \<Rightarrow> TradeFee \<Rightarrow> string \<times> string \<Rightarrow> string \<times> string" where
  "applyFee source destination fee acc =
     (case nonNegative (tf_Amount fee) of
        None \<Rightarrow> acc
      | Some a \<Rightarrow>
          (let amount = (if tf_Kind fee = ''rebate'' then - a else a);
               net = (if tf_Asset fee = destination
                      then (case nonNegative (fst acc) of
                              None \<Rightarrow> fst acc
                            | Some v \<Rightarrow> decimalString (if v - amount < 0 then 0 else v - amount))
                      else fst acc);
               actual = (if tf_Asset fee = source
                         then (case nonNegative (snd acc) of
                                 None \<Rightarrow> snd acc
                               | Some v \<Rightarrow> decimalString (v + amount))
                         else snd acc) in
           (net, actual)))"

definition applyAssets :: "resolution \<Rightarrow> string \<Rightarrow> string \<Rightarrow> string \<Rightarrow> resolution" where
  "applyAssets result side base quote =
     (let source = (if side = SideBuy then quote else base);
          destination = (if side = SideBuy then base else quote);
          net = (if re_netDestination result = [] then re_grossDestination result else re_netDestination result);
          actual = (if re_actualSource result = [] then re_grossSource result else re_actualSource result);
          acc = fold (applyFee source destination) (re_fees result) (net, actual) in
      result\<lparr>re_netDestination := fst acc, re_actualSource := snd acc\<rparr>)"

section \<open>Bybit (bybit.go)\<close>

definition maxReconciliationPages :: nat where
  "maxReconciliationPages = 20"

text \<open>
  The paging loop of \<open>loadBybitOrderPages\<close> and \<open>bybitExecutions\<close>, which differ in the text of their errors
  and in the check of the context. \<open>fuel\<close> counts the pages left, from \<open>maxReconciliationPages\<close> down.
\<close>

fun cursorPages :: "(nat \<Rightarrow> goerror option) \<Rightarrow> string \<Rightarrow> (string \<Rightarrow> 'a page result) \<Rightarrow> nat \<Rightarrow> string \<Rightarrow> string list \<Rightarrow> 'a list \<Rightarrow> 'a list result" where
  "cursorPages ctx what load 0 cursor seen acc = Inl (EText (what @ '' pagination exceeded safety limit''))"
| "cursorPages ctx what load (Suc fuel) cursor seen acc =
     (case ctx fuel of
        Some e \<Rightarrow> Inl e
      | None \<Rightarrow>
          rbind (load cursor) (\<lambda>page.
            if snd page = [] then Inr (acc @ fst page)
            else if snd page = cursor \<or> snd page \<in> set seen then Inl (EText (what @ '' pagination did not advance''))
            else cursorPages ctx what load fuel (snd page) (snd page # seen) (acc @ fst page)))"

definition loadBybitOrderPages :: "(nat \<Rightarrow> goerror option) \<Rightarrow> (string \<Rightarrow> BybitOrder page result) \<Rightarrow> BybitOrder list result" where
  "loadBybitOrderPages ctx load = cursorPages ctx ''Bybit order'' load maxReconciliationPages [] [] []"

definition matchesBybit :: "QuickTrade \<Rightarrow> BybitOrder \<Rightarrow> bool" where
  "matchesBybit trade ord \<longleftrightarrow>
     (t_VenueOrderID trade \<noteq> [] \<and> bo_OrderID ord = t_VenueOrderID trade) \<or> bo_OrderLinkID ord = t_ClientOrderID trade"

definition hasMatchingBybitOrder :: "BybitOrder list \<Rightarrow> QuickTrade \<Rightarrow> bool" where
  "hasMatchingBybitOrder orders trade = list_ex (matchesBybit trade) orders"

definition bybitOrders :: "BybitReader \<Rightarrow> QuickTrade \<Rightarrow> BybitOrder list result" where
  "bybitOrders r trade =
     (let instrument = q_Instrument (t_Quote trade); oid = t_VenueOrderID trade; cid = t_ClientOrderID trade in
      case br_OrdersPage r of
        None \<Rightarrow> br_Orders r instrument oid cid
      | Some pager \<Rightarrow>
          (case loadBybitOrderPages (br_Ctx r) (pager instrument oid cid) of
             Inl e \<Rightarrow> Inl e
           | Inr orders \<Rightarrow>
               (if hasMatchingBybitOrder orders trade then Inr orders
                else case br_OrderHistoryPage r of
                    None \<Rightarrow> Inr orders
                  | Some history \<Rightarrow> loadBybitOrderPages (br_Ctx r) (history instrument oid cid))))"

definition bybitExecutions :: "BybitReader \<Rightarrow> QuickTrade \<Rightarrow> BybitExecution list result" where
  "bybitExecutions r trade =
     (let instrument = q_Instrument (t_Quote trade); oid = t_VenueOrderID trade; cid = t_ClientOrderID trade in
      case br_ExecutionsPage r of
        None \<Rightarrow> br_Executions r instrument oid cid
      | Some pager \<Rightarrow>
          cursorPages (\<lambda>_. None) ''Bybit execution'' (pager instrument oid cid) maxReconciliationPages [] [] [])"

definition bybitFill :: "BybitExecution \<Rightarrow> fill result" where
  "bybitFill x =
     (case (positive (be_ExecQty x), positive (be_ExecPrice x)) of
        (Some qty, Some price) \<Rightarrow>
          (if TrimSpace (be_ExecFee x) = []
           then Inr \<lparr>fl_qty = Some qty, fl_price = Some price, fl_fee = Some 0, fl_feeAsset = be_FeeCurrency x\<rparr>
           else case signedDecimal (be_ExecFee x) of
               None \<Rightarrow> Inl (EText ''Bybit execution fee is invalid'')
             | Some v \<Rightarrow> Inr \<lparr>fl_qty = Some qty, fl_price = Some price, fl_fee = Some v, fl_feeAsset = be_FeeCurrency x\<rparr>)
      | _ \<Rightarrow> Inl (EText ''Bybit execution contains invalid decimals''))"

fun bybitFills :: "QuickTrade \<Rightarrow> BybitExecution list \<Rightarrow> fill list result" where
  "bybitFills trade [] = Inr []"
| "bybitFills trade (x # xs) =
     (if be_OrderLinkID x \<noteq> t_ClientOrderID trade \<and> (t_VenueOrderID trade = [] \<or> be_OrderID x \<noteq> t_VenueOrderID trade)
      then bybitFills trade xs
      else rbind (bybitFill x) (\<lambda>fl. rbind (bybitFills trade xs) (\<lambda>fls. Inr (fl # fls))))"

text \<open>What both venues do with a filled or a cancelled order.\<close>

definition resolveFilled :: "resolution \<Rightarrow> resolution" where
  "resolveFilled result =
     (let r = result\<lparr>re_status := TradeFilled, re_resultStatus := ''FILLED'', re_definitive := True\<rparr> in
      if re_status result = TradeFilled then r else r\<lparr>re_fillStatus := ''INCOMPLETE'', re_feeStatus := ''INCOMPLETE''\<rparr>)"

definition hasFills :: "resolution \<Rightarrow> bool" where
  "hasFills result \<longleftrightarrow> re_filledBaseQty result \<noteq> [] \<and> re_filledBaseQty result \<noteq> ''0''"

definition resolveCancelled :: "resolution \<Rightarrow> resolution" where
  "resolveCancelled result =
     result\<lparr>re_status := TradeCancelled,
       re_resultStatus := (if hasFills result then ''PARTIALLY_FILLED_CANCELLED'' else ''CANCELLED_NO_FILL''), re_definitive := True\<rparr>"

definition applyBybitOrderStatus :: "resolution \<Rightarrow> string \<Rightarrow> resolution" where
  "applyBybitOrderStatus result raw =
     (let s = ToLower raw in
      if s = ''filled'' then resolveFilled result
      else if s = ''cancelled'' \<or> s = ''deactivated'' then resolveCancelled result
      else if s = ''partiallyfilledcanceled'' \<or> s = ''partiallyfilledcancelled''
      then result\<lparr>re_status := TradeCancelled, re_resultStatus := ''PARTIALLY_FILLED_CANCELLED'', re_definitive := True\<rparr>
      else if s = ''rejected'' then result\<lparr>re_status := TradeRejected, re_resultStatus := ''REJECTED'', re_definitive := True\<rparr>
      else if s = ''partiallyfilled'' then result\<lparr>re_status := TradePartiallyFilled, re_resultStatus := ''PARTIALLY_FILLED''\<rparr>
      else if s = ''new'' \<or> s = ''created'' \<or> s = ''untriggered''
      then result\<lparr>re_status := TradeAccepted, re_resultStatus := ''ACCEPTED''\<rparr>
      else result\<lparr>re_status := TradeUnknown, re_resultStatus := ''OUTCOME_UNKNOWN''\<rparr>)"

text \<open>The end of \<open>recheckBybit\<close>: no matching order, or the one that matched.\<close>

definition settleBybit :: "resolution \<Rightarrow> BybitOrder list \<Rightarrow> resolution" where
  "settleBybit result matched =
     (case matched of
        [] \<Rightarrow> result\<lparr>re_status := TradeUnknown, re_resultStatus := ''OUTCOME_UNKNOWN'', re_fillStatus := ''INCOMPLETE'',
                 re_feeStatus := ''INCOMPLETE''\<rparr>
      | ord # _ \<Rightarrow> applyBybitOrderStatus (result\<lparr>re_venueOrderID := bo_OrderID ord, re_rawStatus := bo_OrderStatus ord\<rparr>) (bo_OrderStatus ord))"

text \<open>The fills of a trade summed up, with the fees applied to its two assets.\<close>

definition summarizeTrade :: "QuickTrade \<Rightarrow> fill list \<Rightarrow> resolution result" where
  "summarizeTrade trade fills =
     rbind (summarizeFills (q_Side (t_Quote trade)) (q_BaseQty (t_Quote trade)) fills) (\<lambda>result.
       case baseAndQuote trade of (base, quote) \<Rightarrow> Inr (applyAssets result (q_Side (t_Quote trade)) base quote))"

definition recheckBybit :: "BybitReader option \<Rightarrow> QuickTrade \<Rightarrow> resolution result" where
  "recheckBybit reader trade =
     (case reader of
        None \<Rightarrow> Inl (EText ''Bybit reconciliation client is unavailable'')
      | Some r \<Rightarrow>
          rbind (bybitOrders r trade) (\<lambda>orders.
          rbind (bybitExecutions r trade) (\<lambda>executions.
            let matched = filter (matchesBybit trade) orders in
            if length matched > 1 then Inl (EText ''multiple Bybit orders match one VenueWire intent'')
            else rbind (bybitFills trade executions) (\<lambda>fills.
                 rbind (summarizeTrade trade fills) (\<lambda>result. Inr (settleBybit result matched))))))"

section \<open>Deribit (deribit.go)\<close>

definition deribitFill :: "DeribitTrade \<Rightarrow> fill result" where
  "deribitFill x =
     (case (positive (dt_Amount x), positive (dt_Price x)) of
        (Some qty, Some price) \<Rightarrow>
          (case signedDecimal (dt_Fee x) of
             None \<Rightarrow>
               (if TrimSpace (dt_Fee x) \<noteq> [] then Inl (EText ''Deribit trade fee is invalid'')
                else Inr \<lparr>fl_qty = Some qty, fl_price = Some price, fl_fee = Some 0, fl_feeAsset = dt_FeeCurrency x\<rparr>)
           | Some v \<Rightarrow> Inr \<lparr>fl_qty = Some qty, fl_price = Some price, fl_fee = Some v, fl_feeAsset = dt_FeeCurrency x\<rparr>)
      | _ \<Rightarrow> Inl (EText ''Deribit trade contains invalid decimals''))"

fun deribitFills :: "DeribitTrade list \<Rightarrow> fill list result" where
  "deribitFills [] = Inr []"
| "deribitFills (x # xs) = rbind (deribitFill x) (\<lambda>fl. rbind (deribitFills xs) (\<lambda>fls. Inr (fl # fls)))"

definition applyDeribitOrderStatus :: "resolution \<Rightarrow> string \<Rightarrow> resolution" where
  "applyDeribitOrderStatus result raw =
     (let s = ToLower raw in
      if s = ''filled'' then resolveFilled result
      else if s = ''cancelled'' then resolveCancelled result
      else if s = ''rejected'' then result\<lparr>re_status := TradeRejected, re_resultStatus := ''REJECTED'', re_definitive := True\<rparr>
      else if s = ''open'' \<or> s = ''untriggered'' then
        (if hasFills result then result\<lparr>re_status := TradePartiallyFilled, re_resultStatus := ''PARTIALLY_FILLED''\<rparr>
         else result\<lparr>re_status := TradeAccepted, re_resultStatus := ''ACCEPTED''\<rparr>)
      else result\<lparr>re_status := TradeUnknown, re_resultStatus := ''OUTCOME_UNKNOWN''\<rparr>)"

definition deribitOrders :: "DeribitReader \<Rightarrow> QuickTrade \<Rightarrow> DeribitOrder list result" where
  "deribitOrders r trade =
     (if t_VenueOrderID trade \<noteq> [] then rbind (dr_OrderState r (t_VenueOrderID trade)) (\<lambda>ord. Inr [ord])
      else dr_OrdersByLabel r (q_Instrument (t_Quote trade)) (t_ClientOrderID trade))"

definition matchesDeribit :: "QuickTrade \<Rightarrow> DeribitOrder \<Rightarrow> bool" where
  "matchesDeribit trade ord \<longleftrightarrow>
     do_OrderID ord \<noteq> [] \<and> do_InstrumentName ord = q_Instrument (t_Quote trade) \<and>
     (do_Label ord = [] \<or> do_Label ord = t_ClientOrderID trade)"

definition recheckDeribit :: "DeribitReader option \<Rightarrow> QuickTrade \<Rightarrow> resolution result" where
  "recheckDeribit reader trade =
     (case reader of
        None \<Rightarrow> Inl (EText ''Deribit reconciliation client is unavailable'')
      | Some r \<Rightarrow>
          rbind (deribitOrders r trade) (\<lambda>orders.
            case orders of
              [] \<Rightarrow> Inr (zeroResolution\<lparr>re_status := TradeUnknown, re_resultStatus := ''OUTCOME_UNKNOWN'',
                          re_fillStatus := ''INCOMPLETE'', re_feeStatus := ''INCOMPLETE''\<rparr>)
            | [ord] \<Rightarrow>
                (if \<not> matchesDeribit trade ord
                 then Inl (EText ''Deribit order evidence does not match the VenueWire intent'')
                 else rbind (dr_TradesByOrder r (do_OrderID ord)) (\<lambda>trades.
                      rbind (deribitFills trades) (\<lambda>fills.
                      rbind (summarizeTrade trade fills) (\<lambda>result.
                        Inr (applyDeribitOrderStatus
                          (result\<lparr>re_venueOrderID := do_OrderID ord, re_rawStatus := do_OrderState ord\<rparr>) (do_OrderState ord))))))
            | _ \<Rightarrow> Inl (EText ''multiple Deribit orders match one VenueWire intent'')))"

section \<open>Rechecking a trade (service.go)\<close>

datatype ReconEvent =
    UpdateReconciliation venue string bool time
  | Refreshed venue
  | TradeUpdated venue string time

record ReconState =
  rs_File :: "IntentSnapshot disk"
  rs_Events :: "ReconEvent list"

text \<open>The faults of the three accesses to the store.\<close>

record RecheckEnv =
  rv_Get :: Env
  rv_Update :: Env
  rv_Sync :: Env

definition recheckVenue :: "ReconService \<Rightarrow> QuickTrade \<Rightarrow> resolution result" where
  "recheckVenue s trade =
     (if q_Venue (t_Quote trade) = VenueBybit then recheckBybit (sv_Bybit s) trade
      else if q_Venue (t_Quote trade) = VenueDeribit then recheckDeribit (sv_Deribit s) trade
      else Inl (EText ''trade has unsupported venue''))"

definition resolutionUpdate :: "QuickTrade \<Rightarrow> resolution \<Rightarrow> QuickTradeUpdate" where
  "resolutionUpdate trade r =
     (let changed = (re_status r \<noteq> TradeStatusEmpty \<and> re_status r \<noteq> t_Status trade);
          unknown = (re_status r = TradeUnknown) in
      zeroUpdate\<lparr>u_RawVenueStatus := re_rawStatus r, u_ResultStatus := re_resultStatus r, u_VenueOrderID := re_venueOrderID r,
        u_FilledBaseQty := re_filledBaseQty r, u_AveragePrice := re_averagePrice r, u_GrossSourceSpent := re_grossSource r,
        u_GrossDestinationReceived := re_grossDestination r, u_Fees := (if re_fees r = [] then None else Some (re_fees r)),
        u_NetDestinationReceived := re_netDestination r, u_ActualSourceDebit := re_actualSource r,
        u_FillDetailsStatus := re_fillStatus r, u_FeeDetailsStatus := re_feeStatus r, u_Checked := True,
        u_Status := (if changed then re_status r else TradeStatusEmpty),
        u_PublicError := (if unknown then ''The venue outcome is not yet conclusive. Recheck later.'' else []),
        u_LifecycleDetail :=
          (if unknown then ''Recheck did not find conclusive terminal venue evidence.''
           else if changed then ''Authoritative venue order and execution evidence was reconciled.'' else []),
        u_ClearPublicError := re_definitive r,
        u_BalanceSyncStatus := (if TradeStatus_Terminal (re_status r) then ''PENDING'' else [])\<rparr>)"

definition notSubmittedUpdate :: QuickTradeUpdate where
  "notSubmittedUpdate = zeroUpdate\<lparr>u_Status := TradeRejected, u_ResultStatus := ''NOT_SUBMITTED_AFTER_RESTART'',
     u_LifecycleDetail := ''The durable intent was recovered before any venue send attempt.'',
     u_ClearPublicError := True, u_Checked := True\<rparr>"

text \<open>After the first update: refresh the balances of a settled trade, and tell the listener.\<close>

definition syncBalances :: "ReconService \<Rightarrow> RecheckEnv \<Rightarrow> QuickTrade \<Rightarrow> resolution \<Rightarrow> string \<Rightarrow> time \<Rightarrow> QuickTrade \<Rightarrow> ReconState
    \<Rightarrow> QuickTrade result \<times> ReconState" where
  "syncBalances s env trade r intentID now updated st =
     (case sv_Accounts s of
        None \<Rightarrow> (Inr updated, st)
      | Some acc \<Rightarrow>
          (if \<not> TradeStatus_Terminal (re_status r) then (Inr updated, st)
           else
             (let status = (if ac_Refresh acc (q_Venue (t_Quote trade)) = None then ''SYNCED'' else ''STALE'') in
              case UpdateQuickTrade (sv_Path s) (rv_Sync env) intentID
                     (zeroUpdate\<lparr>u_BalanceSyncStatus := status, u_Checked := True\<rparr>) now (rs_File st) of
                ((e, t), f') \<Rightarrow>
                  ((case (e, t) of (None, Some t') \<Rightarrow> Inr t' | (Some e', _) \<Rightarrow> Inl e' | _ \<Rightarrow> Inl (EText [])),
                   \<lparr>rs_File = f', rs_Events = rs_Events st @ [Refreshed (q_Venue (t_Quote trade))]\<rparr>))))"

definition emitUpdated :: "ReconService \<Rightarrow> QuickTrade \<Rightarrow> string \<Rightarrow> time \<Rightarrow> QuickTrade result \<times> ReconState \<Rightarrow> QuickTrade result \<times> ReconState" where
  "emitUpdated s trade intentID now out =
     (case out of (res, st) \<Rightarrow>
       (res, if sv_OnEvent s \<and> \<not> isl res
             then st\<lparr>rs_Events := rs_Events st @ [TradeUpdated (q_Venue (t_Quote trade)) intentID now]\<rparr> else st))"

definition storeResolution :: "ReconService \<Rightarrow> RecheckEnv \<Rightarrow> QuickTrade \<Rightarrow> resolution \<Rightarrow> string \<Rightarrow> time \<Rightarrow> ReconState
    \<Rightarrow> QuickTrade result \<times> ReconState" where
  "storeResolution s env trade r intentID now st =
     (case UpdateQuickTrade (sv_Path s) (rv_Update env) intentID (resolutionUpdate trade r) now (rs_File st) of
        ((None, Some updated), f') \<Rightarrow>
          emitUpdated s trade intentID now (syncBalances s env trade r intentID now updated (st\<lparr>rs_File := f'\<rparr>))
      | ((Some e, _), f') \<Rightarrow> (Inl e, st\<lparr>rs_File := f'\<rparr>)
      | ((None, None), f') \<Rightarrow> (Inl (EText []), st\<lparr>rs_File := f'\<rparr>))"

text \<open>The body of \<open>RecheckTrade\<close> between the two notices to the observer.\<close>

definition recheckBody :: "ReconService \<Rightarrow> RecheckEnv \<Rightarrow> QuickTrade \<Rightarrow> string \<Rightarrow> time \<Rightarrow> ReconState \<Rightarrow> QuickTrade result \<times> ReconState" where
  "recheckBody s env trade intentID now st =
     (if t_Status trade = TradeCreated \<and> \<not> t_SendAttempted trade
      then (case UpdateQuickTrade (sv_Path s) (rv_Update env) intentID notSubmittedUpdate now (rs_File st) of
              ((None, Some t), f') \<Rightarrow> (Inr t, st\<lparr>rs_File := f'\<rparr>)
            | ((Some e, _), f') \<Rightarrow> (Inl e, st\<lparr>rs_File := f'\<rparr>)
            | ((None, None), f') \<Rightarrow> (Inl (EText []), st\<lparr>rs_File := f'\<rparr>))
      else case recheckVenue s trade of
          Inl e \<Rightarrow> (Inl (EProvider ''VENUE_RECOVERING'' ''Venue evidence could not be checked yet.'' e), st)
        | Inr r \<Rightarrow> storeResolution s env trade r intentID now st)"

definition discrepancy :: "QuickTrade \<Rightarrow> QuickTrade result \<Rightarrow> bool" where
  "discrepancy trade res =
     (case res of
        Inl _ \<Rightarrow> False
      | Inr t \<Rightarrow> (t_Status trade = TradeUnknown \<and> TradeStatus_Terminal (t_Status t)) \<or>
                 (TradeStatus_Terminal (t_Status trade) \<and> t_Status t \<noteq> t_Status trade))"

definition observes :: "ReconService \<Rightarrow> bool" where
  "observes s = (case sv_Accounts s of None \<Rightarrow> False | Some acc \<Rightarrow> ac_Observes acc)"

definition RecheckTrade :: "ReconService \<Rightarrow> RecheckEnv \<Rightarrow> string \<Rightarrow> time \<Rightarrow> ReconState \<Rightarrow> QuickTrade result \<times> ReconState" where
  "RecheckTrade s env intentID now st =
     (case GetQuickTrade (rv_Get env) intentID (rs_File st) of
        Inl e \<Rightarrow> (Inl e, st)
      | Inr trade \<Rightarrow>
          (let v = q_Venue (t_Quote trade) in
           if observes s then
             (case recheckBody s env trade intentID now
                     (st\<lparr>rs_Events := rs_Events st @ [UpdateReconciliation v ''RUNNING'' False now]\<rparr>) of
                (res, st') \<Rightarrow>
                  (res, st'\<lparr>rs_Events := rs_Events st' @
                     [UpdateReconciliation v (if isl res then ''ERROR'' else ''SYNCED'') (discrepancy trade res) now]\<rparr>))
           else recheckBody s env trade intentID now st))"

text \<open>\<open>Recover\<close>: the errors it joins, each with the trade it is about.\<close>

fun recoverLoop :: "ReconService \<Rightarrow> (string \<Rightarrow> RecheckEnv) \<Rightarrow> time \<Rightarrow> QuickTrade list \<Rightarrow> ReconState \<Rightarrow> goerror list \<times> ReconState" where
  "recoverLoop s envs now [] st = ([], st)"
| "recoverLoop s envs now (trade # trades) st =
     (if \<not> TradeStatus_Active (t_Status trade) then recoverLoop s envs now trades st
      else case RecheckTrade s (envs (t_ID trade)) (t_ID trade) now st of
          (res, st1) \<Rightarrow>
            (case recoverLoop s envs now trades st1 of
               (errs, st2) \<Rightarrow> ((case res of Inl e \<Rightarrow> EWrap (''recheck '' @ t_ID trade) e # errs | Inr _ \<Rightarrow> errs), st2)))"

definition Recover :: "ReconService \<Rightarrow> Env \<Rightarrow> (string \<Rightarrow> RecheckEnv) \<Rightarrow> time \<Rightarrow> ReconState \<Rightarrow> goerror list \<times> ReconState" where
  "Recover s env envs now st =
     (case ListQuickTrades env (rs_File st) of
        Inl e \<Rightarrow> ([e], st)
      | Inr trades \<Rightarrow> recoverLoop s envs now trades st)"

section \<open>A recheck step by step\<close>

text \<open>
  A recheck runs beside confirmations, other processes and other writers of the store. \<open>recheckStep\<close> performs one access to the store, or the questions
  to the venue, or the refresh of the balances, with the local code up to the next one. \<open>RecheckTrade\<close> is what the steps do when nothing comes between.
\<close>

datatype RecheckPc =
    RcGet
  | RcNotSent QuickTrade
  | RcVenue QuickTrade
  | RcStore QuickTrade resolution
  | RcRefresh QuickTrade AccountRefresher
  | RcSync QuickTrade string
  | RcDone "QuickTrade result"

text \<open>Returning: the listener is told of a success after the last write, and the observer of any outcome.\<close>

definition recheckReturn :: "ReconService \<Rightarrow> QuickTrade \<Rightarrow> time \<Rightarrow> QuickTrade result \<times> ReconState \<Rightarrow> RecheckPc \<times> ReconState" where
  "recheckReturn s trade now out =
     (case out of (res, st) \<Rightarrow>
       (RcDone res,
        if observes s
        then st\<lparr>rs_Events := rs_Events st @
               [UpdateReconciliation (q_Venue (t_Quote trade)) (if isl res then ''ERROR'' else ''SYNCED'') (discrepancy trade res) now]\<rparr>
        else st))"

definition recheckStep :: "ReconService \<Rightarrow> RecheckEnv \<Rightarrow> string \<Rightarrow> time \<Rightarrow> RecheckPc \<Rightarrow> ReconState \<Rightarrow> RecheckPc \<times> ReconState" where
  "recheckStep s env intentID now pc st =
     (case pc of
        RcGet \<Rightarrow>
          (case GetQuickTrade (rv_Get env) intentID (rs_File st) of
             Inl e \<Rightarrow> (RcDone (Inl e), st)
           | Inr trade \<Rightarrow>
               (if t_Status trade = TradeCreated \<and> \<not> t_SendAttempted trade then RcNotSent trade else RcVenue trade,
                if observes s then st\<lparr>rs_Events := rs_Events st @ [UpdateReconciliation (q_Venue (t_Quote trade)) ''RUNNING'' False now]\<rparr> else st))
      | RcNotSent trade \<Rightarrow>
          (case UpdateQuickTrade (sv_Path s) (rv_Update env) intentID notSubmittedUpdate now (rs_File st) of
             ((None, Some t), f') \<Rightarrow> recheckReturn s trade now (Inr t, st\<lparr>rs_File := f'\<rparr>)
           | ((Some e, _), f') \<Rightarrow> recheckReturn s trade now (Inl e, st\<lparr>rs_File := f'\<rparr>)
           | ((None, None), f') \<Rightarrow> recheckReturn s trade now (Inl (EText []), st\<lparr>rs_File := f'\<rparr>))
      | RcVenue trade \<Rightarrow>
          (case recheckVenue s trade of
             Inl e \<Rightarrow> recheckReturn s trade now (Inl (EProvider ''VENUE_RECOVERING'' ''Venue evidence could not be checked yet.'' e), st)
           | Inr r \<Rightarrow> (RcStore trade r, st))
      | RcStore trade r \<Rightarrow>
          (case UpdateQuickTrade (sv_Path s) (rv_Update env) intentID (resolutionUpdate trade r) now (rs_File st) of
             ((None, Some updated), f') \<Rightarrow>
               (case sv_Accounts s of
                  None \<Rightarrow> recheckReturn s trade now (emitUpdated s trade intentID now (Inr updated, st\<lparr>rs_File := f'\<rparr>))
                | Some acc \<Rightarrow>
                    (if \<not> TradeStatus_Terminal (re_status r)
                     then recheckReturn s trade now (emitUpdated s trade intentID now (Inr updated, st\<lparr>rs_File := f'\<rparr>))
                     else (RcRefresh trade acc, st\<lparr>rs_File := f'\<rparr>)))
           | ((Some e, _), f') \<Rightarrow> recheckReturn s trade now (Inl e, st\<lparr>rs_File := f'\<rparr>)
           | ((None, None), f') \<Rightarrow> recheckReturn s trade now (Inl (EText []), st\<lparr>rs_File := f'\<rparr>))
      | RcRefresh trade acc \<Rightarrow>
          (RcSync trade (if ac_Refresh acc (q_Venue (t_Quote trade)) = None then ''SYNCED'' else ''STALE''),
           st\<lparr>rs_Events := rs_Events st @ [Refreshed (q_Venue (t_Quote trade))]\<rparr>)
      | RcSync trade status \<Rightarrow>
          (case UpdateQuickTrade (sv_Path s) (rv_Sync env) intentID (zeroUpdate\<lparr>u_BalanceSyncStatus := status, u_Checked := True\<rparr>) now (rs_File st) of
             ((e, t), f') \<Rightarrow>
               recheckReturn s trade now (emitUpdated s trade intentID now
                 ((case (e, t) of (None, Some t') \<Rightarrow> Inr t' | (Some e', _) \<Rightarrow> Inl e' | _ \<Rightarrow> Inl (EText [])), st\<lparr>rs_File := f'\<rparr>)))
      | RcDone _ \<Rightarrow> (pc, st))"

fun recheckSteps :: "nat \<Rightarrow> ReconService \<Rightarrow> RecheckEnv \<Rightarrow> string \<Rightarrow> time \<Rightarrow> RecheckPc \<Rightarrow> ReconState \<Rightarrow> RecheckPc \<times> ReconState" where
  "recheckSteps 0 s env intentID now pc st = (pc, st)"
| "recheckSteps (Suc n) s env intentID now pc st =
     (case recheckStep s env intentID now pc st of (pc', st') \<Rightarrow> recheckSteps n s env intentID now pc' st')"

lemma recheckSteps_done [simp]: "recheckSteps n s env i now (RcDone res) st = (RcDone res, st)"
  by (induction n) (simp_all add: recheckStep_def)

lemma recheckSteps_end [simp]:
  "(case recheckReturn s trade now out of (pc, st) \<Rightarrow> recheckSteps n s env i now pc st) = recheckReturn s trade now out"
  by (simp add: recheckReturn_def split: prod.split)

lemma storeResolution_steps:
  "recheckSteps (Suc (Suc (Suc n))) s env i now (RcStore trade r) st = recheckReturn s trade now (storeResolution s env trade r i now st)"
proof -
  obtain e u f where u: "UpdateQuickTrade (sv_Path s) (rv_Update env) i (resolutionUpdate trade r) now (rs_File st) = ((e, u), f)"
    by (metis surj_pair)
  show ?thesis
  proof (cases "\<exists>t acc. e = None \<and> u = Some t \<and> sv_Accounts s = Some acc \<and> TradeStatus_Terminal (re_status r)")
    case False
    then show ?thesis
      by (cases e; cases u; cases "sv_Accounts s") (auto simp: recheckStep_def storeResolution_def syncBalances_def u)
  next
    case True
    then obtain t acc where t: "e = None" "u = Some t" "sv_Accounts s = Some acc" "TradeStatus_Terminal (re_status r)" by blast
    let ?status = "if ac_Refresh acc (q_Venue (t_Quote trade)) = None then ''SYNCED'' else ''STALE''"
    obtain e2 t2 f2 where u2: "UpdateQuickTrade (sv_Path s) (rv_Sync env) i (zeroUpdate\<lparr>u_BalanceSyncStatus := ?status, u_Checked := True\<rparr>) now f
        = ((e2, t2), f2)"
      by (metis surj_pair)
    have a: "recheckStep s env i now (RcStore trade r) st = (RcRefresh trade acc, st\<lparr>rs_File := f\<rparr>)"
      by (simp add: recheckStep_def u t)
    have b: "recheckStep s env i now (RcRefresh trade acc) (st\<lparr>rs_File := f\<rparr>) =
        (RcSync trade ?status, st\<lparr>rs_File := f, rs_Events := rs_Events st @ [Refreshed (q_Venue (t_Quote trade))]\<rparr>)"
      by (simp add: recheckStep_def)
    let ?res = "case (e2, t2) of (None, Some t') \<Rightarrow> Inr t' | (Some e', _) \<Rightarrow> Inl e' | _ \<Rightarrow> Inl (EText [])"
    let ?st = "st\<lparr>rs_File := f, rs_Events := rs_Events st @ [Refreshed (q_Venue (t_Quote trade))]\<rparr>"
    have c: "recheckStep s env i now (RcSync trade ?status) ?st =
        recheckReturn s trade now (emitUpdated s trade i now (?res, ?st\<lparr>rs_File := f2\<rparr>))"
      using u2 by (simp add: recheckStep_def del: if_image_distrib)
    have "syncBalances s env trade r i now t (st\<lparr>rs_File := f\<rparr>) = (?res, ?st\<lparr>rs_File := f2\<rparr>)"
      using u2 t by (simp add: syncBalances_def Let_def)
    then have d: "storeResolution s env trade r i now st = emitUpdated s trade i now (?res, ?st\<lparr>rs_File := f2\<rparr>)"
      by (simp add: storeResolution_def u t)
    show ?thesis unfolding recheckSteps.simps a prod.case b c recheckSteps_end d ..
  qed
qed

text \<open>Uninterrupted, the steps are the handler.\<close>

lemma RecheckTrade_steps:
  "recheckSteps (Suc (Suc (Suc (Suc (Suc n))))) s env i now RcGet st =
     (case RecheckTrade s env i now st of (res, st') \<Rightarrow> (RcDone res, st'))"
proof (cases "GetQuickTrade (rv_Get env) i (rs_File st)")
  case (Inl e)
  then show ?thesis by (simp add: recheckStep_def RecheckTrade_def)
next
  case (Inr trade)
  define st0 where "st0 = (if observes s then st\<lparr>rs_Events := rs_Events st @ [UpdateReconciliation (q_Venue (t_Quote trade)) ''RUNNING'' False now]\<rparr> else st)"
  define start where "start = (if t_Status trade = TradeCreated \<and> \<not> t_SendAttempted trade then RcNotSent trade else RcVenue trade)"
  have one: "recheckStep s env i now RcGet st = (start, st0)" by (simp add: recheckStep_def Inr st0_def start_def)
  have "recheckSteps (Suc (Suc (Suc (Suc n)))) s env i now start st0 = recheckReturn s trade now (recheckBody s env trade i now st0)"
  proof (cases "t_Status trade = TradeCreated \<and> \<not> t_SendAttempted trade")
    case True
    obtain e u f where u: "UpdateQuickTrade (sv_Path s) (rv_Update env) i notSubmittedUpdate now (rs_File st0) = ((e, u), f)"
      by (metis surj_pair)
    show ?thesis using True by (cases e; cases u) (simp_all add: start_def recheckStep_def recheckBody_def u)
  next
    case False
    show ?thesis
    proof (cases "recheckVenue s trade")
      case (Inl e)
      have "start = RcVenue trade" using False by (auto simp: start_def)
      moreover have "recheckBody s env trade i now st0 =
          (Inl (EProvider ''VENUE_RECOVERING'' ''Venue evidence could not be checked yet.'' e), st0)"
        using False Inl by (auto simp: recheckBody_def)
      ultimately show ?thesis using Inl by (simp add: recheckStep_def)
    next
      case (Inr r)
      then have v: "recheckStep s env i now (RcVenue trade) st0 = (RcStore trade r, st0)" by (simp add: recheckStep_def)
      have "start = RcVenue trade" "recheckBody s env trade i now st0 = storeResolution s env trade r i now st0"
        using False Inr by (auto simp: start_def recheckBody_def)
      then show ?thesis using storeResolution_steps [of n s env i now trade r st0] v by (simp only: recheckSteps.simps prod.case)
    qed
  qed
  moreover have "(case RecheckTrade s env i now st of (res, st') \<Rightarrow> (RcDone res, st')) = recheckReturn s trade now (recheckBody s env trade i now st0)"
    by (simp add: RecheckTrade_def Inr Let_def st0_def recheckReturn_def split: prod.split)
  ultimately show ?thesis using one by (simp only: recheckSteps.simps(2) [of "Suc (Suc (Suc (Suc n)))"] prod.case)
qed

end
