(* ===== verification/TradeReconcileProps.thy ===== *)
theory TradeReconcileProps
  imports TradeReconcile IntentProps
begin

text \<open>
  What the reconciliation promises: paging returns the whole list or an error, the summary of the fills is
  exact, and a recheck among other activity gives a trade a final status only on the evidence of the one order that matches it, or when the
  trade it read had not been sent.
\<close>

section \<open>Paging\<close>

lemma cursorPages_chain:
  assumes "c = [] \<and> seen = [] \<or> c \<in> set seen"
  shows "cursorPages (\<lambda>_. None) what load fuel c seen acc = Inr r \<longleftrightarrow>
    (\<exists>cs ys. pageChain load c cs ys \<and> r = acc @ ys \<and> length cs \<le> fuel \<and> distinct cs \<and> set (tl cs) \<inter> set seen = {})"
  using assms
proof (induction fuel arbitrary: c seen acc)
  case 0
  then show ?case using pageChain_hd by fastforce
next
  case (Suc fuel)
  show ?case
  proof (cases "load c")
    case (Inl e)
    then show ?thesis by (simp add: pageChain_iff [of load c])
  next
    case (Inr page)
    obtain xs n where page: "page = (xs, n)" by (metis surj_pair)
    show ?thesis
    proof (cases "n = []")
      case True
      then have "pageChain load c cs ys \<longleftrightarrow> cs = [c] \<and> ys = xs" for cs ys
        using Inr page by (auto simp: pageChain_iff [of load c])
      then show ?thesis using Inr page True by auto
    next
      case False
      have IH: "cursorPages (\<lambda>_. None) what load fuel n (n # seen) (acc @ xs) = Inr r \<longleftrightarrow>
        (\<exists>cs ys. pageChain load n cs ys \<and> r = (acc @ xs) @ ys \<and> length cs \<le> fuel \<and> distinct cs \<and> set (tl cs) \<inter> set (n # seen) = {})"
        by (rule Suc.IH) simp
      have step: "c \<notin> set cs \<and> set cs \<inter> set seen = {} \<longleftrightarrow> n \<noteq> c \<and> n \<notin> set seen \<and> set (tl cs) \<inter> set (n # seen) = {}"
        if "pageChain load n cs ys" "distinct cs" for cs ys
        using pageChain_hd [OF that(1)] that(2) Suc.prems by (cases cs) auto
      have "(\<exists>cs ys. pageChain load c cs ys \<and> r = acc @ ys \<and> length cs \<le> Suc fuel \<and> distinct cs \<and> set (tl cs) \<inter> set seen = {}) \<longleftrightarrow>
        (\<exists>cs ys. pageChain load n cs ys \<and> r = acc @ xs @ ys \<and> length cs \<le> fuel \<and> distinct cs \<and> c \<notin> set cs \<and> set cs \<inter> set seen = {})"
        (is "?l \<longleftrightarrow> ?r")
      proof -
        have chain: "pageChain load c cs zs \<longleftrightarrow> (\<exists>cs' ys. cs = c # cs' \<and> zs = xs @ ys \<and> pageChain load n cs' ys)" for cs zs
          using Inr page False by (auto simp: pageChain_iff [of load c])
        show ?thesis
        proof
          assume ?r
          then obtain cs ys where "pageChain load n cs ys" "r = acc @ xs @ ys" "length cs \<le> fuel" "distinct cs" "c \<notin> set cs" "set cs \<inter> set seen = {}"
            by blast
          then show ?l using chain by (intro exI [of _ "c # cs"] exI [of _ "xs @ ys"]) auto
        qed (auto simp: chain)
      qed
      also have "\<dots> \<longleftrightarrow> n \<noteq> c \<and> n \<notin> set seen \<and>
        (\<exists>cs ys. pageChain load n cs ys \<and> r = acc @ xs @ ys \<and> length cs \<le> fuel \<and> distinct cs \<and> set (tl cs) \<inter> set (n # seen) = {})"
        using step by blast
      finally show ?thesis using Inr page False IH by auto
    qed
  qed
qed

section \<open>Summing fills\<close>

definition fillQty :: "fill \<Rightarrow> rat" where
  "fillQty x = (case fl_qty x of Some v \<Rightarrow> v | None \<Rightarrow> 0)"

definition fillPrice :: "fill \<Rightarrow> rat" where
  "fillPrice x = (case fl_price x of Some v \<Rightarrow> v | None \<Rightarrow> 0)"

definition fillFee :: "fill \<Rightarrow> rat" where
  "fillFee x = (case fl_fee x of Some v \<Rightarrow> v | None \<Rightarrow> 0)"

definition feeKeyOf :: "fill \<Rightarrow> string \<times> string" where
  "feeKeyOf x = (ToUpper (TrimSpace (fl_feeAsset x)), if fillFee x < 0 then ''rebate'' else ''fee'')"

definition charged :: "string \<times> string \<Rightarrow> fill list \<Rightarrow> rat" where
  "charged key fills = (\<Sum>x\<leftarrow>fills. if fillFee x \<noteq> 0 \<and> feeKeyOf x = key then \<bar>fillFee x\<bar> else 0)"

definition chargedKeys :: "fill list \<Rightarrow> (string \<times> string) set" where
  "chargedKeys fills = {feeKeyOf x | x. x \<in> set fills \<and> fillFee x \<noteq> 0}"

definition feeAt :: "feeMap \<Rightarrow> string \<times> string \<Rightarrow> rat" where
  "feeAt m key = (case gget m key of None \<Rightarrow> 0 | Some v \<Rightarrow> v)"

lemma addFee_exact:
  assumes "addFee x m = Inr m'" "gwf m"
  shows "gwf m' \<and> feeAt m' key = feeAt m key + charged key [x] \<and> fst ` set m' = fst ` set m \<union> chargedKeys [x]"
proof (cases "fillFee x = 0")
  case True
  then show ?thesis using assms by (auto simp: addFee_def fillFee_def charged_def chargedKeys_def split: option.splits)
next
  case False
  then have m': "m' = gput (feeKeyOf x) (feeAt m (feeKeyOf x) + \<bar>fillFee x\<bar>) m"
    using assms by (auto simp: addFee_def fillFee_def feeKeyOf_def feeAt_def Let_def split: option.splits if_splits)
  then have "fst ` set m' = insert (feeKeyOf x) (fst ` set m)" by (simp add: dom_update)
  then show ?thesis using False m' assms(2) by (auto simp: feeAt_def gomap_simps charged_def chargedKeys_def)
qed

lemma addFills_exact:
  assumes "addFills fills (f, q, m) = Inr (f', q', m')" "gwf m"
  shows "f' = f + (\<Sum>x\<leftarrow>fills. fillQty x) \<and> q' = q + (\<Sum>x\<leftarrow>fills. fillQty x * fillPrice x) \<and> gwf m' \<and>
    (\<forall>key. feeAt m' key = feeAt m key + charged key fills) \<and> fst ` set m' = fst ` set m \<union> chargedKeys fills \<and>
    (\<forall>x\<in>set fills. 0 < fillQty x \<and> 0 < fillPrice x)"
  using assms
proof (induction fills arbitrary: f q m)
  case Nil
  then show ?case by (simp add: charged_def chargedKeys_def)
next
  case (Cons x xs)
  obtain qty price m1 where x: "fl_qty x = Some qty" "fl_price x = Some price" "0 < qty" "0 < price" "addFee x m = Inr m1"
    "addFills xs (f + qty, q + qty * price, m1) = Inr (f', q', m')"
    using Cons.prems(1) by (auto simp: result_simps split: option.splits if_splits)
  have keys: "chargedKeys (x # xs) = chargedKeys [x] \<union> chargedKeys xs" by (auto simp: chargedKeys_def)
  have sum: "charged key (x # xs) = charged key [x] + charged key xs" for key by (simp add: charged_def)
  have v: "fillQty x = qty" "fillPrice x = price" using x by (simp_all add: fillQty_def fillPrice_def)
  have one: "gwf m1" "\<And>key. feeAt m1 key = feeAt m key + charged key [x]" "fst ` set m1 = fst ` set m \<union> chargedKeys [x]"
    using addFee_exact [OF x(5) Cons.prems(2)] by auto
  then show ?case using Cons.IH [OF x(6) one(1)] x(3,4) v unfolding keys sum by auto
qed

section \<open>The file under an update\<close>

definition tradeAt :: "IntentSnapshot disk \<Rightarrow> string \<Rightarrow> QuickTrade option" where
  "tradeAt f i = (case intentPeek f of None \<Rightarrow> None | Some s \<Rightarrow> gget (s_QuickTrades s) i)"

lemma GetQuickTrade_at: "GetQuickTrade env i f = Inr t \<Longrightarrow> tradeAt f i = Some t"
  using Store_Load_Inr [of env f] by (auto simp: GetQuickTrade_def tradeAt_def result_simps split: option.splits)

lemma UpdateQuickTrade_cases:
  assumes "UpdateQuickTrade path env i u now f = ((e, r), f')"
  shows "f' = f \<or> (\<exists>t t'. tradeAt f i = Some t \<and> applyUpdate u now t = Inr t' \<and> tradeAt f' i = Some t' \<and>
    (\<forall>j. j \<noteq> i \<longrightarrow> tradeAt f' j = tradeAt f j))"
proof -
  consider "f' = f" | s s' x where "intentPeek f = Some s" "updateTradeMutate i (applyUpdate u now) s = Inr (s', x)"
    "f' = FileHolds (intentTouch (ev_Now env) s')"
    using assms Store_update_step unfolding UpdateQuickTrade_def updateQuickTrade_def by blast
  then show ?thesis
  proof cases
    case (2 s s' x)
    obtain t where t: "gget (s_QuickTrades s) i = Some t" "applyUpdate u now t = Inr x"
      "s' = s\<lparr>s_QuickTrades := gput i x (s_QuickTrades s)\<rparr>" using 2(2) by (rule updateTradeMutate_cases)
    have "intentPeek f' = Some (intentTouch (ev_Now env) s')"
      using 2(3) t(3) intentPeek_version [OF 2(1)] by (auto intro!: intentPeek_holds)
    then show ?thesis using 2(1) t by (auto simp: tradeAt_def intentTouch_def gomap_simps)
  qed simp
qed

lemma applyUpdate_status:
  "applyUpdate u now t = Inr t' \<Longrightarrow> t_Status t' = (if u_Status u = TradeStatusEmpty then t_Status t else u_Status u)"
  by (auto simp: applyUpdate_def applyTradeStatus_def Let_def result_simps split: if_splits)

text \<open>A status changes only for the trade of the update, and only to the status it names.\<close>

definition statusAt :: "IntentSnapshot disk \<Rightarrow> string \<Rightarrow> TradeStatus option" where
  "statusAt f i = map_option t_Status (tradeAt f i)"

lemma UpdateQuickTrade_status:
  assumes "UpdateQuickTrade path env i u now f = ((e, r), f')"
  shows "statusAt f' j = statusAt f j \<or> j = i \<and> u_Status u \<noteq> TradeStatusEmpty \<and> statusAt f' i = Some (u_Status u)"
  using UpdateQuickTrade_cases [OF assms]
proof (elim disjE exE conjE)
  fix t t' assume h: "tradeAt f i = Some t" "applyUpdate u now t = Inr t'" "tradeAt f' i = Some t'" "\<forall>j. j \<noteq> i \<longrightarrow> tradeAt f' j = tradeAt f j"
  then show ?thesis using applyUpdate_status [OF h(2)] by (cases "j = i") (auto simp: statusAt_def)
qed simp

section \<open>Evidence\<close>

text \<open>The final status a raw venue status stands for.\<close>

definition bybitFinal :: "string \<Rightarrow> TradeStatus \<Rightarrow> bool" where
  "bybitFinal raw status \<longleftrightarrow>
     status = TradeFilled \<and> ToLower raw = ''filled'' \<or>
     status = TradeCancelled \<and> ToLower raw \<in> {''cancelled'', ''deactivated'', ''partiallyfilledcanceled'', ''partiallyfilledcancelled''} \<or>
     status = TradeRejected \<and> ToLower raw = ''rejected''"

definition deribitFinal :: "string \<Rightarrow> TradeStatus \<Rightarrow> bool" where
  "deribitFinal raw status \<longleftrightarrow>
     status = TradeFilled \<and> ToLower raw = ''filled'' \<or> status = TradeCancelled \<and> ToLower raw = ''cancelled'' \<or>
     status = TradeRejected \<and> ToLower raw = ''rejected''"

text \<open>The venue of a trade shows exactly one order of it, in a state that means the status.\<close>

definition venueEvidence :: "ReconService \<Rightarrow> QuickTrade \<Rightarrow> TradeStatus \<Rightarrow> bool" where
  "venueEvidence s trade status \<longleftrightarrow>
     (q_Venue (t_Quote trade) = VenueBybit \<and>
       (\<exists>r orders ord. sv_Bybit s = Some r \<and> bybitOrders r trade = Inr orders \<and> filter (matchesBybit trade) orders = [ord] \<and>
          bybitFinal (bo_OrderStatus ord) status)) \<or>
     (q_Venue (t_Quote trade) = VenueDeribit \<and>
       (\<exists>r ord. sv_Deribit s = Some r \<and> deribitOrders r trade = Inr [ord] \<and> matchesDeribit trade ord \<and>
          deribitFinal (do_OrderState ord) status))"

lemma applyBybitOrderStatus_final:
  "TradeStatus_Terminal (re_status (applyBybitOrderStatus result raw)) \<Longrightarrow> bybitFinal raw (re_status (applyBybitOrderStatus result raw))"
  by (auto simp: applyBybitOrderStatus_def resolveFilled_def resolveCancelled_def bybitFinal_def TradeStatus_Terminal_def Let_def split: if_splits)

lemma applyDeribitOrderStatus_final:
  "TradeStatus_Terminal (re_status (applyDeribitOrderStatus result raw)) \<Longrightarrow> deribitFinal raw (re_status (applyDeribitOrderStatus result raw))"
  by (auto simp: applyDeribitOrderStatus_def resolveFilled_def resolveCancelled_def deribitFinal_def TradeStatus_Terminal_def Let_def split: if_splits)

lemma recheckBybit_evidence:
  assumes "recheckBybit (sv_Bybit s) trade = Inr r" "TradeStatus_Terminal (re_status r)" "q_Venue (t_Quote trade) = VenueBybit"
  shows "venueEvidence s trade (re_status r)"
proof -
  obtain reader orders result where b: "sv_Bybit s = Some reader" "bybitOrders reader trade = Inr orders"
    "length (filter (matchesBybit trade) orders) \<le> 1" "r = settleBybit result (filter (matchesBybit trade) orders)"
    using assms(1) by (auto simp: recheckBybit_def result_simps Let_def split: option.splits if_splits)
  then obtain ord where o: "filter (matchesBybit trade) orders = [ord]"
    using assms(2) by (cases "filter (matchesBybit trade) orders") (auto simp: settleBybit_def TradeStatus_Terminal_def)
  then have "bybitFinal (bo_OrderStatus ord) (re_status r)"
    using assms(2) b(4) applyBybitOrderStatus_final by (simp add: settleBybit_def)
  then show ?thesis using assms(3) b o by (auto simp: venueEvidence_def)
qed

lemma recheckDeribit_evidence:
  assumes "recheckDeribit (sv_Deribit s) trade = Inr r" "TradeStatus_Terminal (re_status r)" "q_Venue (t_Quote trade) = VenueDeribit"
  shows "venueEvidence s trade (re_status r)"
proof -
  obtain reader ords where d: "sv_Deribit s = Some reader" "deribitOrders reader trade = Inr ords"
    using assms(1) by (auto simp: recheckDeribit_def result_simps split: option.splits)
  obtain ord where o: "ords = [ord]" "matchesDeribit trade ord"
    using assms(1,2) d by (auto simp: recheckDeribit_def TradeStatus_Terminal_def split: list.splits if_splits)
  then obtain result where "r = applyDeribitOrderStatus result (do_OrderState ord)"
    using assms(1) d by (auto simp: recheckDeribit_def result_simps)
  then show ?thesis using assms(2,3) d o applyDeribitOrderStatus_final by (auto simp: venueEvidence_def)
qed

lemma recheckVenue_evidence:
  assumes "recheckVenue s trade = Inr r" "TradeStatus_Terminal (re_status r)"
  shows "venueEvidence s trade (re_status r)"
  using assms recheckBybit_evidence recheckDeribit_evidence by (auto simp: recheckVenue_def split: if_splits)

section \<open>Rechecking\<close>

lemma resolutionUpdate_status:
  "u_Status (resolutionUpdate trade r) \<noteq> TradeStatusEmpty \<Longrightarrow> u_Status (resolutionUpdate trade r) = re_status r"
  by (auto simp: resolutionUpdate_def Let_def zeroUpdate_def split: if_splits)

lemma RecheckTrade_body:
  assumes "RecheckTrade s env i now st = (res, st')"
  shows "(\<exists>e. GetQuickTrade (rv_Get env) i (rs_File st) = Inl e \<and> res = Inl e \<and> st' = st) \<or>
    (\<exists>trade st0 st1. tradeAt (rs_File st) i = Some trade \<and> rs_File st0 = rs_File st \<and> rs_File st1 = rs_File st' \<and>
       GetQuickTrade (rv_Get env) i (rs_File st) = Inr trade \<and> recheckBody s env trade i now st0 = (res, st1))"
proof (cases "GetQuickTrade (rv_Get env) i (rs_File st)")
  case (Inr trade)
  note at = GetQuickTrade_at [OF Inr]
  show ?thesis
  proof (cases "observes s")
    case True
    then obtain st0 st1 where "recheckBody s env trade i now st0 = (res, st1)" "rs_File st0 = rs_File st" "rs_File st' = rs_File st1"
      using assms Inr by (auto simp: RecheckTrade_def Let_def split: prod.splits)
    then show ?thesis using at Inr by metis
  next
    case False
    then show ?thesis using assms Inr at by (auto simp: RecheckTrade_def Let_def)
  qed
next
  case (Inl e)
  then have "RecheckTrade s env i now st = (Inl e, st)" by (simp add: RecheckTrade_def)
  then show ?thesis using assms Inl by simp
qed

section \<open>Rechecks among other activity\<close>

text \<open>
  Rechecks under way, each advancing one step at a time, among themselves and among any other operations of the store: confirmations that dispatch and record,
  other processes, other rechecks. A recheck has the answers of the venues it asks in its service. \<open>seen\<close> are the states the file was in during the run.
\<close>

record RecheckThread =
  rt_Service :: ReconService
  rt_Env :: RecheckEnv
  rt_ID :: string
  rt_Now :: time
  rt_Pc :: RecheckPc

inductive recheck_run :: "string \<Rightarrow> DemoLimits \<Rightarrow> IntentSnapshot disk set \<Rightarrow> ReconState \<Rightarrow> RecheckThread list \<Rightarrow> bool" for path limits where
  start: "intent_reach path limits (rs_File st) \<Longrightarrow> recheck_run path limits {rs_File st} st []"
| begin_recheck: "recheck_run path limits seen st ths \<Longrightarrow> sv_Path s = path \<Longrightarrow>
    recheck_run path limits seen st (ths @ [\<lparr>rt_Service = s, rt_Env = env, rt_ID = i, rt_Now = now, rt_Pc = RcGet\<rparr>])"
| step: "recheck_run path limits seen st (xs @ th # ys) \<Longrightarrow>
    recheckStep (rt_Service th) (rt_Env th) (rt_ID th) (rt_Now th) (rt_Pc th) st = (pc, st') \<Longrightarrow>
    recheck_run path limits (insert (rs_File st') seen) st' (xs @ th\<lparr>rt_Pc := pc\<rparr> # ys)"
| store: "recheck_run path limits seen st ths \<Longrightarrow> intent_step path limits (rs_File st) f' \<Longrightarrow>
    recheck_run path limits (insert f' seen) (st\<lparr>rs_File := f'\<rparr>) ths"

lemma tradeAt_step:
  assumes "intent_step path limits f f'" "intent_reach path limits f" "tradeAt f i = Some t"
  shows "\<exists>t'. tradeAt f' i = Some t' \<and> tradeLater t t'"
proof -
  obtain s where s: "intentPeek f = Some s" "gget (s_QuickTrades s) i = Some t" using assms(3) by (auto simp: tradeAt_def split: option.splits)
  obtain s' where s': "intentPeek f' = Some s'" "snapLater s s'"
    using intent_step_later [OF assms(1) s(1) intent_reach_inv [OF assms(2) s(1)]] by blast
  then show ?thesis using s(2) unfolding tradeAt_def snapLater_def tradesLater_def by simp
qed

text \<open>Where a recheck stands: the trade it has read, and what it has concluded from it.\<close>

fun readTrade :: "RecheckPc \<Rightarrow> QuickTrade option" where
  "readTrade (RcNotSent trade) = Some trade"
| "readTrade (RcVenue trade) = Some trade"
| "readTrade (RcStore trade r) = Some trade"
| "readTrade (RcRefresh trade acc) = Some trade"
| "readTrade (RcSync trade status) = Some trade"
| "readTrade _ = None"

fun concludes :: "ReconService \<Rightarrow> RecheckPc \<Rightarrow> bool" where
  "concludes s (RcNotSent trade) = (t_Status trade = TradeCreated \<and> \<not> t_SendAttempted trade)"
| "concludes s (RcStore trade r) = (recheckVenue s trade = Inr r)"
| "concludes s _ = True"

definition threadOk :: "string \<Rightarrow> IntentSnapshot disk set \<Rightarrow> IntentSnapshot disk \<Rightarrow> RecheckThread \<Rightarrow> bool" where
  "threadOk path seen f th \<longleftrightarrow> sv_Path (rt_Service th) = path \<and> concludes (rt_Service th) (rt_Pc th) \<and>
     (\<forall>trade. readTrade (rt_Pc th) = Some trade \<longrightarrow>
        (\<exists>g\<in>seen. tradeAt g (rt_ID th) = Some trade) \<and> (\<exists>t. tradeAt f (rt_ID th) = Some t \<and> tradeLater trade t))"

lemma emitUpdated_file [simp]: "rs_File (snd (emitUpdated s trade i now out)) = rs_File (snd out)"
  by (auto simp: emitUpdated_def split: prod.splits)

lemma recheckReturn_cases: "recheckReturn s trade now out = (pc, st) \<Longrightarrow> (\<exists>res. pc = RcDone res) \<and> rs_File st = rs_File (snd out)"
  by (auto simp: recheckReturn_def split: prod.splits if_splits)

text \<open>What one step does to the file, and what it leaves the recheck with.\<close>

lemma recheckStep_file:
  assumes "recheckStep s env i now pc st = (pc', st')"
  obtains (same) "rs_File st' = rs_File st"
  | (notSent) trade e r where "pc = RcNotSent trade"
      "UpdateQuickTrade (sv_Path s) (rv_Update env) i notSubmittedUpdate now (rs_File st) = ((e, r), rs_File st')"
  | (settled) trade x e r where "pc = RcStore trade x"
      "UpdateQuickTrade (sv_Path s) (rv_Update env) i (resolutionUpdate trade x) now (rs_File st) = ((e, r), rs_File st')"
  | (synced) u e r where "u_Status u = TradeStatusEmpty"
      "UpdateQuickTrade (sv_Path s) (rv_Sync env) i u now (rs_File st) = ((e, r), rs_File st')"
proof (cases pc)
  case RcGet
  then show ?thesis using assms by (intro same) (auto simp: recheckStep_def split: sum.splits if_splits)
next
  case (RcNotSent trade)
  obtain e r f where u: "UpdateQuickTrade (sv_Path s) (rv_Update env) i notSubmittedUpdate now (rs_File st) = ((e, r), f)" by (metis surj_pair)
  then have "rs_File st' = f" using assms RcNotSent by (cases e; cases r) (auto simp: recheckStep_def dest!: recheckReturn_cases)
  then show ?thesis using notSent RcNotSent u by blast
next
  case (RcVenue trade)
  then show ?thesis using assms by (intro same) (auto simp: recheckStep_def split: sum.splits dest!: recheckReturn_cases)
next
  case (RcStore trade x)
  obtain e r f where u: "UpdateQuickTrade (sv_Path s) (rv_Update env) i (resolutionUpdate trade x) now (rs_File st) = ((e, r), f)"
    by (metis surj_pair)
  then have "rs_File st' = f" using assms RcStore
    by (cases e; cases r) (auto simp: recheckStep_def dest!: recheckReturn_cases split: option.splits if_splits)
  then show ?thesis using settled RcStore u by blast
next
  case (RcRefresh trade acc)
  then show ?thesis using assms by (intro same) (auto simp: recheckStep_def)
next
  case (RcSync trade status)
  let ?u = "zeroUpdate\<lparr>u_BalanceSyncStatus := status, u_Checked := True\<rparr>"
  obtain e r f where u: "UpdateQuickTrade (sv_Path s) (rv_Sync env) i ?u now (rs_File st) = ((e, r), f)" by (metis surj_pair)
  then have "rs_File st' = f" using assms RcSync by (auto simp: recheckStep_def dest!: recheckReturn_cases)
  then show ?thesis using synced [of ?u] u by (auto simp: zeroUpdate_def)
next
  case (RcDone res)
  then show ?thesis using assms by (intro same) (simp add: recheckStep_def)
qed

lemma recheckStep_pc:
  assumes "recheckStep s env i now pc st = (pc', st')" "concludes s pc"
  shows "concludes s pc' \<and> (\<forall>trade. readTrade pc' = Some trade \<longrightarrow>
    readTrade pc = Some trade \<or> tradeAt (rs_File st) i = Some trade \<and> rs_File st' = rs_File st)"
proof (cases pc)
  case RcGet
  then show ?thesis using assms GetQuickTrade_at by (auto simp: recheckStep_def split: sum.splits if_splits)
next
  case (RcNotSent trade)
  obtain e r f where u: "UpdateQuickTrade (sv_Path s) (rv_Update env) i notSubmittedUpdate now (rs_File st) = ((e, r), f)" by (metis surj_pair)
  then show ?thesis using assms RcNotSent by (cases e; cases r) (auto simp: recheckStep_def dest!: recheckReturn_cases)
next
  case (RcVenue trade)
  then show ?thesis using assms by (auto simp: recheckStep_def split: sum.splits dest!: recheckReturn_cases)
next
  case (RcStore trade x)
  obtain e r f where u: "UpdateQuickTrade (sv_Path s) (rv_Update env) i (resolutionUpdate trade x) now (rs_File st) = ((e, r), f)"
    by (metis surj_pair)
  then show ?thesis using assms RcStore
    by (cases e; cases r) (auto simp: recheckStep_def dest!: recheckReturn_cases split: option.splits if_splits)
next
  case (RcSync trade status)
  then show ?thesis using assms by (auto simp: recheckStep_def dest!: recheckReturn_cases split: prod.splits)
qed (use assms in \<open>auto simp: recheckStep_def\<close>)

lemma recheckStep_step:
  assumes "recheckStep s env i now pc st = (pc', st')"
  shows "rs_File st' = rs_File st \<or> intent_step (sv_Path s) limits (rs_File st) (rs_File st')"
  using assms by (cases rule: recheckStep_file) (auto intro: intent_step.update)

lemma threadOk_step:
  assumes "threadOk path seen f th" "f' = f \<or> intent_step path limits f f'" "intent_reach path limits f" "seen \<subseteq> seen'"
  shows "threadOk path seen' f' th"
proof -
  have "\<exists>t'. tradeAt f' (rt_ID th) = Some t' \<and> tradeLater trade t'" if "tradeAt f (rt_ID th) = Some t" "tradeLater trade t" for trade t
    using assms(2) tradeAt_step [OF _ assms(3) that(1)] that tradeLater_trans by blast
  then show ?thesis using assms(1,4) unfolding threadOk_def by blast
qed

definition recheckInv :: "string \<Rightarrow> DemoLimits \<Rightarrow> IntentSnapshot disk set \<Rightarrow> ReconState \<Rightarrow> RecheckThread list \<Rightarrow> bool" where
  "recheckInv path limits seen st ths \<longleftrightarrow> intent_reach path limits (rs_File st) \<and> rs_File st \<in> seen \<and> (\<forall>th\<in>set ths. threadOk path seen (rs_File st) th)"

lemma recheck_run_inv: "recheck_run path limits seen st ths \<Longrightarrow> recheckInv path limits seen st ths"
proof (induction rule: recheck_run.induct)
  case (start st)
  then show ?case by (simp add: recheckInv_def)
next
  case (begin_recheck seen st ths s env i now)
  then show ?case by (auto simp: recheckInv_def threadOk_def)
next
  case (step seen st xs th ys pc st')
  have reach: "intent_reach path limits (rs_File st)" and here: "rs_File st \<in> seen"
    and ths: "\<And>x. x \<in> set (xs @ th # ys) \<Longrightarrow> threadOk path seen (rs_File st) x" using step.IH by (auto simp: recheckInv_def)
  have th: "threadOk path seen (rs_File st) th" using ths by simp
  then have p: "sv_Path (rt_Service th) = path" "concludes (rt_Service th) (rt_Pc th)" by (auto simp: threadOk_def)
  have f: "rs_File st' = rs_File st \<or> intent_step path limits (rs_File st) (rs_File st')"
    using recheckStep_step [OF step.hyps(2), of limits] p(1) by simp
  note old = threadOk_step [OF _ f reach subset_insertI]
  note pc = recheckStep_pc [OF step.hyps(2) p(2)]
  have "threadOk path (insert (rs_File st') seen) (rs_File st') (th\<lparr>rt_Pc := pc\<rparr>)"
    using old [OF th] pc p(1) here unfolding threadOk_def by auto
  moreover have "intent_reach path limits (rs_File st')" using f reach intent_reach.step by metis
  ultimately show ?case using ths old by (auto simp: recheckInv_def)
next
  case (store seen st ths f')
  then show ?case using threadOk_step [OF _ disjI2 [OF store.hyps(2)] _ subset_insertI] by (auto simp: recheckInv_def intro: intent_reach.step)
qed

text \<open>Of all steps of a recheck only the two that settle its trade change a status, and only that of its trade.\<close>

lemma recheckStep_status:
  assumes "recheckStep s env i now pc st = (pc', st')" "statusAt (rs_File st') j \<noteq> statusAt (rs_File st) j"
  shows "j = i \<and> (\<exists>trade. readTrade pc = Some trade \<and>
    (pc = RcNotSent trade \<and> statusAt (rs_File st') j = Some TradeRejected \<or>
     (\<exists>r. pc = RcStore trade r \<and> statusAt (rs_File st') j = Some (re_status r))))"
  using assms(1)
proof (cases rule: recheckStep_file)
  case (notSent trade e r)
  then show ?thesis using UpdateQuickTrade_status [OF notSent(2), of j] assms(2) by (auto simp: notSubmittedUpdate_def)
next
  case (settled trade x e r)
  then show ?thesis using UpdateQuickTrade_status [OF settled(2), of j] resolutionUpdate_status [of trade x] assms(2) by auto
next
  case (synced u e r)
  then show ?thesis using UpdateQuickTrade_status [OF synced(2), of j] assms(2) by auto
qed (use assms(2) in simp)

section \<open>A concrete venue\<close>

text \<open>A venue that shows one order of the sample trade, in a given state and without executions.\<close>

definition oneOrderReader :: "string \<Rightarrow> BybitReader" where
  "oneOrderReader raw = \<lparr>br_Orders = (\<lambda>_ _ _. Inr [\<lparr>bo_OrderID = ''v1'', bo_OrderLinkID = ''o1'', bo_Symbol = ''BTCUSDT'', bo_Side = ''Buy'',
       bo_OrderType = ''Limit'', bo_Price = ''1'', bo_Qty = ''1'', bo_CumExecQty = ''0'', bo_AvgPrice = [], bo_OrderStatus = raw,
       bo_CreatedTime = [], bo_UpdatedTime = []\<rparr>]),
     br_Executions = (\<lambda>_ _ _. Inr []), br_OrdersPage = None, br_OrderHistoryPage = None, br_ExecutionsPage = None, br_Ctx = (\<lambda>_. None)\<rparr>"

definition sampleRecon :: "string \<Rightarrow> ReconService" where
  "sampleRecon raw = \<lparr>sv_Path = ''p'', sv_Bybit = Some (oneOrderReader raw), sv_Deribit = None,
     sv_Accounts = Some \<lparr>ac_Refresh = (\<lambda>_. None), ac_Observes = True\<rparr>, sv_OnEvent = True\<rparr>"

definition sampleRecheckEnv :: RecheckEnv where
  "sampleRecheckEnv = \<lparr>rv_Get = quietEnv 20, rv_Update = quietEnv 21, rv_Sync = quietEnv 22\<rparr>"

definition sampleDispatched :: ReconState where
  "sampleDispatched = \<lparr>rs_File = snd (MarkQuickTradeDispatching ''p'' (quietEnv 6) ''i1'' 15 sampleFile), rs_Events = []\<rparr>"

section \<open>Properties\<close>

text \<open>
  C26. Loading the pages of a listing gives a list exactly when following the cursors from the empty one
  reaches a last page within twenty pages and without meeting a cursor twice, and then it is the
  concatenation of all those pages: a cut-off or looping listing is an error, never a shorter list.
\<close>

theorem loadBybitOrderPages_complete:
  "loadBybitOrderPages (\<lambda>_. None) load = Inr orders \<longleftrightarrow>
   (\<exists>cursors. pageChain load [] cursors orders \<and> distinct cursors \<and> length cursors \<le> 20)"
  unfolding loadBybitOrderPages_def maxReconciliationPages_def
  using cursorPages_chain [of "[]" "[]" "''Bybit order''" load 20 "[]" orders] by auto

text \<open>
  C15. The summary of a trade's fills is exact: the filled quantity is the sum of the quantities, the
  average price the volume-weighted one, source and destination follow the side, the fees are one entry
  per asset and kind, in order, each with the sum charged under it, and the trade counts as filled exactly
  when the fills reach the requested quantity.
\<close>

theorem summarizeFills_exact:
  assumes "summarizeFills side requested fills = Inr r" "fills \<noteq> []"
    and "base = (\<Sum>x\<leftarrow>fills. fillQty x)" "quote = (\<Sum>x\<leftarrow>fills. fillQty x * fillPrice x)"
  shows "re_filledBaseQty r = decimalString base \<and> re_averagePrice r = decimalString (quote / base) \<and>
    re_grossSource r = decimalString (if side = SideBuy then quote else base) \<and>
    re_grossDestination r = decimalString (if side = SideBuy then base else quote) \<and>
    (\<exists>keys. re_fees r = map (\<lambda>key. \<lparr>tf_Asset = fst key, tf_Amount = decimalString (charged key fills), tf_Kind = snd key\<rparr>) keys \<and>
       sorted keys \<and> distinct keys \<and> set keys = chargedKeys fills) \<and>
    (re_status r = TradeFilled \<longleftrightarrow> (\<exists>q. positive requested = Some q \<and> q \<le> base))"
proof -
  obtain q f v m where a: "positive requested = Some q" "addFills fills (0, 0, []) = Inr (f, v, m)" "r = summary side q (f, v, m)"
    using assms(1) by (auto simp: summarizeFills_def result_simps split: option.splits)
  have x: "f = base" "v = quote" "gwf m" "\<And>key. feeAt m key = charged key fills" "fst ` set m = chargedKeys fills"
    "\<forall>x\<in>set fills. 0 < fillQty x"
    using addFills_exact [OF a(2) gwf_Nil] assms(3,4) by (auto simp: feeAt_def)
  have "0 < base" using x(6) assms(2) unfolding assms(3) by (induction fills rule: induct_list012) (auto intro: add_pos_pos)
  moreover have "re_fees r = map (\<lambda>key. \<lparr>tf_Asset = fst key, tf_Amount = decimalString (charged key fills), tf_Kind = snd key\<rparr>) (sort (map fst m))"
    using a(3) x(1,4) \<open>0 < base\<close> by (simp add: summary_def Let_def feeList_def feeAt_def)
  moreover have "distinct (sort (map fst m))" "set (sort (map fst m)) = chargedKeys fills" using x(3,5) by (simp_all add: gwf_def)
  ultimately show ?thesis
    using a x(1,2) sorted_sort [of "map fst m"] by (auto simp: summary_def Let_def intro!: exI [of _ "sort (map fst m)"])
qed

definition sampleFills :: "fill list" where
  "sampleFills = [\<lparr>fl_qty = Some 2, fl_price = Some 10, fl_fee = Some (1/4), fl_feeAsset = ''btc''\<rparr>,
     \<lparr>fl_qty = Some 1, fl_price = Some 40, fl_fee = Some (1/4), fl_feeAsset = ''BTC''\<rparr>]"

theorem summarizeFills_exact_witness:
  "\<exists>r. summarizeFills SideBuy ''3'' sampleFills = Inr r \<and> re_averagePrice r = ''20'' \<and> re_status r = TradeFilled \<and>
     re_fees r = [\<lparr>tf_Asset = ''BTC'', tf_Amount = ''0.5'', tf_Kind = ''fee''\<rparr>]"
proof -
  have e: "case summarizeFills SideBuy ''3'' sampleFills of Inr r \<Rightarrow> re_averagePrice r = ''20'' \<and> re_status r = TradeFilled \<and>
     re_fees r = [\<lparr>tf_Asset = ''BTC'', tf_Amount = ''0.5'', tf_Kind = ''fee''\<rparr>] | Inl _ \<Rightarrow> False" by code_simp
  then obtain r where r: "summarizeFills SideBuy ''3'' sampleFills = Inr r" by (auto split: sum.splits)
  have "sampleFills \<noteq> []" by (simp add: sampleFills_def)
  from summarizeFills_exact [OF r this refl refl] show ?thesis using r e by auto
qed

text \<open>
  C10. A recheck moves a trade to a final status only with cause. Take any run in which rechecks advance one step at a time among themselves and
  among any other operations of the store, confirmations that dispatch trades included. When a step of a recheck turns a status into filled,
  cancelled or rejected, it is the status of the recheck's own trade, and the trade as this recheck read it, in a state the file was in during the
  run and of which the present one is a later state, either had never been sent, and the status is rejected, or the venues' answers to this recheck
  show exactly one matching order at the trade's own venue, in a state that means that status. The first cause is judged on the state that was read:
  the trade may have been sent since (see \<open>recheck_rejects_sent\<close>).
\<close>

theorem recheck_final_needs_evidence:
  assumes "recheck_run path limits seen st (xs @ th # ys)"
    and "recheckStep (rt_Service th) (rt_Env th) (rt_ID th) (rt_Now th) (rt_Pc th) st = (pc, st')"
    and "statusAt (rs_File st') j = Some status" "statusAt (rs_File st) j \<noteq> Some status" "TradeStatus_Terminal status"
  shows "j = rt_ID th \<and> (\<exists>f\<in>seen. \<exists>trade present. tradeAt f j = Some trade \<and> tradeAt (rs_File st) j = Some present \<and> tradeLater trade present \<and>
    (t_Status trade = TradeCreated \<and> \<not> t_SendAttempted trade \<and> status = TradeRejected \<or> venueEvidence (rt_Service th) trade status))"
proof -
  have ok: "threadOk path seen (rs_File st) th" using recheck_run_inv [OF assms(1)] by (simp add: recheckInv_def)
  have "statusAt (rs_File st') j \<noteq> statusAt (rs_File st) j" using assms(3,4) by simp
  from recheckStep_status [OF assms(2) this] obtain trade where t: "j = rt_ID th" "readTrade (rt_Pc th) = Some trade"
    "rt_Pc th = RcNotSent trade \<and> status = TradeRejected \<or> (\<exists>r. rt_Pc th = RcStore trade r \<and> status = re_status r)"
    using assms(3) by auto
  obtain f present where f: "f \<in> seen" "tradeAt f j = Some trade" "tradeAt (rs_File st) j = Some present" "tradeLater trade present"
    using ok t(1,2) unfolding threadOk_def by blast
  have "t_Status trade = TradeCreated \<and> \<not> t_SendAttempted trade \<and> status = TradeRejected \<or> venueEvidence (rt_Service th) trade status"
    using t(3) ok recheckVenue_evidence [of "rt_Service th" trade] assms(5) by (auto simp: threadOk_def)
  then show ?thesis using t(1) f by blast
qed

text \<open>
  The sample recheck reads the dispatched trade and asks the venue, and the confirmation records the acceptance before the recheck stores what it found.
\<close>

definition sampleRecheck :: "RecheckPc \<Rightarrow> RecheckThread" where
  "sampleRecheck pc = \<lparr>rt_Service = sampleRecon ''Filled'', rt_Env = sampleRecheckEnv, rt_ID = ''i1'', rt_Now = 30, rt_Pc = pc\<rparr>"

definition sampleAsked :: "RecheckPc \<times> ReconState" where
  "sampleAsked = recheckSteps 2 (sampleRecon ''Filled'') sampleRecheckEnv ''i1'' 30 RcGet sampleDispatched"

definition sampleAccepted :: ReconState where
  "sampleAccepted = (snd sampleAsked)\<lparr>rs_File :=
     snd (UpdateQuickTrade ''p'' (quietEnv 25) ''i1'' (zeroUpdate\<lparr>u_Status := TradeAccepted\<rparr>) 25 (rs_File (snd sampleAsked)))\<rparr>"

lemma sampleDispatched_reach: "intent_reach ''p'' sampleLimits (rs_File sampleDispatched)"
  unfolding sampleDispatched_def
  by (simp, rule intent_reach.step [OF sampleFile_reach intent_step.dispatch [OF surjective_pairing]])

lemma sampleAccepted_run: "\<exists>seen. recheck_run ''p'' sampleLimits seen sampleAccepted ([] @ sampleRecheck (fst sampleAsked) # [])"
proof -
  let ?step = "\<lambda>pc st. recheckStep (sampleRecon ''Filled'') sampleRecheckEnv ''i1'' 30 pc st"
  have simps: "rt_Service (sampleRecheck pc) = sampleRecon ''Filled''" "rt_Env (sampleRecheck pc) = sampleRecheckEnv"
    "rt_ID (sampleRecheck pc) = ''i1''" "rt_Now (sampleRecheck pc) = 30" "rt_Pc (sampleRecheck pc) = pc"
    "(sampleRecheck pc)\<lparr>rt_Pc := pc'\<rparr> = sampleRecheck pc'" for pc pc'
    by (simp_all add: sampleRecheck_def)
  obtain pc1 st1 where one: "?step RcGet sampleDispatched = (pc1, st1)" by (metis surj_pair)
  obtain pc2 st2 where two: "?step pc1 st1 = (pc2, st2)" by (metis surj_pair)
  have asked: "sampleAsked = (pc2, st2)" using one two by (simp add: sampleAsked_def numeral_2_eq_2)
  have "recheck_run ''p'' sampleLimits {rs_File sampleDispatched} sampleDispatched ([] @ sampleRecheck RcGet # [])"
    using recheck_run.begin_recheck [OF recheck_run.start [OF sampleDispatched_reach], of "sampleRecon ''Filled''" sampleRecheckEnv "''i1''" 30]
    by (simp add: sampleRecheck_def) (simp add: sampleRecon_def)
  from recheck_run.step [OF this, unfolded simps, OF one] obtain seen1 where "recheck_run ''p'' sampleLimits seen1 st1 ([] @ sampleRecheck pc1 # [])" by blast
  from recheck_run.step [OF this, unfolded simps, OF two] obtain seen2 where "recheck_run ''p'' sampleLimits seen2 st2 ([] @ sampleRecheck pc2 # [])" by blast
  from recheck_run.store [OF this intent_step.update [OF surjective_pairing]]
  show ?thesis unfolding sampleAccepted_def asked fst_conv snd_conv by blast
qed

theorem recheck_final_needs_evidence_witness:
  "\<exists>trade. venueEvidence (sampleRecon ''Filled'') trade TradeFilled \<and> (\<exists>present. tradeAt (rs_File sampleAccepted) ''i1'' = Some present \<and> tradeLater trade present)"
proof -
  let ?r = "recheckStep (sampleRecon ''Filled'') sampleRecheckEnv ''i1'' 30 (fst sampleAsked) sampleAccepted"
  have e: "statusAt (rs_File (snd ?r)) ''i1'' = Some TradeFilled \<and> statusAt (rs_File sampleAccepted) ''i1'' = Some TradeAccepted" by code_simp
  obtain seen where run: "recheck_run ''p'' sampleLimits seen sampleAccepted ([] @ sampleRecheck (fst sampleAsked) # [])"
    using sampleAccepted_run by blast
  have st: "recheckStep (rt_Service (sampleRecheck (fst sampleAsked))) (rt_Env (sampleRecheck (fst sampleAsked))) (rt_ID (sampleRecheck (fst sampleAsked)))
      (rt_Now (sampleRecheck (fst sampleAsked))) (rt_Pc (sampleRecheck (fst sampleAsked))) sampleAccepted = (fst ?r, snd ?r)"
    by (simp add: sampleRecheck_def)
  have "statusAt (rs_File sampleAccepted) ''i1'' \<noteq> Some TradeFilled" using e by simp
  from recheck_final_needs_evidence [OF run st conjunct1 [OF e] this] show ?thesis by (auto simp: TradeStatus_Terminal_def sampleRecheck_def)
qed

text \<open>
  The race this leaves open. A recheck of every active trade reads one that a confirmation has just created; the confirmation marks it as dispatched
  and hands it to the venue; then the recheck writes that it was never sent. The trade is on record as sent and rejected, for good, although the
  venue may have its order and no one has asked it.
\<close>

lemma recheck_rejects_sent:
  "let read = recheckStep (sampleRecon ''New'') sampleRecheckEnv ''i1'' 30 RcGet \<lparr>rs_File = sampleFile, rs_Events = []\<rparr>;
       dispatched = snd (MarkQuickTradeDispatching ''p'' (quietEnv 31) ''i1'' 31 (rs_File (snd read)));
       written = recheckStep (sampleRecon ''New'') sampleRecheckEnv ''i1'' 30 (fst read) ((snd read)\<lparr>rs_File := dispatched\<rparr>) in
   statusAt dispatched ''i1'' = Some TradePendingSubmit \<and>
   (case tradeAt (rs_File (snd written)) ''i1'' of Some t \<Rightarrow> t_Status t = TradeRejected \<and> t_SendAttempted t | None \<Rightarrow> False) \<and>
   (case fst written of RcDone (Inr _) \<Rightarrow> True | _ \<Rightarrow> False)"
  by code_simp

text \<open>
  A trade that was sent but not yet acknowledged cannot be settled as cancelled: when the venue shows
  its order cancelled, the recheck fails and leaves the file, and with it the active trade, as it was.
\<close>

theorem recheck_cancelled_stuck:
  assumes "GetQuickTrade (rv_Get env) i (rs_File st) = Inr trade" "t_Status trade = TradePendingSubmit \<or> t_Status trade = TradeSubmitted"
    and "recheckVenue s trade = Inr r" "re_status r = TradeCancelled" "RecheckTrade s env i now st = (res, st')"
  shows "isl res \<and> rs_File st' = rs_File st"
proof -
  obtain st0 st1 where b: "rs_File st0 = rs_File st" "rs_File st1 = rs_File st'" "recheckBody s env trade i now st0 = (res, st1)"
    using RecheckTrade_body [OF assms(5)] assms(1) by auto
  then have sr: "storeResolution s env trade r i now st0 = (res, st1)" using assms(2,3) by (auto simp: recheckBody_def)
  obtain e u f' where u: "UpdateQuickTrade (sv_Path s) (rv_Update env) i (resolutionUpdate trade r) now (rs_File st0) = ((e, u), f')"
    by (metis surj_pair)
  have no: "\<exists>x. applyUpdate (resolutionUpdate trade r) now trade = Inl x"
    using assms(2,4) by (auto simp: applyUpdate_def resolutionUpdate_def applyTradeStatus_def validTradeTransition_def Let_def zeroUpdate_def)
  have at: "tradeAt (rs_File st0) i = Some trade" using GetQuickTrade_at [OF assms(1)] b(1) by simp
  have "f' = rs_File st0" using UpdateQuickTrade_cases [OF u] at no by auto
  moreover have "e \<noteq> None"
    using Store_update_cases [OF u [unfolded UpdateQuickTrade_def updateQuickTrade_def]] Store_Load_Inr at no
    by (auto simp: tradeAt_def elim!: updateTradeMutate_cases)
  ultimately show ?thesis using sr u b by (auto simp: storeResolution_def split: option.splits)
qed

theorem recheck_cancelled_stuck_witness:
  "\<exists>e st'. RecheckTrade (sampleRecon ''Cancelled'') sampleRecheckEnv ''i1'' 30 sampleDispatched = (Inl e, st') \<and>
     rs_File st' = rs_File sampleDispatched \<and> statusAt (rs_File st') ''i1'' = Some TradePendingSubmit"
proof -
  have e: "case GetQuickTrade (rv_Get sampleRecheckEnv) ''i1'' (rs_File sampleDispatched) of
      Inr trade \<Rightarrow> t_Status trade = TradePendingSubmit \<and> (case recheckVenue (sampleRecon ''Cancelled'') trade of
        Inr r \<Rightarrow> re_status r = TradeCancelled | Inl _ \<Rightarrow> False) | Inl _ \<Rightarrow> False" by code_simp
  obtain trade where t: "GetQuickTrade (rv_Get sampleRecheckEnv) ''i1'' (rs_File sampleDispatched) = Inr trade"
    using e by (auto split: sum.splits)
  obtain r where r: "recheckVenue (sampleRecon ''Cancelled'') trade = Inr r" using e t by (auto split: sum.splits)
  obtain res st' where x: "RecheckTrade (sampleRecon ''Cancelled'') sampleRecheckEnv ''i1'' 30 sampleDispatched = (res, st')" by (metis surj_pair)
  have "isl res \<and> rs_File st' = rs_File sampleDispatched" using recheck_cancelled_stuck [OF t _ r _ x] e t r by simp
  then show ?thesis using x GetQuickTrade_at [OF t] e t by (cases res) (auto simp: statusAt_def)
qed

end
