(* ===== verification/DeribitBook.thy ===== *)
theory DeribitBook
  imports GoBig Domain "HOL-Library.Sublist"
begin

text \<open>
  \<open>internal/deribit/book.go\<close>: the local order book, kept from a snapshot and the changes after it. A
  decoded JSON number is a finite floating point value, which is a rational; the code only compares such
  values. The abstract book is a pair of maps from prices to amounts, and the end of the theory proves that
  a book that is not stale is exactly what one snapshot and an unbroken chain of changes make of it.
\<close>

section \<open>Model\<close>

text \<open>An element of a decoded JSON array: a string, a number, or anything else.\<close>

datatype Any = AString string | AFloat rat | AOther

record BookUpdate =
  bu_Type :: string
  bu_InstrumentName :: string
  bu_ChangeID :: int
  bu_PrevChangeID :: int
  bu_Timestamp :: int
  bu_Bids :: "Any list list"
  bu_Asks :: "Any list list"

record BookLevel =
  bl_Price :: rat
  bl_Amount :: rat

type_synonym bookSide = "(rat, rat) gomap"

record OrderBook =
  ob_Instrument :: string
  ob_ChangeID :: int
  ob_Stale :: bool
  ob_bids :: bookSide
  ob_asks :: bookSide

definition NewOrderBook :: "string \<Rightarrow> OrderBook" where
  "NewOrderBook instrument = \<lparr>ob_Instrument = instrument, ob_ChangeID = 0, ob_Stale = True, ob_bids = [], ob_asks = []\<rparr>"

text \<open>One level of an update; the checks in the order of the code.\<close>

definition applyAction :: "string \<Rightarrow> rat \<Rightarrow> rat \<Rightarrow> bookSide \<Rightarrow> bookSide result" where
  "applyAction action price amount side =
     (if action = ''new'' \<or> action = ''change''
      then Inr (if amount = 0 then gdel price side else gput price amount side)
      else if action = ''delete'' then Inr (gdel price side)
      else Inl (EText ''unknown order-book action''))"

definition applyLevel :: "Any list \<Rightarrow> bookSide \<Rightarrow> bookSide result" where
  "applyLevel raw side =
     (case raw of
        [a, p, q] \<Rightarrow>
          (case a of
             AString action \<Rightarrow>
               (case p of
                  AFloat price \<Rightarrow>
                    (if price \<le> 0 then Inl (EText ''malformed order-book price'')
                     else case q of
                         AFloat amount \<Rightarrow>
                           (if amount < 0 then Inl (EText ''malformed order-book amount'')
                            else applyAction action price amount side)
                       | _ \<Rightarrow> Inl (EText ''malformed order-book amount''))
                | _ \<Rightarrow> Inl (EText ''malformed order-book price''))
           | _ \<Rightarrow> Inl (EText ''malformed order-book action''))
      | _ \<Rightarrow> Inl (EText ''malformed order-book level''))"

text \<open>The loop writes into the map as it goes: after an error the levels before it stay applied.\<close>

fun applyLevels :: "Any list list \<Rightarrow> bookSide \<Rightarrow> goerror option \<times> bookSide" where
  "applyLevels [] side = (None, side)"
| "applyLevels (raw # levels) side =
     (case applyLevel raw side of
        Inl e \<Rightarrow> (Some e, side)
      | Inr side' \<Rightarrow> applyLevels levels side')"

text \<open>Both sides of an update, on the book as the caller prepared it.\<close>

definition applySides :: "BookUpdate \<Rightarrow> OrderBook \<Rightarrow> goerror option \<times> OrderBook" where
  "applySides u b =
     (case applyLevels (bu_Bids u) (ob_bids b) of
        (Some e, bids) \<Rightarrow> (Some e, b\<lparr>ob_bids := bids, ob_Stale := True\<rparr>)
      | (None, bids) \<Rightarrow>
          (case applyLevels (bu_Asks u) (ob_asks b) of
             (Some e, asks) \<Rightarrow> (Some e, b\<lparr>ob_bids := bids, ob_asks := asks, ob_Stale := True\<rparr>)
           | (None, asks) \<Rightarrow> (None, b\<lparr>ob_bids := bids, ob_asks := asks\<rparr>)))"

definition Apply :: "BookUpdate \<Rightarrow> OrderBook \<Rightarrow> goerror option \<times> OrderBook" where
  "Apply u b =
     (if bu_InstrumentName u \<noteq> ob_Instrument b then (Some (EText ''order-book instrument mismatch''), b)
      else if bu_Type u = ''snapshot'' then
        (case applySides u (b\<lparr>ob_bids := [], ob_asks := []\<rparr>) of
           (Some e, b') \<Rightarrow> (Some e, b')
         | (None, b') \<Rightarrow> (None, b'\<lparr>ob_ChangeID := bu_ChangeID u, ob_Stale := False\<rparr>))
      else if bu_Type u \<noteq> ''change'' then (Some (EText ''unknown order-book update type''), b\<lparr>ob_Stale := True\<rparr>)
      else if ob_Stale b then (Some (EText ''order book is stale; snapshot required''), b)
      else if bu_ChangeID u = ob_ChangeID b then (None, b)
      else if bu_PrevChangeID u \<noteq> ob_ChangeID b \<or> bu_ChangeID u \<le> ob_ChangeID b
      then (Some (EText ''order-book sequence gap''), b\<lparr>ob_Stale := True\<rparr>)
      else
        (case applySides u b of
           (Some e, b') \<Rightarrow> (Some e, b')
         | (None, b') \<Rightarrow> (None, b'\<lparr>ob_ChangeID := bu_ChangeID u\<rparr>)))"

definition Levels :: "OrderBook \<Rightarrow> BookLevel list \<times> BookLevel list" where
  "Levels b =
     (sort_key (\<lambda>l. - bl_Price l) (map (\<lambda>(p, a). \<lparr>bl_Price = p, bl_Amount = a\<rparr>) (ob_bids b)),
      sort_key bl_Price (map (\<lambda>(p, a). \<lparr>bl_Price = p, bl_Amount = a\<rparr>) (ob_asks b)))"

text \<open>The book after a sequence of updates, whatever each of them returned.\<close>

definition applyAll :: "BookUpdate list \<Rightarrow> OrderBook \<Rightarrow> OrderBook" where
  "applyAll us b = fold (\<lambda>u b. snd (Apply u b)) us b"

section \<open>The abstract book\<close>

type_synonym absBook = "(rat \<rightharpoonup> rat) \<times> (rat \<rightharpoonup> rat)"

text \<open>A well-formed level sets or removes the amount at its price.\<close>

fun levelOf :: "Any list \<Rightarrow> (rat \<times> rat option) option" where
  "levelOf [AString action, AFloat price, AFloat amount] =
     (if price \<le> 0 \<or> amount < 0 then None
      else if action \<in> {''new'', ''change''} then Some (price, if amount = 0 then None else Some amount)
      else if action = ''delete'' then Some (price, None)
      else None)"
| "levelOf _ = None"

fun setLevels :: "Any list list \<Rightarrow> (rat \<rightharpoonup> rat) \<Rightarrow> (rat \<rightharpoonup> rat) option" where
  "setLevels [] m = Some m"
| "setLevels (raw # levels) m =
     (case levelOf raw of
        None \<Rightarrow> None
      | Some (price, amount) \<Rightarrow> setLevels levels (m(price := amount)))"

definition setBook :: "BookUpdate \<Rightarrow> absBook \<Rightarrow> absBook option" where
  "setBook u m =
     (case (setLevels (bu_Bids u) (fst m), setLevels (bu_Asks u) (snd m)) of
        (Some bids, Some asks) \<Rightarrow> Some (bids, asks)
      | _ \<Rightarrow> None)"

text \<open>A snapshot and the changes after it, in order.\<close>

fun replay :: "BookUpdate list \<Rightarrow> absBook option \<Rightarrow> absBook option" where
  "replay [] m = m"
| "replay (u # us) m = replay us (case m of None \<Rightarrow> None | Some x \<Rightarrow> setBook u x)"

fun chained :: "int \<Rightarrow> BookUpdate list \<Rightarrow> bool" where
  "chained i [] = True"
| "chained i (u # us) \<longleftrightarrow> bu_PrevChangeID u = i \<and> i < bu_ChangeID u \<and> chained (bu_ChangeID u) us"

fun lastID :: "int \<Rightarrow> BookUpdate list \<Rightarrow> int" where
  "lastID i [] = i"
| "lastID i (u # us) = lastID (bu_ChangeID u) us"

definition absOf :: "OrderBook \<Rightarrow> absBook" where
  "absOf b = (map_of (ob_bids b), map_of (ob_asks b))"

lemma replay_snoc: "replay (us @ [u]) m = (case replay us m of None \<Rightarrow> None | Some x \<Rightarrow> setBook u x)"
  by (induction us arbitrary: m) auto

lemma chained_snoc: "chained i (us @ [u]) \<longleftrightarrow> chained i us \<and> bu_PrevChangeID u = lastID i us \<and> lastID i us < bu_ChangeID u"
  by (induction us arbitrary: i) auto

lemma lastID_snoc [simp]: "lastID i (us @ [u]) = bu_ChangeID u"
  by (induction us arbitrary: i) auto

section \<open>The code against the abstract book\<close>

text \<open>The maps of a book: each price once, prices and amounts positive.\<close>

definition sideOk :: "bookSide \<Rightarrow> bool" where
  "sideOk side \<longleftrightarrow> gwf side \<and> (\<forall>p a. gget side p = Some a \<longrightarrow> 0 < p \<and> 0 < a)"

definition bookOk :: "OrderBook \<Rightarrow> bool" where
  "bookOk b \<longleftrightarrow> sideOk (ob_bids b) \<and> sideOk (ob_asks b)"

lemma applyLevel_levelOf:
  "applyLevel raw side = Inr side' \<Longrightarrow> \<exists>p a. levelOf raw = Some (p, a) \<and> map_of side' = (map_of side)(p := a) \<and> 0 < p \<and>
     (\<forall>v. a = Some v \<longrightarrow> 0 < v) \<and> (gwf side \<longrightarrow> gwf side')"
  by (auto simp: applyLevel_def applyAction_def update_conv' delete_conv' not_le not_less fun_eq_iff
      split: list.splits Any.splits if_splits)

lemma applyLevel_fails: "applyLevel raw side = Inl e \<Longrightarrow> levelOf raw = None"
  by (cases raw rule: levelOf.cases) (auto simp: applyLevel_def applyAction_def split: if_splits)

lemma applyLevels_set:
  "applyLevels levels side = (e, side') \<Longrightarrow>
   (e = None \<longrightarrow> setLevels levels (map_of side) = Some (map_of side')) \<and> (e \<noteq> None \<longrightarrow> setLevels levels (map_of side) = None) \<and>
   (sideOk side \<longrightarrow> sideOk side')"
proof (induction levels arbitrary: side)
  case (Cons raw levels)
  show ?case
  proof (cases "applyLevel raw side")
    case (Inl e')
    then show ?thesis using Cons.prems applyLevel_fails [OF Inl] by auto
  next
    case (Inr side1)
    obtain p a where l: "levelOf raw = Some (p, a)" "map_of side1 = (map_of side)(p := a)" "0 < p" "\<forall>v. a = Some v \<longrightarrow> 0 < v"
      "gwf side \<longrightarrow> gwf side1" using applyLevel_levelOf [OF Inr] by blast
    have "sideOk side \<longrightarrow> sideOk side1" using l by (auto simp: sideOk_def)
    moreover have "setLevels (raw # levels) (map_of side) = setLevels levels (map_of side1)" by (simp add: l(1,2))
    moreover have "applyLevels levels side1 = (e, side')" using Cons.prems Inr by simp
    ultimately show ?thesis using Cons.IH [of side1] by metis
  qed
qed auto

lemma applySides_set:
  assumes "applySides u b = (e, b')"
  shows "(e = None \<longrightarrow> setBook u (absOf b) = Some (absOf b') \<and> ob_Stale b' = ob_Stale b) \<and>
    (e \<noteq> None \<longrightarrow> setBook u (absOf b) = None \<and> ob_Stale b') \<and> (bookOk b \<longrightarrow> bookOk b') \<and>
    ob_Instrument b' = ob_Instrument b \<and> ob_ChangeID b' = ob_ChangeID b"
proof -
  obtain e1 bids where bids: "applyLevels (bu_Bids u) (ob_bids b) = (e1, bids)" by (metis surj_pair)
  obtain e2 asks where asks: "applyLevels (bu_Asks u) (ob_asks b) = (e2, asks)" by (metis surj_pair)
  show ?thesis using assms bids asks applyLevels_set [OF bids] applyLevels_set [OF asks]
    by (cases e1; cases e2) (auto simp: applySides_def setBook_def absOf_def bookOk_def split: option.splits)
qed

text \<open>The branches of \<open>Apply\<close>, over the abstract book.\<close>

lemma Apply_cases:
  assumes "Apply u b = (e, b')" "\<not> ob_Stale b'"
  obtains (keep) "b' = b" "\<not> ob_Stale b"
  | (snapshot) "bu_Type u = ''snapshot''" "bu_InstrumentName u = ob_Instrument b" "setBook u (Map.empty, Map.empty) = Some (absOf b')"
      "ob_ChangeID b' = bu_ChangeID u" "ob_Instrument b' = ob_Instrument b"
  | (change) "bu_Type u = ''change''" "bu_InstrumentName u = ob_Instrument b" "\<not> ob_Stale b" "bu_PrevChangeID u = ob_ChangeID b"
      "ob_ChangeID b < bu_ChangeID u" "setBook u (absOf b) = Some (absOf b')" "ob_ChangeID b' = bu_ChangeID u"
      "ob_Instrument b' = ob_Instrument b"
proof -
  obtain e1 b1 where s: "applySides u (b\<lparr>ob_bids := [], ob_asks := []\<rparr>) = (e1, b1)" by (metis surj_pair)
  obtain e2 b2 where c: "applySides u b = (e2, b2)" by (metis surj_pair)
  have empty: "absOf (b\<lparr>ob_bids := [], ob_asks := []\<rparr>) = (Map.empty, Map.empty)" by (simp add: absOf_def)
  have upd: "absOf (x\<lparr>ob_ChangeID := i\<rparr>) = absOf x" "absOf (x\<lparr>ob_Stale := st\<rparr>) = absOf x" for x i st by (simp_all add: absOf_def)
  show thesis
    using assms that s c applySides_set [OF s] applySides_set [OF c] unfolding Apply_def empty
    by (auto simp: upd split: if_splits option.splits)
qed

lemma Apply_instrument: "ob_Instrument (snd (Apply u b)) = ob_Instrument b"
proof -
  obtain e1 b1 where s: "applySides u (b\<lparr>ob_bids := [], ob_asks := []\<rparr>) = (e1, b1)" by (metis surj_pair)
  obtain e2 b2 where c: "applySides u b = (e2, b2)" by (metis surj_pair)
  show ?thesis using s c applySides_set [OF s] applySides_set [OF c] by (auto simp: Apply_def split: option.splits)
qed

lemma Apply_bookOk: "bookOk b \<Longrightarrow> bookOk (snd (Apply u b))"
proof -
  assume b: "bookOk b"
  obtain e1 b1 where s: "applySides u (b\<lparr>ob_bids := [], ob_asks := []\<rparr>) = (e1, b1)" by (metis surj_pair)
  obtain e2 b2 where c: "applySides u b = (e2, b2)" by (metis surj_pair)
  have e: "bookOk (b\<lparr>ob_bids := [], ob_asks := []\<rparr>)" by (simp add: bookOk_def sideOk_def)
  have upd: "bookOk (x\<lparr>ob_ChangeID := i\<rparr>) = bookOk x" "bookOk (x\<lparr>ob_Stale := st\<rparr>) = bookOk x" for x i st by (simp_all add: bookOk_def)
  show ?thesis using b e s c applySides_set [OF s] applySides_set [OF c] by (auto simp: Apply_def upd split: option.splits)
qed

lemma applyAll_snoc [simp]: "applyAll (us @ [u]) b = snd (Apply u (applyAll us b))"
  by (simp add: applyAll_def)

lemma applyAll_Nil [simp]: "applyAll [] b = b"
  by (simp add: applyAll_def)

lemma applyAll_instrument [simp]: "ob_Instrument (applyAll us b) = ob_Instrument b"
  by (induction us rule: rev_induct) (simp_all add: Apply_instrument)

lemma applyAll_bookOk: "bookOk (applyAll us (NewOrderBook instrument))"
  by (induction us rule: rev_induct) (simp_all add: Apply_bookOk, simp add: NewOrderBook_def bookOk_def sideOk_def)

text \<open>
  The specification of a live book: one snapshot of the updates received, and a subsequence of the updates
  after it that are changes of the instrument and form an unbroken chain of change identifiers.
\<close>

definition liveFrom :: "string \<Rightarrow> BookUpdate list \<Rightarrow> int \<Rightarrow> absBook \<Rightarrow> bool" where
  "liveFrom instrument us i m \<longleftrightarrow>
     (\<exists>pre snap post changes. us = pre @ snap # post \<and> subseq changes post \<and>
        bu_Type snap = ''snapshot'' \<and> (\<forall>u\<in>set changes. bu_Type u = ''change'') \<and>
        (\<forall>u\<in>set (snap # changes). bu_InstrumentName u = instrument) \<and>
        chained (bu_ChangeID snap) changes \<and> i = lastID (bu_ChangeID snap) changes \<and>
        replay (snap # changes) (Some (Map.empty, Map.empty)) = Some m)"

lemma liveFrom_snoc: "liveFrom instrument us i m \<Longrightarrow> liveFrom instrument (us @ [u]) i m"
  unfolding liveFrom_def by (metis append.assoc append_Cons subseq_rev_drop_many)

lemma liveFrom_snapshot:
  "bu_Type u = ''snapshot'' \<Longrightarrow> bu_InstrumentName u = instrument \<Longrightarrow> setBook u (Map.empty, Map.empty) = Some m \<Longrightarrow>
   liveFrom instrument (us @ [u]) (bu_ChangeID u) m"
  unfolding liveFrom_def by (intro exI [of _ us] exI [of _ u] exI [of _ "[]"]) simp

lemma liveFrom_change:
  assumes "liveFrom instrument us (bu_PrevChangeID u) m" "bu_Type u = ''change''" "bu_InstrumentName u = instrument"
    "bu_PrevChangeID u < bu_ChangeID u" "setBook u m = Some m'"
  shows "liveFrom instrument (us @ [u]) (bu_ChangeID u) m'"
proof -
  obtain pre snap post changes where l: "us = pre @ snap # post" "subseq changes post" "bu_Type snap = ''snapshot''"
    "\<forall>u\<in>set changes. bu_Type u = ''change''" "\<forall>u\<in>set (snap # changes). bu_InstrumentName u = instrument"
    "chained (bu_ChangeID snap) changes" "bu_PrevChangeID u = lastID (bu_ChangeID snap) changes"
    "replay (snap # changes) (Some (Map.empty, Map.empty)) = Some m"
    using assms(1) by (auto simp: liveFrom_def)
  have "replay ((snap # changes) @ [u]) (Some (Map.empty, Map.empty)) = Some m'" using l(8) assms(5) by (simp only: replay_snoc) simp
  moreover have "subseq (changes @ [u]) (post @ [u])" using l(2) by (simp add: subseq_append')
  ultimately show ?thesis using l assms(2-4) unfolding liveFrom_def
    by (intro exI [of _ pre] exI [of _ snap] exI [of _ "post @ [u]"] exI [of _ "changes @ [u]"]) (auto simp: chained_snoc)
qed

lemma applyAll_live:
  "\<not> ob_Stale (applyAll us (NewOrderBook instrument)) \<Longrightarrow>
   liveFrom instrument us (ob_ChangeID (applyAll us (NewOrderBook instrument))) (absOf (applyAll us (NewOrderBook instrument)))"
proof (induction us rule: rev_induct)
  case Nil
  then show ?case by (simp add: NewOrderBook_def)
next
  case (snoc u us)
  let ?b = "applyAll us (NewOrderBook instrument)" and ?b' = "snd (Apply u (applyAll us (NewOrderBook instrument)))"
  have ins: "ob_Instrument ?b = instrument" by (simp add: NewOrderBook_def)
  have a: "Apply u ?b = (fst (Apply u ?b), ?b')" by simp
  have live: "\<not> ob_Stale ?b'" using snoc.prems by simp
  from a live show ?case
  proof (cases rule: Apply_cases)
    case keep
    then show ?thesis using liveFrom_snoc snoc.IH by simp
  next
    case snapshot
    then show ?thesis using liveFrom_snapshot ins by simp
  next
    case change
    then show ?thesis using liveFrom_change snoc.IH ins by simp
  qed
qed

text \<open>Conversely, a chain the code accepts step by step leaves the book live.\<close>

lemma Apply_snapshot:
  assumes "bu_Type u = ''snapshot''" "bu_InstrumentName u = ob_Instrument b" "setBook u (Map.empty, Map.empty) = Some m"
  shows "\<not> ob_Stale (snd (Apply u b)) \<and> absOf (snd (Apply u b)) = m \<and> ob_ChangeID (snd (Apply u b)) = bu_ChangeID u"
proof -
  obtain e1 b1 where s: "applySides u (b\<lparr>ob_bids := [], ob_asks := []\<rparr>) = (e1, b1)" by (metis surj_pair)
  have "absOf (b\<lparr>ob_bids := [], ob_asks := []\<rparr>) = (Map.empty, Map.empty)" by (simp add: absOf_def)
  then have "e1 = None" "absOf b1 = m" using applySides_set [OF s] assms(3) by auto
  then show ?thesis using assms s by (simp add: Apply_def absOf_def)
qed

lemma Apply_change:
  assumes "bu_Type u = ''change''" "bu_InstrumentName u = ob_Instrument b" "\<not> ob_Stale b" "bu_PrevChangeID u = ob_ChangeID b"
    "ob_ChangeID b < bu_ChangeID u" "setBook u (absOf b) = Some m"
  shows "\<not> ob_Stale (snd (Apply u b)) \<and> absOf (snd (Apply u b)) = m \<and> ob_ChangeID (snd (Apply u b)) = bu_ChangeID u"
proof -
  obtain e1 b1 where s: "applySides u b = (e1, b1)" by (metis surj_pair)
  then have "e1 = None" "absOf b1 = m" "\<not> ob_Stale b1" using applySides_set [OF s] assms(3,6) by auto
  then show ?thesis using assms s by (auto simp: Apply_def absOf_def)
qed

lemma applyAll_chain:
  assumes "bu_Type snap = ''snapshot''" "\<forall>u\<in>set changes. bu_Type u = ''change''" "\<forall>u\<in>set (snap # changes). bu_InstrumentName u = instrument"
    "chained (bu_ChangeID snap) changes" "replay (snap # changes) (Some (Map.empty, Map.empty)) = Some m"
  shows "\<not> ob_Stale (applyAll (pre @ snap # changes) (NewOrderBook instrument)) \<and>
    absOf (applyAll (pre @ snap # changes) (NewOrderBook instrument)) = m \<and>
    ob_ChangeID (applyAll (pre @ snap # changes) (NewOrderBook instrument)) = lastID (bu_ChangeID snap) changes"
  using assms(2-5)
proof (induction changes arbitrary: m rule: rev_induct)
  case Nil
  have "ob_Instrument (applyAll pre (NewOrderBook instrument)) = instrument" by (simp add: NewOrderBook_def)
  then show ?case using Apply_snapshot [OF assms(1)] Nil by simp
next
  case (snoc u changes)
  let ?b = "applyAll (pre @ snap # changes) (NewOrderBook instrument)"
  have "replay ((snap # changes) @ [u]) (Some (Map.empty, Map.empty)) = Some m" using snoc.prems(4) by simp
  then obtain m0 where m0: "replay (snap # changes) (Some (Map.empty, Map.empty)) = Some m0" "setBook u m0 = Some m"
    by (simp only: replay_snoc) (auto split: option.splits)
  have p: "\<forall>u\<in>set changes. bu_Type u = ''change''" "\<forall>u\<in>set (snap # changes). bu_InstrumentName u = instrument"
    "chained (bu_ChangeID snap) changes" using snoc.prems by (simp_all add: chained_snoc)
  have b: "\<not> ob_Stale ?b" "absOf ?b = m0" "ob_ChangeID ?b = lastID (bu_ChangeID snap) changes"
    using snoc.IH [OF p m0(1)] by simp_all
  have "ob_Instrument ?b = instrument" by (simp add: NewOrderBook_def)
  then have "\<not> ob_Stale (snd (Apply u ?b)) \<and> absOf (snd (Apply u ?b)) = m \<and> ob_ChangeID (snd (Apply u ?b)) = bu_ChangeID u"
    using snoc.prems b m0(2) by (intro Apply_change) (auto simp: chained_snoc)
  moreover have "applyAll (pre @ snap # changes @ [u]) (NewOrderBook instrument) = snd (Apply u ?b)"
    using applyAll_snoc [of "pre @ snap # changes" u] by simp
  ultimately show ?case by simp
qed

section \<open>Listing\<close>

abbreviation levelsOf :: "bookSide \<Rightarrow> BookLevel list" where
  "levelsOf side \<equiv> map (\<lambda>(p, a). \<lparr>bl_Price = p, bl_Amount = a\<rparr>) side"

lemma levelsOf_set: "gwf side \<Longrightarrow> l \<in> set (levelsOf side) \<longleftrightarrow> gget side (bl_Price l) = Some (bl_Amount l)"
proof -
  assume wf: "gwf side"
  have "l \<in> set (levelsOf side) \<longleftrightarrow> (bl_Price l, bl_Amount l) \<in> set side" by (cases l) force
  then show ?thesis using gget_in_set [OF wf, of "bl_Price l" "bl_Amount l"] by simp
qed

lemma levelsOf_prices: "map bl_Price (levelsOf side) = map fst side"
  by (induction side) auto

lemma sort_key_strict: "distinct (map f xs) \<Longrightarrow> sorted_wrt (<) (map f (sort_key f xs))"
  by (simp add: strict_sorted_iff distinct_map)

section \<open>Properties\<close>

text \<open>
  C28. The book refines the abstract book. Whatever updates arrive, a book that is not stale holds exactly the
  maps obtained from one of the snapshots received and an unbroken chain of later changes, ending at the
  book's change identifier; and a snapshot followed by such a chain, after anything else, always leaves
  the book live with exactly those maps.
\<close>

theorem book_refines_updates:
  assumes "b = applyAll us (NewOrderBook instrument)"
  shows "(\<not> ob_Stale b \<longrightarrow> liveFrom instrument us (ob_ChangeID b) (absOf b)) \<and>
    (\<forall>pre snap changes m. us = pre @ snap # changes \<and> bu_Type snap = ''snapshot'' \<and> (\<forall>u\<in>set changes. bu_Type u = ''change'') \<and>
       (\<forall>u\<in>set (snap # changes). bu_InstrumentName u = instrument) \<and> chained (bu_ChangeID snap) changes \<and>
       replay (snap # changes) (Some (Map.empty, Map.empty)) = Some m \<longrightarrow> \<not> ob_Stale b \<and> absOf b = m)"
proof (intro conjI allI impI; (elim conjE)?)
  show "liveFrom instrument us (ob_ChangeID b) (absOf b)" if "\<not> ob_Stale b" using applyAll_live that unfolding assms .
next
  fix pre snap changes m
  assume h: "us = pre @ snap # changes" "bu_Type snap = ''snapshot''" "\<forall>u\<in>set changes. bu_Type u = ''change''"
    "\<forall>u\<in>set (snap # changes). bu_InstrumentName u = instrument" "chained (bu_ChangeID snap) changes"
    "replay (snap # changes) (Some (Map.empty, Map.empty)) = Some m"
  note c = applyAll_chain [OF h(2-6), of pre]
  show "\<not> ob_Stale b" "absOf b = m" using c unfolding assms h(1) by simp_all
qed

definition sampleUpdates :: "BookUpdate list" where
  "sampleUpdates =
     [\<lparr>bu_Type = ''snapshot'', bu_InstrumentName = ''BTC'', bu_ChangeID = 5, bu_PrevChangeID = 0, bu_Timestamp = 1,
        bu_Bids = [[AString ''new'', AFloat 10, AFloat 2]], bu_Asks = [[AString ''new'', AFloat 12, AFloat 1]]\<rparr>,
      \<lparr>bu_Type = ''change'', bu_InstrumentName = ''BTC'', bu_ChangeID = 7, bu_PrevChangeID = 5, bu_Timestamp = 2,
        bu_Bids = [[AString ''delete'', AFloat 10, AFloat 0], [AString ''new'', AFloat 11, AFloat 3]], bu_Asks = []\<rparr>]"

theorem book_refines_updates_witness:
  "liveFrom ''BTC'' sampleUpdates 7 (absOf (applyAll sampleUpdates (NewOrderBook ''BTC''))) \<and>
   ob_bids (applyAll sampleUpdates (NewOrderBook ''BTC'')) = [(11, 3)]"
proof -
  let ?b = "applyAll sampleUpdates (NewOrderBook ''BTC'')"
  have e: "\<not> ob_Stale ?b \<and> ob_ChangeID ?b = 7 \<and> ob_bids ?b = [(11, 3)]" by code_simp
  then show ?thesis using book_refines_updates [OF refl, of sampleUpdates "''BTC''"] by auto
qed

text \<open>
  C40. The listing of a book, after any updates, is well formed: bids strictly fall and asks strictly rise,
  every price and amount is positive, and each side lists exactly the entries of its map.
\<close>

theorem Levels_well_formed:
  "let b = applyAll us (NewOrderBook instrument); bids = fst (Levels b); asks = snd (Levels b) in
   sorted_wrt (>) (map bl_Price bids) \<and> sorted_wrt (<) (map bl_Price asks) \<and>
   (\<forall>l. l \<in> set bids \<union> set asks \<longrightarrow> 0 < bl_Price l \<and> 0 < bl_Amount l) \<and>
   (\<forall>l. l \<in> set bids \<longleftrightarrow> fst (absOf b) (bl_Price l) = Some (bl_Amount l)) \<and>
   (\<forall>l. l \<in> set asks \<longleftrightarrow> snd (absOf b) (bl_Price l) = Some (bl_Amount l))"
proof -
  define b where "b = applyAll us (NewOrderBook instrument)"
  have ok: "sideOk (ob_bids b)" "sideOk (ob_asks b)" using applyAll_bookOk [of us instrument] by (simp_all add: b_def bookOk_def)
  then have wf: "gwf (ob_bids b)" "gwf (ob_asks b)" by (simp_all add: sideOk_def)
  have neg: "map (\<lambda>l. - bl_Price l) (levelsOf (ob_bids b)) = map uminus (map fst (ob_bids b))" by auto
  have "distinct (map (uminus :: rat \<Rightarrow> rat) (map fst (ob_bids b)))" using wf(1) by (subst distinct_map) (simp add: gwf_def)
  then have "distinct (map (\<lambda>l. - bl_Price l) (levelsOf (ob_bids b)))" by (simp only: neg)
  from sort_key_strict [OF this] have "sorted_wrt (>) (map bl_Price (fst (Levels b)))" by (simp add: Levels_def sorted_wrt_map)
  moreover have "sorted_wrt (<) (map bl_Price (snd (Levels b)))"
  proof -
    have "distinct (map bl_Price (levelsOf (ob_asks b)))" using wf(2) by (simp only: levelsOf_prices gwf_def)
    from sort_key_strict [OF this] show ?thesis by (simp add: Levels_def)
  qed
  moreover have "l \<in> set (fst (Levels b)) \<longleftrightarrow> fst (absOf b) (bl_Price l) = Some (bl_Amount l)"
    "l \<in> set (snd (Levels b)) \<longleftrightarrow> snd (absOf b) (bl_Price l) = Some (bl_Amount l)" for l
    using levelsOf_set [OF wf(1)] levelsOf_set [OF wf(2)] by (simp_all add: Levels_def absOf_def)
  ultimately show ?thesis using ok unfolding Let_def b_def [symmetric] by (auto simp: sideOk_def absOf_def)
qed

theorem Levels_well_formed_witness:
  "map bl_Price (fst (Levels (applyAll sampleUpdates (NewOrderBook ''BTC'')))) = [11] \<and>
   sorted_wrt (<) (map bl_Price (snd (Levels (applyAll sampleUpdates (NewOrderBook ''BTC'')))))"
proof -
  have "map bl_Price (fst (Levels (applyAll sampleUpdates (NewOrderBook ''BTC'')))) = [11]" by code_simp
  then show ?thesis using Levels_well_formed [of sampleUpdates "''BTC''"] by (simp add: Let_def)
qed

end
