(* ===== verification/RuntimeEvents.thy ===== *)
theory RuntimeEvents
  imports Domain GoTime "HOL-Library.Word"
begin

text \<open>
  \<open>internal/runtimeevent/broker.go\<close>: sequence-numbered events for the consoles. A subscriber's channel is
  its buffer, with the events its reader has taken so far as a ghost log. \<open>Publish\<close> holds the broker's lock
  but not the readers: while it drains a full channel, a reader may still take events from it, so which of
  the events the reader wins is an argument. Sequence numbers are 64-bit words.
\<close>

section \<open>Model\<close>

record Event =
  ev_Sequence :: "64 word"
  ev_Type :: string
  ev_Venue :: venue
  ev_IntentID :: string
  ev_At :: time

record Subscriber =
  sb_Cap :: nat
  sb_Queue :: "Event list"
  sb_Taken :: "Event list"
  sb_Cursor :: "64 word"

record Broker =
  bk_subscribers :: "(64 word, Subscriber) gomap"
  bk_nextID :: "64 word"
  bk_sequence :: "64 word"

definition NewBroker :: Broker where
  "NewBroker = \<lparr>bk_subscribers = [], bk_nextID = 0, bk_sequence = 0\<rparr>"

definition resyncEvent :: "Event \<Rightarrow> Event" where
  "resyncEvent e = \<lparr>ev_Sequence = ev_Sequence e, ev_Type = ''resync.required'', ev_Venue = [], ev_IntentID = [], ev_At = ev_At e\<rparr>"

text \<open>
  One subscriber of the loop. The send succeeds while the buffer has room; otherwise the buffer is emptied
  and a marker is left in it. The reader and the draining loop race for the events of the buffer: the list
  says which of them the reader got.
\<close>

definition won :: "bool list \<Rightarrow> 'a list \<Rightarrow> 'a list" where
  "won picks xs = map fst (filter snd (zip xs picks))"

definition deliver :: "bool list \<Rightarrow> Event \<Rightarrow> Subscriber \<Rightarrow> Subscriber" where
  "deliver picks e s =
     (if length (sb_Queue s) < sb_Cap s then s\<lparr>sb_Queue := sb_Queue s @ [e]\<rparr>
      else s\<lparr>sb_Queue := (if 0 < sb_Cap s then [resyncEvent e] else []), sb_Taken := sb_Taken s @ won picks (sb_Queue s)\<rparr>)"

definition Publish :: "(64 word \<Rightarrow> bool list) \<Rightarrow> time \<Rightarrow> Event \<Rightarrow> Broker \<Rightarrow> Broker" where
  "Publish readers now event b =
     (if ev_Type event = [] then b
      else
        (let sq = bk_sequence b + 1;
             e = event\<lparr>ev_At := (if IsZero (ev_At event) then now else ev_At event), ev_Sequence := sq\<rparr> in
         b\<lparr>bk_sequence := sq, bk_subscribers := map (\<lambda>(i, s). (i, deliver (readers i) e s)) (bk_subscribers b)\<rparr>))"

definition SubscribeFrom :: "int \<Rightarrow> Broker \<Rightarrow> (64 word \<times> 64 word) \<times> Broker" where
  "SubscribeFrom buffer b =
     (let buf = (if buffer < 1 then 1 else buffer);
          i = bk_nextID b + 1;
          s = \<lparr>sb_Cap = nat buf, sb_Queue = [], sb_Taken = [], sb_Cursor = bk_sequence b\<rparr> in
      ((i, bk_sequence b), b\<lparr>bk_nextID := i, bk_subscribers := gput i s (bk_subscribers b)\<rparr>))"

definition Subscribe :: "int \<Rightarrow> Broker \<Rightarrow> 64 word \<times> Broker" where
  "Subscribe buffer b = (case SubscribeFrom buffer b of ((i, _), b') \<Rightarrow> (i, b'))"

definition unsubscribe :: "64 word \<Rightarrow> Broker \<Rightarrow> Broker" where
  "unsubscribe i b = b\<lparr>bk_subscribers := gdel i (bk_subscribers b)\<rparr>"

text \<open>A reader takes the next event of its channel.\<close>

definition takeEvent :: "64 word \<Rightarrow> Broker \<Rightarrow> Broker" where
  "takeEvent i b =
     (case gget (bk_subscribers b) i of
        None \<Rightarrow> b
      | Some s \<Rightarrow>
          (case sb_Queue s of
             [] \<Rightarrow> b
           | e # q \<Rightarrow> b\<lparr>bk_subscribers := gput i (s\<lparr>sb_Queue := q, sb_Taken := sb_Taken s @ [e]\<rparr>) (bk_subscribers b)\<rparr>))"

definition Broker_Sequence :: "Broker \<Rightarrow> 64 word" where
  "Broker_Sequence b = bk_sequence b"

section \<open>Histories\<close>

inductive broker_step :: "Broker \<Rightarrow> Broker \<Rightarrow> bool" where
  publish: "broker_step b (Publish readers now event b)"
| subscribe: "broker_step b (snd (SubscribeFrom buffer b))"
| unsub: "broker_step b (unsubscribe i b)"
| read: "broker_step b (takeEvent i b)"

text \<open>
  A stream of events after a cursor is announced when an event that does not carry the number after the one
  before it is, or is followed by, a marker to synchronise anew.
\<close>

fun announced :: "64 word \<Rightarrow> Event list \<Rightarrow> bool" where
  "announced c [] = True"
| "announced c (e # es) \<longleftrightarrow>
     (ev_Sequence e = c + 1 \<or> (\<exists>m\<in>set (e # es). ev_Type m = ''resync.required'')) \<and> announced (ev_Sequence e) es"

fun lastSeq :: "64 word \<Rightarrow> Event list \<Rightarrow> 64 word" where
  "lastSeq c [] = c"
| "lastSeq c (e # es) = lastSeq (ev_Sequence e) es"

lemma announced_append: "announced c xs \<Longrightarrow> announced (lastSeq c xs) ys \<Longrightarrow> announced c (xs @ ys)"
  by (induction xs arbitrary: c) auto

lemma announced_marker: "ev_Type m = ''resync.required'' \<Longrightarrow> announced c (xs @ [m])"
  by (induction xs arbitrary: c) auto

lemma announced_gap:
  "announced c (xs @ e # ys) \<Longrightarrow> ev_Sequence e = lastSeq c xs + 1 \<or> (\<exists>m\<in>set (e # ys). ev_Type m = ''resync.required'')"
  by (induction xs arbitrary: c) auto

lemma lastSeq_append: "lastSeq c (xs @ ys) = lastSeq (lastSeq c xs) ys"
  by (induction xs arbitrary: c) auto

definition streamOf :: "Subscriber \<Rightarrow> Event list" where
  "streamOf s = sb_Taken s @ sb_Queue s"

text \<open>What holds of every subscriber: nothing is lost silently, and the stream reaches the broker's number.\<close>

definition subOk :: "64 word \<Rightarrow> Subscriber \<Rightarrow> bool" where
  "subOk n s \<longleftrightarrow> 0 < sb_Cap s \<and> length (sb_Queue s) \<le> sb_Cap s \<and> announced (sb_Cursor s) (streamOf s) \<and>
     lastSeq (sb_Cursor s) (streamOf s) = n"

definition brokerOk :: "Broker \<Rightarrow> bool" where
  "brokerOk b \<longleftrightarrow> gwf (bk_subscribers b) \<and> (\<forall>i s. gget (bk_subscribers b) i = Some s \<longrightarrow> subOk (bk_sequence b) s)"

lemma deliver_ok:
  assumes "subOk n s" "ev_Sequence e = n + 1"
  shows "subOk (n + 1) (deliver picks e s)"
proof (cases "length (sb_Queue s) < sb_Cap s")
  case True
  then show ?thesis using assms announced_append [of "sb_Cursor s" "streamOf s" "[e]"]
    by (simp add: deliver_def subOk_def streamOf_def lastSeq_append)
next
  case False
  have "announced (sb_Cursor s) ((sb_Taken s @ won picks (sb_Queue s)) @ [resyncEvent e])"
    by (rule announced_marker) (simp add: resyncEvent_def)
  then show ?thesis using assms False
    by (simp add: deliver_def subOk_def streamOf_def lastSeq_append) (simp add: resyncEvent_def)
qed

lemma map_of_map_snd: "gget (map (\<lambda>(i, s). (i, f i s)) m) j = map_option (f j) (gget m j)"
  by (induction m) auto

lemma broker_step_ok: "broker_step b b' \<Longrightarrow> brokerOk b \<Longrightarrow> brokerOk b'"
proof (induction rule: broker_step.induct)
  case (publish b readers now event)
  let ?e = "event\<lparr>ev_At := (if IsZero (ev_At event) then now else ev_At event), ev_Sequence := bk_sequence b + 1\<rparr>"
  have "subOk (bk_sequence b + 1) (deliver picks ?e s)" if "subOk (bk_sequence b) s" for picks s
    using deliver_ok [OF that, of ?e] by simp
  moreover have "map fst (map (\<lambda>(i, s). (i, deliver (readers i) ?e s)) (bk_subscribers b)) = map fst (bk_subscribers b)"
    by (simp add: case_prod_beta)
  ultimately show ?case using publish
    by (auto simp: Publish_def Let_def brokerOk_def gwf_def map_of_map_snd simp del: map_map)
next
  case (subscribe b buffer)
  then show ?case by (auto simp: SubscribeFrom_def Let_def brokerOk_def gomap_simps subOk_def streamOf_def)
next
  case (unsub b i)
  then show ?case by (auto simp: unsubscribe_def brokerOk_def gomap_simps)
next
  case (read b i)
  have "subOk n (s\<lparr>sb_Queue := q, sb_Taken := sb_Taken s @ [e]\<rparr>)" if "subOk n s" "sb_Queue s = e # q" for n s e q
    using that by (simp add: subOk_def streamOf_def)
  then show ?case using read by (auto simp: takeEvent_def brokerOk_def gomap_simps split: option.splits list.splits)
qed

lemma broker_reach_ok: "broker_step\<^sup>*\<^sup>* NewBroker b \<Longrightarrow> brokerOk b"
proof (induction rule: rtranclp_induct)
  case base
  then show ?case by (simp add: NewBroker_def brokerOk_def)
next
  case (step b b')
  then show ?case using broker_step_ok by blast
qed

section \<open>Properties\<close>

text \<open>
  C29. No console misses an event without being told. Over any history of publishing, subscribing, reading
  and unsubscribing, and however reads race with publishing, every event of a subscriber's stream (what it
  has taken and what its buffer still holds) carries the next number after the subscriber's cursor, or a
  marker to synchronise anew is there or comes later in the stream. The buffer never exceeds its capacity,
  and a subscriber that has emptied it has seen the broker's latest number.
\<close>

theorem subscriber_stream_announced:
  assumes "broker_step\<^sup>*\<^sup>* NewBroker b" "gget (bk_subscribers b) i = Some s" "sb_Taken s @ sb_Queue s = xs @ e # ys"
  shows "(ev_Sequence e = lastSeq (sb_Cursor s) xs + 1 \<or> (\<exists>m\<in>set (e # ys). ev_Type m = ''resync.required'')) \<and>
    length (sb_Queue s) \<le> sb_Cap s \<and> (sb_Queue s = [] \<longrightarrow> lastSeq (sb_Cursor s) (sb_Taken s) = Broker_Sequence b)"
proof -
  have "subOk (bk_sequence b) s" using broker_reach_ok [OF assms(1)] assms(2) by (auto simp: brokerOk_def)
  then show ?thesis using announced_gap assms(3) by (auto simp: subOk_def streamOf_def Broker_Sequence_def)
qed

definition sampleEvent :: Event where
  "sampleEvent = \<lparr>ev_Sequence = 0, ev_Type = ''trade.updated'', ev_Venue = [], ev_IntentID = ''i1'', ev_At = 0\<rparr>"

definition sampleBroker :: Broker where
  "sampleBroker = takeEvent 1 (Publish (\<lambda>_. []) 3 sampleEvent (Publish (\<lambda>_. []) 2 sampleEvent (snd (SubscribeFrom 1 NewBroker))))"

theorem subscriber_stream_announced_witness:
  "\<exists>s e. gget (bk_subscribers sampleBroker) 1 = Some s \<and> sb_Taken s = [e] \<and> ev_Type e = ''resync.required'' \<and>
     lastSeq (sb_Cursor s) (sb_Taken s) = Broker_Sequence sampleBroker"
proof -
  have c: "case gget (bk_subscribers sampleBroker) 1 of
      Some s \<Rightarrow> map ev_Type (sb_Taken s) = [''resync.required''] \<and> sb_Queue s = [] | None \<Rightarrow> False" by code_simp
  then obtain s e where s: "gget (bk_subscribers sampleBroker) 1 = Some s" "sb_Taken s = [e]" "ev_Type e = ''resync.required''" "sb_Queue s = []"
    by (auto split: option.splits simp: map_eq_Cons_conv)
  have r: "broker_step\<^sup>*\<^sup>* NewBroker sampleBroker" unfolding sampleBroker_def
    by (meson broker_step.intros rtranclp.intros)
  from subscriber_stream_announced [OF r s(1), of "[]" e "[]"] s show ?thesis by auto
qed

end
