(* ===== verification/OrderReconcile.thy ===== *)
theory OrderReconcile
  imports BybitData Paging OrderState
begin

text \<open>
  \<open>internal/reconcile/reconcile.go\<close>: bringing the local order state in line with the exchange. The exchange is
  a reader with three answers; the state is the order service. Each call of the service has its own
  environment, numbered in the order of the calls.
\<close>

section \<open>Data\<close>

record ExchangeReader =
  xr_OpenOrders :: "Order list result"
  xr_RecentOrders :: "Order list result"
  xr_Executions :: "Execution list result"

record Discrepancy =
  dc_Kind :: string
  dc_OrderID :: string
  dc_OrderLinkID :: string
  dc_LocalStatus :: OrderStatus
  dc_RemoteStatus :: OrderStatus
  dc_Action :: string
  dc_Error :: "goerror option"

record Report =
  rp_StartedAt :: time
  rp_FinishedAt :: time
  rp_OpenFetched :: nat
  rp_RecentFetched :: nat
  rp_ExecFetched :: nat
  rp_Discrepancies :: "Discrepancy list"

record SvcEnv =
  se_Env :: Env
  se_Reload :: Env
  se_Now :: time

section \<open>Helpers\<close>

definition dedupKey :: "Order \<Rightarrow> string" where
  "dedupKey ord = (if o_OrderID ord = [] then o_OrderLinkID ord else o_OrderID ord)"

text \<open>The loop of \<open>deduplicateOrders\<close>: the result so far and the position of each key in it.\<close>

fun dedupLoop :: "Order list \<Rightarrow> Order list \<Rightarrow> (string, nat) gomap \<Rightarrow> Order list" where
  "dedupLoop [] result index = result"
| "dedupLoop (ord # ords) result index =
     (case gget index (dedupKey ord) of
        Some position \<Rightarrow>
          dedupLoop ords (if Before (o_UpdatedAt (result ! position)) (o_UpdatedAt ord) then result[position := ord] else result) index
      | None \<Rightarrow> dedupLoop ords (result @ [ord]) (gput (dedupKey ord) (length result) index))"

definition deduplicateOrders :: "Order list \<Rightarrow> Order list" where
  "deduplicateOrders orders = dedupLoop orders [] []"

definition findSnapshotOrder :: "Snapshot \<Rightarrow> string \<Rightarrow> string \<Rightarrow> (string \<times> Order) option" where
  "findSnapshotOrder s orderID orderLinkID =
     (case (if orderLinkID \<noteq> [] then gget (os_Orders s) orderLinkID else None) of
        Some ord \<Rightarrow> Some (orderLinkID, ord)
      | None \<Rightarrow> find (\<lambda>(key, ord). orderID \<noteq> [] \<and> o_OrderID ord = orderID) (os_Orders s))"

definition findDomainOrder :: "Order list \<Rightarrow> string \<Rightarrow> string \<Rightarrow> Order option" where
  "findDomainOrder orders orderID orderLinkID =
     find (\<lambda>ord. (orderID \<noteq> [] \<and> o_OrderID ord = orderID) \<or> (orderLinkID \<noteq> [] \<and> o_OrderLinkID ord = orderLinkID)) orders"

definition isTerminal :: "OrderStatus \<Rightarrow> bool" where
  "isTerminal status \<longleftrightarrow> status = OrderStatusFilled \<or> status = OrderStatusCancelled \<or> status = OrderStatusRejected"

section \<open>Reconcile\<close>

definition noDiscrepancy :: Discrepancy where
  "noDiscrepancy = \<lparr>dc_Kind = [], dc_OrderID = [], dc_OrderLinkID = [], dc_LocalStatus = OrderStatusEmpty,
     dc_RemoteStatus = OrderStatusEmpty, dc_Action = [], dc_Error = None\<rparr>"

definition sameProgress :: "Order \<Rightarrow> Order \<Rightarrow> bool" where
  "sameProgress local ord \<longleftrightarrow>
     o_Status local = o_Status ord \<and> o_CumFilledQty local = o_CumFilledQty ord \<and> o_OrderID local = o_OrderID ord"

definition orderDiscrepancy :: "(string \<times> Order) option \<Rightarrow> Order \<Rightarrow> Discrepancy" where
  "orderDiscrepancy found ord =
     (let d = noDiscrepancy\<lparr>dc_Kind := ''order_state'', dc_OrderID := o_OrderID ord, dc_OrderLinkID := o_OrderLinkID ord,
                dc_RemoteStatus := o_Status ord, dc_Action := ''repaired_from_REST''\<rparr> in
      case found of
        Some (_, local) \<Rightarrow> d\<lparr>dc_LocalStatus := o_Status local\<rparr>
      | None \<Rightarrow> d\<lparr>dc_Kind := ''unknown_exchange_order'', dc_Action := ''imported_from_REST''\<rparr>)"

definition leftVisible :: "goerror option \<Rightarrow> Discrepancy \<Rightarrow> Discrepancy" where
  "leftVisible err d = (case err of None \<Rightarrow> d | Some e \<Rightarrow> d\<lparr>dc_Action := ''left_visible'', dc_Error := Some e\<rparr>)"

definition repairOrder :: "SvcEnv \<Rightarrow> Snapshot \<Rightarrow> Order \<Rightarrow> Service \<Rightarrow> Discrepancy list \<times> Service" where
  "repairOrder env before ord sv =
     (let found = findSnapshotOrder before (o_OrderID ord) (o_OrderLinkID ord) in
      case found of
        Some (_, local) \<Rightarrow>
          (if sameProgress local ord then ([], sv)
           else case ApplyOrder (se_Env env) (se_Reload env) (se_Now env) ord sv of
               (err, sv') \<Rightarrow> ([leftVisible err (orderDiscrepancy found ord)], sv'))
      | None \<Rightarrow>
          (case ApplyOrder (se_Env env) (se_Reload env) (se_Now env) ord sv of
             (err, sv') \<Rightarrow> ([leftVisible err (orderDiscrepancy found ord)], sv')))"

fun repairOrders :: "(nat \<Rightarrow> SvcEnv) \<Rightarrow> Snapshot \<Rightarrow> nat \<Rightarrow> Order list \<Rightarrow> Service \<Rightarrow> Discrepancy list \<times> Service" where
  "repairOrders envs before n [] sv = ([], sv)"
| "repairOrders envs before n (ord # ords) sv =
     (case repairOrder (envs n) before ord sv of
        (ds, sv1) \<Rightarrow> (case repairOrders envs before (Suc n) ords sv1 of (ds', sv2) \<Rightarrow> (ds @ ds', sv2)))"

definition repairExecution :: "SvcEnv \<Rightarrow> Snapshot \<Rightarrow> Order list \<Rightarrow> Execution \<Rightarrow> Service \<Rightarrow> Discrepancy list \<times> Service" where
  "repairExecution env before remote x sv =
     (if gget (os_Executions before) (x_ExecutionID x) \<noteq> None then ([], sv)
      else
        (let d = noDiscrepancy\<lparr>dc_Kind := ''missing_execution'', dc_OrderID := x_OrderID x, dc_OrderLinkID := x_OrderLinkID x,
                   dc_Action := ''applied_execution''\<rparr> in
         if findDomainOrder remote (x_OrderID x) (x_OrderLinkID x) \<noteq> None
         then (case RecordExecution (se_Env env) (se_Reload env) x sv of
                 (err, sv') \<Rightarrow> ([leftVisible err (d\<lparr>dc_Action := ''recorded_execution_REST_order_already_authoritative''\<rparr>)], sv'))
         else (case ApplyExecution (se_Env env) (se_Reload env) (se_Now env) x sv of
                 (err, sv') \<Rightarrow> ([leftVisible err d], sv'))))"

fun repairExecutions :: "(nat \<Rightarrow> SvcEnv) \<Rightarrow> Snapshot \<Rightarrow> Order list \<Rightarrow> nat \<Rightarrow> Execution list \<Rightarrow> Service \<Rightarrow> Discrepancy list \<times> Service" where
  "repairExecutions envs before remote n [] sv = ([], sv)"
| "repairExecutions envs before remote n (x # xs) sv =
     (case repairExecution (envs n) before remote x sv of
        (ds, sv1) \<Rightarrow> (case repairExecutions envs before remote (Suc n) xs sv1 of (ds', sv2) \<Rightarrow> (ds @ ds', sv2)))"

text \<open>The local orders no remote order was matched with, that are open and not listed under their identifiers.\<close>

definition absentOrders :: "Snapshot \<Rightarrow> Snapshot \<Rightarrow> Order list \<Rightarrow> Discrepancy list" where
  "absentOrders before after remote =
     map (\<lambda>(key, local). noDiscrepancy\<lparr>dc_Kind := ''local_order_absent_remotely'', dc_OrderID := o_OrderID local,
            dc_OrderLinkID := o_OrderLinkID local, dc_LocalStatus := o_Status local, dc_Action := ''left_visible_ambiguous''\<rparr>)
       (filter (\<lambda>(key, local).
            \<not> list_ex (\<lambda>ord. map_option fst (findSnapshotOrder before (o_OrderID ord) (o_OrderLinkID ord)) = Some key) remote \<and>
            \<not> isTerminal (case gget (os_Orders after) key of None \<Rightarrow> OrderStatusEmpty | Some ord \<Rightarrow> o_Status ord) \<and>
            findDomainOrder remote (o_OrderID local) (o_OrderLinkID local) = None)
         (os_Orders before))"

definition reconcileFetched ::
    "(nat \<Rightarrow> SvcEnv) \<Rightarrow> Report \<Rightarrow> time \<Rightarrow> Order list \<Rightarrow> Order list \<Rightarrow> Execution list \<Rightarrow> Service \<Rightarrow> Report \<times> Service" where
  "reconcileFetched envs report finished openOrders recentOrders executions sv =
     (let before = sv_Snapshot sv;
          remote = deduplicateOrders (openOrders @ recentOrders) in
      case repairOrders envs before 0 remote sv of
        (ds1, sv1) \<Rightarrow>
          (case repairExecutions envs before remote (length remote) (sort_key x_ExchangeTime executions) sv1 of
             (ds2, sv2) \<Rightarrow>
               (report\<lparr>rp_OpenFetched := length openOrders, rp_RecentFetched := length recentOrders,
                  rp_ExecFetched := length executions, rp_FinishedAt := finished,
                  rp_Discrepancies := ds1 @ ds2 @ absentOrders before (sv_Snapshot sv2) remote\<rparr>, sv2)))"

definition Reconcile ::
    "(nat \<Rightarrow> SvcEnv) \<Rightarrow> time \<Rightarrow> time \<Rightarrow> ExchangeReader option \<Rightarrow> Service option \<Rightarrow> (Report \<times> goerror option) \<times> Service option" where
  "Reconcile envs started finished reader state =
     (let report = \<lparr>rp_StartedAt = started, rp_FinishedAt = 0, rp_OpenFetched = 0, rp_RecentFetched = 0, rp_ExecFetched = 0,
                     rp_Discrepancies = []\<rparr> in
      case (state, reader) of
        (Some sv, Some r) \<Rightarrow>
          (case xr_OpenOrders r of
             Inl e \<Rightarrow> ((report, Some (EWrap ''fetch open orders'' e)), state)
           | Inr openOrders \<Rightarrow>
               (case xr_RecentOrders r of
                  Inl e \<Rightarrow> ((report, Some (EWrap ''fetch recent orders'' e)), state)
                | Inr recentOrders \<Rightarrow>
                    (case xr_Executions r of
                       Inl e \<Rightarrow> ((report, Some (EWrap ''fetch executions'' e)), state)
                     | Inr executions \<Rightarrow>
                         (case reconcileFetched envs report finished openOrders recentOrders executions sv of
                            (report', sv') \<Rightarrow> ((report', None), Some sv')))))
      | _ \<Rightarrow> ((report, Some (EText ''reconciler requires state and exchange reader'')), state))"

section \<open>The REST reader\<close>

text \<open>The symbols of the reader in turn; one symbol whose pages never end keeps the whole call from ending.\<close>

fun symbolPages :: "goerror \<Rightarrow> (string \<Rightarrow> string \<Rightarrow> 'a page result) \<Rightarrow> ('a \<Rightarrow> 'b) \<Rightarrow> string list \<Rightarrow> 'b list \<Rightarrow> 'b list result option" where
  "symbolPages repeated load conv [] acc = Some (Inr acc)"
| "symbolPages repeated load conv (symbol # symbols) acc =
     (case restPages repeated (load symbol) [] [] [] of
        None \<Rightarrow> None
      | Some (Inl e) \<Rightarrow> Some (Inl e)
      | Some (Inr xs) \<Rightarrow> symbolPages repeated load conv symbols (acc @ map conv xs))"

definition RESTReader_orders :: "string \<Rightarrow> string list \<Rightarrow> (string \<Rightarrow> string \<Rightarrow> BybitOrder page result) \<Rightarrow> Order list result option" where
  "RESTReader_orders category symbols load =
     symbolPages (EText ''Bybit order pagination cursor repeated'') load (restOrder category) symbols []"

definition RESTReader_Executions ::
    "string \<Rightarrow> string list \<Rightarrow> time \<Rightarrow> (string \<Rightarrow> string \<Rightarrow> BybitExecution page result) \<Rightarrow> Execution list result option" where
  "RESTReader_Executions category symbols now load =
     symbolPages (EText ''Bybit execution pagination cursor repeated'') load (restExecution category now) symbols []"

end
