(* ===== verification/OrderReconcileProps.thy ===== *)
theory OrderReconcileProps
  imports OrderReconcile OrderInv
begin

text \<open>
  What the order reconciliation promises: the remote orders are deduplicated to their newest versions, the
  paging of the REST reader is complete and ends, and fills already reflected in a listed order are not
  counted again.
\<close>

section \<open>Deduplication\<close>

definition indexOk :: "Order list \<Rightarrow> (string, nat) gomap \<Rightarrow> bool" where
  "indexOk result index \<longleftrightarrow>
     (\<forall>k p. gget index k = Some p \<longleftrightarrow> p < length result \<and> dedupKey (result ! p) = k)"

lemma indexOk_distinct: "indexOk result index \<Longrightarrow> distinct (map dedupKey result)"
  unfolding indexOk_def distinct_conv_nth by (metis length_map nth_map option.inject)

lemma indexOk_update: "indexOk result index \<Longrightarrow> gget index (dedupKey ord) = Some p \<Longrightarrow> indexOk (result[p := ord]) index"
  unfolding indexOk_def by (metis length_list_update nth_list_update)

lemma indexOk_append: "indexOk result index \<Longrightarrow> gget index (dedupKey ord) = None \<Longrightarrow>
   indexOk (result @ [ord]) (gput (dedupKey ord) (length result) index)"
  unfolding indexOk_def by (auto simp: gomap_simps nth_append less_Suc_eq) (metis option.distinct(1))

definition covers :: "Order list \<Rightarrow> Order list \<Rightarrow> bool" where
  "covers result ords \<longleftrightarrow>
     (\<forall>ord\<in>set ords. \<exists>r\<in>set result. dedupKey r = dedupKey ord \<and> o_UpdatedAt ord \<le> o_UpdatedAt r)"

lemma covers_update:
  assumes "covers result ords" "p < length result" "dedupKey (result ! p) = dedupKey ord" "o_UpdatedAt (result ! p) \<le> o_UpdatedAt ord"
  shows "covers (result[p := ord]) (ords @ [ord])"
  unfolding covers_def
proof
  fix o' assume "o' \<in> set (ords @ [ord])"
  then consider "o' = ord" | r where "r \<in> set result" "dedupKey r = dedupKey o'" "o_UpdatedAt o' \<le> o_UpdatedAt r"
    using assms(1) unfolding covers_def by auto
  then show "\<exists>r\<in>set (result[p := ord]). dedupKey r = dedupKey o' \<and> o_UpdatedAt o' \<le> o_UpdatedAt r"
  proof cases
    case 1
    then show ?thesis using set_update_memI [OF assms(2)] by auto
  next
    case (2 r)
    then obtain j where j: "j < length result" "r = result ! j" by (auto simp: in_set_conv_nth)
    show ?thesis
    proof (cases "j = p")
      case True
      then show ?thesis using 2 j assms(3,4) set_update_memI [OF assms(2), of ord] by auto
    next
      case False
      then have "r \<in> set (result[p := ord])" using j by (metis in_set_conv_nth length_list_update nth_list_update_neq)
      then show ?thesis using 2 by blast
    qed
  qed
qed

lemma dedupLoop_spec:
  assumes "indexOk result index" "set result \<subseteq> set done" "covers result done"
  shows "distinct (map dedupKey (dedupLoop ords result index)) \<and> set (dedupLoop ords result index) \<subseteq> set (done @ ords) \<and>
    covers (dedupLoop ords result index) (done @ ords)"
  using assms
proof (induction ords arbitrary: result index "done")
  case Nil
  then show ?case using indexOk_distinct by simp
next
  case (Cons ord ords)
  show ?case
  proof (cases "gget index (dedupKey ord)")
    case None
    have "covers (result @ [ord]) (done @ [ord])" using Cons.prems(3) unfolding covers_def by auto
    then show ?thesis
      using Cons.IH [OF indexOk_append [OF Cons.prems(1) None], of "done @ [ord]"] Cons.prems(2) None by auto
  next
    case (Some p)
    then have p: "p < length result" "dedupKey (result ! p) = dedupKey ord" using Cons.prems(1) by (auto simp: indexOk_def)
    show ?thesis
    proof (cases "Before (o_UpdatedAt (result ! p)) (o_UpdatedAt ord)")
      case True
      then have "covers (result[p := ord]) (done @ [ord])"
        using covers_update [OF Cons.prems(3) p] by (simp add: time_defs)
      moreover have "set (result[p := ord]) \<subseteq> set (done @ [ord])" using Cons.prems(2) set_update_subset_insert [of result p ord] by auto
      ultimately show ?thesis using Cons.IH [OF indexOk_update [OF Cons.prems(1) Some], of "done @ [ord]"] Some True by auto
    next
      case False
      then have "covers result (done @ [ord])"
        using Cons.prems(3) p nth_mem [OF p(1)] unfolding covers_def by (auto simp: time_defs not_less)
      then show ?thesis using Cons.IH [OF Cons.prems(1), of "done @ [ord]"] Cons.prems(2) Some False by auto
    qed
  qed
qed

section \<open>Fills of listed orders\<close>

definition listed :: "Order list \<Rightarrow> Execution \<Rightarrow> bool" where
  "listed remote x \<longleftrightarrow> findDomainOrder remote (x_OrderID x) (x_OrderLinkID x) \<noteq> None"

definition fillsOrder :: "Execution \<Rightarrow> Order \<Rightarrow> bool" where
  "fillsOrder x ord \<longleftrightarrow> matchesOrder (x_OrderID x) (x_OrderLinkID x) (executionAccount x) ord"

text \<open>How the snapshot may change: executions are kept, an order only by an execution of an order not listed.\<close>

definition grows :: "(Execution \<Rightarrow> bool) \<Rightarrow> Execution list \<Rightarrow> Snapshot \<Rightarrow> Snapshot \<Rightarrow> bool" where
  "grows free xs s s' \<longleftrightarrow>
     (\<forall>k v. gget (os_Executions s) k = Some v \<longrightarrow> gget (os_Executions s') k = Some v) \<and>
     (\<forall>k ord. gget (os_Orders s) k = Some ord \<longrightarrow>
        gget (os_Orders s') k = Some ord \<or>
        (\<exists>ord'. gget (os_Orders s') k = Some ord' \<and> sameIdentity ord ord' \<and> (\<exists>x\<in>set xs. free x \<and> fillsOrder x ord)))"

lemma grows_refl [simp]: "grows free xs s s"
  by (simp add: grows_def)

lemma sameIdentity_trans: "sameIdentity a b \<Longrightarrow> sameIdentity b c \<Longrightarrow> sameIdentity a c"
  by (simp add: sameIdentity_def)

lemma grows_trans:
  assumes "grows free xs s t" "grows free ys t u"
  shows "grows free (xs @ ys) s u"
proof -
  have "gget (os_Orders u) k = Some ord \<or>
      (\<exists>ord'. gget (os_Orders u) k = Some ord' \<and> sameIdentity ord ord' \<and> (\<exists>x\<in>set (xs @ ys). free x \<and> fillsOrder x ord))"
    if k: "gget (os_Orders s) k = Some ord" for k ord
  proof -
    obtain b where b: "gget (os_Orders t) k = Some b" "b = ord \<or> sameIdentity ord b \<and> (\<exists>x\<in>set xs. free x \<and> fillsOrder x ord)"
      using assms(1) k unfolding grows_def by blast
    obtain c where c: "gget (os_Orders u) k = Some c" "c = b \<or> sameIdentity b c \<and> (\<exists>x\<in>set ys. free x \<and> fillsOrder x b)"
      using assms(2) b(1) unfolding grows_def by blast
    have m: "fillsOrder x b = fillsOrder x ord" if "sameIdentity ord b" for x
      using sameIdentity_matches [OF that] by (simp add: fillsOrder_def)
    show ?thesis using b(2) c sameIdentity_trans m by (cases "b = ord"; cases "c = b") auto
  qed
  then show ?thesis using assms unfolding grows_def by blast
qed

lemma grows_touch [simp]: "grows free xs s (orderTouch now s') = grows free xs s s'"
  by (simp add: grows_def orderTouch_def)

lemma record_grows: "recordExecutionToSnapshot x s = Inr s' \<Longrightarrow> grows free [x] s s'"
  by (auto simp: recordExecutionToSnapshot_def grows_def gomap_simps split: if_splits option.splits)

lemma apply_grows:
  assumes "applyExecutionToSnapshot now x s = Inr s'" "free x" "gwf (os_Orders s)"
  shows "grows free [x] s s'"
  using assms(1)
proof (cases rule: applyExecution_shape)
  case (filled k ord ord')
  have "gget (os_Orders s) k = Some ord" "fillsOrder x ord"
    using findOrder_Some [OF filled(1)] assms(3) by (auto simp: gget_in_set fillsOrder_def)
  then show ?thesis using filled assms(2) by (auto simp: grows_def gomap_simps)
qed simp

lemma Service_mutate_grows:
  assumes "Service_mutate env reload operation sv = (e, sv')" "orderPeek (sv_File sv) = Some s" "keysInv s"
    and "\<And>s'. operation s = Inr s' \<Longrightarrow> grows free xs s s' \<and> keysInv s'"
  shows "\<exists>s'. orderPeek (sv_File sv') = Some s' \<and> keysInv s' \<and> grows free xs s s'"
  using assms(1)
proof (cases rule: Service_mutate_cases)
  case (refused e')
  then show ?thesis using assms(2,3) by auto
next
  case (applied u u')
  then show ?thesis using assms(2,4) keysInv_touch by auto
qed

lemma repairExecution_grows:
  assumes "repairExecution env before remote x sv = (ds, sv')" "orderPeek (sv_File sv) = Some s" "keysInv s"
  shows "\<exists>s'. orderPeek (sv_File sv') = Some s' \<and> keysInv s' \<and> grows (\<lambda>x. \<not> listed remote x) [x] s s'"
proof -
  have wf: "gwf (os_Orders s)" using assms(3) by (simp add: keysInv_def)
  obtain e1 sv1 where r: "RecordExecution (se_Env env) (se_Reload env) x sv = (e1, sv1)" by (metis surj_pair)
  obtain e2 sv2 where a: "ApplyExecution (se_Env env) (se_Reload env) (se_Now env) x sv = (e2, sv2)" by (metis surj_pair)
  have 1: "\<exists>s'. orderPeek (sv_File sv1) = Some s' \<and> keysInv s' \<and> grows (\<lambda>x. \<not> listed remote x) [x] s s'"
  proof (cases "x_ExecutionID x = []")
    case False
    then have "Service_mutate (se_Env env) (se_Reload env) (recordExecutionToSnapshot x) sv = (e1, sv1)" using r by (simp add: RecordExecution_def)
    then show ?thesis using assms(2,3) by (rule Service_mutate_grows) (simp add: record_grows execution_keys(2) [OF _ assms(3)])
  qed (use r assms(2,3) in \<open>auto simp: RecordExecution_def\<close>)
  have 2: "\<exists>s'. orderPeek (sv_File sv2) = Some s' \<and> keysInv s' \<and> grows (\<lambda>x. \<not> listed remote x) [x] s s'" if "\<not> listed remote x"
  proof (cases "x_ExecutionID x = []")
    case False
    then have "Service_mutate (se_Env env) (se_Reload env) (applyExecutionToSnapshot (se_Now env) x) sv = (e2, sv2)" using a by (simp add: ApplyExecution_def)
    then show ?thesis using assms(2,3)
      by (rule Service_mutate_grows) (simp add: apply_grows [where free = "\<lambda>x. \<not> listed remote x"] that wf execution_keys(1) [OF _ assms(3)])
  qed (use a assms(2,3) in \<open>auto simp: ApplyExecution_def\<close>)
  consider "sv' = sv" | "sv' = sv1" | "sv' = sv2" "\<not> listed remote x"
    using assms(1) r a by (auto simp: repairExecution_def Let_def listed_def split: if_splits)
  then show ?thesis using 1 2 assms(2,3) by cases auto
qed

lemma repairExecutions_grows:
  assumes "repairExecutions envs before remote n xs sv = (ds, sv')" "orderPeek (sv_File sv) = Some s" "keysInv s"
  shows "\<exists>s'. orderPeek (sv_File sv') = Some s' \<and> keysInv s' \<and> grows (\<lambda>x. \<not> listed remote x) xs s s'"
  using assms
proof (induction xs arbitrary: n sv ds s)
  case Nil
  then show ?case by auto
next
  case (Cons x xs)
  obtain d1 sv1 where 1: "repairExecution (envs n) before remote x sv = (d1, sv1)" by (metis surj_pair)
  obtain d2 where 2: "repairExecutions envs before remote (Suc n) xs sv1 = (d2, sv')"
    using Cons.prems(1) 1 by (auto split: prod.splits)
  obtain s1 where s1: "orderPeek (sv_File sv1) = Some s1" "keysInv s1" "grows (\<lambda>x. \<not> listed remote x) [x] s s1"
    using repairExecution_grows [OF 1 Cons.prems(2,3)] by blast
  obtain s' where "orderPeek (sv_File sv') = Some s'" "keysInv s'" "grows (\<lambda>x. \<not> listed remote x) xs s1 s'"
    using Cons.IH [OF 2 s1(1,2)] by blast
  then show ?case using grows_trans [OF s1(3)] by fastforce
qed

section \<open>The REST reader\<close>

definition finitelyPaged :: "(string \<Rightarrow> 'a page result) \<Rightarrow> bool" where
  "finitelyPaged load \<longleftrightarrow> finite {n. \<exists>c xs. load c = Inr (xs, n)}"

definition wholeListing :: "(string \<Rightarrow> 'a page result) \<Rightarrow> 'a list \<Rightarrow> bool" where
  "wholeListing load xs \<longleftrightarrow> (\<exists>cs. pageChain load [] cs xs \<and> distinct cs)"

lemma restPages_ends_finitely: "finitelyPaged load \<Longrightarrow> \<exists>r. restPages repeated load [] [] [] = Some r"
  unfolding finitelyPaged_def by (rule restPages_ends) auto

lemma restPages_whole: "restPages repeated load [] [] [] = Some (Inr xs) \<longleftrightarrow> wholeListing load xs"
proof
  assume "restPages repeated load [] [] [] = Some (Inr xs)"
  from restPages_sound [OF this] show "wholeListing load xs" by (auto simp: pagedTo_def wholeListing_def)
next
  assume "wholeListing load xs"
  then obtain cs where "pageChain load [] cs xs" "distinct cs" by (auto simp: wholeListing_def)
  from restPages_chain [OF _ this, of "[]" repeated "[]"] show "restPages repeated load [] [] [] = Some (Inr xs)" by simp
qed

lemma symbolPages_ends:
  "\<forall>sym\<in>set symbols. finitelyPaged (load sym) \<Longrightarrow> \<exists>r. symbolPages repeated load conv symbols acc = Some r"
proof (induction symbols arbitrary: acc)
  case (Cons sym symbols)
  obtain r where "restPages repeated (load sym) [] [] [] = Some r" using restPages_ends_finitely Cons.prems by (metis list.set_intros(1))
  then show ?case using Cons by (cases r) auto
qed simp

lemma symbolPages_whole:
  "symbolPages repeated load conv symbols acc = Some (Inr ys) \<longleftrightarrow>
   (\<exists>lists. list_all2 (\<lambda>sym. wholeListing (load sym)) symbols lists \<and> ys = acc @ map conv (concat lists))"
proof (induction symbols arbitrary: acc)
  case (Cons sym symbols)
  have "symbolPages repeated load conv (sym # symbols) acc = Some (Inr ys) \<longleftrightarrow>
      (\<exists>xs. restPages repeated (load sym) [] [] [] = Some (Inr xs) \<and> symbolPages repeated load conv symbols (acc @ map conv xs) = Some (Inr ys))"
    by (auto split: option.splits sum.splits)
  also have "\<dots> \<longleftrightarrow> (\<exists>xs lists. wholeListing (load sym) xs \<and> list_all2 (\<lambda>sym. wholeListing (load sym)) symbols lists \<and>
      ys = acc @ map conv (xs @ concat lists))"
    unfolding Cons.IH restPages_whole by auto
  also have "\<dots> \<longleftrightarrow> (\<exists>lists. list_all2 (\<lambda>sym. wholeListing (load sym)) (sym # symbols) lists \<and> ys = acc @ map conv (concat lists))"
    by (auto simp: list_all2_Cons1) (metis concat.simps(2) map_append | blast)+
  finally show ?case .
qed auto

section \<open>Properties\<close>

text \<open>
  Deduplicating the open and the recent orders keeps one order per identifier, and it is the newest
  version the exchange gave of that order.
\<close>

theorem deduplicateOrders_newest:
  "distinct (map dedupKey (deduplicateOrders orders)) \<and> set (deduplicateOrders orders) \<subseteq> set orders \<and>
   (\<forall>ord\<in>set orders. \<exists>r\<in>set (deduplicateOrders orders). dedupKey r = dedupKey ord \<and> o_UpdatedAt ord \<le> o_UpdatedAt r)"
  using dedupLoop_spec [of "[]" "[]" "[]" orders] by (simp add: deduplicateOrders_def indexOk_def covers_def)

theorem deduplicateOrders_newest_witness:
  "\<exists>r\<in>set (deduplicateOrders [sampleOrder, sampleOrder\<lparr>o_UpdatedAt := 9\<rparr>]). dedupKey r = ''L1'' \<and> 9 \<le> o_UpdatedAt r"
  using deduplicateOrders_newest [of "[sampleOrder, sampleOrder\<lparr>o_UpdatedAt := 9\<rparr>]"]
  by (auto simp: dedupKey_def sampleOrder_def zeroOrder_def)

text \<open>
  C27. Reading the orders of the configured symbols ends whenever the exchange has finitely many cursors, and
  it succeeds exactly with the whole listing of every symbol, in order; nothing bounds the number of pages,
  so an exchange that invents new cursors forever is never answered.
\<close>

theorem RESTReader_orders_complete:
  "((\<forall>sym\<in>set symbols. finitelyPaged (load sym)) \<longrightarrow> (\<exists>r. RESTReader_orders category symbols load = Some r)) \<and>
   (RESTReader_orders category symbols load = Some (Inr orders) \<longleftrightarrow>
     (\<exists>lists. list_all2 (\<lambda>sym. wholeListing (load sym)) symbols lists \<and> orders = map (restOrder category) (concat lists)))"
  unfolding RESTReader_orders_def by (simp add: symbolPages_whole) (use symbolPages_ends in blast)

definition onePage :: "string \<Rightarrow> string \<Rightarrow> BybitOrder page result" where
  "onePage symbol cursor = Inr ([], [])"

theorem RESTReader_orders_complete_witness:
  "\<exists>r. RESTReader_orders ''linear'' [''BTCUSDT''] onePage = Some r"
proof -
  have "finitelyPaged (onePage sym)" for sym by (simp add: finitelyPaged_def onePage_def)
  then show ?thesis using RESTReader_orders_complete [of "[''BTCUSDT'']" onePage] by blast
qed

text \<open>
  A fill the exchange has already counted in a listed order is not counted again: whatever fails on the
  way, handling the executions keeps every execution on record, and an order whose executions all belong to
  listed orders keeps its filled quantity and everything else.
\<close>

theorem listed_fills_not_counted_twice:
  assumes "repairExecutions envs before remote n xs sv = (ds, sv')" "orderPeek (sv_File sv) = Some s" "keysInv s"
  shows "\<exists>s'. orderPeek (sv_File sv') = Some s' \<and>
    (\<forall>k v. gget (os_Executions s) k = Some v \<longrightarrow> gget (os_Executions s') k = Some v) \<and>
    (\<forall>k ord. gget (os_Orders s) k = Some ord \<and>
       (\<forall>x\<in>set xs. matchesOrder (x_OrderID x) (x_OrderLinkID x) (executionAccount x) ord \<longrightarrow>
          findDomainOrder remote (x_OrderID x) (x_OrderLinkID x) \<noteq> None) \<longrightarrow>
       gget (os_Orders s') k = Some ord)"
proof -
  obtain s' where "orderPeek (sv_File sv') = Some s'" "grows (\<lambda>x. \<not> listed remote x) xs s s'"
    using repairExecutions_grows [OF assms] by blast
  then show ?thesis unfolding grows_def listed_def fillsOrder_def by blast
qed

theorem listed_fills_not_counted_twice_witness:
  "\<exists>s'. orderPeek (sv_File (snd (repairExecutions (\<lambda>_. \<lparr>se_Env = quietEnv 5, se_Reload = quietEnv 6, se_Now = 7\<rparr>)
      sampleOrders [sampleOrder] 0 [sampleExecution ''x1'' ''0.5''] sampleService))) = Some s' \<and>
    gget (os_Orders s') ''L1'' = Some sampleOrder"
proof -
  let ?r = "repairExecutions (\<lambda>_. \<lparr>se_Env = quietEnv 5, se_Reload = quietEnv 6, se_Now = 7\<rparr>)
      sampleOrders [sampleOrder] 0 [sampleExecution ''x1'' ''0.5''] sampleService"
  have k: "keysInv sampleOrders" using order_reach_keys [OF sampleService_reach] sampleService_peek by (simp add: orders.holds_def)
  have l: "findDomainOrder [sampleOrder] (x_OrderID (sampleExecution ''x1'' ''0.5'')) (x_OrderLinkID (sampleExecution ''x1'' ''0.5'')) \<noteq> None"
    by code_simp
  have o: "gget (os_Orders sampleOrders) ''L1'' = Some sampleOrder" by (simp add: sampleOrders_def)
  show ?thesis using listed_fills_not_counted_twice [OF prod.collapse [symmetric] sampleService_peek k, of _ sampleOrders "[sampleOrder]" 0
      "[sampleExecution ''x1'' ''0.5'']"] l o by fastforce
qed

end
