(* ===== verification/DeribitReconcile.thy ===== *)
theory DeribitReconcile
  imports DeribitData IntentStore OrderReconcile "HOL-Library.Product_Lexorder"
begin

text \<open>
  \<open>internal/deribitreconcile/reconcile.go\<close>: recovering Deribit plans and recording their trades. It reads the
  plans of the intent store, asks the venue for the orders with a plan's label, brings orders and trades into
  the order state and finishes the plan; then it pages through the trades of each instrument behind a stored
  cursor. The private stream uses the same two operations.
\<close>

section \<open>Data\<close>

record Queries =
  dq_OrdersByLabel :: "string \<Rightarrow> string \<Rightarrow> DeribitOrder list result"
  dq_TradesByOrder :: "string \<Rightarrow> DeribitTrade list result"
  dq_TradesByInstrument :: "string \<Rightarrow> int \<Rightarrow> int \<Rightarrow> TradePage result"

text \<open>The order service is part of the world below; \<open>drc_HasState\<close> says whether the pointer to it is set.\<close>

record DeribitReconciler =
  drc_Queries :: "Queries option"
  drc_Path :: string
  drc_AccountAlias :: string
  drc_HasState :: bool

record DeribitReport =
  dp_PlansChecked :: nat
  dp_Recovered :: nat
  dp_NeedsReview :: nat
  dp_Unresolved :: nat
  dp_OrdersApplied :: nat
  dp_TradesApplied :: nat
  dp_DuplicateOrExternalTrades :: nat
  dp_Pages :: nat

record PrivateEventReport =
  pr_OrdersApplied :: nat
  pr_TradesApplied :: nat
  pr_DuplicateOrExternalTrades :: nat
  pr_PositionsObserved :: nat

definition emptyReport :: DeribitReport where
  "emptyReport = \<lparr>dp_PlansChecked = 0, dp_Recovered = 0, dp_NeedsReview = 0, dp_Unresolved = 0, dp_OrdersApplied = 0,
     dp_TradesApplied = 0, dp_DuplicateOrExternalTrades = 0, dp_Pages = 0\<rparr>"

record UserChanges =
  uc_Orders :: "DeribitOrder list"
  uc_Trades :: "DeribitTrade list"
  uc_Positions :: "string list"

text \<open>
  \<open>DecodeUserChanges\<close> after JSON decoding (\<open>None\<close> is a payload that does not decode); of a position only its
  instrument is read.
\<close>

definition DecodeUserChanges :: "UserChanges option \<Rightarrow> bool \<Rightarrow> UserChanges result" where
  "DecodeUserChanges decoded blank =
     (if blank then Inl (EText ''Deribit user changes payload is empty'')
      else case decoded of
        None \<Rightarrow> Inl (EText ''malformed Deribit user changes payload'')
      | Some changes \<Rightarrow>
          (if list_ex (\<lambda>ord. do_OrderID ord = [] \<or> do_InstrumentName ord = [] \<or> do_OrderState ord = []) (uc_Orders changes)
           then Inl (EText ''Deribit user changes order lacks identity or state'')
           else if list_ex (\<lambda>trade. dt_TradeID trade = [] \<or> dt_OrderID trade = [] \<or> dt_InstrumentName trade = []) (uc_Trades changes)
           then Inl (EText ''Deribit user changes trade lacks canonical identity'')
           else if list_ex (\<lambda>instrument. instrument = []) (uc_Positions changes)
           then Inl (EText ''Deribit user changes position lacks instrument identity'')
           else Inr changes))"

text \<open>The state both stores form: the intent file and the order service.\<close>

record ReconWorld =
  dw_Intents :: "IntentSnapshot disk"
  dw_Service :: Service

text \<open>
  The environments of one plan's calls, of one page's calls, and of the whole run; \<open>rn_Order\<close> is the order in
  which the range over the set of instruments visits them.
\<close>

record PlanEnv =
  pe_Finish :: Env
  pe_Order :: SvcEnv
  pe_Trades :: "nat \<Rightarrow> SvcEnv"

record PageEnv =
  ge_Trades :: "nat \<Rightarrow> SvcEnv"
  ge_Cursor :: Env

record RunEnv =
  rn_List :: Env
  rn_Plans :: "string \<Rightarrow> PlanEnv"
  rn_Cursor :: "string \<Rightarrow> Env"
  rn_Pages :: "string \<Rightarrow> nat \<Rightarrow> PageEnv"
  rn_Order :: "string list \<Rightarrow> string list"

section \<open>Strings and errors\<close>

text \<open>\<open>strings.Title\<close>: the first letter of every word in upper case; letters, digits and underscores form words.\<close>

definition wordChar :: "char \<Rightarrow> bool" where
  "wordChar c \<longleftrightarrow> isDigit c \<or> (97 \<le> byte c \<and> byte c \<le> 122) \<or> (65 \<le> byte c \<and> byte c \<le> 90) \<or> c = CHR ''_'' \<or> 128 \<le> byte c"

fun titleFrom :: "bool \<Rightarrow> string \<Rightarrow> string" where
  "titleFrom start [] = []"
| "titleFrom start (c # s) = (if start then upperChar c else c) # titleFrom (\<not> wordChar c) s"

definition Title :: "string \<Rightarrow> string" where
  "Title s = titleFrom True s"

text \<open>\<open>strings.Contains\<close> on the text of an error: the phrase occurs in one of its parts.\<close>

definition containsText :: "string \<Rightarrow> string \<Rightarrow> bool" where
  "containsText phrase s \<longleftrightarrow> lastIndex phrase s \<noteq> None"

fun mentions :: "string \<Rightarrow> goerror \<Rightarrow> bool" where
  "mentions phrase (EText t) = containsText phrase t"
| "mentions phrase (EFmt f args) = list_ex (containsText phrase) (f # args)"
| "mentions phrase (EWrap t cause) = (containsText phrase t \<or> mentions phrase cause)"
| "mentions phrase (ECode code m) = containsText phrase m"
| "mentions phrase (EProvider code m cause) = (if m \<noteq> [] then containsText phrase m else mentions phrase cause)"

section \<open>Orders and trades\<close>

definition normalizeStatus :: "string \<Rightarrow> OrderStatus" where
  "normalizeStatus raw =
     (if raw = ''open'' \<or> raw = ''untriggered'' then OrderStatusNew
      else if raw = ''filled'' then OrderStatusFilled
      else if raw = ''cancelled'' then OrderStatusCancelled
      else if raw = ''rejected'' then OrderStatusRejected
      else OrderStatusUnknown)"

definition deribitDomainOrder :: "string \<Rightarrow> DeribitOrder \<Rightarrow> Order" where
  "deribitDomainOrder alias ord =
     \<lparr>o_Exchange = ''deribit'', o_Environment = ''testnet'', o_AccountAlias = alias, o_Category = ''future'',
      o_Symbol = do_InstrumentName ord, o_OrderID = do_OrderID ord, o_OrderLinkID = do_Label ord, o_Side = Title (do_Direction ord),
      o_Type = Title (do_OrderType ord), o_Price = do_Price ord, o_Qty = do_Amount ord, o_CumFilledQty = do_FilledAmount ord,
      o_AvgFillPrice = do_AveragePrice ord, o_Status = normalizeStatus (do_OrderState ord), o_RawStatus = do_OrderState ord,
      o_IntentID = do_Label ord, o_CreatedAt = FromUnixMilli (do_CreationTimestamp ord),
      o_UpdatedAt = FromUnixMilli (do_LastUpdateTimestamp ord)\<rparr>"

definition applyDeribitOrder :: "string \<Rightarrow> SvcEnv \<Rightarrow> DeribitOrder \<Rightarrow> Service \<Rightarrow> goerror option \<times> Service" where
  "applyDeribitOrder alias env ord sv = ApplyOrder (se_Env env) (se_Reload env) (se_Now env) (deribitDomainOrder alias ord) sv"

definition tradeExecution :: "string \<Rightarrow> time \<Rightarrow> DeribitTrade \<Rightarrow> string \<Rightarrow> Execution" where
  "tradeExecution alias now trade label =
     \<lparr>x_Exchange = ''deribit'', x_Environment = ''testnet'', x_AccountAlias = alias, x_Category = ''future'',
      x_Symbol = dt_InstrumentName trade, x_ExecutionID = dt_TradeID trade, x_OrderID = dt_OrderID trade, x_OrderLinkID = label,
      x_Side = Title (dt_Direction trade), x_Price = dt_Price trade, x_Qty = dt_Amount trade, x_Fee = dt_Fee trade,
      x_FeeCurrency = dt_FeeCurrency trade, x_ExchangeTime = FromUnixMilli (dt_Timestamp trade), x_ReceivedAt = now\<rparr>"

definition recordTrade :: "string \<Rightarrow> SvcEnv \<Rightarrow> DeribitTrade \<Rightarrow> string \<Rightarrow> Service \<Rightarrow> bool result \<times> Service" where
  "recordTrade alias env trade label sv =
     (case RecordExecution (se_Env env) (se_Reload env) (tradeExecution alias (se_Now env) trade label) sv of
        (Some e, sv') \<Rightarrow> (if mentions ''references unknown order'' e then (Inr False, sv') else (Inl e, sv'))
      | (None, sv') \<Rightarrow>
          (Inr (length (os_Executions (sv_Snapshot sv')) > length (os_Executions (sv_Snapshot sv))), sv'))"

definition countTrade :: "bool \<Rightarrow> DeribitReport \<Rightarrow> DeribitReport" where
  "countTrade applied rep =
     (if applied then rep\<lparr>dp_TradesApplied := dp_TradesApplied rep + 1\<rparr>
      else rep\<lparr>dp_DuplicateOrExternalTrades := dp_DuplicateOrExternalTrades rep + 1\<rparr>)"

fun recordTrades :: "string \<Rightarrow> (nat \<Rightarrow> SvcEnv) \<Rightarrow> (DeribitTrade \<Rightarrow> string) \<Rightarrow> nat \<Rightarrow> DeribitTrade list \<Rightarrow> DeribitReport \<Rightarrow> Service
    \<Rightarrow> (DeribitReport \<times> goerror option) \<times> Service" where
  "recordTrades alias envs label n [] rep sv = ((rep, None), sv)"
| "recordTrades alias envs label n (trade # trades) rep sv =
     (case recordTrade alias (envs n) trade (label trade) sv of
        (Inl e, sv') \<Rightarrow> ((rep, Some e), sv')
      | (Inr applied, sv') \<Rightarrow> recordTrades alias envs label (Suc n) trades (countTrade applied rep) sv')"

section \<open>Private events\<close>

fun applyChangedOrders :: "string \<Rightarrow> (nat \<Rightarrow> SvcEnv) \<Rightarrow> nat \<Rightarrow> DeribitOrder list \<Rightarrow> DeribitReport \<Rightarrow> (string, string) gomap \<Rightarrow> Service
    \<Rightarrow> (DeribitReport \<times> goerror option) \<times> (string, string) gomap \<times> Service" where
  "applyChangedOrders alias envs n [] rep labels sv = ((rep, None), labels, sv)"
| "applyChangedOrders alias envs n (ord # ords) rep labels sv =
     (case applyDeribitOrder alias (envs n) ord sv of
        (Some e, sv') \<Rightarrow> ((rep, Some e), labels, sv')
      | (None, sv') \<Rightarrow>
          applyChangedOrders alias envs (Suc n) ords (rep\<lparr>dp_OrdersApplied := dp_OrdersApplied rep + 1\<rparr>)
            (gput (do_OrderID ord) (do_Label ord) labels) sv')"

text \<open>Both reports count alike; the loops above are shared and their counters are read off at the end.\<close>

definition eventReport :: "DeribitReport \<Rightarrow> nat \<Rightarrow> PrivateEventReport" where
  "eventReport rep positions =
     \<lparr>pr_OrdersApplied = dp_OrdersApplied rep, pr_TradesApplied = dp_TradesApplied rep,
      pr_DuplicateOrExternalTrades = dp_DuplicateOrExternalTrades rep, pr_PositionsObserved = positions\<rparr>"

definition ApplyUserChanges :: "string \<Rightarrow> (nat \<Rightarrow> SvcEnv) \<Rightarrow> UserChanges \<Rightarrow> Service option \<Rightarrow> (PrivateEventReport \<times> goerror option) \<times> Service option" where
  "ApplyUserChanges alias envs changes state =
     (case state of
        None \<Rightarrow> ((eventReport emptyReport 0, Some (EText ''Deribit private-event reducer requires order state'')), None)
      | Some sv \<Rightarrow>
          (case applyChangedOrders alias envs 0 (uc_Orders changes) emptyReport [] sv of
             ((rep, Some e), _, sv') \<Rightarrow> ((eventReport rep 0, Some e), Some sv')
           | ((rep, None), labels, sv') \<Rightarrow>
               (case recordTrades alias envs (\<lambda>trade. textOf labels (dt_OrderID trade)) (length (uc_Orders changes)) (uc_Trades changes) rep sv' of
                  ((rep', Some e), sv'') \<Rightarrow> ((eventReport rep' 0, Some e), Some sv'')
                | ((rep', None), sv'') \<Rightarrow> ((eventReport rep' (length (uc_Positions changes)), None), Some sv''))))"

section \<open>Plans\<close>

definition unfinished :: "PlanStatus \<Rightarrow> bool" where
  "unfinished status \<longleftrightarrow> status = StatusExecuting \<or> status = StatusOutcomeUnknown \<or> status = StatusNeedsReview"

definition skipsPlan :: "bool \<Rightarrow> Plan \<Rightarrow> bool" where
  "skipsPlan uncertainOnly plan \<longleftrightarrow>
     pl_Venue plan \<noteq> ''deribit'' \<or> pl_Status plan = StatusPlanned \<or> pl_Status plan = StatusExpired \<or> pl_Status plan = StatusRejected \<or>
     (uncertainOnly \<and> \<not> unfinished (pl_Status plan))"

text \<open>The two ways a plan ends in review; the error of the store is dropped, as in the code.\<close>

definition reviewPlan :: "string \<Rightarrow> PlanEnv \<Rightarrow> Plan \<Rightarrow> string \<Rightarrow> string \<Rightarrow> DeribitReport \<Rightarrow> ReconWorld \<Rightarrow> (DeribitReport \<times> goerror option) \<times> ReconWorld" where
  "reviewPlan path env plan nativeID reason rep w =
     ((rep\<lparr>dp_NeedsReview := dp_NeedsReview rep + 1\<rparr>, None),
      w\<lparr>dw_Intents := snd (Store_Finish path (pe_Finish env) (pl_ID plan) StatusNeedsReview nativeID reason (dw_Intents w))\<rparr>)"

text \<open>The trades of a plan's order, after the plan is settled.\<close>

definition planTrades :: "string \<Rightarrow> Queries \<Rightarrow> PlanEnv \<Rightarrow> Plan \<Rightarrow> DeribitOrder \<Rightarrow> DeribitReport \<Rightarrow> ReconWorld \<Rightarrow> (DeribitReport \<times> goerror option) \<times> ReconWorld" where
  "planTrades alias q env plan ord rep w =
     (case dq_TradesByOrder q (do_OrderID ord) of
        Inl e \<Rightarrow> ((rep, Some e), w)
      | Inr trades \<Rightarrow>
          (case recordTrades alias (pe_Trades env) (\<lambda>_. pl_ID plan) 0 trades rep (dw_Service w) of
             (out, sv') \<Rightarrow> (out, w\<lparr>dw_Service := sv'\<rparr>)))"

definition settlePlan :: "string \<Rightarrow> string \<Rightarrow> Queries \<Rightarrow> PlanEnv \<Rightarrow> Plan \<Rightarrow> DeribitOrder \<Rightarrow> DeribitReport \<Rightarrow> ReconWorld \<Rightarrow> (DeribitReport \<times> goerror option) \<times> ReconWorld" where
  "settlePlan path alias q env plan ord rep w =
     (case applyDeribitOrder alias (pe_Order env) ord (dw_Service w) of
        (Some e, sv') \<Rightarrow> ((rep, Some e), w\<lparr>dw_Service := sv'\<rparr>)
      | (None, sv') \<Rightarrow>
          (let w1 = w\<lparr>dw_Service := sv'\<rparr>; rep1 = rep\<lparr>dp_OrdersApplied := dp_OrdersApplied rep + 1\<rparr> in
           if unfinished (pl_Status plan) then
             (case Store_Finish path (pe_Finish env) (pl_ID plan) StatusSubmitted (do_OrderID ord) [] (dw_Intents w1) of
                ((Some e, _), f') \<Rightarrow> ((rep1, Some e), w1\<lparr>dw_Intents := f'\<rparr>)
              | ((None, _), f') \<Rightarrow>
                  planTrades alias q env plan ord (rep1\<lparr>dp_Recovered := dp_Recovered rep1 + 1\<rparr>) (w1\<lparr>dw_Intents := f'\<rparr>))
           else planTrades alias q env plan ord rep1 w1))"

definition checkPlan :: "DeribitReconciler \<Rightarrow> Queries \<Rightarrow> PlanEnv \<Rightarrow> bool \<Rightarrow> Plan \<Rightarrow> DeribitReport \<Rightarrow> ReconWorld \<Rightarrow> (DeribitReport \<times> goerror option) \<times> ReconWorld" where
  "checkPlan r q env uncertainOnly plan rep w =
     (if skipsPlan uncertainOnly plan then ((rep, None), w)
      else
        (let rep1 = rep\<lparr>dp_PlansChecked := dp_PlansChecked rep + 1\<rparr> in
         case dq_OrdersByLabel q (pl_Instrument plan) (pl_ID plan) of
           Inl e \<Rightarrow> ((rep1, Some (EWrap (''recover intent '' @ pl_ID plan) e)), w)
         | Inr [] \<Rightarrow> ((rep1\<lparr>dp_Unresolved := dp_Unresolved rep1 + 1\<rparr>, None), w)
         | Inr [ord] \<Rightarrow>
             (if pl_NativeOrderID plan \<noteq> [] \<and> pl_NativeOrderID plan \<noteq> do_OrderID ord
              then reviewPlan (drc_Path r) env plan (pl_NativeOrderID plan) ''native order ID conflict'' rep1 w
              else settlePlan (drc_Path r) (drc_AccountAlias r) q env plan ord rep1 w)
         | Inr _ \<Rightarrow> reviewPlan (drc_Path r) env plan [] ''multiple native orders share intent label'' rep1 w))"

fun checkPlans :: "DeribitReconciler \<Rightarrow> Queries \<Rightarrow> (string \<Rightarrow> PlanEnv) \<Rightarrow> bool \<Rightarrow> Plan list \<Rightarrow> DeribitReport \<Rightarrow> ReconWorld
    \<Rightarrow> (DeribitReport \<times> goerror option) \<times> ReconWorld" where
  "checkPlans r q envs uncertainOnly [] rep w = ((rep, None), w)"
| "checkPlans r q envs uncertainOnly (plan # plans) rep w =
     (case checkPlan r q (envs (pl_ID plan)) uncertainOnly plan rep w of
        ((rep', Some e), w') \<Rightarrow> ((rep', Some e), w')
      | ((rep', None), w') \<Rightarrow> checkPlans r q envs uncertainOnly plans rep' w')"

section \<open>Paging the trades of an instrument\<close>

text \<open>The loop over one page: the counters, the cursor, whether it advanced, and the first error.\<close>

fun pageTrades :: "string \<Rightarrow> (nat \<Rightarrow> SvcEnv) \<Rightarrow> nat \<Rightarrow> DeribitTrade list \<Rightarrow> DeribitReport \<Rightarrow> TradeCursor \<Rightarrow> bool \<Rightarrow> Service
    \<Rightarrow> (DeribitReport \<times> TradeCursor \<times> bool \<times> goerror option) \<times> Service" where
  "pageTrades alias envs n [] rep cursor advanced sv = ((rep, cursor, advanced, None), sv)"
| "pageTrades alias envs n (trade # trades) rep cursor advanced sv =
     (if dt_Timestamp trade < tc_Timestamp cursor
      then pageTrades alias envs (Suc n) trades (countTrade False rep) cursor advanced sv
      else case recordTrade alias (envs n) trade [] sv of
          (Inl e, sv') \<Rightarrow> ((rep, cursor, advanced, Some e), sv')
        | (Inr applied, sv') \<Rightarrow>
            (if dt_Timestamp trade > tc_Timestamp cursor \<or>
                (dt_Timestamp trade = tc_Timestamp cursor \<and> tc_TradeID cursor < dt_TradeID trade)
             then pageTrades alias envs (Suc n) trades (countTrade applied rep)
                    \<lparr>tc_Timestamp = dt_Timestamp trade, tc_TradeID = dt_TradeID trade\<rparr> True sv'
             else pageTrades alias envs (Suc n) trades (countTrade applied rep) cursor advanced sv'))"

definition sortTrades :: "DeribitTrade list \<Rightarrow> DeribitTrade list" where
  "sortTrades trades = sort_key (\<lambda>t. (dt_Timestamp t, dt_TradeID t)) trades"

text \<open>What follows the trades of a page: store the cursor when it advanced. The first component is the error.\<close>

definition storeCursor :: "string \<Rightarrow> PageEnv \<Rightarrow> string \<Rightarrow> TradeCursor \<Rightarrow> bool \<Rightarrow> IntentSnapshot disk \<Rightarrow> goerror option \<times> IntentSnapshot disk" where
  "storeCursor path env key cursor advanced f =
     (if advanced then (case Store_SetCursor path (ge_Cursor env) key cursor f of ((e, _), f') \<Rightarrow> (e, f')) else (None, f))"

fun pageLoop :: "DeribitReconciler \<Rightarrow> Queries \<Rightarrow> (nat \<Rightarrow> PageEnv) \<Rightarrow> string \<Rightarrow> string \<Rightarrow> nat \<Rightarrow> TradeCursor \<Rightarrow> int \<Rightarrow> DeribitReport \<Rightarrow> ReconWorld
    \<Rightarrow> (DeribitReport \<times> goerror option) \<times> ReconWorld" where
  "pageLoop r q envs key instrument 0 cursor start rep w =
     ((rep, Some (EText ''trade pagination exceeded bounded page limit'')), w)"
| "pageLoop r q envs key instrument (Suc fuel) cursor start rep w =
     (case dq_TradesByInstrument q instrument start 100 of
        Inl e \<Rightarrow> ((rep, Some e), w)
      | Inr page \<Rightarrow>
          (case pageTrades (drc_AccountAlias r) (ge_Trades (envs fuel)) 0 (sortTrades (tp_Trades page))
                  (rep\<lparr>dp_Pages := dp_Pages rep + 1\<rparr>) cursor False (dw_Service w) of
             ((rep1, cursor1, advanced, Some e), sv1) \<Rightarrow> ((rep1, Some e), w\<lparr>dw_Service := sv1\<rparr>)
           | ((rep1, cursor1, advanced, None), sv1) \<Rightarrow>
               (case storeCursor (drc_Path r) (envs fuel) key cursor1 advanced (dw_Intents w) of
                  (Some e, f1) \<Rightarrow> ((rep1, Some e), w\<lparr>dw_Service := sv1, dw_Intents := f1\<rparr>)
                | (None, f1) \<Rightarrow>
                    (if \<not> tp_HasMore page then ((rep1, None), w\<lparr>dw_Service := sv1, dw_Intents := f1\<rparr>)
                     else if tp_Trades page = [] \<or> \<not> advanced
                     then ((rep1, Some (EText ''trade pagination made no progress'')), w\<lparr>dw_Service := sv1, dw_Intents := f1\<rparr>)
                     else pageLoop r q envs key instrument fuel cursor1 (tc_Timestamp cursor1) rep1
                            (w\<lparr>dw_Service := sv1, dw_Intents := f1\<rparr>)))))"

definition cursorKey :: "DeribitReconciler \<Rightarrow> string \<Rightarrow> string" where
  "cursorKey r instrument = ''deribit|testnet|'' @ drc_AccountAlias r @ ''|'' @ instrument"

definition reconcilePages :: "DeribitReconciler \<Rightarrow> Queries \<Rightarrow> Env \<Rightarrow> (nat \<Rightarrow> PageEnv) \<Rightarrow> string \<Rightarrow> DeribitReport \<Rightarrow> ReconWorld
    \<Rightarrow> (DeribitReport \<times> goerror option) \<times> ReconWorld" where
  "reconcilePages r q env envs instrument rep w =
     (case Store_Cursor env (cursorKey r instrument) (dw_Intents w) of
        Inl e \<Rightarrow> ((rep, Some e), w)
      | Inr cursor \<Rightarrow> pageLoop r q envs (cursorKey r instrument) instrument 10 cursor (tc_Timestamp cursor) rep w)"

fun reconcileInstruments :: "DeribitReconciler \<Rightarrow> Queries \<Rightarrow> RunEnv \<Rightarrow> string list \<Rightarrow> DeribitReport \<Rightarrow> ReconWorld
    \<Rightarrow> (DeribitReport \<times> goerror option) \<times> ReconWorld" where
  "reconcileInstruments r q env [] rep w = ((rep, None), w)"
| "reconcileInstruments r q env (instrument # rest) rep w =
     (case reconcilePages r q (rn_Cursor env instrument) (rn_Pages env instrument) instrument rep w of
        ((rep', Some e), w') \<Rightarrow> ((rep', Some e), w')
      | ((rep', None), w') \<Rightarrow> reconcileInstruments r q env rest rep' w')"

section \<open>The run\<close>

definition planInstruments :: "Plan list \<Rightarrow> string list" where
  "planInstruments plans = remdups (map pl_Instrument (filter (\<lambda>plan. pl_Venue plan = ''deribit'') plans))"

definition runReconciler :: "DeribitReconciler \<Rightarrow> RunEnv \<Rightarrow> bool \<Rightarrow> ReconWorld \<Rightarrow> (DeribitReport \<times> goerror option) \<times> ReconWorld" where
  "runReconciler r env uncertainOnly w =
     (case drc_Queries r of
        None \<Rightarrow> ((emptyReport, Some (EText ''Deribit reconciler dependencies are required'')), w)
      | Some q \<Rightarrow>
          (if \<not> drc_HasState r then ((emptyReport, Some (EText ''Deribit reconciler dependencies are required'')), w)
           else case Store_List (rn_List env) (dw_Intents w) of
             Inl e \<Rightarrow> ((emptyReport, Some e), w)
           | Inr plans \<Rightarrow>
               (case checkPlans r q (rn_Plans env) uncertainOnly plans emptyReport w of
                  ((rep, Some e), w') \<Rightarrow> ((rep, Some e), w')
                | ((rep, None), w') \<Rightarrow>
                    (if uncertainOnly then ((rep, None), w')
                     else reconcileInstruments r q env (rn_Order env (planInstruments plans)) rep w'))))"

definition Run :: "DeribitReconciler \<Rightarrow> RunEnv \<Rightarrow> ReconWorld \<Rightarrow> (DeribitReport \<times> goerror option) \<times> ReconWorld" where
  "Run r env w = runReconciler r env False w"

definition RecoverUncertain :: "DeribitReconciler \<Rightarrow> RunEnv \<Rightarrow> ReconWorld \<Rightarrow> (DeribitReport \<times> goerror option) \<times> ReconWorld" where
  "RecoverUncertain r env w = runReconciler r env True w"

end
