(* ===== verification/DeribitReconcileProps.thy ===== *)
theory DeribitReconcileProps
  imports DeribitReconcile IntentProps OrderReconcileProps
begin

text \<open>
  What the Deribit reconciliation promises: a plan is settled only on the evidence of the orders with its
  label, and the trade cursor passes over no trade that is not on record.
\<close>

section \<open>Plans\<close>

definition planAt :: "IntentSnapshot disk \<Rightarrow> string \<Rightarrow> Plan option" where
  "planAt f i = (case intentPeek f of None \<Rightarrow> None | Some s \<Rightarrow> gget (s_Plans s) i)"

lemma intentPeek_update:
  "intentPeek f = Some s \<Longrightarrow> s_Version s' = s_Version s \<Longrightarrow> intentPeek (FileHolds (intentTouch now s')) = Some (intentTouch now s')"
  using intentPeek_version intentPeek_holds by metis

lemma Store_Finish_plans:
  assumes "Store_Finish path env i status oid reason f = (out, f')"
  shows "planAt f' j = planAt f j \<or>
    (j = i \<and> (\<exists>q. planAt f' j = Some q \<and> pl_Status q = status \<and> pl_NativeOrderID q = oid))"
proof -
  consider "f' = f" | s s' x where "intentPeek f = Some s" "finishMutate i status oid reason s = Inr (s', x)"
    "f' = FileHolds (intentTouch (ev_Now env) s')"
    using assms Store_update_step unfolding Store_Finish_def by blast
  then show ?thesis
  proof cases
    case (2 s s' x)
    then obtain plan where p: "s' = s\<lparr>s_Plans := gput i (plan\<lparr>pl_Status := status, pl_NativeOrderID := oid, pl_LastError := reason\<rparr>) (s_Plans s)\<rparr>"
      by (auto simp: finishMutate_def split: option.splits)
    then have "intentPeek f' = Some (intentTouch (ev_Now env) s')" using 2(1,3) intentPeek_update by simp
    then show ?thesis using 2(1) p by (auto simp: planAt_def intentTouch_def gomap_simps)
  qed simp
qed

lemma Store_SetCursor_plans:
  assumes "Store_SetCursor path env key cursor f = (out, f')"
  shows "planAt f' j = planAt f j"
proof -
  consider "f' = f" | s s' x where "intentPeek f = Some s" "setCursorMutate key cursor s = Inr (s', x)"
    "f' = FileHolds (intentTouch (ev_Now env) s')"
    using assms Store_update_step unfolding Store_SetCursor_def by blast
  then show ?thesis
  proof cases
    case (2 s s' x)
    then have p: "s' = s\<lparr>s_Cursors := gput key cursor (s_Cursors s)\<rparr>"
      by (auto simp: setCursorMutate_def Let_def split: if_splits)
    then have "intentPeek f' = Some (intentTouch (ev_Now env) s')" using 2(1,3) intentPeek_update by simp
    then show ?thesis using 2(1) p by (simp add: planAt_def intentTouch_def)
  qed simp
qed

text \<open>The venue's orders with the label of a plan justify what the plan became.\<close>

definition planEvidence :: "Queries \<Rightarrow> bool \<Rightarrow> Plan \<Rightarrow> Plan \<Rightarrow> bool" where
  "planEvidence q uncertainOnly plan new \<longleftrightarrow> \<not> skipsPlan uncertainOnly plan \<and>
     (\<exists>orders. dq_OrdersByLabel q (pl_Instrument plan) (pl_ID plan) = Inr orders \<and>
        ((pl_Status new = StatusSubmitted \<and> unfinished (pl_Status plan) \<and>
            (\<exists>ord. orders = [ord] \<and> pl_NativeOrderID new = do_OrderID ord \<and>
               (pl_NativeOrderID plan = [] \<or> pl_NativeOrderID plan = do_OrderID ord))) \<or>
         (pl_Status new = StatusNeedsReview \<and>
            (length orders > 1 \<or> (\<exists>ord. orders = [ord] \<and> pl_NativeOrderID plan \<notin> {[], do_OrderID ord})))))"

lemma reviewPlan_plans:
  assumes "reviewPlan path env plan oid reason rep w = (out, w')"
  shows "planAt (dw_Intents w') j = planAt (dw_Intents w) j \<or>
    (j = pl_ID plan \<and> (\<exists>new. planAt (dw_Intents w') j = Some new \<and> pl_Status new = StatusNeedsReview))"
  using assms Store_Finish_plans [of path "pe_Finish env" "pl_ID plan" StatusNeedsReview oid reason "dw_Intents w", OF surjective_pairing, of j]
  by (auto simp: reviewPlan_def)

lemma planTrades_intents: "planTrades alias q env plan ord rep w = (out, w') \<Longrightarrow> dw_Intents w' = dw_Intents w"
  by (auto simp: planTrades_def split: sum.splits prod.splits)

lemma settlePlan_plans:
  assumes "settlePlan path alias q env plan ord rep w = (out, w')"
  shows "planAt (dw_Intents w') j = planAt (dw_Intents w) j \<or>
    (j = pl_ID plan \<and> unfinished (pl_Status plan) \<and>
      (\<exists>new. planAt (dw_Intents w') j = Some new \<and> pl_Status new = StatusSubmitted \<and> pl_NativeOrderID new = do_OrderID ord))"
proof -
  obtain e sv' where a: "applyDeribitOrder alias (pe_Order env) ord (dw_Service w) = (e, sv')" by (metis surj_pair)
  obtain x y f' where f: "Store_Finish path (pe_Finish env) (pl_ID plan) StatusSubmitted (do_OrderID ord) [] (dw_Intents w) = ((x, y), f')"
    by (metis surj_pair)
  have "dw_Intents w' = dw_Intents w \<or> (unfinished (pl_Status plan) \<and> dw_Intents w' = f')"
    using assms a f by (auto simp: settlePlan_def Let_def dest!: planTrades_intents split: option.splits if_splits)
  then show ?thesis using Store_Finish_plans [OF f] by auto
qed

lemma checkPlan_plans:
  assumes "checkPlan r q env uncertainOnly plan rep w = (out, w')"
  shows "planAt (dw_Intents w') j = planAt (dw_Intents w) j \<or>
    (j = pl_ID plan \<and> (\<exists>new. planAt (dw_Intents w') j = Some new \<and> planEvidence q uncertainOnly plan new))"
proof (cases "dw_Intents w' = dw_Intents w")
  case False
  then obtain orders where o: "dq_OrdersByLabel q (pl_Instrument plan) (pl_ID plan) = Inr orders" "\<not> skipsPlan uncertainOnly plan"
    using assms by (auto simp: checkPlan_def Let_def split: if_splits sum.splits)
  consider ord where "orders = [ord]" | "length orders > 1" | "orders = []"
    by (cases orders rule: remdups_adj.cases) auto
  then show ?thesis
  proof cases
    case (1 ord)
    show ?thesis
    proof (cases "pl_NativeOrderID plan \<noteq> [] \<and> pl_NativeOrderID plan \<noteq> do_OrderID ord")
      case True
      then obtain oid reason rep1 where "reviewPlan (drc_Path r) env plan oid reason rep1 w = (out, w')"
        using assms o 1 by (auto simp: checkPlan_def Let_def)
      from reviewPlan_plans [OF this, of j] show ?thesis using o 1 True by (auto simp: planEvidence_def)
    next
      case False
      then obtain rep1 where "settlePlan (drc_Path r) (drc_AccountAlias r) q env plan ord rep1 w = (out, w')"
        using assms o 1 by (auto simp: checkPlan_def Let_def)
      from settlePlan_plans [OF this, of j] show ?thesis using o 1 False by (auto simp: planEvidence_def)
    qed
  next
    case 2
    then obtain a b c where "orders = a # b # c" by (cases orders rule: remdups_adj.cases) auto
    then obtain oid reason rep1 where "reviewPlan (drc_Path r) env plan oid reason rep1 w = (out, w')"
      using assms o by (auto simp: checkPlan_def Let_def)
    from reviewPlan_plans [OF this, of j] show ?thesis using o 2 by (auto simp: planEvidence_def)
  next
    case 3
    then show ?thesis using assms o by (auto simp: checkPlan_def Let_def)
  qed
qed simp

lemma checkPlans_plans:
  assumes "checkPlans r q envs uncertainOnly plans rep w = (out, w')"
  shows "planAt (dw_Intents w') j = planAt (dw_Intents w) j \<or>
    (\<exists>plan\<in>set plans. pl_ID plan = j \<and> (\<exists>new. planAt (dw_Intents w') j = Some new \<and> planEvidence q uncertainOnly plan new))"
  using assms
proof (induction plans arbitrary: rep w)
  case (Cons plan plans)
  obtain rep1 e w1 where 1: "checkPlan r q (envs (pl_ID plan)) uncertainOnly plan rep w = ((rep1, e), w1)" by (metis surj_pair)
  note first = checkPlan_plans [OF 1, of j]
  show ?case
  proof (cases e)
    case None
    then have "checkPlans r q envs uncertainOnly plans rep1 w1 = (out, w')" using Cons.prems 1 by simp
    from Cons.IH [OF this] first show ?thesis by auto
  next
    case (Some x)
    then show ?thesis using Cons.prems 1 first by auto
  qed
qed simp

lemma storeCursor_plans: "storeCursor path env key cursor advanced f = (e, f') \<Longrightarrow> planAt f' j = planAt f j"
  by (auto simp: storeCursor_def split: if_splits prod.splits dest: Store_SetCursor_plans)

lemma pageLoop_plans:
  "pageLoop r q envs key instrument fuel cursor start rep w = (out, w') \<Longrightarrow> planAt (dw_Intents w') j = planAt (dw_Intents w) j"
proof (induction fuel arbitrary: cursor start rep w)
  case (Suc fuel)
  show ?case
  proof (cases "dq_TradesByInstrument q instrument start 100")
    case (Inr page)
    obtain rep1 c1 adv e1 sv1 where p: "pageTrades (drc_AccountAlias r) (ge_Trades (envs fuel)) 0 (sortTrades (tp_Trades page))
        (rep\<lparr>dp_Pages := dp_Pages rep + 1\<rparr>) cursor False (dw_Service w) = ((rep1, c1, adv, e1), sv1)" by (metis surj_pair)
    obtain e2 f1 where c: "storeCursor (drc_Path r) (envs fuel) key c1 adv (dw_Intents w) = (e2, f1)" by (metis surj_pair)
    note k = storeCursor_plans [OF c, of j]
    show ?thesis using Suc.prems Suc.IH [of c1 "tc_Timestamp c1" rep1 "w\<lparr>dw_Service := sv1, dw_Intents := f1\<rparr>"] Inr p c k
      by (auto split: option.splits if_splits)
  qed (use Suc.prems in simp)
qed simp

lemma reconcileInstruments_plans:
  "reconcileInstruments r q env instruments rep w = (out, w') \<Longrightarrow> planAt (dw_Intents w') j = planAt (dw_Intents w) j"
proof (induction instruments arbitrary: rep w)
  case (Cons instrument rest)
  obtain rep1 e w1 where 1: "reconcilePages r q (rn_Cursor env instrument) (rn_Pages env instrument) instrument rep w = ((rep1, e), w1)"
    by (metis surj_pair)
  have "planAt (dw_Intents w1) j = planAt (dw_Intents w) j"
    using 1 pageLoop_plans by (auto simp: reconcilePages_def split: sum.splits)
  then show ?case using Cons.prems Cons.IH [of rep1 w1] 1 by (cases e) auto
qed simp

section \<open>Trades\<close>

text \<open>
  A trade is taken for external when the error text of the service says so. That reading is right when no
  fault of the file system carries the same words.
\<close>

abbreviation unknownOrder :: string where
  "unknownOrder \<equiv> ''references unknown order''"

definition plainEnv :: "Env \<Rightarrow> bool" where
  "plainEnv env \<longleftrightarrow> (\<forall>e. ev_Ctx env = Some e \<longrightarrow> \<not> mentions unknownOrder e) \<and>
     (\<forall>st e. ev_Io env st = Some e \<longrightarrow> \<not> mentions unknownOrder e)"

lemma firstFault_plain: "plainEnv env \<Longrightarrow> firstFault env steps = Some e \<Longrightarrow> \<not> mentions unknownOrder e"
  by (induction steps) (auto simp: plainEnv_def split: option.splits)

lemma Load_plain: "plainEnv env \<Longrightarrow> orderPeek f = Some s \<Longrightarrow> FileStore_Load env f = Inl e \<Longrightarrow> \<not> mentions unknownOrder e"
  by (auto simp: FileStore_Load_def orderPeek_def plainEnv_def split: option.splits disk.splits if_splits)

lemma Save_plain:
  assumes "plainEnv env" "FileStore_Save env s f = (Some e, f')"
  shows "\<not> mentions unknownOrder e"
proof (cases "ev_Ctx env")
  case None
  let ?steps = "[IoMarshal, IoMkdir, IoCreateTemp, IoChmod, IoWrite, IoSync, IoClose, IoRename]"
  have "firstFault env ?steps = Some e"
    using assms(2) None by (cases "firstFault env ?steps") (simp_all add: FileStore_Save_def del: firstFault.simps)
  then show ?thesis by (rule firstFault_plain [OF assms(1)])
next
  case (Some x)
  then show ?thesis using assms by (simp add: FileStore_Save_def plainEnv_def)
qed

lemma Update_mention:
  assumes "FileStore_Update env mutate f = ((Some e, r), f')" "orderPeek f = Some s" "plainEnv env" "mentions unknownOrder e"
  shows "mutate s = Inl e"
proof -
  have none: "firstFault env [IoMkdir, IoOpenLock, IoFlock] = None"
  proof (cases "firstFault env [IoMkdir, IoOpenLock, IoFlock]")
    case (Some x)
    then have "x = e" using assms(1) by (simp add: FileStore_Update_def del: firstFault.simps)
    then show ?thesis using firstFault_plain [OF assms(3) Some] assms(4) by simp
  qed
  obtain s1 where l: "FileStore_Load env f = Inr s1"
    using assms none Load_plain [OF assms(3,2), of e]
    by (cases "FileStore_Load env f") (auto simp: FileStore_Update_def simp del: firstFault.simps)
  then have s1: "s1 = s" using FileStore_Load_Inr [OF l] assms(2) by simp
  show ?thesis
  proof (cases "mutate s")
    case (Inl x)
    then show ?thesis using assms(1) none l s1 by (simp add: FileStore_Update_def del: firstFault.simps)
  next
    case (Inr y)
    obtain s2 r2 e2 f2 where y: "y = (s2, r2)" "FileStore_Save env s2 f = (e2, f2)" by (metis surj_pair)
    then have "FileStore_Save env s2 f = (Some e, f')"
      using assms(1) none l s1 Inr by (simp add: FileStore_Update_def del: firstFault.simps)
    then show ?thesis using Save_plain [OF assms(3)] assms(4) by blast
  qed
qed

lemma Service_mutate_mention:
  assumes "Service_mutate env reload operation sv = (Some e, sv')" "orderPeek (sv_File sv) = Some s"
    "plainEnv env" "plainEnv reload" "mentions unknownOrder e"
  shows "operation s = Inl e"
proof -
  let ?op = "\<lambda>s. rbind (operation s) (\<lambda>s'. Inr (s', ()))"
  obtain d r f' where u: "FileStore_Update env ?op (sv_File sv) = ((d, r), f')" by (metis surj_pair)
  have "d \<noteq> None"
  proof
    assume d: "d = None"
    then obtain s1 where "orderPeek f' = Some s1" using FileStore_Update_cases [OF u] by auto
    moreover have "FileStore_Load reload f' = Inl e" using assms(1) u d by (auto simp: Service_mutate_def split: sum.splits)
    ultimately show False using Load_plain [OF assms(4)] assms(5) by blast
  qed
  then have "d = Some e" using assms(1) u by (auto simp: Service_mutate_def)
  then have "?op s = Inl e" using Update_mention [of env ?op "sv_File sv" e] u assms(2,3,5) by simp
  then show ?thesis by (cases "operation s") auto
qed

definition onRecord :: "string \<Rightarrow> Snapshot \<Rightarrow> DeribitTrade \<Rightarrow> bool" where
  "onRecord alias s trade \<longleftrightarrow> gget (os_Executions s) (executionStorageKey (tradeExecution alias 0 trade [])) \<noteq> None"

definition externalTrade :: "string \<Rightarrow> Snapshot \<Rightarrow> string \<Rightarrow> DeribitTrade \<Rightarrow> bool" where
  "externalTrade alias s label trade \<longleftrightarrow>
     findOrder s (dt_OrderID trade) label \<lparr>ak_Venue = ''deribit'', ak_Environment = ''testnet'', ak_Alias = (if alias = [] then ''bybit-test'' else alias)\<rparr> = None"

text \<open>A snapshot with the same orders and at least the executions.\<close>

definition moreExecutions :: "Snapshot \<Rightarrow> Snapshot \<Rightarrow> bool" where
  "moreExecutions s s' \<longleftrightarrow> os_Orders s' = os_Orders s \<and> (\<forall>k. gget (os_Executions s) k \<noteq> None \<longrightarrow> gget (os_Executions s') k \<noteq> None)"

lemma moreExecutions_refl [simp]: "moreExecutions s s"
  by (simp add: moreExecutions_def)

lemma moreExecutions_trans: "moreExecutions s t \<Longrightarrow> moreExecutions t u \<Longrightarrow> moreExecutions s u"
  by (simp add: moreExecutions_def)

lemma tradeExecution_key: "executionStorageKey (tradeExecution alias now trade label) = executionStorageKey (tradeExecution alias 0 trade [])"
  by (simp add: tradeExecution_def executionStorageKey_def executionAccount_def)

lemma record_trade_snapshot:
  assumes "recordExecutionToSnapshot (tradeExecution alias now trade label) s = Inr s'"
  shows "moreExecutions s s' \<and> onRecord alias s' trade"
  using assms tradeExecution_key [of "alias" now trade label]
  by (auto simp: recordExecutionToSnapshot_def moreExecutions_def onRecord_def gomap_simps split: if_splits option.splits)

lemma record_trade_external:
  assumes "recordExecutionToSnapshot (tradeExecution alias now trade label) s = Inl e"
  shows "externalTrade alias s label trade"
  using assms
  by (auto simp: recordExecutionToSnapshot_def externalTrade_def tradeExecution_def executionAccount_def normalizedAccount_def
      EnvironmentTestnet_def split: if_splits option.splits)

definition plainSvc :: "SvcEnv \<Rightarrow> bool" where
  "plainSvc env \<longleftrightarrow> plainEnv (se_Env env) \<and> plainEnv (se_Reload env)"

lemma recordTrade_handles:
  assumes "recordTrade alias env trade label sv = (Inr applied, sv')" "orderPeek (sv_File sv) = Some s" "plainSvc env"
  shows "\<exists>s'. orderPeek (sv_File sv') = Some s' \<and> moreExecutions s s' \<and> (onRecord alias s' trade \<or> externalTrade alias s label trade)"
proof -
  let ?x = "tradeExecution alias (se_Now env) trade label"
  obtain e sv1 where r: "RecordExecution (se_Env env) (se_Reload env) ?x sv = (e, sv1)" by (metis surj_pair)
  have sv1: "sv' = sv1" "\<And>x. e = Some x \<Longrightarrow> mentions unknownOrder x"
    using assms(1) r by (auto simp: recordTrade_def split: option.splits if_splits)
  have "x_ExecutionID ?x \<noteq> []"
  proof
    assume "x_ExecutionID ?x = []"
    then have "e = Some (EText ''execution update has no executionId'')" using r by (simp add: RecordExecution_def)
    moreover have "\<not> mentions unknownOrder (EText ''execution update has no executionId'')" by code_simp
    ultimately show False using sv1(2) by blast
  qed
  then have m: "Service_mutate (se_Env env) (se_Reload env) (recordExecutionToSnapshot ?x) sv = (e, sv1)" using r by (simp add: RecordExecution_def)
  then show ?thesis
  proof (cases rule: Service_mutate_cases)
    case (refused e')
    then have "recordExecutionToSnapshot ?x s = Inl e'"
      using Service_mutate_mention [of "se_Env env" "se_Reload env" _ sv e' sv1 s] m assms(2,3) sv1(2) by (simp add: plainSvc_def)
    then show ?thesis using record_trade_external refused sv1(1) assms(2) by auto
  next
    case (applied u u')
    then have "moreExecutions s u' \<and> onRecord alias u' trade" using record_trade_snapshot assms(2) by auto
    then have "moreExecutions s (orderTouch (ev_Now (se_Env env)) u') \<and> onRecord alias (orderTouch (ev_Now (se_Env env)) u') trade"
      by (simp add: moreExecutions_def onRecord_def orderTouch_def)
    then show ?thesis using applied(3) sv1(1) by (metis orderPeek_touch option.sel)
  qed
qed

lemma onRecord_more: "onRecord alias s trade \<Longrightarrow> moreExecutions s s' \<Longrightarrow> onRecord alias s' trade"
  by (simp add: onRecord_def moreExecutions_def)

lemma externalTrade_more: "moreExecutions s s' \<Longrightarrow> externalTrade alias s' label trade = externalTrade alias s label trade"
  by (simp add: externalTrade_def moreExecutions_def findOrder_def)

lemma pageTrades_handles:
  assumes "pageTrades alias envs n trades rep cursor advanced sv = ((rep', cursor', advanced', None), sv')"
    "orderPeek (sv_File sv) = Some s" "\<And>n. plainSvc (envs n)" "sorted (map dt_Timestamp trades)"
  shows "\<exists>s'. orderPeek (sv_File sv') = Some s' \<and> moreExecutions s s' \<and> cursorLe cursor cursor' \<and>
    (\<forall>t\<in>set trades. tc_Timestamp cursor \<le> dt_Timestamp t \<longrightarrow> onRecord alias s' t \<or> externalTrade alias s [] t)"
  using assms
proof (induction trades arbitrary: n rep cursor advanced sv s)
  case (Cons t ts)
  show ?case
  proof (cases "dt_Timestamp t < tc_Timestamp cursor")
    case True
    then have "pageTrades alias envs (Suc n) ts (countTrade False rep) cursor advanced sv = ((rep', cursor', advanced', None), sv')"
      using Cons.prems(1) by simp
    from Cons.IH [OF this Cons.prems(2,3)] Cons.prems(4) True show ?thesis by auto
  next
    case False
    then obtain ap sv1 where r: "recordTrade alias (envs n) t [] sv = (Inr ap, sv1)"
      using Cons.prems(1) by (auto split: prod.splits sum.splits)
    obtain s1 where s1: "orderPeek (sv_File sv1) = Some s1" "moreExecutions s s1" "onRecord alias s1 t \<or> externalTrade alias s [] t"
      using recordTrade_handles [OF r Cons.prems(2,3)] by blast
    obtain c1 a1 where c1: "pageTrades alias envs (Suc n) ts (countTrade ap rep) c1 a1 sv1 = ((rep', cursor', advanced', None), sv')"
      "tc_Timestamp c1 = dt_Timestamp t \<or> c1 = cursor" "cursorLe cursor c1" "tc_Timestamp c1 \<le> dt_Timestamp t"
      using Cons.prems(1) False r by (auto simp: cursorLe_def split: if_splits)
    obtain s' where s': "orderPeek (sv_File sv') = Some s'" "moreExecutions s1 s'" "cursorLe c1 cursor'"
      "\<forall>u\<in>set ts. tc_Timestamp c1 \<le> dt_Timestamp u \<longrightarrow> onRecord alias s' u \<or> externalTrade alias s1 [] u"
      using Cons.IH [OF c1(1) s1(1) Cons.prems(3)] Cons.prems(4) by auto
    have "onRecord alias s' u \<or> externalTrade alias s [] u" if "u \<in> set ts" for u
      using s'(4) that c1(4) Cons.prems(4) externalTrade_more [OF s1(2)] by fastforce
    moreover have "onRecord alias s' t \<or> externalTrade alias s [] t" using s1(3) onRecord_more s'(2) by blast
    ultimately show ?thesis using s' moreExecutions_trans [OF s1(2)] cursorLe_trans [OF c1(3)] by auto
  qed
qed auto

lemma sortTrades_sorted: "sorted (map dt_Timestamp (sortTrades trades))"
proof -
  have "sorted (map (\<lambda>t. (dt_Timestamp t, dt_TradeID t)) (sortTrades trades))" by (simp add: sortTrades_def)
  then show ?thesis by (auto simp: sorted_map less_eq_prod_def elim!: sorted_wrt_mono_rel [rotated])
qed

section \<open>Example data\<close>

definition lostPlan :: Plan where
  "lostPlan = samplePlan\<lparr>pl_Venue := ''deribit'', pl_Instrument := ''BTC-PERPETUAL'', pl_Status := StatusOutcomeUnknown\<rparr>"

definition foundOrder :: DeribitOrder where
  "foundOrder = \<lparr>do_OrderID = ''7'', do_Label = ''p1'', do_InstrumentName = ''BTC-PERPETUAL'', do_Direction = ''buy'', do_OrderType = ''limit'',
     do_OrderState = ''open'', do_Amount = ''10'', do_FilledAmount = ''0'', do_Price = ''9'', do_AveragePrice = ''0'', do_Commission = ''0'',
     do_CreationTimestamp = 1, do_LastUpdateTimestamp = 2, do_ReduceOnly = False\<rparr>"

definition foundTrade :: DeribitTrade where
  "foundTrade = \<lparr>dt_TradeID = ''t1'', dt_TradeSeq = 1, dt_OrderID = ''7'', dt_InstrumentName = ''BTC-PERPETUAL'', dt_Direction = ''buy'',
     dt_Amount = ''10'', dt_Price = ''9'', dt_Fee = ''0'', dt_FeeCurrency = ''BTC'', dt_Timestamp = 3\<rparr>"

definition foundQueries :: Queries where
  "foundQueries = \<lparr>dq_OrdersByLabel = (\<lambda>instrument label. if label = ''p1'' then Inr [foundOrder] else Inr []),
     dq_TradesByOrder = (\<lambda>_. Inr []), dq_TradesByInstrument = (\<lambda>_ _ _. Inr \<lparr>tp_Trades = [foundTrade], tp_HasMore = False\<rparr>)\<rparr>"

definition foundReconciler :: DeribitReconciler where
  "foundReconciler = \<lparr>drc_Queries = Some foundQueries, drc_Path = ''p'', drc_AccountAlias = ''main'', drc_HasState = True\<rparr>"

definition quietSvc :: SvcEnv where
  "quietSvc = \<lparr>se_Env = quietEnv 5, se_Reload = quietEnv 6, se_Now = 7\<rparr>"

definition quietRun :: RunEnv where
  "quietRun = \<lparr>rn_List = quietEnv 4, rn_Plans = (\<lambda>_. \<lparr>pe_Finish = quietEnv 5, pe_Order = quietSvc, pe_Trades = (\<lambda>_. quietSvc)\<rparr>),
     rn_Cursor = (\<lambda>_. quietEnv 5), rn_Pages = (\<lambda>_ _. \<lparr>ge_Trades = (\<lambda>_. quietSvc), ge_Cursor = quietEnv 6\<rparr>), rn_Order = id\<rparr>"

definition lostWorld :: ReconWorld where
  "lostWorld = \<lparr>dw_Intents = FileHolds (intentTouch 3 (emptyIntentSnapshot\<lparr>s_Plans := [(''p1'', lostPlan)]\<rparr>)), dw_Service = emptyService\<rparr>"

section \<open>Properties\<close>

text \<open>
  C14. Whatever fails on the way, a run of the reconciler leaves a plan as it was or settles it on the evidence
  of the venue: a plan whose outcome was open becomes submitted only when the venue has exactly one order with
  its label and that order is the one the plan names, if it names one; it goes to review only when the venue has several
  orders with its label or another order than the one it names. A plan with no order at the venue, or one
  that was never sent, is not touched.
\<close>

theorem run_settles_on_evidence:
  assumes "runReconciler r env uncertainOnly w = (out, w')" "drc_Queries r = Some q"
    "Store_List (rn_List env) (dw_Intents w) = Inr plans"
  shows "planAt (dw_Intents w') j = planAt (dw_Intents w) j \<or>
    (\<exists>plan\<in>set plans. pl_ID plan = j \<and> (\<exists>new. planAt (dw_Intents w') j = Some new \<and> planEvidence q uncertainOnly plan new))"
proof (cases "drc_HasState r")
  case True
  obtain rep e w1 where c: "checkPlans r q (rn_Plans env) uncertainOnly plans emptyReport w = ((rep, e), w1)" by (metis surj_pair)
  have "planAt (dw_Intents w') j = planAt (dw_Intents w1) j"
    using assms c True reconcileInstruments_plans by (cases e) (auto simp: runReconciler_def split: if_splits)
  then show ?thesis using checkPlans_plans [OF c, of j] by simp
next
  case False
  then show ?thesis using assms by (simp add: runReconciler_def)
qed

theorem run_settles_on_evidence_witness:
  "\<exists>new. planAt (dw_Intents (snd (runReconciler foundReconciler quietRun True lostWorld))) ''p1'' = Some new \<and>
     planEvidence foundQueries True lostPlan new"
proof -
  let ?r = "runReconciler foundReconciler quietRun True lostWorld"
  have q: "drc_Queries foundReconciler = Some foundQueries" by (simp add: foundReconciler_def)
  have l: "Store_List (rn_List quietRun) (dw_Intents lostWorld) = Inr [lostPlan]" by code_simp
  have n: "planAt (dw_Intents (snd ?r)) ''p1'' \<noteq> planAt (dw_Intents lostWorld) ''p1''" by code_simp
  show ?thesis
    using run_settles_on_evidence [OF prod.collapse [symmetric] q l, where j = "''p1''" and uncertainOnly = True] n by auto
qed

text \<open>
  When a page of trades is handled without an error, every trade on it at or after the cursor is on record
  or belongs to no order of the program, the orders are unchanged, no execution is lost and the
  cursor has not moved back: the cursor never passes over a trade that is missing. The hypothesis on the
  environments says that no fault of the file system is worded like the error the code recognises by its text.
\<close>

theorem page_records_every_trade:
  assumes "pageTrades alias envs n (sortTrades trades) rep cursor advanced sv = ((rep', cursor', advanced', None), sv')"
    "orderPeek (sv_File sv) = Some s" "\<And>n. plainSvc (envs n)"
  shows "\<exists>s'. orderPeek (sv_File sv') = Some s' \<and> moreExecutions s s' \<and> cursorLe cursor cursor' \<and>
    (\<forall>t\<in>set trades. tc_Timestamp cursor \<le> dt_Timestamp t \<longrightarrow> onRecord alias s' t \<or> externalTrade alias s [] t)"
  using pageTrades_handles [OF assms sortTrades_sorted] by (simp add: sortTrades_def)

theorem page_records_every_trade_witness:
  "\<exists>s'. orderPeek (sv_File (snd (pageTrades ''main'' (\<lambda>_. quietSvc) 0 (sortTrades [foundTrade]) emptyReport zeroCursor False sampleService))) = Some s' \<and>
     (onRecord ''main'' s' foundTrade \<or> externalTrade ''main'' sampleOrders [] foundTrade)"
proof -
  let ?r = "pageTrades ''main'' (\<lambda>_. quietSvc) 0 (sortTrades [foundTrade]) emptyReport zeroCursor False sampleService"
  obtain rep' cursor' advanced' e sv' where r: "?r = ((rep', cursor', advanced', e), sv')" by (metis surj_pair)
  have "snd (snd (snd (fst ?r))) = None" by code_simp
  then have r: "?r = ((rep', cursor', advanced', None), sv')" using r by simp
  have p: "plainSvc quietSvc" by (simp add: plainSvc_def plainEnv_def quietSvc_def)
  show ?thesis using page_records_every_trade [OF r sampleService_peek p] r
    by (auto simp: zeroCursor_def foundTrade_def)
qed

end
