(* ===== verification/DeribitFixSession.thy ===== *)
theory DeribitFixSession
  imports FixSession
begin

text \<open>
  \<open>internal/deribitfix/auth.go\<close> and \<open>session.go\<close>: the Deribit FIX session. Unlike the Bybit session it recovers
  from gaps: messages ahead of their turn are buffered, a resend is requested, what was sent is kept in a
  bounded journal for the peer's own resend requests, and application writes pause until the recovery
  callback has succeeded. The mutable fields of \<open>Session\<close> are one record. The lock is released around the two
  callbacks, so a callback is a list of sends other goroutines make meanwhile and its answer. The last
  five fields are history: every byte the transport accepted, the messages written, the messages handed to
  \<open>OnMessage\<close>, how often \<open>OnRecovery\<close> was called and the numbers of the messages processed.
\<close>

section \<open>Standard Base64\<close>

definition base64Char :: "nat \<Rightarrow> char" where
  "base64Char n = ''ABCDEFGHIJKLMNOPQRSTUVWXYZabcdefghijklmnopqrstuvwxyz0123456789+/'' ! n"

fun EncodeBase64 :: "string \<Rightarrow> string" where
  "EncodeBase64 [] = []"
| "EncodeBase64 [a] = [base64Char (byte a div 4), base64Char (byte a mod 4 * 16), CHR ''='', CHR ''='']"
| "EncodeBase64 [a, b] =
     [base64Char (byte a div 4), base64Char (byte a mod 4 * 16 + byte b div 16), base64Char (byte b mod 16 * 4), CHR ''='']"
| "EncodeBase64 (a # b # c # s) =
     base64Char (byte a div 4) # base64Char (byte a mod 4 * 16 + byte b div 16) #
     base64Char (byte b mod 16 * 4 + byte c div 64) # base64Char (byte c mod 64) # EncodeBase64 s"

section \<open>Logon (auth.go)\<close>

definition DeribitTarget :: string where
  "DeribitTarget = ''DERIBITSERVER''"

record Authenticator =
  au_ClientID :: string
  au_ClientSecret :: string
  au_SenderCompID :: string
  au_HeartbeatSeconds :: int
  au_CancelOnDisconnect :: bool
  au_ReportFillsAsExecReports :: bool
  au_lastTimestamp :: int

text \<open>What a logon reads: the random nonce, the clock twice, and the SHA-256 digest.\<close>

record AuthEnv =
  ae_Nonce :: "string result"
  ae_Now :: time
  ae_Now2 :: time
  ae_SHA256 :: "string \<Rightarrow> string"

definition logonTimestamp :: "AuthEnv \<Rightarrow> Authenticator \<Rightarrow> int" where
  "logonTimestamp env a =
     (if UnixMilli (ae_Now env) \<le> au_lastTimestamp a then wrap64 (au_lastTimestamp a + 1) else UnixMilli (ae_Now env))"

definition logonFields :: "AuthEnv \<Rightarrow> string \<Rightarrow> int \<Rightarrow> Authenticator \<Rightarrow> int \<Rightarrow> Field list" where
  "logonFields env nonce timestamp a seq =
     (let rawData = FormatInt timestamp @ ''.'' @ EncodeBase64 nonce;
          password = EncodeBase64 (ae_SHA256 env (rawData @ au_ClientSecret a)) in
      [mkField 35 ''A'', mkField 49 (au_SenderCompID a), mkField 56 DeribitTarget, mkField 34 (FormatInt seq),
       mkField 52 (FormatFIX (ae_Now2 env)), mkField 98 ''0'', mkField 108 (FormatInt (au_HeartbeatSeconds a)),
       mkField 95 (FormatInt (int (length rawData))), mkField 96 rawData, mkField 553 (au_ClientID a), mkField 554 password,
       mkField 9001 (if au_CancelOnDisconnect a then ''Y'' else ''N''),
       mkField 9015 (if au_ReportFillsAsExecReports a then ''Y'' else ''N'')])"

definition Logon :: "AuthEnv \<Rightarrow> int \<Rightarrow> Authenticator \<Rightarrow> string result \<times> Authenticator" where
  "Logon env seq a =
     (if au_ClientID a = [] \<or> au_ClientSecret a = [] \<or> au_SenderCompID a = []
      then (Inl (EText ''Deribit FIX client ID, secret, and SenderCompID are required''), a)
      else if au_HeartbeatSeconds a \<le> 0 then (Inl (EText ''Deribit FIX heartbeat must be positive''), a)
      else case ae_Nonce env of
          Inl e \<Rightarrow> (Inl (EWrap ''generate Deribit FIX nonce'' e), a)
        | Inr nonce \<Rightarrow>
            (let timestamp = logonTimestamp env a in
             (Encode ''FIX.4.4'' (logonFields env nonce timestamp a seq), a\<lparr>au_lastTimestamp := timestamp\<rparr>)))"

section \<open>The session\<close>

definition DeribitSequenceError :: "int \<Rightarrow> int \<Rightarrow> goerror" where
  "DeribitSequenceError expected received =
     EFmt ''Deribit FIX sequence anomaly: expected=%d received=%d'' [FormatInt expected, FormatInt received]"

definition RecoveryOverflowError :: "int \<Rightarrow> goerror" where
  "RecoveryOverflowError limit = EFmt ''Deribit FIX recovery buffer limit reached: %d'' [FormatInt limit]"

definition ResendUnavailableError :: "int \<Rightarrow> goerror" where
  "ResendUnavailableError seq = EFmt ''Deribit FIX resend unavailable for sequence %d'' [FormatInt seq]"

definition AuthenticationError :: goerror where
  "AuthenticationError = EText ''Deribit FIX authentication rejected''"

record DeribitConfig =
  dg_Heartbeat :: duration
  dg_MaxRecoveryBuffer :: int
  dg_MaxOutboundJournal :: int
  dg_HasOnMessage :: bool
  dg_HasOnRecovery :: bool

record DeribitSession =
  ds_auth :: Authenticator
  ds_transport :: bool
  ds_nextOut :: int
  ds_expectedIn :: int
  ds_loggedOn :: bool
  ds_recovering :: bool
  ds_pending :: "(int, Message) gomap"
  ds_journal :: "(int, Field list) gomap"
  ds_lastWrite :: time
  ds_inbound :: nat
  ds_outbound :: nat
  ds_heartbeats :: nat
  ds_testRequests :: nat
  ds_resendRequests :: nat
  ds_sequenceResets :: nat
  ds_sequenceErrors :: nat
  ds_resentMessages :: nat
  ds_wire :: string
  ds_sent :: "string list"
  ds_delivered :: "Message list"
  ds_recoveries :: nat
  ds_processed :: "int list"

definition NewDeribitSession :: "bool \<Rightarrow> Authenticator option \<Rightarrow> DeribitConfig \<Rightarrow> (DeribitConfig \<times> DeribitSession) result" where
  "NewDeribitSession hasDial auth config =
     (case auth of
        None \<Rightarrow> Inl (EText ''Deribit FIX dialer and authenticator are required'')
      | Some a \<Rightarrow>
          (if \<not> hasDial then Inl (EText ''Deribit FIX dialer and authenticator are required'')
           else Inr
             (config\<lparr>dg_Heartbeat := (if dg_Heartbeat config \<le> 0 then 10 * Second else dg_Heartbeat config),
                dg_MaxRecoveryBuffer := (if dg_MaxRecoveryBuffer config \<le> 0 then 64 else dg_MaxRecoveryBuffer config),
                dg_MaxOutboundJournal := (if dg_MaxOutboundJournal config \<le> 0 then 256 else dg_MaxOutboundJournal config)\<rparr>,
              \<lparr>ds_auth = a, ds_transport = False, ds_nextOut = 1, ds_expectedIn = 1, ds_loggedOn = False, ds_recovering = False,
               ds_pending = [], ds_journal = [], ds_lastWrite = 0, ds_inbound = 0, ds_outbound = 0, ds_heartbeats = 0,
               ds_testRequests = 0, ds_resendRequests = 0, ds_sequenceResets = 0, ds_sequenceErrors = 0, ds_resentMessages = 0,
               ds_wire = [], ds_sent = [], ds_delivered = [], ds_recoveries = 0, ds_processed = []\<rparr>)))"

subsection \<open>Writing\<close>

definition writeRawLocked :: "SendEnv \<Rightarrow> string \<Rightarrow> DeribitSession \<Rightarrow> goerror option \<times> DeribitSession" where
  "writeRawLocked env raw s =
     (if \<not> ds_transport s then (Some (EText ''Deribit FIX transport unavailable''), s)
      else case writeAll (sd_Writer env) 0 raw of
          (out, Some e) \<Rightarrow> (Some e, s\<lparr>ds_wire := ds_wire s @ out\<rparr>)
        | (out, None) \<Rightarrow>
            (None, s\<lparr>ds_wire := ds_wire s @ out, ds_sent := ds_sent s @ [raw], ds_lastWrite := sd_Done env,
                     ds_outbound := ds_outbound s + 1\<rparr>))"

definition journalLimit :: "DeribitConfig \<Rightarrow> int" where
  "journalLimit config = (if dg_MaxOutboundJournal config \<le> 0 then 256 else dg_MaxOutboundJournal config)"

definition bufferLimit :: "DeribitConfig \<Rightarrow> int" where
  "bufferLimit config = (if dg_MaxRecoveryBuffer config \<le> 0 then 64 else dg_MaxRecoveryBuffer config)"

definition rememberOutboundLocked :: "DeribitConfig \<Rightarrow> int \<Rightarrow> Field list \<Rightarrow> DeribitSession \<Rightarrow> DeribitSession" where
  "rememberOutboundLocked config seq fs s =
     (let journal = (if int (length (ds_journal s)) \<ge> journalLimit config
                     then gdel (foldl min seq (map fst (ds_journal s))) (ds_journal s) else ds_journal s) in
      s\<lparr>ds_journal := gput seq fs journal\<rparr>)"

definition outFields :: "DeribitSession \<Rightarrow> time \<Rightarrow> string \<Rightarrow> Field list \<Rightarrow> Field list" where
  "outFields s stamp msgType body =
     [mkField 35 msgType, mkField 49 (au_SenderCompID (ds_auth s)), mkField 56 DeribitTarget,
      mkField 34 (FormatInt (ds_nextOut s)), mkField 52 (FormatFIX stamp)] @ body"

definition sendLocked :: "DeribitConfig \<Rightarrow> SendEnv \<Rightarrow> string \<Rightarrow> Field list \<Rightarrow> DeribitSession \<Rightarrow> goerror option \<times> DeribitSession" where
  "sendLocked config env msgType body s =
     (let fs = outFields s (sd_Stamp env) msgType body in
      case Encode ''FIX.4.4'' fs of
        Inl e \<Rightarrow> (Some e, s)
      | Inr raw \<Rightarrow>
          (case writeRawLocked env raw s of
             (Some e, s1) \<Rightarrow> (Some e, s1)
           | (None, s1) \<Rightarrow>
               (None, (rememberOutboundLocked config (ds_nextOut s1) fs s1)\<lparr>ds_nextOut := wrap64 (ds_nextOut s1 + 1)\<rparr>)))"

definition Send :: "DeribitConfig \<Rightarrow> SendEnv \<Rightarrow> string \<Rightarrow> Field list \<Rightarrow> DeribitSession \<Rightarrow> goerror option \<times> DeribitSession" where
  "Send config env msgType body s =
     (if \<not> ds_loggedOn s then (Some (EText ''Deribit FIX session is not logged on''), s)
      else if ds_recovering s then (Some (EText ''Deribit FIX session recovering; application writes paused''), s)
      else sendLocked config env msgType body s)"

text \<open>A resent message: the new sending time, the duplicate flag and the original sending time in place of tag 52.\<close>

definition resentFields :: "time \<Rightarrow> string \<Rightarrow> Field list \<Rightarrow> Field list" where
  "resentFields stamp orig fs =
     concat (map (\<lambda>f. if fd_Tag f = 43 \<or> fd_Tag f = 122 then []
                      else if fd_Tag f = 52 then [mkField 52 (FormatFIX stamp), mkField 43 ''Y'', mkField 122 orig]
                      else [f]) fs)"

definition resendOne :: "SendEnv \<Rightarrow> int \<Rightarrow> DeribitSession \<Rightarrow> goerror option \<times> DeribitSession" where
  "resendOne env seq s =
     (case gget (ds_journal s) seq of
        None \<Rightarrow> (Some (ResendUnavailableError seq), s)
      | Some fs \<Rightarrow>
          (let orig = (case find (\<lambda>f. fd_Tag f = 52) fs of None \<Rightarrow> [] | Some f \<Rightarrow> fd_Value f) in
           if orig = [] then (Some (ResendUnavailableError seq), s)
           else case Encode ''FIX.4.4'' (resentFields (sd_Stamp env) orig fs) of
               Inl e \<Rightarrow> (Some e, s)
             | Inr raw \<Rightarrow>
                 (case writeRawLocked env raw s of
                    (Some e, s1) \<Rightarrow> (Some e, s1)
                  | (None, s1) \<Rightarrow> (None, s1\<lparr>ds_resentMessages := ds_resentMessages s1 + 1\<rparr>))))"

function resendLocked :: "(int \<Rightarrow> SendEnv) \<Rightarrow> int \<Rightarrow> int \<Rightarrow> DeribitSession \<Rightarrow> goerror option \<times> DeribitSession" where
  "resendLocked envs seq stop s =
     (if seq > stop then (None, s)
      else case resendOne (envs seq) seq s of
          (Some e, s1) \<Rightarrow> (Some e, s1)
        | (None, s1) \<Rightarrow> resendLocked envs (seq + 1) stop s1)"
  by pat_completeness auto
termination
  by (relation "measure (\<lambda>(_, seq, stop, _). nat (stop + 1 - seq))") auto

declare resendLocked.simps [simp del]

subsection \<open>Processing a message in its turn\<close>

text \<open>A callback: the sends of other goroutines while the lock is released, and what the callback returns.\<close>

record Callback =
  cb_Sends :: "(SendEnv \<times> string \<times> Field list) list"
  cb_Error :: "goerror option"

fun runSends :: "DeribitConfig \<Rightarrow> (SendEnv \<times> string \<times> Field list) list \<Rightarrow> DeribitSession \<Rightarrow> DeribitSession" where
  "runSends config [] s = s"
| "runSends config ((env, msgType, body) # sends) s = runSends config sends (snd (Send config env msgType body s))"

record ProcEnv =
  pv_Send :: SendEnv
  pv_Resend :: "int \<Rightarrow> SendEnv"
  pv_Callback :: Callback

definition textAt :: "Message \<Rightarrow> int \<Rightarrow> string" where
  "textAt m tag = (case Message_Get m tag of None \<Rightarrow> [] | Some v \<Rightarrow> v)"

definition intAt :: "Message \<Rightarrow> int \<Rightarrow> int" where
  "intAt m tag = (case Atoi (textAt m tag) of None \<Rightarrow> 0 | Some n \<Rightarrow> n)"

definition answerTestRequest :: "DeribitConfig \<Rightarrow> ProcEnv \<Rightarrow> Message \<Rightarrow> DeribitSession \<Rightarrow> goerror option \<times> DeribitSession" where
  "answerTestRequest config env m s =
     (case sendLocked config (pv_Send env) ''0'' (if textAt m 112 \<noteq> [] then [mkField 112 (textAt m 112)] else []) s of
        (Some e, s1) \<Rightarrow> (Some e, s1)
      | (None, s1) \<Rightarrow> (None, s1\<lparr>ds_testRequests := ds_testRequests s1 + 1\<rparr>))"

definition resendRange :: "Message \<Rightarrow> DeribitSession \<Rightarrow> (int \<times> int) result" where
  "resendRange m s =
     (case (Message_Get m 7, Message_Get m 16) of
        (Some beginRaw, Some endRaw) \<Rightarrow>
          (case (Atoi beginRaw, Atoi endRaw) of
             (Some first, Some stop) \<Rightarrow>
               (if first \<le> 0 \<or> stop < 0 then Inl (EText ''invalid Deribit FIX ResendRequest range'')
                else
                  (let stop' = (if stop = 0 \<or> stop \<ge> ds_nextOut s then wrap64 (ds_nextOut s - 1) else stop) in
                   if stop' < first then Inl (EText ''invalid Deribit FIX ResendRequest range'') else Inr (first, stop')))
           | _ \<Rightarrow> Inl (EText ''invalid Deribit FIX ResendRequest range''))
      | _ \<Rightarrow> Inl (EText ''invalid Deribit FIX ResendRequest range''))"

definition answerResendRequest :: "ProcEnv \<Rightarrow> Message \<Rightarrow> DeribitSession \<Rightarrow> goerror option \<times> DeribitSession" where
  "answerResendRequest env m s =
     (case resendRange m s of
        Inl e \<Rightarrow> (Some e, s)
      | Inr (first, stop) \<Rightarrow>
          (case resendLocked (pv_Resend env) first stop s of
             (Some e, s1) \<Rightarrow> (Some e, s1\<lparr>ds_recovering := True\<rparr>)
           | (None, s1) \<Rightarrow> (None, s1\<lparr>ds_resendRequests := ds_resendRequests s1 + 1\<rparr>)))"

definition deliverMessage :: "DeribitConfig \<Rightarrow> ProcEnv \<Rightarrow> Message \<Rightarrow> DeribitSession \<Rightarrow> goerror option \<times> DeribitSession" where
  "deliverMessage config env m s =
     (if \<not> ds_loggedOn s then (Some (EText ''Deribit FIX application message arrived before Logon''), s)
      else if \<not> dg_HasOnMessage config then (None, s)
      else (cb_Error (pv_Callback env), runSends config (cb_Sends (pv_Callback env)) (s\<lparr>ds_delivered := ds_delivered s @ [m]\<rparr>)))"

definition dispatchExpected :: "DeribitConfig \<Rightarrow> ProcEnv \<Rightarrow> Message \<Rightarrow> int \<Rightarrow> DeribitSession \<Rightarrow> goerror option \<times> DeribitSession" where
  "dispatchExpected config env m seq s =
     (let msgType = textAt m 35 in
      if msgType = ''A'' then
        (if seq \<noteq> 1 then (Some (EText ''Deribit FIX Logon must begin sequence 1''), s) else (None, s\<lparr>ds_loggedOn := True\<rparr>))
      else if msgType = ''0'' then (None, s)
      else if msgType = ''1'' then answerTestRequest config env m s
      else if msgType = ''2'' then answerResendRequest env m s
      else if msgType = ''4'' then (Some (EText ''internal Deribit FIX SequenceReset routing error''), s)
      else if msgType = ''3'' then (Some (EText ''Deribit FIX session rejected message''), s)
      else if msgType = ''5'' then
        (if \<not> ds_loggedOn s then (Some AuthenticationError, s) else (Some ErrEOF, s\<lparr>ds_loggedOn := False\<rparr>))
      else deliverMessage config env m s)"

definition processExpectedLocked :: "DeribitConfig \<Rightarrow> ProcEnv \<Rightarrow> Message \<Rightarrow> DeribitSession \<Rightarrow> goerror option \<times> DeribitSession" where
  "processExpectedLocked config env m s =
     (let seq = intAt m 34 in
      if seq \<noteq> ds_expectedIn s then (Some (DeribitSequenceError (ds_expectedIn s) seq), s)
      else dispatchExpected config env m seq
             (s\<lparr>ds_expectedIn := wrap64 (ds_expectedIn s + 1), ds_processed := ds_processed s @ [seq]\<rparr>))"

text \<open>Processing leaves the buffer alone, so the loop that empties it ends.\<close>

lemma writeRawLocked_cases:
  assumes "writeRawLocked env raw s = (e, s')"
  obtains (failed) x out where "e = Some x" "s' = s\<lparr>ds_wire := ds_wire s @ out\<rparr>"
  | (written) out where "e = None" "ds_transport s" "writeAll (sd_Writer env) 0 raw = (out, None)"
      "s' = s\<lparr>ds_wire := ds_wire s @ out, ds_sent := ds_sent s @ [raw], ds_lastWrite := sd_Done env, ds_outbound := ds_outbound s + 1\<rparr>"
proof (cases "ds_transport s")
  case True
  obtain out r where "writeAll (sd_Writer env) 0 raw = (out, r)" by (metis surj_pair)
  then show ?thesis using assms that True by (cases r) (auto simp: writeRawLocked_def)
next
  case False
  then have "e = Some (EText ''Deribit FIX transport unavailable'')" "s' = s\<lparr>ds_wire := ds_wire s @ []\<rparr>"
    using assms by (auto simp: writeRawLocked_def)
  then show ?thesis by (rule failed)
qed

lemma sendLocked_cases:
  assumes "sendLocked config env msgType body s = (e, s')"
  obtains (failed) x out where "e = Some x" "s' = s\<lparr>ds_wire := ds_wire s @ out\<rparr>"
  | (sent) raw s1 where "e = None" "Encode ''FIX.4.4'' (outFields s (sd_Stamp env) msgType body) = Inr raw"
      "writeRawLocked env raw s = (None, s1)" "ds_nextOut s1 = ds_nextOut s"
      "s' = (rememberOutboundLocked config (ds_nextOut s) (outFields s (sd_Stamp env) msgType body) s1)\<lparr>ds_nextOut := wrap64 (ds_nextOut s + 1)\<rparr>"
proof (cases "Encode ''FIX.4.4'' (outFields s (sd_Stamp env) msgType body)")
  case (Inl x)
  then have "e = Some x" "s' = s\<lparr>ds_wire := ds_wire s @ []\<rparr>" using assms by (auto simp: sendLocked_def)
  then show ?thesis by (rule failed)
next
  case (Inr raw)
  obtain r s1 where w: "writeRawLocked env raw s = (r, s1)" by (metis surj_pair)
  then show ?thesis
  proof (cases rule: writeRawLocked_cases)
    case (failed x out)
    then show ?thesis using that(1) assms Inr w by (auto simp: sendLocked_def)
  next
    case (written out)
    then have "ds_nextOut s1 = ds_nextOut s" by simp
    then show ?thesis using that(2) [of raw s1] assms Inr w written by (simp add: sendLocked_def Let_def)
  qed
qed

lemma resendOne_cases:
  assumes "resendOne env seq s = (e, s')"
  obtains (failed) x out where "e = Some x" "s' = s\<lparr>ds_wire := ds_wire s @ out\<rparr>"
  | (sent) fs raw s1 where "e = None" "gget (ds_journal s) seq = Some fs" "writeRawLocked env raw s = (None, s1)"
      "Encode ''FIX.4.4'' (resentFields (sd_Stamp env) (case find (\<lambda>f. fd_Tag f = 52) fs of None \<Rightarrow> [] | Some f \<Rightarrow> fd_Value f) fs) = Inr raw"
      "s' = s1\<lparr>ds_resentMessages := ds_resentMessages s1 + 1\<rparr>"
proof (cases "gget (ds_journal s) seq")
  case None
  then have "e = Some (ResendUnavailableError seq)" "s' = s\<lparr>ds_wire := ds_wire s @ []\<rparr>" using assms by (auto simp: resendOne_def)
  then show ?thesis by (rule failed)
next
  case (Some fs)
  let ?orig = "case find (\<lambda>f. fd_Tag f = 52) fs of None \<Rightarrow> [] | Some f \<Rightarrow> fd_Value f"
  show ?thesis
  proof (cases "\<exists>raw. ?orig \<noteq> [] \<and> Encode ''FIX.4.4'' (resentFields (sd_Stamp env) ?orig fs) = Inr raw")
    case True
    then obtain raw where raw: "?orig \<noteq> []" "Encode ''FIX.4.4'' (resentFields (sd_Stamp env) ?orig fs) = Inr raw" by blast
    obtain r s1 where w: "writeRawLocked env raw s = (r, s1)" by (metis surj_pair)
    then have r: "(r, s1) = (None, s1) \<and> e = None \<and> s' = s1\<lparr>ds_resentMessages := ds_resentMessages s1 + 1\<rparr> \<or> r = e \<and> e \<noteq> None \<and> s1 = s'"
      using assms Some raw by (cases r) (auto simp: resendOne_def Let_def simp del: find_None_iff)
    from w show ?thesis
    proof (cases rule: writeRawLocked_cases)
      case (failed x out)
      then show ?thesis using that(1) r by auto
    next
      case (written out)
      then show ?thesis using that(2) [OF _ Some _ raw(2), of s1] r w by auto
    qed
  next
    case False
    then have "\<exists>x. e = Some x \<and> s' = s"
      using assms Some by (auto simp: resendOne_def Let_def simp del: find_None_iff split: if_splits sum.splits)
    then obtain x where "e = Some x" "s' = s\<lparr>ds_wire := ds_wire s @ []\<rparr>" by auto
    then show ?thesis by (rule failed)
  qed
qed

text \<open>What a write leaves alone: everything that belongs to the inbound side.\<close>

definition sameInbound :: "DeribitSession \<Rightarrow> DeribitSession \<Rightarrow> bool" where
  "sameInbound s s' \<longleftrightarrow> ds_auth s' = ds_auth s \<and> ds_transport s' = ds_transport s \<and> ds_expectedIn s' = ds_expectedIn s \<and>
     ds_loggedOn s' = ds_loggedOn s \<and> ds_recovering s' = ds_recovering s \<and> ds_pending s' = ds_pending s \<and>
     ds_delivered s' = ds_delivered s \<and> ds_processed s' = ds_processed s \<and> ds_recoveries s' = ds_recoveries s"

lemma sameInbound_refl [simp]: "sameInbound s s"
  by (simp add: sameInbound_def)

lemma sameInbound_trans: "sameInbound s t \<Longrightarrow> sameInbound t u \<Longrightarrow> sameInbound s u"
  by (simp add: sameInbound_def)

lemma writeRawLocked_inbound: "writeRawLocked env raw s = (e, s') \<Longrightarrow> sameInbound s s'"
  by (erule writeRawLocked_cases) (auto simp: sameInbound_def)

lemma sendLocked_inbound: "sendLocked config env t b s = (e, s') \<Longrightarrow> sameInbound s s'"
  by (erule sendLocked_cases) (auto simp: sameInbound_def rememberOutboundLocked_def Let_def dest!: writeRawLocked_inbound)

lemma Send_inbound: "sameInbound s (snd (Send config env t b s))"
  using sendLocked_inbound [OF surjective_pairing] by (auto simp: Send_def)

lemma runSends_inbound: "sameInbound s (runSends config sends s)"
proof (induction config sends s rule: runSends.induct)
  case (2 config env msgType body sends s)
  then show ?case using sameInbound_trans [OF Send_inbound] by simp
qed simp

lemma resendOne_inbound: "resendOne env seq s = (e, s') \<Longrightarrow> sameInbound s s'"
  by (erule resendOne_cases) (auto simp: sameInbound_def dest!: writeRawLocked_inbound)

lemma resendLocked_inbound: "resendLocked envs seq stop s = (e, s') \<Longrightarrow> sameInbound s s'"
proof (induction envs seq stop s arbitrary: e s' rule: resendLocked.induct)
  case (1 envs seq stop s)
  obtain e1 s1 where r: "resendOne (envs seq) seq s = (e1, s1)" by (metis surj_pair)
  note step = "1.prems" [unfolded resendLocked.simps [of envs seq]]
  show ?case
  proof (cases "seq > stop \<or> e1 \<noteq> None")
    case True
    then show ?thesis using step r resendOne_inbound [OF r] by (auto split: if_splits)
  next
    case False
    then have "resendLocked envs (seq + 1) stop s1 = (e, s')" using step r by auto
    then have "sameInbound s1 s'" using "1.IH" r False by auto
    then show ?thesis using resendOne_inbound [OF r] sameInbound_trans by blast
  qed
qed

lemma dispatchExpected_pending:
  assumes "dispatchExpected config env m seq s = (e, s')"
  shows "ds_pending s' = ds_pending s \<and> ds_expectedIn s' = ds_expectedIn s \<and> ds_processed s' = ds_processed s \<and> ds_recoveries s' = ds_recoveries s"
proof -
  have "answerTestRequest config env m s = (e, s') \<Longrightarrow> ?thesis"
    by (auto simp: answerTestRequest_def sameInbound_def dest!: sendLocked_inbound split: prod.splits option.splits)
  moreover have "answerResendRequest env m s = (e, s') \<Longrightarrow> ?thesis"
    by (auto simp: answerResendRequest_def sameInbound_def dest!: resendLocked_inbound split: prod.splits option.splits sum.splits)
  moreover have "deliverMessage config env m s = (e, s') \<Longrightarrow> ?thesis"
    using runSends_inbound [of "s\<lparr>ds_delivered := ds_delivered s @ [m]\<rparr>" config "cb_Sends (pv_Callback env)"]
    by (auto simp: deliverMessage_def sameInbound_def split: if_splits)
  ultimately show ?thesis using assms by (auto simp: dispatchExpected_def Let_def split: if_splits)
qed

lemma processExpectedLocked_pending: "processExpectedLocked config env m s = (e, s') \<Longrightarrow> ds_pending s' = ds_pending s"
  by (auto simp: processExpectedLocked_def Let_def dest!: dispatchExpected_pending split: if_splits)

lemma length_gdel_less: "gget m k = Some v \<Longrightarrow> length (gdel k m) < length m"
  by (induction m) (auto simp: less_Suc_eq_le length_delete_le)

subsection \<open>Receiving\<close>

text \<open>Emptying the buffer from the expected number on; \<open>n\<close> counts the messages processed so far.\<close>

function drainPending :: "DeribitConfig \<Rightarrow> (nat \<Rightarrow> ProcEnv) \<Rightarrow> nat \<Rightarrow> DeribitSession \<Rightarrow> goerror option \<times> DeribitSession" where
  "drainPending config envs n s =
     (case gget (ds_pending s) (ds_expectedIn s) of
        None \<Rightarrow> (None, s)
      | Some m \<Rightarrow>
          (case processExpectedLocked config (envs n) m (s\<lparr>ds_pending := gdel (ds_expectedIn s) (ds_pending s)\<rparr>) of
             (Some e, s1) \<Rightarrow> (Some e, s1)
           | (None, s1) \<Rightarrow> drainPending config envs (Suc n) s1))"
  by pat_completeness auto
termination
  by (relation "measure (\<lambda>(_, _, _, s). length (ds_pending s))")
    (auto dest!: processExpectedLocked_pending [OF sym] simp: length_gdel_less)

declare drainPending.simps [simp del]

record HandleEnv =
  he_Gap :: SendEnv
  he_Proc :: "nat \<Rightarrow> ProcEnv"
  he_Recovery :: Callback

definition finishRecoveryLocked :: "DeribitConfig \<Rightarrow> HandleEnv \<Rightarrow> DeribitSession \<Rightarrow> goerror option \<times> DeribitSession" where
  "finishRecoveryLocked config env s =
     (if \<not> ds_recovering s \<or> ds_pending s \<noteq> [] then (None, s)
      else if dg_HasOnRecovery config then
        (let s1 = runSends config (cb_Sends (he_Recovery env)) (s\<lparr>ds_recoveries := ds_recoveries s + 1\<rparr>) in
         case cb_Error (he_Recovery env) of
           Some e \<Rightarrow> (Some e, s1)
         | None \<Rightarrow> (None, s1\<lparr>ds_recovering := False\<rparr>))
      else (None, s\<lparr>ds_recovering := False\<rparr>))"

definition drainAndFinish :: "DeribitConfig \<Rightarrow> HandleEnv \<Rightarrow> nat \<Rightarrow> DeribitSession \<Rightarrow> goerror option \<times> DeribitSession" where
  "drainAndFinish config env n s =
     (case drainPending config (he_Proc env) n s of
        (Some e, s1) \<Rightarrow> (Some e, s1)
      | (None, s1) \<Rightarrow> finishRecoveryLocked config env s1)"

definition handleSequenceResetLocked :: "DeribitConfig \<Rightarrow> HandleEnv \<Rightarrow> Message \<Rightarrow> DeribitSession \<Rightarrow> goerror option \<times> DeribitSession" where
  "handleSequenceResetLocked config env m s =
     (if \<not> ds_loggedOn s then (Some (EText ''Deribit FIX SequenceReset arrived before Logon''), s)
      else case Message_Get m 36 of
          None \<Rightarrow> (Some (EText ''SequenceReset missing NewSeqNo''), s)
        | Some raw \<Rightarrow>
            (case Atoi raw of
               None \<Rightarrow> (Some (EText ''SequenceReset may only move forward''), s)
             | Some nextSeq \<Rightarrow>
                 (if nextSeq \<le> ds_expectedIn s then (Some (EText ''SequenceReset may only move forward''), s)
                  else drainAndFinish config env 0
                         (s\<lparr>ds_expectedIn := nextSeq, ds_recovering := True,
                            ds_pending := filter (\<lambda>(k, _). \<not> k < nextSeq) (ds_pending s),
                            ds_sequenceResets := ds_sequenceResets s + 1\<rparr>))))"

text \<open>A message ahead of its turn: into the buffer, and one resend request per recovery.\<close>

definition bufferAhead :: "DeribitConfig \<Rightarrow> int \<Rightarrow> Message \<Rightarrow> DeribitSession \<Rightarrow> DeribitSession result" where
  "bufferAhead config seq m s =
     (if gget (ds_pending s) seq \<noteq> None then Inr s
      else if int (length (ds_pending s)) \<ge> bufferLimit config then Inl (RecoveryOverflowError (bufferLimit config))
      else Inr (s\<lparr>ds_pending := gput seq m (ds_pending s)\<rparr>))"

definition receiveAhead :: "DeribitConfig \<Rightarrow> HandleEnv \<Rightarrow> int \<Rightarrow> Message \<Rightarrow> DeribitSession \<Rightarrow> goerror option \<times> DeribitSession" where
  "receiveAhead config env seq m s =
     (case bufferAhead config seq m s of
        Inl e \<Rightarrow> (Some e, s\<lparr>ds_sequenceErrors := ds_sequenceErrors s + 1\<rparr>)
      | Inr s1 \<Rightarrow>
          (if ds_recovering s1 then (None, s1)
           else
             (case sendLocked config (he_Gap env) ''2'' [mkField 7 (FormatInt (ds_expectedIn s1)), mkField 16 ''0'']
                     (s1\<lparr>ds_recovering := True, ds_sequenceErrors := ds_sequenceErrors s1 + 1\<rparr>) of
                (Some e, s2) \<Rightarrow> (Some e, s2)
              | (None, s2) \<Rightarrow> (None, s2\<lparr>ds_resendRequests := ds_resendRequests s2 + 1\<rparr>))))"

definition handleNumbered :: "DeribitConfig \<Rightarrow> HandleEnv \<Rightarrow> int \<Rightarrow> Message \<Rightarrow> DeribitSession \<Rightarrow> goerror option \<times> DeribitSession" where
  "handleNumbered config env seq m s =
     (if textAt m 35 = ''4'' then handleSequenceResetLocked config env m s
      else if seq > ds_expectedIn s then receiveAhead config env seq m s
      else if seq < ds_expectedIn s then
        (if textAt m 43 = ''Y'' then (None, s)
         else (Some (DeribitSequenceError (ds_expectedIn s) seq), s\<lparr>ds_sequenceErrors := ds_sequenceErrors s + 1\<rparr>))
      else case processExpectedLocked config (he_Proc env 0) m s of
          (Some e, s1) \<Rightarrow> (Some e, s1)
        | (None, s1) \<Rightarrow> drainAndFinish config env 1 s1)"

definition handle :: "DeribitConfig \<Rightarrow> HandleEnv \<Rightarrow> Message \<Rightarrow> DeribitSession \<Rightarrow> goerror option \<times> DeribitSession" where
  "handle config env m s =
     (case Message_Get m 34 of
        None \<Rightarrow> (Some (EText ''Deribit FIX message missing MsgSeqNum''), s)
      | Some raw \<Rightarrow>
          (case Atoi raw of
             None \<Rightarrow> (Some (EText ''invalid Deribit FIX MsgSeqNum''), s)
           | Some seq \<Rightarrow>
               (if seq \<le> 0 then (Some (EText ''invalid Deribit FIX MsgSeqNum''), s)
                else handleNumbered config env seq m (s\<lparr>ds_inbound := ds_inbound s + 1\<rparr>))))"

subsection \<open>The connection loop\<close>

definition bestEffortLogout :: "DeribitConfig \<Rightarrow> SendEnv \<Rightarrow> DeribitSession \<Rightarrow> DeribitSession" where
  "bestEffortLogout config env s =
     (if \<not> ds_loggedOn s \<or> \<not> ds_transport s then s
      else (snd (sendLocked config env ''5'' [] s))\<lparr>ds_loggedOn := False\<rparr>)"

definition tickSession :: "DeribitConfig \<Rightarrow> time \<Rightarrow> SendEnv \<Rightarrow> DeribitSession \<Rightarrow> goerror option \<times> DeribitSession" where
  "tickSession config now env s =
     (if ds_loggedOn s \<and> \<not> ds_recovering s \<and> Sub now (ds_lastWrite s) \<ge> dg_Heartbeat config then
        (case sendLocked config env ''0'' [] s of
           (Some e, s1) \<Rightarrow> (Some e, s1)
         | (None, s1) \<Rightarrow> (None, s1\<lparr>ds_heartbeats := ds_heartbeats s1 + 1\<rparr>))
      else (None, s))"

fun handleFrames :: "DeribitConfig \<Rightarrow> (nat \<Rightarrow> HandleEnv) \<Rightarrow> nat \<Rightarrow> string list \<Rightarrow> DeribitSession \<Rightarrow> goerror option \<times> DeribitSession" where
  "handleFrames config envs n [] s = (None, s)"
| "handleFrames config envs n (frame # frames) s =
     (case ParseStrict frame of
        (m, Some e) \<Rightarrow> (Some e, s)
      | (m, None) \<Rightarrow>
          (case handle config (envs n) m s of
             (Some e, s1) \<Rightarrow> (Some e, s1)
           | (None, s1) \<Rightarrow> handleFrames config envs (Suc n) frames s1))"

datatype DeribitEvent =
    DvCancelled SendEnv
  | DvReadError goerror bool
  | DvChunk string "nat \<Rightarrow> HandleEnv"
  | DvTick time SendEnv
  | DvApplication SendEnv string "Field list"

datatype DeribitOutcome = DvContinue | DvReturn "goerror option" | DvPanic

definition outcomeOf :: "goerror option \<Rightarrow> DeribitOutcome" where
  "outcomeOf e = (case e of None \<Rightarrow> DvContinue | Some x \<Rightarrow> DvReturn (Some x))"

definition deribitStep :: "DeribitConfig \<Rightarrow> DeribitEvent \<Rightarrow> Framer \<Rightarrow> DeribitSession \<Rightarrow> Framer \<times> DeribitSession \<times> DeribitOutcome" where
  "deribitStep config ev framer s =
     (case ev of
        DvCancelled env \<Rightarrow> (framer, bestEffortLogout config env s, DvReturn None)
      | DvReadError e cancelled \<Rightarrow> (framer, s, DvReturn (if isEOF e \<and> cancelled then None else Some e))
      | DvChunk chunk envs \<Rightarrow>
          (case Feed chunk framer of
             (framer', frames, FeedError e) \<Rightarrow> (framer', s, DvReturn (Some e))
           | (framer', frames, FeedPanic) \<Rightarrow> (framer', s, DvPanic)
           | (framer', frames, FeedOK) \<Rightarrow> (case handleFrames config envs 0 frames s of (e, s1) \<Rightarrow> (framer', s1, outcomeOf e)))
      | DvTick now env \<Rightarrow> (case tickSession config now env s of (e, s1) \<Rightarrow> (framer, s1, outcomeOf e))
      | DvApplication env msgType body \<Rightarrow> (framer, snd (Send config env msgType body s), DvContinue))"

fun deribitLoop :: "DeribitConfig \<Rightarrow> DeribitEvent list \<Rightarrow> Framer \<Rightarrow> DeribitSession \<Rightarrow> DeribitSession \<times> DeribitOutcome" where
  "deribitLoop config [] framer s = (s, DvContinue)"
| "deribitLoop config (ev # events) framer s =
     (case deribitStep config ev framer s of
        (framer', s1, DvContinue) \<Rightarrow> deribitLoop config events framer' s1
      | (framer', s1, out) \<Rightarrow> (s1, out))"

text \<open>
  \<open>Run\<close>: the dialer's answer, what the logon reads and writes, and the events of the loop. A connection has a new
  wire. Closing the transport and waiting for the reader have no effect on the session.
\<close>

definition closeConnection :: "DeribitSession \<Rightarrow> DeribitSession" where
  "closeConnection s = s\<lparr>ds_transport := False, ds_loggedOn := False\<rparr>"

definition writeLogon :: "AuthEnv \<Rightarrow> SendEnv \<Rightarrow> DeribitSession \<Rightarrow> goerror option \<times> DeribitSession" where
  "writeLogon aenv env s =
     (case Logon aenv (ds_nextOut s) (ds_auth s) of
        (Inl e, a) \<Rightarrow> (Some e, s\<lparr>ds_auth := a\<rparr>)
      | (Inr raw, a) \<Rightarrow>
          (case writeRawLocked env raw (s\<lparr>ds_auth := a\<rparr>) of
             (Some e, s1) \<Rightarrow> (Some e, s1)
           | (None, s1) \<Rightarrow> (None, s1\<lparr>ds_nextOut := wrap64 (ds_nextOut s1 + 1)\<rparr>)))"

definition runDeribit :: "DeribitConfig \<Rightarrow> goerror option \<Rightarrow> AuthEnv \<Rightarrow> SendEnv \<Rightarrow> DeribitEvent list \<Rightarrow> DeribitSession \<Rightarrow> DeribitSession \<times> DeribitOutcome" where
  "runDeribit config dial aenv env events s =
     (case dial of
        Some e \<Rightarrow> (s, DvReturn (Some e))
      | None \<Rightarrow>
          (case writeLogon aenv env (s\<lparr>ds_transport := True, ds_wire := [], ds_sent := []\<rparr>) of
             (Some e, s1) \<Rightarrow> (s1, DvReturn (Some e))
           | (None, s1) \<Rightarrow>
               (case deribitLoop config events \<lparr>fr_buffer = [], fr_MaxSize = 1048576\<rparr> s1 of
                  (s2, DvContinue) \<Rightarrow> (s2, DvContinue)
                | (s2, out) \<Rightarrow> (closeConnection s2, out))))"

record DeribitStats =
  dt_Inbound :: nat
  dt_Outbound :: nat
  dt_Heartbeats :: nat
  dt_TestRequests :: nat
  dt_ResendRequests :: nat
  dt_ResentMessages :: nat
  dt_SequenceResets :: nat
  dt_SequenceErrors :: nat
  dt_RecoveryBuffered :: nat
  dt_LoggedOn :: bool
  dt_Recovering :: bool

definition Session_Stats :: "DeribitSession \<Rightarrow> DeribitStats" where
  "Session_Stats s =
     \<lparr>dt_Inbound = ds_inbound s, dt_Outbound = ds_outbound s, dt_Heartbeats = ds_heartbeats s, dt_TestRequests = ds_testRequests s,
      dt_ResendRequests = ds_resendRequests s, dt_ResentMessages = ds_resentMessages s, dt_SequenceResets = ds_sequenceResets s,
      dt_SequenceErrors = ds_sequenceErrors s, dt_RecoveryBuffered = length (ds_pending s), dt_LoggedOn = ds_loggedOn s,
      dt_Recovering = ds_recovering s\<rparr>"

end
