(* ===== verification/DeribitFixProps.thy ===== *)
theory DeribitFixProps
  imports DeribitFixSession FixSessionProps "HOL-Library.Sublist"
begin

text \<open>
  What the Deribit FIX session promises: messages are processed once and in the order of their numbers
  whatever arrives when, a gap is recovered from the buffer, application writes pause meanwhile, and a resend
  request for what the journal still holds is answered with the original messages.
\<close>

section \<open>The inbound invariant\<close>

abbreviation seqNo :: "Message \<Rightarrow> int" where
  "seqNo m \<equiv> intAt m 34"

definition maxInt64 :: int where
  "maxInt64 = 2 ^ 63 - 1"

definition ordered :: "DeribitSession \<Rightarrow> bool" where
  "ordered s \<longleftrightarrow> 0 < ds_expectedIn s \<and> ds_expectedIn s \<le> maxInt64 \<and> sorted_wrt (<) (ds_processed s) \<and>
     (\<forall>q\<in>set (ds_processed s). 0 < q \<and> q < ds_expectedIn s) \<and> subseq (map seqNo (ds_delivered s)) (ds_processed s)"

definition inboundInv :: "DeribitSession \<Rightarrow> bool" where
  "inboundInv s \<longleftrightarrow> (maxInt64 \<notin> set (ds_processed s) \<longrightarrow> ordered s) \<and> (ds_pending s \<noteq> [] \<longrightarrow> ds_recovering s)"

lemma inboundInv_update [simp]:
  "inboundInv (s\<lparr>ds_auth := v0\<rparr>) = inboundInv s"
  "inboundInv (s\<lparr>ds_transport := v1\<rparr>) = inboundInv s"
  "inboundInv (s\<lparr>ds_nextOut := v2\<rparr>) = inboundInv s"
  "inboundInv (s\<lparr>ds_loggedOn := v3\<rparr>) = inboundInv s"
  "inboundInv (s\<lparr>ds_journal := v4\<rparr>) = inboundInv s"
  "inboundInv (s\<lparr>ds_lastWrite := v5\<rparr>) = inboundInv s"
  "inboundInv (s\<lparr>ds_inbound := v6\<rparr>) = inboundInv s"
  "inboundInv (s\<lparr>ds_outbound := v7\<rparr>) = inboundInv s"
  "inboundInv (s\<lparr>ds_heartbeats := v8\<rparr>) = inboundInv s"
  "inboundInv (s\<lparr>ds_testRequests := v9\<rparr>) = inboundInv s"
  "inboundInv (s\<lparr>ds_resendRequests := v10\<rparr>) = inboundInv s"
  "inboundInv (s\<lparr>ds_sequenceResets := v11\<rparr>) = inboundInv s"
  "inboundInv (s\<lparr>ds_sequenceErrors := v12\<rparr>) = inboundInv s"
  "inboundInv (s\<lparr>ds_resentMessages := v13\<rparr>) = inboundInv s"
  "inboundInv (s\<lparr>ds_wire := v14\<rparr>) = inboundInv s"
  "inboundInv (s\<lparr>ds_sent := v15\<rparr>) = inboundInv s"
  "inboundInv (s\<lparr>ds_recoveries := v16\<rparr>) = inboundInv s"
  by (simp_all add: inboundInv_def ordered_def)

lemma inboundInv_recovering [intro]: "inboundInv s \<Longrightarrow> inboundInv (s\<lparr>ds_recovering := True\<rparr>)"
  by (simp add: inboundInv_def ordered_def)

lemma sameInbound_inv: "sameInbound s s' \<Longrightarrow> inboundInv s \<Longrightarrow> inboundInv s'"
  by (simp add: sameInbound_def inboundInv_def ordered_def)

lemma dispatchExpected_effect:
  assumes "dispatchExpected config env m seq s = (e, s')"
  shows "ds_pending s' = ds_pending s \<and> ds_expectedIn s' = ds_expectedIn s \<and> ds_processed s' = ds_processed s \<and>
    (ds_delivered s' = ds_delivered s \<or> ds_delivered s' = ds_delivered s @ [m]) \<and> (ds_recovering s \<longrightarrow> ds_recovering s')"
proof -
  have "answerTestRequest config env m s = (e, s') \<Longrightarrow> ?thesis"
    by (auto simp: answerTestRequest_def sameInbound_def dest!: sendLocked_inbound split: prod.splits option.splits)
  moreover have "answerResendRequest env m s = (e, s') \<Longrightarrow> ?thesis"
    by (auto simp: answerResendRequest_def sameInbound_def dest!: resendLocked_inbound split: prod.splits option.splits sum.splits)
  moreover have "deliverMessage config env m s = (e, s') \<Longrightarrow> ?thesis"
    using runSends_inbound [of "s\<lparr>ds_delivered := ds_delivered s @ [m]\<rparr>" config "cb_Sends (pv_Callback env)"]
    by (auto simp: deliverMessage_def sameInbound_def split: if_splits)
  ultimately show ?thesis using assms by (auto simp: dispatchExpected_def Let_def split: if_splits)
qed

lemma processExpected_inv [inv_intros]:
  assumes "processExpectedLocked config env m s = (e, s')" "inboundInv s"
  shows "inboundInv s'"
proof (cases "seqNo m = ds_expectedIn s")
  case True
  let ?s = "s\<lparr>ds_expectedIn := wrap64 (ds_expectedIn s + 1), ds_processed := ds_processed s @ [seqNo m]\<rparr>"
  have d: "dispatchExpected config env m (seqNo m) ?s = (e, s')" using assms(1) True by (simp add: processExpectedLocked_def Let_def)
  note eff = dispatchExpected_effect [OF d]
  have "ordered s'" if "maxInt64 \<notin> set (ds_processed s')"
  proof -
    have o: "ordered s" "seqNo m < maxInt64"
      using that eff True assms(2) by (auto simp: inboundInv_def ordered_def)
    then have "wrap64 (ds_expectedIn s + 1) = ds_expectedIn s + 1" using True by (simp add: ordered_def maxInt64_def)
    moreover have "subseq (map seqNo (ds_delivered s')) (ds_processed s @ [seqNo m])"
      using eff o(1) by (auto simp: ordered_def intro: subseq_rev_drop_many)
    ultimately show ?thesis using o True eff by (auto simp: ordered_def sorted_wrt_append)
  qed
  then show ?thesis using eff assms(2) by (auto simp: inboundInv_def)
next
  case False
  then show ?thesis using assms by (simp add: processExpectedLocked_def Let_def)
qed

lemma shrunk_inv: "inboundInv s \<Longrightarrow> (ds_pending s = [] \<longrightarrow> p = []) \<Longrightarrow> inboundInv (s\<lparr>ds_pending := p\<rparr>)"
  by (auto simp: inboundInv_def ordered_def)

lemma drainPending_inv [inv_intros]:
  "drainPending config envs n s = (e, s') \<Longrightarrow> inboundInv s \<Longrightarrow> inboundInv s'"
proof (induction config envs n s arbitrary: e s' rule: drainPending.induct)
  case (1 config envs n s)
  show ?case
  proof (cases "gget (ds_pending s) (ds_expectedIn s)")
    case None
    then show ?thesis using "1.prems" by (simp add: drainPending.simps [of config envs n s])
  next
    case (Some m)
    let ?s = "s\<lparr>ds_pending := gdel (ds_expectedIn s) (ds_pending s)\<rparr>"
    obtain r s1 where r: "processExpectedLocked config (envs n) m ?s = (r, s1)" by (metis surj_pair)
    have s1: "inboundInv s1" by (rule processExpected_inv [OF r]) (use "1.prems"(2) in \<open>auto intro!: shrunk_inv\<close>)
    show ?thesis
      using "1.prems"(1) "1.IH" [OF Some r [symmetric]] s1 Some r
      by (cases r) (auto simp: drainPending.simps [of config envs n s])
  qed
qed

lemma finishRecovery_inv [inv_intros]:
  assumes "finishRecoveryLocked config env s = (e, s')" "inboundInv s"
  shows "inboundInv s'"
proof (cases "ds_recovering s \<and> ds_pending s = []")
  case True
  let ?s1 = "runSends config (cb_Sends (he_Recovery env)) (s\<lparr>ds_recoveries := ds_recoveries s + 1\<rparr>)"
  have same: "sameInbound (s\<lparr>ds_recoveries := ds_recoveries s + 1\<rparr>) ?s1" by (rule runSends_inbound)
  then have "inboundInv ?s1" using assms(2) by (auto intro: sameInbound_inv)
  moreover have "ds_pending ?s1 = []" using same True by (simp add: sameInbound_def)
  moreover have "inboundInv (t\<lparr>ds_recovering := False\<rparr>)" if "inboundInv t" "ds_pending t = []" for t
    using that by (simp add: inboundInv_def ordered_def)
  ultimately show ?thesis using assms True
    by (auto simp: finishRecoveryLocked_def Let_def split: if_splits option.splits)
next
  case False
  then show ?thesis using assms by (auto simp: finishRecoveryLocked_def)
qed

lemma drainAndFinish_inv [inv_intros]:
  assumes "drainAndFinish config env n s = (e, s')" "inboundInv s"
  shows "inboundInv s'"
proof -
  obtain r s1 where d: "drainPending config (he_Proc env) n s = (r, s1)" by (metis surj_pair)
  have "inboundInv s1" by (rule drainPending_inv [OF d assms(2)])
  then show ?thesis using assms(1) d finishRecovery_inv by (cases r) (auto simp: drainAndFinish_def)
qed

lemma handleSequenceReset_inv [inv_intros]:
  assumes "handleSequenceResetLocked config env m s = (e, s')" "inboundInv s"
  shows "inboundInv s'"
proof (cases "s' = s")
  case False
  then obtain raw k where k: "Atoi raw = Some k" "ds_expectedIn s < k"
    and d: "drainAndFinish config env 0
       (s\<lparr>ds_expectedIn := k, ds_recovering := True, ds_pending := filter (\<lambda>(q, _). \<not> q < k) (ds_pending s),
          ds_sequenceResets := ds_sequenceResets s + 1\<rparr>) = (e, s')"
    using assms(1) unfolding handleSequenceResetLocked_def by (auto split: if_splits option.splits)
  have "k \<le> maxInt64" using Atoi_range [OF k(1)] by (simp add: maxInt64_def)
  then have "inboundInv (s\<lparr>ds_expectedIn := k, ds_recovering := True, ds_pending := p\<rparr>)" for p
    using assms(2) k(2) by (fastforce simp: inboundInv_def ordered_def)
  then show ?thesis by (intro drainAndFinish_inv [OF d]) simp
qed (use assms in simp)

lemma receiveAhead_inv [inv_intros]:
  assumes "receiveAhead config env seq m s = (e, s')" "inboundInv s"
  shows "inboundInv s'"
proof (cases "bufferAhead config seq m s")
  case (Inl x)
  then show ?thesis using assms by (auto simp: receiveAhead_def)
next
  case (Inr s1)
  let ?s = "s1\<lparr>ds_recovering := True, ds_sequenceErrors := ds_sequenceErrors s1 + 1\<rparr>"
  have s1: "s1 = s \<or> s1 = s\<lparr>ds_pending := gput seq m (ds_pending s)\<rparr>" using Inr by (auto simp: bufferAhead_def split: if_splits)
  have rec: "inboundInv (t\<lparr>ds_pending := p, ds_recovering := True\<rparr>)" if "inboundInv t" for t p
    using that by (simp add: inboundInv_def ordered_def)
  have i: "inboundInv (s1\<lparr>ds_recovering := True\<rparr>)" using rec [OF assms(2), of "ds_pending s1"] s1 by auto
  obtain r s2 where r: "sendLocked config (he_Gap env) ''2'' [mkField 7 (FormatInt (ds_expectedIn s1)), mkField 16 ''0''] ?s = (r, s2)"
    by (metis surj_pair)
  have s2: "inboundInv s2" by (rule sameInbound_inv [OF sendLocked_inbound [OF r]]) (use i in simp)
  show ?thesis
  proof (cases "ds_recovering s1")
    case True
    then have "s1\<lparr>ds_recovering := True\<rparr> = s1" by simp
    then have "inboundInv s1" using i by metis
    then show ?thesis using assms(1) Inr True by (simp add: receiveAhead_def)
  next
    case False
    then show ?thesis using assms(1) Inr r s2 by (cases r) (auto simp: receiveAhead_def)
  qed
qed

lemma handleNumbered_inv [inv_intros]:
  assumes "handleNumbered config env seq m s = (e, s')" "inboundInv s"
  shows "inboundInv s'"
proof -
  obtain r s1 where p: "processExpectedLocked config (he_Proc env 0) m s = (r, s1)" by (metis surj_pair)
  have s1: "inboundInv s1" by (rule processExpected_inv [OF p assms(2)])
  show ?thesis
  proof (cases "textAt m 35 = ''4''")
    case True
    then show ?thesis using assms handleSequenceReset_inv by (simp add: handleNumbered_def)
  next
    case False
    note step = assms(1) [unfolded handleNumbered_def if_not_P [OF False]]
    consider "seq > ds_expectedIn s" | "seq < ds_expectedIn s" | "seq = ds_expectedIn s" by linarith
    then show ?thesis
    proof cases
      case 1
      then show ?thesis using step assms(2) receiveAhead_inv by simp
    next
      case 2
      then show ?thesis using step assms(2) by (auto split: if_splits)
    next
      case 3
      then show ?thesis using step p s1 drainAndFinish_inv by (cases r) simp_all
    qed
  qed
qed

lemma handle_inv [inv_intros]:
  assumes "handle config env m s = (e, s')" "inboundInv s"
  shows "inboundInv s'"
proof -
  have "s' = s \<or> (\<exists>seq. handleNumbered config env seq m (s\<lparr>ds_inbound := ds_inbound s + 1\<rparr>) = (e, s'))"
    using assms(1) by (auto simp: handle_def split: option.splits if_splits)
  then show ?thesis using assms(2) handleNumbered_inv [of config env _ m "s\<lparr>ds_inbound := ds_inbound s + 1\<rparr>"] by auto
qed

lemma handleFrames_inv [inv_intros]: "handleFrames config envs n frames s = (e, s') \<Longrightarrow> inboundInv s \<Longrightarrow> inboundInv s'"
proof (induction config envs n frames s arbitrary: e s' rule: handleFrames.induct)
  case (2 config envs n frame frames s)
  obtain m r where p: "ParseStrict frame = (m, r)" by (metis surj_pair)
  obtain x s1 where h: "handle config (envs n) m s = (x, s1)" by (metis surj_pair)
  have "inboundInv s1" by (rule handle_inv [OF h "2.prems"(2)])
  then show ?case using 2 p h by (cases r; cases x) auto
qed simp

lemma tickSession_inv [inv_intros]:
  assumes "tickSession config now env s = (e, s')" "inboundInv s"
  shows "inboundInv s'"
proof -
  obtain r s1 where r: "sendLocked config env ''0'' [] s = (r, s1)" by (metis surj_pair)
  have "inboundInv s1" by (rule sameInbound_inv [OF sendLocked_inbound [OF r] assms(2)])
  then show ?thesis using assms r by (cases r) (auto simp: tickSession_def split: if_splits)
qed

lemma bestEffortLogout_inv [inv_intros]: "inboundInv s \<Longrightarrow> inboundInv (bestEffortLogout config env s)"
  using sameInbound_inv [OF sendLocked_inbound [of config env "''5''" "[]" s, OF surjective_pairing]]
  by (simp add: bestEffortLogout_def)

lemma deribitStep_inv [inv_intros]:
  assumes "deribitStep config ev framer s = (framer', s', out)" "inboundInv s"
  shows "inboundInv s'"
proof (cases ev)
  case (DvChunk chunk envs)
  obtain f1 frames fo where f: "Feed chunk framer = (f1, frames, fo)" by (metis surj_pair)
  obtain x s1 where h: "handleFrames config envs 0 frames s = (x, s1)" by (metis surj_pair)
  then show ?thesis using assms DvChunk f handleFrames_inv [OF h assms(2)] by (cases fo) (auto simp: deribitStep_def)
next
  case (DvTick now env)
  then show ?thesis using assms tickSession_inv by (auto simp: deribitStep_def split: prod.splits)
next
  case (DvApplication env msgType body)
  then show ?thesis using assms sameInbound_inv [OF Send_inbound] by (auto simp: deribitStep_def)
qed (use assms in \<open>auto simp: deribitStep_def intro: bestEffortLogout_inv\<close>)

lemma deribitLoop_inv [inv_intros]: "deribitLoop config events framer s = (s', out) \<Longrightarrow> inboundInv s \<Longrightarrow> inboundInv s'"
proof (induction events arbitrary: framer s)
  case (Cons ev events)
  obtain f1 s1 o1 where st: "deribitStep config ev framer s = (f1, s1, o1)" by (metis surj_pair)
  have "inboundInv s1" by (rule deribitStep_inv [OF st Cons.prems(2)])
  then show ?case using Cons st by (cases o1) auto
qed simp

lemma writeLogon_inv [inv_intros]:
  assumes "writeLogon aenv env s = (e, s')" "inboundInv s"
  shows "inboundInv s'"
proof -
  obtain raw a where l: "Logon aenv (ds_nextOut s) (ds_auth s) = (raw, a)" by (metis surj_pair)
  have i: "inboundInv (s\<lparr>ds_auth := a\<rparr>)" using assms(2) by simp
  show ?thesis
  proof (cases raw)
    case (Inl x)
    then show ?thesis using assms l i by (simp add: writeLogon_def)
  next
    case (Inr r)
    obtain x s1 where w: "writeRawLocked env r (s\<lparr>ds_auth := a\<rparr>) = (x, s1)" by (metis surj_pair)
    then have "inboundInv s1" using sameInbound_inv writeRawLocked_inbound i by blast
    then show ?thesis using assms l Inr w by (cases x) (auto simp: writeLogon_def)
  qed
qed

lemma runDeribit_inv [inv_intros]:
  assumes "runDeribit config dial aenv env events s = (s', out)" "inboundInv s"
  shows "inboundInv s'"
proof (cases dial)
  case None
  let ?s = "s\<lparr>ds_transport := True, ds_wire := [], ds_sent := []\<rparr>"
  obtain x s1 where l: "writeLogon aenv env ?s = (x, s1)" by (metis surj_pair)
  have "inboundInv ?s" using assms(2) by simp
  then have s1: "inboundInv s1" by (rule writeLogon_inv [OF l])
  obtain s2 o2 where d: "deribitLoop config events \<lparr>fr_buffer = [], fr_MaxSize = 1048576\<rparr> s1 = (s2, o2)" by (metis surj_pair)
  have "inboundInv s2" by (rule deribitLoop_inv [OF d s1])
  then have "inboundInv (closeConnection s2)" by (simp add: closeConnection_def)
  then show ?thesis using assms(1) None l d s1 \<open>inboundInv s2\<close> by (cases x; cases o2) (auto simp: runDeribit_def)
qed (use assms in \<open>simp add: runDeribit_def\<close>)

text \<open>A session and the connections it has been run on.\<close>

inductive deribit_reach :: "DeribitConfig \<Rightarrow> DeribitSession \<Rightarrow> bool" where
  start: "NewDeribitSession hasDial auth config0 = Inr (config, s) \<Longrightarrow> deribit_reach config s"
| run: "deribit_reach config s \<Longrightarrow> runDeribit config dial aenv env events s = (s', out) \<Longrightarrow> deribit_reach config s'"

lemma deribit_reach_inv: "deribit_reach config s \<Longrightarrow> inboundInv s"
proof (induction rule: deribit_reach.induct)
  case (start hasDial auth config0 config s)
  then show ?case by (auto simp: NewDeribitSession_def inboundInv_def ordered_def maxInt64_def split: option.splits if_splits)
qed (rule runDeribit_inv)

section \<open>Recovering from a gap\<close>

text \<open>Messages that go to the application.\<close>

definition plainApp :: "Message \<Rightarrow> bool" where
  "plainApp m \<longleftrightarrow> textAt m 35 \<notin> {''A'', ''0'', ''1'', ''2'', ''3'', ''4'', ''5''}"

definition willing :: "SendEnv \<Rightarrow> bool" where
  "willing env \<longleftrightarrow> (\<forall>data. snd (writeAll (sd_Writer env) 0 data) = None)"

definition answersOK :: "HandleEnv \<Rightarrow> bool" where
  "answersOK env \<longleftrightarrow> willing (he_Gap env) \<and> (\<forall>n. cb_Error (pv_Callback (he_Proc env n)) = None) \<and> cb_Error (he_Recovery env) = None"

text \<open>What stays the same while messages are delivered.\<close>

definition sameLink :: "DeribitSession \<Rightarrow> DeribitSession \<Rightarrow> bool" where
  "sameLink s s' \<longleftrightarrow> ds_loggedOn s' = ds_loggedOn s \<and> ds_transport s' = ds_transport s \<and> ds_auth s' = ds_auth s"

lemma process_delivers:
  assumes "plainApp m" "seqNo m = ds_expectedIn s" "0 < ds_expectedIn s" "ds_expectedIn s < maxInt64" "ds_loggedOn s"
    "dg_HasOnMessage config" "cb_Error (pv_Callback env) = None"
  shows "\<exists>s'. processExpectedLocked config env m s = (None, s') \<and> ds_expectedIn s' = ds_expectedIn s + 1 \<and>
    ds_delivered s' = ds_delivered s @ [m] \<and> ds_pending s' = ds_pending s \<and> ds_recovering s' = ds_recovering s \<and> sameLink s s'"
proof -
  let ?s = "s\<lparr>ds_expectedIn := ds_expectedIn s + 1, ds_processed := ds_processed s @ [seqNo m], ds_delivered := ds_delivered s @ [m]\<rparr>"
  let ?t = "runSends config (cb_Sends (pv_Callback env)) ?s"
  have "wrap64 (ds_expectedIn s + 1) = ds_expectedIn s + 1" using assms(3,4) by (simp add: maxInt64_def)
  then have "processExpectedLocked config env m s = (None, ?t)"
    using assms by (simp add: processExpectedLocked_def dispatchExpected_def deliverMessage_def plainApp_def Let_def)
  moreover have "sameInbound ?s ?t" by (rule runSends_inbound)
  ultimately show ?thesis by (simp add: sameInbound_def sameLink_def)
qed

lemma drain_delivers:
  assumes "dg_HasOnMessage config" "\<And>n. cb_Error (pv_Callback (envs n)) = None" "ds_loggedOn s" "0 < ds_expectedIn s"
    "\<And>q m. gget (ds_pending s) q = Some m \<Longrightarrow> seqNo m = q \<and> plainApp m \<and> q < maxInt64"
  shows "\<exists>k s'. drainPending config envs n s = (None, s') \<and> 0 \<le> k \<and> ds_expectedIn s' = ds_expectedIn s + k \<and>
    ds_delivered s' = ds_delivered s @ map (\<lambda>q. the (gget (ds_pending s) q)) [ds_expectedIn s..ds_expectedIn s + k - 1] \<and>
    (\<forall>q. gget (ds_pending s') q = (if ds_expectedIn s \<le> q \<and> q < ds_expectedIn s + k then None else gget (ds_pending s) q)) \<and>
    (\<forall>q. ds_expectedIn s \<le> q \<and> q < ds_expectedIn s + k \<longrightarrow> gget (ds_pending s) q \<noteq> None) \<and>
    gget (ds_pending s') (ds_expectedIn s') = None \<and> ds_recovering s' = ds_recovering s \<and> sameLink s s'"
  using assms
proof (induction config envs n s rule: drainPending.induct)
  case (1 config envs n s)
  let ?e = "ds_expectedIn s"
  show ?case
  proof (cases "gget (ds_pending s) ?e")
    case None
    then show ?thesis by (intro exI [of _ 0] exI [of _ s]) (auto simp: drainPending.simps [of config envs n s] sameLink_def)
  next
    case (Some m)
    let ?s = "s\<lparr>ds_pending := gdel ?e (ds_pending s)\<rparr>"
    have m: "seqNo m = ?e" "plainApp m" "?e < maxInt64" using "1.prems"(5) Some by auto
    obtain s1 where s1: "processExpectedLocked config (envs n) m ?s = (None, s1)" "ds_expectedIn s1 = ?e + 1"
      "ds_delivered s1 = ds_delivered s @ [m]" "ds_pending s1 = gdel ?e (ds_pending s)" "ds_recovering s1 = ds_recovering s" "sameLink s s1"
      using process_delivers [of m ?s config "envs n"] m "1.prems" by (auto simp: sameLink_def)
    have p1: "gget (ds_pending s1) q = (if q = ?e then None else gget (ds_pending s) q)" for q using s1(4) by (simp add: gomap_simps)
    have link: "ds_loggedOn s1" "0 < ds_expectedIn s1" using s1 "1.prems"(3,4) by (simp_all add: sameLink_def)
    have ok: "seqNo x = q \<and> plainApp x \<and> q < maxInt64" if "gget (ds_pending s1) q = Some x" for q x
      using that p1 "1.prems"(5) by (simp split: if_splits)
    obtain k s' where k: "drainPending config envs (Suc n) s1 = (None, s')" "0 \<le> k" "ds_expectedIn s' = ?e + 1 + k"
      "ds_delivered s' = ds_delivered s1 @ map (\<lambda>q. the (gget (ds_pending s1) q)) [?e + 1..?e + 1 + k - 1]"
      "\<forall>q. gget (ds_pending s') q = (if ?e + 1 \<le> q \<and> q < ?e + 1 + k then None else gget (ds_pending s1) q)"
      "\<forall>q. ?e + 1 \<le> q \<and> q < ?e + 1 + k \<longrightarrow> gget (ds_pending s1) q \<noteq> None"
      "gget (ds_pending s') (ds_expectedIn s') = None" "ds_recovering s' = ds_recovering s1" "sameLink s1 s'"
      using "1.IH" [OF Some s1(1) [symmetric] refl "1.prems"(1,2) link ok] unfolding s1(2) by blast
    have "map (\<lambda>q. the (gget (ds_pending s1) q)) [?e + 1..?e + 1 + k - 1] = map (\<lambda>q. the (gget (ds_pending s) q)) [?e + 1..?e + 1 + k - 1]"
      using p1 by (intro map_cong) auto
    moreover have "[?e..?e + (k + 1) - 1] = ?e # [?e + 1..?e + 1 + k - 1]" using k(2) by (simp add: upto_rec1 add.commute)
    ultimately have d: "ds_delivered s' = ds_delivered s @ map (\<lambda>q. the (gget (ds_pending s) q)) [?e..?e + (k + 1) - 1]"
      using k(4) s1(3) Some by simp
    have "drainPending config envs n s = (None, s')" using Some s1(1) k(1) by (simp add: drainPending.simps [of config envs n s])
    moreover have "gget (ds_pending s) q \<noteq> None" if "?e \<le> q" "q < ?e + (k + 1)" for q
      using that k(6) [rule_format, of q] Some p1 [of q] by (cases "q = ?e") auto
    moreover have "gget (ds_pending s') q = (if ?e \<le> q \<and> q < ?e + (k + 1) then None else gget (ds_pending s) q)" for q
      using k(5) [rule_format, of q] p1 [of q] k(2) by auto
    moreover have "sameLink s s'" using k(9) s1(6) by (simp add: sameLink_def)
    ultimately show ?thesis
      using k(2,3,7,8) d s1(5) by (intro exI [of _ "k + 1"] exI [of _ s']) (simp add: add.assoc add.commute)
  qed
qed

lemma encodeBody_accepts:
  "\<forall>f\<in>set fs. bodyTag (fd_Tag f) \<and> SOH \<notin> set (fd_Value f) \<Longrightarrow> encodeBody fs = Inr (concat (map fieldText fs))"
  by (induction fs) auto

lemma Encode_accepts:
  assumes "fs \<noteq> []" "fd_Tag (hd fs) = 35" "\<forall>f\<in>set fs. bodyTag (fd_Tag f) \<and> SOH \<notin> set (fd_Value f)"
  shows "\<exists>raw. Encode v fs = Inr raw"
  using assms encodeBody_accepts [OF assms(3)] by (cases fs) (auto simp: Encode_def Let_def simp del: encodeBody.simps)

lemma Encode_outFields:
  assumes "SOH \<notin> set (au_SenderCompID (ds_auth s))" "SOH \<notin> set msgType"
    "\<And>f. f \<in> set body \<Longrightarrow> bodyTag (fd_Tag f) \<and> SOH \<notin> set (fd_Value f)"
  shows "\<exists>raw. Encode ''FIX.4.4'' (outFields s stamp msgType body) = Inr raw"
proof -
  have plain: "SOH \<notin> set (FormatInt n)" "SOH \<notin> set (FormatFIX t)" for n t
    using FormatInt_chars [of SOH n] FormatFIX_chars [of SOH t] by (auto simp: isDigit_def byte_def SOH_def)
  have "\<forall>f\<in>set (outFields s stamp msgType body). bodyTag (fd_Tag f) \<and> SOH \<notin> set (fd_Value f)"
    using assms plain by (auto simp: outFields_def DeribitTarget_def bodyTag_def SOH_def)
  then show ?thesis by (intro Encode_accepts) (auto simp: outFields_def)
qed

lemma sendLocked_willing:
  assumes "willing env" "ds_transport s" "Encode ''FIX.4.4'' (outFields s (sd_Stamp env) msgType body) = Inr raw"
  shows "\<exists>s'. sendLocked config env msgType body s = (None, s')"
proof -
  obtain out r where w: "writeAll (sd_Writer env) 0 raw = (out, r)" by (metis surj_pair)
  then have "r = None" using assms(1) by (metis willing_def snd_conv)
  then show ?thesis using assms(2,3) w by (simp add: sendLocked_def writeRawLocked_def Let_def)
qed

text \<open>
  The state after the messages \<open>xs\<close> of a batch numbered from \<open>e\<close> have arrived: the first \<open>k\<close> numbers are delivered,
  what has arrived beyond them is in the buffer, and the session is recovering exactly while something is.
\<close>

definition recovered :: "DeribitSession \<Rightarrow> (int \<Rightarrow> Message) \<Rightarrow> int \<Rightarrow> Message list \<Rightarrow> DeribitSession \<Rightarrow> bool" where
  "recovered s0 M k xs s \<longleftrightarrow> 0 \<le> k \<and> ds_expectedIn s = ds_expectedIn s0 + k \<and>
     ds_delivered s = ds_delivered s0 @ map M [ds_expectedIn s0..ds_expectedIn s0 + k - 1] \<and>
     (\<forall>q. gget (ds_pending s) q = (if ds_expectedIn s \<le> q \<and> q \<in> seqNo ` set xs then Some (M q) else None)) \<and>
     ds_expectedIn s \<notin> seqNo ` set xs \<and> {ds_expectedIn s0..<ds_expectedIn s} \<subseteq> seqNo ` set xs \<and>
     gwf (ds_pending s) \<and> (ds_recovering s \<longleftrightarrow> ds_pending s \<noteq> []) \<and> sameLink s0 s"

lemma recovered_cong:
  assumes "recovered s0 M k xs s" "ds_expectedIn t = ds_expectedIn s" "ds_delivered t = ds_delivered s" "ds_pending t = ds_pending s"
    "ds_recovering t = ds_recovering s" "sameLink s t"
  shows "recovered s0 M k xs t"
  using assms(1,6) unfolding recovered_def assms(2-5) sameLink_def by argo

lemma handle_number: "0 < seqNo m \<Longrightarrow> handle config env m s = handleNumbered config env (seqNo m) m (s\<lparr>ds_inbound := ds_inbound s + 1\<rparr>)"
proof -
  assume q: "0 < seqNo m"
  have "Atoi [] = None" by (simp add: Atoi_def parseDigits_def)
  then obtain raw where "Message_Get m 34 = Some raw" "Atoi raw = Some (seqNo m)"
    using q by (auto simp: intAt_def textAt_def split: option.splits)
  then show ?thesis using q by (simp add: handle_def)
qed

lemma recovered_buffers:
  assumes "recovered s0 M k xs s" "M (seqNo m) = m" "ds_expectedIn s < seqNo m" "plainApp m" "seqNo m \<notin> seqNo ` set xs"
    "int (length xs) < bufferLimit config" "answersOK env" "ds_transport s0" "SOH \<notin> set (au_SenderCompID (ds_auth s0))" "0 < ds_expectedIn s0"
  shows "\<exists>s'. handle config env m s = (None, s') \<and> recovered s0 M k (xs @ [m]) s'"
proof -
  let ?p = "gput (seqNo m) m (ds_pending s)"
  have "length (ds_pending s) \<le> length xs"
  proof -
    have "dom (map_of (ds_pending s)) \<subseteq> seqNo ` set xs" using assms(1) by (auto simp: recovered_def dom_def split: if_splits)
    then have "card (dom (map_of (ds_pending s))) \<le> card (seqNo ` set xs)" by (intro card_mono) auto
    also have "\<dots> \<le> length xs" by (metis card_length length_map list.set_map)
    finally show ?thesis using gwf_length_dom [of "ds_pending s"] assms(1) by (simp add: recovered_def)
  qed
  moreover have fresh: "gget (ds_pending s) (seqNo m) = None" using assms(1,5) by (simp add: recovered_def)
  ultimately have b: "bufferAhead config (seqNo m) m (s\<lparr>ds_inbound := n\<rparr>) = Inr (s\<lparr>ds_inbound := n, ds_pending := ?p\<rparr>)" for n
    using assms(6) by (simp add: bufferAhead_def)
  have pos: "0 < seqNo m" using assms(1,3,10) by (simp add: recovered_def)
  have st: "recovered s0 M k (xs @ [m]) t" if "ds_expectedIn t = ds_expectedIn s" "ds_delivered t = ds_delivered s"
    "ds_pending t = ?p" "ds_recovering t" "sameLink s0 t" for t
  proof -
    have "gget ?p q = (if ds_expectedIn s \<le> q \<and> q \<in> seqNo ` set (xs @ [m]) then Some (M q) else None)" for q
      using assms(1,2,3) by (auto simp: recovered_def gomap_simps)
    then show ?thesis using assms(1,3) that unfolding recovered_def by auto
  qed
  let ?s = "s\<lparr>ds_inbound := ds_inbound s + 1, ds_pending := ?p\<rparr>"
  have h: "handle config env m s = receiveAhead config env (seqNo m) m (s\<lparr>ds_inbound := ds_inbound s + 1\<rparr>)"
    using handle_number [OF pos] assms(3,4) by (simp add: handleNumbered_def plainApp_def)
  show ?thesis
  proof (cases "ds_recovering s")
    case True
    then show ?thesis using h b st [of ?s] assms(1) by (simp add: receiveAhead_def recovered_def sameLink_def)
  next
    case False
    let ?t = "?s\<lparr>ds_recovering := True, ds_sequenceErrors := ds_sequenceErrors s + 1\<rparr>"
    let ?body = "[mkField 7 (FormatInt (ds_expectedIn s)), mkField 16 ''0'']"
    have link: "ds_transport s" "SOH \<notin> set (au_SenderCompID (ds_auth s))" using assms(1,8,9) by (simp_all add: recovered_def sameLink_def)
    have "SOH \<notin> set (FormatInt (ds_expectedIn s))" using FormatInt_chars by (fastforce simp: isDigit_def byte_def SOH_def)
    then have body: "bodyTag (fd_Tag f) \<and> SOH \<notin> set (fd_Value f)" if "f \<in> set ?body" for f
      using that by (auto simp: bodyTag_def SOH_def)
    obtain raw where "Encode ''FIX.4.4'' (outFields ?t (sd_Stamp (he_Gap env)) ''2'' ?body) = Inr raw"
      using Encode_outFields [of ?t "''2''" ?body] link body by (auto simp: SOH_def)
    then obtain t where t: "sendLocked config (he_Gap env) ''2'' ?body ?t = (None, t)"
      using sendLocked_willing [of "he_Gap env" ?t "''2''" ?body raw config] assms(7) link by (auto simp: answersOK_def)
    have same: "sameInbound ?t t" by (rule sendLocked_inbound [OF t])
    then have "recovered s0 M k (xs @ [m]) (t\<lparr>ds_resendRequests := ds_resendRequests t + 1\<rparr>)"
      using assms(1) by (intro st) (auto simp: sameInbound_def recovered_def sameLink_def)
    then show ?thesis using h b False t by (simp add: receiveAhead_def)
  qed
qed

lemma drainPending_gwf: "drainPending config envs n s = (e, s') \<Longrightarrow> gwf (ds_pending s) \<Longrightarrow> gwf (ds_pending s')"
proof (induction config envs n s arbitrary: e s' rule: drainPending.induct)
  case (1 config envs n s)
  show ?case
  proof (cases "gget (ds_pending s) (ds_expectedIn s)")
    case None
    then show ?thesis using "1.prems" by (simp add: drainPending.simps [of config envs n s])
  next
    case (Some m)
    obtain r s1 where r: "processExpectedLocked config (envs n) m (s\<lparr>ds_pending := gdel (ds_expectedIn s) (ds_pending s)\<rparr>) = (r, s1)"
      by (metis surj_pair)
    have "gwf (ds_pending s1)" using processExpectedLocked_pending [OF r] "1.prems"(2) by simp
    then show ?thesis using "1.prems"(1) "1.IH" [OF Some r [symmetric]] Some r
      by (cases r) (auto simp: drainPending.simps [of config envs n s])
  qed
qed

lemma map_of_empty: "(\<And>q. map_of m q = None) \<Longrightarrow> m = []"
  by (cases m) (auto split: if_splits, metis option.distinct(1))

lemma finishRecovery_recovered:
  assumes "answersOK env" "recovered s0 M k xs (s\<lparr>ds_recovering := (ds_pending s \<noteq> [])\<rparr>)" "ds_pending s \<noteq> [] \<longrightarrow> ds_recovering s"
  shows "\<exists>s'. finishRecoveryLocked config env s = (None, s') \<and> recovered s0 M k xs s'"
proof (cases "ds_recovering s \<and> ds_pending s = []")
  case False
  then have "ds_recovering s = (ds_pending s \<noteq> [])" using assms(3) by blast
  then have "s\<lparr>ds_recovering := (ds_pending s \<noteq> [])\<rparr> = s" by simp
  then have "recovered s0 M k xs s" using assms(2) by metis
  then show ?thesis using False by (auto simp: finishRecoveryLocked_def)
next
  case True
  let ?t = "runSends config (cb_Sends (he_Recovery env)) (s\<lparr>ds_recoveries := ds_recoveries s + 1\<rparr>)"
  have "sameInbound (s\<lparr>ds_recoveries := ds_recoveries s + 1\<rparr>) ?t" by (rule runSends_inbound)
  then have "recovered s0 M k xs (?t\<lparr>ds_recovering := False\<rparr>)"
    using True by (intro recovered_cong [OF assms(2)]) (simp_all add: sameInbound_def sameLink_def)
  moreover have "recovered s0 M k xs (s\<lparr>ds_recovering := False\<rparr>)" using assms(2) True by simp
  ultimately show ?thesis using assms(1) True by (simp add: finishRecoveryLocked_def answersOK_def Let_def)
qed

lemma recovered_delivers:
  assumes "recovered s0 M k xs s" "M (seqNo m) = m" "seqNo m = ds_expectedIn s" "plainApp m" "seqNo m \<notin> seqNo ` set xs"
    "\<And>q. q \<in> seqNo ` set (xs @ [m]) \<Longrightarrow> seqNo (M q) = q \<and> plainApp (M q) \<and> q < maxInt64"
    "dg_HasOnMessage config" "answersOK env" "ds_loggedOn s0" "0 < ds_expectedIn s0"
  shows "\<exists>j s'. handle config env m s = (None, s') \<and> recovered s0 M j (xs @ [m]) s'"
proof -
  let ?s = "s\<lparr>ds_inbound := ds_inbound s + 1\<rparr>"
  let ?e = "ds_expectedIn s"
  note r = assms(1) [unfolded recovered_def]
  have pos: "0 < seqNo m" "0 \<le> k" using assms(3,10) r by simp_all
  have cb: "cb_Error (pv_Callback (he_Proc env n)) = None" for n using assms(8) by (simp add: answersOK_def)
  obtain s1 where s1: "processExpectedLocked config (he_Proc env 0) m ?s = (None, s1)" "ds_expectedIn s1 = ?e + 1"
    "ds_delivered s1 = ds_delivered s @ [m]" "ds_pending s1 = ds_pending s" "ds_recovering s1 = ds_recovering s" "sameLink s s1"
    using process_delivers [of m ?s config "he_Proc env 0"] assms(2,3,4,6,7,9) cb r pos by (auto simp: sameLink_def)
  have p: "gget (ds_pending s1) q = (if ?e \<le> q \<and> q \<in> seqNo ` set xs then Some (M q) else None)" for q using r s1(4) by simp
  have ok: "seqNo x = q \<and> plainApp x \<and> q < maxInt64" if "gget (ds_pending s1) q = Some x" for q x
    using that p assms(6) by (auto split: if_splits)
  have link: "ds_loggedOn s1" "0 < ds_expectedIn s1" using s1 r assms(9) pos assms(3) by (auto simp: sameLink_def)
  obtain j s2 where d: "drainPending config (he_Proc env) 1 s1 = (None, s2)" "0 \<le> j" "ds_expectedIn s2 = ?e + 1 + j"
    "ds_delivered s2 = ds_delivered s1 @ map (\<lambda>q. the (gget (ds_pending s1) q)) [?e + 1..?e + 1 + j - 1]"
    "\<forall>q. gget (ds_pending s2) q = (if ?e + 1 \<le> q \<and> q < ?e + 1 + j then None else gget (ds_pending s1) q)"
    "\<forall>q. ?e + 1 \<le> q \<and> q < ?e + 1 + j \<longrightarrow> gget (ds_pending s1) q \<noteq> None"
    "gget (ds_pending s2) (ds_expectedIn s2) = None" "ds_recovering s2 = ds_recovering s1" "sameLink s1 s2"
    using drain_delivers [where n = 1 and envs = "he_Proc env", OF assms(7) cb link ok] unfolding s1(2) by blast
  let ?n = "k + 1 + j"
  have e: "?e = ds_expectedIn s0 + k" "?e \<notin> seqNo ` set xs" using r by blast+
  have "map (\<lambda>q. the (gget (ds_pending s1) q)) [?e + 1..?e + 1 + j - 1] = map M [?e + 1..?e + 1 + j - 1]"
    using d(6) p by (intro map_cong) auto
  moreover have "[ds_expectedIn s0..ds_expectedIn s0 + ?n - 1] = [ds_expectedIn s0..ds_expectedIn s0 + k - 1] @ ?e # [?e + 1..?e + 1 + j - 1]"
    using upto_split3 [of "ds_expectedIn s0" ?e "ds_expectedIn s0 + ?n - 1"] pos d(2) e(1) by (simp add: algebra_simps)
  ultimately have del: "ds_delivered s2 = ds_delivered s0 @ map M [ds_expectedIn s0..ds_expectedIn s0 + ?n - 1]"
    using d(4) s1(3) r assms(2,3) by simp
  have pend: "gget (ds_pending s2) q = (if ds_expectedIn s2 \<le> q \<and> q \<in> seqNo ` set (xs @ [m]) then Some (M q) else None)" for q
    using d(2,3) d(5) [rule_format, of q] p [of q] e(2) assms(3) by (cases "q = ?e") auto
  have out: "ds_expectedIn s2 \<notin> seqNo ` set (xs @ [m])" using d(7) pend [of "ds_expectedIn s2"] by auto
  have inn: "{ds_expectedIn s0..<ds_expectedIn s2} \<subseteq> seqNo ` set (xs @ [m])"
  proof
    fix q assume q: "q \<in> {ds_expectedIn s0..<ds_expectedIn s2}"
    consider "q < ?e" | "q = ?e" | "?e + 1 \<le> q" by linarith
    then show "q \<in> seqNo ` set (xs @ [m])"
    proof cases
      case 1
      then show ?thesis using q r by auto
    next
      case 2
      then show ?thesis using assms(3) by simp
    next
      case 3
      then show ?thesis using q d(3) d(6) [rule_format, of q] p [of q] by (auto split: if_splits)
    qed
  qed
  have rec: "ds_pending s2 \<noteq> [] \<longrightarrow> ds_recovering s2"
  proof
    assume "ds_pending s2 \<noteq> []"
    then have "ds_pending s1 \<noteq> []" using map_of_empty [of "ds_pending s2"] d(5) by (metis map_of.simps(1))
    then show "ds_recovering s2" using d(8) s1(4,5) r by simp
  qed
  have "recovered s0 M ?n (xs @ [m]) (s2\<lparr>ds_recovering := (ds_pending s2 \<noteq> [])\<rparr>)"
    using del pend out inn d(2,3) e(1) pos drainPending_gwf [OF d(1)] s1(4,6) r d(9)
    by (auto simp: recovered_def sameLink_def)
  then obtain s3 where "finishRecoveryLocked config env s2 = (None, s3)" "recovered s0 M ?n (xs @ [m]) s3"
    using finishRecovery_recovered [OF assms(8) _ rec] by blast
  moreover have "handle config env m s = finishRecoveryLocked config env s2"
    using handle_number [OF pos(1)] assms(3,4) s1(1) d(1) by (simp add: handleNumbered_def plainApp_def drainAndFinish_def)
  ultimately show ?thesis by auto
qed

text \<open>A batch of messages, handled one after the other.\<close>

fun handleAll :: "DeribitConfig \<Rightarrow> (nat \<Rightarrow> HandleEnv) \<Rightarrow> nat \<Rightarrow> Message list \<Rightarrow> DeribitSession \<Rightarrow> goerror option \<times> DeribitSession" where
  "handleAll config envs n [] s = (None, s)"
| "handleAll config envs n (m # ms) s =
     (case handle config (envs n) m s of
        (Some e, s1) \<Rightarrow> (Some e, s1)
      | (None, s1) \<Rightarrow> handleAll config envs (Suc n) ms s1)"

lemma handleAll_recovered:
  assumes "recovered s0 M k xs s" "\<And>m. m \<in> set (xs @ ys) \<Longrightarrow> M (seqNo m) = m \<and> plainApp m \<and> ds_expectedIn s0 \<le> seqNo m \<and> seqNo m < maxInt64"
    "distinct (map seqNo (xs @ ys))" "int (length (xs @ ys)) \<le> bufferLimit config" "\<And>n. answersOK (envs n)"
    "ds_transport s0" "SOH \<notin> set (au_SenderCompID (ds_auth s0))" "0 < ds_expectedIn s0" "ds_loggedOn s0" "dg_HasOnMessage config"
  shows "\<exists>j s'. handleAll config envs n ys s = (None, s') \<and> recovered s0 M j (xs @ ys) s'"
  using assms
proof (induction ys arbitrary: xs s k n)
  case (Cons m ys)
  have fresh: "seqNo m \<notin> seqNo ` set xs" using Cons.prems(3) by auto
  have m: "M (seqNo m) = m" "plainApp m" "ds_expectedIn s0 \<le> seqNo m" using Cons.prems(2) [of m] by auto
  have "\<exists>j s'. handle config (envs n) m s = (None, s') \<and> recovered s0 M j (xs @ [m]) s'"
  proof -
    consider "seqNo m < ds_expectedIn s" | "seqNo m = ds_expectedIn s" | "ds_expectedIn s < seqNo m" by linarith
    then show ?thesis
    proof cases
      case 1
      then have False using Cons.prems(1) m(3) fresh by (auto simp: recovered_def)
      then show ?thesis ..
    next
      case 2
      have ok: "seqNo (M q) = q \<and> plainApp (M q) \<and> q < maxInt64" if "q \<in> seqNo ` set (xs @ [m])" for q
      proof -
        obtain x where "x \<in> set (xs @ m # ys)" "seqNo x = q" using \<open>q \<in> seqNo ` set (xs @ [m])\<close> by auto
        then show ?thesis using Cons.prems(2) [of x] by metis
      qed
      show ?thesis by (rule recovered_delivers [OF Cons.prems(1) m(1) 2 m(2) fresh ok Cons.prems(10,5,9,8)])
    next
      case 3
      have "int (length xs) < bufferLimit config" using Cons.prems(4) by simp
      from recovered_buffers [OF Cons.prems(1) m(1) 3 m(2) fresh this Cons.prems(5,6,7,8)] show ?thesis by blast
    qed
  qed
  then obtain j s1 where s1: "handle config (envs n) m s = (None, s1)" "recovered s0 M j (xs @ [m]) s1" by blast
  have "\<exists>i s'. handleAll config envs (Suc n) ys s1 = (None, s') \<and> recovered s0 M i ((xs @ [m]) @ ys) s'"
    by (rule Cons.IH [OF s1(2)]) (use Cons.prems in auto)
  then show ?case using s1(1) by auto
qed auto

section \<open>Example data\<close>

definition exAuth :: Authenticator where
  "exAuth = \<lparr>au_ClientID = ''id'', au_ClientSecret = ''secret'', au_SenderCompID = ''venuewire'', au_HeartbeatSeconds = 10,
     au_CancelOnDisconnect = True, au_ReportFillsAsExecReports = True, au_lastTimestamp = 0\<rparr>"

definition exConfig :: DeribitConfig where
  "exConfig = \<lparr>dg_Heartbeat = 10 * Second, dg_MaxRecoveryBuffer = 64, dg_MaxOutboundJournal = 256, dg_HasOnMessage = True, dg_HasOnRecovery = True\<rparr>"

definition exSession :: DeribitSession where
  "exSession = (case NewDeribitSession True (Some exAuth) exConfig of Inr (config, s) \<Rightarrow> s)"

definition exAuthEnv :: AuthEnv where
  "exAuthEnv = \<lparr>ae_Nonce = Inr ''0123456789abcdef0123456789abcdef'', ae_Now = unixEpoch, ae_Now2 = unixEpoch, ae_SHA256 = take 32\<rparr>"

definition exCallback :: Callback where
  "exCallback = \<lparr>cb_Sends = [], cb_Error = None\<rparr>"

definition exHandle :: HandleEnv where
  "exHandle = \<lparr>he_Gap = wSend, he_Proc = (\<lambda>_. \<lparr>pv_Send = wSend, pv_Resend = (\<lambda>_. wSend), pv_Callback = exCallback\<rparr>), he_Recovery = exCallback\<rparr>"

definition exFrame :: "string \<Rightarrow> string \<Rightarrow> string" where
  "exFrame msgType seq = (case Encode ''FIX.4.4'' [mkField 35 msgType, mkField 34 seq] of Inr raw \<Rightarrow> raw | Inl _ \<Rightarrow> [])"

definition exRun :: "DeribitEvent list \<Rightarrow> DeribitSession" where
  "exRun events = fst (runDeribit exConfig None exAuthEnv wSend events exSession)"

definition exGap :: DeribitSession where
  "exGap = exRun [DvChunk (exFrame ''A'' ''1'' @ exFrame ''8'' ''3'') (\<lambda>_. exHandle)]"

definition exOpen :: DeribitSession where
  "exOpen = exRun [DvChunk (exFrame ''A'' ''1'') (\<lambda>_. exHandle)]"

lemma exReach: "deribit_reach exConfig (exRun events)"
proof -
  have "NewDeribitSession True (Some exAuth) exConfig = Inr (exConfig, exSession)"
    by (simp add: NewDeribitSession_def exConfig_def exSession_def Second_def)
  then show ?thesis unfolding exRun_def by (rule deribit_reach.run [OF deribit_reach.start surjective_pairing])
qed

section \<open>Properties of the inbound side\<close>

text \<open>
  C32. Deribit messages are processed once and in order. Over any number of connections, with any bytes arriving
  in any pieces, any ticks, sends, failures and callbacks, the numbers of the processed messages are strictly
  increasing, the messages handed to the application are a subsequence of them, every processed number is below
  the expected one, and as long as anything waits in the recovery buffer the session is recovering, so that an application
  send is refused and changes nothing. The hypothesis excludes the largest 64-bit number, where
  the expected number wraps around.
\<close>

theorem deribit_processes_in_order:
  assumes "deribit_reach config s" "2 ^ 63 - 1 \<notin> set (ds_processed s)"
  shows "sorted_wrt (<) (ds_processed s) \<and> subseq (map (\<lambda>m. intAt m 34) (ds_delivered s)) (ds_processed s) \<and>
    (\<forall>q\<in>set (ds_processed s). q < ds_expectedIn s) \<and>
    (ds_pending s \<noteq> [] \<longrightarrow> ds_recovering s \<and> (\<forall>env msgType body. snd (Send config env msgType body s) = s))"
  using deribit_reach_inv [OF assms(1)] assms(2) by (auto simp: inboundInv_def ordered_def maxInt64_def Send_def)

theorem deribit_processes_in_order_witness:
  "ds_processed exGap = [1] \<and> ds_pending exGap \<noteq> [] \<and> snd (Send exConfig wSend ''D'' [] exGap) = exGap"
proof -
  have c: "ds_processed exGap = [1] \<and> ds_pending exGap \<noteq> []" by code_simp
  then show ?thesis using deribit_processes_in_order [OF exReach, of "[DvChunk (exFrame ''A'' ''1'' @ exFrame ''8'' ''3'') (\<lambda>_. exHandle)]"]
    by (simp add: exGap_def)
qed

lemma distinct_key_inverse: "distinct (map f xs) \<Longrightarrow> \<exists>g. \<forall>x\<in>set xs. g (f x) = x"
  by (meson distinct_map inv_into_f_f)

text \<open>
  C33. A gap is recovered completely. Let a logged-on session with an empty buffer expect the number \<open>e\<close>, and let
  application messages with the numbers \<open>e\<close> to \<open>e + n - 1\<close> arrive in any order, at most as many as the buffer holds,
  with a transport that writes and callbacks that succeed. Then all are handled without an error and handed to the
  application exactly once, in the order of their numbers, and the session ends with an empty buffer, expecting
  \<open>e + n\<close> and no longer recovering.
\<close>

theorem deribit_gap_recovered:
  assumes "ds_loggedOn s" "ds_transport s" "\<not> ds_recovering s" "ds_pending s = []" "0 < ds_expectedIn s"
    "SOH \<notin> set (au_SenderCompID (ds_auth s))" "dg_HasOnMessage config" "\<And>n. answersOK (envs n)"
    "\<And>m. m \<in> set ms \<Longrightarrow> plainApp m" "distinct (map (\<lambda>m. intAt m 34) ms)"
    "(\<lambda>m. intAt m 34) ` set ms = {ds_expectedIn s..<ds_expectedIn s + int (length ms)}"
    "int (length ms) \<le> bufferLimit config" "ds_expectedIn s + int (length ms) < 2 ^ 63"
  shows "\<exists>s' zs. handleAll config envs 0 ms s = (None, s') \<and> ds_delivered s' = ds_delivered s @ zs \<and> set zs = set ms \<and>
    map (\<lambda>m. intAt m 34) zs = [ds_expectedIn s..ds_expectedIn s + int (length ms) - 1] \<and>
    ds_pending s' = [] \<and> ds_expectedIn s' = ds_expectedIn s + int (length ms) \<and> \<not> ds_recovering s'"
proof -
  let ?e = "ds_expectedIn s"
  let ?n = "int (length ms)"
  obtain M where M: "\<And>m. m \<in> set ms \<Longrightarrow> M (seqNo m) = m" using distinct_key_inverse [OF assms(10)] by blast
  have start: "recovered s M 0 [] s" using assms(3,4) by (simp add: recovered_def sameLink_def)
  have ok: "M (seqNo m) = m \<and> plainApp m \<and> ?e \<le> seqNo m \<and> seqNo m < maxInt64" if "m \<in> set ([] @ ms)" for m
  proof -
    have "seqNo m \<in> {?e..<?e + ?n}" using that assms(11) by auto
    then show ?thesis using M assms(9,13) that by (auto simp: maxInt64_def)
  qed
  obtain j s' where s': "handleAll config envs 0 ms s = (None, s')" "recovered s M j ms s'"
    using handleAll_recovered [where n = 0 and envs = envs and ys = ms, OF start ok _ _ assms(8,2,6,5,1,7)] assms(10,12) by auto
  note r = s'(2) [unfolded recovered_def assms(11)]
  have "j = ?n"
  proof -
    have j: "0 \<le> j" "ds_expectedIn s' = ?e + j" "{?e..<?e + j} \<subseteq> {?e..<?e + ?n}" "?e + j \<notin> {?e..<?e + ?n}" using r by auto
    then have "j \<le> ?n" using j(3) by (cases "j = 0") auto
    then show ?thesis using j(1,4) by auto
  qed
  have "ds_pending s' = []" by (rule map_of_empty) (use r \<open>j = ?n\<close> in auto)
  moreover have inv: "seqNo (M q) = q \<and> M q \<in> set ms" if "q \<in> {?e..<?e + ?n}" for q
  proof -
    have "q \<in> seqNo ` set ms" using that assms(11) by simp
    then obtain m where "m \<in> set ms" "seqNo m = q" by blast
    then show ?thesis using M by auto
  qed
  moreover have "map seqNo (map M [?e..?e + ?n - 1]) = [?e..?e + ?n - 1]"
    unfolding map_map by (rule map_idI) (use inv in auto)
  moreover have "set (map M [?e..?e + ?n - 1]) = set ms"
  proof
    show "set ms \<subseteq> set (map M [?e..?e + ?n - 1])"
    proof
      fix m assume m: "m \<in> set ms"
      then have "seqNo m \<in> {?e..<?e + ?n}" using assms(11) by blast
      then show "m \<in> set (map M [?e..?e + ?n - 1])" using M [OF m] by (auto intro!: image_eqI [of m M "seqNo m"])
    qed
  qed (use inv in auto)
  ultimately show ?thesis using s'(1) r \<open>j = ?n\<close> by auto
qed

theorem deribit_gap_recovered_witness:
  "\<exists>s'. handleAll exConfig (\<lambda>_. exHandle) 0 [wMessage ''8'' ''3'', wMessage ''8'' ''2''] exOpen = (None, s') \<and>
     ds_expectedIn s' = 4 \<and> \<not> ds_recovering s'"
proof -
  let ?ms = "[wMessage ''8'' ''3'', wMessage ''8'' ''2'']"
  have o: "ds_loggedOn exOpen \<and> ds_transport exOpen \<and> \<not> ds_recovering exOpen \<and> ds_pending exOpen = [] \<and> ds_expectedIn exOpen = 2 \<and>
      SOH \<notin> set (au_SenderCompID (ds_auth exOpen))" by code_simp
  have ms: "intAt (wMessage ''8'' ''3'') 34 = 3 \<and> intAt (wMessage ''8'' ''2'') 34 = 2 \<and> textAt (wMessage ''8'' ''3'') 35 = ''8'' \<and>
      textAt (wMessage ''8'' ''2'') 35 = ''8''" by code_simp
  have "willing wSend" using writeAll_willing [of 100 0] by (simp add: willing_def wSend_def)
  then have a: "answersOK exHandle" by (simp add: answersOK_def exHandle_def exCallback_def)
  have p: "plainApp m" if "m \<in> set ?ms" for m using that ms by (auto simp: plainApp_def)
  have "(\<lambda>m. intAt m 34) ` set ?ms = {ds_expectedIn exOpen..<ds_expectedIn exOpen + int (length ?ms)}" using ms o by auto
  moreover have "int (length ?ms) \<le> bufferLimit exConfig" "dg_HasOnMessage exConfig" by (simp_all add: exConfig_def bufferLimit_def)
  ultimately show ?thesis
    using deribit_gap_recovered [of exOpen exConfig "\<lambda>_. exHandle" ?ms] o ms a p by (fastforce simp del: handleAll.simps)
qed

end
