(* ===== verification/DeribitFixJournal.thy ===== *)
theory DeribitFixJournal
  imports DeribitFixProps
begin

text \<open>
  The outbound side of the Deribit FIX session. The locale below is the contract of an invariant about what was
  sent: every send and resend keeps it and nothing else concerns it; its lemmas carry such an invariant through a whole
  connection. The journal's invariant is an instance.
\<close>

section \<open>Outbound invariants\<close>

definition sameOutbound :: "DeribitSession \<Rightarrow> DeribitSession \<Rightarrow> bool" where
  "sameOutbound s s' \<longleftrightarrow> ds_nextOut s' = ds_nextOut s \<and> ds_journal s' = ds_journal s \<and> ds_sent s' = ds_sent s \<and>
     ds_outbound s' = ds_outbound s \<and> ds_auth s' = ds_auth s"

locale outbound_invariant =
  fixes config :: DeribitConfig and inv :: "DeribitSession \<Rightarrow> bool"
  assumes send: "inv s \<Longrightarrow> sendLocked config env msgType body s = (e, s') \<Longrightarrow> inv s'"
    and resend: "inv s \<Longrightarrow> resendOne env seq s = (e, s') \<Longrightarrow> inv s'"
    and frame: "inv s \<Longrightarrow> sameOutbound s s' \<Longrightarrow> inv s'"
begin

lemma Send: "inv s \<Longrightarrow> inv (snd (Send config env msgType body s))"
  using send [OF _ surjective_pairing] by (auto simp: Send_def)

lemma runSends: "inv s \<Longrightarrow> inv (runSends config sends s)"
  by (induction config\<equiv>config sends s rule: runSends.induct) (simp_all add: Send)

lemma resendLocked: "inv s \<Longrightarrow> resendLocked envs seq stop s = (e, s') \<Longrightarrow> inv s'"
proof (induction envs seq stop s arbitrary: e s' rule: resendLocked.induct)
  case (1 envs seq stop s)
  obtain r s1 where r: "resendOne (envs seq) seq s = (r, s1)" by (metis surj_pair)
  have "inv s1" by (rule resend [OF "1.prems"(1) r])
  then show ?case using "1.prems" "1.IH" [OF _ r [symmetric]] r
    by (cases r) (auto simp: resendLocked.simps [of envs seq] split: if_splits)
qed

lemma answerTestRequest: "inv s \<Longrightarrow> answerTestRequest config env m s = (e, s') \<Longrightarrow> inv s'"
proof -
  let ?body = "if textAt m 112 \<noteq> [] then [mkField 112 (textAt m 112)] else []"
  assume a: "inv s" "answerTestRequest config env m s = (e, s')"
  obtain r s1 where r: "sendLocked config (pv_Send env) ''0'' ?body s = (r, s1)" by (metis surj_pair)
  have "inv s1" by (rule send [OF a(1) r])
  then have "inv (s1\<lparr>ds_testRequests := ds_testRequests s1 + 1\<rparr>)" by (rule frame) (simp add: sameOutbound_def)
  then show ?thesis using a(2) r \<open>inv s1\<close> by (cases r) (auto simp: answerTestRequest_def)
qed

lemma answerResendRequest: "inv s \<Longrightarrow> answerResendRequest env m s = (e, s') \<Longrightarrow> inv s'"
proof (cases "resendRange m s")
  case (Inr x)
  assume a: "inv s" "answerResendRequest env m s = (e, s')"
  obtain first stop where x: "x = (first, stop)" by (metis surj_pair)
  obtain r s1 where r: "resendLocked (pv_Resend env) first stop s = (r, s1)" by (metis surj_pair)
  have "inv s1" by (rule resendLocked [OF a(1) r])
  then have "inv (s1\<lparr>ds_recovering := True\<rparr>)" "inv (s1\<lparr>ds_resendRequests := ds_resendRequests s1 + 1\<rparr>)"
    by (auto intro: frame simp: sameOutbound_def)
  then show ?thesis using a(2) r Inr x by (cases r) (auto simp: answerResendRequest_def)
qed (simp add: answerResendRequest_def)

lemma dispatchExpected: "inv s \<Longrightarrow> dispatchExpected config env m seq s = (e, s') \<Longrightarrow> inv s'"
proof -
  assume a: "inv s" "dispatchExpected config env m seq s = (e, s')"
  have flags: "inv (s\<lparr>ds_loggedOn := b\<rparr>)" "inv (s\<lparr>ds_delivered := ms\<rparr>)" for b ms
    using a(1) by (auto intro: frame simp: sameOutbound_def)
  consider "answerTestRequest config env m s = (e, s')" | "answerResendRequest env m s = (e, s')"
    | "deliverMessage config env m s = (e, s')" | "s' = s" | b where "s' = s\<lparr>ds_loggedOn := b\<rparr>"
    using a(2) unfolding dispatchExpected_def Let_def by (auto split: if_splits)
  then show ?thesis
  proof cases
    case 1
    then show ?thesis by (rule answerTestRequest [OF a(1)])
  next
    case 2
    then show ?thesis by (rule answerResendRequest [OF a(1)])
  next
    case 3
    then have "s' = s \<or> s' = runSends config (cb_Sends (pv_Callback env)) (s\<lparr>ds_delivered := ds_delivered s @ [m]\<rparr>)"
      by (auto simp: deliverMessage_def split: if_splits)
    then show ?thesis using a(1) runSends [OF flags(2)] by blast
  next
    case (5 b)
    then show ?thesis using flags(1) by simp
  qed (use a(1) in simp)
qed

lemma processExpected: "inv s \<Longrightarrow> processExpectedLocked config env m s = (e, s') \<Longrightarrow> inv s'"
proof -
  assume a: "inv s" "processExpectedLocked config env m s = (e, s')"
  let ?s = "s\<lparr>ds_expectedIn := wrap64 (ds_expectedIn s + 1), ds_processed := ds_processed s @ [intAt m 34]\<rparr>"
  have "inv ?s" using a(1) by (rule frame) (simp add: sameOutbound_def)
  moreover have "s' = s \<or> dispatchExpected config env m (intAt m 34) ?s = (e, s')"
    using a(2) by (auto simp: processExpectedLocked_def Let_def split: if_splits)
  ultimately show ?thesis using a(1) dispatchExpected by blast
qed

lemma drainPending: "inv s \<Longrightarrow> drainPending config envs n s = (e, s') \<Longrightarrow> inv s'"
proof (induction config\<equiv>config envs n s arbitrary: e s' rule: drainPending.induct)
  case (1 envs n s)
  show ?case
  proof (cases "gget (ds_pending s) (ds_expectedIn s)")
    case None
    then show ?thesis using "1.prems" by (simp add: drainPending.simps [of config envs n s])
  next
    case (Some m)
    let ?s = "s\<lparr>ds_pending := gdel (ds_expectedIn s) (ds_pending s)\<rparr>"
    obtain r s1 where r: "processExpectedLocked config (envs n) m ?s = (r, s1)" by (metis surj_pair)
    have "inv ?s" using "1.prems"(1) by (rule frame) (simp add: sameOutbound_def)
    then have "inv s1" by (rule processExpected [OF _ r])
    then show ?thesis using "1.prems"(2) "1.hyps" [OF Some r [symmetric]] Some r
      by (cases r) (auto simp: drainPending.simps [of config envs n s])
  qed
qed

lemma finishRecovery: "inv s \<Longrightarrow> finishRecoveryLocked config env s = (e, s') \<Longrightarrow> inv s'"
proof -
  assume a: "inv s" "finishRecoveryLocked config env s = (e, s')"
  have "inv (s\<lparr>ds_recoveries := n\<rparr>)" for n using a(1) by (rule frame) (simp add: sameOutbound_def)
  then have t: "inv (runSends config sends (s\<lparr>ds_recoveries := n\<rparr>))" for sends n by (rule runSends)
  have "inv (t\<lparr>ds_recovering := False\<rparr>)" if "inv t" for t using that by (rule frame) (simp add: sameOutbound_def)
  then show ?thesis using a t by (auto simp: finishRecoveryLocked_def Let_def split: if_splits option.splits)
qed

lemma drainAndFinish: "inv s \<Longrightarrow> drainAndFinish config env n s = (e, s') \<Longrightarrow> inv s'"
proof -
  assume a: "inv s" "drainAndFinish config env n s = (e, s')"
  obtain r s1 where r: "drainPending config (he_Proc env) n s = (r, s1)" by (metis surj_pair)
  have "inv s1" by (rule drainPending [OF a(1) r])
  then show ?thesis using a(2) r finishRecovery by (cases r) (auto simp: drainAndFinish_def)
qed

lemma handleSequenceReset: "inv s \<Longrightarrow> handleSequenceResetLocked config env m s = (e, s') \<Longrightarrow> inv s'"
proof -
  assume a: "inv s" "handleSequenceResetLocked config env m s = (e, s')"
  have f: "inv (s\<lparr>ds_expectedIn := q, ds_recovering := True, ds_pending := p, ds_sequenceResets := n\<rparr>)" for q p n
    using a(1) by (rule frame) (simp add: sameOutbound_def)
  have "s' = s \<or> (\<exists>q p n. drainAndFinish config env 0 (s\<lparr>ds_expectedIn := q, ds_recovering := True, ds_pending := p, ds_sequenceResets := n\<rparr>) = (e, s'))"
    using a(2) unfolding handleSequenceResetLocked_def by (auto split: if_splits option.splits)
  then show ?thesis using a(1) drainAndFinish [OF f] by blast
qed

lemma receiveAhead: "inv s \<Longrightarrow> receiveAhead config env seq m s = (e, s') \<Longrightarrow> inv s'"
proof (cases "bufferAhead config seq m s")
  case (Inl x)
  assume a: "inv s" "receiveAhead config env seq m s = (e, s')"
  have "inv (s\<lparr>ds_sequenceErrors := n\<rparr>)" for n using a(1) by (rule frame) (simp add: sameOutbound_def)
  then show ?thesis using a(2) Inl by (auto simp: receiveAhead_def)
next
  case (Inr s1)
  assume a: "inv s" "receiveAhead config env seq m s = (e, s')"
  let ?s = "s1\<lparr>ds_recovering := True, ds_sequenceErrors := ds_sequenceErrors s1 + 1\<rparr>"
  have "sameOutbound s s1" using Inr by (auto simp: bufferAhead_def sameOutbound_def split: if_splits)
  then have i: "inv s1" "inv ?s" using a(1) by (auto intro!: frame [of s] simp: sameOutbound_def)
  obtain r s2 where r: "sendLocked config (he_Gap env) ''2'' [mkField 7 (FormatInt (ds_expectedIn s1)), mkField 16 ''0''] ?s = (r, s2)"
    by (metis surj_pair)
  have "inv s2" by (rule send [OF i(2) r])
  moreover then have "inv (s2\<lparr>ds_resendRequests := n\<rparr>)" for n by (rule frame) (simp add: sameOutbound_def)
  ultimately show ?thesis using a(2) Inr i(1) r by (cases r) (auto simp: receiveAhead_def split: if_splits)
qed

lemma handleNumbered: "inv s \<Longrightarrow> handleNumbered config env seq m s = (e, s') \<Longrightarrow> inv s'"
proof -
  assume a: "inv s" "handleNumbered config env seq m s = (e, s')"
  have errs: "inv (s\<lparr>ds_sequenceErrors := n\<rparr>)" for n using a(1) by (rule frame) (simp add: sameOutbound_def)
  obtain r s1 where p: "processExpectedLocked config (he_Proc env 0) m s = (r, s1)" by (metis surj_pair)
  have s1: "inv s1" by (rule processExpected [OF a(1) p])
  show ?thesis
  proof (cases "textAt m 35 = ''4''")
    case True
    then show ?thesis using a handleSequenceReset by (simp add: handleNumbered_def)
  next
    case False
    note step = a(2) [unfolded handleNumbered_def if_not_P [OF False]]
    consider "seq > ds_expectedIn s" | "seq < ds_expectedIn s" | "seq = ds_expectedIn s" by linarith
    then show ?thesis
    proof cases
      case 1
      then show ?thesis using step a(1) receiveAhead by simp
    next
      case 2
      then show ?thesis using step a(1) errs by (auto split: if_splits)
    next
      case 3
      then show ?thesis using step p s1 drainAndFinish by (cases r) simp_all
    qed
  qed
qed

lemma handle: "inv s \<Longrightarrow> handle config env m s = (e, s') \<Longrightarrow> inv s'"
proof -
  assume a: "inv s" "handle config env m s = (e, s')"
  have "s' = s \<or> (\<exists>seq. handleNumbered config env seq m (s\<lparr>ds_inbound := ds_inbound s + 1\<rparr>) = (e, s'))"
    using a(2) by (auto simp: handle_def split: option.splits if_splits)
  moreover have "inv (s\<lparr>ds_inbound := ds_inbound s + 1\<rparr>)" using a(1) by (rule frame) (simp add: sameOutbound_def)
  ultimately show ?thesis using a(1) handleNumbered by blast
qed

lemma handleFrames: "inv s \<Longrightarrow> handleFrames config envs n frames s = (e, s') \<Longrightarrow> inv s'"
proof (induction frames arbitrary: n s)
  case (Cons fr frames)
  obtain m r where p: "ParseStrict fr = (m, r)" by (metis surj_pair)
  obtain x s1 where h: "handle config (envs n) m s = (x, s1)" by (metis surj_pair)
  have s1: "inv s1" by (rule handle [OF Cons.prems(1) h])
  have "s' = s \<or> s' = s1 \<or> handleFrames config envs (Suc n) frames s1 = (e, s')"
    using Cons.prems(2) p h by (cases r; cases x) auto
  then show ?case using s1 Cons.prems(1) Cons.IH by blast
qed simp

lemma deribitStep: "inv s \<Longrightarrow> deribitStep config ev framer s = (framer', s', out) \<Longrightarrow> inv s'"
proof (cases ev)
  case (DvCancelled env)
  assume a: "inv s" "deribitStep config ev framer s = (framer', s', out)"
  have "inv ((snd (sendLocked config env ''5'' [] s))\<lparr>ds_loggedOn := False\<rparr>)"
    using send [OF a(1) surjective_pairing] by (rule frame) (simp add: sameOutbound_def)
  then show ?thesis using a DvCancelled by (auto simp: deribitStep_def bestEffortLogout_def)
next
  case (DvChunk chunk envs)
  assume a: "inv s" "deribitStep config ev framer s = (framer', s', out)"
  obtain f1 frames fo where f: "Feed chunk framer = (f1, frames, fo)" by (metis surj_pair)
  obtain x s1 where h: "handleFrames config envs 0 frames s = (x, s1)" by (metis surj_pair)
  have "inv s1" by (rule handleFrames [OF a(1) h])
  then show ?thesis using a DvChunk f h by (cases fo) (auto simp: deribitStep_def)
next
  case (DvTick now env)
  assume a: "inv s" "deribitStep config ev framer s = (framer', s', out)"
  obtain r s1 where r: "sendLocked config env ''0'' [] s = (r, s1)" by (metis surj_pair)
  have "inv s1" by (rule send [OF a(1) r])
  moreover then have "inv (s1\<lparr>ds_heartbeats := n\<rparr>)" for n by (rule frame) (simp add: sameOutbound_def)
  ultimately show ?thesis using a DvTick r by (cases r) (auto simp: deribitStep_def tickSession_def split: if_splits)
qed (auto simp: deribitStep_def Send)

lemma deribitLoop: "inv s \<Longrightarrow> deribitLoop config events framer s = (s', out) \<Longrightarrow> inv s'"
proof (induction events arbitrary: framer s)
  case (Cons ev events)
  obtain f1 s1 o1 where st: "deribitStep config ev framer s = (f1, s1, o1)" by (metis surj_pair)
  have "inv s1" by (rule deribitStep [OF Cons.prems(1) st])
  then show ?case using Cons st by (cases o1) auto
qed simp

end

section \<open>The journal\<close>

definition headed :: "int \<Rightarrow> Field list \<Rightarrow> bool" where
  "headed seq fs \<longleftrightarrow> (\<exists>s stamp msgType body. ds_nextOut s = seq \<and> fs = outFields s stamp msgType body)"

text \<open>
  The journal holds at least the last messages, as many as its limit allows, but for the logons, which are not kept; \<open>old\<close> are the messages of
  earlier connections and \<open>logons\<close> the numbers of all logons. Every entry is a message as it was sent, under its number.
\<close>

definition journalHolds :: "DeribitConfig \<Rightarrow> int set \<Rightarrow> string set \<Rightarrow> DeribitSession \<Rightarrow> bool" where
  "journalHolds config logons old s \<longleftrightarrow> gwf (ds_journal s) \<and> 1 \<le> ds_nextOut s \<and> ds_nextOut s \<le> 1 + int (ds_outbound s) \<and>
     {max 1 (ds_nextOut s - journalLimit config)..<ds_nextOut s} - logons \<subseteq> dom (map_of (ds_journal s)) \<and>
     dom (map_of (ds_journal s)) \<subseteq> {..<ds_nextOut s} \<and>
     (\<forall>i fs. gget (ds_journal s) i = Some fs \<longrightarrow> headed i fs \<and> (\<exists>raw\<in>old \<union> set (ds_sent s). Encode ''FIX.4.4'' fs = Inr raw))"

definition journalInv :: "DeribitConfig \<Rightarrow> int set \<Rightarrow> string set \<Rightarrow> DeribitSession \<Rightarrow> bool" where
  "journalInv config logons old s \<longleftrightarrow> (int (ds_outbound s) < 2 ^ 62 \<longrightarrow> journalHolds config logons old s)"

lemma foldl_min: "foldl min a xs = Min (insert a (set xs))"
proof (induction xs arbitrary: a)
  case (Cons x xs)
  have "foldl min a (x # xs) = Min (insert (min a x) (set xs))" using Cons.IH by simp
  also have "\<dots> = Min (insert a (insert x (set xs)))"
    by (cases "xs = []") (auto simp: Min_insert2 min.assoc)
  finally show ?case by simp
qed simp

lemma journalLimit_pos: "0 < journalLimit config"
  by (simp add: journalLimit_def)

lemma dom_gput: "dom (map_of (gput k v m)) = insert k (dom (map_of m))"
  by (auto simp: dom_def gomap_simps)

lemma dom_gdel: "dom (map_of (gdel k m)) = dom (map_of m) - {k}"
  by (auto simp: dom_def gomap_simps)

text \<open>
  Remembering a message: a full journal loses its oldest entry, which is older than the last messages it must keep, since as many entries as the limit lie
  between it and the new number.
\<close>

lemma remember_dom:
  assumes "journalHolds config logons old s"
  shows "{max 1 (ds_nextOut s + 1 - journalLimit config)..<ds_nextOut s + 1} - logons
      \<subseteq> dom (map_of (ds_journal (rememberOutboundLocked config (ds_nextOut s) fs s))) \<and>
    dom (map_of (ds_journal (rememberOutboundLocked config (ds_nextOut s) fs s))) \<subseteq> {..<ds_nextOut s + 1} \<and>
    gwf (ds_journal (rememberOutboundLocked config (ds_nextOut s) fs s)) \<and>
    (\<forall>i. i \<noteq> ds_nextOut s \<longrightarrow> gget (ds_journal (rememberOutboundLocked config (ds_nextOut s) fs s)) i \<in> {None, gget (ds_journal s) i}) \<and>
    gget (ds_journal (rememberOutboundLocked config (ds_nextOut s) fs s)) (ds_nextOut s) = Some fs"
proof -
  let ?j = "ds_journal s" and ?n = "ds_nextOut s" and ?l = "journalLimit config"
  have h: "gwf ?j" "{max 1 (?n - ?l)..<?n} - logons \<subseteq> dom (map_of ?j)" "dom (map_of ?j) \<subseteq> {..<?n}" using assms by (simp_all add: journalHolds_def)
  have keys: "set (map fst ?j) = dom (map_of ?j)" by (simp add: dom_map_of_conv_image_fst)
  show ?thesis
  proof (cases "int (length ?j) \<ge> ?l")
    case True
    let ?o = "Min (insert ?n (dom (map_of ?j)))"
    have "dom (map_of ?j) \<subseteq> {?o..<?n}" using h(3) by (intro subsetI) (force intro: Min_le simp: finite_dom_map_of)
    then have "card (dom (map_of ?j)) \<le> card {?o..<?n}" by (rule card_mono [rotated]) simp
    then have "?l \<le> ?n - ?o" using True gwf_length_dom [OF h(1)] journalLimit_pos [of config] by simp
    moreover have "ds_journal (rememberOutboundLocked config ?n fs s) = gput ?n fs (gdel ?o ?j)"
      using True keys by (simp add: rememberOutboundLocked_def foldl_min)
    moreover have "{max 1 (?n + 1 - ?l)..<?n + 1} - logons \<subseteq> insert ?n (dom (map_of ?j) - {?o})"
    proof
      fix x
      assume x: "x \<in> {max 1 (?n + 1 - ?l)..<?n + 1} - logons"
      then have "x \<noteq> ?o" "x \<noteq> ?n \<Longrightarrow> x \<in> {max 1 (?n - ?l)..<?n} - logons" using calculation(1) by auto
      then show "x \<in> insert ?n (dom (map_of ?j) - {?o})" using h(2) by blast
    qed
    moreover have "insert ?n (dom (map_of ?j) - {?o}) \<subseteq> {..<?n + 1}" using h(3) by auto
    ultimately show ?thesis using h(1) by (simp add: gomap_simps dom_gput dom_gdel)
  next
    case False
    have j: "ds_journal (rememberOutboundLocked config ?n fs s) = gput ?n fs ?j" using False by (simp add: rememberOutboundLocked_def)
    have "{max 1 (?n + 1 - ?l)..<?n + 1} - logons \<subseteq> insert ?n ({max 1 (?n - ?l)..<?n} - logons)" by auto
    with h(2) have "{max 1 (?n + 1 - ?l)..<?n + 1} - logons \<subseteq> insert ?n (dom (map_of ?j))" by blast
    moreover have "insert ?n (dom (map_of ?j)) \<subseteq> {..<?n + 1}" using h(3) by auto
    ultimately show ?thesis unfolding j using h(1) by (simp add: gomap_simps dom_gput)
  qed
qed

lemma journalHolds_more:
  assumes "journalHolds config logons old s" "ds_nextOut t = ds_nextOut s" "ds_journal t = ds_journal s"
    "old \<union> set (ds_sent s) \<subseteq> old' \<union> set (ds_sent t)" "ds_outbound s \<le> ds_outbound t"
  shows "journalHolds config logons old' t"
proof -
  have "\<exists>raw\<in>old' \<union> set (ds_sent t). Encode ''FIX.4.4'' fs = Inr raw" if "gget (ds_journal s) i = Some fs" for i fs
    using assms(1,4) that unfolding journalHolds_def by blast
  then show ?thesis using assms(1,5) unfolding journalHolds_def assms(2,3) by auto
qed

lemma journal_frame: "journalInv config logons old s \<Longrightarrow> sameOutbound s s' \<Longrightarrow> journalInv config logons old s'"
  using journalHolds_more [of config logons old s s' old] by (auto simp: journalInv_def sameOutbound_def)

lemma journal_wire: "journalInv config logons old s \<Longrightarrow> journalInv config logons old (s\<lparr>ds_wire := x\<rparr>)"
  by (erule journal_frame) (simp add: sameOutbound_def)

lemma journal_send:
  assumes "journalInv config logons old s" "sendLocked config env msgType body s = (e, s')"
  shows "journalInv config logons old s'"
  using assms(2)
proof (cases rule: sendLocked_cases)
  case (failed x out)
  then show ?thesis using journal_wire assms(1) by simp
next
  case (sent raw s1)
  let ?fs = "outFields s (sd_Stamp env) msgType body"
  let ?j = "ds_journal (rememberOutboundLocked config (ds_nextOut s) ?fs s1)"
  from sent(3) have s1: "ds_sent s1 = ds_sent s @ [raw]" "ds_outbound s1 = ds_outbound s + 1" "ds_journal s1 = ds_journal s"
    by (cases rule: writeRawLocked_cases; simp)+
  have s': "ds_outbound s' = ds_outbound s + 1" "ds_sent s' = ds_sent s @ [raw]" "ds_nextOut s' = wrap64 (ds_nextOut s + 1)" "ds_journal s' = ?j"
    using sent(5) s1 by (simp_all add: rememberOutboundLocked_def Let_def)
  have "journalHolds config logons old s'" if "int (ds_outbound s') < 2 ^ 62"
  proof -
    have h: "journalHolds config logons old s" using that s'(1) assms(1) by (simp add: journalInv_def)
    then have "journalHolds config logons old s1" using s1 sent(4) by (intro journalHolds_more [OF h]) auto
    note r = remember_dom [OF this, of ?fs, unfolded sent(4)]
    have n: "wrap64 (ds_nextOut s + 1) = ds_nextOut s + 1" "1 \<le> ds_nextOut s" "ds_nextOut s \<le> 1 + int (ds_outbound s)"
      using h that s'(1) by (simp_all add: journalHolds_def)
    have entry: "headed i fs \<and> (\<exists>raw\<in>old \<union> set (ds_sent s'). Encode ''FIX.4.4'' fs = Inr raw)" if "gget ?j i = Some fs" for i fs
    proof (cases "i = ds_nextOut s")
      case True
      then have "fs = ?fs" using that r by simp
      then show ?thesis using True sent(2) s'(2) by (auto simp: headed_def)
    next
      case False
      then have "gget (ds_journal s) i = Some fs" using that r s1(3) by auto
      then show ?thesis using h s'(2) by (auto simp: journalHolds_def)
    qed
    show ?thesis using r n s' entry by (auto simp: journalHolds_def)
  qed
  then show ?thesis by (simp add: journalInv_def)
qed

lemma journal_resend:
  assumes "journalInv config logons old s" "resendOne env seq s = (e, s')"
  shows "journalInv config logons old s'"
  using assms(2)
proof (cases rule: resendOne_cases)
  case (failed x out)
  then show ?thesis using journal_wire assms(1) by simp
next
  case (sent fs raw s1)
  from sent(3) have "ds_sent s1 = ds_sent s @ [raw]" "ds_outbound s1 = ds_outbound s + 1" "ds_journal s1 = ds_journal s" "ds_nextOut s1 = ds_nextOut s"
    by (cases rule: writeRawLocked_cases; simp)+
  then show ?thesis using sent(5) assms(1) journalHolds_more [of config logons old s s' old] by (auto simp: journalInv_def)
qed

interpretation journal: outbound_invariant config "journalInv config logons old" for config logons old
  by unfold_locales (fact journal_send journal_resend journal_frame)+

section \<open>Answering a resend request\<close>

text \<open>
  What a resent message must be, in terms of the fields of the two encoded messages: it has the number of the original, is marked as a possible duplicate
  (tag 43 is \<open>Y\<close>), has a sending time of its own and the sending time of the original in tag 122, and every other field of the original in the same order.
\<close>

definition fieldAt :: "Field list \<Rightarrow> int \<Rightarrow> string option" where
  "fieldAt fs tag = map_option fd_Value (find (\<lambda>f. fd_Tag f = tag) fs)"

definition resendOf :: "time \<Rightarrow> int \<Rightarrow> string \<Rightarrow> string \<Rightarrow> bool" where
  "resendOf stamp seq orig raw \<longleftrightarrow> (\<exists>fs fs'. Encode ''FIX.4.4'' fs = Inr orig \<and> Encode ''FIX.4.4'' fs' = Inr raw \<and>
     fieldAt fs 34 = Some (FormatInt seq) \<and> fieldAt fs' 34 = Some (FormatInt seq) \<and>
     fieldAt fs' 43 = Some ''Y'' \<and> fieldAt fs' 52 = Some (FormatFIX stamp) \<and> fieldAt fs 52 \<noteq> None \<and> fieldAt fs' 122 = fieldAt fs 52 \<and>
     filter (\<lambda>f. fd_Tag f \<notin> {43, 52, 122}) fs' = filter (\<lambda>f. fd_Tag f \<notin> {43, 52, 122}) fs)"

lemma resentFields_others: "filter (\<lambda>f. fd_Tag f \<notin> {43, 52, 122}) (resentFields stamp t fs) = filter (\<lambda>f. fd_Tag f \<notin> {43, 52, 122}) fs"
  by (induction fs) (auto simp: resentFields_def)

lemma resentFields_resend:
  assumes "headed seq fs" "find (\<lambda>f. fd_Tag f = 52) fs = Some (mkField 52 t)" "Encode ''FIX.4.4'' fs = Inr orig"
    "Encode ''FIX.4.4'' (resentFields stamp t fs) = Inr raw"
  shows "resendOf stamp seq orig raw"
proof -
  have "fieldAt fs 34 = Some (FormatInt seq)" "fieldAt (resentFields stamp t fs) 34 = Some (FormatInt seq)"
    "fieldAt (resentFields stamp t fs) 43 = Some ''Y''" "fieldAt (resentFields stamp t fs) 52 = Some (FormatFIX stamp)"
    "fieldAt (resentFields stamp t fs) 122 = Some t"
    using assms(1) by (auto simp: headed_def outFields_def resentFields_def fieldAt_def)
  moreover have "fieldAt fs 52 = Some t" using assms(2) by (simp add: fieldAt_def)
  ultimately show ?thesis unfolding resendOf_def using assms(3,4) resentFields_others [of stamp t fs]
    by (intro exI [of _ fs] exI [of _ "resentFields stamp t fs"]) simp
qed

lemma FormatFIX_ne: "FormatFIX t \<noteq> []"
  by (simp add: FormatFIX_def Let_def)

lemma headed_fields: "headed seq fs \<Longrightarrow> \<exists>stamp. find (\<lambda>f. fd_Tag f = 52) fs = Some (mkField 52 (FormatFIX stamp))"
  by (auto simp: headed_def outFields_def)

lemma Encode_resent:
  assumes "Encode ''FIX.4.4'' fs = Inr orig" "SOH \<notin> set t"
  shows "\<exists>raw. Encode ''FIX.4.4'' (resentFields stamp t fs) = Inr raw"
proof -
  have fs: "fs \<noteq> []" "fd_Tag (hd fs) = 35" "\<forall>f\<in>set fs. bodyTag (fd_Tag f) \<and> SOH \<notin> set (fd_Value f)"
    using Encode_shape [OF assms(1)] by blast+
  have "SOH \<notin> set (FormatFIX stamp)" using FormatFIX_chars by (fastforce simp: isDigit_def byte_def SOH_def)
  then have "\<forall>f\<in>set (resentFields stamp t fs). bodyTag (fd_Tag f) \<and> SOH \<notin> set (fd_Value f)"
    using fs(3) assms(2) by (auto simp: resentFields_def bodyTag_def SOH_def)
  moreover have "resentFields stamp t fs \<noteq> [] \<and> fd_Tag (hd (resentFields stamp t fs)) = 35"
    using fs(1,2) by (cases fs) (auto simp: resentFields_def)
  ultimately show ?thesis by (intro Encode_accepts) auto
qed

definition entriesIn :: "string set \<Rightarrow> DeribitSession \<Rightarrow> bool" where
  "entriesIn S s \<longleftrightarrow> (\<forall>i fs. gget (ds_journal s) i = Some fs \<longrightarrow> headed i fs \<and> (\<exists>raw\<in>S. Encode ''FIX.4.4'' fs = Inr raw))"

lemma resendOne_answers:
  assumes "entriesIn S s" "gget (ds_journal s) seq \<noteq> None" "ds_transport s" "willing env"
  shows "\<exists>raw orig s'. resendOne env seq s = (None, s') \<and> ds_sent s' = ds_sent s @ [raw] \<and> orig \<in> S \<and>
    resendOf (sd_Stamp env) seq orig raw \<and> ds_journal s' = ds_journal s \<and> ds_transport s'"
proof -
  obtain fs orig where fs: "gget (ds_journal s) seq = Some fs" "headed seq fs" "orig \<in> S" "Encode ''FIX.4.4'' fs = Inr orig"
    using assms(1,2) unfolding entriesIn_def by blast
  obtain stamp where t: "find (\<lambda>f. fd_Tag f = 52) fs = Some (mkField 52 (FormatFIX stamp))" using headed_fields [OF fs(2)] by blast
  have "SOH \<notin> set (FormatFIX stamp)" using FormatFIX_chars by (fastforce simp: isDigit_def byte_def SOH_def)
  then obtain raw where raw: "Encode ''FIX.4.4'' (resentFields (sd_Stamp env) (FormatFIX stamp) fs) = Inr raw"
    using Encode_resent [OF fs(4)] by blast
  obtain out r where w: "writeAll (sd_Writer env) 0 raw = (out, r)" by (metis surj_pair)
  then have "r = None" using assms(4) by (metis willing_def snd_conv)
  let ?s = "s\<lparr>ds_wire := ds_wire s @ out, ds_sent := ds_sent s @ [raw], ds_lastWrite := sd_Done env, ds_outbound := ds_outbound s + 1,
      ds_resentMessages := ds_resentMessages s + 1\<rparr>"
  have "resendOne env seq s = (None, ?s)"
    using fs(1) t raw w \<open>r = None\<close> assms(3) FormatFIX_ne by (simp add: resendOne_def writeRawLocked_def Let_def)
  moreover have "resendOf (sd_Stamp env) seq orig raw" by (rule resentFields_resend [OF fs(2) t fs(4) raw])
  ultimately show ?thesis using fs(3) assms(3) by auto
qed

lemma resendLocked_answers:
  assumes "entriesIn S s" "\<And>i. first \<le> i \<Longrightarrow> i \<le> stop \<Longrightarrow> gget (ds_journal s) i \<noteq> None" "ds_transport s" "\<And>i. willing (envs i)"
    "first \<le> stop + 1"
  shows "\<exists>raws s'. resendLocked envs first stop s = (None, s') \<and> ds_sent s' = ds_sent s @ raws \<and> int (length raws) = stop + 1 - first \<and>
    (\<forall>k < length raws. \<exists>orig\<in>S. resendOf (sd_Stamp (envs (first + int k))) (first + int k) orig (raws ! k))"
  using assms
proof (induction envs first stop s rule: resendLocked.induct)
  case (1 envs first stop s)
  show ?case
  proof (cases "first > stop")
    case True
    then show ?thesis using "1.prems"(5) by (simp add: resendLocked.simps [of envs first])
  next
    case False
    obtain raw orig s1 where r: "resendOne (envs first) first s = (None, s1)" "ds_sent s1 = ds_sent s @ [raw]" "orig \<in> S"
      "resendOf (sd_Stamp (envs first)) first orig raw" "ds_journal s1 = ds_journal s" "ds_transport s1"
      using resendOne_answers [OF "1.prems"(1) _ "1.prems"(3,4)] "1.prems"(2) False by (metis linorder_not_le order_refl)
    have j: "gget (ds_journal s1) i \<noteq> None" if "first + 1 \<le> i" "i \<le> stop" for i using "1.prems"(2) that r(5) by simp
    have en: "entriesIn S s1" using "1.prems"(1) r(5) by (simp add: entriesIn_def)
    obtain raws s' where ih: "resendLocked envs (first + 1) stop s1 = (None, s')" "ds_sent s' = ds_sent s1 @ raws"
      "int (length raws) = stop + 1 - (first + 1)"
      "\<forall>k < length raws. \<exists>orig\<in>S. resendOf (sd_Stamp (envs (first + 1 + int k))) (first + 1 + int k) orig (raws ! k)"
      using "1.IH" [OF False r(1) [symmetric] refl en j r(6) "1.prems"(4)] False by auto
    have "\<exists>orig\<in>S. resendOf (sd_Stamp (envs (first + int k))) (first + int k) orig ((raw # raws) ! k)"
      if "k < length (raw # raws)" for k
    proof (cases k)
      case 0
      then show ?thesis using r(3,4) by auto
    next
      case (Suc n)
      then show ?thesis using ih(4) [rule_format, of n] that r(2) by (auto simp: add.assoc)
    qed
    moreover have "resendLocked envs first stop s = (None, s')" using False r(1) ih(1) by (simp add: resendLocked.simps [of envs first])
    ultimately show ?thesis using ih(2,3) r(2) by (intro exI [of _ "raw # raws"] exI [of _ s']) simp
  qed
qed

text \<open>
  A session over its connections: the messages written on the connections that have ended and the numbers their logons took, or would have taken had the
  dial or the logon not failed.
\<close>

inductive deribit_history :: "DeribitConfig \<Rightarrow> int set \<Rightarrow> string set \<Rightarrow> DeribitSession \<Rightarrow> bool" for config where
  new: "NewDeribitSession hasDial auth config0 = Inr (config, s) \<Longrightarrow> deribit_history config {} {} s"
| ended: "deribit_history config logons old s \<Longrightarrow> runDeribit config dial aenv env events s = (s', out) \<Longrightarrow>
    deribit_history config (insert (ds_nextOut s) logons) (old \<union> set (ds_sent s) \<union> set (ds_sent s')) s'"

lemma writeLogon_journal:
  assumes "journalInv config logons old s" "writeLogon aenv env s = (e, s')"
  shows "journalInv config (insert (ds_nextOut s) logons) old s'"
proof -
  have step: "journalInv config (insert (ds_nextOut s) logons) old t"
    if "ds_nextOut t = ds_nextOut s \<or> ds_nextOut t = wrap64 (ds_nextOut s + 1) \<and> ds_outbound t = ds_outbound s + 1" "ds_journal t = ds_journal s"
      "set (ds_sent s) \<subseteq> set (ds_sent t)" "ds_outbound s \<le> ds_outbound t" for t
  proof -
    note case_t = that
    have "journalHolds config (insert (ds_nextOut s) logons) old t" if b: "int (ds_outbound t) < 2 ^ 62"
    proof -
      have h: "journalHolds config logons old s" using assms(1) b \<open>ds_outbound s \<le> ds_outbound t\<close> by (simp add: journalInv_def)
      then have n: "1 \<le> ds_nextOut s" "ds_nextOut s \<le> 1 + int (ds_outbound s)" by (simp_all add: journalHolds_def)
      then have "wrap64 (ds_nextOut s + 1) = ds_nextOut s + 1" using b \<open>ds_outbound s \<le> ds_outbound t\<close> by simp
      with case_t(1) have n': "ds_nextOut t = ds_nextOut s \<or> ds_nextOut t = ds_nextOut s + 1 \<and> ds_outbound t = ds_outbound s + 1" by simp
      have "\<exists>raw\<in>old \<union> set (ds_sent t). Encode ''FIX.4.4'' fs = Inr raw" if "gget (ds_journal s) i = Some fs" for i fs
        using h that \<open>set (ds_sent s) \<subseteq> set (ds_sent t)\<close> unfolding journalHolds_def by blast
      moreover have "{max 1 (ds_nextOut t - journalLimit config)..<ds_nextOut t} - insert (ds_nextOut s) logons
          \<subseteq> {max 1 (ds_nextOut s - journalLimit config)..<ds_nextOut s} - logons" using n' by auto
      moreover have "{..<ds_nextOut s} \<subseteq> {..<ds_nextOut t}" using n' by auto
      ultimately show ?thesis using h n n' \<open>ds_outbound s \<le> ds_outbound t\<close> unfolding journalHolds_def \<open>ds_journal t = ds_journal s\<close> by auto
    qed
    then show ?thesis by (simp add: journalInv_def)
  qed
  obtain r a where l: "Logon aenv (ds_nextOut s) (ds_auth s) = (r, a)" by (metis surj_pair)
  show ?thesis
  proof (cases r)
    case (Inl x)
    then have "s' = s\<lparr>ds_auth := a\<rparr>" using assms(2) l by (simp add: writeLogon_def)
    then show ?thesis by (intro step) simp_all
  next
    case (Inr raw)
    obtain x s1 where w: "writeRawLocked env raw (s\<lparr>ds_auth := a\<rparr>) = (x, s1)" by (metis surj_pair)
    then have s': "s' = (case x of None \<Rightarrow> s1\<lparr>ds_nextOut := wrap64 (ds_nextOut s1 + 1)\<rparr> | Some _ \<Rightarrow> s1)"
      using assms(2) l Inr by (cases x) (auto simp: writeLogon_def)
    from w show ?thesis
    proof (cases rule: writeRawLocked_cases)
      case (failed y out)
      then show ?thesis unfolding s' by (intro step) simp_all
    next
      case (written out)
      then show ?thesis unfolding s' by (intro step) auto
    qed
  qed
qed

lemma runDeribit_journal:
  assumes "journalInv config logons old s" "runDeribit config dial aenv env events s = (s', out)"
  shows "journalInv config (insert (ds_nextOut s) logons) (old \<union> set (ds_sent s)) s'"
proof (cases dial)
  case None
  let ?s = "s\<lparr>ds_transport := True, ds_wire := [], ds_sent := []\<rparr>" and ?inv = "journalInv config (insert (ds_nextOut s) logons) (old \<union> set (ds_sent s))"
  have "journalInv config logons (old \<union> set (ds_sent s)) ?s"
    using assms(1) journalHolds_more [of config logons old s ?s "old \<union> set (ds_sent s)"] by (simp add: journalInv_def)
  moreover obtain x s1 where l: "writeLogon aenv env ?s = (x, s1)" by (metis surj_pair)
  ultimately have s1: "?inv s1" using writeLogon_journal [of config logons "old \<union> set (ds_sent s)" ?s aenv env x s1] by simp
  obtain s2 o2 where d: "deribitLoop config events \<lparr>fr_buffer = [], fr_MaxSize = 1048576\<rparr> s1 = (s2, o2)" by (metis surj_pair)
  have s2: "?inv s2" by (rule journal.deribitLoop [OF s1 d])
  then have "?inv (closeConnection s2)" by (rule journal_frame) (simp add: closeConnection_def sameOutbound_def)
  then show ?thesis using assms(2) None l d s1 s2 by (cases x; cases o2) (auto simp: runDeribit_def)
next
  case (Some e)
  then have "s' = s" using assms(2) by (simp add: runDeribit_def)
  moreover have "journalHolds config (insert (ds_nextOut s) logons) (old \<union> set (ds_sent s)) s" if "journalHolds config logons old s"
    using that unfolding journalHolds_def by blast
  ultimately show ?thesis using assms(1) by (auto simp: journalInv_def)
qed

lemma journalInv_old: "journalInv config logons old s \<Longrightarrow> old \<subseteq> old' \<Longrightarrow> journalInv config logons old' s"
  using journalHolds_more [of config logons old s s old'] by (auto simp: journalInv_def)

lemma history_journal: "deribit_history config logons old s \<Longrightarrow> journalInv config logons old s"
proof (induction rule: deribit_history.induct)
  case (new hasDial auth config0 s)
  then have "ds_nextOut s = 1" "ds_journal s = []"
    by (auto simp: NewDeribitSession_def split: option.splits if_splits)
  then show ?case by (simp add: journalInv_def journalHolds_def)
next
  case (ended logons old s dial aenv env events s' out)
  from runDeribit_journal [OF ended.IH ended.hyps(2)] show ?case by (rule journalInv_old) blast
qed

section \<open>Properties of the outbound side\<close>

text \<open>
  C34. A resend request is answered for everything the journal is meant to keep. Take a session with any earlier connections and any events on the open
  one. A request for numbers within the last messages, as many as the journal's limit and none of them a logon's, is answered without an error: for each
  number, in order, one message is written that has the number and the fields of a message sent before on this or an earlier connection, is marked as a
  possible duplicate (43 is \<open>Y\<close>), carries a sending time of its own and, in tag 122, the sending time of the original. The transport is assumed to accept
  the answer and the number of writes to be below \<open>2\<^sup>6\<^sup>2\<close>.
\<close>

theorem deribit_resend_answered:
  assumes "deribit_history config logons old s0" "runDeribit config dial aenv env events s0 = (s, DvContinue)"
    "ds_transport s" "int (ds_outbound s) < 2 ^ 62" "\<And>i. willing (envs i)"
    "1 \<le> first" "ds_nextOut s - journalLimit config \<le> first" "first \<le> stop" "stop < ds_nextOut s"
    "{first..stop} \<inter> insert (ds_nextOut s0) logons = {}"
  shows "\<exists>raws s'. resendLocked envs first stop s = (None, s') \<and> ds_sent s' = ds_sent s @ raws \<and> int (length raws) = stop + 1 - first \<and>
    (\<forall>k < length raws. \<exists>orig\<in>old \<union> set (ds_sent s0) \<union> set (ds_sent s). resendOf (sd_Stamp (envs (first + int k))) (first + int k) orig (raws ! k))"
proof -
  let ?old = "old \<union> set (ds_sent s0)"
  have h: "journalHolds config (insert (ds_nextOut s0) logons) ?old s"
    using runDeribit_journal [OF history_journal [OF assms(1)] assms(2)] assms(4) by (simp add: journalInv_def)
  have "gget (ds_journal s) i \<noteq> None" if "first \<le> i" "i \<le> stop" for i
  proof -
    have "i \<in> {max 1 (ds_nextOut s - journalLimit config)..<ds_nextOut s} - insert (ds_nextOut s0) logons" using that assms(6-10) by auto
    then have "i \<in> dom (map_of (ds_journal s))" using h unfolding journalHolds_def by blast
    then show ?thesis by blast
  qed
  moreover have "entriesIn (?old \<union> set (ds_sent s)) s" using h by (simp add: journalHolds_def entriesIn_def)
  ultimately show ?thesis
    using resendLocked_answers [where envs = envs and first = first and stop = stop, OF _ _ assms(3,5)] assms(8) by simp
qed

definition exSent :: DeribitSession where
  "exSent = exRun [DvChunk (exFrame ''A'' ''1'') (\<lambda>_. exHandle), DvApplication wSend ''D'' [mkField 11 ''order'']]"

theorem deribit_resend_answered_witness:
  "\<exists>raw s'. resendLocked (\<lambda>_. wSend) 2 2 exSent = (None, s') \<and> ds_sent s' = ds_sent exSent @ [raw] \<and>
     (\<exists>orig\<in>set (ds_sent exSent). resendOf unixEpoch 2 orig raw)"
proof -
  let ?events = "[DvChunk (exFrame ''A'' ''1'') (\<lambda>_. exHandle), DvApplication wSend ''D'' [mkField 11 ''order'']]"
  have new: "NewDeribitSession True (Some exAuth) exConfig = Inr (exConfig, exSession)"
    by (simp add: NewDeribitSession_def exConfig_def exSession_def Second_def)
  have c: "snd (runDeribit exConfig None exAuthEnv wSend ?events exSession) = DvContinue \<and> ds_transport exSent \<and> ds_nextOut exSent = 3 \<and>
      int (ds_outbound exSent) < 100" by code_simp
  then have run: "runDeribit exConfig None exAuthEnv wSend ?events exSession = (exSent, DvContinue)"
    by (metis exRun_def exSent_def prod.collapse)
  have w: "willing wSend" using writeAll_willing [of 100 0] by (simp add: willing_def wSend_def)
  have n: "int (ds_outbound exSent) < 2 ^ 62" "(1 :: int) \<le> 2" "ds_nextOut exSent - journalLimit exConfig \<le> 2" "2 < ds_nextOut exSent"
    using c by (simp_all add: journalLimit_def exConfig_def)
  have e: "{2..2} \<inter> insert (ds_nextOut exSession) {} = {}" "ds_sent exSession = []"
    by (simp_all add: exSession_def NewDeribitSession_def)
  have "ds_transport exSent" using c by simp
  from deribit_resend_answered [OF deribit_history.new [OF new] run this n(1) w n(2,3) order_refl n(4) e(1)] e(2) obtain raws s' where r:
    "resendLocked (\<lambda>_. wSend) 2 2 exSent = (None, s')" "ds_sent s' = ds_sent exSent @ raws" "length raws = 1"
    "\<forall>k < length raws. \<exists>orig\<in>set (ds_sent exSent). resendOf (sd_Stamp wSend) (2 + int k) orig (raws ! k)" by auto
  then obtain raw where "raws = [raw]" by (auto simp: length_Suc_conv)
  then show ?thesis using r by (auto simp: wSend_def)
qed

end
