(* ===== verification/GoText.thy ===== *)
theory GoText
  imports GoStrings
begin

text \<open>
  More of Go's text library: UTF-8 decoding as \<open>unicode/utf8\<close> does it, case folding, prefixes and suffixes.
  Case mapping and folding are those of ASCII letters; every other byte is kept, as the texts the program folds are
  currencies, sides, statuses, host names and schemes.
\<close>

section \<open>UTF-8\<close>

definition contByte :: "char \<Rightarrow> bool" where
  "contByte c \<longleftrightarrow> 128 \<le> byte c \<and> byte c \<le> 191"

text \<open>The range of the second byte after a leading byte, as in the table \<open>acceptRanges\<close>.\<close>

definition secondByte :: "nat \<Rightarrow> nat \<Rightarrow> bool" where
  "secondByte lead b \<longleftrightarrow>
     (if lead = 224 then 160 \<le> b \<and> b \<le> 191
      else if lead = 237 then 128 \<le> b \<and> b \<le> 159
      else if lead = 240 then 144 \<le> b \<and> b \<le> 191
      else if lead = 244 then 128 \<le> b \<and> b \<le> 143
      else 128 \<le> b \<and> b \<le> 191)"

text \<open>The width of the encoding a text starts with; \<open>None\<close> where it starts with none.\<close>

definition runeWidth :: "string \<Rightarrow> nat option" where
  "runeWidth s =
     (case s of
        [] \<Rightarrow> None
      | a # r \<Rightarrow>
          (let lead = byte a in
           if lead < 128 then Some 1
           else if 194 \<le> lead \<and> lead \<le> 223 then
             (case r of b # _ \<Rightarrow> (if secondByte lead (byte b) then Some 2 else None) | _ \<Rightarrow> None)
           else if 224 \<le> lead \<and> lead \<le> 239 then
             (case r of b # c # _ \<Rightarrow> (if secondByte lead (byte b) \<and> contByte c then Some 3 else None) | _ \<Rightarrow> None)
           else if 240 \<le> lead \<and> lead \<le> 244 then
             (case r of b # c # d # _ \<Rightarrow> (if secondByte lead (byte b) \<and> contByte c \<and> contByte d then Some 4 else None) | _ \<Rightarrow> None)
           else None))"

lemma runeWidth_pos: "runeWidth s = Some w \<Longrightarrow> 0 < w"
  by (auto simp: runeWidth_def Let_def split: list.splits if_splits)

text \<open>The runes of a text by their widths; a byte that starts no encoding is one rune of width one.\<close>

function runeWidths :: "string \<Rightarrow> nat option list" where
  "runeWidths [] = []"
| "runeWidths (c # s) =
     (case runeWidth (c # s) of
        None \<Rightarrow> None # runeWidths s
      | Some w \<Rightarrow> Some w # runeWidths (drop w (c # s)))"
  by pat_completeness auto
termination
  by (relation "measure length") (auto dest: runeWidth_pos)

definition ValidString :: "string \<Rightarrow> bool" where
  "ValidString s \<longleftrightarrow> None \<notin> set (runeWidths s)"

definition RuneCountInString :: "string \<Rightarrow> int" where
  "RuneCountInString s = int (length (runeWidths s))"

lemma runeWidths_ascii: "\<forall>c\<in>set s. byte c < 128 \<Longrightarrow> runeWidths s = replicate (length s) (Some 1)"
  by (induction s) (simp_all add: runeWidth_def Let_def)

lemma utf8_ascii:
  assumes "\<forall>c\<in>set s. byte c < 128"
  shows "ValidString s" "RuneCountInString s = int (length s)"
  using runeWidths_ascii [OF assms] by (simp_all add: ValidString_def RuneCountInString_def)

section \<open>Folding, prefixes and suffixes\<close>

definition EqualFold :: "string \<Rightarrow> string \<Rightarrow> bool" where
  "EqualFold a b \<longleftrightarrow> ToLower a = ToLower b"

definition HasPrefix :: "string \<Rightarrow> string \<Rightarrow> bool" where
  "HasPrefix s p \<longleftrightarrow> take (length p) s = p"

definition HasSuffix :: "string \<Rightarrow> string \<Rightarrow> bool" where
  "HasSuffix s p \<longleftrightarrow> length p \<le> length s \<and> drop (length s - length p) s = p"

definition TrimPrefix :: "string \<Rightarrow> string \<Rightarrow> string" where
  "TrimPrefix s p = (if HasPrefix s p then drop (length p) s else s)"

declare contByte_def [unfolded byte_le_code, code]

end
