(* ===== verification/DeribitFixOrders.thy ===== *)
theory DeribitFixOrders
  imports DeribitFixProps DeribitData GoText
begin

text \<open>
  Orders over Deribit FIX (\<open>internal/deribitfix/orders.go\<close>): the security list and the quantity specification it must
  agree on with the JSON API, the fields of new, cancelled and replaced orders, and the evidence read from the venue's
  reports. The properties follow an order from the metadata to the wire and back.
\<close>

section \<open>Checks\<close>

definition QtyTypeUnits :: string where "QtyTypeUnits = ''0''"

definition QtyTypeContracts :: string where "QtyTypeContracts = ''1''"

definition safeIdentifierChar :: "char \<Rightarrow> bool" where
  "safeIdentifierChar c \<longleftrightarrow> c = CHR ''-'' \<or> c = CHR ''_'' \<or> c = CHR ''.'' \<or> isDigit c \<or>
     (65 \<le> byte c \<and> byte c \<le> 90) \<or> (97 \<le> byte c \<and> byte c \<le> 122)"

text \<open>In a valid text every character beyond ASCII is made of bytes outside the safe subset.\<close>

definition validateIdentifier :: "string \<Rightarrow> string \<Rightarrow> goerror option" where
  "validateIdentifier name v =
     (if v = [] \<or> \<not> ValidString v \<or> RuneCountInString v > 64
      then Some (EFmt ''%s must be valid UTF-8 with 1 to 64 characters'' [name])
      else if \<not> list_all safeIdentifierChar v
      then Some (EFmt ''%s must use the connector's safe ASCII identifier subset'' [name])
      else None)"

definition positiveDecimal :: "string \<Rightarrow> string \<Rightarrow> rat result" where
  "positiveDecimal name v =
     (case SetString v of
        Some r \<Rightarrow> (if r \<le> 0 then Inl (EFmt ''%s must be a positive decimal'' [name]) else Inr r)
      | None \<Rightarrow> Inl (EFmt ''%s must be a positive decimal'' [name]))"

definition nonNegativeDecimal :: "string \<Rightarrow> string \<Rightarrow> rat result" where
  "nonNegativeDecimal name v =
     (case SetString v of
        Some r \<Rightarrow> (if r < 0 then Inl (EFmt ''%s must be a non-negative decimal'' [name]) else Inr r)
      | None \<Rightarrow> Inl (EFmt ''%s must be a non-negative decimal'' [name]))"

definition sideCode :: "string \<Rightarrow> string result" where
  "sideCode side =
     (if ToLower side = ''buy'' then Inr ''1''
      else if ToLower side = ''sell'' then Inr ''2''
      else Inl (EText ''side must be buy or sell''))"

definition timeInForceCode :: "string \<Rightarrow> string result" where
  "timeInForceCode v =
     (let t = ToLower v in
      if t = [] \<or> t = ''good_til_cancelled'' \<or> t = ''gtc'' then Inr ''1''
      else if t = ''good_til_day'' \<or> t = ''gtd'' then Inr ''0''
      else if t = ''immediate_or_cancel'' \<or> t = ''ioc'' then Inr ''3''
      else if t = ''fill_or_kill'' \<or> t = ''fok'' then Inr ''4''
      else Inl (EText ''unsupported Deribit FIX time in force''))"

section \<open>The security list\<close>

definition SecurityListRequestFields :: "string \<Rightarrow> string \<Rightarrow> Field list result" where
  "SecurityListRequestFields requestID currency =
     (case validateIdentifier ''SecurityReqID'' requestID of
        Some e \<Rightarrow> Inl e
      | None \<Rightarrow>
          (let fs = [mkField 320 requestID, mkField 559 ''0'', mkField 263 ''0'', mkField 167 ''FUT''];
               c = ToUpper currency in
           if currency = [] then Inr fs
           else if c \<noteq> ''BTC'' \<and> c \<noteq> ''ETH'' then Inl (EText ''SecurityList currency must be BTC or ETH'')
           else Inr (fs @ [mkField 15 c])))"

record Security =
  sc_Symbol :: string
  sc_SecurityType :: string
  sc_SettlementCurrency :: string
  sc_CommissionCurrency :: string
  sc_PriceQuoteCurrency :: string
  sc_ContractMultiplier :: string
  sc_MinTradeVolume :: string
  sc_RawFields :: "Field list"

definition newSecurity :: "string \<Rightarrow> Security" where
  "newSecurity symbol =
     \<lparr>sc_Symbol = symbol, sc_SecurityType = [], sc_SettlementCurrency = [], sc_CommissionCurrency = [], sc_PriceQuoteCurrency = [],
      sc_ContractMultiplier = [], sc_MinTradeVolume = [], sc_RawFields = []\<rparr>"

definition UnsupportedRepeatingGroupError :: "int \<Rightarrow> goerror" where
  "UnsupportedRepeatingGroupError tag = EFmt ''unsupported Deribit FIX repeating group tag %d'' [FormatInt tag]"

definition isSessionHeaderTag :: "int \<Rightarrow> bool" where
  "isSessionHeaderTag tag \<longleftrightarrow> tag = 34 \<or> tag = 49 \<or> tag = 52 \<or> tag = 56"

definition listHeaderTag :: "int \<Rightarrow> bool" where
  "listHeaderTag tag \<longleftrightarrow> tag = 35 \<or> tag = 146 \<or> isSessionHeaderTag tag"

definition securityField :: "Field \<Rightarrow> Security \<Rightarrow> Security result" where
  "securityField f x =
     (let s = x\<lparr>sc_RawFields := sc_RawFields x @ [f]\<rparr>; tag = fd_Tag f; v = fd_Value f in
      if tag = 55 then Inr (s\<lparr>sc_Symbol := v\<rparr>)
      else if tag = 167 then Inr (s\<lparr>sc_SecurityType := v\<rparr>)
      else if tag = 120 then Inr (s\<lparr>sc_SettlementCurrency := v\<rparr>)
      else if tag = 479 then Inr (s\<lparr>sc_CommissionCurrency := v\<rparr>)
      else if tag = 1524 then Inr (s\<lparr>sc_PriceQuoteCurrency := v\<rparr>)
      else if tag = 231 then Inr (s\<lparr>sc_ContractMultiplier := v\<rparr>)
      else if tag = 562 then Inr (s\<lparr>sc_MinTradeVolume := v\<rparr>)
      else if tag = 454 \<or> tag = 1205 then
        (if Atoi v = Some 0 then Inr s else Inl (UnsupportedRepeatingGroupError tag))
      else Inr s)"

text \<open>The loop over the fields: \<open>current\<close> is the last security, once there is one.\<close>

fun parseSecurities :: "Field list \<Rightarrow> Security list \<Rightarrow> Security list result" where
  "parseSecurities [] secs = Inr secs"
| "parseSecurities (f # fs) secs =
     (if listHeaderTag (fd_Tag f) then parseSecurities fs secs
      else
        (let secs1 = (if fd_Tag f = 55 then secs @ [newSecurity (fd_Value f)] else secs) in
         if secs1 = [] then parseSecurities fs secs1
         else rbind (securityField f (last secs1)) (\<lambda>x. parseSecurities fs (butlast secs1 @ [x]))))"

definition ParseSecurityList :: "Message \<Rightarrow> Security list result" where
  "ParseSecurityList m =
     (if textAt m 35 \<noteq> ''y'' then Inl (EText ''Deribit FIX SecurityList must have MsgType y'')
      else
        (case Message_Get m 146 of
           None \<Rightarrow> Inl (EText ''Deribit FIX SecurityList missing NoRelatedSym(146)'')
         | Some raw \<Rightarrow>
             (case Atoi raw of
                None \<Rightarrow> Inl (EText ''invalid Deribit FIX NoRelatedSym(146)'')
              | Some count \<Rightarrow>
                  (if count < 0 then Inl (EText ''invalid Deribit FIX NoRelatedSym(146)'')
                   else rbind (parseSecurities (ms_Fields m) []) (\<lambda>secs.
                     if int (length secs) \<noteq> count
                     then Inl (EFmt ''Deribit FIX SecurityList group count mismatch: declared=%d parsed=%d'' [FormatInt count, FormatInt (int (length secs))])
                     else Inr secs)))))"

section \<open>Quantities\<close>

record QuantitySpec =
  qs_Symbol :: string
  qs_SettlementCurrency :: string
  qs_JSONAmountUnit :: string
  qs_FIXQtyType :: string
  qs_ContractMultiplier :: string
  qs_MinTradeAmount :: string
  qs_MinTradeContracts :: string

definition settlementMatches :: "Instrument \<Rightarrow> Security \<Rightarrow> string \<Rightarrow> bool" where
  "settlementMatches i s settlement \<longleftrightarrow>
     sc_SettlementCurrency s = [] \<or> EqualFold (sc_SettlementCurrency s) settlement \<or>
     EqualFold (sc_SettlementCurrency s) (in_CounterCurrency i) \<or> EqualFold (sc_SettlementCurrency s) (in_QuoteCurrency i)"

definition QuantitySpecFromMetadata :: "Instrument \<Rightarrow> Security \<Rightarrow> QuantitySpec result" where
  "QuantitySpecFromMetadata i s =
     (let settlement = ToUpper (in_SettlementCurrency i) in
      if in_InstrumentName i = [] \<or> in_InstrumentName i \<noteq> sc_Symbol s
      then Inl (EText ''JSON-RPC and FIX instrument symbols do not match'')
      else if in_Kind i \<noteq> ''future'' \<or> sc_SecurityType s \<noteq> ''FUT''
      then Inl (EText ''only Deribit futures have a validated FIX quantity conversion'')
      else if settlement \<noteq> ''BTC'' \<and> settlement \<noteq> ''ETH''
      then Inl (EText ''only native BTC/ETH-settled futures are supported'')
      else if \<not> settlementMatches i s settlement
      then Inl (EFmt ''FIX SettlCurrency %q matches neither JSON settlement nor quote currency'' [sc_SettlementCurrency s])
      else if sc_CommissionCurrency s \<noteq> [] \<and> \<not> EqualFold (sc_CommissionCurrency s) settlement
      then Inl (EFmt ''FIX CommCurrency %q does not match native JSON settlement currency %q'' [sc_CommissionCurrency s, settlement])
      else
        rbind (positiveDecimal ''JSON contract_size'' (in_ContractSize i)) (\<lambda>jsonMultiplier.
        rbind (positiveDecimal ''FIX ContractMultiplier(231)'' (sc_ContractMultiplier s)) (\<lambda>fixMultiplier.
        check (jsonMultiplier = fixMultiplier) (EText ''JSON contract_size and FIX ContractMultiplier differ'')
        (rbind (positiveDecimal ''JSON min_trade_amount'' (in_MinTradeAmount i)) (\<lambda>minimumUnits.
        rbind (positiveDecimal ''FIX MinTradeVol(562)'' (sc_MinTradeVolume s)) (\<lambda>minimumContracts.
        check (minimumContracts * fixMultiplier = minimumUnits) (EText ''JSON minimum amount does not match FIX minimum contracts times multiplier'')
        (Inr \<lparr>qs_Symbol = in_InstrumentName i, qs_SettlementCurrency = settlement, qs_JSONAmountUnit = ''USD_notional'',
              qs_FIXQtyType = QtyTypeUnits, qs_ContractMultiplier = sc_ContractMultiplier s,
              qs_MinTradeAmount = in_MinTradeAmount i, qs_MinTradeContracts = sc_MinTradeVolume s\<rparr>)))))))"

definition ContractsForUnits :: "QuantitySpec \<Rightarrow> string \<Rightarrow> string result" where
  "ContractsForUnits q amount =
     (if qs_FIXQtyType q \<noteq> QtyTypeUnits \<or> qs_JSONAmountUnit q \<noteq> ''USD_notional''
      then Inl (EText ''FIX quantity mode is not validated USD units'')
      else
        rbind (positiveDecimal ''order amount'' amount) (\<lambda>units.
        rbind (positiveDecimal ''minimum order amount'' (qs_MinTradeAmount q)) (\<lambda>minimum.
        if units < minimum then Inl (EFmt ''order amount is below minimum %s USD'' [qs_MinTradeAmount q])
        else rbind (positiveDecimal ''contract multiplier'' (qs_ContractMultiplier q)) (\<lambda>multiplier.
          (case quotient_of (units / multiplier) of
             (num, denom) \<Rightarrow>
               (if denom \<noteq> 1 then Inl (EText ''order amount does not convert to a whole number of FIX contracts'')
                else Inr (FormatInt num)))))))"

section \<open>Order messages\<close>

record NewOrderRequest =
  nr_ClientClOrdID :: string
  nr_Label :: string
  nr_Symbol :: string
  nr_Side :: string
  nr_Amount :: string
  nr_Price :: string
  nr_TimeInForce :: string
  nr_PostOnly :: bool
  nr_ReduceOnly :: bool
  nr_Quantity :: QuantitySpec

definition execInstFields :: "bool \<Rightarrow> bool \<Rightarrow> Field list" where
  "execInstFields postOnly reduceOnly =
     (let execInst = (if postOnly then ''6A'' else []) @ (if reduceOnly then ''E'' else []) in
      if execInst \<noteq> [] then [mkField 18 execInst] else [])"

definition orderLabel :: "NewOrderRequest \<Rightarrow> string" where
  "orderLabel r = (if nr_Label r = [] then nr_ClientClOrdID r else nr_Label r)"

definition NewOrderFields :: "NewOrderRequest \<Rightarrow> Field list result" where
  "NewOrderFields r =
     (case validateIdentifier ''ClOrdID'' (nr_ClientClOrdID r) of
        Some e \<Rightarrow> Inl e
      | None \<Rightarrow>
          (case validateIdentifier ''DeribitLabel'' (orderLabel r) of
             Some e \<Rightarrow> Inl e
           | None \<Rightarrow>
               (if nr_Symbol r = [] \<or> nr_Symbol r \<noteq> qs_Symbol (nr_Quantity r)
                then Inl (EText ''order symbol does not match validated quantity metadata'')
                else
                  rbind (sideCode (nr_Side r)) (\<lambda>side.
                  rbind (ContractsForUnits (nr_Quantity r) (nr_Amount r)) (\<lambda>_.
                  rbind (positiveDecimal ''price'' (nr_Price r)) (\<lambda>_.
                  rbind (timeInForceCode (nr_TimeInForce r)) (\<lambda>tif.
                  Inr ([mkField 11 (nr_ClientClOrdID r), mkField 54 side, mkField 38 (nr_Amount r), mkField 44 (nr_Price r),
                        mkField 55 (nr_Symbol r), mkField 40 ''2'', mkField 59 tif, mkField 854 QtyTypeUnits,
                        mkField 100010 (orderLabel r)] @ execInstFields (nr_PostOnly r) (nr_ReduceOnly r)))))))))"

record ExistingOrderRef =
  er_ServerClOrdID :: string
  er_Label :: string
  er_Symbol :: string

definition orderReferenceFields :: "ExistingOrderRef \<Rightarrow> Field list result" where
  "orderReferenceFields r =
     (if er_ServerClOrdID r \<noteq> [] \<and> er_Label r \<noteq> [] then Inl (EText ''exactly one server ClOrdID or Deribit label is required'')
      else if er_ServerClOrdID r \<noteq> [] then
        (case validateIdentifier ''OrigClOrdID'' (er_ServerClOrdID r) of
           Some e \<Rightarrow> Inl e
         | None \<Rightarrow> Inr [mkField 41 (er_ServerClOrdID r)])
      else
        (case validateIdentifier ''DeribitLabel'' (er_Label r) of
           Some e \<Rightarrow> Inl e
         | None \<Rightarrow> Inr [mkField 100010 (er_Label r)]))"

definition CancelOrderFields :: "ExistingOrderRef \<Rightarrow> Field list result" where
  "CancelOrderFields r =
     (if er_Symbol r = [] then Inl (EText ''cancel symbol is required'')
      else rbind (orderReferenceFields r) (\<lambda>identifier. Inr (identifier @ [mkField 55 (er_Symbol r)])))"

record ReplaceOrderRequest =
  rr_Ref :: ExistingOrderRef
  rr_Side :: string
  rr_Amount :: string
  rr_Price :: string
  rr_PostOnly :: bool
  rr_ReduceOnly :: bool
  rr_Quantity :: QuantitySpec

definition ReplaceOrderFields :: "ReplaceOrderRequest \<Rightarrow> Field list result" where
  "ReplaceOrderFields r =
     (let symbol = er_Symbol (rr_Ref r) in
      if symbol = [] \<or> symbol \<noteq> qs_Symbol (rr_Quantity r)
      then Inl (EText ''replace symbol does not match validated quantity metadata'')
      else
        rbind (orderReferenceFields (rr_Ref r)) (\<lambda>identifier.
        rbind (sideCode (rr_Side r)) (\<lambda>side.
        rbind (ContractsForUnits (rr_Quantity r) (rr_Amount r)) (\<lambda>_.
        rbind (positiveDecimal ''price'' (rr_Price r)) (\<lambda>_.
        Inr (identifier @ [mkField 55 symbol, mkField 54 side, mkField 38 (rr_Amount r), mkField 40 ''2'',
             mkField 44 (rr_Price r), mkField 854 QtyTypeUnits] @ execInstFields (rr_PostOnly r) (rr_ReduceOnly r)))))))"

section \<open>Evidence\<close>

record OrderEvidence =
  oe_NativeOrderID :: string
  oe_ClientClOrdID :: string
  oe_ServerClOrdID :: string
  oe_Label :: string
  oe_Symbol :: string
  oe_Status :: string
  oe_Side :: string
  oe_Price :: string
  oe_FIXOrderContracts :: string
  oe_JSONAmountUnits :: string
  oe_CumContracts :: string
  oe_LeavesContracts :: string
  oe_FIXExecutionID :: string
  oe_LastQtyContracts :: string
  oe_LastPrice :: string
  oe_Commission :: string
  oe_CommissionCurrency :: string
  oe_RejectReason :: string
  oe_RawFields :: "Field list"

definition reportEvidence :: "Message \<Rightarrow> OrderEvidence" where
  "reportEvidence m =
     \<lparr>oe_NativeOrderID = textAt m 37, oe_ClientClOrdID = textAt m 41, oe_ServerClOrdID = textAt m 11, oe_Label = textAt m 100010,
      oe_Symbol = textAt m 55, oe_Status = textAt m 39, oe_Side = textAt m 54, oe_Price = textAt m 44,
      oe_FIXOrderContracts = textAt m 38, oe_JSONAmountUnits = [], oe_CumContracts = textAt m 14, oe_LeavesContracts = textAt m 151,
      oe_FIXExecutionID = textAt m 17, oe_LastQtyContracts = textAt m 32, oe_LastPrice = textAt m 31, oe_Commission = textAt m 12,
      oe_CommissionCurrency = textAt m 479, oe_RejectReason = textAt m 103, oe_RawFields = ms_Fields m\<rparr>"

definition ParseExecutionReport :: "Message \<Rightarrow> string \<Rightarrow> string \<Rightarrow> string \<Rightarrow> QuantitySpec \<Rightarrow> OrderEvidence result" where
  "ParseExecutionReport m expectedClientClOrdID expectedLabel expectedAmount quantity =
     (let e = reportEvidence m in
      if textAt m 35 \<noteq> ''8'' then Inl (EText ''Deribit FIX order evidence must be ExecutionReport(8)'')
      else if oe_ClientClOrdID e \<noteq> expectedClientClOrdID \<and> oe_Label e \<noteq> expectedLabel
      then Inl (EText ''ExecutionReport cannot be correlated by OrigClOrdID or DeribitLabel'')
      else if oe_Status e = [] then Inl (EText ''ExecutionReport missing OrdStatus(39)'')
      else if oe_FIXOrderContracts e = [] then Inr e
      else
        rbind (positiveDecimal ''contract multiplier'' (qs_ContractMultiplier quantity)) (\<lambda>multiplier.
        rbind (nonNegativeDecimal ''ExecutionReport OrderQty'' (oe_FIXOrderContracts e)) (\<lambda>contracts.
        rbind (positiveDecimal ''expected JSON amount'' expectedAmount) (\<lambda>expected.
        if contracts * multiplier \<noteq> expected
        then Inl (EText ''ExecutionReport contract quantity does not match planned JSON amount'')
        else Inr (e\<lparr>oe_JSONAmountUnits := expectedAmount\<rparr>)))))"

record CancelRejectEvidence =
  ce_NativeOrderID :: string
  ce_ClientClOrdID :: string
  ce_ServerClOrdID :: string
  ce_Status :: string
  ce_ReasonCode :: string
  ce_RawFields :: "Field list"

definition ParseOrderCancelReject :: "Message \<Rightarrow> CancelRejectEvidence result" where
  "ParseOrderCancelReject m =
     (if textAt m 35 \<noteq> ''9'' then Inl (EText ''Deribit FIX cancel evidence must be OrderCancelReject(9)'')
      else if textAt m 102 = [] then Inl (EText ''OrderCancelReject missing CxlRejReason(102)'')
      else Inr \<lparr>ce_NativeOrderID = textAt m 37, ce_ClientClOrdID = textAt m 11, ce_ServerClOrdID = textAt m 41,
                ce_Status = textAt m 39, ce_ReasonCode = textAt m 102, ce_RawFields = ms_Fields m\<rparr>)"

end
