(* ===== verification/DeribitFixOrderProps.thy ===== *)
theory DeribitFixOrderProps
  imports DeribitFixOrders
begin

text \<open>
  Properties of Deribit FIX orders: a security list is split into its groups without losing a field, an order that
  reaches the wire is one the instrument's metadata allow, and of the quantities a report can name exactly the
  ordered one is accepted.
\<close>

section \<open>Groups of a security list\<close>

definition lastValue :: "int \<Rightarrow> Field list \<Rightarrow> string" where
  "lastValue tag fs = (case find (\<lambda>f. fd_Tag f = tag) (rev fs) of None \<Rightarrow> [] | Some f \<Rightarrow> fd_Value f)"

definition groupOk :: "Security \<Rightarrow> bool" where
  "groupOk s \<longleftrightarrow> (let raw = sc_RawFields s in
     (\<exists>f fs. raw = f # fs \<and> fd_Tag f = 55 \<and> sc_Symbol s = fd_Value f \<and> 55 \<notin> fd_Tag ` set fs) \<and>
     sc_SecurityType s = lastValue 167 raw \<and> sc_SettlementCurrency s = lastValue 120 raw \<and>
     sc_CommissionCurrency s = lastValue 479 raw \<and> sc_PriceQuoteCurrency s = lastValue 1524 raw \<and>
     sc_ContractMultiplier s = lastValue 231 raw \<and> sc_MinTradeVolume s = lastValue 562 raw \<and>
     (\<forall>f\<in>set raw. fd_Tag f = 454 \<or> fd_Tag f = 1205 \<longrightarrow> Atoi (fd_Value f) = Some 0))"

lemma lastValue_simps [simp]:
  "lastValue tag [] = []" "lastValue tag (fs @ [f]) = (if fd_Tag f = tag then fd_Value f else lastValue tag fs)"
  by (simp_all add: lastValue_def)

lemma lastValue_Cons_55 [simp]: "fd_Tag f = 55 \<Longrightarrow> tag \<noteq> 55 \<Longrightarrow> lastValue tag [f] = []"
  by (simp add: lastValue_def)

lemma securityField_raw: "securityField f x = Inr y \<Longrightarrow> sc_RawFields y = sc_RawFields x @ [f]"
  by (auto simp: securityField_def Let_def split: if_splits)

lemma securityField_first: "fd_Tag f = 55 \<Longrightarrow> securityField f (newSecurity (fd_Value f)) = Inr y \<Longrightarrow> groupOk y"
  by (auto simp: securityField_def newSecurity_def groupOk_def Let_def)

lemma securityField_fields:
  assumes "securityField f x = Inr y" "fd_Tag f \<noteq> 55"
  shows "sc_Symbol y = sc_Symbol x" "sc_SecurityType y = (if fd_Tag f = 167 then fd_Value f else sc_SecurityType x)"
    "sc_SettlementCurrency y = (if fd_Tag f = 120 then fd_Value f else sc_SettlementCurrency x)"
    "sc_CommissionCurrency y = (if fd_Tag f = 479 then fd_Value f else sc_CommissionCurrency x)"
    "sc_PriceQuoteCurrency y = (if fd_Tag f = 1524 then fd_Value f else sc_PriceQuoteCurrency x)"
    "sc_ContractMultiplier y = (if fd_Tag f = 231 then fd_Value f else sc_ContractMultiplier x)"
    "sc_MinTradeVolume y = (if fd_Tag f = 562 then fd_Value f else sc_MinTradeVolume x)"
    "fd_Tag f = 454 \<or> fd_Tag f = 1205 \<Longrightarrow> Atoi (fd_Value f) = Some 0"
  using assms by (auto simp: securityField_def Let_def split: if_splits)

lemma securityField_next:
  assumes "groupOk x" "fd_Tag f \<noteq> 55" "securityField f x = Inr y"
  shows "groupOk y"
proof -
  note y = securityField_fields [OF assms(3,2)]
  obtain g gs where "sc_RawFields x = g # gs" "fd_Tag g = 55" "sc_Symbol x = fd_Value g" "55 \<notin> fd_Tag ` set gs"
    using assms(1) by (auto simp: groupOk_def Let_def)
  then have "\<exists>g gs. sc_RawFields x @ [f] = g # gs \<and> fd_Tag g = 55 \<and> sc_Symbol y = fd_Value g \<and> 55 \<notin> fd_Tag ` set gs"
    using assms(2) y(1) by auto
  moreover have "\<forall>g\<in>set (sc_RawFields x @ [f]). fd_Tag g = 454 \<or> fd_Tag g = 1205 \<longrightarrow> Atoi (fd_Value g) = Some 0"
    using assms(1) y(8) by (auto simp: groupOk_def Let_def)
  ultimately show ?thesis using assms(1) y(2-7) unfolding groupOk_def Let_def securityField_raw [OF assms(3)] by simp
qed

lemma parseSecurities_groups:
  assumes "parseSecurities fs secs = Inr out" "\<forall>s\<in>set secs. groupOk s"
  shows "(\<forall>s\<in>set out. groupOk s) \<and> concat (map sc_RawFields out) = concat (map sc_RawFields secs) @
    (let body = filter (\<lambda>f. \<not> listHeaderTag (fd_Tag f)) fs in if secs = [] then dropWhile (\<lambda>f. fd_Tag f \<noteq> 55) body else body)"
  using assms
proof (induction fs arbitrary: secs)
  case Nil
  then show ?case by auto
next
  case (Cons f fs)
  consider "listHeaderTag (fd_Tag f)" | "\<not> listHeaderTag (fd_Tag f)" "fd_Tag f \<noteq> 55" "secs = []" |
    "\<not> listHeaderTag (fd_Tag f)" "fd_Tag f = 55" | "\<not> listHeaderTag (fd_Tag f)" "fd_Tag f \<noteq> 55" "secs \<noteq> []" by blast
  then show ?case
  proof cases
    case 3
    obtain x where x: "securityField f (newSecurity (fd_Value f)) = Inr x" "parseSecurities fs (secs @ [x]) = Inr out"
      using Cons.prems(1) 3 by (auto simp: result_simps)
    have "groupOk x" "sc_RawFields x = [f]"
      using securityField_first [OF 3(2) x(1)] securityField_raw [OF x(1)] by (simp_all add: newSecurity_def)
    moreover have "\<forall>s\<in>set (secs @ [x]). groupOk s" using calculation(1) Cons.prems(2) by simp
    note Cons.IH [OF x(2) this]
    moreover have "filter (\<lambda>f. \<not> listHeaderTag (fd_Tag f)) (f # fs) = f # filter (\<lambda>f. \<not> listHeaderTag (fd_Tag f)) fs" using 3(1) by simp
    ultimately show ?thesis using 3(2) by (simp only: Let_def dropWhile.simps map_append list.map concat_append concat.simps append_assoc append.simps) simp
  next
    case 4
    obtain ys y where ys: "secs = ys @ [y]" using 4(3) by (cases secs rule: rev_cases) auto
    obtain x where x: "securityField f y = Inr x" "parseSecurities fs (ys @ [x]) = Inr out"
      using Cons.prems(1) 4(1,2) ys by (auto simp: result_simps)
    have "\<forall>s\<in>set (ys @ [x]). groupOk s" using securityField_next [OF _ 4(2) x(1)] Cons.prems(2) ys by simp
    from Cons.IH [OF x(2) this] show ?thesis using 4(1) ys securityField_raw [OF x(1)] by (simp add: Let_def)
  qed (use Cons in \<open>simp_all add: Let_def\<close>)
qed

section \<open>Quantities\<close>

lemma fixPositive_Inr: "positiveDecimal name v = Inr r \<longleftrightarrow> SetString v = Some r \<and> 0 < r"
  by (auto simp: positiveDecimal_def split: option.splits)

lemma fixNonNegative_Inr: "nonNegativeDecimal name v = Inr r \<longleftrightarrow> SetString v = Some r \<and> 0 \<le> r"
  by (auto simp: nonNegativeDecimal_def split: option.splits)

lemma SetString_FormatInt:
  assumes "0 \<le> n"
  shows "SetString (FormatInt n) = Some (of_int n)"
proof -
  have "SetString (natText n) = Some (of_int n)"
    using SetString_plain [of "natText n" "[]" False] assms by (simp add: plainDecimal_def decimalValue_def)
  then show ?thesis using assms by (simp add: FormatInt_def)
qed

lemma ContractsForUnits_Inr:
  assumes "ContractsForUnits q amount = Inr text"
  shows "\<exists>units multiplier minimum n. SetString amount = Some units \<and> SetString (qs_ContractMultiplier q) = Some multiplier \<and>
    SetString (qs_MinTradeAmount q) = Some minimum \<and> 0 < minimum \<and> minimum \<le> units \<and> 0 < multiplier \<and> units = of_int n * multiplier \<and>
    0 < n \<and> text = FormatInt n"
proof -
  obtain units minimum multiplier n where u: "SetString amount = Some units" "0 < units" "SetString (qs_MinTradeAmount q) = Some minimum" "0 < minimum"
    "\<not> units < minimum" "SetString (qs_ContractMultiplier q) = Some multiplier" "0 < multiplier" "quotient_of (units / multiplier) = (n, 1)" "text = FormatInt n"
    using assms unfolding ContractsForUnits_def
    by (auto simp: result_simps fixPositive_Inr case_prod_beta prod_eq_iff split: if_splits)
  have "units / multiplier = of_int n" using quotient_of_div [OF u(8)] by simp
  then have e: "units = of_int n * multiplier" using u(7) by (simp add: field_simps)
  moreover have "0 < n" using e u(2,7) by (simp add: zero_less_mult_iff)
  ultimately show ?thesis using u by auto
qed

lemma QuantitySpecFromMetadata_Inr:
  assumes "QuantitySpecFromMetadata i s = Inr q"
  shows "qs_Symbol q = in_InstrumentName i \<and> sc_Symbol s = in_InstrumentName i \<and> in_InstrumentName i \<noteq> [] \<and> in_Kind i = ''future'' \<and>
    qs_MinTradeAmount q = in_MinTradeAmount i \<and> qs_ContractMultiplier q = sc_ContractMultiplier s \<and>
    qs_JSONAmountUnit q = ''USD_notional'' \<and> qs_FIXQtyType q = QtyTypeUnits \<and>
    (\<exists>size. SetString (in_ContractSize i) = Some size \<and> SetString (sc_ContractMultiplier s) = Some size \<and> 0 < size)"
  using assms by (auto simp: QuantitySpecFromMetadata_def Let_def result_simps fixPositive_Inr split: if_splits)

lemma NewOrderFields_Inr:
  assumes "NewOrderFields r = Inr fs"
  shows "\<exists>side tif contracts price. sideCode (nr_Side r) = Inr side \<and> timeInForceCode (nr_TimeInForce r) = Inr tif \<and>
    nr_Symbol r = qs_Symbol (nr_Quantity r) \<and> ContractsForUnits (nr_Quantity r) (nr_Amount r) = Inr contracts \<and>
    SetString (nr_Price r) = Some price \<and> 0 < price \<and>
    fs = [mkField 11 (nr_ClientClOrdID r), mkField 54 side, mkField 38 (nr_Amount r), mkField 44 (nr_Price r),
      mkField 55 (nr_Symbol r), mkField 40 ''2'', mkField 59 tif, mkField 854 QtyTypeUnits,
      mkField 100010 (orderLabel r)] @ execInstFields (nr_PostOnly r) (nr_ReduceOnly r)"
  using assms by (auto simp: NewOrderFields_def result_simps fixPositive_Inr split: if_splits option.splits)

lemma sideCode_Inr: "sideCode side = Inr code \<Longrightarrow> (ToLower side, code) \<in> {(''buy'', ''1''), (''sell'', ''2'')}"
  by (auto simp: sideCode_def split: if_splits)

lemma timeInForceCode_Inr: "timeInForceCode v = Inr code \<Longrightarrow>
    (ToLower v, code) \<in> {([], ''1''), (''gtc'', ''1''), (''good_til_cancelled'', ''1''), (''gtd'', ''0''), (''good_til_day'', ''0''),
      (''ioc'', ''3''), (''immediate_or_cancel'', ''3''), (''fok'', ''4''), (''fill_or_kill'', ''4'')}"
  by (auto simp: timeInForceCode_def Let_def split: if_splits)

section \<open>On the wire\<close>

lemma find_Cons_tag: "find (\<lambda>f. fd_Tag f = t) (mkField u v # fs) = (if u = t then Some (mkField u v) else find (\<lambda>f. fd_Tag f = t) fs)"
  by simp

lemma sendLocked_parses:
  assumes "sendLocked config env msgType body s = (None, s')" "\<forall>f\<in>set body. fd_Tag f < 2 ^ 63" "length (List.last (ds_sent s')) < 2 ^ 63"
  shows "\<exists>raw m. ds_sent s' = ds_sent s @ [raw] \<and> ParseStrict raw = (m, None) \<and> ms_Fields m = outFields s (sd_Stamp env) msgType body"
proof -
  let ?fs = "outFields s (sd_Stamp env) msgType body"
  obtain raw s1 where r: "Encode ''FIX.4.4'' ?fs = Inr raw" "writeRawLocked env raw s = (None, s1)" "ds_sent s' = ds_sent s1"
    using assms(1) by (auto simp: sendLocked_def Let_def rememberOutboundLocked_def split: sum.splits prod.splits option.splits)
  have "ds_sent s1 = ds_sent s @ [raw]" using r(2) by (auto simp: writeRawLocked_def split: if_splits prod.splits option.splits)
  then have sent: "ds_sent s' = ds_sent s @ [raw]" using r(3) by simp
  have "fd_Tag f < 2 ^ 63" if "f \<in> set ?fs" for f using that assms(2) by (auto simp: outFields_def)
  from Encode_parses [OF r(1) _ this] sent assms(3) show ?thesis by (simp add: SOH_def)
qed

section \<open>Properties\<close>

text \<open>
  A security list is read without losing a field. Whatever list is accepted, the declared count is the number of
  securities; the raw fields of the securities, one after the other, are exactly the fields of the message from the first symbol on, without
  the header fields, in wire order; every security starts at its symbol and has no second one; its attributes are the last
  values of their tags within its fields; and no security has a nested group with entries.
\<close>

theorem securityList_groups:
  assumes "ParseSecurityList m = Inr secs"
  shows "(\<exists>count. Message_Get m 146 = Some count \<and> Atoi count = Some (int (length secs))) \<and>
    concat (map sc_RawFields secs) = dropWhile (\<lambda>f. fd_Tag f \<noteq> 55) (filter (\<lambda>f. \<not> listHeaderTag (fd_Tag f)) (ms_Fields m)) \<and>
    (\<forall>s\<in>set secs. groupOk s)"
proof -
  have p: "parseSecurities (ms_Fields m) [] = Inr secs" "\<exists>count. Message_Get m 146 = Some count \<and> Atoi count = Some (int (length secs))"
    using assms by (auto simp: ParseSecurityList_def result_simps split: if_splits option.splits)
  then show ?thesis using parseSecurities_groups [OF p(1)] by (simp add: Let_def)
qed

definition exSecurityList :: Message where
  "exSecurityList = (wMessage ''y'' ''2'')\<lparr>ms_Fields := [mkField 35 ''y'', mkField 34 ''2'', mkField 146 ''2'', mkField 55 ''BTC-PERPETUAL'',
     mkField 167 ''FUT'', mkField 231 ''10'', mkField 562 ''1'', mkField 454 ''0'', mkField 55 ''ETH-PERPETUAL'', mkField 231 ''1'']\<rparr>"

theorem securityList_groups_witness:
  "\<exists>a b. ParseSecurityList exSecurityList = Inr [a, b] \<and> sc_Symbol a = ''BTC-PERPETUAL'' \<and> sc_ContractMultiplier b = ''1'' \<and> groupOk a \<and> groupOk b"
proof -
  have "(case ParseSecurityList exSecurityList of Inr [a, b] \<Rightarrow> sc_Symbol a = ''BTC-PERPETUAL'' \<and> sc_ContractMultiplier b = ''1'' | _ \<Rightarrow> False)"
    by code_simp
  then obtain a b where ab: "ParseSecurityList exSecurityList = Inr [a, b]" "sc_Symbol a = ''BTC-PERPETUAL''" "sc_ContractMultiplier b = ''1''"
    by (auto split: sum.splits list.splits)
  from securityList_groups [OF this(1)] show ?thesis using ab by auto
qed

text \<open>
  C35. An order on the wire is one the metadata allow. When the quantity specification of a request was derived from the instrument of the JSON
  API and the security of the FIX list, the request was accepted, and the session sent it without an error, then the bytes written
  are one message that strict parsing accepts: a new limit order (\<open>OrdType\<close> 2) with the session's next number that carries
  the request's identifiers, the side, the price, the time in force and the amount, marked as a quantity in units (\<open>QtyType\<close> 854 is 0). Its execution
  instructions are \<open>6A\<close> for an order that may only be posted, followed by \<open>E\<close> for one that may only reduce, and the tag is absent for an order that is
  neither; the message has no other tags. The amount is a positive whole number of contracts of the size both interfaces name and at least the minimum of
  the instrument.
\<close>

theorem deribit_order_on_wire:
  assumes "QuantitySpecFromMetadata i sec = Inr (nr_Quantity r)" "NewOrderFields r = Inr fs" "Send config env ''D'' fs s = (None, s')"
    "length (List.last (ds_sent s')) < 2 ^ 63"
  shows "\<exists>raw m units size minimum n. ds_sent s' = ds_sent s @ [raw] \<and> ParseStrict raw = (m, None) \<and>
    map fd_Tag (ms_Fields m) = [35, 49, 56, 34, 52, 11, 54, 38, 44, 55, 40, 59, 854, 100010] @ (if nr_PostOnly r \<or> nr_ReduceOnly r then [18] else []) \<and>
    textAt m 35 = ''D'' \<and> textAt m 34 = FormatInt (ds_nextOut s) \<and> textAt m 11 = nr_ClientClOrdID r \<and>
    textAt m 100010 = (if nr_Label r = [] then nr_ClientClOrdID r else nr_Label r) \<and> textAt m 55 = in_InstrumentName i \<and>
    (ToLower (nr_Side r), textAt m 54) \<in> {(''buy'', ''1''), (''sell'', ''2'')} \<and> textAt m 40 = ''2'' \<and>
    (ToLower (nr_TimeInForce r), textAt m 59) \<in> {([], ''1''), (''gtc'', ''1''), (''good_til_cancelled'', ''1''), (''gtd'', ''0''), (''good_til_day'', ''0''),
      (''ioc'', ''3''), (''immediate_or_cancel'', ''3''), (''fok'', ''4''), (''fill_or_kill'', ''4'')} \<and>
    textAt m 44 = nr_Price r \<and> textAt m 38 = nr_Amount r \<and> textAt m 854 = ''0'' \<and>
    Message_Get m 18 = (if nr_PostOnly r then Some (if nr_ReduceOnly r then ''6AE'' else ''6A'') else if nr_ReduceOnly r then Some ''E'' else None) \<and>
    SetString (nr_Amount r) = Some units \<and> SetString (in_ContractSize i) = Some size \<and> SetString (sc_ContractMultiplier sec) = Some size \<and>
    SetString (in_MinTradeAmount i) = Some minimum \<and> 0 < n \<and> units = of_int n * size \<and> 0 < minimum \<and> minimum \<le> units"
proof -
  obtain side tif contracts where o: "(ToLower (nr_Side r), side) \<in> {(''buy'', ''1''), (''sell'', ''2'')}" "nr_Symbol r = qs_Symbol (nr_Quantity r)"
      "ContractsForUnits (nr_Quantity r) (nr_Amount r) = Inr contracts"
    and tif: "(ToLower (nr_TimeInForce r), tif) \<in> {([], ''1''), (''gtc'', ''1''), (''good_til_cancelled'', ''1''), (''gtd'', ''0''), (''good_til_day'', ''0''),
      (''ioc'', ''3''), (''immediate_or_cancel'', ''3''), (''fok'', ''4''), (''fill_or_kill'', ''4'')}"
    and fs: "fs = [mkField 11 (nr_ClientClOrdID r), mkField 54 side, mkField 38 (nr_Amount r), mkField 44 (nr_Price r),
      mkField 55 (nr_Symbol r), mkField 40 ''2'', mkField 59 tif, mkField 854 QtyTypeUnits,
      mkField 100010 (orderLabel r)] @ execInstFields (nr_PostOnly r) (nr_ReduceOnly r)"
    using NewOrderFields_Inr [OF assms(2)] sideCode_Inr timeInForceCode_Inr by metis
  note q = QuantitySpecFromMetadata_Inr [OF assms(1)]
  obtain units size minimum n where u: "SetString (nr_Amount r) = Some units" "SetString (sc_ContractMultiplier sec) = Some size"
    "SetString (in_MinTradeAmount i) = Some minimum" "0 < minimum" "minimum \<le> units" "units = of_int n * size" "0 < n"
    using ContractsForUnits_Inr [OF o(3)] q by auto
  have "\<forall>f\<in>set fs. fd_Tag f < 2 ^ 63" by (auto simp: fs execInstFields_def Let_def)
  moreover have "sendLocked config env ''D'' fs s = (None, s')" using assms(3) by (simp add: Send_def split: if_splits)
  ultimately obtain raw m where m: "ds_sent s' = ds_sent s @ [raw]" "ParseStrict raw = (m, None)" "ms_Fields m = outFields s (sd_Stamp env) ''D'' fs"
    using sendLocked_parses [OF _ _ assms(4)] by blast
  have t: "textAt m 35 = ''D''" "textAt m 34 = FormatInt (ds_nextOut s)" "textAt m 11 = nr_ClientClOrdID r" "textAt m 100010 = orderLabel r"
    "textAt m 55 = nr_Symbol r" "textAt m 54 = side" "textAt m 44 = nr_Price r" "textAt m 38 = nr_Amount r" "textAt m 40 = ''2''" "textAt m 59 = tif"
    "textAt m 854 = ''0''"
    by (simp_all add: textAt_def Message_Get_def m(3) outFields_def fs QtyTypeUnits_def)
  have e: "map fd_Tag (ms_Fields m) = [35, 49, 56, 34, 52, 11, 54, 38, 44, 55, 40, 59, 854, 100010] @ (if nr_PostOnly r \<or> nr_ReduceOnly r then [18] else [])"
    "Message_Get m 18 = (if nr_PostOnly r then Some (if nr_ReduceOnly r then ''6AE'' else ''6A'') else if nr_ReduceOnly r then Some ''E'' else None)"
    by (simp_all add: Message_Get_def m(3) outFields_def fs execInstFields_def)
  show ?thesis
  proof (intro exI conjI)
    show "ds_sent s' = ds_sent s @ [raw]" "ParseStrict raw = (m, None)" by (fact m)+
    show "SetString (in_ContractSize i) = Some size" using q u(2) by auto
    show "textAt m 55 = in_InstrumentName i" using t(5) o(2) q by simp
    show "textAt m 100010 = (if nr_Label r = [] then nr_ClientClOrdID r else nr_Label r)" using t(4) by (simp add: orderLabel_def)
    show "(ToLower (nr_Side r), textAt m 54) \<in> {(''buy'', ''1''), (''sell'', ''2'')}" unfolding t(6) by (fact o(1))
    show "(ToLower (nr_TimeInForce r), textAt m 59) \<in> {([], ''1''), (''gtc'', ''1''), (''good_til_cancelled'', ''1''), (''gtd'', ''0''), (''good_til_day'', ''0''),
      (''ioc'', ''3''), (''immediate_or_cancel'', ''3''), (''fok'', ''4''), (''fill_or_kill'', ''4'')}"
      unfolding t(10) by (fact tif)
  qed (fact t e u)+
qed

definition exInstrument :: Instrument where
  "exInstrument = \<lparr>in_InstrumentName = ''BTC-PERPETUAL'', in_Kind = ''future'', in_BaseCurrency = ''BTC'', in_CounterCurrency = ''USD'',
     in_SettlementCurrency = ''BTC'', in_QuoteCurrency = ''USD'', in_TickSize = ''0.5'', in_TickSizeSteps = [], in_AmountStep = [],
     in_MinTradeAmount = ''10'', in_MakerCommission = ''0'', in_TakerCommission = ''0.0005'', in_ContractSize = ''10.0'', in_IsActive = True,
     in_InstrumentID = 1, in_ExpirationTimestamp = 0\<rparr>"

definition exSecurity :: Security where
  "exSecurity = (case ParseSecurityList exSecurityList of Inr (a # _) \<Rightarrow> a | _ \<Rightarrow> newSecurity [])"

definition exOrder :: NewOrderRequest where
  "exOrder = \<lparr>nr_ClientClOrdID = ''order-1'', nr_Label = [], nr_Symbol = ''BTC-PERPETUAL'', nr_Side = ''Buy'', nr_Amount = ''30'', nr_Price = ''50000'',
     nr_TimeInForce = [], nr_PostOnly = True, nr_ReduceOnly = False,
     nr_Quantity = (case QuantitySpecFromMetadata exInstrument exSecurity of Inr q \<Rightarrow> q)\<rparr>"

definition exOrderFields :: "Field list" where
  "exOrderFields = (case NewOrderFields exOrder of Inr fs \<Rightarrow> fs | Inl _ \<Rightarrow> [])"

lemma exOrder_ok: "QuantitySpecFromMetadata exInstrument exSecurity = Inr (nr_Quantity exOrder)" "NewOrderFields exOrder = Inr exOrderFields"
proof -
  have "isl (QuantitySpecFromMetadata exInstrument exSecurity) = False" "isl (NewOrderFields exOrder) = False" by code_simp+
  then show "QuantitySpecFromMetadata exInstrument exSecurity = Inr (nr_Quantity exOrder)" "NewOrderFields exOrder = Inr exOrderFields"
    by (auto simp: exOrder_def exOrderFields_def isl_def split: sum.splits)
qed

theorem deribit_order_on_wire_witness:
  "\<exists>s' raw m. Send exConfig wSend ''D'' exOrderFields exOpen = (None, s') \<and> ds_sent s' = ds_sent exOpen @ [raw] \<and>
     ParseStrict raw = (m, None) \<and> textAt m 38 = ''30'' \<and> textAt m 11 = ''order-1'' \<and> textAt m 854 = ''0'' \<and> Message_Get m 18 = Some ''6A''"
proof -
  have "case Send exConfig wSend ''D'' exOrderFields exOpen of (e, s') \<Rightarrow> e = None \<and> length (List.last (ds_sent s')) < 300" by code_simp
  then obtain s' where s': "Send exConfig wSend ''D'' exOrderFields exOpen = (None, s')" "length (List.last (ds_sent s')) < 2 ^ 63"
    by (auto split: prod.splits)
  from deribit_order_on_wire [OF exOrder_ok this] s'(1) show ?thesis by (auto simp: exOrder_def)
qed

text \<open>
  C36. The venue's contracts read back as the ordered amount. For an accepted order and an execution report with a status that carries its
  client identifier or its label, and that names its quantity as a whole number of contracts, the report is accepted as evidence for the ordered
  amount exactly when that number is the one the amount converts to.
\<close>

theorem order_report_roundtrip:
  assumes "NewOrderFields r = Inr fs" "textAt m 35 = ''8''" "textAt m 39 \<noteq> []"
    "textAt m 41 = nr_ClientClOrdID r \<or> textAt m 100010 = orderLabel r" "textAt m 38 = FormatInt n" "0 \<le> n"
  shows "(\<exists>e. ParseExecutionReport m (nr_ClientClOrdID r) (orderLabel r) (nr_Amount r) (nr_Quantity r) = Inr e \<and> oe_JSONAmountUnits e = nr_Amount r) \<longleftrightarrow>
    ContractsForUnits (nr_Quantity r) (nr_Amount r) = Inr (FormatInt n)"
proof -
  obtain contracts where c: "ContractsForUnits (nr_Quantity r) (nr_Amount r) = Inr contracts" using NewOrderFields_Inr [OF assms(1)] by blast
  obtain units multiplier k where u: "SetString (nr_Amount r) = Some units" "SetString (qs_ContractMultiplier (nr_Quantity r)) = Some multiplier"
    "0 < units" "0 < multiplier" "units = of_int k * multiplier" "0 < k" "contracts = FormatInt k"
    using ContractsForUnits_Inr [OF c] by (metis less_le_trans)
  have "(of_int n * multiplier = units) = (n = k)" using u(4,5) by simp
  moreover have "(FormatInt n = FormatInt k) = (n = k)" using SetString_FormatInt assms(6) u(6) by (metis less_imp_le of_int_eq_iff option.inject)
  moreover have "positiveDecimal x (nr_Amount r) = Inr units" "positiveDecimal x (qs_ContractMultiplier (nr_Quantity r)) = Inr multiplier"
    "nonNegativeDecimal x (FormatInt n) = Inr (of_int n)" for x
    using u SetString_FormatInt [OF assms(6)] assms(6) by (simp_all add: fixPositive_Inr fixNonNegative_Inr)
  ultimately show ?thesis
    using assms(2-5) u(7) c by (auto simp: ParseExecutionReport_def reportEvidence_def Let_def)
qed

definition exReport :: Message where
  "exReport = (wMessage ''8'' ''2'')\<lparr>ms_Fields := [mkField 35 ''8'', mkField 41 ''order-1'', mkField 39 ''0'', mkField 38 ''3'']\<rparr>"

theorem order_report_roundtrip_witness:
  "\<exists>e. ParseExecutionReport exReport ''order-1'' ''order-1'' ''30'' (nr_Quantity exOrder) = Inr e \<and> oe_JSONAmountUnits e = ''30''"
proof -
  have "textAt exReport 35 = ''8'' \<and> textAt exReport 39 \<noteq> [] \<and> textAt exReport 41 = nr_ClientClOrdID exOrder \<and> textAt exReport 38 = FormatInt 3" by code_simp
  then have t: "textAt exReport 35 = ''8''" "textAt exReport 39 \<noteq> []" "textAt exReport 41 = nr_ClientClOrdID exOrder \<or> textAt exReport 100010 = orderLabel exOrder"
    "textAt exReport 38 = FormatInt 3" by blast+
  moreover have "ContractsForUnits (nr_Quantity exOrder) (nr_Amount exOrder) = Inr (FormatInt 3)" by code_simp
  moreover have "nr_ClientClOrdID exOrder = ''order-1''" "orderLabel exOrder = ''order-1''" "nr_Amount exOrder = ''30''"
    by (simp_all add: exOrder_def orderLabel_def)
  ultimately show ?thesis using order_report_roundtrip [OF exOrder_ok(2) t] by simp
qed

end
