(* ===== verification/AccountState.thy ===== *)
theory AccountState
  imports GoBig Domain "HOL-Library.List_Lexorder" "HOL-Library.Char_ord"
begin

text \<open>
  The account manager (\<open>internal/accountstate/account.go\<close>, \<open>valuation.go\<close>, \<open>adapters.go\<close>): account snapshots of the venues,
  their local valuation, the health of the connections and single-flight refreshes. Readings of the clock and answers of the
  venues are arguments; \<open>am_events\<close> lists the calls of \<open>OnEvent\<close>. Counters are natural numbers, the revision wraps as a
  \<open>uint64\<close>. A refresh runs outside the locks: entering, committing and leaving it are separate operations that others may
  interleave with.
\<close>

section \<open>Data\<close>

record Asset =
  as_Asset :: string
  as_Balance :: string
  as_Equity :: string
  as_Locked :: string
  as_Liability :: string
  as_AvailableToTrade :: string
  as_AvailableToTradeAsOf :: time
  as_AvailableStatus :: string
  as_ValuationQuantity :: string
  as_QuantityBasis :: string
  as_ExchangeReportedUSDValue :: string
  as_USDValue :: string
  as_PriceSource :: string
  as_PriceAsOf :: time
  as_Quality :: string

record AccountSnapshot =
  an_Venue :: venue
  an_Environment :: string
  an_AccountAlias :: string
  an_AccountType :: string
  an_Revision :: int
  an_SnapshotAsOf :: time
  an_ExchangeReportedTotalUSD :: string
  an_ExchangeReportedAsOf :: time
  an_LocalMarkedTotalUSD :: string
  an_PricedSubtotalUSD :: string
  an_ValuationBasis :: string
  an_Completeness :: string
  an_UnpricedAssets :: "string list"
  an_LiabilityStatus :: string
  an_HasDerivativePositions :: "bool option"
  an_DerivativePositionEvidence :: string
  an_Assets :: "Asset list"

record VenueHealth =
  vh_OrderRequestRTT :: duration
  vh_FirstOrderEventLatency :: duration
  vh_FirstExecutionEventLatency :: duration
  vh_HasFirstOrderEvent :: bool
  vh_HasFirstExecutionEvent :: bool
  vh_OrderRequestErrors :: nat
  vh_RateLimitState :: string
  vh_ReconciliationStatus :: string
  vh_LastPublicReceiveAt :: time
  vh_LastPrivateReceiveAt :: time
  vh_LastPublicEventAt :: time
  vh_LastPrivateEventAt :: time
  vh_Venue :: venue
  vh_REST :: string
  vh_PublicWS :: string
  vh_PrivateWS :: string
  vh_AccountSync :: string
  vh_LastRESTAt :: time
  vh_LastEventAt :: time
  vh_MarketEventAt :: time
  vh_Reconnects :: nat
  vh_PublicReconnects :: nat
  vh_PrivateReconnects :: nat
  vh_LastReconcileAt :: time
  vh_RequestErrors :: nat
  vh_Discrepancies :: nat
  vh_LastRequestRTT :: duration
  vh_LastPublicError :: string

record USDPrice =
  up_Asset :: string
  up_Value :: string
  up_Source :: string
  up_ObservedAt :: time
  up_ReceivedAt :: time

record OrderTiming =
  ot_AckAt :: time
  ot_OrderObserved :: bool
  ot_ExecObserved :: bool

record PendingOrderTiming =
  pt_OrderAt :: time
  pt_ExecAt :: time

datatype RefreshCall = CallRunning | CallDone "goerror option"

text \<open>Timings and refresh calls are shared by pointers: the maps hold indexes into the stores at the end of the record.\<close>

record Manager =
  am_pendingOrderEvents :: "(venue, (string, nat) gomap) gomap"
  am_orderTimings :: "(venue, (string, nat) gomap) gomap"
  am_prices :: "(string, USDPrice) gomap"
  am_valuationMaxAge :: duration
  am_providers :: "venue list"
  am_snapshots :: "(venue, AccountSnapshot) gomap"
  am_health :: "(venue, VenueHealth) gomap"
  am_revision :: int
  am_refreshes :: "(venue, nat) gomap"
  am_interval :: duration
  am_staleAge :: duration
  am_events :: "(string \<times> venue \<times> time) list"
  am_timings :: "OrderTiming list"
  am_pendings :: "PendingOrderTiming list"
  am_calls :: "RefreshCall list"

definition emit :: "string \<Rightarrow> venue \<Rightarrow> time \<Rightarrow> Manager \<Rightarrow> Manager" where
  "emit kind venue when m = m\<lparr>am_events := am_events m @ [(kind, venue, when)]\<rparr>"

section \<open>A new manager\<close>

definition newHealth :: "venue \<Rightarrow> VenueHealth" where
  "newHealth v =
     \<lparr>vh_OrderRequestRTT = 0, vh_FirstOrderEventLatency = 0, vh_FirstExecutionEventLatency = 0, vh_HasFirstOrderEvent = False,
      vh_HasFirstExecutionEvent = False, vh_OrderRequestErrors = 0, vh_RateLimitState = ''UNKNOWN'', vh_ReconciliationStatus = ''IDLE'',
      vh_LastPublicReceiveAt = 0, vh_LastPrivateReceiveAt = 0, vh_LastPublicEventAt = 0, vh_LastPrivateEventAt = 0, vh_Venue = v,
      vh_REST = ''UNAVAILABLE'', vh_PublicWS = ''UNAVAILABLE'', vh_PrivateWS = ''UNAVAILABLE'', vh_AccountSync = ''SYNCING'',
      vh_LastRESTAt = 0, vh_LastEventAt = 0, vh_MarketEventAt = 0, vh_Reconnects = 0, vh_PublicReconnects = 0, vh_PrivateReconnects = 0,
      vh_LastReconcileAt = 0, vh_RequestErrors = 0, vh_Discrepancies = 0, vh_LastRequestRTT = 0, vh_LastPublicError = []\<rparr>"

definition emptyManager :: "duration \<Rightarrow> duration \<Rightarrow> Manager" where
  "emptyManager interval staleAge =
     \<lparr>am_pendingOrderEvents = [], am_orderTimings = [], am_prices = [], am_valuationMaxAge = 15 * Second, am_providers = [],
      am_snapshots = [], am_health = [], am_revision = 0, am_refreshes = [], am_interval = interval, am_staleAge = staleAge,
      am_events = [], am_timings = [], am_pendings = [], am_calls = []\<rparr>"

text \<open>Providers by their venue, \<open>None\<close> for a nil provider.\<close>

fun addProviders :: "venue option list \<Rightarrow> Manager \<Rightarrow> Manager result" where
  "addProviders [] m = Inr m"
| "addProviders (None # ps) m = Inl (EText ''account provider has an invalid venue'')"
| "addProviders (Some v # ps) m =
     (if v \<noteq> VenueBybit \<and> v \<noteq> VenueDeribit then Inl (EText ''account provider has an invalid venue'')
      else if v \<in> set (am_providers m) then Inl (EText ''duplicate account provider'')
      else addProviders ps
        (m\<lparr>am_providers := am_providers m @ [v], am_health := gput v (newHealth v) (am_health m),
           am_orderTimings := gput v [] (am_orderTimings m), am_pendingOrderEvents := gput v [] (am_pendingOrderEvents m)\<rparr>))"

definition NewManager :: "venue option list \<Rightarrow> duration \<Rightarrow> duration \<Rightarrow> Manager result" where
  "NewManager providers interval staleAge =
     (if interval \<le> 0 \<or> staleAge \<le> 0 then Inl (EText ''account refresh and stale durations must be positive'')
      else addProviders providers (emptyManager interval staleAge))"

section \<open>Numbers (adapters.go)\<close>

definition accountRat :: "string \<Rightarrow> rat option" where
  "accountRat v = SetString (TrimSpace v)"

definition nonNegativeRat :: "string \<Rightarrow> rat option" where
  "nonNegativeRat v = (case accountRat v of Some r \<Rightarrow> (if r \<ge> 0 then Some r else None) | None \<Rightarrow> None)"

definition validNonNegative :: "string \<Rightarrow> bool" where
  "validNonNegative v \<longleftrightarrow> (case accountRat v of Some r \<Rightarrow> r \<ge> 0 | None \<Rightarrow> False)"

definition minimumRat :: "rat \<Rightarrow> rat \<Rightarrow> rat" where
  "minimumRat l r = (if l \<le> r then l else r)"

section \<open>Valuation (valuation.go)\<close>

definition clearLocalValuation :: "Asset \<Rightarrow> Asset" where
  "clearLocalValuation a = a\<lparr>as_USDValue := [], as_PriceSource := [], as_PriceAsOf := 0, as_Quality := ''unpriced''\<rparr>"

text \<open>The price an asset is marked with: received within the maximum age, and positive.\<close>

definition usablePrice :: "(string, USDPrice) gomap \<Rightarrow> duration \<Rightarrow> time \<Rightarrow> string \<Rightarrow> (USDPrice \<times> rat) option" where
  "usablePrice prices maxAge now asset =
     (case gget prices (ToUpper asset) of
        None \<Rightarrow> None
      | Some p \<Rightarrow>
          (if IsZero (up_ReceivedAt p) \<or> Sub now (up_ReceivedAt p) > maxAge then None
           else
             (case accountRat (up_Value p) of
                None \<Rightarrow> None
              | Some v \<Rightarrow> (if v \<le> 0 then None else Some (p, v)))))"

text \<open>One asset: its new fields, and what it is worth if it can be priced.\<close>

definition markAsset :: "(string, USDPrice) gomap \<Rightarrow> duration \<Rightarrow> time \<Rightarrow> time \<Rightarrow> Asset \<Rightarrow> Asset \<times> rat option" where
  "markAsset prices maxAge now asOf a =
     (case nonNegativeRat (as_ValuationQuantity a) of
        None \<Rightarrow> (clearLocalValuation a, None)
      | Some q \<Rightarrow>
          (if q = 0
           then (a\<lparr>as_USDValue := ''0'', as_PriceSource := ''zero valuation quantity'', as_PriceAsOf := asOf, as_Quality := ''fresh''\<rparr>, Some 0)
           else
             (case usablePrice prices maxAge now (as_Asset a) of
                None \<Rightarrow> (clearLocalValuation a, None)
              | Some (p, v) \<Rightarrow>
                  (a\<lparr>as_USDValue := decimalString (q * v), as_PriceSource := up_Source p, as_PriceAsOf := up_ObservedAt p,
                     as_Quality := ''fresh''\<rparr>, Some (q * v)))))"

fun valuationLoop :: "(Asset \<Rightarrow> Asset \<times> rat option) \<Rightarrow> Asset list \<Rightarrow> Asset list \<times> rat \<times> bool \<times> bool \<times> string list \<Rightarrow> Asset list \<times> rat \<times> bool \<times> bool \<times> string list" where
  "valuationLoop mark [] acc = acc"
| "valuationLoop mark (a # as) (marked, subtotal, priced, whole, unpriced) =
     (case mark a of
        (a', None) \<Rightarrow> valuationLoop mark as (marked @ [a'], subtotal, priced, False, unpriced @ [as_Asset a])
      | (a', Some v) \<Rightarrow> valuationLoop mark as (marked @ [a'], subtotal + v, True, whole, unpriced))"

definition valuationOf :: "Asset \<Rightarrow> string \<times> string \<times> time \<times> string" where
  "valuationOf a = (as_USDValue a, as_PriceSource a, as_PriceAsOf a, as_Quality a)"

definition snapshotValuation :: "AccountSnapshot \<Rightarrow> string \<times> string \<times> string \<times> string \<times> string list \<times> (string \<times> string \<times> time \<times> string) list" where
  "snapshotValuation s = (an_LocalMarkedTotalUSD s, an_PricedSubtotalUSD s, an_ValuationBasis s, an_Completeness s, an_UnpricedAssets s,
     map valuationOf (an_Assets s))"

definition applyValuationLocked :: "Manager \<Rightarrow> time \<Rightarrow> AccountSnapshot \<Rightarrow> bool \<times> AccountSnapshot" where
  "applyValuationLocked m now s =
     (case valuationLoop (markAsset (am_prices m) (am_valuationMaxAge m) now (an_SnapshotAsOf s)) (an_Assets s)
             ([], 0, False, an_Assets s \<noteq> [], []) of
        (assets, subtotal, priced, whole, unpriced) \<Rightarrow>
          (let s' = s\<lparr>an_Assets := assets, an_UnpricedAssets := unpriced,
                 an_LocalMarkedTotalUSD := (if whole then decimalString subtotal else []),
                 an_PricedSubtotalUSD := (if whole \<or> priced then decimalString subtotal else []),
                 an_ValuationBasis := ''public USD mark prices'',
                 an_Completeness := (if whole then ''complete'' else if priced then ''partial'' else ''unpriced'')\<rparr> in
           (snapshotValuation s \<noteq> snapshotValuation s', s')))"

definition nextRevision :: "int \<Rightarrow> int" where
  "nextRevision r = (r + 1) mod 2 ^ 64"

text \<open>Revaluing every cached account, in the order of the map.\<close>

fun revalueSnapshots :: "time \<Rightarrow> (venue \<times> AccountSnapshot) list \<Rightarrow> Manager \<times> venue list \<Rightarrow> Manager \<times> venue list" where
  "revalueSnapshots now [] acc = acc"
| "revalueSnapshots now ((v, s) # rest) (m, changed) =
     (case applyValuationLocked m now s of
        (False, _) \<Rightarrow> revalueSnapshots now rest (m, changed)
      | (True, s') \<Rightarrow>
          (let r = nextRevision (am_revision m) in
           revalueSnapshots now rest
             (m\<lparr>am_revision := r, am_snapshots := gput v (s'\<lparr>an_Revision := r\<rparr>) (am_snapshots m)\<rparr>, changed @ [v])))"

definition revalueLocked :: "time \<Rightarrow> Manager \<Rightarrow> Manager \<times> venue list" where
  "revalueLocked now m = (case revalueSnapshots now (am_snapshots m) (m, []) of (m', changed) \<Rightarrow> (m', sort changed))"

definition publishValuationEvents :: "venue list \<Rightarrow> time \<Rightarrow> Manager \<Rightarrow> Manager" where
  "publishValuationEvents venues when m = foldl (\<lambda>m v. emit ''valuation.updated'' v when m) m venues"

definition SetValuationMaxAge :: "duration \<Rightarrow> Manager \<Rightarrow> goerror option \<times> Manager" where
  "SetValuationMaxAge maxAge m =
     (if maxAge \<le> 0 then (Some (EText ''valuation maximum age must be positive''), m)
      else (None, m\<lparr>am_valuationMaxAge := maxAge\<rparr>))"

definition normalizePrice :: "time \<Rightarrow> USDPrice \<Rightarrow> USDPrice option" where
  "normalizePrice now u =
     (let asset = ToUpper (TrimSpace (up_Asset u)); v = TrimSpace (up_Value u); source = TrimSpace (up_Source u);
          received = (if IsZero (up_ReceivedAt u) then now else up_ReceivedAt u);
          observed = (if IsZero (up_ObservedAt u) then received else up_ObservedAt u) in
      case accountRat v of
        None \<Rightarrow> None
      | Some r \<Rightarrow>
          (if asset = [] \<or> source = [] \<or> r \<le> 0 then None
           else Some \<lparr>up_Asset = asset, up_Value = v, up_Source = source, up_ObservedAt = observed, up_ReceivedAt = received\<rparr>))"

fun normalizePrices :: "time \<Rightarrow> USDPrice list \<Rightarrow> USDPrice list option" where
  "normalizePrices now [] = Some []"
| "normalizePrices now (u # us) =
     (case normalizePrice now u of
        None \<Rightarrow> None
      | Some p \<Rightarrow> map_option ((#) p) (normalizePrices now us))"

definition installPrice :: "(string, USDPrice) gomap \<Rightarrow> USDPrice \<Rightarrow> (string, USDPrice) gomap" where
  "installPrice prices u =
     (case gget prices (up_Asset u) of
        Some current \<Rightarrow> (if After (up_ReceivedAt current) (up_ReceivedAt u) then prices else gput (up_Asset u) u prices)
      | None \<Rightarrow> gput (up_Asset u) u prices)"

definition Revalue :: "time \<Rightarrow> time \<Rightarrow> Manager \<Rightarrow> Manager" where
  "Revalue clock when m =
     (let now = (if IsZero when then clock else when) in
      case revalueLocked now m of (m', changed) \<Rightarrow> publishValuationEvents changed now m')"

definition UpdateUSDPrices :: "time \<Rightarrow> USDPrice list \<Rightarrow> time \<Rightarrow> Manager \<Rightarrow> goerror option \<times> Manager" where
  "UpdateUSDPrices clock updates when m =
     (let now = (if IsZero when then clock else when) in
      if updates = [] then (None, m)
      else
        (case normalizePrices now updates of
           None \<Rightarrow> (Some (EText ''USD price update is invalid''), m)
         | Some us \<Rightarrow>
             (case revalueLocked now (m\<lparr>am_prices := foldl installPrice (am_prices m) us\<rparr>) of
                (m', changed) \<Rightarrow> (None, publishValuationEvents changed now m'))))"

section \<open>Refreshing (account.go)\<close>

definition normalizeSnapshot :: "venue \<Rightarrow> int \<Rightarrow> time \<Rightarrow> AccountSnapshot \<Rightarrow> AccountSnapshot" where
  "normalizeSnapshot venue revision finished s =
     s\<lparr>an_Revision := revision, an_Venue := venue, an_Environment := ''testnet'',
       an_AccountType := (if TrimSpace (an_AccountType s) = [] then ''unknown'' else an_AccountType s),
       an_LiabilityStatus := (if an_LiabilityStatus s \<in> {''none'', ''present'', ''unknown''} then an_LiabilityStatus s else ''unknown''),
       an_DerivativePositionEvidence :=
         (if an_HasDerivativePositions s = None \<and> TrimSpace (an_DerivativePositionEvidence s) = []
          then ''account source does not report derivative-position coverage'' else an_DerivativePositionEvidence s),
       an_SnapshotAsOf := (if IsZero (an_SnapshotAsOf s) then finished else an_SnapshotAsOf s),
       an_Assets := sort_key as_Asset (an_Assets s)\<rparr>"

definition zeroHealth :: VenueHealth where
  "zeroHealth = (newHealth [])\<lparr>vh_RateLimitState := [], vh_ReconciliationStatus := [], vh_REST := [], vh_PublicWS := [], vh_PrivateWS := [],
     vh_AccountSync := []\<rparr>"

definition healthOf :: "venue \<Rightarrow> Manager \<Rightarrow> VenueHealth" where
  "healthOf venue m = (case gget (am_health m) venue of None \<Rightarrow> zeroHealth | Some h \<Rightarrow> h)"

definition refreshFailed :: "venue \<Rightarrow> duration \<Rightarrow> time \<Rightarrow> Manager \<Rightarrow> Manager" where
  "refreshFailed venue rtt finished m =
     (let h = healthOf venue m;
          sync = (case gget (am_snapshots m) venue of
                    Some s \<Rightarrow> (if Sub finished (an_SnapshotAsOf s) > am_staleAge m then ''STALE'' else vh_AccountSync h)
                  | None \<Rightarrow> ''ERROR'') in
      emit ''venue.health.updated'' venue finished
        (m\<lparr>am_health := gput venue (h\<lparr>vh_LastRequestRTT := rtt, vh_REST := ''ERROR'', vh_RequestErrors := vh_RequestErrors h + 1,
              vh_LastPublicError := ''Account refresh failed.'', vh_AccountSync := sync\<rparr>) (am_health m)\<rparr>))"

definition refreshSucceeded :: "venue \<Rightarrow> duration \<Rightarrow> time \<Rightarrow> AccountSnapshot \<Rightarrow> Manager \<Rightarrow> Manager" where
  "refreshSucceeded venue rtt finished snapshot m =
     (let h = healthOf venue m;
          r = nextRevision (am_revision m);
          s = snd (applyValuationLocked m finished (normalizeSnapshot venue r finished snapshot)) in
      emit ''venue.health.updated'' venue finished
       (emit ''account.updated'' venue finished
        (m\<lparr>am_revision := r, am_snapshots := gput venue s (am_snapshots m),
           am_health := gput venue (h\<lparr>vh_LastRequestRTT := rtt, vh_REST := ''LIVE'', vh_AccountSync := ''SYNCED'', vh_LastRESTAt := finished,
              vh_LastReconcileAt := finished, vh_LastPublicError := []\<rparr>) (am_health m)\<rparr>)))"

record RefreshEnv =
  rf_Answer :: "AccountSnapshot result"
  rf_RTT :: duration
  rf_Finished :: time

definition refresh :: "RefreshEnv \<Rightarrow> venue \<Rightarrow> Manager \<Rightarrow> goerror option \<times> Manager" where
  "refresh env venue m =
     (if venue \<notin> set (am_providers m) then (Some (EText ''account venue is unavailable''), m)
      else
        (case rf_Answer env of
           Inl e \<Rightarrow> (Some e, refreshFailed venue (rf_RTT env) (rf_Finished env) m)
         | Inr s \<Rightarrow> (None, refreshSucceeded venue (rf_RTT env) (rf_Finished env) s m)))"

text \<open>
  Single flight. A caller leads the refresh of a venue, or joins the call another caller leads and returns its
  error once the call is done (or the caller's own context error before that).
\<close>

datatype RefreshRole = Leads nat | Joins nat

definition refreshEnter :: "venue \<Rightarrow> Manager \<Rightarrow> RefreshRole \<times> Manager" where
  "refreshEnter venue m =
     (case gget (am_refreshes m) venue of
        Some call \<Rightarrow> (Joins call, m)
      | None \<Rightarrow>
          (let call = length (am_calls m) in
           (Leads call, m\<lparr>am_calls := am_calls m @ [CallRunning], am_refreshes := gput venue call (am_refreshes m)\<rparr>)))"

definition refreshLeave :: "venue \<Rightarrow> nat \<Rightarrow> goerror option \<Rightarrow> Manager \<Rightarrow> Manager" where
  "refreshLeave venue call err m = m\<lparr>am_refreshes := gdel venue (am_refreshes m), am_calls := (am_calls m)[call := CallDone err]\<rparr>"

definition joinResult :: "nat \<Rightarrow> goerror \<Rightarrow> Manager \<Rightarrow> goerror option" where
  "joinResult call ctxErr m = (case am_calls m ! call of CallDone err \<Rightarrow> err | CallRunning \<Rightarrow> Some ctxErr)"

text \<open>A refresh that nothing interleaves with; a caller that joins is given the error of its own context.\<close>

definition Refresh :: "goerror \<Rightarrow> RefreshEnv \<Rightarrow> venue \<Rightarrow> Manager \<Rightarrow> goerror option \<times> Manager" where
  "Refresh ctxErr env venue m =
     (case refreshEnter venue m of
        (Joins call, m1) \<Rightarrow> (joinResult call ctxErr m1, m1)
      | (Leads call, m1) \<Rightarrow> (case refresh env venue m1 of (err, m2) \<Rightarrow> (err, refreshLeave venue call err m2)))"

definition RefreshAll :: "goerror \<Rightarrow> (venue \<Rightarrow> RefreshEnv) \<Rightarrow> Manager \<Rightarrow> Manager" where
  "RefreshAll ctxErr env m = foldl (\<lambda>m v. snd (Refresh ctxErr (env v) v m)) m (am_providers m)"

definition runManager :: "goerror \<Rightarrow> (venue \<Rightarrow> RefreshEnv) list \<Rightarrow> Manager \<Rightarrow> Manager" where
  "runManager ctxErr ticks m = foldl (\<lambda>m env. RefreshAll ctxErr env m) m ticks"

section \<open>Reading\<close>

definition Manager_Snapshot :: "time \<Rightarrow> venue \<Rightarrow> Manager \<Rightarrow> AccountSnapshot option" where
  "Manager_Snapshot now venue m =
     (case gget (am_snapshots m) venue of
        None \<Rightarrow> None
      | Some s \<Rightarrow>
          Some (if Sub now (an_SnapshotAsOf s) > am_staleAge m
                then s\<lparr>an_Assets := map (\<lambda>a. a\<lparr>as_Quality := ''stale''\<rparr>) (an_Assets s)\<rparr> else s))"

definition spendable :: "string \<Rightarrow> Asset \<Rightarrow> bool" where
  "spendable asset a \<longleftrightarrow> as_Asset a = asset \<and> (as_AvailableStatus a = ''verified'' \<or> as_AvailableStatus a = ''derived'') \<and> as_AvailableToTrade a \<noteq> []"

text \<open>The two readings of the clock are the arguments \<open>now\<close> and \<open>later\<close>.\<close>

definition Capacity :: "time \<Rightarrow> time \<Rightarrow> venue \<Rightarrow> string \<Rightarrow> Manager \<Rightarrow> string \<times> int \<times> time \<times> bool" where
  "Capacity now later venue asset m =
     (case Manager_Snapshot now venue m of
        None \<Rightarrow> ([], 0, 0, False)
      | Some s \<Rightarrow>
          (if Sub later (an_SnapshotAsOf s) > am_staleAge m then ([], 0, 0, False)
           else
             (case find (spendable asset) (an_Assets s) of
                Some a \<Rightarrow> (as_AvailableToTrade a, an_Revision s, as_AvailableToTradeAsOf a, True)
              | None \<Rightarrow> ([], an_Revision s, an_SnapshotAsOf s, False))))"

definition Health :: "time \<Rightarrow> Manager \<Rightarrow> VenueHealth list" where
  "Health now m =
     sort_key vh_Venue (map (\<lambda>(v, h).
       case gget (am_snapshots m) v of
         Some s \<Rightarrow> (if Sub now (an_SnapshotAsOf s) > am_staleAge m then h\<lparr>vh_AccountSync := ''STALE''\<rparr> else h)
       | None \<Rightarrow> h) (am_health m))"

section \<open>Stream updates\<close>

definition laterOf :: "time \<Rightarrow> time \<Rightarrow> time" where
  "laterOf when current = (if \<not> IsZero when \<and> (IsZero current \<or> After when current) then when else current)"

definition publicHealth :: "string \<Rightarrow> time \<Rightarrow> nat \<Rightarrow> VenueHealth \<Rightarrow> VenueHealth" where
  "publicHealth state when reconnects h =
     h\<lparr>vh_PublicWS := state, vh_PublicReconnects := reconnects, vh_Reconnects := reconnects + vh_PrivateReconnects h,
       vh_LastPublicEventAt := laterOf when (vh_LastPublicEventAt h), vh_LastEventAt := laterOf when (vh_LastEventAt h),
       vh_MarketEventAt := laterOf when (vh_MarketEventAt h)\<rparr>"

definition UpdatePublicWS :: "time \<Rightarrow> venue \<Rightarrow> string \<Rightarrow> time \<Rightarrow> nat \<Rightarrow> Manager \<Rightarrow> Manager" where
  "UpdatePublicWS now venue state when reconnects m =
     (case gget (am_health m) venue of
        None \<Rightarrow> m
      | Some h \<Rightarrow>
          (let m' = m\<lparr>am_health := gput venue (publicHealth state when reconnects h) (am_health m)\<rparr> in
           if vh_PublicWS h \<noteq> state \<or> vh_PublicReconnects h \<noteq> reconnects then emit ''venue.health.updated'' venue now m' else m'))"

definition privateHealth :: "string \<Rightarrow> time \<Rightarrow> nat \<Rightarrow> VenueHealth \<Rightarrow> VenueHealth" where
  "privateHealth state when reconnects h =
     h\<lparr>vh_PrivateWS := state, vh_PrivateReconnects := reconnects, vh_Reconnects := vh_PublicReconnects h + reconnects,
       vh_LastEventAt := laterOf when (vh_LastEventAt h), vh_LastPrivateEventAt := laterOf when (vh_LastPrivateEventAt h)\<rparr>"

definition UpdatePrivateWS :: "time \<Rightarrow> venue \<Rightarrow> string \<Rightarrow> time \<Rightarrow> nat \<Rightarrow> Manager \<Rightarrow> Manager" where
  "UpdatePrivateWS now venue state when reconnects m =
     (case gget (am_health m) venue of
        None \<Rightarrow> m
      | Some h \<Rightarrow>
          (let m' = m\<lparr>am_health := gput venue (privateHealth state when reconnects h) (am_health m)\<rparr> in
           if vh_PrivateWS h \<noteq> state \<or> vh_PrivateReconnects h \<noteq> reconnects then emit ''venue.health.updated'' venue now m' else m'))"

definition UpdateWSReceiveTimes :: "venue \<Rightarrow> time \<Rightarrow> time \<Rightarrow> Manager \<Rightarrow> Manager" where
  "UpdateWSReceiveTimes venue publicAt privateAt m =
     (case gget (am_health m) venue of
        None \<Rightarrow> m
      | Some h \<Rightarrow>
          m\<lparr>am_health := gput venue (h\<lparr>vh_LastPublicReceiveAt := laterOf publicAt (vh_LastPublicReceiveAt h),
               vh_LastPrivateReceiveAt := laterOf privateAt (vh_LastPrivateReceiveAt h)\<rparr>) (am_health m)\<rparr>)"

section \<open>Providers (adapters.go)\<close>

record CoinBalance =
  cb_Coin :: string
  cb_Equity :: string
  cb_USDValue :: string
  cb_WalletBalance :: string
  cb_Free :: string
  cb_Locked :: string
  cb_BorrowAmount :: string

record WalletAccount =
  wa_AccountType :: string
  wa_TotalEquity :: string
  wa_Coin :: "CoinBalance list"

record AccountSummary =
  sm_Currency :: string
  sm_Balance :: string
  sm_Equity :: string
  sm_AvailableFunds :: string
  sm_InitialMargin :: string

definition bybitAvailable :: "CoinBalance \<Rightarrow> string \<times> string" where
  "bybitAvailable c =
     (if validNonNegative (cb_Free c) then (cb_Free c, ''verified'')
      else
        (case (nonNegativeRat (cb_WalletBalance c), nonNegativeRat (cb_Locked c), nonNegativeRat (cb_BorrowAmount c)) of
           (Some wallet, Some locked, Some borrow) \<Rightarrow>
             (decimalString (let available = wallet - locked - borrow in if available < 0 then 0 else available), ''derived'')
         | _ \<Rightarrow> ([], ''unknown'')))"

definition bybitAsset :: "time \<Rightarrow> CoinBalance \<Rightarrow> Asset" where
  "bybitAsset now c =
     \<lparr>as_Asset = ToUpper (TrimSpace (cb_Coin c)), as_Balance = cb_WalletBalance c, as_Equity = cb_Equity c, as_Locked = cb_Locked c,
      as_Liability = cb_BorrowAmount c, as_AvailableToTrade = fst (bybitAvailable c), as_AvailableToTradeAsOf = now,
      as_AvailableStatus = snd (bybitAvailable c), as_ValuationQuantity = cb_WalletBalance c, as_QuantityBasis = ''wallet balance'',
      as_ExchangeReportedUSDValue = cb_USDValue c, as_USDValue = cb_USDValue c, as_PriceSource = ''Bybit wallet snapshot'',
      as_PriceAsOf = now, as_Quality = (if cb_USDValue c = [] then ''unpriced'' else ''snapshot'')\<rparr>"

fun addCoins :: "time \<Rightarrow> CoinBalance list \<Rightarrow> AccountSnapshot \<Rightarrow> AccountSnapshot" where
  "addCoins now [] s = s"
| "addCoins now (c # cs) s =
     (if ToUpper (TrimSpace (cb_Coin c)) = [] then addCoins now cs s
      else addCoins now cs
        (s\<lparr>an_UnpricedAssets := an_UnpricedAssets s @ (if cb_USDValue c = [] then [ToUpper (TrimSpace (cb_Coin c))] else []),
           an_Assets := an_Assets s @ [bybitAsset now c],
           an_LiabilityStatus :=
             (case nonNegativeRat (cb_BorrowAmount c) of
                None \<Rightarrow> ''unknown''
              | Some l \<Rightarrow> (if l > 0 \<and> an_LiabilityStatus s \<noteq> ''unknown'' then ''present'' else an_LiabilityStatus s))\<rparr>))"

definition bybitBase :: "string \<Rightarrow> time \<Rightarrow> WalletAccount \<Rightarrow> AccountSnapshot" where
  "bybitBase accountAlias now account =
     \<lparr>an_Venue = VenueBybit, an_Environment = ''testnet'', an_AccountAlias = accountAlias, an_AccountType = wa_AccountType account,
      an_Revision = 0, an_SnapshotAsOf = now, an_ExchangeReportedTotalUSD = wa_TotalEquity account, an_ExchangeReportedAsOf = now,
      an_LocalMarkedTotalUSD = [], an_PricedSubtotalUSD = [], an_ValuationBasis = ''exchange-reported USD value'',
      an_Completeness = ''exchange-reported'', an_UnpricedAssets = [], an_LiabilityStatus = ''none'', an_HasDerivativePositions = None,
      an_DerivativePositionEvidence = ''wallet snapshot does not prove derivative-position absence'', an_Assets = []\<rparr>"

text \<open>The client's answer, \<open>None\<close> when there is no client.\<close>

definition BybitProvider_Snapshot :: "string \<Rightarrow> time \<Rightarrow> WalletAccount list result option \<Rightarrow> AccountSnapshot result" where
  "BybitProvider_Snapshot accountAlias now client =
     (case client of
        None \<Rightarrow> Inl (EText ''Bybit account client is unavailable'')
      | Some answer \<Rightarrow>
          rbind answer (\<lambda>accounts.
            (case accounts of
               [account] \<Rightarrow>
                 (if wa_AccountType account \<noteq> ''UNIFIED'' then Inl (EText ''Bybit UNIFIED account snapshot is unavailable'')
                  else Inr (addCoins now (wa_Coin account) (bybitBase accountAlias now account)))
             | _ \<Rightarrow> Inl (EText ''Bybit UNIFIED account snapshot is unavailable''))))"

definition deribitAvailable :: "AccountSummary \<Rightarrow> string \<times> string" where
  "deribitAvailable y =
     (case (nonNegativeRat (sm_Balance y), nonNegativeRat (sm_AvailableFunds y)) of
        (Some balance, Some funds) \<Rightarrow> (decimalString (minimumRat balance funds), ''derived'')
      | _ \<Rightarrow> ([], ''unknown''))"

definition deribitAsset :: "time \<Rightarrow> AccountSummary \<Rightarrow> Asset" where
  "deribitAsset now y =
     \<lparr>as_Asset = ToUpper (TrimSpace (sm_Currency y)), as_Balance = sm_Balance y, as_Equity = sm_Equity y, as_Locked = sm_InitialMargin y,
      as_Liability = [], as_AvailableToTrade = fst (deribitAvailable y), as_AvailableToTradeAsOf = now,
      as_AvailableStatus = snd (deribitAvailable y), as_ValuationQuantity = sm_Equity y, as_QuantityBasis = ''account equity'',
      as_ExchangeReportedUSDValue = [], as_USDValue = [], as_PriceSource = [], as_PriceAsOf = 0, as_Quality = ''unpriced''\<rparr>"

fun addSummaries :: "time \<Rightarrow> AccountSummary list \<Rightarrow> AccountSnapshot \<Rightarrow> AccountSnapshot" where
  "addSummaries now [] s = s"
| "addSummaries now (y # ys) s =
     (if ToUpper (TrimSpace (sm_Currency y)) = [] then addSummaries now ys s
      else addSummaries now ys
        (s\<lparr>an_Assets := an_Assets s @ [deribitAsset now y],
           an_UnpricedAssets := an_UnpricedAssets s @ [ToUpper (TrimSpace (sm_Currency y))]\<rparr>))"

definition deribitBase :: "string \<Rightarrow> time \<Rightarrow> AccountSnapshot" where
  "deribitBase accountAlias now =
     \<lparr>an_Venue = VenueDeribit, an_Environment = ''testnet'', an_AccountAlias = accountAlias, an_AccountType = ''account summaries'',
      an_Revision = 0, an_SnapshotAsOf = now, an_ExchangeReportedTotalUSD = [], an_ExchangeReportedAsOf = 0,
      an_LocalMarkedTotalUSD = [], an_PricedSubtotalUSD = [], an_ValuationBasis = ''unpriced native balances'',
      an_Completeness = ''unpriced'', an_UnpricedAssets = [], an_LiabilityStatus = ''unknown'', an_HasDerivativePositions = None,
      an_DerivativePositionEvidence = ''account summaries do not prove derivative-position absence'', an_Assets = []\<rparr>"

definition DeribitProvider_Snapshot :: "string \<Rightarrow> time \<Rightarrow> AccountSummary list result option \<Rightarrow> AccountSnapshot result" where
  "DeribitProvider_Snapshot accountAlias now client =
     (case client of
        None \<Rightarrow> Inl (EText ''Deribit account client is unavailable'')
      | Some answer \<Rightarrow> rbind answer (\<lambda>summaries. Inr (addSummaries now summaries (deribitBase accountAlias now))))"

end
