(* ===== verification/AccountMetrics.thy ===== *)
theory AccountMetrics
  imports AccountState
begin

text \<open>
  Order latencies and reconciliation status (\<open>internal/accountstate/metrics.go\<close>). An accepted submission has one timing, which the maps reach by
  the client's and by the venue's order identifier; an event that comes before the acknowledgement waits under the same keys. Both are
  objects in a store, and the maps hold their addresses, so that a change through one key is seen through the other.
\<close>

definition timingKey :: "string \<Rightarrow> string \<Rightarrow> string" where
  "timingKey kind v = (if TrimSpace v = [] then [] else kind @ '':'' @ TrimSpace v)"

text \<open>The inner map of a venue, and an entry of it; an absent inner map reads as empty.\<close>

definition innerMap :: "(venue, (string, nat) gomap) gomap \<Rightarrow> venue \<Rightarrow> (string, nat) gomap" where
  "innerMap maps venue = (case gget maps venue of None \<Rightarrow> [] | Some m \<Rightarrow> m)"

text \<open>Lookup under the client's key, then under the venue's.\<close>

definition lookupTiming :: "(string, nat) gomap \<Rightarrow> string \<Rightarrow> string \<Rightarrow> nat option" where
  "lookupTiming entries clientOrderID venueOrderID =
     (case gget entries (timingKey ''client'' clientOrderID) of
        Some a \<Rightarrow> Some a
      | None \<Rightarrow> gget entries (timingKey ''venue'' venueOrderID))"

text \<open>Both keys, where they are not empty, are made to point to one object.\<close>

definition shareTiming :: "string \<Rightarrow> string \<Rightarrow> nat \<Rightarrow> (string, nat) gomap \<Rightarrow> (string, nat) gomap" where
  "shareTiming clientOrderID venueOrderID addr entries =
     (let clientKey = timingKey ''client'' clientOrderID; venueKey = timingKey ''venue'' venueOrderID;
          entries1 = (if clientKey \<noteq> [] then gput clientKey addr entries else entries) in
      if venueKey \<noteq> [] then gput venueKey addr entries1 else entries1)"

definition nonNegativeDuration :: "duration \<Rightarrow> duration" where
  "nonNegativeDuration d = (if d < 0 then 0 else d)"

definition eventKind :: "string \<Rightarrow> string" where
  "eventKind kind = ToLower (TrimSpace kind)"

definition recordPendingEvent :: "string \<Rightarrow> time \<Rightarrow> PendingOrderTiming \<Rightarrow> PendingOrderTiming" where
  "recordPendingEvent kind when p =
     (if eventKind kind = ''order'' then
        (if IsZero (pt_OrderAt p) \<or> Before when (pt_OrderAt p) then p\<lparr>pt_OrderAt := when\<rparr> else p)
      else if eventKind kind = ''execution'' then
        (if IsZero (pt_ExecAt p) \<or> Before when (pt_ExecAt p) then p\<lparr>pt_ExecAt := when\<rparr> else p)
      else p)"

definition pruneOrderTimingsLocked :: "venue \<Rightarrow> time \<Rightarrow> Manager \<Rightarrow> Manager" where
  "pruneOrderTimingsLocked venue before m =
     m\<lparr>am_orderTimings := gput venue (filter (\<lambda>(_, addr). \<not> Before (ot_AckAt (am_timings m ! addr)) before) (innerMap (am_orderTimings m) venue))
          (am_orderTimings m)\<rparr>"

definition pendingLatest :: "PendingOrderTiming \<Rightarrow> time" where
  "pendingLatest p = (if After (pt_ExecAt p) (pt_OrderAt p) then pt_ExecAt p else pt_OrderAt p)"

definition prunePendingOrderEventsLocked :: "venue \<Rightarrow> time \<Rightarrow> Manager \<Rightarrow> Manager" where
  "prunePendingOrderEventsLocked venue before m =
     m\<lparr>am_pendingOrderEvents := gput venue
         (filter (\<lambda>(_, addr). let latest = pendingLatest (am_pendings m ! addr) in \<not> (\<not> IsZero latest \<and> Before latest before))
            (innerMap (am_pendingOrderEvents m) venue))
         (am_pendingOrderEvents m)\<rparr>"

text \<open>What an event seen before the acknowledgement tells about the submission: the timing and the health it updates.\<close>

definition applyPending :: "PendingOrderTiming \<Rightarrow> OrderTiming \<times> VenueHealth \<Rightarrow> OrderTiming \<times> VenueHealth" where
  "applyPending p th =
     (case th of (t, h) \<Rightarrow>
        (let (t1, h1) = (if IsZero (pt_OrderAt p) then (t, h)
               else (t\<lparr>ot_OrderObserved := True\<rparr>, h\<lparr>vh_FirstOrderEventLatency := nonNegativeDuration (Sub (pt_OrderAt p) (ot_AckAt t)),
                       vh_HasFirstOrderEvent := True\<rparr>)) in
         if IsZero (pt_ExecAt p) then (t1, h1)
         else (t1\<lparr>ot_ExecObserved := True\<rparr>, h1\<lparr>vh_FirstExecutionEventLatency := nonNegativeDuration (Sub (pt_ExecAt p) (ot_AckAt t)),
                 vh_HasFirstExecutionEvent := True\<rparr>)))"

definition applyPendingOrderEventsLocked :: "venue \<Rightarrow> string \<Rightarrow> string \<Rightarrow> nat \<Rightarrow> Manager \<Rightarrow> VenueHealth \<Rightarrow> Manager \<times> VenueHealth" where
  "applyPendingOrderEventsLocked venue clientOrderID venueOrderID addr m h =
     (let entries = innerMap (am_pendingOrderEvents m) venue;
          m1 = m\<lparr>am_pendingOrderEvents :=
                 gput venue (gdel (timingKey ''venue'' venueOrderID) (gdel (timingKey ''client'' clientOrderID) entries)) (am_pendingOrderEvents m)\<rparr> in
      case lookupTiming entries clientOrderID venueOrderID of
        None \<Rightarrow> (m1, h)
      | Some p \<Rightarrow>
          (case applyPending (am_pendings m ! p) (am_timings m ! addr, h) of
             (t, h1) \<Rightarrow> (m1\<lparr>am_timings := (am_timings m)[addr := t]\<rparr>, h1)))"

definition submissionHealth :: "duration \<Rightarrow> bool \<Rightarrow> bool \<Rightarrow> VenueHealth \<Rightarrow> VenueHealth" where
  "submissionHealth rtt accepted rateLimited h =
     h\<lparr>vh_OrderRequestRTT := rtt,
       vh_RateLimitState := (if rateLimited then ''LIMITED'' else if accepted then ''OK'' else vh_RateLimitState h),
       vh_OrderRequestErrors := (if accepted then vh_OrderRequestErrors h else vh_OrderRequestErrors h + 1)\<rparr>"

definition RecordOrderSubmission :: "time \<Rightarrow> venue \<Rightarrow> string \<Rightarrow> string \<Rightarrow> time \<Rightarrow> duration \<Rightarrow> bool \<Rightarrow> bool \<Rightarrow> Manager \<Rightarrow> Manager" where
  "RecordOrderSubmission clock venue clientOrderID venueOrderID ack rtt accepted rateLimited m =
     (let ackAt = (if IsZero ack then clock else ack) in
      case gget (am_health m) venue of
        None \<Rightarrow> m
      | Some h \<Rightarrow>
          (let h1 = submissionHealth (nonNegativeDuration rtt) accepted rateLimited h;
               m1 = m\<lparr>am_health := gput venue h1 (am_health m)\<rparr>;
               addr = length (am_timings m);
               m2 = m1\<lparr>am_timings := am_timings m @ [\<lparr>ot_AckAt = ackAt, ot_OrderObserved = False, ot_ExecObserved = False\<rparr>],
                      am_orderTimings := gput venue (shareTiming clientOrderID venueOrderID addr (innerMap (am_orderTimings m) venue)) (am_orderTimings m)\<rparr> in
           emit ''venue.health.updated'' venue ackAt
             (if \<not> accepted then m1
              else
                (case applyPendingOrderEventsLocked venue clientOrderID venueOrderID addr m2 h1 of
                   (m3, h2) \<Rightarrow>
                     pruneOrderTimingsLocked venue (Add ackAt (- Hour)) (m3\<lparr>am_health := gput venue h2 (am_health m3)\<rparr>)))))"

text \<open>An event before its acknowledgement: it is kept under both keys in one object.\<close>

definition keepPendingEvent :: "venue \<Rightarrow> string \<Rightarrow> string \<Rightarrow> string \<Rightarrow> time \<Rightarrow> Manager \<Rightarrow> Manager" where
  "keepPendingEvent venue clientOrderID venueOrderID kind receivedAt m0 =
     (let m = prunePendingOrderEventsLocked venue (Add receivedAt (- (5 * Minute))) m0;
          entries = innerMap (am_pendingOrderEvents m) venue;
          (pendings, addr) = (case lookupTiming entries clientOrderID venueOrderID of
                                Some p \<Rightarrow> (am_pendings m, p)
                              | None \<Rightarrow> (am_pendings m @ [\<lparr>pt_OrderAt = 0, pt_ExecAt = 0\<rparr>], length (am_pendings m))) in
      m\<lparr>am_pendings := pendings[addr := recordPendingEvent kind receivedAt (pendings ! addr)],
        am_pendingOrderEvents := gput venue (shareTiming clientOrderID venueOrderID addr entries) (am_pendingOrderEvents m)\<rparr>)"

text \<open>An event after its acknowledgement: the first of its kind is recorded in the timing and the health.\<close>

definition observeEvent :: "string \<Rightarrow> duration \<Rightarrow> OrderTiming \<Rightarrow> VenueHealth \<Rightarrow> (OrderTiming \<times> VenueHealth) option" where
  "observeEvent kind latency t h =
     (if eventKind kind = ''order'' \<and> \<not> ot_OrderObserved t
      then Some (t\<lparr>ot_OrderObserved := True\<rparr>, h\<lparr>vh_FirstOrderEventLatency := latency, vh_HasFirstOrderEvent := True\<rparr>)
      else if eventKind kind = ''execution'' \<and> \<not> ot_ExecObserved t
      then Some (t\<lparr>ot_ExecObserved := True\<rparr>, h\<lparr>vh_FirstExecutionEventLatency := latency, vh_HasFirstExecutionEvent := True\<rparr>)
      else None)"

definition RecordOrderEvent :: "time \<Rightarrow> venue \<Rightarrow> string \<Rightarrow> string \<Rightarrow> string \<Rightarrow> time \<Rightarrow> Manager \<Rightarrow> Manager" where
  "RecordOrderEvent clock venue clientOrderID venueOrderID kind received m =
     (let receivedAt = (if IsZero received then clock else received) in
      case gget (am_health m) venue of
        None \<Rightarrow> m
      | Some h \<Rightarrow>
          (case lookupTiming (innerMap (am_orderTimings m) venue) clientOrderID venueOrderID of
             None \<Rightarrow> keepPendingEvent venue clientOrderID venueOrderID kind receivedAt m
           | Some addr \<Rightarrow>
               (let t = am_timings m ! addr in
                case observeEvent kind (nonNegativeDuration (Sub receivedAt (ot_AckAt t))) t h of
                  None \<Rightarrow> m\<lparr>am_health := gput venue h (am_health m)\<rparr>
                | Some (t', h') \<Rightarrow>
                    emit ''venue.health.updated'' venue receivedAt
                      (m\<lparr>am_timings := (am_timings m)[addr := t'], am_health := gput venue h' (am_health m)\<rparr>))))"

definition UpdateReconciliation :: "time \<Rightarrow> venue \<Rightarrow> string \<Rightarrow> bool \<Rightarrow> time \<Rightarrow> Manager \<Rightarrow> Manager" where
  "UpdateReconciliation clock venue status discrepancy when m =
     (let st0 = ToUpper (TrimSpace status); st = (if st0 = [] then ''IDLE'' else st0); now = (if IsZero when then clock else when) in
      case gget (am_health m) venue of
        None \<Rightarrow> m
      | Some h \<Rightarrow>
          (let m' = m\<lparr>am_health := gput venue (h\<lparr>vh_ReconciliationStatus := st, vh_LastReconcileAt := now,
                       vh_Discrepancies := (if discrepancy then vh_Discrepancies h + 1 else vh_Discrepancies h)\<rparr>) (am_health m)\<rparr> in
           if vh_ReconciliationStatus h \<noteq> st \<or> discrepancy then emit ''venue.health.updated'' venue now m' else m'))"

end
