(* ===== verification/AccountProps.thy ===== *)
theory AccountProps
  imports AccountMetrics
begin

text \<open>
  Properties of the account manager over every interleaving of refreshes, price updates, stream updates and order
  metrics: totals are exact and only shown when every asset is priced, a capacity comes from the venue's latest answer, at most one refresh of a
  venue runs at a time, and the first event of an order is counted once, whatever identifier reaches it.
\<close>

section \<open>Valuation\<close>

abbreviation worthSum :: "rat option list \<Rightarrow> rat" where
  "worthSum ws \<equiv> sum_list (map (\<lambda>w. case w of None \<Rightarrow> 0 | Some x \<Rightarrow> x) ws)"

lemma valuationLoop_spec:
  "valuationLoop mark as (marked, subtotal, priced, whole, unpriced) =
     (let ws = map (\<lambda>a. snd (mark a)) as in
      (marked @ map (\<lambda>a. fst (mark a)) as, subtotal + worthSum ws, priced \<or> (\<exists>x. Some x \<in> set ws), whole \<and> None \<notin> set ws,
       unpriced @ map as_Asset (filter (\<lambda>a. snd (mark a) = None) as)))"
proof (induction as arbitrary: marked subtotal priced whole unpriced)
  case (Cons a as)
  show ?case by (cases "mark a") (auto simp: Cons.IH Let_def split: option.splits)
qed simp

text \<open>A valued snapshot: what each asset is worth, if it is priced, and the totals made of it.\<close>

definition valued :: "AccountSnapshot \<Rightarrow> rat option list \<Rightarrow> bool" where
  "valued s ws \<longleftrightarrow>
     map as_USDValue (an_Assets s) = map (\<lambda>w. case w of None \<Rightarrow> [] | Some x \<Rightarrow> decimalString x) ws \<and>
     an_UnpricedAssets s = map (\<lambda>(a, w). as_Asset a) (filter (\<lambda>(a, w). w = None) (zip (an_Assets s) ws)) \<and>
     an_LocalMarkedTotalUSD s = (if ws \<noteq> [] \<and> None \<notin> set ws then decimalString (worthSum ws) else []) \<and>
     an_PricedSubtotalUSD s = (if \<exists>x. Some x \<in> set ws then decimalString (worthSum ws) else []) \<and>
     an_Completeness s = (if ws \<noteq> [] \<and> None \<notin> set ws then ''complete'' else if \<exists>x. Some x \<in> set ws then ''partial'' else ''unpriced'')"

definition valuationFrame :: "Asset \<Rightarrow> string \<times> string \<times> string \<times> string \<times> time \<times> string" where
  "valuationFrame a = (as_Asset a, as_Balance a, as_ValuationQuantity a, as_AvailableToTrade a, as_AvailableToTradeAsOf a, as_AvailableStatus a)"

lemma markAsset_frame: "valuationFrame (fst (markAsset prices maxAge now asOf a)) = valuationFrame a"
  by (auto simp: markAsset_def clearLocalValuation_def valuationFrame_def split: option.splits prod.splits)

lemma markAsset_name [simp]: "as_Asset (fst (markAsset prices maxAge now asOf a)) = as_Asset a"
  using markAsset_frame [of prices maxAge now asOf a] by (simp add: valuationFrame_def)

lemma decimalString_0: "decimalString 0 = ''0''"
  by code_simp

lemma markAsset_value:
  "as_USDValue (fst (markAsset prices maxAge now asOf a)) =
     (case snd (markAsset prices maxAge now asOf a) of None \<Rightarrow> [] | Some x \<Rightarrow> decimalString x)"
  by (auto simp: markAsset_def clearLocalValuation_def decimalString_0 split: option.splits prod.splits)

lemma filter_zip_map: "map (\<lambda>(b, w). g b) (filter (\<lambda>(b, w). w = None) (zip (map f as) (map h as))) = map (\<lambda>a. g (f a)) (filter (\<lambda>a. h a = None) as)"
  by (induction as) auto

lemma priced_some: "ws \<noteq> [] \<Longrightarrow> None \<notin> set ws \<Longrightarrow> \<exists>x. Some x \<in> set ws"
  by (metis hd_in_set not_None_eq)

lemma applyValuation_valued:
  assumes "applyValuationLocked m now s = (changed, s')"
  shows "valued s' (map (\<lambda>a. snd (markAsset (am_prices m) (am_valuationMaxAge m) now (an_SnapshotAsOf s) a)) (an_Assets s))"
    "map valuationFrame (an_Assets s') = map valuationFrame (an_Assets s)"
    "changed \<longleftrightarrow> snapshotValuation s \<noteq> snapshotValuation s'"
    "an_Venue s' = an_Venue s" "an_Environment s' = an_Environment s" "an_SnapshotAsOf s' = an_SnapshotAsOf s"
    "an_LiabilityStatus s' = an_LiabilityStatus s" "an_AccountAlias s' = an_AccountAlias s" "an_Revision s' = an_Revision s"
proof -
  let ?mark = "markAsset (am_prices m) (am_valuationMaxAge m) now (an_SnapshotAsOf s)"
  let ?ws = "map (\<lambda>a. snd (?mark a)) (an_Assets s)"
  define ok where "ok \<longleftrightarrow> an_Assets s \<noteq> [] \<and> None \<notin> set ?ws"
  define pr where "pr \<longleftrightarrow> (\<exists>x. Some x \<in> set ?ws)"
  have "ok \<longrightarrow> pr" using priced_some [of ?ws] unfolding ok_def pr_def by simp
  let ?s = "s\<lparr>an_Assets := map (\<lambda>a. fst (?mark a)) (an_Assets s), an_UnpricedAssets := map as_Asset (filter (\<lambda>a. snd (?mark a) = None) (an_Assets s)),
      an_LocalMarkedTotalUSD := (if ok then decimalString (worthSum ?ws) else []),
      an_PricedSubtotalUSD := (if ok \<or> pr then decimalString (worthSum ?ws) else []),
      an_ValuationBasis := ''public USD mark prices'',
      an_Completeness := (if ok then ''complete'' else if pr then ''partial'' else ''unpriced'')\<rparr>"
  have "valuationLoop ?mark (an_Assets s) ([], 0, False, an_Assets s \<noteq> [], []) =
      (map (\<lambda>a. fst (?mark a)) (an_Assets s), worthSum ?ws, pr, ok, map as_Asset (filter (\<lambda>a. snd (?mark a) = None) (an_Assets s)))"
    unfolding valuationLoop_spec Let_def ok_def pr_def by (simp only: append_Nil add_0 simp_thms)
  then have run: "applyValuationLocked m now s = (snapshotValuation s \<noteq> snapshotValuation ?s, ?s)"
    by (simp only: applyValuationLocked_def prod.case Let_def)
  have p: "s' = snd (applyValuationLocked m now s)" "changed = fst (applyValuationLocked m now s)" by (simp_all only: assms fst_conv snd_conv)
  have e: "s' = ?s" unfolding p(1) run snd_conv by (rule refl)
  show "changed \<longleftrightarrow> snapshotValuation s \<noteq> snapshotValuation s'" unfolding p(2) e run fst_conv by (rule refl)
  have c: "(?ws \<noteq> [] \<and> None \<notin> set ?ws) = ok" "(\<exists>x. Some x \<in> set ?ws) = pr" by (simp_all add: ok_def pr_def)
  show "valued s' ?ws" unfolding valued_def c e using \<open>ok \<longrightarrow> pr\<close> by (auto simp: markAsset_value filter_zip_map)
  show "map valuationFrame (an_Assets s') = map valuationFrame (an_Assets s)" by (simp add: e markAsset_frame)
qed (use assms in \<open>auto simp: applyValuationLocked_def Let_def split: prod.splits\<close>)

section \<open>Histories\<close>

text \<open>The operations that start no refresh.\<close>

inductive account_quiet :: "Manager \<Rightarrow> Manager \<Rightarrow> bool" where
  prices: "account_quiet m (snd (UpdateUSDPrices clock updates when m))"
| revalue: "account_quiet m (Revalue clock when m)"
| max_age: "account_quiet m (snd (SetValuationMaxAge maxAge m))"
| public_ws: "account_quiet m (UpdatePublicWS now venue state when reconnects m)"
| private_ws: "account_quiet m (UpdatePrivateWS now venue state when reconnects m)"
| receive: "account_quiet m (UpdateWSReceiveTimes venue publicAt privateAt m)"
| submission: "account_quiet m (RecordOrderSubmission clock venue clientID venueID ack rtt accepted rateLimited m)"
| event: "account_quiet m (RecordOrderEvent clock venue clientID venueID kind received m)"
| reconciliation: "account_quiet m (UpdateReconciliation clock venue status discrepancy when m)"

text \<open>
  Refreshes in flight, each with its venue, its call and, once committed, its error; and the answers of the venues, in the order of
  their commits. Callers that join a call change nothing.
\<close>

type_synonym flight = "(venue \<times> nat \<times> goerror option option) list"

inductive account_run :: "Manager \<Rightarrow> flight \<Rightarrow> (venue \<times> AccountSnapshot) list \<Rightarrow> bool" where
  start: "NewManager providers interval staleAge = Inr m \<Longrightarrow> account_run m [] []"
| enter: "account_run m fl answers \<Longrightarrow> refreshEnter v m = (Leads c, m') \<Longrightarrow> account_run m' (fl @ [(v, c, None)]) answers"
| commit: "account_run m (fl @ (v, c, None) # fl') answers \<Longrightarrow> refresh env v m = (err, m') \<Longrightarrow>
    account_run m' (fl @ (v, c, Some err) # fl')
      (answers @ (case rf_Answer env of Inl _ \<Rightarrow> [] | Inr s \<Rightarrow> if v \<in> set (am_providers m) then [(v, s)] else []))"
| leave: "account_run m (fl @ (v, c, Some err) # fl') answers \<Longrightarrow> account_run (refreshLeave v c err m) (fl @ fl') answers"
| quiet: "account_run m fl answers \<Longrightarrow> account_quiet m m' \<Longrightarrow> account_run m' fl answers"

text \<open>What the operations keep of the refreshes.\<close>

definition sameRefreshes :: "Manager \<Rightarrow> Manager \<Rightarrow> bool" where
  "sameRefreshes m m' \<longleftrightarrow> am_refreshes m' = am_refreshes m \<and> am_calls m' = am_calls m \<and> am_providers m' = am_providers m \<and> am_staleAge m' = am_staleAge m"

lemma sameRefreshes_refl [simp]: "sameRefreshes m m"
  by (simp add: sameRefreshes_def)

lemma sameRefreshes_trans: "sameRefreshes m m1 \<Longrightarrow> sameRefreshes m1 m2 \<Longrightarrow> sameRefreshes m m2"
  by (simp add: sameRefreshes_def)

lemma emit_fields [simp]:
  "am_snapshots (emit k v t m) = am_snapshots m" "am_refreshes (emit k v t m) = am_refreshes m" "am_calls (emit k v t m) = am_calls m"
  "am_providers (emit k v t m) = am_providers m" "am_staleAge (emit k v t m) = am_staleAge m" "am_health (emit k v t m) = am_health m"
  "am_timings (emit k v t m) = am_timings m" "am_orderTimings (emit k v t m) = am_orderTimings m" "am_pendings (emit k v t m) = am_pendings m"
  "am_pendingOrderEvents (emit k v t m) = am_pendingOrderEvents m" "am_prices (emit k v t m) = am_prices m"
  by (simp_all add: emit_def)

lemma publish_fields [simp]:
  "am_snapshots (publishValuationEvents vs t m) = am_snapshots m" "am_refreshes (publishValuationEvents vs t m) = am_refreshes m"
  "am_calls (publishValuationEvents vs t m) = am_calls m" "am_providers (publishValuationEvents vs t m) = am_providers m"
  "am_staleAge (publishValuationEvents vs t m) = am_staleAge m"
  unfolding publishValuationEvents_def by (induction vs arbitrary: m) simp_all

text \<open>Operations on the health and the order metrics leave snapshots and refreshes alone.\<close>

definition metricsOnly :: "Manager \<Rightarrow> Manager \<Rightarrow> bool" where
  "metricsOnly m m' \<longleftrightarrow> am_snapshots m' = am_snapshots m \<and> sameRefreshes m m'"

lemma metrics_operations:
  "metricsOnly m (UpdatePublicWS now venue state when reconnects m)"
  "metricsOnly m (UpdatePrivateWS now venue state when reconnects m)"
  "metricsOnly m (UpdateWSReceiveTimes venue publicAt privateAt m)"
  "metricsOnly m (RecordOrderSubmission clock venue clientID venueID ack rtt accepted rateLimited m)"
  "metricsOnly m (RecordOrderEvent clock venue clientID venueID kind received m)"
  "metricsOnly m (UpdateReconciliation clock venue status discrepancy when m)"
  "metricsOnly m (snd (SetValuationMaxAge maxAge m))"
  by (auto simp: metricsOnly_def sameRefreshes_def Let_def UpdatePublicWS_def UpdatePrivateWS_def UpdateWSReceiveTimes_def
      RecordOrderSubmission_def RecordOrderEvent_def UpdateReconciliation_def SetValuationMaxAge_def keepPendingEvent_def
      prunePendingOrderEventsLocked_def pruneOrderTimingsLocked_def applyPendingOrderEventsLocked_def split: option.splits prod.splits)

text \<open>A revaluation replaces snapshots by revalued ones only.\<close>

definition revaluedFrom :: "AccountSnapshot \<Rightarrow> AccountSnapshot \<Rightarrow> bool" where
  "revaluedFrom s s' \<longleftrightarrow> s' = s \<or> ((\<exists>ws. valued s' ws) \<and> map valuationFrame (an_Assets s') = map valuationFrame (an_Assets s) \<and>
     an_Venue s' = an_Venue s \<and> an_Environment s' = an_Environment s \<and> an_SnapshotAsOf s' = an_SnapshotAsOf s \<and>
     an_LiabilityStatus s' = an_LiabilityStatus s)"

lemma valued_revision [simp]: "valued (s\<lparr>an_Revision := r\<rparr>) ws = valued s ws"
  by (simp add: valued_def)

lemma revalueSnapshots_step:
  assumes "revalueSnapshots now entries (m, changed) = (m', changed')" "distinct (map fst entries)"
    "\<forall>(v, s)\<in>set entries. gget (am_snapshots m) v = Some s"
  shows "sameRefreshes m m'" "\<And>v. rel_option revaluedFrom (gget (am_snapshots m) v) (gget (am_snapshots m') v)"
proof -
  have "sameRefreshes m m' \<and> (\<forall>v. rel_option revaluedFrom (gget (am_snapshots m) v) (gget (am_snapshots m') v)) \<and>
      (\<forall>v. v \<notin> fst ` set entries \<longrightarrow> gget (am_snapshots m') v = gget (am_snapshots m) v)"
    using assms
  proof (induction entries arbitrary: m changed)
    case Nil
    then show ?case by (auto simp: option.rel_refl revaluedFrom_def)
  next
    case (Cons e entries)
    obtain v s where e: "e = (v, s)" by (cases e)
    obtain b s1 where a: "applyValuationLocked m now s = (b, s1)" by (cases "applyValuationLocked m now s")
    show ?case
    proof (cases b)
      case False
      have "revalueSnapshots now entries (m, changed) = (m', changed')" using Cons.prems(1) e a False by simp
      from Cons.IH [OF this] Cons.prems(2,3) show ?thesis by (auto simp: e)
    next
      case True
      let ?s = "s1\<lparr>an_Revision := nextRevision (am_revision m)\<rparr>"
      let ?m = "m\<lparr>am_revision := nextRevision (am_revision m), am_snapshots := gput v ?s (am_snapshots m)\<rparr>"
      have "revalueSnapshots now entries (?m, changed @ [v]) = (m', changed')" using Cons.prems(1) e a True by (simp add: Let_def)
      moreover have "\<forall>(u, t)\<in>set entries. gget (am_snapshots ?m) u = Some t"
        using Cons.prems(2,3) e by (force simp: gomap_simps)
      ultimately have ih: "sameRefreshes ?m m'" "rel_option revaluedFrom (gget (am_snapshots ?m) u) (gget (am_snapshots m') u)"
        "u \<notin> fst ` set entries \<Longrightarrow> gget (am_snapshots m') u = gget (am_snapshots ?m) u" for u
        using Cons.IH [of ?m "changed @ [v]"] Cons.prems(2) by auto
      have r: "revaluedFrom s ?s" using applyValuation_valued [OF a] by (auto simp: revaluedFrom_def)
      have v: "gget (am_snapshots m') v = Some ?s" using ih(3) [of v] Cons.prems(2) e by (simp add: gomap_simps)
      have "gget (am_snapshots m) v = Some s" using Cons.prems(3) e by simp
      then have "rel_option revaluedFrom (gget (am_snapshots m) u) (gget (am_snapshots m') u)" for u
        using ih(2) [of u] v r by (cases "u = v") (auto simp: gomap_simps)
      moreover have "u \<notin> fst ` set (e # entries) \<Longrightarrow> gget (am_snapshots m') u = gget (am_snapshots m) u" for u
        using ih(3) [of u] e by (simp add: gomap_simps)
      moreover have "sameRefreshes m m'" using ih(1) by (simp add: sameRefreshes_def)
      ultimately show ?thesis by blast
    qed
  qed
  then show "sameRefreshes m m'" "\<And>v. rel_option revaluedFrom (gget (am_snapshots m) v) (gget (am_snapshots m') v)" by blast+
qed

lemma revalueSnapshots_gwf: "gwf (am_snapshots m) \<Longrightarrow> gwf (am_snapshots (fst (revalueSnapshots now entries (m, changed))))"
proof (induction entries arbitrary: m changed)
  case (Cons e entries)
  obtain v s where e: "e = (v, s)" by (cases e)
  show ?case
    by (cases "applyValuationLocked m now s"; cases "fst (applyValuationLocked m now s)") (use Cons in \<open>auto simp: e Let_def\<close>)
qed simp

text \<open>One revaluation of the whole manager.\<close>

definition revalued :: "Manager \<Rightarrow> Manager \<Rightarrow> bool" where
  "revalued m m' \<longleftrightarrow> sameRefreshes m m' \<and> gwf (am_snapshots m') \<and>
     (\<forall>v. rel_option revaluedFrom (gget (am_snapshots m) v) (gget (am_snapshots m') v))"

lemma revalueLocked_revalued:
  assumes "gwf (am_snapshots m)" "revalueLocked now m = (m', changed)"
  shows "revalued m m'"
proof -
  obtain changed' where r: "revalueSnapshots now (am_snapshots m) (m, []) = (m', changed')"
    using assms(2) by (auto simp: revalueLocked_def split: prod.splits)
  have g: "\<forall>(v, s)\<in>set (am_snapshots m). gget (am_snapshots m) v = Some s" using assms(1) by (auto simp: gwf_def)
  show ?thesis unfolding revalued_def
    using revalueSnapshots_step [OF r] g assms(1) revalueSnapshots_gwf [OF assms(1), of now "am_snapshots m" "[]"] r by (simp add: gwf_def)
qed

lemma revalued_operations:
  assumes "gwf (am_snapshots m)"
  shows "revalued m (Revalue clock when m)" "revalued m (snd (UpdateUSDPrices clock updates when m))"
proof -
  have step: "revalued m (publishValuationEvents changed t m')" if "revalueLocked now (m\<lparr>am_prices := ps\<rparr>) = (m', changed)" for now ps m' changed t
    using revalueLocked_revalued [OF _ that] assms by (simp add: revalued_def sameRefreshes_def)
  have "m = m\<lparr>am_prices := am_prices m\<rparr>" by simp
  then show "revalued m (Revalue clock when m)" using step [of _ "am_prices m"] by (auto simp: Revalue_def Let_def split: prod.splits)
  have "revalued m m" using assms by (auto simp: revalued_def option.rel_refl revaluedFrom_def)
  then show "revalued m (snd (UpdateUSDPrices clock updates when m))"
    using step by (auto simp: UpdateUSDPrices_def Let_def split: prod.splits option.splits)
qed

section \<open>Invariants\<close>

text \<open>A stored snapshot: normalised and valued, with the assets of the venue's latest answer.\<close>

definition snapshotOk :: "(venue \<times> AccountSnapshot) list \<Rightarrow> venue \<Rightarrow> AccountSnapshot \<Rightarrow> bool" where
  "snapshotOk answers v s \<longleftrightarrow> an_Venue s = v \<and> an_Environment s = ''testnet'' \<and> an_LiabilityStatus s \<in> {''none'', ''present'', ''unknown''} \<and>
     (\<exists>ws. valued s ws) \<and>
     (\<exists>a. map_of (rev answers) v = Some a \<and> map valuationFrame (an_Assets s) = map valuationFrame (sort_key as_Asset (an_Assets a)) \<and>
        (an_SnapshotAsOf a \<noteq> 0 \<longrightarrow> an_SnapshotAsOf s = an_SnapshotAsOf a))"

definition snapshotsOk :: "(venue \<times> AccountSnapshot) list \<Rightarrow> Manager \<Rightarrow> bool" where
  "snapshotsOk answers m \<longleftrightarrow> gwf (am_snapshots m) \<and> (\<forall>v s. gget (am_snapshots m) v = Some s \<longrightarrow> snapshotOk answers v s)"

lemma snapshotsOk_revalued: "snapshotsOk answers m \<Longrightarrow> revalued m m' \<Longrightarrow> snapshotsOk answers m' \<and> sameRefreshes m m'"
proof -
  assume ok: "snapshotsOk answers m" and r: "revalued m m'"
  have "snapshotOk answers v s'" if g: "gget (am_snapshots m') v = Some s'" for v s'
  proof -
    have "rel_option revaluedFrom (gget (am_snapshots m) v) (gget (am_snapshots m') v)" using r by (simp add: revalued_def)
    then obtain s where s: "gget (am_snapshots m) v = Some s" "revaluedFrom s s'" unfolding g by (auto simp: option_rel_Some2)
    then have "snapshotOk answers v s" using ok by (simp add: snapshotsOk_def)
    then show ?thesis using s(2) by (auto simp: revaluedFrom_def snapshotOk_def)
  qed
  then show ?thesis using r by (simp add: snapshotsOk_def revalued_def)
qed

lemma snapshotsOk_quiet: "account_quiet m m' \<Longrightarrow> snapshotsOk answers m \<Longrightarrow> snapshotsOk answers m' \<and> sameRefreshes m m'"
proof (induction rule: account_quiet.induct)
  case prices
  then show ?case by (intro snapshotsOk_revalued revalued_operations) (simp_all add: snapshotsOk_def)
next
  case revalue
  then show ?case by (intro snapshotsOk_revalued revalued_operations) (simp_all add: snapshotsOk_def)
qed (use metrics_operations in \<open>auto simp: metricsOnly_def snapshotsOk_def\<close>)

lemma refresh_snapshots:
  assumes "refresh env v m = (err, m')" "snapshotsOk answers m"
  shows "snapshotsOk (answers @ (case rf_Answer env of Inl _ \<Rightarrow> [] | Inr s \<Rightarrow> if v \<in> set (am_providers m) then [(v, s)] else [])) m'"
    "sameRefreshes m m'"
proof -
  show "sameRefreshes m m'" using assms(1)
    by (auto simp: refresh_def refreshFailed_def refreshSucceeded_def sameRefreshes_def Let_def split: if_splits sum.splits)
  consider "m' = m" "v \<notin> set (am_providers m)" | e where "rf_Answer env = Inl e" "am_snapshots m' = am_snapshots m" |
    s where "rf_Answer env = Inr s" "v \<in> set (am_providers m)" "m' = refreshSucceeded v (rf_RTT env) (rf_Finished env) s m"
    using assms(1) by (auto simp: refresh_def refreshFailed_def Let_def split: if_splits sum.splits)
  then show "snapshotsOk (answers @ (case rf_Answer env of Inl _ \<Rightarrow> [] | Inr s \<Rightarrow> if v \<in> set (am_providers m) then [(v, s)] else [])) m'"
  proof cases
    case 1
    then show ?thesis using assms(2) by (simp split: sum.split)
  next
    case 2
    then show ?thesis using assms(2) by (simp add: snapshotsOk_def)
  next
    case 3
    define n where "n = normalizeSnapshot v (nextRevision (am_revision m)) (rf_Finished env) s"
    obtain b s1 where a: "applyValuationLocked m (rf_Finished env) n = (b, s1)" by (cases "applyValuationLocked m (rf_Finished env) n")
    note r = applyValuation_valued [OF a]
    have "snapshotOk (answers @ [(v, s)]) v s1" unfolding snapshotOk_def r using r(1,2) by (auto simp: n_def normalizeSnapshot_def IsZero_def)
    moreover have "am_snapshots m' = gput v s1 (am_snapshots m)" using a by (simp add: 3 refreshSucceeded_def Let_def n_def [symmetric])
    moreover have "snapshotOk (answers @ [(v, s)]) u t" if "u \<noteq> v" "snapshotOk answers u t" for u t using that by (simp add: snapshotOk_def)
    ultimately show ?thesis using assms(2) 3 by (auto simp: snapshotsOk_def gomap_simps)
  qed
qed

text \<open>The refreshes in flight are the entries of the map, and their calls are running.\<close>

definition flightOk :: "flight \<Rightarrow> Manager \<Rightarrow> bool" where
  "flightOk fl m \<longleftrightarrow> distinct (map fst fl) \<and> distinct (map (fst \<circ> snd) fl) \<and>
     (\<forall>v. gget (am_refreshes m) v = map_option fst (map_of fl v)) \<and>
     (\<forall>(v, c, r)\<in>set fl. c < length (am_calls m) \<and> am_calls m ! c = CallRunning)"

lemma flightOk_same: "flightOk fl m \<Longrightarrow> sameRefreshes m m' \<Longrightarrow> flightOk fl m'"
  by (simp add: flightOk_def sameRefreshes_def)

lemma flightOk_enter:
  assumes "flightOk fl m" "refreshEnter v m = (Leads c, m')"
  shows "flightOk (fl @ [(v, c, None)]) m'" "am_snapshots m' = am_snapshots m"
proof -
  have e: "gget (am_refreshes m) v = None" "c = length (am_calls m)"
    "m' = m\<lparr>am_calls := am_calls m @ [CallRunning], am_refreshes := gput v c (am_refreshes m)\<rparr>"
    using assms(2) by (auto simp: refreshEnter_def Let_def split: option.splits)
  have "map_of fl v = None" using assms(1) e(1) by (simp add: flightOk_def)
  then have v: "v \<notin> fst ` set fl" by (simp add: map_of_eq_None_iff)
  have "c \<notin> (fst \<circ> snd) ` set fl" using assms(1) e(2) by (auto simp: flightOk_def)
  moreover have "\<forall>(u, d, r)\<in>set fl. d < Suc (length (am_calls m)) \<and> (am_calls m @ [CallRunning]) ! d = CallRunning"
    using assms(1) by (auto simp: flightOk_def nth_append)
  ultimately show "flightOk (fl @ [(v, c, None)]) m'"
    using assms(1) v e(2) \<open>map_of fl v = None\<close> by (auto simp: flightOk_def e(3) gomap_simps map_add_def split: option.splits)
qed (use assms(2) in \<open>auto simp: refreshEnter_def Let_def split: option.splits\<close>)

lemma flightOk_commit: "flightOk (fl @ (v, c, r) # fl') m \<Longrightarrow> flightOk (fl @ (v, c, r') # fl') m"
  by (auto simp: flightOk_def map_add_def split: option.splits)

lemma flightOk_leave:
  assumes "flightOk (fl @ (v, c, r) # fl') m"
  shows "flightOk (fl @ fl') (refreshLeave v c err m)"
proof -
  have d: "v \<notin> fst ` set (fl @ fl')" "c \<notin> (fst \<circ> snd) ` set (fl @ fl')" "distinct (map fst (fl @ fl'))" "distinct (map (fst \<circ> snd) (fl @ fl'))"
    using assms by (auto simp: flightOk_def)
  have "map_of (fl @ fl') v = None" using d(1) by (simp add: map_of_eq_None_iff del: map_of_append)
  moreover have "map_of (fl @ fl') u = map_of (fl @ (v, c, r) # fl') u" if "u \<noteq> v" for u using that by (cases "map_of fl u") (simp_all add: map_add_def)
  ultimately have "gget (gdel v (am_refreshes m)) u = map_option fst (map_of (fl @ fl') u)" for u
    using assms by (cases "u = v") (simp_all add: flightOk_def gomap_simps del: map_of_append)
  moreover have "\<forall>(u, e, q)\<in>set (fl @ fl'). e < length (am_calls m) \<and> (am_calls m)[c := CallDone err] ! e = CallRunning"
  proof -
    have "e < length (am_calls m) \<and> (am_calls m)[c := CallDone err] ! e = CallRunning" if "(u, e, q) \<in> set (fl @ fl')" for u e q
    proof -
      have "c \<noteq> e" using d(2) that by force
      moreover have "e < length (am_calls m) \<and> am_calls m ! e = CallRunning" using assms that by (force simp: flightOk_def)
      ultimately show ?thesis by simp
    qed
    then show ?thesis by blast
  qed
  ultimately show ?thesis using d(3,4) by (simp add: flightOk_def refreshLeave_def del: map_of_append set_append)
qed

lemma account_run_ok: "account_run m fl answers \<Longrightarrow> snapshotsOk answers m \<and> flightOk fl m"
proof (induction rule: account_run.induct)
  case (start providers interval staleAge m)
  have "am_snapshots m' = am_snapshots m \<and> am_refreshes m' = am_refreshes m" if "addProviders ps m = Inr m'" for ps m m'
    using that by (induction ps m rule: addProviders.induct) (auto split: if_splits)
  from this [of providers "emptyManager interval staleAge" m] start show ?case
    by (simp add: NewManager_def emptyManager_def snapshotsOk_def flightOk_def split: if_splits)
next
  case (enter m fl answers v c m')
  then have "flightOk (fl @ [(v, c, None)]) m'" "am_snapshots m' = am_snapshots m" using flightOk_enter by blast+
  then show ?case using enter by (simp add: snapshotsOk_def)
next
  case (commit m fl v c fl' answers env err m')
  then have ok: "snapshotsOk answers m" "flightOk (fl @ (v, c, Some err) # fl') m" using flightOk_commit by blast+
  show ?case using refresh_snapshots [OF commit.hyps(2) ok(1)] flightOk_same [OF ok(2)] by blast
next
  case (leave m fl v c err fl' answers)
  then show ?case using flightOk_leave by (auto simp: snapshotsOk_def refreshLeave_def)
next
  case (quiet m fl answers m')
  then show ?case using snapshotsOk_quiet flightOk_same by blast
qed

section \<open>Fresh prices\<close>

text \<open>A value shown for an asset is zero, or its quantity at a price received within the maximum age.\<close>

definition freshMark :: "(string, USDPrice) gomap \<Rightarrow> duration \<Rightarrow> time \<Rightarrow> Asset \<Rightarrow> bool" where
  "freshMark prices maxAge now a \<longleftrightarrow> as_USDValue a = [] \<or>
     (\<exists>q. nonNegativeRat (as_ValuationQuantity a) = Some q \<and>
        (q = 0 \<and> as_USDValue a = ''0'' \<or>
         (\<exists>p x. gget prices (ToUpper (as_Asset a)) = Some p \<and> Sub now (up_ReceivedAt p) \<le> maxAge \<and> accountRat (up_Value p) = Some x \<and> 0 < x \<and>
            as_USDValue a = decimalString (q * x) \<and> as_PriceAsOf a = up_ObservedAt p)))"

lemma markAsset_fresh: "freshMark prices maxAge now (fst (markAsset prices maxAge now asOf a))"
  by (auto simp: markAsset_def usablePrice_def freshMark_def clearLocalValuation_def split: option.splits prod.splits if_splits)

definition freshSnapshot :: "(string, USDPrice) gomap \<Rightarrow> duration \<Rightarrow> time \<Rightarrow> AccountSnapshot \<Rightarrow> bool" where
  "freshSnapshot prices maxAge now s \<longleftrightarrow> (\<forall>a\<in>set (an_Assets s). freshMark prices maxAge now a)"

lemma applyValuation_assets: "an_Assets (snd (applyValuationLocked m now s)) =
    map (\<lambda>a. fst (markAsset (am_prices m) (am_valuationMaxAge m) now (an_SnapshotAsOf s) a)) (an_Assets s)"
  by (simp add: applyValuationLocked_def valuationLoop_spec Let_def)

lemma freshMark_cong:
  assumes "valuationFrame a = valuationFrame b" "valuationOf a = valuationOf b"
  shows "freshMark prices maxAge now a = freshMark prices maxAge now b"
  using assms by (simp add: freshMark_def valuationFrame_def valuationOf_def)

lemma applyValuation_fresh:
  assumes "applyValuationLocked m now s = (changed, s')"
  shows "freshSnapshot (am_prices m) (am_valuationMaxAge m) now s'" "\<not> changed \<Longrightarrow> freshSnapshot (am_prices m) (am_valuationMaxAge m) now s"
proof -
  have "an_Assets s' = map (\<lambda>a. fst (markAsset (am_prices m) (am_valuationMaxAge m) now (an_SnapshotAsOf s) a)) (an_Assets s)"
    using applyValuation_assets [of m now s] assms by simp
  then show f: "freshSnapshot (am_prices m) (am_valuationMaxAge m) now s'" by (auto simp: freshSnapshot_def markAsset_fresh)
  assume "\<not> changed"
  then have v: "map valuationOf (an_Assets s) = map valuationOf (an_Assets s')"
    using applyValuation_valued(3) [OF assms] by (simp add: snapshotValuation_def)
  have fr: "map valuationFrame (an_Assets s) = map valuationFrame (an_Assets s')" using applyValuation_valued(2) [OF assms] by simp
  have "freshMark (am_prices m) (am_valuationMaxAge m) now a" if mem: "a \<in> set (an_Assets s)" for a
  proof -
    obtain i where i: "i < length (an_Assets s)" "a = an_Assets s ! i" using mem by (metis in_set_conv_nth)
    have "i < length (an_Assets s')" using i(1) v by (metis length_map)
    then have "valuationOf a = valuationOf (an_Assets s' ! i)" "valuationFrame a = valuationFrame (an_Assets s' ! i)" "an_Assets s' ! i \<in> set (an_Assets s')"
      using i nth_map [of i "an_Assets s"] nth_map [of i "an_Assets s'"] v fr by (metis, metis, simp)
    then show ?thesis using f freshMark_cong [of a "an_Assets s' ! i"] by (simp add: freshSnapshot_def)
  qed
  then show "freshSnapshot (am_prices m) (am_valuationMaxAge m) now s" by (simp add: freshSnapshot_def)
qed

lemma freshSnapshot_revision [simp]: "freshSnapshot ps d now (s\<lparr>an_Revision := r\<rparr>) = freshSnapshot ps d now s"
  by (simp add: freshSnapshot_def)

lemma revalueSnapshots_fresh:
  assumes "revalueSnapshots now entries (m, changed) = (m', changed')" "distinct (map fst entries)"
    "\<forall>(v, s)\<in>set entries. gget (am_snapshots m) v = Some s"
    "\<forall>v s. v \<notin> fst ` set entries \<longrightarrow> gget (am_snapshots m) v = Some s \<longrightarrow> freshSnapshot (am_prices m) (am_valuationMaxAge m) now s"
  shows "\<forall>v s. gget (am_snapshots m') v = Some s \<longrightarrow> freshSnapshot (am_prices m) (am_valuationMaxAge m) now s"
  using assms
proof (induction entries arbitrary: m changed)
  case Nil
  then show ?case by simp
next
  case (Cons e entries)
  obtain v s where e: "e = (v, s)" by (cases e)
  obtain b s1 where a: "applyValuationLocked m now s = (b, s1)" by (cases "applyValuationLocked m now s")
  note fresh = applyValuation_fresh [OF a]
  have vs: "gget (am_snapshots m) v = Some s" using Cons.prems(3) e by simp
  show ?case
  proof (cases b)
    case False
    have "revalueSnapshots now entries (m, changed) = (m', changed')" using Cons.prems(1) e a False by simp
    moreover have "freshSnapshot (am_prices m) (am_valuationMaxAge m) now t" if "u \<notin> fst ` set entries" "gget (am_snapshots m) u = Some t" for u t
      using Cons.prems(4) that fresh(2) [OF False] vs e by (cases "u = v") auto
    moreover have "distinct (map fst entries)" "\<forall>(u, t)\<in>set entries. gget (am_snapshots m) u = Some t" using Cons.prems(2,3) by auto
    ultimately show ?thesis using Cons.IH [of m changed] by blast
  next
    case True
    let ?m = "m\<lparr>am_revision := nextRevision (am_revision m), am_snapshots := gput v (s1\<lparr>an_Revision := nextRevision (am_revision m)\<rparr>) (am_snapshots m)\<rparr>"
    have "revalueSnapshots now entries (?m, changed @ [v]) = (m', changed')" using Cons.prems(1) e a True by (simp add: Let_def)
    moreover have "\<forall>(u, t)\<in>set entries. gget (am_snapshots ?m) u = Some t" using Cons.prems(2,3) e by (force simp: gomap_simps)
    moreover have "freshSnapshot (am_prices m) (am_valuationMaxAge m) now t" if "u \<notin> fst ` set entries" "gget (am_snapshots ?m) u = Some t" for u t
      using Cons.prems(4) that fresh(1) e by (cases "u = v") (auto simp: gomap_simps)
    moreover have "distinct (map fst entries)" "am_prices ?m = am_prices m" "am_valuationMaxAge ?m = am_valuationMaxAge m" using Cons.prems(2) by auto
    ultimately show ?thesis using Cons.IH [of ?m "changed @ [v]"] by presburger
  qed
qed

lemma valued_length:
  assumes "valued s ws"
  shows "length ws = length (an_Assets s)"
proof -
  have "map as_USDValue (an_Assets s) = map (\<lambda>w. case w of None \<Rightarrow> [] | Some x \<Rightarrow> decimalString x) ws"
    using assms unfolding valued_def by blast
  from arg_cong [OF this, of length] show ?thesis by simp
qed

section \<open>Capacities\<close>

text \<open>What the providers make of a venue's answer: the available amount of an asset.\<close>

definition bybitOwns :: "CoinBalance list \<Rightarrow> string \<Rightarrow> string \<Rightarrow> bool" where
  "bybitOwns coins asset text \<longleftrightarrow> (\<exists>c\<in>set coins. ToUpper (TrimSpace (cb_Coin c)) = asset \<and>
     (text = cb_Free c \<and> (\<exists>x. accountRat text = Some x \<and> 0 \<le> x) \<or>
      (\<exists>w l b. nonNegativeRat (cb_WalletBalance c) = Some w \<and> nonNegativeRat (cb_Locked c) = Some l \<and> nonNegativeRat (cb_BorrowAmount c) = Some b \<and>
         text = decimalString (max 0 (w - l - b)))))"

definition deribitOwns :: "AccountSummary list \<Rightarrow> string \<Rightarrow> string \<Rightarrow> bool" where
  "deribitOwns summaries asset text \<longleftrightarrow> (\<exists>y\<in>set summaries. ToUpper (TrimSpace (sm_Currency y)) = asset \<and>
     (\<exists>b f. nonNegativeRat (sm_Balance y) = Some b \<and> nonNegativeRat (sm_AvailableFunds y) = Some f \<and> text = decimalString (min b f)))"

lemma addCoins_assets: "an_Assets (addCoins now coins s) = an_Assets s @ map (bybitAsset now) (filter (\<lambda>c. ToUpper (TrimSpace (cb_Coin c)) \<noteq> []) coins)"
  by (induction coins arbitrary: s) auto

lemma addSummaries_assets:
  "an_Assets (addSummaries now ys s) = an_Assets s @ map (deribitAsset now) (filter (\<lambda>y. ToUpper (TrimSpace (sm_Currency y)) \<noteq> []) ys)"
  by (induction ys arbitrary: s) auto

lemma bybitAvailable_cases:
  assumes "bybitAvailable c = (text, status)" "status = ''verified'' \<or> status = ''derived''"
  shows "text = cb_Free c \<and> (\<exists>x. accountRat text = Some x \<and> 0 \<le> x) \<or>
    (\<exists>w l b. nonNegativeRat (cb_WalletBalance c) = Some w \<and> nonNegativeRat (cb_Locked c) = Some l \<and> nonNegativeRat (cb_BorrowAmount c) = Some b \<and>
       text = decimalString (max 0 (w - l - b)))"
proof -
  have m: "(let available = x in if available < 0 then 0 else available) = max 0 x" for x :: rat by (simp add: Let_def max_def)
  show ?thesis using assms unfolding bybitAvailable_def m validNonNegative_def by (auto split: option.splits if_splits)
qed

lemma bybitAsset_spendable:
  assumes "spendable asset (bybitAsset now c)" "c \<in> set coins"
  shows "bybitOwns coins asset (as_AvailableToTrade (bybitAsset now c))"
  unfolding bybitOwns_def using assms bybitAvailable_cases [of c "fst (bybitAvailable c)" "snd (bybitAvailable c)"]
  by (intro bexI [of _ c]) (auto simp: spendable_def bybitAsset_def)

lemma deribitAsset_spendable:
  assumes "spendable asset (deribitAsset now y)" "y \<in> set ys"
  shows "deribitOwns ys asset (as_AvailableToTrade (deribitAsset now y))"
  unfolding deribitOwns_def using assms
  by (intro bexI [of _ y]) (auto simp: spendable_def deribitAsset_def deribitAvailable_def minimumRat_def min_def split: option.splits if_splits)

lemma BybitProvider_owns:
  assumes "BybitProvider_Snapshot accountAlias now (Some (Inr accounts)) = Inr s" "a \<in> set (an_Assets s)" "spendable asset a"
  shows "\<exists>account. accounts = [account] \<and> bybitOwns (wa_Coin account) asset (as_AvailableToTrade a)"
proof -
  obtain account where "accounts = [account]" "s = addCoins now (wa_Coin account) (bybitBase accountAlias now account)"
    using assms(1) by (auto simp: BybitProvider_Snapshot_def split: list.splits if_splits)
  then show ?thesis using assms(2,3) bybitAsset_spendable [of asset now] by (auto simp: addCoins_assets bybitBase_def)
qed

lemma DeribitProvider_owns:
  assumes "DeribitProvider_Snapshot accountAlias now (Some (Inr ys)) = Inr s" "a \<in> set (an_Assets s)" "spendable asset a"
  shows "deribitOwns ys asset (as_AvailableToTrade a)"
proof -
  have "s = addSummaries now ys (deribitBase accountAlias now)" using assms(1) by (simp add: DeribitProvider_Snapshot_def)
  then show ?thesis using assms(2,3) deribitAsset_spendable [of asset now] by (auto simp: addSummaries_assets deribitBase_def)
qed

text \<open>The answers of a history are those of the program's providers.\<close>

definition fromProviders :: "(venue \<times> AccountSnapshot) list \<Rightarrow> bool" where
  "fromProviders answers \<longleftrightarrow> (\<forall>(v, s)\<in>set answers. an_SnapshotAsOf s \<noteq> 0 \<and>
     (v = VenueBybit \<and> (\<exists>accountAlias now accounts. BybitProvider_Snapshot accountAlias now (Some (Inr accounts)) = Inr s) \<or>
      v = VenueDeribit \<and> (\<exists>accountAlias now ys. DeribitProvider_Snapshot accountAlias now (Some (Inr ys)) = Inr s)))"

lemma spendable_frame: "valuationFrame a = valuationFrame b \<Longrightarrow> spendable asset a = spendable asset b \<and> as_AvailableToTrade a = as_AvailableToTrade b"
  by (simp add: valuationFrame_def spendable_def)

lemma Capacity_stored:
  assumes "Capacity now later v asset m = (text, revision, asOf, True)"
  shows "\<exists>s a. gget (am_snapshots m) v = Some s \<and> Sub later (an_SnapshotAsOf s) \<le> am_staleAge m \<and> a \<in> set (an_Assets s) \<and> spendable asset a \<and>
    text = as_AvailableToTrade a"
proof -
  obtain s where s: "Manager_Snapshot now v m = Some s" "\<not> Sub later (an_SnapshotAsOf s) > am_staleAge m"
    using assms by (auto simp: Capacity_def split: option.splits if_splits)
  obtain a where a: "find (spendable asset) (an_Assets s) = Some a" "text = as_AvailableToTrade a"
    using assms s by (auto simp: Capacity_def split: option.splits)
  have fa: "a \<in> set (an_Assets s)" "spendable asset a" using a(1) by (auto simp: find_Some_iff)
  obtain t where t: "gget (am_snapshots m) v = Some t" "an_SnapshotAsOf s = an_SnapshotAsOf t"
    "an_Assets s = an_Assets t \<or> an_Assets s = map (\<lambda>a. a\<lparr>as_Quality := ''stale''\<rparr>) (an_Assets t)"
    using s(1) by (auto simp: Manager_Snapshot_def split: option.splits if_splits)
  obtain b where "b \<in> set (an_Assets t)" "a = b \<or> a = b\<lparr>as_Quality := ''stale''\<rparr>" using t(3) fa(1) by auto
  then have "\<exists>b\<in>set (an_Assets t). spendable asset b \<and> as_AvailableToTrade b = text"
    using fa(2) a(2) by (intro bexI [of _ b]) (auto simp: spendable_def)
  then show ?thesis using t(1,2) s(2) by auto
qed

lemma Capacity_backed:
  assumes "account_run m fl answers" "fromProviders answers" "Capacity now later v asset m = (text, revision, asOf, True)"
  shows "\<exists>s. map_of (rev answers) v = Some s \<and> Sub later (an_SnapshotAsOf s) \<le> am_staleAge m \<and>
    ((\<exists>accountAlias t account. BybitProvider_Snapshot accountAlias t (Some (Inr [account])) = Inr s \<and> v = VenueBybit \<and> bybitOwns (wa_Coin account) asset text) \<or>
     (\<exists>accountAlias t ys. DeribitProvider_Snapshot accountAlias t (Some (Inr ys)) = Inr s \<and> v = VenueDeribit \<and> deribitOwns ys asset text))"
proof -
  obtain c a where c: "gget (am_snapshots m) v = Some c" "Sub later (an_SnapshotAsOf c) \<le> am_staleAge m" "a \<in> set (an_Assets c)" "spendable asset a"
    "text = as_AvailableToTrade a" using Capacity_stored [OF assms(3)] by blast
  have "snapshotOk answers v c" using account_run_ok [OF assms(1)] c(1) by (simp add: snapshotsOk_def)
  then obtain s :: AccountSnapshot where s: "map_of (rev answers) v = Some s" "map valuationFrame (an_Assets c) = map valuationFrame (sort_key as_Asset (an_Assets s))"
    "an_SnapshotAsOf s \<noteq> 0 \<longrightarrow> an_SnapshotAsOf c = an_SnapshotAsOf s" unfolding snapshotOk_def by blast
  have "(v, s) \<in> set answers" using map_of_SomeD [OF s(1)] by simp
  then have p: "an_SnapshotAsOf s \<noteq> 0" "v = VenueBybit \<and> (\<exists>accountAlias now accounts. BybitProvider_Snapshot accountAlias now (Some (Inr accounts)) = Inr s) \<or>
      v = VenueDeribit \<and> (\<exists>accountAlias now ys. DeribitProvider_Snapshot accountAlias now (Some (Inr ys)) = Inr s)"
    using assms(2) unfolding fromProviders_def by auto
  have "valuationFrame a \<in> valuationFrame ` set (an_Assets c)" using c(3) by simp
  also have "\<dots> = valuationFrame ` set (an_Assets s)" using arg_cong [OF s(2), of set] by simp
  finally obtain b where b: "b \<in> set (an_Assets s)" "valuationFrame a = valuationFrame b" by blast
  then have "spendable asset b" "as_AvailableToTrade b = text" using spendable_frame [OF b(2)] c(4,5) by auto
  then show ?thesis using p s(1,3) c(2) BybitProvider_owns [OF _ b(1)] DeribitProvider_owns [OF _ b(1)] by metis
qed

section \<open>Properties of snapshots and refreshes\<close>

text \<open>
  C21. Account totals are exact and never hide an unpriced asset. In every history of refreshes, however they interleave, and of every
  other operation, a stored snapshot belongs to the venue it is stored under, lists its assets in order, and is valued: there are worths of its assets,
  some of them perhaps unknown, such that the values shown are those worths, the unpriced assets are the ones without a
  worth, a total is shown exactly when every asset has one and is then their sum, and a partial sum is shown as a subtotal only.
\<close>

theorem account_totals_exact:
  assumes "account_run m fl answers" "gget (am_snapshots m) v = Some s"
  shows "an_Venue s = v \<and> an_Environment s = ''testnet'' \<and> sorted (map as_Asset (an_Assets s)) \<and> (\<exists>ws. length ws = length (an_Assets s) \<and> valued s ws)"
proof -
  have ok: "snapshotOk answers v s" using account_run_ok [OF assms(1)] assms(2) by (simp add: snapshotsOk_def)
  then obtain a :: AccountSnapshot where "map valuationFrame (an_Assets s) = map valuationFrame (sort_key as_Asset (an_Assets a))" unfolding snapshotOk_def by blast
  then have "map (fst \<circ> valuationFrame) (an_Assets s) = map (fst \<circ> valuationFrame) (sort_key as_Asset (an_Assets a))" by (metis map_map)
  then have "map as_Asset (an_Assets s) = map as_Asset (sort_key as_Asset (an_Assets a))" by (simp add: valuationFrame_def o_def)
  then have "sorted (map as_Asset (an_Assets s))" by simp
  then show ?thesis using ok valued_length unfolding snapshotOk_def by blast
qed

text \<open>
  A revaluation lets no stale price stand. In every history, after revaluing the accounts at some time, every value shown for an asset of a stored
  snapshot is zero for a zero quantity, or the quantity at the stored price of the asset, which is positive, was received within the maximum
  age of that time and gives the shown time of the price. The statement holds whether or not the snapshot was found changed.
\<close>

theorem revaluation_uses_fresh_prices:
  assumes "account_run m fl answers" "gget (am_snapshots (Revalue clock when m)) v = Some s" "a \<in> set (an_Assets s)"
  shows "freshMark (am_prices m) (am_valuationMaxAge m) (if when = 0 then clock else when) a"
proof -
  let ?now = "if when = 0 then clock else when"
  have g: "gwf (am_snapshots m)" using account_run_ok [OF assms(1)] by (simp add: snapshotsOk_def)
  obtain m' changed where r: "revalueSnapshots ?now (am_snapshots m) (m, []) = (m', changed)"
    by (cases "revalueSnapshots ?now (am_snapshots m) (m, [])")
  then have "am_snapshots (Revalue clock when m) = am_snapshots m'" by (simp add: Revalue_def revalueLocked_def Let_def IsZero_def)
  moreover have "\<forall>v s. gget (am_snapshots m') v = Some s \<longrightarrow> freshSnapshot (am_prices m) (am_valuationMaxAge m) ?now s"
    by (rule revalueSnapshots_fresh [OF r]) (use g in \<open>auto simp: gwf_def dest!: map_of_SomeD intro!: rev_image_eqI\<close>)
  ultimately show ?thesis using assms(2,3) by (simp add: freshSnapshot_def)
qed

text \<open>
  A capacity is backed by the venue's latest answer. In every history whose answers come from the program's providers, a capacity that
  the manager reports for an asset is at most the stale age old at the time of reporting, and is what the latest committed answer
  of that venue says of the asset: for Bybit the valid free balance, or else the wallet balance less the locked and the borrowed amount, never below zero;
  for Deribit the smaller of balance and available funds. Revaluations, stream updates and failed refreshes in between do not change it.
\<close>

theorem capacity_from_latest_answer:
  assumes "account_run m fl answers" "fromProviders answers" "Capacity now later v asset m = (text, revision, asOf, True)"
  shows "\<exists>s. map_of (rev answers) v = Some s \<and> Sub later (an_SnapshotAsOf s) \<le> am_staleAge m \<and>
    ((\<exists>accountAlias t account. BybitProvider_Snapshot accountAlias t (Some (Inr [account])) = Inr s \<and> v = VenueBybit \<and> bybitOwns (wa_Coin account) asset text) \<or>
     (\<exists>accountAlias t ys. DeribitProvider_Snapshot accountAlias t (Some (Inr ys)) = Inr s \<and> v = VenueDeribit \<and> deribitOwns ys asset text))"
  using assms by (rule Capacity_backed)

text \<open>
  C22. At most one refresh of a venue is in flight. In every history the refreshes in flight are of different venues; a caller that asks for a venue in
  flight joins the running call and changes nothing, one that asks for any other leads a new call; and when a
  refresh leaves with some outcome, that outcome is what everyone who joined its call is given.
\<close>

theorem refresh_single_flight:
  assumes "account_run m fl answers"
  shows "distinct (map fst fl) \<and> (\<forall>v. v \<notin> fst ` set fl \<longrightarrow> (\<exists>c m'. refreshEnter v m = (Leads c, m'))) \<and>
    (\<forall>(v, c, r)\<in>set fl. refreshEnter v m = (Joins c, m) \<and> am_calls m ! c = CallRunning \<and> (\<forall>err ctxErr. joinResult c ctxErr (refreshLeave v c err m) = err))"
proof -
  have ok: "flightOk fl m" using account_run_ok [OF assms] by blast
  then have d: "distinct (map fst fl)" and g: "gget (am_refreshes m) v = map_option fst (map_of fl v)" for v by (auto simp: flightOk_def)
  have "\<exists>c m'. refreshEnter v m = (Leads c, m')" if "v \<notin> fst ` set fl" for v
  proof -
    have "map_of fl v = None" using that by (simp add: map_of_eq_None_iff)
    then show ?thesis using g [of v] by (simp add: refreshEnter_def Let_def)
  qed
  moreover have "refreshEnter v m = (Joins c, m) \<and> am_calls m ! c = CallRunning \<and> (\<forall>err ctxErr. joinResult c ctxErr (refreshLeave v c err m) = err)"
    if "(v, c, r) \<in> set fl" for v c r
  proof -
    have "map_of fl v = Some (c, r)" using d that by simp
    moreover have "c < length (am_calls m)" "am_calls m ! c = CallRunning" using ok that by (auto simp: flightOk_def)
    ultimately show ?thesis using g [of v] by (simp add: refreshEnter_def joinResult_def refreshLeave_def)
  qed
  ultimately show ?thesis using d by blast
qed

section \<open>An example history\<close>

definition exStartTime :: time where "exStartTime = 1000 * Second"

definition exStart :: Manager where
  "exStart = (case NewManager [Some VenueBybit] (30 * Second) (60 * Second) of Inr m \<Rightarrow> m)"

definition exWallet :: WalletAccount where
  "exWallet = \<lparr>wa_AccountType = ''UNIFIED'', wa_TotalEquity = ''100000'',
     wa_Coin = [\<lparr>cb_Coin = ''btc'', cb_Equity = ''2'', cb_USDValue = [], cb_WalletBalance = ''2'', cb_Free = [], cb_Locked = ''0.5'', cb_BorrowAmount = ''0''\<rparr>]\<rparr>"

definition exAnswer :: AccountSnapshot where
  "exAnswer = (case BybitProvider_Snapshot ''main'' exStartTime (Some (Inr [exWallet])) of Inr s \<Rightarrow> s)"

definition exRefreshEnv :: RefreshEnv where
  "exRefreshEnv = \<lparr>rf_Answer = Inr exAnswer, rf_RTT = Millisecond, rf_Finished = exStartTime\<rparr>"

definition exEntered :: Manager where "exEntered = snd (refreshEnter VenueBybit exStart)"

definition exCommitted :: Manager where "exCommitted = snd (refresh exRefreshEnv VenueBybit exEntered)"

definition exPriced :: Manager where
  "exPriced = snd (UpdateUSDPrices 0 [\<lparr>up_Asset = ''BTC'', up_Value = ''50000'', up_Source = ''index'', up_ObservedAt = exStartTime, up_ReceivedAt = exStartTime\<rparr>]
     exStartTime exCommitted)"

lemma exEntered_run: "account_run exEntered [(VenueBybit, 0, None)] []"
proof -
  have "NewManager [Some VenueBybit] (30 * Second) (60 * Second) = Inr exStart"
    by (simp add: exStart_def NewManager_def Second_def emptyManager_def)
  then have start: "account_run exStart [] []" by (rule account_run.start)
  have "refreshEnter VenueBybit exStart = (Leads 0, exEntered)"
    by (simp add: exEntered_def refreshEnter_def exStart_def NewManager_def Second_def emptyManager_def VenueBybit_def)
  from account_run.enter [OF start this] show ?thesis by simp
qed

lemma exPriced_run: "account_run exPriced [(VenueBybit, 0, Some None)] [(VenueBybit, exAnswer)]"
proof -
  have "fst (refresh exRefreshEnv VenueBybit exEntered) = None \<and> VenueBybit \<in> set (am_providers exEntered)" by code_simp
  then have r: "refresh exRefreshEnv VenueBybit exEntered = (None, exCommitted)" "VenueBybit \<in> set (am_providers exEntered)"
    by (auto simp: exCommitted_def prod_eq_iff)
  have "account_run exEntered ([] @ (VenueBybit, 0, None) # []) []" using exEntered_run by simp
  from account_run.commit [OF this r(1)] have "account_run exCommitted [(VenueBybit, 0, Some None)] [(VenueBybit, exAnswer)]"
    using r(2) by (simp add: exRefreshEnv_def)
  then show ?thesis unfolding exPriced_def by (rule account_run.quiet [OF _ account_quiet.prices])
qed

lemma exAnswer_provided: "BybitProvider_Snapshot ''main'' exStartTime (Some (Inr [exWallet])) = Inr exAnswer"
  by (simp add: exAnswer_def BybitProvider_Snapshot_def exWallet_def)

lemma exAnswer_from_provider: "fromProviders [(VenueBybit, exAnswer)]"
proof -
  have "an_SnapshotAsOf exAnswer = exStartTime" by code_simp
  then show ?thesis using exAnswer_provided by (auto simp: fromProviders_def exStartTime_def Second_def)
qed

theorem account_totals_exact_witness:
  "\<exists>s ws. gget (am_snapshots exPriced) VenueBybit = Some s \<and> an_LocalMarkedTotalUSD s = ''100000'' \<and> an_Venue s = VenueBybit \<and> valued s ws"
proof -
  have "case gget (am_snapshots exPriced) VenueBybit of None \<Rightarrow> False | Some s \<Rightarrow> an_LocalMarkedTotalUSD s = ''100000''" by code_simp
  then obtain s where s: "gget (am_snapshots exPriced) VenueBybit = Some s" "an_LocalMarkedTotalUSD s = ''100000''" by (auto split: option.splits)
  from account_totals_exact [OF exPriced_run s(1)] show ?thesis using s by blast
qed

theorem revaluation_uses_fresh_prices_witness:
  "\<exists>s a. gget (am_snapshots (Revalue 0 (exStartTime + Second) exPriced)) VenueBybit = Some s \<and> a \<in> set (an_Assets s) \<and> as_USDValue a = ''100000'' \<and>
     freshMark (am_prices exPriced) (am_valuationMaxAge exPriced) (exStartTime + Second) a"
proof -
  have "case gget (am_snapshots (Revalue 0 (exStartTime + Second) exPriced)) VenueBybit of None \<Rightarrow> False
      | Some s \<Rightarrow> an_Assets s \<noteq> [] \<and> as_USDValue (hd (an_Assets s)) = ''100000''" by code_simp
  then obtain s where s: "gget (am_snapshots (Revalue 0 (exStartTime + Second) exPriced)) VenueBybit = Some s" "hd (an_Assets s) \<in> set (an_Assets s)"
    "as_USDValue (hd (an_Assets s)) = ''100000''" by (auto split: option.splits)
  have "exStartTime + Second \<noteq> 0" by (simp add: exStartTime_def Second_def)
  then show ?thesis using revaluation_uses_fresh_prices [OF exPriced_run s(1,2)] s by auto
qed

theorem capacity_from_latest_answer_witness:
  "\<exists>revision asOf. Capacity exStartTime exStartTime VenueBybit ''BTC'' exPriced = (''1.5'', revision, asOf, True) \<and>
     (\<exists>account :: WalletAccount. bybitOwns (wa_Coin account) ''BTC'' ''1.5'')"
proof -
  have "case Capacity exStartTime exStartTime VenueBybit ''BTC'' exPriced of (text, _, _, b) \<Rightarrow> text = ''1.5'' \<and> b" by code_simp
  then obtain revision asOf where c: "Capacity exStartTime exStartTime VenueBybit ''BTC'' exPriced = (''1.5'', revision, asOf, True)" by auto
  from capacity_from_latest_answer [OF exPriced_run exAnswer_from_provider c] show ?thesis using c by (auto simp: VenueBybit_def VenueDeribit_def)
qed

theorem refresh_single_flight_witness:
  "refreshEnter VenueBybit exEntered = (Joins 0, exEntered) \<and> (\<exists>c m'. refreshEnter VenueDeribit exEntered = (Leads c, m'))"
  using refresh_single_flight [OF exEntered_run] by (simp add: VenueBybit_def VenueDeribit_def)

end
