(* ===== verification/AccountMetricsProps.thy ===== *)
theory AccountMetricsProps
  imports AccountProps
begin

text \<open>
  Order latencies: a submission's timing is one object reached by two keys, so the first event of an order counts once, whichever
  identifier it comes with.
\<close>

section \<open>The timing of an order\<close>

text \<open>An order's timing is at an address that both keys of the venue's map lead to, and no entry has the empty key.\<close>

definition timed :: "venue \<Rightarrow> string \<Rightarrow> string \<Rightarrow> nat \<Rightarrow> OrderTiming \<Rightarrow> VenueHealth \<Rightarrow> Manager \<Rightarrow> bool" where
  "timed v clientID venueID addr t h m \<longleftrightarrow>
     (let entries = innerMap (am_orderTimings m) v in
      gget entries (timingKey ''client'' clientID) = Some addr \<and> gget entries (timingKey ''venue'' venueID) = Some addr \<and> gget entries [] = None) \<and>
     addr < length (am_timings m) \<and> am_timings m ! addr = t \<and> gget (am_health m) v = Some h"

text \<open>An event names the order by the client's identifier or by the venue's.\<close>

definition recordEvent :: "venue \<Rightarrow> string \<Rightarrow> string \<Rightarrow> bool \<times> string \<times> time \<Rightarrow> Manager \<Rightarrow> Manager" where
  "recordEvent v clientID venueID e m =
     (case e of (byClient, kind, received) \<Rightarrow>
        RecordOrderEvent received v (if byClient then clientID else []) (if byClient then [] else venueID) kind received m)"

definition latencyAt :: "OrderTiming \<Rightarrow> time \<Rightarrow> duration" where
  "latencyAt t received = nonNegativeDuration (Sub received (ot_AckAt t))"

lemma lookup_timed:
  assumes "timed v clientID venueID addr t h m"
  shows "lookupTiming (innerMap (am_orderTimings m) v) (if b then clientID else []) (if b then [] else venueID) = Some addr"
  using assms by (cases b) (auto simp: timed_def Let_def lookupTiming_def timingKey_def split: option.splits)

lemma recordEvent_timed:
  assumes "timed v clientID venueID addr t h m"
  shows "timed v clientID venueID addr
    (case observeEvent kind (latencyAt t received) t h of None \<Rightarrow> t | Some (t', _) \<Rightarrow> t')
    (case observeEvent kind (latencyAt t received) t h of None \<Rightarrow> h | Some (_, h') \<Rightarrow> h') (recordEvent v clientID venueID (b, kind, received) m)"
proof -
  have f: "addr < length (am_timings m)" "am_timings m ! addr = t" "gget (am_health m) v = Some h" using assms by (auto simp: timed_def)
  show ?thesis
    using assms f unfolding recordEvent_def prod.case RecordOrderEvent_def lookup_timed [OF assms] f(3) latencyAt_def
    by (auto simp: timed_def Let_def gomap_simps split: option.splits)
qed

lemma observeEvent_ack: "observeEvent kind d t h = Some (t', h') \<Longrightarrow> ot_AckAt t' = ot_AckAt t"
  by (auto simp: observeEvent_def split: if_splits)

text \<open>The order events of a list, in their order; the first one is the one that counts.\<close>

definition firstLatency :: "OrderTiming \<Rightarrow> string \<Rightarrow> (bool \<times> string \<times> time) list \<Rightarrow> duration option" where
  "firstLatency t kind es = map_option (\<lambda>(_, _, received). latencyAt t received) (find (\<lambda>(_, k, _). eventKind k = kind) es)"

definition shownLatency :: "bool \<Rightarrow> duration option \<Rightarrow> duration \<Rightarrow> duration" where
  "shownLatency observed first old = (if observed then old else case first of None \<Rightarrow> old | Some d \<Rightarrow> d)"

lemma firstLatency_Cons:
  "firstLatency t kind ((b, k, received) # es) = (if eventKind k = kind then Some (latencyAt t received) else firstLatency t kind es)"
  by (simp add: firstLatency_def)

lemma firstLatency_cong: "ot_AckAt t = ot_AckAt t' \<Longrightarrow> firstLatency t kind es = firstLatency t' kind es"
  by (simp add: firstLatency_def latencyAt_def)

lemma recordEvents_latencies:
  assumes "timed v clientID venueID addr t h m"
  shows "\<exists>t' h'. timed v clientID venueID addr t' h' (foldl (\<lambda>m e. recordEvent v clientID venueID e m) m es) \<and>
    vh_FirstOrderEventLatency h' = shownLatency (ot_OrderObserved t) (firstLatency t ''order'' es) (vh_FirstOrderEventLatency h) \<and>
    vh_FirstExecutionEventLatency h' = shownLatency (ot_ExecObserved t) (firstLatency t ''execution'' es) (vh_FirstExecutionEventLatency h)"
  using assms
proof (induction es arbitrary: t h m)
  case Nil
  then show ?case by (auto simp: shownLatency_def firstLatency_def)
next
  case (Cons e es)
  obtain b kind received where e: "e = (b, kind, received)" by (cases e) auto
  note step = recordEvent_timed [OF Cons.prems, of kind received b]
  show ?case
  proof (cases "observeEvent kind (latencyAt t received) t h")
    case None
    then have "eventKind kind = ''order'' \<Longrightarrow> ot_OrderObserved t" "eventKind kind = ''execution'' \<Longrightarrow> ot_ExecObserved t"
      by (auto simp: observeEvent_def split: if_splits)
    then show ?thesis using Cons.IH step None by (fastforce simp: e firstLatency_Cons shownLatency_def)
  next
    case (Some th)
    obtain t1 h1 where th: "th = (t1, h1)" by (cases th)
    have s1: "timed v clientID venueID addr t1 h1 (recordEvent v clientID venueID e m)" using step by (simp add: Some th e)
    have a: "ot_AckAt t1 = ot_AckAt t" using observeEvent_ack Some th by simp
    obtain t' h' where ih: "timed v clientID venueID addr t' h' (foldl (\<lambda>m e. recordEvent v clientID venueID e m) (recordEvent v clientID venueID e m) es)"
      "vh_FirstOrderEventLatency h' = shownLatency (ot_OrderObserved t1) (firstLatency t ''order'' es) (vh_FirstOrderEventLatency h1)"
      "vh_FirstExecutionEventLatency h' = shownLatency (ot_ExecObserved t1) (firstLatency t ''execution'' es) (vh_FirstExecutionEventLatency h1)"
      using Cons.IH [OF s1] unfolding firstLatency_cong [OF a] by blast
    show ?thesis using ih(2,3) Some th
      by (intro exI [of _ t'] exI [of _ h'])
        (use ih(1) in \<open>auto simp: e observeEvent_def firstLatency_Cons shownLatency_def split: if_splits option.splits\<close>)
  qed
qed

section \<open>No empty keys\<close>

definition keysOk :: "Manager \<Rightarrow> bool" where
  "keysOk m \<longleftrightarrow> (\<forall>v. [] \<notin> fst ` set (innerMap (am_orderTimings m) v))"

lemma innerMap_gput: "innerMap (gput v e maps) u = (if u = v then e else innerMap maps u)"
  by (simp add: innerMap_def gomap_simps)

lemma keysOk_same: "am_orderTimings m' = am_orderTimings m \<Longrightarrow> keysOk m \<Longrightarrow> keysOk m'"
  by (simp add: keysOk_def)

lemma keysOk_emit [simp]: "keysOk (emit kind v t m) = keysOk m"
  by (simp add: keysOk_def)

lemma shareTiming_keys: "[] \<notin> fst ` set entries \<Longrightarrow> [] \<notin> fst ` set (shareTiming c v addr entries)"
  by (auto simp: shareTiming_def Let_def dom_update)

lemma timings_kept:
  "am_orderTimings (snd (UpdateUSDPrices clock updates when m)) = am_orderTimings m"
  "am_orderTimings (Revalue clock when m) = am_orderTimings m"
  "am_orderTimings (snd (SetValuationMaxAge maxAge m)) = am_orderTimings m"
  "am_orderTimings (UpdatePublicWS now venue state when reconnects m) = am_orderTimings m"
  "am_orderTimings (UpdatePrivateWS now venue state when reconnects m) = am_orderTimings m"
  "am_orderTimings (UpdateWSReceiveTimes venue publicAt privateAt m) = am_orderTimings m"
  "am_orderTimings (RecordOrderEvent clock venue clientID venueID kind received m) = am_orderTimings m"
  "am_orderTimings (UpdateReconciliation clock venue status discrepancy when m) = am_orderTimings m"
  "am_orderTimings (snd (refresh env venue m)) = am_orderTimings m"
  "am_orderTimings (snd (refreshEnter venue m)) = am_orderTimings m"
proof -
  have p: "am_orderTimings (publishValuationEvents vs t m) = am_orderTimings m" for vs t m
    unfolding publishValuationEvents_def by (induction vs arbitrary: m) simp_all
  have r: "am_orderTimings (fst (revalueSnapshots now es (m, ch))) = am_orderTimings m" for now es m ch
  proof (induction es arbitrary: m ch)
    case (Cons e es)
    obtain v s where e: "e = (v, s)" by (cases e)
    show ?case by (cases "applyValuationLocked m now s"; cases "fst (applyValuationLocked m now s)") (use Cons in \<open>auto simp: e Let_def\<close>)
  qed simp
  have l: "am_orderTimings (fst (revalueLocked now m)) = am_orderTimings m" for now m
    using r by (simp add: revalueLocked_def case_prod_beta)
  show "am_orderTimings (snd (UpdateUSDPrices clock updates when m)) = am_orderTimings m"
    by (simp add: UpdateUSDPrices_def Let_def p l case_prod_beta split: option.split)
  show "am_orderTimings (Revalue clock when m) = am_orderTimings m"
    by (simp add: Revalue_def Let_def p l case_prod_beta)
qed (auto simp: SetValuationMaxAge_def UpdatePublicWS_def UpdatePrivateWS_def UpdateWSReceiveTimes_def RecordOrderEvent_def
    UpdateReconciliation_def refresh_def refreshFailed_def refreshSucceeded_def refreshEnter_def keepPendingEvent_def prunePendingOrderEventsLocked_def
    Let_def split: option.splits prod.splits sum.splits)

lemma keysOk_submission: "keysOk m \<Longrightarrow> keysOk (RecordOrderSubmission clock v clientID venueID ack rtt accepted rateLimited m)"
proof -
  assume k: "keysOk m"
  have s: "keysOk (pruneOrderTimingsLocked v before m')" if "am_orderTimings m' = gput v (shareTiming clientID venueID addr (innerMap (am_orderTimings m) v)) (am_orderTimings m)" for before m' addr
    using k that shareTiming_keys [of "innerMap (am_orderTimings m) v" clientID venueID addr]
    by (auto simp: keysOk_def pruneOrderTimingsLocked_def innerMap_gput)
  show ?thesis using k s
    by (auto simp: RecordOrderSubmission_def Let_def applyPendingOrderEventsLocked_def split: option.splits prod.splits intro!: s intro: keysOk_same [of _ m])
qed

lemma account_run_keys: "account_run m fl answers \<Longrightarrow> keysOk m"
proof (induction rule: account_run.induct)
  case (start providers interval staleAge m)
  have "keysOk m \<Longrightarrow> keysOk m'" if "addProviders ps m = Inr m'" for ps m m'
    using that by (induction ps m rule: addProviders.induct) (auto simp: keysOk_def innerMap_gput split: if_splits)
  from this [of providers "emptyManager interval staleAge" m] start show ?case
    by (simp add: NewManager_def emptyManager_def keysOk_def innerMap_def split: if_splits)
next
  case (enter m fl answers v c m')
  then show ?case using timings_kept(10) [of v m] keysOk_same by simp
next
  case (commit m fl v c fl' answers env err m')
  then show ?case using timings_kept(9) [of env v m] keysOk_same by simp
next
  case (leave m fl v c err fl' answers)
  then show ?case by (simp add: keysOk_def refreshLeave_def)
next
  case (quiet m fl answers m')
  from quiet(2,3) show ?case
    by (cases rule: account_quiet.cases) (auto intro: keysOk_submission keysOk_same simp: timings_kept)
qed

section \<open>First events\<close>

lemma gget_filter_keep: "gget xs k = Some a \<Longrightarrow> P a \<Longrightarrow> gget (filter (\<lambda>(_, a). P a) xs) k = Some a"
  by (induction xs) (auto split: if_splits)

lemma submission_timed:
  assumes "keysOk m" "gget (am_health m) v = Some h" "TrimSpace clientID \<noteq> []" "TrimSpace venueID \<noteq> []" "ack \<noteq> 0"
    "lookupTiming (innerMap (am_pendingOrderEvents m) v) clientID venueID = None"
  shows "timed v clientID venueID (length (am_timings m)) \<lparr>ot_AckAt = ack, ot_OrderObserved = False, ot_ExecObserved = False\<rparr>
    (submissionHealth (nonNegativeDuration rtt) True rateLimited h) (RecordOrderSubmission clock v clientID venueID ack rtt True rateLimited m)"
proof -
  let ?addr = "length (am_timings m)"
  let ?entries = "shareTiming clientID venueID ?addr (innerMap (am_orderTimings m) v)"
  have ne: "timingKey ''client'' clientID \<noteq> []" "timingKey ''venue'' venueID \<noteq> []" "timingKey ''client'' clientID \<noteq> timingKey ''venue'' venueID"
    using assms(3,4) by (auto simp: timingKey_def)
  have g: "gget ?entries (timingKey ''client'' clientID) = Some ?addr" "gget ?entries (timingKey ''venue'' venueID) = Some ?addr"
    using ne by (simp_all add: shareTiming_def Let_def gomap_simps)
  let ?old = "\<lambda>addr. \<not> Before (ot_AckAt ((am_timings m @ [\<lparr>ot_AckAt = ack, ot_OrderObserved = False, ot_ExecObserved = False\<rparr>]) ! addr)) (Add ack (- Hour))"
  have "?old ?addr" by (simp add: Before_def Add_def Hour_def)
  note kept = gget_filter_keep [of _ _ _ ?old, OF g(1) this] gget_filter_keep [of _ _ _ ?old, OF g(2) this]
  have "[] \<notin> fst ` set ?entries" using shareTiming_keys assms(1) by (simp add: keysOk_def)
  then have "gget (filter Q ?entries) [] = None" for Q by (auto simp: map_of_eq_None_iff)
  then show ?thesis using assms(2,5,6) kept
    by (simp add: RecordOrderSubmission_def Let_def applyPendingOrderEventsLocked_def timed_def pruneOrderTimingsLocked_def innerMap_gput IsZero_def gomap_simps)
qed

text \<open>
  The first event of an order counts once, whatever identifier it comes with. In every history, after an accepted submission with both
  identifiers of which no event is waiting, and any sequence of later events of that order, each named by the client's or by the venue's identifier,
  the venue's health shows as first order latency the time from the acknowledgement to the first order event, never negative, and the same for
  executions; later events do not change it, and without an event the previous latency stands.
\<close>

theorem first_event_counted_once:
  assumes "account_run m fl answers" "gget (am_health m) v = Some h" "TrimSpace clientID \<noteq> []" "TrimSpace venueID \<noteq> []" "ack \<noteq> 0"
    "lookupTiming (innerMap (am_pendingOrderEvents m) v) clientID venueID = None"
  shows "\<exists>h'. gget (am_health (foldl (\<lambda>m e. recordEvent v clientID venueID e m)
      (RecordOrderSubmission clock v clientID venueID ack rtt True rateLimited m) es)) v = Some h' \<and>
    vh_FirstOrderEventLatency h' = (case find (\<lambda>(_, kind, _). eventKind kind = ''order'') es of
      None \<Rightarrow> vh_FirstOrderEventLatency h | Some (_, _, received) \<Rightarrow> max 0 (Sub received ack)) \<and>
    vh_FirstExecutionEventLatency h' = (case find (\<lambda>(_, kind, _). eventKind kind = ''execution'') es of
      None \<Rightarrow> vh_FirstExecutionEventLatency h | Some (_, _, received) \<Rightarrow> max 0 (Sub received ack))"
proof -
  note t = submission_timed [OF account_run_keys [OF assms(1)] assms(2-6), of rtt rateLimited clock]
  obtain t' h' where h': "timed v clientID venueID (length (am_timings m)) t' h' (foldl (\<lambda>m e. recordEvent v clientID venueID e m)
      (RecordOrderSubmission clock v clientID venueID ack rtt True rateLimited m) es)"
    "vh_FirstOrderEventLatency h' = shownLatency False
      (firstLatency \<lparr>ot_AckAt = ack, ot_OrderObserved = False, ot_ExecObserved = False\<rparr> ''order'' es) (vh_FirstOrderEventLatency h)"
    "vh_FirstExecutionEventLatency h' = shownLatency False
      (firstLatency \<lparr>ot_AckAt = ack, ot_OrderObserved = False, ot_ExecObserved = False\<rparr> ''execution'' es) (vh_FirstExecutionEventLatency h)"
    using recordEvents_latencies [OF t, of es] by (auto simp: submissionHealth_def)
  have "nonNegativeDuration d = max 0 d" for d by (simp add: nonNegativeDuration_def max_def)
  then show ?thesis using h' by (intro exI [of _ h']) (auto simp: timed_def shownLatency_def firstLatency_def latencyAt_def split: option.splits)
qed

theorem first_event_counted_once_witness:
  "\<exists>h'. gget (am_health (foldl (\<lambda>m e. recordEvent VenueBybit ''c1'' ''v1'' e m)
      (RecordOrderSubmission 0 VenueBybit ''c1'' ''v1'' exStartTime Millisecond True False exPriced)
      [(False, ''order'', exStartTime + 5), (True, ''Order'', exStartTime + 9)])) VenueBybit = Some h' \<and> vh_FirstOrderEventLatency h' = 5"
proof -
  have "case gget (am_health exPriced) VenueBybit of None \<Rightarrow> False | Some h \<Rightarrow> lookupTiming (innerMap (am_pendingOrderEvents exPriced) VenueBybit) ''c1'' ''v1'' = None"
    by code_simp
  then obtain h where h: "gget (am_health exPriced) VenueBybit = Some h" "lookupTiming (innerMap (am_pendingOrderEvents exPriced) VenueBybit) ''c1'' ''v1'' = None"
    by (auto split: option.splits)
  have ids: "TrimSpace ''c1'' \<noteq> []" "TrimSpace ''v1'' \<noteq> []" by code_simp+
  have t: "exStartTime \<noteq> 0" by (simp add: exStartTime_def Second_def)
  have k: "eventKind ''order'' = ''order''" by code_simp
  have "Sub (exStartTime + 5) exStartTime = 5" by (simp add: Sub_def)
  then show ?thesis
    using first_event_counted_once [OF exPriced_run h(1) ids t h(2), of 0 Millisecond False "[(False, ''order'', exStartTime + 5), (True, ''Order'', exStartTime + 9)]"]
    by (auto simp: k)
qed

end
