(* ===== verification/SpotAdapters.thy ===== *)
theory SpotAdapters
  imports QuickTradeApp AccountState DeribitData GoText GoCalendar
begin

text \<open>
  The spot adapters (\<open>internal/spotadapter\<close>): instrument rules with their cache, order books, capacities, fees and the submission
  of a quick trade, for Bybit and for Deribit. The REST clients are parameters: what they answer is an argument of each call. SHA-256 is a parameter of the
  metadata revision. A call reads the cache and, after its request, writes it; other calls may write in between, so that the cache
  a call writes to is an argument of its own. \<open>Fee\<close> of the Deribit adapter calls its client without checking that there is one; the model has a client there.
\<close>

section \<open>Decimals (common.go)\<close>

definition adapterNonNegative :: "string \<Rightarrow> rat option" where
  "adapterNonNegative raw = (case SetString (TrimSpace raw) of Some v \<Rightarrow> (if v \<ge> 0 then Some v else None) | None \<Rightarrow> None)"

definition adapterPositive :: "string \<Rightarrow> rat option" where
  "adapterPositive raw = (case adapterNonNegative raw of Some v \<Rightarrow> (if v > 0 then Some v else None) | None \<Rightarrow> None)"

definition minimumDecimal :: "string \<Rightarrow> string \<Rightarrow> string result" where
  "minimumDecimal left right =
     (case (adapterNonNegative left, adapterNonNegative right) of
        (Some l, Some r) \<Rightarrow> Inr (if l \<le> r then decimalString l else decimalString r)
      | _ \<Rightarrow> Inl (EText ''capacity contains an invalid decimal''))"

definition hexLower :: "nat \<Rightarrow> char" where
  "hexLower d = (if d < 10 then char_of (48 + d) else char_of (87 + d))"

definition EncodeHex :: "string \<Rightarrow> string" where
  "EncodeHex s = concat (map (\<lambda>c. [hexLower (byte c div 16), hexLower (byte c mod 16)]) s)"

definition revision :: "(string \<Rightarrow> string) \<Rightarrow> string list \<Rightarrow> string" where
  "revision sha256 vals = EncodeHex (take 8 (sha256 (joinWith [char_of (0 :: nat)] vals)))"

section \<open>The cache of instrument rules\<close>

record CachedRules =
  ch_value :: InstrumentRules
  ch_expiresAt :: time
  ch_feeRate :: string

type_synonym rulesCache = "(string, CachedRules) gomap"

definition metadataTTL :: "duration \<Rightarrow> duration" where
  "metadataTTL ttl = (if ttl \<le> 0 then 5 * Minute else ttl)"

definition lookupRules :: "time \<Rightarrow> string \<Rightarrow> rulesCache \<Rightarrow> InstrumentRules option" where
  "lookupRules now instrument cache =
     (case gget cache instrument of
        Some c \<Rightarrow> (if Before now (ch_expiresAt c) then Some (ch_value c) else None)
      | None \<Rightarrow> None)"

definition storeRules :: "duration \<Rightarrow> time \<Rightarrow> string \<Rightarrow> InstrumentRules \<Rightarrow> string \<Rightarrow> rulesCache \<Rightarrow> rulesCache" where
  "storeRules ttl now instrument rules feeRate cache =
     gput instrument \<lparr>ch_value = rules, ch_expiresAt = Add now (metadataTTL ttl), ch_feeRate = feeRate\<rparr> cache"

section \<open>Bybit (bybit.go)\<close>

record BybitInstrument =
  bi_Symbol :: string
  bi_Status :: string
  bi_BaseCoin :: string
  bi_QuoteCoin :: string
  bi_TickSize :: string
  bi_MinOrderQty :: string
  bi_MaxOrderQty :: string
  bi_QtyStep :: string
  bi_MinNotional :: string
  bi_MinOrderAmt :: string

record BybitSpotBook =
  bb_Symbol :: string
  bb_Bids :: "string list list"
  bb_Asks :: "string list list"
  bb_TimestampMS :: int

record FeeRate =
  fr_Symbol :: string
  fr_TakerFeeRate :: string

record SpotBorrowCapacity =
  sb_Symbol :: string
  sb_Side :: string
  sb_SpotMaxTradeQty :: string
  sb_SpotMaxTradeAmount :: string

record PlaceOrderRequest =
  po_Category :: string
  po_Symbol :: string
  po_Side :: string
  po_OrderType :: string
  po_Qty :: string
  po_Price :: string
  po_TimeInForce :: string
  po_OrderLinkID :: string
  po_IsLeverage :: "int option"

text \<open>What placing an order answers: the acknowledged order, an \<open>APIError\<close> (or \<open>RPCError\<close>) in the error chain, or another error.\<close>

datatype 'a PlaceAnswer = Placed 'a | PlaceRejected goerror | PlaceFailed goerror

definition bybitMinimumNotional :: "BybitInstrument \<Rightarrow> string" where
  "bybitMinimumNotional i = (if bi_MinOrderAmt i = [] then bi_MinNotional i else bi_MinOrderAmt i)"

definition bybitMinimumQuantity :: "BybitInstrument \<Rightarrow> string" where
  "bybitMinimumQuantity i = (if bi_MinOrderQty i = [] then bi_QtyStep i else bi_MinOrderQty i)"

definition bybitRules :: "(string \<Rightarrow> string) \<Rightarrow> BybitInstrument \<Rightarrow> InstrumentRules" where
  "bybitRules sha256 i =
     \<lparr>ir_Instrument = bi_Symbol i, ir_BaseAsset = bi_BaseCoin i, ir_QuoteAsset = bi_QuoteCoin i, ir_TickSize = bi_TickSize i,
      ir_QuantityStep = bi_QtyStep i, ir_MinimumQuantity = bybitMinimumQuantity i, ir_MinimumNotional = bybitMinimumNotional i,
      ir_MaximumQuantity = bi_MaxOrderQty i,
      ir_MetadataRevision = revision sha256 [bi_Symbol i, bi_BaseCoin i, bi_QuoteCoin i, bi_TickSize i, bi_QtyStep i,
        bybitMinimumQuantity i, bybitMinimumNotional i, bi_MaxOrderQty i]\<rparr>"

text \<open>The rules made of the instruments the client answers with.\<close>

definition bybitFetch :: "(string \<Rightarrow> string) \<Rightarrow> string \<Rightarrow> BybitInstrument list result \<Rightarrow> (InstrumentRules \<times> string) result" where
  "bybitFetch sha256 instrument answer =
     rbind answer (\<lambda>instruments.
       (case instruments of
          [i] \<Rightarrow>
            (if bi_Symbol i \<noteq> instrument \<or> bi_Status i \<noteq> ''Trading'' then Inl (EText ''Bybit Spot instrument is not active'')
             else if adapterPositive (bi_TickSize i) = None then Inl (EText ''Bybit Spot tick size is invalid'')
             else if adapterPositive (bi_QtyStep i) = None then Inl (EText ''Bybit Spot quantity step is invalid'')
             else if adapterPositive (bybitMinimumQuantity i) = None then Inl (EText ''Bybit Spot minimum quantity is invalid'')
             else Inr (bybitRules sha256 i, []))
        | _ \<Rightarrow> Inl (EText ''Bybit Spot instrument metadata is unavailable'')))"

text \<open>
  A lookup of the rules: from the cache, or from the client and then stored in the cache as it is by then (\<open>later\<close>).
\<close>

definition Bybit_instrumentRules ::
  "(string \<Rightarrow> string) \<Rightarrow> duration \<Rightarrow> time \<Rightarrow> BybitInstrument list result \<Rightarrow> Route \<Rightarrow> rulesCache \<Rightarrow> rulesCache \<Rightarrow> InstrumentRules result \<times> rulesCache" where
  "Bybit_instrumentRules sha256 ttl now answer r cache later =
     (case lookupRules now (rt_Instrument r) cache of
        Some rules \<Rightarrow> (Inr rules, later)
      | None \<Rightarrow>
          (case bybitFetch sha256 (rt_Instrument r) answer of
             Inl e \<Rightarrow> (Inl e, later)
           | Inr (rules, fee) \<Rightarrow> (Inr rules, storeRules ttl now (rt_Instrument r) rules fee later)))"

fun bookLevels :: "string list list \<Rightarrow> BookLevel list result" where
  "bookLevels [] = Inr []"
| "bookLevels (l # ls) =
     (case l of
        [price, quantity] \<Rightarrow> rbind (bookLevels ls) (\<lambda>rest. Inr (\<lparr>bl_Price = price, bl_Quantity = quantity\<rparr> # rest))
      | _ \<Rightarrow> Inl (EText ''order book level must contain price and quantity''))"

definition wrapError :: "string \<Rightarrow> 'a result \<Rightarrow> 'a result" where
  "wrapError what r = (case r of Inl e \<Rightarrow> Inl (EWrap what e) | Inr x \<Rightarrow> Inr x)"

definition Bybit_Market ::
  "(string \<Rightarrow> string) \<Rightarrow> duration \<Rightarrow> time \<Rightarrow> bool \<Rightarrow> BybitInstrument list result \<Rightarrow> BybitSpotBook result \<Rightarrow> Route \<Rightarrow> rulesCache \<Rightarrow> rulesCache
   \<Rightarrow> MarketSnapshot result \<times> rulesCache" where
  "Bybit_Market sha256 ttl now client answer bookAnswer r cache later =
     (if \<not> client then (Inl (EText ''Bybit Spot client is unavailable''), later)
      else
        (case Bybit_instrumentRules sha256 ttl now answer r cache later of
           (Inl e, cache') \<Rightarrow> (Inl e, cache')
         | (Inr rules, cache') \<Rightarrow>
             (rbind bookAnswer (\<lambda>book.
                if bb_Symbol book \<noteq> rt_Instrument r \<or> bb_TimestampMS book \<le> 0
                then Inl (EText ''Bybit Spot order book scope or timestamp is invalid'')
                else
                  rbind (wrapError ''Bybit Spot bids: '' (bookLevels (bb_Bids book))) (\<lambda>bids.
                  rbind (wrapError ''Bybit Spot asks: '' (bookLevels (bb_Asks book))) (\<lambda>asks.
                  Inr \<lparr>ms_Rules = rules, ms_Bids = bids, ms_Asks = asks, ms_ObservedAt = FromUnixMilli (bb_TimestampMS book)\<rparr>))), cache')))"

text \<open>The account manager's \<open>Capacity\<close> is a function of the venue and the asset; \<open>None\<close> when there is no manager.\<close>

type_synonym capacityReader = "venue \<Rightarrow> string \<Rightarrow> string \<times> int \<times> time \<times> bool"

definition Bybit_Available :: "capacityReader option \<Rightarrow> bool \<Rightarrow> (string \<Rightarrow> string \<Rightarrow> SpotBorrowCapacity result) \<Rightarrow> Route \<Rightarrow> string \<Rightarrow> Quote.Capacity result" where
  "Bybit_Available accounts client borrow r asset =
     (case accounts of
        None \<Rightarrow> Inl (EText ''Bybit account capacity is unavailable'')
      | Some capacityOf \<Rightarrow>
          (case capacityOf VenueBybit (ToUpper (TrimSpace asset)) of
             (available, accountRevision, observedAt, ok) \<Rightarrow>
               (if \<not> ok then Inl (EText ''Bybit account capacity is stale or unknown'')
                else if \<not> EqualFold asset (rt_FromAsset r)
                then Inr \<lparr>cy_Available = available, cy_AccountRevision = accountRevision, cy_ObservedAt = observedAt\<rparr>
                else if \<not> client then Inl (EText ''Bybit Spot client is unavailable'')
                else
                  rbind (borrow (rt_Instrument r) (rt_Side r)) (\<lambda>capacity.
                    if sb_Symbol capacity \<noteq> rt_Instrument r \<or> sb_Side capacity \<noteq> rt_Side r
                    then Inl (EText ''Bybit Spot capacity scope is invalid'')
                    else
                      rbind (minimumDecimal available (if rt_Side r = SideBuy then sb_SpotMaxTradeAmount capacity else sb_SpotMaxTradeQty capacity)) (\<lambda>least.
                        Inr \<lparr>cy_Available = least, cy_AccountRevision = accountRevision, cy_ObservedAt = observedAt\<rparr>)))))"

definition Bybit_Fee :: "bool \<Rightarrow> FeeRate list result \<Rightarrow> Route \<Rightarrow> FeePolicy result" where
  "Bybit_Fee client answer r =
     (if \<not> client then Inl (EText ''Bybit Spot client is unavailable'')
      else
        rbind answer (\<lambda>rates.
          (case rates of
             [rate] \<Rightarrow>
               (if fr_Symbol rate \<noteq> rt_Instrument r then Inl (EText ''Bybit Spot fee rate scope is invalid'')
                else if adapterNonNegative (fr_TakerFeeRate rate) = None then Inl (EText ''Bybit Spot taker fee is invalid'')
                else Inr \<lparr>fp_Rate = fr_TakerFeeRate rate, fp_ChargeAsset = ''to'', fp_ThirdAsset = [], fp_ThirdAssetAmount = [],
                          fp_Source = ''Bybit account Spot taker fee''\<rparr>)
           | _ \<Rightarrow> Inl (EText ''Bybit Spot fee rate scope is invalid''))))"

definition bybitOrder :: "QuickTrade \<Rightarrow> PlaceOrderRequest" where
  "bybitOrder t =
     \<lparr>po_Category = ''spot'', po_Symbol = q_Instrument (t_Quote t), po_Side = q_Side (t_Quote t), po_OrderType = ''Limit'',
      po_Qty = q_BaseQty (t_Quote t), po_Price = q_LimitPrice (t_Quote t), po_TimeInForce = ''IOC'', po_OrderLinkID = t_ClientOrderID t,
      po_IsLeverage = Some 0\<rparr>"

definition Bybit_Submit :: "bool \<Rightarrow> (PlaceOrderRequest \<Rightarrow> string PlaceAnswer) \<Rightarrow> QuickTrade \<Rightarrow> SubmitOutcome" where
  "Bybit_Submit client place t =
     (if \<not> client then SubmitFailed (EText ''Bybit Spot client is unavailable'')
      else
        (case place (bybitOrder t) of
           PlaceRejected _ \<Rightarrow> SubmitRejected ''Bybit rejected the Spot order.''
         | PlaceFailed e \<Rightarrow> SubmitFailed e
         | Placed orderID \<Rightarrow>
             (if TrimSpace orderID = [] then SubmitFailed (EText ''Bybit acknowledged the request without an order ID'')
              else Submitted \<lparr>sm_VenueOrderID = orderID, sm_RawVenueStatus = ''ACKNOWLEDGED'', sm_Accepted = True\<rparr>)))"

section \<open>Deribit (deribit.go)\<close>

record DeribitSpotBook =
  db_InstrumentName :: string
  db_TimestampMS :: int
  db_Bids :: "string list list"
  db_Asks :: "string list list"

definition deribitRules :: "(string \<Rightarrow> string) \<Rightarrow> Instrument \<Rightarrow> InstrumentRules" where
  "deribitRules sha256 i =
     \<lparr>ir_Instrument = in_InstrumentName i, ir_BaseAsset = in_BaseCurrency i, ir_QuoteAsset = in_QuoteCurrency i, ir_TickSize = in_TickSize i,
      ir_QuantityStep = in_AmountStep i, ir_MinimumQuantity = in_MinTradeAmount i, ir_MinimumNotional = [], ir_MaximumQuantity = [],
      ir_MetadataRevision = revision sha256 [in_InstrumentName i, in_BaseCurrency i, in_QuoteCurrency i, in_TickSize i, in_AmountStep i,
        in_MinTradeAmount i, in_TakerCommission i]\<rparr>"

definition deribitFetch :: "(string \<Rightarrow> string) \<Rightarrow> string \<Rightarrow> Instrument result \<Rightarrow> (InstrumentRules \<times> string) result" where
  "deribitFetch sha256 instrument answer =
     rbind answer (\<lambda>i.
       if in_InstrumentName i \<noteq> instrument \<or> in_Kind i \<noteq> ''spot'' \<or> \<not> in_IsActive i then Inl (EText ''Deribit Spot instrument is not active'')
       else if in_TickSizeSteps i \<noteq> [] then Inl (EText ''Deribit segmented Spot tick sizes are not supported by Quick Trade'')
       else if adapterPositive (in_TickSize i) = None then Inl (EText ''Deribit Spot tick size is invalid'')
       else if adapterPositive (in_AmountStep i) = None then Inl (EText ''Deribit Spot amount step is invalid'')
       else if adapterPositive (in_MinTradeAmount i) = None then Inl (EText ''Deribit Spot minimum amount is invalid'')
       else if adapterNonNegative (in_TakerCommission i) = None then Inl (EText ''Deribit Spot taker commission is invalid'')
       else Inr (deribitRules sha256 i, in_TakerCommission i))"

definition Deribit_instrumentRules ::
  "(string \<Rightarrow> string) \<Rightarrow> duration \<Rightarrow> time \<Rightarrow> Instrument result \<Rightarrow> Route \<Rightarrow> rulesCache \<Rightarrow> rulesCache \<Rightarrow> InstrumentRules result \<times> rulesCache" where
  "Deribit_instrumentRules sha256 ttl now answer r cache later =
     (case lookupRules now (rt_Instrument r) cache of
        Some rules \<Rightarrow> (Inr rules, later)
      | None \<Rightarrow>
          (case deribitFetch sha256 (rt_Instrument r) answer of
             Inl e \<Rightarrow> (Inl e, later)
           | Inr (rules, fee) \<Rightarrow> (Inr rules, storeRules ttl now (rt_Instrument r) rules fee later)))"

definition Deribit_Market ::
  "(string \<Rightarrow> string) \<Rightarrow> duration \<Rightarrow> time \<Rightarrow> bool \<Rightarrow> Instrument result \<Rightarrow> DeribitSpotBook result \<Rightarrow> Route \<Rightarrow> rulesCache \<Rightarrow> rulesCache
   \<Rightarrow> MarketSnapshot result \<times> rulesCache" where
  "Deribit_Market sha256 ttl now client answer bookAnswer r cache later =
     (if \<not> client then (Inl (EText ''Deribit Spot client is unavailable''), later)
      else
        (case Deribit_instrumentRules sha256 ttl now answer r cache later of
           (Inl e, cache') \<Rightarrow> (Inl e, cache')
         | (Inr rules, cache') \<Rightarrow>
             (rbind bookAnswer (\<lambda>book.
                if db_InstrumentName book \<noteq> rt_Instrument r \<or> db_TimestampMS book \<le> 0
                then Inl (EText ''Deribit Spot order book scope or timestamp is invalid'')
                else
                  rbind (wrapError ''Deribit Spot bids: '' (bookLevels (db_Bids book))) (\<lambda>bids.
                  rbind (wrapError ''Deribit Spot asks: '' (bookLevels (db_Asks book))) (\<lambda>asks.
                  Inr \<lparr>ms_Rules = rules, ms_Bids = bids, ms_Asks = asks, ms_ObservedAt = FromUnixMilli (db_TimestampMS book)\<rparr>))), cache')))"

definition Deribit_Available :: "capacityReader option \<Rightarrow> Route \<Rightarrow> string \<Rightarrow> Quote.Capacity result" where
  "Deribit_Available accounts r asset =
     (case accounts of
        None \<Rightarrow> Inl (EText ''Deribit account capacity is unavailable'')
      | Some capacityOf \<Rightarrow>
          (case capacityOf VenueDeribit (ToUpper (TrimSpace asset)) of
             (available, accountRevision, observedAt, ok) \<Rightarrow>
               (if \<not> ok then Inl (EText ''Deribit conservative Spot capacity is stale or unknown'')
                else Inr \<lparr>cy_Available = available, cy_AccountRevision = accountRevision, cy_ObservedAt = observedAt\<rparr>)))"

definition cachedInstrumentFee :: "string \<Rightarrow> rulesCache \<Rightarrow> string" where
  "cachedInstrumentFee instrument cache = (case gget cache instrument of None \<Rightarrow> [] | Some c \<Rightarrow> ch_feeRate c)"

text \<open>The fee is read from the cache after the rules, again as the cache is by then.\<close>

definition Deribit_Fee ::
  "(string \<Rightarrow> string) \<Rightarrow> duration \<Rightarrow> time \<Rightarrow> Instrument result \<Rightarrow> Route \<Rightarrow> rulesCache \<Rightarrow> rulesCache \<Rightarrow> (rulesCache \<Rightarrow> rulesCache) \<Rightarrow> FeePolicy result \<times> rulesCache" where
  "Deribit_Fee sha256 ttl now answer r cache later others =
     (case Deribit_instrumentRules sha256 ttl now answer r cache later of
        (Inl e, cache1) \<Rightarrow> (Inl e, cache1)
      | (Inr rules, cache1) \<Rightarrow>
          (let quoteAsset = ToUpper (TrimSpace (ir_QuoteAsset rules));
               cache2 = others cache1;
               policy = (\<lambda>charge. Inr \<lparr>fp_Rate = cachedInstrumentFee (rt_Instrument r) cache2, fp_ChargeAsset = charge, fp_ThirdAsset = [],
                                      fp_ThirdAssetAmount = [], fp_Source = ''Deribit Spot instrument taker commission''\<rparr>) in
           if quoteAsset = rt_FromAsset r then (policy ''from'', cache2)
           else if quoteAsset = rt_ToAsset r then (policy ''to'', cache2)
           else (Inl (EText ''Deribit Spot fee currency is outside the selected route''), cache1)))"

definition deribitOrder :: "QuickTrade \<Rightarrow> PlaceParams" where
  "deribitOrder t =
     \<lparr>pp_InstrumentName = q_Instrument (t_Quote t), pp_Amount = q_BaseQty (t_Quote t), pp_Type = ''limit'', pp_Label = t_ClientOrderID t,
      pp_Price = q_LimitPrice (t_Quote t), pp_TimeInForce = ''immediate_or_cancel'', pp_PostOnly = False, pp_ReduceOnly = False\<rparr>"

definition Deribit_Submit :: "bool \<Rightarrow> (string \<Rightarrow> PlaceParams \<Rightarrow> OrderResult PlaceAnswer) \<Rightarrow> QuickTrade \<Rightarrow> SubmitOutcome" where
  "Deribit_Submit client place t =
     (if \<not> client then SubmitFailed (EText ''Deribit Spot client is unavailable'')
      else
        (case place (ToLower (q_Side (t_Quote t))) (deribitOrder t) of
           PlaceRejected _ \<Rightarrow> SubmitRejected ''Deribit rejected the Spot order.''
         | PlaceFailed e \<Rightarrow> SubmitFailed e
         | Placed res \<Rightarrow>
             (let ord = ack_Order res in
              if EqualFold (do_OrderState ord) ''rejected'' then SubmitRejected ''Deribit rejected the Spot order.''
              else if TrimSpace (do_OrderID ord) = [] then SubmitFailed (EText ''Deribit acknowledged the request without an order ID'')
              else Submitted \<lparr>sm_VenueOrderID = do_OrderID ord, sm_RawVenueStatus = do_OrderState ord, sm_Accepted = True\<rparr>)))"

end
