(* ===== verification/SpotProps.thy ===== *)
theory SpotProps
  imports SpotAdapters AccountProps QuoteProps
begin

text \<open>
  Properties of the spot adapters: instrument rules are never older than the metadata's time to live, whatever calls overlap, and an executable quote
  debits no more than the account manager and the venue allow.
\<close>

section \<open>The cache of instrument rules\<close>

text \<open>What both adapters promise of the rules they fetch: their scope, and positive steps.\<close>

definition positiveRules :: "InstrumentRules \<Rightarrow> bool" where
  "positiveRules rules \<longleftrightarrow> adapterPositive (ir_TickSize rules) \<noteq> None \<and> adapterPositive (ir_QuantityStep rules) \<noteq> None \<and>
     adapterPositive (ir_MinimumQuantity rules) \<noteq> None"

text \<open>The writes of any calls to a cache, in the order in which they take the lock, with what each of them fetched and when.\<close>

inductive cache_run ::
  "(string \<Rightarrow> 'a result \<Rightarrow> (InstrumentRules \<times> string) result) \<Rightarrow> duration \<Rightarrow> rulesCache \<Rightarrow> (string \<times> time \<times> InstrumentRules \<times> string) list \<Rightarrow> bool"
  for fetch ttl where
  start: "cache_run fetch ttl [] []"
| store: "cache_run fetch ttl cache fs \<Longrightarrow> fetch i answer = Inr (rules, fee) \<Longrightarrow>
    cache_run fetch ttl (storeRules ttl now i rules fee cache) (fs @ [(i, now, rules, fee)])"

locale rules_source =
  fixes fetch :: "string \<Rightarrow> 'a result \<Rightarrow> (InstrumentRules \<times> string) result"
  assumes fetch_scope: "fetch i answer = Inr (rules, fee) \<Longrightarrow> ir_Instrument rules = i"
    and fetch_positive: "fetch i answer = Inr (rules, fee) \<Longrightarrow> positiveRules rules"
begin

lemma cached_fetched:
  assumes "cache_run fetch ttl cache fs" "gget cache i = Some c"
  shows "\<exists>t. (i, t, ch_value c, ch_feeRate c) \<in> set fs \<and> ch_expiresAt c = t + metadataTTL ttl \<and> ir_Instrument (ch_value c) = i \<and> positiveRules (ch_value c)"
  using assms
proof (induction rule: cache_run.induct)
  case (store cache fs j answer rules fee now)
  show ?case
  proof (cases "i = j")
    case True
    then have "c = \<lparr>ch_value = rules, ch_expiresAt = Add now (metadataTTL ttl), ch_feeRate = fee\<rparr>"
      using store.prems by (simp add: storeRules_def gomap_simps)
    then show ?thesis using True fetch_scope [OF store.hyps(2)] fetch_positive [OF store.hyps(2)] by (auto simp: Add_def)
  next
    case False
    then have "gget cache i = Some c" using store.prems by (simp add: storeRules_def gomap_simps)
    then show ?thesis using store.IH by auto
  qed
qed simp

lemma lookup_fresh:
  assumes "cache_run fetch ttl cache fs" "lookupRules now i cache = Some rules"
  shows "(\<exists>t fee. (i, t, rules, fee) \<in> set fs \<and> now < t + metadataTTL ttl) \<and> ir_Instrument rules = i \<and> positiveRules rules"
proof -
  obtain c where c: "gget cache i = Some c" "now < ch_expiresAt c" "rules = ch_value c"
    using assms(2) by (auto simp: lookupRules_def Before_def split: option.splits if_splits)
  then show ?thesis using cached_fetched [OF assms(1) c(1)] by auto
qed

lemma fetch_fresh:
  assumes "fetch i answer = Inr (rules, fee)" "cache_run fetch ttl cache fs"
  shows "now < now + metadataTTL ttl \<and> ir_Instrument rules = i \<and> positiveRules rules \<and>
    cache_run fetch ttl (storeRules ttl now i rules fee cache) (fs @ [(i, now, rules, fee)])"
proof -
  have "0 < metadataTTL ttl" by (simp add: metadataTTL_def Minute_def)
  then show ?thesis using cache_run.store [OF assms(2,1)] fetch_scope [OF assms(1)] fetch_positive [OF assms(1)] by simp
qed

end

lemma bybitFetch_Inr:
  assumes "bybitFetch sha256 i answer = Inr (rules, fee)"
  shows "\<exists>x. rules = bybitRules sha256 x \<and> bi_Symbol x = i \<and> positiveRules rules"
proof (cases answer)
  case (Inr xs)
  then show ?thesis using assms
    by (cases xs; cases "tl xs") (auto simp: bybitFetch_def positiveRules_def bybitRules_def split: if_splits)
qed (use assms in \<open>simp add: bybitFetch_def\<close>)

interpretation bybitSource: rules_source "bybitFetch sha256" for sha256
  by unfold_locales (auto dest!: bybitFetch_Inr simp: bybitRules_def)

interpretation deribitSource: rules_source "deribitFetch sha256" for sha256
  by unfold_locales (auto simp: deribitFetch_def deribitRules_def positiveRules_def result_simps split: if_splits)

section \<open>Properties of the cache\<close>

text \<open>
  Instrument rules are fresh and in scope, whatever calls overlap. Let the Bybit adapter's cache be the result of any writes when a call reads
  it, and of any further writes when the call writes it. Rules that the call returns were fetched less than the time to live before the call's reading of the clock
  (by an earlier write, or by this call), name the instrument of the route, and have a positive tick, step and minimum; and the cache it leaves is again the result of such writes.
\<close>

theorem bybit_rules_fresh:
  assumes "cache_run (bybitFetch sha256) ttl cache fs" "cache_run (bybitFetch sha256) ttl later fs'"
    "Bybit_instrumentRules sha256 ttl now answer r cache later = (Inr rules, cache')"
  shows "(\<exists>t fee. ((rt_Instrument r, t, rules, fee) \<in> set fs \<or> t = now \<and> bybitFetch sha256 (rt_Instrument r) answer = Inr (rules, fee)) \<and> now < t + metadataTTL ttl) \<and>
    ir_Instrument rules = rt_Instrument r \<and> positiveRules rules \<and> (\<exists>fs''. cache_run (bybitFetch sha256) ttl cache' fs'')"
proof (cases "lookupRules now (rt_Instrument r) cache")
  case None
  then obtain fee where "bybitFetch sha256 (rt_Instrument r) answer = Inr (rules, fee)" "cache' = storeRules ttl now (rt_Instrument r) rules fee later"
    using assms(3) by (auto simp: Bybit_instrumentRules_def split: sum.splits)
  then show ?thesis using bybitSource.fetch_fresh [OF _ assms(2)] by blast
next
  case (Some v)
  then have "v = rules" "cache' = later" using assms(3) by (auto simp: Bybit_instrumentRules_def)
  then show ?thesis using bybitSource.lookup_fresh [OF assms(1)] Some assms(2) by blast
qed

text \<open>The Deribit adapter keeps the same promise.\<close>

theorem deribit_rules_fresh:
  assumes "cache_run (deribitFetch sha256) ttl cache fs" "cache_run (deribitFetch sha256) ttl later fs'"
    "Deribit_instrumentRules sha256 ttl now answer r cache later = (Inr rules, cache')"
  shows "(\<exists>t fee. ((rt_Instrument r, t, rules, fee) \<in> set fs \<or> t = now \<and> deribitFetch sha256 (rt_Instrument r) answer = Inr (rules, fee)) \<and> now < t + metadataTTL ttl) \<and>
    ir_Instrument rules = rt_Instrument r \<and> positiveRules rules \<and> (\<exists>fs''. cache_run (deribitFetch sha256) ttl cache' fs'')"
proof (cases "lookupRules now (rt_Instrument r) cache")
  case None
  then obtain fee where "deribitFetch sha256 (rt_Instrument r) answer = Inr (rules, fee)" "cache' = storeRules ttl now (rt_Instrument r) rules fee later"
    using assms(3) by (auto simp: Deribit_instrumentRules_def split: sum.splits)
  then show ?thesis using deribitSource.fetch_fresh [OF _ assms(2)] by blast
next
  case (Some v)
  then have "v = rules" "cache' = later" using assms(3) by (auto simp: Deribit_instrumentRules_def)
  then show ?thesis using deribitSource.lookup_fresh [OF assms(1)] Some assms(2) by blast
qed

section \<open>Capacities\<close>

lemma adapterNonNegative_eq: "adapterNonNegative = nonNegativeRat"
  by (rule ext) (simp add: adapterNonNegative_def nonNegativeRat_def accountRat_def)

lemma minimumDecimal_Inr:
  assumes "minimumDecimal a b = Inr least"
  shows "\<exists>x y. nonNegativeRat a = Some x \<and> nonNegativeRat b = Some y \<and> least = decimalString (min x y)"
  using assms by (cases "nonNegativeRat a"; cases "nonNegativeRat b") (auto simp: minimumDecimal_def adapterNonNegative_eq min_def split: if_splits)

lemma decimalString_near:
  assumes "0 \<le> x" "SetString (TrimSpace (decimalString x)) = Some y"
  shows "y \<le> x + 1 / (2 * 10 ^ 18)"
proof -
  have "SetString (decimalString x) = Some y" using assms(2) TrimSpace_visible decimalString_visible by metis
  then have "y = of_int (scaled 18 x) / 10 ^ 18 \<or> y = 0 \<and> x = 0"
    using SetString_decimalString_rounded [of x] assms(1) by (cases "x = 0") (auto simp: sgn_if)
  moreover have "of_int (scaled 18 x) \<le> x * 10 ^ 18 + 1 / 2" using assms(1) by (simp add: scaled_def)
  ultimately show ?thesis by (auto simp: field_simps)
qed

lemma Bybit_Available_Inr:
  assumes "Bybit_Available (Some capacityOf) True borrow r (rt_FromAsset r) = Inr c"
  shows "\<exists>amt revision asOf capacity acc spot. capacityOf VenueBybit (ToUpper (TrimSpace (rt_FromAsset r))) = (amt, revision, asOf, True) \<and>
    borrow (rt_Instrument r) (rt_Side r) = Inr capacity \<and> nonNegativeRat amt = Some acc \<and>
    nonNegativeRat (if rt_Side r = SideBuy then sb_SpotMaxTradeAmount capacity else sb_SpotMaxTradeQty capacity) = Some spot \<and>
    cy_Available c = decimalString (min acc spot)"
proof -
  obtain amt revision asOf ok where t: "capacityOf VenueBybit (ToUpper (TrimSpace (rt_FromAsset r))) = (amt, revision, asOf, ok)" by (metis surj_pair)
  have "EqualFold (rt_FromAsset r) (rt_FromAsset r)" by (simp add: EqualFold_def)
  then have "ok" and "\<exists>capacity. borrow (rt_Instrument r) (rt_Side r) = Inr capacity \<and>
      minimumDecimal amt (if rt_Side r = SideBuy then sb_SpotMaxTradeAmount capacity else sb_SpotMaxTradeQty capacity) = Inr (cy_Available c)"
    using assms t by (auto simp: Bybit_Available_def result_simps split: if_splits)
  then show ?thesis using t by (auto dest!: minimumDecimal_Inr)
qed

text \<open>The provider of the quote service that the Bybit adapter is, over an account manager.\<close>

definition bybitProvider ::
  "(string \<Rightarrow> string) \<Rightarrow> duration \<Rightarrow> time \<Rightarrow> (Route \<Rightarrow> BybitInstrument list result) \<Rightarrow> (Route \<Rightarrow> BybitSpotBook result) \<Rightarrow> (Route \<Rightarrow> FeeRate list result)
   \<Rightarrow> (string \<Rightarrow> string \<Rightarrow> SpotBorrowCapacity result) \<Rightarrow> rulesCache \<Rightarrow> rulesCache \<Rightarrow> capacityReader \<Rightarrow> Provider" where
  "bybitProvider sha256 ttl t instruments books rates borrow cache later capacityOf =
     \<lparr>pv_Market = (\<lambda>r. fst (Bybit_Market sha256 ttl t True (instruments r) (books r) r cache later)),
      pv_Available = Bybit_Available (Some capacityOf) True borrow, pv_Fee = (\<lambda>r. Bybit_Fee True (rates r) r)\<rparr>"

text \<open>
  C6. A quote never spends more than the account holds. Let the quote service use the Bybit adapter over an account manager in any state of any history whose answers come
  from the program's providers. Then filling an executable quote completely, fees included, debits at most what the
  latest wallet answer of the venue says of the source asset (its free balance, or its wallet balance less what is locked and borrowed), and at most
  the venue's own limit without borrowing for that side; both up to half a unit of the 18th decimal, to which capacities are rounded.
\<close>

theorem quote_backed_by_account:
  assumes "account_run m fl answers" "fromProviders answers"
    "gget (qs_Providers s) VenueBybit = Some (bybitProvider sha256 ttl t instruments books rates borrow cache later (\<lambda>v a. AccountState.Capacity now1 now2 v a m))"
    "Create s now newID req = Inr q" "q_Executable q" "cr_Venue req = VenueBybit"
  shows "\<exists>r debit amt acc answer accountAlias at_time account capacity spot.
    gget supportedRoutes (cr_RouteID req) = Some r \<and> q_SourceDebitUpperBound q = decimalString debit \<and>
    map_of (rev answers) VenueBybit = Some answer \<and> BybitProvider_Snapshot accountAlias at_time (Some (Inr [account])) = Inr answer \<and>
    bybitOwns (wa_Coin account) (ToUpper (TrimSpace (rt_FromAsset r))) amt \<and> nonNegativeRat amt = Some acc \<and> debit \<le> acc + 1 / (2 * 10 ^ 18) \<and>
    borrow (rt_Instrument r) (rt_Side r) = Inr capacity \<and>
    nonNegativeRat (if rt_Side r = SideBuy then sb_SpotMaxTradeAmount capacity else sb_SpotMaxTradeQty capacity) = Some spot \<and> debit \<le> spot + 1 / (2 * 10 ^ 18)"
proof -
  obtain r provider market rules book fee rate spend limit quantity where
    i: "quoteInputs s now req r provider market rules book fee rate spend"
    and z: "sizeOrder r rules book (fp_ChargeAsset fee) rate (qs_SlippageBPS s) spend = Inr (limit, quantity)"
    and b: "buildQuote s provider req r market book fee rate spend limit quantity now newID = Inr q"
    using assms(4,5) by (rule Create_executable)
  let ?debit = "sourceDebitUpperBound (rt_Side r) quantity limit (fp_ChargeAsset fee) rate"
  have p: "gget supportedRoutes (cr_RouteID req) = Some r" "pv_Available provider = Bybit_Available (Some (\<lambda>v a. AccountState.Capacity now1 now2 v a m)) True borrow"
    using i assms(3,6) by (auto simp: quoteInputs_def bybitProvider_def)
  from b obtain c y where c: "pv_Available provider r (rt_FromAsset r) = Inr c" "SetString (TrimSpace (cy_Available c)) = Some y" "?debit \<le> y"
    "q_SourceDebitUpperBound q = decimalString ?debit"
    by (cases rule: buildQuote_ok) (auto simp: decimal_iff)
  obtain amt revision asOf capacity acc spot where a: "AccountState.Capacity now1 now2 VenueBybit (ToUpper (TrimSpace (rt_FromAsset r))) m = (amt, revision, asOf, True)"
    "borrow (rt_Instrument r) (rt_Side r) = Inr capacity" "nonNegativeRat amt = Some acc"
    "nonNegativeRat (if rt_Side r = SideBuy then sb_SpotMaxTradeAmount capacity else sb_SpotMaxTradeQty capacity) = Some spot"
    "cy_Available c = decimalString (min acc spot)"
    using Bybit_Available_Inr c(1) unfolding p(2) by blast
  have "0 \<le> acc" "0 \<le> spot" using a(3,4) by (auto simp: nonNegativeRat_def split: option.splits if_splits)
  then have "?debit \<le> min acc spot + 1 / (2 * 10 ^ 18)" using decimalString_near [of "min acc spot" y] c(2,3) a(5) by auto
  then have "?debit \<le> acc + 1 / (2 * 10 ^ 18)" "?debit \<le> spot + 1 / (2 * 10 ^ 18)" by (auto simp: min_def split: if_splits)
  moreover obtain answer accountAlias at_time account where "map_of (rev answers) VenueBybit = Some answer"
    "BybitProvider_Snapshot accountAlias at_time (Some (Inr [account])) = Inr answer" "bybitOwns (wa_Coin account) (ToUpper (TrimSpace (rt_FromAsset r))) amt"
    using Capacity_backed [OF assms(1,2) a(1)] by (auto simp: VenueBybit_def VenueDeribit_def)
  ultimately show ?thesis using p(1) c(4) a by blast
qed

section \<open>Examples\<close>

definition exInstrument :: BybitInstrument where
  "exInstrument = \<lparr>bi_Symbol = ''BTCUSDT'', bi_Status = ''Trading'', bi_BaseCoin = ''BTC'', bi_QuoteCoin = ''USDT'', bi_TickSize = ''1'',
     bi_MinOrderQty = ''0.1'', bi_MaxOrderQty = ''9'', bi_QtyStep = ''0.1'', bi_MinNotional = [], bi_MinOrderAmt = ''5''\<rparr>"

definition exSell :: Route where "exSell = snd (route ''bybit-btc-usdt'' VenueBybit ''BTCUSDT'' ''BTC'' ''USDT'' ''BTC'' ''USDT'' SideSell)"

definition exBybit :: Provider where
  "exBybit = bybitProvider (\<lambda>t. t) 0 (unixEpoch + 10 * Second) (\<lambda>_. Inr [exInstrument])
     (\<lambda>_. Inr \<lparr>bb_Symbol = ''BTCUSDT'', bb_Bids = [[''100'', ''3'']], bb_Asks = [[''101'', ''3'']], bb_TimestampMS = 9000\<rparr>)
     (\<lambda>_. Inr [\<lparr>fr_Symbol = ''BTCUSDT'', fr_TakerFeeRate = ''0.001''\<rparr>])
     (\<lambda>i side. Inr \<lparr>sb_Symbol = i, sb_Side = side, sb_SpotMaxTradeQty = ''1.2'', sb_SpotMaxTradeAmount = ''120''\<rparr>) [] []
     (\<lambda>v a. AccountState.Capacity exStartTime exStartTime v a exPriced)"

definition exQuotes :: QuoteService where
  "exQuotes = \<lparr>qs_Providers = [(VenueBybit, exBybit)], qs_TTL = 30 * Second, qs_BookMaxAge = 5 * Second, qs_SlippageBPS = 50,
     qs_Caps = \<lparr>cp_ByAsset = [(''BTC'', ''2'')], cp_ByVenueSource = [(''bybit:BTC'', ''2'')]\<rparr>\<rparr>"

definition exSpend :: CreateRequest where
  "exSpend = \<lparr>cr_Identity = ''a'', cr_Venue = VenueBybit, cr_RouteID = ''bybit-btc-usdt'', cr_SpendBudget = ''1'', cr_AccountAlias = ''main''\<rparr>"

lemma exQuote_made:
  obtains q where "Create exQuotes (unixEpoch + 10 * Second) (Inr ''q'') exSpend = Inr q" "q_Executable q"
proof -
  have "case Create exQuotes (unixEpoch + 10 * Second) (Inr ''q'') exSpend of Inl _ \<Rightarrow> False | Inr q \<Rightarrow> q_Executable q"
    by code_simp
  then show thesis using that by (auto split: sum.splits)
qed

theorem quote_backed_by_account_witness:
  "\<exists>q debit. Create exQuotes (unixEpoch + 10 * Second) (Inr ''q'') exSpend = Inr q \<and> q_SourceDebitUpperBound q = decimalString debit \<and>
     debit \<le> 12 / 10 + 1 / (2 * 10 ^ 18)"
proof -
  obtain q where q: "Create exQuotes (unixEpoch + 10 * Second) (Inr ''q'') exSpend = Inr q" "q_Executable q" by (rule exQuote_made)
  have p: "gget (qs_Providers exQuotes) VenueBybit = Some exBybit" "cr_Venue exSpend = VenueBybit" "gget supportedRoutes (cr_RouteID exSpend) = Some exSell"
    by (simp_all add: exQuotes_def exSpend_def supportedRoutes_def exSell_def route_def)
  have s: "nonNegativeRat ''1.2'' = Some (12 / 10)" by code_simp
  have "rt_Side exSell \<noteq> SideBuy" by code_simp
  then show ?thesis
    using quote_backed_by_account [OF exPriced_run exAnswer_from_provider p(1) [unfolded exBybit_def] q p(2)] q s p(3) by auto
qed

theorem bybit_rules_fresh_witness:
  "\<exists>rules cache. Bybit_instrumentRules (\<lambda>t. t) 0 7 (Inr [exInstrument]) exSell [] [] = (Inr rules, cache) \<and> 7 < (7 :: int) + metadataTTL 0 \<and>
     ir_Instrument rules = ''BTCUSDT'' \<and> positiveRules rules"
proof -
  have "case Bybit_instrumentRules (\<lambda>t. t) 0 7 (Inr [exInstrument]) exSell [] [] of (Inr _, _) \<Rightarrow> True | _ \<Rightarrow> False" by code_simp
  then obtain rules cache where r: "Bybit_instrumentRules (\<lambda>t. t) 0 7 (Inr [exInstrument]) exSell [] [] = (Inr rules, cache)"
    by (auto split: prod.splits sum.splits)
  have "rt_Instrument exSell = ''BTCUSDT''" by (simp add: exSell_def route_def)
  then show ?thesis using bybit_rules_fresh [OF cache_run.start cache_run.start r] r by auto
qed

end
