(* ===== verification/GoNet.thy ===== *)
theory GoNet
  imports GoText GoCalendar "HOL-Library.Word"
begin

text \<open>
  What the web console uses of Go's \<open>net\<close>, \<open>net/url\<close>, \<open>path\<close>, \<open>encoding/base64\<close> and \<open>time\<close>: IP addresses as text and as
  bytes, networks, host and port, path cleaning and unescaping, base64, and durations in seconds.
\<close>

unbundle bit_operations_syntax

section \<open>Base64 (\<open>base64.RawURLEncoding\<close>)\<close>

definition base64Char :: "nat \<Rightarrow> char" where
  "base64Char n =
     (if n < 26 then char_of (65 + n) else if n < 52 then char_of (71 + n) else if n < 62 then char_of (n - 4)
      else if n = 62 then CHR ''-'' else CHR ''_'')"

fun EncodeRawURL :: "string \<Rightarrow> string" where
  "EncodeRawURL [] = []"
| "EncodeRawURL [a] = [base64Char (byte a div 4), base64Char (byte a mod 4 * 16)]"
| "EncodeRawURL [a, b] = [base64Char (byte a div 4), base64Char (byte a mod 4 * 16 + byte b div 16), base64Char (byte b mod 16 * 4)]"
| "EncodeRawURL (a # b # c # s) =
     [base64Char (byte a div 4), base64Char (byte a mod 4 * 16 + byte b div 16), base64Char (byte b mod 16 * 4 + byte c div 64),
      base64Char (byte c mod 64)] @ EncodeRawURL s"

lemma base64Char_not_dot: "base64Char n \<noteq> CHR ''.''"
proof
  assume "base64Char n = CHR ''.''"
  moreover have "byte (CHR ''.'') = 46" by (simp add: byte_def)
  ultimately have "byte (base64Char n) = 46" by simp
  then show False by (auto simp: base64Char_def byte_def split: if_splits)
qed

lemma EncodeRawURL_no_dot [simp]: "CHR ''.'' \<notin> set (EncodeRawURL s)"
  by (induction s rule: EncodeRawURL.induct) (auto simp: base64Char_not_dot base64Char_not_dot [symmetric])

section \<open>IP addresses (\<open>net.IP\<close>)\<close>

text \<open>An address is its bytes, 4 or 16 of them.\<close>

type_synonym ip = "int list"

definition octetOk :: "string \<Rightarrow> bool" where
  "octetOk f \<longleftrightarrow> f \<noteq> [] \<and> list_all isDigit f \<and> (length f = 1 \<or> hd f \<noteq> CHR ''0'') \<and> digitsVal f \<le> 255"

definition parseIPv4 :: "string \<Rightarrow> ip option" where
  "parseIPv4 s =
     (case splitByte (CHR ''.'') s of
        [a, b, c, d] \<Rightarrow> (if octetOk a \<and> octetOk b \<and> octetOk c \<and> octetOk d then Some (map digitsVal [a, b, c, d]) else None)
      | _ \<Rightarrow> None)"

definition hexVal :: "char \<Rightarrow> int option" where
  "hexVal c =
     (if isDigit c then Some (digitVal c)
      else if 97 \<le> byte c \<and> byte c \<le> 102 then Some (int (byte c) - 87)
      else if 65 \<le> byte c \<and> byte c \<le> 70 then Some (int (byte c) - 55)
      else None)"

text \<open>The hexadecimal digits a text starts with: their number, their value and the rest; more than four are an error.\<close>

fun takeHex :: "nat \<Rightarrow> int \<Rightarrow> string \<Rightarrow> (nat \<times> int \<times> string) option" where
  "takeHex off acc [] = Some (off, acc, [])"
| "takeHex off acc (c # s) =
     (case hexVal c of
        None \<Rightarrow> Some (off, acc, c # s)
      | Some d \<Rightarrow> (if off > 3 then None else takeHex (Suc off) (acc * 16 + d) s))"

text \<open>The groups of an IPv6 text: the bytes read, the position of the ellipsis and the unread rest.\<close>

function parseGroups :: "ip \<Rightarrow> nat option \<Rightarrow> string \<Rightarrow> (ip \<times> nat option \<times> string) option" where
  "parseGroups bs ell s =
     (if length bs \<ge> 16 then Some (bs, ell, s)
      else
        (case takeHex 0 0 s of
           None \<Rightarrow> None
         | Some (off, acc, rest) \<Rightarrow>
             (if off = 0 then None
              else if rest \<noteq> [] \<and> hd rest = CHR ''.'' then
                (if ell = None \<and> length bs \<noteq> 12 \<or> length bs + 4 > 16 then None
                 else (case parseIPv4 s of None \<Rightarrow> None | Some f \<Rightarrow> Some (bs @ f, ell, [])))
              else
                (let bs' = bs @ [acc div 256, acc mod 256] in
                 case rest of
                   [] \<Rightarrow> Some (bs', ell, [])
                 | [_] \<Rightarrow> None
                 | c # d # r \<Rightarrow>
                     (if c \<noteq> CHR '':'' then None
                      else if d = CHR '':'' then
                        (if ell \<noteq> None then None
                         else if r = [] then Some (bs', Some (length bs'), [])
                         else parseGroups bs' (Some (length bs')) r)
                      else parseGroups bs' ell (d # r))))))"
  by pat_completeness auto
termination
  by (relation "measure (\<lambda>(bs, _, _). 16 - length bs)") auto

declare parseGroups.simps [simp del]

definition expandIPv6 :: "ip \<times> nat option \<times> string \<Rightarrow> ip option" where
  "expandIPv6 p =
     (case p of (bs, ell, s) \<Rightarrow>
        if s \<noteq> [] then None
        else if length bs < 16 then
          map_option (\<lambda>e. take e bs @ replicate (16 - length bs) 0 @ drop e bs) ell
        else if ell \<noteq> None then None
        else Some bs)"

definition parseIPv6 :: "string \<Rightarrow> ip option" where
  "parseIPv6 s =
     (if HasPrefix s ''::'' then
        (if length s = 2 then Some (replicate 16 0)
         else Option.bind (parseGroups [] (Some 0) (drop 2 s)) expandIPv6)
      else Option.bind (parseGroups [] None s) expandIPv6)"

definition v4InV6Prefix :: ip where
  "v4InV6Prefix = replicate 10 0 @ [255, 255]"

text \<open>\<open>net.ParseIP\<close>: always 16 bytes; a zone is an error.\<close>

definition ParseIP :: "string \<Rightarrow> ip option" where
  "ParseIP s =
     (case find (\<lambda>c. c = CHR ''.'' \<or> c = CHR '':'' \<or> c = CHR ''%'') s of
        None \<Rightarrow> None
      | Some c \<Rightarrow>
          (if c = CHR ''.'' then map_option (append v4InV6Prefix) (parseIPv4 s)
           else if c = CHR '':'' \<and> CHR ''%'' \<notin> set s then parseIPv6 s
           else None))"

definition To4 :: "ip \<Rightarrow> ip option" where
  "To4 a =
     (if length a = 4 then Some a
      else if length a = 16 \<and> take 12 a = v4InV6Prefix then Some (drop 12 a)
      else None)"

definition hexDigit :: "int \<Rightarrow> char" where
  "hexDigit d = (if d < 10 then char_of (48 + d) else char_of (87 + d))"

definition hexGroup :: "int \<Rightarrow> string" where
  "hexGroup n =
     (let ds = [n div 4096, n div 256 mod 16, n div 16 mod 16, n mod 16] in
      map hexDigit (case dropWhile (\<lambda>d. d = 0) ds of [] \<Rightarrow> [0] | r \<Rightarrow> r))"

fun groups :: "ip \<Rightarrow> int list" where
  "groups (a # b # s) = (a * 256 + b) # groups s"
| "groups _ = []"

text \<open>The first longest run of at least two zero groups.\<close>

definition zeroRun :: "int list \<Rightarrow> (nat \<times> nat) option" where
  "zeroRun gs =
     foldl (\<lambda>best i.
       (let l = length (takeWhile (\<lambda>g. g = 0) (drop i gs)) in
        if 2 \<le> l \<and> l > (case best of None \<Rightarrow> 0 | Some (s, e) \<Rightarrow> e - s) then Some (i, i + l) else best)) None [0..<length gs]"

definition IPString :: "ip \<Rightarrow> string" where
  "IPString a =
     (case To4 a of
        Some v4 \<Rightarrow> joinWith ''.'' (map FormatInt v4)
      | None \<Rightarrow>
          (let gs = groups a in
           case zeroRun gs of
             None \<Rightarrow> joinWith '':'' (map hexGroup gs)
           | Some (s, e) \<Rightarrow> joinWith '':'' (map hexGroup (take s gs)) @ ''::'' @ joinWith '':'' (map hexGroup (drop e gs))))"

section \<open>Networks (\<open>net.IPNet\<close>)\<close>

record IPNet =
  nt_IP :: ip
  nt_Mask :: ip

definition networkNumberAndMask :: "IPNet \<Rightarrow> (ip \<times> ip) option" where
  "networkNumberAndMask n =
     (case (case To4 (nt_IP n) of Some v4 \<Rightarrow> Some v4 | None \<Rightarrow> (if length (nt_IP n) = 16 then Some (nt_IP n) else None)) of
        None \<Rightarrow> None
      | Some a \<Rightarrow>
          (if length (nt_Mask n) = 4 then (if length a = 4 then Some (a, nt_Mask n) else None)
           else if length (nt_Mask n) = 16 then Some (a, if length a = 4 then drop 12 (nt_Mask n) else nt_Mask n)
           else None))"

definition IPNet_Contains :: "IPNet \<Rightarrow> ip \<Rightarrow> bool" where
  "IPNet_Contains n a =
     (case networkNumberAndMask n of
        None \<Rightarrow> a = []
      | Some (nn, m) \<Rightarrow>
          (let x = (case To4 a of Some v4 \<Rightarrow> v4 | None \<Rightarrow> a) in
           length x = length nn \<and> list_all (\<lambda>(b, c, k). b AND k = c AND k) (zip x (zip nn m))))"

section \<open>Host and port\<close>

definition lastByte :: "char \<Rightarrow> string \<Rightarrow> nat option" where
  "lastByte c s = map_option (\<lambda>i. length s - 1 - i) (indexByte c (rev s))"

definition SplitHostPort :: "string \<Rightarrow> (string \<times> string) option" where
  "SplitHostPort hp =
     (case lastByte (CHR '':'') hp of
        None \<Rightarrow> None
      | Some i \<Rightarrow>
          (if hd hp = CHR ''['' then
             (case indexByte (CHR '']'') hp of
                None \<Rightarrow> None
              | Some e \<Rightarrow>
                  (if e + 1 \<noteq> i then None
                   else if CHR ''['' \<in> set (drop 1 hp) \<or> CHR '']'' \<in> set (drop (e + 1) hp) then None
                   else Some (drop 1 (take e hp), drop (i + 1) hp)))
           else if CHR '':'' \<in> set (take i hp) \<or> CHR ''['' \<in> set hp \<or> CHR '']'' \<in> set hp then None
           else Some (take i hp, drop (i + 1) hp)))"

section \<open>Paths\<close>

fun cleanSegments :: "bool \<Rightarrow> string list \<Rightarrow> string list \<Rightarrow> string list" where
  "cleanSegments rooted acc [] = rev acc"
| "cleanSegments rooted acc (p # ps) =
     (if p = [] \<or> p = ''.'' then cleanSegments rooted acc ps
      else if p = ''..'' then
        (if acc \<noteq> [] \<and> hd acc \<noteq> ''..'' then cleanSegments rooted (tl acc) ps
         else if rooted then cleanSegments rooted acc ps
         else cleanSegments rooted (p # acc) ps)
      else cleanSegments rooted (p # acc) ps)"

definition Clean :: "string \<Rightarrow> string" where
  "Clean p =
     (if p = [] then ''.''
      else
        (let rooted = (hd p = CHR ''/''); segs = cleanSegments rooted [] (splitByte (CHR ''/'') p) in
         if rooted then ''/'' @ joinWith ''/'' segs
         else if segs = [] then ''.''
         else joinWith ''/'' segs))"

text \<open>The extension of the last element.\<close>

definition Ext :: "string \<Rightarrow> string" where
  "Ext p =
     (let base = List.last (splitByte (CHR ''/'') p) in
      case lastByte (CHR ''.'') base of None \<Rightarrow> [] | Some i \<Rightarrow> drop i base)"

fun percentDecode :: "string \<Rightarrow> string option" where
  "percentDecode [] = Some []"
| "percentDecode (c # s) =
     (if c = CHR ''%'' then
        (case s of
           a # b # r \<Rightarrow>
             (case (hexVal a, hexVal b) of
                (Some x, Some y) \<Rightarrow> map_option ((#) (char_of (x * 16 + y))) (percentDecode r)
              | _ \<Rightarrow> None)
         | _ \<Rightarrow> None)
      else map_option ((#) c) (percentDecode s))"

section \<open>Durations and times as text\<close>

definition RoundDuration :: "duration \<Rightarrow> duration \<Rightarrow> duration" where
  "RoundDuration d m =
     (if m \<le> 0 then d
      else if d < 0 then (let r = (- d) mod m in if 2 * r < m then d + r else d - m + r)
      else (let r = d mod m in if 2 * r < m then d - r else d + m - r))"

definition FormatDateTime :: "time \<Rightarrow> string" where
  "FormatDateTime t =
     (let day = t div dayNanos; ns = t mod dayNanos in
      padZero 4 (FormatInt (yearOf day)) @ ''-'' @ padZero 2 (FormatInt (monthOf day)) @ ''-'' @ padZero 2 (FormatInt (dayOf day)) @
      ''T'' @ padZero 2 (FormatInt (ns div Hour)) @ '':'' @ padZero 2 (FormatInt (ns div Minute mod 60)) @ '':'' @
      padZero 2 (FormatInt (ns div Second mod 60)))"

definition FormatRFC3339 :: "time \<Rightarrow> string" where
  "FormatRFC3339 t = FormatDateTime t @ ''Z''"

definition FormatRFC3339Nano :: "time \<Rightarrow> string" where
  "FormatRFC3339Nano t =
     (let fraction = trimRightByte (CHR ''0'') (padZero 9 (FormatInt (t mod Second))) in
      FormatDateTime t @ (if fraction = [] then [] else ''.'' @ fraction) @ ''Z'')"

end
