(* ===== verification/GoURL.thy ===== *)
theory GoURL
  imports GoNet Prelude
begin

text \<open>
  \<open>url.Parse\<close> and \<open>URL.EscapedPath\<close> of \<open>net/url\<close>. User information is modelled by its presence. A host with more than one colon
  is an error for \<open>http\<close> and \<open>https\<close>, and a bracketed host must be an IPv6 address.
\<close>

section \<open>Escaping\<close>

definition alnum :: "char \<Rightarrow> bool" where
  "alnum c \<longleftrightarrow> isDigit c \<or> (65 \<le> byte c \<and> byte c \<le> 90) \<or> (97 \<le> byte c \<and> byte c \<le> 122)"

definition escapePathChar :: "char \<Rightarrow> bool" where
  "escapePathChar c \<longleftrightarrow> \<not> (alnum c \<or> c \<in> set ''-_.~$&+,/:;=@'')"

definition escapeHostChar :: "char \<Rightarrow> bool" where
  "escapeHostChar c \<longleftrightarrow> \<not> (alnum c \<or> c \<in> set ''!$&()*+,;=:[]<>-_.~'' \<or> c = CHR 39 \<or> c = CHR 34)"

definition percentEncode :: "char \<Rightarrow> string" where
  "percentEncode c = [CHR ''%'', hexUpper (byte c div 16), hexUpper (byte c mod 16)]"

definition escapePath :: "string \<Rightarrow> string" where
  "escapePath s = concat (map (\<lambda>c. if escapePathChar c then percentEncode c else [c]) s)"

definition validEncodedPath :: "string \<Rightarrow> bool" where
  "validEncodedPath s \<longleftrightarrow> list_all (\<lambda>c. c \<in> set ''!$&()*+,;=:@[]%'' \<or> c = CHR 39 \<or> \<not> escapePathChar c) s"

text \<open>Percent escapes in a host stand for bytes outside of ASCII only, and for the percent sign itself.\<close>

fun unescapeHost :: "string \<Rightarrow> string option" where
  "unescapeHost [] = Some []"
| "unescapeHost (c # s) =
     (if c = CHR ''%'' then
        (case s of
           a # b # r \<Rightarrow>
             (case (hexVal a, hexVal b) of
                (Some x, Some y) \<Rightarrow>
                  (if x < 8 \<and> \<not> (a = CHR ''2'' \<and> b = CHR ''5'') then None
                   else map_option ((#) (char_of (x * 16 + y))) (unescapeHost r))
              | _ \<Rightarrow> None)
         | _ \<Rightarrow> None)
      else if byte c < 128 \<and> escapeHostChar c then None
      else map_option ((#) c) (unescapeHost s))"

section \<open>Parsing\<close>

record URL =
  ur_Scheme :: string
  ur_Opaque :: string
  ur_User :: bool
  ur_Host :: string
  ur_Path :: string
  ur_RawPath :: string
  ur_RawQuery :: string
  ur_Fragment :: string

definition emptyURL :: URL where
  "emptyURL = \<lparr>ur_Scheme = [], ur_Opaque = [], ur_User = False, ur_Host = [], ur_Path = [], ur_RawPath = [], ur_RawQuery = [], ur_Fragment = []\<rparr>"

definition cutAt :: "char \<Rightarrow> string \<Rightarrow> string \<times> string" where
  "cutAt c s = (case indexByte c s of None \<Rightarrow> (s, []) | Some i \<Rightarrow> (take i s, drop (i + 1) s))"

definition letter :: "char \<Rightarrow> bool" where
  "letter c \<longleftrightarrow> (65 \<le> byte c \<and> byte c \<le> 90) \<or> (97 \<le> byte c \<and> byte c \<le> 122)"

text \<open>The scheme and the rest; \<open>None\<close> for a missing scheme before a colon.\<close>

fun schemeLoop :: "string \<Rightarrow> string \<Rightarrow> string \<Rightarrow> (string \<times> string) option" where
  "schemeLoop raw seen [] = Some ([], raw)"
| "schemeLoop raw seen (c # s) =
     (if letter c then schemeLoop raw (seen @ [c]) s
      else if isDigit c \<or> c \<in> set ''+-.'' then (if seen = [] then Some ([], raw) else schemeLoop raw (seen @ [c]) s)
      else if c = CHR '':'' then (if seen = [] then None else Some (seen, s))
      else Some ([], raw))"

definition getScheme :: "string \<Rightarrow> (string \<times> string) option" where
  "getScheme raw = schemeLoop raw [] raw"

definition validOptionalPort :: "string \<Rightarrow> bool" where
  "validOptionalPort p \<longleftrightarrow> (case p of [] \<Rightarrow> True | c # r \<Rightarrow> c = CHR '':'' \<and> list_all isDigit r)"

fun isPrefixAt :: "string \<Rightarrow> string \<Rightarrow> nat option" where
  "isPrefixAt m [] = (if m = [] then Some 0 else None)"
| "isPrefixAt m (c # s) = (if HasPrefix (c # s) m then Some 0 else map_option Suc (isPrefixAt m s))"

definition parseHost :: "string \<Rightarrow> string \<Rightarrow> string option" where
  "parseHost scheme host =
     (case lastByte (CHR ''['') host of
        Some 0 \<Rightarrow>
          (case lastByte (CHR '']'') host of
             None \<Rightarrow> None
           | Some i \<Rightarrow>
               (let colonPort = drop (i + 1) host; name = drop 1 (take i host) in
                if \<not> validOptionalPort colonPort then None
                else
                  (case (case isPrefixAt ''%25'' name of
                           None \<Rightarrow> Option.bind (unescapeHost name) (\<lambda>h. if h \<noteq> [] \<and> ParseIP h \<noteq> None \<and> CHR '':'' \<in> set h then Some h else None)
                         | Some z \<Rightarrow>
                             Option.bind (unescapeHost (take z name)) (\<lambda>h.
                             Option.bind (percentDecode (drop z name)) (\<lambda>zone.
                               if ParseIP h \<noteq> None \<and> CHR '':'' \<in> set h \<and> length zone > 1 then Some (h @ zone) else None))) of
                     None \<Rightarrow> None
                   | Some h \<Rightarrow> Some (''['' @ h @ '']'' @ colonPort))))
      | Some _ \<Rightarrow> None
      | None \<Rightarrow>
          (case (indexByte (CHR '':'') host, lastByte (CHR '':'') host) of
             (Some i, Some j) \<Rightarrow>
               (if i \<noteq> j \<and> (scheme = ''http'' \<or> scheme = ''https'') then None
                else if \<not> validOptionalPort (drop j host) then None
                else unescapeHost host)
           | _ \<Rightarrow> unescapeHost host))"

definition validUserinfo :: "string \<Rightarrow> bool" where
  "validUserinfo s \<longleftrightarrow> list_all (\<lambda>c. alnum c \<or> c \<in> set ''-._:~!$&()*+,;=%@'' \<or> c = CHR 39) s"

text \<open>Whether there is user information, and the host.\<close>

definition parseAuthority :: "string \<Rightarrow> string \<Rightarrow> (bool \<times> string) option" where
  "parseAuthority scheme authority =
     (case lastByte (CHR ''@'') authority of
        None \<Rightarrow> map_option (Pair False) (parseHost scheme authority)
      | Some i \<Rightarrow>
          Option.bind (parseHost scheme (drop (i + 1) authority)) (\<lambda>host.
            if validUserinfo (take i authority) \<and> percentDecode (take i authority) \<noteq> None then Some (True, host) else None))"

definition setPath :: "string \<Rightarrow> URL \<Rightarrow> URL option" where
  "setPath p u = map_option (\<lambda>path. u\<lparr>ur_Path := path, ur_RawPath := (if p = escapePath path then [] else p)\<rparr>) (percentDecode p)"

definition ctlByte :: "char \<Rightarrow> bool" where
  "ctlByte c \<longleftrightarrow> byte c < 32 \<or> byte c = 127"

definition splitQuery :: "string \<Rightarrow> string \<times> string" where
  "splitQuery rest =
     (if HasSuffix rest ''?'' \<and> length (filter (\<lambda>c. c = CHR ''?'') rest) = 1 then (butlast rest, [])
      else cutAt (CHR ''?'') rest)"

definition parseURL :: "string \<Rightarrow> URL option" where
  "parseURL raw =
     (if list_ex ctlByte raw then None
      else if raw = ''*'' then Some (emptyURL\<lparr>ur_Path := ''*''\<rparr>)
      else
        (case getScheme raw of
           None \<Rightarrow> None
         | Some (scheme0, rest0) \<Rightarrow>
             (let scheme = ToLower scheme0; rest = fst (splitQuery rest0);
                  u = emptyURL\<lparr>ur_Scheme := scheme, ur_RawQuery := snd (splitQuery rest0)\<rparr> in
              if \<not> HasPrefix rest ''/'' \<and> scheme \<noteq> [] then Some (u\<lparr>ur_Opaque := rest\<rparr>)
              else if \<not> HasPrefix rest ''/'' \<and> CHR '':'' \<in> set (fst (cutAt (CHR ''/'') rest)) then None
              else if (scheme \<noteq> [] \<or> \<not> HasPrefix rest ''///'') \<and> HasPrefix rest ''//'' then
                (let authority = takeWhile (\<lambda>c. c \<noteq> CHR ''/'') (drop 2 rest); path = dropWhile (\<lambda>c. c \<noteq> CHR ''/'') (drop 2 rest) in
                 case parseAuthority scheme authority of
                   None \<Rightarrow> None
                 | Some (user, host) \<Rightarrow> setPath path (u\<lparr>ur_User := user, ur_Host := host\<rparr>))
              else setPath rest u)))"

definition ParseURL :: "string \<Rightarrow> URL option" where
  "ParseURL raw =
     (case cutAt (CHR ''#'') raw of
        (base, frag) \<Rightarrow>
          (case parseURL base of
             None \<Rightarrow> None
           | Some u \<Rightarrow> (if frag = [] then Some u else map_option (\<lambda>f. u\<lparr>ur_Fragment := f\<rparr>) (percentDecode frag))))"

definition EscapedPath :: "URL \<Rightarrow> string" where
  "EscapedPath u =
     (if ur_RawPath u \<noteq> [] \<and> validEncodedPath (ur_RawPath u) \<and> percentDecode (ur_RawPath u) = Some (ur_Path u) then ur_RawPath u
      else if ur_Path u = ''*'' then ''*''
      else escapePath (ur_Path u))"

section \<open>Where a longer text with the same start leads\<close>

lemma schemeLoop_append:
  assumes "schemeLoop (raw @ t) seen s = Some (sc, r)" "sc \<noteq> []" "sc = seen @ x"
  shows "s = x @ '':'' @ r"
  using assms(1,3)
proof (induction s arbitrary: seen x)
  case (Cons c s)
  show ?case
  proof (cases "letter c \<or> (isDigit c \<or> c \<in> set ''+-.'') \<and> seen \<noteq> []")
    case True
    then have l: "schemeLoop (raw @ t) (seen @ [c]) s = Some (sc, r)" using Cons.prems(1) by (auto split: if_splits)
    then obtain y where "sc = (seen @ [c]) @ y"
    proof -
      have "schemeLoop w k z = Some (sc, r) \<Longrightarrow> sc \<noteq> [] \<Longrightarrow> \<exists>y. sc = k @ y" for w k z
        by (induction w k z rule: schemeLoop.induct) (auto split: if_splits)
      then show thesis using that l assms(2) by blast
    qed
    then show ?thesis using Cons.IH [OF l, of y] Cons.prems(2) by auto
  next
    case False
    then show ?thesis using Cons.prems assms(2) by (auto split: if_splits)
  qed
qed (use assms(2) in simp)

end
