(* ===== verification/GoConv.thy ===== *)
theory GoConv
  imports GoNet GoBig
begin

text \<open>
  The conversions of configuration values: \<open>strconv.ParseBool\<close>, \<open>time.ParseDuration\<close> with the double-precision product its fractions
  go through, \<open>base64.StdEncoding\<close>, \<open>net.ParseCIDR\<close> and the address classes of \<open>net.IP\<close>.
\<close>

section \<open>Booleans\<close>

definition ParseBool :: "string \<Rightarrow> bool option" where
  "ParseBool s =
     (if s \<in> {''1'', ''t'', ''T'', ''TRUE'', ''true'', ''True''} then Some True
      else if s \<in> {''0'', ''f'', ''F'', ''FALSE'', ''false'', ''False''} then Some False
      else None)"

section \<open>Durations\<close>

text \<open>The number of bits of a natural number.\<close>

function bitLen :: "int \<Rightarrow> int" where
  "bitLen n = (if n \<le> 0 then 0 else 1 + bitLen (n div 2))"
  by pat_completeness auto
termination
  by (relation "measure nat") auto

declare bitLen.simps [simp del]

definition pow2 :: "int \<Rightarrow> rat" where
  "pow2 e = (if e \<ge> 0 then 2 ^ nat e else 1 / 2 ^ nat (- e))"

text \<open>Rounding to the nearest integer, ties to even.\<close>

definition roundEven :: "rat \<Rightarrow> int" where
  "roundEven x =
     (let f = \<lfloor>x\<rfloor>; r = x - of_int f in
      if r < 1 / 2 then f else if r > 1 / 2 then f + 1 else if f mod 2 = 0 then f else f + 1)"

text \<open>
  The \<open>float64\<close> next to a positive rational of moderate size (neither subnormal nor infinite): 53 significant bits.
\<close>

definition roundFloat :: "rat \<Rightarrow> rat" where
  "roundFloat x =
     (if x \<le> 0 then x
      else
        (case quotient_of x of (n, d) \<Rightarrow>
           let e0 = bitLen n - bitLen d - 53;
               e = (if x / pow2 e0 \<ge> 2 ^ 53 then e0 + 1 else e0) in
           of_int (roundEven (x / pow2 e)) * pow2 e))"

fun leadingInt :: "int \<Rightarrow> string \<Rightarrow> (int \<times> string) option" where
  "leadingInt x [] = Some (x, [])"
| "leadingInt x (c # s) =
     (if \<not> isDigit c then Some (x, c # s)
      else if x > 2 ^ 63 div 10 then None
      else if x * 10 + digitVal c > 2 ^ 63 then None
      else leadingInt (x * 10 + digitVal c) s)"

fun leadingFraction :: "int \<Rightarrow> int \<Rightarrow> bool \<Rightarrow> string \<Rightarrow> int \<times> int \<times> string" where
  "leadingFraction x scale overflow [] = (x, scale, [])"
| "leadingFraction x scale overflow (c # s) =
     (if \<not> isDigit c then (x, scale, c # s)
      else if overflow \<or> x > (2 ^ 63 - 1) div 10 \<or> x * 10 + digitVal c > 2 ^ 63 then leadingFraction x scale True s
      else leadingFraction (x * 10 + digitVal c) (scale * 10) False s)"

definition durationUnit :: "string \<Rightarrow> int option" where
  "durationUnit u =
     map_of [(''ns'', 1), (''us'', 1000), ([char_of (194 :: nat), char_of (181 :: nat), CHR ''s''], 1000),
             ([char_of (206 :: nat), char_of (188 :: nat), CHR ''s''], 1000), (''ms'', Millisecond), (''s'', Second), (''m'', Minute), (''h'', Hour)] u"

text \<open>One number with its unit: the value in nanoseconds, and the rest.\<close>

definition durationTerm :: "string \<Rightarrow> (int \<times> string) option" where
  "durationTerm s =
     (if s = [] \<or> \<not> (hd s = CHR ''.'' \<or> isDigit (hd s)) then None
      else
        (case leadingInt 0 s of
           None \<Rightarrow> None
         | Some (v, s1) \<Rightarrow>
             (let pre = length s1 \<noteq> length s;
                  frac = (if s1 \<noteq> [] \<and> hd s1 = CHR ''.'' then leadingFraction 0 1 False (tl s1) else (0, 1, s1));
                  f = fst frac; scale = fst (snd frac); s2 = snd (snd frac);
                  post = (s1 \<noteq> [] \<and> hd s1 = CHR ''.'' \<and> length s2 \<noteq> length (tl s1));
                  u = takeWhile (\<lambda>c. \<not> (c = CHR ''.'' \<or> isDigit c)) s2 in
              if \<not> pre \<and> \<not> post then None
              else if u = [] then None
              else
                (case durationUnit u of
                   None \<Rightarrow> None
                 | Some unit_ns \<Rightarrow>
                     (if v > 2 ^ 63 div unit_ns then None
                      else
                        (let w = v * unit_ns + (if f > 0 then \<lfloor>roundFloat (roundFloat (of_int f) * roundFloat (of_int unit_ns / of_int scale))\<rfloor> else 0) in
                         if w > 2 ^ 63 then None else Some (w, drop (length u) s2)))))))"

text \<open>Every term consumes a character, so the length of the text bounds their number.\<close>

fun durationLoop :: "nat \<Rightarrow> int \<Rightarrow> string \<Rightarrow> int option" where
  "durationLoop fuel d s =
     (if s = [] then Some d
      else
        (case fuel of
           0 \<Rightarrow> None
         | Suc n \<Rightarrow>
             (case durationTerm s of
                None \<Rightarrow> None
              | Some (v, r) \<Rightarrow> (if d + v > 2 ^ 63 then None else durationLoop n (d + v) r))))"

declare durationLoop.simps [simp del]

definition ParseDuration :: "string \<Rightarrow> duration option" where
  "ParseDuration raw =
     (let signed = (raw \<noteq> [] \<and> (hd raw = CHR ''-'' \<or> hd raw = CHR ''+'')); neg = (signed \<and> hd raw = CHR ''-''); s = (if signed then tl raw else raw) in
      if s = ''0'' then Some 0
      else if s = [] then None
      else
        (case durationLoop (length s) 0 s of
           None \<Rightarrow> None
         | Some d \<Rightarrow> (if neg then Some (- d) else if d > 2 ^ 63 - 1 then None else Some d)))"

section \<open>Base64 (\<open>base64.StdEncoding\<close>)\<close>

definition base64Val :: "char \<Rightarrow> int option" where
  "base64Val c =
     (if 65 \<le> byte c \<and> byte c \<le> 90 then Some (int (byte c) - 65)
      else if 97 \<le> byte c \<and> byte c \<le> 122 then Some (int (byte c) - 71)
      else if isDigit c then Some (int (byte c) + 4)
      else if c = CHR ''+'' then Some 62
      else if c = CHR ''/'' then Some 63
      else None)"

text \<open>The groups of four; padding ends the text, and the bits left over by it are ignored.\<close>

fun decodeGroups :: "string \<Rightarrow> string option" where
  "decodeGroups [] = Some []"
| "decodeGroups (a # b # c # d # s) =
     (case (base64Val a, base64Val b) of
        (Some x, Some y) \<Rightarrow>
          (if c = CHR ''='' then
             (if d = CHR ''='' \<and> s = [] then Some [char_of (x * 4 + y div 16)] else None)
           else
             (case base64Val c of
                None \<Rightarrow> None
              | Some z \<Rightarrow>
                  (if d = CHR ''='' then
                     (if s = [] then Some [char_of (x * 4 + y div 16), char_of (y mod 16 * 16 + z div 4)] else None)
                   else
                     (case base64Val d of
                        None \<Rightarrow> None
                      | Some w \<Rightarrow>
                          map_option (\<lambda>r. [char_of (x * 4 + y div 16), char_of (y mod 16 * 16 + z div 4), char_of (z mod 4 * 64 + w)] @ r)
                            (decodeGroups s)))))
      | _ \<Rightarrow> None)"
| "decodeGroups _ = None"

definition DecodeStd :: "string \<Rightarrow> string option" where
  "DecodeStd s = decodeGroups (filter (\<lambda>c. byte c \<noteq> 10 \<and> byte c \<noteq> 13) s)"

section \<open>Networks\<close>

definition CIDRMask :: "int \<Rightarrow> nat \<Rightarrow> ip" where
  "CIDRMask ones len = map (\<lambda>i. let k = max 0 (min 8 (ones - 8 * int i)) in 256 - 2 ^ nat (8 - k)) [0..<len]"

text \<open>\<open>net.ParseCIDR\<close>: the network of the address, both of the same length.\<close>

definition ParseCIDR :: "string \<Rightarrow> IPNet option" where
  "ParseCIDR s =
     (case indexByte (CHR ''/'') s of
        None \<Rightarrow> None
      | Some i \<Rightarrow>
          (let addr = take i s; bits = drop (i + 1) s in
           if CHR ''%'' \<in> set addr then None
           else
             (case ParseIP addr of
                None \<Rightarrow> None
              | Some a \<Rightarrow>
                  (case parseDigits bits of
                     None \<Rightarrow> None
                   | Some n \<Rightarrow>
                       (let v4 = (find (\<lambda>c. c = CHR ''.'' \<or> c = CHR '':'') addr = Some (CHR ''.''));
                            len = (if v4 then 4 else 16); raw = (if v4 then drop 12 a else a); mask = CIDRMask n len in
                        if n > 8 * int len then None
                        else Some \<lparr>nt_IP = map (\<lambda>(b, k). b AND k) (zip raw mask), nt_Mask = mask\<rparr>)))))"

definition maskOnes :: "ip \<Rightarrow> int" where
  "maskOnes m = sum_list (map (\<lambda>b. of_nat (length (filter (\<lambda>i. bit b i) [0..<8]))) m)"

definition IsPrivate :: "ip \<Rightarrow> bool" where
  "IsPrivate a =
     (case To4 a of
        Some v4 \<Rightarrow> v4 ! 0 = 10 \<or> v4 ! 0 = 172 \<and> v4 ! 1 AND 240 = 16 \<or> v4 ! 0 = 192 \<and> v4 ! 1 = 168
      | None \<Rightarrow> length a = 16 \<and> a ! 0 AND 254 = 252)"

definition IsLoopback :: "ip \<Rightarrow> bool" where
  "IsLoopback a = (case To4 a of Some v4 \<Rightarrow> v4 ! 0 = 127 | None \<Rightarrow> a = replicate 15 0 @ [1])"

definition IsUnspecified :: "ip \<Rightarrow> bool" where
  "IsUnspecified a \<longleftrightarrow> a = v4InV6Prefix @ [0, 0, 0, 0] \<or> a = [0, 0, 0, 0] \<or> a = replicate 16 0"

end
