(* ===== verification/Config.thy ===== *)
theory Config
  imports GoURL GoConv Domain
begin

text \<open>
  Configuration (\<open>internal/config\<close>): the settings read from the environment, their validation against the test networks, the web console's settings, and
  the loading of dotenv files. The environment is a function from names to values. An error may be joined of several. Where the
  code ranges over a map literal, \<open>order\<close> is the order of iteration; it decides only which error comes first. The dotenv
  parser and the file system are parameters.
\<close>

section \<open>Settings\<close>

datatype cfgError = CfgError goerror | CfgWrap string cfgError | CfgJoin "cfgError list"

type_synonym environment = "string \<Rightarrow> string option"

definition TestnetRESTBaseURL :: string where "TestnetRESTBaseURL = ''https://api-testnet.bybit.com''"
definition TestnetWSPublicURL :: string where "TestnetWSPublicURL = ''wss://stream-testnet.bybit.com/v5/public/linear''"
definition TestnetWSPublicSpotURL :: string where "TestnetWSPublicSpotURL = ''wss://stream-testnet.bybit.com/v5/public/spot''"
definition TestnetWSPrivateURL :: string where "TestnetWSPrivateURL = ''wss://stream-testnet.bybit.com/v5/private''"
definition TestnetWSTradeURL :: string where "TestnetWSTradeURL = ''wss://stream-testnet.bybit.com/v5/trade''"
definition TestnetFIXAddress :: string where "TestnetFIXAddress = ''fix-oe-testnet.bybit.com:9000''"
definition DeribitTestnetHTTPBaseURL :: string where "DeribitTestnetHTTPBaseURL = ''https://test.deribit.com/api/v2''"
definition DeribitTestnetWSURL :: string where "DeribitTestnetWSURL = ''wss://test.deribit.com/ws/api/v2''"
definition DeribitTestnetFIXAddress :: string where "DeribitTestnetFIXAddress = ''fix-test.deribit.com:9883''"

record RiskSettings =
  rs_MaxOrderUSD :: string
  rs_MaxAggregateOpenUSD :: string
  rs_MaxPriceDeviationPct :: string
  rs_MaxOpenOrders :: int

record DeribitConfig =
  dc_Enabled :: bool
  dc_Environment :: string
  dc_AccountAlias :: string
  dc_APIKey :: string
  dc_APISecret :: string
  dc_HTTPBaseURL :: string
  dc_WSURL :: string
  dc_FIXEnabled :: bool
  dc_FIXAddress :: string
  dc_FIXSenderCompID :: string
  dc_Risk :: RiskSettings
  dc_PlanTTL :: duration
  dc_loadErrors :: "cfgError list"

record Config =
  cf_Environment :: string
  cf_APIKey :: string
  cf_APISecret :: string
  cf_FIXAPIKey :: string
  cf_FIXPrivateKeyPath :: string
  cf_RESTBaseURL :: string
  cf_WSPublicURL :: string
  cf_WSPublicSpotURL :: string
  cf_WSPrivateURL :: string
  cf_WSTradeURL :: string
  cf_FIXAddress :: string
  cf_StateFile :: string
  cf_IntentFile :: string
  cf_AccountAlias :: string
  cf_Deribit :: DeribitConfig

definition Getenv :: "environment \<Rightarrow> string \<Rightarrow> string" where
  "Getenv env name = (case env name of Some v \<Rightarrow> v | None \<Rightarrow> [])"

definition envOrDefault :: "environment \<Rightarrow> string \<Rightarrow> string \<Rightarrow> string" where
  "envOrDefault env name fallback = (let v = TrimSpace (Getenv env name) in if v \<noteq> [] then v else fallback)"

definition parseBoolEnv :: "environment \<Rightarrow> string \<Rightarrow> bool \<Rightarrow> bool \<times> cfgError list" where
  "parseBoolEnv env name fallback =
     (let raw = TrimSpace (Getenv env name) in
      if raw = [] then (fallback, [])
      else (case ParseBool raw of Some v \<Rightarrow> (v, []) | None \<Rightarrow> (False, [CfgError (EFmt ''%s must be a boolean: %w'' [name, raw])])))"

definition parsePositiveIntEnv :: "environment \<Rightarrow> string \<Rightarrow> int \<Rightarrow> int \<times> cfgError list" where
  "parsePositiveIntEnv env name fallback =
     (let raw = TrimSpace (Getenv env name) in
      if raw = [] then (fallback, [])
      else (case Atoi raw of
          Some v \<Rightarrow> (if v \<le> 0 then (0, [CfgError (EFmt ''%s must be a positive integer'' [name])]) else (v, []))
        | None \<Rightarrow> (0, [CfgError (EFmt ''%s must be a positive integer'' [name])])))"

definition loadDeribit :: "environment \<Rightarrow> DeribitConfig" where
  "loadDeribit env =
     (let enabled = parseBoolEnv env ''DERIBIT_ENABLED'' False;
          fixOn = parseBoolEnv env ''DERIBIT_FIX_ENABLED'' False;
          openOrders = parsePositiveIntEnv env ''DERIBIT_MAX_OPEN_ORDERS'' 5;
          ttl = ParseDuration (envOrDefault env ''DERIBIT_PLAN_TTL'' ''30s'') in
      \<lparr>dc_Enabled = fst enabled, dc_Environment = envOrDefault env ''DERIBIT_ENV'' ''testnet'',
       dc_AccountAlias = envOrDefault env ''DERIBIT_ACCOUNT_ALIAS'' ''deribit-test'',
       dc_APIKey = Getenv env ''DERIBIT_API_KEY'', dc_APISecret = Getenv env ''DERIBIT_API_SECRET'',
       dc_HTTPBaseURL = envOrDefault env ''DERIBIT_HTTP_BASE_URL'' DeribitTestnetHTTPBaseURL,
       dc_WSURL = envOrDefault env ''DERIBIT_WS_URL'' DeribitTestnetWSURL, dc_FIXEnabled = fst fixOn,
       dc_FIXAddress = envOrDefault env ''DERIBIT_FIX_ADDRESS'' DeribitTestnetFIXAddress,
       dc_FIXSenderCompID = envOrDefault env ''DERIBIT_FIX_SENDER_COMP_ID'' ''venuewire'',
       dc_Risk = \<lparr>rs_MaxOrderUSD = envOrDefault env ''DERIBIT_MAX_ORDER_USD'' ''100'',
         rs_MaxAggregateOpenUSD = envOrDefault env ''DERIBIT_MAX_OPEN_USD'' ''500'',
         rs_MaxPriceDeviationPct = envOrDefault env ''DERIBIT_MAX_PRICE_DEVIATION_PCT'' ''2'',
         rs_MaxOpenOrders = fst openOrders\<rparr>,
       dc_PlanTTL = (case ttl of Some d \<Rightarrow> d | None \<Rightarrow> 0),
       dc_loadErrors = snd enabled @ snd fixOn @ snd openOrders @
         (case ttl of Some _ \<Rightarrow> [] | None \<Rightarrow> [CfgWrap ''DERIBIT_PLAN_TTL: '' (CfgError (EText ''time: invalid duration''))])\<rparr>)"

definition LoadConfig :: "environment \<Rightarrow> Config" where
  "LoadConfig env =
     \<lparr>cf_Environment = envOrDefault env ''BYBIT_ENV'' ''testnet'', cf_APIKey = Getenv env ''BYBIT_API_KEY'',
      cf_APISecret = Getenv env ''BYBIT_API_SECRET'', cf_FIXAPIKey = Getenv env ''BYBIT_FIX_API_KEY'',
      cf_FIXPrivateKeyPath = Getenv env ''BYBIT_FIX_PRIVATE_KEY_PATH'',
      cf_RESTBaseURL = envOrDefault env ''BYBIT_REST_BASE_URL'' TestnetRESTBaseURL,
      cf_WSPublicURL = envOrDefault env ''BYBIT_WS_PUBLIC_URL'' TestnetWSPublicURL,
      cf_WSPublicSpotURL = envOrDefault env ''BYBIT_WS_SPOT_URL'' TestnetWSPublicSpotURL,
      cf_WSPrivateURL = envOrDefault env ''BYBIT_WS_PRIVATE_URL'' TestnetWSPrivateURL,
      cf_WSTradeURL = envOrDefault env ''BYBIT_WS_TRADE_URL'' TestnetWSTradeURL,
      cf_FIXAddress = envOrDefault env ''BYBIT_FIX_ADDRESS'' TestnetFIXAddress,
      cf_StateFile = envOrDefault env ''BYBIT_STATE_FILE'' ''state/orders.json'',
      cf_IntentFile = envOrDefault env ''MULTI_VENUE_INTENT_FILE'' ''state/intents.json'',
      cf_AccountAlias = envOrDefault env ''BYBIT_ACCOUNT_ALIAS'' ''bybit-test'', cf_Deribit = loadDeribit env\<rparr>"

section \<open>The test networks\<close>

definition validateExactURL :: "string \<Rightarrow> string \<Rightarrow> cfgError option" where
  "validateExactURL raw allowed =
     (case ParseURL raw of
        None \<Rightarrow> Some (CfgError (EText ''endpoint is not a valid approved Testnet URL''))
      | Some got \<Rightarrow>
          (if ur_User got \<or> ur_RawQuery got \<noteq> [] \<or> ur_Fragment got \<noteq> []
           then Some (CfgError (EText ''endpoint is not a valid approved Testnet URL''))
           else
             (case ParseURL allowed of
                None \<Rightarrow> Some (CfgError (EText ''nil pointer dereference''))
              | Some want \<Rightarrow>
                  (if \<not> EqualFold (ur_Scheme got) (ur_Scheme want) \<or> \<not> EqualFold (ur_Host got) (ur_Host want) \<or> EscapedPath got \<noteq> EscapedPath want
                   then Some (CfgError (EFmt ''endpoint must be %s'' [allowed]))
                   else None))))"

definition fixAddressOk :: "string \<Rightarrow> string \<Rightarrow> string \<Rightarrow> bool" where
  "fixAddressOk address host port = (case SplitHostPort address of None \<Rightarrow> False | Some (h, p) \<Rightarrow> EqualFold h host \<and> p = port)"

fun validateEndpoints :: "(string \<times> string \<times> string) list \<Rightarrow> cfgError option" where
  "validateEndpoints [] = None"
| "validateEndpoints ((name, got, want) # cs) =
     (case validateExactURL got want of
        Some e \<Rightarrow> Some (CfgWrap (name @ '' endpoint rejected: '') e)
      | None \<Rightarrow> validateEndpoints cs)"

definition ValidateTestnet :: "Config \<Rightarrow> cfgError option" where
  "ValidateTestnet c =
     (if cf_Environment c \<noteq> ''testnet'' then Some (CfgError (EFmt ''BYBIT_ENV must be testnet, got %q'' [cf_Environment c]))
      else
        (case validateEndpoints
             [(''REST'', cf_RESTBaseURL c, TestnetRESTBaseURL), (''public WebSocket'', cf_WSPublicURL c, TestnetWSPublicURL),
              (''public Spot WebSocket'', cf_WSPublicSpotURL c, TestnetWSPublicSpotURL),
              (''private WebSocket'', cf_WSPrivateURL c, TestnetWSPrivateURL), (''trade WebSocket'', cf_WSTradeURL c, TestnetWSTradeURL)] of
           Some e \<Rightarrow> Some e
         | None \<Rightarrow>
             (if \<not> fixAddressOk (cf_FIXAddress c) ''fix-oe-testnet.bybit.com'' ''9000''
              then Some (CfgError (EFmt ''FIX endpoint must be %s'' [TestnetFIXAddress]))
              else None)))"

definition positiveRat :: "string \<Rightarrow> bool" where
  "positiveRat raw = (case SetString raw of Some v \<Rightarrow> v > 0 | None \<Rightarrow> False)"

definition validateDeribitTestnet :: "((string \<times> string) list \<Rightarrow> (string \<times> string) list) \<Rightarrow> DeribitConfig \<Rightarrow> cfgError option" where
  "validateDeribitTestnet order d =
     (if dc_loadErrors d \<noteq> [] then Some (CfgJoin (dc_loadErrors d))
      else if dc_Environment d \<noteq> ''testnet'' then Some (CfgError (EFmt ''DERIBIT_ENV must be testnet, got %q'' [dc_Environment d]))
      else if TrimSpace (dc_AccountAlias d) = [] then Some (CfgError (EText ''DERIBIT_ACCOUNT_ALIAS is required''))
      else
        (case validateExactURL (dc_HTTPBaseURL d) DeribitTestnetHTTPBaseURL of
           Some e \<Rightarrow> Some (CfgWrap ''Deribit HTTP endpoint rejected: '' e)
         | None \<Rightarrow>
        (case validateExactURL (dc_WSURL d) DeribitTestnetWSURL of
           Some e \<Rightarrow> Some (CfgWrap ''Deribit WebSocket endpoint rejected: '' e)
         | None \<Rightarrow>
             (if \<not> fixAddressOk (dc_FIXAddress d) ''fix-test.deribit.com'' ''9883''
              then Some (CfgError (EFmt ''Deribit FIX endpoint must be %s'' [DeribitTestnetFIXAddress]))
              else
                (case find (\<lambda>(_, raw). \<not> positiveRat raw)
                     (order [(''DERIBIT_MAX_ORDER_USD'', rs_MaxOrderUSD (dc_Risk d)), (''DERIBIT_MAX_OPEN_USD'', rs_MaxAggregateOpenUSD (dc_Risk d)),
                             (''DERIBIT_MAX_PRICE_DEVIATION_PCT'', rs_MaxPriceDeviationPct (dc_Risk d))]) of
                   Some (name, _) \<Rightarrow> Some (CfgError (EFmt ''%s must be a positive decimal'' [name]))
                 | None \<Rightarrow>
                     (if rs_MaxOpenOrders (dc_Risk d) \<le> 0 then Some (CfgError (EText ''DERIBIT_MAX_OPEN_ORDERS must be positive''))
                      else if dc_PlanTTL d \<le> 0 then Some (CfgError (EText ''DERIBIT_PLAN_TTL must be positive''))
                      else None))))))"

definition missingNames :: "(string \<times> string) list \<Rightarrow> cfgError option" where
  "missingNames vals =
     (let missing = map fst (filter (\<lambda>(_, v). TrimSpace v = []) vals) in
      if missing \<noteq> [] then Some (CfgError (EFmt ''missing required environment variables: %s'' [joinWith '', '' missing])) else None)"

definition requireDeribitCredentials :: "((string \<times> string) list \<Rightarrow> (string \<times> string) list) \<Rightarrow> DeribitConfig \<Rightarrow> cfgError option" where
  "requireDeribitCredentials order d =
     (case validateDeribitTestnet order d of
        Some e \<Rightarrow> Some e
      | None \<Rightarrow> missingNames [(''DERIBIT_API_KEY'', dc_APIKey d), (''DERIBIT_API_SECRET'', dc_APISecret d)])"

definition RequireRESTCredentials :: "Config \<Rightarrow> cfgError option" where
  "RequireRESTCredentials c =
     (case ValidateTestnet c of
        Some e \<Rightarrow> Some e
      | None \<Rightarrow> missingNames [(''BYBIT_API_KEY'', cf_APIKey c), (''BYBIT_API_SECRET'', cf_APISecret c)])"

definition RequireFIXCredentials :: "Config \<Rightarrow> cfgError option" where
  "RequireFIXCredentials c =
     (case ValidateTestnet c of
        Some e \<Rightarrow> Some e
      | None \<Rightarrow> missingNames [(''BYBIT_FIX_API_KEY'', cf_FIXAPIKey c), (''BYBIT_FIX_PRIVATE_KEY_PATH'', cf_FIXPrivateKeyPath c)])"

end
