(* ===== verification/WebConfig.thy ===== *)
theory WebConfig
  imports Config
begin

text \<open>
  The web console's settings (\<open>internal/config/web.go\<close>) and dotenv files (\<open>internal/config/dotenv.go\<close>). All errors of the
  settings are collected before they are reported.
\<close>

section \<open>The console's settings (web.go)\<close>

record WebConfig =
  wc_Host :: string
  wc_Port :: int
  wc_PublicOrigin :: string
  wc_TrustedProxyCIDRs :: "IPNet list"
  wc_Username :: string
  wc_Password :: string
  wc_SessionSecret :: string
  wc_SessionTTL :: duration
  wc_DefaultVenue :: venue
  wc_BybitEnabled :: bool
  wc_DeribitEnabled :: bool
  wc_TradingEnabled :: bool
  wc_PushInterval :: duration
  wc_AccountReconcileInterval :: duration
  wc_QuoteTTL :: duration
  wc_TradeBookMaxAge :: duration
  wc_ValuationPriceMaxAge :: duration
  wc_QuickTradeSlippageBPS :: int
  wc_QuickTradeMaxBTC :: string
  wc_QuickTradeMaxETH :: string
  wc_QuickTradeMaxUSDT :: string
  wc_QuickTradeMaxUSDC :: string
  wc_MaxTradesPerSession :: int
  wc_MaxTradesPerHour :: int
  wc_MaxConcurrentTrades :: int
  wc_MaxBybitBTCQty :: string
  wc_MaxBybitETHQty :: string
  wc_MaxBybitUSDTAmount :: string
  wc_MaxDeribitBTCAmount :: string
  wc_MaxDeribitUSDCAmount :: string

definition webEnv :: "environment \<Rightarrow> string \<Rightarrow> string \<Rightarrow> string" where
  "webEnv env name fallback = (case env name of Some v \<Rightarrow> TrimSpace v | None \<Rightarrow> fallback)"

definition parseWebBool :: "environment \<Rightarrow> string \<Rightarrow> bool \<Rightarrow> bool \<times> cfgError list" where
  "parseWebBool env name fallback =
     (case env name of
        None \<Rightarrow> (fallback, [])
      | Some raw \<Rightarrow>
          (case ParseBool (TrimSpace raw) of
             Some v \<Rightarrow> (v, [])
           | None \<Rightarrow> (False, [CfgError (EFmt ''%s must be true or false'' [name])])))"

definition parseWebInt :: "environment \<Rightarrow> string \<Rightarrow> int \<Rightarrow> int \<Rightarrow> int \<Rightarrow> int \<times> cfgError list" where
  "parseWebInt env name fallback least most =
     (case env name of
        None \<Rightarrow> (fallback, [])
      | Some raw \<Rightarrow>
          (case Atoi (TrimSpace raw) of
             Some v \<Rightarrow>
               (if v < least \<or> v > most then (0, [CfgError (EFmt ''%s must be an integer from %d to %d'' [name, FormatInt least, FormatInt most])])
                else (v, []))
           | None \<Rightarrow> (0, [CfgError (EFmt ''%s must be an integer from %d to %d'' [name, FormatInt least, FormatInt most])])))"

definition parseWebDuration :: "environment \<Rightarrow> string \<Rightarrow> duration \<Rightarrow> duration \<times> cfgError list" where
  "parseWebDuration env name fallback =
     (case env name of
        None \<Rightarrow> (fallback, [])
      | Some raw \<Rightarrow>
          (case ParseDuration (TrimSpace raw) of
             Some v \<Rightarrow> (if v \<le> 0 then (0, [CfgError (EFmt ''%s must be a positive duration'' [name])]) else (v, []))
           | None \<Rightarrow> (0, [CfgError (EFmt ''%s must be a positive duration'' [name])])))"

definition sessionSecret :: "environment \<Rightarrow> string \<times> cfgError list" where
  "sessionSecret env =
     (let secretText = webEnv env ''WEB_SESSION_SECRET'' [] in
      if secretText = [] then ([], [])
      else
        (case DecodeStd secretText of
           Some secret \<Rightarrow>
             (if length secret < 32 then ([], [CfgError (EText ''WEB_SESSION_SECRET must be Base64 encoding of at least 32 random bytes'')])
              else (secret, []))
         | None \<Rightarrow> ([], [CfgError (EText ''WEB_SESSION_SECRET must be Base64 encoding of at least 32 random bytes'')])))"

definition proxyNetwork :: "string \<Rightarrow> cfgError + IPNet" where
  "proxyNetwork raw =
     (case ParseCIDR (TrimSpace raw) of
        None \<Rightarrow> Inl (CfgError (EFmt ''WEB_TRUSTED_PROXY_CIDRS contains invalid CIDR %q'' [TrimSpace raw]))
      | Some n \<Rightarrow>
          (if maskOnes (nt_Mask n) \<noteq> 8 * int (length (nt_Mask n))
           then Inl (CfgError (EFmt ''WEB_TRUSTED_PROXY_CIDRS entry %q must identify one proxy IP'' [raw]))
           else if \<not> IsPrivate (nt_IP n) \<and> \<not> IsLoopback (nt_IP n)
           then Inl (CfgError (EFmt ''WEB_TRUSTED_PROXY_CIDRS entry %q must be private or loopback'' [raw]))
           else Inr n))"

definition proxyNetworks :: "environment \<Rightarrow> IPNet list \<times> cfgError list" where
  "proxyNetworks env =
     (let proxyText = webEnv env ''WEB_TRUSTED_PROXY_CIDRS'' [] in
      if proxyText = [] then ([], [])
      else
        (let rs = map proxyNetwork (splitByte (CHR '','') proxyText) in
         (concat (map (\<lambda>r. case r of Inr n \<Rightarrow> [n] | Inl _ \<Rightarrow> []) rs), concat (map (\<lambda>r. case r of Inl e \<Rightarrow> [e] | Inr _ \<Rightarrow> []) rs))))"

definition validatePublicOrigin :: "string \<Rightarrow> cfgError option" where
  "validatePublicOrigin raw =
     (case ParseURL raw of
        None \<Rightarrow> Some (CfgError (EText ''WEB_PUBLIC_ORIGIN must be an HTTPS origin without path, userinfo, query, or fragment''))
      | Some u \<Rightarrow>
          (if ur_Scheme u \<noteq> ''https'' \<or> ur_Host u = [] \<or> ur_User u \<or> ur_RawQuery u \<noteq> [] \<or> ur_Fragment u \<noteq> [] \<or>
              (ur_Path u \<noteq> [] \<and> ur_Path u \<noteq> ''/'')
           then Some (CfgError (EText ''WEB_PUBLIC_ORIGIN must be an HTTPS origin without path, userinfo, query, or fragment''))
           else if ur_Path u = ''/'' then Some (CfgError (EText ''WEB_PUBLIC_ORIGIN must not contain a trailing path''))
           else None))"

definition listErr :: "bool \<Rightarrow> string \<Rightarrow> cfgError list" where
  "listErr bad message = (if bad then [CfgError (EText message)] else [])"

definition optErr :: "(cfgError \<Rightarrow> cfgError) \<Rightarrow> cfgError option \<Rightarrow> cfgError list" where
  "optErr f e = (case e of Some x \<Rightarrow> [f x] | None \<Rightarrow> [])"

definition tradeCaps :: "WebConfig \<Rightarrow> (string \<times> string) list" where
  "tradeCaps cfg =
     [(''QUICK_TRADE_MAX_BTC'', wc_QuickTradeMaxBTC cfg), (''QUICK_TRADE_MAX_ETH'', wc_QuickTradeMaxETH cfg),
      (''QUICK_TRADE_MAX_USDT'', wc_QuickTradeMaxUSDT cfg), (''QUICK_TRADE_MAX_USDC'', wc_QuickTradeMaxUSDC cfg),
      (''DEMO_MAX_BYBIT_BTC_QTY'', wc_MaxBybitBTCQty cfg), (''DEMO_MAX_BYBIT_ETH_QTY'', wc_MaxBybitETHQty cfg),
      (''DEMO_MAX_BYBIT_USDT_AMOUNT'', wc_MaxBybitUSDTAmount cfg), (''DEMO_MAX_DERIBIT_BTC_AMOUNT'', wc_MaxDeribitBTCAmount cfg),
      (''DEMO_MAX_DERIBIT_USDC_AMOUNT'', wc_MaxDeribitUSDCAmount cfg)]"

definition capErrors :: "string \<times> string \<Rightarrow> cfgError list" where
  "capErrors c =
     (if snd c = [] then [CfgError (EFmt ''%s must not be empty'' [fst c])]
      else if positiveRat (snd c) then []
      else [CfgError (EFmt ''%s must be a positive decimal'' [fst c])])"

definition hostOk :: "string \<Rightarrow> bool" where
  "hostOk host = (case ParseIP host of None \<Rightarrow> False | Some a \<Rightarrow> (IsPrivate a \<or> IsLoopback a) \<and> \<not> IsUnspecified a)"

definition validateWebConfig :: "((string \<times> string) list \<Rightarrow> (string \<times> string) list) \<Rightarrow> Config \<Rightarrow> WebConfig \<Rightarrow> cfgError list" where
  "validateWebConfig order base cfg =
     optErr (CfgWrap ''Bybit Testnet configuration: '') (ValidateTestnet base) @
     optErr (CfgWrap ''Deribit Testnet configuration: '') (validateDeribitTestnet order (cf_Deribit base)) @
     listErr (\<not> hostOk (wc_Host cfg)) ''WEB_HOST must be a private or loopback IP address'' @
     optErr id (validatePublicOrigin (wc_PublicOrigin cfg)) @
     listErr (wc_TrustedProxyCIDRs cfg = []) ''WEB_TRUSTED_PROXY_CIDRS must contain at least one private proxy IP'' @
     listErr (TrimSpace (wc_Username cfg) = []) ''WEB_USERNAME is required'' @
     listErr (RuneCountInString (wc_Password cfg) < 12) ''WEB_PASSWORD must contain at least 12 characters'' @
     listErr (length (wc_SessionSecret cfg) < 32) ''WEB_SESSION_SECRET is required'' @
     listErr (\<not> wc_BybitEnabled cfg \<and> \<not> wc_DeribitEnabled cfg) ''at least one of BYBIT_ENABLED or DERIBIT_ENABLED must be true for web'' @
     (if wc_DefaultVenue cfg \<noteq> VenueBybit \<and> wc_DefaultVenue cfg \<noteq> VenueDeribit then listErr True ''WEB_DEFAULT_VENUE must be bybit or deribit''
      else listErr (wc_DefaultVenue cfg = VenueBybit \<and> \<not> wc_BybitEnabled cfg \<or> wc_DefaultVenue cfg = VenueDeribit \<and> \<not> wc_DeribitEnabled cfg)
        ''WEB_DEFAULT_VENUE must be enabled'') @
     (if wc_BybitEnabled cfg then optErr (CfgWrap ''enabled Bybit web connection: '') (RequireRESTCredentials base) else []) @
     (if wc_DeribitEnabled cfg then optErr (CfgWrap ''enabled Deribit web connection: '') (requireDeribitCredentials order (cf_Deribit base)) else []) @
     concat (map capErrors (order (tradeCaps cfg)))"

text \<open>The settings as read, with the errors found while reading them.\<close>

definition readWebConfig :: "environment \<Rightarrow> WebConfig \<times> cfgError list" where
  "readWebConfig env =
     (let port = parseWebInt env ''WEB_PORT'' 8080 1 65535; ttl = parseWebDuration env ''WEB_SESSION_TTL'' (8 * Hour);
          push = parseWebDuration env ''WEB_PUSH_INTERVAL'' (250 * Millisecond); rec = parseWebDuration env ''ACCOUNT_RECONCILE_INTERVAL'' (30 * Second);
          quote = parseWebDuration env ''QUOTE_TTL'' (5 * Second); book = parseWebDuration env ''TRADE_BOOK_MAX_AGE'' (3 * Second);
          price = parseWebDuration env ''VALUATION_PRICE_MAX_AGE'' (15 * Second); bps = parseWebInt env ''QUICK_TRADE_SLIPPAGE_BPS'' 50 1 50;
          perSession = parseWebInt env ''DEMO_MAX_TRADES_PER_SESSION'' 10 1 10000; perHour = parseWebInt env ''DEMO_MAX_TRADES_PER_HOUR'' 30 1 100000;
          concurrent = parseWebInt env ''DEMO_MAX_CONCURRENT_TRADES'' 1 1 1000; bybit = parseWebBool env ''BYBIT_ENABLED'' False;
          deribit = parseWebBool env ''DERIBIT_ENABLED'' False; trading = parseWebBool env ''WEB_TRADING_ENABLED'' False;
          secret = sessionSecret env; proxies = proxyNetworks env in
      (\<lparr>wc_Host = webEnv env ''WEB_HOST'' [], wc_Port = fst port, wc_PublicOrigin = webEnv env ''WEB_PUBLIC_ORIGIN'' [],
        wc_TrustedProxyCIDRs = fst proxies, wc_Username = webEnv env ''WEB_USERNAME'' [], wc_Password = webEnv env ''WEB_PASSWORD'' [],
        wc_SessionSecret = fst secret, wc_SessionTTL = fst ttl, wc_DefaultVenue = webEnv env ''WEB_DEFAULT_VENUE'' ''bybit'',
        wc_BybitEnabled = fst bybit, wc_DeribitEnabled = fst deribit, wc_TradingEnabled = fst trading, wc_PushInterval = fst push,
        wc_AccountReconcileInterval = fst rec, wc_QuoteTTL = fst quote, wc_TradeBookMaxAge = fst book, wc_ValuationPriceMaxAge = fst price,
        wc_QuickTradeSlippageBPS = fst bps, wc_QuickTradeMaxBTC = webEnv env ''QUICK_TRADE_MAX_BTC'' ''0.01'',
        wc_QuickTradeMaxETH = webEnv env ''QUICK_TRADE_MAX_ETH'' ''1'', wc_QuickTradeMaxUSDT = webEnv env ''QUICK_TRADE_MAX_USDT'' ''1000'',
        wc_QuickTradeMaxUSDC = webEnv env ''QUICK_TRADE_MAX_USDC'' ''1000'', wc_MaxTradesPerSession = fst perSession,
        wc_MaxTradesPerHour = fst perHour, wc_MaxConcurrentTrades = fst concurrent,
        wc_MaxBybitBTCQty = webEnv env ''DEMO_MAX_BYBIT_BTC_QTY'' ''0.01'', wc_MaxBybitETHQty = webEnv env ''DEMO_MAX_BYBIT_ETH_QTY'' ''1'',
        wc_MaxBybitUSDTAmount = webEnv env ''DEMO_MAX_BYBIT_USDT_AMOUNT'' ''1000'',
        wc_MaxDeribitBTCAmount = webEnv env ''DEMO_MAX_DERIBIT_BTC_AMOUNT'' ''0.01'',
        wc_MaxDeribitUSDCAmount = webEnv env ''DEMO_MAX_DERIBIT_USDC_AMOUNT'' ''1000''\<rparr>,
       snd port @ snd ttl @ snd push @ snd rec @ snd quote @ snd book @ snd price @ snd bps @ snd perSession @ snd perHour @ snd concurrent @
         snd bybit @ snd deribit @ snd trading @ snd secret @ snd proxies))"

definition LoadWebConfig :: "((string \<times> string) list \<Rightarrow> (string \<times> string) list) \<Rightarrow> environment \<Rightarrow> Config \<Rightarrow> cfgError + WebConfig" where
  "LoadWebConfig order env base =
     (case readWebConfig env of
        (cfg, errs) \<Rightarrow>
          (let all = errs @ validateWebConfig order base cfg in
           if all \<noteq> [] then Inl (CfgJoin all) else Inr cfg))"

section \<open>Dotenv files (dotenv.go)\<close>

definition envFileCandidate :: "string option \<Rightarrow> string \<Rightarrow> string result" where
  "envFileCandidate found candidate =
     (if found \<noteq> None then Inl (EText ''--env-file may only be specified once'')
      else if TrimSpace candidate = [] then Inl (EText ''--env-file requires a non-empty path'')
      else Inr (TrimSpace candidate))"

fun envFileLoop :: "string list \<Rightarrow> string option \<Rightarrow> string list \<Rightarrow> (string option \<times> string list) result" where
  "envFileLoop [] found remaining = Inr (found, remaining)"
| "envFileLoop (arg # args) found remaining =
     (if arg = ''--env-file'' then
        (case args of
           [] \<Rightarrow> Inl (EText ''--env-file requires a path'')
         | c # rest \<Rightarrow> (case envFileCandidate found c of Inl e \<Rightarrow> Inl e | Inr path \<Rightarrow> envFileLoop rest (Some path) remaining))
      else if HasPrefix arg ''--env-file='' then
        (case envFileCandidate found (TrimPrefix arg ''--env-file='') of
           Inl e \<Rightarrow> Inl e
         | Inr path \<Rightarrow> envFileLoop args (Some path) remaining)
      else envFileLoop args found (remaining @ [arg]))"

definition envFileArgument :: "string list \<Rightarrow> (string option \<times> string list) result" where
  "envFileArgument args = envFileLoop args None []"

text \<open>What reading one dotenv file answers: its values, that it does not exist, or another error.\<close>

datatype envFile = EnvValues "(string, string) gomap" | EnvMissing goerror | EnvUnreadable goerror

fun mergeFiles :: "(string \<Rightarrow> envFile) \<Rightarrow> bool \<Rightarrow> string list \<Rightarrow> (string, string) gomap \<Rightarrow> (string, string) gomap result" where
  "mergeFiles read allowMissing [] vals = Inr vals"
| "mergeFiles read allowMissing (path # paths) vals =
     (case read path of
        EnvValues fileVals \<Rightarrow>
          mergeFiles read allowMissing paths (foldl (\<lambda>m (k, v). if gget m k = None then gput k v m else m) vals fileVals)
      | EnvMissing e \<Rightarrow> (if allowMissing then mergeFiles read allowMissing paths vals else Inl (EWrap ''read dotenv file: '' e))
      | EnvUnreadable e \<Rightarrow> Inl (EWrap ''read dotenv file: '' e))"

text \<open>Setting the values one after the other; \<open>refuses\<close> is the error of \<open>os.Setenv\<close>. On an error those added are unset again.\<close>

fun setValues :: "(string \<Rightarrow> string \<Rightarrow> goerror option) \<Rightarrow> (string \<times> string) list \<Rightarrow> string list \<Rightarrow> environment \<Rightarrow> goerror option \<times> environment" where
  "setValues refuses [] added env = (None, env)"
| "setValues refuses ((k, v) # kvs) added env =
     (if env k \<noteq> None then setValues refuses kvs added env
      else
        (case refuses k v of
           Some e \<Rightarrow> (Some (EWrap ''load dotenv key: '' e), foldl (\<lambda>m a. m(a := None)) env added)
         | None \<Rightarrow> setValues refuses kvs (added @ [k]) (env(k := Some v))))"

definition loadEnvironmentFiles ::
  "(string \<Rightarrow> envFile) \<Rightarrow> (string \<Rightarrow> string \<Rightarrow> goerror option) \<Rightarrow> string list \<Rightarrow> bool \<Rightarrow> environment \<Rightarrow> goerror option \<times> environment" where
  "loadEnvironmentFiles read refuses paths allowMissing env =
     (case mergeFiles read allowMissing paths [] of
        Inl e \<Rightarrow> (Some e, env)
      | Inr vals \<Rightarrow> setValues refuses vals [] env)"

definition Dir :: "string \<Rightarrow> string" where
  "Dir p = (case lastByte (CHR ''/'') p of None \<Rightarrow> ''.'' | Some i \<Rightarrow> Clean (take (i + 1) p))"

definition JoinPath :: "string \<Rightarrow> string \<Rightarrow> string" where
  "JoinPath d name = (if d = [] then Clean name else Clean (d @ ''/'' @ name))"

definition defaultEnvironmentPaths :: "string \<Rightarrow> string list" where
  "defaultEnvironmentPaths executable =
     (let binaryDirectory = Dir executable in [JoinPath binaryDirectory ''.env'', JoinPath (Dir binaryDirectory) ''.env''])"

definition loadEnvironment ::
  "(string \<Rightarrow> envFile) \<Rightarrow> (string \<Rightarrow> string \<Rightarrow> goerror option) \<Rightarrow> string result \<Rightarrow> (string \<Rightarrow> string option) \<Rightarrow> string list \<Rightarrow> environment
   \<Rightarrow> string list result \<times> environment" where
  "loadEnvironment read refuses executablePath evalSymlinks args env =
     (case envFileArgument args of
        Inl e \<Rightarrow> (Inl e, env)
      | Inr (Some path, remaining) \<Rightarrow>
          (case loadEnvironmentFiles read refuses [path] False env of
             (Some e, env') \<Rightarrow> (Inl e, env')
           | (None, env') \<Rightarrow> (Inr remaining, env'))
      | Inr (None, remaining) \<Rightarrow>
          (case executablePath of
             Inl e \<Rightarrow> (Inl (EWrap ''locate executable for default dotenv search: '' e), env)
           | Inr executable \<Rightarrow>
               (let resolved = (case evalSymlinks executable of Some p \<Rightarrow> p | None \<Rightarrow> executable) in
                case loadEnvironmentFiles read refuses (defaultEnvironmentPaths resolved) True env of
                  (Some e, env') \<Rightarrow> (Inl e, env')
                | (None, env') \<Rightarrow> (Inr remaining, env'))))"

end
