(* ===== verification/WebViews.thy ===== *)
theory WebViews
  imports WebConfig QuickTradeApp AccountState GoText
begin

text \<open>
  What the console shows (\<open>internal/webconsole\<close>): public trades and quotes, the status of the venues, and the account snapshots of the
  account service. The services behind the console are records of functions over a world \<open>'w\<close> that the console only reaches
  through them.
\<close>

section \<open>Trades and quotes\<close>

record PublicTrade =
  pd_ID :: string
  pd_ClientRequestID :: string
  pd_QuoteID :: string
  pd_Venue :: string
  pd_Environment :: string
  pd_AccountAlias :: string
  pd_RouteID :: string
  pd_FromAsset :: string
  pd_ToAsset :: string
  pd_RequestedAmount :: string
  pd_Instrument :: string
  pd_Side :: string
  pd_ClientOrderID :: string
  pd_VenueOrderID :: string
  pd_Status :: TradeStatus
  pd_RawVenueStatus :: string
  pd_ResultStatus :: string
  pd_SubmittedBaseQty :: string
  pd_SubmittedLimitPrice :: string
  pd_SubmittedTimeInForce :: string
  pd_FilledBaseQty :: string
  pd_AveragePrice :: string
  pd_GrossSourceSpent :: string
  pd_GrossDestinationReceived :: string
  pd_Fees :: "TradeFee list"
  pd_NetDestinationReceived :: string
  pd_ActualSourceDebit :: string
  pd_FillDetailsStatus :: string
  pd_FeeDetailsStatus :: string
  pd_BalanceSyncStatus :: string
  pd_CreatedAt :: time
  pd_UpdatedAt :: time
  pd_SubmittedAt :: "time option"
  pd_TerminalAt :: "time option"
  pd_LastCheckedAt :: "time option"
  pd_Message :: string
  pd_Lifecycle :: "TradeLifecycleEvent list"

definition toPublicTrade :: "QuickTrade \<Rightarrow> PublicTrade" where
  "toPublicTrade t =
     \<lparr>pd_ID = t_ID t, pd_ClientRequestID = t_ClientRequestID t, pd_QuoteID = q_ID (t_Quote t), pd_Venue = q_Venue (t_Quote t),
      pd_Environment = q_Environment (t_Quote t), pd_AccountAlias = q_AccountAlias (t_Quote t), pd_RouteID = q_RouteID (t_Quote t),
      pd_FromAsset = q_FromAsset (t_Quote t), pd_ToAsset = q_ToAsset (t_Quote t), pd_RequestedAmount = q_SpendBudget (t_Quote t),
      pd_Instrument = q_Instrument (t_Quote t), pd_Side = q_Side (t_Quote t), pd_ClientOrderID = t_ClientOrderID t,
      pd_VenueOrderID = t_VenueOrderID t, pd_Status = t_Status t, pd_RawVenueStatus = t_RawVenueStatus t, pd_ResultStatus = t_ResultStatus t,
      pd_SubmittedBaseQty = q_BaseQty (t_Quote t), pd_SubmittedLimitPrice = q_LimitPrice (t_Quote t),
      pd_SubmittedTimeInForce = q_TimeInForce (t_Quote t), pd_FilledBaseQty = t_FilledBaseQty t, pd_AveragePrice = t_AveragePrice t,
      pd_GrossSourceSpent = t_GrossSourceSpent t, pd_GrossDestinationReceived = t_GrossDestinationReceived t, pd_Fees = t_Fees t,
      pd_NetDestinationReceived = t_NetDestinationReceived t, pd_ActualSourceDebit = t_ActualSourceDebit t,
      pd_FillDetailsStatus = t_FillDetailsStatus t, pd_FeeDetailsStatus = t_FeeDetailsStatus t, pd_BalanceSyncStatus = t_BalanceSyncStatus t,
      pd_CreatedAt = t_CreatedAt t, pd_UpdatedAt = t_UpdatedAt t, pd_SubmittedAt = t_SubmittedAt t, pd_TerminalAt = t_TerminalAt t,
      pd_LastCheckedAt = t_LastCheckedAt t, pd_Message = t_LastPublicError t, pd_Lifecycle = t_Lifecycle t\<rparr>"

record PublicQuote =
  pq_ID :: string
  pq_Venue :: string
  pq_Environment :: string
  pq_AccountAlias :: string
  pq_RouteID :: string
  pq_FromAsset :: string
  pq_ToAsset :: string
  pq_SpendBudget :: string
  pq_Instrument :: string
  pq_Side :: string
  pq_BaseQty :: string
  pq_LimitPrice :: string
  pq_TimeInForce :: string
  pq_ReferenceBid :: string
  pq_ReferenceAsk :: string
  pq_BookObservedAt :: string
  pq_MetadataRevision :: string
  pq_PriceProtectionBPS :: int
  pq_GrossReceiveEstimate :: string
  pq_NetReceiveEstimate :: string
  pq_EstimatedFees :: "QuoteFee list"
  pq_SourceDebitUpperBound :: string
  pq_ThirdAssetReserves :: "AssetReserve list"
  pq_AccountRevision :: int
  pq_CreatedAt :: string
  pq_ExpiresAt :: string
  pq_Warnings :: "string list"
  pq_Executable :: bool
  pq_BlockedReason :: string

definition toPublicQuote :: "QuickTradeQuote \<Rightarrow> PublicQuote" where
  "toPublicQuote q =
     \<lparr>pq_ID = q_ID q, pq_Venue = q_Venue q, pq_Environment = q_Environment q, pq_AccountAlias = q_AccountAlias q, pq_RouteID = q_RouteID q,
      pq_FromAsset = q_FromAsset q, pq_ToAsset = q_ToAsset q, pq_SpendBudget = q_SpendBudget q, pq_Instrument = q_Instrument q, pq_Side = q_Side q,
      pq_BaseQty = q_BaseQty q, pq_LimitPrice = q_LimitPrice q, pq_TimeInForce = q_TimeInForce q, pq_ReferenceBid = q_ReferenceBid q,
      pq_ReferenceAsk = q_ReferenceAsk q, pq_BookObservedAt = FormatRFC3339Nano (q_BookObservedAt q), pq_MetadataRevision = q_MetadataRevision q,
      pq_PriceProtectionBPS = q_PriceProtectionBPS q, pq_GrossReceiveEstimate = q_GrossReceiveEstimate q,
      pq_NetReceiveEstimate = q_NetReceiveEstimate q, pq_EstimatedFees = q_EstimatedFees q, pq_SourceDebitUpperBound = q_SourceDebitUpperBound q,
      pq_ThirdAssetReserves = q_ThirdAssetReserves q, pq_AccountRevision = q_AccountRevision q, pq_CreatedAt = FormatRFC3339Nano (q_CreatedAt q),
      pq_ExpiresAt = FormatRFC3339Nano (q_ExpiresAt q), pq_Warnings = q_Warnings q, pq_Executable = q_Executable q,
      pq_BlockedReason = q_BlockedReason q\<rparr>"

section \<open>The services behind the console\<close>

record 'w AccountService =
  ac_Snapshot :: "venue \<Rightarrow> 'w \<Rightarrow> AccountSnapshot option"
  ac_Refresh :: "venue \<Rightarrow> 'w \<Rightarrow> goerror option \<times> 'w"
  ac_Health :: "'w \<Rightarrow> VenueHealth list"

text \<open>What \<open>errors.As\<close> finds in an error of a trade call: a \<open>quicktrade.Error\<close>, an \<open>intent.ConfirmError\<close> (code and text), or neither.\<close>

datatype TradeError = QuoteError string string | ConfirmError string string | OtherTradeError goerror

record 'w TradeApplication =
  ta_CreateQuote :: "CreateRequest \<Rightarrow> 'w \<Rightarrow> (TradeError + QuickTradeQuote) \<times> 'w"
  ta_Confirm :: "ConfirmRequest \<Rightarrow> 'w \<Rightarrow> (TradeError + QuickTrade \<times> bool) \<times> 'w"

datatype RecheckFailure = RecheckError int string string | RecheckVenueError string string | RecheckOther goerror

type_synonym 'w rechecker = "string \<Rightarrow> time \<Rightarrow> 'w \<Rightarrow> (RecheckFailure + QuickTrade) \<times> 'w"

text \<open>The world has the intent store's file.\<close>

record 'w Backend =
  be_Accounts :: "'w AccountService option"
  be_TradeApp :: "'w TradeApplication option"
  be_Rechecker :: "'w rechecker option"
  be_File :: "'w \<Rightarrow> IntentSnapshot disk"

section \<open>Venues and their health (account_api.go)\<close>

definition enabledVenue :: "WebConfig \<Rightarrow> string \<Rightarrow> venue \<times> bool" where
  "enabledVenue cfg raw =
     (let v = ToLower (TrimSpace raw) in
      if v = VenueBybit then (v, wc_BybitEnabled cfg)
      else if v = VenueDeribit then (v, wc_DeribitEnabled cfg)
      else ([], False))"

definition accountAlias :: "Config \<Rightarrow> venue \<Rightarrow> string" where
  "accountAlias base v =
     (if v = VenueBybit then cf_AccountAlias base
      else if v = VenueDeribit then dc_AccountAlias (cf_Deribit base)
      else [])"

definition unavailableHealth :: "venue \<Rightarrow> VenueHealth" where
  "unavailableHealth v =
     \<lparr>vh_OrderRequestRTT = 0, vh_FirstOrderEventLatency = 0, vh_FirstExecutionEventLatency = 0, vh_HasFirstOrderEvent = False,
      vh_HasFirstExecutionEvent = False, vh_OrderRequestErrors = 0, vh_RateLimitState = [], vh_ReconciliationStatus = [],
      vh_LastPublicReceiveAt = 0, vh_LastPrivateReceiveAt = 0, vh_LastPublicEventAt = 0, vh_LastPrivateEventAt = 0, vh_Venue = v,
      vh_REST = ''UNAVAILABLE'', vh_PublicWS = ''UNAVAILABLE'', vh_PrivateWS = ''UNAVAILABLE'', vh_AccountSync = ''UNAVAILABLE'',
      vh_LastRESTAt = 0, vh_LastEventAt = 0, vh_MarketEventAt = 0, vh_Reconnects = 0, vh_PublicReconnects = 0, vh_PrivateReconnects = 0,
      vh_LastReconcileAt = 0, vh_RequestErrors = 0, vh_Discrepancies = 0, vh_LastRequestRTT = 0, vh_LastPublicError = []\<rparr>"

definition configuredHealth :: "WebConfig \<Rightarrow> 'w AccountService option \<Rightarrow> 'w \<Rightarrow> VenueHealth list" where
  "configuredHealth cfg accounts w =
     (let byVenue = (case accounts of None \<Rightarrow> [] | Some a \<Rightarrow> foldl (\<lambda>m h. gput (vh_Venue h) h m) [] (ac_Health a w)) in
      sort_key vh_Venue
        (map (\<lambda>v. case gget byVenue v of Some h \<Rightarrow> h | None \<Rightarrow> unavailableHealth v)
          (filter (\<lambda>v. snd (enabledVenue cfg v)) [VenueBybit, VenueDeribit])))"

definition nonNegativeMilliseconds :: "duration \<Rightarrow> int" where
  "nonNegativeMilliseconds d = (if d < 0 then 0 else d div Millisecond)"

record VenueStatus =
  pv_OrderRequestRTTMS :: "int option"
  pv_FirstOrderEventLatencyMS :: "int option"
  pv_FirstExecEventLatencyMS :: "int option"
  pv_OrderRequestErrors :: nat
  pv_RateLimitState :: string
  pv_ReconciliationStatus :: string
  pv_PublicReceiveAgeMS :: "int option"
  pv_PrivateReceiveAgeMS :: "int option"
  pv_PublicEventAgeMS :: "int option"
  pv_PrivateEventAgeMS :: "int option"
  pv_PublicReconnects :: nat
  pv_PrivateReconnects :: nat
  pv_Venue :: venue
  pv_REST :: string
  pv_PublicWS :: string
  pv_PrivateWS :: string
  pv_AccountSync :: string
  pv_AccountAgeMS :: "int option"
  pv_MarketAgeMS :: "int option"
  pv_Reconnects :: nat
  pv_LastReconcileAt :: string
  pv_RequestErrors :: nat
  pv_LastRequestRTT :: "int option"
  pv_Discrepancies :: nat

definition ageMS :: "time \<Rightarrow> time \<Rightarrow> int option" where
  "ageMS now t = (if IsZero t then None else Some (nonNegativeMilliseconds (Sub now t)))"

definition venueStatus :: "'w AccountService option \<Rightarrow> 'w \<Rightarrow> time \<Rightarrow> VenueHealth \<Rightarrow> VenueStatus" where
  "venueStatus accounts w now h =
     \<lparr>pv_OrderRequestRTTMS = (if vh_OrderRequestRTT h > 0 then Some (nonNegativeMilliseconds (vh_OrderRequestRTT h)) else None),
      pv_FirstOrderEventLatencyMS = (if vh_HasFirstOrderEvent h then Some (nonNegativeMilliseconds (vh_FirstOrderEventLatency h)) else None),
      pv_FirstExecEventLatencyMS = (if vh_HasFirstExecutionEvent h then Some (nonNegativeMilliseconds (vh_FirstExecutionEventLatency h)) else None),
      pv_OrderRequestErrors = vh_OrderRequestErrors h, pv_RateLimitState = vh_RateLimitState h, pv_ReconciliationStatus = vh_ReconciliationStatus h,
      pv_PublicReceiveAgeMS = ageMS now (vh_LastPublicReceiveAt h), pv_PrivateReceiveAgeMS = ageMS now (vh_LastPrivateReceiveAt h),
      pv_PublicEventAgeMS = ageMS now (vh_LastPublicEventAt h), pv_PrivateEventAgeMS = ageMS now (vh_LastPrivateEventAt h),
      pv_PublicReconnects = vh_PublicReconnects h, pv_PrivateReconnects = vh_PrivateReconnects h, pv_Venue = vh_Venue h, pv_REST = vh_REST h,
      pv_PublicWS = vh_PublicWS h, pv_PrivateWS = vh_PrivateWS h, pv_AccountSync = vh_AccountSync h,
      pv_AccountAgeMS = (case accounts of
          None \<Rightarrow> None
        | Some a \<Rightarrow> (case ac_Snapshot a (vh_Venue h) w of None \<Rightarrow> None | Some s \<Rightarrow> ageMS now (an_SnapshotAsOf s))),
      pv_MarketAgeMS = ageMS now (vh_MarketEventAt h), pv_Reconnects = vh_Reconnects h,
      pv_LastReconcileAt = (if IsZero (vh_LastReconcileAt h) then [] else FormatRFC3339Nano (vh_LastReconcileAt h)),
      pv_RequestErrors = vh_RequestErrors h,
      pv_LastRequestRTT = (if vh_LastRequestRTT h > 0 then Some (nonNegativeMilliseconds (vh_LastRequestRTT h)) else None),
      pv_Discrepancies = vh_Discrepancies h\<rparr>"

definition publicStatuses :: "WebConfig \<Rightarrow> 'w AccountService option \<Rightarrow> 'w \<Rightarrow> time \<Rightarrow> VenueStatus list" where
  "publicStatuses cfg accounts w now = map (venueStatus accounts w now) (configuredHealth cfg accounts w)"

record VenueSummary =
  vs_ID :: venue
  vs_AccountAlias :: string
  vs_AccountSync :: string
  vs_ReadAvailable :: bool
  vs_AccountAvailable :: bool
  vs_TradingAvailable :: bool

definition venueSummary :: "WebConfig \<Rightarrow> 'w Backend \<Rightarrow> 'w \<Rightarrow> venue \<Rightarrow> string \<Rightarrow> string \<Rightarrow> VenueSummary" where
  "venueSummary cfg be w v als accountSync =
     (let available = (case be_Accounts be of None \<Rightarrow> False | Some a \<Rightarrow> ac_Snapshot a v w \<noteq> None) in
      \<lparr>vs_ID = v, vs_AccountAlias = als, vs_AccountSync = accountSync, vs_ReadAvailable = (be_Accounts be \<noteq> None), vs_AccountAvailable = available,
       vs_TradingAvailable = (wc_TradingEnabled cfg \<and> be_TradeApp be \<noteq> None \<and> available \<and> accountSync = ''SYNCED'')\<rparr>)"

definition venueSummaries :: "WebConfig \<Rightarrow> Config \<Rightarrow> 'w Backend \<Rightarrow> 'w \<Rightarrow> VenueSummary list" where
  "venueSummaries cfg base be w =
     (let sync = (\<lambda>v. case find (\<lambda>h. vh_Venue h = v) (configuredHealth cfg (be_Accounts be) w) of Some h \<Rightarrow> vh_AccountSync h | None \<Rightarrow> []) in
      (if wc_BybitEnabled cfg then [venueSummary cfg be w VenueBybit (cf_AccountAlias base) (sync VenueBybit)] else []) @
      (if wc_DeribitEnabled cfg then [venueSummary cfg be w VenueDeribit (dc_AccountAlias (cf_Deribit base)) (sync VenueDeribit)] else []))"

definition displayMetadata :: "string \<Rightarrow> string" where
  "displayMetadata v = (if TrimSpace v = [] then ''development'' else v)"

text \<open>\<open>Duration.String\<close> of a whole, non-negative number of seconds.\<close>

definition secondsText :: "int \<Rightarrow> string" where
  "secondsText n =
     (let h = n div 3600; m = n div 60 mod 60; s = n mod 60 in
      if h > 0 then FormatInt h @ ''h'' @ FormatInt m @ ''m'' @ FormatInt s @ ''s''
      else if m > 0 then FormatInt m @ ''m'' @ FormatInt s @ ''s''
      else FormatInt s @ ''s'')"

definition uptimeText :: "time \<Rightarrow> time \<Rightarrow> string" where
  "uptimeText now startedAt = (let up = Sub now startedAt in secondsText ((if up < 0 then 0 else up) div Second))"

end
