(* ===== verification/WebSessions.thy ===== *)
theory WebSessions
  imports GoNet Prelude
begin

text \<open>
  The console's state of its own (\<open>internal/webconsole/server.go\<close> and \<open>trade_api.go\<close>): the session store with its WebSocket connections, the
  limiter of sign-in attempts, and the coordinator of rechecks. Every operation holds the lock of its structure, so each is
  one step. A connection is a number; what an operation closes is part of its result. HMAC is a
  parameter, random bytes are arguments.
\<close>

section \<open>Sessions\<close>

record Session =
  se_ID :: string
  se_CSRFToken :: string
  se_CreatedAt :: time
  se_ExpiresAt :: time
  se_conns :: "nat list"

record sessionStore =
  st_secret :: string
  st_sessions :: "(string, Session) gomap"
  st_totalConns :: int
  st_maxTotalConns :: int

definition newSessionStore :: "string \<Rightarrow> sessionStore" where
  "newSessionStore secret = \<lparr>st_secret = secret, st_sessions = [], st_totalConns = 0, st_maxTotalConns = 500\<rparr>"

definition randomToken :: "string result \<Rightarrow> string result" where
  "randomToken bytes = rbind bytes (\<lambda>b. Inr (EncodeRawURL b))"

definition sign :: "(string \<Rightarrow> string \<Rightarrow> string) \<Rightarrow> sessionStore \<Rightarrow> string \<Rightarrow> string" where
  "sign hmac s i = EncodeRawURL (hmac (st_secret s) i)"

definition createSession ::
  "(string \<Rightarrow> string \<Rightarrow> string) \<Rightarrow> string result \<Rightarrow> string result \<Rightarrow> time \<Rightarrow> duration \<Rightarrow> sessionStore \<Rightarrow> (Session \<times> string) result \<times> sessionStore" where
  "createSession hmac idBytes csrfBytes now ttl s =
     (case randomToken idBytes of
        Inl e \<Rightarrow> (Inl e, s)
      | Inr i \<Rightarrow>
          (case randomToken csrfBytes of
             Inl e \<Rightarrow> (Inl e, s)
           | Inr csrf \<Rightarrow>
               (let sess = \<lparr>se_ID = i, se_CSRFToken = csrf, se_CreatedAt = now, se_ExpiresAt = Add now ttl, se_conns = []\<rparr> in
                (Inr (sess, i @ ''.'' @ sign hmac s i), s\<lparr>st_sessions := gput i sess (st_sessions s)\<rparr>))))"

definition dropConns :: "nat list \<Rightarrow> int \<Rightarrow> int" where
  "dropConns conns count = (let t = count - int (length conns) in if t < 0 then 0 else t)"

definition CutByte :: "char \<Rightarrow> string \<Rightarrow> (string \<times> string) option" where
  "CutByte c s = (case indexByte c s of None \<Rightarrow> None | Some i \<Rightarrow> Some (take i s, drop (i + 1) s))"

text \<open>The session of a cookie, and the connections closed because it has expired.\<close>

definition getSession :: "(string \<Rightarrow> string \<Rightarrow> string) \<Rightarrow> string \<Rightarrow> time \<Rightarrow> sessionStore \<Rightarrow> (Session option \<times> nat list) \<times> sessionStore" where
  "getSession hmac cookie now s =
     (case CutByte (CHR ''.'') cookie of
        None \<Rightarrow> ((None, []), s)
      | Some (i, signature) \<Rightarrow>
          (if signature \<noteq> sign hmac s i then ((None, []), s)
           else
             (case gget (st_sessions s) i of
                None \<Rightarrow> ((None, []), s)
              | Some sess \<Rightarrow>
                  (if Before now (se_ExpiresAt sess) then ((Some sess, []), s)
                   else ((None, se_conns sess),
                     s\<lparr>st_sessions := gdel i (st_sessions s), st_totalConns := dropConns (se_conns sess) (st_totalConns s)\<rparr>)))))"

definition deleteSession :: "string \<Rightarrow> sessionStore \<Rightarrow> nat list \<times> sessionStore" where
  "deleteSession i s =
     (case gget (st_sessions s) i of
        None \<Rightarrow> ([], s\<lparr>st_sessions := gdel i (st_sessions s)\<rparr>)
      | Some sess \<Rightarrow>
          (se_conns sess, s\<lparr>st_sessions := gdel i (st_sessions s), st_totalConns := dropConns (se_conns sess) (st_totalConns s)\<rparr>))"

text \<open>Closing every session: the identifiers are read first, then each is deleted; \<open>others\<close> is what happens in between.\<close>

definition closeAll :: "(sessionStore \<Rightarrow> sessionStore) \<Rightarrow> sessionStore \<Rightarrow> sessionStore" where
  "closeAll others s = foldl (\<lambda>t i. snd (deleteSession i (others t))) s (map fst (st_sessions s))"

definition addConn :: "string \<Rightarrow> nat \<Rightarrow> int \<Rightarrow> sessionStore \<Rightarrow> bool \<times> sessionStore" where
  "addConn i conn maxConnections s =
     (case gget (st_sessions s) i of
        None \<Rightarrow> (False, s)
      | Some sess \<Rightarrow>
          (if int (length (se_conns sess)) \<ge> maxConnections \<or> st_maxTotalConns s > 0 \<and> st_totalConns s \<ge> st_maxTotalConns s then (False, s)
           else if conn \<in> set (se_conns sess) then (True, s)
           else (True, s\<lparr>st_sessions := gput i (sess\<lparr>se_conns := se_conns sess @ [conn]\<rparr>) (st_sessions s), st_totalConns := st_totalConns s + 1\<rparr>)))"

definition removeConn :: "string \<Rightarrow> nat \<Rightarrow> sessionStore \<Rightarrow> sessionStore" where
  "removeConn i conn s =
     (case gget (st_sessions s) i of
        None \<Rightarrow> s
      | Some sess \<Rightarrow>
          (if conn \<in> set (se_conns sess) then
             s\<lparr>st_sessions := gput i (sess\<lparr>se_conns := removeAll conn (se_conns sess)\<rparr>) (st_sessions s),
               st_totalConns := (let t = st_totalConns s - 1 in if t < 0 then 0 else t)\<rparr>
           else s))"

section \<open>Sign-in attempts\<close>

record loginAttempt =
  la_failures :: "time list"
  la_blockedUntil :: time

record loginLimiter =
  ll_clients :: "(string, loginAttempt) gomap"
  ll_globalFailures :: "time list"
  ll_globalBlockedUntil :: time
  ll_maxClients :: int

definition newLimiter :: loginLimiter where
  "newLimiter = \<lparr>ll_clients = [], ll_globalFailures = [], ll_globalBlockedUntil = 0, ll_maxClients = 10000\<rparr>"

definition recentTimes :: "time list \<Rightarrow> time \<Rightarrow> time list" where
  "recentTimes vals cutoff = dropWhile (\<lambda>t. Before t cutoff) vals"

definition pruneLimiter :: "time \<Rightarrow> loginLimiter \<Rightarrow> loginLimiter" where
  "pruneLimiter now l =
     (let cutoff = Add now (- 5 * Minute) in
      l\<lparr>ll_globalFailures := recentTimes (ll_globalFailures l) cutoff,
        ll_clients := filter (\<lambda>(_, a). \<not> (la_failures a = [] \<and> \<not> Before now (la_blockedUntil a)))
          (map (\<lambda>(c, a). (c, a\<lparr>la_failures := recentTimes (la_failures a) cutoff\<rparr>)) (ll_clients l))\<rparr>)"

definition allowLogin :: "string \<Rightarrow> time \<Rightarrow> loginLimiter \<Rightarrow> (duration \<times> bool) \<times> loginLimiter" where
  "allowLogin clientIP now l =
     (let l' = pruneLimiter now l in
      if Before now (ll_globalBlockedUntil l') then ((Sub (ll_globalBlockedUntil l') now, False), l')
      else
        (case gget (ll_clients l') clientIP of
           Some a \<Rightarrow> (if Before now (la_blockedUntil a) then ((Sub (la_blockedUntil a) now, False), l') else ((0, True), l'))
         | None \<Rightarrow> ((0, True), l')))"

definition loginFailure :: "string \<Rightarrow> time \<Rightarrow> loginLimiter \<Rightarrow> loginLimiter" where
  "loginFailure clientIP now l =
     (let l' = pruneLimiter now l in
      if int (length (ll_clients l')) \<ge> ll_maxClients l' then l'\<lparr>ll_globalBlockedUntil := Add now (30 * Second)\<rparr>
      else
        (let a = (case gget (ll_clients l') clientIP of Some a \<Rightarrow> a | None \<Rightarrow> \<lparr>la_failures = [], la_blockedUntil = 0\<rparr>);
             failures = la_failures a @ [now];
             globals = ll_globalFailures l' @ [now];
             a' = \<lparr>la_failures = failures, la_blockedUntil = (if length failures \<ge> 5 then Add now (30 * Second) else la_blockedUntil a)\<rparr> in
         l'\<lparr>ll_clients := gput clientIP a' (ll_clients l'), ll_globalFailures := globals,
            ll_globalBlockedUntil := (if length globals \<ge> 200 then Add now (30 * Second) else ll_globalBlockedUntil l')\<rparr>))"

definition loginSuccess :: "string \<Rightarrow> loginLimiter \<Rightarrow> loginLimiter" where
  "loginSuccess clientIP l = l\<lparr>ll_clients := gdel clientIP (ll_clients l)\<rparr>"

section \<open>Rechecks (trade_api.go)\<close>

record recheckCoordinator =
  rc_active :: "(string, bool) gomap"
  rc_last :: "(string, time) gomap"

datatype RecheckStatus = RecheckActive | RecheckLimited | RecheckStarted

definition beginRecheck :: "string \<Rightarrow> time \<Rightarrow> recheckCoordinator \<Rightarrow> (RecheckStatus \<times> duration) \<times> recheckCoordinator" where
  "beginRecheck intentID now c =
     (if gget (rc_active c) intentID = Some True then ((RecheckActive, 0), c)
      else
        (let t = (case gget (rc_last c) intentID of Some t \<Rightarrow> t | None \<Rightarrow> 0) in
         if \<not> IsZero t \<and> Sub now t < 2 * Second then ((RecheckLimited, 2 * Second - Sub now t), c)
         else ((RecheckStarted, 0), c\<lparr>rc_active := gput intentID True (rc_active c)\<rparr>)))"

definition finishRecheck :: "string \<Rightarrow> time \<Rightarrow> recheckCoordinator \<Rightarrow> recheckCoordinator" where
  "finishRecheck intentID now c = c\<lparr>rc_active := gdel intentID (rc_active c), rc_last := gput intentID now (rc_last c)\<rparr>"

section \<open>The invariant of the session store\<close>

definition connCount :: "sessionStore \<Rightarrow> int" where
  "connCount s = sum_list (map (\<lambda>(_, x). int (length (se_conns x))) (st_sessions s))"

definition sessionsOk :: "sessionStore \<Rightarrow> bool" where
  "sessionsOk s \<longleftrightarrow> gwf (st_sessions s) \<and> st_totalConns s = connCount s \<and> st_maxTotalConns s = 500 \<and> st_totalConns s \<le> 500 \<and>
     (\<forall>(i, x) \<in> set (st_sessions s). se_ID x = i \<and> CHR ''.'' \<notin> set i \<and> distinct (se_conns x) \<and> length (se_conns x) \<le> 5)"

end
