(* ===== verification/WebConsole.thy ===== *)
theory WebConsole
  imports WebViews WebSessions RuntimeEvents
begin

text \<open>
  The HTTP side of the console (\<open>internal/webconsole/server.go\<close>, \<open>account_api.go\<close>, \<open>trade_api.go\<close>, \<open>quicktrade_api.go\<close>,
  \<open>frontend.go\<close>): the middleware, the routes and the handlers. A request carries its headers and cookies as look-up functions and its body as what decoding it
  as each of the expected JSON objects gives. \<open>admit\<close> is everything up to the handler, \<open>serve\<close> the handler;
  other requests may come between the two, and between the phases of a sign-in and of a recheck. SHA-256, HMAC and the
  services are parameters, and so is the status of the multiplexer's redirects, which depends on the release of Go.
\<close>

section \<open>Requests and responses\<close>

record Request =
  rq_Method :: string
  rq_RemoteAddr :: string
  rq_Host :: string
  rq_Path :: string
  rq_EscapedPath :: string
  rq_Query :: "string \<Rightarrow> string"
  rq_Header :: "string \<Rightarrow> string"
  rq_Cookie :: "string \<Rightarrow> string option"
  rq_LoginBody :: "(string \<times> string) option"
  rq_QuoteBody :: "(string \<times> string) option"
  rq_ConfirmBody :: "(string \<times> string) option"

record Cookie =
  ck_Name :: string
  ck_Value :: string
  ck_Path :: string
  ck_Expires :: time
  ck_MaxAge :: int
  ck_Secure :: bool
  ck_HttpOnly :: bool
  ck_SameSiteStrict :: bool

record BuildInfo =
  bi_Environment :: string
  bi_Backend :: string
  bi_Frontend :: string
  bi_BuildTimestamp :: string
  bi_GitCommit :: string
  bi_Uptime :: string

datatype Body =
    NoBody
  | ErrorBody string string string
  | SessionBody string string string bool
  | VenuesBody "VenueSummary list" venue bool
  | AccountBody AccountSnapshot
  | StatusBody "VenueStatus list" BuildInfo
  | TradesBody "PublicTrade list"
  | TradeBody PublicTrade "bool option"
  | QuoteBody PublicQuote
  | FileBody string
  | ContentBody string

record Response =
  rp_Status :: int
  rp_Headers :: "(string, string) gomap"
  rp_Cookie :: "Cookie option"
  rp_Body :: Body

definition writeJSON :: "(string, string) gomap \<Rightarrow> int \<Rightarrow> Body \<Rightarrow> Response" where
  "writeJSON hs status body = \<lparr>rp_Status = status, rp_Headers = gput ''Content-Type'' ''application/json'' hs, rp_Cookie = None, rp_Body = body\<rparr>"

definition writeError :: "(string, string) gomap \<Rightarrow> int \<Rightarrow> string \<Rightarrow> string \<Rightarrow> string \<Rightarrow> Response" where
  "writeError hs status code message requestID = writeJSON hs status (ErrorBody code message requestID)"

definition internalError :: "(string, string) gomap \<Rightarrow> string \<Rightarrow> Response" where
  "internalError hs requestID = writeError hs 500 ''internal_error'' ''The request could not be processed.'' requestID"

definition sessionCookieName :: string where "sessionCookieName = ''__Host-trading_session''"

definition sessionCookie :: "string \<Rightarrow> time \<Rightarrow> duration \<Rightarrow> Cookie" where
  "sessionCookie v expires ttl =
     \<lparr>ck_Name = sessionCookieName, ck_Value = v, ck_Path = ''/'', ck_Expires = expires, ck_MaxAge = ttl div Second, ck_Secure = True,
      ck_HttpOnly = True, ck_SameSiteStrict = True\<rparr>"

definition expiredSessionCookie :: Cookie where
  "expiredSessionCookie =
     \<lparr>ck_Name = sessionCookieName, ck_Value = [], ck_Path = ''/'', ck_Expires = unixEpoch + Second, ck_MaxAge = - 1, ck_Secure = True,
      ck_HttpOnly = True, ck_SameSiteStrict = True\<rparr>"

section \<open>The server\<close>

datatype AssetEntry = AssetFile string | AssetDir

record 'w Server =
  sv_Config :: WebConfig
  sv_Base :: Config
  sv_HMAC :: "string \<Rightarrow> string \<Rightarrow> string"
  sv_SHA256 :: "string \<Rightarrow> string"
  sv_Backend :: "'w Backend"
  sv_Assets :: "(string \<Rightarrow> AssetEntry option) option"
  sv_BuildTimestamp :: string
  sv_BuildCommit :: string
  sv_GoVersion :: string
  sv_StartedAt :: time
  sv_InstanceID :: string
  sv_RedirectStatus :: int

text \<open>The state: the console's own, and the world of its services.\<close>

record 'w Console =
  cn_Sessions :: sessionStore
  cn_Limiter :: loginLimiter
  cn_Rechecks :: recheckCoordinator
  cn_Events :: Broker
  cn_Closed :: "nat list"
  cn_World :: 'w

definition newConsole :: "'w Server \<Rightarrow> 'w \<Rightarrow> 'w Console" where
  "newConsole sv w =
     \<lparr>cn_Sessions = newSessionStore (wc_SessionSecret (sv_Config sv)), cn_Limiter = newLimiter, cn_Rechecks = \<lparr>rc_active = [], rc_last = []\<rparr>,
      cn_Events = NewBroker, cn_Closed = [], cn_World = w\<rparr>"

text \<open>What one request finds: the reading of the clock, random bytes, the environments of its store reads, and the races of its event.\<close>

record HandlerEnv =
  he_Now :: time
  he_Later :: time
  he_RequestBytes :: "string result"
  he_IDBytes :: "string result"
  he_CSRFBytes :: "string result"
  he_Read :: Env
  he_Read2 :: Env
  he_Readers :: "64 word \<Rightarrow> bool list"

definition constantTimeTextEqual :: "'w Server \<Rightarrow> string \<Rightarrow> string \<Rightarrow> bool" where
  "constantTimeTextEqual sv a b \<longleftrightarrow> sv_SHA256 sv a = sv_SHA256 sv b"

definition validWriteOrigin :: "'w Server \<Rightarrow> Request \<Rightarrow> bool" where
  "validWriteOrigin sv r \<longleftrightarrow> rq_Header r ''Origin'' = wc_PublicOrigin (sv_Config sv)"

section \<open>Middleware\<close>

definition securityHeaders :: "Request \<Rightarrow> (string, string) gomap" where
  "securityHeaders r =
     [(''Content-Security-Policy'', concat [''default-src '', [CHR 39], ''self'', [CHR 39], ''; connect-src '', [CHR 39], ''self'', [CHR 39],
        ''; img-src '', [CHR 39], ''self'', [CHR 39], '' data:; style-src '', [CHR 39], ''self'', [CHR 39], '' '', [CHR 39], ''unsafe-inline'', [CHR 39],
        ''; script-src '', [CHR 39], ''self'', [CHR 39], ''; frame-ancestors '', [CHR 39], ''none'', [CHR 39], ''; base-uri '', [CHR 39], ''none'', [CHR 39],
        ''; form-action '', [CHR 39], ''self'', [CHR 39]]),
      (''Referrer-Policy'', ''no-referrer''), (''X-Content-Type-Options'', ''nosniff''), (''X-Frame-Options'', ''DENY'')] @
     (if HasPrefix (rq_Path r) ''/api/'' then [(''Cache-Control'', ''no-store'')] else [])"

definition remoteIP :: "string \<Rightarrow> ip option" where
  "remoteIP remoteAddr = (case SplitHostPort remoteAddr of None \<Rightarrow> None | Some (host, _) \<Rightarrow> ParseIP host)"

definition ipInNetworks :: "ip \<Rightarrow> IPNet list \<Rightarrow> bool" where
  "ipInNetworks a networks = list_ex (\<lambda>n. IPNet_Contains n a) networks"

text \<open>The client's address, or the error to answer with.\<close>

definition proxyBoundary :: "'w Server \<Rightarrow> Request \<Rightarrow> string + string" where
  "proxyBoundary sv r =
     (case remoteIP (rq_RemoteAddr r) of
        None \<Rightarrow> Inl ''untrusted_proxy''
      | Some direct \<Rightarrow>
          (if \<not> ipInNetworks direct (wc_TrustedProxyCIDRs (sv_Config sv)) then Inl ''untrusted_proxy''
           else
             (case ParseURL (wc_PublicOrigin (sv_Config sv)) of
                None \<Rightarrow> Inl ''nil pointer dereference''
              | Some expected \<Rightarrow>
                  (if \<not> EqualFold (rq_Host r) (ur_Host expected) \<or> rq_Header r ''X-Forwarded-Proto'' \<noteq> ''https'' then Inl ''invalid_request_origin''
                   else
                     (let forwarded = TrimSpace (rq_Header r ''X-Forwarded-For''); realIP = TrimSpace (rq_Header r ''X-Real-IP'') in
                      case ParseIP forwarded of
                        None \<Rightarrow> Inl ''invalid_forwarding_headers''
                      | Some client \<Rightarrow>
                          (if CHR '','' \<in> set forwarded \<or> realIP \<noteq> forwarded then Inl ''invalid_forwarding_headers''
                           else Inr (IPString client)))))))"

section \<open>Routes\<close>

datatype Endpoint =
    EpLogin | EpMe | EpLogout | EpVenues | EpAccount string | EpRefresh string | EpStatus | EpTrades | EpTrade string
  | EpRecheck string | EpQuotes string | EpConfirm | EpWebSocket | EpFrontend

text \<open>The cleaned path that the multiplexer redirects to, if it is another one.\<close>

definition cleanPath :: "string \<Rightarrow> string" where
  "cleanPath p =
     (if p = [] then ''/''
      else
        (let q = (if hd p = CHR ''/'' then p else CHR ''/'' # p); np = Clean q in
         if List.last q = CHR ''/'' \<and> np \<noteq> ''/'' then np @ ''/'' else np))"

definition pathSegments :: "string \<Rightarrow> string list" where
  "pathSegments p = map (\<lambda>s. case percentDecode s of Some t \<Rightarrow> t | None \<Rightarrow> s) (splitByte (CHR ''/'') (drop 1 p))"

definition routes :: "string \<Rightarrow> string \<Rightarrow> Endpoint" where
  "routes method path =
     (let segs = pathSegments path; get = (method = ''GET'' \<or> method = ''HEAD''); post = (method = ''POST'') in
      case segs of
        [a, b] \<Rightarrow>
          (if a = ''api'' \<and> get then
             (if b = ''venues'' then EpVenues else if b = ''trades'' then EpTrades else if b = ''ws'' then EpWebSocket else EpFrontend)
           else EpFrontend)
      | [a, b, c] \<Rightarrow>
          (if a \<noteq> ''api'' then EpFrontend
           else if b = ''auth'' then
             (if c = ''login'' \<and> post then EpLogin else if c = ''me'' \<and> get then EpMe else if c = ''logout'' \<and> post then EpLogout else EpFrontend)
           else if b = ''system'' then (if c = ''status'' \<and> get then EpStatus else EpFrontend)
           else if b = ''trades'' then
             (if get \<and> c \<noteq> [] then EpTrade c else if c = ''confirm'' \<and> post then EpConfirm else EpFrontend)
           else EpFrontend)
      | [a, b, c, d] \<Rightarrow>
          (if a \<noteq> ''api'' \<or> c = [] then EpFrontend
           else if b = ''venues'' then
             (if d = ''account'' \<and> get then EpAccount c else if d = ''quotes'' \<and> post then EpQuotes c else EpFrontend)
           else if b = ''trades'' then (if d = ''recheck'' \<and> post then EpRecheck c else EpFrontend)
           else EpFrontend)
      | [a, b, c, d, e] \<Rightarrow>
          (if a = ''api'' \<and> b = ''venues'' \<and> c \<noteq> [] \<and> d = ''account'' \<and> e = ''refresh'' \<and> post then EpRefresh c else EpFrontend)
      | _ \<Rightarrow> EpFrontend)"

definition needsSession :: "Endpoint \<Rightarrow> bool" where
  "needsSession ep \<longleftrightarrow> ep \<noteq> EpLogin \<and> ep \<noteq> EpFrontend"

definition needsCSRF :: "Endpoint \<Rightarrow> bool" where
  "needsCSRF ep \<longleftrightarrow> (case ep of EpLogout \<Rightarrow> True | EpRefresh _ \<Rightarrow> True | EpRecheck _ \<Rightarrow> True | EpQuotes _ \<Rightarrow> True | EpConfirm \<Rightarrow> True | _ \<Rightarrow> False)"

text \<open>A request on its way to its handler.\<close>

record Admitted =
  ad_Endpoint :: Endpoint
  ad_Session :: "Session option"
  ad_ClientIP :: string
  ad_RequestID :: string
  ad_Headers :: "(string, string) gomap"

definition requireCSRF :: "'w Server \<Rightarrow> Request \<Rightarrow> Session \<Rightarrow> bool" where
  "requireCSRF sv r sess \<longleftrightarrow> validWriteOrigin sv r \<and> constantTimeTextEqual sv (rq_Header r ''X-CSRF-Token'') (se_CSRFToken sess)"

definition requireSession ::
  "'w Server \<Rightarrow> HandlerEnv \<Rightarrow> Request \<Rightarrow> (string, string) gomap \<Rightarrow> string \<Rightarrow> 'w Console \<Rightarrow> (Response + Session) \<times> 'w Console" where
  "requireSession sv env r hs requestID st =
     (case rq_Cookie r sessionCookieName of
        None \<Rightarrow> (Inl (writeError hs 401 ''authentication_required'' ''Sign in is required.'' requestID), st)
      | Some cookie \<Rightarrow>
          (case getSession (sv_HMAC sv) cookie (he_Now env) (cn_Sessions st) of
             ((None, gone), ss) \<Rightarrow>
               (Inl ((writeError hs 401 ''session_expired'' ''The session is invalid or expired.'' requestID)\<lparr>rp_Cookie := Some expiredSessionCookie\<rparr>),
                st\<lparr>cn_Sessions := ss, cn_Closed := cn_Closed st @ gone\<rparr>)
           | ((Some sess, _), ss) \<Rightarrow> (Inr sess, st\<lparr>cn_Sessions := ss\<rparr>)))"

definition admit :: "'w Server \<Rightarrow> HandlerEnv \<Rightarrow> Request \<Rightarrow> 'w Console \<Rightarrow> (Response + Admitted) \<times> 'w Console" where
  "admit sv env r st =
     (let hs0 = securityHeaders r in
      case randomToken (he_RequestBytes env) of
        Inl _ \<Rightarrow> (Inl (internalError hs0 []), st)
      | Inr requestID \<Rightarrow>
          (let hs = gput ''X-Request-ID'' requestID hs0 in
           case proxyBoundary sv r of
             Inl code \<Rightarrow> (Inl (writeError hs 403 code ''The request was rejected.'' requestID), st)
           | Inr clientIP \<Rightarrow>
               (if rq_Method r \<noteq> ''CONNECT'' \<and> cleanPath (rq_EscapedPath r) \<noteq> rq_EscapedPath r
                then (Inl \<lparr>rp_Status = sv_RedirectStatus sv, rp_Headers = gput ''Location'' (cleanPath (rq_EscapedPath r)) hs, rp_Cookie = None, rp_Body = NoBody\<rparr>, st)
                else
                  (let ep = routes (rq_Method r) (rq_EscapedPath r);
                       ok = (\<lambda>s. \<lparr>ad_Endpoint = ep, ad_Session = s, ad_ClientIP = clientIP, ad_RequestID = requestID, ad_Headers = hs\<rparr>) in
                   if \<not> needsSession ep then (Inr (ok None), st)
                   else
                     (case requireSession sv env r hs requestID st of
                        (Inl response, st') \<Rightarrow> (Inl response, st')
                      | (Inr sess, st') \<Rightarrow>
                          (if needsCSRF ep \<and> \<not> requireCSRF sv r sess
                           then (Inl (writeError hs 403 ''csrf_rejected'' ''The request was rejected.'' requestID), st')
                           else (Inr (ok (Some sess)), st')))))))"

section \<open>Signing in and out\<close>

definition jsonContent :: "Request \<Rightarrow> bool" where
  "jsonContent r \<longleftrightarrow> EqualFold (TrimSpace (hd (splitByte (CHR '';'') (rq_Header r ''Content-Type'')))) ''application/json''"

definition retryAfter :: "duration \<Rightarrow> string" where
  "retryAfter d = FormatInt (max 1 (RoundDuration d Second div Second))"

text \<open>A sign-in up to the limiter's answer.\<close>

definition loginCheck :: "'w Server \<Rightarrow> HandlerEnv \<Rightarrow> Request \<Rightarrow> Admitted \<Rightarrow> 'w Console \<Rightarrow> Response option \<times> 'w Console" where
  "loginCheck sv env r ad st =
     (let hs = ad_Headers ad; rid = ad_RequestID ad in
      if \<not> validWriteOrigin sv r then (Some (writeError hs 403 ''invalid_request_origin'' ''The request was rejected.'' rid), st)
      else if \<not> jsonContent r then (Some (writeError hs 415 ''invalid_content_type'' ''A JSON request body is required.'' rid), st)
      else
        (case allowLogin (ad_ClientIP ad) (he_Now env) (cn_Limiter st) of
           ((wait, allowed), l) \<Rightarrow>
             (if \<not> allowed
              then (Some (writeError (gput ''Retry-After'' (retryAfter wait) hs) 429 ''login_rate_limited'' ''Too many sign-in attempts. Try again later.'' rid),
                    st\<lparr>cn_Limiter := l\<rparr>)
              else (None, st\<lparr>cn_Limiter := l\<rparr>))))"

definition signIn :: "'w Server \<Rightarrow> HandlerEnv \<Rightarrow> Admitted \<Rightarrow> 'w Console \<Rightarrow> Response \<times> 'w Console" where
  "signIn sv env ad st =
     (let cfg = sv_Config sv; hs = ad_Headers ad; rid = ad_RequestID ad; l = loginSuccess (ad_ClientIP ad) (cn_Limiter st) in
      case createSession (sv_HMAC sv) (he_IDBytes env) (he_CSRFBytes env) (he_Now env) (wc_SessionTTL cfg) (cn_Sessions st) of
        (Inl _, ss) \<Rightarrow> (internalError hs rid, st\<lparr>cn_Limiter := l, cn_Sessions := ss\<rparr>)
      | (Inr (sess, cookie), ss) \<Rightarrow>
          ((writeJSON hs 200 (SessionBody (wc_Username cfg) (se_CSRFToken sess) (FormatRFC3339 (se_ExpiresAt sess)) (\<not> wc_TradingEnabled cfg)))
             \<lparr>rp_Cookie := Some (sessionCookie cookie (se_ExpiresAt sess) (wc_SessionTTL cfg))\<rparr>,
           st\<lparr>cn_Limiter := l, cn_Sessions := ss\<rparr>))"

text \<open>The rest of a sign-in that the limiter allowed.\<close>

definition loginFinish :: "'w Server \<Rightarrow> HandlerEnv \<Rightarrow> Request \<Rightarrow> Admitted \<Rightarrow> 'w Console \<Rightarrow> Response \<times> 'w Console" where
  "loginFinish sv env r ad st =
     (let cfg = sv_Config sv; hs = ad_Headers ad; rid = ad_RequestID ad in
      case rq_LoginBody r of
        None \<Rightarrow> (writeError hs 400 ''invalid_request'' ''The sign-in request is invalid.'' rid, st)
      | Some (username, password) \<Rightarrow>
          (if \<not> constantTimeTextEqual sv username (wc_Username cfg) \<or> \<not> constantTimeTextEqual sv password (wc_Password cfg)
           then (writeError hs 401 ''invalid_credentials'' ''The username or password is incorrect.'' rid,
                 st\<lparr>cn_Limiter := loginFailure (ad_ClientIP ad) (he_Now env) (cn_Limiter st)\<rparr>)
           else signIn sv env ad st))"

definition handleLogin :: "'w Server \<Rightarrow> HandlerEnv \<Rightarrow> Request \<Rightarrow> Admitted \<Rightarrow> 'w Console \<Rightarrow> Response \<times> 'w Console" where
  "handleLogin sv env r ad st =
     (case loginCheck sv env r ad st of
        (Some response, st') \<Rightarrow> (response, st')
      | (None, st') \<Rightarrow> loginFinish sv env r ad st')"

definition handleMe :: "'w Server \<Rightarrow> Admitted \<Rightarrow> Session \<Rightarrow> Response" where
  "handleMe sv ad sess =
     writeJSON (ad_Headers ad) 200 (SessionBody (wc_Username (sv_Config sv)) (se_CSRFToken sess) (FormatRFC3339 (se_ExpiresAt sess)) (\<not> wc_TradingEnabled (sv_Config sv)))"

definition handleLogout :: "Admitted \<Rightarrow> Session \<Rightarrow> 'w Console \<Rightarrow> Response \<times> 'w Console" where
  "handleLogout ad sess st =
     (case deleteSession (se_ID sess) (cn_Sessions st) of
        (gone, ss) \<Rightarrow>
          (\<lparr>rp_Status = 204, rp_Headers = ad_Headers ad, rp_Cookie = Some expiredSessionCookie, rp_Body = NoBody\<rparr>,
           st\<lparr>cn_Sessions := ss, cn_Closed := cn_Closed st @ gone\<rparr>))"

section \<open>Accounts and status\<close>

definition handleVenues :: "'w Server \<Rightarrow> Admitted \<Rightarrow> 'w Console \<Rightarrow> Response" where
  "handleVenues sv ad st =
     writeJSON (ad_Headers ad) 200 (VenuesBody (venueSummaries (sv_Config sv) (sv_Base sv) (sv_Backend sv) (cn_World st))
       (wc_DefaultVenue (sv_Config sv)) (wc_TradingEnabled (sv_Config sv)))"

definition venueNotFound :: "Admitted \<Rightarrow> Response" where
  "venueNotFound ad = writeError (ad_Headers ad) 404 ''venue_not_found'' ''The venue is not available.'' (ad_RequestID ad)"

definition accountResponse :: "Admitted \<Rightarrow> AccountSnapshot option \<Rightarrow> Response" where
  "accountResponse ad snapshot =
     (case snapshot of
        None \<Rightarrow> writeError (ad_Headers ad) 503 ''account_syncing'' ''The account snapshot is not available yet.'' (ad_RequestID ad)
      | Some s \<Rightarrow> writeJSON (ad_Headers ad) 200 (AccountBody s))"

definition accountUnavailable :: "Admitted \<Rightarrow> Response" where
  "accountUnavailable ad = writeError (ad_Headers ad) 503 ''account_unavailable'' ''Account data is temporarily unavailable.'' (ad_RequestID ad)"

definition handleAccount :: "'w Server \<Rightarrow> string \<Rightarrow> Admitted \<Rightarrow> 'w Console \<Rightarrow> Response" where
  "handleAccount sv raw ad st =
     (case enabledVenue (sv_Config sv) raw of
        (v, ok) \<Rightarrow>
          (if \<not> ok then venueNotFound ad
           else (case be_Accounts (sv_Backend sv) of
               None \<Rightarrow> accountUnavailable ad
             | Some a \<Rightarrow> accountResponse ad (ac_Snapshot a v (cn_World st)))))"

definition handleAccountRefresh :: "'w Server \<Rightarrow> string \<Rightarrow> Admitted \<Rightarrow> 'w Console \<Rightarrow> Response \<times> 'w Console" where
  "handleAccountRefresh sv raw ad st =
     (case enabledVenue (sv_Config sv) raw of
        (v, ok) \<Rightarrow>
          (if \<not> ok then (venueNotFound ad, st)
           else (case be_Accounts (sv_Backend sv) of
               None \<Rightarrow> (accountUnavailable ad, st)
             | Some a \<Rightarrow>
                 (case ac_Refresh a v (cn_World st) of
                    (Some _, w) \<Rightarrow>
                      (writeError (ad_Headers ad) 503 ''account_refresh_failed''
                         ''The account could not be refreshed. The last known snapshot remains available.'' (ad_RequestID ad), st\<lparr>cn_World := w\<rparr>)
                  | (None, w) \<Rightarrow> (accountResponse ad (ac_Snapshot a v w), st\<lparr>cn_World := w\<rparr>)))))"

definition handleSystemStatus :: "'w Server \<Rightarrow> HandlerEnv \<Rightarrow> Admitted \<Rightarrow> 'w Console \<Rightarrow> Response" where
  "handleSystemStatus sv env ad st =
     writeJSON (ad_Headers ad) 200
       (StatusBody (publicStatuses (sv_Config sv) (be_Accounts (sv_Backend sv)) (cn_World st) (he_Now env))
         \<lparr>bi_Environment = ''Testnet'', bi_Backend = ''Go '' @ sv_GoVersion sv, bi_Frontend = ''Vue 3'',
          bi_BuildTimestamp = displayMetadata (sv_BuildTimestamp sv), bi_GitCommit = displayMetadata (sv_BuildCommit sv),
          bi_Uptime = uptimeText (he_Now env) (sv_StartedAt sv)\<rparr>)"

section \<open>Trades\<close>

text \<open>The text of an error, as far as its formats are known.\<close>

fun Sprintf :: "string \<Rightarrow> string list \<Rightarrow> string" where
  "Sprintf [] args = []"
| "Sprintf [c] args = [c]"
| "Sprintf (c # v # s) args =
     (if c = CHR ''%'' then (case args of [] \<Rightarrow> Sprintf s [] | a # as \<Rightarrow> a @ Sprintf s as) else c # Sprintf (v # s) args)"

fun errorText :: "goerror \<Rightarrow> string" where
  "errorText (EText s) = s"
| "errorText (EFmt f args) = Sprintf f args"
| "errorText (EWrap p e) = p @ errorText e"
| "errorText (ECode code message) = message"
| "errorText (EProvider code message cause) = message"

definition Contains :: "string \<Rightarrow> string \<Rightarrow> bool" where
  "Contains s m \<longleftrightarrow> isPrefixAt m s \<noteq> None"

definition handleRecentTrades :: "'w Server \<Rightarrow> HandlerEnv \<Rightarrow> Request \<Rightarrow> Admitted \<Rightarrow> 'w Console \<Rightarrow> Response" where
  "handleRecentTrades sv env r ad st =
     (let hs = ad_Headers ad; rid = ad_RequestID ad; raw = rq_Query r ''limit'';
          limit = (if raw = [] then Some 25 else (case Atoi raw of None \<Rightarrow> None | Some n \<Rightarrow> (if n < 1 \<or> n > 100 then None else Some n))) in
      case limit of
        None \<Rightarrow> writeError hs 400 ''invalid_limit'' ''The trade history limit must be from 1 to 100.'' rid
      | Some n \<Rightarrow>
          (case ListQuickTrades (he_Read env) (be_File (sv_Backend sv) (cn_World st)) of
             Inl _ \<Rightarrow> internalError hs rid
           | Inr trades \<Rightarrow> writeJSON hs 200 (TradesBody (map toPublicTrade (take (nat n) trades)))))"

definition loadTrade :: "'w Server \<Rightarrow> Env \<Rightarrow> string \<Rightarrow> Admitted \<Rightarrow> 'w Console \<Rightarrow> Response + QuickTrade" where
  "loadTrade sv env intentID ad st =
     (let hs = ad_Headers ad; rid = ad_RequestID ad in
      if intentID = [] then Inl (writeError hs 400 ''invalid_trade_id'' ''A trade ID is required.'' rid)
      else
        (case GetQuickTrade env intentID (be_File (sv_Backend sv) (cn_World st)) of
           Inl e \<Rightarrow> Inl (if Contains (errorText e) ''not found'' then writeError hs 404 ''trade_not_found'' ''The trade was not found.'' rid else internalError hs rid)
         | Inr t \<Rightarrow> Inr t))"

definition handleTradeDetail :: "'w Server \<Rightarrow> HandlerEnv \<Rightarrow> string \<Rightarrow> Admitted \<Rightarrow> 'w Console \<Rightarrow> Response" where
  "handleTradeDetail sv env raw ad st =
     (case loadTrade sv (he_Read env) (TrimSpace raw) ad st of
        Inl response \<Rightarrow> response
      | Inr t \<Rightarrow> writeJSON (ad_Headers ad) 200 (TradeBody (toPublicTrade t) None))"

text \<open>A recheck up to the coordinator's answer: the response, or that the recheck has started.\<close>

definition recheckBegin :: "'w Server \<Rightarrow> HandlerEnv \<Rightarrow> string \<Rightarrow> Admitted \<Rightarrow> 'w Console \<Rightarrow> Response option \<times> 'w Console" where
  "recheckBegin sv env intentID ad st =
     (let hs = ad_Headers ad; rid = ad_RequestID ad in
      case loadTrade sv (he_Read env) intentID ad st of
        Inl response \<Rightarrow> (Some response, st)
      | Inr _ \<Rightarrow>
          (if be_Rechecker (sv_Backend sv) = None
           then (Some (writeError hs 503 ''recheck_unavailable'' ''Order recheck is temporarily unavailable.'' rid), st)
           else
             (case beginRecheck intentID (he_Now env) (cn_Rechecks st) of
                ((RecheckActive, _), c) \<Rightarrow>
                  (Some (case GetQuickTrade (he_Read2 env) intentID (be_File (sv_Backend sv) (cn_World st)) of
                     Inl _ \<Rightarrow> internalError hs rid
                   | Inr t \<Rightarrow> writeJSON hs 202 (TradeBody (toPublicTrade t) (Some True))), st\<lparr>cn_Rechecks := c\<rparr>)
              | ((RecheckLimited, wait), c) \<Rightarrow>
                  (Some (writeError (gput ''Retry-After'' (retryAfter wait) hs) 429 ''recheck_rate_limited'' ''Wait before checking this trade again.'' rid),
                   st\<lparr>cn_Rechecks := c\<rparr>)
              | ((RecheckStarted, _), c) \<Rightarrow> (None, st\<lparr>cn_Rechecks := c\<rparr>))))"

text \<open>The recheck itself; the coordinator is told at the end whatever the outcome.\<close>

definition recheckRun :: "'w rechecker \<Rightarrow> HandlerEnv \<Rightarrow> string \<Rightarrow> Admitted \<Rightarrow> 'w Console \<Rightarrow> Response \<times> 'w Console" where
  "recheckRun recheck env intentID ad st =
     (let hs = ad_Headers ad; rid = ad_RequestID ad in
      case recheck intentID (he_Now env) (cn_World st) of
        (answer, w) \<Rightarrow>
          ((case answer of
              Inl (RecheckError status code message) \<Rightarrow> writeError hs status code message rid
            | Inl (RecheckVenueError code message) \<Rightarrow> writeError hs 503 (ToLower code) message rid
            | Inl (RecheckOther _) \<Rightarrow> internalError hs rid
            | Inr t \<Rightarrow> writeJSON hs 200 (TradeBody (toPublicTrade t) (Some False))),
           st\<lparr>cn_World := w\<rparr>))"

definition recheckEnd :: "HandlerEnv \<Rightarrow> string \<Rightarrow> 'w Console \<Rightarrow> 'w Console" where
  "recheckEnd env intentID st = st\<lparr>cn_Rechecks := finishRecheck intentID (he_Now env) (cn_Rechecks st)\<rparr>"

definition handleTradeRecheck :: "'w Server \<Rightarrow> HandlerEnv \<Rightarrow> string \<Rightarrow> Admitted \<Rightarrow> 'w Console \<Rightarrow> Response \<times> 'w Console" where
  "handleTradeRecheck sv env raw ad st =
     (let intentID = TrimSpace raw in
      case recheckBegin sv env intentID ad st of
        (Some response, st') \<Rightarrow> (response, st')
      | (None, st') \<Rightarrow>
          (case be_Rechecker (sv_Backend sv) of
             None \<Rightarrow> (internalError (ad_Headers ad) (ad_RequestID ad), st')
           | Some recheck \<Rightarrow> (case recheckRun recheck env intentID ad st' of (response, st'') \<Rightarrow> (response, recheckEnd env intentID st''))))"

definition tradeErrorResponse :: "Admitted \<Rightarrow> TradeError \<Rightarrow> Response" where
  "tradeErrorResponse ad e =
     (let hs = ad_Headers ad; rid = ad_RequestID ad in
      case e of
        QuoteError code message \<Rightarrow>
          writeError hs
            (if code \<in> {''INVALID_REQUEST'', ''INVALID_AMOUNT'', ''INVALID_CONFIRMATION'', ''UNSUPPORTED_ROUTE'', ''INVALID_QUOTE''} then 400
             else if code \<in> {''DEMO_AMOUNT_LIMIT'', ''SESSION_TRADE_LIMIT'', ''HOURLY_TRADE_LIMIT''} then 429
             else if code \<in> {''VENUE_UNAVAILABLE'', ''VENUE_WRITE_UNAVAILABLE'', ''MARKET_UNAVAILABLE'', ''CAPACITY_UNAVAILABLE'', ''VENUE_RECOVERING''} then 503
             else 409) (ToLower code) message rid
      | ConfirmError code message \<Rightarrow>
          writeError hs (if code = ''SESSION_TRADE_LIMIT'' \<or> code = ''HOURLY_TRADE_LIMIT'' then 429 else 409) (ToLower code) message rid
      | OtherTradeError _ \<Rightarrow> internalError hs rid)"

definition handleCreateQuote :: "'w Server \<Rightarrow> Request \<Rightarrow> string \<Rightarrow> Admitted \<Rightarrow> 'w Console \<Rightarrow> Response \<times> 'w Console" where
  "handleCreateQuote sv r raw ad st =
     (let cfg = sv_Config sv; hs = ad_Headers ad; rid = ad_RequestID ad; v = ToLower (TrimSpace raw) in
      case be_TradeApp (sv_Backend sv) of
        None \<Rightarrow> (writeError hs 503 ''quote_unavailable'' ''Quick Trade is temporarily unavailable.'' rid, st)
      | Some app \<Rightarrow>
          (if v \<noteq> VenueBybit \<and> v \<noteq> VenueDeribit \<or> v = VenueBybit \<and> \<not> wc_BybitEnabled cfg \<or> v = VenueDeribit \<and> \<not> wc_DeribitEnabled cfg
           then (venueNotFound ad, st)
           else
             (case (if jsonContent r then rq_QuoteBody r else None) of
                None \<Rightarrow> (writeError hs 400 ''invalid_request'' ''The quote request is invalid.'' rid, st)
              | Some (routeID, amount) \<Rightarrow>
                  (case ta_CreateQuote app
                       \<lparr>cr_Identity = wc_Username cfg, cr_Venue = v, cr_RouteID = routeID, cr_SpendBudget = amount,
                        cr_AccountAlias = (if v = VenueDeribit then dc_AccountAlias (cf_Deribit (sv_Base sv)) else cf_AccountAlias (sv_Base sv))\<rparr> (cn_World st) of
                     (Inl e, w) \<Rightarrow> (tradeErrorResponse ad e, st\<lparr>cn_World := w\<rparr>)
                   | (Inr quote, w) \<Rightarrow> (writeJSON hs 201 (QuoteBody (toPublicQuote quote)), st\<lparr>cn_World := w\<rparr>)))))"

definition handleConfirmTrade :: "'w Server \<Rightarrow> HandlerEnv \<Rightarrow> Request \<Rightarrow> Admitted \<Rightarrow> Session \<Rightarrow> 'w Console \<Rightarrow> Response \<times> 'w Console" where
  "handleConfirmTrade sv env r ad sess st =
     (let cfg = sv_Config sv; hs = ad_Headers ad; rid = ad_RequestID ad in
      if \<not> wc_TradingEnabled cfg then (writeError hs 403 ''trading_disabled'' ''Trading is disabled for this demo.'' rid, st)
      else
        (case be_TradeApp (sv_Backend sv) of
           None \<Rightarrow> (writeError hs 503 ''trading_unavailable'' ''Quick Trade is temporarily unavailable.'' rid, st)
         | Some app \<Rightarrow>
             (case (if jsonContent r then rq_ConfirmBody r else None) of
                None \<Rightarrow> (writeError hs 400 ''invalid_request'' ''The confirmation request is invalid.'' rid, st)
              | Some (quoteID, clientRequestID) \<Rightarrow>
                  (case ta_Confirm app
                       \<lparr>cq_Identity = wc_Username cfg, cq_SessionID = se_ID sess, cq_QuoteID = quoteID, cq_ClientRequestID = clientRequestID\<rparr> (cn_World st) of
                     (Inl e, w) \<Rightarrow> (tradeErrorResponse ad e, st\<lparr>cn_World := w\<rparr>)
                   | (Inr (t, created), w) \<Rightarrow>
                       (writeJSON hs (if created then 202 else 200) (TradeBody (toPublicTrade t) None),
                        st\<lparr>cn_World := w,
                          cn_Events := Publish (he_Readers env) (he_Later env)
                            \<lparr>ev_Sequence = 0, ev_Type = ''trade.updated'', ev_Venue = q_Venue (t_Quote t), ev_IntentID = t_ID t, ev_At = he_Later env\<rparr> (cn_Events st)\<rparr>)))))"

section \<open>The front end (frontend.go)\<close>

definition notFound :: "Admitted \<Rightarrow> Response" where
  "notFound ad = writeError (ad_Headers ad) 404 ''not_found'' ''The requested resource was not found.'' (ad_RequestID ad)"

definition serveAsset :: "'w Server \<Rightarrow> (string \<Rightarrow> AssetEntry option) \<Rightarrow> string \<Rightarrow> Admitted \<Rightarrow> Response" where
  "serveAsset sv assets requested ad =
     (let hs = ad_Headers ad in
      if requested = ''index.html'' then
        (case assets requested of
           Some (AssetFile contents) \<Rightarrow>
             \<lparr>rp_Status = 200, rp_Headers = gput ''Content-Type'' ''text/html; charset=utf-8'' (gput ''Cache-Control'' ''no-cache'' hs), rp_Cookie = None,
              rp_Body = ContentBody contents\<rparr>
         | _ \<Rightarrow> writeError (gput ''Cache-Control'' ''no-cache'' hs) 404 ''not_found'' ''The requested resource was not found.'' (ad_RequestID ad))
      else
        (let hs' = (if HasPrefix requested ''assets/'' then gput ''Cache-Control'' ''public, max-age=31536000, immutable'' hs else hs) in
         if HasSuffix (''/'' @ requested) ''/index.html''
         then \<lparr>rp_Status = 301, rp_Headers = gput ''Location'' ''./'' hs', rp_Cookie = None, rp_Body = NoBody\<rparr>
         else
           (case assets requested of
              Some (AssetFile contents) \<Rightarrow> \<lparr>rp_Status = 200, rp_Headers = hs', rp_Cookie = None, rp_Body = FileBody contents\<rparr>
            | Some AssetDir \<Rightarrow>
                \<lparr>rp_Status = 301, rp_Headers = gput ''Location'' (List.last (splitByte (CHR ''/'') requested) @ ''/'') hs', rp_Cookie = None, rp_Body = NoBody\<rparr>
            | None \<Rightarrow> \<lparr>rp_Status = 404, rp_Headers = hs', rp_Cookie = None, rp_Body = NoBody\<rparr>)))"

definition handleFrontend :: "'w Server \<Rightarrow> Request \<Rightarrow> Admitted \<Rightarrow> Response" where
  "handleFrontend sv r ad =
     (case sv_Assets sv of
        None \<Rightarrow> notFound ad
      | Some assets \<Rightarrow>
          (if HasPrefix (rq_Path r) ''/api/'' then notFound ad
           else
             (let requested0 = TrimPrefix (Clean (rq_Path r)) ''/''; requested = (if requested0 = ''.'' \<or> requested0 = [] then ''index.html'' else requested0) in
              if HasPrefix requested ''.'' \<or> Contains requested ''/.'' then notFound ad
              else if assets requested = None then (if Ext requested \<noteq> [] then notFound ad else serveAsset sv assets ''index.html'' ad)
              else serveAsset sv assets requested ad)))"

section \<open>Serving a request\<close>

text \<open>The WebSocket endpoint up to the upgrade.\<close>

definition handleUpgrade :: "'w Server \<Rightarrow> Request \<Rightarrow> Admitted \<Rightarrow> Response" where
  "handleUpgrade sv r ad =
     (if \<not> validWriteOrigin sv r then writeError (ad_Headers ad) 403 ''invalid_request_origin'' ''The request was rejected.'' (ad_RequestID ad)
      else \<lparr>rp_Status = 101, rp_Headers = ad_Headers ad, rp_Cookie = None, rp_Body = NoBody\<rparr>)"

definition noSession :: Session where
  "noSession = \<lparr>se_ID = [], se_CSRFToken = [], se_CreatedAt = 0, se_ExpiresAt = 0, se_conns = []\<rparr>"

definition serve :: "'w Server \<Rightarrow> HandlerEnv \<Rightarrow> Request \<Rightarrow> Admitted \<Rightarrow> 'w Console \<Rightarrow> Response \<times> 'w Console" where
  "serve sv env r ad st =
     (let sess = (case ad_Session ad of Some x \<Rightarrow> x | None \<Rightarrow> noSession) in
      case ad_Endpoint ad of
        EpLogin \<Rightarrow> handleLogin sv env r ad st
      | EpMe \<Rightarrow> (handleMe sv ad sess, st)
      | EpLogout \<Rightarrow> handleLogout ad sess st
      | EpVenues \<Rightarrow> (handleVenues sv ad st, st)
      | EpAccount v \<Rightarrow> (handleAccount sv v ad st, st)
      | EpRefresh v \<Rightarrow> handleAccountRefresh sv v ad st
      | EpStatus \<Rightarrow> (handleSystemStatus sv env ad st, st)
      | EpTrades \<Rightarrow> (handleRecentTrades sv env r ad st, st)
      | EpTrade i \<Rightarrow> (handleTradeDetail sv env i ad st, st)
      | EpRecheck i \<Rightarrow> handleTradeRecheck sv env i ad st
      | EpQuotes v \<Rightarrow> handleCreateQuote sv r v ad st
      | EpConfirm \<Rightarrow> handleConfirmTrade sv env r ad sess st
      | EpWebSocket \<Rightarrow> (handleUpgrade sv r ad, st)
      | EpFrontend \<Rightarrow> (handleFrontend sv r ad, st))"

definition handleRequest :: "'w Server \<Rightarrow> HandlerEnv \<Rightarrow> Request \<Rightarrow> 'w Console \<Rightarrow> Response \<times> 'w Console" where
  "handleRequest sv env r st =
     (case admit sv env r st of
        (Inl response, st') \<Rightarrow> (response, st')
      | (Inr ad, st') \<Rightarrow> serve sv env r ad st')"

end
