(* ===== verification/WebSocket.thy ===== *)
theory WebSocket
  imports WebConsole
begin

text \<open>
  A browser's WebSocket (\<open>internal/webconsole/websocket.go\<close>): opening it, and the loop that relays the broker's events, answers the browser's
  messages and ends the connection when the session expires. Every turn of the loop is a step on what
  \<open>select\<close> chose; every write may fail. \<open>sk_sent\<close> is what has been written.
\<close>

section \<open>Messages\<close>

datatype Payload =
    ReadyPayload string bool
  | SnapshotPayload "(venue \<times> AccountSnapshot) list" "PublicTrade list" "VenueStatus list"
  | ExpiringPayload string
  | EmptyPayload
  | ReasonPayload string
  | AccountPayload AccountSnapshot
  | TradePayload PublicTrade
  | HealthPayload "VenueStatus list"

record Envelope =
  en_SchemaVersion :: int
  en_InstanceID :: string
  en_Sequence :: "64 word"
  en_Type :: string
  en_Venue :: venue
  en_AccountAlias :: string
  en_StateRevision :: "64 word"
  en_SentAt :: string
  en_Payload :: Payload

record Socket =
  sk_session :: Session
  sk_conn :: nat
  sk_subscriber :: "64 word"
  sk_sequence :: "64 word"
  sk_expiring :: bool
  sk_sent :: "Envelope list"
  sk_closeCode :: "int option"
  sk_open :: bool

text \<open>One turn's clock, store reads and whether its write succeeds.\<close>

record SocketEnv =
  sn_Now :: time
  sn_Read :: Env
  sn_Writes :: bool

definition envelope :: "'w Server \<Rightarrow> SocketEnv \<Rightarrow> 64 word \<Rightarrow> string \<Rightarrow> venue \<Rightarrow> 64 word \<Rightarrow> Payload \<Rightarrow> Envelope" where
  "envelope sv env sq kind v revision payload =
     \<lparr>en_SchemaVersion = 1, en_InstanceID = sv_InstanceID sv, en_Sequence = sq, en_Type = kind, en_Venue = v,
      en_AccountAlias = accountAlias (sv_Base sv) v, en_StateRevision = revision, en_SentAt = FormatRFC3339Nano (sn_Now env), en_Payload = payload\<rparr>"

text \<open>Writing an envelope; the handler returns when the write fails.\<close>

definition writeEnvelope :: "SocketEnv \<Rightarrow> Envelope \<Rightarrow> Socket \<Rightarrow> Socket" where
  "writeEnvelope env e sk = (if sn_Writes env then sk\<lparr>sk_sent := sk_sent sk @ [e]\<rparr> else sk\<lparr>sk_open := False\<rparr>)"

definition closeSocket :: "int \<Rightarrow> Socket \<Rightarrow> Socket" where
  "closeSocket code sk = sk\<lparr>sk_open := False, sk_closeCode := Some code\<rparr>"

definition browserAccounts :: "'w Server \<Rightarrow> 'w \<Rightarrow> (venue \<times> AccountSnapshot) list" where
  "browserAccounts sv w =
     (case be_Accounts (sv_Backend sv) of
        None \<Rightarrow> []
      | Some a \<Rightarrow>
          concat (map (\<lambda>v. case ac_Snapshot a v w of None \<Rightarrow> [] | Some s \<Rightarrow> [(v, s)])
            (filter (\<lambda>v. snd (enabledVenue (sv_Config sv) v)) [VenueBybit, VenueDeribit])))"

definition browserSnapshot :: "'w Server \<Rightarrow> SocketEnv \<Rightarrow> 'w \<Rightarrow> Payload result" where
  "browserSnapshot sv env w =
     rbind (ListQuickTrades (sn_Read env) (be_File (sv_Backend sv) w)) (\<lambda>trades.
       Inr (SnapshotPayload (browserAccounts sv w) (map toPublicTrade (take 25 trades))
         (publicStatuses (sv_Config sv) (be_Accounts (sv_Backend sv)) w (sn_Now env))))"

definition writeBrowserSnapshot :: "'w Server \<Rightarrow> SocketEnv \<Rightarrow> 'w \<Rightarrow> 64 word \<Rightarrow> Socket \<Rightarrow> bool \<times> Socket" where
  "writeBrowserSnapshot sv env w revision sk =
     (case browserSnapshot sv env w of
        Inl _ \<Rightarrow> (False, sk\<lparr>sk_open := False\<rparr>)
      | Inr payload \<Rightarrow>
          (let sk' = sk\<lparr>sk_sequence := sk_sequence sk + 1\<rparr> in
           (sn_Writes env, writeEnvelope env (envelope sv env (sk_sequence sk') ''snapshot'' [] revision payload) sk')))"

definition accountPayload :: "'w Server \<Rightarrow> 'w \<Rightarrow> venue \<Rightarrow> Payload option" where
  "accountPayload sv w v =
     (case be_Accounts (sv_Backend sv) of
        None \<Rightarrow> None
      | Some a \<Rightarrow> map_option AccountPayload (ac_Snapshot a v w))"

definition browserEventPayload :: "'w Server \<Rightarrow> SocketEnv \<Rightarrow> 'w \<Rightarrow> Event \<Rightarrow> Payload option" where
  "browserEventPayload sv env w e =
     (let kind = ev_Type e in
      if kind = ''account.updated'' \<or> kind = ''valuation.updated'' then accountPayload sv w (ev_Venue e)
      else if kind = ''trade.updated'' then
        (case GetQuickTrade (sn_Read env) (ev_IntentID e) (be_File (sv_Backend sv) w) of Inl _ \<Rightarrow> None | Inr t \<Rightarrow> Some (TradePayload (toPublicTrade t)))
      else if kind = ''venue.health.updated'' then
        Some (HealthPayload (publicStatuses (sv_Config sv) (be_Accounts (sv_Backend sv)) w (sn_Now env)))
      else if kind = ''resync.required'' then Some (ReasonPayload ''subscriber overflow'')
      else Some EmptyPayload)"

section \<open>Opening\<close>

text \<open>
  From the upgraded connection on: its place among the session's connections, the subscription, the first two messages. \<open>env1\<close> and \<open>env2\<close> are those of
  the two writes, and \<open>w\<close> is the world the snapshot is made of.
\<close>

definition openSocket :: "'w Server \<Rightarrow> SocketEnv \<Rightarrow> SocketEnv \<Rightarrow> 'w \<Rightarrow> Session \<Rightarrow> nat \<Rightarrow> 'w Console \<Rightarrow> Socket \<times> 'w Console" where
  "openSocket sv env1 env2 w sess conn st =
     (let fresh = \<lparr>sk_session = sess, sk_conn = conn, sk_subscriber = 0, sk_sequence = 0, sk_expiring = True, sk_sent = [], sk_closeCode = None, sk_open = True\<rparr> in
      case addConn (se_ID sess) conn 5 (cn_Sessions st) of
        (False, ss) \<Rightarrow> (closeSocket 1008 fresh, st\<lparr>cn_Sessions := ss\<rparr>)
      | (True, ss) \<Rightarrow>
          (case SubscribeFrom 64 (cn_Events st) of
             ((i, cursor), b) \<Rightarrow>
               (let st' = st\<lparr>cn_Sessions := ss, cn_Events := b\<rparr>;
                    sk1 = writeEnvelope env1 ((envelope sv env1 0 ''session.ready'' [] cursor
                      (ReadyPayload (FormatRFC3339 (se_ExpiresAt sess)) (\<not> wc_TradingEnabled (sv_Config sv))))) (fresh\<lparr>sk_subscriber := i\<rparr>) in
                if \<not> sk_open sk1 then (sk1, st')
                else
                  (case browserSnapshot sv env2 w of
                     Inl _ \<Rightarrow> (closeSocket 1011 sk1, st')
                   | Inr _ \<Rightarrow>
                       (let r = writeBrowserSnapshot sv env2 w cursor sk1 in
                        (if fst r then snd r else closeSocket 1011 (snd r), st'))))))"

section \<open>The loop\<close>

datatype SocketEvent =
    SkContextDone
  | SkReadError bool
  | SkExpired
  | SkExpiring
  | SkPing
  | SkControl string
  | SkEvent Event

definition relayEvent :: "'w Server \<Rightarrow> SocketEnv \<Rightarrow> 'w \<Rightarrow> Event \<Rightarrow> Socket \<Rightarrow> Socket" where
  "relayEvent sv env w e sk =
     (let sk' = sk\<lparr>sk_sequence := sk_sequence sk + 1\<rparr> in
      case browserEventPayload sv env w e of
        Some payload \<Rightarrow> writeEnvelope env (envelope sv env (sk_sequence sk') (ev_Type e) (ev_Venue e) (ev_Sequence e) payload) sk'
      | None \<Rightarrow> writeEnvelope env (envelope sv env (sk_sequence sk') ''resync.required'' [] (ev_Sequence e) (ReasonPayload ''state unavailable'')) sk')"

definition socketStep :: "'w Server \<Rightarrow> SocketEnv \<Rightarrow> 'w \<Rightarrow> 64 word \<Rightarrow> SocketEvent \<Rightarrow> Socket \<Rightarrow> Socket" where
  "socketStep sv env w brokerSequence e sk =
     (if \<not> sk_open sk then sk
      else
        (
         case e of
           SkContextDone \<Rightarrow> sk\<lparr>sk_open := False\<rparr>
         | SkReadError unsupported \<Rightarrow> (if unsupported then closeSocket 1003 sk else sk\<lparr>sk_open := False\<rparr>)
         | SkExpired \<Rightarrow> closeSocket 1008 sk
         | SkExpiring \<Rightarrow>
             (if \<not> sk_expiring sk then sk
              else writeEnvelope env (envelope sv env (sk_sequence sk + 1) ''session.expiring'' [] brokerSequence
                (ExpiringPayload (FormatRFC3339 (se_ExpiresAt (sk_session sk))))) (sk\<lparr>sk_sequence := sk_sequence sk + 1, sk_expiring := False\<rparr>))
         | SkPing \<Rightarrow> (if sn_Writes env then sk else sk\<lparr>sk_open := False\<rparr>)
         | SkControl kind \<Rightarrow>
             (if kind = ''ping'' then
                writeEnvelope env (envelope sv env (sk_sequence sk + 1) ''pong'' [] brokerSequence EmptyPayload) (sk\<lparr>sk_sequence := sk_sequence sk + 1\<rparr>)
              else if kind \<in> {''subscribe'', ''unsubscribe'', ''resync''} then snd (writeBrowserSnapshot sv env w brokerSequence sk)
              else sk)
         | SkEvent event \<Rightarrow> relayEvent sv env w event sk))"

text \<open>When the handler returns, it leaves the broker and the session.\<close>

definition leaveSocket :: "Socket \<Rightarrow> 'w Console \<Rightarrow> 'w Console" where
  "leaveSocket sk st =
     st\<lparr>cn_Sessions := removeConn (se_ID (sk_session sk)) (sk_conn sk) (cn_Sessions st),
        cn_Events := unsubscribe (sk_subscriber sk) (cn_Events st), cn_Closed := cn_Closed st @ [sk_conn sk]\<rparr>"

section \<open>Reading\<close>

text \<open>What the reader gets: an error, a message that is no text, or a text with the type of its JSON object, if it is one.\<close>

datatype SocketRead = ReadFails | ReadBinary | ReadText "string option"

definition readBrowserSocket :: "nat \<Rightarrow> SocketRead \<Rightarrow> bool + string" where
  "readBrowserSocket queued m =
     (case m of
        ReadFails \<Rightarrow> Inl False
      | ReadBinary \<Rightarrow> Inl True
      | ReadText None \<Rightarrow> Inl True
      | ReadText (Some raw) \<Rightarrow>
          (let kind = ToLower (TrimSpace raw) in
           if kind \<notin> {''ping'', ''subscribe'', ''unsubscribe'', ''resync''} then Inl True
           else if queued \<ge> 4 then Inl True
           else Inr kind))"

definition sessionReadDeadline :: "time \<Rightarrow> time \<Rightarrow> time" where
  "sessionReadDeadline now expiresAt = (let deadline = Add now (60 * Second) in if Before expiresAt deadline then expiresAt else deadline)"

definition maxDuration :: "duration \<Rightarrow> duration \<Rightarrow> duration" where
  "maxDuration a b = (if a > b then a else b)"

definition expiryTimer :: "time \<Rightarrow> Session \<Rightarrow> duration" where
  "expiryTimer now sess = maxDuration 0 (Sub (se_ExpiresAt sess) now)"

definition expiringTimer :: "time \<Rightarrow> Session \<Rightarrow> duration" where
  "expiringTimer now sess = maxDuration 0 (Sub (Add (se_ExpiresAt sess) (- 5 * Minute)) now)"

definition browserInstanceID :: "(string \<Rightarrow> string \<Rightarrow> string) \<Rightarrow> string \<Rightarrow> time \<Rightarrow> string" where
  "browserInstanceID hmac secret startedAt = EncodeRawURL (take 18 (hmac secret (FormatRFC3339Nano startedAt)))"

end
