(* ===== verification/WebRuns.thy ===== *)
theory WebRuns
  imports WebSocket
begin

text \<open>
  Runs of the console: requests in flight, with the phases of sign-ins and rechecks, the sockets and the services' own work
  interleaved in any order. The log notes every sign-in that finished, with its response, and every call of a handler that
  reaches the services, the latest first.
\<close>

section \<open>Runs\<close>

datatype Stage = Arrived | LoginChecked | Rechecking | RecheckDone

type_synonym inflight = "Request \<times> Admitted \<times> time \<times> Stage"

datatype 'w happening =
    SignedIn Request Response
  | Acted Request Admitted time 'w 'w

definition recheckID :: "Admitted \<Rightarrow> string" where
  "recheckID ad = (case ad_Endpoint ad of EpRecheck raw \<Rightarrow> TrimSpace raw | _ \<Rightarrow> [])"

definition inPhases :: "Admitted \<Rightarrow> bool" where
  "inPhases ad \<longleftrightarrow> (case ad_Endpoint ad of EpLogin \<Rightarrow> True | EpRecheck _ \<Rightarrow> True | _ \<Rightarrow> False)"

inductive console_run :: "'w Server \<Rightarrow> 'w Console \<Rightarrow> inflight list \<Rightarrow> 'w happening list \<Rightarrow> bool" for sv where
  start: "console_run sv (newConsole sv w) [] []"
| rejected: "console_run sv st ps hs \<Longrightarrow> admit sv env r st = (Inl response, st') \<Longrightarrow> console_run sv st' ps hs"
| admitted: "console_run sv st ps hs \<Longrightarrow> admit sv env r st = (Inr ad, st') \<Longrightarrow> console_run sv st' ((r, ad, he_Now env, Arrived) # ps) hs"
| served: "console_run sv st (ps @ (r, ad, t, Arrived) # qs) hs \<Longrightarrow> \<not> inPhases ad \<Longrightarrow> serve sv env r ad st = (response, st') \<Longrightarrow>
    console_run sv st' (ps @ qs) (Acted r ad t (cn_World st) (cn_World st') # hs)"
| login_refused: "console_run sv st (ps @ (r, ad, t, Arrived) # qs) hs \<Longrightarrow> ad_Endpoint ad = EpLogin \<Longrightarrow>
    loginCheck sv env r ad st = (Some response, st') \<Longrightarrow> console_run sv st' (ps @ qs) hs"
| login_checked: "console_run sv st (ps @ (r, ad, t, Arrived) # qs) hs \<Longrightarrow> ad_Endpoint ad = EpLogin \<Longrightarrow>
    loginCheck sv env r ad st = (None, st') \<Longrightarrow> console_run sv st' (ps @ (r, ad, t, LoginChecked) # qs) hs"
| login_finished: "console_run sv st (ps @ (r, ad, t, LoginChecked) # qs) hs \<Longrightarrow> loginFinish sv env r ad st = (response, st') \<Longrightarrow>
    console_run sv st' (ps @ qs) (if rp_Status response = 200 then SignedIn r response # hs else hs)"
| recheck_answered: "console_run sv st (ps @ (r, ad, t, Arrived) # qs) hs \<Longrightarrow> ad_Endpoint ad = EpRecheck raw \<Longrightarrow>
    recheckBegin sv env (recheckID ad) ad st = (Some response, st') \<Longrightarrow> console_run sv st' (ps @ qs) hs"
| recheck_begun: "console_run sv st (ps @ (r, ad, t, Arrived) # qs) hs \<Longrightarrow> ad_Endpoint ad = EpRecheck raw \<Longrightarrow>
    recheckBegin sv env (recheckID ad) ad st = (None, st') \<Longrightarrow> console_run sv st' (ps @ (r, ad, t, Rechecking) # qs) hs"
| rechecked: "console_run sv st (ps @ (r, ad, t, Rechecking) # qs) hs \<Longrightarrow> be_Rechecker (sv_Backend sv) = Some recheck \<Longrightarrow>
    recheckRun recheck env (recheckID ad) ad st = (response, st') \<Longrightarrow>
    console_run sv st' (ps @ (r, ad, t, RecheckDone) # qs) (Acted r ad t (cn_World st) (cn_World st') # hs)"
| recheck_ended: "console_run sv st (ps @ (r, ad, t, stage) # qs) hs \<Longrightarrow> stage \<in> {Rechecking, RecheckDone} \<Longrightarrow>
    console_run sv (recheckEnd env (recheckID ad) st) (ps @ qs) hs"
| upgraded: "console_run sv st (ps @ (r, ad, t, Arrived) # qs) hs \<Longrightarrow> ad_Endpoint ad = EpWebSocket \<Longrightarrow> rp_Status (handleUpgrade sv r ad) = 101 \<Longrightarrow>
    ad_Session ad = Some sess \<Longrightarrow> openSocket sv env1 env2 w sess conn st = (sk, st') \<Longrightarrow> console_run sv st' (ps @ qs) hs"
| socket_left: "console_run sv st ps hs \<Longrightarrow> console_run sv (leaveSocket sk st) ps hs"
| session_closed: "console_run sv st ps hs \<Longrightarrow> console_run sv (st\<lparr>cn_Sessions := snd (deleteSession i (cn_Sessions st))\<rparr>) ps hs"
| elsewhere: "console_run sv st ps hs \<Longrightarrow> console_run sv (st\<lparr>cn_World := w, cn_Events := b\<rparr>) ps hs"

section \<open>What the steps keep\<close>

text \<open>A store with no session that the other had not, but for their connections.\<close>

definition noNewSession :: "sessionStore \<Rightarrow> sessionStore \<Rightarrow> bool" where
  "noNewSession s s' \<longleftrightarrow> st_secret s' = st_secret s \<and>
     (\<forall>i x. gget (st_sessions s') i = Some x \<longrightarrow>
        (\<exists>y. gget (st_sessions s) i = Some y \<and> se_CSRFToken y = se_CSRFToken x \<and> se_ExpiresAt y = se_ExpiresAt x))"

lemma noNewSession_refl [simp, intro]: "noNewSession s s"
  by (simp add: noNewSession_def)

lemma getSession_keeps: "getSession hmac cookie now s = (answer, s') \<Longrightarrow> noNewSession s s'"
  by (auto simp: getSession_def noNewSession_def gomap_simps split: option.splits if_splits)

lemma deleteSession_keeps: "deleteSession i s = (gone, s') \<Longrightarrow> noNewSession s s'"
  by (auto simp: deleteSession_def noNewSession_def gomap_simps split: option.splits if_splits)

lemma addConn_keeps: "addConn i conn n s = (ok, s') \<Longrightarrow> noNewSession s s'"
  by (auto simp: addConn_def noNewSession_def gomap_simps split: option.splits if_splits)

lemma removeConn_keeps: "noNewSession s (removeConn i conn s)"
  by (auto simp: removeConn_def noNewSession_def gomap_simps split: option.splits)

lemma requireSession_keeps:
  assumes "requireSession sv env r hds rid st = (answer, st')"
  shows "noNewSession (cn_Sessions st) (cn_Sessions st')" "cn_World st' = cn_World st" "cn_Rechecks st' = cn_Rechecks st"
  using assms by (auto simp: requireSession_def split: option.splits prod.splits dest: getSession_keeps)

lemma admit_keeps:
  assumes "admit sv env r st = (answer, st')"
  shows "noNewSession (cn_Sessions st) (cn_Sessions st')" "cn_World st' = cn_World st" "cn_Rechecks st' = cn_Rechecks st"
proof -
  let ?hs = "\<lambda>i. gput ''X-Request-ID'' i (securityHeaders r)"
  have "st' = st \<or> (\<exists>i x. requireSession sv env r (?hs i) i st = (x, st'))"
    using assms by (auto simp: admit_def Let_def split: sum.splits if_splits prod.splits)
  then show "noNewSession (cn_Sessions st) (cn_Sessions st')" "cn_World st' = cn_World st" "cn_Rechecks st' = cn_Rechecks st"
    using requireSession_keeps by auto
qed

lemma loginCheck_keeps:
  assumes "loginCheck sv env r ad st = (answer, st')"
  shows "cn_Sessions st' = cn_Sessions st" "cn_World st' = cn_World st" "cn_Rechecks st' = cn_Rechecks st"
  using assms by (auto simp: loginCheck_def Let_def split: if_splits prod.splits)

lemma recheckBegin_keeps:
  assumes "recheckBegin sv env i ad st = (answer, st')"
  shows "cn_Sessions st' = cn_Sessions st" "cn_World st' = cn_World st"
  using assms by (auto simp: recheckBegin_def Let_def split: sum.splits if_splits prod.splits RecheckStatus.splits)

lemma recheckRun_keeps:
  assumes "recheckRun f env i ad st = (answer, st')"
  shows "cn_Sessions st' = cn_Sessions st" "cn_Rechecks st' = cn_Rechecks st"
  using assms by (auto simp: recheckRun_def Let_def split: prod.splits)

lemma openSocket_keeps:
  assumes "openSocket sv env1 env2 w sess conn st = (sk, st')"
  shows "noNewSession (cn_Sessions st) (cn_Sessions st')" "cn_World st' = cn_World st" "cn_Rechecks st' = cn_Rechecks st"
  using assms by (auto simp: openSocket_def Let_def split: prod.splits bool.splits sum.splits if_splits dest: addConn_keeps)

text \<open>A handler without phases: what it may do, and to which endpoint.\<close>

definition reachesServices :: "Endpoint \<Rightarrow> bool" where
  "reachesServices ep \<longleftrightarrow> (case ep of EpRefresh _ \<Rightarrow> True | EpRecheck _ \<Rightarrow> True | EpQuotes _ \<Rightarrow> True | EpConfirm \<Rightarrow> True | _ \<Rightarrow> False)"

lemma handleLogout_keeps:
  assumes "handleLogout ad sess st = (response, st')"
  shows "noNewSession (cn_Sessions st) (cn_Sessions st')" "cn_World st' = cn_World st" "cn_Rechecks st' = cn_Rechecks st"
  using assms by (auto simp: handleLogout_def split: prod.splits dest: deleteSession_keeps)

lemma handleAccountRefresh_keeps:
  assumes "handleAccountRefresh sv raw ad st = (response, st')"
  shows "cn_Sessions st' = cn_Sessions st" "cn_Rechecks st' = cn_Rechecks st"
  using assms by (auto simp: handleAccountRefresh_def split: prod.splits if_splits option.splits)

lemma handleCreateQuote_keeps:
  assumes "handleCreateQuote sv r raw ad st = (response, st')"
  shows "cn_Sessions st' = cn_Sessions st" "cn_Rechecks st' = cn_Rechecks st"
  using assms by (auto simp: handleCreateQuote_def Let_def split: prod.splits if_splits option.splits sum.splits)

lemma handleConfirmTrade_keeps:
  assumes "handleConfirmTrade sv env r ad sess st = (response, st')"
  shows "cn_Sessions st' = cn_Sessions st" "cn_Rechecks st' = cn_Rechecks st" "cn_World st' \<noteq> cn_World st \<Longrightarrow> wc_TradingEnabled (sv_Config sv)"
  using assms by (auto simp: handleConfirmTrade_def Let_def split: prod.splits if_splits option.splits sum.splits)

lemma serve_keeps:
  assumes "serve sv env r ad st = (response, st')" "\<not> inPhases ad"
  shows "noNewSession (cn_Sessions st) (cn_Sessions st')" "cn_Rechecks st' = cn_Rechecks st"
    "cn_World st' \<noteq> cn_World st \<Longrightarrow> reachesServices (ad_Endpoint ad) \<and> (ad_Endpoint ad = EpConfirm \<longrightarrow> wc_TradingEnabled (sv_Config sv))"
  using assms
  by (cases "ad_Endpoint ad";
      force simp: serve_def Let_def inPhases_def reachesServices_def
        dest: handleLogout_keeps handleAccountRefresh_keeps handleCreateQuote_keeps handleConfirmTrade_keeps)+

section \<open>Who may act\<close>

text \<open>A finished sign-in entitles a request to act: the credentials were right, and the request carries its cookie, not expired, and its CSRF token.\<close>

fun entitles :: "'w Server \<Rightarrow> Request \<Rightarrow> time \<Rightarrow> 'w happening \<Rightarrow> bool" where
  "entitles sv r t (SignedIn r0 response) =
     (case (rq_LoginBody r0, rp_Cookie response, rp_Body response, rq_Cookie r sessionCookieName) of
        (Some (username, password), Some ck, SessionBody _ token _ _, Some cookie) \<Rightarrow>
          constantTimeTextEqual sv username (wc_Username (sv_Config sv)) \<and> constantTimeTextEqual sv password (wc_Password (sv_Config sv)) \<and>
          cookie = ck_Value ck \<and> t < ck_Expires ck \<and> constantTimeTextEqual sv (rq_Header r ''X-CSRF-Token'') token
      | _ \<Rightarrow> False)"
| "entitles sv r t (Acted _ _ _ _ _) = False"

definition fromTrustedProxy :: "'w Server \<Rightarrow> Request \<Rightarrow> bool" where
  "fromTrustedProxy sv r \<longleftrightarrow>
     (case remoteIP (rq_RemoteAddr r) of None \<Rightarrow> False | Some direct \<Rightarrow> ipInNetworks direct (wc_TrustedProxyCIDRs (sv_Config sv)))"

definition permitted :: "'w Server \<Rightarrow> 'w happening list \<Rightarrow> Request \<Rightarrow> Admitted \<Rightarrow> time \<Rightarrow> bool" where
  "permitted sv hs r ad t \<longleftrightarrow>
     fromTrustedProxy sv r \<and> validWriteOrigin sv r \<and> ad_Endpoint ad = routes (rq_Method r) (rq_EscapedPath r) \<and> list_ex (entitles sv r t) hs"

definition mayChange :: "'w Server \<Rightarrow> Admitted \<Rightarrow> bool" where
  "mayChange sv ad \<longleftrightarrow> reachesServices (ad_Endpoint ad) \<and> (ad_Endpoint ad = EpConfirm \<longrightarrow> wc_TradingEnabled (sv_Config sv))"

text \<open>A session of the store, and the sign-in that issued it.\<close>

fun issued :: "'w Server \<Rightarrow> string \<Rightarrow> Session \<Rightarrow> 'w happening \<Rightarrow> bool" where
  "issued sv i sess (SignedIn r0 response) =
     (case (rq_LoginBody r0, rp_Cookie response, rp_Body response) of
        (Some (username, password), Some ck, SessionBody _ token _ _) \<Rightarrow>
          constantTimeTextEqual sv username (wc_Username (sv_Config sv)) \<and> constantTimeTextEqual sv password (wc_Password (sv_Config sv)) \<and>
          ck_Value ck = i @ ''.'' @ EncodeRawURL (sv_HMAC sv (wc_SessionSecret (sv_Config sv)) i) \<and> ck_Expires ck = se_ExpiresAt sess \<and>
          token = se_CSRFToken sess
      | _ \<Rightarrow> False)"
| "issued sv i sess (Acted _ _ _ _ _) = False"

fun flightOk :: "'w Server \<Rightarrow> 'w happening list \<Rightarrow> inflight \<Rightarrow> bool" where
  "flightOk sv hs (r, ad, t, stage) \<longleftrightarrow>
     (needsCSRF (ad_Endpoint ad) \<longrightarrow> permitted sv hs r ad t) \<and> (stage \<in> {Rechecking, RecheckDone} \<longrightarrow> (\<exists>raw. ad_Endpoint ad = EpRecheck raw))"

fun actsPermitted :: "'w Server \<Rightarrow> 'w happening list \<Rightarrow> bool" where
  "actsPermitted sv [] = True"
| "actsPermitted sv (Acted r ad t w w' # hs) \<longleftrightarrow> (w \<noteq> w' \<longrightarrow> permitted sv hs r ad t \<and> mayChange sv ad) \<and> actsPermitted sv hs"
| "actsPermitted sv (SignedIn r response # hs) = actsPermitted sv hs"

definition runOk :: "'w Server \<Rightarrow> 'w Console \<Rightarrow> inflight list \<Rightarrow> 'w happening list \<Rightarrow> bool" where
  "runOk sv st ps hs \<longleftrightarrow> st_secret (cn_Sessions st) = wc_SessionSecret (sv_Config sv) \<and>
     (\<forall>i sess. gget (st_sessions (cn_Sessions st)) i = Some sess \<longrightarrow> list_ex (issued sv i sess) hs) \<and>
     list_all (flightOk sv hs) ps \<and> actsPermitted sv hs"

lemma permitted_Cons: "permitted sv hs r ad t \<Longrightarrow> permitted sv (h # hs) r ad t"
  by (simp add: permitted_def)

lemma flightOk_Cons: "flightOk sv hs p \<Longrightarrow> flightOk sv (h # hs) p"
  by (cases p) (auto intro: permitted_Cons)

lemma flights_Cons: "list_all (flightOk sv hs) ps \<Longrightarrow> list_all (flightOk sv (h # hs)) ps"
  using flightOk_Cons by (fastforce simp: list_all_iff)

lemma issued_cong:
  assumes "se_CSRFToken y = se_CSRFToken x" "se_ExpiresAt y = se_ExpiresAt x"
  shows "issued sv i y = issued sv i x"
proof
  fix h show "issued sv i y h = issued sv i x h" using assms by (cases h) (auto split: option.splits Body.splits)
qed

lemma runOk_step:
  assumes "runOk sv st ps hs" "noNewSession (cn_Sessions st) (cn_Sessions st')" "list_all (flightOk sv hs) ps'"
  shows "runOk sv st' ps' hs"
proof -
  have "list_ex (issued sv i x) hs" if "gget (st_sessions (cn_Sessions st')) i = Some x" for i x
  proof -
    obtain y where y: "gget (st_sessions (cn_Sessions st)) i = Some y" "se_CSRFToken y = se_CSRFToken x" "se_ExpiresAt y = se_ExpiresAt x"
      using assms(2) \<open>gget _ i = Some x\<close> unfolding noNewSession_def by blast
    then have "list_ex (issued sv i y) hs" using assms(1) unfolding runOk_def by blast
    then show ?thesis unfolding issued_cong [OF y(2,3)] .
  qed
  then show ?thesis using assms by (simp add: runOk_def noNewSession_def)
qed

lemma runOk_acted:
  assumes "runOk sv st ps hs" "w \<noteq> w' \<Longrightarrow> permitted sv hs r ad t \<and> mayChange sv ad"
  shows "runOk sv st ps (Acted r ad t w w' # hs)"
  using assms flights_Cons [of sv hs ps] by (simp add: runOk_def)

lemma CutByte_Some: "CutByte c s = Some (a, b) \<Longrightarrow> s = a @ c # b"
  by (auto simp: CutByte_def id_take_nth_drop dest!: indexByte_SomeD split: option.splits)

lemma getSession_found:
  assumes "getSession hmac cookie now s = ((Some sess, gone), s')"
  shows "\<exists>i. cookie = i @ ''.'' @ sign hmac s i \<and> gget (st_sessions s) i = Some sess \<and> now < se_ExpiresAt sess"
  using assms by (auto simp: getSession_def Before_def split: option.splits if_splits dest!: CutByte_Some)

lemma requireSession_found:
  assumes "requireSession sv env r hds rid st = (Inr sess, st')"
  obtains i where "rq_Cookie r sessionCookieName = Some (i @ ''.'' @ sign (sv_HMAC sv) (cn_Sessions st) i)"
    "gget (st_sessions (cn_Sessions st)) i = Some sess" "he_Now env < se_ExpiresAt sess"
  using assms by (auto simp: requireSession_def split: option.splits prod.splits dest!: getSession_found)

lemma proxyBoundary_trusted: "proxyBoundary sv r = Inr client \<Longrightarrow> fromTrustedProxy sv r"
  by (auto simp: proxyBoundary_def fromTrustedProxy_def split: option.splits if_splits)

lemma admit_admitted:
  assumes "admit sv env r st = (Inr ad, st')"
  shows "fromTrustedProxy sv r" "ad_Endpoint ad = routes (rq_Method r) (rq_EscapedPath r)"
    "needsCSRF (ad_Endpoint ad) \<Longrightarrow>
       \<exists>sess hds rid. requireSession sv env r hds rid st = (Inr sess, st') \<and> ad_Session ad = Some sess \<and> requireCSRF sv r sess"
proof -
  have needs: "needsCSRF ep \<Longrightarrow> needsSession ep" for ep by (cases ep) (simp_all add: needsCSRF_def needsSession_def)
  show "fromTrustedProxy sv r" "ad_Endpoint ad = routes (rq_Method r) (rq_EscapedPath r)"
    using assms by (auto simp: admit_def Let_def split: sum.splits if_splits prod.splits dest: proxyBoundary_trusted)
  show "\<exists>sess hds rid. requireSession sv env r hds rid st = (Inr sess, st') \<and> ad_Session ad = Some sess \<and> requireCSRF sv r sess"
    if "needsCSRF (ad_Endpoint ad)"
    using assms needs [OF that] that by (fastforce simp: admit_def Let_def split: sum.splits if_splits prod.splits)
qed

lemma entitles_issued:
  assumes "issued sv i sess h" "rq_Cookie r sessionCookieName = Some (i @ ''.'' @ EncodeRawURL (sv_HMAC sv (wc_SessionSecret (sv_Config sv)) i))"
    "t < se_ExpiresAt sess" "requireCSRF sv r sess"
  shows "entitles sv r t h"
  using assms by (cases h) (auto simp: requireCSRF_def split: option.splits Body.splits)

lemma admit_permitted:
  assumes "runOk sv st ps hs" "admit sv env r st = (Inr ad, st')" "needsCSRF (ad_Endpoint ad)"
  shows "permitted sv hs r ad (he_Now env)"
proof -
  obtain sess hds rid where s: "requireSession sv env r hds rid st = (Inr sess, st')" "requireCSRF sv r sess"
    using admit_admitted(3) [OF assms(2,3)] by blast
  obtain i where i: "rq_Cookie r sessionCookieName = Some (i @ ''.'' @ sign (sv_HMAC sv) (cn_Sessions st) i)"
    "gget (st_sessions (cn_Sessions st)) i = Some sess" "he_Now env < se_ExpiresAt sess"
    using requireSession_found [OF s(1)] by blast
  have secret: "st_secret (cn_Sessions st) = wc_SessionSecret (sv_Config sv)" and "list_ex (issued sv i sess) hs"
    using assms(1) i(2) unfolding runOk_def by blast+
  then obtain h where h: "h \<in> set hs" "issued sv i sess h" by (auto simp: list_ex_iff)
  have "entitles sv r (he_Now env) h"
    using entitles_issued [OF h(2) _ i(3) s(2)] i(1) secret by (simp add: sign_def)
  then have "list_ex (entitles sv r (he_Now env)) hs" using h(1) by (auto simp: list_ex_iff)
  then show ?thesis using admit_admitted(1,2) [OF assms(2)] s(2) by (simp add: permitted_def requireCSRF_def)
qed

lemma runOk_login:
  assumes "runOk sv st (ps @ (r, ad, t, LoginChecked) # qs) hs" "loginFinish sv env r ad st = (response, st')"
  shows "runOk sv st' (ps @ qs) (if rp_Status response = 200 then SignedIn r response # hs else hs)"
proof (cases "rp_Status response = 200")
  case False
  then have "noNewSession (cn_Sessions st) (cn_Sessions st')"
    using assms(2) by (auto simp: loginFinish_def signIn_def createSession_def Let_def writeJSON_def writeError_def internalError_def
        split: option.splits if_splits prod.splits sum.splits)
  moreover have "list_all (flightOk sv hs) (ps @ qs)" using assms(1) by (simp add: runOk_def)
  ultimately show ?thesis using runOk_step [OF assms(1)] False by simp
next
  case True
  then obtain u p i csrf where b: "rq_LoginBody r = Some (u, p)" "constantTimeTextEqual sv u (wc_Username (sv_Config sv))"
    "constantTimeTextEqual sv p (wc_Password (sv_Config sv))" and
    c: "createSession (sv_HMAC sv) (he_IDBytes env) (he_CSRFBytes env) (he_Now env) (wc_SessionTTL (sv_Config sv)) (cn_Sessions st) =
      (Inr (\<lparr>se_ID = i, se_CSRFToken = csrf, se_CreatedAt = he_Now env, se_ExpiresAt = Add (he_Now env) (wc_SessionTTL (sv_Config sv)), se_conns = []\<rparr>,
        i @ ''.'' @ sign (sv_HMAC sv) (cn_Sessions st) i), cn_Sessions st')"
    using assms(2) by (fastforce simp: loginFinish_def signIn_def createSession_def Let_def writeJSON_def writeError_def internalError_def
        split: option.splits if_splits prod.splits sum.splits)
  let ?sess = "\<lparr>se_ID = i, se_CSRFToken = csrf, se_CreatedAt = he_Now env, se_ExpiresAt = Add (he_Now env) (wc_SessionTTL (sv_Config sv)), se_conns = []\<rparr>"
  have st': "cn_Sessions st' = (cn_Sessions st)\<lparr>st_sessions := gput i ?sess (st_sessions (cn_Sessions st))\<rparr>"
    using c by (auto simp: createSession_def Let_def split: sum.splits)
  have secret: "st_secret (cn_Sessions st) = wc_SessionSecret (sv_Config sv)" using assms(1) by (simp add: runOk_def)
  have new: "issued sv i ?sess (SignedIn r response)"
    using assms(2) b c secret by (auto simp: loginFinish_def signIn_def Let_def writeJSON_def sessionCookie_def sign_def)
  have "list_ex (issued sv j x) (SignedIn r response # hs)" if "gget (st_sessions (cn_Sessions st')) j = Some x" for j x
    using that new assms(1) by (auto simp: st' gomap_simps runOk_def simp del: issued.simps split: if_splits)
  then show ?thesis using True assms(1) secret flights_Cons [of sv hs "ps @ qs" "SignedIn r response"] by (simp add: runOk_def st')
qed

lemma runOk_next:
  assumes "runOk sv st ps hs" "noNewSession (cn_Sessions st) (cn_Sessions st')" "\<And>p. p \<in> set ps' \<Longrightarrow> p \<in> set ps \<or> flightOk sv hs p"
  shows "runOk sv st' ps' hs"
proof (rule runOk_step [OF assms(1,2)])
  show "list_all (flightOk sv hs) ps'" using assms(1,3) unfolding runOk_def list_all_iff by blast
qed

lemma runOk_flight: "runOk sv st (ps @ p # qs) hs \<Longrightarrow> flightOk sv hs p"
  by (simp add: runOk_def)

lemma reachesServices_CSRF: "reachesServices ep \<Longrightarrow> needsCSRF ep"
  by (cases ep) (simp_all add: reachesServices_def needsCSRF_def)

lemma console_run_ok: "console_run sv st ps hs \<Longrightarrow> runOk sv st ps hs"
proof (induction rule: console_run.induct)
  case (start w)
  show ?case by (simp add: runOk_def newConsole_def newSessionStore_def)
next
  case (rejected st ps hs env r response st')
  show ?case by (rule runOk_next [OF rejected.IH admit_keeps(1) [OF rejected.hyps(2)]]) simp
next
  case (admitted st ps hs env r ad st')
  have "flightOk sv hs (r, ad, he_Now env, Arrived)" using admit_permitted [OF admitted.IH admitted.hyps(2)] by simp
  then show ?case by (intro runOk_next [OF admitted.IH admit_keeps(1) [OF admitted.hyps(2)]]) auto
next
  case (served st ps r ad t qs hs env response st')
  note k = serve_keeps [OF served.hyps(3,2)]
  have "runOk sv st' (ps @ qs) hs" by (rule runOk_next [OF served.IH k(1)]) auto
  moreover have "permitted sv hs r ad t \<and> mayChange sv ad" if "cn_World st \<noteq> cn_World st'"
    using k(3) that runOk_flight [OF served.IH] reachesServices_CSRF by (auto simp: mayChange_def)
  ultimately show ?case by (rule runOk_acted)
next
  case (login_refused st ps r ad t qs hs env response st')
  show ?case by (rule runOk_next [OF login_refused.IH]) (auto simp: loginCheck_keeps(1) [OF login_refused.hyps(3)])
next
  case (login_checked st ps r ad t qs hs env st')
  have "flightOk sv hs (r, ad, t, LoginChecked)" using runOk_flight [OF login_checked.IH] by simp
  then show ?case by (intro runOk_next [OF login_checked.IH]) (auto simp: loginCheck_keeps(1) [OF login_checked.hyps(3)])
next
  case (login_finished st ps r ad t qs hs env response st')
  show ?case by (rule runOk_login [OF login_finished.IH login_finished.hyps(2)])
next
  case (recheck_answered st ps r ad t qs hs raw env response st')
  show ?case by (rule runOk_next [OF recheck_answered.IH]) (auto simp: recheckBegin_keeps(1) [OF recheck_answered.hyps(3)])
next
  case (recheck_begun st ps r ad t qs hs raw env st')
  have "flightOk sv hs (r, ad, t, Rechecking)" using runOk_flight [OF recheck_begun.IH] recheck_begun.hyps(2) by simp
  then show ?case by (intro runOk_next [OF recheck_begun.IH]) (auto simp: recheckBegin_keeps(1) [OF recheck_begun.hyps(3)])
next
  case (rechecked st ps r ad t qs hs recheck env response st')
  have f: "flightOk sv hs (r, ad, t, Rechecking)" by (rule runOk_flight [OF rechecked.IH])
  then have "flightOk sv hs (r, ad, t, RecheckDone)" by simp
  then have "runOk sv st' (ps @ (r, ad, t, RecheckDone) # qs) hs"
    by (intro runOk_next [OF rechecked.IH]) (auto simp: recheckRun_keeps(1) [OF rechecked.hyps(3)])
  moreover have "permitted sv hs r ad t \<and> mayChange sv ad" using f by (auto simp: mayChange_def reachesServices_def needsCSRF_def)
  ultimately show ?case by (intro runOk_acted)
next
  case (recheck_ended st ps r ad t stage qs hs env)
  show ?case by (rule runOk_next [OF recheck_ended.IH]) (auto simp: recheckEnd_def)
next
  case (upgraded st ps r ad t qs hs sess env1 env2 w conn sk st')
  show ?case by (rule runOk_next [OF upgraded.IH openSocket_keeps(1) [OF upgraded.hyps(5)]]) auto
next
  case (socket_left st ps hs sk)
  show ?case by (rule runOk_next [OF socket_left.IH]) (simp_all add: leaveSocket_def removeConn_keeps)
next
  case (session_closed st ps hs i)
  show ?case by (rule runOk_next [OF session_closed.IH]) (simp_all add: deleteSession_keeps [OF prod.collapse [symmetric]])
next
  case (elsewhere st ps hs w b)
  show ?case by (rule runOk_next [OF elsewhere.IH]) simp_all
qed

lemma actsPermitted_at: "actsPermitted sv (xs @ Acted r ad t w w' # ys) \<Longrightarrow> w \<noteq> w' \<Longrightarrow> permitted sv ys r ad t \<and> mayChange sv ad"
proof (induction xs)
  case (Cons x xs)
  then show ?case by (cases x) auto
qed simp

section \<open>Rechecks in flight\<close>

definition rechecking :: "inflight list \<Rightarrow> string list" where
  "rechecking ps = map (\<lambda>(_, ad, _, _). recheckID ad) (filter (\<lambda>(_, _, _, stage). stage = Rechecking \<or> stage = RecheckDone) ps)"

definition rechecksOk :: "'w Console \<Rightarrow> inflight list \<Rightarrow> bool" where
  "rechecksOk st ps \<longleftrightarrow> distinct (rechecking ps) \<and> (\<forall>i. gget (rc_active (cn_Rechecks st)) i = Some True \<longleftrightarrow> i \<in> set (rechecking ps))"

lemma rechecking_simps [simp]:
  "rechecking [] = []" "rechecking (ps @ qs) = rechecking ps @ rechecking qs"
  "rechecking ((r, ad, t, stage) # ps) = (if stage = Rechecking \<or> stage = RecheckDone then recheckID ad # rechecking ps else rechecking ps)"
  by (simp_all add: rechecking_def)

lemma rechecksOk_next: "rechecksOk st ps \<Longrightarrow> cn_Rechecks st' = cn_Rechecks st \<Longrightarrow> rechecking ps' = rechecking ps \<Longrightarrow> rechecksOk st' ps'"
  by (simp add: rechecksOk_def)

lemma recheckBegin_some: "recheckBegin sv env i ad st = (Some response, st') \<Longrightarrow> cn_Rechecks st' = cn_Rechecks st"
  by (auto simp: recheckBegin_def beginRecheck_def Let_def split: sum.splits if_splits prod.splits RecheckStatus.splits)

lemma recheckBegin_none:
  "recheckBegin sv env i ad st = (None, st') \<Longrightarrow>
    gget (rc_active (cn_Rechecks st)) i \<noteq> Some True \<and> rc_active (cn_Rechecks st') = gput i True (rc_active (cn_Rechecks st))"
  by (auto simp: recheckBegin_def beginRecheck_def Let_def split: sum.splits if_splits prod.splits RecheckStatus.splits)

lemma console_run_rechecks: "console_run sv st ps hs \<Longrightarrow> rechecksOk st ps"
proof (induction rule: console_run.induct)
  case (start w)
  show ?case by (simp add: rechecksOk_def newConsole_def)
next
  case (rejected st ps hs env r response st')
  show ?case by (rule rechecksOk_next [OF rejected.IH admit_keeps(3) [OF rejected.hyps(2)]]) simp
next
  case (admitted st ps hs env r ad st')
  show ?case by (rule rechecksOk_next [OF admitted.IH admit_keeps(3) [OF admitted.hyps(2)]]) simp
next
  case (served st ps r ad t qs hs env response st')
  show ?case by (rule rechecksOk_next [OF served.IH serve_keeps(2) [OF served.hyps(3,2)]]) simp
next
  case (login_refused st ps r ad t qs hs env response st')
  show ?case by (rule rechecksOk_next [OF login_refused.IH loginCheck_keeps(3) [OF login_refused.hyps(3)]]) simp
next
  case (login_checked st ps r ad t qs hs env st')
  show ?case by (rule rechecksOk_next [OF login_checked.IH loginCheck_keeps(3) [OF login_checked.hyps(3)]]) simp
next
  case (login_finished st ps r ad t qs hs env response st')
  have "cn_Rechecks st' = cn_Rechecks st"
    using login_finished.hyps(2) by (auto simp: loginFinish_def signIn_def Let_def split: option.splits if_splits prod.splits sum.splits)
  then show ?case by (rule rechecksOk_next [OF login_finished.IH]) simp
next
  case (recheck_answered st ps r ad t qs hs raw env response st')
  show ?case by (rule rechecksOk_next [OF recheck_answered.IH recheckBegin_some [OF recheck_answered.hyps(3)]]) simp
next
  case (recheck_begun st ps r ad t qs hs raw env st')
  then show ?case using recheckBegin_none [OF recheck_begun.hyps(3)] by (auto simp: rechecksOk_def gomap_simps)
next
  case (rechecked st ps r ad t qs hs recheck env response st')
  show ?case by (rule rechecksOk_next [OF rechecked.IH recheckRun_keeps(2) [OF rechecked.hyps(3)]]) simp
next
  case (recheck_ended st ps r ad t stage qs hs env)
  then show ?case by (auto simp: rechecksOk_def recheckEnd_def finishRecheck_def gomap_simps)
next
  case (upgraded st ps r ad t qs hs sess env1 env2 w conn sk st')
  show ?case by (rule rechecksOk_next [OF upgraded.IH openSocket_keeps(3) [OF upgraded.hyps(5)]]) simp
next
  case (socket_left st ps hs sk)
  show ?case by (rule rechecksOk_next [OF socket_left.IH]) (simp_all add: leaveSocket_def)
next
  case (session_closed st ps hs i)
  show ?case by (rule rechecksOk_next [OF session_closed.IH]) simp_all
next
  case (elsewhere st ps hs w b)
  show ?case by (rule rechecksOk_next [OF elsewhere.IH]) simp_all
qed

end
