(* ===== verification/WebLimits.thy ===== *)
theory WebLimits
  imports WebConsole
begin

text \<open>
  How many passwords can be tried: in every history of sign-ins, one after the other, at most 210 wrong passwords are compared in any five minutes, and at
  most 15 from one address that has not signed in meanwhile. The history notes every attempt the limiter let through,
  the latest first, with its address, time, whether it was right, and whether the limiter recorded it.
\<close>

section \<open>Paced attempts\<close>

type_synonym attempts = "(string \<times> time \<times> bool \<times> bool) list"

definition recs :: "time \<Rightarrow> (time \<times> bool) list \<Rightarrow> time list" where
  "recs c xs = rev (map fst (filter (\<lambda>(t, r). r \<and> c \<le> t) xs))"

text \<open>
  Between two attempts lie thirty seconds, unless the earlier one was recorded and fewer than \<open>n\<close> were recorded in the five minutes up to it.
\<close>

definition gapOk :: "nat \<Rightarrow> (time \<times> bool) list \<Rightarrow> time \<Rightarrow> bool" where
  "gapOk n xs now \<longleftrightarrow>
     (case xs of
        [] \<Rightarrow> True
      | (t, r) # _ \<Rightarrow> t \<le> now \<and> (t + 30 * Second \<le> now \<or> r \<and> length (recs (t - 5 * Minute) xs) < n))"

fun paced :: "nat \<Rightarrow> (time \<times> bool) list \<Rightarrow> bool" where
  "paced n [] = True"
| "paced n ((t, r) # xs) \<longleftrightarrow> gapOk n xs t \<and> paced n xs"

lemma recs_Cons: "recs c ((t, r) # xs) = recs c xs @ (if r \<and> c \<le> t then [t] else [])"
  by (simp add: recs_def)

lemma length_recs_take: "length (recs c (take k xs)) \<le> length (recs c xs)"
proof -
  have "recs c xs = recs c (drop k xs) @ recs c (take k xs)"
    unfolding recs_def by (metis append_take_drop_id filter_append map_append rev_append)
  then show ?thesis by simp
qed

lemma paced_take: "paced n xs \<Longrightarrow> paced n (take k xs)"
proof (induction xs arbitrary: k)
  case (Cons x xs)
  obtain t r where x: "x = (t, r)" by (cases x)
  show ?case
  proof (cases k)
    case (Suc j)
    have "gapOk n xs t \<Longrightarrow> gapOk n (take j xs) t"
    proof (cases xs)
      case (Cons y ys)
      then show "gapOk n xs t \<Longrightarrow> gapOk n (take j xs) t"
        using length_recs_take [of "fst y - 5 * Minute" j xs] by (cases j; cases y) (auto simp: gapOk_def)
    qed (simp add: gapOk_def)
    then show ?thesis using Cons x Suc by simp
  qed simp
qed simp

lemma paced_drop: "paced n xs \<Longrightarrow> paced n (drop k xs)"
proof (induction k arbitrary: xs)
  case (Suc k)
  then show ?case by (cases xs) (auto simp: drop_Suc)
qed simp

lemma paced_sorted: "paced n xs \<Longrightarrow> sorted (rev (map fst xs))"
proof (induction xs)
  case (Cons x xs)
  obtain t r where x: "x = (t, r)" by (cases x)
  have s: "sorted (rev (map fst xs))" using Cons x by simp
  have "\<forall>u\<in>set (map fst xs). u \<le> t"
  proof (cases xs)
    case (Cons y ys)
    have "fst y \<le> t" using \<open>paced n (x # xs)\<close> x Cons by (cases y) (simp add: gapOk_def)
    moreover have "\<forall>u\<in>set (map fst ys). u \<le> fst y" using s Cons by (auto simp: sorted_append)
    ultimately show ?thesis using Cons by auto
  qed simp
  then show ?case using s x by (auto simp: sorted_append)
qed simp

text \<open>The attempts of one window: those followed closely by another are recorded, so they are fewer than \<open>n\<close>.\<close>

lemma paced_window:
  assumes "paced n xs" "xs \<noteq> []" "0 < n" "\<forall>(t, _)\<in>set xs. fst (hd xs) - 5 * Minute \<le> t"
  shows "\<exists>k < n. k \<le> length (filter snd (tl xs)) \<and> 30 * Second * (int (length xs) - 1 - int k) \<le> fst (hd xs) - fst (List.last xs)"
  using assms(1,2,4)
proof (induction xs)
  case (Cons x xs)
  obtain t r where x: "x = (t, r)" by (cases x)
  show ?case
  proof (cases xs)
    case Nil
    then show ?thesis using assms(3) by auto
  next
    case (Cons y ys)
    obtain u q where y: "y = (u, q)" by (cases y)
    have p: "paced n xs" "gapOk n xs t" using Cons.prems(1) x by simp_all
    have u: "u \<le> t" using p(2) Cons y by (simp add: gapOk_def)
    have near: "\<forall>(v, _)\<in>set xs. fst (hd xs) - 5 * Minute \<le> v" using Cons.prems(3) x u Cons y by auto
    obtain k where k: "k < n" "k \<le> length (filter snd (tl xs))"
      "30 * Second * (int (length xs) - 1 - int k) \<le> fst (hd xs) - fst (List.last xs)"
      using Cons.IH [OF p(1) _ near] Cons by auto
    have len: "length (recs (u - 5 * Minute) xs) = length (filter snd xs)"
    proof -
      have "filter (\<lambda>(v, b). b \<and> u - 5 * Minute \<le> v) xs = filter snd xs"
        using near Cons y by (intro filter_cong) auto
      then show ?thesis by (simp add: recs_def)
    qed
    show ?thesis
    proof (cases "u + 30 * Second \<le> t")
      case True
      have "30 * Second * (int (length (x # xs)) - 1 - int k) = 30 * Second * (int (length xs) - 1 - int k) + 30 * Second"
        by (simp add: algebra_simps)
      also have "\<dots> \<le> fst (hd (x # xs)) - fst (List.last (x # xs))" using k(3) True Cons x y by simp
      finally show ?thesis using k(1,2) Cons by (intro exI [of _ k]) (auto split: if_splits)
    next
      case False
      then have "q" "length (filter snd xs) < n" using p(2) len Cons y by (auto simp: gapOk_def)
      then have "Suc k < n" "Suc k \<le> length (filter snd (tl (x # xs)))" using k Cons y by auto
      moreover have "30 * Second * (int (length (x # xs)) - 1 - int (Suc k)) \<le> fst (hd (x # xs)) - fst (List.last (x # xs))"
        using k(3) u Cons x y by simp
      ultimately show ?thesis by blast
    qed
  qed
qed simp

lemma paced_bound:
  assumes "paced n xs" "i + m \<le> length xs" "0 < m" "0 < n" "fst (xs ! i) - fst (xs ! (i + m - 1)) \<le> 5 * Minute"
  shows "m \<le> n + 10"
proof -
  define ys where "ys = take m (drop i xs)"
  have p: "paced n ys" unfolding ys_def using assms(1) paced_take paced_drop by blast
  have l: "length ys = m" using assms(2) by (simp add: ys_def)
  then have ne: "ys \<noteq> []" using assms(3) by auto
  have h: "fst (hd ys) = fst (xs ! i)" "fst (List.last ys) = fst (xs ! (i + m - 1))"
    using ne l assms(2,3) by (auto simp: hd_conv_nth last_conv_nth ys_def)
  have "sorted (rev (map fst ys))" by (rule paced_sorted [OF p])
  then have "\<forall>t\<in>set (map fst ys). fst (List.last ys) \<le> t" using ne
    by (cases "rev ys") (auto simp: rev_map [symmetric] rev_swap last_rev)
  then have "\<forall>(t, _)\<in>set ys. fst (hd ys) - 5 * Minute \<le> t" using assms(5) h by fastforce
  then obtain k where "k < n" "30 * Second * (int (length ys) - 1 - int k) \<le> fst (hd ys) - fst (List.last ys)"
    using paced_window [OF p ne assms(4)] by blast
  moreover from this(2) [unfolded h l] have "30 * Second * (int m - 1 - int k) \<le> 5 * Minute" using assms(5) by (rule order_trans)
  ultimately show ?thesis by (simp add: Second_def Minute_def)
qed

lemma sorted_desc_window:
  assumes "sorted (rev (map fst xs))"
  shows "\<exists>i j. filter (\<lambda>(t, _). a \<le> t \<and> t \<le> b) xs = take j (drop i (xs :: (int \<times> bool) list))"
  using assms
proof (induction xs)
  case (Cons x xs)
  obtain t r where x: "x = (t, r)" by (cases x)
  have s: "sorted (rev (map fst xs))" "\<forall>(u, _)\<in>set xs. u \<le> t" using Cons.prems x by (auto simp: sorted_append)
  show ?case
  proof (cases "t \<le> b")
    case False
    then obtain i j where "filter (\<lambda>(t, _). a \<le> t \<and> t \<le> b) xs = take j (drop i xs)" using Cons.IH s(1) by blast
    then show ?thesis using False x by (intro exI [of _ "Suc i"] exI [of _ j]) simp
  next
    case True
    have "filter (\<lambda>(t, _). a \<le> t \<and> t \<le> b) (x # xs) = filter (\<lambda>(t, _). a \<le> t) (x # xs)"
      using True s(2) x by (intro filter_cong) auto
    also have "\<dots> = takeWhile (\<lambda>(t, _). a \<le> t) (x # xs)"
    proof -
      have "sorted_wrt (\<lambda>u v. fst v \<le> fst u) (x # xs)"
        using Cons.prems by (simp add: sorted_wrt_rev rev_map sorted_wrt_map flip: rev.simps)
      then show ?thesis
      proof (induction "x # xs" arbitrary: x xs)
        case (Cons y ys)
        then show ?case by (cases ys) (auto simp: filter_empty_conv)
      qed
    qed
    finally show ?thesis by (metis drop_0 takeWhile_eq_take)
  qed
qed simp

lemma paced_count:
  assumes "paced n xs" "0 < n"
  shows "length (filter (\<lambda>(t, _). a \<le> t \<and> t \<le> a + 5 * Minute) xs) \<le> n + 10"
proof -
  obtain i j where ij: "filter (\<lambda>(t, _). a \<le> t \<and> t \<le> a + 5 * Minute) xs = take j (drop i xs)"
    using sorted_desc_window [OF paced_sorted [OF assms(1)]] by blast
  let ?ys = "take j (drop i xs)"
  have p: "paced n ?ys" using assms(1) paced_take paced_drop by blast
  show ?thesis
  proof (cases "?ys = []")
    case False
    have r: "x \<in> set ?ys \<Longrightarrow> a \<le> fst x \<and> fst x \<le> a + 5 * Minute" for x unfolding ij [symmetric] by auto
    have "fst (?ys ! 0) - fst (?ys ! (0 + length ?ys - 1)) \<le> 5 * Minute"
    proof -
      have "0 < length ?ys" using False by blast
      then have "0 < length ?ys" "0 + length ?ys - 1 < length ?ys" by linarith+
      then have "?ys ! 0 \<in> set ?ys" "?ys ! (0 + length ?ys - 1) \<in> set ?ys" by - (rule nth_mem, assumption)+
      from r [OF this(1)] r [OF this(2)] show ?thesis by linarith
    qed
    then show ?thesis unfolding ij using paced_bound [OF p, of 0 "length ?ys"] False assms(2) by simp
  qed (auto simp: ij)
qed

section \<open>The limiter and the history\<close>

definition wrongs :: "attempts \<Rightarrow> (time \<times> bool) list" where
  "wrongs es = map (\<lambda>(_, t, _, r). (t, r)) (filter (\<lambda>(_, _, ok, _). \<not> ok) es)"

definition sinceSuccess :: "string \<Rightarrow> attempts \<Rightarrow> (time \<times> bool) list" where
  "sinceSuccess client es = map (\<lambda>(_, t, _, r). (t, r)) (takeWhile (\<lambda>(_, _, ok, _). \<not> ok) (filter (\<lambda>(i, _). i = client) es))"

definition failuresOf :: "loginLimiter \<Rightarrow> string \<Rightarrow> time list" where
  "failuresOf l client = (case gget (ll_clients l) client of None \<Rightarrow> [] | Some a \<Rightarrow> la_failures a)"

definition blockedBy :: "loginLimiter \<Rightarrow> string \<Rightarrow> time \<Rightarrow> bool" where
  "blockedBy l client t = (case gget (ll_clients l) client of None \<Rightarrow> False | Some a \<Rightarrow> t \<le> la_blockedUntil a)"

text \<open>The latest wrong attempt blocks for thirty seconds, or was recorded as one of fewer than \<open>n\<close>.\<close>

definition blocks :: "nat \<Rightarrow> (time \<times> bool) list \<Rightarrow> (time \<Rightarrow> bool) \<Rightarrow> bool" where
  "blocks n xs blocked \<longleftrightarrow>
     (case xs of [] \<Rightarrow> True | (t, r) # _ \<Rightarrow> blocked (t + 30 * Second) \<or> r \<and> length (recs (t - 5 * Minute) xs) < n)"

definition limiterOk :: "loginLimiter \<Rightarrow> attempts \<Rightarrow> time \<Rightarrow> time \<Rightarrow> bool" where
  "limiterOk l es now c \<longleftrightarrow> gwf (ll_clients l) \<and> c \<le> now - 5 * Minute \<and> (\<forall>(_, t, _, _)\<in>set es. t \<le> now) \<and>
     ll_globalFailures l = recs c (wrongs es) \<and> (\<forall>client. failuresOf l client = recs c (sinceSuccess client es)) \<and>
     paced 200 (wrongs es) \<and> (\<forall>client. paced 5 (sinceSuccess client es)) \<and>
     blocks 200 (wrongs es) (\<lambda>t. t \<le> ll_globalBlockedUntil l) \<and>
     (\<forall>client. blocks 5 (sinceSuccess client es) (\<lambda>t. t \<le> ll_globalBlockedUntil l \<or> blockedBy l client t \<or> t \<le> now))"

lemma blocks_mono: "blocks n xs P \<Longrightarrow> (\<And>t. P t \<Longrightarrow> Q t) \<Longrightarrow> blocks n xs Q"
  by (auto simp: blocks_def split: list.splits)

lemma blocks_gap: "blocks n xs P \<Longrightarrow> (\<And>t. P t \<Longrightarrow> t \<le> now) \<Longrightarrow> \<forall>(t, r)\<in>set xs. t \<le> now \<Longrightarrow> gapOk n xs now"
  by (auto simp: blocks_def gapOk_def split: list.splits)

lemma sorted_dropWhile_filter: "sorted ts \<Longrightarrow> dropWhile (\<lambda>t. t < k) ts = filter (\<lambda>t. k \<le> t) (ts :: int list)"
proof (induction ts)
  case (Cons t ts)
  show ?case
  proof (cases "t < k")
    case False
    then have "filter (\<lambda>t. k \<le> t) (t # ts) = t # ts" using Cons.prems by (intro filter_True) auto
    then show ?thesis using False by simp
  qed (use Cons in simp)
qed simp

lemma recs_recent:
  assumes "paced n xs" "c \<le> k"
  shows "recentTimes (recs c xs) k = recs k xs"
proof -
  have "sorted (rev (map fst xs))" by (rule paced_sorted [OF assms(1)])
  then have "sorted_wrt (\<lambda>a b. b \<le> a) (map fst xs)" by (simp add: sorted_wrt_rev)
  then have "sorted_wrt (\<lambda>a b. fst b \<le> fst a) xs" by (simp add: sorted_wrt_map)
  then have "sorted_wrt (\<lambda>a b. fst b \<le> fst a) (filter (\<lambda>(t, r). r \<and> c \<le> t) xs)" by (rule sorted_wrt_filter)
  then have "sorted (recs c xs)" by (simp add: recs_def sorted_wrt_rev sorted_wrt_map)
  then have "recentTimes (recs c xs) k = filter (\<lambda>t. k \<le> t) (recs c xs)"
    by (simp add: recentTimes_def Before_def sorted_dropWhile_filter)
  also have "\<dots> = recs k xs"
    using assms(2) by (auto simp: recs_def rev_filter [symmetric] filter_map o_def case_prod_unfold intro!: arg_cong [where f = rev] arg_cong [where f = "map fst"] filter_cong)
  finally show ?thesis .
qed

lemma gget_mapped: "gget (map (\<lambda>(k, a). (k, f a)) m) i = map_option f (gget m i)"
  by (induction m) auto

lemma gget_filtered: "gwf m \<Longrightarrow> gget (filter (\<lambda>(_, a). P a) m) i = (case gget m i of Some a \<Rightarrow> (if P a then Some a else None) | None \<Rightarrow> None)"
proof (induction m)
  case (Cons kv m)
  obtain k v where "kv = (k, v)" by (cases kv)
  then show ?case using Cons by (auto simp: gwf_def map_of_eq_None_iff split: option.splits)
qed simp

lemma gwf_mapped [simp]: "gwf (map (\<lambda>(k, a). (k, f a)) m) = gwf m"
  by (simp add: gwf_def o_def case_prod_unfold)

lemma gwf_filtered [intro]: "gwf m \<Longrightarrow> gwf (filter P m)"
  by (simp add: gwf_def distinct_map_filter)

lemma gget_pruned:
  assumes "gwf (ll_clients l)"
  shows "gget (ll_clients (pruneLimiter now l)) client =
    (case gget (ll_clients l) client of
       None \<Rightarrow> None
     | Some a \<Rightarrow>
         (let b = a\<lparr>la_failures := recentTimes (la_failures a) (now - 5 * Minute)\<rparr> in
          if la_failures b = [] \<and> \<not> now < la_blockedUntil b then None else Some b))"
proof -
  have "gwf (map (\<lambda>(c, a). (c, a\<lparr>la_failures := recentTimes (la_failures a) (now - 5 * Minute)\<rparr>)) (ll_clients l))"
    using assms by (simp add: gwf_def o_def case_prod_unfold)
  then show ?thesis
    by (simp add: pruneLimiter_def Let_def Add_def Before_def gget_filtered gget_mapped split: option.splits)
qed

lemma limiterOk_prune:
  assumes "limiterOk l es now0 c" "now0 \<le> now"
  shows "limiterOk (pruneLimiter now l) es now (now - 5 * Minute)"
proof -
  have w: "gwf (ll_clients l)" and c: "c \<le> now - 5 * Minute" using assms by (auto simp: limiterOk_def)
  let ?l = "pruneLimiter now l"
  have g: "ll_globalBlockedUntil ?l = ll_globalBlockedUntil l" "ll_globalFailures ?l = recs (now - 5 * Minute) (wrongs es)"
    using assms(1) recs_recent [OF _ c] by (auto simp: pruneLimiter_def Let_def Add_def limiterOk_def)
  have f: "failuresOf ?l client = recs (now - 5 * Minute) (sinceSuccess client es)" for client
  proof -
    have "failuresOf ?l client = recentTimes (failuresOf l client) (now - 5 * Minute)"
      by (auto simp: failuresOf_def gget_pruned [OF w] Let_def split: option.splits) (simp add: recentTimes_def)
    moreover have "failuresOf l client = recs c (sinceSuccess client es)" "paced 5 (sinceSuccess client es)"
      using assms(1) by (simp_all add: limiterOk_def)
    ultimately show ?thesis using recs_recent [OF _ c] by simp
  qed
  have b: "blockedBy l client t \<Longrightarrow> blockedBy ?l client t \<or> t \<le> now" for t client
    by (auto simp: blockedBy_def gget_pruned [OF w] Let_def split: option.splits)
  have "blocks 5 (sinceSuccess client es) (\<lambda>t. t \<le> ll_globalBlockedUntil l \<or> blockedBy ?l client t \<or> t \<le> now)" for client
    by (rule blocks_mono [of _ _ "\<lambda>t. t \<le> ll_globalBlockedUntil l \<or> blockedBy l client t \<or> t \<le> now0"])
      (use assms b in \<open>force simp: limiterOk_def\<close>)+
  moreover have "gwf (ll_clients ?l)"
    using w by (auto simp: pruneLimiter_def Let_def)
  moreover have "\<forall>(_, t, _, _)\<in>set es. t \<le> now" using assms by (fastforce simp: limiterOk_def)
  ultimately show ?thesis using assms g f by (simp add: limiterOk_def)
qed

section \<open>One sign-in\<close>

lemma wrongs_Cons: "wrongs ((client, t, ok, r) # es) = (if ok then wrongs es else (t, r) # wrongs es)"
  by (simp add: wrongs_def)

lemma sinceSuccess_Cons: "sinceSuccess client ((i, t, ok, r) # es) =
    (if i \<noteq> client then sinceSuccess client es else if ok then [] else (t, r) # sinceSuccess client es)"
  by (simp add: sinceSuccess_def)

lemma recs_False: "recs c ((t, False) # xs) = recs c xs"
  by (simp add: recs_Cons)

lemma times_le:
  assumes "\<forall>(_, t, _, _)\<in>set es. t \<le> now"
  shows "\<forall>(t, r)\<in>set (wrongs es). t \<le> now" "\<forall>(t, r)\<in>set (sinceSuccess client es). t \<le> now"
  using assms by (auto simp: wrongs_def sinceSuccess_def dest!: set_takeWhileD)

lemma limiterOk_success: "limiterOk l es now c \<Longrightarrow> limiterOk (loginSuccess client l) ((client, now, True, r) # es) now c"
  by (auto simp: limiterOk_def loginSuccess_def wrongs_Cons sinceSuccess_Cons failuresOf_def blockedBy_def gomap_simps recs_def blocks_def)


lemma limiterOk_failure:
  assumes "limiterOk l es now c" "gapOk 200 (wrongs es) now" "gapOk 5 (sinceSuccess client es) now"
  shows "\<exists>r. limiterOk (loginFailure client now l) ((client, now, False, r) # es) now (now - 5 * Minute)"
proof -
  let ?l = "pruneLimiter now l"
  have ok: "limiterOk ?l es now (now - 5 * Minute)" by (rule limiterOk_prune [OF assms(1)]) simp
  have t: "\<forall>(t, r)\<in>set (sinceSuccess i es). t \<le> now" for i
    by (rule times_le(2)) (use ok in \<open>simp add: limiterOk_def\<close>)
  have later: "blocks 5 (sinceSuccess i es) (\<lambda>t. t \<le> now + 30 * Second \<or> Q t)" for i Q
    using t [of i] by (auto simp: blocks_def split: list.splits)
  have ok': "gwf (ll_clients ?l)" "\<forall>(_, t, _, _)\<in>set es. t \<le> now" "ll_globalFailures ?l = recs (now - 5 * Minute) (wrongs es)"
    "failuresOf ?l i = recs (now - 5 * Minute) (sinceSuccess i es)" "paced 200 (wrongs es)" "paced 5 (sinceSuccess i es)"
    "blocks 5 (sinceSuccess i es) (\<lambda>t. t \<le> ll_globalBlockedUntil ?l \<or> blockedBy ?l i t \<or> t \<le> now)" for i
    using ok unfolding limiterOk_def by blast+
  show ?thesis
  proof (cases "int (length (ll_clients ?l)) \<ge> ll_maxClients ?l")
    case True
    then have e: "loginFailure client now l = ?l\<lparr>ll_globalBlockedUntil := now + 30 * Second\<rparr>" by (simp add: loginFailure_def Let_def Add_def)
    have "limiterOk (loginFailure client now l) ((client, now, False, False) # es) now (now - 5 * Minute)"
      unfolding e limiterOk_def
    proof (intro conjI allI)
      show "failuresOf (?l\<lparr>ll_globalBlockedUntil := now + 30 * Second\<rparr>) i = recs (now - 5 * Minute) (sinceSuccess i ((client, now, False, False) # es))" for i
        using ok'(4) [of i] by (simp add: failuresOf_def sinceSuccess_Cons recs_False)
      show "paced 5 (sinceSuccess i ((client, now, False, False) # es))" for i using ok'(6) assms(3) by (auto simp: sinceSuccess_Cons)
      show "blocks 5 (sinceSuccess i ((client, now, False, False) # es))
          (\<lambda>t. t \<le> ll_globalBlockedUntil (?l\<lparr>ll_globalBlockedUntil := now + 30 * Second\<rparr>) \<or> blockedBy (?l\<lparr>ll_globalBlockedUntil := now + 30 * Second\<rparr>) i t \<or> t \<le> now)" for i
        using later [of i] by (cases "i = client") (simp_all add: sinceSuccess_Cons, simp add: blocks_def)
    qed (use ok' assms(2) in \<open>simp_all add: wrongs_Cons recs_False\<close>, simp add: blocks_def)
    then show ?thesis ..
  next
    case False
    let ?fails = "failuresOf ?l client @ [now]"
    let ?globals = "ll_globalFailures ?l @ [now]"
    let ?a = "\<lparr>la_failures = ?fails, la_blockedUntil = (if length ?fails \<ge> 5 then now + 30 * Second else (case gget (ll_clients ?l) client of None \<Rightarrow> 0 | Some a \<Rightarrow> la_blockedUntil a))\<rparr>"
    have e: "loginFailure client now l = ?l\<lparr>ll_clients := gput client ?a (ll_clients ?l), ll_globalFailures := ?globals,
        ll_globalBlockedUntil := (if length ?globals \<ge> 200 then now + 30 * Second else ll_globalBlockedUntil ?l)\<rparr>"
      using False by (auto simp: loginFailure_def Let_def Add_def failuresOf_def blockedBy_def split: option.splits)
    let ?l' = "loginFailure client now l"
    have f: "failuresOf ?l' i = (if i = client then ?fails else failuresOf ?l i)"
      and b: "blockedBy ?l' i t = (if i = client then t \<le> la_blockedUntil ?a else blockedBy ?l i t)" for i t
      unfolding e by (auto simp: failuresOf_def blockedBy_def gomap_simps)
    have r: "recs (now - 5 * Minute) ((now, True) # xs) = recs (now - 5 * Minute) xs @ [now]" for xs
      by (simp add: recs_Cons Minute_def)
    have "limiterOk ?l' ((client, now, False, True) # es) now (now - 5 * Minute)"
      unfolding limiterOk_def
    proof (intro conjI allI)
      show "gwf (ll_clients ?l')" "ll_globalFailures ?l' = recs (now - 5 * Minute) (wrongs ((client, now, False, True) # es))"
        unfolding e using ok'(1,3) by (simp_all add: wrongs_Cons r)
      show "failuresOf ?l' i = recs (now - 5 * Minute) (sinceSuccess i ((client, now, False, True) # es))" for i
        using ok'(4) by (simp add: f sinceSuccess_Cons r)
      show "paced 200 (wrongs ((client, now, False, True) # es))" "paced 5 (sinceSuccess i ((client, now, False, True) # es))" for i
        using ok'(5,6) assms(2,3) by (auto simp: wrongs_Cons sinceSuccess_Cons)
      show "blocks 200 (wrongs ((client, now, False, True) # es)) (\<lambda>t. t \<le> ll_globalBlockedUntil ?l')"
        unfolding e using ok'(3) by (simp add: blocks_def wrongs_Cons r)
      show "blocks 5 (sinceSuccess i ((client, now, False, True) # es)) (\<lambda>t. t \<le> ll_globalBlockedUntil ?l' \<or> blockedBy ?l' i t \<or> t \<le> now)" for i
      proof (cases "i = client")
        case True
        then show ?thesis using ok'(4) [of client] by (simp add: blocks_def sinceSuccess_Cons r b)
      next
        case False
        have m: "u \<le> ll_globalBlockedUntil ?l'" if "u \<le> now + 30 * Second" "u \<le> ll_globalBlockedUntil ?l" for u
          unfolding e using that by simp
        show ?thesis
        proof (cases "sinceSuccess i es")
          case (Cons x xs)
          obtain u q where x: "x = (u, q)" by (cases x)
          have "u + 30 * Second \<le> now + 30 * Second" using t [of i] Cons x by simp
          then show ?thesis using ok'(7) [of i] m [of "u + 30 * Second"] False Cons x by (auto simp: blocks_def sinceSuccess_Cons b)
        qed (use False in \<open>simp add: blocks_def sinceSuccess_Cons\<close>)
      qed
    qed (use ok'(2) in simp_all)
    then show ?thesis ..
  qed
qed


lemma limiterOk_later: "limiterOk l es now c \<Longrightarrow> now \<le> now' \<Longrightarrow> limiterOk l es now' c"
  unfolding limiterOk_def by (fastforce intro: blocks_mono)

lemma allowLogin_gap:
  assumes "limiterOk l es now0 c" "now0 \<le> now" "allowLogin client now l = ((wait, allowed), l')"
  shows "limiterOk l' es now (now - 5 * Minute)" "allowed \<Longrightarrow> gapOk 200 (wrongs es) now \<and> gapOk 5 (sinceSuccess client es) now"
proof -
  have l': "l' = pruneLimiter now l"
    using assms(3) by (auto simp: allowLogin_def Let_def split: if_splits option.splits)
  show ok: "limiterOk l' es now (now - 5 * Minute)" unfolding l' by (rule limiterOk_prune [OF assms(1,2)])
  have ok': "blocks 200 (wrongs es) (\<lambda>t. t \<le> ll_globalBlockedUntil l')"
    "blocks 5 (sinceSuccess client es) (\<lambda>t. t \<le> ll_globalBlockedUntil l' \<or> blockedBy l' client t \<or> t \<le> now)"
    "\<forall>(_, t, _, _)\<in>set es. t \<le> now" using ok unfolding limiterOk_def by blast+
  show "gapOk 200 (wrongs es) now \<and> gapOk 5 (sinceSuccess client es) now" if "allowed"
  proof -
    have n: "\<not> now < ll_globalBlockedUntil l'" "blockedBy l' client t \<Longrightarrow> t \<le> now" for t
      using assms(3) that l' by (auto simp: allowLogin_def Let_def Before_def blockedBy_def split: if_splits option.splits)
    have "gapOk 200 (wrongs es) now" by (rule blocks_gap [OF ok'(1)]) (use n(1) times_le(1) [OF ok'(3)] in auto)
    moreover have "gapOk 5 (sinceSuccess client es) now" by (rule blocks_gap [OF ok'(2)]) (use n times_le(2) [OF ok'(3)] in auto)
    ultimately show ?thesis ..
  qed
qed

section \<open>Histories of sign-ins\<close>

text \<open>What a sign-in adds to the history: the attempt, if the limiter let it through and it had a name and a password to compare.\<close>

definition loginEvents :: "'w Server \<Rightarrow> HandlerEnv \<Rightarrow> Request \<Rightarrow> Admitted \<Rightarrow> 'w Console \<Rightarrow> (string \<times> time \<times> bool) list" where
  "loginEvents sv env r ad st =
     (case loginCheck sv env r ad st of
        (Some _, _) \<Rightarrow> []
      | (None, _) \<Rightarrow>
          (case rq_LoginBody r of
             None \<Rightarrow> []
           | Some (username, password) \<Rightarrow>
               [(ad_ClientIP ad, he_Now env, constantTimeTextEqual sv username (wc_Username (sv_Config sv)) \<and>
                  constantTimeTextEqual sv password (wc_Password (sv_Config sv)))]))"

inductive login_history :: "'w Server \<Rightarrow> 'w Console \<Rightarrow> (string \<times> time \<times> bool) list \<Rightarrow> time \<Rightarrow> bool" for sv where
  start: "cn_Limiter st = newLimiter \<Longrightarrow> login_history sv st [] t"
| sign_in: "login_history sv st gs t \<Longrightarrow> t \<le> he_Now env \<Longrightarrow> handleLogin sv env r ad st = (response, st') \<Longrightarrow>
    login_history sv st' (loginEvents sv env r ad st @ gs) (he_Now env)"
| other: "login_history sv st gs t \<Longrightarrow> cn_Limiter st' = cn_Limiter st \<Longrightarrow> login_history sv st' gs t"

text \<open>What the limiter knows of the history.\<close>

definition attempted :: "attempts \<Rightarrow> (string \<times> time \<times> bool) list" where
  "attempted es = map (\<lambda>(i, t, ok, _). (i, t, ok)) es"

lemma attempted_Cons: "attempted ((i, t, ok, r) # es) = (i, t, ok) # attempted es"
  by (simp add: attempted_def)

lemma limiterOk_new: "limiterOk newLimiter [] t (t - 5 * Minute)"
  by (simp add: limiterOk_def newLimiter_def wrongs_def sinceSuccess_def recs_def failuresOf_def blocks_def gwf_def)

lemma loginCheck_limiter:
  assumes "loginCheck sv env r ad st = (answer, st')" "limiterOk (cn_Limiter st) es now c" "now \<le> he_Now env"
  shows "\<exists>c'. limiterOk (cn_Limiter st') es (he_Now env) c'"
    "answer = None \<Longrightarrow> gapOk 200 (wrongs es) (he_Now env) \<and> gapOk 5 (sinceSuccess (ad_ClientIP ad) es) (he_Now env)"
proof -
  obtain wait allowed l where a: "allowLogin (ad_ClientIP ad) (he_Now env) (cn_Limiter st) = ((wait, allowed), l)"
    by (metis prod.exhaust)
  note g = allowLogin_gap [OF assms(2,3) a]
  have later: "limiterOk (cn_Limiter st) es (he_Now env) c" by (rule limiterOk_later [OF assms(2,3)])
  show "\<exists>c'. limiterOk (cn_Limiter st') es (he_Now env) c'"
    using assms(1) g(1) later by (auto simp: loginCheck_def Let_def a split: if_splits)
  show "gapOk 200 (wrongs es) (he_Now env) \<and> gapOk 5 (sinceSuccess (ad_ClientIP ad) es) (he_Now env)" if "answer = None"
    using assms(1) g(2) that by (auto simp: loginCheck_def Let_def a split: if_splits)
qed

lemma signIn_limiter: "signIn sv env ad st = (response, st') \<Longrightarrow> cn_Limiter st' = loginSuccess (ad_ClientIP ad) (cn_Limiter st)"
  by (auto simp: signIn_def Let_def split: prod.splits sum.splits)

lemma handleLogin_limiter:
  assumes "handleLogin sv env r ad st = (response, st')" "limiterOk (cn_Limiter st) es now c" "now \<le> he_Now env"
  shows "\<exists>es' c'. limiterOk (cn_Limiter st') es' (he_Now env) c' \<and> attempted es' = loginEvents sv env r ad st @ attempted es"
proof -
  obtain answer st1 where check: "loginCheck sv env r ad st = (answer, st1)" by (metis prod.exhaust)
  obtain c1 where ok: "limiterOk (cn_Limiter st1) es (he_Now env) c1" using loginCheck_limiter(1) [OF check assms(2,3)] by blast
  show ?thesis
  proof (cases answer)
    case (Some x)
    then show ?thesis using assms(1) check ok by (auto simp: handleLogin_def loginEvents_def)
  next
    case None
    note gap = loginCheck_limiter(2) [OF check assms(2,3) None]
    have fin: "loginFinish sv env r ad st1 = (response, st')" using assms(1) check None by (simp add: handleLogin_def)
    show ?thesis
    proof (cases "rq_LoginBody r")
      case None
      then show ?thesis using fin check \<open>answer = None\<close> ok by (auto simp: loginFinish_def Let_def loginEvents_def)
    next
      case (Some body)
      obtain u p where body: "body = (u, p)" by (cases body)
      let ?right = "constantTimeTextEqual sv u (wc_Username (sv_Config sv)) \<and> constantTimeTextEqual sv p (wc_Password (sv_Config sv))"
      have ev: "loginEvents sv env r ad st = [(ad_ClientIP ad, he_Now env, ?right)]"
        using check \<open>answer = None\<close> Some body by (simp add: loginEvents_def)
      show ?thesis
      proof (cases ?right)
        case True
        then have "signIn sv env ad st1 = (response, st')" using fin Some body by (simp add: loginFinish_def Let_def)
        then have "limiterOk (cn_Limiter st') ((ad_ClientIP ad, he_Now env, True, True) # es) (he_Now env) c1"
          using limiterOk_success [OF ok] by (simp add: signIn_limiter)
        moreover have "attempted ((ad_ClientIP ad, he_Now env, True, True) # es) = loginEvents sv env r ad st @ attempted es"
          unfolding ev using True by (simp add: attempted_Cons)
        ultimately show ?thesis by blast
      next
        case False
        then have "cn_Limiter st' = loginFailure (ad_ClientIP ad) (he_Now env) (cn_Limiter st1)"
          using fin Some body by (auto simp: loginFinish_def Let_def)
        then obtain q where "limiterOk (cn_Limiter st') ((ad_ClientIP ad, he_Now env, False, q) # es) (he_Now env) (he_Now env - 5 * Minute)"
          using limiterOk_failure [OF ok] gap by metis
        moreover have "attempted ((ad_ClientIP ad, he_Now env, False, q) # es) = loginEvents sv env r ad st @ attempted es"
          unfolding ev using False by (simp add: attempted_Cons)
        ultimately show ?thesis by blast
      qed
    qed
  qed
qed

lemma login_history_limiter: "login_history sv st gs t \<Longrightarrow> \<exists>es c. limiterOk (cn_Limiter st) es t c \<and> attempted es = gs"
proof (induction rule: login_history.induct)
  case (start st t)
  then show ?case using limiterOk_new [of t] by (intro exI [of _ "[]"] exI) (auto simp: attempted_def)
next
  case (sign_in st gs t env r ad response st')
  then show ?case using handleLogin_limiter by blast
next
  case (other st gs t st')
  then show ?case by simp
qed

definition wrongWithin :: "time \<Rightarrow> (string \<times> time \<times> bool) list \<Rightarrow> nat" where
  "wrongWithin a gs = length (filter (\<lambda>(_, t, ok). \<not> ok \<and> a \<le> t \<and> t \<le> a + 5 * Minute) gs)"

definition sinceSignIn :: "string \<Rightarrow> (string \<times> time \<times> bool) list \<Rightarrow> (string \<times> time \<times> bool) list" where
  "sinceSignIn client gs = takeWhile (\<lambda>(_, _, ok). \<not> ok) (filter (\<lambda>(i, _). i = client) gs)"

lemma wrongWithin_paced: "wrongWithin a (attempted es) = length (filter (\<lambda>(t, _). a \<le> t \<and> t \<le> a + 5 * Minute) (wrongs es))"
  by (induction es) (auto simp: wrongWithin_def attempted_def wrongs_def)

lemma sinceSignIn_attempted: "wrongs (takeWhile (\<lambda>(_, _, ok, _). \<not> ok) (filter (\<lambda>(i, _). i = client) es)) = sinceSuccess client es"
  by (auto simp: wrongs_def sinceSuccess_def dest!: set_takeWhileD intro!: arg_cong [where f = "map _"] filter_True)

lemma sinceSignIn_of: "sinceSignIn client (attempted es) = attempted (takeWhile (\<lambda>(_, _, ok, _). \<not> ok) (filter (\<lambda>(i, _). i = client) es))"
  by (induction es) (auto simp: sinceSignIn_def attempted_def)

lemma limiterOk_bounds:
  assumes "limiterOk l es t c"
  shows "wrongWithin a (attempted es) \<le> 210 \<and> wrongWithin a (sinceSignIn client (attempted es)) \<le> 15"
proof -
  have "paced 200 (wrongs es)" "paced 5 (sinceSuccess client es)" using assms by (simp_all add: limiterOk_def)
  from paced_count [OF this(1), of a] paced_count [OF this(2), of a] show ?thesis
    by (simp add: wrongWithin_paced sinceSignIn_of sinceSignIn_attempted)
qed

end
