(* ===== verification/WebDemo.thy ===== *)
theory WebDemo
  imports WebRuns WebLimits IntentProps
begin

text \<open>A small console that the witnesses of the console's properties run on: one proxy, one account, and services that count the calls that reach them.\<close>

definition demoProxy :: IPNet where
  "demoProxy = \<lparr>nt_IP = [10, 0, 0, 2], nt_Mask = [255, 255, 255, 255]\<rparr>"

definition demoWeb :: WebConfig where
  "demoWeb =
     \<lparr>wc_Host = ''10.0.0.1'', wc_Port = 8080, wc_PublicOrigin = ''https://desk.example'', wc_TrustedProxyCIDRs = [demoProxy],
      wc_Username = ''desk'', wc_Password = ''correct horse'', wc_SessionSecret = ''0123456789abcdef0123456789abcdef'', wc_SessionTTL = 8 * Hour,
      wc_DefaultVenue = VenueBybit, wc_BybitEnabled = True, wc_DeribitEnabled = False, wc_TradingEnabled = True,
      wc_PushInterval = 250 * Millisecond, wc_AccountReconcileInterval = 30 * Second, wc_QuoteTTL = 5 * Second, wc_TradeBookMaxAge = 3 * Second,
      wc_ValuationPriceMaxAge = 15 * Second, wc_QuickTradeSlippageBPS = 50, wc_QuickTradeMaxBTC = ''0.01'', wc_QuickTradeMaxETH = ''0.1'',
      wc_QuickTradeMaxUSDT = ''100'', wc_QuickTradeMaxUSDC = ''100'', wc_MaxTradesPerSession = 10, wc_MaxTradesPerHour = 30,
      wc_MaxConcurrentTrades = 1, wc_MaxBybitBTCQty = ''0.01'', wc_MaxBybitETHQty = ''0.1'', wc_MaxBybitUSDTAmount = ''100'',
      wc_MaxDeribitBTCAmount = ''0.01'', wc_MaxDeribitUSDCAmount = ''100''\<rparr>"

definition demoBackend :: "nat Backend" where
  "demoBackend =
     \<lparr>be_Accounts = None,
      be_TradeApp = Some \<lparr>ta_CreateQuote = (\<lambda>_ n. (Inl (QuoteError ''MARKET_UNAVAILABLE'' ''no book''), n + 1)),
        ta_Confirm = (\<lambda>_ n. (Inl (ConfirmError ''QUOTE_EXPIRED'' ''expired''), n + 1))\<rparr>,
      be_Rechecker = Some (\<lambda>_ _ n. (Inl (RecheckVenueError ''VENUE_UNAVAILABLE'' ''no answer''), n + 1)), be_File = (\<lambda>_. FileHolds sampleSnapshot)\<rparr>"

definition demoServer :: "nat Server" where
  "demoServer =
     \<lparr>sv_Config = demoWeb, sv_Base = LoadConfig (\<lambda>_. None), sv_HMAC = (\<lambda>k m. take 4 k @ m), sv_SHA256 = (\<lambda>s. s), sv_Backend = demoBackend,
      sv_Assets = None, sv_BuildTimestamp = [], sv_BuildCommit = [], sv_GoVersion = ''go1.24'', sv_StartedAt = 0, sv_InstanceID = ''demo'',
      sv_RedirectStatus = 307\<rparr>"

definition demoRequest :: "string \<Rightarrow> string \<Rightarrow> (string \<times> string) option \<Rightarrow> string option \<Rightarrow> string \<Rightarrow> Request" where
  "demoRequest method path login cookie csrf =
     \<lparr>rq_Method = method, rq_RemoteAddr = ''10.0.0.2:40000'', rq_Host = ''desk.example'', rq_Path = path, rq_EscapedPath = path, rq_Query = (\<lambda>_. []),
      rq_Header = (\<lambda>h. case map_of [(''Origin'', ''https://desk.example''), (''X-Forwarded-Proto'', ''https''), (''X-Forwarded-For'', ''203.0.113.7''),
        (''X-Real-IP'', ''203.0.113.7''), (''Content-Type'', ''application/json''), (''X-CSRF-Token'', csrf)] h of Some v \<Rightarrow> v | None \<Rightarrow> []),
      rq_Cookie = (\<lambda>c. if c = sessionCookieName then cookie else None), rq_LoginBody = login, rq_QuoteBody = Some (''BTC_TO_USDT'', ''0.001''),
      rq_ConfirmBody = Some (''q1'', ''c1'')\<rparr>"

definition demoEnv :: "time \<Rightarrow> string \<Rightarrow> string \<Rightarrow> HandlerEnv" where
  "demoEnv now i csrf =
     \<lparr>he_Now = now, he_Later = now, he_RequestBytes = Inr ''rid'', he_IDBytes = Inr i, he_CSRFBytes = Inr csrf, he_Read = quietEnv now, he_Read2 = quietEnv now,
      he_Readers = (\<lambda>_. [])\<rparr>"

text \<open>Sign-ins with one password, one at each of the given times, and the statuses of their answers.\<close>

fun signIns :: "'w Server \<Rightarrow> string \<Rightarrow> time list \<Rightarrow> 'w Console \<Rightarrow> (string \<times> time \<times> bool) list \<Rightarrow> int list \<times> (string \<times> time \<times> bool) list \<times> 'w Console" where
  "signIns sv password [] st gs = ([], gs, st)"
| "signIns sv password (t # ts) st gs =
     (let r = demoRequest ''POST'' ''/api/auth/login'' (Some (''desk'', password)) None []; env = demoEnv t ''s1'' ''c1'';
          ad = \<lparr>ad_Endpoint = EpLogin, ad_Session = None, ad_ClientIP = ''203.0.113.7'', ad_RequestID = ''rid'', ad_Headers = []\<rparr> in
      case handleLogin sv env r ad st of
        (response, st') \<Rightarrow>
          (case signIns sv password ts st' (loginEvents sv env r ad st @ gs) of (statuses, gs', st'') \<Rightarrow> (rp_Status response # statuses, gs', st'')))"

section \<open>A run: a sign-in, then a recheck\<close>

definition demoTime :: time where "demoTime = 1700000000 * Second"

abbreviation demoNow :: HandlerEnv where "demoNow \<equiv> demoEnv demoTime ''sid'' ''csrf''"

definition demoLogin :: Request where
  "demoLogin = demoRequest ''POST'' ''/api/auth/login'' (Some (''desk'', ''correct horse'')) None []"

definition demoRecheck :: Request where
  "demoRecheck = demoRequest ''POST'' ''/api/trades/i1/recheck'' None (Some ''c2lk.MDEyM2MybGs'') ''Y3NyZg''"

definition demoAdmitted :: "Request \<Rightarrow> Session option \<Rightarrow> Endpoint \<Rightarrow> Admitted" where
  "demoAdmitted r sess ep =
     \<lparr>ad_Endpoint = ep, ad_Session = sess, ad_ClientIP = ''203.0.113.7'', ad_RequestID = ''cmlk'',
      ad_Headers = gput ''X-Request-ID'' ''cmlk'' (securityHeaders r)\<rparr>"

definition demoSession :: Session where
  "demoSession =
     \<lparr>se_ID = ''c2lk'', se_CSRFToken = ''Y3NyZg'', se_CreatedAt = demoTime, se_ExpiresAt = Add demoTime (8 * Hour), se_conns = []\<rparr>"

abbreviation demoLoginAdmitted :: Admitted where "demoLoginAdmitted \<equiv> demoAdmitted demoLogin None EpLogin"

abbreviation demoRecheckAdmitted :: Admitted where
  "demoRecheckAdmitted \<equiv> demoAdmitted demoRecheck (Some demoSession) (EpRecheck ''i1'')"

definition demoSessions :: sessionStore where
  "demoSessions = (newSessionStore (wc_SessionSecret demoWeb))\<lparr>st_sessions := [(''c2lk'', demoSession)]\<rparr>"

definition demoSignedIn :: "nat Console" where
  "demoSignedIn = (newConsole demoServer 0)\<lparr>cn_Sessions := demoSessions\<rparr>"

definition demoResponse :: Response where
  "demoResponse = fst (loginFinish demoServer demoNow demoLogin demoLoginAdmitted (newConsole demoServer 0))"

definition demoRechecking :: "nat Console" where
  "demoRechecking = demoSignedIn\<lparr>cn_Rechecks := \<lparr>rc_active = [(''i1'', True)], rc_last = []\<rparr>\<rparr>"

lemma demo_token: "randomToken (he_RequestBytes demoNow) = Inr ''cmlk''" "randomToken (he_IDBytes demoNow) = Inr ''c2lk''"
  "randomToken (he_CSRFBytes demoNow) = Inr ''Y3NyZg''"
  by code_simp+

lemma demo_boundary: "proxyBoundary demoServer demoLogin = Inr ''203.0.113.7''" "proxyBoundary demoServer demoRecheck = Inr ''203.0.113.7''"
  by code_simp+

lemma demo_routes:
  "rq_Method demoLogin = ''POST''" "rq_EscapedPath demoLogin = ''/api/auth/login''"
  "rq_Method demoRecheck = ''POST''" "rq_EscapedPath demoRecheck = ''/api/trades/i1/recheck''"
  "cleanPath ''/api/auth/login'' = ''/api/auth/login''" "cleanPath ''/api/trades/i1/recheck'' = ''/api/trades/i1/recheck''"
  "routes ''POST'' ''/api/auth/login'' = EpLogin" "routes ''POST'' ''/api/trades/i1/recheck'' = EpRecheck ''i1''"
  by code_simp+

lemma demo_session:
  "rq_Cookie demoRecheck sessionCookieName = Some ''c2lk.MDEyM2MybGs''"
  "getSession (sv_HMAC demoServer) ''c2lk.MDEyM2MybGs'' (he_Now demoNow) demoSessions = ((Some demoSession, []), demoSessions)"
  "requireCSRF demoServer demoRecheck demoSession"
  by code_simp+

lemma demo_admits:
  "admit demoServer demoNow demoLogin (newConsole demoServer 0) = (Inr demoLoginAdmitted, newConsole demoServer 0)"
  "admit demoServer demoNow demoRecheck demoSignedIn = (Inr demoRecheckAdmitted, demoSignedIn)"
  by (simp_all add: admit_def Let_def demo_token demo_boundary demo_routes demo_session requireSession_def needsSession_def needsCSRF_def
      demoAdmitted_def demoSignedIn_def)

lemma demo_write: "validWriteOrigin demoServer demoLogin" "jsonContent demoLogin" "rq_LoginBody demoLogin = Some (''desk'', ''correct horse'')"
  by code_simp+

lemma demo_checked: "loginCheck demoServer demoNow demoLogin demoLoginAdmitted (newConsole demoServer 0) = (None, newConsole demoServer 0)"
  by (simp add: loginCheck_def Let_def demo_write allowLogin_def pruneLimiter_def newConsole_def newLimiter_def recentTimes_def Before_def
      demoEnv_def demoTime_def Second_def)

lemma demo_created:
  "createSession (sv_HMAC demoServer) (he_IDBytes demoNow) (he_CSRFBytes demoNow) (he_Now demoNow) (wc_SessionTTL demoWeb) (newSessionStore (wc_SessionSecret demoWeb)) =
    (Inr (demoSession, ''c2lk.MDEyM2MybGs''), demoSessions)"
  by code_simp

lemma demo_server: "sv_Config demoServer = demoWeb" "sv_SHA256 demoServer = (\<lambda>s. s)" "wc_Username demoWeb = ''desk''" "wc_Password demoWeb = ''correct horse''"
  by (simp_all add: demoServer_def demoWeb_def)

lemma demo_signed_in: "loginFinish demoServer demoNow demoLogin demoLoginAdmitted (newConsole demoServer 0) = (demoResponse, demoSignedIn)"
  and demo_ok: "rp_Status demoResponse = 200"
  by (simp_all add: demoResponse_def loginFinish_def Let_def demo_write constantTimeTextEqual_def demo_server signIn_def newConsole_def
      demo_created [unfolded demo_server] demoSignedIn_def loginSuccess_def newLimiter_def writeJSON_def)

lemma demo_begun: "recheckBegin demoServer demoNow ''i1'' demoRecheckAdmitted demoSignedIn = (None, demoRechecking)"
proof -
  have "GetQuickTrade (quietEnv demoTime) ''i1'' (FileHolds sampleSnapshot) = Inr (newQuickTrade sampleConfirmation 10)"
    by code_simp
  then show ?thesis
    by (simp add: recheckBegin_def loadTrade_def Let_def demoEnv_def demoServer_def demoBackend_def demoSignedIn_def newConsole_def beginRecheck_def
        demoRechecking_def IsZero_def)
qed

lemma demo_endpoints:
  "ad_Endpoint demoLoginAdmitted = EpLogin" "ad_Endpoint demoRecheckAdmitted = EpRecheck ''i1''" "recheckID demoRecheckAdmitted = ''i1''"
  by (simp add: demoAdmitted_def, simp add: demoAdmitted_def, code_simp)

lemma demo_run: "console_run demoServer demoRechecking [(demoRecheck, demoRecheckAdmitted, demoTime, Rechecking)] [SignedIn demoLogin demoResponse]"
proof -
  have now: "he_Now demoNow = demoTime" by (simp add: demoEnv_def)
  note ep = demo_endpoints
  have "console_run demoServer (newConsole demoServer 0) ([] @ (demoLogin, demoLoginAdmitted, demoTime, Arrived) # []) []"
    using console_run.admitted [OF console_run.start demo_admits(1)] now by simp
  note console_run.login_checked [OF this ep(1) demo_checked]
  from console_run.login_finished [OF this demo_signed_in]
  have "console_run demoServer demoSignedIn [] [SignedIn demoLogin demoResponse]" by (simp add: demo_ok)
  from console_run.admitted [OF this demo_admits(2)] now
  have "console_run demoServer demoSignedIn ([] @ (demoRecheck, demoRecheckAdmitted, demoTime, Arrived) # []) [SignedIn demoLogin demoResponse]" by simp
  moreover have "recheckBegin demoServer demoNow (recheckID demoRecheckAdmitted) demoRecheckAdmitted demoSignedIn = (None, demoRechecking)"
    unfolding ep(3) by (rule demo_begun)
  ultimately have "console_run demoServer demoRechecking ([] @ (demoRecheck, demoRecheckAdmitted, demoTime, Rechecking) # [])
      [SignedIn demoLogin demoResponse]"
    by (rule console_run.recheck_begun [OF _ ep(2)])
  then show ?thesis by (simp only: append_Nil)
qed

section \<open>Guessing\<close>

lemma signIns_history:
  "login_history sv st gs t \<Longrightarrow> sorted (t # ts) \<Longrightarrow> signIns sv password ts st gs = (statuses, gs', st') \<Longrightarrow> \<exists>t'. login_history sv st' gs' t'"
proof (induction sv password ts st gs arbitrary: t statuses rule: signIns.induct)
  case (2 sv password u ts st gs)
  let ?r = "demoRequest ''POST'' ''/api/auth/login'' (Some (''desk'', password)) None []"
  let ?env = "demoEnv u ''s1'' ''c1''"
  let ?ad = "\<lparr>ad_Endpoint = EpLogin, ad_Session = None, ad_ClientIP = ''203.0.113.7'', ad_RequestID = ''rid'', ad_Headers = []\<rparr>"
  obtain response st1 where h: "handleLogin sv ?env ?r ?ad st = (response, st1)" by (metis prod.exhaust)
  obtain statuses1 where rest: "signIns sv password ts st1 (loginEvents sv ?env ?r ?ad st @ gs) = (statuses1, gs', st')"
    using 2(4) h by (auto simp: Let_def split: prod.splits)
  have u: "he_Now ?env = u" by (simp add: demoEnv_def)
  have hist: "login_history sv st1 (loginEvents sv ?env ?r ?ad st @ gs) u"
    using login_history.sign_in [OF 2(2) _ h] 2(3) u by simp
  show ?case by (rule 2(1) [OF refl refl refl h [symmetric] hist _ rest]) (use 2(3) in simp)
qed auto

lemma demo_start: "login_history demoServer (newConsole demoServer 0) [] demoTime"
  by (rule login_history.start) (simp add: newConsole_def)

definition demoGuesses :: "int list \<times> (string \<times> time \<times> bool) list \<times> nat Console" where
  "demoGuesses = signIns demoServer ''wrong horse'' (map (\<lambda>k. demoTime + k * Second) [0, 1]) (newConsole demoServer 0) []"

lemma demo_guesses: "fst demoGuesses = [401, 401]"
  by code_simp

lemma demo_guesses_history: "\<exists>t. login_history demoServer (snd (snd demoGuesses)) (fst (snd demoGuesses)) t"
proof (rule signIns_history [OF demo_start])
  show "sorted (demoTime # map (\<lambda>k. demoTime + k * Second) [0, 1])" by (simp add: Second_def)
  show "signIns demoServer ''wrong horse'' (map (\<lambda>k. demoTime + k * Second) [0, 1]) (newConsole demoServer 0) [] =
      (fst demoGuesses, fst (snd demoGuesses), snd (snd demoGuesses))"
    unfolding demoGuesses_def by (simp only: prod.collapse)
qed

end
