(* ===== verification/WebSessionProps.thy ===== *)
theory WebSessionProps
  imports WebSessions
begin

text \<open>
  The session store over its histories: how many connections a session and the store have, and that a cookie leads
  back to the session it was issued for.
\<close>

section \<open>Counting connections\<close>

lemma connCount_gdel: "gwf m \<Longrightarrow> gget m i = Some x \<Longrightarrow>
    sum_list (map (\<lambda>(_, y). int (length (se_conns y))) (gdel i m)) =
    sum_list (map (\<lambda>(_, y). int (length (se_conns y))) m) - int (length (se_conns x))"
proof (induction m)
  case (Cons kv m)
  obtain k v where kv: "kv = (k, v)" by (cases kv)
  show ?case
  proof (cases "k = i")
    case True
    then have "gget m i = None" using Cons.prems(1) kv by (auto simp: gwf_def map_of_eq_None_iff)
    then have "gdel i m = m" by (simp add: delete_conv filter_id_conv map_of_eq_None_iff)
    then show ?thesis using Cons.prems True kv by (simp add: delete_conv)
  next
    case False
    then show ?thesis using Cons kv by (simp add: delete_conv gwf_def)
  qed
qed simp

lemma gdel_absent: "gget m i = None \<Longrightarrow> gdel i m = m"
  by (simp add: delete_conv filter_id_conv map_of_eq_None_iff)

lemma connCount_gput: "gwf m \<Longrightarrow>
    sum_list (map (\<lambda>(_, y). int (length (se_conns y))) (gput i x m)) =
    sum_list (map (\<lambda>(_, y). int (length (se_conns y))) m) + int (length (se_conns x)) -
      (case gget m i of None \<Rightarrow> 0 | Some y \<Rightarrow> int (length (se_conns y)))"
proof (induction m)
  case (Cons kv m)
  obtain k v where kv: "kv = (k, v)" by (cases kv)
  then show ?case using Cons by (cases "k = i") (auto simp: gwf_def)
qed simp

section \<open>Histories of the store\<close>

text \<open>Identifiers are random: one that is in use is not drawn again.\<close>

inductive store_history :: "(string \<Rightarrow> string \<Rightarrow> string) \<Rightarrow> sessionStore \<Rightarrow> bool" for hmac where
  start: "store_history hmac (newSessionStore secret)"
| created: "store_history hmac s \<Longrightarrow> (\<And>i. randomToken idBytes = Inr i \<Longrightarrow> gget (st_sessions s) i = None) \<Longrightarrow>
    createSession hmac idBytes csrfBytes now ttl s = (answer, s') \<Longrightarrow> store_history hmac s'"
| looked_up: "store_history hmac s \<Longrightarrow> getSession hmac cookie now s = (answer, s') \<Longrightarrow> store_history hmac s'"
| deleted: "store_history hmac s \<Longrightarrow> deleteSession i s = (gone, s') \<Longrightarrow> store_history hmac s'"
| joined: "store_history hmac s \<Longrightarrow> addConn i conn 5 s = (ok, s') \<Longrightarrow> store_history hmac s'"
| left: "store_history hmac s \<Longrightarrow> store_history hmac (removeConn i conn s)"

lemma sessionsOk_drop:
  assumes "sessionsOk s" "gget (st_sessions s) i = Some x"
  shows "sessionsOk (s\<lparr>st_sessions := gdel i (st_sessions s), st_totalConns := dropConns (se_conns x) (st_totalConns s)\<rparr>)"
proof -
  have w: "gwf (st_sessions s)" using assms(1) by (simp add: sessionsOk_def)
  have "connCount (s\<lparr>st_sessions := gdel i (st_sessions s)\<rparr>) = connCount s - int (length (se_conns x))"
    using connCount_gdel [OF w assms(2)] by (simp add: connCount_def)
  moreover have "0 \<le> connCount (s\<lparr>st_sessions := gdel i (st_sessions s)\<rparr>)"
    by (auto simp: connCount_def intro!: sum_list_nonneg)
  ultimately show ?thesis using assms w by (auto simp: sessionsOk_def connCount_def dropConns_def Let_def set_gdel)
qed

lemma sessionsOk_put:
  assumes "sessionsOk s" "se_ID x = i" "CHR ''.'' \<notin> set i" "distinct (se_conns x)" "length (se_conns x) \<le> 5"
    "n = st_totalConns s + int (length (se_conns x)) - (case gget (st_sessions s) i of None \<Rightarrow> 0 | Some y \<Rightarrow> int (length (se_conns y)))" "n \<le> 500"
  shows "sessionsOk (s\<lparr>st_sessions := gput i x (st_sessions s), st_totalConns := n\<rparr>)"
proof -
  have w: "gwf (st_sessions s)" using assms(1) by (simp add: sessionsOk_def)
  show ?thesis using assms connCount_gput [OF w, of i x] w by (auto simp: sessionsOk_def connCount_def set_gput)
qed

lemma sessionsOk_entry:
  assumes "sessionsOk s" "gget (st_sessions s) i = Some x"
  shows "se_ID x = i" "CHR ''.'' \<notin> set i" "distinct (se_conns x)" "length (se_conns x) \<le> 5"
  using assms gget_in_set [of "st_sessions s" i x] by (auto simp: sessionsOk_def)

lemma createSession_ok:
  assumes "sessionsOk s" "\<And>i. randomToken idBytes = Inr i \<Longrightarrow> gget (st_sessions s) i = None"
    "createSession hmac idBytes csrfBytes now ttl s = (answer, s')"
  shows "sessionsOk s'"
proof (cases "s' = s")
  case False
  then obtain i csrf where i: "randomToken idBytes = Inr i" and s': "s' = s\<lparr>st_sessions := gput i
      \<lparr>se_ID = i, se_CSRFToken = csrf, se_CreatedAt = now, se_ExpiresAt = Add now ttl, se_conns = []\<rparr> (st_sessions s)\<rparr>"
    using assms(3) by (auto simp: createSession_def Let_def split: sum.splits)
  have "CHR ''.'' \<notin> set i" using i by (auto simp: randomToken_def result_simps split: sum.splits)
  then have "sessionsOk (s\<lparr>st_sessions := gput i \<lparr>se_ID = i, se_CSRFToken = csrf, se_CreatedAt = now, se_ExpiresAt = Add now ttl, se_conns = []\<rparr>
      (st_sessions s), st_totalConns := st_totalConns s\<rparr>)"
    using assms(1) assms(2) [OF i] by (intro sessionsOk_put) (auto simp: sessionsOk_def)
  then show ?thesis unfolding s' by simp
qed (use assms in simp)

lemma getSession_ok:
  assumes "sessionsOk s" "getSession hmac cookie now s = (answer, s')"
  shows "sessionsOk s'"
  using assms(2) sessionsOk_drop [OF assms(1)] assms(1) by (auto simp: getSession_def split: option.splits if_splits)

lemma deleteSession_ok:
  assumes "sessionsOk s" "deleteSession i s = (gone, s')"
  shows "sessionsOk s'"
  using assms(2) sessionsOk_drop [OF assms(1)] assms(1) by (auto simp: deleteSession_def gdel_absent split: option.splits)

lemma addConn_ok:
  assumes "sessionsOk s" "addConn i conn 5 s = (ok, s')"
  shows "sessionsOk s'"
proof (cases "s' = s")
  case False
  then obtain x where x: "gget (st_sessions s) i = Some x" "length (se_conns x) < 5" "st_totalConns s < 500" "conn \<notin> set (se_conns x)"
    and s': "s' = s\<lparr>st_sessions := gput i (x\<lparr>se_conns := se_conns x @ [conn]\<rparr>) (st_sessions s), st_totalConns := st_totalConns s + 1\<rparr>"
    using assms by (auto simp: addConn_def sessionsOk_def split: option.splits if_splits)
  show ?thesis unfolding s' using sessionsOk_entry [OF assms(1) x(1)] x by (intro sessionsOk_put [OF assms(1)]) auto
qed (use assms in simp)

lemma removeConn_ok:
  assumes "sessionsOk s"
  shows "sessionsOk (removeConn i conn s)"
proof (cases "\<exists>x. gget (st_sessions s) i = Some x \<and> conn \<in> set (se_conns x)")
  case True
  then obtain x where x: "gget (st_sessions s) i = Some x" "conn \<in> set (se_conns x)" by blast
  note e = sessionsOk_entry [OF assms x(1)]
  have len: "int (length (removeAll conn (se_conns x))) = int (length (se_conns x)) - 1"
    using x(2) e(3) length_removeAll_less [of conn "se_conns x"] by (simp add: distinct_remove1_removeAll [symmetric] length_remove1)
  have "0 \<le> connCount (s\<lparr>st_sessions := gdel i (st_sessions s)\<rparr>)"
    by (auto simp: connCount_def intro!: sum_list_nonneg)
  then have pos: "1 \<le> st_totalConns s"
    using assms connCount_gdel [OF _ x(1)] x(2) by (cases "se_conns x") (auto simp: sessionsOk_def connCount_def)
  have "sessionsOk (s\<lparr>st_sessions := gput i (x\<lparr>se_conns := removeAll conn (se_conns x)\<rparr>) (st_sessions s), st_totalConns := st_totalConns s - 1\<rparr>)"
    using e x(1) len assms by (intro sessionsOk_put [OF assms]) (auto simp: distinct_removeAll sessionsOk_def)
  then show ?thesis using x pos by (simp add: removeConn_def Let_def)
qed (use assms in \<open>auto simp: removeConn_def split: option.splits\<close>)

lemma store_history_ok: "store_history hmac s \<Longrightarrow> sessionsOk s"
proof (induction rule: store_history.induct)
  case (start secret)
  show ?case by (simp add: sessionsOk_def newSessionStore_def connCount_def)
qed (blast intro: createSession_ok getSession_ok deleteSession_ok addConn_ok removeConn_ok)+

lemma getSession_created:
  assumes "createSession hmac idBytes csrfBytes now ttl s = (Inr (sess, cookie), s')" "later < se_ExpiresAt sess"
  shows "getSession hmac cookie later s' = ((Some sess, []), s')"
proof -
  obtain b i csrf where "i = EncodeRawURL b" and
    sess: "sess = \<lparr>se_ID = i, se_CSRFToken = csrf, se_CreatedAt = now, se_ExpiresAt = Add now ttl, se_conns = []\<rparr>"
    "cookie = i @ ''.'' @ sign hmac s i" "s' = s\<lparr>st_sessions := gput i sess (st_sessions s)\<rparr>"
    using assms(1) by (auto simp: createSession_def randomToken_def Let_def result_simps split: sum.splits)
  then have "CutByte (CHR ''.'') cookie = Some (i, sign hmac s i)" by (simp add: CutByte_def indexByte_append)
  then show ?thesis using assms(2) sess by (simp add: getSession_def sign_def gomap_simps Before_def)
qed

end
