(* ===== verification/WebProps.thy ===== *)
theory WebProps
  imports WebDemo WebSessionProps
begin

text \<open>
  The properties of the web console: who may reach the services, how many passwords can be tried, sessions and
  their connections, rechecks, and the numbering of a browser's messages.
\<close>

section \<open>The messages of a socket\<close>

definition runSocket :: "'w Server \<Rightarrow> (SocketEnv \<times> 'w \<times> 64 word \<times> SocketEvent) list \<Rightarrow> Socket \<Rightarrow> Socket" where
  "runSocket sv turns sk = foldl (\<lambda>k (env, w, revision, e). socketStep sv env w revision e k) sk turns"

definition numbered :: "Envelope list \<Rightarrow> bool" where
  "numbered es \<longleftrightarrow> map en_Sequence es = map of_nat [0..<length es]"

definition socketOk :: "Socket \<Rightarrow> bool" where
  "socketOk sk \<longleftrightarrow> numbered (sk_sent sk) \<and> map en_Type (take 2 (sk_sent sk)) = take (length (sk_sent sk)) [''session.ready'', ''snapshot''] \<and>
     (sk_open sk \<longrightarrow> 2 \<le> length (sk_sent sk) \<and> sk_sequence sk + 1 = of_nat (length (sk_sent sk)))"

lemma numbered_snoc: "numbered es \<Longrightarrow> en_Sequence e = of_nat (length es) \<Longrightarrow> numbered (es @ [e])"
  by (simp add: numbered_def)

lemma socketOk_write:
  assumes "socketOk sk" "sk_open sk" "en_Sequence e = sk_sequence sk + 1"
    "sk_sent sk' = sk_sent sk" "sk_open sk' = sk_open sk" "sk_sequence sk' = sk_sequence sk + 1"
  shows "socketOk (writeEnvelope env e sk')"
proof (cases "sn_Writes env")
  case True
  have "numbered (sk_sent sk @ [e])" using assms by (intro numbered_snoc) (simp_all add: socketOk_def)
  moreover have "take 2 (sk_sent sk @ [e]) = take 2 (sk_sent sk)" using assms(1,2) by (simp add: socketOk_def)
  ultimately show ?thesis using assms True by (simp add: socketOk_def writeEnvelope_def)
next
  case False
  then show ?thesis using assms by (simp add: socketOk_def writeEnvelope_def)
qed

lemma socketOk_closed: "socketOk sk \<Longrightarrow> sk_sent sk' = sk_sent sk \<Longrightarrow> \<not> sk_open sk' \<Longrightarrow> socketOk sk'"
  by (simp add: socketOk_def)

lemma socketOk_snapshot: "socketOk sk \<Longrightarrow> sk_open sk \<Longrightarrow> socketOk (snd (writeBrowserSnapshot sv env w revision sk))"
  by (auto simp: writeBrowserSnapshot_def Let_def envelope_def intro: socketOk_closed socketOk_write split: sum.splits)

lemma socketOk_step:
  assumes "socketOk sk"
  shows "socketOk (socketStep sv env w revision e sk)"
proof (cases "sk_open sk")
  case True
  note wr = socketOk_write [OF assms True]
  show ?thesis
  proof (cases e)
    case (SkControl kind)
    consider "kind = ''ping''" | "kind \<noteq> ''ping''" "kind \<in> {''subscribe'', ''unsubscribe'', ''resync''}" |
      "kind \<noteq> ''ping''" "kind \<notin> {''subscribe'', ''unsubscribe'', ''resync''}" by blast
    then show ?thesis
    proof cases
      case 1
      then show ?thesis unfolding socketStep_def SkControl using True
        by (simp only: SocketEvent.case if_True if_False not_True_eq_False simp_thms, intro wr) (simp_all add: envelope_def)
    next
      case 2
      then show ?thesis unfolding socketStep_def SkControl using True socketOk_snapshot [OF assms True]
        by (simp only: SocketEvent.case if_True if_False not_True_eq_False simp_thms)
    next
      case 3
      then show ?thesis unfolding socketStep_def SkControl using True assms
        by (simp only: SocketEvent.case if_True if_False not_True_eq_False simp_thms)
    qed
  next
    case (SkEvent event)
    then show ?thesis using True
      by (auto simp: socketStep_def relayEvent_def Let_def envelope_def intro: wr split: option.splits)
  next
    case SkExpiring
    then show ?thesis using True assms by (auto simp: socketStep_def Let_def envelope_def intro: wr)
  qed (use True in \<open>auto simp: socketStep_def closeSocket_def intro: socketOk_closed [OF assms] assms\<close>)
qed (simp add: socketStep_def assms)

lemma socketOk_first_snapshot:
  assumes "sk_sent sk = [e]" "en_Sequence e = 0" "en_Type e = ''session.ready''" "sk_sequence sk = 0"
  shows "socketOk (if fst (writeBrowserSnapshot sv env w q sk) then snd (writeBrowserSnapshot sv env w q sk)
    else closeSocket 1011 (snd (writeBrowserSnapshot sv env w q sk)))"
  using assms
  by (cases "browserSnapshot sv env w"; cases "sn_Writes env")
    (simp_all add: writeBrowserSnapshot_def writeEnvelope_def closeSocket_def envelope_def socketOk_def numbered_def upt_rec)

lemma socketOk_open:
  assumes "openSocket sv env1 env2 w sess conn st = (sk, st')"
  shows "socketOk sk"
proof -
  obtain ok ss where a: "addConn (se_ID sess) conn 5 (cn_Sessions st) = (ok, ss)" by (metis prod.exhaust)
  obtain i cursor b where b: "SubscribeFrom 64 (cn_Events st) = ((i, cursor), b)" by (metis prod.exhaust)
  show ?thesis
  proof (cases "ok \<and> sn_Writes env1")
    case False
    then show ?thesis using assms
      by (cases ok) (auto simp: openSocket_def a b Let_def closeSocket_def writeEnvelope_def socketOk_def numbered_def)
  next
    case True
    show ?thesis
    proof (cases "browserSnapshot sv env2 w")
      case (Inl e)
      then show ?thesis using assms True
        by (auto simp: openSocket_def a b Let_def closeSocket_def writeEnvelope_def envelope_def socketOk_def numbered_def)
    next
      case (Inr payload)
      let ?e = "envelope sv env1 0 ''session.ready'' [] cursor (ReadyPayload (FormatRFC3339 (se_ExpiresAt sess)) (\<not> wc_TradingEnabled (sv_Config sv)))"
      let ?sk = "\<lparr>sk_session = sess, sk_conn = conn, sk_subscriber = i, sk_sequence = 0, sk_expiring = True, sk_sent = [?e],
        sk_closeCode = None, sk_open = True\<rparr>"
      have "sk = (if fst (writeBrowserSnapshot sv env2 w cursor ?sk) then snd (writeBrowserSnapshot sv env2 w cursor ?sk)
          else closeSocket 1011 (snd (writeBrowserSnapshot sv env2 w cursor ?sk)))"
        using assms True Inr by (simp add: openSocket_def a b Let_def writeEnvelope_def)
      then show ?thesis using socketOk_first_snapshot [of ?sk ?e sv env2 w cursor] by (simp add: envelope_def)
    qed
  qed
qed

lemma socketOk_run: "socketOk sk \<Longrightarrow> socketOk (runSocket sv turns sk)"
  unfolding runSocket_def by (induction turns arbitrary: sk) (auto simp: socketOk_step)

text \<open>
  C24. A browser's messages are numbered without gaps from 0 on, in the order they are written, whatever events, control messages, timers and
  failures the connection sees; the first is \<open>session.ready\<close> and the second a snapshot.
\<close>

theorem socket_messages_numbered:
  assumes "openSocket sv env1 env2 w sess conn st = (sk, st')"
  shows "map en_Sequence (sk_sent (runSocket sv turns sk)) = map of_nat [0..<length (sk_sent (runSocket sv turns sk))] \<and>
    map en_Type (take 2 (sk_sent (runSocket sv turns sk))) = take (length (sk_sent (runSocket sv turns sk))) [''session.ready'', ''snapshot'']"
  using socketOk_run [OF socketOk_open [OF assms], of sv turns] by (simp add: socketOk_def numbered_def)

text \<open>
  Witness: a browser is told that its session is ready and gets a snapshot, pings, and loses the connection.
\<close>

definition demoTurn :: SocketEnv where
  "demoTurn = \<lparr>sn_Now = demoTime, sn_Read = quietEnv demoTime, sn_Writes = True\<rparr>"

definition demoSocket :: Socket where
  "demoSocket = runSocket demoServer [(demoTurn, 0, 7, SkControl ''ping''), (demoTurn, 0, 7, SkReadError False)]
     (fst (openSocket demoServer demoTurn demoTurn 0 demoSession 1 demoSignedIn))"

theorem socket_messages_numbered_witness: "map en_Sequence (sk_sent demoSocket) = map of_nat [0..<length (sk_sent demoSocket)]"
  using socket_messages_numbered [OF surjective_pairing [of "openSocket demoServer demoTurn demoTurn 0 demoSession 1 demoSignedIn"]]
  unfolding demoSocket_def by blast

section \<open>Who reaches the services\<close>

text \<open>
  C4. Whenever a request changes anything behind the console, in whatever order requests, sockets and services run, it came through a trusted
  proxy with the console's own origin to an endpoint that may change something, and carries the cookie and the CSRF token that an earlier sign-in with
  the right user name and password was answered with, a cookie that had not expired when the request was admitted; a
  confirmation moreover needs trading to be enabled.
\<close>

theorem changes_need_sign_in:
  assumes "console_run sv st ps (later @ Acted r ad t w w' # earlier)" "w \<noteq> w'"
  shows "fromTrustedProxy sv r \<and> validWriteOrigin sv r \<and> ad_Endpoint ad = routes (rq_Method r) (rq_EscapedPath r) \<and>
    list_ex (entitles sv r t) earlier \<and> reachesServices (ad_Endpoint ad) \<and> (ad_Endpoint ad = EpConfirm \<longrightarrow> wc_TradingEnabled (sv_Config sv))"
proof -
  have "actsPermitted sv (later @ Acted r ad t w w' # earlier)" using console_run_ok [OF assms(1)] by (simp add: runOk_def)
  from actsPermitted_at [OF this assms(2)] show ?thesis unfolding permitted_def mayChange_def by blast
qed

theorem changes_need_sign_in_witness:
  "\<exists>st ps. console_run demoServer st ps [Acted demoRecheck demoRecheckAdmitted demoTime 0 1, SignedIn demoLogin demoResponse] \<and>
     list_ex (entitles demoServer demoRecheck demoTime) [SignedIn demoLogin demoResponse]"
proof -
  let ?f = "\<lambda>(_ :: string) (_ :: time) n. (Inl (RecheckVenueError ''VENUE_UNAVAILABLE'' ''no answer'') :: RecheckFailure + QuickTrade, n + 1 :: nat)"
  have f: "be_Rechecker (sv_Backend demoServer) = Some ?f" by (simp add: demoServer_def demoBackend_def)
  obtain response st' where run: "recheckRun ?f demoNow (recheckID demoRecheckAdmitted) demoRecheckAdmitted demoRechecking = (response, st')"
    by (metis prod.exhaust)
  have w: "cn_World demoRechecking = 0" by (simp add: demoRechecking_def demoSignedIn_def newConsole_def)
  then have w': "cn_World st' = 1" using run by (auto simp: recheckRun_def Let_def)
  have "console_run demoServer demoRechecking ([] @ (demoRecheck, demoRecheckAdmitted, demoTime, Rechecking) # []) [SignedIn demoLogin demoResponse]"
    using demo_run by simp
  from console_run.rechecked [OF this f run] w w'
  have run: "console_run demoServer st' [(demoRecheck, demoRecheckAdmitted, demoTime, RecheckDone)]
      ([] @ Acted demoRecheck demoRecheckAdmitted demoTime 0 1 # [SignedIn demoLogin demoResponse])" by simp
  show ?thesis using changes_need_sign_in [OF run] run by (auto simp only: append_Nil)
qed

section \<open>Guessing passwords\<close>

text \<open>
  C11. In any five minutes at most 210 wrong passwords are compared, and at most 15 of one client address since it last signed in, whatever
  sign-ins are tried, one after the other, and whatever else the console does between them.
\<close>

theorem password_guesses_bounded:
  assumes "login_history sv st gs t"
  shows "wrongWithin a gs \<le> 210 \<and> wrongWithin a (sinceSignIn client gs) \<le> 15"
  using login_history_limiter [OF assms] limiterOk_bounds by metis

theorem password_guesses_bounded_witness:
  "fst demoGuesses = [401, 401] \<and> wrongWithin demoTime (sinceSignIn ''203.0.113.7'' (fst (snd demoGuesses))) \<le> 15"
proof -
  obtain t where "login_history demoServer (snd (snd demoGuesses)) (fst (snd demoGuesses)) t" using demo_guesses_history by blast
  from password_guesses_bounded [OF this] show ?thesis using demo_guesses by blast
qed

section \<open>Sessions and their connections\<close>

text \<open>
  C13. Whatever the console does with its sessions, the store's counter is the number of open connections, at most 500 of them, no session has more than
  five, none is counted twice, and every session is kept under its own identifier, which no dot can split.
\<close>

theorem session_connections_counted:
  assumes "store_history hmac s"
  shows "st_totalConns s = connCount s \<and> st_totalConns s \<le> 500 \<and>
    (\<forall>(i, sess) \<in> set (st_sessions s). se_ID sess = i \<and> CHR ''.'' \<notin> set i \<and> distinct (se_conns sess) \<and> length (se_conns sess) \<le> 5)"
  using store_history_ok [OF assms] by (simp add: sessionsOk_def)

definition demoStore :: sessionStore where
  "demoStore = snd (addConn ''c2lk'' 3 5 (snd (createSession (\<lambda>k m. k @ m) (Inr ''sid'') (Inr ''csrf'') 10 Hour (newSessionStore ''key''))))"

theorem session_connections_counted_witness: "st_totalConns demoStore = 1 \<and> connCount demoStore = 1"
proof -
  have "store_history (\<lambda>k m. k @ m) demoStore"
    unfolding demoStore_def
    by (rule store_history.joined [OF store_history.created [OF store_history.start _ surjective_pairing] surjective_pairing])
      (simp add: newSessionStore_def)
  moreover have "st_totalConns demoStore = 1" by code_simp
  ultimately show ?thesis using session_connections_counted by metis
qed

section \<open>Rechecks\<close>

text \<open>
  C12. At most one recheck of a trade is under way at a time, and the coordinator holds exactly the trades whose recheck is: none stays locked.
\<close>

theorem rechecks_never_overlap:
  assumes "console_run sv st ps hs"
  shows "distinct (rechecking ps) \<and> (\<forall>i. gget (rc_active (cn_Rechecks st)) i = Some True \<longleftrightarrow> i \<in> set (rechecking ps))"
  using console_run_rechecks [OF assms] by (simp add: rechecksOk_def)

theorem rechecks_never_overlap_witness:
  "gget (rc_active (cn_Rechecks demoRechecking)) ''i1'' = Some True"
  using rechecks_never_overlap [OF demo_run] by (simp add: demo_endpoints)

end
