(* ===== verification/ConfigProps.thy ===== *)
theory ConfigProps
  imports WebConfig
begin

text \<open>
  The properties of the configuration: what settings the web console can start with, and what a dotenv file may change.
\<close>

section \<open>Dotenv files\<close>

text \<open>The first of the files that has a value for a name decides it.\<close>

fun firstDefined :: "(string \<Rightarrow> envFile) \<Rightarrow> string list \<Rightarrow> environment" where
  "firstDefined read [] k = None"
| "firstDefined read (path # paths) k =
     (case read path of
        EnvValues vals \<Rightarrow> (case gget vals k of Some v \<Rightarrow> Some v | None \<Rightarrow> firstDefined read paths k)
      | _ \<Rightarrow> firstDefined read paths k)"

lemma gget_merged: "gget (foldl (\<lambda>m (k, v). if gget m k = None then gput k v m else m) vals new) k =
    (case gget vals k of Some v \<Rightarrow> Some v | None \<Rightarrow> gget new k)"
proof (induction new arbitrary: vals)
  case (Cons kv new)
  obtain a b where kv: "kv = (a, b)" by (cases kv)
  show ?case using Cons.IH [of "if gget vals a = None then gput a b vals else vals"] kv
    by (cases "gget vals a") (auto simp: gomap_simps split: option.splits)
qed (simp split: option.splits)

lemma mergeFiles_first:
  "mergeFiles read allowMissing paths vals = Inr merged \<Longrightarrow>
    gget merged k = (case gget vals k of Some v \<Rightarrow> Some v | None \<Rightarrow> firstDefined read paths k)"
proof (induction paths arbitrary: vals)
  case (Cons path paths)
  show ?case
  proof (cases "read path")
    case (EnvValues new)
    then show ?thesis using Cons.IH Cons.prems by (auto simp: gget_merged split: option.splits)
  next
    case (EnvMissing e)
    then show ?thesis using Cons.IH Cons.prems by (auto split: if_splits option.splits)
  next
    case (EnvUnreadable e)
    then show ?thesis using Cons.prems by simp
  qed
qed (auto split: option.splits)

lemma setValues_sets:
  "setValues refuses kvs added env = (None, env') \<Longrightarrow> env' k = (case env k of Some v \<Rightarrow> Some v | None \<Rightarrow> gget kvs k)"
  by (induction kvs arbitrary: env added) (auto split: if_splits option.splits)

lemma unset_all: "foldl (\<lambda>m a. m(a := None)) env added = (\<lambda>k. if k \<in> set added then None else env k)"
  by (induction added arbitrary: env) auto

lemma setValues_undoes:
  "setValues refuses kvs added env = (Some e, env') \<Longrightarrow> env' = (\<lambda>k. if k \<in> set added then None else env k)"
proof (induction kvs arbitrary: env added)
  case (Cons kv kvs)
  obtain k v where kv: "kv = (k, v)" by (cases kv)
  show ?case
  proof (cases "env k = None \<and> refuses k v = None")
    case True
    then have "setValues refuses kvs (added @ [k]) (env(k := Some v)) = (Some e, env')" using Cons.prems kv by simp
    then have "env' = (\<lambda>j. if j \<in> set (added @ [k]) then None else (env(k := Some v)) j)" by (rule Cons.IH)
    then show ?thesis using True by auto
  qed (use Cons kv in \<open>auto simp: unset_all split: if_splits option.splits\<close>)
qed simp

text \<open>
  C25. Loading dotenv files only fills gaps: what the process has in its environment stays, an empty value included, any other name gets its value from the
  first file that has one, and when a file cannot be read or a value cannot be set, the environment is what it was before.
\<close>

theorem dotenv_fills_gaps:
  "loadEnvironmentFiles read refuses paths allowMissing env =
     (case fst (loadEnvironmentFiles read refuses paths allowMissing env) of
        None \<Rightarrow> (None, \<lambda>k. case env k of Some v \<Rightarrow> Some v | None \<Rightarrow> firstDefined read paths k)
      | Some e \<Rightarrow> (Some e, env))"
proof (cases "mergeFiles read allowMissing paths []")
  case (Inr vals)
  have first: "gget vals = firstDefined read paths" using mergeFiles_first [OF Inr] by auto
  obtain err env' where set: "setValues refuses vals [] env = (err, env')" by (metis prod.exhaust)
  show ?thesis
  proof (cases err)
    case None
    then have "env' = (\<lambda>k. case env k of Some v \<Rightarrow> Some v | None \<Rightarrow> gget vals k)"
      using setValues_sets [of refuses vals "[]" env env'] set by blast
    then show ?thesis using None set Inr unfolding first by (simp add: loadEnvironmentFiles_def)
  next
    case (Some e)
    then show ?thesis using setValues_undoes [of refuses vals "[]" env e env'] set Inr by (auto simp: loadEnvironmentFiles_def)
  qed
qed (simp add: loadEnvironmentFiles_def)

section \<open>The console's settings\<close>

lemma parseWebInt_ok: "snd (parseWebInt env name fallback least most) = [] \<Longrightarrow> least \<le> fallback \<Longrightarrow> fallback \<le> most \<Longrightarrow>
    least \<le> fst (parseWebInt env name fallback least most) \<and> fst (parseWebInt env name fallback least most) \<le> most"
  by (auto simp: parseWebInt_def split: option.splits if_splits)

lemma parseWebDuration_ok: "snd (parseWebDuration env name fallback) = [] \<Longrightarrow> 0 < fallback \<Longrightarrow> 0 < fst (parseWebDuration env name fallback)"
  by (auto simp: parseWebDuration_def split: option.splits if_splits)

lemma proxyNetwork_ok: "proxyNetwork raw = Inr n \<Longrightarrow> maskOnes (nt_Mask n) = 8 * int (length (nt_Mask n)) \<and> (IsPrivate (nt_IP n) \<or> IsLoopback (nt_IP n))"
  by (auto simp: proxyNetwork_def split: option.splits if_splits)

lemma proxyNetworks_ok: "n \<in> set (fst (proxyNetworks env)) \<Longrightarrow>
    maskOnes (nt_Mask n) = 8 * int (length (nt_Mask n)) \<and> (IsPrivate (nt_IP n) \<or> IsLoopback (nt_IP n))"
  using proxyNetwork_ok [OF sym] by (fastforce simp: proxyNetworks_def Let_def split: if_splits sum.splits)

definition limitsOk :: "WebConfig \<Rightarrow> bool" where
  "limitsOk cfg \<longleftrightarrow>
     1 \<le> wc_Port cfg \<and> wc_Port cfg \<le> 65535 \<and> 0 < wc_SessionTTL cfg \<and> 0 < wc_PushInterval cfg \<and> 0 < wc_AccountReconcileInterval cfg \<and>
     0 < wc_QuoteTTL cfg \<and> 0 < wc_TradeBookMaxAge cfg \<and> 0 < wc_ValuationPriceMaxAge cfg \<and>
     1 \<le> wc_QuickTradeSlippageBPS cfg \<and> wc_QuickTradeSlippageBPS cfg \<le> 50 \<and>
     1 \<le> wc_MaxTradesPerSession cfg \<and> wc_MaxTradesPerSession cfg \<le> 10000 \<and> 1 \<le> wc_MaxTradesPerHour cfg \<and> wc_MaxTradesPerHour cfg \<le> 100000 \<and>
     1 \<le> wc_MaxConcurrentTrades cfg \<and> wc_MaxConcurrentTrades cfg \<le> 1000"

lemma default_durations: "0 < 8 * Hour" "0 < 250 * Millisecond" "0 < 30 * Second" "0 < 5 * Second" "0 < 3 * Second" "0 < 15 * Second"
  by (simp_all add: Hour_def Minute_def Second_def Millisecond_def)

lemma readWebConfig_limits:
  assumes "readWebConfig env = (cfg, [])"
  shows "limitsOk cfg"
proof -
  note r = assms [unfolded readWebConfig_def Let_def prod.inject append_is_Nil_conv]
  note cfg = r [THEN conjunct1, symmetric]
  show ?thesis
    unfolding limitsOk_def cfg WebConfig.select_convs
    by (intro conjI parseWebInt_ok [THEN conjunct1] parseWebInt_ok [THEN conjunct2] parseWebDuration_ok default_durations)
      (simp_all add: r [THEN conjunct2])
qed

lemma readWebConfig_proxies: "readWebConfig env = (cfg, errs) \<Longrightarrow> wc_TrustedProxyCIDRs cfg = fst (proxyNetworks env)"
  by (auto simp: readWebConfig_def Let_def)

definition reachable :: "WebConfig \<Rightarrow> bool" where
  "reachable cfg \<longleftrightarrow> hostOk (wc_Host cfg) \<and> validatePublicOrigin (wc_PublicOrigin cfg) = None \<and> wc_TrustedProxyCIDRs cfg \<noteq> [] \<and>
     (\<forall>n\<in>set (wc_TrustedProxyCIDRs cfg). maskOnes (nt_Mask n) = 8 * int (length (nt_Mask n)) \<and> (IsPrivate (nt_IP n) \<or> IsLoopback (nt_IP n)))"

definition guarded :: "WebConfig \<Rightarrow> bool" where
  "guarded cfg \<longleftrightarrow> TrimSpace (wc_Username cfg) \<noteq> [] \<and> 12 \<le> RuneCountInString (wc_Password cfg) \<and> 32 \<le> length (wc_SessionSecret cfg)"

text \<open>
  The test networks, written out: an endpoint is at a scheme, a host and a path when it parses to them (scheme and host up to case) and carries no user, no
  query and no fragment, and a FIX address is a host and a port. Both venues must be on their test network, whichever is enabled.
\<close>

definition endpointAt :: "string \<Rightarrow> string \<Rightarrow> string \<Rightarrow> string \<Rightarrow> bool" where
  "endpointAt raw scheme host path = (case ParseURL raw of
     None \<Rightarrow> False
   | Some u \<Rightarrow> \<not> ur_User u \<and> ur_RawQuery u = [] \<and> ur_Fragment u = [] \<and> EqualFold (ur_Scheme u) scheme \<and> EqualFold (ur_Host u) host \<and>
       EscapedPath u = path)"

definition addressAt :: "string \<Rightarrow> string \<Rightarrow> string \<Rightarrow> bool" where
  "addressAt address host port \<longleftrightarrow> (\<exists>h. SplitHostPort address = Some (h, port) \<and> EqualFold h host)"

definition onBybitTestnet :: "Config \<Rightarrow> bool" where
  "onBybitTestnet c \<longleftrightarrow> cf_Environment c = ''testnet'' \<and>
     endpointAt (cf_RESTBaseURL c) ''https'' ''api-testnet.bybit.com'' [] \<and>
     endpointAt (cf_WSPublicURL c) ''wss'' ''stream-testnet.bybit.com'' ''/v5/public/linear'' \<and>
     endpointAt (cf_WSPublicSpotURL c) ''wss'' ''stream-testnet.bybit.com'' ''/v5/public/spot'' \<and>
     endpointAt (cf_WSPrivateURL c) ''wss'' ''stream-testnet.bybit.com'' ''/v5/private'' \<and>
     endpointAt (cf_WSTradeURL c) ''wss'' ''stream-testnet.bybit.com'' ''/v5/trade'' \<and>
     addressAt (cf_FIXAddress c) ''fix-oe-testnet.bybit.com'' ''9000''"

definition onDeribitTestnet :: "DeribitConfig \<Rightarrow> bool" where
  "onDeribitTestnet d \<longleftrightarrow> dc_loadErrors d = [] \<and> dc_Environment d = ''testnet'' \<and>
     endpointAt (dc_HTTPBaseURL d) ''https'' ''test.deribit.com'' ''/api/v2'' \<and>
     endpointAt (dc_WSURL d) ''wss'' ''test.deribit.com'' ''/ws/api/v2'' \<and>
     addressAt (dc_FIXAddress d) ''fix-test.deribit.com'' ''9883''"

definition venuesOk :: "Config \<Rightarrow> WebConfig \<Rightarrow> bool" where
  "venuesOk base cfg \<longleftrightarrow> onBybitTestnet base \<and> onDeribitTestnet (cf_Deribit base) \<and>
     (wc_DefaultVenue cfg = ''bybit'' \<and> wc_BybitEnabled cfg \<or> wc_DefaultVenue cfg = ''deribit'' \<and> wc_DeribitEnabled cfg) \<and>
     (wc_BybitEnabled cfg \<longrightarrow> TrimSpace (cf_APIKey base) \<noteq> [] \<and> TrimSpace (cf_APISecret base) \<noteq> []) \<and>
     (wc_DeribitEnabled cfg \<longrightarrow> TrimSpace (dc_APIKey (cf_Deribit base)) \<noteq> [] \<and> TrimSpace (dc_APISecret (cf_Deribit base)) \<noteq> [])"

text \<open>What the approved URLs of the code parse to.\<close>

definition parsesTo :: "string \<Rightarrow> string \<Rightarrow> string \<Rightarrow> string \<Rightarrow> bool" where
  "parsesTo raw scheme host path = (case ParseURL raw of
     None \<Rightarrow> False
   | Some u \<Rightarrow> \<not> ur_User u \<and> ur_RawQuery u = [] \<and> ur_Fragment u = [] \<and> ur_Scheme u = scheme \<and> ur_Host u = host \<and> EscapedPath u = path)"

lemma approved_rest: "parsesTo TestnetRESTBaseURL ''https'' ''api-testnet.bybit.com'' []"
  by code_simp
lemma approved_public: "parsesTo TestnetWSPublicURL ''wss'' ''stream-testnet.bybit.com'' ''/v5/public/linear''"
  by code_simp
lemma approved_spot: "parsesTo TestnetWSPublicSpotURL ''wss'' ''stream-testnet.bybit.com'' ''/v5/public/spot''"
  by code_simp
lemma approved_private: "parsesTo TestnetWSPrivateURL ''wss'' ''stream-testnet.bybit.com'' ''/v5/private''"
  by code_simp
lemma approved_trade: "parsesTo TestnetWSTradeURL ''wss'' ''stream-testnet.bybit.com'' ''/v5/trade''"
  by code_simp
lemma approved_deribit: "parsesTo DeribitTestnetHTTPBaseURL ''https'' ''test.deribit.com'' ''/api/v2''"
  by code_simp
lemma approved_deribit_stream: "parsesTo DeribitTestnetWSURL ''wss'' ''test.deribit.com'' ''/ws/api/v2''"
  by code_simp

lemmas approved = approved_rest approved_public approved_spot approved_private approved_trade approved_deribit approved_deribit_stream

lemma validateExactURL_none: "validateExactURL raw allowed = None \<Longrightarrow> parsesTo allowed scheme host path \<Longrightarrow> endpointAt raw scheme host path"
  by (auto simp: validateExactURL_def parsesTo_def endpointAt_def split: option.splits if_splits)

lemma validateExactURL_self: "parsesTo u scheme host path \<Longrightarrow> validateExactURL u u = None"
  by (auto simp: parsesTo_def validateExactURL_def EqualFold_def split: option.splits)

lemma fixAddressOk_at: "fixAddressOk address host port \<Longrightarrow> addressAt address host port"
  by (auto simp: fixAddressOk_def addressAt_def split: option.splits prod.splits)

lemma ValidateTestnet_none:
  assumes "ValidateTestnet c = None"
  shows "onBybitTestnet c"
  unfolding onBybitTestnet_def using assms
  by (auto simp: ValidateTestnet_def approved split: if_splits option.splits
      intro!: fixAddressOk_at intro: validateExactURL_none)

lemma validateDeribitTestnet_none:
  assumes "validateDeribitTestnet order d = None"
  shows "onDeribitTestnet d"
  unfolding onDeribitTestnet_def using assms
  by (auto simp: validateDeribitTestnet_def approved split: if_splits option.splits
      intro!: fixAddressOk_at intro: validateExactURL_none)

lemma missingNames_none: "missingNames vals = None \<Longrightarrow> (k, v) \<in> set vals \<Longrightarrow> TrimSpace v \<noteq> []"
  by (auto simp: missingNames_def Let_def filter_empty_conv split: if_splits)

lemma RequireRESTCredentials_none: "RequireRESTCredentials c = None \<Longrightarrow> TrimSpace (cf_APIKey c) \<noteq> [] \<and> TrimSpace (cf_APISecret c) \<noteq> []"
  unfolding RequireRESTCredentials_def by (auto split: option.splits dest: missingNames_none)

lemma requireDeribitCredentials_none: "requireDeribitCredentials order d = None \<Longrightarrow> TrimSpace (dc_APIKey d) \<noteq> [] \<and> TrimSpace (dc_APISecret d) \<noteq> []"
  unfolding requireDeribitCredentials_def by (auto split: option.splits dest: missingNames_none)

lemma listErr_none [simp]: "listErr bad message = [] \<longleftrightarrow> \<not> bad"
  by (simp add: listErr_def)

lemma optErr_none [simp]: "optErr f e = [] \<longleftrightarrow> e = None"
  by (cases e) (simp_all add: optErr_def)

lemma validate_none:
  assumes "validateWebConfig order base cfg = []" "set (order (tradeCaps cfg)) = set (tradeCaps cfg)"
  shows "hostOk (wc_Host cfg)" "validatePublicOrigin (wc_PublicOrigin cfg) = None" "wc_TrustedProxyCIDRs cfg \<noteq> []" "guarded cfg" "venuesOk base cfg"
    "list_all (\<lambda>(_, cap). positiveRat cap) (tradeCaps cfg)"
proof -
  note v = assms(1) [unfolded validateWebConfig_def append_is_Nil_conv]
  show "hostOk (wc_Host cfg)" "validatePublicOrigin (wc_PublicOrigin cfg) = None" "wc_TrustedProxyCIDRs cfg \<noteq> []"
    using v by simp_all
  show "guarded cfg" using v by (auto simp: guarded_def)
  have "\<forall>c\<in>set (tradeCaps cfg). capErrors c = []" using v assms(2) by (simp only: concat_eq_Nil_conv set_map) blast
  then show "list_all (\<lambda>(_, cap). positiveRat cap) (tradeCaps cfg)" by (auto simp: list_all_iff capErrors_def split: if_splits)
  show "venuesOk base cfg"
    using v RequireRESTCredentials_none [of base] requireDeribitCredentials_none [of order "cf_Deribit base"]
      ValidateTestnet_none [of base] validateDeribitTestnet_none [of order "cf_Deribit base"]
    by (auto simp: venuesOk_def VenueBybit_def VenueDeribit_def split: if_splits)
qed

text \<open>
  C5. A console that starts listens on a private or loopback address behind at least one proxy, each trusted network being one private or loopback
  address; its origin is an HTTPS origin and nothing more; its password has at least twelve characters and its session secret 32 bytes; every limit and
  interval is in its range and every cap on a trade is positive; its default venue is enabled and every enabled venue has credentials; and the settings of
  both venues are for their test networks: the environment is \<open>testnet\<close>, every REST and WebSocket endpoint is the scheme, host and path of the venue's test
  network with no user, query or fragment, and every FIX address is the test network's host and port, as literals of the statement.
\<close>

theorem console_starts_guarded:
  assumes "LoadWebConfig order env base = Inr cfg" "set (order (tradeCaps cfg)) = set (tradeCaps cfg)"
  shows "reachable cfg \<and> guarded cfg \<and> limitsOk cfg \<and> list_all (\<lambda>(_, cap). positiveRat cap) (tradeCaps cfg) \<and> venuesOk base cfg"
proof -
  obtain errs where "readWebConfig env = (cfg, errs)" "errs @ validateWebConfig order base cfg = []"
    using assms(1) by (auto simp: LoadWebConfig_def Let_def split: prod.splits if_splits)
  then have r: "readWebConfig env = (cfg, [])" and v: "validateWebConfig order base cfg = []" by simp_all
  note n = validate_none [OF v assms(2)]
  have "reachable cfg" using n(1-3) readWebConfig_proxies [OF r] proxyNetworks_ok by (simp add: reachable_def)
  then show ?thesis using n(4-6) readWebConfig_limits [OF r] by simp
qed

definition demoSettings :: environment where
  "demoSettings = map_of
     [(''WEB_HOST'', ''10.0.0.1''), (''WEB_PUBLIC_ORIGIN'', ''https://desk.example''), (''WEB_TRUSTED_PROXY_CIDRS'', ''10.0.0.2/32''),
      (''WEB_USERNAME'', ''desk''), (''WEB_PASSWORD'', ''correct horse''),
      (''WEB_SESSION_SECRET'', ''QUFBQUFBQUFBQUFBQUFBQUFBQUFBQUFBQUFBQUFBQUE=''), (''BYBIT_ENABLED'', ''true''),
      (''BYBIT_API_KEY'', ''key''), (''BYBIT_API_SECRET'', ''secret'')]"

text \<open>The defaults of the base settings with Bybit's credentials.\<close>

definition demoBase :: Config where
  "demoBase = (LoadConfig (\<lambda>_. None))\<lparr>cf_APIKey := ''key'', cf_APISecret := ''secret''\<rparr>"

lemma default_env: "TrimSpace [] = []" "envOrDefault (\<lambda>_. None) name fallback = fallback"
  by (simp_all add: TrimSpace_def envOrDefault_def Getenv_def Let_def)

lemma demo_bybit: "ValidateTestnet demoBase = None"
proof -
  have "fixAddressOk TestnetFIXAddress ''fix-oe-testnet.bybit.com'' ''9000''" by code_simp
  then show ?thesis
    by (simp add: demoBase_def ValidateTestnet_def LoadConfig_def default_env
        approved [THEN validateExactURL_self])
qed

lemma demo_deribit_off: "validateDeribitTestnet (\<lambda>xs. xs) (cf_Deribit demoBase) = None"
proof -
  have "fixAddressOk DeribitTestnetFIXAddress ''fix-test.deribit.com'' ''9883''"
    "positiveRat ''100'' \<and> positiveRat ''500'' \<and> positiveRat ''2''" "ParseDuration ''30s'' = Some (30 * Second)"
    "TrimSpace ''deribit-test'' \<noteq> []"
    by code_simp+
  then show ?thesis
    by (simp add: demoBase_def LoadConfig_def loadDeribit_def Let_def validateDeribitTestnet_def default_env parseBoolEnv_def parsePositiveIntEnv_def
        Getenv_def approved [THEN validateExactURL_self] Second_def)
qed

text \<open>The console's settings as they are read.\<close>

definition demoRead :: WebConfig where
  "demoRead = fst (readWebConfig demoSettings)"

lemma demo_read:
  "case readWebConfig demoSettings of (cfg, errs) \<Rightarrow> errs = [] \<and> hostOk (wc_Host cfg) \<and> validatePublicOrigin (wc_PublicOrigin cfg) = None \<and>
     wc_TrustedProxyCIDRs cfg \<noteq> [] \<and> TrimSpace (wc_Username cfg) \<noteq> [] \<and> \<not> RuneCountInString (wc_Password cfg) < 12 \<and>
     \<not> length (wc_SessionSecret cfg) < 32 \<and> wc_BybitEnabled cfg \<and> \<not> wc_DeribitEnabled cfg \<and> wc_DefaultVenue cfg = VenueBybit \<and>
     concat (map capErrors (tradeCaps cfg)) = []"
  by code_simp

lemma demo_credentials: "RequireRESTCredentials demoBase = None"
proof -
  have "missingNames [(''BYBIT_API_KEY'', cf_APIKey demoBase), (''BYBIT_API_SECRET'', cf_APISecret demoBase)] = None" by code_simp
  then show ?thesis by (simp add: RequireRESTCredentials_def demo_bybit)
qed

lemma demo_config: "LoadWebConfig (\<lambda>xs. xs) demoSettings demoBase = Inr demoRead"
proof -
  obtain cfg errs where r: "readWebConfig demoSettings = (cfg, errs)" by (metis prod.exhaust)
  then have cfg: "cfg = demoRead" by (simp add: demoRead_def)
  have "validateWebConfig (\<lambda>xs. xs) demoBase cfg = []"
    unfolding validateWebConfig_def using demo_read r demo_bybit demo_deribit_off demo_credentials
    by (simp add: VenueBybit_def VenueDeribit_def)
  then show ?thesis using r demo_read cfg by (simp add: LoadWebConfig_def)
qed

theorem console_starts_guarded_witness:
  "LoadWebConfig (\<lambda>xs. xs) demoSettings demoBase = Inr demoRead \<and> reachable demoRead \<and> limitsOk demoRead \<and> venuesOk demoBase demoRead"
  using demo_config console_starts_guarded [OF demo_config] by blast

end
