(* ===== verification/Spec2Isabelle.thy ===== *)
theory Spec2Isabelle
  imports AppProps OrderMigration FixOrderProps PlannerProps TradeReconcileProps DeribitBook RuntimeEvents
    OrderReconcileProps DeribitReconcileProps DeribitFixJournal DeribitFixOrderProps AccountMetricsProps SpotProps WebProps ConfigProps
begin

text \<open>
  VenueWire connects one trader to the Bybit and Deribit test networks: a console asks for a quote,
  confirms it, and the program submits an order, follows it through streams and REST answers and keeps what
  it knows in local snapshot files; a second path plans and executes Deribit futures orders, and a third
  speaks FIX to both venues. This development models the program's own logic in HOL and proves what it
  promises.

  \<^bold>\<open>Foundations.\<close>
  \<open>Prelude\<close> has error values, results, Go maps as association lists, 64-bit wrap-around, and the locale of
  status machines. \<open>GoStrings\<close>, \<open>GoText\<close>, \<open>GoTime\<close>, \<open>GoCalendar\<close> and \<open>GoBig\<close> model what the code uses of Go's
  \<open>strings\<close>, \<open>bytes\<close>, \<open>strconv\<close>, \<open>net/url\<close>, \<open>time\<close> and \<open>math/big\<close>; \<open>GoNet\<close>, \<open>GoURL\<close> and \<open>GoConv\<close> addresses and
  networks, URLs, paths, base64, booleans and durations. \<open>FileStore\<close> models the file of a
  snapshot store with a fault at any step of its write protocol, and states the locale
  \<open>transactional_store\<close>, which both stores interpret.

  \<^bold>\<open>Domain.\<close> \<open>Domain\<close> models \<open>internal/domain\<close>: identities with their canonical text, orders, executions.
  Canonical order keys identify the order.

  \<^bold>\<open>Intents and quick trades.\<close> \<open>IntentData\<close> and \<open>IntentStore\<close> model \<open>internal/intent/store.go\<close> and
  \<open>quicktrade.go\<close>: plans, cursors and trades in one snapshot, every reading and writing operation.
  \<open>IntentInv\<close> proves the snapshot invariant and interprets the two locales; \<open>IntentProps\<close> has the
  properties (idempotent confirmation, limits, legal lifecycles, indexes, one claim of a plan, atomic
  updates, monotone cursor).

  \<^bold>\<open>Order state.\<close> \<open>OrderState\<close> models \<open>internal/orderstate\<close>: the store, the order state machine and the
  service; \<open>OrderInv\<close> proves its key invariant and the properties of executions and late REST answers;
  \<open>OrderMigration\<close> models \<open>migration.go\<close> with its round trip and fail-closed behaviour.

  \<^bold>\<open>Quotes and confirmations.\<close> \<open>Quote\<close> and \<open>QuoteProps\<close> model and verify \<open>internal/quicktrade/quote.go\<close>:
  sizes, protected limits and fees in exact rational arithmetic. \<open>QuickTradeApp\<close> models \<open>application.go\<close>: the handler \<open>Confirm\<close>, and the
  same handler as a program that performs one call to the store, the cache or the venue at a time (\<open>confirmStep\<close>), which run alone is
  \<open>Confirm\<close>. \<open>ConfirmRuns\<close> interleaves any number of confirmations at every such call, with quotes, other store operations and restarts; \<open>AppProps\<close>
  shows that over every such run no order is submitted twice and none without a durable record.

  \<^bold>\<open>Futures plans.\<close> \<open>DeribitData\<close> has the data, the tick size rule and the paging loops of
  \<open>internal/deribit\<close>. \<open>Planner\<close> and \<open>PlannerProps\<close> model and verify \<open>internal/intent/planner.go\<close>: a plan is made
  only inside the risk limits, and over every history it is handed to the venue at most once. Executions, too, are given both as the handler and as
  single steps (\<open>executeStep\<close>), and the histories interleave the steps.

  \<^bold>\<open>Settling trades.\<close> \<open>TradeReconcile\<close> and \<open>TradeReconcileProps\<close> model and verify \<open>internal/tradereconcile\<close>: paged
  listings are complete or an error (at most twenty pages, the bound of the code), fills are summed
  exactly, and a recheck, one step at a time among other activity (\<open>recheckStep\<close>), makes a trade final only on the evidence of the one order that
  matches it, or because the trade as it was read had never been sent. The last decision is not repeated when it is written, so a confirmation that
  sends the trade in between is overruled; \<open>recheck_rejects_sent\<close> shows such a run.

  \<^bold>\<open>Reconciliation of order state.\<close> \<open>Paging\<close> has the specification of paged listings and the unbounded loop of
  the Bybit reader as a partial function; \<open>BybitData\<close> the REST data. \<open>OrderReconcile\<close> with \<open>OrderReconcileProps\<close>
  (\<open>internal/reconcile\<close>) and \<open>DeribitReconcile\<close> with \<open>DeribitReconcileProps\<close> (\<open>internal/deribitreconcile\<close>) bring the order
  state and the plans in line with the venues: a plan is settled only on the evidence of the orders with its
  label, the trade cursor passes over no missing trade, and no fill is counted twice.

  \<^bold>\<open>Market data and events.\<close> \<open>DeribitBook\<close> models \<open>internal/deribit/book.go\<close>: a live book is what a snapshot and an
  unbroken chain of changes make of it. \<open>RuntimeEvents\<close> models \<open>internal/runtimeevent\<close>: every gap in a
  subscriber's stream is announced.

  \<^bold>\<open>FIX.\<close> \<open>FixCodec\<close> models \<open>internal/fix/codec.go\<close>, \<open>FixFramer\<close> \<open>framer.go\<close> with the locale \<open>framing\<close>
  (a stream may be cut anywhere), \<open>FixSession\<close> \<open>session.go\<close> as a step function on events, and \<open>FixOrders\<close>
  \<open>orders.go\<close> over the session and the order state service. \<open>FixSessionProps\<close> and \<open>FixOrderProps\<close> have
  the properties that span them: what one side sends the other side reads, in sequence, up to the first write that fails in the middle of a
  message (\<open>partial_write_breaks_stream\<close> shows what happens then); an order is recorded before it is sent.

  \<^bold>\<open>Deribit FIX.\<close> \<open>DeribitFixSession\<close> models \<open>internal/deribitfix/auth.go\<close> and \<open>session.go\<close>: the logon, numbered
  sends with their journal, gaps with the recovery buffer, resends and sequence resets. \<open>DeribitFixProps\<close>
  shows that messages are processed once and in order and that a gap is recovered completely,
  \<open>DeribitFixJournal\<close> that resend requests are answered from the journal, over any number of connections. \<open>DeribitFixOrders\<close> models \<open>orders.go\<close>, the
  security list, quantities and order messages; \<open>DeribitFixOrderProps\<close> shows what an accepted order is on the wire and how
  execution reports read back.

  \<^bold>\<open>Account state.\<close> \<open>AccountState\<close> models \<open>internal/accountstate/account.go\<close>, \<open>valuation.go\<close> and \<open>adapters.go\<close>, with a refresh as
  an entry, a commit and a leave that any other operation may come between; \<open>AccountMetrics\<close> models \<open>metrics.go\<close>. \<open>AccountProps\<close>
  proves over every history of operations that totals are exact, values fresh, capacities those of the latest answer
  and refreshes in flight unique per venue; \<open>AccountMetricsProps\<close> that only the first event of an order counts.

  \<^bold>\<open>Spot adapters.\<close> \<open>SpotAdapters\<close> models \<open>internal/spotadapter\<close>. \<open>SpotProps\<close> has the locale \<open>rules_source\<close>, which both
  adapters interpret, for the freshness of the cached rules, and composes the quote service with the Bybit
  adapter and the account manager: a quote never spends more than the account holds.

  \<^bold>\<open>Configuration.\<close> \<open>Config\<close> models \<open>internal/config/config.go\<close>, \<open>WebConfig\<close> models \<open>web.go\<close> and \<open>dotenv.go\<close>. The environment is a
  function from names to values; where the code ranges over a map literal, its order is an argument. \<open>ConfigProps\<close> shows
  what a console that starts is guaranteed, and that dotenv files only fill gaps of the environment.

  \<^bold>\<open>Web console.\<close> \<open>internal/webconsole\<close>: \<open>WebViews\<close> has what the browser is shown and the interfaces of the services as records
  of functions over a world that only they know; \<open>WebSessions\<close> the session store, the limiter of sign-ins and the coordinator of
  rechecks, each operation being what the code does under one lock; \<open>WebConsole\<close> the middleware (\<open>admit\<close>), the routes and the
  handlers (\<open>serve\<close>); \<open>WebSocket\<close> a browser's connection as a step function on what its loop selects. A request has its
  body as decoding it gives, since JSON text is not modelled. \<open>WebRuns\<close> interleaves requests with the phases of sign-ins
  and rechecks, sockets and the services' own work, and proves that whatever changes behind the console is due to a
  signed-in request; \<open>WebLimits\<close> bounds the passwords that can be tried, by sign-ins one after the other, because the limiter
  asks and records in two critical sections; \<open>WebSessionProps\<close> is about the session store, \<open>WebProps\<close> has the
  properties and \<open>WebDemo\<close> the console its witnesses run on. The status of the multiplexer's redirects depends on the release of Go
  and is a field of the server; case folding is that of ASCII.

  \<^bold>\<open>Conventions.\<close> Strings are byte lists; a \<open>*time.Time\<close> is an option; clock readings and random
  identifiers are arguments. A file is modelled up to JSON decoding. Venue clients, signers and transports
  are parameters. An \<open>int\<close> is mathematical where its range was checked, and wraps explicitly where the code
  can overflow. Loops are total functions, except the one
  the code does not bound; reading and reconnecting loops run over the finite sequence of
  events they are given, of any length.

  \<^bold>\<open>Concurrency.\<close> Whatever the code does under one lock, or in one locked transaction of a file, is one step. Confirmations, executions, rechecks, sign-ins,
  rechecks asked for by a browser and refreshes of accounts are sequences of such steps that others come between. The questions a handler asks a venue between two
  steps on the program's own state are one step: they read nothing of it. The services in \<open>Recover\<close>, the two reconcilers of order state and plans,
  the FIX order router and the migration are modelled as uninterrupted operations.

  \<^bold>\<open>Not modelled.\<close> HTTP, WebSocket and TLS input and output, JSON text, HMAC and RSA signatures, logging,
  the browser's own scripts, command-line parsing and the mock exchanges.
\<close>

end
